(* ===== verification/Prelude.thy ===== *)
theory Prelude
  imports Main "HOL-Library.Word"
begin

unbundle bit_operations_syntax

text \<open>
  Shared vocabulary of the development: the machine integers of the firmware,
  runs of event-driven components, wrapping generation counters, ring buffers
  seen as lists, and the lemma collections the component theories add to.
  Nothing here models a particular source file; the locales of this theory are
  the contracts that the component theories interpret on their own definitions.
\<close>

type_synonym u8 = "8 word"
type_synonym u16 = "16 word"
type_synonym u32 = "32 word"
type_synonym u64 = "64 word"
type_synonym bytes = "u8 list"

named_theorems op_defs \<open>definitions of component operations\<close>
named_theorems inv_defs \<open>definitions of component invariants\<close>

section \<open>Runs of event-driven components\<close>

text \<open>A component is a step function; a run feeds it a list of events.\<close>

definition run :: "('s \<Rightarrow> 'e \<Rightarrow> 's) \<Rightarrow> 's \<Rightarrow> 'e list \<Rightarrow> 's" where
  "run step s es = foldl step s es"

lemma run_Nil [simp]: "run step s [] = s"
  by (simp add: run_def)

lemma run_Cons [simp]: "run step s (e # es) = run step (step s e) es"
  by (simp add: run_def)

lemma run_append [simp]: "run step s (es @ fs) = run step (run step s es) fs"
  by (simp add: run_def)

text \<open>
  The log of a run pairs every event with the output the component produced
  for it, in order.
\<close>

fun run_log :: "('s \<Rightarrow> 'e \<Rightarrow> 's \<times> 'o) \<Rightarrow> 's \<Rightarrow> 'e list \<Rightarrow> ('e \<times> 'o) list" where
  "run_log step s [] = []"
| "run_log step s (e # es) =
     (let (s', out) = step s e in (e, out) # run_log step s' es)"

lemma run_log_append:
  "run_log step s (es @ fs) =
     run_log step s es @ run_log step (run (\<lambda>s e. fst (step s e)) s es) fs"
  by (induction es arbitrary: s) (auto simp: case_prod_beta Let_def)

lemma map_fst_run_log [simp]: "map fst (run_log step s es) = es"
  by (induction es arbitrary: s) (auto simp: case_prod_beta Let_def)

text \<open>
  The contract of a component whose every operation keeps an invariant that
  its constructor establishes.
\<close>

locale event_machine =
  fixes step :: "'s \<Rightarrow> 'e \<Rightarrow> 's"
    and init :: 's
    and inv :: "'s \<Rightarrow> bool"
  assumes inv_init: "inv init"
    and inv_step: "inv s \<Longrightarrow> inv (step s e)"
begin

lemma inv_run: "inv s \<Longrightarrow> inv (run step s es)"
  by (induction es arbitrary: s) (auto intro: inv_step)

lemma inv_reachable: "inv (run step init es)"
  by (rule inv_run [OF inv_init])

end

text \<open>
  A machine that also returns outputs, observed through a ghost value that is
  computed from the log of calls and outputs alone: a simulation relation
  between state and ghost that every step keeps holds after every run.
\<close>

locale ghost_machine =
  event_machine "\<lambda>s e. fst (step s e)" init inv
  for step :: "'s \<Rightarrow> 'e \<Rightarrow> 's \<times> 'o"
    and init :: 's
    and inv :: "'s \<Rightarrow> bool" +
  fixes ghost :: "'g \<Rightarrow> 'e \<times> 'o \<Rightarrow> 'g"
    and start :: 'g
    and rel :: "'s \<Rightarrow> 'g \<Rightarrow> bool"
  assumes rel_init: "rel init start"
    and rel_step: "inv s \<Longrightarrow> rel s g \<Longrightarrow> step s e = (s', out) \<Longrightarrow> rel s' (ghost g (e, out))"
begin

lemma rel_run:
  "inv s \<Longrightarrow> rel s g \<Longrightarrow>
     rel (run (\<lambda>s e. fst (step s e)) s es) (foldl ghost g (run_log step s es))"
proof (induction es arbitrary: s g)
  case Nil
  then show ?case by simp
next
  case (Cons e es)
  obtain s' out where st: "step s e = (s', out)" by (cases "step s e") auto
  from Cons.prems(1) st have "inv s'" using inv_step [of s e] by simp
  with Cons.IH st rel_step [OF Cons.prems st] show ?case by simp
qed

lemma rel_reachable:
  "rel (run (\<lambda>s e. fst (step s e)) init es) (foldl ghost start (run_log step init es))"
  by (rule rel_run [OF inv_init rel_init])

end

text \<open>
  A checker automaton over the emitted outputs: \<open>observe\<close> runs the checker on
  one output, \<open>None\<close> is a violation.  A violation is never recovered from.
\<close>

fun check_outputs :: "('c \<Rightarrow> 'o \<Rightarrow> 'c option) \<Rightarrow> 'c \<Rightarrow> 'o list \<Rightarrow> 'c option" where
  "check_outputs observe c [] = Some c"
| "check_outputs observe c (x # xs) =
     (case observe c x of None \<Rightarrow> None | Some c' \<Rightarrow> check_outputs observe c' xs)"

lemma check_outputs_append:
  "check_outputs observe c (xs @ ys) =
     (case check_outputs observe c xs of None \<Rightarrow> None | Some c' \<Rightarrow> check_outputs observe c' ys)"
  by (induction xs arbitrary: c) (auto split: option.splits)

locale observed_machine =
  event_machine "\<lambda>s e. fst (step s e)" init inv
  for step :: "'s \<Rightarrow> 'e \<Rightarrow> 's \<times> 'o list"
    and init :: 's
    and inv :: "'s \<Rightarrow> bool" +
  fixes observe :: "'c \<Rightarrow> 'o \<Rightarrow> 'c option"
    and view :: "'s \<Rightarrow> 'c"
  assumes view_step: "inv s \<Longrightarrow> step s e = (s', out) \<Longrightarrow> check_outputs observe (view s) out = Some (view s')"

sublocale observed_machine \<subseteq> ghosted: ghost_machine step init inv
  "\<lambda>g log. Option.bind g (\<lambda>c. check_outputs observe c (snd log))" "Some (view init)" "\<lambda>s g. g = Some (view s)"
  by unfold_locales (auto intro: view_step)

context observed_machine
begin

lemma checked_fold:
  "foldl (\<lambda>g log. Option.bind g (\<lambda>c. check_outputs observe c (snd log))) (Some c) entries
     = check_outputs observe c (concat (map snd entries))"
proof (induction entries arbitrary: c)
  case Nil
  then show ?case by simp
next
  case (Cons entry entries)
  have none: "foldl (\<lambda>g log. Option.bind g (\<lambda>c. check_outputs observe c (snd log))) None entries = None"
    by (induction entries) auto
  show ?case
    using Cons.IH none by (auto simp: check_outputs_append split: option.splits)
qed

lemma view_reachable:
  "check_outputs observe (view init) (concat (map snd (run_log step init es))) =
     Some (view (run (\<lambda>s e. fst (step s e)) init es))"
  using ghosted.rel_reachable [of es] by (simp add: checked_fold)

end

section \<open>Wrapping 32-bit generation counters\<close>

text \<open>
  Several components number their lifetimes with a 32-bit counter that skips
  zero when it wraps, because zero means "no lifetime".  The contract fixes the
  successor; its consequences are that zero is never issued and that a value
  repeats only after all other \<open>2 ^ 32 - 1\<close> nonzero values.
\<close>

lemma unat_u32_less: "unat (x :: u32) < 4294967296"
  using unsigned_less [of x] by simp

lemma unat_max32: "unat (- 1 :: u32) = 4294967295"
  by (simp add: unsigned_minus_1_eq_mask mask_eq_exp_minus_1)

lemma unat_less_max32:
  assumes "(c :: u32) \<noteq> - 1"
  shows "unat c < 4294967295"
proof -
  have "unat c \<noteq> unat (- 1 :: u32)" using assms by (metis word_unat_eq_iff)
  then show ?thesis using unat_u32_less [of c] by (simp only: unat_max32)
qed

locale nonzero_counter =
  fixes next_gen :: "u32 \<Rightarrow> u32"
  assumes next_max: "next_gen (- 1) = 1"
    and next_other: "c \<noteq> - 1 \<Longrightarrow> next_gen c = c + 1"
begin

lemma unat_next: "unat (next_gen c) = unat c mod (2 ^ 32 - 1) + 1"
proof (cases "c = - 1")
  case True
  then show ?thesis by (simp add: next_max unat_max32)
next
  case False
  have "unat c < 2 ^ 32 - 1" using False by (simp add: unat_less_max32)
  moreover from this have "unat (c + 1) = unat c + 1"
    by (simp add: unat_word_ariths)
  ultimately show ?thesis by (simp add: next_other False)
qed

lemma next_nonzero: "next_gen c \<noteq> 0"
proof
  assume "next_gen c = 0"
  then have "unat (next_gen c) = 0" by simp
  then show False by (simp add: unat_next)
qed

lemma unat_iterate: "unat ((next_gen ^^ Suc n) c) = (unat c + n) mod (2 ^ 32 - 1) + 1"
proof (induction n)
  case 0
  then show ?case by (simp add: unat_next)
next
  case (Suc n)
  have "unat ((next_gen ^^ Suc (Suc n)) c) = unat ((next_gen ^^ Suc n) c) mod (2 ^ 32 - 1) + 1"
    by (simp add: unat_next)
  also have "\<dots> = (unat c + Suc n) mod (2 ^ 32 - 1) + 1"
    by (simp only: Suc.IH) (simp add: mod_Suc_eq)
  finally show ?case .
qed

lemma iterate_distinct:
  assumes "i < j" and "j < i + (2 ^ 32 - 1)"
  shows "(next_gen ^^ Suc i) c \<noteq> (next_gen ^^ Suc j) c"
proof
  assume "(next_gen ^^ Suc i) c = (next_gen ^^ Suc j) c"
  then have "(unat c + i) mod (2 ^ 32 - 1) = (unat c + j) mod (2 ^ 32 - 1)"
    using unat_iterate [of i c] unat_iterate [of j c] by simp
  then have "(2 ^ 32 - 1) dvd ((unat c + j) - (unat c + i))"
    by (metis mod_eq_dvd_iff_nat assms(1) add_le_cancel_left less_imp_le)
  then have "(2 ^ 32 - 1) dvd (j - i)" by simp
  moreover have "0 < j - i" and "j - i < 2 ^ 32 - 1" using assms by auto
  ultimately show False using dvd_imp_le by fastforce
qed

lemma next_pred: "c \<noteq> 0 \<Longrightarrow> next_gen (c - 1) = c"
  using next_other [of "c - 1"] by auto

lemma iterate_nonzero: "c \<noteq> 0 \<Longrightarrow> (next_gen ^^ n) c \<noteq> 0"
  by (cases n) (auto simp: next_nonzero)

lemma iterate_distinct_from:
  assumes "c \<noteq> 0" and "i < j" and "j < i + (2 ^ 32 - 1)"
  shows "(next_gen ^^ i) c \<noteq> (next_gen ^^ j) c"
  using iterate_distinct [OF assms(2,3), of "c - 1"] next_pred [OF assms(1)]
  by (simp del: funpow.simps add: funpow_Suc_right)

text \<open>A stretch of consecutive numbers, oldest first, as a queue holds them.\<close>

definition consecutive :: "u32 \<Rightarrow> nat \<Rightarrow> u32 list" where
  "consecutive c n = map (\<lambda>i. (next_gen ^^ i) c) [0..<n]"

lemma consecutive_snoc: "consecutive c (Suc n) = consecutive c n @ [(next_gen ^^ n) c]"
  by (simp add: consecutive_def)

lemma consecutive_tl: "tl (consecutive c n) = consecutive (next_gen c) (n - 1)"
proof (cases n)
  case 0
  then show ?thesis by (simp add: consecutive_def)
next
  case (Suc m)
  then have "consecutive c n = c # consecutive (next_gen c) m"
    by (simp add: consecutive_def upt_conv_Cons map_Suc_upt [symmetric] funpow_swap1 del: upt_Suc)
  with Suc show ?thesis by simp
qed

lemma distinct_consecutive:
  assumes "c \<noteq> 0" and "n < 2 ^ 32"
  shows "distinct (consecutive c n)"
proof -
  have "(next_gen ^^ i) c \<noteq> (next_gen ^^ j) c" if "i < j" "j < n" for i j
    using iterate_distinct_from [OF assms(1) that(1)] that assms(2) by auto
  then have "inj_on (\<lambda>i. (next_gen ^^ i) c) {0..<n}"
    by (intro linorder_inj_onI) auto
  then show ?thesis by (simp add: consecutive_def distinct_map)
qed

end

section \<open>Ring buffers as lists\<close>

text \<open>
  A ring buffer is an array, the index of its first item and the number of
  items.  \<open>ring_list\<close> reads the items in queue order.
\<close>

definition ring_list :: "'a list \<Rightarrow> nat \<Rightarrow> nat \<Rightarrow> 'a list" where
  "ring_list buf head n = map (\<lambda>i. buf ! ((head + i) mod length buf)) [0..<n]"

lemma length_ring_list [simp]: "length (ring_list buf head n) = n"
  by (simp add: ring_list_def)

lemma ring_list_0 [simp]: "ring_list buf head 0 = []"
  by (simp add: ring_list_def)

lemma nth_ring_list [simp]: "i < n \<Longrightarrow> ring_list buf head n ! i = buf ! ((head + i) mod length buf)"
  by (simp add: ring_list_def)

lemma ring_index_inj:
  fixes i j cap :: nat
  assumes "(h + i) mod cap = (h + j) mod cap" and "i < cap" and "j < cap"
  shows "i = j"
proof -
  have dvd: "cap dvd (m - k)" if "k \<le> m" and "(h + k) mod cap = (h + m) mod cap" for k m
    using that mod_eq_dvd_iff_nat [of "h + k" "h + m" cap] by simp
  have "m = k" if "k \<le> m" and "m < cap" and "(h + k) mod cap = (h + m) mod cap" for k m
    using dvd [OF that(1,3)] that(1,2) nat_dvd_not_less [of "m - k" cap] by fastforce
  then show ?thesis using assms by (metis nat_le_linear)
qed

lemma ring_list_push:
  assumes "n < length buf"
  shows "ring_list (buf[(head + n) mod length buf := x]) head (Suc n) = ring_list buf head n @ [x]"
proof (rule nth_equalityI)
  fix i
  assume "i < length (ring_list (buf[(head + n) mod length buf := x]) head (Suc n))"
  then have i: "i \<le> n" by simp
  have pos: "0 < length buf" using assms by auto
  show "ring_list (buf[(head + n) mod length buf := x]) head (Suc n) ! i = (ring_list buf head n @ [x]) ! i"
  proof (cases "i = n")
    case True
    with pos show ?thesis by (simp add: nth_append)
  next
    case False
    with i have "i < n" by simp
    moreover have "(head + i) mod length buf \<noteq> (head + n) mod length buf"
      using ring_index_inj [of head i "length buf" n] \<open>i < n\<close> assms by auto
    ultimately show ?thesis by (simp add: nth_append)
  qed
qed simp

lemma ring_list_pop:
  assumes "0 < n" and "n \<le> length buf" and "head < length buf"
  shows "ring_list (buf[head := x]) ((head + 1) mod length buf) (n - 1) = tl (ring_list buf head n)"
proof (rule nth_equalityI)
  fix i
  assume "i < length (ring_list (buf[head := x]) ((head + 1) mod length buf) (n - 1))"
  then have i: "i < n - 1" by simp
  have ne: "(head + Suc i) mod length buf \<noteq> head"
  proof
    assume "(head + Suc i) mod length buf = head"
    then have "(head + Suc i) mod length buf = (head + 0) mod length buf" using assms by simp
    then show False using ring_index_inj [of head "Suc i" "length buf" 0] i assms by linarith
  qed
  show "ring_list (buf[head := x]) ((head + 1) mod length buf) (n - 1) ! i = tl (ring_list buf head n) ! i"
    using i ne by (simp add: nth_tl mod_add_left_eq)
qed simp

lemma ring_list_hd:
  "0 < n \<Longrightarrow> head < length buf \<Longrightarrow> hd (ring_list buf head n) = buf ! head"
  by (simp add: ring_list_def hd_map upt_rec)

lemma ring_list_Cons:
  assumes "0 < n" and "n \<le> length buf" and "head < length buf"
  shows "ring_list buf head n = buf ! head # ring_list (buf[head := x]) ((head + 1) mod length buf) (n - 1)"
  using assms by (metis ring_list_pop ring_list_hd list.collapse length_0_conv length_ring_list less_numeral_extra(3))

lemma ring_list_last:
  "0 < n \<Longrightarrow> last (ring_list buf head n) = buf ! ((head + n - 1) mod length buf)"
  by (simp add: last_conv_nth del: length_0_conv flip: length_greater_0_conv)

lemma ring_list_update_last:
  assumes "0 < n" and "n \<le> length buf"
  shows "ring_list (buf[(head + n - 1) mod length buf := x]) head n = butlast (ring_list buf head n) @ [x]"
proof -
  obtain m where m: "n = Suc m" using assms(1) by (cases n) auto
  then have "ring_list (buf[(head + n - 1) mod length buf := x]) head n = ring_list buf head m @ [x]"
    using ring_list_push [of m buf head x] assms(2) by simp
  moreover have "butlast (ring_list buf head n) = ring_list buf head m"
    by (simp add: m ring_list_def)
  ultimately show ?thesis by simp
qed

lemma ring_list_update_head:
  assumes "0 < n" and "n \<le> length buf" and "head < length buf"
  shows "ring_list (buf[head := x]) head n = x # tl (ring_list buf head n)"
proof -
  have "ring_list (buf[head := x]) head n
      = x # ring_list (buf[head := x]) ((head + 1) mod length buf) (n - 1)"
    using ring_list_Cons [of n "buf[head := x]" head x] assms by simp
  also have "\<dots> = x # tl (ring_list buf head n)"
    using ring_list_pop [OF assms] by simp
  finally show ?thesis .
qed

text \<open>
  The contract of a bounded first-in first-out queue whose items carry sequence
  numbers: a consumer looks at the front and removes it by its number, so that a
  stale number removes nothing.
\<close>

locale seq_fifo =
  fixes items :: "'q \<Rightarrow> 'a list"
    and inv :: "'q \<Rightarrow> bool"
    and seq_of :: "'a \<Rightarrow> u32"
    and front :: "'q \<Rightarrow> 'a option"
    and pop_if :: "'q \<Rightarrow> u32 \<Rightarrow> bool \<times> 'q"
    and capacity :: nat
  assumes bounded: "inv q \<Longrightarrow> length (items q) \<le> capacity"
    and front_items: "inv q \<Longrightarrow> front q = (case items q of [] \<Rightarrow> None | x # xs \<Rightarrow> Some x)"
    and pop_hit: "inv q \<Longrightarrow> items q = x # xs \<Longrightarrow> pop_if q (seq_of x) = (ok, q') \<Longrightarrow> ok \<and> items q' = xs"
    and pop_miss: "inv q \<Longrightarrow> items q = [] \<or> seq_of (hd (items q)) \<noteq> n \<Longrightarrow> pop_if q n = (False, q)"
    and inv_pop: "inv q \<Longrightarrow> inv (snd (pop_if q n))"
begin

lemma front_Some: "inv q \<Longrightarrow> front q = Some x \<Longrightarrow> items q = x # tl (items q)"
  by (auto simp: front_items split: list.splits)

lemma front_None: "inv q \<Longrightarrow> front q = None \<longleftrightarrow> items q = []"
  by (auto simp: front_items split: list.splits)

lemma pop_front:
  assumes "inv q" and "front q = Some x"
  shows "fst (pop_if q (seq_of x))" and "items (snd (pop_if q (seq_of x))) = tl (items q)"
  using pop_hit [OF assms(1) front_Some [OF assms], of "fst (pop_if q (seq_of x))" "snd (pop_if q (seq_of x))"]
  by auto

lemma pop_items:
  assumes "inv q"
  shows "items (snd (pop_if q n)) = items q \<or> items (snd (pop_if q n)) = tl (items q)"
proof (cases "items q = [] \<or> seq_of (hd (items q)) \<noteq> n")
  case True
  then show ?thesis using pop_miss [OF assms] by simp
next
  case False
  then obtain x xs where "items q = x # xs" and "seq_of x = n"
    by (cases "items q") auto
  then show ?thesis using pop_hit [OF assms, of x xs "fst (pop_if q n)" "snd (pop_if q n)"] by auto
qed

text \<open>Removing the front repeatedly yields the items in queue order and empties the queue.\<close>

fun drain :: "nat \<Rightarrow> 'q \<Rightarrow> 'a list \<times> 'q" where
  "drain 0 q = ([], q)"
| "drain (Suc k) q =
     (case front q of
        None \<Rightarrow> ([], q)
      | Some x \<Rightarrow> (let (xs, q') = drain k (snd (pop_if q (seq_of x))) in (x # xs, q')))"

lemma drain_take:
  "inv q \<Longrightarrow> fst (drain k q) = take k (items q) \<and> items (snd (drain k q)) = drop k (items q)"
proof (induction k arbitrary: q)
  case 0
  then show ?case by simp
next
  case (Suc k)
  show ?case
  proof (cases "front q")
    case None
    then have "items q = []" using front_None [OF Suc.prems] by simp
    with None show ?thesis by simp
  next
    case (Some x)
    let ?q = "snd (pop_if q (seq_of x))"
    have "inv ?q" using inv_pop [OF Suc.prems] .
    then have "fst (drain k ?q) = take k (items ?q)" "items (snd (drain k ?q)) = drop k (items ?q)"
      using Suc.IH by auto
    moreover have "items ?q = tl (items q)" using pop_front [OF Suc.prems Some] by simp
    moreover have "items q = x # tl (items q)" using front_Some [OF Suc.prems Some] .
    ultimately show ?thesis using Some
      by (metis (no_types, lifting) case_prod_beta drain.simps(2) drop_Suc_Cons fst_conv
          option.case(2) prod.collapse snd_conv take_Suc_Cons Pair_inject)
  qed
qed

lemma drain_all:
  assumes "inv q"
  shows "drain capacity q = (items q, snd (drain capacity q))" and "items (snd (drain capacity q)) = []"
  using drain_take [OF assms, of capacity] bounded [OF assms] by (auto simp: prod_eq_iff)

end

section \<open>Bits and bytes\<close>

text \<open>The value of a character as an unsigned byte.\<close>

definition code_of :: "char \<Rightarrow> nat" where
  "code_of c = of_char c"

lemma unat_u8_less [simp]: "unat (x :: u8) < 256"
  using unsigned_less [of x] by simp

lemma unat_plus_1_less: "(k :: u32) < t \<Longrightarrow> unat (k + 1) = Suc (unat k)"
proof -
  assume "k < t"
  then have "unat k + 1 < 4294967296"
    using unat_u32_less [of t] by (simp add: word_less_nat_alt)
  then show ?thesis by (simp add: unat_word_ariths)
qed

lemma take_bit_self_word:
  fixes w :: "'a::len word"
  assumes "unat w < 2 ^ n"
  shows "take_bit n w = w"
  using assms by (simp add: word_unat_eq_iff unsigned_take_bit_eq take_bit_nat_eq_self)

lemma bit_word_small:
  fixes w :: "'a::len word"
  assumes "unat w < 2 ^ n" and "n \<le> k"
  shows "\<not> bit w k"
  using assms take_bit_self_word [OF assms(1)] by (metis bit_take_bit_iff not_le)

lemma bit_word_beyond: "LENGTH('a::len) \<le> k \<Longrightarrow> \<not> bit (w :: 'a word) k"
  using bit_imp_le_length by fastforce

lemma list_update_same_last: "xs \<noteq> [] \<Longrightarrow> butlast xs @ [last xs] = xs"
  by simp

text \<open>The bounded value of the standard library's \<open>std::clamp\<close>, which several components use.\<close>

definition clamp_int :: "int \<Rightarrow> int \<Rightarrow> int \<Rightarrow> int" where
  "clamp_int v lo hi = (if v < lo then lo else if hi < v then hi else v)"

end
