(* ===== verification/Keymap.thy ===== *)
theory Keymap
  imports Prelude
begin

text \<open>
  \<^verbatim>\<open>components/keyboard/include/keyboard/keymap.h\<close> and \<^verbatim>\<open>src/keymap.cpp\<close>: the
  physical inputs, the actions a key can be bound to, the default keymap and
  the event that an action produces when its key is pressed or released.
  \<^verbatim>\<open>InputId::Count\<close> is a value of the enum that is no input; it is kept, because
  the code guards against it.
\<close>

datatype InputId = Key1 | Key2 | Key3 | Key4 | Key5 | Key6 | Key7 | Key8
  | EncoderLeft | EncoderRight | EncoderPress | InputCount

fun input_index :: "InputId \<Rightarrow> nat" where
  "input_index Key1 = 0"
| "input_index Key2 = 1"
| "input_index Key3 = 2"
| "input_index Key4 = 3"
| "input_index Key5 = 4"
| "input_index Key6 = 5"
| "input_index Key7 = 6"
| "input_index Key8 = 7"
| "input_index EncoderLeft = 8"
| "input_index EncoderRight = 9"
| "input_index EncoderPress = 10"
| "input_index InputCount = 11"

definition kKeyboardStateSourceCount :: nat where
  "kKeyboardStateSourceCount = input_index InputCount"

datatype InputPhase = Pressed | Released

datatype ActionKind = Disabled | VoicePttHold | EditPttHold | PasteLast | OpenHistory
  | ToggleProfile | Hotkey | FixedText | PreviousProfile | NextProfile | Settings
  | ScrollAxisToggle | SelectAll | Copy | Paste | Undo

datatype HostPlatform = MacOS | Windows

record Action =
  ac_kind :: ActionKind
  ac_hotkey :: string
  ac_text :: string

definition make_action :: "ActionKind \<Rightarrow> string \<Rightarrow> Action" where
  "make_action kind hotkey = \<lparr>ac_kind = kind, ac_hotkey = hotkey, ac_text = ''''\<rparr>"

text \<open>A keymap is the array of the eleven actions, indexed by the input.\<close>

type_synonym Keymap = "Action list"

text \<open>\<^verbatim>\<open>std::array::at\<close> throws out of range: \<open>None\<close>.\<close>

definition action_for :: "Keymap \<Rightarrow> InputId \<Rightarrow> Action option" where
  "action_for keymap input =
     (if input_index input < length keymap then Some (keymap ! input_index input) else None)"

definition DefaultKeymap :: Keymap where
  "DefaultKeymap =
     [make_action VoicePttHold '''',
      make_action Hotkey ''Return'',
      make_action EditPttHold '''',
      make_action Hotkey ''Backspace'',
      make_action SelectAll '''',
      make_action Copy '''',
      make_action Paste '''',
      make_action Undo '''',
      make_action Disabled '''',
      make_action Disabled '''',
      make_action ScrollAxisToggle '''']"

datatype FirmwareEventKind = NoEvent | HidKeyDown | HidKeyUp | HidTap | FixedTextEvent | AppCommandEvent

record FirmwareEvent =
  fe_kind :: FirmwareEventKind
  fe_value :: string
  fe_bridge_app_hotkey :: bool

definition no_firmware_event :: FirmwareEvent where
  "no_firmware_event = \<lparr>fe_kind = NoEvent, fe_value = '''', fe_bridge_app_hotkey = False\<rparr>"

definition command_event :: "string \<Rightarrow> InputPhase \<Rightarrow> FirmwareEvent" where
  "command_event v phase =
     (if phase = Released then no_firmware_event
      else \<lparr>fe_kind = AppCommandEvent, fe_value = v, fe_bridge_app_hotkey = False\<rparr>)"

definition host_platform_name :: "HostPlatform \<Rightarrow> string" where
  "host_platform_name platform = (if platform = Windows then ''windows'' else ''macos'')"

definition semantic_hotkey :: "ActionKind \<Rightarrow> HostPlatform \<Rightarrow> string" where
  "semantic_hotkey action platform =
     (let modifier = (if platform = Windows then ''Ctrl'' else ''Meta'') in
      case action of
        SelectAll \<Rightarrow> modifier @ ''+A''
      | Copy \<Rightarrow> modifier @ ''+C''
      | Paste \<Rightarrow> modifier @ ''+V''
      | Undo \<Rightarrow> modifier @ ''+Z''
      | _ \<Rightarrow> '''')"

definition key_edge :: "InputPhase \<Rightarrow> FirmwareEventKind" where
  "key_edge phase = (if phase = Pressed then HidKeyDown else HidKeyUp)"

definition event_for_action ::
  "Action \<Rightarrow> InputPhase \<Rightarrow> string \<Rightarrow> string \<Rightarrow> HostPlatform \<Rightarrow> FirmwareEvent" where
  "event_for_action action phase ptt_hotkey edit_ptt_hotkey platform =
     (case ac_kind action of
        VoicePttHold \<Rightarrow>
          \<lparr>fe_kind = key_edge phase, fe_value = ptt_hotkey, fe_bridge_app_hotkey = True\<rparr>
      | EditPttHold \<Rightarrow>
          \<lparr>fe_kind = key_edge phase, fe_value = edit_ptt_hotkey, fe_bridge_app_hotkey = True\<rparr>
      | Hotkey \<Rightarrow>
          \<lparr>fe_kind = key_edge phase, fe_value = ac_hotkey action, fe_bridge_app_hotkey = False\<rparr>
      | SelectAll \<Rightarrow>
          \<lparr>fe_kind = key_edge phase, fe_value = semantic_hotkey (ac_kind action) platform,
           fe_bridge_app_hotkey = False\<rparr>
      | Copy \<Rightarrow>
          \<lparr>fe_kind = key_edge phase, fe_value = semantic_hotkey (ac_kind action) platform,
           fe_bridge_app_hotkey = False\<rparr>
      | Paste \<Rightarrow>
          \<lparr>fe_kind = key_edge phase, fe_value = semantic_hotkey (ac_kind action) platform,
           fe_bridge_app_hotkey = False\<rparr>
      | Undo \<Rightarrow>
          \<lparr>fe_kind = key_edge phase, fe_value = semantic_hotkey (ac_kind action) platform,
           fe_bridge_app_hotkey = False\<rparr>
      | FixedText \<Rightarrow>
          (if phase = Released then no_firmware_event
           else \<lparr>fe_kind = FixedTextEvent, fe_value = ac_text action, fe_bridge_app_hotkey = False\<rparr>)
      | PasteLast \<Rightarrow> command_event ''paste_last'' phase
      | OpenHistory \<Rightarrow> command_event ''history'' phase
      | ToggleProfile \<Rightarrow> command_event ''toggle_profile'' phase
      | PreviousProfile \<Rightarrow> command_event ''previous_profile'' phase
      | NextProfile \<Rightarrow> command_event ''next_profile'' phase
      | Settings \<Rightarrow> command_event ''settings'' phase
      | ScrollAxisToggle \<Rightarrow> no_firmware_event
      | Disabled \<Rightarrow> no_firmware_event)"

lemma input_index_le: "input_index i \<le> 11"
  by (cases i) auto

lemma input_index_inj [simp]: "input_index i = input_index j \<longleftrightarrow> i = j"
  by (cases i; cases j) auto

lemma input_index_less: "input_index i < 11 \<longleftrightarrow> i \<noteq> InputCount"
  by (cases i) auto

lemma input_at_index: "k < 11 \<Longrightarrow> \<exists>i. input_index i = k \<and> i \<noteq> InputCount"
proof -
  assume "k < 11"
  moreover have "\<forall>k \<in> {..<11}. \<exists>i \<in> {Key1, Key2, Key3, Key4, Key5, Key6, Key7, Key8,
      EncoderLeft, EncoderRight, EncoderPress}. input_index i = k"
    by (simp add: numeral_eq_Suc lessThan_Suc)
  ultimately obtain i where "i \<in> {Key1, Key2, Key3, Key4, Key5, Key6, Key7, Key8,
      EncoderLeft, EncoderRight, EncoderPress}" and "input_index i = k"
    by blast
  then show ?thesis by blast
qed

text \<open>
  A key that is bound to a hold action produces matching down and up events
  with the same value, on either platform.
\<close>

lemma event_for_action_release_matches_press:
  assumes "fe_kind (event_for_action a Pressed ptt edit platform) = HidKeyDown"
  shows "event_for_action a Released ptt edit platform =
    (event_for_action a Pressed ptt edit platform)\<lparr>fe_kind := HidKeyUp\<rparr>"
  using assms
  by (auto simp: event_for_action_def key_edge_def command_event_def no_firmware_event_def
      split: ActionKind.splits)

end
