(* ===== verification/Slot_State.thy ===== *)
theory Slot_State
  imports Keymap
begin

text \<open>
  \<^verbatim>\<open>components/keyboard/include/keyboard/codex_slot_state.h\<close> and
  \<^verbatim>\<open>src/codex_slot_state.cpp\<close>: the four-slot push-to-talk and playback state of
  the device.  Keys 1 to 4 hold a microphone capture for their slot, keys 5 to 8
  request the playback of a slot's summary, and the Host drives an accepted
  playback through its phases.  Methods with a C++ result return it paired with
  the new state.
\<close>

section \<open>Capture session identities\<close>

definition kFirstSlot :: u8 where "kFirstSlot = 1"
definition kLastSlot :: u8 where "kLastSlot = 4"
definition kCaptureSessionMagic :: u8 where "kCaptureSessionMagic = 0xEC"
definition kCaptureSessionMaxConnectionGeneration :: u32 where
  "kCaptureSessionMaxConnectionGeneration = 0x000FFFFF"

record CaptureSessionIdentity =
  ci_slot :: u8
  ci_capture_generation :: u32
  ci_connection_generation :: u32

definition encode_capture_session_identity :: "CaptureSessionIdentity \<Rightarrow> u64" where
  "encode_capture_session_identity identity =
     (if ci_slot identity < kFirstSlot \<or> ci_slot identity > kLastSlot \<or>
         ci_capture_generation identity = 0 \<or> ci_connection_generation identity = 0 \<or>
         ci_connection_generation identity > kCaptureSessionMaxConnectionGeneration
      then 0
      else push_bit 56 (ucast kCaptureSessionMagic) OR
           push_bit 52 (ucast (ci_slot identity)) OR
           push_bit 32 (ucast (ci_connection_generation identity)) OR
           ucast (ci_capture_generation identity))"

definition decode_capture_session_identity :: "u64 \<Rightarrow> CaptureSessionIdentity option" where
  "decode_capture_session_identity session_id =
     (if (ucast (drop_bit 56 session_id) :: u8) \<noteq> kCaptureSessionMagic \<or>
         (drop_bit 52 session_id AND 0x0F) < ucast kFirstSlot \<or>
         (drop_bit 52 session_id AND 0x0F) > ucast kLastSlot
      then None
      else
        let decoded = \<lparr>ci_slot = ucast (drop_bit 52 session_id AND 0x0F),
                       ci_capture_generation = ucast (session_id AND 0xFFFFFFFF),
                       ci_connection_generation = ucast (drop_bit 32 session_id AND
                         ucast kCaptureSessionMaxConnectionGeneration)\<rparr>
        in if ci_capture_generation decoded = 0 \<or> ci_connection_generation decoded = 0
           then None else Some decoded)"

section \<open>State and actions\<close>

datatype DeviceActionKind = NoAction | PttStarted | PttEnded | PlayRequested
  | PlaybackPreempted | PlaybackFinished | RejectedBusy

record PlaybackIdentity =
  pi_slot :: u8
  pi_summary_generation :: u64
  pi_lease :: u64
  pi_connection_generation :: u32

definition no_playback :: PlaybackIdentity where
  "no_playback = \<lparr>pi_slot = 0, pi_summary_generation = 0, pi_lease = 0, pi_connection_generation = 0\<rparr>"

definition valid_playback_identity :: "PlaybackIdentity \<Rightarrow> bool" where
  "valid_playback_identity identity \<longleftrightarrow>
     pi_slot identity \<ge> kFirstSlot \<and> pi_slot identity \<le> kLastSlot \<and>
     pi_summary_generation identity \<noteq> 0 \<and> pi_lease identity \<noteq> 0 \<and>
     pi_connection_generation identity \<noteq> 0"

record DeviceAction =
  da_kind :: DeviceActionKind
  da_slot :: u8
  da_capture_generation :: u32
  da_request_generation :: u32
  da_playback :: PlaybackIdentity
  da_connection_generation :: u32

definition no_action :: DeviceAction where
  "no_action = \<lparr>da_kind = NoAction, da_slot = 0, da_capture_generation = 0,
     da_request_generation = 0, da_playback = no_playback, da_connection_generation = 0\<rparr>"

record DeviceTransition =
  dt_actions :: "DeviceAction list"
  dt_count :: nat

definition empty_transition :: DeviceTransition where
  "empty_transition = \<lparr>dt_actions = replicate 2 no_action, dt_count = 0\<rparr>"

definition transition_push :: "DeviceTransition \<Rightarrow> DeviceAction \<Rightarrow> DeviceTransition" where
  "transition_push t action =
     (if da_kind action = NoAction \<or> dt_count t \<ge> length (dt_actions t) then t
      else t\<lparr>dt_actions := (dt_actions t)[dt_count t := action], dt_count := dt_count t + 1\<rparr>)"

text \<open>What a caller reads: the first \<open>dt_count\<close> actions.\<close>

definition transition_actions :: "DeviceTransition \<Rightarrow> DeviceAction list" where
  "transition_actions t = take (dt_count t) (dt_actions t)"

datatype PlaybackBeginResult = BeginAccepted | BeginDuplicate | BeginBusy | BeginInvalid

datatype PlaybackFrameResult = FrameAccepted | FrameDuplicate | FrameOutOfOrder | FrameStale | FrameInvalid

datatype PlaybackPhase = PlaybackIdle | Buffering | Playing | TransferComplete | FinishedPendingAck

record PlaybackBegin =
  pb_identity :: PlaybackIdentity
  pb_request_generation :: u32
  pb_total_frames :: u32
  pb_total_samples :: u64

record CodexSlotState =
  cs_capture_counter :: u32
  cs_request_counter :: u32
  cs_pending_play_slot :: u8
  cs_pending_play_request_generation :: u32
  cs_pending_play_connection_generation :: u32
  cs_active_play_request_generation :: u32
  cs_capture_slot :: u8
  cs_capture_generation :: u32
  cs_capture_connection_generation :: u32
  cs_playback_phase :: PlaybackPhase
  cs_playback_identity :: PlaybackIdentity
  cs_playback_total_frames :: u32
  cs_playback_next_frame :: u32
  cs_playback_total_samples :: u64

definition init_slot_state :: CodexSlotState where
  "init_slot_state = \<lparr>cs_capture_counter = 0, cs_request_counter = 0,
     cs_pending_play_slot = 0, cs_pending_play_request_generation = 0,
     cs_pending_play_connection_generation = 0, cs_active_play_request_generation = 0,
     cs_capture_slot = 0, cs_capture_generation = 0, cs_capture_connection_generation = 0,
     cs_playback_phase = PlaybackIdle, cs_playback_identity = no_playback,
     cs_playback_total_frames = 0, cs_playback_next_frame = 0, cs_playback_total_samples = 0\<rparr>"

section \<open>Operations\<close>

definition capture_active :: "CodexSlotState \<Rightarrow> bool" where
  "capture_active s \<longleftrightarrow> cs_capture_generation s \<noteq> 0"

definition seed_capture_counter :: "CodexSlotState \<Rightarrow> u32 \<Rightarrow> CodexSlotState" where
  "seed_capture_counter s seed =
     (if \<not> capture_active s \<and> cs_capture_counter s = 0 then s\<lparr>cs_capture_counter := seed\<rparr> else s)"

definition ptt_slot_for_input :: "InputId \<Rightarrow> u8 option" where
  "ptt_slot_for_input input =
     (if input_index input < input_index Key1 \<or> input_index input > input_index Key4 then None
      else Some (of_nat (input_index input - input_index Key1 + 1)))"

definition play_slot_for_input :: "InputId \<Rightarrow> u8 option" where
  "play_slot_for_input input =
     (if input_index input < input_index Key5 \<or> input_index input > input_index Key8 then None
      else Some (of_nat (input_index input - input_index Key5 + 1)))"

text \<open>The incremented counter is also the generation that is handed out.\<close>

definition next_nonzero :: "u32 \<Rightarrow> u32" where
  "next_nonzero counter = (if counter = - 1 then 1 else counter + 1)"

definition playback_matches :: "CodexSlotState \<Rightarrow> PlaybackIdentity \<Rightarrow> bool" where
  "playback_matches s identity \<longleftrightarrow>
     cs_playback_phase s \<noteq> PlaybackIdle \<and> valid_playback_identity identity \<and>
     cs_playback_identity s = identity"

definition clear_playback :: "CodexSlotState \<Rightarrow> CodexSlotState" where
  "clear_playback s = s\<lparr>cs_playback_phase := PlaybackIdle, cs_playback_identity := no_playback,
     cs_playback_total_frames := 0, cs_playback_next_frame := 0,
     cs_playback_total_samples := 0, cs_active_play_request_generation := 0\<rparr>"

definition preempt_playback :: "CodexSlotState \<Rightarrow> DeviceAction \<times> CodexSlotState" where
  "preempt_playback s =
     (no_action\<lparr>da_kind := PlaybackPreempted, da_slot := pi_slot (cs_playback_identity s),
        da_playback := cs_playback_identity s\<rparr>, clear_playback s)"

definition clear_pending_play :: "CodexSlotState \<Rightarrow> CodexSlotState" where
  "clear_pending_play s = s\<lparr>cs_pending_play_slot := 0, cs_pending_play_request_generation := 0,
     cs_pending_play_connection_generation := 0\<rparr>"

definition clear_capture :: "CodexSlotState \<Rightarrow> CodexSlotState" where
  "clear_capture s = s\<lparr>cs_capture_slot := 0, cs_capture_generation := 0,
     cs_capture_connection_generation := 0\<rparr>"

definition push_preempt :: "DeviceTransition \<times> CodexSlotState \<Rightarrow> DeviceTransition \<times> CodexSlotState" where
  "push_preempt ts = (let (action, s') = preempt_playback (snd ts) in (transition_push (fst ts) action, s'))"

definition rejected :: "u8 \<Rightarrow> DeviceAction" where
  "rejected slot = no_action\<lparr>da_kind := RejectedBusy, da_slot := slot\<rparr>"

text \<open>The four stretches of \<^verbatim>\<open>handle_input\<close>, in its order, and their composition.\<close>

definition handle_unrouted_key ::
  "CodexSlotState \<Rightarrow> InputId \<Rightarrow> InputPhase \<Rightarrow> DeviceTransition \<times> CodexSlotState" where
  "handle_unrouted_key s input phase =
     (if phase = Released then (empty_transition, s)
      else
        let ts = (if ptt_slot_for_input input \<noteq> None \<and> cs_playback_phase s \<noteq> PlaybackIdle
                  then push_preempt (empty_transition, s) else (empty_transition, s));
            key_index = input_index input - input_index Key1
        in (transition_push (fst ts) (rejected (of_nat (key_index mod 4 + 1))), snd ts))"

definition handle_ptt_pressed ::
  "CodexSlotState \<Rightarrow> u8 \<Rightarrow> u32 \<Rightarrow> DeviceTransition \<times> CodexSlotState" where
  "handle_ptt_pressed s slot connection_generation =
     (if capture_active s then
        (if cs_capture_slot s \<noteq> slot then transition_push empty_transition (rejected slot)
         else empty_transition, s)
      else
        let ts = (if cs_playback_phase s \<noteq> PlaybackIdle then push_preempt (empty_transition, s)
                  else (empty_transition, s));
            counter = next_nonzero (cs_capture_counter (snd ts));
            s' = (clear_pending_play (snd ts))\<lparr>cs_capture_slot := slot, cs_capture_counter := counter,
                   cs_capture_generation := counter,
                   cs_capture_connection_generation := connection_generation\<rparr>;
            action = no_action\<lparr>da_kind := PttStarted, da_slot := slot,
                   da_capture_generation := cs_capture_generation s',
                   da_connection_generation := connection_generation\<rparr>
        in (transition_push (fst ts) action, s'))"

definition handle_ptt_released ::
  "CodexSlotState \<Rightarrow> u8 \<Rightarrow> DeviceTransition \<times> CodexSlotState" where
  "handle_ptt_released s slot =
     (if capture_active s \<and> cs_capture_slot s = slot then
        (transition_push empty_transition
           (no_action\<lparr>da_kind := PttEnded, da_slot := slot,
              da_capture_generation := cs_capture_generation s,
              da_connection_generation := cs_capture_connection_generation s\<rparr>),
         clear_capture s)
      else (empty_transition, s))"

definition handle_play_pressed ::
  "CodexSlotState \<Rightarrow> u8 \<Rightarrow> u32 \<Rightarrow> DeviceTransition \<times> CodexSlotState" where
  "handle_play_pressed s slot connection_generation =
     (if capture_active s then (transition_push empty_transition (rejected slot), s)
      else if cs_playback_phase s \<noteq> PlaybackIdle \<and> pi_slot (cs_playback_identity s) = slot
      then (empty_transition, s)
      else
        let ts = (if cs_playback_phase s \<noteq> PlaybackIdle then push_preempt (empty_transition, s)
                  else (empty_transition, s));
            counter = next_nonzero (cs_request_counter (snd ts));
            s' = (snd ts)\<lparr>cs_pending_play_slot := slot, cs_request_counter := counter,
                   cs_pending_play_request_generation := counter,
                   cs_pending_play_connection_generation := connection_generation\<rparr>;
            action = no_action\<lparr>da_kind := PlayRequested, da_slot := slot,
                   da_request_generation := cs_pending_play_request_generation s',
                   da_connection_generation := connection_generation\<rparr>
        in (transition_push (fst ts) action, s'))"

definition handle_input ::
  "CodexSlotState \<Rightarrow> InputId \<Rightarrow> InputPhase \<Rightarrow> u32 \<Rightarrow> DeviceTransition \<times> CodexSlotState" where
  "handle_input s input phase connection_generation =
     (if connection_generation = 0 \<and> input_index input \<ge> input_index Key1 \<and>
         input_index input \<le> input_index Key8
      then handle_unrouted_key s input phase
      else case ptt_slot_for_input input of
        Some slot \<Rightarrow>
          (if phase = Pressed then handle_ptt_pressed s slot connection_generation
           else handle_ptt_released s slot)
      | None \<Rightarrow>
          (case play_slot_for_input input of
             None \<Rightarrow> (empty_transition, s)
           | Some slot \<Rightarrow>
               (if phase = Released then (empty_transition, s)
                else handle_play_pressed s slot connection_generation)))"

definition begin_playback :: "CodexSlotState \<Rightarrow> PlaybackBegin \<Rightarrow> PlaybackBeginResult \<times> CodexSlotState" where
  "begin_playback s b =
     (if \<not> valid_playback_identity (pb_identity b) \<or> pb_request_generation b = 0 \<or>
         pb_total_frames b = 0 \<or> pb_total_samples b = 0
      then (BeginInvalid, s)
      else if capture_active s then (BeginBusy, s)
      else if cs_playback_phase s \<noteq> PlaybackIdle then
        (if cs_playback_identity s = pb_identity b \<and>
            cs_active_play_request_generation s = pb_request_generation b \<and>
            cs_playback_total_frames s = pb_total_frames b \<and>
            cs_playback_total_samples s = pb_total_samples b
         then BeginDuplicate else BeginBusy, s)
      else if cs_pending_play_slot s \<noteq> pi_slot (pb_identity b) \<or>
         cs_pending_play_request_generation s \<noteq> pb_request_generation b \<or>
         cs_pending_play_connection_generation s \<noteq> pi_connection_generation (pb_identity b)
      then (BeginInvalid, s)
      else (BeginAccepted,
        (clear_pending_play s)\<lparr>cs_playback_identity := pb_identity b,
          cs_active_play_request_generation := pb_request_generation b,
          cs_playback_total_frames := pb_total_frames b,
          cs_playback_total_samples := pb_total_samples b,
          cs_playback_next_frame := 0,
          cs_playback_phase := Buffering\<rparr>))"

definition mark_playback_started :: "CodexSlotState \<Rightarrow> PlaybackIdentity \<Rightarrow> bool \<times> CodexSlotState" where
  "mark_playback_started s identity =
     (if \<not> playback_matches s identity \<or> cs_playback_phase s \<noteq> Buffering then (False, s)
      else (True, s\<lparr>cs_playback_phase := Playing\<rparr>))"

definition accept_playback_frame ::
  "CodexSlotState \<Rightarrow> PlaybackIdentity \<Rightarrow> u32 \<Rightarrow> PlaybackFrameResult \<times> CodexSlotState" where
  "accept_playback_frame s identity frame_sequence =
     (if \<not> valid_playback_identity identity then (FrameInvalid, s)
      else if \<not> playback_matches s identity \<or>
        (cs_playback_phase s \<noteq> Buffering \<and> cs_playback_phase s \<noteq> Playing) then (FrameStale, s)
      else if frame_sequence \<ge> cs_playback_total_frames s then (FrameInvalid, s)
      else if frame_sequence < cs_playback_next_frame s then (FrameDuplicate, s)
      else if frame_sequence > cs_playback_next_frame s then (FrameOutOfOrder, s)
      else (FrameAccepted, s\<lparr>cs_playback_next_frame := cs_playback_next_frame s + 1\<rparr>))"

definition mark_playback_transfer_complete ::
  "CodexSlotState \<Rightarrow> PlaybackIdentity \<Rightarrow> u32 \<Rightarrow> bool \<times> CodexSlotState" where
  "mark_playback_transfer_complete s identity last_frame_sequence =
     (if \<not> playback_matches s identity \<or>
         (cs_playback_phase s \<noteq> Buffering \<and> cs_playback_phase s \<noteq> Playing) \<or>
         cs_playback_next_frame s \<noteq> cs_playback_total_frames s \<or>
         last_frame_sequence \<noteq> cs_playback_total_frames s - 1
      then (False, s)
      else (True, s\<lparr>cs_playback_phase := TransferComplete\<rparr>))"

definition mark_playback_drained ::
  "CodexSlotState \<Rightarrow> PlaybackIdentity \<Rightarrow> u64 \<Rightarrow> bool \<times> CodexSlotState" where
  "mark_playback_drained s identity played_samples =
     (if \<not> playback_matches s identity \<or> cs_playback_phase s \<noteq> TransferComplete \<or>
         played_samples \<noteq> cs_playback_total_samples s
      then (False, s)
      else (True, s\<lparr>cs_playback_phase := FinishedPendingAck\<rparr>))"

definition pending_finished :: "CodexSlotState \<Rightarrow> DeviceAction option" where
  "pending_finished s =
     (if cs_playback_phase s \<noteq> FinishedPendingAck then None
      else Some (no_action\<lparr>da_kind := PlaybackFinished, da_slot := pi_slot (cs_playback_identity s),
             da_playback := cs_playback_identity s\<rparr>))"

definition acknowledge_finished :: "CodexSlotState \<Rightarrow> PlaybackIdentity \<Rightarrow> bool \<times> CodexSlotState" where
  "acknowledge_finished s identity =
     (if \<not> playback_matches s identity \<or> cs_playback_phase s \<noteq> FinishedPendingAck then (False, s)
      else (True, clear_playback s))"

definition abort_playback :: "CodexSlotState \<Rightarrow> PlaybackIdentity \<Rightarrow> bool \<times> CodexSlotState" where
  "abort_playback s identity =
     (if \<not> playback_matches s identity then (False, s) else (True, clear_playback s))"

definition disconnect :: "CodexSlotState \<Rightarrow> u32 \<Rightarrow> DeviceTransition \<times> CodexSlotState" where
  "disconnect s connection_generation =
     (let ts = (if capture_active s \<and>
                   (connection_generation = 0 \<or> cs_capture_connection_generation s = connection_generation)
                then (transition_push empty_transition
                        (no_action\<lparr>da_kind := PttEnded, da_slot := cs_capture_slot s,
                           da_capture_generation := cs_capture_generation s,
                           da_connection_generation := cs_capture_connection_generation s\<rparr>),
                      clear_capture s)
                else (empty_transition, s));
          s1 = snd ts;
          s2 = (if connection_generation = 0 \<or>
                   cs_pending_play_connection_generation s1 = connection_generation
                then clear_pending_play s1 else s1)
      in if cs_playback_phase s2 \<noteq> PlaybackIdle \<and>
            (connection_generation = 0 \<or>
             pi_connection_generation (cs_playback_identity s2) = connection_generation)
         then push_preempt (fst ts, s2) else (fst ts, s2))"

section \<open>Session identities travel unchanged\<close>

lemma capture_identity_fields:
  fixes mg slot :: u8 and conn cap :: u32
  assumes "slot \<le> 4" and "conn \<le> 0xFFFFF"
    and x: "x = push_bit 56 (ucast mg) OR push_bit 52 (ucast slot) OR
      push_bit 32 (ucast conn) OR (ucast cap :: u64)"
  shows "(ucast (drop_bit 56 x) :: u8) = mg"
    and "(drop_bit 52 x AND mask 4 :: u64) = ucast slot"
    and "(ucast (x AND mask 32) :: u32) = cap"
    and "(ucast (drop_bit 32 x AND mask 20) :: u32) = conn"
proof -
  have s: "\<And>k. 4 \<le> k \<Longrightarrow> \<not> bit slot k" using assms(1) by (intro bit_word_small) (auto simp: word_le_nat_alt)
  have c: "\<And>k. 20 \<le> k \<Longrightarrow> \<not> bit conn k" using assms(2) by (intro bit_word_small) (auto simp: word_le_nat_alt)
  note p = bit_word_beyond [of _ cap] bit_word_beyond [of _ mg]
  have bx: "bit x n \<longleftrightarrow> n < 64 \<and> (56 \<le> n \<and> bit mg (n - 56) \<or> 52 \<le> n \<and> bit slot (n - 52) \<or> 32 \<le> n \<and> bit conn (n - 32) \<or> bit cap n)" for n
    by (auto simp: x bit_or_iff bit_push_bit_iff bit_unsigned_iff dest: bit_imp_le_length)
  have s': "\<And>k. bit slot k \<Longrightarrow> k < 4" using s not_le by blast
  have c': "\<And>k. bit conn k \<Longrightarrow> k < 20" using c not_le by blast
  show "(ucast (drop_bit 56 x) :: u8) = mg"
    by (rule bit_word_eqI) (simp add: bit_unsigned_iff bit_drop_bit_eq bx s c p)
  show "(drop_bit 52 x AND mask 4 :: u64) = ucast slot"
    by (rule bit_word_eqI) (auto simp: bit_unsigned_iff bit_drop_bit_eq bx s c p bit_and_iff bit_mask_iff dest: s' c')
  show "(ucast (x AND mask 32) :: u32) = cap"
    by (rule bit_word_eqI) (simp add: bit_unsigned_iff bit_drop_bit_eq bx s c p bit_and_iff bit_mask_iff)
  show "(ucast (drop_bit 32 x AND mask 20) :: u32) = conn"
    by (rule bit_word_eqI) (auto simp: bit_unsigned_iff bit_drop_bit_eq bx s c p bit_and_iff bit_mask_iff dest: c')
qed


lemma capture_session_rebuild:
  fixes x :: u64
  assumes "(ucast (drop_bit 56 x) :: u8) = mg"
  shows "push_bit 56 (ucast mg) OR push_bit 52 (ucast (ucast (drop_bit 52 x AND mask 4) :: u8)) OR
    push_bit 32 (ucast (ucast (drop_bit 32 x AND mask 20) :: u32)) OR (ucast (ucast (x AND mask 32) :: u32)) = x"
    (is "?built = x")
proof (rule bit_word_eqI)
  fix n
  assume "n < LENGTH(64)"
  then consider "n < 32" | "32 \<le> n \<and> n < 52" | "52 \<le> n \<and> n < 56" | "56 \<le> n \<and> n < 64" by fastforce
  then show "bit ?built n = bit x n"
    by cases (auto simp: assms [symmetric] bit_or_iff bit_push_bit_iff bit_unsigned_iff bit_drop_bit_eq bit_and_iff bit_mask_iff)
qed

lemma session_masks: "(0xF :: u64) = mask 4" "(0xFFFFF :: u64) = mask 20" "(0xFFFFFFFF :: u64) = mask 32"
  by (simp_all add: mask_eq_exp_minus_1)

lemma capture_session_nonzero:
  fixes x :: u64
  assumes "(ucast (drop_bit 56 x) :: u8) = kCaptureSessionMagic"
  shows "x \<noteq> 0"
  using assms by (auto simp: kCaptureSessionMagic_def)

lemma decode_encode_capture:
  assumes "encode_capture_session_identity i = x" and "x \<noteq> 0"
  shows "decode_capture_session_identity x = Some i"
proof -
  obtain slot cap conn where i: "i = \<lparr>ci_slot = slot, ci_capture_generation = cap, ci_connection_generation = conn\<rparr>"
    by (cases i) auto
  from assms have ok: "slot \<noteq> 0" "slot \<le> 4" "cap \<noteq> 0" "conn \<noteq> 0" "conn \<le> 0xFFFFF"
    and x: "x = push_bit 56 (ucast kCaptureSessionMagic) OR push_bit 52 (ucast slot) OR
      push_bit 32 (ucast conn) OR ucast cap"
    by (auto simp: encode_capture_session_identity_def i kFirstSlot_def kLastSlot_def
        kCaptureSessionMaxConnectionGeneration_def not_less not_le split: if_splits)
  note f = capture_identity_fields [OF ok(2) ok(5) x]
  have "unat (ucast slot :: u64) = unat slot"
    by (simp add: unsigned_ucast_eq take_bit_nat_eq_self less_le_trans [OF unat_u8_less])
  moreover have "unat slot \<le> 4" "unat slot \<noteq> 0" using ok(1,2) by (auto simp: word_le_nat_alt unat_eq_zero)
  ultimately have sl: "\<not> (ucast slot :: u64) < 1" "\<not> 4 < (ucast slot :: u64)"
    by (simp_all add: word_less_nat_alt)
  have us: "(ucast (ucast slot :: u64) :: u8) = slot"
    by (simp add: word_unat_eq_iff unsigned_ucast_eq take_bit_self_word less_le_trans [OF unat_u8_less])
  show ?thesis using f ok sl us
    by (simp add: decode_capture_session_identity_def session_masks kFirstSlot_def kLastSlot_def
        kCaptureSessionMaxConnectionGeneration_def i)
qed

lemma encode_decode_capture:
  assumes "decode_capture_session_identity x = Some i"
  shows "x \<noteq> 0 \<and> encode_capture_session_identity i = x"
proof -
  from assms have mg: "(ucast (drop_bit 56 x) :: u8) = kCaptureSessionMagic"
    and sl: "(drop_bit 52 x AND mask 4) \<noteq> 0" "(drop_bit 52 x AND mask 4) \<le> 4"
    and i: "i = \<lparr>ci_slot = ucast (drop_bit 52 x AND mask 4), ci_capture_generation = ucast (x AND mask 32),
      ci_connection_generation = ucast (drop_bit 32 x AND mask 20)\<rparr>"
    and nz: "ci_capture_generation i \<noteq> 0" "ci_connection_generation i \<noteq> 0"
    by (auto simp: decode_capture_session_identity_def session_masks kFirstSlot_def kLastSlot_def
        kCaptureSessionMaxConnectionGeneration_def Let_def not_less not_le split: if_splits)
  have "unat (drop_bit 52 x AND mask 4 :: u64) \<le> 4" "unat (drop_bit 52 x AND mask 4 :: u64) \<noteq> 0"
    using sl by (auto simp: word_le_nat_alt unat_eq_zero)
  then have "unat (ci_slot i) \<le> 4" "unat (ci_slot i) \<noteq> 0"
    by (auto simp: i unsigned_ucast_eq take_bit_nat_eq_self)
  then have s: "\<not> ci_slot i < 1" "\<not> 4 < ci_slot i"
    by (simp_all add: word_less_nat_alt)
  have "unat (drop_bit 32 x AND mask 20 :: u64) < 2 ^ 20"
    by (simp only: take_bit_eq_mask [symmetric] unsigned_take_bit_eq take_bit_nat_less_exp)
  then have "unat (ci_connection_generation i) < 2 ^ 20"
    by (simp add: i unsigned_ucast_eq take_bit_nat_eq_self)
  then have "ci_connection_generation i \<le> 0xFFFFF"
    by (simp add: word_le_nat_alt)
  then show ?thesis
    using s nz capture_session_rebuild [OF mg] capture_session_nonzero [OF mg]
    by (simp add: encode_capture_session_identity_def kFirstSlot_def kLastSlot_def
        kCaptureSessionMaxConnectionGeneration_def i not_less)
qed

text \<open>
  The 64-bit capture session id and the capture identity determine each
  other: a nonzero id is the encoding of an identity exactly when it decodes to
  that identity.  So every valid identity survives the trip through the session
  id, no two identities share an id, an id that decodes is the canonical
  encoding of what it decodes to, and the reject value 0 decodes to nothing.
\<close>

lemma capture_session_roundtrip:
  "(x \<noteq> 0 \<and> encode_capture_session_identity i = x) \<longleftrightarrow> decode_capture_session_identity x = Some i"
  using decode_encode_capture encode_decode_capture by blast

end
