(* ===== verification/Slot_Runs.thy ===== *)
theory Slot_Runs
  imports Slot_State
begin

text \<open>
  Runs of the slot state: every call of the class as an event, the invariant
  that all calls keep, and three ghost values computed from the log of calls
  and results (the capture checker, the delivery, the live play request), with
  the properties of arbitrary call sequences that follow.
\<close>

section \<open>Runs of the slot state\<close>

datatype SlotOp = OpSeed u32
  | OpInput InputId InputPhase u32
  | OpBegin PlaybackBegin
  | OpStarted PlaybackIdentity
  | OpFrame PlaybackIdentity u32
  | OpTransferComplete PlaybackIdentity u32
  | OpDrained PlaybackIdentity u64
  | OpAcknowledge PlaybackIdentity
  | OpAbort PlaybackIdentity
  | OpDisconnect u32

datatype SlotOut = OutNothing | OutActions "DeviceAction list" | OutBegin PlaybackBeginResult
  | OutFrame PlaybackFrameResult | OutBool bool

definition with_out :: "('r \<Rightarrow> SlotOut) \<Rightarrow> 'r \<times> CodexSlotState \<Rightarrow> CodexSlotState \<times> SlotOut" where
  "with_out f rs = (snd rs, f (fst rs))"

fun slot_step :: "CodexSlotState \<Rightarrow> SlotOp \<Rightarrow> CodexSlotState \<times> SlotOut" where
  "slot_step s (OpSeed seed) = (seed_capture_counter s seed, OutNothing)"
| "slot_step s (OpInput input phase conn) =
     with_out (OutActions \<circ> transition_actions) (handle_input s input phase conn)"
| "slot_step s (OpBegin b) = with_out OutBegin (begin_playback s b)"
| "slot_step s (OpStarted identity) = with_out OutBool (mark_playback_started s identity)"
| "slot_step s (OpFrame identity k) = with_out OutFrame (accept_playback_frame s identity k)"
| "slot_step s (OpTransferComplete identity k) =
     with_out OutBool (mark_playback_transfer_complete s identity k)"
| "slot_step s (OpDrained identity n) = with_out OutBool (mark_playback_drained s identity n)"
| "slot_step s (OpAcknowledge identity) = with_out OutBool (acknowledge_finished s identity)"
| "slot_step s (OpAbort identity) = with_out OutBool (abort_playback s identity)"
| "slot_step s (OpDisconnect conn) = with_out (OutActions \<circ> transition_actions) (disconnect s conn)"

definition slot_next :: "CodexSlotState \<Rightarrow> SlotOp \<Rightarrow> CodexSlotState" where
  "slot_next s op = fst (slot_step s op)"

definition capture_inv :: "CodexSlotState \<Rightarrow> bool" where
  "capture_inv s \<longleftrightarrow>
     (if cs_capture_generation s = 0
      then cs_capture_slot s = 0 \<and> cs_capture_connection_generation s = 0
      else kFirstSlot \<le> cs_capture_slot s \<and> cs_capture_slot s \<le> kLastSlot \<and>
           cs_capture_connection_generation s \<noteq> 0 \<and>
           cs_capture_generation s = cs_capture_counter s \<and>
           cs_playback_phase s = PlaybackIdle \<and> cs_pending_play_slot s = 0)"

definition pending_inv :: "CodexSlotState \<Rightarrow> bool" where
  "pending_inv s \<longleftrightarrow>
     (if cs_pending_play_slot s = 0
      then cs_pending_play_request_generation s = 0 \<and> cs_pending_play_connection_generation s = 0
      else kFirstSlot \<le> cs_pending_play_slot s \<and> cs_pending_play_slot s \<le> kLastSlot \<and>
           cs_pending_play_connection_generation s \<noteq> 0 \<and>
           cs_pending_play_request_generation s = cs_request_counter s \<and>
           cs_request_counter s \<noteq> 0 \<and> cs_playback_phase s = PlaybackIdle)"

definition playback_inv :: "CodexSlotState \<Rightarrow> bool" where
  "playback_inv s \<longleftrightarrow>
     (if cs_playback_phase s = PlaybackIdle
      then cs_playback_identity s = no_playback \<and> cs_playback_total_frames s = 0 \<and>
           cs_playback_next_frame s = 0 \<and> cs_playback_total_samples s = 0 \<and>
           cs_active_play_request_generation s = 0
      else valid_playback_identity (cs_playback_identity s) \<and>
           cs_active_play_request_generation s \<noteq> 0 \<and>
           cs_playback_total_frames s \<noteq> 0 \<and> cs_playback_total_samples s \<noteq> 0 \<and>
           cs_playback_next_frame s \<le> cs_playback_total_frames s \<and>
           (cs_playback_phase s \<in> {TransferComplete, FinishedPendingAck} \<longrightarrow>
              cs_playback_next_frame s = cs_playback_total_frames s))"

definition slot_inv :: "CodexSlotState \<Rightarrow> bool" where
  "slot_inv s \<longleftrightarrow> capture_inv s \<and> pending_inv s \<and> playback_inv s"

lemmas slot_inv_defs = slot_inv_def capture_inv_def pending_inv_def playback_inv_def

lemmas slot_basic_defs = capture_active_def playback_matches_def clear_playback_def
  clear_pending_play_def clear_capture_def preempt_playback_def push_preempt_def no_action_def rejected_def

interpretation slot_counter: nonzero_counter next_nonzero
  by unfold_locales (auto simp: next_nonzero_def)

lemma ptt_slot_bounds: "ptt_slot_for_input i = Some k \<Longrightarrow> kFirstSlot \<le> k \<and> k \<le> kLastSlot \<and> k \<noteq> 0"
  by (cases i) (auto simp: ptt_slot_for_input_def kFirstSlot_def kLastSlot_def)

lemma play_slot_bounds: "play_slot_for_input i = Some k \<Longrightarrow> kFirstSlot \<le> k \<and> k \<le> kLastSlot \<and> k \<noteq> 0"
  by (cases i) (auto simp: play_slot_for_input_def kFirstSlot_def kLastSlot_def)

lemma slot_key_conn:
  "ptt_slot_for_input i = Some k \<or> play_slot_for_input i = Some k \<Longrightarrow> input_index i \<le> 7"
  by (cases i) (auto simp: ptt_slot_for_input_def play_slot_for_input_def)

lemma slot_inv_init: "slot_inv init_slot_state"
  by (simp add: slot_inv_defs init_slot_state_def)

lemma slot_inv_unrouted:
  "slot_inv s \<Longrightarrow> slot_inv (snd (handle_unrouted_key s i ph))"
  by (auto simp: handle_unrouted_key_def slot_inv_defs slot_basic_defs Let_def split: if_splits)

lemma slot_inv_ptt_pressed:
  "slot_inv s \<Longrightarrow> conn \<noteq> 0 \<Longrightarrow> kFirstSlot \<le> k \<Longrightarrow> k \<le> kLastSlot \<Longrightarrow>
     slot_inv (snd (handle_ptt_pressed s k conn))"
  by (auto simp: handle_ptt_pressed_def slot_inv_defs slot_basic_defs Let_def slot_counter.next_nonzero
      split: if_splits)

lemma slot_inv_ptt_released:
  "slot_inv s \<Longrightarrow> slot_inv (snd (handle_ptt_released s k))"
  by (auto simp: handle_ptt_released_def slot_inv_defs slot_basic_defs split: if_splits)

lemma slot_inv_play_pressed:
  "slot_inv s \<Longrightarrow> conn \<noteq> 0 \<Longrightarrow> kFirstSlot \<le> k \<Longrightarrow> k \<le> kLastSlot \<Longrightarrow> k \<noteq> 0 \<Longrightarrow>
     slot_inv (snd (handle_play_pressed s k conn))"
  by (auto simp: handle_play_pressed_def slot_inv_defs slot_basic_defs Let_def slot_counter.next_nonzero
      split: if_splits)

lemma slot_inv_input:
  assumes "slot_inv s"
  shows "slot_inv (snd (handle_input s i ph conn))"
proof (cases "conn = 0 \<and> input_index i \<le> 7")
  case True
  then show ?thesis using slot_inv_unrouted [OF assms] by (simp add: handle_input_def)
next
  case False
  then have conn: "ptt_slot_for_input i = Some k \<or> play_slot_for_input i = Some k \<Longrightarrow> conn \<noteq> 0" for k
    using slot_key_conn by blast
  have unrouted: "\<not> (conn = 0 \<and> input_index Key1 \<le> input_index i \<and> input_index i \<le> input_index Key8)"
    using False by simp
  show ?thesis
  proof (cases "ptt_slot_for_input i")
    case (Some k)
    with unrouted show ?thesis
      using ptt_slot_bounds [OF Some] conn [of k] slot_inv_ptt_pressed [OF assms, of conn k]
        slot_inv_ptt_released [OF assms, of k]
      by (simp add: handle_input_def)
  next
    case None
    with unrouted show ?thesis
      using play_slot_bounds [of i] conn slot_inv_play_pressed [OF assms, of conn] assms
      by (auto simp: handle_input_def split: option.splits)
  qed
qed

lemma slot_inv_begin: "slot_inv s \<Longrightarrow> slot_inv (snd (begin_playback s b))"
  by (auto simp: begin_playback_def slot_inv_defs slot_basic_defs valid_playback_identity_def
      kFirstSlot_def split: if_splits)

lemma frame_advance_le:
  fixes n t :: u32
  assumes "n \<le> t" and "k < t" and "\<not> k < n" and "\<not> n < k"
  shows "n + 1 \<le> t"
  using assms inc_le by force

lemma slot_inv_frame: "slot_inv s \<Longrightarrow> slot_inv (snd (accept_playback_frame s p k))"
  by (auto simp: accept_playback_frame_def slot_inv_defs slot_basic_defs not_le
      intro: frame_advance_le split: if_splits)

lemma slot_inv_phase_ops:
  assumes "slot_inv s"
  shows "slot_inv (snd (mark_playback_started s p))"
    and "slot_inv (snd (mark_playback_transfer_complete s p k))"
    and "slot_inv (snd (mark_playback_drained s p n))"
    and "slot_inv (snd (acknowledge_finished s p))"
    and "slot_inv (snd (abort_playback s p))"
    and "slot_inv (seed_capture_counter s seed)"
  using assms
  by (auto simp: mark_playback_started_def mark_playback_transfer_complete_def
      mark_playback_drained_def acknowledge_finished_def abort_playback_def seed_capture_counter_def
      slot_inv_defs slot_basic_defs split: if_splits)

lemma slot_inv_disconnect: "slot_inv s \<Longrightarrow> slot_inv (snd (disconnect s conn))"
  by (auto simp: disconnect_def Let_def slot_inv_defs slot_basic_defs split: if_splits)

lemma slot_inv_step: "slot_inv s \<Longrightarrow> slot_inv (fst (slot_step s op))"
  by (cases op) (auto simp: with_out_def slot_inv_input slot_inv_begin slot_inv_frame
      slot_inv_phase_ops slot_inv_disconnect)

interpretation slots: event_machine "\<lambda>s op. fst (slot_step s op)" init_slot_state slot_inv
  by unfold_locales (auto intro: slot_inv_init slot_inv_step)


section \<open>Ghost views of the log\<close>

text \<open>
  The actions a call emitted, and the checker of the capture discipline: a
  capture that starts must end with its own slot, generation and connection
  before the next one starts.
\<close>

definition out_actions :: "SlotOut \<Rightarrow> DeviceAction list" where
  "out_actions out = (case out of OutActions actions \<Rightarrow> actions | _ \<Rightarrow> [])"

definition slot_emit :: "CodexSlotState \<Rightarrow> SlotOp \<Rightarrow> CodexSlotState \<times> DeviceAction list" where
  "slot_emit s op = (fst (slot_step s op), out_actions (snd (slot_step s op)))"

type_synonym capture_view = "(u8 \<times> u32 \<times> u32) option"

definition observe_capture :: "capture_view \<Rightarrow> DeviceAction \<Rightarrow> capture_view option" where
  "observe_capture c a =
     (case da_kind a of
        PttStarted \<Rightarrow>
          (if c = None then Some (Some (da_slot a, da_capture_generation a, da_connection_generation a))
           else None)
      | PttEnded \<Rightarrow>
          (if c = Some (da_slot a, da_capture_generation a, da_connection_generation a)
           then Some None else None)
      | _ \<Rightarrow> Some c)"

definition capture_view :: "CodexSlotState \<Rightarrow> capture_view" where
  "capture_view s =
     (if capture_active s
      then Some (cs_capture_slot s, cs_capture_generation s, cs_capture_connection_generation s)
      else None)"

lemmas transition_defs = transition_push_def transition_actions_def empty_transition_def numeral_2_eq_2

lemma capture_view_unrouted:
  "capture_view (snd (handle_unrouted_key s i ph)) = capture_view s \<and>
   check_outputs observe_capture c (transition_actions (fst (handle_unrouted_key s i ph))) = Some c"
  by (auto simp: handle_unrouted_key_def slot_basic_defs transition_defs observe_capture_def
      capture_view_def Let_def)

lemma capture_view_ptt_pressed:
  "check_outputs observe_capture (capture_view s)
     (transition_actions (fst (handle_ptt_pressed s k conn)))
   = Some (capture_view (snd (handle_ptt_pressed s k conn)))"
  by (auto simp: handle_ptt_pressed_def slot_basic_defs transition_defs observe_capture_def
      capture_view_def Let_def slot_counter.next_nonzero)

lemma capture_view_ptt_released:
  "check_outputs observe_capture (capture_view s)
     (transition_actions (fst (handle_ptt_released s k)))
   = Some (capture_view (snd (handle_ptt_released s k)))"
  by (auto simp: handle_ptt_released_def slot_basic_defs transition_defs observe_capture_def
      capture_view_def Let_def)

lemma capture_view_play_pressed:
  "check_outputs observe_capture (capture_view s)
     (transition_actions (fst (handle_play_pressed s k conn)))
   = Some (capture_view (snd (handle_play_pressed s k conn)))"
  by (auto simp: handle_play_pressed_def slot_basic_defs transition_defs observe_capture_def
      capture_view_def Let_def)

lemma capture_view_empty:
  "check_outputs observe_capture c (transition_actions empty_transition) = Some c"
  by (simp add: transition_defs)

lemma capture_view_input:
  "check_outputs observe_capture (capture_view s)
     (transition_actions (fst (handle_input s i ph conn)))
   = Some (capture_view (snd (handle_input s i ph conn)))"
  by (simp add: handle_input_def capture_view_unrouted capture_view_ptt_pressed
      capture_view_ptt_released capture_view_play_pressed capture_view_empty split: option.splits)

lemma capture_view_disconnect:
  "check_outputs observe_capture (capture_view s)
     (transition_actions (fst (disconnect s conn)))
   = Some (capture_view (snd (disconnect s conn)))"
  by (auto simp: disconnect_def slot_basic_defs transition_defs observe_capture_def
      capture_view_def Let_def)

lemma capture_view_other_ops:
  "capture_view (seed_capture_counter s seed) = capture_view s"
  "capture_view (snd (begin_playback s b)) = capture_view s"
  "capture_view (snd (mark_playback_started s p)) = capture_view s"
  "capture_view (snd (accept_playback_frame s p k)) = capture_view s"
  "capture_view (snd (mark_playback_transfer_complete s p k)) = capture_view s"
  "capture_view (snd (mark_playback_drained s p n)) = capture_view s"
  "capture_view (snd (acknowledge_finished s p)) = capture_view s"
  "capture_view (snd (abort_playback s p)) = capture_view s"
  by (simp_all add: capture_view_def seed_capture_counter_def begin_playback_def
      mark_playback_started_def accept_playback_frame_def mark_playback_transfer_complete_def
      mark_playback_drained_def acknowledge_finished_def abort_playback_def slot_basic_defs)

lemma capture_view_step:
  "check_outputs observe_capture (capture_view s) (snd (slot_emit s op))
     = Some (capture_view (fst (slot_emit s op)))"
  by (cases op) (simp_all add: slot_emit_def with_out_def out_actions_def capture_view_input
      capture_view_disconnect capture_view_other_ops)

interpretation captures: observed_machine slot_emit init_slot_state slot_inv observe_capture capture_view
proof unfold_locales
  show "slot_inv init_slot_state" by (rule slot_inv_init)
  show "slot_inv s \<Longrightarrow> slot_inv (fst (slot_emit s op))" for s op
    by (simp add: slot_emit_def slot_inv_step)
  show "slot_emit s op = (s', out) \<Longrightarrow>
      check_outputs observe_capture (capture_view s) out = Some (capture_view s')" for s op s' out
    using capture_view_step [of s op] by simp
qed

text \<open>
  The delivery ghost: the accepted begin that is being served, the frame numbers
  accepted since, and the sample count of an accepted drain.
\<close>

type_synonym delivery = "(PlaybackBegin \<times> u32 list \<times> u64 option) option"

fun delivery_ghost :: "delivery \<Rightarrow> SlotOp \<times> SlotOut \<Rightarrow> delivery" where
  "delivery_ghost d (OpBegin b, OutBegin BeginAccepted) = Some (b, [], None)"
| "delivery_ghost (Some (b, ks, x)) (OpFrame p k, OutFrame FrameAccepted) = Some (b, ks @ [k], x)"
| "delivery_ghost (Some (b, ks, x)) (OpDrained p n, OutBool True) = Some (b, ks, Some n)"
| "delivery_ghost d _ = d"

definition delivery_rel :: "CodexSlotState \<Rightarrow> delivery \<Rightarrow> bool" where
  "delivery_rel s d \<longleftrightarrow> cs_playback_phase s = PlaybackIdle \<or>
     (\<exists>b x. d = Some (b, map of_nat [0..<unat (cs_playback_next_frame s)], x) \<and>
        pb_identity b = cs_playback_identity s \<and>
        pb_total_frames b = cs_playback_total_frames s \<and>
        pb_total_samples b = cs_playback_total_samples s \<and>
        (cs_playback_phase s = FinishedPendingAck \<longrightarrow> x = Some (pb_total_samples b)))"

text \<open>
  The request ghost: the last play request the device emitted, until an accepted
  begin consumes it.
\<close>

type_synonym request_view = "(u8 \<times> u32 \<times> u32) option"

definition request_of :: "DeviceAction \<Rightarrow> u8 \<times> u32 \<times> u32" where
  "request_of a = (da_slot a, da_request_generation a, da_connection_generation a)"

definition request_action :: "request_view \<Rightarrow> DeviceAction \<Rightarrow> request_view" where
  "request_action r a = (if da_kind a = PlayRequested then Some (request_of a) else r)"

fun request_ghost :: "request_view \<Rightarrow> SlotOp \<times> SlotOut \<Rightarrow> request_view" where
  "request_ghost r (op, OutActions actions) = foldl request_action r actions"
| "request_ghost r (OpBegin b, OutBegin BeginAccepted) = None"
| "request_ghost r _ = r"

definition request_rel :: "CodexSlotState \<Rightarrow> request_view \<Rightarrow> bool" where
  "request_rel s r \<longleftrightarrow> cs_pending_play_slot s = 0 \<or>
     r = Some (cs_pending_play_slot s, cs_pending_play_request_generation s,
               cs_pending_play_connection_generation s)"

lemma delivery_rel_idle: "cs_playback_phase s = PlaybackIdle \<Longrightarrow> delivery_rel s d"
  by (simp add: delivery_rel_def)

lemma delivery_rel_input:
  "delivery_rel s d \<Longrightarrow> delivery_rel (snd (handle_input s i ph conn)) d"
  by (auto simp: delivery_rel_def handle_input_def handle_unrouted_key_def handle_ptt_pressed_def
      handle_ptt_released_def handle_play_pressed_def slot_basic_defs Let_def split: option.splits)

lemma delivery_rel_disconnect:
  "delivery_rel s d \<Longrightarrow> delivery_rel (snd (disconnect s conn)) d"
  by (auto simp: delivery_rel_def disconnect_def slot_basic_defs Let_def)

lemma delivery_rel_begin:
  assumes "delivery_rel s d" and "begin_playback s b = (r, s')"
  shows "delivery_rel s' (delivery_ghost d (OpBegin b, OutBegin r))"
proof (cases "r = BeginAccepted")
  case True
  then show ?thesis using assms(2)
    by (auto simp: delivery_rel_def begin_playback_def slot_basic_defs split: if_splits)
next
  case False
  then have "s' = s" using assms(2) by (auto simp: begin_playback_def split: if_splits)
  with False assms(1) show ?thesis by (cases r) auto
qed

lemma delivery_rel_frame:
  assumes "slot_inv s" and "delivery_rel s d" and "accept_playback_frame s p k = (r, s')"
  shows "delivery_rel s' (delivery_ghost d (OpFrame p k, OutFrame r))"
proof (cases "r = FrameAccepted")
  case True
  with assms(3) have k: "k = cs_playback_next_frame s" and lt: "k < cs_playback_total_frames s"
    and live: "cs_playback_phase s \<noteq> PlaybackIdle" "cs_playback_phase s \<noteq> FinishedPendingAck"
    and s': "s' = s\<lparr>cs_playback_next_frame := k + 1\<rparr>"
    by (auto simp: accept_playback_frame_def playback_matches_def not_le split: if_splits)
  from assms(2) live obtain b x where
    d: "d = Some (b, map of_nat [0..<unat k], x)" and b: "pb_identity b = cs_playback_identity s"
      "pb_total_frames b = cs_playback_total_frames s" "pb_total_samples b = cs_playback_total_samples s"
    by (auto simp: delivery_rel_def k)
  have "map of_nat [0..<unat (k + 1)] = map of_nat [0..<unat k] @ [k]"
    using unat_plus_1_less [OF lt] by simp
  with d b live True show ?thesis by (simp add: delivery_rel_def s')
next
  case False
  then have "s' = s" using assms(3) by (auto simp: accept_playback_frame_def split: if_splits)
  with False assms(2) show ?thesis by (cases r; cases d) auto
qed

lemma delivery_rel_drained:
  assumes "delivery_rel s d" and "mark_playback_drained s p n = (r, s')"
  shows "delivery_rel s' (delivery_ghost d (OpDrained p n, OutBool r))"
proof (cases r)
  case True
  with assms(2) have "cs_playback_phase s = TransferComplete" and "n = cs_playback_total_samples s"
    and "s' = s\<lparr>cs_playback_phase := FinishedPendingAck\<rparr>"
    by (auto simp: mark_playback_drained_def split: if_splits)
  with assms(1) True show ?thesis by (auto simp: delivery_rel_def)
next
  case False
  then have "s' = s" using assms(2) by (auto simp: mark_playback_drained_def split: if_splits)
  with False assms(1) show ?thesis by (cases d) auto
qed

lemma delivery_rel_other:
  assumes "delivery_rel s d"
  shows "delivery_rel (snd (mark_playback_started s p)) d"
    and "delivery_rel (snd (mark_playback_transfer_complete s p k)) d"
    and "delivery_rel (snd (acknowledge_finished s p)) d"
    and "delivery_rel (snd (abort_playback s p)) d"
    and "delivery_rel (seed_capture_counter s seed) d"
  using assms
  by (auto simp: delivery_rel_def mark_playback_started_def mark_playback_transfer_complete_def
      acknowledge_finished_def abort_playback_def seed_capture_counter_def slot_basic_defs)

interpretation deliveries: ghost_machine slot_step init_slot_state slot_inv delivery_ghost None delivery_rel
proof unfold_locales
  show "delivery_rel init_slot_state None" by (simp add: delivery_rel_def init_slot_state_def)
next
  fix s d op s' out
  assume "slot_inv s" "delivery_rel s d" "slot_step s op = (s', out)"
  then show "delivery_rel s' (delivery_ghost d (op, out))"
    by (cases op)
      (auto simp: with_out_def intro: delivery_rel_input delivery_rel_disconnect delivery_rel_other
        delivery_rel_begin delivery_rel_frame delivery_rel_drained prod.collapse)
qed

lemma request_rel_input:
  "request_rel s r \<Longrightarrow>
   request_rel (snd (handle_input s i ph conn))
     (foldl request_action r (transition_actions (fst (handle_input s i ph conn))))"
  by (auto simp: request_rel_def handle_input_def handle_unrouted_key_def handle_ptt_pressed_def
      handle_ptt_released_def handle_play_pressed_def slot_basic_defs transition_defs
      request_action_def request_of_def Let_def split: option.splits)

lemma request_rel_disconnect:
  "request_rel s r \<Longrightarrow>
   request_rel (snd (disconnect s conn))
     (foldl request_action r (transition_actions (fst (disconnect s conn))))"
  by (auto simp: request_rel_def disconnect_def slot_basic_defs transition_defs
      request_action_def Let_def)

lemma request_rel_begin:
  assumes "request_rel s r" and "begin_playback s b = (res, s')"
  shows "request_rel s' (request_ghost r (OpBegin b, OutBegin res))"
  using assms by (auto simp: request_rel_def begin_playback_def slot_basic_defs split: if_splits)

lemma request_rel_other:
  assumes "request_rel s r"
  shows "request_rel (snd (mark_playback_started s p)) r"
    and "request_rel (snd (accept_playback_frame s p k)) r"
    and "request_rel (snd (mark_playback_transfer_complete s p k)) r"
    and "request_rel (snd (mark_playback_drained s p n)) r"
    and "request_rel (snd (acknowledge_finished s p)) r"
    and "request_rel (snd (abort_playback s p)) r"
    and "request_rel (seed_capture_counter s seed) r"
  using assms
  by (auto simp: request_rel_def mark_playback_started_def accept_playback_frame_def
      mark_playback_transfer_complete_def mark_playback_drained_def
      acknowledge_finished_def abort_playback_def seed_capture_counter_def slot_basic_defs)

interpretation requests: ghost_machine slot_step init_slot_state slot_inv request_ghost None request_rel
proof unfold_locales
  show "request_rel init_slot_state None" by (simp add: request_rel_def init_slot_state_def)
next
  fix s r op s' out
  assume "request_rel s r" "slot_step s op = (s', out)"
  then show "request_rel s' (request_ghost r (op, out))"
    by (cases op)
      (auto simp: with_out_def intro: request_rel_input request_rel_disconnect request_rel_other
        request_rel_begin prod.collapse)
qed


section \<open>Properties of call sequences\<close>

abbreviation slot_run :: "SlotOp list \<Rightarrow> CodexSlotState" where
  "slot_run ops \<equiv> run (\<lambda>s op. fst (slot_step s op)) init_slot_state ops"

abbreviation slot_log :: "SlotOp list \<Rightarrow> (SlotOp \<times> SlotOut) list" where
  "slot_log ops \<equiv> run_log slot_step init_slot_state ops"

text \<open>
  C18: After any sequence of calls, at most one of the three slot activities is
  live: while a capture is active there is neither a playback nor a pending play
  request and the capture slot is one of 1 to 4; while a playback is in any phase
  but idle there is neither a capture nor a pending request, its slot is one of
  1 to 4 and its frame counter has not passed the announced total; while a play
  request is pending its slot is one of 1 to 4 and neither of the other two is live.
\<close>

theorem slot_activities_exclusive:
  "(capture_active (slot_run ops) \<longrightarrow>
      cs_playback_phase (slot_run ops) = PlaybackIdle \<and> cs_pending_play_slot (slot_run ops) = 0 \<and>
      cs_capture_slot (slot_run ops) \<in> {1..4}) \<and>
   (cs_playback_phase (slot_run ops) \<noteq> PlaybackIdle \<longrightarrow>
      cs_pending_play_slot (slot_run ops) = 0 \<and> \<not> capture_active (slot_run ops) \<and>
      pi_slot (cs_playback_identity (slot_run ops)) \<in> {1..4} \<and>
      cs_playback_next_frame (slot_run ops) \<le> cs_playback_total_frames (slot_run ops)) \<and>
   (cs_pending_play_slot (slot_run ops) \<noteq> 0 \<longrightarrow>
      cs_pending_play_slot (slot_run ops) \<in> {1..4} \<and>
      \<not> capture_active (slot_run ops) \<and> cs_playback_phase (slot_run ops) = PlaybackIdle)"
  using slots.inv_reachable [of ops]
  by (auto simp: slot_inv_defs capture_active_def valid_playback_identity_def kFirstSlot_def
      kLastSlot_def split: if_splits)

theorem slot_activities_exclusive_witness:
  "capture_active (slot_run [OpInput Key1 Pressed 7]) \<and>
   cs_playback_phase (slot_run [OpInput Key1 Pressed 7]) = PlaybackIdle"
proof -
  have "capture_active (slot_run [OpInput Key1 Pressed 7])"
    by code_simp
  then show ?thesis using slot_activities_exclusive [of "[OpInput Key1 Pressed 7]"] by blast
qed

text \<open>
  The capture actions emitted over any sequence of calls are well bracketed:
  every \<open>PttEnded\<close> closes the last \<open>PttStarted\<close> with the same slot, capture
  generation and connection generation, no capture starts while one is open, and
  the capture that is open at the end is the one the state reports.
\<close>

lemma captures_are_bracketed:
  "check_outputs observe_capture None (concat (map snd (run_log slot_emit init_slot_state ops)))
     = Some (capture_view (slot_run ops))"
proof -
  have "capture_view init_slot_state = None"
    by (simp add: capture_view_def capture_active_def init_slot_state_def)
  then show ?thesis using captures.view_reachable [of ops] by (simp add: slot_emit_def)
qed

text \<open>
  C6: If the acknowledgement of a finished playback is accepted for an identity,
  then the calls before it contain an accepted begin for that identity after
  which the frames accepted were exactly 0, 1, ..., total - 1 in order, followed
  by an accepted drain of exactly the announced number of samples: a summary is
  never reported as heard on a partial, reordered or foreign transfer.
\<close>

theorem finished_only_after_full_delivery:
  assumes "fst (acknowledge_finished (slot_run ops) identity)"
  shows "\<exists>b. pb_identity b = identity \<and>
    foldl delivery_ghost None (slot_log ops) =
      Some (b, map of_nat [0..<unat (pb_total_frames b)], Some (pb_total_samples b))"
proof -
  let ?s = "slot_run ops"
  have fin: "cs_playback_phase ?s = FinishedPendingAck" "cs_playback_identity ?s = identity"
    using assms by (auto simp: acknowledge_finished_def playback_matches_def split: if_splits)
  have "slot_inv ?s" by (rule slots.inv_reachable)
  then have "cs_playback_next_frame ?s = cs_playback_total_frames ?s"
    using fin by (auto simp: slot_inv_defs)
  moreover have "delivery_rel ?s (foldl delivery_ghost None (slot_log ops))"
    by (rule deliveries.rel_reachable)
  ultimately show ?thesis using fin by (auto simp: delivery_rel_def)
qed

definition demo_identity :: PlaybackIdentity where
  "demo_identity = \<lparr>pi_slot = 1, pi_summary_generation = 5, pi_lease = 6, pi_connection_generation = 7\<rparr>"

definition demo_begin :: PlaybackBegin where
  "demo_begin = \<lparr>pb_identity = demo_identity, pb_request_generation = 1, pb_total_frames = 2, pb_total_samples = 9\<rparr>"

definition demo_ops :: "SlotOp list" where
  "demo_ops = [OpInput Key5 Pressed 7, OpBegin demo_begin, OpStarted demo_identity,
     OpFrame demo_identity 0, OpFrame demo_identity 1, OpTransferComplete demo_identity 1,
     OpDrained demo_identity 9]"

theorem finished_only_after_full_delivery_witness:
  "fst (acknowledge_finished (slot_run demo_ops) demo_identity) \<and>
   (\<exists>b. pb_identity b = demo_identity \<and>
    foldl delivery_ghost None (slot_log demo_ops) =
      Some (b, map of_nat [0..<unat (pb_total_frames b)], Some (pb_total_samples b)))"
proof -
  have h: "fst (acknowledge_finished (slot_run demo_ops) demo_identity)"
    by code_simp
  show ?thesis using h finished_only_after_full_delivery [OF h] by blast
qed

text \<open>
  C17: A playback begin is accepted only as the answer to the last play request
  that the device emitted and that no earlier accepted begin has consumed, with
  the same slot, request generation and connection generation: the Host cannot
  start a playback that no key press asked for, nor start one twice.
\<close>

theorem begin_consumes_live_request:
  assumes "fst (begin_playback (slot_run ops) b) = BeginAccepted"
  shows "foldl request_ghost None (slot_log ops) =
    Some (pi_slot (pb_identity b), pb_request_generation b, pi_connection_generation (pb_identity b))"
proof -
  let ?s = "slot_run ops"
  have "cs_pending_play_slot ?s = pi_slot (pb_identity b)"
    "cs_pending_play_request_generation ?s = pb_request_generation b"
    "cs_pending_play_connection_generation ?s = pi_connection_generation (pb_identity b)"
    "pi_slot (pb_identity b) \<noteq> 0"
    using assms by (auto simp: begin_playback_def valid_playback_identity_def kFirstSlot_def split: if_splits)
  then show ?thesis using requests.rel_reachable [of ops] by (simp add: request_rel_def)
qed

theorem begin_consumes_live_request_witness:
  "fst (begin_playback (slot_run [OpInput Key5 Pressed 7]) demo_begin) = BeginAccepted \<and>
   foldl request_ghost None (slot_log [OpInput Key5 Pressed 7]) = Some (1, 1, 7)"
proof -
  have h: "fst (begin_playback (slot_run [OpInput Key5 Pressed 7]) demo_begin) = BeginAccepted"
    by code_simp
  show ?thesis using h begin_consumes_live_request [OF h] by (simp add: demo_begin_def demo_identity_def)
qed

end
