(* ===== verification/Hid_Queue.thy ===== *)
theory Hid_Queue
  imports Keymap
begin

text \<open>
  \<^verbatim>\<open>components/keyboard/include/keyboard/hid_report_queue.h\<close> and
  \<^verbatim>\<open>src/hid_report_queue.cpp\<close>: the two bounded ring buffers between the producers
  of input and a transport.  The HID report queue admits a report by its class,
  so that releases always find room; the wheel queue merges movement in one
  direction.  A nullable data pointer with a length is \<open>bytes option\<close> and a
  \<open>nat\<close>; the code requires that a non-null pointer has at least that many bytes.
\<close>

section \<open>Types and constants\<close>

definition kHidReportQueueCapacity :: nat where "kHidReportQueueCapacity = 32"
definition kHidReportMaxPayload :: nat where "kHidReportMaxPayload = 63"
definition kMouseWheelQueueCapacity :: nat where "kMouseWheelQueueCapacity = 32"
definition kKeyboardSnapshotPayloadSize :: nat where "kKeyboardSnapshotPayloadSize = 8"
definition kMouseWheelAccumulationLimit :: int where "kMouseWheelAccumulationLimit = 32767"

record BleOwnerToken =
  bo_conn_handle :: u16
  bo_generation :: u32

definition kNoConnection :: u16 where "kNoConnection = 0xFFFF"

definition no_owner :: BleOwnerToken where
  "no_owner = \<lparr>bo_conn_handle = kNoConnection, bo_generation = 0\<rparr>"

definition owner_valid :: "BleOwnerToken \<Rightarrow> bool" where
  "owner_valid t \<longleftrightarrow> bo_conn_handle t \<noteq> kNoConnection \<and> bo_generation t \<noteq> 0"

datatype HidReportClass = KeyboardPress | KeyboardRelease | KeyboardAllReleased
  | AppCommand | AppCommandStatefulPress | AppCommandStatefulRelease

datatype HidQueuePushStatus = Queued | Coalesced | Full | InvalidPush

record HidQueuePushResult =
  pr_status :: HidQueuePushStatus
  pr_sequence :: u32

definition invalid_push :: HidQueuePushResult where
  "invalid_push = \<lparr>pr_status = InvalidPush, pr_sequence = 0\<rparr>"

definition push_accepted :: "HidQueuePushResult \<Rightarrow> bool" where
  "push_accepted r \<longleftrightarrow> pr_status r = Queued \<or> pr_status r = Coalesced"

record QueuedHidReport =
  qr_sequence :: u32
  qr_report_id :: u8
  qr_data :: bytes
  qr_len :: nat
  qr_queued_ms :: u32
  qr_report_class :: HidReportClass
  qr_ble_owner :: BleOwnerToken
  qr_usb_epoch :: u32

definition empty_report :: QueuedHidReport where
  "empty_report = \<lparr>qr_sequence = 0, qr_report_id = 0, qr_data = replicate kHidReportMaxPayload 0,
     qr_len = 0, qr_queued_ms = 0, qr_report_class = AppCommand, qr_ble_owner = no_owner,
     qr_usb_epoch = 0\<rparr>"

record HidReportQueue =
  hq_reports :: "QueuedHidReport list"
  hq_head :: nat
  hq_size :: nat
  hq_next_sequence :: u32

definition init_hid_queue :: HidReportQueue where
  "init_hid_queue = \<lparr>hq_reports = replicate kHidReportQueueCapacity empty_report,
     hq_head = 0, hq_size = 0, hq_next_sequence = 1\<rparr>"

section \<open>HID report queue operations\<close>

fun classified_capacity :: "HidReportClass \<Rightarrow> nat" where
  "classified_capacity KeyboardPress = kHidReportQueueCapacity - kKeyboardStateSourceCount"
| "classified_capacity AppCommand = kHidReportQueueCapacity - 2 * kKeyboardStateSourceCount"
| "classified_capacity AppCommandStatefulPress = kHidReportQueueCapacity - 2 * kKeyboardStateSourceCount"
| "classified_capacity KeyboardRelease = kHidReportQueueCapacity - 1"
| "classified_capacity AppCommandStatefulRelease = kHidReportQueueCapacity - 1"
| "classified_capacity KeyboardAllReleased = kHidReportQueueCapacity"

definition is_keyboard_snapshot :: "HidReportClass \<Rightarrow> bool" where
  "is_keyboard_snapshot c \<longleftrightarrow> c = KeyboardPress \<or> c = KeyboardRelease \<or> c = KeyboardAllReleased"

definition is_app_command :: "HidReportClass \<Rightarrow> bool" where
  "is_app_command c \<longleftrightarrow> c = AppCommand \<or> c = AppCommandStatefulPress \<or> c = AppCommandStatefulRelease"

definition is_all_zero :: "bytes option \<Rightarrow> nat \<Rightarrow> bool" where
  "is_all_zero data len \<longleftrightarrow> len > 0 \<and>
     (case data of None \<Rightarrow> False | Some bs \<Rightarrow> list_all (\<lambda>b. b = 0) (take len bs))"

text \<open>\<open>sequence = next_sequence_++\<close>, and the next number skips zero.\<close>

definition advance_sequence :: "u32 \<Rightarrow> u32" where
  "advance_sequence c = (if c + 1 = 0 then 1 else c + 1)"

definition tail_matches ::
  "HidReportQueue \<Rightarrow> u8 \<Rightarrow> bytes option \<Rightarrow> nat \<Rightarrow> BleOwnerToken \<Rightarrow> u32 \<Rightarrow> u32 option" where
  "tail_matches q report_id data len ble_owner usb_epoch =
     (if hq_size q = 0 \<or> len > kHidReportMaxPayload \<or> (len > 0 \<and> data = None) then None
      else
        let tail = hq_reports q ! ((hq_head q + hq_size q - 1) mod length (hq_reports q)) in
        if is_app_command (qr_report_class tail) \<or> qr_report_id tail \<noteq> report_id \<or>
           qr_len tail \<noteq> len \<or> qr_ble_owner tail \<noteq> ble_owner \<or> qr_usb_epoch tail \<noteq> usb_epoch
        then None
        else if len > 0 \<and> take len (the data) \<noteq> take len (qr_data tail) then None
        else Some (qr_sequence tail))"

text \<open>The report as it is stored: the payload is copied over a zeroed array.\<close>

definition stored_report ::
  "u32 \<Rightarrow> u8 \<Rightarrow> bytes option \<Rightarrow> nat \<Rightarrow> u32 \<Rightarrow> HidReportClass \<Rightarrow> BleOwnerToken \<Rightarrow> u32 \<Rightarrow> QueuedHidReport" where
  "stored_report sequence report_id data len queued_ms report_class ble_owner usb_epoch =
     empty_report\<lparr>qr_sequence := sequence, qr_report_id := report_id, qr_len := len,
       qr_queued_ms := queued_ms, qr_report_class := report_class, qr_ble_owner := ble_owner,
       qr_usb_epoch := usb_epoch,
       qr_data := (if len > 0 then take len (the data) @ drop len (qr_data empty_report)
                   else qr_data empty_report)\<rparr>"

definition push_with_limit ::
  "HidReportQueue \<Rightarrow> u8 \<Rightarrow> bytes option \<Rightarrow> nat \<Rightarrow> u32 \<Rightarrow> HidReportClass \<Rightarrow> nat \<Rightarrow> bool \<Rightarrow>
   BleOwnerToken \<Rightarrow> u32 \<Rightarrow> HidQueuePushResult \<times> HidReportQueue" where
  "push_with_limit q report_id data len queued_ms report_class usable_capacity
     coalesce_keyboard_snapshot ble_owner usb_epoch =
     (if len > kHidReportMaxPayload \<or> (len > 0 \<and> data = None) \<or> usable_capacity = 0
      then (invalid_push, q)
      else
        case (if coalesce_keyboard_snapshot
              then tail_matches q report_id data len ble_owner usb_epoch else None) of
          Some existing_sequence \<Rightarrow>
            (\<lparr>pr_status = Coalesced, pr_sequence = existing_sequence\<rparr>, q)
        | None \<Rightarrow>
            (if hq_size q \<ge> usable_capacity then (\<lparr>pr_status = Full, pr_sequence = 0\<rparr>, q)
             else
               let tail = (hq_head q + hq_size q) mod length (hq_reports q);
                   report = stored_report (hq_next_sequence q) report_id data len queued_ms
                              report_class ble_owner usb_epoch
               in (\<lparr>pr_status = Queued, pr_sequence = qr_sequence report\<rparr>,
                   q\<lparr>hq_reports := (hq_reports q)[tail := report],
                     hq_next_sequence := advance_sequence (hq_next_sequence q),
                     hq_size := hq_size q + 1\<rparr>)))"

definition push_classified ::
  "HidReportQueue \<Rightarrow> u8 \<Rightarrow> bytes option \<Rightarrow> nat \<Rightarrow> u32 \<Rightarrow> HidReportClass \<Rightarrow> BleOwnerToken \<Rightarrow> u32 \<Rightarrow>
   HidQueuePushResult \<times> HidReportQueue" where
  "push_classified q report_id data len queued_ms report_class ble_owner usb_epoch =
     (if len > kHidReportMaxPayload \<or> (len > 0 \<and> data = None) then (invalid_push, q)
      else if is_keyboard_snapshot report_class \<and> len \<noteq> kKeyboardSnapshotPayloadSize
      then (invalid_push, q)
      else if report_class = KeyboardAllReleased \<and> \<not> is_all_zero data len then (invalid_push, q)
      else push_with_limit q report_id data len queued_ms report_class
             (classified_capacity report_class) (is_keyboard_snapshot report_class)
             ble_owner usb_epoch)"

text \<open>The unclassified entry point; the result is the acceptance and the sequence number.\<close>

definition hid_push ::
  "HidReportQueue \<Rightarrow> u8 \<Rightarrow> bytes option \<Rightarrow> nat \<Rightarrow> u32 \<Rightarrow> nat \<Rightarrow> BleOwnerToken \<Rightarrow> u32 \<Rightarrow>
   (bool \<times> u32) \<times> HidReportQueue" where
  "hid_push q report_id data len queued_ms reserved_free_slots ble_owner usb_epoch =
     (let usable_capacity = (if reserved_free_slots \<ge> kHidReportQueueCapacity then 0
                             else kHidReportQueueCapacity - reserved_free_slots);
          (result, q') = push_with_limit q report_id data len queued_ms AppCommand
                           usable_capacity False ble_owner usb_epoch
      in ((push_accepted result, pr_sequence result), q'))"

definition hid_front :: "HidReportQueue \<Rightarrow> QueuedHidReport option" where
  "hid_front q = (if hq_size q = 0 then None else Some (hq_reports q ! hq_head q))"

definition hid_pop_if_sequence :: "HidReportQueue \<Rightarrow> u32 \<Rightarrow> bool \<times> HidReportQueue" where
  "hid_pop_if_sequence q sequence =
     (if hq_size q = 0 \<or> qr_sequence (hq_reports q ! hq_head q) \<noteq> sequence then (False, q)
      else (True, q\<lparr>hq_reports := (hq_reports q)[hq_head q := empty_report],
                    hq_head := (hq_head q + 1) mod length (hq_reports q),
                    hq_size := hq_size q - 1\<rparr>))"

definition hid_clear :: "HidReportQueue \<Rightarrow> HidReportQueue" where
  "hid_clear q = q\<lparr>hq_reports := replicate kHidReportQueueCapacity empty_report,
     hq_head := 0, hq_size := 0\<rparr>"

section \<open>Mouse wheel queue\<close>

text \<open>
  The 32-bit movements are integers; the invariant below keeps them within the
  accumulation limit, so no 32-bit operation of the code overflows.
\<close>

record QueuedMouseWheel =
  mw_sequence :: u32
  mw_vertical :: int
  mw_horizontal :: int
  mw_queued_ms :: u32
  mw_ble_owner :: BleOwnerToken
  mw_usb_epoch :: u32

definition empty_wheel :: QueuedMouseWheel where
  "empty_wheel = \<lparr>mw_sequence = 0, mw_vertical = 0, mw_horizontal = 0, mw_queued_ms = 0,
     mw_ble_owner = no_owner, mw_usb_epoch = 0\<rparr>"

record MouseWheelQueue =
  wq_reports :: "QueuedMouseWheel list"
  wq_head :: nat
  wq_size :: nat
  wq_next_sequence :: u32

definition init_wheel_queue :: MouseWheelQueue where
  "init_wheel_queue = \<lparr>wq_reports = replicate kMouseWheelQueueCapacity empty_wheel,
     wq_head = 0, wq_size = 0, wq_next_sequence = 1\<rparr>"

text \<open>The sum and whether the accumulation limit cut it.\<close>

definition saturating_wheel_add :: "int \<Rightarrow> int \<Rightarrow> int \<times> bool" where
  "saturating_wheel_add current incoming =
     (let sum = current + incoming in
      if sum > kMouseWheelAccumulationLimit then (kMouseWheelAccumulationLimit, True)
      else if sum < - kMouseWheelAccumulationLimit then (- kMouseWheelAccumulationLimit, True)
      else (sum, False))"

definition same_or_empty_direction :: "int \<Rightarrow> int \<Rightarrow> bool" where
  "same_or_empty_direction current incoming \<longleftrightarrow>
     current = 0 \<or> incoming = 0 \<or> (current > 0) = (incoming > 0)"

definition valid_consumption :: "int \<Rightarrow> int \<Rightarrow> bool" where
  "valid_consumption pending consumed \<longleftrightarrow>
     (if consumed = 0 then True
      else pending \<noteq> 0 \<and> (pending > 0) = (consumed > 0) \<and> \<bar>consumed\<bar> \<le> \<bar>pending\<bar>)"

definition wheel_clamp :: "int \<Rightarrow> int" where
  "wheel_clamp v = (if v < - kMouseWheelAccumulationLimit then - kMouseWheelAccumulationLimit
     else if v > kMouseWheelAccumulationLimit then kMouseWheelAccumulationLimit else v)"

record WheelPushOut =
  wo_accepted :: bool
  wo_sequence :: "u32 option" \<comment> \<open>written through the pointer only on acceptance\<close>
  wo_coalesced :: bool
  wo_saturated :: bool

definition wheel_push ::
  "MouseWheelQueue \<Rightarrow> int \<Rightarrow> int \<Rightarrow> u32 \<Rightarrow> BleOwnerToken \<Rightarrow> u32 \<Rightarrow> WheelPushOut \<times> MouseWheelQueue" where
  "wheel_push q vertical horizontal queued_ms ble_owner usb_epoch =
     (let rejected = \<lparr>wo_accepted = False, wo_sequence = None, wo_coalesced = False, wo_saturated = False\<rparr>;
          last_index = (wq_head q + wq_size q - 1) mod length (wq_reports q);
          last = wq_reports q ! last_index
      in
      if vertical = 0 \<and> horizontal = 0 then (rejected, q)
      else if wq_size q > 0 \<and> mw_ble_owner last = ble_owner \<and> mw_usb_epoch last = usb_epoch \<and>
              same_or_empty_direction (mw_vertical last) vertical \<and>
              same_or_empty_direction (mw_horizontal last) horizontal
      then
        let (v, vsat) = saturating_wheel_add (mw_vertical last) vertical;
            (h, hsat) = saturating_wheel_add (mw_horizontal last) horizontal
        in (\<lparr>wo_accepted = True, wo_sequence = Some (mw_sequence last), wo_coalesced = True,
             wo_saturated = vsat \<or> hsat\<rparr>,
            q\<lparr>wq_reports := (wq_reports q)[last_index := last\<lparr>mw_vertical := v, mw_horizontal := h\<rparr>]\<rparr>)
      else if wq_size q \<ge> length (wq_reports q) then (rejected, q)
      else
        let tail_index = (wq_head q + wq_size q) mod length (wq_reports q);
            report = \<lparr>mw_sequence = wq_next_sequence q, mw_vertical = wheel_clamp vertical,
              mw_horizontal = wheel_clamp horizontal, mw_queued_ms = queued_ms,
              mw_ble_owner = ble_owner, mw_usb_epoch = usb_epoch\<rparr>
        in (\<lparr>wo_accepted = True, wo_sequence = Some (mw_sequence report), wo_coalesced = False,
             wo_saturated = False\<rparr>,
            q\<lparr>wq_reports := (wq_reports q)[tail_index := report],
              wq_next_sequence := advance_sequence (wq_next_sequence q),
              wq_size := wq_size q + 1\<rparr>))"

definition wheel_front :: "MouseWheelQueue \<Rightarrow> QueuedMouseWheel option" where
  "wheel_front q = (if wq_size q = 0 then None else Some (wq_reports q ! wq_head q))"

definition wheel_pop_if_sequence :: "MouseWheelQueue \<Rightarrow> u32 \<Rightarrow> bool \<times> MouseWheelQueue" where
  "wheel_pop_if_sequence q sequence =
     (if wq_size q = 0 \<or> mw_sequence (wq_reports q ! wq_head q) \<noteq> sequence then (False, q)
      else (True, q\<lparr>wq_reports := (wq_reports q)[wq_head q := empty_wheel],
                    wq_head := (wq_head q + 1) mod length (wq_reports q),
                    wq_size := wq_size q - 1\<rparr>))"

definition wheel_consume_if_sequence ::
  "MouseWheelQueue \<Rightarrow> u32 \<Rightarrow> int \<Rightarrow> int \<Rightarrow> bool \<times> MouseWheelQueue" where
  "wheel_consume_if_sequence q sequence vertical horizontal =
     (if wq_size q = 0 \<or> mw_sequence (wq_reports q ! wq_head q) \<noteq> sequence then (False, q)
      else
        let report = wq_reports q ! wq_head q in
        if \<not> valid_consumption (mw_vertical report) vertical \<or>
           \<not> valid_consumption (mw_horizontal report) horizontal
        then (False, q)
        else
          let report' = report\<lparr>mw_vertical := mw_vertical report - vertical,
                               mw_horizontal := mw_horizontal report - horizontal\<rparr>;
              q' = q\<lparr>wq_reports := (wq_reports q)[wq_head q := report']\<rparr>
          in if mw_vertical report' = 0 \<and> mw_horizontal report' = 0
             then wheel_pop_if_sequence q' sequence
             else (True, q'))"

definition wheel_clear :: "MouseWheelQueue \<Rightarrow> MouseWheelQueue" where
  "wheel_clear q = q\<lparr>wq_reports := replicate kMouseWheelQueueCapacity empty_wheel,
     wq_head := 0, wq_size := 0\<rparr>"

end
