(* ===== verification/Hid_Queue_Facts.thy ===== *)
theory Hid_Queue_Facts
  imports Hid_Queue
begin

text \<open>
  What the report queue and the wheel queue promise.  Each ring buffer is read
  as the list of its items in queue order (\<open>hid_items\<close>, \<open>wheel_items\<close>); the
  operations are shown to be list operations on it, the sequence numbers to be
  consecutive, the classes of the report queue to leave room for releases, and
  the wheel queue to neither invent nor lose movement.
\<close>

section \<open>Sequence numbers\<close>

interpretation queue_seq: nonzero_counter advance_sequence
  by unfold_locales (auto simp: advance_sequence_def add_eq_0_iff2)

section \<open>The report queue as a list\<close>

definition hid_items :: "HidReportQueue \<Rightarrow> QueuedHidReport list" where
  "hid_items q = ring_list (hq_reports q) (hq_head q) (hq_size q)"

definition hid_inv :: "HidReportQueue \<Rightarrow> bool" where
  "hid_inv q \<longleftrightarrow> length (hq_reports q) = kHidReportQueueCapacity \<and>
     hq_head q < kHidReportQueueCapacity \<and> hq_size q \<le> kHidReportQueueCapacity \<and>
     (\<exists>s. s \<noteq> 0 \<and> map qr_sequence (hid_items q) = queue_seq.consecutive s (hq_size q) \<and>
          hq_next_sequence q = (advance_sequence ^^ hq_size q) s)"

lemma length_hid_items [simp]: "length (hid_items q) = hq_size q"
  by (simp add: hid_items_def)

lemma capacity_positive [simp]: "0 < kHidReportQueueCapacity" "0 < kMouseWheelQueueCapacity"
  by (simp_all add: kHidReportQueueCapacity_def kMouseWheelQueueCapacity_def)

lemma hid_invD:
  assumes "hid_inv q"
  shows "length (hq_reports q) = kHidReportQueueCapacity" "hq_head q < length (hq_reports q)"
    "hq_size q \<le> length (hq_reports q)" "hq_next_sequence q \<noteq> 0"
  using assms by (auto simp: hid_inv_def queue_seq.iterate_nonzero)

lemma hid_inv_init: "hid_inv init_hid_queue"
  unfolding hid_inv_def
  by (auto simp: init_hid_queue_def hid_items_def queue_seq.consecutive_def intro!: exI [of _ 1])

lemma hid_inv_clear: "hid_inv q \<Longrightarrow> hid_inv (hid_clear q)"
  using hid_invD(4) [of q]
  by (auto simp: hid_inv_def hid_clear_def hid_items_def queue_seq.consecutive_def
      intro!: exI [of _ "hq_next_sequence q"])

lemma hid_items_clear: "hid_items (hid_clear q) = []"
  by (simp add: hid_items_def hid_clear_def)

text \<open>Storing a report appends it.\<close>

definition hid_store :: "HidReportQueue \<Rightarrow> QueuedHidReport \<Rightarrow> HidReportQueue" where
  "hid_store q r = q\<lparr>hq_reports := (hq_reports q)[(hq_head q + hq_size q) mod length (hq_reports q) := r],
     hq_next_sequence := advance_sequence (hq_next_sequence q), hq_size := hq_size q + 1\<rparr>"

lemma hid_items_store:
  assumes "hq_size q < length (hq_reports q)"
  shows "hid_items (hid_store q r) = hid_items q @ [r]"
  using ring_list_push [OF assms] by (simp add: hid_items_def hid_store_def)

lemma hid_inv_store:
  assumes inv: "hid_inv q" and room: "hq_size q < kHidReportQueueCapacity"
    and "qr_sequence r = hq_next_sequence q"
  shows "hid_inv (hid_store q r)"
proof -
  from inv obtain s where s: "s \<noteq> 0" "map qr_sequence (hid_items q) = queue_seq.consecutive s (hq_size q)"
    "hq_next_sequence q = (advance_sequence ^^ hq_size q) s"
    unfolding hid_inv_def by blast
  have "hid_items (hid_store q r) = hid_items q @ [r]"
    using hid_items_store hid_invD(1) [OF inv] room by simp
  then have "map qr_sequence (hid_items (hid_store q r)) = queue_seq.consecutive s (Suc (hq_size q))"
    using s assms(3) by (simp add: queue_seq.consecutive_snoc)
  then show ?thesis
    using inv room s unfolding hid_inv_def by (auto simp: hid_store_def)
qed

lemma hid_last:
  "hid_inv q \<Longrightarrow> 0 < hq_size q \<Longrightarrow>
     hq_reports q ! ((hq_head q + hq_size q - Suc 0) mod length (hq_reports q)) = last (hid_items q)"
  using ring_list_last [of "hq_size q" "hq_reports q" "hq_head q"] by (simp add: hid_items_def)

text \<open>Removing the front.\<close>

definition hid_drop :: "HidReportQueue \<Rightarrow> HidReportQueue" where
  "hid_drop q = q\<lparr>hq_reports := (hq_reports q)[hq_head q := empty_report],
     hq_head := (hq_head q + 1) mod length (hq_reports q), hq_size := hq_size q - 1\<rparr>"

lemma hid_items_drop:
  assumes "hid_inv q" and "0 < hq_size q"
  shows "hid_items (hid_drop q) = tl (hid_items q)"
  using ring_list_pop [of "hq_size q" "hq_reports q" "hq_head q"] hid_invD [OF assms(1)] assms(2)
  by (simp add: hid_items_def hid_drop_def)

lemma hid_inv_drop:
  assumes inv: "hid_inv q" and pos: "0 < hq_size q"
  shows "hid_inv (hid_drop q)"
proof -
  from inv obtain s where s: "s \<noteq> 0" "map qr_sequence (hid_items q) = queue_seq.consecutive s (hq_size q)"
    "hq_next_sequence q = (advance_sequence ^^ hq_size q) s"
    unfolding hid_inv_def by blast
  have "map qr_sequence (hid_items (hid_drop q)) = queue_seq.consecutive (advance_sequence s) (hq_size q - 1)"
    using s hid_items_drop [OF assms] by (simp add: map_tl queue_seq.consecutive_tl)
  moreover have "hq_next_sequence q = (advance_sequence ^^ (hq_size q - 1)) (advance_sequence s)"
    using s(3) pos by (cases "hq_size q") (auto simp: funpow_swap1)
  ultimately show ?thesis
    using inv pos queue_seq.next_nonzero [of s] unfolding hid_inv_def
    by (auto simp: hid_drop_def intro!: exI [of _ "advance_sequence s"])
qed

lemma hid_head: "hid_inv q \<Longrightarrow> 0 < hq_size q \<Longrightarrow> hq_reports q ! hq_head q = hd (hid_items q)"
  using ring_list_hd hid_invD by (metis hid_items_def)

lemma hid_pop_alt:
  assumes "hid_inv q"
  shows "hid_pop_if_sequence q n =
    (if hid_items q = [] \<or> qr_sequence (hd (hid_items q)) \<noteq> n then (False, q) else (True, hid_drop q))"
  using hid_head [OF assms] length_hid_items [of q]
  by (auto simp: hid_pop_if_sequence_def hid_drop_def simp flip: length_0_conv)

lemma hid_items_nonempty: "hid_items q \<noteq> [] \<longleftrightarrow> 0 < hq_size q"
  by (simp flip: length_greater_0_conv)

interpretation hid_fifo: seq_fifo hid_items hid_inv qr_sequence hid_front hid_pop_if_sequence kHidReportQueueCapacity
proof unfold_locales
  fix q :: HidReportQueue and x xs ok q' n
  assume inv: "hid_inv q"
  show "length (hid_items q) \<le> kHidReportQueueCapacity"
    using hid_invD [OF inv] by simp
  show "hid_front q = (case hid_items q of [] \<Rightarrow> None | x # xs \<Rightarrow> Some x)"
    using hid_head [OF inv] hid_items_nonempty [of q]
    by (auto simp: hid_front_def split: list.splits)
  show "ok \<and> hid_items q' = xs"
    if "hid_items q = x # xs" and "hid_pop_if_sequence q (qr_sequence x) = (ok, q')"
    using that hid_items_drop [OF inv] hid_items_nonempty [of q] by (auto simp: hid_pop_alt [OF inv])
  show "hid_pop_if_sequence q n = (False, q)" if "hid_items q = [] \<or> qr_sequence (hd (hid_items q)) \<noteq> n"
    using that by (simp add: hid_pop_alt [OF inv])
  show "hid_inv (snd (hid_pop_if_sequence q n))"
    using hid_inv_drop [OF inv] hid_items_nonempty [of q] inv by (auto simp: hid_pop_alt [OF inv])
qed

section \<open>Admission as a function on lists\<close>

text \<open>The abstract queue: what a classified push does to the list of waiting reports.\<close>

definition well_formed_push :: "bytes option \<Rightarrow> nat \<Rightarrow> HidReportClass \<Rightarrow> bool" where
  "well_formed_push data len c \<longleftrightarrow> len \<le> 63 \<and> (len = 0 \<or> data \<noteq> None) \<and>
     (is_keyboard_snapshot c \<longrightarrow> len = 8) \<and>
     (c = KeyboardAllReleased \<longrightarrow> (\<forall>b \<in> set (take 8 (the data)). b = 0))"

definition absorbs :: "QueuedHidReport \<Rightarrow> u8 \<Rightarrow> bytes option \<Rightarrow> nat \<Rightarrow> BleOwnerToken \<Rightarrow> u32 \<Rightarrow> bool" where
  "absorbs r report_id data len owner epoch \<longleftrightarrow> \<not> is_app_command (qr_report_class r) \<and>
     qr_report_id r = report_id \<and> qr_len r = len \<and> qr_ble_owner r = owner \<and> qr_usb_epoch r = epoch \<and>
     (len > 0 \<longrightarrow> take len (the data) = take len (qr_data r))"

definition push_spec ::
  "QueuedHidReport list \<Rightarrow> u32 \<Rightarrow> u8 \<Rightarrow> bytes option \<Rightarrow> nat \<Rightarrow> u32 \<Rightarrow> HidReportClass \<Rightarrow> BleOwnerToken \<Rightarrow> u32 \<Rightarrow>
   HidQueuePushStatus \<times> QueuedHidReport list" where
  "push_spec xs sequence report_id data len ms c owner epoch =
     (if \<not> well_formed_push data len c then (InvalidPush, xs)
      else if is_keyboard_snapshot c \<and> xs \<noteq> [] \<and> absorbs (last xs) report_id data len owner epoch
      then (Coalesced, xs)
      else if length xs \<ge> classified_capacity c then (Full, xs)
      else (Queued, xs @ [stored_report sequence report_id data len ms c owner epoch]))"

lemma classified_capacity_bounds: "0 < classified_capacity c" "classified_capacity c \<le> kHidReportQueueCapacity"
  by (cases c; simp add: kHidReportQueueCapacity_def kKeyboardStateSourceCount_def)+

lemma qr_sequence_stored [simp]: "qr_sequence (stored_report s i d l m c ow e) = s"
  by (simp add: stored_report_def)

lemma tail_matches_alt:
  assumes "hid_inv q" and "len \<le> 63" and "len = 0 \<or> data \<noteq> None"
  shows "tail_matches q i data len ow e =
    (if hid_items q \<noteq> [] \<and> absorbs (last (hid_items q)) i data len ow e
     then Some (qr_sequence (last (hid_items q))) else None)"
proof (cases "hq_size q = 0")
  case True
  then show ?thesis using hid_items_nonempty [of q] by (simp add: tail_matches_def)
next
  case False
  then have "hid_items q \<noteq> []"
    and "hq_reports q ! ((hq_head q + hq_size q - Suc 0) mod length (hq_reports q)) = last (hid_items q)"
    using hid_items_nonempty [of q] hid_last [OF assms(1)] by auto
  with False assms show ?thesis
    by (auto simp: tail_matches_def absorbs_def kHidReportMaxPayload_def Let_def)
qed

lemma push_with_limit_alt:
  assumes "hid_inv q" and "len \<le> 63" and "len = 0 \<or> data \<noteq> None" and "0 < limit"
  shows "push_with_limit q i data len ms c limit coalesce ow e =
    (if coalesce \<and> hid_items q \<noteq> [] \<and> absorbs (last (hid_items q)) i data len ow e
     then (\<lparr>pr_status = Coalesced, pr_sequence = qr_sequence (last (hid_items q))\<rparr>, q)
     else if hq_size q \<ge> limit then (\<lparr>pr_status = Full, pr_sequence = 0\<rparr>, q)
     else (\<lparr>pr_status = Queued, pr_sequence = hq_next_sequence q\<rparr>,
           hid_store q (stored_report (hq_next_sequence q) i data len ms c ow e)))"
  using assms
  by (auto simp: push_with_limit_def tail_matches_alt kHidReportMaxPayload_def hid_store_def Let_def)

lemma well_formed_push_alt:
  "well_formed_push data len c \<longleftrightarrow>
     \<not> (len > kHidReportMaxPayload \<or> (len > 0 \<and> data = None)) \<and>
     \<not> (is_keyboard_snapshot c \<and> len \<noteq> kKeyboardSnapshotPayloadSize) \<and>
     \<not> (c = KeyboardAllReleased \<and> \<not> is_all_zero data len)"
  by (cases c; cases data)
    (auto simp: well_formed_push_def kHidReportMaxPayload_def kKeyboardSnapshotPayloadSize_def
      is_keyboard_snapshot_def is_all_zero_def list_all_iff)

lemma push_classified_alt:
  assumes inv: "hid_inv q"
  shows "push_classified q i data len ms c ow e =
    (if \<not> well_formed_push data len c then (invalid_push, q)
     else if is_keyboard_snapshot c \<and> hid_items q \<noteq> [] \<and> absorbs (last (hid_items q)) i data len ow e
     then (\<lparr>pr_status = Coalesced, pr_sequence = qr_sequence (last (hid_items q))\<rparr>, q)
     else if hq_size q \<ge> classified_capacity c then (\<lparr>pr_status = Full, pr_sequence = 0\<rparr>, q)
     else (\<lparr>pr_status = Queued, pr_sequence = hq_next_sequence q\<rparr>,
           hid_store q (stored_report (hq_next_sequence q) i data len ms c ow e)))"
proof (cases "well_formed_push data len c")
  case True
  then have "push_classified q i data len ms c ow e =
      push_with_limit q i data len ms c (classified_capacity c) (is_keyboard_snapshot c) ow e"
    unfolding well_formed_push_alt push_classified_def by (simp only: if_False if_True simp_thms)
  moreover have "len \<le> 63" "len = 0 \<or> data \<noteq> None" using True by (auto simp: well_formed_push_def)
  ultimately show ?thesis
    using True push_with_limit_alt [OF inv _ _ classified_capacity_bounds(1)] by simp
next
  case False
  then show ?thesis unfolding well_formed_push_alt push_classified_def by auto
qed

lemma push_classified_inv:
  assumes inv: "hid_inv q"
  shows "hid_inv (snd (push_classified q i data len ms c ow e))"
  using hid_inv_store [OF inv] inv classified_capacity_bounds(2) [of c]
  by (auto simp: push_classified_alt [OF inv])

text \<open>
  A classified push refines the list specification: a malformed report is
  refused, a keyboard snapshot equal to the newest waiting one is merged into it,
  a class whose share of the queue is used up is told Full, and otherwise the
  report is appended with the next sequence number; nothing else in the queue
  moves.
\<close>
lemma push_classified_refines:
  assumes "hid_inv q" and "push_classified q report_id data len ms c owner epoch = (result, q')"
  shows "(pr_status result, hid_items q') =
      push_spec (hid_items q) (hq_next_sequence q) report_id data len ms c owner epoch
    \<and> hid_inv q'
    \<and> (push_accepted result \<longrightarrow> pr_sequence result = qr_sequence (last (hid_items q')))"
proof -
  note inv = assms(1)
  have room: "hq_size q < length (hq_reports q)" if "\<not> classified_capacity c \<le> hq_size q"
    using that classified_capacity_bounds(2) [of c] hid_invD(1) [OF inv] by simp
  have "hid_inv q'" using push_classified_inv [OF inv] assms(2) by (metis snd_conv)
  with assms(2) show ?thesis
    using hid_items_store [OF room]
    by (auto simp: push_classified_alt [OF inv] push_spec_def invalid_push_def push_accepted_def
        split: if_splits)
qed

lemma push_classified_refines_witness:
  "push_spec [] 1 7 (Some (replicate 8 0)) 8 5 KeyboardAllReleased no_owner 0
     = (Queued, [stored_report 1 7 (Some (replicate 8 0)) 8 5 KeyboardAllReleased no_owner 0])"
proof -
  have items: "hid_items init_hid_queue = []"
    by (simp add: hid_items_def init_hid_queue_def)
  obtain r q' where p: "push_classified init_hid_queue 7 (Some (replicate 8 0)) 8 5 KeyboardAllReleased no_owner 0 = (r, q')"
    by fastforce
  have eq: "(pr_status r, hid_items q') = push_spec [] 1 7 (Some (replicate 8 0)) 8 5 KeyboardAllReleased no_owner 0"
    using push_classified_refines [OF hid_inv_init p] items by (simp add: init_hid_queue_def)
  have "pr_status (fst (push_classified init_hid_queue 7 (Some (replicate 8 0)) 8 5 KeyboardAllReleased no_owner 0)) = Queued
     \<and> hid_items (snd (push_classified init_hid_queue 7 (Some (replicate 8 0)) 8 5 KeyboardAllReleased no_owner 0)) =
       [stored_report 1 7 (Some (replicate 8 0)) 8 5 KeyboardAllReleased no_owner 0]"
    by code_simp
  with p eq show ?thesis by simp
qed

section \<open>Room for releases\<close>

record PushRequest =
  rq_report_id :: u8
  rq_data :: "bytes option"
  rq_len :: nat
  rq_ms :: u32
  rq_owner :: BleOwnerToken
  rq_epoch :: u32

definition push_request :: "HidReportClass \<Rightarrow> HidReportQueue \<Rightarrow> PushRequest \<Rightarrow> HidQueuePushResult \<times> HidReportQueue" where
  "push_request c q r = push_classified q (rq_report_id r) (rq_data r) (rq_len r) (rq_ms r) c (rq_owner r) (rq_epoch r)"

fun push_all :: "HidReportClass \<Rightarrow> HidReportQueue \<Rightarrow> PushRequest list \<Rightarrow> bool \<times> HidReportQueue" where
  "push_all c q [] = (True, q)"
| "push_all c q (r # rs) =
     (let (result, q') = push_request c q r; (ok, q'') = push_all c q' rs
      in (push_accepted result \<and> ok, q''))"

definition fits :: "HidReportClass \<Rightarrow> PushRequest \<Rightarrow> bool" where
  "fits c r \<longleftrightarrow> well_formed_push (rq_data r) (rq_len r) c"

lemma push_request_room:
  assumes inv: "hid_inv q" and "fits c r" and "hq_size q < classified_capacity c"
  shows "push_accepted (fst (push_request c q r))" "hid_inv (snd (push_request c q r))"
    "hq_size (snd (push_request c q r)) \<le> Suc (hq_size q)"
proof -
  show "hid_inv (snd (push_request c q r))"
    unfolding push_request_def by (rule push_classified_inv [OF inv])
  show "push_accepted (fst (push_request c q r))" "hq_size (snd (push_request c q r)) \<le> Suc (hq_size q)"
    using assms(2,3)
    by (auto simp: push_request_def push_classified_alt [OF inv] fits_def push_accepted_def hid_store_def)
qed

lemma push_all_room:
  "hid_inv q \<Longrightarrow> list_all (fits c) rs \<Longrightarrow> hq_size q + length rs \<le> classified_capacity c \<Longrightarrow>
     fst (push_all c q rs) \<and> hid_inv (snd (push_all c q rs)) \<and>
     hq_size (snd (push_all c q rs)) \<le> hq_size q + length rs"
proof (induction rs arbitrary: q)
  case Nil
  then show ?case by simp
next
  case (Cons r rs)
  let ?q = "snd (push_request c q r)"
  have step: "push_accepted (fst (push_request c q r))" "hid_inv ?q" "hq_size ?q \<le> Suc (hq_size q)"
    using push_request_room [OF Cons.prems(1), of c r] Cons.prems by auto
  then have "fst (push_all c ?q rs) \<and> hid_inv (snd (push_all c ?q rs)) \<and>
      hq_size (snd (push_all c ?q rs)) \<le> hq_size ?q + length rs"
    using Cons.IH [of ?q] Cons.prems by auto
  with step show ?case by (auto simp: case_prod_beta Let_def)
qed

lemma queued_size:
  assumes "hid_inv q" and "push_request c q r = (result, q')" and "pr_status result = Queued"
  shows "hq_size q' \<le> classified_capacity c" and "hid_inv q'"
proof -
  have "push_classified q (rq_report_id r) (rq_data r) (rq_len r) (rq_ms r) c (rq_owner r) (rq_epoch r) = (result, q')"
    using assms(2) by (simp add: push_request_def)
  note p = this [unfolded push_classified_alt [OF assms(1)]] and inv = push_classified_inv [OF assms(1)]
  show "hid_inv q'" using inv assms(2) unfolding push_request_def by (metis snd_conv)
  show "hq_size q' \<le> classified_capacity c"
    using p assms(3) by (auto simp: hid_store_def invalid_push_def split: if_splits)
qed

text \<open>
  Room for releases: once a key press has been queued, ten key releases, one
  for each other input source, and a final all-released snapshot are accepted
  without any report having been sent in between.
\<close>
lemma releases_fit_after_press:
  assumes "hid_inv q" and "push_request KeyboardPress q press = (result, q1)" and "pr_status result = Queued"
    and "list_all (fits KeyboardRelease) releases" and "length releases \<le> kKeyboardStateSourceCount - 1"
    and "push_all KeyboardRelease q1 releases = (ok, q2)" and "fits KeyboardAllReleased final"
  shows "ok \<and> push_accepted (fst (push_request KeyboardAllReleased q2 final))"
proof -
  have "hid_inv q1" "hq_size q1 \<le> classified_capacity KeyboardPress"
    using queued_size [OF assms(1,2,3)] by auto
  moreover have "classified_capacity KeyboardPress + (kKeyboardStateSourceCount - 1) \<le> classified_capacity KeyboardRelease"
    "classified_capacity KeyboardRelease < classified_capacity KeyboardAllReleased"
    by (simp_all add: kHidReportQueueCapacity_def kKeyboardStateSourceCount_def)
  ultimately have "ok \<and> hid_inv q2 \<and> hq_size q2 \<le> classified_capacity KeyboardRelease"
    using push_all_room [of q1 KeyboardRelease releases] assms(4-6) by auto
  then show ?thesis
    using push_request_room(1) [of q2 KeyboardAllReleased final] assms(7)
      \<open>classified_capacity KeyboardRelease < classified_capacity KeyboardAllReleased\<close>
    by (auto simp del: classified_capacity.simps)
qed

definition sample_press :: PushRequest where
  "sample_press = \<lparr>rq_report_id = 1, rq_data = Some [0, 0, 4, 0, 0, 0, 0, 0], rq_len = 8, rq_ms = 10,
     rq_owner = no_owner, rq_epoch = 1\<rparr>"

definition sample_release :: PushRequest where
  "sample_release = sample_press\<lparr>rq_data := Some (replicate 8 0)\<rparr>"

lemma releases_fit_after_press_witness:
  "fst (push_all KeyboardRelease (snd (push_request KeyboardPress init_hid_queue sample_press)) [sample_release])
   \<and> push_accepted (fst (push_request KeyboardAllReleased
        (snd (push_all KeyboardRelease (snd (push_request KeyboardPress init_hid_queue sample_press)) [sample_release]))
        sample_release))"
proof -
  have q: "pr_status (fst (push_request KeyboardPress init_hid_queue sample_press)) = Queued"
    by code_simp
  have f: "list_all (fits KeyboardRelease) [sample_release]" "fits KeyboardAllReleased sample_release"
    by code_simp+
  have len: "length [sample_release] \<le> kKeyboardStateSourceCount - 1" by code_simp
  show ?thesis
    using releases_fit_after_press [OF hid_inv_init prod.collapse [symmetric] q f(1) len prod.collapse [symmetric] f(2)]
    by simp
qed

section \<open>Runs of the report queue\<close>

datatype HidOp = HidPush HidReportClass PushRequest | HidPop u32 | HidClear
datatype HidOut = HidPushed HidQueuePushResult | HidPopped bool | HidCleared

fun hid_step :: "HidReportQueue \<Rightarrow> HidOp \<Rightarrow> HidReportQueue \<times> HidOut" where
  "hid_step q (HidPush c r) = (let (result, q') = push_request c q r in (q', HidPushed result))"
| "hid_step q (HidPop n) = (let (ok, q') = hid_pop_if_sequence q n in (q', HidPopped ok))"
| "hid_step q HidClear = (hid_clear q, HidCleared)"

text \<open>
  The client's view: from the calls and their results alone it keeps the list of
  reports it expects to be waiting; a result that does not fit gives \<open>None\<close>.  Only a
  well-formed push (length at most 63, a keyboard snapshot of eight bytes, an all-released
  snapshot of zeros) may be merged, told Full or queued.
\<close>

definition request_report :: "u32 \<Rightarrow> HidReportClass \<Rightarrow> PushRequest \<Rightarrow> QueuedHidReport" where
  "request_report n c r = stored_report n (rq_report_id r) (rq_data r) (rq_len r) (rq_ms r) c (rq_owner r) (rq_epoch r)"

definition merges_into :: "QueuedHidReport list \<Rightarrow> HidReportClass \<Rightarrow> PushRequest \<Rightarrow> bool" where
  "merges_into xs c r \<longleftrightarrow> is_keyboard_snapshot c \<and> xs \<noteq> [] \<and>
     absorbs (last xs) (rq_report_id r) (rq_data r) (rq_len r) (rq_owner r) (rq_epoch r)"

fun expect_waiting :: "QueuedHidReport list option \<Rightarrow> HidOp \<times> HidOut \<Rightarrow> QueuedHidReport list option" where
  "expect_waiting (Some xs) (HidPush c r, HidPushed res) =
     (case pr_status res of
        InvalidPush \<Rightarrow> (if fits c r then None else Some xs)
      | Coalesced \<Rightarrow> (if fits c r \<and> merges_into xs c r \<and> pr_sequence res = qr_sequence (last xs) then Some xs else None)
      | Full \<Rightarrow> (if fits c r \<and> \<not> merges_into xs c r \<and> length xs \<ge> classified_capacity c then Some xs else None)
      | Queued \<Rightarrow> (if fits c r \<and> \<not> merges_into xs c r \<and> length xs < classified_capacity c \<and> pr_sequence res \<noteq> 0
                    \<and> pr_sequence res \<notin> qr_sequence ` set xs
                   then Some (xs @ [request_report (pr_sequence res) c r]) else None))"
| "expect_waiting (Some xs) (HidPop n, HidPopped ok) =
     (if ok \<noteq> (xs \<noteq> [] \<and> qr_sequence (hd xs) = n) then None else Some (if ok then tl xs else xs))"
| "expect_waiting (Some xs) (HidClear, HidCleared) = Some []"
| "expect_waiting _ _ = None"

lemma hid_inv_step: "hid_inv q \<Longrightarrow> hid_inv (fst (hid_step q op))"
  using hid_fifo.inv_pop [of q] push_classified_inv [of q]
  by (cases op) (auto simp: hid_inv_clear push_request_def case_prod_beta)

text \<open>The waiting reports have distinct numbers, and the next number is a fresh one.\<close>

lemma hid_sequence_fresh:
  assumes "hid_inv q"
  shows "distinct (map qr_sequence (hid_items q))" "hq_next_sequence q \<notin> qr_sequence ` set (hid_items q)"
proof -
  from assms obtain s where s: "s \<noteq> 0" "map qr_sequence (hid_items q) = queue_seq.consecutive s (hq_size q)"
    "hq_next_sequence q = (advance_sequence ^^ hq_size q) s" and "hq_size q \<le> 32"
    unfolding hid_inv_def kHidReportQueueCapacity_def by blast
  then have "distinct (queue_seq.consecutive s (Suc (hq_size q)))"
    by (intro queue_seq.distinct_consecutive) auto
  then have "distinct (map qr_sequence (hid_items q) @ [hq_next_sequence q])"
    using s by (simp add: queue_seq.consecutive_snoc)
  then show "distinct (map qr_sequence (hid_items q))" "hq_next_sequence q \<notin> qr_sequence ` set (hid_items q)"
    by auto
qed

lemma expect_push:
  assumes inv: "hid_inv q" and "push_request c q r = (result, q')"
  shows "expect_waiting (Some (hid_items q)) (HidPush c r, HidPushed result) = Some (hid_items q')"
proof -
  have room: "hq_size q < length (hq_reports q)" if "hq_size q < classified_capacity c"
    using that classified_capacity_bounds(2) [of c] hid_invD(1) [OF inv] by simp
  show ?thesis
    using assms(2) hid_items_store [OF room] hid_sequence_fresh(2) [OF inv] hid_invD(4) [OF inv]
    unfolding push_request_def push_classified_alt [OF inv]
    by (auto simp: invalid_push_def fits_def merges_into_def request_report_def not_le split: if_splits)
qed

lemma expect_pop:
  assumes inv: "hid_inv q" and "hid_pop_if_sequence q n = (ok, q')"
  shows "expect_waiting (Some (hid_items q)) (HidPop n, HidPopped ok) = Some (hid_items q')"
  using assms(2) hid_items_drop [OF inv] hid_items_nonempty [of q]
  by (auto simp: hid_pop_alt [OF inv] split: if_splits)

interpretation hid_run: ghost_machine hid_step init_hid_queue hid_inv expect_waiting "Some []"
  "\<lambda>q g. g = Some (hid_items q)"
proof unfold_locales
  show "hid_inv init_hid_queue" by (rule hid_inv_init)
  show "hid_inv (fst (hid_step q op))" if "hid_inv q" for q op using that by (rule hid_inv_step)
  show "Some [] = Some (hid_items init_hid_queue)" by (simp add: hid_items_def init_hid_queue_def)
  show "expect_waiting g (op, out) = Some (hid_items q')"
    if "hid_inv q" "g = Some (hid_items q)" "hid_step q op = (q', out)" for q g op q' out
    using that
    by (cases op) (auto simp: case_prod_beta expect_push expect_pop hid_items_clear
        simp del: expect_waiting.simps(1,2))
qed

text \<open>
  C11: Over any sequence of pushes, pops and clears the queue behaves as a bounded
  first-in first-out list: what waits is what was queued and neither popped nor
  cleared, in the order of arrival; a malformed push is refused as invalid, and a
  well-formed one is merged, told Full or queued exactly when the rules say so; a pop succeeds exactly for the number of the oldest
  report; and all waiting numbers are distinct.
\<close>
theorem report_queue_runs_as_list:
  "foldl expect_waiting (Some []) (run_log hid_step init_hid_queue ops)
     = Some (hid_items (run (\<lambda>q op. fst (hid_step q op)) init_hid_queue ops))
   \<and> distinct (map qr_sequence (hid_items (run (\<lambda>q op. fst (hid_step q op)) init_hid_queue ops)))
   \<and> length (hid_items (run (\<lambda>q op. fst (hid_step q op)) init_hid_queue ops)) \<le> kHidReportQueueCapacity"
  using hid_run.rel_reachable [of ops] hid_sequence_fresh(1) [OF hid_run.inv_reachable [of ops]]
    hid_fifo.bounded [OF hid_run.inv_reachable [of ops]]
  by simp

end
