(* ===== verification/Wheel_Queue_Facts.thy ===== *)
theory Wheel_Queue_Facts
  imports Hid_Queue_Facts
begin

text \<open>
  The wheel queue of \<^verbatim>\<open>hid_report_queue.cpp\<close> as a list: merging changes only the
  newest entry, entries never reverse direction and stay inside the accumulation
  limit, and movement is conserved between producer and consumer.
\<close>

definition wheel_items :: "MouseWheelQueue \<Rightarrow> QueuedMouseWheel list" where
  "wheel_items q = ring_list (wq_reports q) (wq_head q) (wq_size q)"

definition wheel_entry_ok :: "QueuedMouseWheel \<Rightarrow> bool" where
  "wheel_entry_ok e \<longleftrightarrow> \<bar>mw_vertical e\<bar> \<le> kMouseWheelAccumulationLimit \<and>
     \<bar>mw_horizontal e\<bar> \<le> kMouseWheelAccumulationLimit \<and> (mw_vertical e \<noteq> 0 \<or> mw_horizontal e \<noteq> 0)"

definition wheel_inv :: "MouseWheelQueue \<Rightarrow> bool" where
  "wheel_inv q \<longleftrightarrow> length (wq_reports q) = kMouseWheelQueueCapacity \<and>
     wq_head q < kMouseWheelQueueCapacity \<and> wq_size q \<le> kMouseWheelQueueCapacity \<and>
     list_all wheel_entry_ok (wheel_items q)"

lemma length_wheel_items [simp]: "length (wheel_items q) = wq_size q"
  by (simp add: wheel_items_def)

lemma wheel_items_nonempty: "wheel_items q \<noteq> [] \<longleftrightarrow> 0 < wq_size q"
  by (simp flip: length_greater_0_conv)

lemma wheel_invD:
  assumes "wheel_inv q"
  shows "length (wq_reports q) = kMouseWheelQueueCapacity" "wq_head q < length (wq_reports q)"
    "wq_size q \<le> length (wq_reports q)" "list_all wheel_entry_ok (wheel_items q)"
  using assms by (auto simp: wheel_inv_def)

lemma wheel_inv_init: "wheel_inv init_wheel_queue" and wheel_items_init: "wheel_items init_wheel_queue = []"
  by (simp_all add: wheel_inv_def init_wheel_queue_def wheel_items_def)

lemma wheel_inv_clear: "wheel_inv q \<Longrightarrow> wheel_inv (wheel_clear q)" and wheel_items_clear: "wheel_items (wheel_clear q) = []"
  by (simp_all add: wheel_inv_def wheel_clear_def wheel_items_def)

text \<open>The three ways the array changes: append, rewrite an end, drop the head.\<close>

lemma wheel_items_append:
  "wheel_inv q \<Longrightarrow> wq_size q < length (wq_reports q) \<Longrightarrow>
     wheel_items (q\<lparr>wq_reports := (wq_reports q)[(wq_head q + wq_size q) mod length (wq_reports q) := e],
       wq_next_sequence := n, wq_size := Suc (wq_size q)\<rparr>) = wheel_items q @ [e]"
  using ring_list_push by (simp add: wheel_items_def)

lemma wheel_items_rewrite_last:
  "wheel_inv q \<Longrightarrow> 0 < wq_size q \<Longrightarrow>
     wheel_items (q\<lparr>wq_reports := (wq_reports q)[(wq_head q + wq_size q - Suc 0) mod length (wq_reports q) := e]\<rparr>)
       = butlast (wheel_items q) @ [e]"
  using ring_list_update_last [of "wq_size q" "wq_reports q" "wq_head q" e] wheel_invD(3) [of q] by (simp add: wheel_items_def)

lemma wheel_items_rewrite_head:
  "wheel_inv q \<Longrightarrow> 0 < wq_size q \<Longrightarrow>
     wheel_items (q\<lparr>wq_reports := (wq_reports q)[wq_head q := e]\<rparr>) = e # tl (wheel_items q)"
  using ring_list_update_head [of "wq_size q" "wq_reports q" "wq_head q" e] wheel_invD(2,3) [of q] by (simp add: wheel_items_def)

definition wheel_drop :: "MouseWheelQueue \<Rightarrow> MouseWheelQueue" where
  "wheel_drop q = q\<lparr>wq_reports := (wq_reports q)[wq_head q := empty_wheel],
     wq_head := (wq_head q + 1) mod length (wq_reports q), wq_size := wq_size q - 1\<rparr>"

lemma wheel_items_drop:
  assumes "wheel_inv q" and "0 < wq_size q"
  shows "wheel_items (wheel_drop q) = tl (wheel_items q)"
  using ring_list_pop [of "wq_size q" "wq_reports q" "wq_head q"] wheel_invD [OF assms(1)] assms(2)
  by (simp add: wheel_items_def wheel_drop_def)

lemma wheel_last:
  "wheel_inv q \<Longrightarrow> 0 < wq_size q \<Longrightarrow>
     wq_reports q ! ((wq_head q + wq_size q - Suc 0) mod length (wq_reports q)) = last (wheel_items q)"
  using ring_list_last [of "wq_size q" "wq_reports q" "wq_head q"] by (simp add: wheel_items_def)

lemma wheel_head: "wheel_inv q \<Longrightarrow> 0 < wq_size q \<Longrightarrow> wq_reports q ! wq_head q = hd (wheel_items q)"
  using ring_list_hd wheel_invD by (metis wheel_items_def)

lemma list_all_tl: "list_all P xs \<Longrightarrow> list_all P (tl xs)"
  by (cases xs) auto

lemma list_all_butlast: "list_all P xs \<Longrightarrow> list_all P (butlast xs)"
  by (auto simp: list_all_iff dest: in_set_butlastD)

lemma wheel_inv_shape:
  assumes "wheel_inv q" and "length (wq_reports q') = length (wq_reports q)"
    and "wq_head q' < length (wq_reports q)" and "wq_size q' \<le> length (wq_reports q)"
    and "list_all wheel_entry_ok (wheel_items q')"
  shows "wheel_inv q'"
  using assms by (simp add: wheel_inv_def)

lemma wheel_inv_drop:
  assumes "wheel_inv q" and "0 < wq_size q"
  shows "wheel_inv (wheel_drop q)"
proof (rule wheel_inv_shape [OF assms(1)])
  show "list_all wheel_entry_ok (wheel_items (wheel_drop q))"
    using wheel_items_drop [OF assms] list_all_tl [OF wheel_invD(4) [OF assms(1)]] by simp
qed (use wheel_invD [OF assms(1)] in \<open>auto simp: wheel_drop_def\<close>)

lemma wheel_pop_alt:
  assumes "wheel_inv q"
  shows "wheel_pop_if_sequence q n =
    (if wheel_items q = [] \<or> mw_sequence (hd (wheel_items q)) \<noteq> n then (False, q) else (True, wheel_drop q))"
  using wheel_head [OF assms] wheel_items_nonempty [of q]
  by (auto simp: wheel_pop_if_sequence_def wheel_drop_def)

interpretation wheel_fifo: seq_fifo wheel_items wheel_inv mw_sequence wheel_front wheel_pop_if_sequence kMouseWheelQueueCapacity
proof unfold_locales
  fix q :: MouseWheelQueue and x xs ok q' n
  assume inv: "wheel_inv q"
  show "length (wheel_items q) \<le> kMouseWheelQueueCapacity"
    using wheel_invD [OF inv] by simp
  show "wheel_front q = (case wheel_items q of [] \<Rightarrow> None | x # xs \<Rightarrow> Some x)"
    using wheel_head [OF inv] wheel_items_nonempty [of q]
    by (auto simp: wheel_front_def split: list.splits)
  show "ok \<and> wheel_items q' = xs"
    if "wheel_items q = x # xs" and "wheel_pop_if_sequence q (mw_sequence x) = (ok, q')"
    using that wheel_items_drop [OF inv] wheel_items_nonempty [of q] by (auto simp: wheel_pop_alt [OF inv])
  show "wheel_pop_if_sequence q n = (False, q)" if "wheel_items q = [] \<or> mw_sequence (hd (wheel_items q)) \<noteq> n"
    using that by (simp add: wheel_pop_alt [OF inv])
  show "wheel_inv (snd (wheel_pop_if_sequence q n))"
    using wheel_inv_drop [OF inv] wheel_items_nonempty [of q] inv by (auto simp: wheel_pop_alt [OF inv])
qed

section \<open>Pushing movement\<close>

definition wheel_merges :: "QueuedMouseWheel \<Rightarrow> int \<Rightarrow> int \<Rightarrow> BleOwnerToken \<Rightarrow> u32 \<Rightarrow> bool" where
  "wheel_merges e v h owner epoch \<longleftrightarrow> mw_ble_owner e = owner \<and> mw_usb_epoch e = epoch \<and>
     same_or_empty_direction (mw_vertical e) v \<and> same_or_empty_direction (mw_horizontal e) h"

definition merged_wheel :: "QueuedMouseWheel \<Rightarrow> int \<Rightarrow> int \<Rightarrow> QueuedMouseWheel" where
  "merged_wheel e v h = e\<lparr>mw_vertical := wheel_clamp (mw_vertical e + v),
     mw_horizontal := wheel_clamp (mw_horizontal e + h)\<rparr>"

lemma saturating_clamp:
  "saturating_wheel_add a b = (wheel_clamp (a + b), wheel_clamp (a + b) \<noteq> a + b)"
  by (auto simp: saturating_wheel_add_def wheel_clamp_def kMouseWheelAccumulationLimit_def Let_def)

lemma wheel_clamp_bounds: "\<bar>wheel_clamp v\<bar> \<le> kMouseWheelAccumulationLimit"
  by (auto simp: wheel_clamp_def kMouseWheelAccumulationLimit_def)

lemma wheel_clamp_zero: "wheel_clamp v = 0 \<longleftrightarrow> v = 0"
  by (auto simp: wheel_clamp_def kMouseWheelAccumulationLimit_def)

lemma same_direction_sum: "same_or_empty_direction a b \<Longrightarrow> a + b = 0 \<longleftrightarrow> a = 0 \<and> b = 0"
  by (auto simp: same_or_empty_direction_def)

lemma merged_ok:
  assumes "wheel_merges e v h owner epoch" and "v \<noteq> 0 \<or> h \<noteq> 0"
  shows "wheel_entry_ok (merged_wheel e v h)"
  using assms wheel_clamp_bounds [of "mw_vertical e + v"] wheel_clamp_bounds [of "mw_horizontal e + h"]
  by (auto simp: wheel_entry_ok_def merged_wheel_def wheel_clamp_zero wheel_merges_def same_direction_sum)

definition fresh_wheel :: "MouseWheelQueue \<Rightarrow> int \<Rightarrow> int \<Rightarrow> u32 \<Rightarrow> BleOwnerToken \<Rightarrow> u32 \<Rightarrow> QueuedMouseWheel" where
  "fresh_wheel q v h ms owner epoch = \<lparr>mw_sequence = wq_next_sequence q, mw_vertical = wheel_clamp v,
     mw_horizontal = wheel_clamp h, mw_queued_ms = ms, mw_ble_owner = owner, mw_usb_epoch = epoch\<rparr>"

lemma wheel_push_alt:
  assumes inv: "wheel_inv q" and "wheel_push q v h ms owner epoch = (out, q')"
  shows "wheel_inv q'" and
    "wheel_items q' =
      (if v = 0 \<and> h = 0 then wheel_items q
       else if wheel_items q \<noteq> [] \<and> wheel_merges (last (wheel_items q)) v h owner epoch
       then butlast (wheel_items q) @ [merged_wheel (last (wheel_items q)) v h]
       else if wq_size q \<ge> kMouseWheelQueueCapacity then wheel_items q
       else wheel_items q @ [fresh_wheel q v h ms owner epoch])" (is ?items)
    and "wo_accepted out \<longleftrightarrow> (v \<noteq> 0 \<or> h \<noteq> 0) \<and>
      (wheel_items q \<noteq> [] \<and> wheel_merges (last (wheel_items q)) v h owner epoch \<or> wq_size q < kMouseWheelQueueCapacity)" (is ?acc)
    and "wo_saturated out \<longleftrightarrow> (v \<noteq> 0 \<or> h \<noteq> 0) \<and> wheel_items q \<noteq> [] \<and> wheel_merges (last (wheel_items q)) v h owner epoch \<and>
      (wheel_clamp (mw_vertical (last (wheel_items q)) + v) \<noteq> mw_vertical (last (wheel_items q)) + v \<or>
       wheel_clamp (mw_horizontal (last (wheel_items q)) + h) \<noteq> mw_horizontal (last (wheel_items q)) + h)" (is ?sat)
proof -
  let ?last = "last (wheel_items q)"
  consider (zero) "v = 0 \<and> h = 0"
    | (merge) "v \<noteq> 0 \<or> h \<noteq> 0" "0 < wq_size q" "wheel_merges ?last v h owner epoch"
    | (full) "v \<noteq> 0 \<or> h \<noteq> 0" "\<not> (0 < wq_size q \<and> wheel_merges ?last v h owner epoch)" "kMouseWheelQueueCapacity \<le> wq_size q"
    | (fresh) "v \<noteq> 0 \<or> h \<noteq> 0" "\<not> (0 < wq_size q \<and> wheel_merges ?last v h owner epoch)" "wq_size q < kMouseWheelQueueCapacity"
    by linarith
  then have "wheel_inv q' \<and> ?items \<and> ?acc \<and> ?sat"
  proof cases
    case zero
    then show ?thesis using assms by (auto simp: wheel_push_def)
  next
    case merge
    define e where "e = merged_wheel ?last v h"
    define q1 where "q1 = q\<lparr>wq_reports := (wq_reports q)[(wq_head q + wq_size q - Suc 0) mod length (wq_reports q) := e]\<rparr>"
    have "q' = q1" and out: "wo_accepted out" "wo_saturated out \<longleftrightarrow> wheel_clamp (mw_vertical ?last + v) \<noteq> mw_vertical ?last + v \<or>
        wheel_clamp (mw_horizontal ?last + h) \<noteq> mw_horizontal ?last + h"
      using assms(2) merge wheel_last [OF inv merge(2)]
      by (auto simp: wheel_push_def wheel_merges_def saturating_clamp e_def merged_wheel_def q1_def Let_def)
    moreover have items: "wheel_items q1 = butlast (wheel_items q) @ [e]"
      unfolding q1_def by (rule wheel_items_rewrite_last [OF inv merge(2)])
    moreover have "wheel_inv q1"
    proof (rule wheel_inv_shape [OF inv])
      show "list_all wheel_entry_ok (wheel_items q1)"
        using items merged_ok [OF merge(3,1)] list_all_butlast [OF wheel_invD(4) [OF inv]] e_def by simp
    qed (use wheel_invD [OF inv] in \<open>auto simp: q1_def\<close>)
    ultimately show ?thesis using merge wheel_items_nonempty [of q] by (auto simp: e_def)
  next
    case full
    then have "q' = q" "\<not> wo_accepted out" "\<not> wo_saturated out"
      using assms wheel_last [OF inv] wheel_invD(1) [OF inv]
      by (auto simp: wheel_push_def wheel_merges_def Let_def split: if_splits)
    with full show ?thesis using inv wheel_items_nonempty [of q] by auto
  next
    case fresh
    define q1 where "q1 = q\<lparr>wq_reports := (wq_reports q)[(wq_head q + wq_size q) mod length (wq_reports q) := fresh_wheel q v h ms owner epoch],
       wq_next_sequence := advance_sequence (wq_next_sequence q), wq_size := Suc (wq_size q)\<rparr>"
    have "q' = q1" "wo_accepted out" "\<not> wo_saturated out"
      using assms fresh wheel_last [OF inv] wheel_invD(1) [OF inv]
      by (auto simp: wheel_push_def wheel_merges_def fresh_wheel_def q1_def Let_def split: if_splits)
    moreover have items: "wheel_items q1 = wheel_items q @ [fresh_wheel q v h ms owner epoch]"
      unfolding q1_def using fresh(3) wheel_invD(1) [OF inv] by (intro wheel_items_append [OF inv]) simp
    moreover have "wheel_entry_ok (fresh_wheel q v h ms owner epoch)"
      using fresh(1) wheel_clamp_bounds by (simp add: wheel_entry_ok_def fresh_wheel_def wheel_clamp_zero)
    then have "wheel_inv q1"
      using items fresh(3) wheel_invD [OF inv] by (intro wheel_inv_shape [OF inv]) (auto simp: q1_def)
    ultimately show ?thesis using fresh wheel_items_nonempty [of q] by auto
  qed
  then show "wheel_inv q'" ?items ?acc ?sat by blast+
qed

section \<open>Consuming movement\<close>

definition consumed_wheel :: "QueuedMouseWheel \<Rightarrow> int \<Rightarrow> int \<Rightarrow> QueuedMouseWheel" where
  "consumed_wheel e v h = e\<lparr>mw_vertical := mw_vertical e - v, mw_horizontal := mw_horizontal e - h\<rparr>"

lemma consumption_bounds:
  "valid_consumption a b \<Longrightarrow> \<bar>a\<bar> \<le> L \<Longrightarrow> \<bar>a - b\<bar> \<le> L"
  by (auto simp: valid_consumption_def split: if_splits)

lemma wheel_consume_alt:
  assumes inv: "wheel_inv q" and "wheel_consume_if_sequence q n v h = (ok, q')"
  shows "wheel_inv q'" and
    "ok \<longleftrightarrow> wheel_items q \<noteq> [] \<and> mw_sequence (hd (wheel_items q)) = n \<and>
       valid_consumption (mw_vertical (hd (wheel_items q))) v \<and>
       valid_consumption (mw_horizontal (hd (wheel_items q))) h" (is ?ok)
    and "wheel_items q' =
      (if \<not> ok then wheel_items q
       else let e = consumed_wheel (hd (wheel_items q)) v h in
         if mw_vertical e = 0 \<and> mw_horizontal e = 0 then tl (wheel_items q) else e # tl (wheel_items q))" (is ?items)
proof -
  let ?hd = "hd (wheel_items q)"
  have "wheel_inv q' \<and> ?ok \<and> ?items"
  proof (cases "0 < wq_size q \<and> mw_sequence ?hd = n \<and> valid_consumption (mw_vertical ?hd) v \<and>
      valid_consumption (mw_horizontal ?hd) h")
    case False
    then have "q' = q \<and> \<not> ok"
      using assms wheel_head [OF inv] by (auto simp: wheel_consume_if_sequence_def Let_def split: if_splits)
    with False show ?thesis using inv wheel_items_nonempty [of q] by auto
  next
    case True
    define e where "e = consumed_wheel ?hd v h"
    define q1 where "q1 = q\<lparr>wq_reports := (wq_reports q)[wq_head q := e]\<rparr>"
    have head: "wq_reports q ! wq_head q = ?hd" using wheel_head [OF inv] True by simp
    have pos: "0 < wq_size q" using True by simp
    have ok_hd: "wheel_entry_ok ?hd"
      using wheel_invD(4) [OF inv] True wheel_items_nonempty [of q] by (cases "wheel_items q") auto
    have step: "(ok, q') = (if mw_vertical e = 0 \<and> mw_horizontal e = 0 then wheel_pop_if_sequence q1 n else (True, q1))"
      using assms(2) [symmetric] True head
      by (simp add: wheel_consume_if_sequence_def e_def q1_def consumed_wheel_def Let_def)
    have pop: "wheel_pop_if_sequence q1 n = (True, wheel_drop q)"
      using True wheel_invD(1,2) [OF inv]
      by (simp add: wheel_pop_if_sequence_def wheel_drop_def q1_def e_def consumed_wheel_def)
    have items1: "wheel_items q1 = e # tl (wheel_items q)"
      unfolding q1_def by (rule wheel_items_rewrite_head [OF inv pos])
    have "wheel_inv q1" if "\<not> (mw_vertical e = 0 \<and> mw_horizontal e = 0)"
    proof (rule wheel_inv_shape [OF inv])
      have "wheel_entry_ok e"
        using that ok_hd True consumption_bounds
        by (auto simp: wheel_entry_ok_def e_def consumed_wheel_def)
      then show "list_all wheel_entry_ok (wheel_items q1)"
        using items1 list_all_tl [OF wheel_invD(4) [OF inv]] by simp
    qed (use wheel_invD [OF inv] in \<open>auto simp: q1_def\<close>)
    then show ?thesis
      using step pop items1 True wheel_inv_drop [OF inv pos] wheel_items_drop [OF inv pos]
        wheel_items_nonempty [of q]
      by (auto simp: Let_def e_def [symmetric] split: if_splits)
  qed
  then show "wheel_inv q'" ?ok ?items by blast+
qed

section \<open>Runs of the wheel queue\<close>

datatype WheelOp = WheelPush int int u32 BleOwnerToken u32 | WheelConsume u32 int int | WheelTake | WheelClear
datatype WheelOut = WheelPushed WheelPushOut | WheelConsumed bool | WheelTaken "QueuedMouseWheel option" | WheelCleared

text \<open>\<open>WheelTake\<close> is what a transport does with a whole entry: read the front and pop it by its number.\<close>

fun wheel_step :: "MouseWheelQueue \<Rightarrow> WheelOp \<Rightarrow> MouseWheelQueue \<times> WheelOut" where
  "wheel_step q (WheelPush v h ms owner epoch) = (let (out, q') = wheel_push q v h ms owner epoch in (q', WheelPushed out))"
| "wheel_step q (WheelConsume n v h) = (let (ok, q') = wheel_consume_if_sequence q n v h in (q', WheelConsumed ok))"
| "wheel_step q WheelTake =
     (case wheel_front q of
        None \<Rightarrow> (q, WheelTaken None)
      | Some e \<Rightarrow> (snd (wheel_pop_if_sequence q (mw_sequence e)), WheelTaken (Some e)))"
| "wheel_step q WheelClear = (wheel_clear q, WheelCleared)"

text \<open>
  The books of producer and consumer: accepted movement minus consumed movement,
  and whether the accumulation limit has cut anything since the last clear.
\<close>

record WheelBooks =
  bk_vertical :: int
  bk_horizontal :: int
  bk_exact :: bool

definition empty_books :: WheelBooks where
  "empty_books = \<lparr>bk_vertical = 0, bk_horizontal = 0, bk_exact = True\<rparr>"

definition within_limit :: "int \<Rightarrow> bool" where
  "within_limit v \<longleftrightarrow> \<bar>v\<bar> \<le> kMouseWheelAccumulationLimit"

fun keep_books :: "WheelBooks \<Rightarrow> WheelOp \<times> WheelOut \<Rightarrow> WheelBooks" where
  "keep_books b (WheelPush v h ms owner epoch, WheelPushed out) =
     (if wo_accepted out
      then \<lparr>bk_vertical = bk_vertical b + v, bk_horizontal = bk_horizontal b + h,
             bk_exact = (bk_exact b \<and> \<not> wo_saturated out \<and> within_limit v \<and> within_limit h)\<rparr>
      else b)"
| "keep_books b (WheelConsume n v h, WheelConsumed ok) =
     (if ok then b\<lparr>bk_vertical := bk_vertical b - v, bk_horizontal := bk_horizontal b - h\<rparr> else b)"
| "keep_books b (WheelTake, WheelTaken (Some e)) =
     b\<lparr>bk_vertical := bk_vertical b - mw_vertical e, bk_horizontal := bk_horizontal b - mw_horizontal e\<rparr>"
| "keep_books b (WheelClear, WheelCleared) = empty_books"
| "keep_books b _ = b"

definition waiting_vertical :: "MouseWheelQueue \<Rightarrow> int" where
  "waiting_vertical q = sum_list (map mw_vertical (wheel_items q))"

definition waiting_horizontal :: "MouseWheelQueue \<Rightarrow> int" where
  "waiting_horizontal q = sum_list (map mw_horizontal (wheel_items q))"

definition books_match :: "MouseWheelQueue \<Rightarrow> WheelBooks \<Rightarrow> bool" where
  "books_match q b \<longleftrightarrow> (bk_exact b \<longrightarrow>
     bk_vertical b = waiting_vertical q \<and> bk_horizontal b = waiting_horizontal q)"

lemma sum_list_butlast: "xs \<noteq> [] \<Longrightarrow> sum_list (map f (butlast xs)) = sum_list (map f xs) - (f (last xs) :: int)"
  by (induction xs) auto

lemma sum_list_tl: "xs \<noteq> [] \<Longrightarrow> sum_list (map f (tl xs)) = sum_list (map f xs) - (f (hd xs) :: int)"
  by (cases xs) auto

lemma wheel_clamp_within: "within_limit v \<Longrightarrow> wheel_clamp v = v"
  by (auto simp: within_limit_def wheel_clamp_def)

lemma books_push:
  assumes inv: "wheel_inv q" and "books_match q b" and "wheel_push q v h ms owner epoch = (out, q')"
  shows "books_match q' (keep_books b (WheelPush v h ms owner epoch, WheelPushed out))"
proof -
  note alt = wheel_push_alt [OF inv assms(3)]
  show ?thesis
  proof (cases "wo_accepted out \<and> \<not> wo_saturated out \<and> within_limit v \<and> within_limit h")
    case True
    then show ?thesis
      using alt assms(2) wheel_items_nonempty [of q]
      by (auto simp: books_match_def waiting_vertical_def waiting_horizontal_def sum_list_butlast
          merged_wheel_def fresh_wheel_def wheel_clamp_within)
  next
    case False
    then show ?thesis
      using alt(2,3) assms(2) wheel_items_nonempty [of q]
      by (auto simp: books_match_def waiting_vertical_def waiting_horizontal_def not_less)
  qed
qed

lemma books_consume:
  assumes inv: "wheel_inv q" and "books_match q b" and "wheel_consume_if_sequence q n v h = (ok, q')"
  shows "books_match q' (keep_books b (WheelConsume n v h, WheelConsumed ok))"
  using wheel_consume_alt(2,3) [OF inv assms(3)] assms(2)
  by (auto simp: books_match_def waiting_vertical_def waiting_horizontal_def sum_list_tl
      consumed_wheel_def Let_def split: if_splits)

lemma books_take:
  assumes inv: "wheel_inv q" and "books_match q b" and "wheel_front q = Some e"
  shows "books_match (snd (wheel_pop_if_sequence q (mw_sequence e))) (keep_books b (WheelTake, WheelTaken (Some e)))"
  using wheel_fifo.pop_front(2) [OF inv assms(3)] wheel_fifo.front_Some [OF inv assms(3)] assms(2)
  by (auto simp: books_match_def waiting_vertical_def waiting_horizontal_def)
    (metis list.distinct(1) list.sel(1) sum_list_tl)+

lemma wheel_inv_step: "wheel_inv q \<Longrightarrow> wheel_inv (fst (wheel_step q op))"
  by (cases op)
    (simp_all add: wheel_inv_clear case_prod_beta wheel_fifo.inv_pop
      wheel_push_alt(1) [OF _ prod.collapse [symmetric]] wheel_consume_alt(1) [OF _ prod.collapse [symmetric]]
      split: option.split)

interpretation wheel_run: ghost_machine wheel_step init_wheel_queue wheel_inv keep_books empty_books books_match
proof unfold_locales
  show "wheel_inv init_wheel_queue" by (rule wheel_inv_init)
  show "wheel_inv (fst (wheel_step q op))" if "wheel_inv q" for q op
    using that by (rule wheel_inv_step)
  show "books_match init_wheel_queue empty_books"
    by (simp add: books_match_def empty_books_def waiting_vertical_def waiting_horizontal_def wheel_items_init)
  show "books_match q' (keep_books b (op, out))"
    if "wheel_inv q" "books_match q b" "wheel_step q op = (q', out)" for q b op q' out
  proof (cases op)
    case (WheelPush v h ms owner epoch)
    then show ?thesis using that(3) books_push [OF that(1,2), of v h ms owner epoch "fst (wheel_push q v h ms owner epoch)" q']
      by (auto simp: case_prod_beta prod_eq_iff simp del: keep_books.simps(1))
  next
    case (WheelConsume n v h)
    then show ?thesis using that(3) books_consume [OF that(1,2), of n v h "fst (wheel_consume_if_sequence q n v h)" q']
      by (auto simp: case_prod_beta prod_eq_iff simp del: keep_books.simps(2))
  next
    case WheelTake
    then show ?thesis using that books_take [OF that(1,2)]
      by (cases "wheel_front q") auto
  next
    case WheelClear
    then show ?thesis using that(3)
      by (auto simp: books_match_def empty_books_def waiting_vertical_def waiting_horizontal_def wheel_items_clear)
  qed
qed

text \<open>
  C19: Wheel movement is conserved: over any sequence of pushes, partial
  consumptions, whole-entry removals and clears in which the accumulation limit
  cut nothing, the movement still waiting is exactly the accepted movement minus
  the consumed movement, on both axes; and every waiting entry moves, within the
  limit.
\<close>
theorem wheel_movement_conserved:
  assumes "bk_exact (foldl keep_books empty_books (run_log wheel_step init_wheel_queue ops))"
  shows "waiting_vertical (run (\<lambda>q op. fst (wheel_step q op)) init_wheel_queue ops)
      = bk_vertical (foldl keep_books empty_books (run_log wheel_step init_wheel_queue ops))
    \<and> waiting_horizontal (run (\<lambda>q op. fst (wheel_step q op)) init_wheel_queue ops)
      = bk_horizontal (foldl keep_books empty_books (run_log wheel_step init_wheel_queue ops))
    \<and> list_all wheel_entry_ok (wheel_items (run (\<lambda>q op. fst (wheel_step q op)) init_wheel_queue ops))"
  using wheel_run.rel_reachable [of ops] assms wheel_invD(4) [OF wheel_run.inv_reachable [of ops]]
  by (simp add: books_match_def)

definition sample_wheel_ops :: "WheelOp list" where
  "sample_wheel_ops = [WheelPush 3 0 1 no_owner 1, WheelPush 4 0 2 no_owner 1, WheelPush (- 2) 5 3 no_owner 1,
     WheelConsume 1 5 0, WheelTake]"

theorem wheel_movement_conserved_witness:
  "waiting_vertical (run (\<lambda>q op. fst (wheel_step q op)) init_wheel_queue sample_wheel_ops) = - 2"
proof -
  have "bk_exact (foldl keep_books empty_books (run_log wheel_step init_wheel_queue sample_wheel_ops))"
    and "bk_vertical (foldl keep_books empty_books (run_log wheel_step init_wheel_queue sample_wheel_ops)) = - 2"
    by code_simp+
  then show ?thesis using wheel_movement_conserved by simp
qed

end
