(* ===== verification/Hid_Keycode.thy ===== *)
theory Hid_Keycode
  imports Prelude
begin

text \<open>
  \<^verbatim>\<open>components/keyboard/include/keyboard/hid_keycode.h\<close> and \<^verbatim>\<open>src/hid_keycode.cpp\<close>:
  the translation of a hotkey string such as \<open>''Ctrl+Shift+F5''\<close>, and of a typed
  ASCII character, to a HID keyboard report.  Strings are character lists, each
  character an 8-bit code.  A function key number is kept unbounded: the code
  accumulates it in an \<open>int\<close>, which is defined for at most nine digits.
\<close>

unbundle bit_operations_syntax

section \<open>Reports and modifiers\<close>

record HidKeyboardReport =
  kr_valid :: bool
  kr_apple_fn :: bool
  kr_modifier :: u8
  kr_keycode :: u8
  kr_keycodes :: bytes

definition no_key_report :: HidKeyboardReport where
  "no_key_report = \<lparr>kr_valid = False, kr_apple_fn = False, kr_modifier = 0, kr_keycode = 0,
     kr_keycodes = replicate 6 0\<rparr>"

definition kModifierLeftCtrl :: u8 where "kModifierLeftCtrl = 0x01"
definition kModifierLeftShift :: u8 where "kModifierLeftShift = 0x02"
definition kModifierLeftAlt :: u8 where "kModifierLeftAlt = 0x04"
definition kModifierLeftGui :: u8 where "kModifierLeftGui = 0x08"
definition kModifierRightCtrl :: u8 where "kModifierRightCtrl = 0x10"
definition kModifierRightShift :: u8 where "kModifierRightShift = 0x20"
definition kModifierRightAlt :: u8 where "kModifierRightAlt = 0x40"
definition kModifierRightGui :: u8 where "kModifierRightGui = 0x80"

section \<open>Hotkey strings\<close>

definition tolower :: "char \<Rightarrow> char" where
  "tolower c = (if 65 \<le> code_of c \<and> code_of c \<le> 90 then char_of (code_of c + 32) else c)"

definition isdigit :: "char \<Rightarrow> bool" where
  "isdigit c \<longleftrightarrow> 48 \<le> code_of c \<and> code_of c \<le> 57"

definition normalize :: "string \<Rightarrow> string" where
  "normalize s = map tolower (filter (\<lambda>ch. ch \<noteq> CHR '' '' \<and> ch \<noteq> CHR ''_'' \<and> ch \<noteq> CHR ''-'') s)"

text \<open>The modifier bit a token adds, if it names one.\<close>

definition modifier_for_token :: "string \<Rightarrow> u8 option" where
  "modifier_for_token token =
     (if token \<in> set [''ctrl'', ''control'', ''commandorcontrol'', ''leftctrl'', ''leftcontrol'']
      then Some kModifierLeftCtrl
      else if token \<in> set [''shift'', ''leftshift''] then Some kModifierLeftShift
      else if token \<in> set [''alt'', ''option'', ''leftalt'', ''leftoption''] then Some kModifierLeftAlt
      else if token \<in> set [''meta'', ''gui'', ''cmd'', ''command'', ''leftmeta'', ''leftgui'', ''leftcmd'', ''leftcommand'']
      then Some kModifierLeftGui
      else if token \<in> set [''altgr'', ''rightalt'', ''rightoption''] then Some kModifierRightAlt
      else if token \<in> set [''rightmeta'', ''rightgui'', ''rightcmd'', ''rightcommand''] then Some kModifierRightGui
      else if token \<in> set [''rightctrl'', ''rightcontrol''] then Some kModifierRightCtrl
      else if token = ''rightshift'' then Some kModifierRightShift
      else None)"

definition function_number :: "string \<Rightarrow> nat" where
  "function_number ds = foldl (\<lambda>number c. number * 10 + (code_of c - 48)) 0 ds"

definition keycode_for_token :: "string \<Rightarrow> u8 option" where
  "keycode_for_token token =
     (if length token = 1 \<and> 97 \<le> code_of (hd token) \<and> code_of (hd token) \<le> 122
      then Some (word_of_nat (0x04 + (code_of (hd token) - 97)))
      else if length token = 1 \<and> 49 \<le> code_of (hd token) \<and> code_of (hd token) \<le> 57
      then Some (word_of_nat (0x1E + (code_of (hd token) - 49)))
      else if token = ''0'' then Some 0x27
      else if token = ''enter'' \<or> token = ''return'' then Some 0x28
      else if token = ''escape'' \<or> token = ''esc'' then Some 0x29
      else if token = ''backspace'' then Some 0x2A
      else if token = ''tab'' then Some 0x2B
      else if token = ''space'' \<or> token = ''spacebar'' then Some 0x2C
      else if token = ''arrowright'' \<or> token = ''right'' then Some 0x4F
      else if token = ''arrowleft'' \<or> token = ''left'' then Some 0x50
      else if token = ''arrowdown'' \<or> token = ''down'' then Some 0x51
      else if token = ''arrowup'' \<or> token = ''up'' then Some 0x52
      else if length token \<ge> 2 \<and> hd token = CHR ''f'' \<and> list_all isdigit (tl token) \<and>
              1 \<le> function_number (tl token) \<and> function_number (tl token) \<le> 12
      then Some (word_of_nat (0x3A + (function_number (tl token) - 1)))
      else None)"

definition unsupported_hotkey_token :: "string \<Rightarrow> bool" where
  "unsupported_hotkey_token token \<longleftrightarrow> token = ''fn'' \<or> token = ''function''"

definition report_for_key :: "u8 \<Rightarrow> u8 \<Rightarrow> HidKeyboardReport" where
  "report_for_key keycode modifier = \<lparr>kr_valid = True, kr_apple_fn = False, kr_modifier = modifier,
     kr_keycode = keycode, kr_keycodes = keycode # replicate 5 0\<rparr>"

text \<open>The first zero cell takes the keycode; a duplicate or a full report is refused.\<close>

fun store_in_free :: "u8 \<Rightarrow> bytes \<Rightarrow> bytes option" where
  "store_in_free k [] = None"
| "store_in_free k (x # xs) = (if x = 0 then Some (k # xs) else map_option ((#) x) (store_in_free k xs))"

definition report_add_keycode :: "HidKeyboardReport \<Rightarrow> u8 \<Rightarrow> HidKeyboardReport option" where
  "report_add_keycode report keycode =
     (if keycode \<in> set (kr_keycodes report) then None
      else case store_in_free keycode (kr_keycodes report) of
        None \<Rightarrow> None
      | Some ks \<Rightarrow> Some (report\<lparr>kr_keycodes := ks,
          kr_keycode := (if kr_keycode report = 0 then keycode else kr_keycode report)\<rparr>))"

text \<open>One token of the loop; \<open>None\<close> is the early return of an invalid report.\<close>

definition apply_token :: "HidKeyboardReport \<Rightarrow> string \<Rightarrow> HidKeyboardReport option" where
  "apply_token report token =
     (if unsupported_hotkey_token token then None
      else case modifier_for_token token of
        Some m \<Rightarrow> Some (report\<lparr>kr_modifier := kr_modifier report OR m\<rparr>)
      | None \<Rightarrow> (case keycode_for_token token of
            None \<Rightarrow> None
          | Some keycode \<Rightarrow> report_add_keycode report keycode))"

text \<open>The loop over the parts between plus signs.\<close>

function hotkey_loop :: "HidKeyboardReport \<Rightarrow> bool \<Rightarrow> string \<Rightarrow> (HidKeyboardReport \<times> bool) option" where
  "hotkey_loop report saw_token rest =
     (let raw = takeWhile (\<lambda>c. c \<noteq> CHR ''+'') rest;
          remaining = dropWhile (\<lambda>c. c \<noteq> CHR ''+'') rest;
          token = normalize raw;
          step = (if token \<noteq> [] then map_option (\<lambda>r. (r, True)) (apply_token report token)
                  else Some (report, saw_token))
      in case step of
           None \<Rightarrow> None
         | Some (report', saw') \<Rightarrow>
             (if remaining = [] then Some (report', saw') else hotkey_loop report' saw' (tl remaining)))"
  by pat_completeness auto

termination
proof (relation "measure (\<lambda>(report, saw, rest). length rest)")
  show "((r, s, tl m), report, saw, rest) \<in> measure (\<lambda>(report, saw, rest). length rest)"
    if "m = dropWhile (\<lambda>c. c \<noteq> CHR ''+'') rest" and "m \<noteq> []" for r s m report saw rest
  proof -
    have "length m \<le> length rest" using that(1) length_dropWhile_le by simp
    with that(2) have "length (tl m) < length rest" by (cases m) auto
    then show ?thesis by simp
  qed
qed auto

declare hotkey_loop.simps [simp del]

definition hid_report_for_hotkey :: "string \<Rightarrow> HidKeyboardReport" where
  "hid_report_for_hotkey hotkey =
     (case hotkey_loop no_key_report False hotkey of
        None \<Rightarrow> no_key_report
      | Some (report, saw_token) \<Rightarrow>
          report\<lparr>kr_valid := saw_token \<and>
            (kr_apple_fn report \<or> kr_modifier report \<noteq> 0 \<or> kr_keycode report \<noteq> 0)\<rparr>)"

section \<open>ASCII characters\<close>

definition plain_key :: "u8 \<Rightarrow> HidKeyboardReport" where
  "plain_key k = report_for_key k 0"

definition shifted_key :: "u8 \<Rightarrow> HidKeyboardReport" where
  "shifted_key k = report_for_key k kModifierLeftShift"

text \<open>The switch over the characters that are neither letters nor the digits 1 to 9, by ASCII
  code: \<open>0\<close>, newline, return, backspace, tab, space, then the punctuation in the code's order.\<close>

definition ascii_switch :: "(nat \<times> HidKeyboardReport) list" where
  "ascii_switch =
    [(48, plain_key 0x27), (10, plain_key 0x28), (13, plain_key 0x28),
     (8, plain_key 0x2A), (9, plain_key 0x2B), (32, plain_key 0x2C),
     (45, plain_key 0x2D), (95, shifted_key 0x2D),
     (61, plain_key 0x2E), (43, shifted_key 0x2E),
     (91, plain_key 0x2F), (123, shifted_key 0x2F),
     (93, plain_key 0x30), (125, shifted_key 0x30),
     (92, plain_key 0x31), (124, shifted_key 0x31),
     (59, plain_key 0x33), (58, shifted_key 0x33),
     (39, plain_key 0x34), (34, shifted_key 0x34),
     (96, plain_key 0x35), (126, shifted_key 0x35),
     (44, plain_key 0x36), (60, shifted_key 0x36),
     (46, plain_key 0x37), (62, shifted_key 0x37),
     (47, plain_key 0x38), (63, shifted_key 0x38),
     (33, shifted_key 0x1E), (64, shifted_key 0x1F),
     (35, shifted_key 0x20), (36, shifted_key 0x21),
     (37, shifted_key 0x22), (94, shifted_key 0x23),
     (38, shifted_key 0x24), (42, shifted_key 0x25),
     (40, shifted_key 0x26), (41, shifted_key 0x27)]"

definition ascii_report :: "nat \<Rightarrow> HidKeyboardReport" where
  "ascii_report value =
     (if 97 \<le> value \<and> value \<le> 122 then plain_key (word_of_nat (0x04 + (value - 97)))
      else if 65 \<le> value \<and> value \<le> 90 then shifted_key (word_of_nat (0x04 + (value - 65)))
      else if 49 \<le> value \<and> value \<le> 57 then plain_key (word_of_nat (0x1E + (value - 49)))
      else case map_of ascii_switch value of Some r \<Rightarrow> r | None \<Rightarrow> no_key_report)"

definition hid_report_for_ascii_char :: "char \<Rightarrow> HidKeyboardReport" where
  "hid_report_for_ascii_char ch = ascii_report (code_of ch)"

section \<open>Properties\<close>

text \<open>A report a hotkey can produce: distinct keys without gaps, the first one also in \<open>keycode\<close>.\<close>

definition packed_keys :: "u8 list \<Rightarrow> bytes \<Rightarrow> bool" where
  "packed_keys ks cells \<longleftrightarrow> distinct ks \<and> 0 \<notin> set ks \<and> length ks \<le> 6 \<and> cells = ks @ replicate (6 - length ks) 0"

definition hotkey_report_ok :: "HidKeyboardReport \<Rightarrow> bool" where
  "hotkey_report_ok r \<longleftrightarrow> \<not> kr_apple_fn r \<and>
     (\<exists>ks. packed_keys ks (kr_keycodes r) \<and> kr_keycode r = (if ks = [] then 0 else hd ks))"

lemma store_in_free_append: "0 \<notin> set ks \<Longrightarrow> store_in_free k (ks @ 0 # xs) = Some (ks @ k # xs)"
  by (induction ks) auto

lemma store_in_free_full: "0 \<notin> set ks \<Longrightarrow> store_in_free k ks = None"
  by (induction ks) auto

lemma small_keycode_nonzero:
  assumes "0 < a" and "a + n < 256"
  shows "(word_of_nat (a + n) :: u8) \<noteq> 0"
proof
  assume "(word_of_nat (a + n) :: u8) = 0"
  then have "unat (word_of_nat (a + n) :: u8) = 0" by simp
  then show False using assms by (simp add: unsigned_of_nat take_bit_nat_eq_self del: of_nat_add)
qed

lemma shifted_code_nonzero:
  assumes "b \<le> n" and "n < 128" and "0 < a" and "a < 128"
  shows "(word_of_nat (a + (n - b)) :: u8) \<noteq> 0"
  using assms by (intro small_keycode_nonzero) auto

lemma keycode_for_token_nonzero:
  assumes "keycode_for_token token = Some k"
  shows "k \<noteq> 0"
proof -
  note nz = shifted_code_nonzero [of 97 "code_of (hd token)" 4] shifted_code_nonzero [of 49 "code_of (hd token)" 30]
    shifted_code_nonzero [of 1 "function_number (tl token)" 58]
  have "k = word_of_nat (4 + (code_of (hd token) - 97)) \<and> 97 \<le> code_of (hd token) \<and> code_of (hd token) \<le> 122 \<or>
    k = word_of_nat (30 + (code_of (hd token) - 49)) \<and> 49 \<le> code_of (hd token) \<and> code_of (hd token) \<le> 57 \<or>
    k = word_of_nat (58 + (function_number (tl token) - 1)) \<and> 1 \<le> function_number (tl token) \<and> function_number (tl token) \<le> 12 \<or>
    k \<in> {0x27, 0x28, 0x29, 0x2A, 0x2B, 0x2C, 0x4F, 0x50, 0x51, 0x52}"
    using assms unfolding keycode_for_token_def
    by (simp only: split: if_splits) (simp_all del: of_nat_add of_nat_diff)
  then show ?thesis using nz by (elim disjE conjE) (auto simp del: of_nat_add of_nat_diff)
qed

lemma add_keycode_packed:
  assumes "packed_keys ks (kr_keycodes r)" and "kr_keycode r = (if ks = [] then 0 else hd ks)" and "k \<noteq> 0"
    and "report_add_keycode r k = Some r'"
  shows "packed_keys (ks @ [k]) (kr_keycodes r')" and "kr_keycode r' = hd (ks @ [k])"
    and "kr_apple_fn r' = kr_apple_fn r" and "kr_modifier r' = kr_modifier r"
proof -
  have cells: "kr_keycodes r = ks @ replicate (6 - length ks) 0" and ks: "distinct ks" "0 \<notin> set ks" "length ks \<le> 6"
    using assms(1) by (auto simp: packed_keys_def)
  have new: "k \<notin> set ks" using assms(4) cells by (auto simp: report_add_keycode_def split: if_splits)
  have "length ks < 6"
  proof (rule ccontr)
    assume "\<not> length ks < 6"
    then have "kr_keycodes r = ks" using cells ks(3) by simp
    then show False using assms(4) store_in_free_full [OF ks(2)]
      by (auto simp: report_add_keycode_def split: if_splits)
  qed
  then have "replicate (6 - length ks) (0 :: u8) = 0 # replicate (6 - length (ks @ [k])) 0"
    by (cases "6 - length ks") (auto simp: diff_Suc split: nat.splits)
  then have "r' = r\<lparr>kr_keycodes := ks @ k # replicate (6 - length (ks @ [k])) 0,
      kr_keycode := (if kr_keycode r = 0 then k else kr_keycode r)\<rparr>"
    using assms(4) cells store_in_free_append [OF ks(2)]
    by (auto simp: report_add_keycode_def split: if_splits)
  moreover have "hd ks \<noteq> 0" if "ks \<noteq> []" using that ks(2) by (metis hd_in_set)
  ultimately have shape: "kr_keycodes r' = (ks @ [k]) @ replicate (6 - length (ks @ [k])) 0"
    "kr_keycode r' = (if kr_keycode r = 0 then k else kr_keycode r)" "kr_keycode r = 0 \<longleftrightarrow> ks = []"
    and same: "kr_apple_fn r' = kr_apple_fn r" "kr_modifier r' = kr_modifier r"
    using assms(2) by simp_all
  show "packed_keys (ks @ [k]) (kr_keycodes r')"
    unfolding packed_keys_def using shape(1) ks new assms(3) \<open>length ks < 6\<close> by simp
  show "kr_keycode r' = hd (ks @ [k])" using shape(2,3) assms(2) by (cases ks) auto
  show "kr_apple_fn r' = kr_apple_fn r" "kr_modifier r' = kr_modifier r" using same by simp_all
qed

lemma apply_token_ok:
  assumes ok: "hotkey_report_ok r" and step: "apply_token r token = Some r'"
  shows "hotkey_report_ok r'"
proof (cases "modifier_for_token token")
  case (Some m)
  then have "r' = r\<lparr>kr_modifier := kr_modifier r OR m\<rparr>"
    using step by (simp add: apply_token_def split: if_splits)
  then show ?thesis using ok by (simp add: hotkey_report_ok_def)
next
  case None
  then obtain k where "keycode_for_token token = Some k" and add: "report_add_keycode r k = Some r'"
    using step by (auto simp: apply_token_def split: if_splits option.splits)
  then have "k \<noteq> 0" using keycode_for_token_nonzero by simp
  moreover obtain ks where "packed_keys ks (kr_keycodes r)" "kr_keycode r = (if ks = [] then 0 else hd ks)"
    "\<not> kr_apple_fn r"
    using ok by (auto simp: hotkey_report_ok_def)
  ultimately show ?thesis
    using add_keycode_packed [OF _ _ _ add] unfolding hotkey_report_ok_def by (metis snoc_eq_iff_butlast)
qed

lemma hotkey_loop_ok:
  "hotkey_report_ok report \<Longrightarrow> hotkey_loop report saw rest = Some (report', saw') \<Longrightarrow> hotkey_report_ok report'"
proof (induction report saw rest rule: hotkey_loop.induct)
  case (1 report saw rest)
  let ?raw = "takeWhile (\<lambda>c. c \<noteq> CHR ''+'') rest" and ?m = "dropWhile (\<lambda>c. c \<noteq> CHR ''+'') rest"
  let ?step = "if normalize ?raw \<noteq> [] then map_option (\<lambda>r. (r, True)) (apply_token report (normalize ?raw)) else Some (report, saw)"
  obtain r1 s1 where st: "?step = Some (r1, s1)"
    and rest: "(if ?m = [] then Some (r1, s1) else hotkey_loop r1 s1 (tl ?m)) = Some (report', saw')"
    using "1.prems"(2) unfolding hotkey_loop.simps [of report saw rest] Let_def
    by (simp split: option.splits prod.splits)
  have "hotkey_report_ok r1"
    using st "1.prems"(1) apply_token_ok by (auto split: if_splits)
  with rest show ?case
    using "1.IH" [OF refl refl refl refl st refl] by (auto split: if_splits)
qed

lemma hotkey_loop_saw:
  "hotkey_loop report saw rest = Some (report', saw') \<Longrightarrow>
     saw' \<or> kr_modifier report' = kr_modifier report \<and> kr_keycode report' = kr_keycode report \<and> \<not> saw"
proof (induction report saw rest rule: hotkey_loop.induct)
  case (1 report saw rest)
  let ?raw = "takeWhile (\<lambda>c. c \<noteq> CHR ''+'') rest" and ?m = "dropWhile (\<lambda>c. c \<noteq> CHR ''+'') rest"
  let ?step = "if normalize ?raw \<noteq> [] then map_option (\<lambda>r. (r, True)) (apply_token report (normalize ?raw)) else Some (report, saw)"
  obtain r1 s1 where st: "?step = Some (r1, s1)"
    and rest: "(if ?m = [] then Some (r1, s1) else hotkey_loop r1 s1 (tl ?m)) = Some (report', saw')"
    using "1.prems" unfolding hotkey_loop.simps [of report saw rest] Let_def
    by (simp split: option.splits prod.splits)
  have "s1 \<or> r1 = report \<and> s1 = saw" using st by (auto split: if_splits)
  with rest show ?case
    using "1.IH" [OF refl refl refl refl st refl] by (auto split: if_splits)
qed

lemma no_key_report_ok: "hotkey_report_ok no_key_report"
  by (auto simp: hotkey_report_ok_def no_key_report_def packed_keys_def intro!: exI [of _ "[]"])

text \<open>
  Every report made from a hotkey string, whatever the string, holds distinct
  nonzero key codes packed from the left of its six cells, repeats the first in
  the single-key field, and is valid exactly when it carries a modifier or a key.
\<close>
lemma hotkey_report_well_formed:
  "hotkey_report_ok (hid_report_for_hotkey s) \<and>
   (kr_valid (hid_report_for_hotkey s) \<longleftrightarrow>
      kr_modifier (hid_report_for_hotkey s) \<noteq> 0 \<or> kr_keycode (hid_report_for_hotkey s) \<noteq> 0)"
proof (cases "hotkey_loop no_key_report False s")
  case None
  then show ?thesis using no_key_report_ok by (simp add: hid_report_for_hotkey_def) (simp add: no_key_report_def)
next
  case (Some p)
  obtain r saw where p: "p = (r, saw)" by (cases p)
  have ok: "hotkey_report_ok r" using hotkey_loop_ok [OF no_key_report_ok] Some p by blast
  then have "hotkey_report_ok (hid_report_for_hotkey s)"
    using Some p by (simp add: hid_report_for_hotkey_def hotkey_report_ok_def)
  moreover have "saw" if "kr_modifier r \<noteq> 0 \<or> kr_keycode r \<noteq> 0"
    using that hotkey_loop_saw [of no_key_report False s r saw] Some p by (auto simp: no_key_report_def)
  ultimately show ?thesis using Some p ok by (auto simp: hid_report_for_hotkey_def hotkey_report_ok_def)
qed

theorem hotkey_report_well_formed_witness:
  "hotkey_report_ok (hid_report_for_hotkey ''Ctrl+F5'') \<and> kr_valid (hid_report_for_hotkey ''Ctrl+F5'')"
proof -
  have "kr_modifier (hid_report_for_hotkey ''Ctrl+F5'') \<noteq> 0" by code_simp
  then show ?thesis using hotkey_report_well_formed [of "''Ctrl+F5''"] by blast
qed

section \<open>Typing is unambiguous\<close>

definition typed_key :: "char \<Rightarrow> u8 \<times> u8" where
  "typed_key c = (kr_modifier (hid_report_for_ascii_char c), kr_keycode (hid_report_for_ascii_char c))"

text \<open>All typeable characters but carriage return, by code, and their keys as numbers.\<close>

definition typeable_codes :: "nat list" where
  "typeable_codes = [8, 9, 10] @ [32..<127]"

definition key_number :: "HidKeyboardReport \<Rightarrow> nat" where
  "key_number r = unat (kr_modifier r) * 256 + unat (kr_keycode r)"

lemmas ascii_eval = ascii_report_def ascii_switch_def plain_key_def shifted_key_def report_for_key_def
  no_key_report_def kModifierLeftShift_def

lemma key_numbers:
  "map (\<lambda>n. key_number (ascii_report n)) typeable_codes =
    [42, 43, 40, 44, 542, 564, 544, 545, 546, 548, 52, 550, 551, 549, 558, 54, 45, 55, 56, 39]
    @ [30..<39] @ [563, 51, 566, 46, 567, 568, 543] @ [516..<542] @ [47, 49, 48, 547, 557, 53]
    @ [4..<30] @ [559, 561, 560, 565]"
  by (simp add: typeable_codes_def upt_rec ascii_eval key_number_def)

lemma key_numbers_distinct: "distinct (map (\<lambda>n. key_number (ascii_report n)) typeable_codes)"
  unfolding key_numbers by simp

lemma typeable_range: "n \<in> set typeable_codes \<longleftrightarrow> n \<in> {8, 9, 10} \<or> 32 \<le> n \<and> n < 127"
  unfolding typeable_codes_def set_append set_upt by auto

lemma ascii_switch_range: "list_all (\<lambda>(n, r). kr_valid r \<and> (n \<in> {8, 9, 10, 13} \<or> 32 \<le> n \<and> n < 127)) ascii_switch"
  by (simp add: ascii_switch_def plain_key_def shifted_key_def report_for_key_def)

lemma ascii_valid_only: "kr_valid (ascii_report n) \<Longrightarrow> n \<in> {8, 9, 10, 13} \<or> 32 \<le> n \<and> n < 127"
  using ascii_switch_range
  by (auto simp: ascii_report_def no_key_report_def list_all_iff split: if_splits option.splits dest!: map_of_SomeD)

lemma key_number_valid: "key_number (ascii_report n) \<noteq> 0 \<Longrightarrow> kr_valid (ascii_report n)"
  using ascii_switch_range
  by (auto simp: ascii_report_def no_key_report_def key_number_def plain_key_def shifted_key_def report_for_key_def
      list_all_iff split: if_splits option.splits dest!: map_of_SomeD)

lemma key_numbers_nonzero: "n \<in> set typeable_codes \<Longrightarrow> key_number (ascii_report n) \<noteq> 0"
proof -
  have "0 \<notin> set (map (\<lambda>n. key_number (ascii_report n)) typeable_codes)"
    unfolding key_numbers by simp
  then show "n \<in> set typeable_codes \<Longrightarrow> key_number (ascii_report n) \<noteq> 0" by force
qed

lemma return_is_newline: "ascii_report 13 = ascii_report 10"
  by (simp add: ascii_report_def ascii_switch_def)

lemma ascii_valid: "kr_valid (ascii_report n) \<longleftrightarrow> n \<in> {8, 9, 10, 13} \<or> 32 \<le> n \<and> n < 127"
proof -
  have "kr_valid (ascii_report n)" if "n \<in> set typeable_codes" for n
    using key_number_valid key_numbers_nonzero that by blast
  then have "kr_valid (ascii_report n)" if "n \<in> {8, 9, 10, 13} \<or> 32 \<le> n \<and> n < 127"
    using that return_is_newline typeable_range by (cases "n = 13") (metis insert_iff, blast)
  then show ?thesis using ascii_valid_only by blast
qed

text \<open>
  Typing is unambiguous: exactly the printable ASCII characters, backspace,
  tab, newline and carriage return can be typed, and two different typeable
  characters press different modifier and key combinations, newline and carriage
  return (both the Enter key) excepted.
\<close>
lemma typing_is_unambiguous:
  "(kr_valid (hid_report_for_ascii_char c) \<longleftrightarrow>
      code_of c \<in> {8, 9, 10, 13} \<or> 32 \<le> code_of c \<and> code_of c < 127)
   \<and> (kr_valid (hid_report_for_ascii_char c) \<and> kr_valid (hid_report_for_ascii_char d) \<and> c \<noteq> d \<and>
      {code_of c, code_of d} \<noteq> {10, 13} \<longrightarrow>
      (kr_modifier (hid_report_for_ascii_char c), kr_keycode (hid_report_for_ascii_char c)) \<noteq>
      (kr_modifier (hid_report_for_ascii_char d), kr_keycode (hid_report_for_ascii_char d)))"
proof (intro conjI impI)
  show "kr_valid (hid_report_for_ascii_char c) \<longleftrightarrow> code_of c \<in> {8, 9, 10, 13} \<or> 32 \<le> code_of c \<and> code_of c < 127"
    by (simp add: hid_report_for_ascii_char_def ascii_valid)
next
  assume asm: "kr_valid (hid_report_for_ascii_char c) \<and> kr_valid (hid_report_for_ascii_char d) \<and> c \<noteq> d \<and>
      {code_of c, code_of d} \<noteq> {10, 13}"
  define f where "f n = (if n = 13 then 10 else n)" for n :: nat
  have valid: "f (code_of c) \<in> set typeable_codes" "f (code_of d) \<in> set typeable_codes"
    using asm by (auto simp: hid_report_for_ascii_char_def ascii_valid f_def typeable_range)
  have ne: "code_of c \<noteq> code_of d" using asm by (simp add: code_of_def)
  have "f (code_of c) \<noteq> f (code_of d)"
    using asm ne by (auto simp: f_def)
  then have "key_number (ascii_report (f (code_of c))) \<noteq> key_number (ascii_report (f (code_of d)))"
    using valid key_numbers_distinct by (auto simp: distinct_map inj_on_def)
  moreover have "ascii_report (f n) = ascii_report n" for n
    by (simp add: f_def return_is_newline)
  ultimately show "(kr_modifier (hid_report_for_ascii_char c), kr_keycode (hid_report_for_ascii_char c)) \<noteq>
      (kr_modifier (hid_report_for_ascii_char d), kr_keycode (hid_report_for_ascii_char d))"
    by (auto simp: hid_report_for_ascii_char_def key_number_def)
qed

lemma typing_is_unambiguous_witness:
  "kr_keycode (hid_report_for_ascii_char (CHR ''a'')) = 4 \<and> kr_modifier (hid_report_for_ascii_char (CHR ''A'')) = 2 \<and>
   (kr_modifier (hid_report_for_ascii_char (CHR ''a'')), kr_keycode (hid_report_for_ascii_char (CHR ''a''))) \<noteq>
   (kr_modifier (hid_report_for_ascii_char (CHR ''A'')), kr_keycode (hid_report_for_ascii_char (CHR ''A'')))"
proof -
  have "code_of CHR ''a'' = 97" "code_of CHR ''A'' = 65" by (simp_all add: code_of_def)
  moreover from this have "kr_valid (hid_report_for_ascii_char CHR ''a'')" "kr_valid (hid_report_for_ascii_char CHR ''A'')"
    by (simp_all add: hid_report_for_ascii_char_def ascii_eval)
  ultimately show ?thesis
    using typing_is_unambiguous [of "CHR ''a''" "CHR ''A''"]
    by (simp add: hid_report_for_ascii_char_def ascii_eval)
qed

end
