(* ===== verification/Held_Keyboard.thy ===== *)
theory Held_Keyboard
  imports Keymap Hid_Keycode
begin

text \<open>
  \<^verbatim>\<open>components/keyboard/include/keyboard/held_keyboard_state.h\<close> and
  \<^verbatim>\<open>src/held_keyboard_state.cpp\<close>: the keyboard report composed from the keys each
  physical input source holds down.  The arrays indexed by source have one cell
  per \<open>InputId\<close>; \<open>InputId::Count\<close> is the invalid source.
\<close>

unbundle bit_operations_syntax

section \<open>Definitions\<close>

record HidKeyboardSnapshot =
  sn_modifier :: u8
  sn_apple_fn :: bool
  sn_keycodes :: bytes

definition empty_snapshot :: HidKeyboardSnapshot where
  "empty_snapshot = \<lparr>sn_modifier = 0, sn_apple_fn = False, sn_keycodes = replicate 6 0\<rparr>"

definition snapshot_empty :: "HidKeyboardSnapshot \<Rightarrow> bool" where
  "snapshot_empty s \<longleftrightarrow> sn_modifier s = 0 \<and> \<not> sn_apple_fn s \<and> list_all (\<lambda>k. k = 0) (sn_keycodes s)"

datatype HeldKeyboardUpdateStatus = Applied | NoChange | InvalidSource | InvalidReport | Rollover

record HeldKeyboardUpdate =
  hu_status :: HeldKeyboardUpdateStatus
  hu_snapshot :: HidKeyboardSnapshot
  hu_state_changed :: bool
  hu_report_changed :: bool
  hu_became_empty :: bool

definition update_with :: "HeldKeyboardUpdateStatus \<Rightarrow> HidKeyboardSnapshot \<Rightarrow> HeldKeyboardUpdate" where
  "update_with status snapshot = \<lparr>hu_status = status, hu_snapshot = snapshot, hu_state_changed = False,
     hu_report_changed = False, hu_became_empty = False\<rparr>"

definition update_accepted :: "HeldKeyboardUpdate \<Rightarrow> bool" where
  "update_accepted u \<longleftrightarrow> hu_status u = Applied \<or> hu_status u = NoChange"

record HeldKeyboardState =
  hk_reports :: "HidKeyboardReport list"
  hk_active :: "bool list"
  hk_current :: HidKeyboardSnapshot
  hk_active_source_count :: nat

definition init_held :: HeldKeyboardState where
  "init_held = \<lparr>hk_reports = replicate kKeyboardStateSourceCount no_key_report,
     hk_active = replicate kKeyboardStateSourceCount False, hk_current = empty_snapshot,
     hk_active_source_count = 0\<rparr>"

definition valid_source :: "InputId \<Rightarrow> bool" where
  "valid_source source \<longleftrightarrow> input_index source < kKeyboardStateSourceCount"

definition usable_report :: "HidKeyboardReport \<Rightarrow> bool" where
  "usable_report r \<longleftrightarrow> kr_valid r \<and>
     (kr_modifier r \<noteq> 0 \<or> kr_apple_fn r \<or> kr_keycode r \<noteq> 0 \<or> list_ex (\<lambda>k. k \<noteq> 0) (kr_keycodes r))"

text \<open>The snapshot under construction with its number of key codes; \<open>None\<close> is rollover.\<close>

definition snapshot_add_keycode :: "HidKeyboardSnapshot \<times> nat \<Rightarrow> u8 \<Rightarrow> (HidKeyboardSnapshot \<times> nat) option" where
  "snapshot_add_keycode sc keycode =
     (let (snapshot, keycode_count) = sc in
      if keycode = 0 \<or> keycode \<in> set (sn_keycodes snapshot) then Some (snapshot, keycode_count)
      else if keycode_count \<ge> length (sn_keycodes snapshot) then None
      else Some (snapshot\<lparr>sn_keycodes := (sn_keycodes snapshot)[keycode_count := keycode]\<rparr>, keycode_count + 1))"

fun add_keycodes :: "HidKeyboardSnapshot \<times> nat \<Rightarrow> bytes \<Rightarrow> (HidKeyboardSnapshot \<times> nat) option" where
  "add_keycodes sc [] = Some sc"
| "add_keycodes sc (k # ks) =
     (if k = 0 then add_keycodes sc ks
      else case snapshot_add_keycode sc k of None \<Rightarrow> None | Some sc' \<Rightarrow> add_keycodes sc' ks)"

definition compose_report :: "HidKeyboardSnapshot \<times> nat \<Rightarrow> HidKeyboardReport \<Rightarrow> (HidKeyboardSnapshot \<times> nat) option" where
  "compose_report sc report =
     (let (candidate, keycode_count) = sc;
          candidate' = candidate\<lparr>sn_modifier := sn_modifier candidate OR kr_modifier report,
            sn_apple_fn := sn_apple_fn candidate \<or> kr_apple_fn report\<rparr>;
          report_contains_keycode = list_ex (\<lambda>k. k \<noteq> 0) (kr_keycodes report)
      in case add_keycodes (candidate', keycode_count) (kr_keycodes report) of
           None \<Rightarrow> None
         | Some sc' \<Rightarrow> (if report_contains_keycode then Some sc'
                        else snapshot_add_keycode sc' (kr_keycode report)))"

fun compose_from :: "HidKeyboardSnapshot \<times> nat \<Rightarrow> HidKeyboardReport list \<Rightarrow> bool list \<Rightarrow> (HidKeyboardSnapshot \<times> nat) option" where
  "compose_from sc (r # rs) (a # as) =
     (if \<not> a then compose_from sc rs as
      else case compose_report sc r of None \<Rightarrow> None | Some sc' \<Rightarrow> compose_from sc' rs as)"
| "compose_from sc _ _ = Some sc"

definition held_compose :: "HidKeyboardReport list \<Rightarrow> bool list \<Rightarrow> HidKeyboardSnapshot option" where
  "held_compose reports active = map_option fst (compose_from (empty_snapshot, 0) reports active)"

definition held_press :: "HeldKeyboardState \<Rightarrow> InputId \<Rightarrow> HidKeyboardReport \<Rightarrow> HeldKeyboardUpdate \<times> HeldKeyboardState" where
  "held_press s source report =
     (let index = input_index source in
      if \<not> valid_source source then (update_with InvalidSource (hk_current s), s)
      else if \<not> usable_report report then (update_with InvalidReport (hk_current s), s)
      else if hk_active s ! index then (update_with NoChange (hk_current s), s)
      else
        let candidate_reports = (hk_reports s)[index := report];
            candidate_active = (hk_active s)[index := True]
        in case held_compose candidate_reports candidate_active of
             None \<Rightarrow> (update_with Rollover (hk_current s), s)
           | Some candidate \<Rightarrow>
               (\<lparr>hu_status = Applied, hu_snapshot = candidate, hu_state_changed = True,
                  hu_report_changed = (candidate \<noteq> hk_current s), hu_became_empty = False\<rparr>,
                \<lparr>hk_reports = candidate_reports, hk_active = candidate_active, hk_current = candidate,
                  hk_active_source_count = hk_active_source_count s + 1\<rparr>))"

definition held_release :: "HeldKeyboardState \<Rightarrow> InputId \<Rightarrow> HeldKeyboardUpdate \<times> HeldKeyboardState" where
  "held_release s source =
     (let index = input_index source in
      if \<not> valid_source source then (update_with InvalidSource (hk_current s), s)
      else if \<not> hk_active s ! index then (update_with NoChange (hk_current s), s)
      else
        let candidate_reports = (hk_reports s)[index := no_key_report];
            candidate_active = (hk_active s)[index := False]
        in case held_compose candidate_reports candidate_active of
             None \<Rightarrow> (update_with Rollover (hk_current s), s)
           | Some candidate \<Rightarrow>
               (\<lparr>hu_status = Applied, hu_snapshot = candidate, hu_state_changed = True,
                  hu_report_changed = (candidate \<noteq> hk_current s), hu_became_empty = snapshot_empty candidate\<rparr>,
                \<lparr>hk_reports = candidate_reports, hk_active = candidate_active, hk_current = candidate,
                  hk_active_source_count = hk_active_source_count s - 1\<rparr>))"

definition held_clear :: "HeldKeyboardState \<Rightarrow> HeldKeyboardUpdate \<times> HeldKeyboardState" where
  "held_clear s =
     (if hk_active_source_count s = 0 then (update_with NoChange (hk_current s), s)
      else (\<lparr>hu_status = Applied, hu_snapshot = empty_snapshot, hu_state_changed = True,
              hu_report_changed = (empty_snapshot \<noteq> hk_current s), hu_became_empty = True\<rparr>, init_held))"

definition source_active :: "HeldKeyboardState \<Rightarrow> InputId \<Rightarrow> bool" where
  "source_active s source \<longleftrightarrow> valid_source source \<and> hk_active s ! input_index source"

definition held_empty :: "HeldKeyboardState \<Rightarrow> bool" where
  "held_empty s \<longleftrightarrow> hk_active_source_count s = 0"

section \<open>What composition computes\<close>

text \<open>The key codes a report contributes, and those of all active sources in source order.\<close>

definition report_keys :: "HidKeyboardReport \<Rightarrow> u8 list" where
  "report_keys r = (if list_ex (\<lambda>k. k \<noteq> 0) (kr_keycodes r) then filter (\<lambda>k. k \<noteq> 0) (kr_keycodes r)
     else filter (\<lambda>k. k \<noteq> 0) [kr_keycode r])"

fun active_reports :: "HidKeyboardReport list \<Rightarrow> bool list \<Rightarrow> HidKeyboardReport list" where
  "active_reports (r # rs) (a # as) = (if a then r # active_reports rs as else active_reports rs as)"
| "active_reports _ _ = []"

text \<open>First occurrences of new keys, in order.\<close>

fun extend_keys :: "u8 list \<Rightarrow> u8 list \<Rightarrow> u8 list" where
  "extend_keys ks [] = ks"
| "extend_keys ks (x # xs) = extend_keys (if x \<in> set ks then ks else ks @ [x]) xs"

definition pad_keys :: "u8 list \<Rightarrow> bytes" where
  "pad_keys ks = ks @ replicate (6 - length ks) 0"

definition key_snapshot :: "u8 \<Rightarrow> bool \<Rightarrow> u8 list \<Rightarrow> HidKeyboardSnapshot" where
  "key_snapshot m f ks = \<lparr>sn_modifier = m, sn_apple_fn = f, sn_keycodes = pad_keys ks\<rparr>"

definition all_modifiers :: "HidKeyboardReport list \<Rightarrow> u8" where
  "all_modifiers rs = foldl (\<lambda>m r. m OR kr_modifier r) 0 rs"

definition all_keys :: "HidKeyboardReport list \<Rightarrow> u8 list" where
  "all_keys rs = extend_keys [] (concat (map report_keys rs))"

lemma set_extend_keys: "set (extend_keys ks xs) = set ks \<union> set xs"
  by (induction ks xs rule: extend_keys.induct) auto

lemma distinct_extend_keys: "distinct ks \<Longrightarrow> distinct (extend_keys ks xs)"
  by (induction ks xs rule: extend_keys.induct) auto

lemma extend_keys_append: "extend_keys ks (xs @ ys) = extend_keys (extend_keys ks xs) ys"
  by (induction ks xs rule: extend_keys.induct) auto

lemma length_extend_keys: "length ks \<le> length (extend_keys ks xs)"
  by (induction ks xs rule: extend_keys.induct) (auto split: if_splits)

lemma length_pad_keys: "length ks \<le> 6 \<Longrightarrow> length (pad_keys ks) = 6"
  by (simp add: pad_keys_def)

text \<open>One step of each loop on a packed snapshot.\<close>

lemma snapshot_add_packed:
  assumes "length ks \<le> 6" and "k \<noteq> 0"
  shows "snapshot_add_keycode (key_snapshot m f ks, length ks) k =
    (if length (extend_keys ks [k]) \<le> 6
     then Some (key_snapshot m f (extend_keys ks [k]), length (extend_keys ks [k])) else None)"
proof (cases "k \<in> set ks")
  case True
  then show ?thesis using assms by (simp add: snapshot_add_keycode_def key_snapshot_def pad_keys_def)
next
  case new: False
  then have "k \<notin> set (pad_keys ks)" using assms by (simp add: pad_keys_def)
  show ?thesis
  proof (cases "length ks < 6")
    case True
    then have "(pad_keys ks)[length ks := k] = pad_keys (ks @ [k])"
      by (cases "6 - length ks") (auto simp: pad_keys_def list_update_append diff_Suc split: nat.splits)
    with True new assms \<open>k \<notin> set (pad_keys ks)\<close> show ?thesis
      by (simp add: snapshot_add_keycode_def key_snapshot_def length_pad_keys)
  next
    case False
    with new assms \<open>k \<notin> set (pad_keys ks)\<close> show ?thesis
      by (simp add: snapshot_add_keycode_def key_snapshot_def length_pad_keys)
  qed
qed

lemma add_keycodes_packed:
  "length ks \<le> 6 \<Longrightarrow> add_keycodes (key_snapshot m f ks, length ks) xs =
    (let ks' = extend_keys ks (filter (\<lambda>k. k \<noteq> 0) xs) in
     if length ks' \<le> 6 then Some (key_snapshot m f ks', length ks') else None)"
proof (induction xs arbitrary: ks)
  case Nil
  then show ?case by simp
next
  case (Cons x xs)
  show ?case
  proof (cases "x = 0")
    case True
    then show ?thesis using Cons by simp
  next
    case False
    show ?thesis
    proof (cases "length (extend_keys ks [x]) \<le> 6")
      case True
      then show ?thesis
        using False snapshot_add_packed [OF Cons.prems False] Cons.IH [of "extend_keys ks [x]"] by simp
    next
      case over: False
      then have "\<not> length (extend_keys ks (x # filter (\<lambda>k. k \<noteq> 0) xs)) \<le> 6"
        using length_extend_keys [of "extend_keys ks [x]" "filter (\<lambda>k. k \<noteq> 0) xs"] by simp
      then show ?thesis
        using over False snapshot_add_packed [OF Cons.prems False] by (simp add: Let_def)
    qed
  qed
qed

lemma compose_report_packed:
  assumes "length ks \<le> 6"
  shows "compose_report (key_snapshot m f ks, length ks) r =
    (let ks' = extend_keys ks (report_keys r) in
     if length ks' \<le> 6 then Some (key_snapshot (m OR kr_modifier r) (f \<or> kr_apple_fn r) ks', length ks') else None)"
proof -
  have upd: "(key_snapshot m f ks)\<lparr>sn_modifier := sn_modifier (key_snapshot m f ks) OR kr_modifier r,
      sn_apple_fn := sn_apple_fn (key_snapshot m f ks) \<or> kr_apple_fn r\<rparr> = key_snapshot (m OR kr_modifier r) (f \<or> kr_apple_fn r) ks"
    by (simp add: key_snapshot_def)
  show ?thesis
  proof (cases "list_ex (\<lambda>k. k \<noteq> 0) (kr_keycodes r)")
    case True
    then show ?thesis
      unfolding compose_report_def Let_def prod.case upd add_keycodes_packed [OF assms] report_keys_def
      by (simp add: Let_def)
  next
    case False
    then have none: "filter (\<lambda>k. k \<noteq> 0) (kr_keycodes r) = []" by (auto simp: list_ex_iff filter_empty_conv)
    show ?thesis
    proof (cases "kr_keycode r = 0")
      case True
      then show ?thesis using False none assms
        unfolding compose_report_def Let_def prod.case upd add_keycodes_packed [OF assms] report_keys_def
        by (simp add: Let_def snapshot_add_keycode_def)
    next
      case key: False
      then show ?thesis using False none assms snapshot_add_packed [OF assms key]
        unfolding compose_report_def Let_def prod.case upd add_keycodes_packed [OF assms] report_keys_def
        by (simp add: Let_def)
    qed
  qed
qed

lemma compose_from_packed:
  "length ks \<le> 6 \<Longrightarrow> compose_from (key_snapshot m f ks, length ks) rs as =
    (let act = active_reports rs as; ks' = extend_keys ks (concat (map report_keys act)) in
     if length ks' \<le> 6
     then Some (key_snapshot (foldl (\<lambda>m r. m OR kr_modifier r) m act) (f \<or> list_ex kr_apple_fn act) ks', length ks')
     else None)"
proof (induction rs arbitrary: m f ks as)
  case Nil
  then show ?case by simp
next
  case (Cons r rs)
  show ?case
  proof (cases as)
    case Nil
    then show ?thesis using Cons.prems by simp
  next
    case as: (Cons a as')
    let ?ks = "extend_keys ks (report_keys r)"
    consider "\<not> a" | "a" "length ?ks \<le> 6" | "a" "\<not> length ?ks \<le> 6" by blast
    then show ?thesis
    proof cases
      case 1
      then show ?thesis using as Cons by simp
    next
      case 2
      then have "compose_report (key_snapshot m f ks, length ks) r =
          Some (key_snapshot (m OR kr_modifier r) (f \<or> kr_apple_fn r) ?ks, length ?ks)"
        using compose_report_packed [OF Cons.prems] by (simp add: Let_def)
      then show ?thesis
        using 2 as Cons.IH [of ?ks "m OR kr_modifier r" "f \<or> kr_apple_fn r" as']
        by (simp add: extend_keys_append Let_def disj_assoc)
    next
      case 3
      then have "compose_report (key_snapshot m f ks, length ks) r = None"
        using compose_report_packed [OF Cons.prems] by (simp add: Let_def)
      moreover have "\<not> length (extend_keys ks (report_keys r @ concat (map report_keys (active_reports rs as')))) \<le> 6"
        using 3 length_extend_keys [of ?ks "concat (map report_keys (active_reports rs as'))"]
        by (simp add: extend_keys_append)
      ultimately show ?thesis using 3 as by (simp add: Let_def)
    qed
  qed
qed

lemma held_compose_alt:
  "held_compose rs as =
    (let act = active_reports rs as in
     if length (all_keys act) \<le> 6
     then Some (key_snapshot (all_modifiers act) (list_ex kr_apple_fn act) (all_keys act)) else None)"
proof -
  have start: "key_snapshot 0 False [] = empty_snapshot"
    by (simp add: empty_snapshot_def key_snapshot_def pad_keys_def)
  have "compose_from (key_snapshot 0 False [], 0) rs as =
    (let act = active_reports rs as; ks' = extend_keys [] (concat (map report_keys act)) in
     if length ks' \<le> 6
     then Some (key_snapshot (foldl (\<lambda>m r. m OR kr_modifier r) 0 act) (list_ex kr_apple_fn act) ks', length ks')
     else None)"
    using compose_from_packed [of "[]" 0 False rs as] by (simp add: Let_def)
  then show ?thesis
    by (simp add: held_compose_def start [symmetric] all_modifiers_def all_keys_def Let_def)
qed

lemma set_active_reports:
  "length rs = length as \<Longrightarrow> set (active_reports rs as) = {rs ! i | i. i < length rs \<and> as ! i}"
proof (induction rs as rule: active_reports.induct)
  case (1 r rs a as)
  have "{(r # rs) ! i | i. i < length (r # rs) \<and> (a # as) ! i} =
      (if a then {r} else {}) \<union> {rs ! i | i. i < length rs \<and> as ! i}"
  proof (rule set_eqI)
    fix x
    have "(\<exists>i. x = (r # rs) ! i \<and> i < length (r # rs) \<and> (a # as) ! i) \<longleftrightarrow>
        x = r \<and> a \<or> (\<exists>i. x = rs ! i \<and> i < length rs \<and> as ! i)"
      (is "?lhs \<longleftrightarrow> ?rhs")
    proof
      show ?rhs if ?lhs
      proof -
        from that obtain i where "x = (r # rs) ! i" "i < length (r # rs)" "(a # as) ! i" by blast
        then show ?thesis by (cases i) auto
      qed
      show ?lhs if ?rhs
        using that
      proof
        show ?lhs if "x = r \<and> a" using that by (intro exI [of _ 0]) simp
        show ?lhs if "\<exists>i. x = rs ! i \<and> i < length rs \<and> as ! i"
        proof -
          from that obtain i where "x = rs ! i \<and> i < length rs \<and> as ! i" by blast
          then show ?thesis by (intro exI [of _ "Suc i"]) simp
        qed
      qed
    qed
    then show "x \<in> {(r # rs) ! i | i. i < length (r # rs) \<and> (a # as) ! i} \<longleftrightarrow>
        x \<in> (if a then {r} else {}) \<union> {rs ! i | i. i < length rs \<and> as ! i}"
      by auto
  qed
  with 1 show ?case by auto
qed auto

lemma active_reports_none: "length rs = length as \<Longrightarrow> active_reports rs as = [] \<longleftrightarrow> \<not> list_ex (\<lambda>a. a) as"
  by (induction rs as rule: active_reports.induct) auto

lemma active_reports_inactive: "active_reports (replicate n r) (replicate m False) = []"
proof (induction n arbitrary: m)
  case (Suc n)
  then show ?case by (cases m) auto
qed simp

lemma set_all_keys: "set (all_keys rs) = (\<Union>r \<in> set rs. set (report_keys r))"
  by (auto simp: all_keys_def set_extend_keys)

lemma distinct_all_keys: "distinct (all_keys rs)"
  by (simp add: all_keys_def distinct_extend_keys)

lemma report_keys_nonzero: "k \<in> set (report_keys r) \<Longrightarrow> k \<noteq> 0"
  by (auto simp: report_keys_def split: if_splits)

lemma all_keys_nonzero: "0 \<notin> set (all_keys rs)"
  using report_keys_nonzero by (auto simp: set_all_keys)

lemma length_all_keys_mono:
  assumes "set rs \<subseteq> set rs'"
  shows "length (all_keys rs) \<le> length (all_keys rs')"
proof -
  have "set (all_keys rs) \<subseteq> set (all_keys rs')" using assms by (auto simp: set_all_keys)
  then have "card (set (all_keys rs)) \<le> card (set (all_keys rs'))" by (intro card_mono) auto
  then show ?thesis by (simp add: distinct_card distinct_all_keys)
qed

lemma bit_foldl_modifiers:
  "bit (foldl (\<lambda>m r. m OR kr_modifier r) m rs) n \<longleftrightarrow> bit m n \<or> (\<exists>r \<in> set rs. bit (kr_modifier r) n)"
  by (induction rs arbitrary: m) (auto simp: bit_or_iff)

lemma bit_all_modifiers: "bit (all_modifiers rs) n \<longleftrightarrow> (\<exists>r \<in> set rs. bit (kr_modifier r) n)"
  by (simp add: all_modifiers_def bit_foldl_modifiers)

section \<open>The invariant and its preservation\<close>

definition held_inv :: "HeldKeyboardState \<Rightarrow> bool" where
  "held_inv s \<longleftrightarrow> length (hk_reports s) = kKeyboardStateSourceCount \<and>
     length (hk_active s) = kKeyboardStateSourceCount \<and>
     held_compose (hk_reports s) (hk_active s) = Some (hk_current s) \<and>
     hk_active_source_count s = length (filter (\<lambda>a. a) (hk_active s)) \<and>
     (\<forall>i < kKeyboardStateSourceCount. if hk_active s ! i then usable_report (hk_reports s ! i)
        else hk_reports s ! i = no_key_report)"

lemma held_inv_init: "held_inv init_held"
  by (simp add: held_inv_def init_held_def held_compose_alt active_reports_inactive all_keys_def all_modifiers_def
      key_snapshot_def empty_snapshot_def pad_keys_def filter_replicate)

lemma count_update:
  "i < length as \<Longrightarrow> length (filter (\<lambda>a. a) (as[i := b])) + (if as ! i then 1 else 0) =
     length (filter (\<lambda>a. a) as) + (if b then 1 else 0)"
proof (induction as arbitrary: i)
  case (Cons a as)
  show ?case using Cons.IH [of "i - 1"] Cons.prems by (cases i) (auto split: if_splits)
qed simp

lemma held_inv_press:
  assumes inv: "held_inv s"
  shows "held_inv (snd (held_press s source report))"
proof (cases "valid_source source \<and> usable_report report \<and> \<not> hk_active s ! input_index source")
  case False
  then show ?thesis using inv by (auto simp: held_press_def Let_def)
next
  case True
  have "input_index source < length (hk_active s)" using True inv by (simp add: valid_source_def held_inv_def)
  from count_update [OF this, of True] True have
    "length (filter (\<lambda>a. a) ((hk_active s)[input_index source := True])) = Suc (length (filter (\<lambda>a. a) (hk_active s)))"
    by simp
  with True inv show ?thesis
    by (auto simp: held_press_def Let_def held_inv_def nth_list_update valid_source_def split: option.splits if_splits)
qed

text \<open>Taking a source away never runs out of key cells.\<close>

lemma release_composes:
  assumes inv: "held_inv s" and i: "i < kKeyboardStateSourceCount"
  shows "held_compose ((hk_reports s)[i := no_key_report]) ((hk_active s)[i := False]) \<noteq> None"
proof -
  have len: "length (hk_reports s) = length (hk_active s)" using inv by (simp add: held_inv_def)
  have "length (all_keys (active_reports (hk_reports s) (hk_active s))) \<le> 6"
    using inv by (auto simp: held_inv_def held_compose_alt Let_def split: if_splits)
  moreover have "set (active_reports ((hk_reports s)[i := no_key_report]) ((hk_active s)[i := False]))
      \<subseteq> set (active_reports (hk_reports s) (hk_active s))"
  proof
    fix r
    assume "r \<in> set (active_reports ((hk_reports s)[i := no_key_report]) ((hk_active s)[i := False]))"
    then obtain j where j: "j < length (hk_reports s)" "(hk_active s)[i := False] ! j"
      "r = (hk_reports s)[i := no_key_report] ! j"
      using len by (auto simp: set_active_reports)
    moreover from j len have "j \<noteq> i" by (metis nth_list_update_eq)
    ultimately show "r \<in> set (active_reports (hk_reports s) (hk_active s))"
      using len by (auto simp: set_active_reports)
  qed
  ultimately show ?thesis
    using length_all_keys_mono [of "active_reports ((hk_reports s)[i := no_key_report]) ((hk_active s)[i := False])"
        "active_reports (hk_reports s) (hk_active s)"]
    by (simp add: held_compose_alt Let_def)
qed

lemma held_inv_release:
  assumes inv: "held_inv s"
  shows "held_inv (snd (held_release s source))"
proof (cases "valid_source source \<and> hk_active s ! input_index source")
  case False
  then show ?thesis using inv by (auto simp: held_release_def Let_def)
next
  case True
  have "input_index source < length (hk_active s)" using True inv by (simp add: valid_source_def held_inv_def)
  from count_update [OF this, of False] True have
    "length (filter (\<lambda>a. a) ((hk_active s)[input_index source := False])) = length (filter (\<lambda>a. a) (hk_active s)) - 1"
    by simp
  with True inv show ?thesis
    by (auto simp: held_release_def Let_def held_inv_def nth_list_update valid_source_def split: option.splits if_splits)
qed

datatype HeldOp = HeldPress InputId HidKeyboardReport | HeldRelease InputId | HeldClear

fun held_step :: "HeldKeyboardState \<Rightarrow> HeldOp \<Rightarrow> HeldKeyboardState" where
  "held_step s (HeldPress source report) = snd (held_press s source report)"
| "held_step s (HeldRelease source) = snd (held_release s source)"
| "held_step s HeldClear = snd (held_clear s)"

interpretation held_run: event_machine held_step init_held held_inv
proof unfold_locales
  show "held_inv init_held" by (rule held_inv_init)
  show "held_inv (held_step s op)" if "held_inv s" for s op
    using that held_inv_init
    by (cases op) (auto simp: held_inv_press held_inv_release held_clear_def)
qed

section \<open>Properties\<close>

text \<open>
  After any sequence of presses, releases and clears, releasing a source is
  always carried out: it never reports rollover, and the source is inactive
  afterwards.
\<close>
lemma release_never_fails:
  assumes "valid_source source"
  shows "update_accepted (fst (held_release (run held_step init_held ops) source))
    \<and> \<not> source_active (snd (held_release (run held_step init_held ops) source)) source"
proof -
  let ?s = "run held_step init_held ops"
  have inv: "held_inv ?s" by (rule held_run.inv_reachable)
  have i: "input_index source < kKeyboardStateSourceCount" using assms by (simp add: valid_source_def)
  then show ?thesis
    using release_composes [OF inv i] assms inv
    by (auto simp: held_release_def update_accepted_def update_with_def source_active_def held_inv_def Let_def
        split: option.splits)
qed

lemma sample_release_ops:
  "valid_source Key3 \<and> run held_step init_held [HeldPress Key3 (plain_key 4)] \<noteq> init_held"
  by code_simp

lemma release_never_fails_witness:
  "update_accepted (fst (held_release (run held_step init_held [HeldPress Key3 (plain_key 4)]) Key3))"
  using release_never_fails [of Key3 "[HeldPress Key3 (plain_key 4)]"] sample_release_ops by blast

text \<open>The report of an active source, for the statements below.\<close>

definition held_reports :: "HeldKeyboardState \<Rightarrow> HidKeyboardReport set" where
  "held_reports s = {hk_reports s ! i | i. i < kKeyboardStateSourceCount \<and> hk_active s ! i}"

lemma held_inv_current:
  assumes "held_inv s"
  shows "set (active_reports (hk_reports s) (hk_active s)) = held_reports s"
    and "hk_current s = key_snapshot (all_modifiers (active_reports (hk_reports s) (hk_active s)))
      (list_ex kr_apple_fn (active_reports (hk_reports s) (hk_active s))) (all_keys (active_reports (hk_reports s) (hk_active s)))"
    and "length (all_keys (active_reports (hk_reports s) (hk_active s))) \<le> 6"
  using assms by (auto simp: held_inv_def held_reports_def set_active_reports held_compose_alt Let_def split: if_splits)

lemma modifier_zero: "(m :: u8) = 0 \<longleftrightarrow> (\<forall>n. \<not> bit m n)"
  by (metis bit_0_eq bit_eqI bot_apply bot_bool_def)

lemma usable_not_silent:
  assumes "usable_report r"
  shows "(\<exists>n. bit (kr_modifier r) n) \<or> kr_apple_fn r \<or> report_keys r \<noteq> []"
proof (cases "kr_modifier r = 0 \<and> \<not> kr_apple_fn r")
  case True
  then have "kr_keycode r \<noteq> 0 \<or> list_ex (\<lambda>k. k \<noteq> 0) (kr_keycodes r)"
    using assms by (auto simp: usable_report_def)
  then have "report_keys r \<noteq> []" by (auto simp: report_keys_def list_ex_iff filter_empty_conv)
  then show ?thesis by simp
next
  case False
  then show ?thesis using modifier_zero by blast
qed

text \<open>
  C20: After any sequence of calls the current report is the union of what the
  held sources contribute: a key code, a modifier bit or the Fn flag is on the
  wire exactly when some held source carries it, the six cells hold distinct keys
  without gaps, and the report is empty exactly when no source is held.
\<close>
theorem report_is_union_of_held_sources:
  fixes ops
  defines "s \<equiv> run held_step init_held ops"
  shows "(\<exists>ks. packed_keys ks (sn_keycodes (hk_current s)) \<and> set ks = (\<Union>r \<in> held_reports s. set (report_keys r)))
    \<and> (bit (sn_modifier (hk_current s)) n \<longleftrightarrow> (\<exists>r \<in> held_reports s. bit (kr_modifier r) n))
    \<and> (sn_apple_fn (hk_current s) \<longleftrightarrow> (\<exists>r \<in> held_reports s. kr_apple_fn r))
    \<and> (snapshot_empty (hk_current s) \<longleftrightarrow> held_empty s)"
proof -
  let ?act = "active_reports (hk_reports s) (hk_active s)"
  have inv: "held_inv s" unfolding s_def by (rule held_run.inv_reachable)
  note cur = held_inv_current [OF inv]
  have keys: "packed_keys (all_keys ?act) (sn_keycodes (hk_current s))"
    using cur distinct_all_keys all_keys_nonzero by (simp add: packed_keys_def key_snapshot_def pad_keys_def)
  have un: "set (all_keys ?act) = (\<Union>r \<in> held_reports s. set (report_keys r))"
    using cur(1) by (simp add: set_all_keys)
  have mods: "bit (sn_modifier (hk_current s)) n \<longleftrightarrow> (\<exists>r \<in> held_reports s. bit (kr_modifier r) n)" for n
    using cur by (simp add: key_snapshot_def bit_all_modifiers)
  have fn: "sn_apple_fn (hk_current s) \<longleftrightarrow> (\<exists>r \<in> held_reports s. kr_apple_fn r)"
    using cur by (simp add: key_snapshot_def list_ex_iff)
  have usable: "usable_report r" if "r \<in> held_reports s" for r
    using that inv by (auto simp: held_reports_def held_inv_def)
  have "held_empty s \<longleftrightarrow> held_reports s = {}"
    using inv by (auto simp: held_empty_def held_inv_def held_reports_def filter_empty_conv in_set_conv_nth)
  also have "\<dots> \<longleftrightarrow> snapshot_empty (hk_current s)"
  proof
    assume "held_reports s = {}"
    then have "?act = []" using cur(1) by simp
    then show "snapshot_empty (hk_current s)"
      using cur(2) by (simp add: snapshot_empty_def key_snapshot_def all_modifiers_def all_keys_def pad_keys_def list_all_iff)
  next
    assume e: "snapshot_empty (hk_current s)"
    have "all_keys ?act = []"
      using e cur(2) all_keys_nonzero [of ?act]
      by (cases "all_keys ?act") (auto simp: snapshot_empty_def key_snapshot_def pad_keys_def)
    then have "report_keys r = []" if "r \<in> held_reports s" for r using un that by auto
    moreover have "\<not> bit (kr_modifier r) n" if "r \<in> held_reports s" for r n
      using that mods [of n] e modifier_zero by (auto simp: snapshot_empty_def)
    moreover have "\<not> kr_apple_fn r" if "r \<in> held_reports s" for r
      using that fn e by (auto simp: snapshot_empty_def)
    ultimately show "held_reports s = {}" using usable_not_silent usable by blast
  qed
  finally show ?thesis using keys un mods fn by blast
qed

lemma held_press_applied:
  assumes "hu_status (fst (held_press s source report)) = Applied"
  obtains candidate where "valid_source source" "\<not> hk_active s ! input_index source"
    "snd (held_press s source report) = \<lparr>hk_reports = (hk_reports s)[input_index source := report],
      hk_active = (hk_active s)[input_index source := True], hk_current = candidate,
      hk_active_source_count = hk_active_source_count s + 1\<rparr>"
proof -
  have guards: "valid_source source" "usable_report report" "\<not> hk_active s ! input_index source"
    using assms by (auto simp: held_press_def update_with_def Let_def split: if_splits)
  show thesis
  proof (cases "held_compose ((hk_reports s)[input_index source := report]) ((hk_active s)[input_index source := True])")
    case None
    then show ?thesis using assms guards by (simp add: held_press_def update_with_def Let_def)
  next
    case (Some candidate)
    then show ?thesis using that [of candidate] guards by (simp add: held_press_def Let_def)
  qed
qed

text \<open>
  C40: Pressing a source that is not held and releasing it again restores the
  keyboard state exactly, whatever other sources hold.
\<close>
theorem release_undoes_press:
  fixes ops
  defines "s \<equiv> run held_step init_held ops"
  assumes "held_press s source report = (u, s')" and "hu_status u = Applied"
  shows "hu_status (fst (held_release s' source)) = Applied \<and> snd (held_release s' source) = s"
proof -
  let ?i = "input_index source"
  have inv: "held_inv s" unfolding s_def by (rule held_run.inv_reachable)
  have "hu_status (fst (held_press s source report)) = Applied" and snd: "s' = snd (held_press s source report)"
    using assms(2,3) by simp_all
  then obtain candidate where valid: "valid_source source" and idle: "\<not> hk_active s ! ?i"
    and s': "s' = \<lparr>hk_reports = (hk_reports s)[?i := report], hk_active = (hk_active s)[?i := True],
      hk_current = candidate, hk_active_source_count = hk_active_source_count s + 1\<rparr>"
    by (elim held_press_applied) simp
  have i: "?i < length (hk_reports s)" "?i < length (hk_active s)"
    using valid inv by (simp_all add: valid_source_def held_inv_def)
  have old: "hk_reports s ! ?i = no_key_report" using inv idle i by (auto simp: held_inv_def)
  have "(hk_reports s)[?i := no_key_report] = hk_reports s" "(hk_active s)[?i := False] = hk_active s"
    using old idle by (metis list_update_id)+
  moreover have "held_compose (hk_reports s) (hk_active s) = Some (hk_current s)"
    using inv by (simp add: held_inv_def)
  ultimately show ?thesis
    using i valid by (simp add: held_release_def s' Let_def)
qed

theorem release_undoes_press_witness:
  "snd (held_release (snd (held_press (run held_step init_held [HeldPress Key1 (plain_key 4)]) Key2 (shifted_key 4))) Key2)
     = run held_step init_held [HeldPress Key1 (plain_key 4)]"
proof -
  have "hu_status (fst (held_press (run held_step init_held [HeldPress Key1 (plain_key 4)]) Key2 (shifted_key 4))) = Applied"
    by code_simp
  then show ?thesis
    using release_undoes_press [OF prod.collapse [symmetric]] by blast
qed

end
