(* ===== verification/Snapshot_Delivery.thy ===== *)
theory Snapshot_Delivery
  imports Held_Keyboard Hid_Queue
begin

text \<open>
  \<^verbatim>\<open>components/keyboard/include/keyboard/keyboard_snapshot_delivery.h\<close> and
  \<^verbatim>\<open>src/keyboard_snapshot_delivery.cpp\<close>: the one pending keyboard state between
  the producer and a transport queue.
\<close>

unbundle bit_operations_syntax

section \<open>Definitions\<close>

record PendingKeyboardSnapshot =
  ps_snapshot :: HidKeyboardSnapshot
  ps_report_class :: HidReportClass
  ps_generation :: u32

definition no_pending :: PendingKeyboardSnapshot where
  "no_pending = \<lparr>ps_snapshot = empty_snapshot, ps_report_class = KeyboardPress, ps_generation = 0\<rparr>"

definition pending_valid :: "PendingKeyboardSnapshot \<Rightarrow> bool" where
  "pending_valid p \<longleftrightarrow> ps_generation p \<noteq> 0"

record KeyboardSnapshotDelivery =
  kd_desired :: HidKeyboardSnapshot
  kd_accepted :: HidKeyboardSnapshot
  kd_generation_counter :: u32
  kd_pending_generation :: u32

definition init_delivery :: KeyboardSnapshotDelivery where
  "init_delivery = \<lparr>kd_desired = empty_snapshot, kd_accepted = empty_snapshot,
     kd_generation_counter = 0, kd_pending_generation = 0\<rparr>"

definition contains_keycode :: "HidKeyboardSnapshot \<Rightarrow> u8 \<Rightarrow> bool" where
  "contains_keycode s k \<longleftrightarrow> k \<noteq> 0 \<and> k \<in> set (sn_keycodes s)"

definition removes_keyboard_usage :: "HidKeyboardSnapshot \<Rightarrow> HidKeyboardSnapshot \<Rightarrow> bool" where
  "removes_keyboard_usage accepted desired \<longleftrightarrow>
     (if (sn_modifier accepted AND NOT (sn_modifier desired)) \<noteq> 0 then True
      else if sn_apple_fn accepted \<and> \<not> sn_apple_fn desired then True
      else list_ex (\<lambda>k. k \<noteq> 0 \<and> \<not> contains_keycode desired k) (sn_keycodes accepted))"

definition delivery_pending :: "KeyboardSnapshotDelivery \<Rightarrow> bool" where
  "delivery_pending d \<longleftrightarrow> kd_pending_generation d \<noteq> 0"

definition advance_generation :: "KeyboardSnapshotDelivery \<Rightarrow> KeyboardSnapshotDelivery" where
  "advance_generation d =
     (let counter = (if kd_generation_counter d = - 1 then 1
                     else if kd_generation_counter d + 1 = 0 then 1
                     else kd_generation_counter d + 1)
      in d\<lparr>kd_generation_counter := counter, kd_pending_generation := counter\<rparr>)"

definition set_desired :: "KeyboardSnapshotDelivery \<Rightarrow> HidKeyboardSnapshot \<Rightarrow> KeyboardSnapshotDelivery" where
  "set_desired d snapshot =
     (if snapshot = kd_desired d then d
      else
        let d1 = d\<lparr>kd_desired := snapshot\<rparr> in
        if kd_desired d1 = kd_accepted d1 then d1\<lparr>kd_pending_generation := 0\<rparr>
        else advance_generation d1)"

definition classify_transition :: "HidKeyboardSnapshot \<Rightarrow> HidKeyboardSnapshot \<Rightarrow> HidReportClass" where
  "classify_transition accepted desired =
     (if snapshot_empty desired then KeyboardAllReleased
      else if removes_keyboard_usage accepted desired then KeyboardRelease else KeyboardPress)"

definition pending_snapshot :: "KeyboardSnapshotDelivery \<Rightarrow> PendingKeyboardSnapshot" where
  "pending_snapshot d =
     (if \<not> delivery_pending d then no_pending
      else \<lparr>ps_snapshot = kd_desired d, ps_report_class = classify_transition (kd_accepted d) (kd_desired d),
             ps_generation = kd_pending_generation d\<rparr>)"

definition mark_accepted :: "KeyboardSnapshotDelivery \<Rightarrow> u32 \<Rightarrow> bool \<times> KeyboardSnapshotDelivery" where
  "mark_accepted d generation =
     (if \<not> delivery_pending d \<or> generation = 0 \<or> generation \<noteq> kd_pending_generation d then (False, d)
      else (True, d\<lparr>kd_accepted := kd_desired d, kd_pending_generation := 0\<rparr>))"

definition delivery_reset :: "KeyboardSnapshotDelivery \<Rightarrow> HidKeyboardSnapshot \<Rightarrow> KeyboardSnapshotDelivery" where
  "delivery_reset d accepted =
     d\<lparr>kd_desired := accepted, kd_accepted := accepted, kd_pending_generation := 0\<rparr>"

section \<open>Runs\<close>

datatype DeliveryOp = SetDesired HidKeyboardSnapshot | MarkAccepted u32 | DeliveryReset HidKeyboardSnapshot

fun delivery_step :: "KeyboardSnapshotDelivery \<Rightarrow> DeliveryOp \<Rightarrow> KeyboardSnapshotDelivery" where
  "delivery_step d (SetDesired s) = set_desired d s"
| "delivery_step d (MarkAccepted g) = snd (mark_accepted d g)"
| "delivery_step d (DeliveryReset s) = delivery_reset d s"

definition next_generation :: "u32 \<Rightarrow> u32" where
  "next_generation c = (if c = - 1 then 1 else if c + 1 = 0 then 1 else c + 1)"

interpretation delivery_counter: nonzero_counter next_generation
  by unfold_locales (auto simp: next_generation_def add_eq_0_iff2)

lemma advance_generation_alt:
  "advance_generation d = d\<lparr>kd_generation_counter := next_generation (kd_generation_counter d),
     kd_pending_generation := next_generation (kd_generation_counter d)\<rparr>"
  by (simp add: advance_generation_def next_generation_def Let_def)

text \<open>A snapshot is pending exactly while the desired state differs from the accepted one.\<close>

definition delivery_inv :: "KeyboardSnapshotDelivery \<Rightarrow> bool" where
  "delivery_inv d \<longleftrightarrow> (delivery_pending d \<longleftrightarrow> kd_desired d \<noteq> kd_accepted d) \<and>
     (delivery_pending d \<longrightarrow> kd_pending_generation d = kd_generation_counter d)"

interpretation delivery_run: event_machine delivery_step init_delivery delivery_inv
proof unfold_locales
  show "delivery_inv init_delivery"
    by (simp add: delivery_inv_def init_delivery_def delivery_pending_def)
  show "delivery_inv (delivery_step d op)" if "delivery_inv d" for d op
    using that delivery_counter.next_nonzero [of "kd_generation_counter d"]
    by (cases op)
      (auto simp: delivery_inv_def delivery_pending_def set_desired_def advance_generation_alt mark_accepted_def
        delivery_reset_def Let_def)
qed

text \<open>The keyboard usages a snapshot holds down.\<close>

datatype Usage = ModifierUsage nat | FnUsage | KeyUsage u8

definition usages :: "HidKeyboardSnapshot \<Rightarrow> Usage set" where
  "usages s = ModifierUsage ` {n. bit (sn_modifier s) n} \<union> (if sn_apple_fn s then {FnUsage} else {}) \<union>
     KeyUsage ` {k \<in> set (sn_keycodes s). k \<noteq> 0}"

lemma and_not_zero: "(a :: u8) AND NOT b = 0 \<longleftrightarrow> (\<forall>n. bit a n \<longrightarrow> bit b n)"
proof -
  have "(a :: u8) AND NOT b = 0 \<longleftrightarrow> (\<forall>n. \<not> bit (a AND NOT b) n)" by (rule modifier_zero)
  also have "\<dots> \<longleftrightarrow> (\<forall>n. bit a n \<longrightarrow> bit b n)"
    using bit_word_beyond [of _ a] by (auto simp: bit_and_iff bit_not_iff not_less intro: bit_imp_le_length)
  finally show ?thesis .
qed

lemma removes_usages: "removes_keyboard_usage a d \<longleftrightarrow> \<not> usages a \<subseteq> usages d"
proof -
  have "usages a \<subseteq> usages d \<longleftrightarrow> (\<forall>n. bit (sn_modifier a) n \<longrightarrow> bit (sn_modifier d) n) \<and>
      (sn_apple_fn a \<longrightarrow> sn_apple_fn d) \<and> (\<forall>k \<in> set (sn_keycodes a). k \<noteq> 0 \<longrightarrow> k \<in> set (sn_keycodes d))"
    unfolding usages_def by auto
  then show ?thesis
    by (auto simp: removes_keyboard_usage_def and_not_zero list_ex_iff contains_keycode_def)
qed

lemma empty_usages: "snapshot_empty s \<longleftrightarrow> usages s = {}"
  unfolding snapshot_empty_def usages_def modifier_zero by (auto simp: list_all_iff)

text \<open>
  After any sequence of calls a snapshot is offered exactly while the desired
  state differs from the last accepted one; the offer is always the newest desired
  state, and its class is right for the queue: all-released when nothing is held,
  release when some held usage goes away, and press only when every accepted usage
  stays.
\<close>
lemma offers_latest_with_class:
  fixes ops
  defines "d \<equiv> run delivery_step init_delivery ops"
  shows "(pending_valid (pending_snapshot d) \<longleftrightarrow> kd_desired d \<noteq> kd_accepted d)
    \<and> (pending_valid (pending_snapshot d) \<longrightarrow>
        ps_snapshot (pending_snapshot d) = kd_desired d \<and>
        ps_report_class (pending_snapshot d) =
          (if usages (kd_desired d) = {} then KeyboardAllReleased
           else if usages (kd_accepted d) \<subseteq> usages (kd_desired d) then KeyboardPress else KeyboardRelease))"
  using delivery_run.inv_reachable [of ops] unfolding d_def [symmetric]
  by (auto simp: delivery_inv_def pending_snapshot_def pending_valid_def no_pending_def delivery_pending_def
      classify_transition_def empty_usages removes_usages)

lemma offers_latest_with_class_witness:
  "ps_report_class (pending_snapshot (run delivery_step init_delivery [SetDesired (key_snapshot 2 False [4])])) = KeyboardPress"
proof -
  have "kd_desired (run delivery_step init_delivery [SetDesired (key_snapshot 2 False [4])]) = key_snapshot 2 False [4]"
    "kd_accepted (run delivery_step init_delivery [SetDesired (key_snapshot 2 False [4])]) = empty_snapshot"
    "key_snapshot 2 False [4] \<noteq> empty_snapshot" "snapshot_empty empty_snapshot" "\<not> snapshot_empty (key_snapshot 2 False [4])"
    by code_simp+
  then show ?thesis
    using offers_latest_with_class [of "[SetDesired (key_snapshot 2 False [4])]"] by (simp add: empty_usages)
qed

section \<open>A late acceptance\<close>

text \<open>How often the generation counter moved during a run.\<close>

fun advances :: "KeyboardSnapshotDelivery \<Rightarrow> DeliveryOp list \<Rightarrow> nat" where
  "advances d [] = 0"
| "advances d (op # ops) =
     (if kd_generation_counter (delivery_step d op) = kd_generation_counter d then 0 else 1)
       + advances (delivery_step d op) ops"

lemma advances_le: "advances d ops \<le> length ops"
  by (induction ops arbitrary: d) (auto intro: le_SucI order_trans)

lemma delivery_step_counter:
  "kd_generation_counter (delivery_step d op) \<noteq> kd_generation_counter d \<Longrightarrow>
     kd_generation_counter (delivery_step d op) = next_generation (kd_generation_counter d)"
  by (cases op) (auto simp: set_desired_def advance_generation_alt mark_accepted_def delivery_reset_def Let_def split: if_splits)

lemma counter_run:
  "kd_generation_counter (run delivery_step d ops) = (next_generation ^^ advances d ops) (kd_generation_counter d)"
proof (induction ops arbitrary: d)
  case (Cons op ops)
  show ?case
    using Cons.IH [of "delivery_step d op"] delivery_step_counter [of d op]
    by (auto simp: funpow_swap1)
qed simp

lemma next_generation_moves: "next_generation c \<noteq> c"
  by (auto simp: next_generation_def)

text \<open>While the counter stands still the pending offer can only disappear.\<close>

lemma still_step:
  assumes "kd_generation_counter (delivery_step d op) = kd_generation_counter d"
    and "delivery_pending (delivery_step d op)"
  shows "kd_desired (delivery_step d op) = kd_desired d \<and> delivery_pending d"
  using assms next_generation_moves [of "kd_generation_counter d"]
  by (cases op)
    (auto simp: set_desired_def advance_generation_alt mark_accepted_def delivery_reset_def delivery_pending_def Let_def split: if_splits)

lemma still_run:
  "advances d ops = 0 \<Longrightarrow> delivery_pending (run delivery_step d ops) \<Longrightarrow>
     kd_desired (run delivery_step d ops) = kd_desired d \<and> delivery_pending d"
proof (induction ops arbitrary: d)
  case (Cons op ops)
  then have "kd_generation_counter (delivery_step d op) = kd_generation_counter d"
    and "advances (delivery_step d op) ops = 0" by (auto split: if_splits)
  with Cons still_step [of d op] show ?case by auto
qed simp

text \<open>
  An acceptance never confirms a state the transport was not offered: if a
  generation read from a pending snapshot is accepted after further calls (fewer
  than the \<open>2 ^ 32 - 1\<close> that wrap the generation counter), then the accepted state
  is the offered one.
\<close>
lemma acceptance_confirms_the_offer:
  fixes before
  defines "d \<equiv> run delivery_step init_delivery before"
  assumes "pending_valid (pending_snapshot d)" and "length after < 2 ^ 32 - 1"
    and "mark_accepted (run delivery_step d after) (ps_generation (pending_snapshot d)) = (True, d')"
  shows "kd_accepted d' = ps_snapshot (pending_snapshot d)"
proof -
  let ?e = "run delivery_step d after"
  have inv: "delivery_inv d" unfolding d_def by (rule delivery_run.inv_reachable)
  have inv': "delivery_inv ?e" by (rule delivery_run.inv_run [OF inv])
  have pend: "delivery_pending d" "ps_generation (pending_snapshot d) = kd_generation_counter d"
    "ps_snapshot (pending_snapshot d) = kd_desired d"
    using assms(2) inv
    by (auto simp: pending_valid_def pending_snapshot_def no_pending_def delivery_inv_def split: if_splits)
  have acc: "delivery_pending ?e" "kd_generation_counter d = kd_generation_counter ?e" "kd_accepted d' = kd_desired ?e"
    using assms(4) pend inv' by (auto simp: mark_accepted_def delivery_inv_def split: if_splits)
  have nz: "kd_generation_counter d \<noteq> 0" using pend inv by (auto simp: delivery_inv_def delivery_pending_def)
  have "advances d after = 0"
  proof (rule ccontr)
    assume "advances d after \<noteq> 0"
    then have pos: "0 < advances d after" by simp
    have "advances d after < 0 + (2 ^ 32 - 1)" using assms(3) advances_le [of d after] by linarith
    from delivery_counter.iterate_distinct_from [OF nz pos this]
    have "(next_generation ^^ 0) (kd_generation_counter d) \<noteq> (next_generation ^^ advances d after) (kd_generation_counter d)" .
    then show False unfolding counter_run [of d after, symmetric] acc(2) [symmetric] by simp
  qed
  then show ?thesis using still_run [of d after] acc pend by simp
qed

lemma acceptance_confirms_the_offer_witness:
  "kd_accepted (snd (mark_accepted (run delivery_step init_delivery [SetDesired (key_snapshot 2 False [4])]) 1))
     = key_snapshot 2 False [4]"
proof -
  define d where "d = run delivery_step init_delivery [SetDesired (key_snapshot 2 False [4])]"
  have facts: "pending_valid (pending_snapshot d)" "fst (mark_accepted d 1)"
    "ps_generation (pending_snapshot d) = 1" "ps_snapshot (pending_snapshot d) = key_snapshot 2 False [4]"
    unfolding d_def by code_simp+
  have "mark_accepted (run delivery_step d []) 1 = (True, snd (mark_accepted d 1))"
    using facts(2) by (cases "mark_accepted d 1") simp
  then show ?thesis
    using acceptance_confirms_the_offer [of "[SetDesired (key_snapshot 2 False [4])]" "[]", folded d_def] facts
    by (simp add: d_def [symmetric] del: run_Cons)
qed

end
