(* ===== verification/Ble_Scheduler.thy ===== *)
theory Ble_Scheduler
  imports Wheel_Queue_Facts
begin

text \<open>
  \<^verbatim>\<open>components/keyboard/include/keyboard/ble_input_scheduler.h\<close> and
  \<^verbatim>\<open>src/ble_input_scheduler.cpp\<close>: the scheduler that takes one report per
  connection interval from the two queues and offers it to a transmit callback.
  The callback is a parameter: any function from the offered report to a result.
  Times are 64-bit microseconds.
\<close>

unbundle bit_operations_syntax

section \<open>Types\<close>

datatype BleInputTxResult = TxAccepted | TxDroppedUnsupported | TxRetryableNoBuffer | TxRetryableBusy
  | TxDisconnected | TxFatal

datatype BleInputPollResult = PollIdle | PollThrottled | PollAccepted | PollDroppedUnsupported
  | PollRetryable | PollDisconnected | PollFatal

datatype BleScheduledReportKind = ScheduledHid | ScheduledWheel

record BleScheduledReport =
  br_kind :: BleScheduledReportKind
  br_sequence :: u32
  br_report_id :: u8
  br_data :: bytes
  br_len :: nat
  br_report_class :: HidReportClass
  br_wheel_vertical :: int
  br_wheel_horizontal :: int
  br_ble_owner :: BleOwnerToken

definition empty_scheduled :: BleScheduledReport where
  "empty_scheduled = \<lparr>br_kind = ScheduledHid, br_sequence = 0, br_report_id = 0,
     br_data = replicate kHidReportMaxPayload 0, br_len = 0, br_report_class = AppCommand,
     br_wheel_vertical = 0, br_wheel_horizontal = 0, br_ble_owner = no_owner\<rparr>"

record BleInputSchedulerConfig =
  sc_fallback_period_us :: u64
  sc_minimum_period_us :: u64
  sc_maximum_period_us :: u64
  sc_maximum_retry_backoff_us :: u64
  sc_maximum_retry_shift :: u8
  sc_maximum_consecutive_hid :: u8
  sc_wheel_chunk_limit :: int

definition default_scheduler_config :: BleInputSchedulerConfig where
  "default_scheduler_config = \<lparr>sc_fallback_period_us = 30000, sc_minimum_period_us = 7500,
     sc_maximum_period_us = 200000, sc_maximum_retry_backoff_us = 200000, sc_maximum_retry_shift = 2,
     sc_maximum_consecutive_hid = 3, sc_wheel_chunk_limit = 127\<rparr>"

record BleInputSchedulerDiagnostics =
  dg_poll_attempts :: u32
  dg_accepted :: u32
  dg_dropped_unsupported :: u32
  dg_hid_dropped_unsupported :: u32
  dg_wheel_dropped_unsupported :: u32
  dg_retryable_no_buffer :: u32
  dg_retryable_busy :: u32
  dg_disconnected :: u32
  dg_fatal :: u32
  dg_hid_accepted :: u32
  dg_wheel_accepted :: u32
  dg_retry_streak_peak :: u32
  dg_hid_queue_high_watermark :: nat
  dg_wheel_queue_high_watermark :: nat

definition no_diagnostics :: BleInputSchedulerDiagnostics where
  "no_diagnostics = \<lparr>dg_poll_attempts = 0, dg_accepted = 0, dg_dropped_unsupported = 0,
     dg_hid_dropped_unsupported = 0, dg_wheel_dropped_unsupported = 0, dg_retryable_no_buffer = 0,
     dg_retryable_busy = 0, dg_disconnected = 0, dg_fatal = 0, dg_hid_accepted = 0, dg_wheel_accepted = 0,
     dg_retry_streak_peak = 0, dg_hid_queue_high_watermark = 0, dg_wheel_queue_high_watermark = 0\<rparr>"

record BleInputScheduler =
  bs_config :: BleInputSchedulerConfig
  bs_diagnostics :: BleInputSchedulerDiagnostics
  bs_delivery_period_us :: u64
  bs_next_attempt_us :: u64
  bs_last_attempt_us :: u64
  bs_retry_streak :: u32
  bs_consecutive_hid :: u8
  bs_has_attempted :: bool
  bs_state_resync_required :: bool

section \<open>Operations\<close>

definition kBleConnectionIntervalUnitUs :: u64 where "kBleConnectionIntervalUnitUs = 1250"

definition saturating_add :: "u64 \<Rightarrow> u64 \<Rightarrow> u64" where
  "saturating_add lhs rhs = (if rhs > - 1 - lhs then - 1 else lhs + rhs)"

definition release_must_keep_order :: "HidReportClass \<Rightarrow> bool" where
  "release_must_keep_order c \<longleftrightarrow>
     c = KeyboardRelease \<or> c = KeyboardAllReleased \<or> c = AppCommandStatefulRelease"

definition clamp_u64 :: "u64 \<Rightarrow> u64 \<Rightarrow> u64 \<Rightarrow> u64" where
  "clamp_u64 v lo hi = (if v < lo then lo else if hi < v then hi else v)"

definition normalize_config :: "BleInputSchedulerConfig \<Rightarrow> BleInputSchedulerConfig" where
  "normalize_config c =
     (let minimum = (if sc_minimum_period_us c = 0 then 1 else sc_minimum_period_us c);
          maximum = (if sc_maximum_period_us c < minimum then minimum else sc_maximum_period_us c)
      in \<lparr>sc_fallback_period_us = clamp_u64 (sc_fallback_period_us c) minimum maximum,
          sc_minimum_period_us = minimum, sc_maximum_period_us = maximum,
          sc_maximum_retry_backoff_us =
            (if sc_maximum_retry_backoff_us c < minimum then minimum else sc_maximum_retry_backoff_us c),
          sc_maximum_retry_shift = min (sc_maximum_retry_shift c) 20,
          sc_maximum_consecutive_hid =
            (if sc_maximum_consecutive_hid c = 0 then 1 else sc_maximum_consecutive_hid c),
          sc_wheel_chunk_limit = clamp_int (sc_wheel_chunk_limit c) 1 127\<rparr>)"

definition make_scheduler :: "BleInputSchedulerConfig \<Rightarrow> BleInputScheduler" where
  "make_scheduler c =
     \<lparr>bs_config = normalize_config c, bs_diagnostics = no_diagnostics,
      bs_delivery_period_us = sc_fallback_period_us (normalize_config c), bs_next_attempt_us = 0,
      bs_last_attempt_us = 0, bs_retry_streak = 0, bs_consecutive_hid = 0, bs_has_attempted = False,
      bs_state_resync_required = False\<rparr>"

definition retry_shift :: "BleInputScheduler \<Rightarrow> nat" where
  "retry_shift s = (if bs_retry_streak s = 0 then 0
     else unat (min (bs_retry_streak s - 1) (ucast (sc_maximum_retry_shift (bs_config s)))))"

definition retry_delay_us :: "BleInputScheduler \<Rightarrow> u64" where
  "retry_delay_us s =
     (let shift = retry_shift s; maximum = sc_maximum_retry_backoff_us (bs_config s)
      in if bs_delivery_period_us s > drop_bit shift maximum then maximum
         else min (push_bit shift (bs_delivery_period_us s)) maximum)"

definition set_connection_interval :: "BleInputScheduler \<Rightarrow> u16 \<Rightarrow> bool \<Rightarrow> BleInputScheduler" where
  "set_connection_interval s interval_units valid =
     (let period_us =
        (if valid \<and> interval_units \<noteq> 0
         then clamp_u64 (ucast interval_units * kBleConnectionIntervalUnitUs)
                (sc_minimum_period_us (bs_config s)) (sc_maximum_period_us (bs_config s))
         else sc_fallback_period_us (bs_config s))
      in if period_us = bs_delivery_period_us s then s
         else
           let s1 = s\<lparr>bs_delivery_period_us := period_us\<rparr> in
           if bs_has_attempted s1
           then
             let rebased = saturating_add (bs_last_attempt_us s1)
                   (if bs_retry_streak s1 = 0 then bs_delivery_period_us s1 else retry_delay_us s1)
             in s1\<lparr>bs_next_attempt_us :=
                  (if bs_retry_streak s1 = 0 then rebased else max (bs_next_attempt_us s1) rebased)\<rparr>
           else s1)"

definition reset_delivery_clock :: "BleInputScheduler \<Rightarrow> BleInputScheduler" where
  "reset_delivery_clock s = s\<lparr>bs_next_attempt_us := 0, bs_last_attempt_us := 0, bs_retry_streak := 0,
     bs_consecutive_hid := 0, bs_has_attempted := False\<rparr>"

definition mark_disconnected :: "BleInputScheduler \<Rightarrow> BleInputScheduler" where
  "mark_disconnected s = reset_delivery_clock (s\<lparr>bs_state_resync_required := True\<rparr>)"

definition take_state_resync_required :: "BleInputScheduler \<Rightarrow> bool \<times> BleInputScheduler" where
  "take_state_resync_required s = (bs_state_resync_required s, s\<lparr>bs_state_resync_required := False\<rparr>)"

definition should_send_hid :: "BleInputScheduler \<Rightarrow> QueuedHidReport \<Rightarrow> bool \<Rightarrow> bool" where
  "should_send_hid s hid_report has_wheel_report =
     (if \<not> has_wheel_report then True
      else if release_must_keep_order (qr_report_class hid_report) then True
      else bs_consecutive_hid s < sc_maximum_consecutive_hid (bs_config s))"

definition scheduled_hid :: "QueuedHidReport \<Rightarrow> BleScheduledReport" where
  "scheduled_hid r = empty_scheduled\<lparr>br_kind := ScheduledHid, br_sequence := qr_sequence r,
     br_report_id := qr_report_id r, br_data := qr_data r, br_len := qr_len r,
     br_report_class := qr_report_class r, br_ble_owner := qr_ble_owner r\<rparr>"

definition scheduled_wheel :: "BleInputScheduler \<Rightarrow> QueuedMouseWheel \<Rightarrow> BleScheduledReport" where
  "scheduled_wheel s r =
     (let limit = sc_wheel_chunk_limit (bs_config s)
      in empty_scheduled\<lparr>br_kind := ScheduledWheel, br_sequence := mw_sequence r,
           br_wheel_vertical := clamp_int (mw_vertical r) (- limit) limit,
           br_wheel_horizontal := clamp_int (mw_horizontal r) (- limit) limit,
           br_ble_owner := mw_ble_owner r\<rparr>)"

definition set_next_attempt :: "BleInputScheduler \<Rightarrow> u64 \<Rightarrow> u64 \<Rightarrow> BleInputScheduler" where
  "set_next_attempt s now_us delay_us = s\<lparr>bs_next_attempt_us := saturating_add now_us delay_us\<rparr>"

definition on_diagnostics ::
  "(BleInputSchedulerDiagnostics \<Rightarrow> BleInputSchedulerDiagnostics) \<Rightarrow> BleInputScheduler \<Rightarrow> BleInputScheduler" where
  "on_diagnostics f s = s\<lparr>bs_diagnostics := f (bs_diagnostics s)\<rparr>"

definition note_retry :: "BleInputScheduler \<Rightarrow> BleInputScheduler" where
  "note_retry s =
     (let streak = (if bs_retry_streak s < - 1 then bs_retry_streak s + 1 else bs_retry_streak s)
      in on_diagnostics (\<lambda>d. d\<lparr>dg_retry_streak_peak := max (dg_retry_streak_peak d) streak\<rparr>)
           (s\<lparr>bs_retry_streak := streak\<rparr>))"

definition note_hid_sent :: "BleInputScheduler \<Rightarrow> BleInputScheduler" where
  "note_hid_sent s = s\<lparr>bs_consecutive_hid :=
     (if bs_consecutive_hid s < - 1 then bs_consecutive_hid s + 1 else bs_consecutive_hid s)\<rparr>"

section \<open>One poll\<close>

text \<open>What the scheduler works on: itself and the two queues it takes from.\<close>

record SchedulerWorld =
  sw_scheduler :: BleInputScheduler
  sw_hid :: HidReportQueue
  sw_wheel :: MouseWheelQueue

definition note_watermarks :: "SchedulerWorld \<Rightarrow> BleInputScheduler" where
  "note_watermarks w = on_diagnostics (\<lambda>d. d\<lparr>
     dg_hid_queue_high_watermark := max (dg_hid_queue_high_watermark d) (hq_size (sw_hid w)),
     dg_wheel_queue_high_watermark := max (dg_wheel_queue_high_watermark d) (wq_size (sw_wheel w))\<rparr>) (sw_scheduler w)"

text \<open>The switch over the callback's result.\<close>

definition finish_accepted :: "SchedulerWorld \<Rightarrow> u64 \<Rightarrow> BleScheduledReport \<Rightarrow> SchedulerWorld" where
  "finish_accepted w now_us scheduled =
     (let s = sw_scheduler w;
          w1 =
            (if br_kind scheduled = ScheduledHid then
               (let (popped, hid) = hid_pop_if_sequence (sw_hid w) (br_sequence scheduled) in
                if popped
                then w\<lparr>sw_hid := hid, sw_scheduler := note_hid_sent (on_diagnostics (\<lambda>d. d\<lparr>
                       dg_accepted := dg_accepted d + 1, dg_hid_accepted := dg_hid_accepted d + 1\<rparr>) s)\<rparr>
                else w)
             else
               (let (consumed, wheel) = wheel_consume_if_sequence (sw_wheel w) (br_sequence scheduled)
                      (br_wheel_vertical scheduled) (br_wheel_horizontal scheduled) in
                if consumed
                then w\<lparr>sw_wheel := wheel, sw_scheduler := (on_diagnostics (\<lambda>d. d\<lparr>
                       dg_accepted := dg_accepted d + 1, dg_wheel_accepted := dg_wheel_accepted d + 1\<rparr>) s)
                       \<lparr>bs_consecutive_hid := 0\<rparr>\<rparr>
                else w));
          s1 = (sw_scheduler w1)\<lparr>bs_retry_streak := 0\<rparr>
      in w1\<lparr>sw_scheduler := set_next_attempt s1 now_us (bs_delivery_period_us s1)\<rparr>)"

definition finish_dropped :: "SchedulerWorld \<Rightarrow> u64 \<Rightarrow> BleScheduledReport \<Rightarrow> SchedulerWorld" where
  "finish_dropped w now_us scheduled =
     (let s = sw_scheduler w;
          w1 =
            (if br_kind scheduled = ScheduledHid then
               (let (popped, hid) = hid_pop_if_sequence (sw_hid w) (br_sequence scheduled) in
                if popped
                then w\<lparr>sw_hid := hid, sw_scheduler := note_hid_sent (on_diagnostics (\<lambda>d. d\<lparr>
                       dg_dropped_unsupported := dg_dropped_unsupported d + 1,
                       dg_hid_dropped_unsupported := dg_hid_dropped_unsupported d + 1\<rparr>) s)\<rparr>
                else w)
             else
               (let (popped, wheel) = wheel_pop_if_sequence (sw_wheel w) (br_sequence scheduled) in
                if popped
                then w\<lparr>sw_wheel := wheel, sw_scheduler := (on_diagnostics (\<lambda>d. d\<lparr>
                       dg_dropped_unsupported := dg_dropped_unsupported d + 1,
                       dg_wheel_dropped_unsupported := dg_wheel_dropped_unsupported d + 1\<rparr>) s)
                       \<lparr>bs_consecutive_hid := 0\<rparr>\<rparr>
                else w));
          s1 = (sw_scheduler w1)\<lparr>bs_retry_streak := 0\<rparr>
      in w1\<lparr>sw_scheduler := set_next_attempt s1 now_us (bs_delivery_period_us s1)\<rparr>)"

definition finish_retry :: "SchedulerWorld \<Rightarrow> u64 \<Rightarrow> (BleInputScheduler \<Rightarrow> BleInputScheduler) \<Rightarrow> SchedulerWorld" where
  "finish_retry w now_us count =
     (let s = note_retry (count (sw_scheduler w))
      in w\<lparr>sw_scheduler := set_next_attempt s now_us (retry_delay_us s)\<rparr>)"

fun finish_poll ::
  "SchedulerWorld \<Rightarrow> u64 \<Rightarrow> BleScheduledReport \<Rightarrow> BleInputTxResult \<Rightarrow> BleInputPollResult \<times> SchedulerWorld" where
  "finish_poll w now_us scheduled TxAccepted = (PollAccepted, finish_accepted w now_us scheduled)"
| "finish_poll w now_us scheduled TxDroppedUnsupported = (PollDroppedUnsupported, finish_dropped w now_us scheduled)"
| "finish_poll w now_us scheduled TxRetryableNoBuffer =
     (PollRetryable, finish_retry w now_us (on_diagnostics (\<lambda>d. d\<lparr>dg_retryable_no_buffer := dg_retryable_no_buffer d + 1\<rparr>)))"
| "finish_poll w now_us scheduled TxRetryableBusy =
     (PollRetryable, finish_retry w now_us (on_diagnostics (\<lambda>d. d\<lparr>dg_retryable_busy := dg_retryable_busy d + 1\<rparr>)))"
| "finish_poll w now_us scheduled TxDisconnected =
     (PollDisconnected, finish_retry w now_us (\<lambda>s. (on_diagnostics (\<lambda>d. d\<lparr>dg_disconnected := dg_disconnected d + 1\<rparr>) s)
        \<lparr>bs_state_resync_required := True\<rparr>))"
| "finish_poll w now_us scheduled TxFatal =
     (PollFatal, finish_retry w now_us (on_diagnostics (\<lambda>d. d\<lparr>dg_fatal := dg_fatal d + 1\<rparr>)))"

text \<open>The report a poll hands to the callback, given the two fronts.\<close>

definition choose_report ::
  "BleInputScheduler \<Rightarrow> QueuedHidReport option \<Rightarrow> QueuedMouseWheel option \<Rightarrow> BleScheduledReport option" where
  "choose_report s hid wheel =
     (case hid of
        None \<Rightarrow> map_option (scheduled_wheel s) wheel
      | Some h \<Rightarrow> (if should_send_hid s h (wheel \<noteq> None) then Some (scheduled_hid h)
                   else map_option (scheduled_wheel s) wheel))"

definition scheduler_poll ::
  "SchedulerWorld \<Rightarrow> u64 \<Rightarrow> (BleScheduledReport \<Rightarrow> BleInputTxResult) \<Rightarrow>
   (BleInputPollResult \<times> BleScheduledReport option) \<times> SchedulerWorld" where
  "scheduler_poll w now_us callback =
     (let s = note_watermarks w; w1 = w\<lparr>sw_scheduler := s\<rparr> in
      case choose_report s (hid_front (sw_hid w)) (wheel_front (sw_wheel w)) of
        None \<Rightarrow> ((PollIdle, None), w1)
      | Some scheduled \<Rightarrow>
          (if bs_has_attempted s \<and> now_us < bs_next_attempt_us s then ((PollThrottled, None), w1)
           else
             let s2 = (on_diagnostics (\<lambda>d. d\<lparr>dg_poll_attempts := dg_poll_attempts d + 1\<rparr>) s)
                        \<lparr>bs_has_attempted := True, bs_last_attempt_us := now_us\<rparr>;
                 (result, w') = finish_poll (w\<lparr>sw_scheduler := s2\<rparr>) now_us scheduled (callback scheduled)
             in ((result, Some scheduled), w')))"

text \<open>The entry point with its null checks: a missing queue or callback is fatal.\<close>

definition scheduler_poll_checked ::
  "BleInputScheduler \<Rightarrow> u64 \<Rightarrow> HidReportQueue option \<Rightarrow> MouseWheelQueue option \<Rightarrow>
   (BleScheduledReport \<Rightarrow> BleInputTxResult) option \<Rightarrow> BleInputPollResult \<times> SchedulerWorld option" where
  "scheduler_poll_checked s now_us hid wheel callback =
     (case (hid, wheel, callback) of
        (Some h, Some w, Some f) \<Rightarrow>
          (let ((result, offered), w') = scheduler_poll \<lparr>sw_scheduler = s, sw_hid = h, sw_wheel = w\<rparr> now_us f
           in (result, Some w'))
      | _ \<Rightarrow> (PollFatal, None))"

end
