(* ===== verification/Ble_Scheduler_Facts.thy ===== *)
theory Ble_Scheduler_Facts
  imports Ble_Scheduler
begin

text \<open>
  What the BLE input scheduler promises: the retry delay is the doubled period
  under its cap, attempts are spaced, reports leave the queue in order and only
  when settled, and wheel movement is not starved by key traffic.
\<close>

unbundle bit_operations_syntax

section \<open>Saturating time arithmetic\<close>

lemma unat_max64: "unat (- 1 :: u64) = 2 ^ 64 - 1"
  by (simp add: unsigned_minus_1_eq_mask mask_eq_exp_minus_1)

lemma unat_u64_less: "unat (x :: u64) < 2 ^ 64"
  by (rule order.strict_trans2 [OF unsigned_less]) simp

lemma unat_saturating_add: "unat (saturating_add a b) = min (unat a + unat b) (2 ^ 64 - 1)"
proof -
  have "unat (- 1 - a) = 2 ^ 64 - 1 - unat a"
    by (subst unat_sub) (auto simp: unat_max64)
  moreover have "unat a \<le> 2 ^ 64 - 1" using unat_u64_less [of a] by simp
  ultimately have lt: "b > - 1 - a \<longleftrightarrow> unat a + unat b > 2 ^ 64 - 1"
    by (auto simp: word_less_nat_alt)
  show ?thesis
  proof (cases "b > - 1 - a")
    case True
    then have "unat a + unat b > 2 ^ 64 - 1" using lt by blast
    then show ?thesis using True by (simp add: saturating_add_def unat_max64)
  next
    case False
    then have "unat a + unat b \<le> 2 ^ 64 - 1" using lt by linarith
    moreover from this have "unat (a + b) = unat a + unat b" by (simp add: unat_word_ariths)
    ultimately show ?thesis using False by (simp add: saturating_add_def)
  qed
qed

lemma saturating_add_mono: "b \<le> c \<Longrightarrow> saturating_add a b \<le> saturating_add a c"
  by (simp add: word_le_nat_alt unat_saturating_add)

section \<open>The scheduler's invariant\<close>

definition config_ok :: "BleInputSchedulerConfig \<Rightarrow> bool" where
  "config_ok c \<longleftrightarrow> 0 < sc_minimum_period_us c \<and> sc_minimum_period_us c \<le> sc_maximum_period_us c \<and>
     sc_minimum_period_us c \<le> sc_fallback_period_us c \<and> sc_minimum_period_us c \<le> sc_maximum_retry_backoff_us c \<and>
     sc_maximum_retry_shift c \<le> 20 \<and> 0 < sc_maximum_consecutive_hid c \<and>
     1 \<le> sc_wheel_chunk_limit c \<and> sc_wheel_chunk_limit c \<le> 127"

lemma config_ok_normalize: "config_ok (normalize_config c)"
proof -
  define lo where "lo = (if sc_minimum_period_us c = 0 then 1 else sc_minimum_period_us c)"
  have lo: "0 < lo" by (simp add: lo_def word_gt_0)
  have clamp: "lo \<le> clamp_u64 v lo hi" if "lo \<le> hi" for v hi
    using that by (simp add: clamp_u64_def not_less)
  have raise: "lo \<le> (if v < lo then lo else v)" for v by (simp add: not_less)
  have hid: "0 < (if sc_maximum_consecutive_hid c = 0 then 1 else sc_maximum_consecutive_hid c)"
    by (simp add: word_gt_0)
  have chunk: "1 \<le> clamp_int v 1 127" "clamp_int v 1 127 \<le> 127" for v
    by (simp_all add: clamp_int_def)
  show ?thesis
    unfolding config_ok_def normalize_config_def Let_def lo_def [symmetric]
    using lo clamp [OF raise] raise hid chunk by simp
qed

definition scheduler_inv :: "BleInputScheduler \<Rightarrow> bool" where
  "scheduler_inv s \<longleftrightarrow> config_ok (bs_config s) \<and>
     sc_minimum_period_us (bs_config s) \<le> bs_delivery_period_us s \<and>
     (bs_has_attempted s \<longrightarrow>
        saturating_add (bs_last_attempt_us s) (sc_minimum_period_us (bs_config s)) \<le> bs_next_attempt_us s)"

lemma scheduler_inv_make: "scheduler_inv (make_scheduler c)"
  using config_ok_normalize [of c] by (simp add: scheduler_inv_def make_scheduler_def config_ok_def)

text \<open>The delay after a retry: the period doubled per failure, at most \<open>shift\<close> times, under the cap.\<close>

lemma unat_retry_delay:
  "unat (retry_delay_us s) =
     min (unat (bs_delivery_period_us s) * 2 ^ retry_shift s) (unat (sc_maximum_retry_backoff_us (bs_config s)))"
proof -
  let ?p = "bs_delivery_period_us s" and ?m = "sc_maximum_retry_backoff_us (bs_config s)" and ?k = "retry_shift s"
  have gt: "?p > drop_bit ?k ?m \<longleftrightarrow> unat ?p * 2 ^ ?k > unat ?m"
  proof -
    have "?p > drop_bit ?k ?m \<longleftrightarrow> unat ?m div 2 ^ ?k < unat ?p"
      by (simp only: word_less_nat_alt unat_drop_bit_eq) (simp add: drop_bit_eq_div)
    then show ?thesis by (simp add: div_less_iff_less_mult)
  qed
  show ?thesis
  proof (cases "?p > drop_bit ?k ?m")
    case True
    then show ?thesis using gt by (simp add: retry_delay_us_def Let_def)
  next
    case False
    then have le: "unat ?p * 2 ^ ?k \<le> unat ?m" using gt by simp
    then have "unat ?p * 2 ^ ?k < 2 ^ 64" using unat_u64_less [of ?m] by (rule le_less_trans)
    then have "unat (push_bit ?k ?p) = unat ?p * 2 ^ ?k"
      by (simp only: unsigned_push_bit_eq) (simp add: push_bit_eq_mult take_bit_nat_eq_self)
    then show ?thesis using False le by (simp add: retry_delay_us_def Let_def min_def word_le_nat_alt)
  qed
qed

lemma retry_delay_min:
  assumes "scheduler_inv s"
  shows "sc_minimum_period_us (bs_config s) \<le> retry_delay_us s"
proof -
  have "unat (sc_minimum_period_us (bs_config s)) \<le> unat (bs_delivery_period_us s) * 2 ^ retry_shift s"
    using assms by (auto simp: scheduler_inv_def word_le_nat_alt intro: order_trans)
  then show ?thesis
    using assms by (simp add: word_le_nat_alt unat_retry_delay scheduler_inv_def config_ok_def)
qed

lemma scheduler_inv_next:
  assumes "config_ok (bs_config s)" "sc_minimum_period_us (bs_config s) \<le> bs_delivery_period_us s"
    and "bs_last_attempt_us s = now_us" and "sc_minimum_period_us (bs_config s) \<le> delay"
  shows "scheduler_inv (set_next_attempt s now_us delay)"
  using assms saturating_add_mono by (simp add: scheduler_inv_def set_next_attempt_def)

lemma scheduler_inv_interval:
  assumes inv: "scheduler_inv s"
  shows "scheduler_inv (set_connection_interval s units valid)"
proof -
  define p where "p = (if valid \<and> units \<noteq> 0
      then clamp_u64 (ucast units * kBleConnectionIntervalUnitUs) (sc_minimum_period_us (bs_config s)) (sc_maximum_period_us (bs_config s))
      else sc_fallback_period_us (bs_config s))"
  define s1 where "s1 = s\<lparr>bs_delivery_period_us := p\<rparr>"
  have p: "sc_minimum_period_us (bs_config s) \<le> p"
    using inv by (auto simp: p_def scheduler_inv_def config_ok_def clamp_u64_def not_less)
  have base: "scheduler_inv s1" using inv p by (simp add: scheduler_inv_def s1_def)
  have alt: "set_connection_interval s units valid =
    (if p = bs_delivery_period_us s then s
     else if bs_has_attempted s1 then
       s1\<lparr>bs_next_attempt_us :=
         (if bs_retry_streak s1 = 0 then saturating_add (bs_last_attempt_us s1) (bs_delivery_period_us s1)
          else max (bs_next_attempt_us s1) (saturating_add (bs_last_attempt_us s1) (retry_delay_us s1)))\<rparr>
     else s1)"
    unfolding set_connection_interval_def Let_def p_def [symmetric] s1_def [symmetric] by simp
  show ?thesis
    using inv base p saturating_add_mono [of "sc_minimum_period_us (bs_config s1)" "bs_delivery_period_us s1"]
    by (auto simp: alt scheduler_inv_def le_max_iff_disj s1_def)
qed

lemma scheduler_inv_reset: "scheduler_inv s \<Longrightarrow> scheduler_inv (reset_delivery_clock s)"
  by (simp add: scheduler_inv_def reset_delivery_clock_def)

definition world_inv :: "SchedulerWorld \<Rightarrow> bool" where
  "world_inv w \<longleftrightarrow> scheduler_inv (sw_scheduler w) \<and> hid_inv (sw_hid w) \<and> wheel_inv (sw_wheel w)"

text \<open>The invariant without the deadline, which the end of an attempt restores.\<close>

definition base_inv :: "BleInputScheduler \<Rightarrow> bool" where
  "base_inv s \<longleftrightarrow> config_ok (bs_config s) \<and> sc_minimum_period_us (bs_config s) \<le> bs_delivery_period_us s"

definition stamped_inv :: "SchedulerWorld \<Rightarrow> bool" where
  "stamped_inv w \<longleftrightarrow> base_inv (sw_scheduler w) \<and> hid_inv (sw_hid w) \<and> wheel_inv (sw_wheel w)"

section \<open>What a poll does\<close>

lemma on_diagnostics_simps [simp]:
  "bs_config (on_diagnostics f s) = bs_config s" "bs_delivery_period_us (on_diagnostics f s) = bs_delivery_period_us s"
  "bs_next_attempt_us (on_diagnostics f s) = bs_next_attempt_us s" "bs_last_attempt_us (on_diagnostics f s) = bs_last_attempt_us s"
  "bs_retry_streak (on_diagnostics f s) = bs_retry_streak s" "bs_consecutive_hid (on_diagnostics f s) = bs_consecutive_hid s"
  "bs_has_attempted (on_diagnostics f s) = bs_has_attempted s"
  "bs_state_resync_required (on_diagnostics f s) = bs_state_resync_required s"
  by (simp_all add: on_diagnostics_def)

lemma note_watermarks_simps [simp]:
  "bs_config (note_watermarks w) = bs_config (sw_scheduler w)"
  "bs_delivery_period_us (note_watermarks w) = bs_delivery_period_us (sw_scheduler w)"
  "bs_next_attempt_us (note_watermarks w) = bs_next_attempt_us (sw_scheduler w)"
  "bs_last_attempt_us (note_watermarks w) = bs_last_attempt_us (sw_scheduler w)"
  "bs_consecutive_hid (note_watermarks w) = bs_consecutive_hid (sw_scheduler w)"
  "bs_has_attempted (note_watermarks w) = bs_has_attempted (sw_scheduler w)"
  by (simp_all add: note_watermarks_def)

definition scheduler_kept :: "BleInputScheduler \<Rightarrow> BleInputScheduler \<Rightarrow> bool" where
  "scheduler_kept s s' \<longleftrightarrow> bs_config s' = bs_config s \<and> bs_delivery_period_us s' = bs_delivery_period_us s \<and>
     bs_last_attempt_us s' = bs_last_attempt_us s"

lemma note_retry_kept: "scheduler_kept s (note_retry s)" and note_retry_consecutive: "bs_consecutive_hid (note_retry s) = bs_consecutive_hid s"
  and note_retry_attempted: "bs_has_attempted (note_retry s) = bs_has_attempted s"
  by (simp_all add: note_retry_def scheduler_kept_def Let_def on_diagnostics_def)

text \<open>The three ways an attempt ends, on the queues and on the turn counter.\<close>

definition settled :: "BleInputTxResult \<Rightarrow> bool" where
  "settled r \<longleftrightarrow> r = TxAccepted \<or> r = TxDroppedUnsupported"

definition next_turns :: "u8 \<Rightarrow> u8" where
  "next_turns n = (if n < - 1 then n + 1 else n)"

lemma note_hid_sent_simps [simp]:
  "bs_config (note_hid_sent s) = bs_config s" "bs_delivery_period_us (note_hid_sent s) = bs_delivery_period_us s"
  "bs_last_attempt_us (note_hid_sent s) = bs_last_attempt_us s" "bs_has_attempted (note_hid_sent s) = bs_has_attempted s"
  "bs_consecutive_hid (note_hid_sent s) = next_turns (bs_consecutive_hid s)"
  by (simp_all add: note_hid_sent_def next_turns_def)

lemma set_next_attempt_simps [simp]:
  "bs_config (set_next_attempt s t d) = bs_config s" "bs_consecutive_hid (set_next_attempt s t d) = bs_consecutive_hid s"
  "bs_last_attempt_us (set_next_attempt s t d) = bs_last_attempt_us s" "bs_has_attempted (set_next_attempt s t d) = bs_has_attempted s"
  by (simp_all add: set_next_attempt_def)

lemma finish_retry_effect:
  assumes "scheduler_kept (sw_scheduler w) (count (sw_scheduler w))"
    and "bs_consecutive_hid (count (sw_scheduler w)) = bs_consecutive_hid (sw_scheduler w)"
    and "bs_has_attempted (count (sw_scheduler w)) = bs_has_attempted (sw_scheduler w)"
    and "base_inv (sw_scheduler w)" and "bs_last_attempt_us (sw_scheduler w) = now_us"
  shows "sw_hid (finish_retry w now_us count) = sw_hid w" "sw_wheel (finish_retry w now_us count) = sw_wheel w"
    "bs_consecutive_hid (sw_scheduler (finish_retry w now_us count)) = bs_consecutive_hid (sw_scheduler w)"
    "bs_config (sw_scheduler (finish_retry w now_us count)) = bs_config (sw_scheduler w)"
    "bs_last_attempt_us (sw_scheduler (finish_retry w now_us count)) = now_us"
    "bs_has_attempted (sw_scheduler (finish_retry w now_us count)) = bs_has_attempted (sw_scheduler w)"
    "scheduler_inv (sw_scheduler (finish_retry w now_us count))"
proof -
  let ?s = "note_retry (count (sw_scheduler w))"
  have kept: "bs_config ?s = bs_config (sw_scheduler w)" "bs_delivery_period_us ?s = bs_delivery_period_us (sw_scheduler w)"
    "bs_last_attempt_us ?s = now_us"
    using note_retry_kept [of "count (sw_scheduler w)"] assms(1,5) by (simp_all add: scheduler_kept_def)
  have min: "sc_minimum_period_us (bs_config ?s) \<le> retry_delay_us ?s"
  proof -
    have "unat (sc_minimum_period_us (bs_config ?s)) \<le> unat (bs_delivery_period_us ?s) * 2 ^ retry_shift ?s"
      using assms(4) kept by (auto simp: base_inv_def word_le_nat_alt intro: order_trans)
    then show ?thesis
      using assms(4) kept by (simp add: word_le_nat_alt unat_retry_delay base_inv_def config_ok_def)
  qed
  show "sw_hid (finish_retry w now_us count) = sw_hid w" "sw_wheel (finish_retry w now_us count) = sw_wheel w"
    "bs_consecutive_hid (sw_scheduler (finish_retry w now_us count)) = bs_consecutive_hid (sw_scheduler w)"
    "bs_config (sw_scheduler (finish_retry w now_us count)) = bs_config (sw_scheduler w)"
    "bs_last_attempt_us (sw_scheduler (finish_retry w now_us count)) = now_us"
    "bs_has_attempted (sw_scheduler (finish_retry w now_us count)) = bs_has_attempted (sw_scheduler w)"
    using assms(2,3) kept note_retry_consecutive note_retry_attempted by (simp_all add: finish_retry_def Let_def)
  show "scheduler_inv (sw_scheduler (finish_retry w now_us count))"
    using scheduler_inv_next [of ?s now_us "retry_delay_us ?s"] assms(4) kept min
    by (simp add: finish_retry_def Let_def base_inv_def)
qed

text \<open>Settling the front: the report leaves its queue; the scheduler goes on one period later.\<close>

definition front_offer :: "SchedulerWorld \<Rightarrow> BleScheduledReport \<Rightarrow> bool" where
  "front_offer w r \<longleftrightarrow>
     (br_kind r = ScheduledHid \<and> hid_items (sw_hid w) \<noteq> [] \<and> r = scheduled_hid (hd (hid_items (sw_hid w)))) \<or>
     (br_kind r = ScheduledWheel \<and> wheel_items (sw_wheel w) \<noteq> [] \<and>
        r = scheduled_wheel (sw_scheduler w) (hd (wheel_items (sw_wheel w))))"

lemma scheduled_kinds [simp]:
  "br_kind (scheduled_hid h) = ScheduledHid" "br_kind (scheduled_wheel s m) = ScheduledWheel"
  "br_sequence (scheduled_hid h) = qr_sequence h" "br_sequence (scheduled_wheel s m) = mw_sequence m"
  "br_report_class (scheduled_hid h) = qr_report_class h"
  by (simp_all add: scheduled_hid_def scheduled_wheel_def Let_def)

lemma clamp_valid_consumption: "1 \<le> l \<Longrightarrow> valid_consumption v (clamp_int v (- l) l)"
  by (auto simp: valid_consumption_def clamp_int_def)

lemma consume_offer:
  assumes "wheel_inv q" and "wheel_items q = m # ms" and "config_ok (bs_config s)"
    and "r = scheduled_wheel s m"
  shows "fst (wheel_consume_if_sequence q (br_sequence r) (br_wheel_vertical r) (br_wheel_horizontal r))"
  using wheel_consume_alt(2) [OF assms(1) prod.collapse [symmetric], of "br_sequence r" "br_wheel_vertical r" "br_wheel_horizontal r"]
    assms(2-4) clamp_valid_consumption
  by (simp add: scheduled_wheel_def Let_def config_ok_def)

text \<open>The state after a settled attempt, summed up.\<close>

definition settled_world :: "SchedulerWorld \<Rightarrow> u64 \<Rightarrow> BleScheduledReport \<Rightarrow> SchedulerWorld \<Rightarrow> bool" where
  "settled_world w now_us r w' \<longleftrightarrow> world_inv w' \<and>
     bs_config (sw_scheduler w') = bs_config (sw_scheduler w) \<and>
     bs_last_attempt_us (sw_scheduler w') = now_us \<and>
     bs_has_attempted (sw_scheduler w') = bs_has_attempted (sw_scheduler w) \<and>
     (if br_kind r = ScheduledHid
      then hid_items (sw_hid w') = tl (hid_items (sw_hid w)) \<and> sw_wheel w' = sw_wheel w \<and>
           bs_consecutive_hid (sw_scheduler w') = next_turns (bs_consecutive_hid (sw_scheduler w))
      else sw_hid w' = sw_hid w \<and> bs_consecutive_hid (sw_scheduler w') = 0)"

lemma after_settling_inv:
  assumes "base_inv s" and "bs_config s' = bs_config s" and "bs_delivery_period_us s' = bs_delivery_period_us s"
    and "bs_last_attempt_us s' = now_us" and "delay = bs_delivery_period_us s"
  shows "scheduler_inv (set_next_attempt s' now_us delay)"
  using assms by (intro scheduler_inv_next) (auto simp: base_inv_def)

lemma finish_hid:
  assumes inv: "stamped_inv w" and items: "hid_items (sw_hid w) \<noteq> []" and last: "bs_last_attempt_us (sw_scheduler w) = now_us"
    and r: "br_kind r = ScheduledHid" "br_sequence r = qr_sequence (hd (hid_items (sw_hid w)))"
  shows "settled_world w now_us r (finish_accepted w now_us r)" "settled_world w now_us r (finish_dropped w now_us r)"
proof -
  let ?q = "sw_hid w"
  have q: "hid_inv ?q" using inv by (simp add: stamped_inv_def)
  have pop: "hid_pop_if_sequence ?q (br_sequence r) = (True, hid_drop ?q)"
    using items r by (simp add: hid_pop_alt [OF q])
  have drop: "hid_inv (hid_drop ?q)" "hid_items (hid_drop ?q) = tl (hid_items ?q)"
    using hid_inv_drop [OF q] hid_items_drop [OF q] items hid_items_nonempty [of ?q] by auto
  have s: "base_inv (sw_scheduler w)" "wheel_inv (sw_wheel w)" using inv by (simp_all add: stamped_inv_def)
  show "settled_world w now_us r (finish_accepted w now_us r)"
    using drop s r(1) last
    by (simp add: finish_accepted_def pop settled_world_def world_inv_def Let_def after_settling_inv [OF s(1)])
  show "settled_world w now_us r (finish_dropped w now_us r)"
    using drop s r(1) last
    by (simp add: finish_dropped_def pop settled_world_def world_inv_def Let_def after_settling_inv [OF s(1)])
qed

lemma finish_wheel:
  assumes inv: "stamped_inv w" and items: "wheel_items (sw_wheel w) = m # ms" and last: "bs_last_attempt_us (sw_scheduler w) = now_us"
    and r: "r = scheduled_wheel s m" and c: "config_ok (bs_config s)"
  shows "settled_world w now_us r (finish_accepted w now_us r)" "settled_world w now_us r (finish_dropped w now_us r)"
    and "sw_wheel (finish_accepted w now_us r)
      = snd (wheel_consume_if_sequence (sw_wheel w) (br_sequence r) (br_wheel_vertical r) (br_wheel_horizontal r))"
    and "wheel_items (sw_wheel (finish_dropped w now_us r)) = ms"
proof -
  let ?q = "sw_wheel w"
  have q: "wheel_inv ?q" and s: "base_inv (sw_scheduler w)" "hid_inv (sw_hid w)"
    using inv by (simp_all add: stamped_inv_def)
  obtain q' where consume: "wheel_consume_if_sequence ?q (br_sequence r) (br_wheel_vertical r) (br_wheel_horizontal r) = (True, q')"
    using consume_offer [OF q items c r] by (metis prod.collapse)
  have q': "wheel_inv q'" by (rule wheel_consume_alt(1) [OF q consume])
  have pop: "wheel_pop_if_sequence ?q (br_sequence r) = (True, wheel_drop ?q)"
    using items r by (simp add: wheel_pop_alt [OF q])
  have drop: "wheel_inv (wheel_drop ?q)" "wheel_items (wheel_drop ?q) = ms"
    using wheel_inv_drop [OF q] wheel_items_drop [OF q] items wheel_items_nonempty [of ?q] by auto
  show "settled_world w now_us r (finish_accepted w now_us r)"
    "sw_wheel (finish_accepted w now_us r)
      = snd (wheel_consume_if_sequence (sw_wheel w) (br_sequence r) (br_wheel_vertical r) (br_wheel_horizontal r))"
    using q' s r last consume
    by (simp_all add: finish_accepted_def settled_world_def world_inv_def Let_def after_settling_inv [OF s(1)])
  show "settled_world w now_us r (finish_dropped w now_us r)" "wheel_items (sw_wheel (finish_dropped w now_us r)) = ms"
    using drop s r last pop
    by (simp_all add: finish_dropped_def settled_world_def world_inv_def Let_def after_settling_inv [OF s(1)])
qed

text \<open>The state in which the callback is called: the attempt is counted and stamped.\<close>

definition attempt_world :: "SchedulerWorld \<Rightarrow> u64 \<Rightarrow> SchedulerWorld" where
  "attempt_world w now_us = w\<lparr>sw_scheduler :=
     (on_diagnostics (\<lambda>d. d\<lparr>dg_poll_attempts := dg_poll_attempts d + 1\<rparr>) (note_watermarks w))
       \<lparr>bs_has_attempted := True, bs_last_attempt_us := now_us\<rparr>\<rparr>"

lemma attempt_world_simps [simp]:
  "sw_hid (attempt_world w t) = sw_hid w" "sw_wheel (attempt_world w t) = sw_wheel w"
  "bs_config (sw_scheduler (attempt_world w t)) = bs_config (sw_scheduler w)"
  "bs_delivery_period_us (sw_scheduler (attempt_world w t)) = bs_delivery_period_us (sw_scheduler w)"
  "bs_consecutive_hid (sw_scheduler (attempt_world w t)) = bs_consecutive_hid (sw_scheduler w)"
  "bs_last_attempt_us (sw_scheduler (attempt_world w t)) = t"
  "bs_has_attempted (sw_scheduler (attempt_world w t))"
  by (simp_all add: attempt_world_def)

lemma scheduled_wheel_cong:
  "bs_config s = bs_config s' \<Longrightarrow> scheduled_wheel s m = scheduled_wheel s' m"
  by (simp add: scheduled_wheel_def)

lemma choose_report_offer:
  assumes inv: "world_inv w" and "choose_report s (hid_front (sw_hid w)) (wheel_front (sw_wheel w)) = Some r"
    and "bs_config s = bs_config (sw_scheduler w)" and "bs_consecutive_hid s = bs_consecutive_hid (sw_scheduler w)"
  shows "front_offer w r"
    and "br_kind r = ScheduledHid \<Longrightarrow> wheel_items (sw_wheel w) = [] \<or> release_must_keep_order (br_report_class r) \<or>
      bs_consecutive_hid (sw_scheduler w) < sc_maximum_consecutive_hid (bs_config (sw_scheduler w))"
proof -
  have inv': "hid_inv (sw_hid w)" "wheel_inv (sw_wheel w)" using inv by (simp_all add: world_inv_def)
  note fronts = hid_fifo.front_items [OF inv'(1)] wheel_fifo.front_items [OF inv'(2)]
  note wcong = scheduled_wheel_cong [OF assms(3)]
  show "front_offer w r"
    using assms(2) wcong
    by (auto simp: choose_report_def fronts front_offer_def split: list.splits if_splits)
  show "wheel_items (sw_wheel w) = [] \<or> release_must_keep_order (br_report_class r) \<or>
      bs_consecutive_hid (sw_scheduler w) < sc_maximum_consecutive_hid (bs_config (sw_scheduler w))"
    if "br_kind r = ScheduledHid"
    using assms(2-4) that
    by (auto simp: choose_report_def fronts should_send_hid_def split: list.splits if_splits)
qed

text \<open>All a poll can do, in one rule.\<close>

definition poll_attempt :: "SchedulerWorld \<Rightarrow> u64 \<Rightarrow> (BleScheduledReport \<Rightarrow> BleInputTxResult) \<Rightarrow> BleScheduledReport \<Rightarrow>
    BleInputPollResult \<Rightarrow> SchedulerWorld \<Rightarrow> bool" where
  "poll_attempt w now_us f r res w' \<longleftrightarrow> front_offer w r \<and>
     (bs_has_attempted (sw_scheduler w) \<longrightarrow> bs_next_attempt_us (sw_scheduler w) \<le> now_us) \<and>
     (br_kind r = ScheduledHid \<longrightarrow> wheel_items (sw_wheel w) = [] \<or> release_must_keep_order (br_report_class r) \<or>
        bs_consecutive_hid (sw_scheduler w) < sc_maximum_consecutive_hid (bs_config (sw_scheduler w))) \<and>
     (res, w') = finish_poll (attempt_world w now_us) now_us r (f r)"

lemma scheduler_poll_cases:
  assumes "world_inv w" and "scheduler_poll w now_us f = ((res, offer), w')"
  shows "offer = None \<and> (res = PollIdle \<or> res = PollThrottled) \<and> w' = w\<lparr>sw_scheduler := note_watermarks w\<rparr> \<or>
    (\<exists>r. offer = Some r \<and> poll_attempt w now_us f r res w')"
proof (cases "choose_report (note_watermarks w) (hid_front (sw_hid w)) (wheel_front (sw_wheel w))")
  case None
  then show ?thesis using assms(2) by (auto simp: scheduler_poll_def Let_def)
next
  case (Some r)
  note offer = choose_report_offer [OF assms(1) Some]
  have fp: "scheduler_poll w now_us f =
    (if bs_has_attempted (sw_scheduler w) \<and> now_us < bs_next_attempt_us (sw_scheduler w)
     then ((PollThrottled, None), w\<lparr>sw_scheduler := note_watermarks w\<rparr>)
     else ((fst (finish_poll (attempt_world w now_us) now_us r (f r)), Some r),
           snd (finish_poll (attempt_world w now_us) now_us r (f r))))"
    using Some by (simp add: scheduler_poll_def Let_def attempt_world_def case_prod_beta)
  show ?thesis
  proof (cases "bs_has_attempted (sw_scheduler w) \<and> now_us < bs_next_attempt_us (sw_scheduler w)")
    case True
    then show ?thesis using assms(2) fp by auto
  next
    case False
    then have "offer = Some r" and "(res, w') = finish_poll (attempt_world w now_us) now_us r (f r)"
      using assms(2) fp by (auto simp: prod_eq_iff)
    moreover have "front_offer w r" using offer(1) by simp
    moreover have "br_kind r = ScheduledHid \<longrightarrow> wheel_items (sw_wheel w) = [] \<or> release_must_keep_order (br_report_class r) \<or>
        bs_consecutive_hid (sw_scheduler w) < sc_maximum_consecutive_hid (bs_config (sw_scheduler w))"
      using offer(2) by simp
    ultimately show ?thesis using False by (auto simp: poll_attempt_def not_less)
  qed
qed

lemma stamped_attempt: "world_inv w \<Longrightarrow> stamped_inv (attempt_world w t)"
  by (simp add: world_inv_def stamped_inv_def base_inv_def scheduler_inv_def)

lemma finish_settled:
  assumes "stamped_inv w" and "front_offer w r" and "bs_last_attempt_us (sw_scheduler w) = now_us"
  shows "settled_world w now_us r (finish_accepted w now_us r)" "settled_world w now_us r (finish_dropped w now_us r)"
proof -
  have c: "config_ok (bs_config (sw_scheduler w))" using assms(1) by (simp add: stamped_inv_def base_inv_def)
  have "settled_world w now_us r (finish_accepted w now_us r) \<and> settled_world w now_us r (finish_dropped w now_us r)"
  proof (cases "br_kind r")
    case ScheduledHid
    then show ?thesis
      using assms(2) finish_hid [OF assms(1) _ assms(3) ScheduledHid] by (auto simp: front_offer_def)
  next
    case ScheduledWheel
    then obtain m ms where "wheel_items (sw_wheel w) = m # ms" "r = scheduled_wheel (sw_scheduler w) m"
      using assms(2) by (cases "wheel_items (sw_wheel w)") (auto simp: front_offer_def)
    then show ?thesis using finish_wheel(1,2) [OF assms(1) _ assms(3) _ c] by blast
  qed
  then show "settled_world w now_us r (finish_accepted w now_us r)" "settled_world w now_us r (finish_dropped w now_us r)"
    by blast+
qed

text \<open>The state after an attempt that leaves the report where it is.\<close>

definition unsettled_world :: "SchedulerWorld \<Rightarrow> u64 \<Rightarrow> SchedulerWorld \<Rightarrow> bool" where
  "unsettled_world w now_us w' \<longleftrightarrow> sw_hid w' = sw_hid w \<and> sw_wheel w' = sw_wheel w \<and>
     bs_consecutive_hid (sw_scheduler w') = bs_consecutive_hid (sw_scheduler w) \<and>
     bs_config (sw_scheduler w') = bs_config (sw_scheduler w) \<and> bs_last_attempt_us (sw_scheduler w') = now_us \<and>
     bs_has_attempted (sw_scheduler w') = bs_has_attempted (sw_scheduler w) \<and> scheduler_inv (sw_scheduler w')"

lemma finish_unsettled:
  assumes "stamped_inv w" and "bs_last_attempt_us (sw_scheduler w) = now_us" and "\<not> settled tx"
  shows "unsettled_world w now_us (snd (finish_poll w now_us r tx))"
    and "fst (finish_poll w now_us r tx) \<notin> {PollAccepted, PollDroppedUnsupported, PollIdle, PollThrottled}"
proof -
  have base: "base_inv (sw_scheduler w)" using assms(1) by (simp add: stamped_inv_def)
  note eff = finish_retry_effect [OF _ _ _ base assms(2)]
  show "unsettled_world w now_us (snd (finish_poll w now_us r tx))"
    using assms(3) by (cases tx) (simp_all add: settled_def unsettled_world_def eff scheduler_kept_def)
  show "fst (finish_poll w now_us r tx) \<notin> {PollAccepted, PollDroppedUnsupported, PollIdle, PollThrottled}"
    using assms(3) by (cases tx) (simp_all add: settled_def)
qed

definition poll_settled :: "BleInputPollResult \<Rightarrow> bool" where
  "poll_settled res \<longleftrightarrow> res = PollAccepted \<or> res = PollDroppedUnsupported"

lemma front_offer_attempt: "front_offer (attempt_world w t) r \<longleftrightarrow> front_offer w r"
  using scheduled_wheel_cong [of "sw_scheduler (attempt_world w t)" "sw_scheduler w"] by (simp add: front_offer_def)

lemma poll_attempt_effect:
  assumes inv: "world_inv w" and "poll_attempt w now_us f r res w'"
  shows "if poll_settled res then settled_world (attempt_world w now_us) now_us r w'
    else unsettled_world (attempt_world w now_us) now_us w'"
proof -
  let ?a = "attempt_world w now_us"
  have fin: "(res, w') = finish_poll ?a now_us r (f r)" and offer: "front_offer ?a r"
    using assms(2) by (auto simp: poll_attempt_def front_offer_attempt)
  note st = finish_settled [OF stamped_attempt [OF inv] offer attempt_world_simps(6)]
  show ?thesis
  proof (cases "settled (f r)")
    case True
    then show ?thesis using fin st by (auto simp: settled_def poll_settled_def)
  next
    case False
    then show ?thesis
      using fin finish_unsettled [where r = r, OF stamped_attempt [OF inv] attempt_world_simps(6) False]
      by (auto simp: poll_settled_def prod_eq_iff)
  qed
qed

lemma world_inv_attempt:
  assumes "world_inv w" and "poll_attempt w now_us f r res w'"
  shows "world_inv w'"
  using poll_attempt_effect [OF assms] assms(1)
  by (auto simp: settled_world_def unsettled_world_def world_inv_def split: if_splits)

section \<open>Runs\<close>

datatype SchedEvent = EvPoll u64 "BleScheduledReport \<Rightarrow> BleInputTxResult"
  | EvPushHid HidReportClass PushRequest | EvPushWheel int int u32 BleOwnerToken u32
  | EvInterval u16 bool | EvResetClock | EvDisconnected | EvTakeResync

datatype SchedOut = Polled BleInputPollResult "BleScheduledReport option"
  | PushedHid HidQueuePushResult | PushedWheel WheelPushOut | SchedQuiet

fun sched_step :: "SchedulerWorld \<Rightarrow> SchedEvent \<Rightarrow> SchedulerWorld \<times> SchedOut" where
  "sched_step w (EvPoll now_us f) =
     (let ((res, offer), w') = scheduler_poll w now_us f in (w', Polled res offer))"
| "sched_step w (EvPushHid c r) =
     (let (result, q) = push_request c (sw_hid w) r in (w\<lparr>sw_hid := q\<rparr>, PushedHid result))"
| "sched_step w (EvPushWheel v h ms owner epoch) =
     (let (out, q) = wheel_push (sw_wheel w) v h ms owner epoch in (w\<lparr>sw_wheel := q\<rparr>, PushedWheel out))"
| "sched_step w (EvInterval units valid) =
     (w\<lparr>sw_scheduler := set_connection_interval (sw_scheduler w) units valid\<rparr>, SchedQuiet)"
| "sched_step w EvResetClock = (w\<lparr>sw_scheduler := reset_delivery_clock (sw_scheduler w)\<rparr>, SchedQuiet)"
| "sched_step w EvDisconnected = (w\<lparr>sw_scheduler := mark_disconnected (sw_scheduler w)\<rparr>, SchedQuiet)"
| "sched_step w EvTakeResync =
     (w\<lparr>sw_scheduler := snd (take_state_resync_required (sw_scheduler w))\<rparr>, SchedQuiet)"

definition sched_next :: "SchedulerWorld \<Rightarrow> SchedEvent \<Rightarrow> SchedulerWorld" where
  "sched_next w e = fst (sched_step w e)"

definition init_world :: "BleInputSchedulerConfig \<Rightarrow> SchedulerWorld" where
  "init_world c = \<lparr>sw_scheduler = make_scheduler c, sw_hid = init_hid_queue, sw_wheel = init_wheel_queue\<rparr>"

lemma world_inv_init: "world_inv (init_world c)"
  by (simp add: world_inv_def init_world_def scheduler_inv_make hid_inv_init wheel_inv_init)

lemma sched_poll_cases:
  assumes "world_inv w" and "sched_step w (EvPoll now_us f) = (w', out)"
  obtains (none) res where "out = Polled res None" "w' = w\<lparr>sw_scheduler := note_watermarks w\<rparr>" "\<not> poll_settled res"
  | (attempt) res r where "out = Polled res (Some r)" "poll_attempt w now_us f r res w'"
proof -
  obtain res offer w1 where p1: "scheduler_poll w now_us f = ((res, offer), w1)"
    by (metis prod.collapse)
  then have p: "scheduler_poll w now_us f = ((res, offer), w')" and out: "out = Polled res offer"
    using assms(2) by simp_all
  show thesis
    using scheduler_poll_cases [OF assms(1) p] out none attempt by (auto simp: poll_settled_def)
qed

text \<open>A poll that offers nothing found both queues empty, or the time not yet come.\<close>

lemma scheduler_poll_none:
  assumes "world_inv w" and "snd (fst (scheduler_poll w now_us f)) = None"
  shows "fst (fst (scheduler_poll w now_us f)) = PollThrottled \<and> now_us < bs_next_attempt_us (sw_scheduler w) \<or>
    fst (fst (scheduler_poll w now_us f)) = PollIdle \<and> hid_items (sw_hid w) = [] \<and> wheel_items (sw_wheel w) = []"
proof (cases "choose_report (note_watermarks w) (hid_front (sw_hid w)) (wheel_front (sw_wheel w))")
  case None
  have inv': "hid_inv (sw_hid w)" "wheel_inv (sw_wheel w)" using assms(1) by (simp_all add: world_inv_def)
  have "hid_items (sw_hid w) = [] \<and> wheel_items (sw_wheel w) = []"
    using None hid_fifo.front_items [OF inv'(1)] wheel_fifo.front_items [OF inv'(2)]
    by (auto simp: choose_report_def should_send_hid_def split: list.splits if_splits)
  then show ?thesis using None by (simp add: scheduler_poll_def Let_def)
next
  case (Some r)
  then show ?thesis using assms(2) by (auto simp: scheduler_poll_def Let_def case_prod_beta split: if_splits)
qed

lemma world_inv_watermarks: "world_inv w \<Longrightarrow> world_inv (w\<lparr>sw_scheduler := note_watermarks w\<rparr>)"
  by (simp add: world_inv_def scheduler_inv_def)

lemma scheduler_inv_take: "scheduler_inv s \<Longrightarrow> scheduler_inv (snd (take_state_resync_required s))"
  by (simp add: scheduler_inv_def take_state_resync_required_def)

lemma scheduler_inv_disconnected: "scheduler_inv s \<Longrightarrow> scheduler_inv (mark_disconnected s)"
  by (simp add: mark_disconnected_def scheduler_inv_def reset_delivery_clock_def)

lemma world_inv_step:
  assumes inv: "world_inv w"
  shows "world_inv (fst (sched_step w e))"
proof (cases e)
  case (EvPoll now_us f)
  obtain w' out where st: "sched_step w (EvPoll now_us f) = (w', out)" by fastforce
  have "world_inv w'"
    using inv st by (cases rule: sched_poll_cases)
      (use inv in \<open>auto intro: world_inv_watermarks world_inv_attempt\<close>)
  then show ?thesis using EvPoll st by simp
next
  case (EvPushHid c r)
  then show ?thesis using inv push_classified_inv by (simp add: world_inv_def push_request_def case_prod_beta)
next
  case (EvPushWheel v h ms owner epoch)
  then show ?thesis using inv wheel_push_alt(1) [OF _ prod.collapse [symmetric]]
    by (simp add: world_inv_def case_prod_beta)
qed (use inv in \<open>auto simp: world_inv_def scheduler_inv_interval scheduler_inv_reset scheduler_inv_take scheduler_inv_disconnected\<close>)

text \<open>
  What each answer of the callback makes of an offered report: which result the poll reports, and
  whether the report is done with.
\<close>

fun answered :: "BleInputTxResult \<Rightarrow> BleInputPollResult" where
  "answered TxAccepted = PollAccepted"
| "answered TxDroppedUnsupported = PollDroppedUnsupported"
| "answered TxRetryableNoBuffer = PollRetryable"
| "answered TxRetryableBusy = PollRetryable"
| "answered TxDisconnected = PollDisconnected"
| "answered TxFatal = PollFatal"

lemma finish_answered: "fst (finish_poll w now_us r tx) = answered tx"
  by (cases tx) simp_all

lemma attempt_answered:
  assumes "poll_attempt w now_us f r res w'"
  shows "res = answered (f r)"
proof -
  have "(res, w') = finish_poll (attempt_world w now_us) now_us r (f r)" using assms by (simp add: poll_attempt_def)
  then show ?thesis using finish_answered by (metis fst_conv)
qed

lemma poll_settled_answered: "poll_settled (answered tx) \<longleftrightarrow> settled tx"
  by (cases tx) (simp_all add: poll_settled_def settled_def)

text \<open>
  The observer of the key reports: it knows what was queued, what was offered and how the callback
  answered, and from that alone what still waits and what the poll must report; anything else
  gives \<open>None\<close>.
\<close>

fun expect_keys :: "QueuedHidReport list option \<Rightarrow> SchedEvent \<times> SchedOut \<Rightarrow> QueuedHidReport list option" where
  "expect_keys g (EvPushHid c r, PushedHid result) = expect_waiting g (HidPush c r, HidPushed result)"
| "expect_keys (Some xs) (EvPoll t f, Polled res (Some r)) =
     (if res \<noteq> answered (f r) then None
      else if br_kind r = ScheduledWheel then Some xs
      else if xs \<noteq> [] \<and> r = scheduled_hid (hd xs)
      then Some (if f r = TxAccepted \<or> f r = TxDroppedUnsupported then tl xs else xs)
      else None)"
| "expect_keys (Some xs) (EvPoll t f, Polled res None) =
     (if res = PollThrottled \<or> res = PollIdle \<and> xs = [] then Some xs else None)"
| "expect_keys g _ = g"

interpretation sched_keys: ghost_machine sched_step "init_world c" world_inv expect_keys "Some []"
  "\<lambda>w g. g = Some (hid_items (sw_hid w))"
proof unfold_locales
  show "world_inv (init_world c)" by (rule world_inv_init)
  show "world_inv (fst (sched_step w e))" if "world_inv w" for w e using that by (rule world_inv_step)
  show "Some [] = Some (hid_items (sw_hid (init_world c)))"
    by (simp add: init_world_def hid_items_def init_hid_queue_def)
  show "expect_keys g (e, out) = Some (hid_items (sw_hid w'))"
    if inv: "world_inv w" and g: "g = Some (hid_items (sw_hid w))" and st: "sched_step w e = (w', out)" for w g e w' out
  proof (cases e)
    case (EvPoll t f)
    from inv st [unfolded EvPoll] show ?thesis
    proof (cases rule: sched_poll_cases)
      case (none res)
      then have "res = PollThrottled \<or> res = PollIdle \<and> hid_items (sw_hid w) = []"
        using scheduler_poll_none [OF inv] st EvPoll by (auto simp: case_prod_beta prod_eq_iff)
      then show ?thesis using g EvPoll none by auto
    next
      case (attempt res r)
      then have "front_offer w r" by (simp add: poll_attempt_def)
      then show ?thesis
        using poll_attempt_effect [OF inv attempt(2)] g EvPoll attempt(1) attempt_answered [OF attempt(2)]
        by (auto simp: settled_world_def unsettled_world_def front_offer_def poll_settled_answered settled_def split: if_splits)
    qed
  next
    case (EvPushHid c r)
    then show ?thesis
      using st g inv expect_push [of "sw_hid w" c r "fst (push_request c (sw_hid w) r)" "snd (push_request c (sw_hid w) r)"]
      by (auto simp: world_inv_def case_prod_beta simp del: expect_waiting.simps)
  qed (use st g in \<open>auto simp: case_prod_beta\<close>)
qed

text \<open>
  C21: Key reports reach the transport complete and in order: over any sequence of
  pushes, polls, interval changes and clock resets, and for any behaviour of the
  transmit callback, each offered key report is the oldest one waiting, it leaves
  the queue exactly when the callback answers that it has accepted it or cannot
  support it, nothing else leaves or is reordered, each poll reports the answer it
  got, and a poll that offers nothing is throttled or finds no key report waiting.
\<close>
theorem key_reports_leave_in_order:
  "foldl expect_keys (Some []) (run_log sched_step (init_world c) events)
     = Some (hid_items (sw_hid (run sched_next (init_world c) events)))"
  using sched_keys.rel_reachable [of c events] by (simp add: sched_next_def [abs_def])

text \<open>Wheel movement: what was accepted for queueing is delivered or waits, unless a run was dropped whole.\<close>

fun scheduler_books :: "WheelBooks \<Rightarrow> SchedEvent \<times> SchedOut \<Rightarrow> WheelBooks" where
  "scheduler_books b (EvPushWheel v h ms owner epoch, PushedWheel out) =
     keep_books b (WheelPush v h ms owner epoch, WheelPushed out)"
| "scheduler_books b (EvPoll t f, Polled res (Some r)) =
     (if br_kind r = ScheduledWheel \<and> res = PollAccepted
      then b\<lparr>bk_vertical := bk_vertical b - br_wheel_vertical r, bk_horizontal := bk_horizontal b - br_wheel_horizontal r\<rparr>
      else if br_kind r = ScheduledWheel \<and> res = PollDroppedUnsupported then b\<lparr>bk_exact := False\<rparr> else b)"
| "scheduler_books b _ = b"

lemma accepted_wheel:
  assumes inv: "world_inv w" and att: "poll_attempt w now_us f r PollAccepted w'" and wheel: "br_kind r = ScheduledWheel"
  shows "wheel_consume_if_sequence (sw_wheel w) (br_sequence r) (br_wheel_vertical r) (br_wheel_horizontal r) = (True, sw_wheel w')"
proof -
  let ?a = "attempt_world w now_us"
  have st: "stamped_inv ?a" by (rule stamped_attempt [OF inv])
  then have c: "config_ok (bs_config (sw_scheduler ?a))" by (simp add: stamped_inv_def base_inv_def)
  have "front_offer ?a r" and fin: "(PollAccepted, w') = finish_poll ?a now_us r (f r)"
    using att by (simp_all add: poll_attempt_def front_offer_attempt)
  then obtain m ms where m: "wheel_items (sw_wheel ?a) = m # ms" "r = scheduled_wheel (sw_scheduler ?a) m"
    using wheel by (cases "wheel_items (sw_wheel w)") (auto simp: front_offer_def)
  have "w' = finish_accepted ?a now_us r" using fin by (cases "f r") auto
  then have "sw_wheel w' = snd (wheel_consume_if_sequence (sw_wheel w) (br_sequence r) (br_wheel_vertical r) (br_wheel_horizontal r))"
    using finish_wheel(3) [OF st m(1) attempt_world_simps(6) m(2) c] by simp
  moreover have "fst (wheel_consume_if_sequence (sw_wheel w) (br_sequence r) (br_wheel_vertical r) (br_wheel_horizontal r))"
    using consume_offer [of "sw_wheel w" m ms "sw_scheduler ?a" r] m c inv by (simp add: world_inv_def)
  ultimately show ?thesis by (simp add: prod_eq_iff)
qed

lemma books_attempt:
  assumes inv: "world_inv w" and books: "books_match (sw_wheel w) b" and att: "poll_attempt w t f r res w'"
  shows "books_match (sw_wheel w') (scheduler_books b (EvPoll t f, Polled res (Some r)))"
proof (cases "br_kind r = ScheduledWheel \<and> poll_settled res")
  case False
  then have "sw_wheel w' = sw_wheel w"
    using poll_attempt_effect [OF inv att]
    by (cases "br_kind r") (auto simp: settled_world_def unsettled_world_def split: if_splits)
  then show ?thesis using books False by (auto simp: poll_settled_def)
next
  case True
  then consider "res = PollDroppedUnsupported" | "res = PollAccepted" by (auto simp: poll_settled_def)
  then show ?thesis
  proof cases
    case 1
    then show ?thesis using True by (simp add: books_match_def)
  next
    case 2
    then have "wheel_consume_if_sequence (sw_wheel w) (br_sequence r) (br_wheel_vertical r) (br_wheel_horizontal r) = (True, sw_wheel w')"
      using accepted_wheel [OF inv _ ] att True by blast
    from books_consume [OF _ books this] show ?thesis using 2 True inv by (simp add: world_inv_def)
  qed
qed

interpretation sched_books: ghost_machine sched_step "init_world c" world_inv scheduler_books empty_books
  "\<lambda>w b. books_match (sw_wheel w) b"
proof unfold_locales
  show "books_match (sw_wheel (init_world c)) empty_books"
    by (simp add: init_world_def books_match_def empty_books_def waiting_vertical_def waiting_horizontal_def wheel_items_init)
  show "books_match (sw_wheel w') (scheduler_books b (e, out))"
    if inv: "world_inv w" and b: "books_match (sw_wheel w) b" and st: "sched_step w e = (w', out)" for w b e w' out
  proof (cases e)
    case (EvPoll t f)
    from inv st [unfolded EvPoll] show ?thesis
      by (cases rule: sched_poll_cases) (use b books_attempt [OF inv b] EvPoll in auto)
  next
    case (EvPushWheel v h ms owner epoch)
    have "wheel_inv (sw_wheel w)" using inv by (simp add: world_inv_def)
    from books_push [OF this b prod.collapse [symmetric], of v h ms owner epoch] show ?thesis
      using st EvPushWheel by (auto simp: case_prod_beta simp del: keep_books.simps)
  qed (use st b in \<open>auto simp: case_prod_beta\<close>)
qed

text \<open>
  The scheduler neither invents nor loses wheel movement: over any sequence of
  events in which no movement was cut by the accumulation limit and no run was
  dropped as unsupported, the movement delivered in accepted chunks plus the
  movement still waiting is the movement accepted for queueing, on both axes.
\<close>
lemma wheel_delivery_conserved:
  assumes "bk_exact (foldl scheduler_books empty_books (run_log sched_step (init_world c) events))"
  shows "waiting_vertical (sw_wheel (run sched_next (init_world c) events))
      = bk_vertical (foldl scheduler_books empty_books (run_log sched_step (init_world c) events))
    \<and> waiting_horizontal (sw_wheel (run sched_next (init_world c) events))
      = bk_horizontal (foldl scheduler_books empty_books (run_log sched_step (init_world c) events))"
  using sched_books.rel_reachable [of c events] assms by (simp add: sched_next_def [abs_def] books_match_def)

definition sample_wheel_events :: "SchedEvent list" where
  "sample_wheel_events = [EvPushWheel 300 0 1 no_owner 0, EvPoll 0 (\<lambda>r. TxAccepted), EvPoll 5 (\<lambda>r. TxAccepted),
     EvPoll 40000 (\<lambda>r. TxRetryableBusy)]"

lemma wheel_delivery_conserved_witness:
  "waiting_vertical (sw_wheel (run sched_next (init_world default_scheduler_config) sample_wheel_events)) = 173"
proof -
  have "bk_exact (foldl scheduler_books empty_books (run_log sched_step (init_world default_scheduler_config) sample_wheel_events))"
    "bk_vertical (foldl scheduler_books empty_books (run_log sched_step (init_world default_scheduler_config) sample_wheel_events)) = 173"
    by code_simp+
  then show ?thesis using wheel_delivery_conserved by simp
qed

section \<open>Fairness and timing\<close>

text \<open>
  How many key reports have been done with since the wheel was last served, seen from the calls and
  the callback's answers.  Resetting the clock and a disconnection start the count again.
\<close>

fun key_turns :: "nat \<Rightarrow> SchedEvent \<times> SchedOut \<Rightarrow> nat" where
  "key_turns n (EvPoll t f, Polled res (Some r)) =
     (if f r = TxAccepted \<or> f r = TxDroppedUnsupported then (if br_kind r = ScheduledWheel then 0 else Suc n) else n)"
| "key_turns n (EvResetClock, out) = 0"
| "key_turns n (EvDisconnected, out) = 0"
| "key_turns n _ = n"

definition turns_match :: "BleInputSchedulerConfig \<Rightarrow> SchedulerWorld \<Rightarrow> nat \<Rightarrow> bool" where
  "turns_match c w n \<longleftrightarrow> bs_config (sw_scheduler w) = normalize_config c \<and> unat (bs_consecutive_hid (sw_scheduler w)) = min n 255"

lemma unat_next_turns_min: "unat (next_turns n) = min (Suc (unat n)) 255"
proof (cases "n < - 1")
  case True
  then have "unat n < 255" by (simp add: word_less_nat_alt unsigned_minus_1_eq_mask mask_eq_exp_minus_1)
  then show ?thesis using True by (simp add: next_turns_def unat_word_ariths)
next
  case False
  then have "n = - 1" using word_order.extremum [of n] by (simp add: order_less_le)
  then show ?thesis by (simp add: next_turns_def unsigned_minus_1_eq_mask mask_eq_exp_minus_1)
qed

lemma interval_keeps_turns [simp]:
  "bs_config (set_connection_interval s u v) = bs_config s"
  "bs_consecutive_hid (set_connection_interval s u v) = bs_consecutive_hid s"
  by (simp_all add: set_connection_interval_def Let_def)

interpretation sched_turns: ghost_machine sched_step "init_world c" world_inv key_turns 0 "turns_match c"
proof unfold_locales
  show "turns_match c (init_world c) 0" by (simp add: turns_match_def init_world_def make_scheduler_def)
  show "turns_match c w' (key_turns n (e, out))"
    if inv: "world_inv w" and n: "turns_match c w n" and st: "sched_step w e = (w', out)" for w n e w' out
  proof (cases e)
    case (EvPoll t f)
    from inv st [unfolded EvPoll] show ?thesis
    proof (cases rule: sched_poll_cases)
      case (none res)
      then show ?thesis using n EvPoll by (simp add: turns_match_def)
    next
      case (attempt res r)
      then show ?thesis
        using poll_attempt_effect [OF inv attempt(2)] n EvPoll attempt_answered [OF attempt(2)]
        by (cases "br_kind r") (auto simp: turns_match_def settled_world_def unsettled_world_def poll_settled_answered settled_def
            unat_next_turns_min split: if_splits)
    qed
  qed (use st n in \<open>auto simp: case_prod_beta turns_match_def reset_delivery_clock_def mark_disconnected_def take_state_resync_required_def\<close>)
qed

text \<open>
  C22: Wheel movement is not starved by key traffic: after any sequence of pushes, polls, interval
  changes, clock resets and disconnections, and whatever the callback answered, a poll with wheel
  movement waiting offers the wheel, or a release (releases keep their order), or a key report
  while fewer key reports than the configured number (at least one) have been done with since
  the wheel was last served, the clock was last reset or the link was last lost; it offers
  nothing only when the time for the next attempt has not come.
\<close>
theorem wheel_gets_its_turn:
  "case sched_step (run sched_next (init_world c) events) (EvPoll now_us f) of
     (w', Polled res (Some r)) \<Rightarrow>
       br_kind r = ScheduledWheel \<or> wheel_items (sw_wheel (run sched_next (init_world c) events)) = [] \<or>
       release_must_keep_order (br_report_class r) \<or>
       foldl key_turns 0 (run_log sched_step (init_world c) events) < max 1 (unat (sc_maximum_consecutive_hid c))
   | (w', Polled res None) \<Rightarrow>
       wheel_items (sw_wheel (run sched_next (init_world c) events)) = [] \<or>
       res = PollThrottled \<and> now_us < bs_next_attempt_us (sw_scheduler (run sched_next (init_world c) events))
   | (w', out) \<Rightarrow> False"
proof -
  define w where "w = run sched_next (init_world c) events"
  let ?n = "foldl key_turns 0 (run_log sched_step (init_world c) events)"
  have inv: "world_inv w" and match: "turns_match c w ?n"
    unfolding w_def sched_next_def [abs_def] by (rule sched_keys.inv_reachable, rule sched_turns.rel_reachable)
  have maximum: "unat (sc_maximum_consecutive_hid (normalize_config c)) = max 1 (unat (sc_maximum_consecutive_hid c))"
    by (auto simp: normalize_config_def Let_def max_def unat_eq_0 not_le)
  obtain w' out where st: "sched_step w (EvPoll now_us f) = (w', out)" by fastforce
  from inv st show ?thesis
  proof (cases rule: sched_poll_cases)
    case (none res)
    then show ?thesis
      using scheduler_poll_none [OF inv, of now_us f] st by (auto simp: case_prod_beta prod_eq_iff simp flip: w_def)
  next
    case (attempt res r)
    have "?n < max 1 (unat (sc_maximum_consecutive_hid c))"
      if "bs_consecutive_hid (sw_scheduler w) < sc_maximum_consecutive_hid (bs_config (sw_scheduler w))"
    proof -
      have "min ?n 255 < unat (sc_maximum_consecutive_hid (normalize_config c))"
        using that match by (simp add: turns_match_def word_less_nat_alt)
      moreover have "unat (sc_maximum_consecutive_hid (normalize_config c)) \<le> 255"
        using unat_u8_less [of "sc_maximum_consecutive_hid (normalize_config c)"] by linarith
      ultimately show ?thesis unfolding maximum by linarith
    qed
    then show ?thesis
      using attempt st by (cases "br_kind r") (auto simp: poll_attempt_def simp flip: w_def)
  qed
qed

definition sample_key_request :: PushRequest where
  "sample_key_request = \<lparr>rq_report_id = 1, rq_data = Some [0, 0, 4, 0, 0, 0, 0, 0], rq_len = 8, rq_ms = 0,
     rq_owner = no_owner, rq_epoch = 0\<rparr>"

text \<open>With one key report and wheel movement waiting, and a turn of one, the wheel goes second.\<close>

definition sample_turn_events :: "SchedEvent list" where
  "sample_turn_events = [EvPushHid KeyboardPress sample_key_request, EvPushHid KeyboardPress (sample_key_request\<lparr>rq_data := Some [0, 0, 5, 0, 0, 0, 0, 0]\<rparr>),
     EvPushWheel 1 0 0 no_owner 0, EvPoll 0 (\<lambda>r. TxAccepted)]"

lemma wheel_goes_second:
  "case snd (sched_step (run sched_next (init_world (default_scheduler_config\<lparr>sc_maximum_consecutive_hid := 1\<rparr>)) sample_turn_events)
      (EvPoll 40000 (\<lambda>r. TxAccepted))) of
     Polled res (Some r) \<Rightarrow> res = PollAccepted \<and> br_kind r = ScheduledWheel
   | _ \<Rightarrow> False"
  by code_simp

text \<open>
  Attempts are spaced: in every reachable state in which an attempt has been
  made since the last clock reset, the next report is offered no earlier than one
  minimum period after that attempt (up to the end of the 64-bit clock).
\<close>
lemma attempts_are_spaced:
  fixes c events
  defines "w \<equiv> run sched_next (init_world c) events"
  assumes "bs_has_attempted (sw_scheduler w)" and "scheduler_poll w now_us f = ((res, Some r), w')"
  shows "unat now_us \<ge> min (unat (bs_last_attempt_us (sw_scheduler w)) + unat (sc_minimum_period_us (bs_config (sw_scheduler w)))) (2 ^ 64 - 1)
    \<and> bs_last_attempt_us (sw_scheduler w') = now_us \<and> bs_has_attempted (sw_scheduler w')"
proof -
  have inv: "world_inv w"
    unfolding w_def sched_next_def [abs_def] by (rule sched_keys.inv_reachable)
  have att: "poll_attempt w now_us f r res w'"
    using scheduler_poll_cases [OF inv assms(3)] by auto
  have "saturating_add (bs_last_attempt_us (sw_scheduler w)) (sc_minimum_period_us (bs_config (sw_scheduler w))) \<le> now_us"
    using inv att assms(2) by (auto simp: world_inv_def scheduler_inv_def poll_attempt_def intro: order_trans)
  then have "min (unat (bs_last_attempt_us (sw_scheduler w)) + unat (sc_minimum_period_us (bs_config (sw_scheduler w)))) (2 ^ 64 - 1) \<le> unat now_us"
    by (simp only: word_le_nat_alt unat_saturating_add)
  then show ?thesis
    using poll_attempt_effect [OF inv att] by (auto simp: settled_world_def unsettled_world_def split: if_splits)
qed

lemma attempts_are_spaced_witness:
  "unat (40000 :: u64) \<ge> min (unat (0 :: u64) + unat (7500 :: u64)) (2 ^ 64 - 1)"
proof -
  let ?w = "run sched_next (init_world default_scheduler_config) [EvPushWheel 300 0 1 no_owner 0, EvPoll 0 (\<lambda>r. TxAccepted)]"
  have facts: "bs_has_attempted (sw_scheduler ?w)" "snd (fst (scheduler_poll ?w 40000 (\<lambda>r. TxAccepted))) \<noteq> None"
    "bs_last_attempt_us (sw_scheduler ?w) = 0" "sc_minimum_period_us (bs_config (sw_scheduler ?w)) = 7500"
    by code_simp+
  then obtain res r w' where "scheduler_poll ?w 40000 (\<lambda>r. TxAccepted) = ((res, Some r), w')"
    by (metis option.exhaust prod.collapse)
  from attempts_are_spaced [OF facts(1) this] facts(3,4) show ?thesis by metis
qed

text \<open>
  The retry delay is exactly the delivery period doubled once per consecutive
  failure, at most the configured number of times, cut at the configured maximum;
  it never falls below the minimum period, and the shift on 64-bit values never
  loses bits.
\<close>
lemma retry_backoff_exact:
  fixes c events
  defines "s \<equiv> sw_scheduler (run sched_next (init_world c) events)"
  shows "unat (retry_delay_us s) = min (unat (bs_delivery_period_us s) * 2 ^ retry_shift s) (unat (sc_maximum_retry_backoff_us (bs_config s)))
    \<and> sc_minimum_period_us (bs_config s) \<le> retry_delay_us s \<and> 0 < sc_minimum_period_us (bs_config s)
    \<and> retry_shift s = min (unat (bs_retry_streak s) - 1) (unat (sc_maximum_retry_shift (bs_config s)))"
proof -
  have inv: "scheduler_inv s"
    unfolding s_def sched_next_def [abs_def] using sched_keys.inv_reachable by (simp add: world_inv_def)
  have "retry_shift s = min (unat (bs_retry_streak s) - 1) (unat (sc_maximum_retry_shift (bs_config s)))"
    using unat_minus_one [of "bs_retry_streak s"]
    by (cases "bs_retry_streak s = 0") (auto simp: retry_shift_def min_def word_le_nat_alt unsigned_ucast_eq take_bit_nat_eq_self
        less_le_trans [OF unat_u8_less])
  then show ?thesis
    using unat_retry_delay retry_delay_min [OF inv] inv by (simp add: scheduler_inv_def config_ok_def)
qed

end
