(* ===== verification/Transport_Routing.thy ===== *)
theory Transport_Routing
  imports Keymap
begin

text \<open>
  \<^verbatim>\<open>components/keyboard/include/keyboard/transport_routing.h\<close> and
  \<^verbatim>\<open>src/transport_routing.cpp\<close>: the debounced USB presence, the epochs of the USB
  HID endpoint, the latch that binds a chord to one transport, and the delivery
  of press/release pairs of application hotkeys.
\<close>

section \<open>Physical presence\<close>

datatype FirmwareTransportRoute = UsbFirst | BleFirst

definition route_for_firmware_event :: "FirmwareEvent \<Rightarrow> bool \<Rightarrow> FirmwareTransportRoute" where
  "route_for_firmware_event event ble_connected = UsbFirst"

record UsbPhysicalPresenceMonitor =
  pm_disconnect_confirm_ms :: u32
  pm_disconnect_candidate_since_ms :: u32
  pm_initialized :: bool
  pm_present :: bool
  pm_disconnect_pending :: bool

definition make_presence_monitor :: "u32 \<Rightarrow> UsbPhysicalPresenceMonitor" where
  "make_presence_monitor confirm = \<lparr>pm_disconnect_confirm_ms = confirm, pm_disconnect_candidate_since_ms = 0,
     pm_initialized = False, pm_present = False, pm_disconnect_pending = False\<rparr>"

definition presence_reset :: "UsbPhysicalPresenceMonitor \<Rightarrow> bool \<Rightarrow> u32 \<Rightarrow> UsbPhysicalPresenceMonitor" where
  "presence_reset m present now_ms = m\<lparr>pm_initialized := True, pm_present := present,
     pm_disconnect_pending := False, pm_disconnect_candidate_since_ms := now_ms\<rparr>"

definition presence_update :: "UsbPhysicalPresenceMonitor \<Rightarrow> bool \<Rightarrow> u32 \<Rightarrow> bool \<times> UsbPhysicalPresenceMonitor" where
  "presence_update m raw_present now_ms =
     (if \<not> pm_initialized m then (False, presence_reset m raw_present now_ms)
      else if raw_present then
        (let m1 = m\<lparr>pm_disconnect_pending := False\<rparr> in
         if pm_present m1 then (False, m1) else (True, m1\<lparr>pm_present := True\<rparr>))
      else if \<not> pm_present m then (False, m\<lparr>pm_disconnect_pending := False\<rparr>)
      else
        let m1 = (if \<not> pm_disconnect_pending m
                  then m\<lparr>pm_disconnect_pending := True, pm_disconnect_candidate_since_ms := now_ms\<rparr> else m)
        in if now_ms - pm_disconnect_candidate_since_ms m1 < pm_disconnect_confirm_ms m1 then (False, m1)
           else (True, m1\<lparr>pm_present := False, pm_disconnect_pending := False\<rparr>))"

section \<open>Endpoint lifetime\<close>

record UsbEndpointLifetime =
  ul_tinyusb_mounted :: bool
  ul_physical_presence_monitor_enabled :: bool
  ul_physical_present :: bool
  ul_fresh_mount_required :: bool
  ul_epoch :: u32

definition make_endpoint_lifetime :: "u32 \<Rightarrow> UsbEndpointLifetime" where
  "make_endpoint_lifetime initial_epoch = \<lparr>ul_tinyusb_mounted = False,
     ul_physical_presence_monitor_enabled = False, ul_physical_present = True,
     ul_fresh_mount_required = False, ul_epoch = initial_epoch\<rparr>"

definition advance_epoch :: "u32 \<Rightarrow> u32" where
  "advance_epoch e = (if e + 1 = 0 then 1 else e + 1)"

definition on_mount :: "UsbEndpointLifetime \<Rightarrow> bool \<times> UsbEndpointLifetime" where
  "on_mount l =
     (if ul_physical_presence_monitor_enabled l \<and> \<not> ul_physical_present l then (False, l)
      else (True, l\<lparr>ul_tinyusb_mounted := True, ul_fresh_mount_required := False,
                    ul_epoch := advance_epoch (ul_epoch l)\<rparr>))"

definition on_mount_with_physical_presence :: "UsbEndpointLifetime \<Rightarrow> bool \<Rightarrow> bool \<times> UsbEndpointLifetime" where
  "on_mount_with_physical_presence l present =
     (if ul_physical_presence_monitor_enabled l
      then (if \<not> present then (False, l) else on_mount (l\<lparr>ul_physical_present := True\<rparr>))
      else on_mount l)"

definition on_unmount :: "UsbEndpointLifetime \<Rightarrow> bool \<times> UsbEndpointLifetime" where
  "on_unmount l =
     (if \<not> ul_tinyusb_mounted l then (False, l)
      else (True, l\<lparr>ul_tinyusb_mounted := False, ul_epoch := advance_epoch (ul_epoch l)\<rparr>))"

definition enable_physical_presence_monitor :: "UsbEndpointLifetime \<Rightarrow> bool \<Rightarrow> UsbEndpointLifetime" where
  "enable_physical_presence_monitor l initially_present =
     l\<lparr>ul_physical_presence_monitor_enabled := True, ul_physical_present := initially_present,
       ul_fresh_mount_required := \<not> initially_present\<rparr>"

definition lifetime_mounted :: "UsbEndpointLifetime \<Rightarrow> bool" where
  "lifetime_mounted l \<longleftrightarrow> ul_tinyusb_mounted l \<and>
     (\<not> ul_physical_presence_monitor_enabled l \<or> (ul_physical_present l \<and> \<not> ul_fresh_mount_required l))"

definition observe_physical_presence :: "UsbEndpointLifetime \<Rightarrow> bool \<Rightarrow> bool \<times> UsbEndpointLifetime" where
  "observe_physical_presence l present =
     (if \<not> ul_physical_presence_monitor_enabled l then (False, l)
      else
        let l1 = l\<lparr>ul_physical_present := present,
                   ul_fresh_mount_required := (if \<not> present then True else ul_fresh_mount_required l)\<rparr>
        in (lifetime_mounted l \<and> \<not> lifetime_mounted l1, l1))"

section \<open>The chord latch\<close>

datatype KeyboardTransportOwner = OwnerNone | OwnerUsb | OwnerBle | OwnerSuppressed

record KeyboardTransportLatch =
  kl_owner :: KeyboardTransportOwner
  kl_owner_epoch :: u32

definition init_latch :: KeyboardTransportLatch where
  "init_latch = \<lparr>kl_owner = OwnerNone, kl_owner_epoch = 0\<rparr>"

text \<open>The four values that describe both endpoints at one moment.\<close>

record TransportState =
  ts_usb_mounted :: bool
  ts_usb_epoch :: u32
  ts_ble_connected :: bool
  ts_ble_epoch :: u32

definition usb_available :: "TransportState \<Rightarrow> bool" where
  "usb_available t \<longleftrightarrow> ts_usb_mounted t \<and> ts_usb_epoch t \<noteq> 0"

definition ble_available :: "TransportState \<Rightarrow> bool" where
  "ble_available t \<longleftrightarrow> ts_ble_connected t \<and> ts_ble_epoch t \<noteq> 0"

definition observe_transport_state :: "KeyboardTransportLatch \<Rightarrow> TransportState \<Rightarrow> bool \<times> KeyboardTransportLatch" where
  "observe_transport_state k t =
     (let usb_lifetime_lost = (kl_owner k = OwnerUsb \<and> (\<not> usb_available t \<or> kl_owner_epoch k \<noteq> ts_usb_epoch t));
          ble_lifetime_lost = (kl_owner k = OwnerBle \<and> (\<not> ble_available t \<or> kl_owner_epoch k \<noteq> ts_ble_epoch t))
      in if \<not> usb_lifetime_lost \<and> \<not> ble_lifetime_lost then (False, k)
         else (True, k\<lparr>kl_owner := OwnerSuppressed, kl_owner_epoch := 0\<rparr>))"

definition select_for_snapshot ::
  "KeyboardTransportLatch \<Rightarrow> bool \<Rightarrow> TransportState \<Rightarrow> KeyboardTransportOwner \<times> KeyboardTransportLatch" where
  "select_for_snapshot k0 all_released t =
     (let k = snd (observe_transport_state k0 t) in
      if all_released then
        (if (kl_owner k = OwnerUsb \<and> usb_available t) \<or> (kl_owner k = OwnerBle \<and> ble_available t)
         then kl_owner k else OwnerNone, k)
      else
        let k1 =
          (if kl_owner k = OwnerNone then
             (if usb_available t then k\<lparr>kl_owner := OwnerUsb, kl_owner_epoch := ts_usb_epoch t\<rparr>
              else if ble_available t then k\<lparr>kl_owner := OwnerBle, kl_owner_epoch := ts_ble_epoch t\<rparr>
              else k\<lparr>kl_owner := OwnerSuppressed, kl_owner_epoch := 0\<rparr>)
           else k)
        in (kl_owner k1, k1))"

definition commit_snapshot :: "KeyboardTransportLatch \<Rightarrow> bool \<Rightarrow> KeyboardTransportLatch" where
  "commit_snapshot k all_released =
     (if all_released then k\<lparr>kl_owner := OwnerNone, kl_owner_epoch := 0\<rparr> else k)"

definition latch_reset :: "KeyboardTransportLatch \<Rightarrow> KeyboardTransportLatch" where
  "latch_reset k = k\<lparr>kl_owner := OwnerNone, kl_owner_epoch := 0\<rparr>"

section \<open>Bridged hotkeys\<close>

record BridgedHotkeyTransition =
  bt_valid :: bool
  bt_pressed :: bool
  bt_hotkey :: string
  bt_desired_generation :: u32

definition no_transition :: BridgedHotkeyTransition where
  "no_transition = \<lparr>bt_valid = False, bt_pressed = False, bt_hotkey = '''', bt_desired_generation = 0\<rparr>"

record HotkeyState =
  hs_pressed :: bool
  hs_hotkey :: string

definition released_hotkey :: HotkeyState where
  "released_hotkey = \<lparr>hs_pressed = False, hs_hotkey = ''''\<rparr>"

record BridgedHotkeyDelivery =
  bh_desired :: HotkeyState
  bh_accepted :: HotkeyState
  bh_desired_generation :: u32

definition init_bridged :: BridgedHotkeyDelivery where
  "init_bridged = \<lparr>bh_desired = released_hotkey, bh_accepted = released_hotkey, bh_desired_generation = 1\<rparr>"

definition bump_desired_generation :: "u32 \<Rightarrow> u32" where
  "bump_desired_generation g = (if g + 1 = 0 then 1 else g + 1)"

definition bridged_set_desired :: "BridgedHotkeyDelivery \<Rightarrow> bool \<Rightarrow> string \<Rightarrow> bool \<times> BridgedHotkeyDelivery" where
  "bridged_set_desired b pressed hotkey =
     (let next_hotkey = (if pressed then hotkey else '''') in
      if hs_pressed (bh_desired b) = pressed \<and> hs_hotkey (bh_desired b) = next_hotkey then (False, b)
      else (True, b\<lparr>bh_desired := \<lparr>hs_pressed = pressed, hs_hotkey = next_hotkey\<rparr>,
                    bh_desired_generation := bump_desired_generation (bh_desired_generation b)\<rparr>))"

definition pending_transition :: "BridgedHotkeyDelivery \<Rightarrow> BridgedHotkeyTransition" where
  "pending_transition b =
     (if hs_pressed (bh_accepted b) \<and>
         (\<not> hs_pressed (bh_desired b) \<or> hs_hotkey (bh_accepted b) \<noteq> hs_hotkey (bh_desired b))
      then \<lparr>bt_valid = True, bt_pressed = False, bt_hotkey = hs_hotkey (bh_accepted b),
             bt_desired_generation = bh_desired_generation b\<rparr>
      else if \<not> hs_pressed (bh_accepted b) \<and> hs_pressed (bh_desired b)
      then \<lparr>bt_valid = True, bt_pressed = True, bt_hotkey = hs_hotkey (bh_desired b),
             bt_desired_generation = bh_desired_generation b\<rparr>
      else no_transition)"

definition bridged_mark_accepted :: "BridgedHotkeyDelivery \<Rightarrow> BridgedHotkeyTransition \<Rightarrow> bool \<times> BridgedHotkeyDelivery" where
  "bridged_mark_accepted b t =
     (if \<not> bt_valid t \<or> bt_desired_generation t \<noteq> bh_desired_generation b then (False, b)
      else
        let current = pending_transition b in
        if \<not> bt_valid current \<or> bt_pressed current \<noteq> bt_pressed t \<or> bt_hotkey current \<noteq> bt_hotkey t
        then (False, b)
        else (True, b\<lparr>bh_accepted := \<lparr>hs_pressed = bt_pressed t,
                 hs_hotkey = (if bt_pressed t then bt_hotkey t else '''')\<rparr>\<rparr>))"

definition reset_to_desired :: "BridgedHotkeyDelivery \<Rightarrow> BridgedHotkeyDelivery" where
  "reset_to_desired b = b\<lparr>bh_accepted := bh_desired b,
     bh_desired_generation := bump_desired_generation (bh_desired_generation b)\<rparr>"

definition bridged_reset :: "BridgedHotkeyDelivery \<Rightarrow> BridgedHotkeyDelivery" where
  "bridged_reset b = b\<lparr>bh_desired := released_hotkey, bh_accepted := released_hotkey,
     bh_desired_generation := bump_desired_generation (bh_desired_generation b)\<rparr>"

definition bridged_pending :: "BridgedHotkeyDelivery \<Rightarrow> bool" where
  "bridged_pending b \<longleftrightarrow> bt_valid (pending_transition b)"

end
