(* ===== verification/Transport_Routing_Facts.thy ===== *)
theory Transport_Routing_Facts
  imports Transport_Routing
begin

text \<open>
  What routing promises: a chord never moves to another host, a lost endpoint is
  routable again only after a fresh mount and under a new epoch, USB loss is
  confirmed for the configured time, and application hotkeys reach the host as
  matching press and release pairs.
\<close>

section \<open>The chord latch\<close>

datatype LatchOp = LatchObserve TransportState | LatchSelect bool TransportState | LatchCommit bool | LatchReset

fun latch_step :: "KeyboardTransportLatch \<Rightarrow> LatchOp \<Rightarrow> KeyboardTransportLatch" where
  "latch_step k (LatchObserve t) = snd (observe_transport_state k t)"
| "latch_step k (LatchSelect all_released t) = snd (select_for_snapshot k all_released t)"
| "latch_step k (LatchCommit all_released) = commit_snapshot k all_released"
| "latch_step k LatchReset = latch_reset k"

definition latch_inv :: "KeyboardTransportLatch \<Rightarrow> bool" where
  "latch_inv k \<longleftrightarrow> (kl_owner_epoch k \<noteq> 0 \<longleftrightarrow> kl_owner k = OwnerUsb \<or> kl_owner k = OwnerBle)"

lemma observe_cases:
  "snd (observe_transport_state k t) = k \<or>
   snd (observe_transport_state k t) = k\<lparr>kl_owner := OwnerSuppressed, kl_owner_epoch := 0\<rparr>"
  by (auto simp: observe_transport_state_def Let_def)

interpretation latch_run: event_machine latch_step init_latch latch_inv
proof unfold_locales
  show "latch_inv init_latch" by (simp add: latch_inv_def init_latch_def)
  show "latch_inv (latch_step k op)" if "latch_inv k" for k op
    using that observe_cases [of k]
    by (cases op)
      (auto simp: latch_inv_def select_for_snapshot_def commit_snapshot_def latch_reset_def Let_def
        usb_available_def ble_available_def observe_transport_state_def)
qed

text \<open>An operation that does not end the chord.\<close>

fun chord_continues :: "LatchOp \<Rightarrow> bool" where
  "chord_continues (LatchCommit all_released) \<longleftrightarrow> \<not> all_released"
| "chord_continues LatchReset \<longleftrightarrow> False"
| "chord_continues _ \<longleftrightarrow> True"

definition same_chord :: "KeyboardTransportLatch \<Rightarrow> KeyboardTransportLatch \<Rightarrow> bool" where
  "same_chord k k' \<longleftrightarrow> (kl_owner k' = kl_owner k \<and> kl_owner_epoch k' = kl_owner_epoch k) \<or>
     (kl_owner k' = OwnerSuppressed \<and> kl_owner_epoch k' = 0)"

lemma same_chord_step:
  assumes "kl_owner k \<noteq> OwnerNone" and "latch_inv k" and "chord_continues op"
  shows "same_chord k (latch_step k op) \<and> kl_owner (latch_step k op) \<noteq> OwnerNone"
  using assms observe_cases [of k]
  by (cases op) (auto simp: same_chord_def select_for_snapshot_def commit_snapshot_def Let_def latch_inv_def
      observe_transport_state_def)

lemma same_chord_run:
  "kl_owner k \<noteq> OwnerNone \<Longrightarrow> latch_inv k \<Longrightarrow> list_all chord_continues ops \<Longrightarrow>
     same_chord k (run latch_step k ops) \<and> kl_owner (run latch_step k ops) \<noteq> OwnerNone"
proof (induction ops arbitrary: k)
  case Nil
  then show ?case by (simp add: same_chord_def)
next
  case (Cons op ops)
  have "same_chord k (latch_step k op)" "kl_owner (latch_step k op) \<noteq> OwnerNone"
    using same_chord_step [OF Cons.prems(1,2)] Cons.prems(3) by auto
  moreover have "latch_inv (latch_step k op)" using Cons.prems(2) by (rule latch_run.inv_step)
  ultimately have "same_chord (latch_step k op) (run latch_step (latch_step k op) ops)"
    "kl_owner (run latch_step (latch_step k op) ops) \<noteq> OwnerNone"
    using Cons.IH Cons.prems(3) by auto
  with \<open>same_chord k (latch_step k op)\<close> show ?case by (auto simp: same_chord_def)
qed

text \<open>
  C9: A chord never migrates: once a chord is bound, every later selection until
  the keys are all released and committed (or the latch is reset) names the same
  transport in the same endpoint lifetime, or the chord is suppressed for good; and
  a transport is only ever named while its endpoint is available under exactly the
  epoch the chord was bound to.
\<close>
theorem chord_never_migrates:
  fixes before
  defines "k \<equiv> run latch_step init_latch before"
  assumes "kl_owner k \<noteq> OwnerNone" and "list_all chord_continues ops"
    and "select_for_snapshot (run latch_step k ops) all_released t = (owner, k')"
  shows "same_chord k k' \<and> (owner = kl_owner k' \<or> all_released \<and> owner = OwnerNone)
    \<and> (owner = OwnerUsb \<longrightarrow> usb_available t \<and> kl_owner k = OwnerUsb \<and> kl_owner_epoch k = ts_usb_epoch t)
    \<and> (owner = OwnerBle \<longrightarrow> ble_available t \<and> kl_owner k = OwnerBle \<and> kl_owner_epoch k = ts_ble_epoch t)"
proof -
  let ?m = "run latch_step k ops"
  have inv: "latch_inv k" unfolding k_def by (rule latch_run.inv_reachable)
  have bound: "kl_owner ?m \<noteq> OwnerNone" using same_chord_run [OF assms(2) inv assms(3)] by simp
  have k': "k' = latch_step ?m (LatchSelect all_released t)" using assms(4) by simp
  have "same_chord k (run latch_step k (ops @ [LatchSelect all_released t]))"
    by (rule same_chord_run [OF assms(2) inv, THEN conjunct1]) (simp add: assms(3))
  then have same: "same_chord k k'" using k' by simp
  have "owner = kl_owner k' \<or> all_released \<and> owner = OwnerNone"
    using assms(4) by (auto simp: select_for_snapshot_def Let_def split: if_splits)
  moreover have "owner = OwnerUsb \<longrightarrow> usb_available t \<and> kl_owner k' = OwnerUsb \<and> kl_owner_epoch k' = ts_usb_epoch t"
    and "owner = OwnerBle \<longrightarrow> ble_available t \<and> kl_owner k' = OwnerBle \<and> kl_owner_epoch k' = ts_ble_epoch t"
    using assms(4) bound
    by (auto simp: select_for_snapshot_def observe_transport_state_def Let_def split: if_splits)
  ultimately show ?thesis using same by (auto simp: same_chord_def)
qed

definition usb_up :: TransportState where
  "usb_up = \<lparr>ts_usb_mounted = True, ts_usb_epoch = 7, ts_ble_connected = True, ts_ble_epoch = 3\<rparr>"

definition usb_gone :: TransportState where
  "usb_gone = usb_up\<lparr>ts_usb_mounted := False\<rparr>"

theorem chord_never_migrates_witness:
  "same_chord (run latch_step init_latch [LatchSelect False usb_up])
     (snd (select_for_snapshot (run latch_step (run latch_step init_latch [LatchSelect False usb_up]) [LatchObserve usb_gone]) False usb_up))"
proof -
  have "kl_owner (run latch_step init_latch [LatchSelect False usb_up]) \<noteq> OwnerNone" "list_all chord_continues [LatchObserve usb_gone]"
    by code_simp+
  from chord_never_migrates [OF this prod.collapse [symmetric]] show ?thesis by blast
qed

section \<open>Endpoint lifetimes\<close>

datatype LifetimeOp = Mount | MountPresent bool | Unmount | ObservePresence bool

fun lifetime_step :: "UsbEndpointLifetime \<Rightarrow> LifetimeOp \<Rightarrow> UsbEndpointLifetime \<times> bool" where
  "lifetime_step l Mount = (let (ok, l') = on_mount l in (l', ok))"
| "lifetime_step l (MountPresent p) = (let (ok, l') = on_mount_with_physical_presence l p in (l', ok))"
| "lifetime_step l Unmount = (let (ok, l') = on_unmount l in (l', ok))"
| "lifetime_step l (ObservePresence p) = (let (ok, l') = observe_physical_presence l p in (l', ok))"

definition lifetime_next :: "UsbEndpointLifetime \<Rightarrow> LifetimeOp \<Rightarrow> UsbEndpointLifetime" where
  "lifetime_next l op = fst (lifetime_step l op)"

interpretation usb_epochs: nonzero_counter advance_epoch
  by unfold_locales (auto simp: advance_epoch_def add_eq_0_iff2)

fun is_mount :: "LifetimeOp \<Rightarrow> bool" where
  "is_mount Mount \<longleftrightarrow> True"
| "is_mount (MountPresent p) \<longleftrightarrow> True"
| "is_mount _ \<longleftrightarrow> False"

text \<open>Blocked: absent now, or back without a mount since.\<close>

definition awaiting_mount :: "UsbEndpointLifetime \<Rightarrow> bool" where
  "awaiting_mount l \<longleftrightarrow> ul_physical_presence_monitor_enabled l \<and> ul_fresh_mount_required l"

lemma awaiting_mount_step:
  "awaiting_mount l \<Longrightarrow> \<not> is_mount op \<Longrightarrow> awaiting_mount (lifetime_next l op)"
  by (cases op) (auto simp: awaiting_mount_def lifetime_next_def on_unmount_def observe_physical_presence_def Let_def)

lemma awaiting_mount_run:
  "awaiting_mount l \<Longrightarrow> list_all (\<lambda>op. \<not> is_mount op) ops \<Longrightarrow> awaiting_mount (run lifetime_next l ops)"
  by (induction ops arbitrary: l) (auto intro: awaiting_mount_step)

text \<open>How often the epoch advanced: every accepted mount or unmount callback.\<close>

fun boundaries :: "UsbEndpointLifetime \<Rightarrow> LifetimeOp list \<Rightarrow> nat" where
  "boundaries l [] = 0"
| "boundaries l (op # ops) =
     (if ul_epoch (lifetime_next l op) = ul_epoch l then 0 else 1) + boundaries (lifetime_next l op) ops"

lemma advance_epoch_moves: "advance_epoch e \<noteq> e"
  by (auto simp: advance_epoch_def)

lemma lifetime_epoch_step:
  "ul_epoch (lifetime_next l op) = ul_epoch l \<or> ul_epoch (lifetime_next l op) = advance_epoch (ul_epoch l)"
  by (cases op) (auto simp: lifetime_next_def on_mount_def on_mount_with_physical_presence_def on_unmount_def
      observe_physical_presence_def Let_def)

lemma lifetime_epoch_run:
  "ul_epoch (run lifetime_next l ops) = (advance_epoch ^^ boundaries l ops) (ul_epoch l)"
proof (induction ops arbitrary: l)
  case (Cons op ops)
  show ?case
    using Cons.IH [of "lifetime_next l op"] lifetime_epoch_step [of l op] advance_epoch_moves
    by (auto simp: funpow_swap1)
qed simp

lemma boundaries_le: "boundaries l ops \<le> length ops"
  by (induction ops arbitrary: l) (auto intro: le_SucI)

lemma awaiting_until_epoch:
  "awaiting_mount l \<Longrightarrow> boundaries l ops = 0 \<Longrightarrow> awaiting_mount (run lifetime_next l ops)"
proof (induction ops arbitrary: l)
  case (Cons op ops)
  then have same: "ul_epoch (lifetime_next l op) = ul_epoch l" "boundaries (lifetime_next l op) ops = 0"
    by (auto split: if_splits)
  have "awaiting_mount (lifetime_next l op)"
    using Cons.prems(1) same(1) advance_epoch_moves [of "ul_epoch l"]
    by (cases op) (auto simp: awaiting_mount_def lifetime_next_def on_mount_def on_mount_with_physical_presence_def
        on_unmount_def observe_physical_presence_def Let_def split: if_splits)
  then show ?case using Cons.IH same(2) by simp
qed simp

text \<open>
  After the monitored board sees USB power absent, the endpoint becomes
  routable again only through a mount callback, and then under an epoch different
  from the lost lifetime's (within the \<open>2 ^ 32 - 1\<close> callbacks that wrap it), so
  nothing bound to the old lifetime matches the new one.
\<close>
lemma lost_endpoint_needs_fresh_mount:
  assumes "ul_physical_presence_monitor_enabled l" and "ul_epoch l \<noteq> 0"
    and "observe_physical_presence l False = (changed, l1)"
    and "lifetime_mounted (run lifetime_next l1 ops)" and "length ops < 2 ^ 32 - 1"
  shows "list_ex is_mount ops \<and> ul_epoch (run lifetime_next l1 ops) \<noteq> ul_epoch l \<and> (changed \<longleftrightarrow> lifetime_mounted l)"
proof -
  have await: "awaiting_mount l1" and epoch: "ul_epoch l1 = ul_epoch l" and changed: "changed \<longleftrightarrow> lifetime_mounted l"
    using assms(1,3) by (auto simp: observe_physical_presence_def awaiting_mount_def lifetime_mounted_def Let_def)
  have not_mounted: "\<not> lifetime_mounted k" if "awaiting_mount k" for k
    using that by (auto simp: awaiting_mount_def lifetime_mounted_def)
  have "list_ex is_mount ops"
  proof (rule ccontr)
    assume "\<not> list_ex is_mount ops"
    then have "list_all (\<lambda>op. \<not> is_mount op) ops" by (simp add: list_all_iff list_ex_iff)
    then show False using awaiting_mount_run [OF await] not_mounted assms(4) by blast
  qed
  moreover have "0 < boundaries l1 ops"
    using awaiting_until_epoch [OF await] not_mounted assms(4) by (metis gr0I)
  moreover have "boundaries l1 ops < 0 + (2 ^ 32 - 1)" using boundaries_le [of l1 ops] assms(5) by linarith
  ultimately have "(advance_epoch ^^ 0) (ul_epoch l) \<noteq> (advance_epoch ^^ boundaries l1 ops) (ul_epoch l)"
    using usb_epochs.iterate_distinct_from [OF assms(2)] by blast
  then have "ul_epoch (run lifetime_next l1 ops) \<noteq> ul_epoch l"
    unfolding lifetime_epoch_run epoch by simp
  with \<open>list_ex is_mount ops\<close> changed show ?thesis by blast
qed

definition live_endpoint :: UsbEndpointLifetime where
  "live_endpoint = snd (on_mount (enable_physical_presence_monitor (make_endpoint_lifetime 0) True))"

lemma lost_endpoint_needs_fresh_mount_witness:
  "ul_epoch (run lifetime_next (snd (observe_physical_presence live_endpoint False)) [ObservePresence True, MountPresent True])
     \<noteq> ul_epoch live_endpoint"
proof -
  have facts: "ul_physical_presence_monitor_enabled live_endpoint" "ul_epoch live_endpoint \<noteq> 0"
    "lifetime_mounted (run lifetime_next (snd (observe_physical_presence live_endpoint False)) [ObservePresence True, MountPresent True])"
    by code_simp+
  from lost_endpoint_needs_fresh_mount [OF facts(1,2) prod.collapse [symmetric] facts(3)] show ?thesis by simp
qed

section \<open>Physical presence\<close>

text \<open>
  The specification reads the samples only: the times of the absent samples since
  the last present one, and whether power was stable before them.
\<close>

fun absent_tail :: "bool \<times> u32 list \<Rightarrow> bool \<times> u32 \<Rightarrow> bool \<times> u32 list" where
  "absent_tail (steady, ts) (raw, t) = (if raw then (True, []) else (steady, ts @ [t]))"

definition still_within :: "u32 \<Rightarrow> u32 list \<Rightarrow> bool" where
  "still_within confirm ts \<longleftrightarrow> (\<forall>t \<in> set ts. t - hd ts < confirm)"

definition presence_spec :: "u32 \<Rightarrow> bool \<Rightarrow> (bool \<times> u32) list \<Rightarrow> bool" where
  "presence_spec confirm initially samples =
     (let (steady, ts) = foldl absent_tail (initially, []) samples in steady \<and> still_within confirm ts)"

definition presence_step :: "UsbPhysicalPresenceMonitor \<Rightarrow> bool \<times> u32 \<Rightarrow> UsbPhysicalPresenceMonitor" where
  "presence_step m sample = snd (presence_update m (fst sample) (snd sample))"

definition presence_rel :: "u32 \<Rightarrow> UsbPhysicalPresenceMonitor \<Rightarrow> bool \<times> u32 list \<Rightarrow> bool" where
  "presence_rel confirm m g \<longleftrightarrow> pm_initialized m \<and> pm_disconnect_confirm_ms m = confirm \<and>
     (pm_present m \<longleftrightarrow> fst g \<and> still_within confirm (snd g)) \<and>
     (pm_disconnect_pending m \<longleftrightarrow> pm_present m \<and> snd g \<noteq> []) \<and>
     (pm_disconnect_pending m \<longrightarrow> pm_disconnect_candidate_since_ms m = hd (snd g))"

lemma still_within_snoc:
  "still_within c (ts @ [t]) \<longleftrightarrow> still_within c ts \<and> t - (if ts = [] then t else hd ts) < c"
  by (cases ts) (auto simp: still_within_def)

lemma presence_rel_step:
  assumes "presence_rel c m g"
  shows "presence_rel c (presence_step m sample) (absent_tail g sample)"
  using assms
  by (cases sample; cases g)
    (auto simp: presence_rel_def presence_step_def presence_update_def Let_def still_within_snoc still_within_def
      split: if_splits)

lemma presence_rel_run:
  "presence_rel c m g \<Longrightarrow> presence_rel c (run presence_step m samples) (foldl absent_tail g samples)"
proof (induction samples arbitrary: m g)
  case (Cons sample samples)
  show ?case using Cons.IH [OF presence_rel_step [OF Cons.prems]] by simp
qed simp

text \<open>
  USB presence after any samples is what the samples say: present exactly when
  power was seen and every absent sample since then came less than the confirmation
  time after the first of them; so a glitch shorter than that never reports a loss,
  a longer absence always does, and one present sample restores presence at once.
  Times wrap at 32 bits.
\<close>
lemma presence_follows_samples:
  "pm_present (run presence_step (presence_reset m initially t0) samples)
     = presence_spec (pm_disconnect_confirm_ms m) initially samples"
proof -
  have "presence_rel (pm_disconnect_confirm_ms m) (presence_reset m initially t0) (initially, [])"
    by (simp add: presence_rel_def presence_reset_def still_within_def)
  from presence_rel_run [OF this, of samples] show ?thesis
    by (simp add: presence_rel_def presence_spec_def case_prod_beta)
qed

section \<open>Bridged hotkeys\<close>

datatype BridgedOp = BridgeDesired bool string | BridgeAccept BridgedHotkeyTransition | BridgeResetToDesired | BridgeReset

text \<open>What the host sees: an accepted edge, or a new baseline after an endpoint change.\<close>

datatype HostEdge = EdgeDown string | EdgeUp string | NewBaseline "string option"

definition held_hotkey :: "HotkeyState \<Rightarrow> string option" where
  "held_hotkey h = (if hs_pressed h then Some (hs_hotkey h) else None)"

fun bridged_step :: "BridgedHotkeyDelivery \<Rightarrow> BridgedOp \<Rightarrow> BridgedHotkeyDelivery \<times> HostEdge list" where
  "bridged_step b (BridgeDesired pressed hotkey) = (snd (bridged_set_desired b pressed hotkey), [])"
| "bridged_step b (BridgeAccept t) =
     (let (ok, b') = bridged_mark_accepted b t
      in (b', if ok then [if bt_pressed t then EdgeDown (bt_hotkey t) else EdgeUp (bt_hotkey t)] else []))"
| "bridged_step b BridgeResetToDesired = (reset_to_desired b, [NewBaseline (held_hotkey (bh_desired b))])"
| "bridged_step b BridgeReset = (bridged_reset b, [NewBaseline None])"

text \<open>The host's bookkeeping: the hotkey it holds down; \<open>None\<close> is an edge that does not fit.\<close>

fun host_edge :: "string option \<Rightarrow> HostEdge \<Rightarrow> string option option" where
  "host_edge None (EdgeDown h) = Some (Some h)"
| "host_edge (Some h) (EdgeUp h') = (if h = h' then Some None else None)"
| "host_edge held (NewBaseline b) = Some b"
| "host_edge held e = None"

definition bridged_inv :: "BridgedHotkeyDelivery \<Rightarrow> bool" where
  "bridged_inv b \<longleftrightarrow> bh_desired_generation b \<noteq> 0 \<and> (hs_pressed (bh_desired b) \<or> hs_hotkey (bh_desired b) = []) \<and>
     (hs_pressed (bh_accepted b) \<or> hs_hotkey (bh_accepted b) = [])"

definition host_view :: "BridgedHotkeyDelivery \<Rightarrow> string option" where
  "host_view b = held_hotkey (bh_accepted b)"

interpretation hotkeys: observed_machine bridged_step init_bridged bridged_inv host_edge host_view
proof unfold_locales
  show "bridged_inv init_bridged" by (simp add: bridged_inv_def init_bridged_def released_hotkey_def)
  show "bridged_inv (fst (bridged_step b op))" if "bridged_inv b" for b op
    using that
    by (cases op) (auto simp: bridged_inv_def bridged_set_desired_def bridged_mark_accepted_def reset_to_desired_def
        bridged_reset_def released_hotkey_def bump_desired_generation_def Let_def)
  show "check_outputs host_edge (host_view b) out = Some (host_view b')"
    if "bridged_inv b" "bridged_step b op = (b', out)" for b op b' out
    using that
    by (cases op) (auto simp: host_view_def held_hotkey_def bridged_set_desired_def bridged_mark_accepted_def
        pending_transition_def no_transition_def reset_to_desired_def bridged_reset_def released_hotkey_def Let_def
        split: if_splits)
qed

text \<open>
  Whatever is pressed, released, accepted late or reset, the edges handed to
  the host are matching pairs: a press only when nothing is held, a release only of
  the hotkey that is held; and what the host holds is the last accepted state.
\<close>
lemma hotkey_edges_are_paired:
  "check_outputs host_edge None (concat (map snd (run_log bridged_step init_bridged ops)))
     = Some (host_view (run (\<lambda>b op. fst (bridged_step b op)) init_bridged ops))"
  using hotkeys.view_reachable [of ops]
  by (simp add: host_view_def init_bridged_def held_hotkey_def released_hotkey_def)

text \<open>Accepting what is pending, repeatedly, as a transport with room does.\<close>

definition accept_pending :: "BridgedHotkeyDelivery \<Rightarrow> BridgedHotkeyDelivery" where
  "accept_pending b = (if bridged_pending b then snd (bridged_mark_accepted b (pending_transition b)) else b)"

lemma hotkey_state_eq: "(h :: HotkeyState) = h' \<longleftrightarrow> hs_pressed h = hs_pressed h' \<and> hs_hotkey h = hs_hotkey h'"
  by (cases h; cases h') auto

text \<open>
  Delivery converges: in every reachable state a transition is pending exactly
  when the accepted state differs from the physical one, and accepting at most two
  transitions (the release of the old hotkey, the press of the new one) makes them
  equal.
\<close>
lemma hotkey_delivery_converges:
  fixes ops
  defines "b \<equiv> run (\<lambda>b op. fst (bridged_step b op)) init_bridged ops"
  shows "(bridged_pending b \<longleftrightarrow> bh_accepted b \<noteq> bh_desired b)
    \<and> bh_accepted (accept_pending (accept_pending b)) = bh_desired b
    \<and> bh_desired (accept_pending (accept_pending b)) = bh_desired b"
proof -
  have inv: "bridged_inv b" unfolding b_def by (rule hotkeys.inv_reachable)
  then show ?thesis
    by (auto simp: bridged_inv_def bridged_pending_def accept_pending_def pending_transition_def no_transition_def
        bridged_mark_accepted_def hotkey_state_eq Let_def)
qed

end
