(* ===== verification/Config_Receiver.thy ===== *)
theory Config_Receiver
  imports Prelude
begin

text \<open>
  \<^verbatim>\<open>components/keyboard/include/keyboard/config_receiver.h\<close> and
  \<^verbatim>\<open>src/config_receiver.cpp\<close>: reassembly of a configuration message from HID chunks
  and its binding to one endpoint lifetime.  A data pointer with its length is
  \<open>bytes option\<close>, a null pointer being \<open>None\<close>.  The 16-bit lengths are naturals:
  they are at most \<open>kConfigMaxJsonLen\<close>, which the invariant shows.
\<close>

unbundle bit_operations_syntax

section \<open>Definitions\<close>

definition kConfigReportId :: u8 where "kConfigReportId = 0x10"
definition kConfigHeaderLen :: nat where "kConfigHeaderLen = 11"
definition kConfigMaxChunkData :: nat where "kConfigMaxChunkData = 52"
definition kConfigMaxJsonLen :: nat where "kConfigMaxJsonLen = 2048"
definition kConfigMagic0 :: u8 where "kConfigMagic0 = 83"
definition kConfigMagic1 :: u8 where "kConfigMagic1 = 51"
definition kConfigMagic2 :: u8 where "kConfigMagic2 = 67"
definition kConfigVersion :: u8 where "kConfigVersion = 1"

datatype ConfigReceiveStatus = CfgPending | CfgComplete | CfgInvalidReport | CfgMalformedChunk | CfgOutOfOrder | CfgCrcMismatch

record ConfigReceiveResult =
  cf_status :: ConfigReceiveStatus
  cf_json :: bytes

definition cfg_result :: "ConfigReceiveStatus \<Rightarrow> ConfigReceiveResult" where
  "cfg_result s = \<lparr>cf_status = s, cf_json = []\<rparr>"

record ConfigReceiver =
  cr_buffer :: bytes
  cr_total_len :: nat
  cr_expected_crc :: u16
  cr_total_chunks :: u8
  cr_next_chunk :: u8
  cr_received_len :: nat

definition init_receiver :: ConfigReceiver where
  "init_receiver = \<lparr>cr_buffer = replicate (kConfigMaxJsonLen + 1) 0, cr_total_len = 0, cr_expected_crc = 0,
     cr_total_chunks = 0, cr_next_chunk = 0, cr_received_len = 0\<rparr>"

text \<open>The checksum, one bit and one byte at a time.\<close>

definition crc16_bit :: "u16 \<Rightarrow> u16" where
  "crc16_bit crc = (if crc AND 0x8000 \<noteq> 0 then push_bit 1 crc XOR 0x1021 else push_bit 1 crc)"

definition crc16_byte :: "u16 \<Rightarrow> u8 \<Rightarrow> u16" where
  "crc16_byte crc b = (crc16_bit ^^ 8) (crc XOR push_bit 8 (ucast b))"

definition crc16_ccitt :: "bytes \<Rightarrow> u16" where
  "crc16_ccitt data = foldl crc16_byte 0xFFFF data"

text \<open>A 16-bit little-endian field.\<close>

definition le16 :: "u8 \<Rightarrow> u8 \<Rightarrow> u16" where
  "le16 lo hi = ucast lo OR push_bit 8 (ucast hi)"

text \<open>\<open>memcpy\<close> into the buffer at an offset.\<close>

definition copy_into :: "bytes \<Rightarrow> nat \<Rightarrow> bytes \<Rightarrow> bytes" where
  "copy_into buffer offset payload = take offset buffer @ payload @ drop (offset + length payload) buffer"

record ChunkHeader =
  ch_chunk_index :: u8
  ch_total_chunks :: u8
  ch_total_len :: nat
  ch_chunk_len :: nat
  ch_expected_crc :: u16

definition chunk_header :: "bytes \<Rightarrow> ChunkHeader" where
  "chunk_header data = \<lparr>ch_chunk_index = data ! 4, ch_total_chunks = data ! 5,
     ch_total_len = unat (le16 (data ! 6) (data ! 7)), ch_chunk_len = unat (data ! 8),
     ch_expected_crc = le16 (data ! 9) (data ! 10)\<rparr>"

text \<open>The leading report identifier is skipped when it is there.\<close>

definition strip_report_id :: "bytes \<Rightarrow> bytes" where
  "strip_report_id data = (if data ! 0 = kConfigReportId \<and> length data > 1 then tl data else data)"

definition start_message :: "ConfigReceiver \<Rightarrow> ChunkHeader \<Rightarrow> ConfigReceiver" where
  "start_message r h = r\<lparr>cr_total_len := ch_total_len h, cr_expected_crc := ch_expected_crc h,
     cr_total_chunks := ch_total_chunks h, cr_next_chunk := 0, cr_received_len := 0,
     cr_buffer := replicate (kConfigMaxJsonLen + 1) 0\<rparr>"

definition take_chunk :: "ConfigReceiver \<Rightarrow> ChunkHeader \<Rightarrow> bytes \<Rightarrow> ConfigReceiveResult \<times> ConfigReceiver" where
  "take_chunk r h payload =
     (if ch_chunk_index h \<noteq> cr_next_chunk r \<or> ch_total_len h \<noteq> cr_total_len r \<or>
         ch_total_chunks h \<noteq> cr_total_chunks r \<or> ch_expected_crc h \<noteq> cr_expected_crc r \<or>
         cr_received_len r + ch_chunk_len h > cr_total_len r
      then (cfg_result CfgOutOfOrder, r)
      else
        let r1 = r\<lparr>cr_buffer := copy_into (cr_buffer r) (cr_received_len r) payload,
                   cr_received_len := cr_received_len r + ch_chunk_len h,
                   cr_next_chunk := cr_next_chunk r + 1\<rparr>
        in if cr_next_chunk r1 < cr_total_chunks r1 then (cfg_result CfgPending, r1)
           else if cr_received_len r1 \<noteq> cr_total_len r1 \<or>
                   crc16_ccitt (take (cr_received_len r1) (cr_buffer r1)) \<noteq> cr_expected_crc r1
           then (cfg_result CfgCrcMismatch, r1)
           else (\<lparr>cf_status = CfgComplete, cf_json = take (cr_received_len r1) (cr_buffer r1)\<rparr>,
                 r1\<lparr>cr_buffer := (cr_buffer r1)[cr_received_len r1 := 0]\<rparr>))"

definition config_receive :: "ConfigReceiver \<Rightarrow> bytes option \<Rightarrow> ConfigReceiveResult \<times> ConfigReceiver" where
  "config_receive r packet =
     (case packet of
        None \<Rightarrow> (cfg_result CfgInvalidReport, r)
      | Some [] \<Rightarrow> (cfg_result CfgInvalidReport, r)
      | Some raw \<Rightarrow>
          (let data = strip_report_id raw in
           if length data < kConfigHeaderLen \<or> data ! 0 \<noteq> kConfigMagic0 \<or> data ! 1 \<noteq> kConfigMagic1 \<or>
              data ! 2 \<noteq> kConfigMagic2 \<or> data ! 3 \<noteq> kConfigVersion
           then (cfg_result CfgInvalidReport, r)
           else
             let h = chunk_header data in
             if ch_total_chunks h = 0 \<or> ch_chunk_index h \<ge> ch_total_chunks h \<or> ch_total_len h = 0 \<or>
                ch_total_len h > kConfigMaxJsonLen \<or> ch_chunk_len h > kConfigMaxChunkData \<or>
                kConfigHeaderLen + ch_chunk_len h > length data
             then (cfg_result CfgMalformedChunk, r)
             else
               take_chunk (if ch_chunk_index h = 0 then start_message r h else r) h
                 (take (ch_chunk_len h) (drop kConfigHeaderLen data))))"

definition config_receiver_reset :: "ConfigReceiver \<Rightarrow> ConfigReceiver" where
  "config_receiver_reset r = init_receiver"

record EndpointBoundConfigReceiver =
  eb_receiver :: ConfigReceiver
  eb_endpoint_epoch :: u32

definition init_bound_receiver :: EndpointBoundConfigReceiver where
  "init_bound_receiver = \<lparr>eb_receiver = init_receiver, eb_endpoint_epoch = 0\<rparr>"

definition bound_receive ::
  "EndpointBoundConfigReceiver \<Rightarrow> u32 \<Rightarrow> bytes option \<Rightarrow> ConfigReceiveResult \<times> EndpointBoundConfigReceiver" where
  "bound_receive b endpoint_epoch packet =
     (if endpoint_epoch = 0 then (cfg_result CfgInvalidReport, b)
      else
        let b1 = (if eb_endpoint_epoch b \<noteq> endpoint_epoch
                  then \<lparr>eb_receiver = config_receiver_reset (eb_receiver b), eb_endpoint_epoch = endpoint_epoch\<rparr>
                  else b);
            (result, r) = config_receive (eb_receiver b1) packet
        in (result, b1\<lparr>eb_receiver := r\<rparr>))"

definition bound_reset :: "EndpointBoundConfigReceiver \<Rightarrow> EndpointBoundConfigReceiver" where
  "bound_reset b = \<lparr>eb_receiver = config_receiver_reset (eb_receiver b), eb_endpoint_epoch = 0\<rparr>"

end
