(* ===== verification/Config_Receiver_Facts.thy ===== *)
theory Config_Receiver_Facts
  imports Config_Receiver
begin

text \<open>
  What the configuration receiver promises: chunks sent in order are put together
  again from any state, a complete message is the concatenation of chunks of one
  endpoint lifetime with the announced length and checksum, and the checksum tells
  apart messages that differ in one byte.
\<close>

unbundle bit_operations_syntax

section \<open>The checksum\<close>

lemma xor_cancel_right: "(a :: 'a::len word) XOR c = b XOR c \<longleftrightarrow> a = b"
proof
  assume "a XOR c = b XOR c"
  then have "(a XOR c) XOR c = (b XOR c) XOR c" by simp
  then show "a = b" by (simp add: xor.assoc)
qed simp

lemma xor_cancel_left: "(c :: 'a::len word) XOR a = c XOR b \<longleftrightarrow> a = b"
  using xor_cancel_right [of a c b] by (simp add: xor.commute)

lemma and_top_bit: "(crc :: u16) AND 0x8000 \<noteq> 0 \<longleftrightarrow> bit crc 15"
proof -
  have "(0x8000 :: u16) = 2 ^ 15" by simp
  then show ?thesis by (simp only: and_exp_eq_0_iff_not_bit not_not)
qed

lemma crc16_bit_alt: "crc16_bit crc = push_bit 1 crc XOR (if bit crc 15 then 0x1021 else 0)"
  by (simp add: crc16_bit_def and_top_bit)

lemma crc16_bit_low: "bit (crc16_bit crc) 0 \<longleftrightarrow> bit crc 15"
proof -
  have "bit (0x1021 :: u16) 0" by simp
  moreover have "\<not> bit (push_bit 1 crc) 0" unfolding bit_push_bit_iff by simp
  ultimately show ?thesis unfolding crc16_bit_alt bit_xor_iff by simp
qed

lemma inj_crc16_bit: "inj crc16_bit"
proof (rule injI)
  fix c d :: u16
  assume eq: "crc16_bit c = crc16_bit d"
  then have top: "bit c 15 = bit d 15" by (metis crc16_bit_low)
  then have "push_bit 1 c = push_bit 1 d"
    using eq by (simp only: crc16_bit_alt top xor_cancel_right)
  then have low: "bit c n = bit d n" if "n < 15" for n
  proof -
    have "bit (push_bit 1 c) (Suc n) = bit (push_bit 1 d) (Suc n)"
      using \<open>push_bit 1 c = push_bit 1 d\<close> by (rule arg_cong)
    with that show ?thesis unfolding bit_push_bit_iff by simp
  qed
  show "c = d"
  proof (rule bit_word_eqI)
    fix n assume "n < LENGTH(16)"
    then show "bit c n = bit d n" using top low by (cases "n = 15") auto
  qed
qed

lemma crc16_byte_inj_state: "crc16_byte c b = crc16_byte d b \<longleftrightarrow> c = d"
proof
  assume "crc16_byte c b = crc16_byte d b"
  then have "c XOR push_bit 8 (ucast b) = d XOR push_bit 8 (ucast b)"
    unfolding crc16_byte_def by (rule injD [OF inj_fn [OF inj_crc16_bit]])
  then show "c = d" by (simp only: xor_cancel_right)
qed simp

lemma crc16_byte_inj_byte: "crc16_byte c b = crc16_byte c b' \<longleftrightarrow> b = b'"
proof
  assume "crc16_byte c b = crc16_byte c b'"
  then have "c XOR push_bit 8 (ucast b) = c XOR push_bit 8 (ucast b')"
    unfolding crc16_byte_def by (rule injD [OF inj_fn [OF inj_crc16_bit]])
  then have eq: "push_bit 8 (ucast b :: u16) = push_bit 8 (ucast b')" by (simp only: xor_cancel_left)
  show "b = b'"
  proof (rule bit_word_eqI)
    fix n assume n: "n < LENGTH(8)"
    have "bit (push_bit 8 (ucast b :: u16)) (n + 8) = bit (push_bit 8 (ucast b' :: u16)) (n + 8)"
      using eq by (rule arg_cong)
    with n show "bit b n = bit b' n" unfolding bit_push_bit_iff by (simp add: bit_ucast_iff)
  qed
qed simp

lemma crc16_fold_inj: "foldl crc16_byte c data = foldl crc16_byte d data \<longleftrightarrow> c = d"
  by (induction data arbitrary: c d) (auto simp: crc16_byte_inj_state)

text \<open>
  The checksum detects every change confined to one byte: two messages that
  differ in exactly one position have different checksums.
\<close>
lemma crc_detects_changed_byte:
  assumes "b \<noteq> b'"
  shows "crc16_ccitt (before @ [b] @ after) \<noteq> crc16_ccitt (before @ [b'] @ after)"
  using assms by (simp add: crc16_ccitt_def crc16_fold_inj crc16_byte_inj_byte)

lemma crc_detects_changed_byte_witness:
  "crc16_ccitt [49, 50, 51, 52, 53, 54, 55, 56, 57] = 0x29B1 \<and> crc16_ccitt [49, 50, 51, 52, 53, 54, 55, 56, 56] \<noteq> 0x29B1"
proof -
  have "crc16_ccitt [49, 50, 51, 52, 53, 54, 55, 56, 57] = 0x29B1" by code_simp
  moreover have "crc16_ccitt ([49, 50, 51, 52, 53, 54, 55, 56] @ [57] @ []) \<noteq> crc16_ccitt ([49, 50, 51, 52, 53, 54, 55, 56] @ [56] @ [])"
    by (rule crc_detects_changed_byte) simp
  ultimately show ?thesis by simp
qed

section \<open>The buffer\<close>

lemma length_copy_into: "offset + length payload \<le> length buffer \<Longrightarrow> length (copy_into buffer offset payload) = length buffer"
  by (simp add: copy_into_def)

lemma take_copy_into:
  "offset \<le> length buffer \<Longrightarrow> take (offset + length payload) (copy_into buffer offset payload) = take offset buffer @ payload"
  by (simp add: copy_into_def)

definition receiver_inv :: "ConfigReceiver \<Rightarrow> bool" where
  "receiver_inv r \<longleftrightarrow> length (cr_buffer r) = kConfigMaxJsonLen + 1 \<and> cr_received_len r \<le> cr_total_len r \<and>
     cr_total_len r \<le> kConfigMaxJsonLen"

text \<open>The receiver holds exactly the given chunks of a message with the given header.\<close>

definition holds_chunks :: "ConfigReceiver \<Rightarrow> bytes list \<Rightarrow> bool" where
  "holds_chunks r cs \<longleftrightarrow> unat (cr_next_chunk r) = length cs \<and> cr_received_len r = length (concat cs) \<and>
     take (cr_received_len r) (cr_buffer r) = concat cs"

definition header_matches :: "ConfigReceiver \<Rightarrow> ChunkHeader \<Rightarrow> bool" where
  "header_matches r h \<longleftrightarrow> cr_total_len r = ch_total_len h \<and> cr_expected_crc r = ch_expected_crc h \<and>
     cr_total_chunks r = ch_total_chunks h"

definition good_header :: "ChunkHeader \<Rightarrow> bytes \<Rightarrow> bool" where
  "good_header h payload \<longleftrightarrow> ch_chunk_index h < ch_total_chunks h \<and> 0 < ch_total_len h \<and>
     ch_total_len h \<le> kConfigMaxJsonLen \<and> ch_chunk_len h \<le> kConfigMaxChunkData \<and> length payload = ch_chunk_len h"

lemma start_message_state:
  "holds_chunks (start_message r h) []" "header_matches (start_message r h) h" "cr_next_chunk (start_message r h) = 0"
  "ch_total_len h \<le> kConfigMaxJsonLen \<Longrightarrow> receiver_inv (start_message r h)"
  by (simp_all add: start_message_def holds_chunks_def header_matches_def receiver_inv_def)

text \<open>A chunk is refused without any change, or it is appended.\<close>

definition chunk_fits :: "ConfigReceiver \<Rightarrow> ChunkHeader \<Rightarrow> bool" where
  "chunk_fits r h \<longleftrightarrow> ch_chunk_index h = cr_next_chunk r \<and> header_matches r h \<and>
     cr_received_len r + ch_chunk_len h \<le> cr_total_len r"

lemma take_chunk_refused:
  "\<not> chunk_fits r h \<Longrightarrow> take_chunk r h payload = (cfg_result CfgOutOfOrder, r)"
  by (auto simp: take_chunk_def chunk_fits_def header_matches_def)

lemma take_chunk_appends:
  assumes inv: "receiver_inv r" and holds: "holds_chunks r cs" and fits: "chunk_fits r h" and good: "good_header h payload"
    and step: "take_chunk r h payload = (res, r')"
  shows "receiver_inv r'" "holds_chunks r' (cs @ [payload])" "header_matches r' h"
    and "cf_status res =
      (if Suc (length cs) < unat (ch_total_chunks h) then CfgPending
       else if length (concat (cs @ [payload])) = ch_total_len h \<and> crc16_ccitt (concat (cs @ [payload])) = ch_expected_crc h
       then CfgComplete else CfgCrcMismatch)" (is ?status)
    and "cf_status res = CfgComplete \<Longrightarrow> cf_json res = concat (cs @ [payload])"
proof -
  define r1 where "r1 = r\<lparr>cr_buffer := copy_into (cr_buffer r) (cr_received_len r) payload,
    cr_received_len := cr_received_len r + ch_chunk_len h, cr_next_chunk := cr_next_chunk r + 1\<rparr>"
  have len: "length payload = ch_chunk_len h" using good by (simp add: good_header_def)
  have room: "cr_received_len r + length payload \<le> length (cr_buffer r)" "cr_received_len r \<le> length (cr_buffer r)"
    using inv fits len by (auto simp: receiver_inv_def chunk_fits_def)
  have below: "cr_next_chunk r < ch_total_chunks h" using fits good by (simp add: chunk_fits_def good_header_def)
  then have next1: "unat (cr_next_chunk r + 1) = Suc (unat (cr_next_chunk r))"
  proof -
    have "Suc (unat (cr_next_chunk r)) < 256"
      using below by (intro le_less_trans [OF Suc_leI unat_u8_less]) (simp add: word_less_nat_alt)
    then show ?thesis by (simp add: unat_word_ariths)
  qed
  have inv1: "receiver_inv r1"
    using inv fits len length_copy_into [OF room(1)] by (simp add: receiver_inv_def r1_def chunk_fits_def)
  have holds1: "holds_chunks r1 (cs @ [payload])"
    using holds len next1 take_copy_into [OF room(2), of payload] by (auto simp: holds_chunks_def r1_def)
  have head1: "header_matches r1 h" using fits by (simp add: header_matches_def r1_def chunk_fits_def)
  have next_less: "cr_next_chunk r1 < cr_total_chunks r1 \<longleftrightarrow> Suc (length cs) < unat (ch_total_chunks h)"
    using holds1 head1 by (simp add: word_less_nat_alt holds_chunks_def header_matches_def)
  have st: "(res, r') =
      (if Suc (length cs) < unat (ch_total_chunks h) then (cfg_result CfgPending, r1)
       else if \<not> (length (concat (cs @ [payload])) = ch_total_len h \<and> crc16_ccitt (concat (cs @ [payload])) = ch_expected_crc h)
       then (cfg_result CfgCrcMismatch, r1)
       else (\<lparr>cf_status = CfgComplete, cf_json = concat (cs @ [payload])\<rparr>, r1\<lparr>cr_buffer := (cr_buffer r1)[cr_received_len r1 := 0]\<rparr>))"
  proof -
    have eq: "take_chunk r h payload =
      (if cr_next_chunk r1 < cr_total_chunks r1 then (cfg_result CfgPending, r1)
       else if cr_received_len r1 \<noteq> cr_total_len r1 \<or> crc16_ccitt (take (cr_received_len r1) (cr_buffer r1)) \<noteq> cr_expected_crc r1
       then (cfg_result CfgCrcMismatch, r1)
       else (\<lparr>cf_status = CfgComplete, cf_json = take (cr_received_len r1) (cr_buffer r1)\<rparr>,
             r1\<lparr>cr_buffer := (cr_buffer r1)[cr_received_len r1 := 0]\<rparr>))"
      using fits by (simp add: take_chunk_def chunk_fits_def header_matches_def r1_def Let_def)
    have t: "take (cr_received_len r1) (cr_buffer r1) = concat (cs @ [payload])"
      and l: "cr_received_len r1 = length (concat (cs @ [payload]))"
      and h1: "cr_total_len r1 = ch_total_len h" "cr_expected_crc r1 = ch_expected_crc h"
      using holds1 head1 unfolding holds_chunks_def header_matches_def by blast+
    show ?thesis
      unfolding step [symmetric] eq next_less t h1 unfolding l by simp
  qed
  have zero: "receiver_inv (r1\<lparr>cr_buffer := (cr_buffer r1)[cr_received_len r1 := 0]\<rparr>)"
    "holds_chunks (r1\<lparr>cr_buffer := (cr_buffer r1)[cr_received_len r1 := 0]\<rparr>) (cs @ [payload])"
    "header_matches (r1\<lparr>cr_buffer := (cr_buffer r1)[cr_received_len r1 := 0]\<rparr>) h"
    using inv1 holds1 head1 by (auto simp: receiver_inv_def holds_chunks_def header_matches_def)
  show "receiver_inv r'" "holds_chunks r' (cs @ [payload])" "header_matches r' h" ?status
    "cf_status res = CfgComplete \<Longrightarrow> cf_json res = concat (cs @ [payload])"
    using st inv1 holds1 head1 zero by (auto simp: cfg_result_def split: if_splits)
qed

section \<open>One packet\<close>

text \<open>A packet that passes the format checks, as header and payload.\<close>

definition parse_packet :: "bytes option \<Rightarrow> (ChunkHeader \<times> bytes) option" where
  "parse_packet packet =
     (case packet of
        None \<Rightarrow> None
      | Some raw \<Rightarrow>
          (let data = strip_report_id raw; h = chunk_header data in
           if raw = [] \<or> length data < kConfigHeaderLen \<or> data ! 0 \<noteq> kConfigMagic0 \<or> data ! 1 \<noteq> kConfigMagic1 \<or>
              data ! 2 \<noteq> kConfigMagic2 \<or> data ! 3 \<noteq> kConfigVersion \<or>
              ch_total_chunks h = 0 \<or> ch_chunk_index h \<ge> ch_total_chunks h \<or> ch_total_len h = 0 \<or>
              ch_total_len h > kConfigMaxJsonLen \<or> ch_chunk_len h > kConfigMaxChunkData \<or>
              kConfigHeaderLen + ch_chunk_len h > length data
           then None else Some (h, take (ch_chunk_len h) (drop kConfigHeaderLen data))))"

lemma parse_packet_good: "parse_packet packet = Some (h, payload) \<Longrightarrow> good_header h payload"
  by (auto simp: parse_packet_def good_header_def Let_def not_le kConfigHeaderLen_def split: option.splits if_splits)

lemma config_receive_alt:
  "(case parse_packet packet of
      None \<Rightarrow> snd (config_receive r packet) = r \<and>
        (cf_status (fst (config_receive r packet)) = CfgInvalidReport \<or> cf_status (fst (config_receive r packet)) = CfgMalformedChunk)
    | Some (h, payload) \<Rightarrow>
        config_receive r packet = take_chunk (if ch_chunk_index h = 0 then start_message r h else r) h payload)"
  by (cases packet)
    (auto simp: parse_packet_def config_receive_def cfg_result_def Let_def split: list.splits)

text \<open>Taking a parsed packet, starting a new message at chunk zero.\<close>

definition receives :: "ConfigReceiver \<Rightarrow> ChunkHeader \<Rightarrow> ConfigReceiver" where
  "receives r h = (if ch_chunk_index h = 0 then start_message r h else r)"

lemma receives_inv: "receiver_inv r \<Longrightarrow> good_header h payload \<Longrightarrow> receiver_inv (receives r h)"
  by (simp add: receives_def start_message_state good_header_def)

lemma receives_holds:
  "holds_chunks r cs \<or> ch_chunk_index h = 0 \<Longrightarrow>
     holds_chunks (receives r h) (if ch_chunk_index h = 0 then [] else cs)"
  by (auto simp: receives_def start_message_state)

section \<open>One lifetime per message\<close>

datatype BoundOp = BoundReceive u32 "bytes option" | BoundReset

fun bound_step :: "EndpointBoundConfigReceiver \<Rightarrow> BoundOp \<Rightarrow> EndpointBoundConfigReceiver \<times> ConfigReceiveResult" where
  "bound_step b (BoundReceive epoch packet) = (let (res, b') = bound_receive b epoch packet in (b', res))"
| "bound_step b BoundReset = (bound_reset b, cfg_result CfgPending)"

text \<open>
  An observer collects, with the epoch each came under, the chunks that were taken
  since the last chunk with index zero; it knows nothing of endpoint changes.
\<close>

fun collect_chunks :: "(u32 \<times> bytes) list \<Rightarrow> BoundOp \<times> ConfigReceiveResult \<Rightarrow> (u32 \<times> bytes) list" where
  "collect_chunks g (BoundReceive epoch packet, res) =
     (case (if epoch = 0 then None else parse_packet packet) of
        None \<Rightarrow> g
      | Some (h, payload) \<Rightarrow>
          (let base = (if ch_chunk_index h = 0 then [] else g)
           in if cf_status res = CfgOutOfOrder then base else base @ [(epoch, payload)]))"
| "collect_chunks g (BoundReset, res) = g"

definition receiver_idle :: "ConfigReceiver \<Rightarrow> bool" where
  "receiver_idle r \<longleftrightarrow> cr_next_chunk r = 0"

definition collected_rel :: "EndpointBoundConfigReceiver \<Rightarrow> (u32 \<times> bytes) list \<Rightarrow> bool" where
  "collected_rel b g \<longleftrightarrow> receiver_idle (eb_receiver b) \<or>
     holds_chunks (eb_receiver b) (map snd g) \<and> (\<forall>(e, p) \<in> set g. e = eb_endpoint_epoch b)"

definition bound_inv :: "EndpointBoundConfigReceiver \<Rightarrow> bool" where
  "bound_inv b \<longleftrightarrow> receiver_inv (eb_receiver b)"

lemma receiver_inv_init: "receiver_inv init_receiver"
  by (simp add: receiver_inv_def init_receiver_def)

lemma receiver_idle_init: "receiver_idle init_receiver"
  by (simp add: receiver_idle_def init_receiver_def)

text \<open>One accepted or refused packet on the receiver, with the chunks it holds.\<close>

lemma receive_parsed:
  assumes inv: "receiver_inv r" and holds: "receiver_idle r \<or> holds_chunks r cs"
    and parsed: "parse_packet packet = Some (h, payload)" and step: "config_receive r packet = (res, r')"
  shows "receiver_inv r'"
    and "cf_status res = CfgOutOfOrder \<Longrightarrow>
      r' = receives r h \<and> (receiver_idle r' \<or> holds_chunks r' (if ch_chunk_index h = 0 then [] else cs))"
    and "cf_status res \<noteq> CfgOutOfOrder \<Longrightarrow>
      holds_chunks r' ((if ch_chunk_index h = 0 then [] else cs) @ [payload]) \<and> header_matches r' h \<and>
      (ch_chunk_index h = 0 \<or> \<not> receiver_idle r)"
    and "cf_status res = CfgComplete \<Longrightarrow>
      cf_json res = concat ((if ch_chunk_index h = 0 then [] else cs) @ [payload]) \<and>
      length (cf_json res) = ch_total_len h \<and> crc16_ccitt (cf_json res) = ch_expected_crc h \<and>
      unat (ch_total_chunks h) = Suc (length (if ch_chunk_index h = 0 then [] else cs))"
proof -
  let ?r = "receives r h" and ?cs = "if ch_chunk_index h = 0 then [] else cs"
  have good: "good_header h payload" by (rule parse_packet_good [OF parsed])
  have st: "take_chunk ?r h payload = (res, r')"
    using config_receive_alt [where packet = packet and r = r] parsed step by (simp add: receives_def)
  have inv': "receiver_inv ?r" by (rule receives_inv [OF inv good])
  have all: "receiver_inv r' \<and>
    (cf_status res = CfgOutOfOrder \<longrightarrow> r' = ?r \<and> (receiver_idle r' \<or> holds_chunks r' ?cs)) \<and>
    (cf_status res \<noteq> CfgOutOfOrder \<longrightarrow> holds_chunks r' (?cs @ [payload]) \<and> header_matches r' h \<and>
      (ch_chunk_index h = 0 \<or> \<not> receiver_idle r)) \<and>
    (cf_status res = CfgComplete \<longrightarrow> cf_json res = concat (?cs @ [payload]) \<and>
      length (cf_json res) = ch_total_len h \<and> crc16_ccitt (cf_json res) = ch_expected_crc h \<and>
      unat (ch_total_chunks h) = Suc (length ?cs))"
  proof (cases "chunk_fits ?r h")
    case False
    have "receiver_idle ?r \<or> holds_chunks ?r ?cs"
      using holds receives_holds by (auto simp: receives_def start_message_state)
    then show ?thesis using take_chunk_refused [OF False, of payload] st inv' by (auto simp: cfg_result_def)
  next
    case True
    then have started: "ch_chunk_index h = 0 \<or> \<not> receiver_idle r"
      by (auto simp: chunk_fits_def receives_def receiver_idle_def split: if_splits)
    then have "holds_chunks r cs \<or> ch_chunk_index h = 0" using holds by blast
    then have "holds_chunks ?r ?cs" by (rule receives_holds)
    note app = take_chunk_appends [OF inv' this True good st]
    have "Suc (length ?cs) \<le> unat (ch_total_chunks h)"
    proof -
      have "unat (ch_chunk_index h) = length ?cs"
        using \<open>holds_chunks ?r ?cs\<close> True by (simp add: holds_chunks_def chunk_fits_def)
      then show ?thesis using good by (simp add: good_header_def word_less_nat_alt)
    qed
    then show ?thesis using app started by (auto split: if_splits)
  qed
  show "receiver_inv r'" using all by blast
  show "cf_status res = CfgOutOfOrder \<Longrightarrow> r' = receives r h \<and> (receiver_idle r' \<or> holds_chunks r' ?cs)" using all by blast
  show "cf_status res \<noteq> CfgOutOfOrder \<Longrightarrow> holds_chunks r' (?cs @ [payload]) \<and> header_matches r' h \<and>
      (ch_chunk_index h = 0 \<or> \<not> receiver_idle r)" using all by blast
  show "cf_status res = CfgComplete \<Longrightarrow> cf_json res = concat (?cs @ [payload]) \<and>
      length (cf_json res) = ch_total_len h \<and> crc16_ccitt (cf_json res) = ch_expected_crc h \<and>
      unat (ch_total_chunks h) = Suc (length ?cs)" using all by blast
qed

text \<open>The endpoint-bound receiver is the receiver, reset when the endpoint lifetime changes.\<close>

definition rebound :: "EndpointBoundConfigReceiver \<Rightarrow> u32 \<Rightarrow> EndpointBoundConfigReceiver" where
  "rebound b epoch = (if eb_endpoint_epoch b \<noteq> epoch
     then \<lparr>eb_receiver = init_receiver, eb_endpoint_epoch = epoch\<rparr> else b)"

lemma bound_receive_alt:
  "epoch \<noteq> 0 \<Longrightarrow> bound_receive b epoch packet =
     (fst (config_receive (eb_receiver (rebound b epoch)) packet),
      \<lparr>eb_receiver = snd (config_receive (eb_receiver (rebound b epoch)) packet), eb_endpoint_epoch = epoch\<rparr>)"
  by (simp add: bound_receive_def rebound_def config_receiver_reset_def case_prod_beta Let_def)

lemma rebound_rel:
  assumes "bound_inv b" and "collected_rel b g"
  shows "bound_inv (rebound b epoch)" "collected_rel (rebound b epoch) g" "eb_endpoint_epoch (rebound b epoch) = epoch"
  using assms by (auto simp: rebound_def bound_inv_def collected_rel_def receiver_inv_init receiver_idle_init)

lemma concat_if_map: "(if c then [] else map f xs) @ [y] = map f ((if c then [] else xs)) @ [y]"
  by simp

lemma bound_step_rel:
  assumes inv: "bound_inv b" and rel: "collected_rel b g" and st: "bound_step b op = (b', res)"
  shows "bound_inv b' \<and> collected_rel b' (collect_chunks g (op, res))"
proof (cases op)
  case BoundReset
  then show ?thesis
    using st by (auto simp: bound_reset_def bound_inv_def collected_rel_def config_receiver_reset_def receiver_inv_init receiver_idle_init)
next
  case (BoundReceive epoch packet)
  show ?thesis
  proof (cases "epoch = 0")
    case True
    then show ?thesis using BoundReceive st inv rel by (auto simp: bound_receive_def)
  next
    case False
    let ?b = "rebound b epoch"
    note re = rebound_rel [OF inv rel, of epoch]
    obtain r' where rec: "config_receive (eb_receiver ?b) packet = (res, r')"
      and b': "b' = \<lparr>eb_receiver = r', eb_endpoint_epoch = epoch\<rparr>"
      using st BoundReceive bound_receive_alt [OF False, of b packet] by (auto simp: prod_eq_iff)
    have inv': "receiver_inv (eb_receiver ?b)" using re(1) by (simp add: bound_inv_def)
    have holds: "receiver_idle (eb_receiver ?b) \<or> holds_chunks (eb_receiver ?b) (map snd g)"
      and tags: "\<not> receiver_idle (eb_receiver ?b) \<Longrightarrow> \<forall>(e, p) \<in> set g. e = epoch"
      using re(2,3) by (auto simp: collected_rel_def)
    show ?thesis
    proof (cases "parse_packet packet")
      case None
      then have "r' = eb_receiver ?b" using config_receive_alt [where packet = packet and r = "eb_receiver ?b"] rec by simp
      then show ?thesis using None BoundReceive False b' inv' holds tags by (auto simp: bound_inv_def collected_rel_def)
    next
      case (Some hp)
      obtain h payload where hp: "hp = (h, payload)" by (cases hp)
      note rp = receive_parsed [OF inv' holds Some [unfolded hp] rec]
      have nil: "map snd (if ch_chunk_index h = 0 then [] else g) = (if ch_chunk_index h = 0 then [] else map snd g)"
        by simp
      show ?thesis
      proof (cases "cf_status res = CfgOutOfOrder")
        case True
        have r': "r' = receives (eb_receiver ?b) h" using rp(2) [OF True] by blast
        have "receiver_idle r' \<or> holds_chunks r' (if ch_chunk_index h = 0 then [] else map snd g)"
          using rp(2) [OF True] by blast
        moreover have "receiver_idle r' \<or> (\<forall>(e, p) \<in> set (if ch_chunk_index h = 0 then [] else g). e = epoch)"
          using tags by (auto simp: r' receives_def)
        ultimately show ?thesis
          using True Some hp BoundReceive False b' rp(1)
          by (auto simp: bound_inv_def collected_rel_def Let_def split: if_splits)
      next
        case ok: False
        have "holds_chunks r' ((if ch_chunk_index h = 0 then [] else map snd g) @ [payload])"
          and "ch_chunk_index h = 0 \<or> \<not> receiver_idle (eb_receiver ?b)"
          using rp(3) [OF ok] by blast+
        then show ?thesis
          using ok Some hp BoundReceive False b' rp(1) tags
          by (auto simp: bound_inv_def collected_rel_def Let_def split: if_splits)
      qed
    qed
  qed
qed

lemma bound_inv_step:
  assumes inv: "bound_inv b"
  shows "bound_inv (fst (bound_step b op))"
proof -
  have take: "receiver_inv (snd (take_chunk r h payload))" if "receiver_inv r" "good_header h payload" for r h payload
  proof (cases "chunk_fits r h")
    case True
    then have "length payload \<le> length (cr_buffer r) - cr_received_len r"
      using that by (auto simp: receiver_inv_def chunk_fits_def good_header_def)
    then show ?thesis
      using that True
      by (auto simp: take_chunk_def receiver_inv_def good_header_def chunk_fits_def length_copy_into Let_def)
  next
    case False
    then show ?thesis using that take_chunk_refused by simp
  qed
  have rec: "receiver_inv (snd (config_receive r packet))" if r: "receiver_inv r" for r packet
  proof (cases "parse_packet packet")
    case None
    then show ?thesis using config_receive_alt [where packet = packet and r = r] r by simp
  next
    case (Some hp)
    then obtain h payload where parsed: "parse_packet packet = Some (h, payload)" by (cases hp) auto
    have "config_receive r packet = take_chunk (receives r h) h payload"
      using config_receive_alt [where packet = packet and r = r] parsed by (simp add: receives_def)
    then show ?thesis
      using take [OF receives_inv [OF r parse_packet_good [OF parsed]] parse_packet_good [OF parsed]] by simp
  qed
  show ?thesis
    using inv rec receiver_inv_init
    by (cases op) (auto simp: bound_inv_def bound_receive_def bound_reset_def config_receiver_reset_def case_prod_beta Let_def)
qed

interpretation reassembly: ghost_machine bound_step init_bound_receiver bound_inv collect_chunks "[]" collected_rel
proof unfold_locales
  show "bound_inv init_bound_receiver" by (simp add: bound_inv_def init_bound_receiver_def receiver_inv_init)
  show rel0: "collected_rel init_bound_receiver []"
    by (simp add: collected_rel_def init_bound_receiver_def receiver_idle_init)
  show "bound_inv (fst (bound_step b op))" if "bound_inv b" for b op using that by (rule bound_inv_step)
  show "collected_rel b' (collect_chunks g (op, res))"
    if "bound_inv b" "collected_rel b g" "bound_step b op = (b', res)" for b g op b' res
    using bound_step_rel [OF that] by blast
qed

text \<open>
  C8: A complete configuration message is genuine: whatever packets, endpoint
  changes and resets came before, a packet answered Complete yields exactly the
  concatenation of the chunks taken since chunk zero, all of them from the current
  endpoint lifetime, as many as announced, with the announced length and checksum.
\<close>
theorem complete_message_is_genuine:
  fixes ops
  defines "b \<equiv> run (\<lambda>b op. fst (bound_step b op)) init_bound_receiver ops"
    and "g \<equiv> foldl collect_chunks [] (run_log bound_step init_bound_receiver ops)"
  assumes "bound_receive b epoch packet = (res, b')" and "cf_status res = CfgComplete"
    and "parse_packet packet = Some (h, payload)"
  shows "cf_json res = concat (map snd (collect_chunks g (BoundReceive epoch packet, res)))
    \<and> (\<forall>(e, p) \<in> set (collect_chunks g (BoundReceive epoch packet, res)). e = epoch)
    \<and> length (collect_chunks g (BoundReceive epoch packet, res)) = unat (ch_total_chunks h)
    \<and> length (cf_json res) = ch_total_len h \<and> crc16_ccitt (cf_json res) = ch_expected_crc h"
proof -
  have inv: "bound_inv b" unfolding b_def by (rule reassembly.inv_reachable)
  have rel: "collected_rel b g" unfolding b_def g_def by (rule reassembly.rel_reachable)
  have ne: "epoch \<noteq> 0" using assms(3,4) by (auto simp: bound_receive_def cfg_result_def)
  let ?b = "rebound b epoch"
  note re = rebound_rel [OF inv rel, of epoch]
  obtain r' where rec: "config_receive (eb_receiver ?b) packet = (res, r')"
    using assms(3) bound_receive_alt [OF ne, of b packet] by (auto simp: prod_eq_iff)
  have inv': "receiver_inv (eb_receiver ?b)" using re(1) by (simp add: bound_inv_def)
  have holds: "receiver_idle (eb_receiver ?b) \<or> holds_chunks (eb_receiver ?b) (map snd g)"
    and tags: "\<not> receiver_idle (eb_receiver ?b) \<Longrightarrow> \<forall>(e, p) \<in> set g. e = epoch"
    using re(2,3) by (auto simp: collected_rel_def)
  note rp = receive_parsed [OF inv' holds assms(5) rec]
  have "ch_chunk_index h = 0 \<or> \<not> receiver_idle (eb_receiver ?b)" using rp(3) assms(4) by simp
  then show ?thesis using rp(4) [OF assms(4)] assms(4,5) ne tags by (auto simp: Let_def split: if_splits)
qed

section \<open>Sending\<close>

text \<open>How a host encodes one chunk, as the receiver's header layout requires; the report may be padded.\<close>

definition encode_chunk :: "u8 \<Rightarrow> u8 \<Rightarrow> u16 \<Rightarrow> u16 \<Rightarrow> bytes \<Rightarrow> bytes \<Rightarrow> bytes" where
  "encode_chunk index count total_len crc payload padding =
     [kConfigMagic0, kConfigMagic1, kConfigMagic2, kConfigVersion, index, count,
      ucast total_len, ucast (drop_bit 8 total_len), word_of_nat (length payload),
      ucast crc, ucast (drop_bit 8 crc)] @ payload @ padding"

lemma le16_split: "le16 (ucast w) (ucast (drop_bit 8 w)) = (w :: u16)"
  unfolding le16_def
  by (rule bit_word_eqI) (auto simp: bit_or_iff bit_push_bit_iff bit_ucast_iff bit_drop_bit_eq)

lemma parse_encoded:
  assumes "index < count" and "0 < total_len" and "unat total_len \<le> kConfigMaxJsonLen" and "length payload \<le> kConfigMaxChunkData"
  shows "parse_packet (Some (encode_chunk index count total_len crc payload padding)) =
    Some (\<lparr>ch_chunk_index = index, ch_total_chunks = count, ch_total_len = unat total_len,
           ch_chunk_len = length payload, ch_expected_crc = crc\<rparr>, payload)"
proof -
  let ?raw = "encode_chunk index count total_len crc payload padding"
  have strip: "strip_report_id ?raw = ?raw"
    by (simp add: strip_report_id_def encode_chunk_def kConfigMagic0_def kConfigReportId_def)
  have len: "unat (word_of_nat (length payload) :: u8) = length payload"
    using assms(4) by (simp add: unsigned_of_nat take_bit_nat_eq_self kConfigMaxChunkData_def)
  have head: "chunk_header ?raw = \<lparr>ch_chunk_index = index, ch_total_chunks = count, ch_total_len = unat total_len,
           ch_chunk_len = length payload, ch_expected_crc = crc\<rparr>"
    by (simp add: chunk_header_def encode_chunk_def le16_split len)
  have "count \<noteq> 0" using assms(1) by auto
  then show ?thesis
    using assms(1-4) unfolding parse_packet_def option.case strip Let_def head
    by (simp add: encode_chunk_def kConfigHeaderLen_def not_le not_less word_gt_0 unat_gt_0)
qed

definition message_packet :: "bytes list \<Rightarrow> (nat \<Rightarrow> bytes) \<Rightarrow> nat \<Rightarrow> bytes" where
  "message_packet cs padding i =
     encode_chunk (word_of_nat i) (word_of_nat (length cs)) (word_of_nat (length (concat cs)))
       (crc16_ccitt (concat cs)) (cs ! i) (padding i)"

definition sendable :: "bytes list \<Rightarrow> bool" where
  "sendable cs \<longleftrightarrow> cs \<noteq> [] \<and> length cs \<le> 255 \<and> list_all (\<lambda>c. length c \<le> kConfigMaxChunkData) cs \<and>
     concat cs \<noteq> [] \<and> length (concat cs) \<le> kConfigMaxJsonLen"

definition message_header :: "bytes list \<Rightarrow> nat \<Rightarrow> ChunkHeader" where
  "message_header cs i = \<lparr>ch_chunk_index = word_of_nat i, ch_total_chunks = word_of_nat (length cs),
     ch_total_len = length (concat cs), ch_chunk_len = length (cs ! i), ch_expected_crc = crc16_ccitt (concat cs)\<rparr>"

lemma message_packet_parses:
  assumes "sendable cs" and "i < length cs"
  shows "parse_packet (Some (message_packet cs padding i)) = Some (message_header cs i, cs ! i)"
proof -
  have len: "unat (word_of_nat (length (concat cs)) :: u16) = length (concat cs)"
    using assms(1) by (simp add: sendable_def unsigned_of_nat take_bit_nat_eq_self kConfigMaxJsonLen_def)
  have idx: "(word_of_nat i :: u8) < word_of_nat (length cs)"
    using assms by (simp add: sendable_def word_less_nat_alt unsigned_of_nat take_bit_nat_eq_self)
  have "(0 :: u16) < word_of_nat (length (concat cs))"
    using len assms(1) by (simp add: sendable_def word_less_nat_alt del: length_concat)
  moreover have "length (cs ! i) \<le> kConfigMaxChunkData"
    using assms by (simp add: sendable_def list_all_length)
  moreover have "unat (word_of_nat (length (concat cs)) :: u16) \<le> kConfigMaxJsonLen"
    using len assms(1) by (simp add: sendable_def del: length_concat)
  ultimately show ?thesis
    using parse_encoded [OF idx] len by (simp add: message_packet_def message_header_def del: length_concat)
qed

text \<open>The receiver after the first \<open>k\<close> packets of a message.\<close>

definition halfway :: "bytes list \<Rightarrow> nat \<Rightarrow> ConfigReceiver \<Rightarrow> bool" where
  "halfway cs k r \<longleftrightarrow> k = 0 \<or> holds_chunks r (take k cs) \<and> header_matches r (message_header cs k)"

lemma length_concat_take: "k < length cs \<Longrightarrow> length (concat (take k cs)) + length (cs ! k) \<le> length (concat cs)"
  by (induction cs arbitrary: k) (auto simp: nth_Cons take_Cons split: nat.splits)

lemma receive_next:
  assumes s: "sendable cs" and k: "k < length cs" and inv: "receiver_inv r" and half: "halfway cs k r"
    and rec: "config_receive r (Some (message_packet cs padding k)) = (res, r')"
  shows "receiver_inv r'" "halfway cs (Suc k) r'"
    and "res = (if Suc k < length cs then cfg_result CfgPending else \<lparr>cf_status = CfgComplete, cf_json = concat cs\<rparr>)"
proof -
  let ?h = "message_header cs k"
  have idx0: "ch_chunk_index ?h = 0 \<longleftrightarrow> k = 0" and idx: "unat (ch_chunk_index ?h) = k"
    and count: "unat (ch_total_chunks ?h) = length cs"
    using s k by (simp_all add: message_header_def sendable_def word_unat_eq_iff unsigned_of_nat take_bit_nat_eq_self)
  have parsed: "parse_packet (Some (message_packet cs padding k)) = Some (?h, cs ! k)"
    by (rule message_packet_parses [OF s k])
  note good = parse_packet_good [OF parsed]
  have st: "take_chunk (receives r ?h) ?h (cs ! k) = (res, r')"
    using config_receive_alt [where packet = "Some (message_packet cs padding k)" and r = r] parsed rec
    by (simp add: receives_def)
  have holds: "holds_chunks (receives r ?h) (take k cs)" and head: "header_matches (receives r ?h) ?h"
    using half by (auto simp: receives_def idx0 halfway_def start_message_state)
  have "ch_chunk_index ?h = cr_next_chunk (receives r ?h)"
    using holds idx k by (simp add: word_unat_eq_iff holds_chunks_def)
  then have fits: "chunk_fits (receives r ?h) ?h"
    using head holds length_concat_take [OF k]
    by (simp add: chunk_fits_def header_matches_def holds_chunks_def message_header_def del: length_concat)
  note app = take_chunk_appends [OF receives_inv [OF inv good] holds fits good st]
  have snoc: "take k cs @ [cs ! k] = take (Suc k) cs" using k by (simp add: take_Suc_conv_app_nth)
  show "receiver_inv r'" by (rule app(1))
  show "halfway cs (Suc k) r'"
    using app(2,3) snoc by (auto simp: halfway_def header_matches_def message_header_def)
  have full: "take (Suc k) cs = cs" if "\<not> Suc k < length cs" using that by simp
  have status: "cf_status res = (if Suc k < length cs then CfgPending else CfgComplete)"
    using app(4) count full k unfolding snoc by (auto simp: message_header_def simp del: length_concat)
  show "res = (if Suc k < length cs then cfg_result CfgPending else \<lparr>cf_status = CfgComplete, cf_json = concat cs\<rparr>)"
  proof (cases "Suc k < length cs")
    case True
    have "fst (take_chunk (receives r ?h) ?h (cs ! k)) \<in> {cfg_result CfgPending, cfg_result CfgOutOfOrder, cfg_result CfgCrcMismatch}
        \<or> cf_status (fst (take_chunk (receives r ?h) ?h (cs ! k))) = CfgComplete"
      by (simp add: take_chunk_def Let_def)
    then show ?thesis using True status st by (auto simp: cfg_result_def)
  next
    case False
    then have "cf_status res = CfgComplete" using status by simp
    then have "cf_json res = concat cs" using app(5) snoc full [OF False] by simp
    then show ?thesis using False status by (cases res) simp
  qed
qed

text \<open>
  C23: Any message of at most 2048 bytes, cut into at most 255 chunks of at most 52
  bytes in any way and sent in order under one live endpoint, arrives: from every
  reachable receiver state all packets but the last are answered Pending and the
  last is answered Complete with the message.
\<close>
theorem sent_message_arrives:
  fixes ops
  defines "b \<equiv> run (\<lambda>b op. fst (bound_step b op)) init_bound_receiver ops"
  assumes "sendable cs" and "epoch \<noteq> 0"
  shows "map snd (run_log bound_step b (map (\<lambda>i. BoundReceive epoch (Some (message_packet cs padding i))) [0..<length cs]))
    = replicate (length cs - 1) (cfg_result CfgPending) @ [\<lparr>cf_status = CfgComplete, cf_json = concat cs\<rparr>]"
proof -
  have step: "bound_step b (BoundReceive epoch (Some p)) =
      (\<lparr>eb_receiver = snd (config_receive (eb_receiver (rebound b epoch)) (Some p)), eb_endpoint_epoch = epoch\<rparr>,
       fst (config_receive (eb_receiver (rebound b epoch)) (Some p)))" for b p
    using bound_receive_alt [OF assms(3)] by simp
  have "k < length cs \<Longrightarrow> bound_inv b \<Longrightarrow> k = 0 \<or> halfway cs k (eb_receiver b) \<and> eb_endpoint_epoch b = epoch \<Longrightarrow>
      map snd (run_log bound_step b (map (\<lambda>i. BoundReceive epoch (Some (message_packet cs padding i))) [k..<length cs]))
      = replicate (length cs - 1 - k) (cfg_result CfgPending) @ [\<lparr>cf_status = CfgComplete, cf_json = concat cs\<rparr>]" for b k
  proof (induction "length cs - k" arbitrary: b k)
    case 0
    then show ?case by simp
  next
    case (Suc m)
    let ?p = "message_packet cs padding k" and ?r = "eb_receiver (rebound b epoch)"
    obtain res r' where rec: "config_receive ?r (Some ?p) = (res, r')" by fastforce
    have "receiver_inv ?r" using Suc.prems(2) by (simp add: rebound_def bound_inv_def receiver_inv_init)
    moreover have "halfway cs k ?r" using Suc.prems(3) by (auto simp: rebound_def halfway_def)
    ultimately have nxt: "receiver_inv r'" "halfway cs (Suc k) r'"
      "res = (if Suc k < length cs then cfg_result CfgPending else \<lparr>cf_status = CfgComplete, cf_json = concat cs\<rparr>)"
      using receive_next [OF assms(2) Suc.prems(1) _ _ rec] by blast+
    let ?b = "\<lparr>eb_receiver = r', eb_endpoint_epoch = epoch\<rparr>"
    have upt: "[k..<length cs] = k # [Suc k..<length cs]" using Suc.prems(1) by (simp add: upt_conv_Cons)
    have head: "bound_step b (BoundReceive epoch (Some ?p)) = (?b, res)" using step [of b ?p] rec by simp
    show ?case
    proof (cases "Suc k < length cs")
      case True
      have "m = length cs - Suc k" using Suc.hyps(2) by simp
      from Suc.hyps(1) [OF this True, of ?b]
      have "map snd (run_log bound_step ?b (map (\<lambda>i. BoundReceive epoch (Some (message_packet cs padding i))) [Suc k..<length cs]))
          = replicate (length cs - 1 - Suc k) (cfg_result CfgPending) @ [\<lparr>cf_status = CfgComplete, cf_json = concat cs\<rparr>]"
        using nxt by (simp add: bound_inv_def)
      moreover have "length cs - 1 - k = Suc (length cs - 1 - Suc k)" using True by simp
      ultimately show ?thesis
        unfolding upt list.map run_log.simps head Let_def prod.case using True nxt(3) by simp
    next
      case False
      then show ?thesis unfolding upt list.map run_log.simps head Let_def prod.case using nxt(3) Suc.prems(1) by simp
    qed
  qed
  from this [of 0 b] show ?thesis
    using assms(2) reassembly.inv_reachable [of ops] by (simp add: sendable_def b_def)
qed

theorem sent_message_arrives_witness:
  "map snd (run_log bound_step init_bound_receiver
      (map (\<lambda>i. BoundReceive 5 (Some (message_packet [[123], [125]] (\<lambda>i. [0, 0]) i))) [0..<2]))
    = [cfg_result CfgPending, \<lparr>cf_status = CfgComplete, cf_json = [123, 125]\<rparr>]"
proof -
  have "sendable [[123], [125]]" by code_simp
  note arrives = sent_message_arrives [OF this, of 5 "[]" "\<lambda>i. [0, 0]"]
  have n: "length [[123 :: u8], [125]] = 2" by simp
  have result: "replicate (2 - 1 :: nat) (cfg_result CfgPending) @ [\<lparr>cf_status = CfgComplete, cf_json = concat [[123], [125]]\<rparr>]
      = [cfg_result CfgPending, \<lparr>cf_status = CfgComplete, cf_json = [123, 125]\<rparr>]" by simp
  have "(5 :: u32) \<noteq> 0" by simp
  from arrives [OF this] show ?thesis unfolding n result run_Nil .
qed

text \<open>The witness of genuineness: a one-chunk message in a fresh receiver.\<close>

theorem complete_message_is_genuine_witness:
  "cf_json (fst (bound_receive init_bound_receiver 5 (Some (message_packet [[123, 125]] (\<lambda>i. []) 0)))) = [123, 125]"
proof -
  let ?p = "Some (message_packet [[123, 125]] (\<lambda>i. []) 0)"
  have c: "cf_status (fst (bound_receive (run (\<lambda>b op. fst (bound_step b op)) init_bound_receiver []) 5 ?p)) = CfgComplete"
    by code_simp
  have parsed: "parse_packet ?p = Some (message_header [[123, 125]] 0, [123, 125])" by code_simp
  from complete_message_is_genuine [OF prod.collapse [symmetric] c parsed]
  show ?thesis using parsed c by (auto simp: message_header_def)
qed

end
