(* ===== verification/Audio_Arbiter.thy ===== *)
theory Audio_Arbiter
  imports Prelude
begin

text \<open>
  \<^verbatim>\<open>components/keyboard/include/keyboard/audio_io_arbiter.h\<close> and
  \<^verbatim>\<open>src/audio_io_arbiter.cpp\<close>: the lock-free arbiter between microphone, speaker
  and deep sleep.  Each method is given twice: as a function on the four atomics
  (what one caller sees alone) and as a small program whose every step is one
  atomic access, so that any number of threads can interleave.  Atomic accesses
  are taken to be sequentially consistent; a weak compare-exchange may fail
  although the values agree.
\<close>

unbundle bit_operations_syntax

section \<open>The atomics\<close>

record AudioIoArbiter =
  ar_speaker_generation :: u32
  ar_microphone_generation :: u32
  ar_microphone_power_ready_generation :: u32
  ar_runtime_transition_gate :: u32

definition init_arbiter :: AudioIoArbiter where
  "init_arbiter = \<lparr>ar_speaker_generation = 0, ar_microphone_generation = 0,
     ar_microphone_power_ready_generation = 0, ar_runtime_transition_gate = 0\<rparr>"

definition kDeepSleepQuiescingBit :: u32 where "kDeepSleepQuiescingBit = push_bit 31 1"
definition kRuntimeTransitionCountMask :: u32 where "kRuntimeTransitionCountMask = NOT kDeepSleepQuiescingBit"

section \<open>The methods as functions\<close>

definition try_enter_runtime_transition :: "AudioIoArbiter \<Rightarrow> bool \<times> AudioIoArbiter" where
  "try_enter_runtime_transition a =
     (let state = ar_runtime_transition_gate a in
      if state AND kDeepSleepQuiescingBit \<noteq> 0 \<or>
         state AND kRuntimeTransitionCountMask = kRuntimeTransitionCountMask
      then (False, a) else (True, a\<lparr>ar_runtime_transition_gate := state + 1\<rparr>))"

definition leave_runtime_transition :: "AudioIoArbiter \<Rightarrow> AudioIoArbiter" where
  "leave_runtime_transition a = a\<lparr>ar_runtime_transition_gate := ar_runtime_transition_gate a - 1\<rparr>"

definition try_begin_speaker :: "AudioIoArbiter \<Rightarrow> u32 \<Rightarrow> bool \<times> AudioIoArbiter" where
  "try_begin_speaker a generation =
     (if generation = 0 then (False, a)
      else
        let (entered, a1) = try_enter_runtime_transition a in
        if \<not> entered then (False, a1)
        else
          let (accepted, a2) =
                (if ar_microphone_generation a1 = 0 then
                   (if ar_speaker_generation a1 = 0
                    then (True, a1\<lparr>ar_speaker_generation := generation\<rparr>) else (False, a1))
                 else (False, a1));
              (accepted', a3) =
                (if accepted \<and> ar_microphone_generation a2 \<noteq> 0 then
                   (False, if ar_speaker_generation a2 = generation
                           then a2\<lparr>ar_speaker_generation := 0\<rparr> else a2)
                 else (accepted, a2))
          in (accepted', leave_runtime_transition a3))"

definition finish_speaker :: "AudioIoArbiter \<Rightarrow> u32 \<Rightarrow> bool \<times> AudioIoArbiter" where
  "finish_speaker a generation =
     (if generation = 0 then (False, a)
      else if ar_speaker_generation a = generation then (True, a\<lparr>ar_speaker_generation := 0\<rparr>) else (False, a))"

definition request_microphone :: "AudioIoArbiter \<Rightarrow> u32 \<Rightarrow> bool \<times> AudioIoArbiter" where
  "request_microphone a generation =
     (if generation = 0 then (False, a)
      else
        let (entered, a1) = try_enter_runtime_transition a in
        if \<not> entered then (False, a1)
        else (True, leave_runtime_transition (a1\<lparr>ar_microphone_power_ready_generation := 0,
                      ar_microphone_generation := generation\<rparr>)))"

definition mark_microphone_power_ready :: "AudioIoArbiter \<Rightarrow> u32 \<Rightarrow> bool \<times> AudioIoArbiter" where
  "mark_microphone_power_ready a generation =
     (if generation = 0 \<or> ar_microphone_generation a \<noteq> generation then (False, a)
      else (True, a\<lparr>ar_microphone_power_ready_generation := generation\<rparr>))"

definition finish_microphone :: "AudioIoArbiter \<Rightarrow> u32 \<Rightarrow> bool \<times> AudioIoArbiter" where
  "finish_microphone a generation =
     (if generation = 0 then (False, a)
      else if ar_microphone_generation a \<noteq> generation then (False, a)
      else
        let a1 = a\<lparr>ar_microphone_generation := 0\<rparr>
        in (True, if ar_microphone_power_ready_generation a1 = generation
                  then a1\<lparr>ar_microphone_power_ready_generation := 0\<rparr> else a1))"

definition microphone_hardware_ready :: "AudioIoArbiter \<Rightarrow> u32 \<Rightarrow> bool" where
  "microphone_hardware_ready a generation \<longleftrightarrow> generation \<noteq> 0 \<and>
     ar_microphone_generation a = generation \<and> ar_microphone_power_ready_generation a = generation \<and>
     ar_speaker_generation a = 0"

definition speaker_active :: "AudioIoArbiter \<Rightarrow> bool" where
  "speaker_active a \<longleftrightarrow> ar_speaker_generation a \<noteq> 0"

definition microphone_requested :: "AudioIoArbiter \<Rightarrow> bool" where
  "microphone_requested a \<longleftrightarrow> ar_microphone_generation a \<noteq> 0"

definition try_begin_deep_sleep_quiesce :: "AudioIoArbiter \<Rightarrow> bool \<times> AudioIoArbiter" where
  "try_begin_deep_sleep_quiesce a =
     (if ar_runtime_transition_gate a \<noteq> 0 then (False, a)
      else
        let a1 = a\<lparr>ar_runtime_transition_gate := kDeepSleepQuiescingBit\<rparr> in
        if ar_speaker_generation a1 \<noteq> 0 \<or> ar_microphone_generation a1 \<noteq> 0
        then (False, a1\<lparr>ar_runtime_transition_gate := 0\<rparr>) else (True, a1))"

definition cancel_deep_sleep_quiesce :: "AudioIoArbiter \<Rightarrow> bool \<times> AudioIoArbiter" where
  "cancel_deep_sleep_quiesce a =
     (if ar_runtime_transition_gate a = kDeepSleepQuiescingBit
      then (True, a\<lparr>ar_runtime_transition_gate := 0\<rparr>) else (False, a))"

definition deep_sleep_quiescing :: "AudioIoArbiter \<Rightarrow> bool" where
  "deep_sleep_quiescing a \<longleftrightarrow> ar_runtime_transition_gate a AND kDeepSleepQuiescingBit \<noteq> 0"

section \<open>The methods as programs of atomic steps\<close>

datatype ArbOp = BeginSpeaker u32 | FinishSpeaker u32 | RequestMic u32 | MarkPowerReady u32
  | FinishMic u32 | HardwareReady u32 | BeginQuiesce | CancelQuiesce

datatype ArbEntry = ForSpeaker u32 | ForMic u32

text \<open>Program counters, each with the locals that are live there.\<close>

datatype ArbPc =
    Returned bool
  | EnterLoad ArbEntry | EnterTry ArbEntry u32
  | SpeakerCheckMic u32 | SpeakerReserve u32 | SpeakerRecheck u32 | SpeakerRollback u32 | LeaveGate bool
  | SpeakerFinish u32
  | MicClearReady u32 | MicStore u32
  | PowerCheck u32 | PowerStore u32
  | MicFinish u32 | MicFinishReady u32
  | ReadyMic u32 | ReadyPower u32 | ReadySpeaker u32
  | QuiesceClose | QuiesceSpeaker | QuiesceMic | QuiesceReopen
  | CancelGate

fun arb_start :: "ArbOp \<Rightarrow> ArbPc" where
  "arb_start (BeginSpeaker g) = (if g = 0 then Returned False else EnterLoad (ForSpeaker g))"
| "arb_start (FinishSpeaker g) = (if g = 0 then Returned False else SpeakerFinish g)"
| "arb_start (RequestMic g) = (if g = 0 then Returned False else EnterLoad (ForMic g))"
| "arb_start (MarkPowerReady g) = (if g = 0 then Returned False else PowerCheck g)"
| "arb_start (FinishMic g) = (if g = 0 then Returned False else MicFinish g)"
| "arb_start (HardwareReady g) = (if g = 0 then Returned False else ReadyMic g)"
| "arb_start BeginQuiesce = QuiesceClose"
| "arb_start CancelQuiesce = CancelGate"

fun after_enter :: "ArbEntry \<Rightarrow> ArbPc" where
  "after_enter (ForSpeaker g) = SpeakerCheckMic g"
| "after_enter (ForMic g) = MicClearReady g"

text \<open>One atomic access; \<open>spurious\<close> makes a weak compare-exchange fail.\<close>

fun arb_exec :: "bool \<Rightarrow> AudioIoArbiter \<Rightarrow> ArbPc \<Rightarrow> AudioIoArbiter \<times> ArbPc" where
  "arb_exec spurious a (Returned r) = (a, Returned r)"
| "arb_exec spurious a (EnterLoad e) = (a, EnterTry e (ar_runtime_transition_gate a))"
| "arb_exec spurious a (EnterTry e state) =
     (if state AND kDeepSleepQuiescingBit \<noteq> 0 then (a, Returned False)
      else if state AND kRuntimeTransitionCountMask = kRuntimeTransitionCountMask then (a, Returned False)
      else if ar_runtime_transition_gate a = state \<and> \<not> spurious
      then (a\<lparr>ar_runtime_transition_gate := state + 1\<rparr>, after_enter e)
      else (a, EnterTry e (ar_runtime_transition_gate a)))"
| "arb_exec spurious a (SpeakerCheckMic g) =
     (if ar_microphone_generation a = 0 then (a, SpeakerReserve g) else (a, LeaveGate False))"
| "arb_exec spurious a (SpeakerReserve g) =
     (if ar_speaker_generation a = 0 then (a\<lparr>ar_speaker_generation := g\<rparr>, SpeakerRecheck g)
      else (a, LeaveGate False))"
| "arb_exec spurious a (SpeakerRecheck g) =
     (if ar_microphone_generation a \<noteq> 0 then (a, SpeakerRollback g) else (a, LeaveGate True))"
| "arb_exec spurious a (SpeakerRollback g) =
     (if ar_speaker_generation a = g then a\<lparr>ar_speaker_generation := 0\<rparr> else a, LeaveGate False)"
| "arb_exec spurious a (LeaveGate r) =
     (a\<lparr>ar_runtime_transition_gate := ar_runtime_transition_gate a - 1\<rparr>, Returned r)"
| "arb_exec spurious a (SpeakerFinish g) =
     (if ar_speaker_generation a = g then (a\<lparr>ar_speaker_generation := 0\<rparr>, Returned True)
      else (a, Returned False))"
| "arb_exec spurious a (MicClearReady g) = (a\<lparr>ar_microphone_power_ready_generation := 0\<rparr>, MicStore g)"
| "arb_exec spurious a (MicStore g) = (a\<lparr>ar_microphone_generation := g\<rparr>, LeaveGate True)"
| "arb_exec spurious a (PowerCheck g) =
     (if ar_microphone_generation a \<noteq> g then (a, Returned False) else (a, PowerStore g))"
| "arb_exec spurious a (PowerStore g) = (a\<lparr>ar_microphone_power_ready_generation := g\<rparr>, Returned True)"
| "arb_exec spurious a (MicFinish g) =
     (if ar_microphone_generation a = g then (a\<lparr>ar_microphone_generation := 0\<rparr>, MicFinishReady g)
      else (a, Returned False))"
| "arb_exec spurious a (MicFinishReady g) =
     (if ar_microphone_power_ready_generation a = g then a\<lparr>ar_microphone_power_ready_generation := 0\<rparr> else a,
      Returned True)"
| "arb_exec spurious a (ReadyMic g) =
     (if ar_microphone_generation a = g then (a, ReadyPower g) else (a, Returned False))"
| "arb_exec spurious a (ReadyPower g) =
     (if ar_microphone_power_ready_generation a = g then (a, ReadySpeaker g) else (a, Returned False))"
| "arb_exec spurious a (ReadySpeaker g) = (a, Returned (ar_speaker_generation a = 0))"
| "arb_exec spurious a QuiesceClose =
     (if ar_runtime_transition_gate a = 0
      then (a\<lparr>ar_runtime_transition_gate := kDeepSleepQuiescingBit\<rparr>, QuiesceSpeaker)
      else (a, Returned False))"
| "arb_exec spurious a QuiesceSpeaker =
     (if ar_speaker_generation a \<noteq> 0 then (a, QuiesceReopen) else (a, QuiesceMic))"
| "arb_exec spurious a QuiesceMic =
     (if ar_microphone_generation a \<noteq> 0 then (a, QuiesceReopen) else (a, Returned True))"
| "arb_exec spurious a QuiesceReopen = (a\<lparr>ar_runtime_transition_gate := 0\<rparr>, Returned False)"
| "arb_exec spurious a CancelGate =
     (if ar_runtime_transition_gate a = kDeepSleepQuiescingBit
      then (a\<lparr>ar_runtime_transition_gate := 0\<rparr>, Returned True) else (a, Returned False))"

section \<open>Interleaved executions\<close>

text \<open>
  Threads are numbered.  As in the firmware, one task (the power task, thread 0)
  begins and cancels deep sleep and one task (the speaker task, thread 1) owns the
  speaker operations; any number of tasks use the microphone operations.  Three
  ghost flags record what the callers were told: that deep sleep is quiesced, that
  the speaker is granted, and that the microphone hardware is free.
\<close>

record ArbWorld =
  aw_arbiter :: AudioIoArbiter
  aw_pc :: "nat \<Rightarrow> ArbPc"
  aw_quiesced :: bool
  aw_speaker_granted :: bool
  aw_microphone_clear :: bool

definition init_arb_world :: ArbWorld where
  "init_arb_world = \<lparr>aw_arbiter = init_arbiter, aw_pc = (\<lambda>t. Returned False), aw_quiesced = False,
     aw_speaker_granted = False, aw_microphone_clear = False\<rparr>"

fun allowed_op :: "nat \<Rightarrow> ArbOp \<Rightarrow> bool" where
  "allowed_op t (BeginSpeaker g) \<longleftrightarrow> t = 1"
| "allowed_op t (FinishSpeaker g) \<longleftrightarrow> t = 1"
| "allowed_op t BeginQuiesce \<longleftrightarrow> t = 0"
| "allowed_op t CancelQuiesce \<longleftrightarrow> t = 0"
| "allowed_op t _ \<longleftrightarrow> True"

text \<open>
  Each flag follows the answers: it is set by the access that decides a positive answer and
  cleared by the one that gives the right back.  A microphone owner whose generation was
  replaced while it looked has no right to the hardware.
\<close>

definition ghost_quiesced :: "ArbPc \<Rightarrow> ArbPc \<Rightarrow> bool \<Rightarrow> bool" where
  "ghost_quiesced pc pc' q =
     (if pc = QuiesceMic \<and> pc' = Returned True then True
      else if pc = CancelGate \<and> pc' = Returned True then False else q)"

definition ghost_granted :: "ArbPc \<Rightarrow> ArbPc \<Rightarrow> bool \<Rightarrow> bool" where
  "ghost_granted pc pc' s =
     (case pc of SpeakerRecheck g \<Rightarrow> s \<or> pc' = LeaveGate True
      | SpeakerFinish g \<Rightarrow> s \<and> pc' \<noteq> Returned True
      | _ \<Rightarrow> s)"

definition ghost_clear :: "AudioIoArbiter \<Rightarrow> ArbPc \<Rightarrow> ArbPc \<Rightarrow> bool \<Rightarrow> bool" where
  "ghost_clear a pc pc' m =
     (case pc of ReadySpeaker g \<Rightarrow> m \<or> (pc' = Returned True \<and> ar_microphone_generation a = g)
      | MicFinish g \<Rightarrow> m \<and> pc' = Returned False
      | _ \<Rightarrow> m)"

definition arb_thread_step :: "bool \<Rightarrow> nat \<Rightarrow> ArbWorld \<Rightarrow> ArbWorld" where
  "arb_thread_step spurious t w =
     (let a = aw_arbiter w; pc = aw_pc w t; (a', pc') = arb_exec spurious a pc in
      \<lparr>aw_arbiter = a', aw_pc = (aw_pc w)(t := pc'), aw_quiesced = ghost_quiesced pc pc' (aw_quiesced w),
       aw_speaker_granted = ghost_granted pc pc' (aw_speaker_granted w),
       aw_microphone_clear = ghost_clear a pc pc' (aw_microphone_clear w)\<rparr>)"

inductive arb_step :: "ArbWorld \<Rightarrow> ArbWorld \<Rightarrow> bool" where
  arb_call: "aw_pc w t = Returned r \<Longrightarrow> allowed_op t op \<Longrightarrow>
     arb_step w (w\<lparr>aw_pc := (aw_pc w)(t := arb_start op)\<rparr>)"
| arb_access: "arb_step w (arb_thread_step spurious t w)"

inductive arb_reachable :: "ArbWorld \<Rightarrow> bool" where
  arb_init: "arb_reachable init_arb_world"
| arb_next: "arb_reachable w \<Longrightarrow> arb_step w w' \<Longrightarrow> arb_reachable w'"

inductive_cases arb_stepE: "arb_step w w'"

end
