(* ===== verification/Audio_Arbiter_Facts.thy ===== *)
theory Audio_Arbiter_Facts
  imports Audio_Arbiter
begin

text \<open>
  What the audio arbiter promises under every interleaving of its threads: the
  gate counts the transitions in flight, deep sleep excludes both audio sides, and a
  method that runs undisturbed computes its sequential function.  That the speaker is never
  granted while the microphone hardware is clear is shown for sequentially consistent
  accesses only: the source asks for acquire and release, which let the speaker's
  reservation and its second look at the microphone be seen in the other order, and do
  not promise this exclusion.
\<close>

unbundle bit_operations_syntax

section \<open>The gate word\<close>

lemma unat_quiescing_bit: "unat kDeepSleepQuiescingBit = 2 ^ 31"
  by (simp add: kDeepSleepQuiescingBit_def)

lemma quiescing_bit_zero: "(s :: u32) AND kDeepSleepQuiescingBit = 0 \<longleftrightarrow> \<not> bit s 31"
proof -
  have "kDeepSleepQuiescingBit = 2 ^ 31" by (simp add: kDeepSleepQuiescingBit_def)
  show ?thesis unfolding \<open>kDeepSleepQuiescingBit = 2 ^ 31\<close> by (rule and_exp_eq_0_iff_not_bit)
qed

lemma low_count:
  assumes "\<not> bit (s :: u32) 31"
  shows "unat s < 2 ^ 31" and "s AND kRuntimeTransitionCountMask = s"
proof -
  have "take_bit 31 s = s"
    by (rule bit_word_eqI) (use assms in \<open>auto simp: bit_take_bit_iff less_Suc_eq numeral_eq_Suc\<close>)
  then have "unat s = take_bit 31 (unat s)" by (metis unsigned_take_bit_eq)
  then show "unat s < 2 ^ 31" by (metis take_bit_nat_less_exp)
  show "s AND kRuntimeTransitionCountMask = s"
  proof (rule bit_word_eqI)
    fix n assume "n < LENGTH(32)"
    then have "bit kRuntimeTransitionCountMask n \<longleftrightarrow> n \<noteq> 31"
      by (auto simp: kRuntimeTransitionCountMask_def kDeepSleepQuiescingBit_def bit_not_iff bit_push_bit_iff
          simp del: push_bit_of_1)
    then show "bit (s AND kRuntimeTransitionCountMask) n = bit s n"
      using assms by (auto simp: bit_and_iff)
  qed
qed

lemma unat_count_mask: "unat kRuntimeTransitionCountMask = 2 ^ 31 - 1"
  by (simp add: kRuntimeTransitionCountMask_def kDeepSleepQuiescingBit_def)

text \<open>Entering: the checks of the loop leave room for one more below the quiescing bit.\<close>

lemma enter_room:
  assumes "(s :: u32) AND kDeepSleepQuiescingBit = 0" and "s AND kRuntimeTransitionCountMask \<noteq> kRuntimeTransitionCountMask"
  shows "unat (s + 1) = Suc (unat s)" and "unat (s + 1) < 2 ^ 31"
proof -
  have b: "\<not> bit s 31" using assms(1) quiescing_bit_zero by blast
  have "s \<noteq> kRuntimeTransitionCountMask" using assms(2) low_count(2) [OF b] by auto
  then have "unat s \<noteq> 2 ^ 31 - 1" using unat_count_mask by (metis word_unat_eq_iff)
  then have less: "Suc (unat s) < 2 ^ 31" using low_count(1) [OF b] by simp
  then show "unat (s + 1) = Suc (unat s)" by (simp add: unat_word_ariths)
  with less show "unat (s + 1) < 2 ^ 31" by simp
qed

section \<open>Where the threads are\<close>

fun in_transition :: "ArbPc \<Rightarrow> bool" where
  "in_transition (SpeakerCheckMic g) \<longleftrightarrow> True"
| "in_transition (SpeakerReserve g) \<longleftrightarrow> True"
| "in_transition (SpeakerRecheck g) \<longleftrightarrow> True"
| "in_transition (SpeakerRollback g) \<longleftrightarrow> True"
| "in_transition (MicClearReady g) \<longleftrightarrow> True"
| "in_transition (MicStore g) \<longleftrightarrow> True"
| "in_transition (LeaveGate r) \<longleftrightarrow> True"
| "in_transition _ \<longleftrightarrow> False"

fun entry_generation :: "ArbEntry \<Rightarrow> u32" where
  "entry_generation (ForSpeaker g) = g"
| "entry_generation (ForMic g) = g"

text \<open>Which thread may be where, with which generations.\<close>

fun pc_ok :: "nat \<Rightarrow> ArbPc \<Rightarrow> bool" where
  "pc_ok t (EnterLoad e) \<longleftrightarrow> entry_generation e \<noteq> 0 \<and> ((\<exists>g. e = ForSpeaker g) \<longrightarrow> t = 1)"
| "pc_ok t (EnterTry e s) \<longleftrightarrow> entry_generation e \<noteq> 0 \<and> ((\<exists>g. e = ForSpeaker g) \<longrightarrow> t = 1)"
| "pc_ok t (SpeakerCheckMic g) \<longleftrightarrow> t = 1 \<and> g \<noteq> 0"
| "pc_ok t (SpeakerReserve g) \<longleftrightarrow> t = 1 \<and> g \<noteq> 0"
| "pc_ok t (SpeakerRecheck g) \<longleftrightarrow> t = 1 \<and> g \<noteq> 0"
| "pc_ok t (SpeakerRollback g) \<longleftrightarrow> t = 1 \<and> g \<noteq> 0"
| "pc_ok t (SpeakerFinish g) \<longleftrightarrow> t = 1 \<and> g \<noteq> 0"
| "pc_ok t (MicClearReady g) \<longleftrightarrow> g \<noteq> 0"
| "pc_ok t (MicStore g) \<longleftrightarrow> g \<noteq> 0"
| "pc_ok t (ReadyMic g) \<longleftrightarrow> g \<noteq> 0"
| "pc_ok t (ReadyPower g) \<longleftrightarrow> g \<noteq> 0"
| "pc_ok t (ReadySpeaker g) \<longleftrightarrow> g \<noteq> 0"
| "pc_ok t QuiesceClose \<longleftrightarrow> t = 0"
| "pc_ok t QuiesceSpeaker \<longleftrightarrow> t = 0"
| "pc_ok t QuiesceMic \<longleftrightarrow> t = 0"
| "pc_ok t QuiesceReopen \<longleftrightarrow> t = 0"
| "pc_ok t CancelGate \<longleftrightarrow> t = 0"
| "pc_ok t _ \<longleftrightarrow> True"

lemma pc_ok_start: "allowed_op t op \<Longrightarrow> pc_ok t (arb_start op)"
  by (cases op) auto

lemma not_in_transition_start: "\<not> in_transition (arb_start op)"
  by (cases op) auto

lemma pc_ok_exec: "pc_ok t pc \<Longrightarrow> pc_ok t (snd (arb_exec spurious a pc))"
proof (cases pc)
  case (EnterTry e s)
  then show "pc_ok t pc \<Longrightarrow> ?thesis" by (cases e) auto
qed auto

definition crowd :: "(nat \<Rightarrow> ArbPc) \<Rightarrow> nat set" where
  "crowd pcs = {t. in_transition (pcs t)}"

lemma crowd_update:
  "crowd (pcs(t := pc)) = (if in_transition pc then insert t (crowd pcs) else crowd pcs - {t})"
  by (auto simp: crowd_def)

fun closing :: "ArbPc \<Rightarrow> bool" where
  "closing QuiesceSpeaker \<longleftrightarrow> True"
| "closing QuiesceMic \<longleftrightarrow> True"
| "closing QuiesceReopen \<longleftrightarrow> True"
| "closing _ \<longleftrightarrow> False"

section \<open>The invariant\<close>

definition gate_inv :: "ArbWorld \<Rightarrow> bool" where
  "gate_inv w \<longleftrightarrow> finite (crowd (aw_pc w)) \<and> \<not> (aw_quiesced w \<and> closing (aw_pc w 0)) \<and>
     (if aw_quiesced w \<or> closing (aw_pc w 0)
      then ar_runtime_transition_gate (aw_arbiter w) = kDeepSleepQuiescingBit \<and> crowd (aw_pc w) = {}
      else unat (ar_runtime_transition_gate (aw_arbiter w)) = card (crowd (aw_pc w)) \<and> card (crowd (aw_pc w)) < 2 ^ 31)"

definition owner_inv :: "ArbWorld \<Rightarrow> bool" where
  "owner_inv w \<longleftrightarrow>
     (aw_quiesced w \<or> aw_pc w 0 = QuiesceMic \<longrightarrow> ar_speaker_generation (aw_arbiter w) = 0) \<and>
     (aw_quiesced w \<longrightarrow> ar_microphone_generation (aw_arbiter w) = 0) \<and>
     (aw_speaker_granted w \<longrightarrow> ar_speaker_generation (aw_arbiter w) \<noteq> 0) \<and>
     (\<forall>g. aw_pc w 1 = SpeakerRecheck g \<or> aw_pc w 1 = SpeakerRollback g \<longrightarrow>
        ar_speaker_generation (aw_arbiter w) = g \<and> \<not> aw_speaker_granted w) \<and>
     (aw_microphone_clear w \<longrightarrow> ar_microphone_generation (aw_arbiter w) \<noteq> 0 \<and> \<not> aw_speaker_granted w)"

definition arb_inv :: "ArbWorld \<Rightarrow> bool" where
  "arb_inv w \<longleftrightarrow> (\<forall>t. pc_ok t (aw_pc w t)) \<and> gate_inv w \<and> owner_inv w"

lemma arb_inv_init: "arb_inv init_arb_world"
  by (simp add: arb_inv_def gate_inv_def owner_inv_def init_arb_world_def init_arbiter_def crowd_def)

lemma closing_start: "\<not> closing (arb_start op)"
  by (cases op) auto

lemma start_not_speaker: "arb_start op \<noteq> SpeakerRecheck g" "arb_start op \<noteq> SpeakerRollback g" "arb_start op \<noteq> QuiesceMic"
  by (cases op; simp)+

lemma arb_inv_call:
  assumes inv: "arb_inv w" and idle: "aw_pc w t = Returned r" and op: "allowed_op t op"
  shows "arb_inv (w\<lparr>aw_pc := (aw_pc w)(t := arb_start op)\<rparr>)"
proof -
  have "crowd ((aw_pc w)(t := arb_start op)) = crowd (aw_pc w)"
    using idle not_in_transition_start [of op] by (auto simp: crowd_def)
  then show ?thesis
    using inv idle pc_ok_start [OF op] closing_start [of op] start_not_speaker [of op]
    by (auto simp: arb_inv_def gate_inv_def owner_inv_def)
qed

text \<open>The gate through one access.\<close>

text \<open>The ghost flags after an access, on the state before it.\<close>

definition quiesced_after :: "AudioIoArbiter \<Rightarrow> ArbPc \<Rightarrow> bool \<Rightarrow> bool" where
  "quiesced_after a pc q =
     (if pc = QuiesceMic \<and> ar_microphone_generation a = 0 then True
      else if pc = CancelGate \<and> ar_runtime_transition_gate a = kDeepSleepQuiescingBit then False else q)"

definition granted_after :: "AudioIoArbiter \<Rightarrow> ArbPc \<Rightarrow> bool \<Rightarrow> bool" where
  "granted_after a pc s =
     (case pc of SpeakerRecheck g \<Rightarrow> s \<or> ar_microphone_generation a = 0
      | SpeakerFinish g \<Rightarrow> s \<and> ar_speaker_generation a \<noteq> g
      | _ \<Rightarrow> s)"

definition clear_after :: "AudioIoArbiter \<Rightarrow> ArbPc \<Rightarrow> bool \<Rightarrow> bool" where
  "clear_after a pc m =
     (case pc of ReadySpeaker g \<Rightarrow> m \<or> (ar_speaker_generation a = 0 \<and> ar_microphone_generation a = g)
      | MicFinish g \<Rightarrow> m \<and> ar_microphone_generation a \<noteq> g
      | _ \<Rightarrow> m)"

lemma quiesced_after: "ghost_quiesced pc (snd (arb_exec spurious a pc)) q = quiesced_after a pc q"
  by (cases pc) (simp_all add: ghost_quiesced_def quiesced_after_def)

lemma granted_after: "ghost_granted pc (snd (arb_exec spurious a pc)) s = granted_after a pc s"
  by (cases pc) (simp_all add: ghost_granted_def granted_after_def)

lemma clear_after: "ghost_clear a pc (snd (arb_exec spurious a pc)) m = clear_after a pc m"
  by (cases pc) (auto simp: ghost_clear_def clear_after_def)

lemma thread_step_simps [simp]:
  "aw_arbiter (arb_thread_step spurious t w) = fst (arb_exec spurious (aw_arbiter w) (aw_pc w t))"
  "aw_pc (arb_thread_step spurious t w) = (aw_pc w)(t := snd (arb_exec spurious (aw_arbiter w) (aw_pc w t)))"
  "aw_quiesced (arb_thread_step spurious t w) = quiesced_after (aw_arbiter w) (aw_pc w t) (aw_quiesced w)"
  "aw_speaker_granted (arb_thread_step spurious t w) = granted_after (aw_arbiter w) (aw_pc w t) (aw_speaker_granted w)"
  "aw_microphone_clear (arb_thread_step spurious t w) = clear_after (aw_arbiter w) (aw_pc w t) (aw_microphone_clear w)"
  by (simp_all add: arb_thread_step_def Let_def case_prod_beta quiesced_after granted_after clear_after)

lemma in_transition_open:
  assumes "gate_inv w" and "in_transition (aw_pc w t)"
  shows "\<not> aw_quiesced w" "\<not> closing (aw_pc w 0)" "0 < card (crowd (aw_pc w))" "t \<in> crowd (aw_pc w)"
proof -
  show t: "t \<in> crowd (aw_pc w)" using assms(2) by (simp add: crowd_def)
  then show "\<not> aw_quiesced w" "\<not> closing (aw_pc w 0)"
    using assms(1) by (auto simp: gate_inv_def)
  show "0 < card (crowd (aw_pc w))" using t assms(1) by (auto simp: gate_inv_def card_gt_0_iff)
qed

text \<open>An access that changes neither the gate nor who is in transition or closing.\<close>

lemma gate_inv_same:
  assumes "gate_inv w" and "ar_runtime_transition_gate (aw_arbiter w') = ar_runtime_transition_gate (aw_arbiter w)"
    and "crowd (aw_pc w') = crowd (aw_pc w)" and "aw_quiesced w' = aw_quiesced w"
    and "closing (aw_pc w' 0) = closing (aw_pc w 0)"
  shows "gate_inv w'"
  using assms unfolding gate_inv_def by metis

lemma crowd_same:
  "in_transition pc = in_transition (pcs t) \<Longrightarrow> crowd (pcs(t := pc)) = crowd pcs"
  by (auto simp: crowd_def)

lemma unat_minus_one_pos: "0 < unat (s :: u32) \<Longrightarrow> unat (s - 1) = unat s - 1"
  using unat_minus_one [of s] by (metis unat_0 less_irrefl)

lemma gate_step_enter:
  assumes inv: "gate_inv w" and pc: "aw_pc w t = EnterTry e s" and ok: "pc_ok t (aw_pc w t)"
  shows "gate_inv (arb_thread_step spurious t w)"
proof (cases "s AND kDeepSleepQuiescingBit = 0 \<and> s AND kRuntimeTransitionCountMask \<noteq> kRuntimeTransitionCountMask \<and>
    ar_runtime_transition_gate (aw_arbiter w) = s \<and> \<not> spurious")
  case False
  then show ?thesis
    using inv pc
    by (intro gate_inv_same [OF inv]) (auto simp: quiesced_after_def intro!: crowd_same split: if_splits)
next
  case True
  have open_gate: "\<not> (aw_quiesced w \<or> closing (aw_pc w 0))"
  proof
    assume "aw_quiesced w \<or> closing (aw_pc w 0)"
    then have "s = kDeepSleepQuiescingBit" using inv True unfolding gate_inv_def by metis
    then show False using True unat_quiescing_bit by auto
  qed
  have room: "unat (s + 1) = Suc (unat s)" "unat (s + 1) < 2 ^ 31" using enter_room True by blast+
  have fresh: "t \<notin> crowd (aw_pc w)" using pc by (simp add: crowd_def)
  have "in_transition (after_enter e)" "\<not> closing (after_enter e)" by (cases e; simp)+
  then show ?thesis
    using inv open_gate True room fresh pc
    by (auto simp: gate_inv_def crowd_update quiesced_after_def)
qed

text \<open>Accesses that leave the gate word alone.\<close>

fun gate_still :: "ArbPc \<Rightarrow> bool" where
  "gate_still (EnterTry e s) \<longleftrightarrow> False"
| "gate_still (LeaveGate r) \<longleftrightarrow> False"
| "gate_still QuiesceClose \<longleftrightarrow> False"
| "gate_still QuiesceSpeaker \<longleftrightarrow> False"
| "gate_still QuiesceMic \<longleftrightarrow> False"
| "gate_still QuiesceReopen \<longleftrightarrow> False"
| "gate_still CancelGate \<longleftrightarrow> False"
| "gate_still _ \<longleftrightarrow> True"

lemma still_exec:
  assumes "gate_still pc"
  shows "ar_runtime_transition_gate (fst (arb_exec spurious a pc)) = ar_runtime_transition_gate a"
    and "in_transition (snd (arb_exec spurious a pc)) = in_transition pc"
    and "\<not> closing pc" and "\<not> closing (snd (arb_exec spurious a pc))"
    and "quiesced_after a pc q = q"
  using assms by (cases pc; simp add: quiesced_after_def)+

lemma gate_step_still:
  assumes inv: "gate_inv w" and pc: "gate_still (aw_pc w t)"
  shows "gate_inv (arb_thread_step spurious t w)"
proof (rule gate_inv_same [OF inv])
  show "crowd (aw_pc (arb_thread_step spurious t w)) = crowd (aw_pc w)"
    unfolding thread_step_simps by (rule crowd_same) (rule still_exec(2) [OF pc])
  show "closing (aw_pc (arb_thread_step spurious t w) 0) = closing (aw_pc w 0)"
    using still_exec(3,4) [OF pc] by (cases "t = 0") auto
qed (simp_all add: still_exec(1,5) [OF pc])

lemma gate_step_leave:
  assumes inv: "gate_inv w" and pc: "aw_pc w t = LeaveGate r"
  shows "gate_inv (arb_thread_step spurious t w)"
proof -
  have "in_transition (aw_pc w t)" by (simp add: pc)
  note opened = in_transition_open [OF inv this]
  then show ?thesis
    using inv pc unat_minus_one_pos [of "ar_runtime_transition_gate (aw_arbiter w)"]
    by (auto simp: gate_inv_def crowd_update quiesced_after_def card_Diff_singleton)
qed

lemma gate_step_quiesce:
  assumes inv: "gate_inv w" and ok: "pc_ok t (aw_pc w t)"
    and pc: "aw_pc w t \<in> {QuiesceClose, QuiesceSpeaker, QuiesceMic, QuiesceReopen, CancelGate}"
  shows "gate_inv (arb_thread_step spurious t w)"
proof -
  have t: "t = 0" using ok pc by auto
  have out: "\<not> in_transition (snd (arb_exec spurious (aw_arbiter w) (aw_pc w 0)))" "\<not> in_transition (aw_pc w 0)"
    using pc t by (auto split: if_splits)
  then have crowd: "crowd ((aw_pc w)(0 := snd (arb_exec spurious (aw_arbiter w) (aw_pc w 0)))) = crowd (aw_pc w)"
    by (intro crowd_same) simp
  have bit: "kDeepSleepQuiescingBit \<noteq> 0" using unat_quiescing_bit by auto
  have big: "unat kDeepSleepQuiescingBit = card c \<longleftrightarrow> card c = 2 ^ 31" for c :: "nat set"
    by (auto simp: unat_quiescing_bit)
  consider "aw_pc w 0 = QuiesceClose" | "aw_pc w 0 = QuiesceSpeaker" | "aw_pc w 0 = QuiesceMic"
    | "aw_pc w 0 = QuiesceReopen" | "aw_pc w 0 = CancelGate" using pc t by auto
  then show ?thesis
  proof cases
    case 1
    show ?thesis
      using inv 1 bit unfolding t gate_inv_def thread_step_simps crowd
      by (cases "aw_quiesced w") (auto simp: quiesced_after_def)
  next
    case 2
    show ?thesis
      using inv 2 unfolding t gate_inv_def thread_step_simps crowd by (simp add: quiesced_after_def)
  next
    case 3
    show ?thesis
      using inv 3 unfolding t gate_inv_def thread_step_simps crowd by (simp add: quiesced_after_def)
  next
    case 4
    show ?thesis
      using inv 4 unfolding t gate_inv_def thread_step_simps crowd by (simp add: quiesced_after_def)
  next
    case 5
    show ?thesis
    proof (cases "aw_quiesced w")
      case True
      then show ?thesis
        using inv 5 unfolding t gate_inv_def thread_step_simps crowd by (simp add: quiesced_after_def)
    next
      case False
      then have "ar_runtime_transition_gate (aw_arbiter w) \<noteq> kDeepSleepQuiescingBit"
        using inv 5 big [of "crowd (aw_pc w)"] by (auto simp: gate_inv_def)
      then show ?thesis
        using inv 5 False unfolding t gate_inv_def thread_step_simps crowd by (simp add: quiesced_after_def)
    qed
  qed
qed

lemma gate_step:
  assumes inv: "gate_inv w" and ok: "pc_ok t (aw_pc w t)"
  shows "gate_inv (arb_thread_step spurious t w)"
proof -
  consider e s where "aw_pc w t = EnterTry e s" | r where "aw_pc w t = LeaveGate r"
    | "aw_pc w t \<in> {QuiesceClose, QuiesceSpeaker, QuiesceMic, QuiesceReopen, CancelGate}"
    | "gate_still (aw_pc w t)"
    by (cases "aw_pc w t") auto
  then show ?thesis
  proof cases
    case 1 then show ?thesis using gate_step_enter [OF inv _ ok] by blast
  next
    case 2 then show ?thesis using gate_step_leave [OF inv] by blast
  next
    case 3 then show ?thesis using gate_step_quiesce [OF inv ok] by blast
  next
    case 4 then show ?thesis using gate_step_still [OF inv] by blast
  qed
qed


section \<open>Who owns what\<close>

lemma owner_step_speaker:
  assumes inv: "owner_inv w" and gate: "gate_inv w" and ok: "pc_ok t (aw_pc w t)"
    and pc: "in_transition (aw_pc w t)"
  shows "owner_inv (arb_thread_step spurious t w)"
proof -
  have idle: "\<not> aw_quiesced w" "\<not> closing (aw_pc w 0)" using in_transition_open [OF gate pc] by simp_all
  then have "aw_pc w 0 \<noteq> QuiesceMic" by auto
  with idle show ?thesis
    using inv ok pc
    by (cases "aw_pc w t")
      (auto simp: owner_inv_def quiesced_after_def granted_after_def clear_after_def split: if_splits)
qed

lemma owner_step_other:
  assumes inv: "owner_inv w" and ok: "pc_ok t (aw_pc w t)" and pc: "\<not> in_transition (aw_pc w t)"
  shows "owner_inv (arb_thread_step spurious t w)"
proof (cases "aw_pc w t")
  case (EnterTry e s)
  then show ?thesis using inv ok
    by (cases e) (auto simp: owner_inv_def quiesced_after_def granted_after_def clear_after_def)
qed (use inv ok pc in \<open>auto simp: owner_inv_def quiesced_after_def granted_after_def clear_after_def split: if_splits\<close>)

lemma arb_inv_step: "arb_inv w \<Longrightarrow> arb_step w w' \<Longrightarrow> arb_inv w'"
proof (erule arb_stepE)
  fix t r op
  assume "arb_inv w" "w' = w\<lparr>aw_pc := (aw_pc w)(t := arb_start op)\<rparr>" "aw_pc w t = Returned r" "allowed_op t op"
  then show ?thesis using arb_inv_call by blast
next
  fix spurious t
  assume inv: "arb_inv w" and w': "w' = arb_thread_step spurious t w"
  have ok: "pc_ok u (aw_pc w u)" for u using inv by (simp add: arb_inv_def)
  have "pc_ok u (aw_pc w' u)" for u
    using ok [of u] pc_ok_exec [OF ok [of t]] by (simp add: w')
  moreover have "gate_inv w'" using gate_step [OF _ ok] inv by (simp add: arb_inv_def w')
  moreover have "owner_inv w'"
    using owner_step_speaker [OF _ _ ok, where t = t] owner_step_other [OF _ ok, where t = t] inv
    unfolding arb_inv_def w' by blast
  ultimately show ?thesis by (simp add: arb_inv_def)
qed

lemma arb_inv_reachable: "arb_reachable w \<Longrightarrow> arb_inv w"
  by (induction rule: arb_reachable.induct) (auto intro: arb_inv_init arb_inv_step)


section \<open>What the callers can rely on\<close>

text \<open>
  C7: once \<open>try_begin_deep_sleep_quiesce\<close> has answered true, and until it is cancelled, no
  interleaving has an audio side active: no speaker and no microphone generation, no
  granted speaker, and no other task inside a runtime transition.
\<close>
theorem deep_sleep_excludes_audio:
  assumes "arb_reachable w" and "aw_quiesced w"
  shows "speaker_active (aw_arbiter w) = False \<and> microphone_requested (aw_arbiter w) = False \<and>
    deep_sleep_quiescing (aw_arbiter w) \<and> aw_speaker_granted w = False \<and> aw_microphone_clear w = False \<and>
    (\<nexists>t. in_transition (aw_pc w t))"
proof -
  have inv: "gate_inv w" "owner_inv w" using arb_inv_reachable [OF assms(1)] by (simp_all add: arb_inv_def)
  have "ar_runtime_transition_gate (aw_arbiter w) = kDeepSleepQuiescingBit" "crowd (aw_pc w) = {}"
    using inv(1) assms(2) by (simp_all add: gate_inv_def)
  then have "deep_sleep_quiescing (aw_arbiter w)" "\<nexists>t. in_transition (aw_pc w t)"
    by (simp_all add: deep_sleep_quiescing_def kDeepSleepQuiescingBit_def crowd_def)
  then show ?thesis using inv(2) assms(2) by (auto simp: owner_inv_def speaker_active_def microphone_requested_def)
qed

text \<open>
  With sequentially consistent accesses the speaker and the microphone never both hold the
  audio hardware, whatever the interleaving: while a speaker generation is granted, no
  microphone owner whose generation still stood has been told that the hardware is ready for
  its capture.
\<close>
lemma speaker_excludes_microphone:
  assumes "arb_reachable w" and "aw_speaker_granted w"
  shows "aw_microphone_clear w = False \<and> speaker_active (aw_arbiter w)"
  using arb_inv_reachable [OF assms(1)] assms(2) by (auto simp: arb_inv_def owner_inv_def speaker_active_def)

text \<open>
  Outside deep sleep the gate word is exactly the number of tasks inside a runtime
  transition, in deep sleep it is exactly the quiescing bit; the count never borrows from
  or carries into that bit.
\<close>
lemma gate_counts_transitions:
  assumes "arb_reachable w"
  shows "finite (crowd (aw_pc w)) \<and>
    (if deep_sleep_quiescing (aw_arbiter w)
     then ar_runtime_transition_gate (aw_arbiter w) = kDeepSleepQuiescingBit \<and> crowd (aw_pc w) = {}
     else unat (ar_runtime_transition_gate (aw_arbiter w)) = card (crowd (aw_pc w)))"
proof -
  let ?g = "ar_runtime_transition_gate (aw_arbiter w)"
  have inv: "gate_inv w" using arb_inv_reachable [OF assms] by (simp add: arb_inv_def)
  show ?thesis
  proof (cases "aw_quiesced w \<or> closing (aw_pc w 0)")
    case True
    then have "?g = kDeepSleepQuiescingBit" "crowd (aw_pc w) = {}"
      using inv unfolding gate_inv_def by metis+
    then show ?thesis by (simp add: deep_sleep_quiescing_def kDeepSleepQuiescingBit_def)
  next
    case False
    then have eq: "unat ?g = card (crowd (aw_pc w))" "unat ?g < 2 ^ 31" "finite (crowd (aw_pc w))"
      using inv unfolding gate_inv_def by metis+
    then have "\<not> deep_sleep_quiescing (aw_arbiter w)"
      using bit_word_small [of ?g 31 31] by (simp add: deep_sleep_quiescing_def quiescing_bit_zero)
    with eq show ?thesis by simp
  qed
qed

text \<open>A world reached by running steps.\<close>

lemma reachable_access: "arb_reachable w \<Longrightarrow> arb_reachable (arb_thread_step spurious t w)"
  using arb_next arb_access by blast

lemma reachable_call:
  "arb_reachable w \<Longrightarrow> aw_pc w t = Returned r \<Longrightarrow> allowed_op t op \<Longrightarrow>
   arb_reachable (w\<lparr>aw_pc := (aw_pc w)(t := arb_start op)\<rparr>)"
  using arb_next arb_call by blast

definition call_world :: "nat \<Rightarrow> ArbOp \<Rightarrow> nat \<Rightarrow> ArbWorld" where
  "call_world t op n =
     ((arb_thread_step False t) ^^ n) (init_arb_world\<lparr>aw_pc := (aw_pc init_arb_world)(t := arb_start op)\<rparr>)"

lemma call_world_reachable: "allowed_op t op \<Longrightarrow> arb_reachable (call_world t op n)"
proof (induction n)
  case 0
  then show ?case
    using reachable_call [OF arb_init, of t False op] by (simp add: call_world_def init_arb_world_def)
next
  case (Suc n)
  then show ?case using reachable_access by (simp add: call_world_def)
qed

lemma call_world_steps:
  "call_world t op 0 = init_arb_world\<lparr>aw_pc := (aw_pc init_arb_world)(t := arb_start op)\<rparr>"
  "call_world t op (Suc n) = arb_thread_step False t (call_world t op n)"
  "call_world t op (numeral k) = arb_thread_step False t (call_world t op (pred_numeral k))"
  by (simp_all add: call_world_def numeral_eq_Suc del: thread_step_simps)

lemmas call_world_eval = call_world_steps arb_thread_step_def init_arb_world_def init_arbiter_def
  ghost_quiesced_def ghost_granted_def ghost_clear_def kRuntimeTransitionCountMask_def kDeepSleepQuiescingBit_def

lemma call_granted: "aw_speaker_granted (call_world 1 (BeginSpeaker 7) 5)"
  by (simp add: call_world_eval del: thread_step_simps)

lemma deep_sleep_excludes_audio_witness:
  "aw_quiesced (call_world 0 BeginQuiesce 3) \<and> deep_sleep_quiescing (aw_arbiter (call_world 0 BeginQuiesce 3))"
proof -
  have "aw_quiesced (call_world 0 BeginQuiesce 3)"
    by (simp add: call_world_eval del: thread_step_simps)
  then show ?thesis
    using deep_sleep_excludes_audio [OF call_world_reachable, of 0 BeginQuiesce 3] by simp
qed

lemma speaker_excludes_microphone_witness:
  "aw_speaker_granted (call_world 1 (BeginSpeaker 7) 5) \<and> speaker_active (aw_arbiter (call_world 1 (BeginSpeaker 7) 5))"
proof -
  have "aw_speaker_granted (call_world 1 (BeginSpeaker 7) 5)" by (rule call_granted)
  then show ?thesis
    using speaker_excludes_microphone [OF call_world_reachable, of 1 "BeginSpeaker 7" 5] by simp
qed

lemma gate_counts_transitions_witness:
  "unat (ar_runtime_transition_gate (aw_arbiter (call_world 1 (BeginSpeaker 7) 3))) =
     card (crowd (aw_pc (call_world 1 (BeginSpeaker 7) 3)))"
proof -
  have "\<not> deep_sleep_quiescing (aw_arbiter (call_world 1 (BeginSpeaker 7) 3))"
    by (simp add: call_world_eval deep_sleep_quiescing_def del: thread_step_simps)
  then show ?thesis
    using gate_counts_transitions [OF call_world_reachable, of 1 "BeginSpeaker 7" 3] by simp
qed

section \<open>One caller alone\<close>

fun arb_method :: "ArbOp \<Rightarrow> AudioIoArbiter \<Rightarrow> bool \<times> AudioIoArbiter" where
  "arb_method (BeginSpeaker g) a = try_begin_speaker a g"
| "arb_method (FinishSpeaker g) a = finish_speaker a g"
| "arb_method (RequestMic g) a = request_microphone a g"
| "arb_method (MarkPowerReady g) a = mark_microphone_power_ready a g"
| "arb_method (FinishMic g) a = finish_microphone a g"
| "arb_method (HardwareReady g) a = (microphone_hardware_ready a g, a)"
| "arb_method BeginQuiesce a = try_begin_deep_sleep_quiesce a"
| "arb_method CancelQuiesce a = cancel_deep_sleep_quiesce a"

fun arb_alone :: "nat \<Rightarrow> AudioIoArbiter \<times> ArbPc \<Rightarrow> AudioIoArbiter \<times> ArbPc" where
  "arb_alone 0 s = s"
| "arb_alone (Suc n) s = arb_alone n (arb_exec False (fst s) (snd s))"

lemma arb_alone_numeral [simp]:
  "arb_alone (numeral k) s = arb_alone (pred_numeral k) (arb_exec False (fst s) (snd s))"
  by (simp add: numeral_eq_Suc)

lemma arb_alone_returned [simp]: "arb_alone n (a, Returned r) = (a, Returned r)"
  by (induction n) auto

lemma alone_enter:
  "arb_alone 7 (a, EnterLoad e) =
     (case try_enter_runtime_transition a of
        (False, a') \<Rightarrow> (a', Returned False)
      | (True, a') \<Rightarrow> arb_alone 5 (a', after_enter e))"
  by (simp add: try_enter_runtime_transition_def Let_def)

text \<open>
  The atomic-step program of every method, run without interference, returns within
  seven accesses, with the answer and the state of the method's sequential function.
\<close>
lemma alone_computes_method:
  "arb_alone 7 (a, arb_start op) = (snd (arb_method op a), Returned (fst (arb_method op a)))"
proof (cases op)
  case (BeginSpeaker g)
  obtain entered a1 where enter: "try_enter_runtime_transition a = (entered, a1)" by fastforce
  show ?thesis
  proof (cases "g \<noteq> 0 \<and> entered")
    case True
    have "arb_alone 7 (a, EnterLoad (ForSpeaker g)) = arb_alone 5 (a1, SpeakerCheckMic g)"
      using True by (simp add: alone_enter enter del: arb_alone_numeral)
    moreover have "arb_start op = EnterLoad (ForSpeaker g)" using True by (simp add: BeginSpeaker)
    moreover have "arb_alone 5 (a1, SpeakerCheckMic g) = (snd (try_begin_speaker a g), Returned (fst (try_begin_speaker a g)))"
      using True by (simp add: try_begin_speaker_def enter leave_runtime_transition_def Let_def)
    ultimately show ?thesis by (simp only: BeginSpeaker arb_method.simps)
  next
    case False
    then show ?thesis
      using enter
      by (auto simp: BeginSpeaker try_begin_speaker_def alone_enter simp del: arb_alone_numeral)
  qed
next
  case (RequestMic g)
  obtain entered a1 where enter: "try_enter_runtime_transition a = (entered, a1)" by fastforce
  then show ?thesis
    by (cases "g = 0"; cases entered)
      (simp_all add: RequestMic request_microphone_def alone_enter leave_runtime_transition_def del: arb_alone_numeral,
       simp_all)
qed (simp_all add: finish_speaker_def mark_microphone_power_ready_def finish_microphone_def
    microphone_hardware_ready_def try_begin_deep_sleep_quiesce_def cancel_deep_sleep_quiesce_def Let_def)

end
