(* ===== verification/Json_Text.thy ===== *)
theory Json_Text
  imports Prelude
begin

text \<open>
  The JSON text layer: the scanner of \<^verbatim>\<open>src/config_payload.cpp\<close> (its anonymous
  namespace down to \<^verbatim>\<open>int_value\<close>) and the string escaping of \<^verbatim>\<open>src/config_status.cpp\<close>.
  A \<^verbatim>\<open>std::string_view\<close> with a position is the text that remains from that position;
  a scanner that moves the position returns the remaining text, and \<open>None\<close> where the
  code returns false or \<^verbatim>\<open>nullopt\<close> (its callers then give up and never look at the
  position again).  Characters are bytes; \<^verbatim>\<open>std::isspace\<close> is the one of the C locale.
\<close>

unbundle bit_operations_syntax

section \<open>Characters\<close>

definition byte_of :: "char \<Rightarrow> u8" where
  "byte_of c = of_char c"

definition to_char :: "u32 \<Rightarrow> char" where
  "to_char w = char_of (unat w)"

abbreviation quote :: char where "quote \<equiv> CHR 0x22"
abbreviation backslash :: char where "backslash \<equiv> CHR 0x5C"

definition isspace :: "char \<Rightarrow> bool" where
  "isspace c \<longleftrightarrow> c = CHR 0x20 \<or> (9 \<le> code_of c \<and> code_of c \<le> 13)"

definition trim :: "string \<Rightarrow> string" where
  "trim value = rev (dropWhile isspace (rev (dropWhile isspace value)))"

definition skip_ws :: "string \<Rightarrow> string" where
  "skip_ws s = dropWhile isspace s"

definition hex_digit_value :: "char \<Rightarrow> int" where
  "hex_digit_value c =
     (if 48 \<le> code_of c \<and> code_of c \<le> 57 then int (code_of c) - 48
      else if 97 \<le> code_of c \<and> code_of c \<le> 102 then 10 + int (code_of c) - 97
      else if 65 \<le> code_of c \<and> code_of c \<le> 70 then 10 + int (code_of c) - 65
      else -1)"

section \<open>Strings\<close>

fun hex_units :: "nat \<Rightarrow> u16 \<Rightarrow> string \<Rightarrow> (u16 \<times> string) option" where
  "hex_units 0 v s = Some (v, s)"
| "hex_units (Suc n) v [] = None"
| "hex_units (Suc n) v (c # cs) =
     (if hex_digit_value c < 0 then None
      else hex_units n (push_bit 4 v OR word_of_int (hex_digit_value c)) cs)"

definition read_utf16_code_unit :: "string \<Rightarrow> (u16 \<times> string) option" where
  "read_utf16_code_unit s = (if length s < 4 then None else hex_units 4 0 s)"

text \<open>The bytes appended for a code point, \<open>None\<close> when it is no Unicode scalar value.\<close>

definition append_utf8_code_point :: "u32 \<Rightarrow> string option" where
  "append_utf8_code_point cp =
     (if 0x10FFFF < cp \<or> (0xD800 \<le> cp \<and> cp \<le> 0xDFFF) then None
      else if cp \<le> 0x7F then Some [to_char cp]
      else if cp \<le> 0x7FF
      then Some [to_char (0xC0 OR drop_bit 6 cp), to_char (0x80 OR (cp AND 0x3F))]
      else if cp \<le> 0xFFFF
      then Some [to_char (0xE0 OR drop_bit 12 cp), to_char (0x80 OR (drop_bit 6 cp AND 0x3F)),
                 to_char (0x80 OR (cp AND 0x3F))]
      else Some [to_char (0xF0 OR drop_bit 18 cp), to_char (0x80 OR (drop_bit 12 cp AND 0x3F)),
                 to_char (0x80 OR (drop_bit 6 cp AND 0x3F)), to_char (0x80 OR (cp AND 0x3F))])"

text \<open>The length a lead byte announces (0 when it is none), and whether the second byte is admissible after it.\<close>

definition sequence_len :: "char \<Rightarrow> nat" where
  "sequence_len lead =
     (if 0xC2 \<le> code_of lead \<and> code_of lead \<le> 0xDF then 2
      else if 0xE0 \<le> code_of lead \<and> code_of lead \<le> 0xEF then 3
      else if 0xF0 \<le> code_of lead \<and> code_of lead \<le> 0xF4 then 4
      else 0)"

definition is_continuation :: "char \<Rightarrow> bool" where
  "is_continuation c \<longleftrightarrow> byte_of c AND 0xC0 = 0x80"

definition bad_second :: "char \<Rightarrow> char \<Rightarrow> bool" where
  "bad_second lead second \<longleftrightarrow>
     code_of lead = 0xE0 \<and> code_of second < 0xA0 \<or>
     code_of lead = 0xED \<and> 0x9F < code_of second \<or>
     code_of lead = 0xF0 \<and> code_of second < 0x90 \<or>
     code_of lead = 0xF4 \<and> 0x8F < code_of second"

definition append_literal_utf8 :: "string \<Rightarrow> (string \<times> string) option" where
  "append_literal_utf8 s =
     (case s of [] \<Rightarrow> None
      | lead # rest \<Rightarrow>
          if code_of lead \<le> 0x7F then (if code_of lead < 0x20 then None else Some ([lead], rest))
          else
            let n = sequence_len lead in
            if n = 0 then None
            else if length s < n then None
            else if \<not> list_all is_continuation (take (n - 1) rest) then None
            else if bad_second lead (rest ! 0) then None
            else Some (take n s, drop n s))"

text \<open>What follows \<^verbatim>\<open>\u\<close>: one code unit, or two that form a surrogate pair.\<close>

definition parse_unicode_escape :: "string \<Rightarrow> (string \<times> string) option" where
  "parse_unicode_escape s =
     (case read_utf16_code_unit s of None \<Rightarrow> None
      | Some (first, rest) \<Rightarrow>
          if 0xD800 \<le> first \<and> first \<le> 0xDBFF then
            (if length rest < 2 \<or> rest ! 0 \<noteq> backslash \<or> rest ! 1 \<noteq> CHR ''u'' then None
             else
               case read_utf16_code_unit (drop 2 rest) of None \<Rightarrow> None
               | Some (second, rest') \<Rightarrow>
                   if second < 0xDC00 \<or> 0xDFFF < second then None
                   else
                     map_option (\<lambda>out. (out, rest'))
                       (append_utf8_code_point
                         (0x10000 + push_bit 10 (ucast first - 0xD800) + (ucast second - 0xDC00))))
          else if 0xDC00 \<le> first \<and> first \<le> 0xDFFF then None
          else map_option (\<lambda>out. (out, rest)) (append_utf8_code_point (ucast first)))"

definition parse_escape :: "char \<Rightarrow> string \<Rightarrow> (string \<times> string) option" where
  "parse_escape escaped rest =
     (if escaped = quote \<or> escaped = backslash \<or> escaped = CHR ''/'' then Some ([escaped], rest)
      else if escaped = CHR ''b'' then Some ([CHR 0x08], rest)
      else if escaped = CHR ''f'' then Some ([CHR 0x0C], rest)
      else if escaped = CHR ''n'' then Some ([CHR 0x0A], rest)
      else if escaped = CHR ''r'' then Some ([CHR 0x0D], rest)
      else if escaped = CHR ''t'' then Some ([CHR 0x09], rest)
      else if escaped = CHR ''u'' then parse_unicode_escape rest
      else None)"

lemma hex_units_rest: "hex_units n v s = Some (w, r) \<Longrightarrow> length r \<le> length s"
  by (induction n v s rule: hex_units.induct) (auto split: if_splits)

lemma read_unit_rest: "read_utf16_code_unit s = Some (w, r) \<Longrightarrow> length r \<le> length s"
  by (auto simp: read_utf16_code_unit_def dest: hex_units_rest split: if_splits)

lemma append_literal_rest: "append_literal_utf8 s = Some (out, r) \<Longrightarrow> length r < length s"
  by (auto simp: append_literal_utf8_def sequence_len_def Let_def split: list.splits if_splits)

lemma unicode_escape_rest: "parse_unicode_escape s = Some (out, r) \<Longrightarrow> length r \<le> length s"
  by (auto simp: parse_unicode_escape_def split: option.splits if_splits dest!: read_unit_rest)

lemma parse_escape_rest: "parse_escape e s = Some (out, r) \<Longrightarrow> length r \<le> length s"
  by (auto simp: parse_escape_def split: if_splits dest: unicode_escape_rest)

text \<open>The loop over the characters after the opening quote.\<close>

function parse_body :: "string \<Rightarrow> string \<Rightarrow> (string \<times> string) option" where
  "parse_body parsed [] = None"
| "parse_body parsed (ch # cs) =
     (if ch = quote then Some (parsed, cs)
      else if ch \<noteq> backslash then
        (case append_literal_utf8 (ch # cs) of None \<Rightarrow> None
         | Some (out, rest) \<Rightarrow> parse_body (parsed @ out) rest)
      else
        (case cs of [] \<Rightarrow> None
         | escaped # es \<Rightarrow>
             (case parse_escape escaped es of None \<Rightarrow> None
              | Some (out, rest) \<Rightarrow> parse_body (parsed @ out) rest)))"
  by pat_completeness auto
termination
  by (relation "measure (length \<circ> snd)") (auto dest: append_literal_rest parse_escape_rest)

definition parse_string :: "string \<Rightarrow> (string \<times> string) option" where
  "parse_string s =
     (case skip_ws s of [] \<Rightarrow> None
      | ch # cs \<Rightarrow> if ch = quote then parse_body [] cs else None)"

lemma skip_ws_rest: "length (skip_ws s) \<le> length s"
  by (simp add: skip_ws_def length_dropWhile_le)

lemma parse_body_rest: "parse_body parsed s = Some (t, r) \<Longrightarrow> length r < length s"
proof (induction parsed s rule: parse_body.induct)
  case (2 parsed ch cs)
  show ?case
  proof (cases "ch = quote")
    case True
    then show ?thesis using "2.prems" by simp
  next
    case nq: False
    show ?thesis
    proof (cases "ch = backslash")
      case False
      then obtain out rest where step: "append_literal_utf8 (ch # cs) = Some (out, rest)"
        and more: "parse_body (parsed @ out) rest = Some (t, r)"
        using "2.prems" nq by (auto split: option.splits)
      have "length r < length rest" using "2.IH"(1) [OF nq False step] more by blast
      also have "\<dots> < length (ch # cs)" using append_literal_rest [OF step] .
      finally show ?thesis .
    next
      case True
      then obtain escaped es out rest where cs: "cs = escaped # es" and step: "parse_escape escaped es = Some (out, rest)"
        and more: "parse_body (parsed @ out) rest = Some (t, r)"
        using "2.prems" nq by (auto split: option.splits list.splits)
      have "length r < length rest" using "2.IH"(2) [OF nq _ cs step] True more by blast
      also have "\<dots> \<le> length es" using parse_escape_rest [OF step] .
      finally show ?thesis using cs by simp
    qed
  qed
qed simp

lemma parse_string_rest: "parse_string s = Some (t, r) \<Longrightarrow> length r + 1 < length s"
  using skip_ws_rest [of s]
  by (auto simp: parse_string_def split: list.splits if_splits dest!: parse_body_rest)

section \<open>Values\<close>

function skip_loop :: "char \<Rightarrow> char \<Rightarrow> int \<Rightarrow> string \<Rightarrow> string option" where
  "skip_loop open_ch close_ch depth [] = None"
| "skip_loop open_ch close_ch depth (ch # cs) =
     (if ch = quote then
        (case parse_string (ch # cs) of None \<Rightarrow> None
         | Some (_, rest) \<Rightarrow> skip_loop open_ch close_ch depth rest)
      else if ch = open_ch then skip_loop open_ch close_ch (depth + 1) cs
      else if ch = close_ch then
        (if depth - 1 = 0 then Some cs else skip_loop open_ch close_ch (depth - 1) cs)
      else skip_loop open_ch close_ch depth cs)"
  by pat_completeness auto
termination
  by (relation "measure (length \<circ> snd \<circ> snd \<circ> snd)") (auto dest: parse_string_rest)

definition skip_composite :: "char \<Rightarrow> char \<Rightarrow> string \<Rightarrow> string option" where
  "skip_composite open_ch close_ch s =
     (if s = [] \<or> hd s \<noteq> open_ch then None else skip_loop open_ch close_ch 0 s)"

definition is_value_end :: "char \<Rightarrow> bool" where
  "is_value_end c \<longleftrightarrow> c = CHR '','' \<or> c = CHR ''}'' \<or> c = CHR '']''"

text \<open>The text of a value and what follows it; a range \<open>(begin, end)\<close> is the text between.\<close>

definition text_between :: "string \<Rightarrow> string \<Rightarrow> string" where
  "text_between s rest = take (length s - length rest) s"

definition read_value_range :: "string \<Rightarrow> (string \<times> string) option" where
  "read_value_range s0 =
     (let s = skip_ws s0 in
      if s = [] then None
      else if hd s = quote then
        (case parse_string s of None \<Rightarrow> None | Some (_, rest) \<Rightarrow> Some (text_between s rest, rest))
      else if hd s = CHR ''{'' then
        (case skip_composite (CHR ''{'') (CHR ''}'') s of None \<Rightarrow> None
         | Some rest \<Rightarrow> Some (text_between s rest, rest))
      else if hd s = CHR ''['' then
        (case skip_composite (CHR ''['') (CHR '']'') s of None \<Rightarrow> None
         | Some rest \<Rightarrow> Some (text_between s rest, rest))
      else
        let rest = dropWhile (\<lambda>c. \<not> is_value_end c) s
        in Some (text_between s rest, rest))"

text \<open>
  One round of the loop that looks a field up: \<open>Inl\<close> leaves the function with its result,
  \<open>Inr\<close> goes on with the remaining text.
\<close>

definition field_round :: "string \<Rightarrow> string \<Rightarrow> string option + string" where
  "field_round field s =
     (if length s \<le> 1 then Inl None
      else
        let s1 = skip_ws s in
        if s1 \<noteq> [] \<and> hd s1 = CHR ''}'' then Inl None
        else
          case parse_string s1 of None \<Rightarrow> Inl None
          | Some (key, s2) \<Rightarrow>
              let s3 = skip_ws s2 in
              if s3 = [] \<or> hd s3 \<noteq> CHR '':'' then Inl None
              else
                case read_value_range (tl s3) of None \<Rightarrow> Inl None
                | Some (v, s4) \<Rightarrow>
                    if key = field then Inl (Some v)
                    else let s5 = skip_ws s4 in Inr (if s5 \<noteq> [] \<and> hd s5 = CHR '','' then tl s5 else s5))"

text \<open>The loop with fuel for its rounds: the outer \<open>None\<close> is running out of fuel, the inner result is the code's.\<close>

fun field_loop :: "nat \<Rightarrow> string \<Rightarrow> string \<Rightarrow> string option option" where
  "field_loop 0 field s = None"
| "field_loop (Suc fuel) field s =
     (case field_round field s of Inl r \<Rightarrow> Some r | Inr s' \<Rightarrow> field_loop fuel field s')"

definition field_value :: "string \<Rightarrow> string \<Rightarrow> string option" where
  "field_value object0 field =
     (let obj = trim object0 in
      if length obj < 2 \<or> hd obj \<noteq> CHR ''{'' \<or> last obj \<noteq> CHR ''}'' then None
      else (case field_loop (length obj) field (tl obj) of None \<Rightarrow> None | Some r \<Rightarrow> r))"

definition first_array_value :: "string \<Rightarrow> string option" where
  "first_array_value array0 =
     (let array = trim array0 in
      if length array < 2 \<or> hd array \<noteq> CHR ''['' \<or> last array \<noteq> CHR '']'' then None
      else
        let s = skip_ws (tl array) in
        if s \<noteq> [] \<and> hd s = CHR '']'' then None
        else map_option fst (read_value_range s))"

definition string_value :: "string \<Rightarrow> string option" where
  "string_value v =
     (case parse_string v of None \<Rightarrow> None
      | Some (parsed, rest) \<Rightarrow> if skip_ws rest \<noteq> [] then None else Some parsed)"

definition bool_value :: "string \<Rightarrow> bool option" where
  "bool_value v =
     (if trim v = ''true'' then Some True else if trim v = ''false'' then Some False else None)"

text \<open>
  The accumulator is a C++ \<^verbatim>\<open>int\<close>; here it is unbounded, which is the code's value
  wherever that is defined (no intermediate result beyond \<open>2\<^sup>3\<^sup>1 - 1\<close>).
\<close>

fun int_digits :: "int \<Rightarrow> string \<Rightarrow> int option" where
  "int_digits parsed [] = Some parsed"
| "int_digits parsed (ch # cs) =
     (if code_of ch < 48 \<or> 57 < code_of ch then None
      else int_digits (parsed * 10 + (int (code_of ch) - 48)) cs)"

definition int_value :: "string \<Rightarrow> int option" where
  "int_value v =
     (let value = trim v in
      if value = [] then None
      else
        let (sign, digits) = (if hd value = CHR ''-'' then (-1, tl value) else (1, value))
        in if digits = [] then None else map_option (\<lambda>parsed. parsed * sign) (int_digits 0 digits))"

section \<open>Escaping\<close>

definition hex_digit :: "nat \<Rightarrow> char" where
  "hex_digit n = (if n < 10 then char_of (48 + n) else char_of (55 + n))"

text \<open>\<^verbatim>\<open>setw(4)\<close>, \<^verbatim>\<open>setfill('0')\<close>, uppercase hexadecimal of a byte below 32.\<close>

definition unicode_escape :: "char \<Rightarrow> string" where
  "unicode_escape ch = [backslash, CHR ''u'', CHR ''0'', CHR ''0'', hex_digit (code_of ch div 16), hex_digit (code_of ch mod 16)]"

definition escape_char :: "char \<Rightarrow> string" where
  "escape_char ch =
     (if ch = quote then [backslash, quote]
      else if ch = backslash then [backslash, backslash]
      else if ch = CHR 0x08 then [backslash, CHR ''b'']
      else if ch = CHR 0x0C then [backslash, CHR ''f'']
      else if ch = CHR 0x0A then [backslash, CHR ''n'']
      else if ch = CHR 0x0D then [backslash, CHR ''r'']
      else if ch = CHR 0x09 then [backslash, CHR ''t'']
      else if code_of ch < 0x20 then unicode_escape ch
      else [ch])"

definition escape_json_string :: "string \<Rightarrow> string" where
  "escape_json_string value = concat (map escape_char value)"

text \<open>
  One round of \<^verbatim>\<open>escape_json_string_bounded\<close> on a nonempty rest: the token to append and
  the bytes it stands for.  Malformed UTF-8 becomes U+FFFD, byte by byte.
\<close>

definition replacement :: string where
  "replacement = backslash # ''uFFFD''"

definition valid_sequence :: "string \<Rightarrow> bool" where
  "valid_sequence s \<longleftrightarrow>
     (let n = sequence_len (hd s) in
      n \<noteq> 0 \<and> n \<le> length s \<and> list_all is_continuation (take (n - 1) (tl s)) \<and> \<not> bad_second (hd s) (s ! 1))"

definition bounded_token :: "string \<Rightarrow> string \<times> nat" where
  "bounded_token s =
     (if code_of (hd s) \<le> 0x7F then (escape_char (hd s), 1)
      else if valid_sequence s then (take (sequence_len (hd s)) s, sequence_len (hd s))
      else (replacement, 1))"

lemma bounded_token_consumes: "0 < snd (bounded_token s)"
  by (simp add: bounded_token_def valid_sequence_def Let_def)

function bounded_loop :: "nat \<Rightarrow> string \<Rightarrow> string \<Rightarrow> string" where
  "bounded_loop max_len escaped s =
     (if s = [] then escaped
      else
        let token = fst (bounded_token s); consumed = snd (bounded_token s) in
        if max_len < length escaped + length token then escaped
        else bounded_loop max_len (escaped @ token) (drop consumed s))"
  by pat_completeness auto
termination
  by (relation "measure (length \<circ> snd \<circ> snd)") (auto simp: bounded_token_consumes)

declare bounded_loop.simps [simp del]

definition escape_json_string_bounded :: "string \<Rightarrow> nat \<Rightarrow> string" where
  "escape_json_string_bounded value max_encoded_len = bounded_loop max_encoded_len [] value"

definition clipped_status_string :: "string \<Rightarrow> nat \<Rightarrow> string" where
  "clipped_status_string value max_len = (if length value \<le> max_len then value else take max_len value)"

end
