(* ===== verification/Config_Payload.thy ===== *)
theory Config_Payload
  imports Json_Text Keymap
begin

text \<open>
  \<^verbatim>\<open>components/keyboard/include/keyboard/config_payload.h\<close> and \<^verbatim>\<open>src/config_payload.cpp\<close>
  above the JSON scanner: the configuration the app sends is checked field by field and
  becomes a keyboard configuration, or a status that says why not.  A result is the pair of
  the status and the configuration as far as it was filled in.  Also
  \<^verbatim>\<open>config_state.h\<close>/\<^verbatim>\<open>config_state.cpp\<close>, the configuration in force.
\<close>

section \<open>Data\<close>

datatype ConfigParseStatus = ParseOk | InvalidJson | InvalidSchema | UnsupportedAudio
  | MissingProfile | MissingBinding | UnknownAction | FixedTextTooLarge

datatype EncoderScrollAxis = Vertical | Horizontal | AxisToggle
datatype EncoderRotationMode = Scroll | Cursor
datatype PttMode = PttHold | PttToggle
datatype HotkeySource = PlatformDefault | Custom

record EncoderScrollConfig =
  es_enabled :: bool
  es_mode :: EncoderRotationMode
  es_axis :: EncoderScrollAxis
  es_speed :: int
  es_reverse_vertical :: bool
  es_reverse_horizontal :: bool
  es_macos_reverse_vertical :: bool
  es_macos_reverse_horizontal :: bool
  es_windows_reverse_vertical :: bool
  es_windows_reverse_horizontal :: bool

definition default_scroll :: EncoderScrollConfig where
  "default_scroll = \<lparr>es_enabled = True, es_mode = Scroll, es_axis = Vertical, es_speed = 3,
     es_reverse_vertical = False, es_reverse_horizontal = False,
     es_macos_reverse_vertical = False, es_macos_reverse_horizontal = False,
     es_windows_reverse_vertical = False, es_windows_reverse_horizontal = False\<rparr>"

record ParsedKeyboardConfig =
  pk_ptt_hotkey :: string
  pk_edit_ptt_hotkey :: string
  pk_ptt_hotkey_source :: HotkeySource
  pk_edit_ptt_hotkey_source :: HotkeySource
  pk_target_platform :: HostPlatform
  pk_ptt_hotkey_source_explicit :: bool
  pk_edit_ptt_hotkey_source_explicit :: bool
  pk_target_platform_explicit :: bool
  pk_ptt_mode :: PttMode
  pk_wifi_ssid :: string
  pk_wifi_password :: string
  pk_audio_host :: string
  pk_audio_port :: int
  pk_speaker_sync_key :: string
  pk_speaker_sync_key_epoch :: u16
  pk_keymap :: Keymap
  pk_encoder_scroll :: EncoderScrollConfig

definition default_config :: ParsedKeyboardConfig where
  "default_config = \<lparr>pk_ptt_hotkey = ''RightMeta'', pk_edit_ptt_hotkey = ''RightOption'',
     pk_ptt_hotkey_source = PlatformDefault, pk_edit_ptt_hotkey_source = PlatformDefault,
     pk_target_platform = MacOS, pk_ptt_hotkey_source_explicit = False,
     pk_edit_ptt_hotkey_source_explicit = False, pk_target_platform_explicit = False,
     pk_ptt_mode = PttToggle, pk_wifi_ssid = '''', pk_wifi_password = '''', pk_audio_host = '''',
     pk_audio_port = 17333, pk_speaker_sync_key = '''', pk_speaker_sync_key_epoch = 0,
     pk_keymap = DefaultKeymap, pk_encoder_scroll = default_scroll\<rparr>"

type_synonym ConfigParseResult = "ConfigParseStatus \<times> ParsedKeyboardConfig"

definition kDefaultAudioPort :: int where "kDefaultAudioPort = 17333"
definition kFixedTextMaxUtf8Bytes :: nat where "kFixedTextMaxUtf8Bytes = 960"

section \<open>Values with a meaning\<close>

definition clamp_scroll_speed :: "int \<Rightarrow> int" where
  "clamp_scroll_speed speed = (if speed < 1 then 1 else if 8 < speed then 8 else speed)"

definition parse_scroll_axis :: "string \<Rightarrow> EncoderScrollAxis option" where
  "parse_scroll_axis axis =
     (if axis = ''vertical'' then Some Vertical
      else if axis = ''horizontal'' then Some Horizontal
      else if axis = ''toggle'' then Some AxisToggle else None)"

definition parse_rotation_mode :: "string \<Rightarrow> EncoderRotationMode option" where
  "parse_rotation_mode mode =
     (if mode = ''scroll'' then Some Scroll else if mode = ''cursor'' then Some Cursor else None)"

definition parse_ptt_mode :: "string \<Rightarrow> PttMode option" where
  "parse_ptt_mode mode =
     (if mode = ''hold'' then Some PttHold else if mode = ''toggle'' then Some PttToggle else None)"

definition parse_host_platform :: "string \<Rightarrow> HostPlatform option" where
  "parse_host_platform v =
     (if v = ''macos'' then Some MacOS else if v = ''windows'' then Some Windows else None)"

definition parse_hotkey_source :: "string \<Rightarrow> HotkeySource option" where
  "parse_hotkey_source v =
     (if v = ''platform_default'' then Some PlatformDefault else if v = ''custom'' then Some Custom else None)"

definition is_legacy_factory_ptt_hotkey :: "string \<Rightarrow> bool" where
  "is_legacy_factory_ptt_hotkey v \<longleftrightarrow>
     v = ''RightMeta'' \<or> v = ''Ctrl+Shift+Space'' \<or> v = ''CommandOrControl+Shift+Space''"

definition is_legacy_factory_edit_ptt_hotkey :: "string \<Rightarrow> bool" where
  "is_legacy_factory_edit_ptt_hotkey v \<longleftrightarrow>
     v = ''RightOption'' \<or> v = ''AltGr'' \<or> v = ''Ctrl+Shift+E'' \<or> v = ''CommandOrControl+Shift+E''"

definition is_valid_audio_source :: "string \<Rightarrow> bool" where
  "is_valid_audio_source source \<longleftrightarrow> source = ''unavailable'' \<or> source = ''wifi_udp'' \<or> source = ''computer''"

definition is_valid_microphone_source :: "string \<Rightarrow> bool" where
  "is_valid_microphone_source source \<longleftrightarrow> source = ''auto'' \<or> source = ''keyboard'' \<or> source = ''computer''"

definition is_valid_audio_port :: "int \<Rightarrow> bool" where
  "is_valid_audio_port port \<longleftrightarrow> 1024 \<le> port \<and> port \<le> 65535"

definition is_valid_speaker_sync_key :: "string \<Rightarrow> bool" where
  "is_valid_speaker_sync_key key \<longleftrightarrow>
     length key = 64 \<and> list_all (\<lambda>c. 0 \<le> hex_digit_value c) key \<and> list_ex (\<lambda>c. hex_digit_value c \<noteq> 0) key"

definition named_action_kind :: "string \<Rightarrow> ActionKind option" where
  "named_action_kind action =
     (if action = ''disabled'' then Some Disabled
      else if action = ''voice_ptt_hold'' then Some VoicePttHold
      else if action = ''edit_ptt_hold'' then Some EditPttHold
      else if action = ''paste_last'' then Some PasteLast
      else if action = ''history'' then Some OpenHistory
      else if action = ''toggle_profile'' then Some ToggleProfile
      else if action = ''settings'' then Some Settings
      else if action = ''previous_profile'' then Some PreviousProfile
      else if action = ''next_profile'' then Some NextProfile
      else if action = ''scroll_axis_toggle'' then Some ScrollAxisToggle
      else if action = ''select_all'' then Some SelectAll
      else if action = ''copy'' then Some Copy
      else if action = ''paste'' then Some Paste
      else if action = ''undo'' then Some Undo
      else None)"

definition default_ptt_hotkey :: "HostPlatform \<Rightarrow> string" where
  "default_ptt_hotkey platform = (if platform = Windows then ''Ctrl+Shift+Space'' else ''RightMeta'')"

definition default_edit_ptt_hotkey :: "HostPlatform \<Rightarrow> string" where
  "default_edit_ptt_hotkey platform = (if platform = Windows then ''Ctrl+Shift+E'' else ''RightOption'')"

section \<open>Actions and bindings\<close>

text \<open>\<open>Inl\<close> is a status other than Ok; the out-parameter is then left alone.\<close>

definition parse_action :: "string \<Rightarrow> ConfigParseStatus + Action" where
  "parse_action v =
     (case string_value v of
        Some named \<Rightarrow>
          (case named_action_kind named of None \<Rightarrow> Inl UnknownAction | Some kind \<Rightarrow> Inr (make_action kind ''''))
      | None \<Rightarrow>
          (case field_value v ''hotkey'' of
             Some hotkey_value \<Rightarrow>
               (case string_value hotkey_value of
                  None \<Rightarrow> Inl UnknownAction
                | Some hotkey \<Rightarrow> if hotkey = '''' then Inl UnknownAction else Inr (make_action Hotkey hotkey))
           | None \<Rightarrow>
               (case field_value v ''text'' of
                  Some text_value \<Rightarrow>
                    (case string_value text_value of
                       None \<Rightarrow> Inl UnknownAction
                     | Some txt \<Rightarrow>
                         if txt = '''' then Inl UnknownAction
                         else if kFixedTextMaxUtf8Bytes < length txt then Inl FixedTextTooLarge
                         else Inr \<lparr>ac_kind = FixedText, ac_hotkey = '''', ac_text = txt\<rparr>)
                | None \<Rightarrow> Inl UnknownAction)))"

definition parse_binding :: "string \<Rightarrow> string \<Rightarrow> ConfigParseStatus + Action" where
  "parse_binding bindings input_name =
     (case field_value bindings input_name of None \<Rightarrow> Inl MissingBinding
      | Some binding \<Rightarrow>
          (case field_value binding ''press'' of None \<Rightarrow> Inl MissingBinding
           | Some press \<Rightarrow> parse_action press))"

definition parse_encoder_action :: "string \<Rightarrow> string \<Rightarrow> ConfigParseStatus + Action" where
  "parse_encoder_action encoder field =
     (case field_value encoder field of None \<Rightarrow> Inl MissingBinding | Some v \<Rightarrow> parse_action v)"

definition on_ok :: "'e + 'a \<Rightarrow> ('a \<Rightarrow> 'e + 'b) \<Rightarrow> 'e + 'b" where
  "on_ok r f = (case r of Inl e \<Rightarrow> Inl e | Inr x \<Rightarrow> f x)"

text \<open>An optional field: absent leaves the value, present must be read.\<close>

definition optional_field ::
  "string \<Rightarrow> string \<Rightarrow> (string \<Rightarrow> 'b option) \<Rightarrow> ('b \<Rightarrow> 'c \<Rightarrow> 'c) \<Rightarrow> 'c \<Rightarrow> ConfigParseStatus + 'c" where
  "optional_field obj field read store c =
     (case field_value obj field of None \<Rightarrow> Inr c
      | Some raw \<Rightarrow> (case read raw of None \<Rightarrow> Inl InvalidJson | Some v \<Rightarrow> Inr (store v c)))"

definition copy_reverse :: "EncoderScrollConfig \<Rightarrow> EncoderScrollConfig" where
  "copy_reverse p = p\<lparr>es_macos_reverse_vertical := es_reverse_vertical p,
     es_macos_reverse_horizontal := es_reverse_horizontal p,
     es_windows_reverse_vertical := es_reverse_vertical p,
     es_windows_reverse_horizontal := es_reverse_horizontal p\<rparr>"

text \<open>\<open>Inr None\<close>: there is no scroll object and the configuration keeps its default.\<close>

definition parse_encoder_scroll_config :: "string \<Rightarrow> ConfigParseStatus + EncoderScrollConfig option" where
  "parse_encoder_scroll_config encoder =
     (case field_value encoder ''scroll'' of None \<Rightarrow> Inr None
      | Some scroll \<Rightarrow>
          let scroll_object = trim scroll in
          if length scroll_object < 2 \<or> hd scroll_object \<noteq> CHR ''{'' \<or> last scroll_object \<noteq> CHR ''}''
          then Inl InvalidJson
          else
            on_ok (optional_field scroll ''enabled'' bool_value (\<lambda>v. es_enabled_update (\<lambda>_. v)) default_scroll) (\<lambda>p.
            on_ok (optional_field scroll ''mode'' (\<lambda>raw. Option.bind (string_value raw) parse_rotation_mode)
                     (\<lambda>v. es_mode_update (\<lambda>_. v)) p) (\<lambda>p.
            on_ok (optional_field scroll ''axis'' (\<lambda>raw. Option.bind (string_value raw) parse_scroll_axis)
                     (\<lambda>v. es_axis_update (\<lambda>_. v)) p) (\<lambda>p.
            on_ok (optional_field scroll ''speed'' int_value (\<lambda>v. es_speed_update (\<lambda>_. clamp_scroll_speed v)) p) (\<lambda>p.
            on_ok (optional_field scroll ''reverse_vertical'' bool_value (\<lambda>v. es_reverse_vertical_update (\<lambda>_. v)) p) (\<lambda>p.
            on_ok (optional_field scroll ''reverse_horizontal'' bool_value (\<lambda>v. es_reverse_horizontal_update (\<lambda>_. v)) p) (\<lambda>p.
            on_ok (optional_field scroll ''macos_reverse_vertical'' bool_value
                     (\<lambda>v. es_macos_reverse_vertical_update (\<lambda>_. v)) (copy_reverse p)) (\<lambda>p.
            on_ok (optional_field scroll ''macos_reverse_horizontal'' bool_value
                     (\<lambda>v. es_macos_reverse_horizontal_update (\<lambda>_. v)) p) (\<lambda>p.
            on_ok (optional_field scroll ''windows_reverse_vertical'' bool_value
                     (\<lambda>v. es_windows_reverse_vertical_update (\<lambda>_. v)) p) (\<lambda>p.
            on_ok (optional_field scroll ''windows_reverse_horizontal'' bool_value
                     (\<lambda>v. es_windows_reverse_horizontal_update (\<lambda>_. v)) p) (\<lambda>p. Inr (Some p))))))))))))"

section \<open>The payload\<close>

definition then_ok :: "ConfigParseResult \<Rightarrow> (ParsedKeyboardConfig \<Rightarrow> ConfigParseResult) \<Rightarrow> ConfigParseResult" where
  "then_ok r f = (if fst r = ParseOk then f (snd r) else r)"

definition optional_step ::
  "string \<Rightarrow> string \<Rightarrow> (string \<Rightarrow> 'b option) \<Rightarrow> ('b \<Rightarrow> ParsedKeyboardConfig \<Rightarrow> ParsedKeyboardConfig) \<Rightarrow>
   ParsedKeyboardConfig \<Rightarrow> ConfigParseResult" where
  "optional_step json field read store c =
     (case optional_field json field read store c of Inl st \<Rightarrow> (st, c) | Inr c' \<Rightarrow> (ParseOk, c'))"

definition checked :: "(string \<Rightarrow> bool) \<Rightarrow> string \<Rightarrow> string option" where
  "checked valid raw = Option.bind (string_value raw) (\<lambda>s. if valid s then Some s else None)"

definition read_target_platform :: "string \<Rightarrow> ParsedKeyboardConfig \<Rightarrow> ConfigParseResult" where
  "read_target_platform json =
     optional_step json ''target_platform'' (\<lambda>raw. Option.bind (string_value raw) parse_host_platform)
       (\<lambda>p c. c\<lparr>pk_target_platform := p, pk_target_platform_explicit := True\<rparr>)"

definition check_schema :: "string \<Rightarrow> ParsedKeyboardConfig \<Rightarrow> ConfigParseResult" where
  "check_schema json c =
     (if Option.bind (field_value json ''schema'') string_value \<noteq> Some ''ai_keyboard.v1''
      then (InvalidSchema, c) else (ParseOk, c))"

definition check_sources :: "string \<Rightarrow> ParsedKeyboardConfig \<Rightarrow> ConfigParseResult" where
  "check_sources json c =
     then_ok (optional_step json ''audio_source'' (checked is_valid_audio_source) (\<lambda>_ c. c) c)
       (optional_step json ''microphone_source'' (checked is_valid_microphone_source) (\<lambda>_ c. c))"

definition read_wifi :: "string \<Rightarrow> ParsedKeyboardConfig \<Rightarrow> ConfigParseResult" where
  "read_wifi json c =
     then_ok (optional_step json ''wifi_ssid'' string_value (\<lambda>v c. c\<lparr>pk_wifi_ssid := v\<rparr>) c) (\<lambda>c.
     then_ok (optional_step json ''wifi_password'' string_value (\<lambda>v c. c\<lparr>pk_wifi_password := v\<rparr>) c)
       (optional_step json ''audio_host'' string_value (\<lambda>v c. c\<lparr>pk_audio_host := v\<rparr>)))"

definition read_audio_port :: "string \<Rightarrow> ParsedKeyboardConfig \<Rightarrow> ConfigParseResult" where
  "read_audio_port json c =
     (case field_value json ''audio_port'' of
        None \<Rightarrow> (ParseOk, c\<lparr>pk_audio_port := kDefaultAudioPort\<rparr>)
      | Some raw \<Rightarrow>
          (case int_value raw of
             None \<Rightarrow> (InvalidJson, c)
           | Some port \<Rightarrow>
               if \<not> is_valid_audio_port port then (InvalidJson, c)
               else (ParseOk, c\<lparr>pk_audio_port := port\<rparr>)))"

definition read_sync_key :: "string \<Rightarrow> ParsedKeyboardConfig \<Rightarrow> ConfigParseResult" where
  "read_sync_key json c =
     (case (field_value json ''speaker_sync_key'', field_value json ''speaker_sync_key_epoch'') of
        (None, None) \<Rightarrow> (ParseOk, c)
      | (Some key_value, Some epoch_value) \<Rightarrow>
          (case (string_value key_value, int_value epoch_value) of
             (Some key, Some epoch) \<Rightarrow>
               if \<not> is_valid_speaker_sync_key key \<or> epoch \<le> 0 \<or> 65535 < epoch then (InvalidJson, c)
               else (ParseOk, c\<lparr>pk_speaker_sync_key := key, pk_speaker_sync_key_epoch := word_of_int epoch\<rparr>)
           | _ \<Rightarrow> (InvalidJson, c))
      | _ \<Rightarrow> (InvalidJson, c))"

definition check_audio_enabled :: "string \<Rightarrow> ParsedKeyboardConfig \<Rightarrow> ConfigParseResult" where
  "check_audio_enabled json = optional_step json ''audio_enabled'' bool_value (\<lambda>_ c. c)"

definition read_ptt_hotkey :: "string \<Rightarrow> ParsedKeyboardConfig \<Rightarrow> ConfigParseResult" where
  "read_ptt_hotkey json c =
     then_ok (optional_step json ''ptt_hotkey'' (checked (\<lambda>s. s \<noteq> ''''))
                (\<lambda>v c. c\<lparr>pk_ptt_hotkey := v, pk_ptt_hotkey_source := Custom\<rparr>) c)
       (optional_step json ''ptt_hotkey_source'' (\<lambda>raw. Option.bind (string_value raw) parse_hotkey_source)
          (\<lambda>v c. c\<lparr>pk_ptt_hotkey_source := v, pk_ptt_hotkey_source_explicit := True\<rparr>))"

definition read_edit_ptt_hotkey :: "string \<Rightarrow> ParsedKeyboardConfig \<Rightarrow> ConfigParseResult" where
  "read_edit_ptt_hotkey json c =
     then_ok (optional_step json ''edit_ptt_hotkey'' (checked (\<lambda>s. s \<noteq> ''''))
                (\<lambda>v c. c\<lparr>pk_edit_ptt_hotkey := v, pk_edit_ptt_hotkey_source := Custom\<rparr>) c)
       (optional_step json ''edit_ptt_hotkey_source'' (\<lambda>raw. Option.bind (string_value raw) parse_hotkey_source)
          (\<lambda>v c. c\<lparr>pk_edit_ptt_hotkey_source := v, pk_edit_ptt_hotkey_source_explicit := True\<rparr>))"

definition read_hotkey_mode :: "string \<Rightarrow> ParsedKeyboardConfig \<Rightarrow> ConfigParseResult" where
  "read_hotkey_mode json =
     optional_step json ''hotkey_mode'' (\<lambda>raw. Option.bind (string_value raw) parse_ptt_mode)
       (\<lambda>v c. c\<lparr>pk_ptt_mode := v\<rparr>)"

definition key_inputs :: "(string \<times> InputId) list" where
  "key_inputs = [(''KEY1'', Key1), (''KEY2'', Key2), (''KEY3'', Key3), (''KEY4'', Key4),
     (''KEY5'', Key5), (''KEY6'', Key6), (''KEY7'', Key7), (''KEY8'', Key8)]"

definition encoder_inputs :: "(string \<times> InputId) list" where
  "encoder_inputs = [(''left'', EncoderLeft), (''right'', EncoderRight), (''press'', EncoderPress)]"

text \<open>The loops over the inputs: the first failing one ends the parse with its status.\<close>

fun read_inputs :: "(string \<Rightarrow> ConfigParseStatus + Action) \<Rightarrow> (string \<times> InputId) list \<Rightarrow> Keymap \<Rightarrow> ConfigParseStatus + Keymap" where
  "read_inputs parse [] actions = Inr actions"
| "read_inputs parse ((name, input) # rest) actions =
     (case parse name of Inl st \<Rightarrow> Inl st
      | Inr a \<Rightarrow> read_inputs parse rest (actions[input_index input := a]))"

definition action_matches :: "Keymap \<Rightarrow> InputId \<Rightarrow> ActionKind \<Rightarrow> string \<Rightarrow> bool" where
  "action_matches actions input kind hotkey \<longleftrightarrow>
     ac_kind (actions ! input_index input) = kind \<and> ac_hotkey (actions ! input_index input) = hotkey"

definition platform_default_expanded_keymap :: "Keymap \<Rightarrow> bool" where
  "platform_default_expanded_keymap actions \<longleftrightarrow>
     (let m = action_matches actions;
          factory_keymap_prefix = (m Key1 VoicePttHold '''' \<and> m Key2 Hotkey ''Return'' \<and> m Key3 EditPttHold '''' \<and> m Key4 Hotkey ''Backspace'');
          legacy_macos_factory_tail = (m Key5 Hotkey ''Meta+A'' \<and> m Key6 Hotkey ''Meta+C'' \<and> m Key7 Hotkey ''Meta+V'' \<and>
            (m Key8 Hotkey ''Ctrl+Tab'' \<or> m Key8 Disabled ''''));
          expanded_macos_factory_tail = (m Key5 Hotkey ''Meta+A'' \<and> m Key6 Hotkey ''Meta+C'' \<and> m Key7 Hotkey ''Meta+V'' \<and> m Key8 Hotkey ''Meta+Z'');
          expanded_windows_factory_tail = (m Key5 Hotkey ''Ctrl+A'' \<and> m Key6 Hotkey ''Ctrl+C'' \<and> m Key7 Hotkey ''Ctrl+V'' \<and> m Key8 Hotkey ''Ctrl+Z'')
      in factory_keymap_prefix \<and> (legacy_macos_factory_tail \<or> expanded_macos_factory_tail \<or> expanded_windows_factory_tail))"

definition migrate_keymap :: "Keymap \<Rightarrow> Keymap" where
  "migrate_keymap actions =
     (if platform_default_expanded_keymap actions then
        actions[input_index Key5 := make_action SelectAll '''', input_index Key6 := make_action Copy '''',
                input_index Key7 := make_action Paste '''', input_index Key8 := make_action Undo '''']
      else actions)"

definition recognise_factory_hotkeys :: "ParsedKeyboardConfig \<Rightarrow> ParsedKeyboardConfig" where
  "recognise_factory_hotkeys c =
     (let c1 = (if \<not> pk_ptt_hotkey_source_explicit c \<and> is_legacy_factory_ptt_hotkey (pk_ptt_hotkey c)
                then c\<lparr>pk_ptt_hotkey_source := PlatformDefault\<rparr> else c)
      in if \<not> pk_edit_ptt_hotkey_source_explicit c1 \<and> is_legacy_factory_edit_ptt_hotkey (pk_edit_ptt_hotkey c1)
         then c1\<lparr>pk_edit_ptt_hotkey_source := PlatformDefault\<rparr> else c1)"

text \<open>
  The platform-derived fields: the hotkeys that follow the platform and the scroll
  directions in force.  \<^verbatim>\<open>parse_config_payload\<close> ends with them and
  \<^verbatim>\<open>ConfigState::set_target_platform\<close> repeats them.
\<close>

definition resolve_platform :: "ParsedKeyboardConfig \<Rightarrow> ParsedKeyboardConfig" where
  "resolve_platform c =
     (let platform = pk_target_platform c;
          c1 = (if pk_ptt_hotkey_source c = PlatformDefault then c\<lparr>pk_ptt_hotkey := default_ptt_hotkey platform\<rparr> else c);
          c2 = (if pk_edit_ptt_hotkey_source c1 = PlatformDefault
                then c1\<lparr>pk_edit_ptt_hotkey := default_edit_ptt_hotkey platform\<rparr> else c1);
          s = pk_encoder_scroll c2
      in c2\<lparr>pk_encoder_scroll := s\<lparr>
           es_reverse_vertical := if platform = Windows then es_windows_reverse_vertical s else es_macos_reverse_vertical s,
           es_reverse_horizontal := if platform = Windows then es_windows_reverse_horizontal s else es_macos_reverse_horizontal s\<rparr>\<rparr>)"

definition no_actions :: Keymap where
  "no_actions = replicate (input_index InputCount) (make_action Disabled '''')"

definition read_profile :: "string \<Rightarrow> ParsedKeyboardConfig \<Rightarrow> ConfigParseResult" where
  "read_profile json c =
     (case Option.bind (field_value json ''profiles'') first_array_value of
        None \<Rightarrow> (MissingProfile, c)
      | Some profile \<Rightarrow>
          (case (field_value profile ''keys'', field_value profile ''encoder'') of
             (Some keys, Some encoder) \<Rightarrow>
               (case read_inputs (parse_binding keys) key_inputs no_actions of
                  Inl st \<Rightarrow> (st, c)
                | Inr actions \<Rightarrow>
                    let actions = migrate_keymap actions; c1 = recognise_factory_hotkeys c in
                    case read_inputs (parse_encoder_action encoder) encoder_inputs actions of
                      Inl st \<Rightarrow> (st, c1)
                    | Inr actions \<Rightarrow>
                        (case parse_encoder_scroll_config encoder of
                           Inl st \<Rightarrow> (st, c1)
                         | Inr scroll \<Rightarrow>
                             let c2 = (case scroll of None \<Rightarrow> c1 | Some s \<Rightarrow> c1\<lparr>pk_encoder_scroll := s\<rparr>)
                             in (ParseOk, resolve_platform (c2\<lparr>pk_keymap := actions\<rparr>))))
           | _ \<Rightarrow> (MissingBinding, c)))"

definition parse_config_payload :: "string \<Rightarrow> ConfigParseResult" where
  "parse_config_payload json =
     then_ok (read_target_platform json (default_config\<lparr>pk_ptt_mode := PttHold\<rparr>)) (\<lambda>c.
     then_ok (check_schema json c) (\<lambda>c.
     then_ok (check_sources json c) (\<lambda>c.
     then_ok (read_wifi json c) (\<lambda>c.
     then_ok (read_audio_port json c) (\<lambda>c.
     then_ok (read_sync_key json c) (\<lambda>c.
     then_ok (check_audio_enabled json c) (\<lambda>c.
     then_ok (read_ptt_hotkey json c) (\<lambda>c.
     then_ok (read_edit_ptt_hotkey json c) (\<lambda>c.
     then_ok (read_hotkey_mode json c) (read_profile json))))))))))"

section \<open>The configuration in force\<close>

record ConfigState =
  gs_current :: ParsedKeyboardConfig
  gs_last_applied_json :: string

definition init_config_state :: ConfigState where
  "init_config_state = \<lparr>gs_current = default_config, gs_last_applied_json = ''''\<rparr>"

definition set_target_platform :: "ConfigState \<Rightarrow> HostPlatform \<Rightarrow> ConfigState" where
  "set_target_platform st platform =
     st\<lparr>gs_current := resolve_platform ((gs_current st)\<lparr>pk_target_platform := platform\<rparr>)\<rparr>"

definition apply_json :: "ConfigState \<Rightarrow> string \<Rightarrow> ConfigParseStatus \<times> ConfigState" where
  "apply_json st json =
     (let parsed = parse_config_payload json in
      if fst parsed \<noteq> ParseOk then (fst parsed, st)
      else
        let effective_platform = (if pk_target_platform_explicit (snd parsed) then pk_target_platform (snd parsed)
                                  else pk_target_platform (gs_current st));
            st1 = set_target_platform (st\<lparr>gs_current := snd parsed\<rparr>) effective_platform
        in (ParseOk, st1\<lparr>gs_last_applied_json := json\<rparr>))"

definition config_audio_enabled :: "ConfigState \<Rightarrow> bool" where
  "config_audio_enabled st \<longleftrightarrow>
     pk_wifi_ssid (gs_current st) \<noteq> '''' \<and> pk_audio_host (gs_current st) \<noteq> '''' \<and>
     1024 \<le> pk_audio_port (gs_current st) \<and> pk_audio_port (gs_current st) \<le> 65535"

end
