(* ===== verification/Json_Facts.thy ===== *)
theory Json_Facts
  imports Json_Text
begin

text \<open>
  The JSON text layer against its specification: Unicode text is a sequence of scalar
  values in UTF-8, every accepted string is such text, escaping and parsing are inverse,
  and the field lookup ends.
\<close>

unbundle bit_operations_syntax

section \<open>Bytes\<close>

lemma code_of_less [simp]: "code_of c < 256"
  by (simp add: code_of_def)

lemma char_of_code [simp]: "char_of (code_of c) = c"
  by (simp add: code_of_def)

lemma code_of_char_of [simp]: "n < 256 \<Longrightarrow> code_of (char_of n) = n"
  by (simp add: code_of_def)

lemma code_of_eq_iff: "code_of c = code_of d \<longleftrightarrow> c = d"
  by (simp add: code_of_def)

lemma unat_byte_of: "unat (byte_of c) = code_of c"
proof -
  have "byte_of c = word_of_nat (code_of c)" by (simp add: byte_of_def code_of_def of_nat_of_char)
  then show ?thesis using code_of_less [of c] by (simp add: unat_of_nat)
qed

lemma or_low:
  fixes m :: nat
  assumes "m < 2 ^ k"
  shows "(a * 2 ^ k) OR m = a * 2 ^ k + m"
proof -
  have "\<not> bit m n" if "k \<le> n" for n
    using assms that by (metis bit_take_bit_iff not_le take_bit_nat_eq_self)
  then have "\<not> bit (push_bit k a) n \<or> \<not> bit m n" for n
    by (auto simp: bit_push_bit_iff)
  then have "push_bit k a + m = push_bit k a OR m" by (rule disjunctive_add)
  then show ?thesis by (simp add: push_bit_eq_mult)
qed

lemma or_lead_2: "m < 32 \<Longrightarrow> 192 OR m = 192 + (m :: nat)" using or_low [of m 5 6] by simp
lemma or_lead_3: "m < 16 \<Longrightarrow> 224 OR m = 224 + (m :: nat)" using or_low [of m 5 7] by simp
lemma or_lead_4: "m < 8 \<Longrightarrow> 240 OR m = 240 + (m :: nat)" using or_low [of m 4 15] by simp
lemma or_tail: "m < 64 \<Longrightarrow> 128 OR m = 128 + (m :: nat)" using or_low [of m 6 2] by simp

lemma and_63: "(n :: nat) AND 63 = n mod 64"
proof -
  have "n AND mask 6 = n mod 2 ^ 6" by (simp only: take_bit_eq_mask [symmetric] take_bit_eq_mod)
  then show ?thesis by (simp add: mask_eq_exp_minus_1)
qed

lemma and_192:
  assumes "n < 256"
  shows "(n :: nat) AND 192 = n div 64 * 64"
proof -
  have mask: "(192 :: nat) = push_bit 6 (mask 2)" by (simp add: mask_eq_exp_minus_1 push_bit_eq_mult)
  have "n AND push_bit 6 (mask 2) = push_bit 6 (take_bit 2 (drop_bit 6 n))"
    by (rule bit_eqI) (auto simp: bit_simps)
  also have "take_bit 2 (drop_bit 6 n) = n div 64"
    using assms by (simp add: take_bit_eq_mod drop_bit_eq_div)
  finally show ?thesis by (simp add: mask push_bit_eq_mult)
qed

lemma is_continuation_iff: "is_continuation c \<longleftrightarrow> 128 \<le> code_of c \<and> code_of c < 192"
proof -
  have "is_continuation c \<longleftrightarrow> unat (byte_of c AND 0xC0) = 128"
    by (simp add: is_continuation_def word_unat_eq_iff)
  also have "unat (byte_of c AND 0xC0) = code_of c div 64 * 64"
    by (simp add: unsigned_and_eq unat_byte_of and_192)
  also have "(code_of c div 64 * 64 = 128) = (128 \<le> code_of c \<and> code_of c < 192)"
  proof
    assume "code_of c div 64 * 64 = 128"
    then show "128 \<le> code_of c \<and> code_of c < 192" using div_mult_mod_eq [of "code_of c" 64] by simp
  next
    assume "128 \<le> code_of c \<and> code_of c < 192"
    then have "code_of c div 64 = 2" by (intro div_nat_eqI) auto
    then show "code_of c div 64 * 64 = 128" by simp
  qed
  finally show ?thesis .
qed

section \<open>Unicode text\<close>

definition scalar_value :: "nat \<Rightarrow> bool" where
  "scalar_value cp \<longleftrightarrow> cp \<le> 0x10FFFF \<and> \<not> (0xD800 \<le> cp \<and> cp \<le> 0xDFFF)"

definition utf8 :: "nat \<Rightarrow> string" where
  "utf8 cp =
     (if cp < 0x80 then [char_of cp]
      else if cp < 0x800 then [char_of (0xC0 + cp div 64), char_of (0x80 + cp mod 64)]
      else if cp < 0x10000
      then [char_of (0xE0 + cp div 4096), char_of (0x80 + cp div 64 mod 64), char_of (0x80 + cp mod 64)]
      else [char_of (0xF0 + cp div 262144), char_of (0x80 + cp div 4096 mod 64),
            char_of (0x80 + cp div 64 mod 64), char_of (0x80 + cp mod 64)])"

definition is_utf8 :: "string \<Rightarrow> bool" where
  "is_utf8 s \<longleftrightarrow> (\<exists>cps. list_all scalar_value cps \<and> s = concat (map utf8 cps))"

lemma is_utf8_Nil [simp]: "is_utf8 []"
  unfolding is_utf8_def by (rule exI [of _ "[]"]) simp

lemma is_utf8_snoc: "is_utf8 s \<Longrightarrow> scalar_value cp \<Longrightarrow> is_utf8 (s @ utf8 cp)"
  unfolding is_utf8_def
proof (elim exE conjE)
  fix cps
  assume "scalar_value cp" "list_all scalar_value cps" "s = concat (map utf8 cps)"
  then show "\<exists>cps'. list_all scalar_value cps' \<and> s @ utf8 cp = concat (map utf8 cps')"
    by (intro exI [of _ "cps @ [cp]"]) simp
qed

lemma is_utf8_ascii: "code_of c < 0x80 \<Longrightarrow> [c] = utf8 (code_of c) \<and> scalar_value (code_of c)"
  by (simp add: utf8_def scalar_value_def)

lemma unat_and_63: "unat ((w :: u32) AND 63) = unat w mod 64"
  by (simp add: unsigned_and_eq and_63)

lemma append_code_point_utf8:
  assumes "append_utf8_code_point cp = Some out"
  shows "scalar_value (unat cp) \<and> out = utf8 (unat cp)"
proof -
  have range: "unat cp \<le> 0x10FFFF" "\<not> (0xD800 \<le> unat cp \<and> unat cp \<le> 0xDFFF)"
    using assms by (auto simp: append_utf8_code_point_def word_le_nat_alt word_less_nat_alt split: if_splits)
  have tail: "unat (0x80 OR (w AND 0x3F)) = 0x80 + unat w mod 64" for w :: u32
    by (simp add: unsigned_or_eq unat_and_63 or_tail)
  have drop: "unat (drop_bit k cp) = unat cp div 2 ^ k" for k
    unfolding unat_drop_bit_eq by (rule drop_bit_eq_div)
  have lead2: "unat (0xC0 OR drop_bit 6 cp) = 0xC0 + unat cp div 64" if "unat cp \<le> 0x7FF"
  proof -
    have "unat cp div 64 < 32" using that by (simp add: div_less_iff_less_mult)
    then show ?thesis by (simp add: unsigned_or_eq drop or_lead_2)
  qed
  have lead3: "unat (0xE0 OR drop_bit 12 cp) = 0xE0 + unat cp div 4096" if "unat cp \<le> 0xFFFF"
  proof -
    have "unat cp div 4096 < 16" using that by (simp add: div_less_iff_less_mult)
    then show ?thesis by (simp add: unsigned_or_eq drop or_lead_3)
  qed
  have lead4: "unat (0xF0 OR drop_bit 18 cp) = 0xF0 + unat cp div 262144"
  proof -
    have "unat cp div 262144 < 8" using range by (simp add: div_less_iff_less_mult)
    then show ?thesis by (simp add: unsigned_or_eq drop or_lead_4)
  qed
  show ?thesis
    using assms range
    by (auto simp: append_utf8_code_point_def scalar_value_def utf8_def to_char_def tail lead2 lead3 lead4 drop
        word_le_nat_alt word_less_nat_alt split: if_splits)
qed

lemma code_point_utf8: "append_utf8_code_point cp = Some out \<Longrightarrow> \<exists>cp. scalar_value cp \<and> out = utf8 cp"
  using append_code_point_utf8 by blast

lemma unicode_escape_utf8:
  "parse_unicode_escape s = Some (out, rest) \<Longrightarrow> \<exists>cp. scalar_value cp \<and> out = utf8 cp"
  by (auto simp: parse_unicode_escape_def split: option.splits if_splits) (erule code_point_utf8)+

definition simple_escapes :: string where
  "simple_escapes = [quote, backslash, CHR ''/'', CHR 0x08, CHR 0x0C, CHR 0x0A, CHR 0x0D, CHR 0x09]"

lemma simple_escapes_ascii: "c \<in> set simple_escapes \<Longrightarrow> code_of c < 0x80"
  by (auto simp: simple_escapes_def code_of_def)

lemma parse_escape_simple:
  "parse_escape e s = Some (out, rest) \<Longrightarrow> e \<noteq> CHR ''u'' \<Longrightarrow> \<exists>c \<in> set simple_escapes. out = [c]"
  by (auto simp: parse_escape_def simple_escapes_def split: if_splits)

lemma parse_escape_utf8:
  assumes "parse_escape e s = Some (out, rest)"
  shows "\<exists>cp. scalar_value cp \<and> out = utf8 cp"
proof (cases "e = CHR ''u''")
  case True
  then have "parse_unicode_escape s = Some (out, rest)" using assms by (simp add: parse_escape_def)
  then show ?thesis by (rule unicode_escape_utf8)
next
  case False
  then show ?thesis using parse_escape_simple [OF assms] simple_escapes_ascii is_utf8_ascii by metis
qed


text \<open>A literal character of a string is the encoding of one scalar value.\<close>

lemma code_split:
  assumes "128 \<le> code_of c" and "code_of c < 192"
  shows "\<exists>y < (64 :: nat). c = char_of (128 + y)"
proof (intro exI [of _ "code_of c - 128"] conjI)
  have "128 + (code_of c - 128) = code_of c" using assms(1) by linarith
  then show "c = char_of (128 + (code_of c - 128))" by (metis char_of_code)
qed (use assms in linarith)

lemma low_six: "u < 64 \<Longrightarrow> (a * 64 + u) div 64 = (a :: nat) \<and> (a * 64 + u) mod 64 = u"
  by simp

lemma continuation_split: "is_continuation c \<Longrightarrow> \<exists>y < (64 :: nat). c = char_of (128 + y)"
  using code_split by (simp add: is_continuation_iff)

lemma literal_2:
  assumes "0xC2 \<le> code_of l" and "code_of l \<le> 0xDF" and "is_continuation c"
  shows "\<exists>cp. scalar_value cp \<and> [l, c] = utf8 cp"
proof -
  define x where "x = code_of l - 0xC0"
  have sum: "0xC0 + x = code_of l" using assms(1) unfolding x_def by linarith
  have lead: "l = char_of (0xC0 + x)" by (simp only: sum char_of_code)
  have x: "2 \<le> x" "x < 32" using assms(1,2) sum by linarith+
  obtain y :: nat where y: "y < 64" "c = char_of (128 + y)" using continuation_split [OF assms(3)] by blast
  have "(x * 64 + y) div 64 = x" "(x * 64 + y) mod 64 = y" using y(1) by simp_all
  then show ?thesis
    using x y(1) unfolding lead y(2) by (intro exI [of _ "x * 64 + y"]) (simp add: utf8_def scalar_value_def)
qed

lemma literal_3:
  assumes "0xE0 \<le> code_of l" and "code_of l \<le> 0xEF" and "is_continuation c" and "is_continuation d"
    and "\<not> bad_second l c"
  shows "\<exists>cp. scalar_value cp \<and> [l, c, d] = utf8 cp"
proof -
  define x where "x = code_of l - 0xE0"
  have sum: "0xE0 + x = code_of l" using assms(1) unfolding x_def by linarith
  have lead: "l = char_of (0xE0 + x)" by (simp only: sum char_of_code)
  have x: "x < 16" using assms(1,2) sum by linarith+
  obtain y :: nat where y: "y < 64" "c = char_of (128 + y)" using continuation_split [OF assms(3)] by blast
  obtain z :: nat where z: "z < 64" "d = char_of (128 + z)" using continuation_split [OF assms(4)] by blast
  define cp where "cp = (x * 64 + y) * 64 + z"
  have parts: "cp div 64 = x * 64 + y" "cp mod 64 = z" using low_six [OF z(1), of "x * 64 + y"] by (simp_all only: cp_def)
  have "cp div 4096 = cp div 64 div 64" by (simp add: div_mult2_eq [symmetric])
  then have "cp div 4096 = x" "cp div 64 mod 64 = y" using y(1) parts by simp_all
  moreover have "\<not> (x = 0 \<and> y < 32)" "\<not> (x = 13 \<and> 31 < y)"
    using assms(5) y(1) sum code_of_char_of [of "128 + y"] unfolding y(2) bad_second_def by auto
  then have "0x800 \<le> cp" "cp < 0x10000" "x = 13 \<longrightarrow> y \<le> 31"
    using x y(1) z(1) by (auto simp: cp_def)
  moreover from this(3) have "\<not> (0xD800 \<le> cp \<and> cp \<le> 0xDFFF)"
    using y(1) z(1) unfolding cp_def by (cases "x \<le> 12"; cases "x = 13"; simp; linarith)
  ultimately show ?thesis
    using parts unfolding lead y(2) z(2) by (intro exI [of _ cp]) (simp add: utf8_def scalar_value_def)
qed

lemma literal_4:
  assumes "0xF0 \<le> code_of l" and "code_of l \<le> 0xF4" and "is_continuation c" and "is_continuation d" and "is_continuation e"
    and "\<not> bad_second l c"
  shows "\<exists>cp. scalar_value cp \<and> [l, c, d, e] = utf8 cp"
proof -
  define x where "x = code_of l - 0xF0"
  have sum: "0xF0 + x = code_of l" using assms(1) unfolding x_def by linarith
  have lead: "l = char_of (0xF0 + x)" by (simp only: sum char_of_code)
  have x: "x < 5" using assms(1,2) sum by linarith+
  obtain y :: nat where y: "y < 64" "c = char_of (128 + y)" using continuation_split [OF assms(3)] by blast
  obtain z :: nat where z: "z < 64" "d = char_of (128 + z)" using continuation_split [OF assms(4)] by blast
  obtain u :: nat where u: "u < 64" "e = char_of (128 + u)" using continuation_split [OF assms(5)] by blast
  define cp where "cp = ((x * 64 + y) * 64 + z) * 64 + u"
  have parts: "cp div 64 = (x * 64 + y) * 64 + z" "cp mod 64 = u" using low_six [OF u(1), of "(x * 64 + y) * 64 + z"] by (simp_all only: cp_def)
  have "cp div 4096 = cp div 64 div 64" "cp div 262144 = cp div 4096 div 64" by (simp_all add: div_mult2_eq [symmetric])
  then have "cp div 4096 = x * 64 + y" "cp div 64 mod 64 = z" "cp div 262144 = x" "cp div 4096 mod 64 = y"
    using low_six [OF z(1), of "x * 64 + y"] low_six [OF y(1), of x] by (simp_all only: parts)
  moreover have "\<not> (x = 0 \<and> y < 16)" "\<not> (x = 4 \<and> 15 < y)"
    using assms(6) y(1) sum code_of_char_of [of "128 + y"] unfolding y(2) bad_second_def by auto
  then have "0x10000 \<le> cp" "cp \<le> 0x10FFFF"
    using x y(1) z(1) u(1) by (auto simp: cp_def)
  ultimately show ?thesis
    using parts unfolding lead y(2) z(2) u(2) by (intro exI [of _ cp]) (simp add: utf8_def scalar_value_def)
qed

lemma append_literal_scalar:
  assumes "append_literal_utf8 s = Some (out, rest)"
  shows "\<exists>cp. scalar_value cp \<and> out = utf8 cp"
proof -
  obtain l s' where s: "s = l # s'" using assms by (cases s) (auto simp: append_literal_utf8_def)
  show ?thesis
  proof (cases "code_of l \<le> 0x7F")
    case True
    then have "out = [l]" using assms by (auto simp: append_literal_utf8_def s split: if_splits)
    then show ?thesis using is_utf8_ascii [of l] True by auto
  next
    case False
    have n: "sequence_len l \<noteq> 0" "sequence_len l \<le> length s" "list_all is_continuation (take (sequence_len l - 1) s')"
      "\<not> bad_second l (s' ! 0)" "out = take (sequence_len l) s"
      using assms False by (auto simp: append_literal_utf8_def s Let_def split: if_splits)
    consider "sequence_len l = 2" "0xC2 \<le> code_of l \<and> code_of l \<le> 0xDF"
      | "sequence_len l = 3" "0xE0 \<le> code_of l \<and> code_of l \<le> 0xEF"
      | "sequence_len l = 4" "0xF0 \<le> code_of l \<and> code_of l \<le> 0xF4"
      using n(1) by (auto simp: sequence_len_def split: if_splits)
    then show ?thesis
    proof cases
      case 1
      then obtain c s2 where "s' = c # s2" using n(2) s by (cases s') auto
      then show ?thesis using 1 n s literal_2 by (simp add: numeral_eq_Suc)
    next
      case 2
      then obtain c d s2 where "s' = c # d # s2" using n(2) s by (cases s'; cases "tl s'") auto
      then show ?thesis using 2 n s literal_3 by (simp add: numeral_eq_Suc)
    next
      case 3
      then obtain c d e s2 where "s' = c # d # e # s2"
        using n(2) s by (cases s'; cases "tl s'"; cases "tl (tl s')") auto
      then show ?thesis using 3 n s literal_4 by (simp add: numeral_eq_Suc)
    qed
  qed
qed

section \<open>Accepted strings are Unicode text\<close>

lemma parse_body_utf8:
  "parse_body parsed s = Some (t, r) \<Longrightarrow> is_utf8 parsed \<Longrightarrow> is_utf8 t"
proof (induction parsed s rule: parse_body.induct)
  case (2 parsed ch cs)
  show ?case
  proof (cases "ch = quote")
    case True
    then show ?thesis using "2.prems" by simp
  next
    case nq: False
    show ?thesis
    proof (cases "ch = backslash")
      case False
      then obtain out rest where step: "append_literal_utf8 (ch # cs) = Some (out, rest)"
        and more: "parse_body (parsed @ out) rest = Some (t, r)"
        using "2.prems" nq by (auto split: option.splits)
      then have "is_utf8 (parsed @ out)" using "2.prems"(2) append_literal_scalar is_utf8_snoc by blast
      then show ?thesis using "2.IH"(1) [OF nq False step] more by blast
    next
      case True
      then obtain escaped es out rest where cs: "cs = escaped # es" and step: "parse_escape escaped es = Some (out, rest)"
        and more: "parse_body (parsed @ out) rest = Some (t, r)"
        using "2.prems" nq by (auto split: option.splits list.splits)
      then have "is_utf8 (parsed @ out)" using "2.prems"(2) parse_escape_utf8 is_utf8_snoc by blast
      then show ?thesis using "2.IH"(2) [OF nq _ cs step] True more by blast
    qed
  qed
qed simp

text \<open>
  C24: a string the parser accepts is well-formed Unicode text in UTF-8 (escapes and
  surrogate pairs included: no overlong form, no lone surrogate, nothing beyond U+10FFFF),
  and at least its two quotes are consumed.
\<close>
theorem parsed_string_is_utf8:
  assumes "parse_string s = Some (t, rest)"
  shows "is_utf8 t \<and> length rest + 2 \<le> length s"
  using assms parse_string_rest [OF assms]
  by (auto simp: parse_string_def split: list.splits if_splits dest: parse_body_utf8)

lemma parsed_string_is_utf8_witness:
  "parse_string (quote # ''a'' @ [backslash] @ ''ud83d'' @ [backslash] @ ''ude00'' @ [quote]) =
     Some (''a'' @ [CHR 0xF0, CHR 0x9F, CHR 0x98, CHR 0x80], []) \<and>
   is_utf8 (''a'' @ [CHR 0xF0, CHR 0x9F, CHR 0x98, CHR 0x80])"
proof -
  have "parse_string (quote # ''a'' @ [backslash] @ ''ud83d'' @ [backslash] @ ''ude00'' @ [quote]) =
     Some (''a'' @ [CHR 0xF0, CHR 0x9F, CHR 0x98, CHR 0x80], [])"
    by code_simp
  with parsed_string_is_utf8 [OF this] show ?thesis by blast
qed

lemma string_value_utf8: "string_value v = Some s \<Longrightarrow> is_utf8 s"
  by (auto simp: string_value_def parse_string_def split: option.splits list.splits if_splits dest: parse_body_utf8)

section \<open>Escaping and parsing\<close>

lemma six_bits:
  fixes cp :: nat
  shows "cp = cp div 64 * 64 + cp mod 64" and "cp div 64 = cp div 4096 * 64 + cp div 64 mod 64"
    and "cp div 4096 = cp div 262144 * 64 + cp div 4096 mod 64"
  using div_mult_mod_eq [of cp 64] div_mult_mod_eq [of "cp div 64" 64] div_mult_mod_eq [of "cp div 4096" 64]
  by (simp_all add: div_mult2_eq [symmetric])

lemma second_3:
  fixes x y z :: nat
  assumes "scalar_value ((x * 64 + y) * 64 + z)" and "0x800 \<le> (x * 64 + y) * 64 + z" and "y < 64" and "z < 64"
  shows "\<not> (x = 0 \<and> y < 32)" and "\<not> (x = 13 \<and> 31 < y)"
  using assms by (auto simp: scalar_value_def)

lemma second_4:
  fixes x y z u :: nat
  assumes "scalar_value (((x * 64 + y) * 64 + z) * 64 + u)" and "0x10000 \<le> ((x * 64 + y) * 64 + z) * 64 + u"
    and "y < 64" and "z < 64" and "u < 64"
  shows "\<not> (x = 0 \<and> y < 16)" and "\<not> (x = 4 \<and> 15 < y)"
  using assms by (auto simp: scalar_value_def)

lemma literal_scalar:
  assumes "scalar_value cp" and "0x80 \<le> cp"
  shows "append_literal_utf8 (utf8 cp @ s) = Some (utf8 cp, s)"
proof -
  have six: "n mod 64 < 64" for n :: nat by simp
  have cont: "is_continuation (char_of (128 + n mod 64))" for n :: nat
    by (simp add: is_continuation_iff)
  have code: "code_of (char_of (128 + n mod 64)) = 128 + n mod 64" for n :: nat
    by simp
  consider "cp < 0x800" | "0x800 \<le> cp" "cp < 0x10000" | "0x10000 \<le> cp" by linarith
  then show ?thesis
  proof cases
    case 1
    then have "2 \<le> cp div 64" "cp div 64 < 32" using assms(2) by (simp_all add: div_less_iff_less_mult)
    then show ?thesis using 1 assms(2) cont
      by (simp add: utf8_def append_literal_utf8_def sequence_len_def bad_second_def)
  next
    case 2
    have lead: "cp div 4096 < 16" using 2 by (simp add: div_less_iff_less_mult)
    have "\<not> (cp div 4096 = 0 \<and> cp div 64 mod 64 < 32)" "\<not> (cp div 4096 = 13 \<and> 31 < cp div 64 mod 64)"
      by (rule second_3 [of "cp div 4096" "cp div 64 mod 64" "cp mod 64", unfolded six_bits [symmetric],
          OF assms(1) 2(1) six six])+
    then have "\<not> bad_second (char_of (224 + cp div 4096)) (char_of (128 + cp div 64 mod 64))"
      using lead by (auto simp: bad_second_def)
    then show ?thesis using 2 lead cont
      by (simp add: utf8_def append_literal_utf8_def sequence_len_def)
  next
    case 3
    have lead: "cp div 262144 < 5" using assms(1) by (simp add: scalar_value_def div_less_iff_less_mult)
    have "\<not> (cp div 262144 = 0 \<and> cp div 4096 mod 64 < 16)" "\<not> (cp div 262144 = 4 \<and> 15 < cp div 4096 mod 64)"
      by (rule second_4 [of "cp div 262144" "cp div 4096 mod 64" "cp div 64 mod 64" "cp mod 64",
          unfolded six_bits [symmetric], OF assms(1) 3 six six six])+
    then have "\<not> bad_second (char_of (240 + cp div 262144)) (char_of (128 + cp div 4096 mod 64))"
      using lead by (auto simp: bad_second_def)
    then show ?thesis using 3 lead cont
      by (simp add: utf8_def append_literal_utf8_def sequence_len_def)
  qed
qed

text \<open>Reading back the escape of one character.\<close>

lemma hex_digit_back: "n < 16 \<Longrightarrow> hex_digit_value (hex_digit n) = int n"
  by (auto simp: hex_digit_def hex_digit_value_def)

lemma nibbles:
  assumes "a < 16" and "b < 16"
  shows "push_bit 4 (word_of_int (int a)) OR word_of_int (int b) = (word_of_nat (a * 16 + b) :: u16)"
proof -
  have "push_bit 4 (word_of_int (int a)) OR word_of_int (int b) = (word_of_nat (push_bit 4 a OR b) :: u16)"
    by (simp add: of_nat_or_eq of_nat_push_bit del: push_bit_of_nat)
  also have "push_bit 4 a OR b = a * 16 + b"
    using or_low [of b 4 a] assms(2) by (simp add: push_bit_eq_mult)
  finally show ?thesis .
qed

lemma hex_units_numeral:
  "hex_units (numeral k) v (c # cs) =
     (if hex_digit_value c < 0 then None
      else hex_units (pred_numeral k) (push_bit 4 v OR word_of_int (hex_digit_value c)) cs)"
  by (simp add: numeral_eq_Suc)

lemma hex_units_byte:
  assumes "a < 16" and "b < 16"
  shows "hex_units 4 0 (CHR ''0'' # CHR ''0'' # hex_digit a # hex_digit b # s) = Some (word_of_nat (a * 16 + b), s)"
proof -
  have "hex_digit_value (CHR ''0'') = 0" by (simp add: hex_digit_value_def code_of_def)
  moreover have "16 * word_of_nat a OR word_of_nat b = (16 * word_of_nat a + word_of_nat b :: u16)"
    using nibbles [OF assms] by (simp add: push_bit_eq_mult mult.commute)
  ultimately show ?thesis
    using assms by (simp add: hex_units_numeral hex_digit_back push_bit_eq_mult mult.commute)
qed

text \<open>A byte below 32 and its six-character escape.\<close>

lemma unat_ucast_u32: "unat (ucast (w :: u16) :: u32) = unat w"
  unfolding unsigned_ucast_eq by (rule take_bit_nat_eq_self) (rule less_le_trans [OF unsigned_less], simp)

lemma unicode_escape_back:
  assumes "code_of c < 32"
  shows "parse_body parsed (unicode_escape c @ s) = parse_body (parsed @ [c]) s"
proof -
  have nib: "code_of c div 16 < 16" "code_of c mod 16 < 16" "code_of c div 16 * 16 + code_of c mod 16 = code_of c"
    using assms by simp_all
  have "read_utf16_code_unit (drop 2 (unicode_escape c) @ s) = Some (word_of_nat (code_of c), s)"
    using hex_units_byte [OF nib(1,2), of s] nib(3) by (simp add: read_utf16_code_unit_def unicode_escape_def)
  moreover have u16: "unat (word_of_nat (code_of c) :: u16) = code_of c" using assms by (simp add: unat_of_nat)
  moreover have "append_utf8_code_point (ucast (word_of_nat (code_of c) :: u16)) = Some [c]"
    using assms u16 by (simp add: append_utf8_code_point_def to_char_def word_le_nat_alt word_less_nat_alt unat_ucast_u32)
  ultimately have "parse_unicode_escape (drop 2 (unicode_escape c) @ s) = Some ([c], s)"
    using assms by (simp add: parse_unicode_escape_def word_le_nat_alt)
  then show ?thesis by (simp add: unicode_escape_def parse_escape_def)
qed

definition short_escapes :: string where
  "short_escapes = [quote, backslash, CHR 0x08, CHR 0x0C, CHR 0x0A, CHR 0x0D, CHR 0x09]"

lemma short_escape_back:
  "c \<in> set short_escapes \<Longrightarrow> parse_body parsed (escape_char c @ s) = parse_body (parsed @ [c]) s"
  unfolding short_escapes_def by (auto simp: escape_char_def parse_escape_def)

lemma escape_char_back:
  assumes "code_of c < 0x80"
  shows "parse_body parsed (escape_char c @ s) = parse_body (parsed @ [c]) s"
proof (cases "code_of c < 0x20 \<or> c = quote \<or> c = backslash")
  case True
  show ?thesis
  proof (cases "c \<in> set short_escapes")
    case True
    then show ?thesis by (rule short_escape_back)
  next
    case False
    then have "escape_char c = unicode_escape c" "code_of c < 32"
      using \<open>code_of c < 0x20 \<or> c = quote \<or> c = backslash\<close> by (auto simp: escape_char_def short_escapes_def)
    then show ?thesis using unicode_escape_back by simp
  qed
next
  case False
  then have "escape_char c = [c]" by (auto simp: escape_char_def code_of_def)
  then show ?thesis using False assms by (simp add: append_literal_utf8_def)
qed

lemma escape_high:
  assumes "0x80 \<le> code_of c"
  shows "escape_char c = [c]"
proof -
  have "code_of quote = 34" "code_of backslash = 92" by (simp_all add: code_of_def)
  then have "c \<noteq> quote" "c \<noteq> backslash" "\<not> code_of c < 0x20" using assms by auto
  then show ?thesis by (auto simp: escape_char_def code_of_def)
qed

lemma utf8_high: "0x80 \<le> cp \<Longrightarrow> scalar_value cp \<Longrightarrow> c \<in> set (utf8 cp) \<Longrightarrow> 0x80 \<le> code_of c"
  by (auto simp: utf8_def scalar_value_def div_less_iff_less_mult split: if_splits)

lemma utf8_nonempty: "utf8 cp \<noteq> []"
  by (simp add: utf8_def)

lemma escape_json_append [simp]: "escape_json_string (s @ t) = escape_json_string s @ escape_json_string t"
  by (simp add: escape_json_string_def)

lemma escape_json_Nil [simp]: "escape_json_string [] = []"
  by (simp add: escape_json_string_def)

lemma parse_body_literal:
  assumes "scalar_value cp" and "0x80 \<le> cp"
  shows "parse_body parsed (utf8 cp @ s) = parse_body (parsed @ utf8 cp) s"
proof -
  obtain c cs where u: "utf8 cp = c # cs" using utf8_nonempty [of cp] by (cases "utf8 cp") auto
  then have "0x80 \<le> code_of c" using utf8_high [OF assms(2,1), of c] by simp
  then have "c \<noteq> quote" "c \<noteq> backslash" by (auto simp: code_of_def)
  then show ?thesis using literal_scalar [OF assms, of s] u by simp
qed

lemma parse_body_escaped:
  assumes "scalar_value cp"
  shows "parse_body parsed (escape_json_string (utf8 cp) @ s) = parse_body (parsed @ utf8 cp) s"
proof (cases "cp < 0x80")
  case True
  then have "code_of (char_of cp) < 0x80" by simp
  then show ?thesis using escape_char_back [of "char_of cp" parsed s] True
    by (simp add: utf8_def escape_json_string_def)
next
  case False
  then have "map escape_char (utf8 cp) = map (\<lambda>c. [c]) (utf8 cp)"
    using utf8_high [OF _ assms] escape_high by (intro map_cong) auto
  then have "escape_json_string (utf8 cp) = utf8 cp"
    unfolding escape_json_string_def by (simp only: concat_map_singleton list.map_ident)
  then show ?thesis using parse_body_literal [OF assms] False by simp
qed

text \<open>
  C25: Unicode text that the status writer escapes between quotes is read back unchanged by
  the configuration parser, whatever follows the closing quote.
\<close>
theorem escaped_string_parses_back:
  assumes "is_utf8 s"
  shows "parse_string (quote # escape_json_string s @ quote # rest) = Some (s, rest)"
proof -
  obtain cps where cps: "list_all scalar_value cps" "s = concat (map utf8 cps)" using assms is_utf8_def by auto
  have "parse_body parsed (escape_json_string (concat (map utf8 cps)) @ quote # rest)
      = Some (parsed @ concat (map utf8 cps), rest)" for parsed
    using cps(1) by (induction cps arbitrary: parsed) (simp_all add: parse_body_escaped)
  then show ?thesis using cps(2) by (simp add: parse_string_def skip_ws_def isspace_def code_of_def)
qed

lemma escaped_string_parses_back_witness:
  "parse_string (quote # escape_json_string (utf8 0x1F600 @ [quote, CHR 0x02]) @ [quote]) = Some (utf8 0x1F600 @ [quote, CHR 0x02], [])"
proof -
  have "list_all scalar_value [0x1F600, 0x22, 0x02]" by (simp add: scalar_value_def)
  moreover have "utf8 0x1F600 @ [quote, CHR 0x02] = concat (map utf8 [0x1F600, 0x22, 0x02])"
    by (simp add: utf8_def char_of_def bit_0)
  ultimately have "is_utf8 (utf8 0x1F600 @ [quote, CHR 0x02])" unfolding is_utf8_def by blast
  from escaped_string_parses_back [OF this] show ?thesis .
qed


text \<open>One token of the bounded escape reads back as one scalar value, whatever the bytes were.\<close>

lemma replacement_back: "parse_body parsed (replacement @ s) = parse_body (parsed @ utf8 0xFFFD) s"
proof -
  have "read_utf16_code_unit (''FFFD'' @ s) = Some (0xFFFD, s)"
    by (simp add: read_utf16_code_unit_def hex_units_numeral hex_digit_value_def code_of_def)
  moreover have "append_utf8_code_point 0xFFFD = Some (utf8 0xFFFD)"
    by (simp add: append_utf8_code_point_def utf8_def to_char_def)
  ultimately show ?thesis
    by (simp add: replacement_def parse_escape_def parse_unicode_escape_def word_le_nat_alt)
qed

lemma valid_sequence_literal:
  assumes "s \<noteq> []" and "0x7F < code_of (hd s)" and "valid_sequence s"
  shows "append_literal_utf8 s = Some (take (sequence_len (hd s)) s, drop (sequence_len (hd s)) s)"
proof (cases s)
  case (Cons l s')
  have "2 \<le> sequence_len l" using assms Cons by (auto simp: valid_sequence_def sequence_len_def Let_def split: if_splits)
  then have "s ! 1 = s' ! 0" using Cons by simp
  then show ?thesis
    using assms Cons by (auto simp: append_literal_utf8_def valid_sequence_def Let_def)
qed (use assms in simp)

lemma bounded_token_back:
  assumes "s \<noteq> []"
  shows "\<exists>cp. scalar_value cp \<and>
    (\<forall>parsed rest. parse_body parsed (fst (bounded_token s) @ rest) = parse_body (parsed @ utf8 cp) rest)"
proof (cases "code_of (hd s) \<le> 0x7F")
  case True
  then have "code_of (hd s) < 0x80" by simp
  then show ?thesis
    using True escape_char_back [of "hd s"] is_utf8_ascii [of "hd s"]
    by (intro exI [of _ "code_of (hd s)"]) (simp add: bounded_token_def)
next
  case high: False
  show ?thesis
  proof (cases "valid_sequence s")
    case True
    let ?out = "take (sequence_len (hd s)) s"
    have "append_literal_utf8 s = Some (?out, drop (sequence_len (hd s)) s)"
      using valid_sequence_literal [OF assms _ True] high by simp
    then obtain cp where cp: "scalar_value cp" "?out = utf8 cp" using append_literal_scalar by blast
    have "0x80 \<le> cp"
    proof (rule ccontr)
      assume "\<not> 0x80 \<le> cp"
      then have "utf8 cp = [char_of cp]" "cp < 128" by (simp_all add: utf8_def)
      moreover have "hd ?out = hd s" using assms True by (cases s) (auto simp: valid_sequence_def Let_def take_Cons')
      ultimately have "hd s = char_of cp" using cp(2) by simp
      then show False using high \<open>cp < 128\<close> by simp
    qed
    then show ?thesis
      using high True cp parse_body_literal by (intro exI [of _ cp]) (simp add: bounded_token_def)
  next
    case False
    then show ?thesis
      using high replacement_back by (intro exI [of _ "0xFFFD"]) (simp add: bounded_token_def scalar_value_def)
  qed
qed

lemma bounded_loop_back:
  "length escaped \<le> max_len \<Longrightarrow>
   (\<exists>cps. list_all scalar_value cps \<and> (\<forall>parsed rest. parse_body parsed (escaped @ rest) = parse_body (parsed @ concat (map utf8 cps)) rest)) \<Longrightarrow>
   length (bounded_loop max_len escaped s) \<le> max_len \<and>
   (\<exists>cps. list_all scalar_value cps \<and>
      (\<forall>parsed rest. parse_body parsed (bounded_loop max_len escaped s @ rest) = parse_body (parsed @ concat (map utf8 cps)) rest))"
proof (induction max_len escaped s rule: bounded_loop.induct)
  case (1 max_len escaped s)
  show ?case
  proof (cases "s = [] \<or> max_len < length escaped + length (fst (bounded_token s))")
    case True
    then have "bounded_loop max_len escaped s = escaped" by (subst bounded_loop.simps) (auto simp: Let_def)
    then show ?thesis using "1.prems" by simp
  next
    case False
    then have step: "bounded_loop max_len escaped s =
        bounded_loop max_len (escaped @ fst (bounded_token s)) (drop (snd (bounded_token s)) s)"
      by (subst bounded_loop.simps) (simp add: Let_def)
    obtain cps where cps: "list_all scalar_value cps"
      "\<forall>parsed rest. parse_body parsed (escaped @ rest) = parse_body (parsed @ concat (map utf8 cps)) rest"
      using "1.prems"(2) by blast
    obtain cp where cp: "scalar_value cp"
      "\<forall>parsed rest. parse_body parsed (fst (bounded_token s) @ rest) = parse_body (parsed @ utf8 cp) rest"
      using bounded_token_back False by blast
    have ex: "\<exists>cps. list_all scalar_value cps \<and> (\<forall>parsed rest.
        parse_body parsed ((escaped @ fst (bounded_token s)) @ rest) = parse_body (parsed @ concat (map utf8 cps)) rest)"
      using cps cp by (intro exI [of _ "cps @ [cp]"]) simp
    show ?thesis
      unfolding step by (rule "1.IH" [OF _ refl refl]) (use False ex in simp_all)
  qed
qed

text \<open>
  Whatever bytes a status string holds, malformed UTF-8 included, the bounded escape
  stays within its budget and, between quotes, is a JSON string that parses to Unicode text.
\<close>
lemma bounded_escape_is_sound:
  "length (escape_json_string_bounded v n) \<le> n \<and>
   (\<exists>t. is_utf8 t \<and> parse_string (quote # escape_json_string_bounded v n @ quote # rest) = Some (t, rest))"
proof -
  have "\<exists>cps. list_all scalar_value cps \<and> (\<forall>parsed rest. parse_body parsed ([] @ rest) = parse_body (parsed @ concat (map utf8 cps)) rest)"
    by (rule exI [of _ "[]"]) simp
  then obtain cps where cps: "length (bounded_loop n [] v) \<le> n" "list_all scalar_value cps"
    "\<forall>parsed rest. parse_body parsed (bounded_loop n [] v @ rest) = parse_body (parsed @ concat (map utf8 cps)) rest"
    using bounded_loop_back [of "[]" n v] by auto
  then show ?thesis
    by (intro conjI exI [of _ "concat (map utf8 cps)"])
      (auto simp: escape_json_string_bounded_def parse_string_def skip_ws_def isspace_def code_of_def is_utf8_def)
qed

section \<open>Looking a field up\<close>

lemma dropWhile_rest: "length (dropWhile P s) \<le> length s"
  by (rule length_dropWhile_le)

lemma skip_loop_rest: "skip_loop open_ch close_ch depth s = Some r \<Longrightarrow> length r < length s"
proof (induction open_ch close_ch depth s rule: skip_loop.induct)
  case (2 open_ch close_ch depth ch cs)
  then show ?case
    by (auto split: if_splits option.splits dest!: parse_string_rest) (fastforce simp: less_Suc_eq)+
qed simp

lemma read_value_rest: "read_value_range s = Some (v, r) \<Longrightarrow> length r \<le> length s"
  using skip_ws_rest [of s] dropWhile_rest [of "\<lambda>c. \<not> is_value_end c" "skip_ws s"]
  by (auto simp: read_value_range_def Let_def skip_composite_def split: if_splits option.splits
      dest!: parse_string_rest skip_loop_rest)

lemma field_round_shrinks: "field_round field s = Inr s' \<Longrightarrow> length s' < length s"
proof -
  assume "field_round field s = Inr s'"
  then obtain key s2 v s4 where key: "parse_string (skip_ws s) = Some (key, s2)"
    and v: "read_value_range (tl (skip_ws s2)) = Some (v, s4)"
    and s': "s' = (if skip_ws s4 \<noteq> [] \<and> hd (skip_ws s4) = CHR '','' then tl (skip_ws s4) else skip_ws s4)"
    by (auto simp: field_round_def Let_def split: if_splits option.splits)
  have "length s2 < length s" using parse_string_rest [OF key] skip_ws_rest [of s] by simp
  moreover have "length s4 \<le> length s2" using read_value_rest [OF v] skip_ws_rest [of s2] by auto
  moreover have "length s' \<le> length s4" using skip_ws_rest [of s4] by (auto simp: s')
  ultimately show ?thesis by linarith
qed

lemma field_loop_fuel:
  "length s \<le> m \<Longrightarrow> length s \<le> n \<Longrightarrow>
   field_loop (Suc m) field s \<noteq> None \<and> field_loop (Suc m) field s = field_loop (Suc n) field s"
proof (induction m arbitrary: n s)
  case 0
  then show ?case by (simp add: field_round_def)
next
  case (Suc m)
  show ?case
  proof (cases "field_round field s")
    case (Inl r)
    then show ?thesis by simp
  next
    case (Inr s')
    have less: "length s' < length s" by (rule field_round_shrinks [OF Inr])
    then obtain n' where n: "n = Suc n'" using Suc.prems(2) by (cases n) auto
    have "length s' \<le> m" "length s' \<le> n'" using less Suc.prems n by linarith+
    then have "field_loop (Suc m) field s' \<noteq> None \<and> field_loop (Suc m) field s' = field_loop (Suc n') field s'"
      by (rule Suc.IH)
    moreover have "field_loop (Suc k) field s = field_loop k field s'" for k
      using Inr by simp
    ultimately show ?thesis unfolding n by metis
  qed
qed

text \<open>
  C26: the lookup of a field ends after at most as many rounds as the object has
  characters, whatever the text is; more rounds change nothing.
\<close>
theorem field_lookup_ends:
  "\<exists>r. \<forall>k. field_loop (Suc (length s + k)) field s = Some r"
proof -
  obtain r where "field_loop (Suc (length s)) field s = Some r" using field_loop_fuel [of s "length s" "length s"] by auto
  moreover have "field_loop (Suc (length s + k)) field s = field_loop (Suc (length s)) field s" for k
    using field_loop_fuel [of s "length s + k" "length s"] by simp
  ultimately show ?thesis by metis
qed

text \<open>
  The members of an object as a list of keys and value texts, as far as it can be read; a
  lookup finds the first member with the key.
\<close>

definition read_member :: "string \<Rightarrow> (string \<times> string \<times> string) option" where
  "read_member s =
     (if length s \<le> 1 then None
      else
        let s1 = skip_ws s in
        if s1 \<noteq> [] \<and> hd s1 = CHR ''}'' then None
        else
          case parse_string s1 of None \<Rightarrow> None
          | Some (key, s2) \<Rightarrow>
              let s3 = skip_ws s2 in
              if s3 = [] \<or> hd s3 \<noteq> CHR '':'' then None
              else
                case read_value_range (tl s3) of None \<Rightarrow> None
                | Some (v, s4) \<Rightarrow>
                    let s5 = skip_ws s4 in Some (key, v, if s5 \<noteq> [] \<and> hd s5 = CHR '','' then tl s5 else s5))"

fun members :: "nat \<Rightarrow> string \<Rightarrow> (string \<times> string) list" where
  "members 0 s = []"
| "members (Suc n) s = (case read_member s of None \<Rightarrow> [] | Some (key, v, s') \<Rightarrow> (key, v) # members n s')"

definition object_members :: "string \<Rightarrow> (string \<times> string) list" where
  "object_members object0 =
     (let obj = trim object0 in
      if length obj < 2 \<or> hd obj \<noteq> CHR ''{'' \<or> last obj \<noteq> CHR ''}'' then []
      else members (length obj) (tl obj))"

lemma field_round_member:
  "field_round field s =
     (case read_member s of None \<Rightarrow> Inl None
      | Some (key, v, s') \<Rightarrow> if key = field then Inl (Some v) else Inr s')"
  by (simp add: field_round_def read_member_def Let_def split: option.split)

lemma field_loop_members: "length s < n \<Longrightarrow> field_loop n field s = Some (map_of (members n s) field)"
proof (induction n arbitrary: s)
  case (Suc n)
  show ?case
  proof (cases "read_member s")
    case None
    then show ?thesis by (simp add: field_round_member)
  next
    case (Some p)
    obtain key v s' where p: "p = (key, v, s')" using prod_cases3 by blast
    show ?thesis
    proof (cases "key = field")
      case True
      then show ?thesis using Some p by (simp add: field_round_member)
    next
      case False
      then have round: "field_round field s = Inr s'" using Some p by (simp add: field_round_member)
      then have "length s' < n" using field_round_shrinks [OF round] Suc.prems by simp
      then show ?thesis using Suc.IH Some p round False by simp
    qed
  qed
qed simp

lemma field_value_members: "field_value obj field = map_of (object_members obj) field"
proof -
  have "field_loop (length t) field (tl t) = Some (map_of (members (length t) (tl t)) field)" if "\<not> length t < 2" for t
    by (rule field_loop_members) (use that in simp)
  then show ?thesis by (auto simp: field_value_def object_members_def Let_def)
qed

end
