(* ===== verification/Config_Facts.thy ===== *)
theory Config_Facts
  imports Config_Payload Json_Facts
begin

text \<open>
  What an accepted configuration is, which check a rejection reports, and that the
  configuration in force is always the last accepted payload under the current platform.
\<close>

section \<open>Well-formed configurations\<close>

definition action_ok :: "Action \<Rightarrow> bool" where
  "action_ok a \<longleftrightarrow> is_utf8 (ac_hotkey a) \<and> is_utf8 (ac_text a) \<and>
     (ac_kind a = Hotkey \<longleftrightarrow> ac_hotkey a \<noteq> '''') \<and> (ac_kind a = FixedText \<longleftrightarrow> ac_text a \<noteq> '''') \<and>
     length (ac_text a) \<le> kFixedTextMaxUtf8Bytes"

definition speed_ok :: "EncoderScrollConfig \<Rightarrow> bool" where
  "speed_ok s \<longleftrightarrow> 1 \<le> es_speed s \<and> es_speed s \<le> 8"

text \<open>The fields that are read one by one.\<close>

definition fields_ok :: "ParsedKeyboardConfig \<Rightarrow> bool" where
  "fields_ok c \<longleftrightarrow> is_valid_audio_port (pk_audio_port c) \<and> speed_ok (pk_encoder_scroll c) \<and>
     is_utf8 (pk_wifi_ssid c) \<and> is_utf8 (pk_wifi_password c) \<and> is_utf8 (pk_audio_host c) \<and>
     pk_ptt_hotkey c \<noteq> '''' \<and> is_utf8 (pk_ptt_hotkey c) \<and>
     pk_edit_ptt_hotkey c \<noteq> '''' \<and> is_utf8 (pk_edit_ptt_hotkey c) \<and>
     (if pk_speaker_sync_key c = '''' then pk_speaker_sync_key_epoch c = 0
      else is_valid_speaker_sync_key (pk_speaker_sync_key c) \<and> pk_speaker_sync_key_epoch c \<noteq> 0)"

text \<open>The fields that follow the platform.\<close>

definition platform_ok :: "ParsedKeyboardConfig \<Rightarrow> bool" where
  "platform_ok c \<longleftrightarrow>
     (pk_ptt_hotkey_source c = PlatformDefault \<longrightarrow> pk_ptt_hotkey c = default_ptt_hotkey (pk_target_platform c)) \<and>
     (pk_edit_ptt_hotkey_source c = PlatformDefault \<longrightarrow> pk_edit_ptt_hotkey c = default_edit_ptt_hotkey (pk_target_platform c)) \<and>
     es_reverse_vertical (pk_encoder_scroll c) =
       (case pk_target_platform c of Windows \<Rightarrow> es_windows_reverse_vertical (pk_encoder_scroll c)
        | MacOS \<Rightarrow> es_macos_reverse_vertical (pk_encoder_scroll c)) \<and>
     es_reverse_horizontal (pk_encoder_scroll c) =
       (case pk_target_platform c of Windows \<Rightarrow> es_windows_reverse_horizontal (pk_encoder_scroll c)
        | MacOS \<Rightarrow> es_macos_reverse_horizontal (pk_encoder_scroll c))"

definition config_ok :: "ParsedKeyboardConfig \<Rightarrow> bool" where
  "config_ok c \<longleftrightarrow> fields_ok c \<and> platform_ok c \<and>
     length (pk_keymap c) = input_index InputCount \<and> list_all action_ok (pk_keymap c)"

lemma is_utf8_literal: "list_all (\<lambda>c. code_of c < 0x80) s \<Longrightarrow> is_utf8 s"
proof (induction s rule: rev_induct)
  case (snoc c s)
  then have "is_utf8 (s @ utf8 (code_of c))" using is_utf8_snoc is_utf8_ascii by simp
  then show ?case using is_utf8_ascii [of c] snoc.prems by simp
qed simp

lemma is_utf8_defaults [simp]:
  "is_utf8 ''RightMeta''" "is_utf8 ''RightOption''" "is_utf8 ''Return''" "is_utf8 ''Backspace''"
  "is_utf8 (default_ptt_hotkey p)" "is_utf8 (default_edit_ptt_hotkey p)"
  by (auto intro!: is_utf8_literal simp: code_of_def default_ptt_hotkey_def default_edit_ptt_hotkey_def)

section \<open>Keeping the fields well-formed\<close>

lemma then_ok_keeps:
  "P (snd r) \<Longrightarrow> (\<And>c. P c \<Longrightarrow> P (snd (f c))) \<Longrightarrow> P (snd (then_ok r f))"
  by (simp add: then_ok_def)

lemma optional_keeps:
  "P c \<Longrightarrow> (\<And>raw v. read raw = Some v \<Longrightarrow> P (store v c)) \<Longrightarrow> P (snd (optional_step json field read store c))"
  by (auto simp: optional_step_def optional_field_def split: option.splits)

lemma checked_Some: "checked valid raw = Some s \<Longrightarrow> is_utf8 s \<and> valid s"
  by (auto simp: checked_def bind_eq_Some_conv string_value_utf8 split: if_splits)

lemma epoch_nonzero: "0 < n \<Longrightarrow> n \<le> 65535 \<Longrightarrow> (word_of_int n :: u16) \<noteq> 0"
  by (simp add: word_of_int_eq_0_iff take_bit_eq_mod zdvd_not_zless)

lemma sync_key_nonempty: "is_valid_speaker_sync_key key \<Longrightarrow> key \<noteq> ''''"
  by (auto simp: is_valid_speaker_sync_key_def)

lemmas fields_then = then_ok_keeps [where P = fields_ok]
lemmas fields_optional = optional_keeps [where P = fields_ok]

lemma read_target_platform_keeps: "fields_ok c \<Longrightarrow> fields_ok (snd (read_target_platform json c))"
  unfolding read_target_platform_def by (rule fields_optional) (simp_all add: fields_ok_def)

lemma check_schema_keeps: "fields_ok c \<Longrightarrow> fields_ok (snd (check_schema json c))"
  by (simp add: check_schema_def)

lemma check_sources_keeps: "fields_ok c \<Longrightarrow> fields_ok (snd (check_sources json c))"
  unfolding check_sources_def by (intro fields_then fields_optional)

lemma read_wifi_keeps: "fields_ok c \<Longrightarrow> fields_ok (snd (read_wifi json c))"
  unfolding read_wifi_def
  by (intro fields_then fields_optional) (simp_all add: fields_ok_def string_value_utf8)

lemma read_audio_port_keeps: "fields_ok c \<Longrightarrow> fields_ok (snd (read_audio_port json c))"
  by (auto simp: read_audio_port_def fields_ok_def kDefaultAudioPort_def is_valid_audio_port_def split: option.splits)

lemma read_sync_key_keeps: "fields_ok c \<Longrightarrow> fields_ok (snd (read_sync_key json c))"
  by (auto simp: read_sync_key_def fields_ok_def epoch_nonzero sync_key_nonempty split: option.splits)

lemma check_audio_enabled_keeps: "fields_ok c \<Longrightarrow> fields_ok (snd (check_audio_enabled json c))"
  unfolding check_audio_enabled_def by (rule fields_optional)

lemma read_ptt_hotkey_keeps: "fields_ok c \<Longrightarrow> fields_ok (snd (read_ptt_hotkey json c))"
  unfolding read_ptt_hotkey_def
  by (intro fields_then fields_optional) (auto simp: fields_ok_def dest: checked_Some)

lemma read_edit_ptt_hotkey_keeps: "fields_ok c \<Longrightarrow> fields_ok (snd (read_edit_ptt_hotkey json c))"
  unfolding read_edit_ptt_hotkey_def
  by (intro fields_then fields_optional) (auto simp: fields_ok_def dest: checked_Some)

lemma read_hotkey_mode_keeps: "fields_ok c \<Longrightarrow> fields_ok (snd (read_hotkey_mode json c))"
  unfolding read_hotkey_mode_def by (rule fields_optional) (simp_all add: fields_ok_def)

section \<open>Bindings\<close>

lemma named_kind_plain: "named_action_kind s = Some k \<Longrightarrow> k \<noteq> Hotkey \<and> k \<noteq> FixedText"
  by (auto simp: named_action_kind_def split: if_splits)

lemma parse_action_ok: "parse_action v = Inr a \<Longrightarrow> action_ok a"
  by (auto simp: parse_action_def action_ok_def make_action_def string_value_utf8
      split: option.splits if_splits dest: named_kind_plain)

lemma parse_binding_ok: "parse_binding bindings name = Inr a \<Longrightarrow> action_ok a"
  by (auto simp: parse_binding_def parse_action_ok split: option.splits)

lemma parse_encoder_action_ok: "parse_encoder_action encoder name = Inr a \<Longrightarrow> action_ok a"
  by (auto simp: parse_encoder_action_def parse_action_ok split: option.splits)

lemma list_all_update: "list_all P xs \<Longrightarrow> P x \<Longrightarrow> list_all P (xs[i := x])"
  by (simp add: list_all_iff) (metis set_update_subset_insert insertE subsetD)

lemma read_inputs_ok:
  assumes "\<And>name a. parse name = Inr a \<Longrightarrow> action_ok a"
  shows "read_inputs parse inputs actions = Inr actions' \<Longrightarrow> list_all action_ok actions \<Longrightarrow>
    list_all action_ok actions' \<and> length actions' = length actions"
proof (induction inputs arbitrary: actions)
  case (Cons inp inputs)
  obtain name input where inp: "inp = (name, input)" by fastforce
  then obtain a where a: "parse name = Inr a" and more: "read_inputs parse inputs (actions[input_index input := a]) = Inr actions'"
    using Cons.prems by (auto split: sum.splits)
  show ?case using Cons.IH [OF more list_all_update [OF Cons.prems(2) assms [OF a]]] by simp
qed simp

lemma plain_action_ok: "k \<noteq> Hotkey \<Longrightarrow> k \<noteq> FixedText \<Longrightarrow> action_ok (make_action k '''')"
  by (simp add: action_ok_def make_action_def)

lemma migrate_ok: "list_all action_ok actions \<Longrightarrow> list_all action_ok (migrate_keymap actions)"
  by (simp add: migrate_keymap_def list_all_update plain_action_ok)

lemma length_migrate [simp]: "length (migrate_keymap actions) = length actions"
  by (simp add: migrate_keymap_def)

lemma no_actions_ok: "list_all action_ok no_actions"
  by (simp add: no_actions_def list_all_iff plain_action_ok)

text \<open>Every scroll configuration a chain of field readers returns has its speed in range.\<close>

definition speeds_ok :: "(EncoderScrollConfig \<Rightarrow> 'a \<Rightarrow> bool) \<Rightarrow> 'e + 'a \<Rightarrow> bool" where
  "speeds_ok via r \<longleftrightarrow> (\<forall>x s. r = Inr x \<longrightarrow> via s x \<longrightarrow> speed_ok s)"

lemma speed_chain:
  "speeds_ok (=) r \<Longrightarrow> (\<And>x. speed_ok x \<Longrightarrow> speeds_ok via (f x)) \<Longrightarrow> speeds_ok via (on_ok r f)"
  by (cases r) (auto simp: on_ok_def speeds_ok_def)

lemma speed_field: "speed_ok c \<Longrightarrow> (\<And>v. speed_ok (store v c)) \<Longrightarrow> speeds_ok (=) (optional_field obj field read store c)"
  by (auto simp: optional_field_def speeds_ok_def split: option.splits)

lemma speed_last: "speed_ok s \<Longrightarrow> speeds_ok (\<lambda>s x. x = Some s) (Inr (Some s))"
  by (simp add: speeds_ok_def)

lemma speed_stores:
  "speed_ok (s\<lparr>es_speed := clamp_scroll_speed v\<rparr>)" "speed_ok default_scroll" "speed_ok s \<Longrightarrow> speed_ok (copy_reverse s)"
  "speed_ok s \<Longrightarrow> speed_ok (s\<lparr>es_enabled := b\<rparr>)" "speed_ok s \<Longrightarrow> speed_ok (s\<lparr>es_mode := m\<rparr>)" "speed_ok s \<Longrightarrow> speed_ok (s\<lparr>es_axis := ax\<rparr>)"
  "speed_ok s \<Longrightarrow> speed_ok (s\<lparr>es_reverse_vertical := b\<rparr>)" "speed_ok s \<Longrightarrow> speed_ok (s\<lparr>es_reverse_horizontal := b\<rparr>)"
  "speed_ok s \<Longrightarrow> speed_ok (s\<lparr>es_macos_reverse_vertical := b\<rparr>)" "speed_ok s \<Longrightarrow> speed_ok (s\<lparr>es_macos_reverse_horizontal := b\<rparr>)"
  "speed_ok s \<Longrightarrow> speed_ok (s\<lparr>es_windows_reverse_vertical := b\<rparr>)" "speed_ok s \<Longrightarrow> speed_ok (s\<lparr>es_windows_reverse_horizontal := b\<rparr>)"
  by (simp_all add: speed_ok_def clamp_scroll_speed_def default_scroll_def copy_reverse_def)

lemma scroll_ok:
  assumes "parse_encoder_scroll_config encoder = Inr (Some s)"
  shows "speed_ok s"
proof -
  have "speeds_ok (\<lambda>s x. x = Some s) (parse_encoder_scroll_config encoder)"
  proof (cases "field_value encoder ''scroll''")
    case None
    then show ?thesis by (simp add: parse_encoder_scroll_config_def speeds_ok_def)
  next
    case (Some scroll)
    show ?thesis
      unfolding parse_encoder_scroll_config_def Some option.case Let_def if_split [where P = "speeds_ok _"]
      by (intro conjI impI speed_chain speed_field speed_last speed_stores; (assumption)?) (simp add: speeds_ok_def)
  qed
  then show ?thesis using assms by (simp add: speeds_ok_def)
qed

section \<open>Platform-derived fields\<close>

lemma resolve_platform_ok: "platform_ok (resolve_platform c)"
  by (cases "pk_target_platform c") (auto simp: platform_ok_def resolve_platform_def Let_def)

lemma resolve_fields: "fields_ok c \<Longrightarrow> fields_ok (resolve_platform c)"
  by (simp add: fields_ok_def speed_ok_def resolve_platform_def Let_def)
     (simp add: default_ptt_hotkey_def default_edit_ptt_hotkey_def)

lemma resolve_simps [simp]:
  "pk_keymap (resolve_platform c) = pk_keymap c"
  "es_speed (pk_encoder_scroll (resolve_platform c)) = es_speed (pk_encoder_scroll c)"
  by (simp_all add: resolve_platform_def Let_def)

text \<open>Only the last platform counts.\<close>

lemma resolve_again:
  "resolve_platform ((resolve_platform c)\<lparr>pk_target_platform := p\<rparr>) = resolve_platform (c\<lparr>pk_target_platform := p\<rparr>)"
  by (simp add: resolve_platform_def Let_def)

section \<open>Accepted configurations\<close>

lemma recognise_fields: "fields_ok c \<Longrightarrow> fields_ok (recognise_factory_hotkeys c)"
  by (simp add: recognise_factory_hotkeys_def fields_ok_def Let_def)

lemma recognise_simps [simp]:
  "pk_encoder_scroll (recognise_factory_hotkeys c) = pk_encoder_scroll c"
  "pk_keymap (recognise_factory_hotkeys c) = pk_keymap c"
  "pk_target_platform (recognise_factory_hotkeys c) = pk_target_platform c"
  "pk_target_platform_explicit (recognise_factory_hotkeys c) = pk_target_platform_explicit c"
  by (simp_all add: recognise_factory_hotkeys_def Let_def)

definition finish_profile :: "ParsedKeyboardConfig \<Rightarrow> EncoderScrollConfig option \<Rightarrow> Keymap \<Rightarrow> ParsedKeyboardConfig" where
  "finish_profile c scroll actions =
     resolve_platform ((case scroll of None \<Rightarrow> recognise_factory_hotkeys c
        | Some s \<Rightarrow> (recognise_factory_hotkeys c)\<lparr>pk_encoder_scroll := s\<rparr>)\<lparr>pk_keymap := actions\<rparr>)"

text \<open>A reader that fails never says Ok.\<close>

lemma parse_action_fails [simp]: "parse_action v \<noteq> Inl ParseOk"
  by (simp add: parse_action_def split: option.split)

lemma parse_binding_fails [simp]: "parse_binding bindings name \<noteq> Inl ParseOk"
  by (simp add: parse_binding_def split: option.split)

lemma parse_encoder_action_fails [simp]: "parse_encoder_action encoder name \<noteq> Inl ParseOk"
  by (simp add: parse_encoder_action_def split: option.split)

lemma read_inputs_fails:
  assumes "\<And>name. parse name \<noteq> Inl ParseOk"
  shows "read_inputs parse inputs actions \<noteq> Inl ParseOk"
proof (induction inputs arbitrary: actions)
  case (Cons inp inputs)
  then show ?case using assms by (cases inp) (auto split: sum.splits)
qed simp

lemma read_bindings_fails [simp]:
  "read_inputs (parse_binding keys) inputs actions \<noteq> Inl ParseOk"
  "read_inputs (parse_encoder_action encoder) inputs actions \<noteq> Inl ParseOk"
  by (intro read_inputs_fails; simp)+

lemma on_ok_fails: "r \<noteq> Inl ParseOk \<Longrightarrow> (\<And>x. f x \<noteq> Inl ParseOk) \<Longrightarrow> on_ok r f \<noteq> Inl ParseOk"
  by (cases r) (auto simp: on_ok_def)

lemma optional_field_fails: "optional_field obj field read store c \<noteq> Inl ParseOk"
  by (simp add: optional_field_def split: option.split)

lemma scroll_fails [simp]: "parse_encoder_scroll_config encoder \<noteq> Inl ParseOk"
proof (cases "field_value encoder ''scroll''")
  case None
  then show ?thesis by (simp add: parse_encoder_scroll_config_def)
next
  case (Some scroll)
  show ?thesis
    unfolding parse_encoder_scroll_config_def Some option.case Let_def if_split [where P = "\<lambda>r. r \<noteq> Inl ParseOk"]
    by (intro conjI impI on_ok_fails optional_field_fails) simp_all
qed

text \<open>The stages of a profile.\<close>

definition profile_of :: "string \<Rightarrow> string option" where
  "profile_of json = Option.bind (field_value json ''profiles'') first_array_value"

lemma read_profile_stages:
  "read_profile json c =
     (case profile_of json of None \<Rightarrow> (MissingProfile, c)
      | Some profile \<Rightarrow>
          (case (field_value profile ''keys'', field_value profile ''encoder'') of
             (Some keys, Some encoder) \<Rightarrow>
               (case read_inputs (parse_binding keys) key_inputs no_actions of
                  Inl st \<Rightarrow> (st, c)
                | Inr actions \<Rightarrow>
                    (case read_inputs (parse_encoder_action encoder) encoder_inputs (migrate_keymap actions) of
                       Inl st \<Rightarrow> (st, recognise_factory_hotkeys c)
                     | Inr actions' \<Rightarrow>
                         (case parse_encoder_scroll_config encoder of
                            Inl st \<Rightarrow> (st, recognise_factory_hotkeys c)
                          | Inr scroll \<Rightarrow> (ParseOk, finish_profile c scroll actions'))))
           | _ \<Rightarrow> (MissingBinding, c)))"
  by (simp add: read_profile_def profile_of_def finish_profile_def Let_def split: option.split sum.split)

lemma finish_profile_ok:
  assumes "fields_ok c" and "list_all action_ok actions" and "length actions = input_index InputCount"
    and "\<And>s. scroll = Some s \<Longrightarrow> speed_ok s"
  shows "config_ok (finish_profile c scroll actions)"
proof -
  let ?c = "(case scroll of None \<Rightarrow> recognise_factory_hotkeys c
        | Some s \<Rightarrow> (recognise_factory_hotkeys c)\<lparr>pk_encoder_scroll := s\<rparr>)\<lparr>pk_keymap := actions\<rparr>"
  have "fields_ok ?c" using recognise_fields [OF assms(1)] assms(4) by (cases scroll) (simp_all add: fields_ok_def)
  moreover have "pk_keymap ?c = actions" by (cases scroll) simp_all
  ultimately show ?thesis
    using assms(2,3) resolve_platform_ok resolve_fields unfolding finish_profile_def config_ok_def by simp
qed

lemma read_profile_ok:
  assumes fields: "fields_ok c" and ok: "fst (read_profile json c) = ParseOk"
  shows "config_ok (snd (read_profile json c))"
proof -
  obtain keys encoder actions scroll actions' where
    keys: "read_inputs (parse_binding keys) key_inputs no_actions = Inr actions"
    and enc: "read_inputs (parse_encoder_action encoder) encoder_inputs (migrate_keymap actions) = Inr actions'"
    and scroll: "parse_encoder_scroll_config encoder = Inr scroll"
    and c': "snd (read_profile json c) = finish_profile c scroll actions'"
    using ok by (auto simp: read_profile_stages split: option.splits sum.splits)
  have "list_all action_ok actions \<and> length actions = length no_actions"
    using read_inputs_ok [OF parse_binding_ok keys no_actions_ok] .
  then have "list_all action_ok actions'" "length actions' = input_index InputCount"
    using read_inputs_ok [OF parse_encoder_action_ok enc] migrate_ok by (simp_all add: no_actions_def)
  then show ?thesis
    unfolding c' by (rule finish_profile_ok [OF fields]) (use scroll_ok scroll in blast)
qed

lemma then_ok_post:
  "P (snd r) \<Longrightarrow> (\<And>c. P c \<Longrightarrow> fst (f c) = ParseOk \<Longrightarrow> Q (snd (f c))) \<Longrightarrow> fst (then_ok r f) = ParseOk \<Longrightarrow>
   Q (snd (then_ok r f))"
  by (simp add: then_ok_def split: if_splits)

lemmas config_chain = then_ok_post [where P = fields_ok and Q = config_ok]

lemma default_fields: "fields_ok (default_config\<lparr>pk_ptt_mode := m\<rparr>)"
  by (simp add: fields_ok_def default_config_def is_valid_audio_port_def speed_ok_def default_scroll_def)

lemma accepted_payload_config:
  assumes "fst (parse_config_payload json) = ParseOk"
  shows "config_ok (snd (parse_config_payload json))"
  unfolding parse_config_payload_def
  by (rule config_chain [OF read_target_platform_keeps [OF default_fields]],
      rule config_chain [OF check_schema_keeps], assumption,
      rule config_chain [OF check_sources_keeps], assumption,
      rule config_chain [OF read_wifi_keeps], assumption,
      rule config_chain [OF read_audio_port_keeps], assumption,
      rule config_chain [OF read_sync_key_keeps], assumption,
      rule config_chain [OF check_audio_enabled_keeps], assumption,
      rule config_chain [OF read_ptt_hotkey_keeps], assumption,
      rule config_chain [OF read_edit_ptt_hotkey_keeps], assumption,
      rule config_chain [OF read_hotkey_mode_keeps], assumption,
      rule read_profile_ok, assumption+, rule assms [unfolded parse_config_payload_def])

text \<open>
  C27: a payload that is accepted yields a well-formed configuration: port and scroll speed in
  range, a sync key that is absent or 32 nonzero hexadecimal bytes with a nonzero epoch, all
  strings Unicode text, hotkeys nonempty and following the platform where they are to, eleven
  actions each with exactly the text its kind needs and no more than the text limit.
\<close>
theorem accepted_config_well_formed:
  assumes "fst (parse_config_payload json) = ParseOk"
  shows "config_ok (snd (parse_config_payload json))"
  using assms by (rule accepted_payload_config)

text \<open>A payload as the app sends it.\<close>

definition sample_keys :: string where
  \<open>sample_keys = ''{"KEY1":{"press":"copy"},"KEY2":{"press":"copy"},"KEY3":{"press":"copy"},"KEY4":{"press":"copy"},"KEY5":{"press":"copy"},"KEY6":{"press":"copy"},"KEY7":{"press":"copy"},"KEY8":{"press":{"text":"hi"}}}''\<close>

definition sample_encoder :: string where
  \<open>sample_encoder = ''{"left":"undo","right":"undo","press":"undo"}''\<close>

definition sample_profile :: string where
  \<open>sample_profile = ''{"keys":'' @ sample_keys @ '',"encoder":'' @ sample_encoder @ ''}''\<close>

definition sample_json :: string where
  \<open>sample_json = ''{"schema":"ai_keyboard.v1","profiles":['' @ sample_profile @ '']}''\<close>

lemma sample_members_json:
  \<open>object_members sample_json = [(''schema'', ''"ai_keyboard.v1"''), (''profiles'', CHR ''['' # sample_profile @ '']'')]\<close>
  by code_simp

lemma sample_members_array:
  \<open>first_array_value (CHR ''['' # sample_profile @ '']'') = Some sample_profile\<close>
  by code_simp

lemma sample_members_profile:
  \<open>object_members sample_profile = [(''keys'', sample_keys), (''encoder'', sample_encoder)]\<close>
  by code_simp

lemma sample_members_keys:
  \<open>object_members sample_keys = map (\<lambda>key. (key, ''{"press":"copy"}'')) [''KEY1'', ''KEY2'', ''KEY3'', ''KEY4'', ''KEY5'', ''KEY6'', ''KEY7''] @
     [(''KEY8'', ''{"press":{"text":"hi"}}'')]\<close>
  by code_simp

lemma sample_members_encoder:
  \<open>object_members sample_encoder = [(''left'', ''"undo"''), (''right'', ''"undo"''), (''press'', ''"undo"'')]\<close>
  by code_simp

lemma sample_members_leaves:
  \<open>object_members ''{"press":"copy"}'' = [(''press'', ''"copy"'')]\<close>
  \<open>object_members ''{"press":{"text":"hi"}}'' = [(''press'', ''{"text":"hi"}'')]\<close>
  \<open>object_members ''{"text":"hi"}'' = [(''text'', ''"hi"'')]\<close>
  by code_simp+

lemmas sample_members = sample_members_json sample_members_array sample_members_profile sample_members_keys
  sample_members_encoder sample_members_leaves

lemma sample_strings:
  \<open>string_value ''"ai_keyboard.v1"'' = Some ''ai_keyboard.v1''\<close>
  \<open>string_value ''"copy"'' = Some ''copy''\<close> \<open>string_value ''"undo"'' = Some ''undo''\<close>
  \<open>string_value ''"hi"'' = Some ''hi''\<close> \<open>string_value ''{"text":"hi"}'' = None\<close>
  by code_simp+

lemma sample_actions:
  \<open>parse_action ''"copy"'' = Inr (make_action Copy '''')\<close> \<open>parse_action ''"undo"'' = Inr (make_action Undo '''')\<close>
  \<open>parse_action ''{"text":"hi"}'' = Inr \<lparr>ac_kind = FixedText, ac_hotkey = '''', ac_text = ''hi''\<rparr>\<close>
  by (simp_all add: parse_action_def sample_strings named_action_kind_def field_value_members sample_members kFixedTextMaxUtf8Bytes_def)

lemma sample_accepted: "fst (parse_config_payload sample_json) = ParseOk"
  by (simp add: parse_config_payload_def then_ok_def read_target_platform_def optional_step_def optional_field_def
      field_value_members sample_members sample_strings check_schema_def check_sources_def read_wifi_def read_audio_port_def
      read_sync_key_def check_audio_enabled_def read_ptt_hotkey_def read_edit_ptt_hotkey_def read_hotkey_mode_def read_profile_def
      key_inputs_def encoder_inputs_def parse_binding_def parse_encoder_action_def sample_actions
      parse_encoder_scroll_config_def Let_def)

lemma accepted_config_well_formed_witness:
  "config_ok (snd (parse_config_payload sample_json))"
  by (rule accepted_config_well_formed [OF sample_accepted])

section \<open>Why a payload is rejected\<close>

text \<open>
  The checks in the order in which the code makes them, each a function of the payload
  alone; the status of a payload is the first one that is not Ok.
\<close>

fun first_failure :: "ConfigParseStatus list \<Rightarrow> ConfigParseStatus" where
  "first_failure [] = ParseOk"
| "first_failure (st # sts) = (if st = ParseOk then first_failure sts else st)"

definition status_of :: "ConfigParseStatus + 'a \<Rightarrow> ConfigParseStatus" where
  "status_of r = (case r of Inl st \<Rightarrow> st | Inr _ \<Rightarrow> ParseOk)"

definition field_check :: "string \<Rightarrow> string \<Rightarrow> (string \<Rightarrow> 'b option) \<Rightarrow> ConfigParseStatus" where
  "field_check json field read =
     (case field_value json field of None \<Rightarrow> ParseOk
      | Some raw \<Rightarrow> if read raw = None then InvalidJson else ParseOk)"

definition checked_port :: "string \<Rightarrow> int option" where
  "checked_port raw = Option.bind (int_value raw) (\<lambda>port. if is_valid_audio_port port then Some port else None)"

definition sync_check :: "string \<Rightarrow> ConfigParseStatus" where
  "sync_check json =
     (case (field_value json ''speaker_sync_key'', field_value json ''speaker_sync_key_epoch'') of
        (None, None) \<Rightarrow> ParseOk
      | (Some key, Some epoch) \<Rightarrow>
          if checked is_valid_speaker_sync_key key \<noteq> None \<and> (\<exists>n \<in> set_option (int_value epoch). 0 < n \<and> n \<le> 65535)
          then ParseOk else InvalidJson
      | _ \<Rightarrow> InvalidJson)"

definition profile_checks :: "string \<Rightarrow> ConfigParseStatus list" where
  "profile_checks json =
     (case profile_of json of None \<Rightarrow> [MissingProfile]
      | Some profile \<Rightarrow>
          (case (field_value profile ''keys'', field_value profile ''encoder'') of
             (Some keys, Some encoder) \<Rightarrow>
               map (\<lambda>(name, input). status_of (parse_binding keys name)) key_inputs @
               map (\<lambda>(name, input). status_of (parse_encoder_action encoder name)) encoder_inputs @
               [status_of (parse_encoder_scroll_config encoder)]
           | _ \<Rightarrow> [MissingBinding]))"

definition payload_checks :: "string \<Rightarrow> ConfigParseStatus list" where
  "payload_checks json =
     [field_check json ''target_platform'' (\<lambda>raw. Option.bind (string_value raw) parse_host_platform),
      if Option.bind (field_value json ''schema'') string_value = Some ''ai_keyboard.v1'' then ParseOk else InvalidSchema,
      field_check json ''audio_source'' (checked is_valid_audio_source),
      field_check json ''microphone_source'' (checked is_valid_microphone_source),
      field_check json ''wifi_ssid'' string_value,
      field_check json ''wifi_password'' string_value,
      field_check json ''audio_host'' string_value,
      field_check json ''audio_port'' checked_port,
      sync_check json,
      field_check json ''audio_enabled'' bool_value,
      field_check json ''ptt_hotkey'' (checked (\<lambda>s. s \<noteq> '''')),
      field_check json ''ptt_hotkey_source'' (\<lambda>raw. Option.bind (string_value raw) parse_hotkey_source),
      field_check json ''edit_ptt_hotkey'' (checked (\<lambda>s. s \<noteq> '''')),
      field_check json ''edit_ptt_hotkey_source'' (\<lambda>raw. Option.bind (string_value raw) parse_hotkey_source),
      field_check json ''hotkey_mode'' (\<lambda>raw. Option.bind (string_value raw) parse_ptt_mode)] @
     profile_checks json"

lemma first_failure_append:
  "first_failure (xs @ ys) = (if first_failure xs = ParseOk then first_failure ys else first_failure xs)"
  by (induction xs) auto

lemma fst_then_ok: "fst (then_ok r f) = (if fst r = ParseOk then fst (f (snd r)) else fst r)"
  by (simp add: then_ok_def)

lemma fst_optional: "fst (optional_step json field read store c) = field_check json field read"
  by (simp add: optional_step_def optional_field_def field_check_def split: option.split)

lemma fst_schema:
  "fst (check_schema json c) = (if Option.bind (field_value json ''schema'') string_value = Some ''ai_keyboard.v1'' then ParseOk else InvalidSchema)"
  by (simp add: check_schema_def)

lemma fst_port: "fst (read_audio_port json c) = field_check json ''audio_port'' checked_port"
  by (simp add: read_audio_port_def field_check_def checked_port_def split: option.split)

lemma fst_sync: "fst (read_sync_key json c) = sync_check json"
  by (simp add: read_sync_key_def sync_check_def checked_def not_le split: option.split)

lemma status_of_inputs:
  assumes "\<And>name. parse name \<noteq> Inl ParseOk"
  shows "status_of (read_inputs parse inputs actions) = first_failure (map (\<lambda>(name, input). status_of (parse name)) inputs)"
proof (induction inputs arbitrary: actions)
  case (Cons inp inputs)
  then show ?case using assms by (cases inp) (auto simp: status_of_def split: sum.splits)
qed (simp add: status_of_def)

lemma status_of_bindings:
  "status_of (read_inputs (parse_binding keys) inputs actions) = first_failure (map (\<lambda>(name, input). status_of (parse_binding keys name)) inputs)"
  "status_of (read_inputs (parse_encoder_action encoder) inputs actions) =
     first_failure (map (\<lambda>(name, input). status_of (parse_encoder_action encoder name)) inputs)"
  by (intro status_of_inputs; simp)+

lemma fst_profile: "fst (read_profile json c) = first_failure (profile_checks json)"
proof -
  have sum_status: "fst (case r of Inl st \<Rightarrow> (st, c1) | Inr x \<Rightarrow> f x) = (if status_of r = ParseOk then fst (f (projr r)) else status_of r)"
    if "r \<noteq> Inl ParseOk" for r :: "ConfigParseStatus + 'x" and c1 and f :: "'x \<Rightarrow> ConfigParseResult"
    using that by (cases r) (auto simp: status_of_def)
  show ?thesis
    by (simp add: read_profile_stages profile_checks_def first_failure_append sum_status status_of_bindings split: option.split)
qed

lemma then_ok_assoc: "then_ok (then_ok r g) f = then_ok r (\<lambda>c. then_ok (g c) f)"
  by (simp add: then_ok_def)

lemma first_failure_chain:
  "fst r = st \<Longrightarrow> (\<And>c. fst (f c) = first_failure sts) \<Longrightarrow> fst (then_ok r f) = first_failure (st # sts)"
  by (simp add: then_ok_def)

text \<open>
  C28: the status of a payload is the first check it fails, in the order platform, schema,
  sources, network, sync key, hotkeys, keys one to eight, encoder and scroll; no later field
  influences it, and a payload that fails none is accepted.
\<close>
theorem status_is_first_failure:
  "fst (parse_config_payload json) = first_failure (payload_checks json)"
  unfolding parse_config_payload_def payload_checks_def read_target_platform_def check_sources_def read_wifi_def
    check_audio_enabled_def read_ptt_hotkey_def read_edit_ptt_hotkey_def read_hotkey_mode_def
    then_ok_assoc append_Cons append_Nil
  by (intro first_failure_chain fst_optional fst_schema fst_port fst_sync fst_profile)

section \<open>The configuration in force\<close>

datatype ConfigEvent = ApplyJson string | SetPlatform HostPlatform

fun config_step :: "ConfigState \<Rightarrow> ConfigEvent \<Rightarrow> ConfigState" where
  "config_step st (ApplyJson json) = snd (apply_json st json)"
| "config_step st (SetPlatform p) = set_target_platform st p"

text \<open>What should be in force: the last accepted payload and the current platform.\<close>

fun effective :: "string option \<times> HostPlatform \<Rightarrow> ConfigEvent \<Rightarrow> string option \<times> HostPlatform" where
  "effective (prev, p) (ApplyJson json) =
     (if fst (parse_config_payload json) \<noteq> ParseOk then (prev, p)
      else (Some json, if pk_target_platform_explicit (snd (parse_config_payload json))
                       then pk_target_platform (snd (parse_config_payload json)) else p))"
| "effective (prev, p) (SetPlatform q) = (prev, q)"

definition in_force :: "string option \<times> HostPlatform \<Rightarrow> ConfigState" where
  "in_force e =
     \<lparr>gs_current = resolve_platform
        ((case fst e of None \<Rightarrow> default_config | Some json \<Rightarrow> snd (parse_config_payload json))\<lparr>pk_target_platform := snd e\<rparr>),
      gs_last_applied_json = (case fst e of None \<Rightarrow> '''' | Some json \<Rightarrow> json)\<rparr>"

lemma in_force_init: "init_config_state = in_force (None, MacOS)"
  by (simp add: init_config_state_def in_force_def resolve_platform_def Let_def default_config_def default_scroll_def
      default_ptt_hotkey_def default_edit_ptt_hotkey_def)

lemma resolve_target [simp]: "pk_target_platform (resolve_platform c) = pk_target_platform c"
  by (simp add: resolve_platform_def Let_def)

lemma in_force_step: "config_step (in_force e) ev = in_force (effective e ev)"
proof (cases e)
  case (Pair prev p)
  show ?thesis
  proof (cases ev)
    case (ApplyJson json)
    then show ?thesis
      by (simp add: Pair apply_json_def set_target_platform_def in_force_def Let_def split: option.split)
  next
    case (SetPlatform q)
    then show ?thesis
      by (simp add: Pair set_target_platform_def in_force_def resolve_again)
  qed
qed

text \<open>
  C10: after any payloads and platform switches the configuration is exactly the last accepted
  payload (or the factory default), with the platform-derived hotkeys and scroll directions
  of the current platform; rejected payloads leave no trace.
\<close>
theorem config_in_force_refines:
  "run config_step init_config_state evs = in_force (foldl effective (None, MacOS) evs)"
proof -
  have "run config_step (in_force e) evs = in_force (foldl effective e evs)" for e
    by (induction evs arbitrary: e) (simp_all add: in_force_step)
  then show ?thesis by (simp add: in_force_init)
qed

lemma config_ok_default: "config_ok (resolve_platform (default_config\<lparr>pk_target_platform := p\<rparr>))"
proof -
  have "list_all action_ok DefaultKeymap"
    by (simp add: DefaultKeymap_def action_ok_def make_action_def)
  moreover have "length DefaultKeymap = input_index InputCount" by (simp add: DefaultKeymap_def)
  moreover have "fields_ok (default_config\<lparr>pk_target_platform := p\<rparr>)" 
    by (simp add: fields_ok_def default_config_def is_valid_audio_port_def speed_ok_def default_scroll_def)
  ultimately show ?thesis
    using resolve_platform_ok resolve_fields by (simp add: config_ok_def) (simp add: default_config_def)
qed

lemma config_ok_resolve: "config_ok c \<Longrightarrow> config_ok (resolve_platform (c\<lparr>pk_target_platform := p\<rparr>))"
proof -
  assume c: "config_ok c"
  then have "fields_ok (c\<lparr>pk_target_platform := p\<rparr>)" by (simp add: config_ok_def fields_ok_def)
  then show ?thesis using c resolve_platform_ok resolve_fields by (simp add: config_ok_def)
qed

lemma config_ok_init: "config_ok (gs_current init_config_state)"
  using config_ok_default [of MacOS] by (simp add: in_force_init in_force_def)

lemma config_ok_step: "config_ok (gs_current st) \<Longrightarrow> config_ok (gs_current (config_step st ev))"
  by (cases ev) (auto simp: apply_json_def set_target_platform_def Let_def config_ok_resolve accepted_payload_config)

interpretation config_machine: event_machine config_step init_config_state "\<lambda>st. config_ok (gs_current st)"
  by unfold_locales (auto intro: config_ok_init config_ok_step)

text \<open>
  Whatever payloads and platform switches arrive, the configuration in force is
  well-formed, from the factory default on.
\<close>
lemma config_always_well_formed:
  "config_ok (gs_current (run config_step init_config_state evs))"
  by (rule config_machine.inv_reachable)

end
