(* ===== verification/Eci_Protocol.thy ===== *)
theory Eci_Protocol
  imports Prelude
begin

text \<open>
  \<^verbatim>\<open>components/eci_protocol\<close>: the vocabulary of the device protocol, the window that
  rejects replayed sequence numbers and the tracker of frames that await a business
  acknowledgement.  The window is proved to decide every message like a plain set of the
  numbers accepted so far.
\<close>

unbundle bit_operations_syntax

section \<open>Vocabulary\<close>

definition kProtocolVersion :: u8 where "kProtocolVersion = 1"
definition kMaxIdentifierBytes :: nat where "kMaxIdentifierBytes = 64"
definition kReplayWindowBits :: nat where "kReplayWindowBits = 64"

datatype MessageKind = kDeviceHello | kPttStart | kPttAudio | kPttEnd | kPlayRequest | kPlayResume
  | kPlayStarted | kPlayFinished | kPlayFailed | kPlayPreempted | kBindingProjection | kPromptState
  | kPlayBegin | kPlayAudio | kPlayEnd | kPlayCancel | kBridgeState | kBridgeFrame | kFrameAck | kProtocolError

definition kKinds :: "(string \<times> MessageKind) list" where
  "kKinds =
     [(''device.hello'', kDeviceHello), (''ptt.start'', kPttStart), (''ptt.audio'', kPttAudio),
      (''ptt.end'', kPttEnd), (''play.request'', kPlayRequest), (''play.resume'', kPlayResume),
      (''play.started'', kPlayStarted), (''play.finished'', kPlayFinished), (''play.failed'', kPlayFailed),
      (''play.preempted'', kPlayPreempted), (''binding.projection'', kBindingProjection),
      (''prompt.state'', kPromptState), (''play.begin'', kPlayBegin), (''play.audio'', kPlayAudio),
      (''play.end'', kPlayEnd), (''play.cancel'', kPlayCancel), (''bridge.state'', kBridgeState),
      (''bridge.frame'', kBridgeFrame), (''frame.ack'', kFrameAck), (''protocol.error'', kProtocolError)]"

definition IsIdentifierByte :: "char \<Rightarrow> bool" where
  "IsIdentifierByte v \<longleftrightarrow>
     65 \<le> code_of v \<and> code_of v \<le> 90 \<or> 97 \<le> code_of v \<and> code_of v \<le> 122 \<or>
     48 \<le> code_of v \<and> code_of v \<le> 57 \<or> v = CHR ''_'' \<or> v = CHR ''-'' \<or> v = CHR ''.''"

definition IsValidIdentifier :: "string \<Rightarrow> bool" where
  "IsValidIdentifier v \<longleftrightarrow> v \<noteq> [] \<and> length v \<le> kMaxIdentifierBytes \<and> list_all IsIdentifierByte v"

definition IsSupportedVersion :: "u8 \<Rightarrow> bool" where
  "IsSupportedVersion version \<longleftrightarrow> version = kProtocolVersion"

definition ParseMessageKind :: "string \<Rightarrow> MessageKind option" where
  "ParseMessageKind v = map_of kKinds v"

text \<open>Every kind has exactly one name, an identifier, and the name determines it.\<close>

lemma message_kinds_complete: "\<exists>!name. ParseMessageKind name = Some kind"
proof -
  have dist: "distinct (map fst kKinds)" "distinct (map snd kKinds)" by (simp_all add: kKinds_def)
  have "kind \<in> set (map snd kKinds)" by (cases kind) (simp_all add: kKinds_def)
  then obtain name where name: "(name, kind) \<in> set kKinds" by auto
  have uniq: "name' = name" if "(name', kind) \<in> set kKinds" for name'
    using inj_onD [of snd "set kKinds" "(name', kind)" "(name, kind)"] dist(2) that name by (simp add: distinct_map)
  show ?thesis
    unfolding ParseMessageKind_def
  proof (rule ex1I)
    show "map_of kKinds name = Some kind" by (rule map_of_is_SomeI [OF dist(1) name])
  qed (rule uniq [OF map_of_SomeD])
qed

section \<open>The replay window\<close>

datatype ReplayResult = ReplayAccepted | ReplayDuplicate | ReplayStale

record ReplayWindow =
  rw_initialized :: bool
  rw_highest :: u64
  rw_seen :: u64

definition init_replay_window :: ReplayWindow where
  "init_replay_window = \<lparr>rw_initialized = False, rw_highest = 0, rw_seen = 0\<rparr>"

definition CheckAndRecord :: "ReplayWindow \<Rightarrow> u64 \<Rightarrow> ReplayResult \<times> ReplayWindow" where
  "CheckAndRecord w sequence =
     (if \<not> rw_initialized w then
        (ReplayAccepted, \<lparr>rw_initialized = True, rw_highest = sequence, rw_seen = 1\<rparr>)
      else if rw_highest w < sequence then
        (let shift = sequence - rw_highest w
         in (ReplayAccepted,
             w\<lparr>rw_seen := (if of_nat kReplayWindowBits \<le> shift then 1 else push_bit (unat shift) (rw_seen w) OR 1),
               rw_highest := sequence\<rparr>))
      else
        let offset = rw_highest w - sequence in
        if of_nat kReplayWindowBits \<le> offset then (ReplayStale, w)
        else
          let mask = push_bit (unat offset) 1 in
          if rw_seen w AND mask \<noteq> 0 then (ReplayDuplicate, w)
          else (ReplayAccepted, w\<lparr>rw_seen := rw_seen w OR mask\<rparr>))"

text \<open>The reference: a set of the accepted numbers.\<close>

definition replay_decision :: "nat set \<Rightarrow> nat \<Rightarrow> ReplayResult" where
  "replay_decision accepted n =
     (if accepted = {} \<or> Max accepted < n then ReplayAccepted
      else if kReplayWindowBits \<le> Max accepted - n then ReplayStale
      else if n \<in> accepted then ReplayDuplicate
      else ReplayAccepted)"

fun replay_reference :: "nat set \<Rightarrow> u64 list \<Rightarrow> (u64 \<times> ReplayResult) list" where
  "replay_reference accepted [] = []"
| "replay_reference accepted (sequence # rest) =
     (let r = replay_decision accepted (unat sequence)
      in (sequence, r) # replay_reference (if r = ReplayAccepted then insert (unat sequence) accepted else accepted) rest)"

text \<open>How the two words represent the set.\<close>

definition window_of :: "ReplayWindow \<Rightarrow> nat set \<Rightarrow> bool" where
  "window_of w accepted \<longleftrightarrow> finite accepted \<and>
     (if rw_initialized w
      then accepted \<noteq> {} \<and> unat (rw_highest w) = Max accepted \<and>
        (\<forall>k < 64. bit (rw_seen w) k \<longleftrightarrow> k \<le> Max accepted \<and> Max accepted - k \<in> accepted)
      else accepted = {})"

lemma window_init: "window_of init_replay_window {}"
  by (simp add: window_of_def init_replay_window_def)

lemma unat_shift: "(h :: u64) < s \<Longrightarrow> unat (s - h) = unat s - unat h"
  by (simp add: unat_sub order_less_imp_le)

lemma window_bits_le: "of_nat kReplayWindowBits \<le> (x :: u64) \<longleftrightarrow> 64 \<le> unat x"
  by (simp add: kReplayWindowBits_def word_le_nat_alt)

lemma bit_of_push_or:
  assumes "k < 64"
  shows "bit (push_bit n v OR 1 :: u64) k \<longleftrightarrow> k = 0 \<or> n \<le> k \<and> bit v (k - n)"
  using assms by (auto simp: bit_or_iff bit_push_bit_iff bit_1_iff)

lemma window_step_new:
  assumes w: "window_of w accepted" and init: "rw_initialized w" and new: "rw_highest w < sequence"
  shows "window_of (snd (CheckAndRecord w sequence)) (insert (unat sequence) accepted)"
proof -
  let ?h = "unat (rw_highest w)" and ?s = "unat sequence"
  have hs: "?h < ?s" using new by (simp add: word_less_nat_alt)
  have fin: "finite accepted" "accepted \<noteq> {}" and max: "Max accepted = ?h"
    and bits: "\<And>k. k < 64 \<Longrightarrow> bit (rw_seen w) k \<longleftrightarrow> k \<le> ?h \<and> ?h - k \<in> accepted"
    using w init by (auto simp: window_of_def)
  have below: "x \<le> ?h" if "x \<in> accepted" for x using fin(1) max that Max_ge by metis
  have max': "Max (insert ?s accepted) = ?s" using fin max hs by simp
  have sub: "unat (sequence - rw_highest w) = ?s - ?h" using new by (rule unat_shift)
  have seen: "bit (rw_seen (snd (CheckAndRecord w sequence))) k \<longleftrightarrow> k \<le> ?s \<and> ?s - k \<in> insert ?s accepted" if k: "k < 64" for k
  proof (cases "64 \<le> ?s - ?h")
    case True
    then have "?s - k \<in> insert ?s accepted \<longleftrightarrow> k = 0" if "k \<le> ?s" using that k below [of "?s - k"] by auto
    then show ?thesis using True init new k by (auto simp: CheckAndRecord_def window_bits_le sub bit_1_iff)
  next
    case False
    have "bit (push_bit (?s - ?h) (rw_seen w) OR 1 :: u64) k \<longleftrightarrow> k = 0 \<or> ?s - ?h \<le> k \<and> k - (?s - ?h) \<le> ?h \<and> ?h - (k - (?s - ?h)) \<in> accepted"
      using bit_of_push_or [OF k] bits [of "k - (?s - ?h)"] k by auto
    also have "\<dots> \<longleftrightarrow> k \<le> ?s \<and> ?s - k \<in> insert ?s accepted"
    proof (cases "?s - ?h \<le> k")
      case True
      then have "?h - (k - (?s - ?h)) = ?s - k" if "k \<le> ?s" using hs that by simp
      then show ?thesis using True hs by auto
    next
      case False
      then have "?s - k \<notin> accepted" using below [of "?s - k"] hs by auto
      then show ?thesis using False hs by auto
    qed
    finally show ?thesis using False init new by (simp add: CheckAndRecord_def window_bits_le sub Let_def)
  qed
  have "rw_initialized (snd (CheckAndRecord w sequence))" "rw_highest (snd (CheckAndRecord w sequence)) = sequence"
    using init new by (simp_all add: CheckAndRecord_def Let_def)
  then show ?thesis using seen fin max' by (simp add: window_of_def)
qed

lemma window_step_old:
  assumes w: "window_of w accepted" and init: "rw_initialized w" and old: "\<not> rw_highest w < sequence"
  shows "fst (CheckAndRecord w sequence) = replay_decision accepted (unat sequence)"
    and "window_of (snd (CheckAndRecord w sequence))
      (if replay_decision accepted (unat sequence) = ReplayAccepted then insert (unat sequence) accepted else accepted)"
proof -
  let ?h = "unat (rw_highest w)" and ?s = "unat sequence"
  let ?k = "?h - ?s"
  have hs: "?s \<le> ?h" using old by (simp add: word_less_nat_alt)
  have fin: "finite accepted" "accepted \<noteq> {}" and max: "Max accepted = ?h"
    and bits: "\<And>k. k < 64 \<Longrightarrow> bit (rw_seen w) k \<longleftrightarrow> k \<le> ?h \<and> ?h - k \<in> accepted"
    using w init by (auto simp: window_of_def)
  have sub: "unat (rw_highest w - sequence) = ?k" using old by (simp add: unat_sub not_less)
  have dec: "replay_decision accepted ?s =
      (if 64 \<le> ?k then ReplayStale else if ?s \<in> accepted then ReplayDuplicate else ReplayAccepted)"
    using fin hs by (simp add: replay_decision_def max kReplayWindowBits_def)
  have seen: "bit (rw_seen w) ?k \<longleftrightarrow> ?s \<in> accepted" if "?k < 64" using bits [OF that] hs by simp
  have code: "CheckAndRecord w sequence =
      (if 64 \<le> ?k then (ReplayStale, w) else if ?s \<in> accepted then (ReplayDuplicate, w)
       else (ReplayAccepted, w\<lparr>rw_seen := rw_seen w OR push_bit ?k 1\<rparr>))"
    using init old seen by (auto simp: CheckAndRecord_def Let_def window_bits_le sub and_exp_eq_0_iff_not_bit)
  show "fst (CheckAndRecord w sequence) = replay_decision accepted ?s" by (simp add: code dec)
  have "window_of (w\<lparr>rw_seen := rw_seen w OR push_bit ?k 1\<rparr>) (insert ?s accepted)" if "?k < 64"
  proof -
    have "Max (insert ?s accepted) = ?h" using fin max hs by simp
    moreover have "bit (rw_seen w OR push_bit ?k 1) k \<longleftrightarrow> k \<le> ?h \<and> ?h - k \<in> insert ?s accepted" if "k < 64" for k
    proof -
      have "bit (push_bit ?k 1 :: u64) k \<longleftrightarrow> k = ?k"
        using that \<open>?k < 64\<close> by (auto simp: bit_push_bit_iff bit_1_iff simp del: push_bit_of_1)
      then show ?thesis using bits [OF that] that hs by (auto simp: bit_or_iff simp del: push_bit_of_1)
    qed
    ultimately show ?thesis using init fin by (simp add: window_of_def)
  qed
  then show "window_of (snd (CheckAndRecord w sequence))
      (if replay_decision accepted ?s = ReplayAccepted then insert ?s accepted else accepted)"
    using w by (simp add: code dec)
qed

lemma window_step:
  assumes "window_of w accepted"
  shows "fst (CheckAndRecord w sequence) = replay_decision accepted (unat sequence)"
    and "window_of (snd (CheckAndRecord w sequence))
      (if replay_decision accepted (unat sequence) = ReplayAccepted then insert (unat sequence) accepted else accepted)"
proof -
  consider "\<not> rw_initialized w" | "rw_initialized w" "rw_highest w < sequence" | "rw_initialized w" "\<not> rw_highest w < sequence"
    by blast
  then have "fst (CheckAndRecord w sequence) = replay_decision accepted (unat sequence) \<and>
    window_of (snd (CheckAndRecord w sequence))
      (if replay_decision accepted (unat sequence) = ReplayAccepted then insert (unat sequence) accepted else accepted)"
  proof cases
    case 1
    then have "accepted = {}" using assms by (simp add: window_of_def)
    moreover have "window_of \<lparr>rw_initialized = True, rw_highest = sequence, rw_seen = 1\<rparr> {unat sequence}"
      by (auto simp: window_of_def bit_1_iff)
    ultimately show ?thesis using 1 by (simp add: CheckAndRecord_def replay_decision_def)
  next
    case 2
    then have "replay_decision accepted (unat sequence) = ReplayAccepted"
      using assms by (simp add: window_of_def replay_decision_def word_less_nat_alt)
    then show ?thesis using window_step_new [OF assms 2] 2 by (simp add: CheckAndRecord_def Let_def)
  next
    case 3
    then show ?thesis using window_step_old [OF assms 3] by blast
  qed
  then show "fst (CheckAndRecord w sequence) = replay_decision accepted (unat sequence)"
    and "window_of (snd (CheckAndRecord w sequence))
      (if replay_decision accepted (unat sequence) = ReplayAccepted then insert (unat sequence) accepted else accepted)"
    by blast+
qed

definition window_machine :: "ReplayWindow \<Rightarrow> u64 \<Rightarrow> ReplayWindow \<times> ReplayResult" where
  "window_machine w sequence = (snd (CheckAndRecord w sequence), fst (CheckAndRecord w sequence))"

lemma window_runs:
  "window_of w accepted \<Longrightarrow> run_log window_machine w es = replay_reference accepted es"
proof (induction es arbitrary: w accepted)
  case (Cons sequence es)
  show ?case
    using window_step [OF Cons.prems, of sequence] Cons.IH [OF window_step(2) [OF Cons.prems, of sequence]]
    by (simp add: window_machine_def Let_def)
qed simp

lemma reference_fresh:
  "finite accepted \<Longrightarrow>
   distinct (map fst (filter (\<lambda>(s, r). r = ReplayAccepted) (replay_reference accepted es))) \<and>
   (\<forall>s \<in> set (map fst (filter (\<lambda>(s, r). r = ReplayAccepted) (replay_reference accepted es))). unat s \<notin> accepted)"
proof (induction es arbitrary: accepted)
  case (Cons sequence es)
  let ?r = "replay_decision accepted (unat sequence)"
  show ?case
  proof (cases "?r = ReplayAccepted")
    case True
    have "unat sequence \<notin> accepted"
    proof
      assume "unat sequence \<in> accepted"
      moreover from this have "unat sequence \<le> Max accepted" using Cons.prems by simp
      ultimately show False using True by (auto simp: replay_decision_def split: if_splits)
    qed
    then show ?thesis using Cons.IH [of "insert (unat sequence) accepted"] Cons.prems True by (auto simp: Let_def)
  next
    case False
    then show ?thesis using Cons.IH [OF Cons.prems] by (simp add: Let_def)
  qed
qed simp

text \<open>
  C29: over any sequence of messages the two-word window answers each one exactly as a set of
  all accepted numbers would (new highest, replayed, older than the window, or late but new),
  and so accepts no number twice.
\<close>
theorem replay_window_exact:
  "run_log window_machine init_replay_window es = replay_reference {} es \<and>
   distinct (map fst (filter (\<lambda>(s, r). r = ReplayAccepted) (run_log window_machine init_replay_window es)))"
  using window_runs [OF window_init, of es] reference_fresh [of "{}" es] by simp

section \<open>Frames in flight\<close>

type_synonym FrameTracker = "u32 set"

definition NoteTransportSend :: "FrameTracker \<Rightarrow> u32 \<Rightarrow> FrameTracker" where
  "NoteTransportSend in_flight frame = insert frame in_flight"

definition ApplyBusinessAck :: "FrameTracker \<Rightarrow> u32 \<Rightarrow> bool \<times> FrameTracker" where
  "ApplyBusinessAck in_flight frame =
     (if frame \<notin> in_flight then (False, in_flight) else (True, in_flight - {f. f \<le> frame}))"

definition IsPending :: "FrameTracker \<Rightarrow> u32 \<Rightarrow> bool" where
  "IsPending in_flight frame \<longleftrightarrow> frame \<in> in_flight"

definition PendingCount :: "FrameTracker \<Rightarrow> nat" where
  "PendingCount in_flight = card in_flight"

text \<open>An acknowledgement settles the frame and everything before it; repeating it changes nothing.\<close>

lemma ack_is_cumulative:
  assumes "ApplyBusinessAck in_flight frame = (True, rest)"
  shows "IsPending rest f \<longleftrightarrow> IsPending in_flight f \<and> frame < f"
    and "ApplyBusinessAck rest frame = (False, rest)"
  using assms by (auto simp: ApplyBusinessAck_def IsPending_def split: if_splits)

end
