(* ===== verification/Playback_Wire.thy ===== *)
theory Playback_Wire
  imports Prelude
begin

text \<open>
  \<^verbatim>\<open>components/keyboard/include/keyboard/codex_playback_wire.h\<close> and
  \<^verbatim>\<open>src/codex_playback_wire.cpp\<close>: the authenticated packets of LAN playback.  A packet is
  the list of its bytes.  The two cryptographic library calls are parameters: \<open>hmac\<close> maps
  message and key to the SHA-256 digest, \<open>gcm\<close> maps key, nonce, additional data,
  ciphertext and tag to the authenticated plaintext; \<open>None\<close> is a failing call.  A decoder
  returns its answer and what it wrote to its out-parameter, if anything.  Null pointers
  are not modelled.
\<close>

unbundle bit_operations_syntax

type_synonym hmac_fn = "bytes \<Rightarrow> bytes \<Rightarrow> bytes option"
type_synonym gcm_fn = "bytes \<Rightarrow> bytes \<Rightarrow> bytes \<Rightarrow> bytes \<Rightarrow> bytes \<Rightarrow> bytes option"

definition kPlaybackWireVersion :: u8 where "kPlaybackWireVersion = 1"
definition kPlaybackAuthTagBytes :: nat where "kPlaybackAuthTagBytes = 16"
definition kPlaybackRequestBytes :: nat where "kPlaybackRequestBytes = 40"
definition kPlaybackBeginBytes :: nat where "kPlaybackBeginBytes = 72"
definition kPlaybackAckBytes :: nat where "kPlaybackAckBytes = 52"
definition kPlaybackFinishedBytes :: nat where "kPlaybackFinishedBytes = 56"
definition kPlaybackFinishedAckBytes :: nat where "kPlaybackFinishedAckBytes = 48"
definition kPlaybackDataHeaderBytes :: nat where "kPlaybackDataHeaderBytes = 40"
definition kMailboxStatusBytes :: nat where "kMailboxStatusBytes = 32"
definition kMailboxStatusVersion :: u8 where "kMailboxStatusVersion = 3"
definition kPlaybackChunkBytes :: nat where "kPlaybackChunkBytes = 1024"
definition kPlaybackMaximumEiadBytes :: nat where "kPlaybackMaximumEiadBytes = 4 * 1024 * 1024"
definition kPlaybackMaximumSamples :: nat where "kPlaybackMaximumSamples = 48000 * 150"

record PlaybackWireRequest =
  wr_slot :: u8
  wr_request_generation :: u32
  wr_connection_generation :: u32
  wr_nonce :: u64

record PlaybackWireIdentity =
  wi_slot :: u8
  wi_request_generation :: u32
  wi_connection_generation :: u32
  wi_summary_generation :: u64
  wi_lease :: u64

record PlaybackWireBegin =
  wb_identity :: PlaybackWireIdentity
  wb_total_bytes :: u32
  wb_total_samples :: u64
  wb_chunk_bytes :: u16
  wb_request_nonce :: u64

record PlaybackWireData =
  wd_identity :: PlaybackWireIdentity
  wd_offset :: u32
  wd_payload :: bytes

record PlaybackWireAck =
  wa_identity :: PlaybackWireIdentity
  wa_status :: u8
  wa_next_offset :: u32

record PlaybackWireFinished =
  wf_identity :: PlaybackWireIdentity
  wf_played_samples :: u64

record MailboxWireStatus =
  ms_unread_slots :: u8
  ms_running_tasks :: u8
  ms_heartbeat_sequence :: u32
  ms_coverage_by_slot :: bytes

section \<open>Bytes\<close>

text \<open>Little-endian stores and loads, byte by byte.\<close>

definition put_le :: "nat \<Rightarrow> bytes \<Rightarrow> nat \<Rightarrow> 'a::len word \<Rightarrow> bytes" where
  "put_le n out offset v = foldl (\<lambda>out i. out[offset + i := ucast (drop_bit (i * 8) v)]) out [0..<n]"

definition get_le :: "nat \<Rightarrow> bytes \<Rightarrow> nat \<Rightarrow> 'a::len word" where
  "get_le n inp offset = foldl (\<lambda>v i. v OR push_bit (i * 8) (ucast (inp ! (offset + i)))) 0 [0..<n]"

definition put_u32 :: "bytes \<Rightarrow> nat \<Rightarrow> u32 \<Rightarrow> bytes" where "put_u32 = put_le 4"
definition put_u64 :: "bytes \<Rightarrow> nat \<Rightarrow> u64 \<Rightarrow> bytes" where "put_u64 = put_le 8"
definition get_u16 :: "bytes \<Rightarrow> nat \<Rightarrow> u16" where
  "get_u16 inp offset = ucast (inp ! offset) OR push_bit 8 (ucast (inp ! (offset + 1)))"
definition get_u32 :: "bytes \<Rightarrow> nat \<Rightarrow> u32" where "get_u32 = get_le 4"
definition get_u64 :: "bytes \<Rightarrow> nat \<Rightarrow> u64" where "get_u64 = get_le 8"

text \<open>\<^verbatim>\<open>memcpy\<close> of a string or an array into a packet.\<close>

definition copy_in :: "bytes \<Rightarrow> nat \<Rightarrow> bytes \<Rightarrow> bytes" where
  "copy_in out offset bs = take offset out @ bs @ drop (offset + length bs) out"

definition ascii :: "string \<Rightarrow> bytes" where "ascii s = map of_char s"

definition magic_matches :: "bytes \<Rightarrow> string \<Rightarrow> bool" where
  "magic_matches packet magic \<longleftrightarrow> take 4 packet = ascii magic"

definition reserved_zero :: "bytes \<Rightarrow> nat \<Rightarrow> nat \<Rightarrow> bool" where
  "reserved_zero packet first last_index \<longleftrightarrow> list_all (\<lambda>i. packet ! i = 0) [first..<last_index]"

section \<open>Authentication\<close>

definition sign :: "hmac_fn \<Rightarrow> bytes \<Rightarrow> bytes \<Rightarrow> bytes option" where
  "sign hmac packet key =
     (if length packet < kPlaybackAuthTagBytes then None
      else
        let body_size = length packet - kPlaybackAuthTagBytes in
        case hmac (take body_size packet) key of None \<Rightarrow> None
        | Some digest \<Rightarrow> Some (copy_in packet body_size (take kPlaybackAuthTagBytes digest)))"

definition authenticate :: "hmac_fn \<Rightarrow> bytes \<Rightarrow> bytes \<Rightarrow> bool" where
  "authenticate hmac packet key \<longleftrightarrow>
     \<not> length packet < kPlaybackAuthTagBytes \<and>
     (let body_size = length packet - kPlaybackAuthTagBytes in
      case hmac (take body_size packet) key of None \<Rightarrow> False
      | Some digest \<Rightarrow>
          foldl (\<lambda>difference i. difference OR (digest ! i XOR packet ! (body_size + i))) 0 [0..<kPlaybackAuthTagBytes] = 0)"

text \<open>The 44 bytes the data key is derived from.\<close>

definition key_context :: "PlaybackWireIdentity \<Rightarrow> u64 \<Rightarrow> bytes" where
  "key_context identity request_nonce =
     (let c0 = copy_in (replicate 44 0) 0 (ascii ''EIPDKEY1'');
          c1 = c0[8 := wi_slot identity];
          c2 = put_u32 c1 12 (wi_request_generation identity);
          c3 = put_u32 c2 16 (wi_connection_generation identity);
          c4 = put_u64 c3 20 (wi_summary_generation identity);
          c5 = put_u64 c4 28 (wi_lease identity)
      in put_u64 c5 36 request_nonce)"

definition derive_data_key :: "hmac_fn \<Rightarrow> PlaybackWireIdentity \<Rightarrow> u64 \<Rightarrow> bytes \<Rightarrow> bytes option" where
  "derive_data_key hmac identity request_nonce root_key =
     (if request_nonce = 0 then None else hmac (key_context identity request_nonce) root_key)"

definition data_nonce :: "u32 \<Rightarrow> bytes" where
  "data_nonce offset = put_u32 (replicate 12 0) 0 offset"

definition decrypt_data_payload :: "gcm_fn \<Rightarrow> bytes \<Rightarrow> nat \<Rightarrow> bytes \<Rightarrow> bytes option" where
  "decrypt_data_payload gcm packet payload_length data_key =
     gcm data_key (data_nonce (get_u32 packet 32)) (take kPlaybackDataHeaderBytes packet)
       (take payload_length (drop kPlaybackDataHeaderBytes packet))
       (take kPlaybackAuthTagBytes (drop (kPlaybackDataHeaderBytes + payload_length) packet))"

section \<open>Packets\<close>

definition encode_identity :: "bytes \<Rightarrow> PlaybackWireIdentity \<Rightarrow> bytes" where
  "encode_identity packet identity =
     put_u64 (put_u64 (put_u32 (put_u32 packet 8 (wi_request_generation identity)) 12 (wi_connection_generation identity))
       16 (wi_summary_generation identity)) 24 (wi_lease identity)"

definition decode_identity :: "bytes \<Rightarrow> PlaybackWireIdentity" where
  "decode_identity packet = \<lparr>wi_slot = packet ! 5, wi_request_generation = get_u32 packet 8,
     wi_connection_generation = get_u32 packet 12, wi_summary_generation = get_u64 packet 16, wi_lease = get_u64 packet 24\<rparr>"

definition playback_wire_identity_valid :: "PlaybackWireIdentity \<Rightarrow> bool" where
  "playback_wire_identity_valid i \<longleftrightarrow> 1 \<le> wi_slot i \<and> wi_slot i \<le> 4 \<and> wi_request_generation i \<noteq> 0 \<and>
     wi_connection_generation i \<noteq> 0 \<and> wi_summary_generation i \<noteq> 0 \<and> wi_lease i \<noteq> 0"

definition playback_wire_identity_equal :: "PlaybackWireIdentity \<Rightarrow> PlaybackWireIdentity \<Rightarrow> bool" where
  "playback_wire_identity_equal a b \<longleftrightarrow> wi_slot a = wi_slot b \<and> wi_request_generation a = wi_request_generation b \<and>
     wi_connection_generation a = wi_connection_generation b \<and> wi_summary_generation a = wi_summary_generation b \<and>
     wi_lease a = wi_lease b"

definition playback_data_matches_received_prefix :: "PlaybackWireData \<Rightarrow> bytes \<Rightarrow> bool" where
  "playback_data_matches_received_prefix data received \<longleftrightarrow>
     wd_payload data \<noteq> [] \<and> unat (wd_offset data) < length received \<and>
     length (wd_payload data) \<le> length received - unat (wd_offset data) \<and>
     take (length (wd_payload data)) (drop (unat (wd_offset data)) received) = wd_payload data"

definition valid_request :: "PlaybackWireRequest \<Rightarrow> bool" where
  "valid_request r \<longleftrightarrow> 1 \<le> wr_slot r \<and> wr_slot r \<le> 4 \<and> wr_request_generation r \<noteq> 0 \<and>
     wr_connection_generation r \<noteq> 0 \<and> wr_nonce r \<noteq> 0"

definition encode_playback_request :: "hmac_fn \<Rightarrow> PlaybackWireRequest \<Rightarrow> bytes \<Rightarrow> nat \<Rightarrow> bytes option" where
  "encode_playback_request hmac request key output_size =
     (if output_size \<noteq> kPlaybackRequestBytes \<or> \<not> valid_request request then None
      else
        let p0 = copy_in (replicate output_size 0) 0 (ascii ''EIPR'');
            p1 = p0[4 := kPlaybackWireVersion, 5 := wr_slot request];
            p2 = put_u32 p1 8 (wr_request_generation request);
            p3 = put_u32 p2 12 (wr_connection_generation request);
            p4 = put_u64 p3 16 (wr_nonce request)
        in sign hmac p4 key)"

definition decode_playback_request :: "hmac_fn \<Rightarrow> bytes \<Rightarrow> bytes \<Rightarrow> bool \<times> PlaybackWireRequest option" where
  "decode_playback_request hmac packet key =
     (if length packet \<noteq> kPlaybackRequestBytes \<or> \<not> magic_matches packet ''EIPR'' \<or> packet ! 4 \<noteq> kPlaybackWireVersion \<or>
         \<not> authenticate hmac packet key \<or> \<not> reserved_zero packet 6 8
      then (False, None)
      else
        let request = \<lparr>wr_slot = packet ! 5, wr_request_generation = get_u32 packet 8,
              wr_connection_generation = get_u32 packet 12, wr_nonce = get_u64 packet 16\<rparr>
        in (valid_request request, Some request))"

definition valid_begin :: "PlaybackWireBegin \<Rightarrow> bool" where
  "valid_begin b \<longleftrightarrow> playback_wire_identity_valid (wb_identity b) \<and> wb_total_bytes b \<noteq> 0 \<and>
     unat (wb_total_bytes b) \<le> kPlaybackMaximumEiadBytes \<and> wb_total_samples b \<noteq> 0 \<and>
     unat (wb_total_samples b) \<le> kPlaybackMaximumSamples \<and> wb_chunk_bytes b \<noteq> 0 \<and>
     unat (wb_chunk_bytes b) \<le> kPlaybackChunkBytes \<and> wb_request_nonce b \<noteq> 0"

definition decode_playback_begin :: "hmac_fn \<Rightarrow> bytes \<Rightarrow> bytes \<Rightarrow> bool \<times> PlaybackWireBegin option" where
  "decode_playback_begin hmac packet key =
     (if length packet \<noteq> kPlaybackBeginBytes \<or> \<not> magic_matches packet ''EIPB'' \<or> packet ! 4 \<noteq> kPlaybackWireVersion \<or>
         \<not> authenticate hmac packet key \<or> \<not> reserved_zero packet 6 8 \<or> \<not> reserved_zero packet 46 48
      then (False, None)
      else
        let b = \<lparr>wb_identity = decode_identity packet, wb_total_bytes = get_u32 packet 32,
              wb_total_samples = get_u64 packet 36, wb_chunk_bytes = get_u16 packet 44, wb_request_nonce = get_u64 packet 48\<rparr>
        in (valid_begin b, Some b))"

definition decode_playback_data ::
  "hmac_fn \<Rightarrow> gcm_fn \<Rightarrow> bytes \<Rightarrow> u64 \<Rightarrow> bytes \<Rightarrow> nat \<Rightarrow> PlaybackWireData option" where
  "decode_playback_data hmac gcm packet request_nonce key plaintext_size =
     (if request_nonce = 0 \<or> length packet < kPlaybackDataHeaderBytes + 1 + kPlaybackAuthTagBytes \<or>
         \<not> magic_matches packet ''EIPD'' \<or> packet ! 4 \<noteq> kPlaybackWireVersion \<or>
         \<not> reserved_zero packet 6 8 \<or> \<not> reserved_zero packet 38 40
      then None
      else
        let payload_length = unat (get_u16 packet 36); identity = decode_identity packet in
        if \<not> playback_wire_identity_valid identity \<or> payload_length = 0 \<or> kPlaybackChunkBytes < payload_length \<or>
           plaintext_size < payload_length \<or>
           length packet \<noteq> kPlaybackDataHeaderBytes + payload_length + kPlaybackAuthTagBytes
        then None
        else
          case derive_data_key hmac identity request_nonce key of None \<Rightarrow> None
          | Some data_key \<Rightarrow>
              (case decrypt_data_payload gcm packet payload_length data_key of None \<Rightarrow> None
               | Some plaintext \<Rightarrow>
                   Some \<lparr>wd_identity = identity, wd_offset = get_u32 packet 32, wd_payload = plaintext\<rparr>))"

definition encode_playback_ack :: "hmac_fn \<Rightarrow> PlaybackWireAck \<Rightarrow> bytes \<Rightarrow> nat \<Rightarrow> bytes option" where
  "encode_playback_ack hmac ack key output_size =
     (if output_size \<noteq> kPlaybackAckBytes \<or> \<not> playback_wire_identity_valid (wa_identity ack) \<or> 3 < wa_status ack then None
      else
        let p0 = copy_in (replicate output_size 0) 0 (ascii ''EIPA'');
            p1 = p0[4 := kPlaybackWireVersion, 5 := wi_slot (wa_identity ack), 6 := wa_status ack];
            p2 = encode_identity p1 (wa_identity ack)
        in sign hmac (put_u32 p2 32 (wa_next_offset ack)) key)"

definition encode_playback_finished :: "hmac_fn \<Rightarrow> PlaybackWireFinished \<Rightarrow> bytes \<Rightarrow> nat \<Rightarrow> bytes option" where
  "encode_playback_finished hmac finished key output_size =
     (if output_size \<noteq> kPlaybackFinishedBytes \<or> \<not> playback_wire_identity_valid (wf_identity finished) \<or>
         wf_played_samples finished = 0 then None
      else
        let p0 = copy_in (replicate output_size 0) 0 (ascii ''EIPF'');
            p1 = p0[4 := kPlaybackWireVersion, 5 := wi_slot (wf_identity finished)];
            p2 = encode_identity p1 (wf_identity finished)
        in sign hmac (put_u64 p2 32 (wf_played_samples finished)) key)"

definition decode_playback_finished_ack :: "hmac_fn \<Rightarrow> bytes \<Rightarrow> bytes \<Rightarrow> bool \<times> (PlaybackWireIdentity \<times> u8) option" where
  "decode_playback_finished_ack hmac packet key =
     (if length packet \<noteq> kPlaybackFinishedAckBytes \<or> \<not> magic_matches packet ''EIPK'' \<or> packet ! 4 \<noteq> kPlaybackWireVersion \<or>
         \<not> authenticate hmac packet key \<or> packet ! 7 \<noteq> 0
      then (False, None)
      else (playback_wire_identity_valid (decode_identity packet) \<and> packet ! 6 \<le> 1,
            Some (decode_identity packet, packet ! 6)))"

definition decode_mailbox_status :: "hmac_fn \<Rightarrow> bytes \<Rightarrow> bytes \<Rightarrow> bool \<times> MailboxWireStatus option" where
  "decode_mailbox_status hmac packet key =
     (if length packet \<noteq> kMailboxStatusBytes \<or> \<not> magic_matches packet ''EIMB'' \<or> packet ! 4 \<noteq> kMailboxStatusVersion \<or>
         \<not> authenticate hmac packet key \<or> packet ! 7 \<noteq> 0
      then (False, None)
      else
        let status = \<lparr>ms_unread_slots = packet ! 5, ms_running_tasks = packet ! 6,
              ms_heartbeat_sequence = get_u32 packet 8, ms_coverage_by_slot = take 4 (drop 12 packet)\<rparr>
        in (\<not> (ms_unread_slots status AND 0xF0 \<noteq> 0 \<or> 4 < ms_running_tasks status) \<and>
            list_all (\<lambda>i. (ms_unread_slots status AND push_bit i 1 \<noteq> 0) = (ms_coverage_by_slot status ! i \<noteq> 0)) [0..<4],
            Some status))"

end
