(* ===== verification/Playback_Wire_Facts.thy ===== *)
theory Playback_Wire_Facts
  imports Playback_Wire
begin

text \<open>
  The LAN playback packets: the byte codec is exact, a request packet that authenticates is
  the one the encoder produces for the request it decodes to, and no two (identity, nonce,
  offset) triples share a data key derivation and GCM nonce.
\<close>

unbundle bit_operations_syntax

section \<open>The byte codec\<close>

lemma put_le_Suc: "put_le (Suc n) out offset v = (put_le n out offset v)[offset + n := ucast (drop_bit (n * 8) v)]"
  by (simp add: put_le_def)

lemma length_put_le [simp]: "length (put_le n out offset v) = length out"
  by (induction n) (simp_all add: put_le_Suc, simp add: put_le_def)

lemma nth_put_le:
  "j < length out \<Longrightarrow>
   put_le n out offset v ! j = (if offset \<le> j \<and> j < offset + n then ucast (drop_bit ((j - offset) * 8) v) else out ! j)"
proof (induction n)
  case 0
  then show ?case by (auto simp: put_le_def)
next
  case (Suc n)
  then show ?case by (auto simp: put_le_Suc nth_list_update less_Suc_eq)
qed

lemma get_le_Suc: "get_le (Suc n) inp offset = get_le n inp offset OR push_bit (n * 8) (ucast (inp ! (offset + n)))"
  by (simp add: get_le_def)

lemma bit_get_le:
  fixes inp :: bytes
  shows "bit (get_le n inp offset :: 'a::len word) m \<longleftrightarrow> m < LENGTH('a) \<and> m < n * 8 \<and> bit (inp ! (offset + m div 8)) (m mod 8)"
proof (induction n)
  case 0
  then show ?case by (simp add: get_le_def)
next
  case (Suc n)
  have "m < Suc n * 8 \<and> \<not> m < n * 8 \<longleftrightarrow> n * 8 \<le> m \<and> m - n * 8 < 8" by auto
  moreover have "m div 8 = n \<and> m mod 8 = m - n * 8" if "n * 8 \<le> m" "m - n * 8 < 8"
    using that by (metis add.commute add_diff_cancel_left' add_left_cancel div_mult_mod_eq div_nat_eqI le_add_diff_inverse
        less_diff_conv2 mult.commute mult_Suc_right)
  moreover have "bit (inp ! k) i \<Longrightarrow> i < 8" for k i using bit_imp_le_length [of "inp ! k" i] by simp
  ultimately show ?case
    using Suc.IH by (auto simp: get_le_Suc bit_or_iff bit_push_bit_iff bit_ucast_iff)
qed

lemma get_put_le:
  assumes "LENGTH('a::len) = n * 8" and "offset + n \<le> length out"
  shows "get_le n (put_le n out offset v) offset = (v :: 'a word)"
proof (rule bit_word_eqI)
  fix m assume m: "m < LENGTH('a)"
  have i: "m div 8 < n" "m div 8 * 8 + m mod 8 = m" using m assms(1) by (simp_all add: less_mult_imp_div_less)
  have "bit (ucast (drop_bit (m div 8 * 8) v) :: u8) (m mod 8) = bit v m"
    using i(2) by (simp add: bit_ucast_iff bit_drop_bit_eq)
  then show "bit (get_le n (put_le n out offset v) offset :: 'a word) m = bit v m"
    using m assms by (simp add: bit_get_le nth_put_le less_mult_imp_div_less)
qed

lemma byte_get_le:
  assumes "LENGTH('a::len) = n * 8" and "i < n"
  shows "ucast (drop_bit (i * 8) (get_le n inp offset :: 'a word)) = (inp ! (offset + i) :: u8)"
proof (rule bit_word_eqI)
  fix m assume m: "m < LENGTH(8)"
  then have "(i * 8 + m) div 8 = i" "(i * 8 + m) mod 8 = m" "i * 8 + m < n * 8" using assms(2) by simp_all
  then show "bit (ucast (drop_bit (i * 8) (get_le n inp offset :: 'a word)) :: u8) m = bit (inp ! (offset + i)) m"
    using m assms by (simp add: bit_ucast_iff bit_drop_bit_eq bit_get_le)
qed

lemma get_le_cong:
  assumes "\<And>i. i < n \<Longrightarrow> xs ! (offset + i) = ys ! (offset + i)"
  shows "get_le n xs offset = (get_le n ys offset :: 'a::len word)"
  by (rule bit_word_eqI) (use assms in \<open>auto simp: bit_get_le less_mult_imp_div_less\<close>)

lemma length_copy_in [simp]: "offset + length bs \<le> length out \<Longrightarrow> length (copy_in out offset bs) = length out"
  by (simp add: copy_in_def)

section \<open>Tags\<close>

lemma xor_zero: "a XOR b = 0 \<longleftrightarrow> a = (b :: u8)"
proof
  assume "a XOR b = 0"
  then have "(a XOR b) XOR b = b" by simp
  then show "a = b" by (simp only: xor.assoc xor_self_eq xor.right_neutral)
qed simp

lemma fold_or_zero: "foldl (\<lambda>d i. d OR f i) (a :: u8) is = 0 \<longleftrightarrow> a = 0 \<and> (\<forall>i \<in> set is. f i = 0)"
  by (induction "is" arbitrary: a) (auto simp: or_eq_0_iff)

lemma authenticate_iff:
  assumes hm: "\<And>m k d. hmac m k = Some d \<Longrightarrow> length d = 32"
  shows "authenticate hmac packet key \<longleftrightarrow> 16 \<le> length packet \<and>
    (\<exists>d. hmac (take (length packet - 16) packet) key = Some d \<and> drop (length packet - 16) packet = take 16 d)"
proof -
  let ?b = "length packet - 16"
  have eq: "(\<forall>i \<in> set [0..<16]. d ! i XOR packet ! (?b + i) = 0) \<longleftrightarrow> drop ?b packet = take 16 d"
    if "length d = 32" "16 \<le> length packet" for d :: bytes
    using that by (auto simp: list_eq_iff_nth_eq xor_zero)
  show ?thesis
  proof (cases "16 \<le> length packet")
    case True
    then show ?thesis
      using hm eq [OF _ True]
      unfolding authenticate_def kPlaybackAuthTagBytes_def Let_def fold_or_zero
      by (cases "hmac (take ?b packet) key") auto
  qed (simp add: authenticate_def kPlaybackAuthTagBytes_def)
qed

lemma sign_iff:
  assumes hm: "\<And>m k d. hmac m k = Some d \<Longrightarrow> length d = 32" and len: "16 \<le> length packet"
  shows "sign hmac packet key = Some p \<longleftrightarrow>
    length p = length packet \<and> take (length p - 16) p = take (length p - 16) packet \<and> authenticate hmac p key"
proof -
  let ?b = "length packet - 16"
  have copy: "copy_in packet ?b (take 16 d) = take ?b packet @ take 16 d" if "length d = 32" for d :: bytes
    using that len by (simp add: copy_in_def)
  have "sign hmac packet key = Some p \<longleftrightarrow> (\<exists>d. hmac (take ?b packet) key = Some d \<and> p = take ?b packet @ take 16 d)"
  proof (cases "hmac (take ?b packet) key")
    case (Some d)
    have "sign hmac packet key = Some (take ?b packet @ take 16 d)"
      using len copy [OF hm [OF Some]] Some by (simp add: sign_def kPlaybackAuthTagBytes_def Let_def)
    then show ?thesis by (auto simp: Some)
  qed (use len in \<open>simp add: sign_def kPlaybackAuthTagBytes_def Let_def\<close>)
  also have "\<dots> \<longleftrightarrow> length p = length packet \<and> take ?b p = take ?b packet \<and>
      (\<exists>d. hmac (take ?b p) key = Some d \<and> drop ?b p = take 16 d)"
  proof
    assume "\<exists>d. hmac (take ?b packet) key = Some d \<and> p = take ?b packet @ take 16 d"
    then obtain d where d: "hmac (take ?b packet) key = Some d" "p = take ?b packet @ take 16 d" by blast
    moreover have "length d = 32" using hm d(1) .
    ultimately show "length p = length packet \<and> take ?b p = take ?b packet \<and>
        (\<exists>d. hmac (take ?b p) key = Some d \<and> drop ?b p = take 16 d)"
      using len by simp
  next
    assume "length p = length packet \<and> take ?b p = take ?b packet \<and>
        (\<exists>d. hmac (take ?b p) key = Some d \<and> drop ?b p = take 16 d)"
    then show "\<exists>d. hmac (take ?b packet) key = Some d \<and> p = take ?b packet @ take 16 d"
      by (metis append_take_drop_id)
  qed
  also have "\<dots> \<longleftrightarrow> length p = length packet \<and> take (length p - 16) p = take (length p - 16) packet \<and> authenticate hmac p key"
    by (rule conj_cong [OF refl], rule conj_cong) (use authenticate_iff [OF hm, where packet = p and key = key] len in simp_all)
  finally show ?thesis .
qed

section \<open>The request packet\<close>

definition request_body :: "PlaybackWireRequest \<Rightarrow> bytes" where
  "request_body r =
     put_u64 (put_u32 (put_u32 ((copy_in (replicate 40 0) 0 (ascii ''EIPR''))[4 := kPlaybackWireVersion, 5 := wr_slot r])
       8 (wr_request_generation r)) 12 (wr_connection_generation r)) 16 (wr_nonce r)"

lemma encode_request_eq:
  "encode_playback_request hmac r key n = (if n \<noteq> 40 \<or> \<not> valid_request r then None else sign hmac (request_body r) key)"
  by (simp add: encode_playback_request_def kPlaybackRequestBytes_def request_body_def Let_def)

lemma length_request_body [simp]: "length (request_body r) = 40"
  by (simp add: request_body_def put_u32_def put_u64_def ascii_def)

lemma nth_request_body:
  assumes "j < 24"
  shows "request_body r ! j =
    (if 16 \<le> j then ucast (drop_bit ((j - 16) * 8) (wr_nonce r))
     else if 12 \<le> j then ucast (drop_bit ((j - 12) * 8) (wr_connection_generation r))
     else if 8 \<le> j then ucast (drop_bit ((j - 8) * 8) (wr_request_generation r))
     else if 6 \<le> j then 0 else if j = 5 then wr_slot r else if j = 4 then kPlaybackWireVersion else ascii ''EIPR'' ! j)"
proof -
  have "copy_in (replicate 40 (0 :: u8)) 0 (ascii ''EIPR'') ! j = (if j < 4 then ascii ''EIPR'' ! j else 0)"
  proof (cases "j < 4")
    case True
    then consider "j = 0" | "j = 1" | "j = 2" | "j = 3" by linarith
    then show ?thesis by cases (simp_all add: copy_in_def ascii_def)
  qed (use assms in \<open>simp add: copy_in_def nth_append ascii_def nth_Cons'\<close>)
  then show ?thesis
    using assms by (simp add: request_body_def put_u32_def put_u64_def nth_put_le nth_list_update ascii_def)
qed

lemma list_all_2: "list_all P [6..<8] \<longleftrightarrow> P 6 \<and> P 7"
  by (simp add: upt_rec [of 6 8] upt_rec [of 7 8])

lemma magic_nth: "24 \<le> length p \<Longrightarrow> magic_matches p ''EIPR'' \<longleftrightarrow> (\<forall>j < 4. p ! j = ascii ''EIPR'' ! j)"
  by (auto simp: magic_matches_def list_eq_iff_nth_eq ascii_def)

lemma request_body_get:
  "get_u32 (request_body r) 8 = wr_request_generation r"
  "get_u32 (request_body r) 12 = wr_connection_generation r"
  "get_u64 (request_body r) 16 = wr_nonce r"
proof -
  let ?p = "(copy_in (replicate 40 0) 0 (ascii ''EIPR''))[4 := kPlaybackWireVersion, 5 := wr_slot r]"
  let ?q = "put_u32 ?p 8 (wr_request_generation r)"
  let ?s = "put_u32 ?q 12 (wr_connection_generation r)"
  have len: "length ?p = 40" by (simp add: ascii_def)
  have far: "get_le 4 (put_le n out k v) m = (get_le 4 out m :: u32)" if "m + 4 \<le> k" "m + 4 \<le> length out"
    for n out k m and v :: "'b::len word"
    using that by (intro get_le_cong) (simp add: nth_put_le)
  show "get_u32 (request_body r) 8 = wr_request_generation r"
    and "get_u32 (request_body r) 12 = wr_connection_generation r"
    and "get_u64 (request_body r) 16 = wr_nonce r"
    using len by (simp_all add: request_body_def get_u32_def get_u64_def put_u32_def put_u64_def far get_put_le)
qed

lemma body_of_decoded:
  assumes len: "length p = 40" and r: "wr_slot r = p ! 5" "wr_request_generation r = get_u32 p 8"
      "wr_connection_generation r = get_u32 p 12" "wr_nonce r = get_u64 p 16"
    and head: "magic_matches p ''EIPR''" "p ! 4 = kPlaybackWireVersion" "reserved_zero p 6 8"
  shows "take 24 p = take 24 (request_body r)"
proof (rule nth_equalityI)
  fix j assume "j < length (take 24 p)"
  then have j: "j < 24" by simp
  have "p ! j = request_body r ! j"
  proof -
    have nonce: "ucast (drop_bit ((j - 16) * 8) (wr_nonce r)) = p ! j" if "16 \<le> j"
      using byte_get_le [where 'a = 64 and n = 8 and i = "j - 16" and inp = p and offset = 16] that j r by (simp add: get_u64_def)
    have conn: "ucast (drop_bit ((j - 12) * 8) (wr_connection_generation r)) = p ! j" if "12 \<le> j" "j < 16"
      using byte_get_le [where 'a = 32 and n = 4 and i = "j - 12" and inp = p and offset = 12] that r by (simp add: get_u32_def)
    have gen: "ucast (drop_bit ((j - 8) * 8) (wr_request_generation r)) = p ! j" if "8 \<le> j" "j < 12"
      using byte_get_le [where 'a = 32 and n = 4 and i = "j - 8" and inp = p and offset = 8] that r by (simp add: get_u32_def)
    have zero: "p ! j = 0" if "6 \<le> j" "j < 8"
    proof -
      have "j = 6 \<or> j = 7" using that by auto
      then show ?thesis using head(3) by (auto simp: reserved_zero_def list_all_2)
    qed
    have magic: "p ! j = ascii ''EIPR'' ! j" if "j < 4" using head(1) that len by (simp add: magic_nth)
    show ?thesis
      unfolding nth_request_body [OF j] using nonce conn gen zero magic head(2) r(1) j
      by (cases "j < 4"; cases "j = 4"; cases "j = 5"; auto)
  qed
  then show "take 24 p ! j = take 24 (request_body r) ! j" using j by simp
qed (simp add: len)

lemma take_eq_nth: "take n p = take n q \<Longrightarrow> j < n \<Longrightarrow> p ! j = q ! j"
  by (metis nth_take)

lemma decoded_of_body:
  assumes len: "length p = 40" and body: "take 24 p = take 24 (request_body r)"
  shows "magic_matches p ''EIPR''" "p ! 4 = kPlaybackWireVersion" "reserved_zero p 6 8" "p ! 5 = wr_slot r"
    "get_u32 p 8 = wr_request_generation r" "get_u32 p 12 = wr_connection_generation r" "get_u64 p 16 = wr_nonce r"
proof -
  have eq: "p ! j = request_body r ! j" if "j < 24" for j using body that by (rule take_eq_nth)
  show "magic_matches p ''EIPR''" using len eq by (simp add: magic_nth nth_request_body)
  show "p ! 4 = kPlaybackWireVersion" "reserved_zero p 6 8" "p ! 5 = wr_slot r"
    using eq by (simp_all add: nth_request_body reserved_zero_def list_all_2)
  have "get_u32 p 8 = get_u32 (request_body r) 8" "get_u32 p 12 = get_u32 (request_body r) 12"
    "get_u64 p 16 = get_u64 (request_body r) 16"
    unfolding get_u32_def get_u64_def by (rule get_le_cong; rule eq; simp)+
  then show "get_u32 p 8 = wr_request_generation r" "get_u32 p 12 = wr_connection_generation r" "get_u64 p 16 = wr_nonce r"
    by (simp_all add: request_body_get)
qed

text \<open>
  A 40-byte packet is accepted as a request exactly when it is, byte for byte, the packet
  the encoder produces for the request it decodes to: encoding and decoding are inverse, and a
  request has no second encoding under the same key.
\<close>
lemma request_packet_canonical:
  assumes "\<And>m k d. hmac m k = Some d \<Longrightarrow> length d = 32"
  shows "encode_playback_request hmac r key n = Some p \<longleftrightarrow>
    n = 40 \<and> decode_playback_request hmac p key = (True, Some r)"
proof -
  have "encode_playback_request hmac r key n = Some p \<longleftrightarrow>
      n = 40 \<and> valid_request r \<and> length p = 40 \<and> take 24 p = take 24 (request_body r) \<and> authenticate hmac p key"
    using sign_iff [OF assms, where packet = "request_body r" and p = p and key = key]
    by (auto simp: encode_request_eq)
  also have "\<dots> \<longleftrightarrow> n = 40 \<and> decode_playback_request hmac p key = (True, Some r)"
  proof
    assume l: "n = 40 \<and> valid_request r \<and> length p = 40 \<and> take 24 p = take 24 (request_body r) \<and> authenticate hmac p key"
    then show "n = 40 \<and> decode_playback_request hmac p key = (True, Some r)"
      using decoded_of_body [of p r] by (simp add: decode_playback_request_def kPlaybackRequestBytes_def valid_request_def Let_def)
  next
    assume "n = 40 \<and> decode_playback_request hmac p key = (True, Some r)"
    then show "n = 40 \<and> valid_request r \<and> length p = 40 \<and> take 24 p = take 24 (request_body r) \<and> authenticate hmac p key"
      using body_of_decoded [of p r]
      by (auto simp: decode_playback_request_def kPlaybackRequestBytes_def Let_def split: if_splits)
  qed
  finally show ?thesis .
qed

definition sample_hmac :: hmac_fn where
  "sample_hmac m k = Some (replicate 32 (foldl (+) (foldl (+) 7 m) k))"

lemma request_packet_canonical_witness:
  "\<exists>p. encode_playback_request sample_hmac \<lparr>wr_slot = 2, wr_request_generation = 3, wr_connection_generation = 4, wr_nonce = 5\<rparr> [1] 40 = Some p \<and>
     decode_playback_request sample_hmac p [1] =
       (True, Some \<lparr>wr_slot = 2, wr_request_generation = 3, wr_connection_generation = 4, wr_nonce = 5\<rparr>)"
proof -
  let ?r = "\<lparr>wr_slot = 2, wr_request_generation = 3, wr_connection_generation = 4, wr_nonce = 5\<rparr>"
  have "encode_playback_request sample_hmac ?r [1] 40 = Some p \<longleftrightarrow>
      (40 :: nat) = 40 \<and> decode_playback_request sample_hmac p [1] = (True, Some ?r)" for p
    by (rule request_packet_canonical) (auto simp: sample_hmac_def)
  moreover have "encode_playback_request sample_hmac ?r [1] 40 \<noteq> None"
    by (simp add: encode_request_eq valid_request_def sign_def sample_hmac_def kPlaybackAuthTagBytes_def)
  ultimately show ?thesis by auto
qed

section \<open>Data keys and nonces\<close>

lemma get_far_le:
  assumes "m + n \<le> length out" "m + n \<le> k \<or> k + l \<le> m"
  shows "get_le n (put_le l out k v) m = (get_le n out m :: 'a::len word)"
  using assms by (intro get_le_cong) (auto simp: nth_put_le)

lemma key_context_fields:
  "key_context i n ! 8 = wi_slot i"
  "get_u32 (key_context i n) 12 = wi_request_generation i"
  "get_u32 (key_context i n) 16 = wi_connection_generation i"
  "get_u64 (key_context i n) 20 = wi_summary_generation i"
  "get_u64 (key_context i n) 28 = wi_lease i"
  "get_u64 (key_context i n) 36 = n"
  by (simp_all add: key_context_def get_u32_def get_u64_def put_u32_def put_u64_def get_far_le get_put_le nth_put_le ascii_def)

lemma data_nonce_offset: "get_u32 (data_nonce v) 0 = v"
  by (simp add: data_nonce_def put_u32_def get_u32_def get_put_le)

text \<open>
  The bytes a data key is derived from together with the cipher's nonce determine the whole
  identity, the request nonce and the chunk offset: two data packets are decrypted with the
  same key derivation input and nonce only when they are the same chunk of the same playback.
\<close>
lemma data_key_and_nonce_separate:
  "key_context i n = key_context i' n' \<and> data_nonce v = data_nonce v' \<longleftrightarrow> i = i' \<and> n = n' \<and> v = v'"
proof
  assume eq: "key_context i n = key_context i' n' \<and> data_nonce v = data_nonce v'"
  then have "wi_slot i = wi_slot i'" "wi_request_generation i = wi_request_generation i'"
    "wi_connection_generation i = wi_connection_generation i'" "wi_summary_generation i = wi_summary_generation i'"
    "wi_lease i = wi_lease i'" "n = n'" "v = v'"
    by (metis key_context_fields data_nonce_offset)+
  then show "i = i' \<and> n = n' \<and> v = v'" by simp
qed simp

end
