(* ===== verification/Fixed_Text_Stream.thy ===== *)
theory Fixed_Text_Stream
  imports Hid_Queue_Facts Config_Payload
begin

text \<open>
  \<^verbatim>\<open>components/keyboard/include/keyboard/ble_fixed_text_stream.h\<close>,
  \<^verbatim>\<open>src/ble_fixed_text_stream.cpp\<close> and \<^verbatim>\<open>fixed_text_protocol.h\<close>: a fixed text is cut into
  application reports that are pushed into the shared report queue as room appears.  The
  queue is the model of theory \<open>Hid_Queue\<close>; its other clients may push, pop and clear
  between any two calls.
\<close>

definition kFixedTextAppCommandReportId :: u8 where "kFixedTextAppCommandReportId = 0x11"
definition kFixedTextAppCommandKind :: u8 where "kFixedTextAppCommandKind = 0x01"
definition kFixedTextAppCommandPayloadLen :: nat where "kFixedTextAppCommandPayloadLen = 63"
definition kFixedTextAppCommandHeaderLen :: nat where "kFixedTextAppCommandHeaderLen = 4"
definition kFixedTextAppCommandChunkDataLen :: nat where
  "kFixedTextAppCommandChunkDataLen = kFixedTextAppCommandPayloadLen - kFixedTextAppCommandHeaderLen"
definition kBleFixedTextQueuedWindow :: nat where "kBleFixedTextQueuedWindow = 2"

definition fixed_text_chunk_count :: "nat \<Rightarrow> u8" where
  "fixed_text_chunk_count text_size =
     (if text_size = 0 \<or> kFixedTextMaxUtf8Bytes < text_size then 0
      else of_nat ((text_size + kFixedTextAppCommandChunkDataLen - 1) div kFixedTextAppCommandChunkDataLen))"

datatype BleFixedTextStartStatus = TextStarted | TextEmpty | TextInvalidOwner | TextTooLarge | TextBusy

record BleFixedTextPumpResult =
  pu_queued_chunks :: nat
  pu_blocked :: bool
  pu_completed :: bool
  pu_owner_changed :: bool

definition nothing_pumped :: BleFixedTextPumpResult where
  "nothing_pumped = \<lparr>pu_queued_chunks = 0, pu_blocked = False, pu_completed = False, pu_owner_changed = False\<rparr>"

record BleFixedTextStream =
  ft_text :: string
  ft_owner :: BleOwnerToken
  ft_next_chunk :: u8
  ft_total_chunks :: u8

definition fixed_text_reset :: BleFixedTextStream where
  "fixed_text_reset = \<lparr>ft_text = [], ft_owner = no_owner, ft_next_chunk = 0, ft_total_chunks = 0\<rparr>"

definition ft_pending :: "BleFixedTextStream \<Rightarrow> bool" where
  "ft_pending s \<longleftrightarrow> ft_total_chunks s \<noteq> 0"

definition ft_remaining_bytes :: "BleFixedTextStream \<Rightarrow> nat" where
  "ft_remaining_bytes s =
     (if \<not> ft_pending s then 0 else length (ft_text s) - unat (ft_next_chunk s) * kFixedTextAppCommandChunkDataLen)"

definition fixed_text_start ::
  "BleFixedTextStream \<Rightarrow> string \<Rightarrow> BleOwnerToken \<Rightarrow> BleFixedTextStartStatus \<times> BleFixedTextStream" where
  "fixed_text_start s txt owner =
     (if ft_pending s then (TextBusy, s)
      else if txt = [] then (TextEmpty, s)
      else if \<not> owner_valid owner then (TextInvalidOwner, s)
      else let chunks = fixed_text_chunk_count (length txt) in
        if chunks = 0 then (TextTooLarge, s)
        else (TextStarted, \<lparr>ft_text = txt, ft_owner = owner, ft_next_chunk = 0, ft_total_chunks = chunks\<rparr>))"

text \<open>The report of the next chunk: header, data and zero padding.\<close>

definition next_text_report :: "BleFixedTextStream \<Rightarrow> bytes" where
  "next_text_report s =
     (let offset = unat (ft_next_chunk s) * kFixedTextAppCommandChunkDataLen;
          chunk_len = min kFixedTextAppCommandChunkDataLen (length (ft_text s) - offset)
      in [kFixedTextAppCommandKind, ft_next_chunk s, ft_total_chunks s, of_nat chunk_len] @
         map of_char (take chunk_len (drop offset (ft_text s))) @
         replicate (kFixedTextAppCommandChunkDataLen - chunk_len) 0)"

function pump_loop ::
  "BleFixedTextStream \<Rightarrow> HidReportQueue \<Rightarrow> u32 \<Rightarrow> nat \<Rightarrow>
   BleFixedTextPumpResult \<times> BleFixedTextStream \<times> HidReportQueue" where
  "pump_loop s q queued_ms queued_chunks =
     (let result = nothing_pumped\<lparr>pu_queued_chunks := queued_chunks\<rparr> in
      if \<not> ft_pending s then (result, s, q)
      else if kBleFixedTextQueuedWindow \<le> hq_size q then (result\<lparr>pu_blocked := True\<rparr>, s, q)
      else
        let (pushed, q') = push_classified q kFixedTextAppCommandReportId (Some (next_text_report s))
              kFixedTextAppCommandPayloadLen queued_ms AppCommand (ft_owner s) 0
        in if \<not> push_accepted pushed then (result\<lparr>pu_blocked := True\<rparr>, s, q')
           else if ft_next_chunk s + 1 = ft_total_chunks s
           then (result\<lparr>pu_queued_chunks := queued_chunks + 1, pu_completed := True\<rparr>, fixed_text_reset, q')
           else pump_loop (s\<lparr>ft_next_chunk := ft_next_chunk s + 1\<rparr>) q' queued_ms (queued_chunks + 1))"
  by pat_completeness auto

termination
proof (relation "measure (\<lambda>(s, q, ms, n). unat (ft_total_chunks s - (ft_next_chunk s + 1)))")
  fix s :: BleFixedTextStream and n :: nat and q q' :: HidReportQueue and ms :: u32
  let ?v = "ft_total_chunks s - (ft_next_chunk s + 1)"
  assume "ft_next_chunk s + 1 \<noteq> ft_total_chunks s"
  then have "unat (?v - 1) < unat ?v" by (intro measure_unat) simp
  then show "((s\<lparr>ft_next_chunk := ft_next_chunk s + 1\<rparr>, q', ms, n + 1), s, q, ms, n)
      \<in> measure (\<lambda>(s, q, ms, n). unat (ft_total_chunks s - (ft_next_chunk s + 1)))"
    by (simp add: diff_diff_eq)
qed simp

declare pump_loop.simps [simp del]

definition fixed_text_pump ::
  "BleFixedTextStream \<Rightarrow> BleOwnerToken \<Rightarrow> HidReportQueue \<Rightarrow> u32 \<Rightarrow>
   BleFixedTextPumpResult \<times> BleFixedTextStream \<times> HidReportQueue" where
  "fixed_text_pump s current_owner q queued_ms =
     (if \<not> ft_pending s then (nothing_pumped, s, q)
      else if \<not> owner_valid current_owner \<or> current_owner \<noteq> ft_owner s
      then (nothing_pumped\<lparr>pu_owner_changed := True\<rparr>, fixed_text_reset, q)
      else pump_loop s q queued_ms 0)"

section \<open>The reports of a text\<close>

text \<open>What the receiver should see: \<open>text_reports t\<close>; how it reads them: \<open>read_text\<close>.\<close>

definition text_chunks :: "string \<Rightarrow> nat" where
  "text_chunks t = (length t + 58) div 59"

definition text_report :: "string \<Rightarrow> nat \<Rightarrow> bytes" where
  "text_report t i =
     next_text_report \<lparr>ft_text = t, ft_owner = no_owner, ft_next_chunk = of_nat i, ft_total_chunks = of_nat (text_chunks t)\<rparr>"

definition read_text :: "bytes list \<Rightarrow> string" where
  "read_text reports = concat (map (\<lambda>r. map (\<lambda>b. char_of (unat b)) (take (unat (r ! 3)) (drop 4 r))) reports)"

lemmas text_constants = kFixedTextAppCommandChunkDataLen_def kFixedTextAppCommandPayloadLen_def
  kFixedTextAppCommandHeaderLen_def kFixedTextMaxUtf8Bytes_def kBleFixedTextQueuedWindow_def

lemma text_chunks_bounds:
  assumes "t \<noteq> []" and "length t \<le> 960"
  shows "0 < text_chunks t" "text_chunks t \<le> 17" "(text_chunks t - 1) * 59 < length t" "length t \<le> text_chunks t * 59"
  using assms by (cases "length t"; auto simp: text_chunks_def)+

lemma chunk_count:
  "length t \<le> 960 \<Longrightarrow> fixed_text_chunk_count (length t) = of_nat (text_chunks t)"
  "960 < length t \<Longrightarrow> fixed_text_chunk_count (length t) = 0"
  by (auto simp: fixed_text_chunk_count_def text_constants text_chunks_def add.commute)

lemma char_of_byte [simp]: "char_of (unat (of_char c :: u8)) = c"
proof -
  have "(of_char c :: u8) = of_nat (of_char c)" by (rule of_nat_of_char [symmetric])
  then show ?thesis by (simp add: unat_of_nat del: of_nat_of_char)
qed

end
