(* ===== verification/Fixed_Text_Facts.thy ===== *)
theory Fixed_Text_Facts
  imports Fixed_Text_Stream
begin

text \<open>
  The fixed text stream over the shared report queue: a text is announced complete exactly
  when the reports queued for it, read in order, give the text back.
\<close>

section \<open>Cutting and reading\<close>

definition text_reports :: "string \<Rightarrow> bytes list" where
  "text_reports t = map (text_report t) [0..<text_chunks t]"

lemma next_text_report_eq:
  "ft_total_chunks s = of_nat (text_chunks (ft_text s)) \<Longrightarrow>
   next_text_report s = text_report (ft_text s) (unat (ft_next_chunk s))"
  by (simp add: text_report_def next_text_report_def)

lemma take_min_length: "take (min (length xs - k) n) (drop k xs) = take n (drop k xs)"
  by (simp add: min_def)

lemma text_report_bytes:
  assumes "t \<noteq> []" "length t \<le> 960" "i < text_chunks t"
  shows "text_report t i =
    [1, of_nat i, of_nat (text_chunks t), of_nat (length (take 59 (drop (i * 59) t)))] @
    map of_char (take 59 (drop (i * 59) t)) @ replicate (59 - length (take 59 (drop (i * 59) t))) 0"
proof -
  have "i < 256" using assms(3) text_chunks_bounds(2) [OF assms(1,2)] by simp
  then have "unat (of_nat i :: u8) = i" by (simp add: unat_of_nat)
  then show ?thesis
    by (simp add: text_report_def next_text_report_def text_constants kFixedTextAppCommandKind_def Let_def take_min_length min.commute)
qed

lemma length_text_report: "t \<noteq> [] \<Longrightarrow> length t \<le> 960 \<Longrightarrow> i < text_chunks t \<Longrightarrow> length (text_report t i) = 63"
  by (simp add: text_report_bytes)

lemma read_text_report:
  assumes "t \<noteq> []" "length t \<le> 960" "i < text_chunks t"
  shows "read_text [text_report t i] = take 59 (drop (i * 59) t)"
proof -
  let ?c = "take 59 (drop (i * 59) t)"
  have "unat (of_nat (length ?c) :: u8) = length ?c" by (simp add: unat_of_nat)
  then show ?thesis
    by (simp add: read_text_def text_report_bytes [OF assms] comp_def del: length_take)
qed

lemma read_text_append: "read_text (xs @ ys) = read_text xs @ read_text ys"
  by (simp add: read_text_def)

lemma read_text_prefix:
  assumes "t \<noteq> []" "length t \<le> 960" "k \<le> text_chunks t"
  shows "read_text (map (text_report t) [0..<k]) = take (k * 59) t"
  using assms(3)
proof (induction k)
  case (Suc k)
  then have "read_text (map (text_report t) [0..<Suc k]) = take (k * 59) t @ take 59 (drop (k * 59) t)"
    using read_text_report [OF assms(1,2), of k] by (simp add: read_text_append)
  also have "\<dots> = take (k * 59 + 59) t" by (rule take_add [symmetric])
  finally show ?case by (simp add: add.commute)
qed (simp add: read_text_def)

lemma read_text_reports: "t \<noteq> [] \<Longrightarrow> length t \<le> 960 \<Longrightarrow> read_text (text_reports t) = t"
  using text_chunks_bounds(4) [of t] by (simp add: text_reports_def read_text_prefix)

lemma take_text_reports: "k \<le> text_chunks t \<Longrightarrow> take k (text_reports t) = map (text_report t) [0..<k]"
  by (simp add: text_reports_def take_map)

section \<open>The pump\<close>

definition ft_ok :: "BleFixedTextStream \<Rightarrow> bool" where
  "ft_ok s \<longleftrightarrow>
     (if ft_pending s
      then ft_text s \<noteq> [] \<and> length (ft_text s) \<le> 960 \<and> owner_valid (ft_owner s) \<and>
        ft_total_chunks s = of_nat (text_chunks (ft_text s)) \<and> unat (ft_next_chunk s) < text_chunks (ft_text s)
      else s = fixed_text_reset)"

lemma ft_ok_reset [simp]: "ft_ok fixed_text_reset" "\<not> ft_pending fixed_text_reset" "ft_total_chunks fixed_text_reset = 0"
  by (simp_all add: ft_ok_def ft_pending_def fixed_text_reset_def)

definition text_item :: "BleOwnerToken \<Rightarrow> QueuedHidReport \<Rightarrow> bool" where
  "text_item owner r \<longleftrightarrow> qr_ble_owner r = owner \<and> qr_report_class r = AppCommand \<and> qr_report_id r = 0x11 \<and> qr_len r = 63"

lemma push_text:
  assumes inv: "hid_inv q" and room: "hq_size q < 2" and len: "length bs = 63"
  shows "\<exists>r q'. push_classified q 0x11 (Some bs) 63 ms AppCommand owner 0 = (\<lparr>pr_status = Queued, pr_sequence = qr_sequence r\<rparr>, q') \<and>
    hid_items q' = hid_items q @ [r] \<and> hid_inv q' \<and> qr_data r = bs \<and> text_item owner r"
proof -
  let ?r = "stored_report (hq_next_sequence q) 0x11 (Some bs) 63 ms AppCommand owner 0"
  have wf: "well_formed_push (Some bs) 63 AppCommand" by (simp add: well_formed_push_def is_keyboard_snapshot_def)
  have lim: "\<not> classified_capacity AppCommand \<le> hq_size q" "\<not> is_keyboard_snapshot AppCommand"
    using room by (simp_all add: kHidReportQueueCapacity_def kKeyboardStateSourceCount_def is_keyboard_snapshot_def)
  have push: "push_classified q 0x11 (Some bs) 63 ms AppCommand owner 0 =
      (\<lparr>pr_status = Queued, pr_sequence = hq_next_sequence q\<rparr>, hid_store q ?r)"
    unfolding push_classified_alt [OF inv] using wf lim by (simp del: classified_capacity.simps)
  have "hq_size q < length (hq_reports q)" using room hid_invD(1) [OF inv] by (simp add: kHidReportQueueCapacity_def)
  then have "hid_items (hid_store q ?r) = hid_items q @ [?r]" by (rule hid_items_store)
  moreover have "hid_inv (hid_store q ?r)"
    using push_classified_inv [OF inv] push by (metis snd_conv)
  moreover have "qr_data ?r = bs" "text_item owner ?r"
    using len by (simp_all add: stored_report_def empty_report_def kHidReportMaxPayload_def text_item_def)
  ultimately show ?thesis using push by fastforce
qed

lemma next_chunk_step:
  assumes "ft_ok s" "ft_pending s"
  shows "unat (ft_next_chunk s + 1) = Suc (unat (ft_next_chunk s))"
    "ft_next_chunk s + 1 = ft_total_chunks s \<longleftrightarrow> Suc (unat (ft_next_chunk s)) = text_chunks (ft_text s)"
proof -
  have b: "unat (ft_next_chunk s) < text_chunks (ft_text s)" "text_chunks (ft_text s) \<le> 17"
    and total: "ft_total_chunks s = of_nat (text_chunks (ft_text s))"
    using assms text_chunks_bounds(2) [of "ft_text s"] by (simp_all add: ft_ok_def)
  show suc: "unat (ft_next_chunk s + 1) = Suc (unat (ft_next_chunk s))"
    using b by (simp add: unat_word_ariths)
  have "unat (ft_total_chunks s) = text_chunks (ft_text s)" using b total by (simp add: unat_of_nat)
  then show "ft_next_chunk s + 1 = ft_total_chunks s \<longleftrightarrow> Suc (unat (ft_next_chunk s)) = text_chunks (ft_text s)"
    using suc by (metis word_unat_eq_iff)
qed

text \<open>One call of the pump: the reports it appends, and when it stops.\<close>

lemma pump_loop_spec:
  assumes "ft_ok s" "ft_pending s" "hid_inv q" "pump_loop s q ms n = (res, s', q')"
  shows "\<exists>new. hid_items q' = hid_items q @ new \<and> hid_inv q' \<and> pu_queued_chunks res = n + length new \<and>
    \<not> pu_owner_changed res \<and> list_all (text_item (ft_owner s)) new \<and> (hq_size q < 2 \<longrightarrow> new \<noteq> []) \<and>
    map qr_data new = map (text_report (ft_text s)) [unat (ft_next_chunk s)..<unat (ft_next_chunk s) + length new] \<and>
    (if unat (ft_next_chunk s) + length new = text_chunks (ft_text s)
     then pu_completed res \<and> \<not> pu_blocked res \<and> s' = fixed_text_reset
     else unat (ft_next_chunk s) + length new < text_chunks (ft_text s) \<and> \<not> pu_completed res \<and> pu_blocked res \<and>
       s' = s\<lparr>ft_next_chunk := of_nat (unat (ft_next_chunk s) + length new)\<rparr>)"
  using assms
proof (induction "text_chunks (ft_text s) - unat (ft_next_chunk s)" arbitrary: s q n rule: less_induct)
  case less
  let ?i = "unat (ft_next_chunk s)" and ?t = "ft_text s"
  note ok = less.prems(1,2)
  have i: "?i < text_chunks ?t" and t: "?t \<noteq> []" "length ?t \<le> 960" and total: "ft_total_chunks s = of_nat (text_chunks ?t)"
    using ok by (simp_all add: ft_ok_def)
  show ?case
  proof (cases "hq_size q < 2")
    case False
    then have "res = nothing_pumped\<lparr>pu_queued_chunks := n, pu_blocked := True\<rparr>" "s' = s" "q' = q"
      using less.prems(4) ok by (simp_all add: pump_loop.simps [of s] kBleFixedTextQueuedWindow_def Let_def)
    then show ?thesis using False i less.prems(3) by (intro exI [of _ "[]"]) (simp add: nothing_pumped_def)
  next
    case True
    have bs: "next_text_report s = text_report ?t ?i" using total by (rule next_text_report_eq)
    obtain r q1 where push: "push_classified q 0x11 (Some (text_report ?t ?i)) 63 ms AppCommand (ft_owner s) 0 =
        (\<lparr>pr_status = Queued, pr_sequence = qr_sequence r\<rparr>, q1)"
      and items: "hid_items q1 = hid_items q @ [r]" and inv1: "hid_inv q1" and r: "qr_data r = text_report ?t ?i" "text_item (ft_owner s) r"
      using push_text [OF less.prems(3) True length_text_report [OF t i]] by blast
    note step = next_chunk_step [OF ok]
    have code: "pump_loop s q ms n =
        (if Suc ?i = text_chunks ?t
         then (nothing_pumped\<lparr>pu_queued_chunks := n + 1, pu_completed := True\<rparr>, fixed_text_reset, q1)
         else pump_loop (s\<lparr>ft_next_chunk := ft_next_chunk s + 1\<rparr>) q1 ms (n + 1))"
      using ok True push step(2) bs
      by (simp add: pump_loop.simps [of s] kBleFixedTextQueuedWindow_def kFixedTextAppCommandReportId_def
          kFixedTextAppCommandPayloadLen_def push_accepted_def Let_def)
    show ?thesis
    proof (cases "Suc ?i = text_chunks ?t")
      case True
      then show ?thesis using code less.prems(4) items inv1 r
        by (intro exI [of _ "[r]"]) (simp add: nothing_pumped_def flip: True)
    next
      case False
      let ?s = "s\<lparr>ft_next_chunk := ft_next_chunk s + 1\<rparr>"
      have ok': "ft_ok ?s" "ft_pending ?s" using ok False step(1) i by (simp_all add: ft_ok_def ft_pending_def)
      obtain new where new: "hid_items q' = hid_items q1 @ new \<and> hid_inv q' \<and> pu_queued_chunks res = n + 1 + length new \<and>
          \<not> pu_owner_changed res \<and> list_all (text_item (ft_owner ?s)) new \<and> (hq_size q1 < 2 \<longrightarrow> new \<noteq> []) \<and>
          map qr_data new = map (text_report (ft_text ?s)) [unat (ft_next_chunk ?s)..<unat (ft_next_chunk ?s) + length new] \<and>
          (if unat (ft_next_chunk ?s) + length new = text_chunks (ft_text ?s)
           then pu_completed res \<and> \<not> pu_blocked res \<and> s' = fixed_text_reset
           else unat (ft_next_chunk ?s) + length new < text_chunks (ft_text ?s) \<and> \<not> pu_completed res \<and> pu_blocked res \<and>
             s' = ?s\<lparr>ft_next_chunk := of_nat (unat (ft_next_chunk ?s) + length new)\<rparr>)"
        using less.hyps [OF _ ok' inv1] less.prems(4) code False i step(1) by force
      then show ?thesis using items r step(1)
        by (intro exI [of _ "r # new"]) (auto simp: upt_rec [of ?i] split: if_splits)
    qed
  qed
qed

section \<open>Runs\<close>

text \<open>
  The stream and the queue together: texts are started, pumped and reset while the other
  clients of the queue push, pop and clear.  A pump answers its result and the reports it added.
\<close>

datatype TextOp = TextStart string BleOwnerToken | TextPump BleOwnerToken u32 | TextReset | TextQueue HidOp
datatype TextOut = TextAnswered BleFixedTextStartStatus | TextPumped BleFixedTextPumpResult "QueuedHidReport list" | TextQuiet

fun text_step :: "BleFixedTextStream \<times> HidReportQueue \<Rightarrow> TextOp \<Rightarrow> (BleFixedTextStream \<times> HidReportQueue) \<times> TextOut" where
  "text_step (s, q) (TextStart t owner) = (let (answer, s') = fixed_text_start s t owner in ((s', q), TextAnswered answer))"
| "text_step (s, q) (TextPump owner ms) =
     (let (res, s', q') = fixed_text_pump s owner q ms in ((s', q'), TextPumped res (drop (hq_size q) (hid_items q'))))"
| "text_step (s, q) TextReset = ((fixed_text_reset, q), TextQuiet)"
| "text_step (s, q) (TextQueue op) = ((s, fst (hid_step q op)), TextQuiet)"

text \<open>
  What a client that sees only the calls, the answers and the added reports expects:
  \<open>Sending t owner got\<close> while \<open>got\<close> of the reports of \<open>t\<close> were added.
\<close>

datatype TextGhost = NoText | Sending string BleOwnerToken "bytes list" | TextWrong

definition start_answer :: "string \<Rightarrow> BleOwnerToken \<Rightarrow> BleFixedTextStartStatus" where
  "start_answer t owner = (if t = [] then TextEmpty else if \<not> owner_valid owner then TextInvalidOwner
     else if 960 < length t then TextTooLarge else TextStarted)"

definition after_pump :: "string \<Rightarrow> BleOwnerToken \<Rightarrow> bytes list \<Rightarrow> BleFixedTextPumpResult \<Rightarrow> QueuedHidReport list \<Rightarrow> TextGhost" where
  "after_pump t owner got res new =
     (let got' = got @ map qr_data new in
      if pu_queued_chunks res = length new \<and> \<not> pu_owner_changed res \<and> list_all (text_item owner) new \<and>
         got' = take (length got') (text_reports t)
      then if read_text got' = t then (if pu_completed res \<and> \<not> pu_blocked res then NoText else TextWrong)
           else if pu_blocked res \<and> \<not> pu_completed res \<and> length got' < length (text_reports t) then Sending t owner got'
           else TextWrong
      else TextWrong)"

fun follow_text :: "TextGhost \<Rightarrow> TextOp \<times> TextOut \<Rightarrow> TextGhost" where
  "follow_text NoText (TextStart t owner, TextAnswered answer) =
     (if answer \<noteq> start_answer t owner then TextWrong
      else if answer = TextStarted then Sending t owner [] else NoText)"
| "follow_text (Sending t owner got) (TextStart t' owner', TextAnswered answer) =
     (if answer = TextBusy then Sending t owner got else TextWrong)"
| "follow_text NoText (TextPump owner' ms, TextPumped res new) =
     (if res = nothing_pumped \<and> new = [] then NoText else TextWrong)"
| "follow_text (Sending t owner got) (TextPump owner' ms, TextPumped res new) =
     (if owner' \<noteq> owner then (if new = [] \<and> pu_owner_changed res \<and> \<not> pu_completed res then NoText else TextWrong)
      else after_pump t owner got res new)"
| "follow_text TextWrong _ = TextWrong"
| "follow_text g (TextReset, out) = NoText"
| "follow_text g (TextQueue op, out) = g"
| "follow_text _ _ = TextWrong"

definition text_view :: "BleFixedTextStream \<Rightarrow> TextGhost" where
  "text_view s = (if ft_pending s
     then Sending (ft_text s) (ft_owner s) (take (unat (ft_next_chunk s)) (text_reports (ft_text s)))
     else NoText)"

definition text_inv :: "BleFixedTextStream \<times> HidReportQueue \<Rightarrow> bool" where
  "text_inv x \<longleftrightarrow> ft_ok (fst x) \<and> hid_inv (snd x)"

lemma text_start:
  assumes "ft_ok s" "fixed_text_start s t owner = (answer, s')"
  shows "ft_ok s'" "follow_text (text_view s) (TextStart t owner, TextAnswered answer) = text_view s'"
proof -
  let ?new = "\<lparr>ft_text = t, ft_owner = owner, ft_next_chunk = 0, ft_total_chunks = fixed_text_chunk_count (length t)\<rparr>"
  have new: "ft_pending ?new \<and> ft_ok ?new" if "t \<noteq> []" "length t \<le> 960" "owner_valid owner"
  proof -
    note b = text_chunks_bounds [OF that(1,2)]
    have "unat (of_nat (text_chunks t) :: u8) = text_chunks t" using b by (simp add: unat_of_nat)
    then have "(of_nat (text_chunks t) :: u8) \<noteq> 0" using b by (metis unat_0 less_irrefl)
    then show ?thesis using that b by (simp add: ft_ok_def ft_pending_def chunk_count)
  qed
  have z: "fixed_text_chunk_count (length t) = 0 \<longleftrightarrow> t = [] \<or> 960 < length t" if "owner_valid owner"
    using new that by (cases "t = []"; cases "960 < length t"; simp add: ft_pending_def chunk_count)
      (simp add: fixed_text_chunk_count_def)
  show "ft_ok s'" using assms new z by (auto simp: fixed_text_start_def Let_def split: if_splits)
  show "follow_text (text_view s) (TextStart t owner, TextAnswered answer) = text_view s'"
    using assms new z by (auto simp: fixed_text_start_def text_view_def start_answer_def Let_def split: if_splits)
qed

lemma text_pump:
  assumes ok: "ft_ok s" and inv: "hid_inv q" and code: "fixed_text_pump s owner q ms = (res, s', q')"
  shows "ft_ok s' \<and> hid_inv q' \<and>
    follow_text (text_view s) (TextPump owner ms, TextPumped res (drop (hq_size q) (hid_items q'))) = text_view s'"
proof (cases "ft_pending s \<and> owner = ft_owner s")
  case False
  then show ?thesis
    using assms by (auto simp: fixed_text_pump_def text_view_def nothing_pumped_def split: if_splits)
next
  case True
  let ?t = "ft_text s" and ?i = "unat (ft_next_chunk s)"
  have i: "?i < text_chunks ?t" and t: "?t \<noteq> []" "length ?t \<le> 960" and valid: "owner_valid (ft_owner s)"
    using ok True by (simp_all add: ft_ok_def)
  have loop: "pump_loop s q ms 0 = (res, s', q')" using code True valid by (simp add: fixed_text_pump_def)
  obtain new where items: "hid_items q' = hid_items q @ new" and inv': "hid_inv q'"
    and res: "pu_queued_chunks res = 0 + length new" "\<not> pu_owner_changed res" "list_all (text_item (ft_owner s)) new"
    and data: "map qr_data new = map (text_report ?t) [?i..<?i + length new]"
    and stop: "if ?i + length new = text_chunks ?t
     then pu_completed res \<and> \<not> pu_blocked res \<and> s' = fixed_text_reset
     else ?i + length new < text_chunks ?t \<and> \<not> pu_completed res \<and> pu_blocked res \<and>
       s' = s\<lparr>ft_next_chunk := of_nat (?i + length new)\<rparr>"
    using pump_loop_spec [OF ok _ inv loop] True by blast
  let ?k = "?i + length new"
  have k: "?k \<le> text_chunks ?t" using stop by (auto split: if_splits)
  have got: "take ?i (text_reports ?t) @ map qr_data new = take ?k (text_reports ?t)"
    using k data upt_add_eq_append [of 0 ?i "length new"] by (simp add: take_text_reports)
  have "read_text (take ?k (text_reports ?t)) = ?t \<longleftrightarrow> ?k = text_chunks ?t"
  proof -
    have "read_text (take ?k (text_reports ?t)) = take (?k * 59) ?t"
      using k by (simp add: take_text_reports read_text_prefix t)
    moreover have "length ?t \<le> ?k * 59 \<longleftrightarrow> ?k = text_chunks ?t"
    proof (cases "?k = text_chunks ?t")
      case False
      then have "?k * 59 < length ?t" using k text_chunks_bounds(3) [OF t] by simp
      then show ?thesis using False by simp
    qed (use text_chunks_bounds(4) [OF t] in simp)
    ultimately show ?thesis by (simp add: take_all_iff)
  qed
  moreover have small: "unat (ft_next_chunk s + of_nat (length new)) = ?k" if "?k < text_chunks ?t"
    using that text_chunks_bounds(2) [OF t] by (simp add: unat_word_ariths unat_of_nat)
  moreover have "ft_ok s'" if "?k < text_chunks ?t"
    using that stop ok True small by (auto simp: ft_ok_def ft_pending_def)
  moreover have "length (take ?k (text_reports ?t)) = ?k" "length (text_reports ?t) = text_chunks ?t"
    using k by (simp_all add: text_reports_def)
  ultimately show ?thesis
    using True items inv' res stop got
    by (auto simp: text_view_def after_pump_def Let_def ft_pending_def split: if_splits)
qed

lemma text_step_follow:
  assumes inv: "text_inv (s, q)" and code: "text_step (s, q) op = (x', out)"
  shows "text_inv x' \<and> follow_text (text_view s) (op, out) = text_view (fst x')"
proof -
  have ok: "ft_ok s" "hid_inv q" using inv by (simp_all add: text_inv_def)
  show ?thesis
  proof (cases op)
    case (TextStart t owner)
    obtain answer s' where st: "fixed_text_start s t owner = (answer, s')" by fastforce
    then show ?thesis using code TextStart text_start [OF ok(1) st] ok by (auto simp: text_inv_def)
  next
    case (TextPump owner ms)
    obtain res s' q' where pu: "fixed_text_pump s owner q ms = (res, s', q')" by (metis prod_cases3)
    then show ?thesis using code TextPump text_pump [OF ok pu] by (auto simp: text_inv_def)
  next
    case TextReset
    then show ?thesis using code ok by (auto simp: text_inv_def text_view_def)
  next
    case (TextQueue hop)
    then show ?thesis using code ok hid_inv_step [OF ok(2)] by (auto simp: text_inv_def text_view_def)
  qed
qed

interpretation text_run: ghost_machine text_step "(fixed_text_reset, init_hid_queue)" text_inv follow_text NoText
  "\<lambda>x g. g = text_view (fst x)"
proof unfold_locales
  show "text_inv (fixed_text_reset, init_hid_queue)" by (simp add: text_inv_def hid_inv_init)
  show "NoText = text_view (fst (fixed_text_reset, init_hid_queue))" by (simp add: text_view_def)
  fix x :: "BleFixedTextStream \<times> HidReportQueue" and op x' out g
  assume inv: "text_inv x"
  show "text_inv (fst (text_step x op))"
    using text_step_follow [of "fst x" "snd x" op "fst (text_step x op)" "snd (text_step x op)"] inv by simp
  show "follow_text g (op, out) = text_view (fst x')" if "g = text_view (fst x)" "text_step x op = (x', out)"
    using text_step_follow [of "fst x" "snd x" op x' out] inv that by simp
qed

text \<open>
  C30: over any sequence of starts, pumps and resets, whatever the other clients of the queue do
  in between, the reports added for a text are a prefix of its reports in order, all under the
  owner it was started for; the stream announces completion exactly when the reports it added
  read back as the whole text, is blocked otherwise, and ends on a change of owner.
\<close>
theorem fixed_text_arrives_whole:
  "foldl follow_text NoText (run_log text_step (fixed_text_reset, init_hid_queue) ops) =
     text_view (fst (run (\<lambda>x op. fst (text_step x op)) (fixed_text_reset, init_hid_queue) ops))"
  by (rule text_run.rel_reachable)

end
