(* ===== verification/Gatt_Facts.thy ===== *)
theory Gatt_Facts
  imports Gatt_Snapshot
begin

text \<open>
  The snapshot cache refines a least-recently-started list: the slots in use, ordered by their
  start numbers, are the readers of the reference.
\<close>

definition snapshot_entry :: "GattSnapshot \<Rightarrow> u16 \<times> bytes" where
  "snapshot_entry s = (gs_conn_handle s, take (gs_len s) (gs_value s))"

text \<open>\<open>is\<close> lists the slots in use, the one that started last first; \<open>newest\<close> is the last number given out.\<close>

definition seated :: "GattSnapshot list \<Rightarrow> nat list \<Rightarrow> u32 \<Rightarrow> bool" where
  "seated ss is newest \<longleftrightarrow> distinct is \<and> set is = {i. i < length ss \<and> gs_valid (ss ! i)} \<and>
     distinct (map (\<lambda>i. gs_conn_handle (ss ! i)) is) \<and>
     sorted_wrt (\<lambda>i j. gs_last_start_sequence (ss ! j) < gs_last_start_sequence (ss ! i)) is \<and>
     (\<forall>i \<in> set is. gs_last_start_sequence (ss ! i) \<le> newest \<and> gs_len (ss ! i) \<le> length (gs_value (ss ! i)))"

definition readers_of :: "GattSnapshot list \<Rightarrow> nat list \<Rightarrow> (u16 \<times> bytes) list" where
  "readers_of ss is = map (\<lambda>i. snapshot_entry (ss ! i)) is"

lemma readers_update: "i \<notin> set is \<Longrightarrow> readers_of (ss[i := s]) is = readers_of ss is"
  unfolding readers_of_def by (rule map_cong [OF refl]) (metis nth_list_update_neq)

lemma length_seated: "seated ss is newest \<Longrightarrow> length is \<le> length ss"
proof -
  assume "seated ss is newest"
  then have "distinct is" "set is \<subseteq> {..<length ss}" by (auto simp: seated_def)
  then show "length is \<le> length ss"
    using card_mono [of "{..<length ss}" "set is"] by (simp add: distinct_card)
qed

lemma seat_front:
  assumes seat: "seated ss is newest" and i: "i < length ss" and later: "newest < newest'"
    and s: "gs_valid s" "gs_last_start_sequence s = newest'" "gs_len s \<le> length (gs_value s)"
    and fresh: "gs_conn_handle s \<notin> (\<lambda>j. gs_conn_handle (ss ! j)) ` (set is - {i})"
  shows "seated (ss[i := s]) (i # filter (\<lambda>j. j \<noteq> i) is) newest'"
proof -
  let ?js = "filter (\<lambda>j. j \<noteq> i) is"
  have at: "ss[i := s] ! j = ss ! j" if "j \<in> set ?js" for j using that by auto
  have "distinct (map (\<lambda>j. gs_conn_handle (ss[i := s] ! j)) ?js)"
    using seat at by (auto simp: seated_def distinct_map inj_on_def)
  moreover have "sorted_wrt (\<lambda>j k. gs_last_start_sequence (ss[i := s] ! k) < gs_last_start_sequence (ss[i := s] ! j)) ?js"
  proof (rule sorted_wrt_mono_rel)
    show "sorted_wrt (\<lambda>j k. gs_last_start_sequence (ss ! k) < gs_last_start_sequence (ss ! j)) ?js"
      using seat by (simp add: seated_def sorted_wrt_filter)
  qed (use at in auto)
  moreover have "gs_last_start_sequence (ss ! j) < newest'" if "j \<in> set ?js" for j
    using seat that later by (auto simp: seated_def intro: le_less_trans)
  ultimately show ?thesis
    using seat i s fresh by (auto simp: seated_def nth_list_update less_imp_le)
qed

lemma unseat:
  assumes seat: "seated ss is newest" and s: "\<not> gs_valid s"
  shows "seated (ss[i := s]) (filter (\<lambda>j. j \<noteq> i) is) newest"
proof -
  let ?js = "filter (\<lambda>j. j \<noteq> i) is"
  have at: "ss[i := s] ! j = ss ! j" if "j \<in> set ?js" for j using that by auto
  have "distinct (map (\<lambda>j. gs_conn_handle (ss[i := s] ! j)) ?js)"
    using seat at by (auto simp: seated_def distinct_map inj_on_def)
  moreover have "sorted_wrt (\<lambda>j k. gs_last_start_sequence (ss[i := s] ! k) < gs_last_start_sequence (ss[i := s] ! j)) ?js"
  proof (rule sorted_wrt_mono_rel)
    show "sorted_wrt (\<lambda>j k. gs_last_start_sequence (ss ! k) < gs_last_start_sequence (ss ! j)) ?js"
      using seat by (simp add: seated_def sorted_wrt_filter)
  qed (use at in auto)
  moreover have "set ?js = {j. j < length (ss[i := s]) \<and> gs_valid (ss[i := s] ! j)}"
    using seat s by (auto simp: seated_def) (metis nth_list_update_eq nth_list_update_neq)+
  moreover have "\<forall>j \<in> set ?js. gs_last_start_sequence (ss[i := s] ! j) \<le> newest \<and> gs_len (ss[i := s] ! j) \<le> length (gs_value (ss[i := s] ! j))"
    using seat at unfolding seated_def by (metis (no_types, lifting) filter_is_subset subsetD)
  moreover have "distinct ?js" using seat by (simp add: seated_def)
  ultimately show ?thesis unfolding seated_def by blast
qed

section \<open>Finding and choosing a slot\<close>

lemma gatt_find_Some: "gatt_find ss conn = Some i \<Longrightarrow> i < length ss \<and> gs_valid (ss ! i) \<and> gs_conn_handle (ss ! i) = conn"
  by (induction ss arbitrary: i) (auto split: if_splits)

lemma gatt_find_None: "gatt_find ss conn = None \<Longrightarrow> i < length ss \<Longrightarrow> gs_valid (ss ! i) \<Longrightarrow> gs_conn_handle (ss ! i) \<noteq> conn"
proof (induction ss arbitrary: i)
  case (Cons s ss)
  then show ?case by (cases i) (auto split: if_splits)
qed simp

lemma find_reader:
  assumes seat: "seated ss is newest"
  shows "map_of (readers_of ss is) conn = map_option (\<lambda>i. snd (snapshot_entry (ss ! i))) (gatt_find ss conn)"
proof (cases "gatt_find ss conn")
  case None
  then have "conn \<notin> fst ` set (readers_of ss is)"
    using gatt_find_None [OF None] seat by (fastforce simp: readers_of_def seated_def snapshot_entry_def)
  then show ?thesis using None by (simp add: map_of_eq_None_iff)
next
  case (Some i)
  have "distinct (map fst (readers_of ss is))"
    using seat by (simp add: seated_def readers_of_def snapshot_entry_def comp_def)
  moreover have "snapshot_entry (ss ! i) \<in> set (readers_of ss is)"
    using gatt_find_Some [OF Some] seat by (auto simp: readers_of_def seated_def)
  then have "(conn, snd (snapshot_entry (ss ! i))) \<in> set (readers_of ss is)"
    using gatt_find_Some [OF Some] by (simp add: snapshot_entry_def)
  ultimately show ?thesis using Some by simp
qed

lemma drop_found:
  assumes seat: "seated ss is newest" and found: "gatt_find ss conn = Some i"
  shows "drop_reader conn (readers_of ss is) = readers_of ss (filter (\<lambda>j. j \<noteq> i) is)"
proof -
  have i: "i \<in> set is" "gs_conn_handle (ss ! i) = conn"
    using gatt_find_Some [OF found] seat by (auto simp: seated_def)
  have "gs_conn_handle (ss ! j) = conn \<longleftrightarrow> j = i" if "j \<in> set is" for j
    using that i seat by (auto simp: seated_def distinct_map inj_on_def)
  then show ?thesis
    by (simp add: drop_reader_def readers_of_def snapshot_entry_def filter_map comp_def cong: filter_cong)
qed

lemma drop_absent:
  assumes "seated ss is newest" "gatt_find ss conn = None"
  shows "drop_reader conn (readers_of ss is) = readers_of ss is"
  using gatt_find_None [OF assms(2)] assms(1)
  by (auto simp: drop_reader_def readers_of_def snapshot_entry_def seated_def filter_id_conv)

lemma gatt_select_spec:
  assumes "i + length rest = length ss" "rest = drop i ss" "sel < length ss" "\<forall>j < i. gs_valid (ss ! j)"
    and "\<forall>j < i. gs_last_start_sequence (ss ! sel) \<le> gs_last_start_sequence (ss ! j)"
  shows "gatt_select ss sel i rest < length ss \<and>
    (if \<forall>j < length ss. gs_valid (ss ! j)
     then \<forall>j < length ss. gs_last_start_sequence (ss ! gatt_select ss sel i rest) \<le> gs_last_start_sequence (ss ! j)
     else \<not> gs_valid (ss ! gatt_select ss sel i rest))"
  using assms
proof (induction rest arbitrary: i sel)
  case Nil
  then show ?case by simp
next
  case (Cons s rest)
  have s: "s = ss ! i" "rest = drop (Suc i) ss" "i < length ss"
    using Cons.prems(1,2) by (metis nth_via_drop, metis drop_Suc list.sel(3) tl_drop, metis drop_all list.distinct(1) not_less)
  show ?case
  proof (cases "gs_valid s")
    case True
    let ?sel = "if gs_last_start_sequence s < gs_last_start_sequence (ss ! sel) then i else sel"
    have valid: "\<forall>j < Suc i. gs_valid (ss ! j)" using Cons.prems(4) True s(1) less_Suc_eq by auto
    have least: "\<forall>j < Suc i. gs_last_start_sequence (ss ! ?sel) \<le> gs_last_start_sequence (ss ! j)"
      using Cons.prems(5) s(1) by (auto simp: less_Suc_eq not_less intro: order_trans less_imp_le)
    have "Suc i + length rest = length ss" "?sel < length ss" using Cons.prems(1,3) s(3) by auto
    note IH = Cons.IH [OF this(1) s(2) this(2) valid least]
    have code: "gatt_select ss sel i (s # rest) = gatt_select ss ?sel (Suc i) rest" using True by simp
    show ?thesis unfolding code by (rule IH)
  next
    case False
    then show ?thesis using s by auto
  qed
qed

lemma allocate_slot:
  assumes seat: "seated ss is newest" and ne: "ss \<noteq> []"
  defines "i \<equiv> gatt_select ss 0 0 ss"
  shows "i < length ss" "take (length ss) (x # readers_of ss is) = x # readers_of ss (filter (\<lambda>j. j \<noteq> i) is)"
proof -
  have spec: "i < length ss" "if \<forall>j < length ss. gs_valid (ss ! j)
     then \<forall>j < length ss. gs_last_start_sequence (ss ! i) \<le> gs_last_start_sequence (ss ! j)
     else \<not> gs_valid (ss ! i)"
    using gatt_select_spec [of 0 ss ss 0] ne by (simp_all add: i_def)
  show "i < length ss" by (rule spec(1))
  have set: "set is = {i. i < length ss \<and> gs_valid (ss ! i)}" and dist: "distinct is"
    using seat by (simp_all add: seated_def)
  show "take (length ss) (x # readers_of ss is) = x # readers_of ss (filter (\<lambda>j. j \<noteq> i) is)"
  proof (cases "\<forall>j < length ss. gs_valid (ss ! j)")
    case False
    then have "i \<notin> set is" using spec set by auto
    then have "filter (\<lambda>j. j \<noteq> i) is = is" by (auto simp: filter_id_conv)
    moreover have "length is < length ss"
    proof -
      have "set is \<subset> {..<length ss}" using False set by auto
      then show ?thesis using psubset_card_mono [of "{..<length ss}" "set is"] dist by (simp add: distinct_card)
    qed
    ultimately show ?thesis by (simp add: readers_of_def)
  next
    case True
    then have full: "set is = {..<length ss}" using set by auto
    then have len: "length is = length ss" using dist by (metis card_lessThan distinct_card)
    then have nonempty: "is \<noteq> []" using ne by auto
    then obtain js k where split: "is = js @ [k]" by (metis append_butlast_last_id)
    have "i \<in> set is" "k < length ss" using spec(1) full split by auto
    then have "i = k"
      using seat spec(2) True split by (auto simp: seated_def sorted_wrt_append not_less [symmetric])
    then have "filter (\<lambda>j. j \<noteq> i) is = js" using dist split by (auto simp: filter_id_conv)
    moreover have "length ss = Suc (length js)" using split len by simp
    ultimately show ?thesis using split by (simp add: readers_of_def)
  qed
qed

section \<open>The reference\<close>

definition gatt_rel :: "nat \<Rightarrow> nat \<Rightarrow> GattStatusSnapshotCache \<Rightarrow> gatt_ref \<Rightarrow> bool" where
  "gatt_rel max_readers max_len c r \<longleftrightarrow> length (gc_snapshots c) = max_readers \<and>
     length (gc_published_value c) = max_len + 1 \<and> gc_published_len c \<le> max_len \<and>
     fst r = take (gc_published_len c) (gc_published_value c) \<and>
     (\<exists>is. seated (gc_snapshots c) is (gc_start_sequence c) \<and> snd r = readers_of (gc_snapshots c) is)"

lemma copy_value_fitting: "len \<le> length v \<Longrightarrow> gatt_copy_value v len cap = fitting (take len v) cap"
  by (simp add: gatt_copy_value_def fitting_def)

lemma publish_rel:
  assumes "gatt_rel R M c (p, rs)" and "gatt_publish M c v = (ok, c')"
  shows "ok = (length v \<le> M) \<and> gatt_rel R M c' (if length v \<le> M then v else p, rs)"
  using assms by (auto simp: gatt_publish_def gatt_rel_def not_le[symmetric] take_update_cancel split: if_splits)

lemma read_start_rel:
  assumes rel: "gatt_rel R M c (p, rs)" and R: "0 < R" and small: "gc_start_sequence c + 1 \<noteq> 0"
    and code: "copy_for_remote_read M c conn 0 cap = (v, c')"
  shows "v = fitting p cap \<and> gatt_rel R M c' (p, take R ((conn, p) # drop_reader conn rs)) \<and>
    gc_start_sequence c' = gc_start_sequence c + 1"
proof -
  let ?ss = "gc_snapshots c" and ?n = "gc_start_sequence c + 1"
  obtain "is" where seat: "seated ?ss is (gc_start_sequence c)" and rs: "rs = readers_of ?ss is"
    using rel by (auto simp: gatt_rel_def)
  have len: "length ?ss = R" "length (gc_published_value c) = M + 1" "gc_published_len c \<le> M"
    "p = take (gc_published_len c) (gc_published_value c)"
    using rel by (auto simp: gatt_rel_def)
  let ?i = "case gatt_find ?ss conn of Some i \<Rightarrow> i | None \<Rightarrow> gatt_select ?ss 0 0 ?ss"
  let ?old = "case gatt_find ?ss conn of Some i \<Rightarrow> ?ss ! i | None \<Rightarrow> (empty_snapshot M)\<lparr>gs_valid := True, gs_conn_handle := conn\<rparr>"
  let ?s = "?old\<lparr>gs_value := gc_published_value c, gs_len := gc_published_len c, gs_last_start_sequence := ?n\<rparr>"
  have slot: "?i < R \<and> take R ((conn, p) # drop_reader conn rs) = (conn, p) # readers_of ?ss (filter (\<lambda>j. j \<noteq> ?i) is)"
  proof (cases "gatt_find ?ss conn")
    case None
    then show ?thesis
      using allocate_slot(1) [OF seat] allocate_slot(2) [OF seat, of "(conn, p)"] drop_absent [OF seat None] len(1) R by (auto simp: rs)
  next
    case (Some i)
    have "length (filter (\<lambda>j. j \<noteq> i) is) < length is"
      using gatt_find_Some [OF Some] seat by (intro length_filter_less [of i]) (auto simp: seated_def)
    then have "length (filter (\<lambda>j. j \<noteq> i) is) < R" using length_seated [OF seat] len(1) by simp
    then show ?thesis
      using gatt_find_Some [OF Some] drop_found [OF seat Some] len(1) by (simp add: rs Some readers_of_def take_Cons')
  qed
  have c': "c' = c\<lparr>gc_snapshots := ?ss[?i := ?s], gc_start_sequence := ?n\<rparr> \<and> v = gatt_copy_value (gs_value ?s) (gs_len ?s) cap"
    using code slot small len(1)
    by (auto simp: copy_for_remote_read_def gatt_allocate_def gatt_next_sequence_def Let_def split: option.splits)
  have s: "gs_valid ?s" "gs_conn_handle ?s = conn" "snapshot_entry ?s = (conn, p)"
    using gatt_find_Some [of ?ss conn] len(4) by (auto simp: snapshot_entry_def split: option.splits)
  have "gs_conn_handle ?s \<notin> (\<lambda>j. gs_conn_handle (?ss ! j)) ` (set is - {?i})"
  proof -
    have "fst ` set (readers_of ?ss (filter (\<lambda>j. j \<noteq> ?i) is)) \<subseteq> fst ` set (drop_reader conn rs)"
    proof -
      have "set (readers_of ?ss (filter (\<lambda>j. j \<noteq> ?i) is)) \<subseteq> set (drop_reader conn rs)"
        using slot by (cases R) (simp_all, metis set_take_subset)
      then show ?thesis by blast
    qed
    then have "conn \<notin> fst ` set (readers_of ?ss (filter (\<lambda>j. j \<noteq> ?i) is))" by (auto simp: drop_reader_def)
    then show ?thesis unfolding s(2) by (force simp: readers_of_def snapshot_entry_def)
  qed
  then have "seated (?ss[?i := ?s]) (?i # filter (\<lambda>j. j \<noteq> ?i) is) ?n"
    using slot len small s(1) measure_unat [OF small] by (intro seat_front [OF seat]) (auto simp: word_less_nat_alt)
  moreover have "readers_of (?ss[?i := ?s]) (?i # filter (\<lambda>j. j \<noteq> ?i) is) = (conn, p) # readers_of ?ss (filter (\<lambda>j. j \<noteq> ?i) is)"
    using slot len(1) s(3) readers_update [of ?i "filter (\<lambda>j. j \<noteq> ?i) is" ?ss ?s] by (simp add: readers_of_def)
  ultimately show ?thesis
    using c' slot len by (auto simp: gatt_rel_def copy_value_fitting)
qed

lemma read_rest_rel:
  assumes rel: "gatt_rel R M c (p, rs)" and code: "copy_for_remote_read M c conn offset cap = (v, c')" and "offset \<noteq> 0"
  shows "v = Option.bind (map_of rs conn) (\<lambda>v. fitting v cap) \<and> c' = c"
proof -
  obtain "is" where seat: "seated (gc_snapshots c) is (gc_start_sequence c)" and rs: "rs = readers_of (gc_snapshots c) is"
    using rel by (auto simp: gatt_rel_def)
  have "gs_len (gc_snapshots c ! i) \<le> length (gs_value (gc_snapshots c ! i))" if "gatt_find (gc_snapshots c) conn = Some i" for i
    using gatt_find_Some [OF that] seat by (auto simp: seated_def)
  then show ?thesis
    using assms(2,3) find_reader [OF seat, of conn]
    by (auto simp: copy_for_remote_read_def rs snapshot_entry_def copy_value_fitting split: option.splits)
qed

lemma forget_rel:
  assumes rel: "gatt_rel R M c (p, rs)"
  shows "gatt_rel R M (gatt_forget M c conn) (p, drop_reader conn rs) \<and>
    gc_start_sequence (gatt_forget M c conn) = gc_start_sequence c"
proof -
  let ?ss = "gc_snapshots c"
  obtain "is" where seat: "seated ?ss is (gc_start_sequence c)" and rs: "rs = readers_of ?ss is"
    using rel by (auto simp: gatt_rel_def)
  show ?thesis
  proof (cases "gatt_find ?ss conn")
    case None
    then show ?thesis using rel drop_absent [OF seat None] by (simp add: gatt_forget_def rs)
  next
    case (Some i)
    have "seated (?ss[i := empty_snapshot M]) (filter (\<lambda>j. j \<noteq> i) is) (gc_start_sequence c)"
      by (rule unseat [OF seat]) (simp add: empty_snapshot_def)
    moreover have "readers_of (?ss[i := empty_snapshot M]) (filter (\<lambda>j. j \<noteq> i) is) = drop_reader conn rs"
      by (simp add: readers_update drop_found [OF seat Some] rs)
    ultimately show ?thesis using rel Some by (auto simp: gatt_forget_def gatt_rel_def)
  qed
qed

lemma clear_rel:
  assumes "gatt_rel R M c (p, rs)"
  shows "gatt_rel R M (gatt_clear_snapshots M c) (p, [])"
proof -
  have "seated (replicate (length (gc_snapshots c)) (empty_snapshot M)) [] n" for n
    by (auto simp: seated_def empty_snapshot_def)
  then show ?thesis using assms by (fastforce simp: gatt_rel_def gatt_clear_snapshots_def readers_of_def)
qed

lemma gatt_step_rel:
  assumes rel: "gatt_rel R M c r" and R: "0 < R" and small: "unat (gc_start_sequence c) + 1 < 2 ^ 32"
    and code: "gatt_step M c op = (c', out)"
  shows "snd (gatt_ref_step R M r op) = out \<and> gatt_rel R M c' (fst (gatt_ref_step R M r op)) \<and>
    unat (gc_start_sequence c') \<le> unat (gc_start_sequence c) + 1"
proof -
  obtain p rs where r: "r = (p, rs)" by (cases r)
  have pub: "p = take (gc_published_len c) (gc_published_value c)" "gc_published_len c \<le> length (gc_published_value c)"
    using rel by (auto simp: gatt_rel_def r)
  have n: "gc_start_sequence c + 1 \<noteq> 0" "unat (gc_start_sequence c + 1) = unat (gc_start_sequence c) + 1"
  proof -
    show "unat (gc_start_sequence c + 1) = unat (gc_start_sequence c) + 1" using small by (simp add: unat_word_ariths)
    then show "gc_start_sequence c + 1 \<noteq> 0" by (metis add_is_0 unat_0 zero_neq_one)
  qed
  show ?thesis
  proof (cases op)
    case (GattPublish v)
    obtain ok c1 where pb: "gatt_publish M c v = (ok, c1)" by fastforce
    have "gc_start_sequence c1 = gc_start_sequence c" using pb by (auto simp: gatt_publish_def split: if_splits)
    then show ?thesis using publish_rel [of R M c p rs v ok c1] pb code rel GattPublish r by (auto split: if_splits)
  next
    case (GattRead conn offset cap)
    obtain v c1 where rd: "copy_for_remote_read M c conn offset cap = (v, c1)" by fastforce
    show ?thesis
    proof (cases "offset = 0")
      case True
      then show ?thesis
        using read_start_rel [OF rel [unfolded r] R n(1), of conn cap v c1] rd code GattRead r n(2) by auto
    next
      case False
      then show ?thesis using read_rest_rel [OF rel [unfolded r] rd] code rd rel GattRead r by auto
    qed
  next
    case (GattForget conn)
    then show ?thesis using forget_rel [OF rel [unfolded r], of conn] code r by auto
  next
    case GattClear
    then show ?thesis using clear_rel [OF rel [unfolded r]] code r by (auto simp: gatt_clear_snapshots_def)
  next
    case (GattCopy cap)
    then show ?thesis using code rel r pub by (auto simp: copy_published_def copy_value_fitting)
  qed
qed

lemma gatt_run_rel:
  assumes "gatt_rel R M c r" "0 < R" "unat (gc_start_sequence c) + length ops < 2 ^ 32"
  shows "run_log (gatt_step M) c ops = run_log (gatt_ref_step R M) r ops"
  using assms(1,3)
proof (induction ops arbitrary: c r)
  case (Cons op ops)
  obtain c' out where st: "gatt_step M c op = (c', out)" by fastforce
  note step = gatt_step_rel [OF Cons.prems(1) assms(2) _ st]
  have "unat (gc_start_sequence c) + 1 < 2 ^ 32" using Cons.prems(2) by simp
  then show ?case
    using step Cons.IH [of c' "fst (gatt_ref_step R M r op)"] Cons.prems(2) st by (simp add: case_prod_beta Let_def)
qed simp

lemma gatt_rel_init: "gatt_rel R M (init_gatt_cache R M) (gatt_ref_init M)"
proof -
  have "seated (replicate R (empty_snapshot M)) [] 0" by (auto simp: seated_def empty_snapshot_def)
  then show ?thesis
    by (auto simp: gatt_rel_def init_gatt_cache_def gatt_publish_def gatt_ref_init_def readers_of_def)
qed

text \<open>
  C31: over any sequence of fewer than \<open>2 ^ 32\<close> calls the cache answers like a list of the readers
  that started last: a long read sees from its first to its last part the one value published
  when it started, never a mixture, and a reader loses its value only by being forgotten or
  when all places went to readers that started later.
\<close>
theorem gatt_cache_is_recent_list:
  assumes "0 < max_readers" and "length ops < 2 ^ 32"
  shows "run_log (gatt_step max_len) (init_gatt_cache max_readers max_len) ops =
    run_log (gatt_ref_step max_readers max_len) (gatt_ref_init max_len) ops"
  by (rule gatt_run_rel [OF gatt_rel_init assms(1)]) (use assms(2) in \<open>simp add: init_gatt_cache_def gatt_publish_def\<close>)

theorem gatt_cache_is_recent_list_witness:
  "run_log (gatt_step 8) (init_gatt_cache 2 8) [GattRead 7 0 8, GattPublish [1, 2], GattRead 7 4 8, GattRead 7 0 8] =
   run_log (gatt_ref_step 2 8) (gatt_ref_init 8) [GattRead 7 0 8, GattPublish [1, 2], GattRead 7 4 8, GattRead 7 0 8]"
  by (rule gatt_cache_is_recent_list) simp_all

end
