(* ===== verification/Encoder.thy ===== *)
theory Encoder
  imports Prelude
begin

text \<open>
  \<^verbatim>\<open>components/keyboard/include/keyboard/encoder.h\<close> and \<^verbatim>\<open>src/encoder.cpp\<close>: the
  quadrature decoder, the queue of decoded steps and the local speaker volume they move.  An
  \<^verbatim>\<open>int\<close> is an integer: the accumulator is proved to stay below four, the counts of
  faults are 32-bit words.
\<close>

unbundle bit_operations_syntax

section \<open>The decoder\<close>

record EncoderDecoder =
  en_previous_state :: u8
  en_accumulator :: int
  en_armed :: bool
  en_invalid_transition_count :: u32
  en_partial_reset_count :: u32

definition init_decoder :: EncoderDecoder where
  "init_decoder = \<lparr>en_previous_state = 0, en_accumulator = 0, en_armed = True, en_invalid_transition_count = 0,
     en_partial_reset_count = 0\<rparr>"

definition transition_delta :: "u8 \<Rightarrow> u8 \<Rightarrow> int" where
  "transition_delta previous current =
     (let transition = push_bit 2 (previous AND 3) OR (current AND 3) in
      if transition \<in> {1, 7, 14, 8} then 1 else if transition \<in> {2, 11, 13, 4} then - 1 else 0)"

definition decoder_reset :: "EncoderDecoder \<Rightarrow> u8 \<Rightarrow> EncoderDecoder" where
  "decoder_reset d state = d\<lparr>en_previous_state := state AND 3, en_accumulator := 0, en_armed := (state AND 3 = 0)\<rparr>"

definition decoder_update :: "EncoderDecoder \<Rightarrow> u8 \<Rightarrow> int \<times> EncoderDecoder" where
  "decoder_update d state0 =
     (let state = state0 AND 3 in
      if state = en_previous_state d then (0, d)
      else
        let delta = transition_delta (en_previous_state d) state;
            d1 = d\<lparr>en_previous_state := state\<rparr>
        in
        if delta = 0 then
          (0, d1\<lparr>en_invalid_transition_count := en_invalid_transition_count d + 1,
                en_partial_reset_count := (if en_accumulator d \<noteq> 0 then en_partial_reset_count d + 1 else en_partial_reset_count d),
                en_accumulator := 0,
                en_armed := (if state = 0 then True else en_armed d)\<rparr>)
        else if \<not> en_armed d then
          (0, if state = 0 then d1\<lparr>en_armed := True, en_accumulator := 0\<rparr> else d1)
        else
          let acc = en_accumulator d + delta in
          if state \<noteq> 0 then (0, d1\<lparr>en_accumulator := acc\<rparr>)
          else
            let d2 = d1\<lparr>en_accumulator := 0\<rparr> in
            if 4 \<le> acc then (1, d2)
            else if acc \<le> - 4 then (- 1, d2)
            else if acc \<noteq> 0 then (0, d2\<lparr>en_partial_reset_count := en_partial_reset_count d + 1\<rparr>)
            else (0, d2))"

text \<open>
  A physical rotation: each sample the shaft moved at most one quarter of a detent.  The two
  contacts follow the Gray code of the position.
\<close>

datatype Move = Back | Stay | Forward

fun move_by :: "Move \<Rightarrow> int" where
  "move_by Back = - 1"
| "move_by Stay = 0"
| "move_by Forward = 1"

definition contacts :: "int \<Rightarrow> u8" where
  "contacts position = (if position mod 4 = 0 then 0 else if position mod 4 = 1 then 1 else if position mod 4 = 2 then 3 else 2)"

fun turn :: "int \<Rightarrow> EncoderDecoder \<Rightarrow> Move list \<Rightarrow> int \<times> EncoderDecoder \<times> int" where
  "turn position d [] = (position, d, 0)"
| "turn position d (m # ms) =
     (let position' = position + move_by m;
          (step, d') = decoder_update d (contacts position');
          (end_position, end_d, steps) = turn position' d' ms
      in (end_position, end_d, step + steps))"

definition tracks :: "int \<Rightarrow> EncoderDecoder \<Rightarrow> int \<Rightarrow> bool" where
  "tracks position d steps \<longleftrightarrow> en_previous_state d = contacts position \<and> en_armed d \<and>
     en_accumulator d = position - 4 * steps \<and> \<bar>en_accumulator d\<bar> < 4 \<and>
     en_invalid_transition_count d = 0 \<and> en_partial_reset_count d = 0"

lemma contacts_facts: "contacts p AND 3 = contacts p" "contacts p = 0 \<longleftrightarrow> p mod 4 = 0"
  by (auto simp: contacts_def)

lemma contacts_step:
  "transition_delta (contacts p) (contacts (p + 1)) = 1" "contacts (p + 1) \<noteq> contacts p"
  "transition_delta (contacts p) (contacts (p - 1)) = - 1" "contacts (p - 1) \<noteq> contacts p"
proof -
  have "p mod 4 = 0 \<or> p mod 4 = 1 \<or> p mod 4 = 2 \<or> p mod 4 = 3" by presburger
  moreover have "(p + 1) mod 4 = (if p mod 4 = 3 then 0 else p mod 4 + 1)" "(p - 1) mod 4 = (if p mod 4 = 0 then 3 else p mod 4 - 1)"
    by presburger+
  ultimately show
    "transition_delta (contacts p) (contacts (p + 1)) = 1" "contacts (p + 1) \<noteq> contacts p"
    "transition_delta (contacts p) (contacts (p - 1)) = - 1" "contacts (p - 1) \<noteq> contacts p"
    by (auto simp: contacts_def transition_delta_def Let_def)
qed

lemma tracks_update:
  assumes t: "tracks p d n" and upd: "decoder_update d (contacts (p + move_by m)) = (step, d')"
  shows "tracks (p + move_by m) d' (n + step)"
proof -
  have near: "\<bar>p - 4 * n\<bar> < 4" using t by (auto simp: tracks_def)
  show ?thesis
  proof (cases m)
    case Stay
    then show ?thesis using t upd by (auto simp: tracks_def decoder_update_def contacts_facts)
  next
    case Forward
    have "(p + 1) mod 4 = 0 \<Longrightarrow> p + 1 - 4 * n = 0 \<or> p + 1 - 4 * n = 4 \<or> p + 1 - 4 * n = - 4"
      and "(p + 1) mod 4 \<noteq> 0 \<Longrightarrow> \<bar>p + 1 - 4 * n\<bar> < 4"
      using near by presburger+
    then show ?thesis using t upd Forward contacts_step [of p]
      by (auto simp: tracks_def decoder_update_def contacts_facts Let_def split: if_splits)
  next
    case Back
    have "(p - 1) mod 4 = 0 \<Longrightarrow> p - 1 - 4 * n = 0 \<or> p - 1 - 4 * n = 4 \<or> p - 1 - 4 * n = - 4"
      and "(p - 1) mod 4 \<noteq> 0 \<Longrightarrow> \<bar>p - 1 - 4 * n\<bar> < 4"
      using near by presburger+
    then show ?thesis using t upd Back contacts_step [of p]
      by (auto simp: tracks_def decoder_update_def contacts_facts Let_def split: if_splits)
  qed
qed

lemma tracks_turn: "tracks p d n \<Longrightarrow> turn p d ms = (p', d', steps) \<Longrightarrow> tracks p' d' (n + steps)"
proof (induction ms arbitrary: p d n p' d' steps)
  case (Cons m ms)
  obtain step d1 where u: "decoder_update d (contacts (p + move_by m)) = (step, d1)" by fastforce
  obtain p2 d2 k where r: "turn (p + move_by m) d1 ms = (p2, d2, k)" by (metis prod_cases3)
  have "tracks p2 d2 (n + step + k)" by (rule Cons.IH [OF tracks_update [OF Cons.prems(1) u] r])
  then show ?case using Cons.prems(2) u r by (simp add: add.assoc)
qed simp

text \<open>
  C32: however the shaft jitters, the steps emitted so far differ from the position by less than one
  detent, so at a detent they are exactly the detents travelled; and a clean rotation is never
  counted as a fault.
\<close>
theorem encoder_counts_detents:
  "case turn 0 init_decoder moves of (position, d, steps) \<Rightarrow>
     position = sum_list (map move_by moves) \<and> \<bar>position - 4 * steps\<bar> < 4 \<and>
     en_invalid_transition_count d = 0 \<and> en_partial_reset_count d = 0"
proof -
  obtain p d steps where t: "turn 0 init_decoder moves = (p, d, steps)" by (metis prod_cases3)
  have pos: "fst (turn q e moves) = q + sum_list (map move_by moves)" for q e
    by (induction moves arbitrary: q e) (auto simp: case_prod_beta Let_def)
  have "tracks 0 init_decoder 0" by (simp add: tracks_def init_decoder_def contacts_def)
  from tracks_turn [OF this t] show ?thesis using pos [of 0 init_decoder] t by (auto simp: tracks_def)
qed

section \<open>The queue of steps\<close>

definition kEncoderStepQueueCapacity :: nat where "kEncoderStepQueueCapacity = 32"

record EncoderStepQueue =
  eq_steps :: "int list"
  eq_head :: nat
  eq_size :: nat

definition init_step_queue :: EncoderStepQueue where
  "init_step_queue = \<lparr>eq_steps = replicate kEncoderStepQueueCapacity 0, eq_head = 0, eq_size = 0\<rparr>"

definition step_push :: "EncoderStepQueue \<Rightarrow> int \<Rightarrow> bool \<times> EncoderStepQueue" where
  "step_push q step =
     (let last_index = (eq_head q + eq_size q - 1) mod length (eq_steps q) in
      if step = 0 then (True, q)
      else if 0 < eq_size q \<and> (0 < eq_steps q ! last_index) = (0 < step)
      then (True, q\<lparr>eq_steps := (eq_steps q)[last_index := eq_steps q ! last_index + step]\<rparr>)
      else if length (eq_steps q) \<le> eq_size q then (False, q)
      else (True, q\<lparr>eq_steps := (eq_steps q)[(eq_head q + eq_size q) mod length (eq_steps q) := step],
                    eq_size := eq_size q + 1\<rparr>))"

definition step_pop :: "EncoderStepQueue \<Rightarrow> int option \<times> EncoderStepQueue" where
  "step_pop q =
     (if eq_size q = 0 then (None, q)
      else (Some (eq_steps q ! eq_head q),
            q\<lparr>eq_steps := (eq_steps q)[eq_head q := 0], eq_head := (eq_head q + 1) mod length (eq_steps q),
              eq_size := eq_size q - 1\<rparr>))"

definition step_clear :: "EncoderStepQueue \<Rightarrow> EncoderStepQueue" where "step_clear q = init_step_queue"

definition step_items :: "EncoderStepQueue \<Rightarrow> int list" where
  "step_items q = ring_list (eq_steps q) (eq_head q) (eq_size q)"

definition step_inv :: "EncoderStepQueue \<Rightarrow> bool" where
  "step_inv q \<longleftrightarrow> length (eq_steps q) = 32 \<and> eq_head q < 32 \<and> eq_size q \<le> 32"

text \<open>The list the queue stands for: a step joins the last entry of its own direction.\<close>

definition join_step :: "int list \<Rightarrow> int \<Rightarrow> bool \<times> int list" where
  "join_step xs step =
     (if step = 0 then (True, xs)
      else if xs \<noteq> [] \<and> (0 < last xs) = (0 < step) then (True, butlast xs @ [last xs + step])
      else if 32 \<le> length xs then (False, xs) else (True, xs @ [step]))"

lemma step_push_items:
  assumes "step_inv q" "step_push q step = (ok, q')"
  shows "step_inv q' \<and> join_step (step_items q) step = (ok, step_items q')"
proof -
  have len: "length (eq_steps q) = 32" "eq_head q < 32" "eq_size q \<le> 32" using assms(1) by (auto simp: step_inv_def)
  have ne: "step_items q \<noteq> [] \<longleftrightarrow> 0 < eq_size q" by (simp add: step_items_def flip: length_greater_0_conv)
  have last: "last (step_items q) = eq_steps q ! ((eq_head q + eq_size q - 1) mod 32)" if "0 < eq_size q"
    using that len(1) by (simp add: step_items_def ring_list_last)
  consider "step = 0" | "step \<noteq> 0" "0 < eq_size q" "(0 < last (step_items q)) = (0 < step)"
    | "step \<noteq> 0" "\<not> (0 < eq_size q \<and> (0 < last (step_items q)) = (0 < step))" by metis
  then show ?thesis
  proof cases
    case 1
    then show ?thesis using assms by (simp add: step_push_def join_step_def)
  next
    case 2
    then show ?thesis using assms len ne last [OF 2(2)] ring_list_update_last [of "eq_size q" "eq_steps q" "eq_head q"]
      by (auto simp: step_push_def join_step_def step_items_def step_inv_def Let_def)
  next
    case 3
    then show ?thesis using assms len ne last ring_list_push [of "eq_size q" "eq_steps q" "eq_head q"]
      by (auto simp: step_push_def join_step_def step_items_def step_inv_def Let_def split: if_splits)
  qed
qed

lemma step_pop_items:
  assumes "step_inv q" "step_pop q = (out, q')"
  shows "step_inv q' \<and> (case step_items q of [] \<Rightarrow> out = None \<and> q' = q | x # xs \<Rightarrow> out = Some x \<and> step_items q' = xs)"
proof -
  have len: "length (eq_steps q) = 32" "eq_head q < 32" "eq_size q \<le> 32" using assms(1) by (auto simp: step_inv_def)
  show ?thesis
  proof (cases "eq_size q")
    case 0
    then show ?thesis using assms by (simp add: step_pop_def step_items_def)
  next
    case (Suc n)
    then show ?thesis using assms len ring_list_Cons [of "eq_size q" "eq_steps q" "eq_head q" 0]
      by (auto simp: step_pop_def step_items_def step_inv_def)
  qed
qed

datatype StepOp = StepPush int | StepPop
datatype StepOut = StepPushed bool | StepPopped "int option"

fun step_queue_step :: "EncoderStepQueue \<Rightarrow> StepOp \<Rightarrow> EncoderStepQueue \<times> StepOut" where
  "step_queue_step q (StepPush step) = (let (ok, q') = step_push q step in (q', StepPushed ok))"
| "step_queue_step q StepPop = (let (out, q') = step_pop q in (q', StepPopped out))"

text \<open>The movement still owed to the host: accepted steps minus delivered ones.\<close>

fun owed :: "int \<Rightarrow> StepOp \<times> StepOut \<Rightarrow> int" where
  "owed n (StepPush step, StepPushed ok) = (if ok then n + step else n)"
| "owed n (StepPop, StepPopped (Some step)) = n - step"
| "owed n _ = n"

lemma join_step_sum: "join_step xs step = (ok, ys) \<Longrightarrow> sum_list ys = (if ok then sum_list xs + step else sum_list xs)"
proof -
  have "sum_list xs = sum_list (butlast xs) + last xs" if "xs \<noteq> []"
    using that by (metis append_butlast_last_id sum_list.Cons sum_list.Nil sum_list.append add.right_neutral)
  then show "join_step xs step = (ok, ys) \<Longrightarrow> sum_list ys = (if ok then sum_list xs + step else sum_list xs)"
    by (auto simp: join_step_def split: if_splits)
qed

lemma step_queue_owed:
  assumes inv: "step_inv q" and code: "step_queue_step q op = (q', out)"
  shows "step_inv q' \<and> owed (sum_list (step_items q)) (op, out) = sum_list (step_items q')"
proof (cases op)
  case (StepPush step)
  obtain ok q1 where p: "step_push q step = (ok, q1)" by fastforce
  then show ?thesis
    using StepPush code step_push_items [OF inv p] join_step_sum [of "step_items q" step ok "step_items q1"] by auto
next
  case StepPop
  obtain o1 q1 where p: "step_pop q = (o1, q1)" by fastforce
  then show ?thesis using StepPop code step_pop_items [OF inv p] by (auto split: list.splits)
qed

interpretation step_run: ghost_machine step_queue_step init_step_queue step_inv owed 0 "\<lambda>q n. n = sum_list (step_items q)"
proof unfold_locales
  show "step_inv init_step_queue" by (simp add: step_inv_def init_step_queue_def kEncoderStepQueueCapacity_def)
  show "0 = sum_list (step_items init_step_queue)" by (simp add: step_items_def init_step_queue_def)
  fix q op q' out n
  assume inv: "step_inv q"
  show "step_inv (fst (step_queue_step q op))"
    using step_queue_owed [OF inv, of op "fst (step_queue_step q op)" "snd (step_queue_step q op)"] by simp
  show "owed n (op, out) = sum_list (step_items q')" if "n = sum_list (step_items q)" "step_queue_step q op = (q', out)"
    using step_queue_owed [OF inv that(2)] that(1) by simp
qed

text \<open>
  Through any pushes and pops the steps waiting in the queue sum up to the accepted minus the
  delivered movement: merging neither loses nor invents a step.
\<close>
lemma encoder_queue_conserves:
  "foldl owed 0 (run_log step_queue_step init_step_queue ops) =
     sum_list (step_items (run (\<lambda>q op. fst (step_queue_step q op)) init_step_queue ops))"
  by (rule step_run.rel_reachable)

section \<open>Speaker volume\<close>

definition kSpeakerVolumeMinimum :: int where "kSpeakerVolumeMinimum = 1"
definition kSpeakerVolumeMaximum :: int where "kSpeakerVolumeMaximum = 10"
definition kSpeakerVolumeDefault :: int where "kSpeakerVolumeDefault = 7"

definition adjust_speaker_volume_for_wired_encoder_step :: "u8 \<Rightarrow> int \<Rightarrow> u8" where
  "adjust_speaker_volume_for_wired_encoder_step current_level encoder_step =
     (let bounded = clamp_int (uint current_level) kSpeakerVolumeMinimum kSpeakerVolumeMaximum
      in of_int (clamp_int (bounded - encoder_step) kSpeakerVolumeMinimum kSpeakerVolumeMaximum))"

definition speaker_volume_gain_per_mille :: "u8 \<Rightarrow> int" where
  "speaker_volume_gain_per_mille level =
     [0, 80, 120, 180, 260, 360, 480, 620, 760, 880, 1000] !
       nat (clamp_int (uint level) kSpeakerVolumeMinimum kSpeakerVolumeMaximum)"

text \<open>The C++ division of a signed product truncates towards zero.\<close>

definition scale_speaker_sample :: "16 word \<Rightarrow> u8 \<Rightarrow> 16 word" where
  "scale_speaker_sample sample level =
     (let product = sint sample * speaker_volume_gain_per_mille level
      in of_int (sgn product * (\<bar>product\<bar> div 1000)))"

lemma gain_bounds: "0 < speaker_volume_gain_per_mille level" "speaker_volume_gain_per_mille level \<le> 1000"
proof -
  let ?gains = "[0, 80, 120, 180, 260, 360, 480, 620, 760, 880, 1000] :: int list"
  let ?n = "nat (clamp_int (uint level) 1 10)"
  have "\<forall>n \<in> set [1..<11]. 0 < ?gains ! n \<and> ?gains ! n \<le> 1000" by code_simp
  moreover have "1 \<le> clamp_int (uint level) 1 10" "clamp_int (uint level) 1 10 \<le> 10" by (simp_all add: clamp_int_def)
  then have "?n \<in> set [1..<11]" by (auto simp del: One_nat_def)
  ultimately have "0 < ?gains ! ?n \<and> ?gains ! ?n \<le> 1000" by blast
  then show "0 < speaker_volume_gain_per_mille level" "speaker_volume_gain_per_mille level \<le> 1000"
    unfolding speaker_volume_gain_per_mille_def kSpeakerVolumeMinimum_def kSpeakerVolumeMaximum_def by blast+
qed

text \<open>Scaling never amplifies and keeps the sign, so the narrowing to 16 bits loses nothing.\<close>

lemma signed_part_bounds:
  fixes s q :: int
  assumes "0 \<le> q" "q \<le> \<bar>s\<bar>"
  shows "\<bar>sgn s * q\<bar> \<le> \<bar>s\<bar>" "0 \<le> sgn s * q * s"
proof -
  consider "s < 0" | "s = 0" | "0 < s" by linarith
  then have "\<bar>sgn s * q\<bar> \<le> \<bar>s\<bar> \<and> 0 \<le> sgn s * q * s"
    by cases (use assms in \<open>simp_all add: mult_nonneg_nonpos\<close>)
  then show "\<bar>sgn s * q\<bar> \<le> \<bar>s\<bar>" "0 \<le> sgn s * q * s" by blast+
qed

lemma scale_bounds:
  "\<bar>sint (scale_speaker_sample sample level)\<bar> \<le> \<bar>sint sample\<bar> \<and>
   0 \<le> sint (scale_speaker_sample sample level) * sint sample"
proof -
  let ?g = "speaker_volume_gain_per_mille level" and ?s = "sint sample"
  obtain q where q: "q = \<bar>?s * ?g\<bar> div 1000" by blast
  note g = gain_bounds [of level]
  have "\<bar>?s * ?g\<bar> \<le> \<bar>?s\<bar> * 1000" using g by (simp add: abs_mult mult_left_mono)
  then have "q \<le> (\<bar>?s\<bar> * 1000) div 1000" unfolding q by (rule zdiv_mono1) simp
  then have "0 \<le> q" "q \<le> \<bar>?s\<bar>" by (simp_all add: q)
  note b = signed_part_bounds [OF this]
  have s: "- 32768 \<le> ?s" "?s < 32768" using sint_range_size [of sample] by (simp_all add: word_size)
  have fits: "- 32768 \<le> r \<and> r < 32768" if "\<bar>r\<bar> \<le> \<bar>?s\<bar>" "0 \<le> r * ?s" for r
  proof (cases "?s < 0")
    case True
    then have "r \<le> 0" using that(2) by (simp add: zero_le_mult_iff)
    then show ?thesis using that(1) s True by linarith
  qed (use that(1) s in linarith)
  have exact: "sint (of_int r :: 16 word) = r" if "- 32768 \<le> r \<and> r < 32768" for r
    using that by (simp add: sint_sbintrunc' signed_take_bit_int_eq_self)
  note exact [OF fits [OF b]]
  moreover have "scale_speaker_sample sample level = of_int (sgn ?s * q)"
    using g by (simp add: scale_speaker_sample_def q sgn_mult Let_def)
  ultimately show ?thesis using b by simp
qed

end
