(* ===== verification/Usb_Endpoint.thy ===== *)
theory Usb_Endpoint
  imports Prelude
begin

text \<open>
  \<^verbatim>\<open>components/keyboard/include/keyboard/usb_hid_endpoint_arbiter.h\<close>: the arbiter of the shared
  USB endpoint and the composition of a synthetic key tap with the keys held down.  The
  arbiter is proved fair, the composition to be exactly the union of the keys when it fits.
\<close>

unbundle bit_operations_syntax

section \<open>The endpoint arbiter\<close>

datatype UsbHidEndpointReportKind = EpKeyboard | EpMouseWheel | EpAppCommand | EpStatusResponse | EpSpeakerAssets | EpCount

fun endpoint_index :: "UsbHidEndpointReportKind \<Rightarrow> nat" where
  "endpoint_index EpKeyboard = 0"
| "endpoint_index EpMouseWheel = 1"
| "endpoint_index EpAppCommand = 2"
| "endpoint_index EpStatusResponse = 3"
| "endpoint_index EpSpeakerAssets = 4"
| "endpoint_index EpCount = 5"

definition endpoint_kind :: "nat \<Rightarrow> UsbHidEndpointReportKind" where
  "endpoint_kind n = [EpKeyboard, EpMouseWheel, EpAppCommand, EpStatusResponse, EpSpeakerAssets] ! n"

record UsbHidEndpointPending =
  ep_keyboard :: bool
  ep_mouse_wheel :: bool
  ep_app_command :: bool
  ep_status_response :: bool
  ep_speaker_assets :: bool

fun endpoint_has :: "UsbHidEndpointPending \<Rightarrow> UsbHidEndpointReportKind \<Rightarrow> bool" where
  "endpoint_has p EpKeyboard = ep_keyboard p"
| "endpoint_has p EpMouseWheel = ep_mouse_wheel p"
| "endpoint_has p EpAppCommand = ep_app_command p"
| "endpoint_has p EpStatusResponse = ep_status_response p"
| "endpoint_has p EpSpeakerAssets = ep_speaker_assets p"
| "endpoint_has p EpCount = False"

text \<open>The arbiter's state is the class preferred next.\<close>

type_synonym UsbHidEndpointArbiter = UsbHidEndpointReportKind

definition init_endpoint_arbiter :: UsbHidEndpointArbiter where "init_endpoint_arbiter = EpKeyboard"

definition endpoint_select :: "UsbHidEndpointArbiter \<Rightarrow> UsbHidEndpointPending \<Rightarrow> UsbHidEndpointReportKind" where
  "endpoint_select next_preferred pending =
     (case find (endpoint_has pending)
        (map (\<lambda>offset. endpoint_kind ((endpoint_index next_preferred + offset) mod 5)) [0..<5]) of
        None \<Rightarrow> EpCount
      | Some kind \<Rightarrow> kind)"

definition endpoint_mark_accepted :: "UsbHidEndpointArbiter \<Rightarrow> UsbHidEndpointReportKind \<Rightarrow> UsbHidEndpointArbiter" where
  "endpoint_mark_accepted next_preferred kind =
     (if kind = EpCount then next_preferred else endpoint_kind ((endpoint_index kind + 1) mod 5))"

text \<open>Serving a list of requests, each accepted; the classes served in order.\<close>

fun endpoint_served :: "UsbHidEndpointArbiter \<Rightarrow> UsbHidEndpointPending list \<Rightarrow> UsbHidEndpointReportKind list" where
  "endpoint_served a [] = []"
| "endpoint_served a (p # ps) = endpoint_select a p # endpoint_served (endpoint_mark_accepted a (endpoint_select a p)) ps"

definition endpoint_distance :: "UsbHidEndpointArbiter \<Rightarrow> UsbHidEndpointReportKind \<Rightarrow> nat" where
  "endpoint_distance a kind = (endpoint_index kind + 5 - endpoint_index a) mod 5"

lemma endpoint_select_order:
  "endpoint_select EpKeyboard p = (if ep_keyboard p then EpKeyboard else if ep_mouse_wheel p then EpMouseWheel
     else if ep_app_command p then EpAppCommand else if ep_status_response p then EpStatusResponse
     else if ep_speaker_assets p then EpSpeakerAssets else EpCount)"
  "endpoint_select EpMouseWheel p = (if ep_mouse_wheel p then EpMouseWheel else if ep_app_command p then EpAppCommand
     else if ep_status_response p then EpStatusResponse else if ep_speaker_assets p then EpSpeakerAssets
     else if ep_keyboard p then EpKeyboard else EpCount)"
  "endpoint_select EpAppCommand p = (if ep_app_command p then EpAppCommand else if ep_status_response p then EpStatusResponse
     else if ep_speaker_assets p then EpSpeakerAssets else if ep_keyboard p then EpKeyboard
     else if ep_mouse_wheel p then EpMouseWheel else EpCount)"
  "endpoint_select EpStatusResponse p = (if ep_status_response p then EpStatusResponse else if ep_speaker_assets p then EpSpeakerAssets
     else if ep_keyboard p then EpKeyboard else if ep_mouse_wheel p then EpMouseWheel
     else if ep_app_command p then EpAppCommand else EpCount)"
  "endpoint_select EpSpeakerAssets p = (if ep_speaker_assets p then EpSpeakerAssets else if ep_keyboard p then EpKeyboard
     else if ep_mouse_wheel p then EpMouseWheel else if ep_app_command p then EpAppCommand
     else if ep_status_response p then EpStatusResponse else EpCount)"
proof -
  have "[0..<5] = [0, 1, 2, 3, 4]" by code_simp
  then show
    "endpoint_select EpKeyboard p = (if ep_keyboard p then EpKeyboard else if ep_mouse_wheel p then EpMouseWheel
       else if ep_app_command p then EpAppCommand else if ep_status_response p then EpStatusResponse
       else if ep_speaker_assets p then EpSpeakerAssets else EpCount)"
    "endpoint_select EpMouseWheel p = (if ep_mouse_wheel p then EpMouseWheel else if ep_app_command p then EpAppCommand
       else if ep_status_response p then EpStatusResponse else if ep_speaker_assets p then EpSpeakerAssets
       else if ep_keyboard p then EpKeyboard else EpCount)"
    "endpoint_select EpAppCommand p = (if ep_app_command p then EpAppCommand else if ep_status_response p then EpStatusResponse
       else if ep_speaker_assets p then EpSpeakerAssets else if ep_keyboard p then EpKeyboard
       else if ep_mouse_wheel p then EpMouseWheel else EpCount)"
    "endpoint_select EpStatusResponse p = (if ep_status_response p then EpStatusResponse else if ep_speaker_assets p then EpSpeakerAssets
       else if ep_keyboard p then EpKeyboard else if ep_mouse_wheel p then EpMouseWheel
       else if ep_app_command p then EpAppCommand else EpCount)"
    "endpoint_select EpSpeakerAssets p = (if ep_speaker_assets p then EpSpeakerAssets else if ep_keyboard p then EpKeyboard
       else if ep_mouse_wheel p then EpMouseWheel else if ep_app_command p then EpAppCommand
       else if ep_status_response p then EpStatusResponse else EpCount)"
    by (simp_all add: endpoint_select_def endpoint_kind_def)
qed

lemma endpoint_mark_order:
  "endpoint_mark_accepted a EpKeyboard = EpMouseWheel"
  "endpoint_mark_accepted a EpMouseWheel = EpAppCommand"
  "endpoint_mark_accepted a EpAppCommand = EpStatusResponse"
  "endpoint_mark_accepted a EpStatusResponse = EpSpeakerAssets"
  "endpoint_mark_accepted a EpSpeakerAssets = EpKeyboard"
  "endpoint_mark_accepted a EpCount = a"
  by (simp_all add: endpoint_mark_accepted_def endpoint_kind_def)

lemma select_progress:
  assumes "endpoint_has p kind" "a \<noteq> EpCount" "endpoint_select a p \<noteq> kind"
  shows "endpoint_distance (endpoint_mark_accepted a (endpoint_select a p)) kind < endpoint_distance a kind"
  using assms
  by (cases a; cases kind) (simp_all add: endpoint_select_order endpoint_mark_order endpoint_distance_def split: if_split_asm)

lemma accepted_not_count: "a \<noteq> EpCount \<Longrightarrow> endpoint_mark_accepted a kind \<noteq> EpCount"
  by (cases kind) (simp_all add: endpoint_mark_order)

lemma served_within:
  assumes "\<forall>p \<in> set ps. endpoint_has p kind" "a \<noteq> EpCount" "endpoint_distance a kind < length ps"
  shows "kind \<in> set (endpoint_served a ps)"
  using assms
proof (induction ps arbitrary: a)
  case (Cons p ps)
  let ?a = "endpoint_mark_accepted a (endpoint_select a p)"
  show ?case
  proof (cases "endpoint_select a p = kind")
    case False
    then have "endpoint_distance ?a kind < length ps"
      using select_progress [of p kind a] Cons.prems by simp
    then show ?thesis using Cons.IH [of ?a] Cons.prems accepted_not_count by simp
  qed simp
qed simp

text \<open>
  C33: no class of reports starves: from every reachable preference, a class that stays pending
  is served among the next five accepted reports, whatever else is pending.
\<close>
theorem endpoint_never_starves:
  assumes "length ps = 5" "\<forall>p \<in> set ps. endpoint_has p kind"
  shows "kind \<in> set (endpoint_served (run endpoint_mark_accepted init_endpoint_arbiter history) ps)"
proof (rule served_within [OF assms(2)])
  have "run endpoint_mark_accepted a history \<noteq> EpCount" if "a \<noteq> EpCount" for a
    using that by (induction history arbitrary: a) (simp_all add: accepted_not_count)
  then show "run endpoint_mark_accepted init_endpoint_arbiter history \<noteq> EpCount"
    by (simp add: init_endpoint_arbiter_def)
qed (simp add: assms(1) endpoint_distance_def)

theorem endpoint_never_starves_witness:
  "EpSpeakerAssets \<in> set (endpoint_served (run endpoint_mark_accepted init_endpoint_arbiter [])
     (replicate 5 \<lparr>ep_keyboard = True, ep_mouse_wheel = True, ep_app_command = False, ep_status_response = True, ep_speaker_assets = True\<rparr>))"
  by (rule endpoint_never_starves) simp_all

section \<open>Synthetic taps\<close>

record UsbHidKeyboardSnapshot =
  us_modifier :: u8
  us_apple_fn :: bool
  us_keycodes :: bytes

definition usb_snapshot_empty :: "UsbHidKeyboardSnapshot \<Rightarrow> bool" where
  "usb_snapshot_empty s \<longleftrightarrow> us_modifier s = 0 \<and> \<not> us_apple_fn s \<and> list_all (\<lambda>keycode. keycode = 0) (us_keycodes s)"

record UsbHidSyntheticTapPair =
  tp_pressed :: UsbHidKeyboardSnapshot
  tp_restored :: UsbHidKeyboardSnapshot

fun fill_empty_slot :: "bytes \<Rightarrow> u8 \<Rightarrow> bytes option" where
  "fill_empty_slot [] keycode = None"
| "fill_empty_slot (k # ks) keycode =
     (if k = 0 then Some (keycode # ks) else map_option ((#) k) (fill_empty_slot ks keycode))"

fun add_keycodes :: "bytes \<Rightarrow> bytes \<Rightarrow> bytes option" where
  "add_keycodes pressed [] = Some pressed"
| "add_keycodes pressed (keycode # rest) =
     (if keycode = 0 \<or> keycode \<in> set pressed then add_keycodes pressed rest
      else case fill_empty_slot pressed keycode of None \<Rightarrow> None
           | Some pressed' \<Rightarrow> add_keycodes pressed' rest)"

definition compose_usb_hid_synthetic_tap ::
  "UsbHidKeyboardSnapshot \<Rightarrow> UsbHidKeyboardSnapshot \<Rightarrow> UsbHidSyntheticTapPair option" where
  "compose_usb_hid_synthetic_tap physical synthetic =
     (if usb_snapshot_empty synthetic then None
      else case add_keycodes (us_keycodes physical) (us_keycodes synthetic) of None \<Rightarrow> None
      | Some keycodes \<Rightarrow>
          Some \<lparr>tp_pressed = \<lparr>us_modifier = us_modifier physical OR us_modifier synthetic,
                  us_apple_fn = us_apple_fn physical \<or> us_apple_fn synthetic, us_keycodes = keycodes\<rparr>,
                tp_restored = physical\<rparr>)"

definition keys_of :: "bytes \<Rightarrow> u8 set" where "keys_of ks = set ks - {0}"
definition free_slots :: "bytes \<Rightarrow> nat" where "free_slots ks = length (filter (\<lambda>k. k = 0) ks)"

text \<open>Every key of \<open>ks\<close> sits in \<open>ks'\<close> at the same place.\<close>

definition keeps_places :: "bytes \<Rightarrow> bytes \<Rightarrow> bool" where
  "keeps_places ks ks' \<longleftrightarrow> length ks' = length ks \<and> map2 (\<lambda>k k'. if k = 0 then 0 else k') ks ks' = ks"

lemma keeps_places_Cons: "keeps_places (k # ks) (k' # ks') \<longleftrightarrow> (k = 0 \<or> k' = k) \<and> keeps_places ks ks'"
  by (auto simp: keeps_places_def)

lemma keeps_places_alt: "keeps_places ks ks' \<longleftrightarrow> list_all2 (\<lambda>k k'. k = 0 \<or> k' = k) ks ks'"
proof (induction ks arbitrary: ks')
  case (Cons k ks)
  then show ?case by (cases ks') (simp_all add: keeps_places_Cons, simp add: keeps_places_def)
qed (auto simp: keeps_places_def)

lemma keeps_places_trans: "keeps_places a b \<Longrightarrow> keeps_places b c \<Longrightarrow> keeps_places a c"
  by (auto simp: keeps_places_alt list_all2_conv_all_nth) metis

lemma fill_None: "fill_empty_slot ks k = None \<longleftrightarrow> free_slots ks = 0"
  by (induction ks) (simp_all add: free_slots_def)

lemma fill_Some:
  "fill_empty_slot ks k = Some ks' \<Longrightarrow> k \<noteq> 0 \<Longrightarrow>
   keys_of ks' = insert k (keys_of ks) \<and> free_slots ks = Suc (free_slots ks') \<and> keeps_places ks ks'"
proof (induction ks arbitrary: ks')
  case (Cons x ks)
  show ?case
  proof (cases "x = 0")
    case True
    then show ?thesis using Cons.prems
      by (auto simp: keys_of_def free_slots_def keeps_places_alt list_all2_same)
  next
    case False
    then obtain ys where ys: "fill_empty_slot ks k = Some ys" "ks' = x # ys" using Cons.prems by auto
    then show ?thesis using Cons.IH [OF ys(1)] Cons.prems False
      by (auto simp: keys_of_def free_slots_def keeps_places_alt)
  qed
qed simp

lemma add_keycodes_spec:
  "case add_keycodes ks new of
     None \<Rightarrow> free_slots ks < card (keys_of new - keys_of ks)
   | Some ks' \<Rightarrow> card (keys_of new - keys_of ks) \<le> free_slots ks \<and> keys_of ks' = keys_of ks \<union> keys_of new \<and> keeps_places ks ks'"
proof (induction new arbitrary: ks)
  case Nil
  then show ?case by (auto simp: keys_of_def keeps_places_alt list_all2_same)
next
  case (Cons k new)
  show ?case
  proof (cases "k = 0 \<or> k \<in> set ks")
    case True
    then have "keys_of (k # new) - keys_of ks = keys_of new - keys_of ks" "keys_of ks \<union> keys_of (k # new) = keys_of ks \<union> keys_of new"
      by (auto simp: keys_of_def)
    then show ?thesis using True Cons.IH [of ks] by (auto split: option.splits)
  next
    case False
    have fresh: "k \<in> keys_of (k # new) - keys_of ks" using False by (auto simp: keys_of_def)
    have fin: "finite (keys_of (k # new) - keys_of ks)" by (simp add: keys_of_def)
    show ?thesis
    proof (cases "fill_empty_slot ks k")
      case None
      have "0 < card (keys_of (k # new) - keys_of ks)" using fresh fin by (auto simp: card_gt_0_iff)
      then show ?thesis using False None fill_None [of ks k] by simp
    next
      case (Some ks')
      note f = fill_Some [OF Some]
      have "keys_of (k # new) - keys_of ks - {k} = keys_of new - keys_of ks'"
        using f False by (auto simp: keys_of_def)
      then have "card (keys_of (k # new) - keys_of ks) = Suc (card (keys_of new - keys_of ks'))"
        using card_Suc_Diff1 [OF fin fresh] by simp
      moreover have "keys_of ks' \<union> keys_of new = keys_of ks \<union> keys_of (k # new)" using f False by (auto simp: keys_of_def)
      ultimately show ?thesis using False Some Cons.IH [of ks'] f keeps_places_trans
        by (auto split: option.splits)
    qed
  qed
qed

text \<open>
  A synthetic tap is composed exactly when it presses something and its new keys fit into
  the free places; then the pressed report holds the keys of both, every held key at its
  place and every modifier of both, and the restored report is the one held before.
\<close>
lemma synthetic_tap_exact:
  "case compose_usb_hid_synthetic_tap physical synthetic of
     None \<Rightarrow> usb_snapshot_empty synthetic \<or>
       free_slots (us_keycodes physical) < card (keys_of (us_keycodes synthetic) - keys_of (us_keycodes physical))
   | Some pair \<Rightarrow> \<not> usb_snapshot_empty synthetic \<and>
       card (keys_of (us_keycodes synthetic) - keys_of (us_keycodes physical)) \<le> free_slots (us_keycodes physical) \<and>
       tp_restored pair = physical \<and>
       keys_of (us_keycodes (tp_pressed pair)) = keys_of (us_keycodes physical) \<union> keys_of (us_keycodes synthetic) \<and>
       keeps_places (us_keycodes physical) (us_keycodes (tp_pressed pair)) \<and>
       us_modifier (tp_pressed pair) = us_modifier physical OR us_modifier synthetic \<and>
       us_apple_fn (tp_pressed pair) = (us_apple_fn physical \<or> us_apple_fn synthetic)"
  using add_keycodes_spec [of "us_keycodes physical" "us_keycodes synthetic"]
  by (auto simp: compose_usb_hid_synthetic_tap_def split: option.splits)

end
