(* ===== verification/Sha256_Standard.thy ===== *)
theory Sha256_Standard
  imports Prelude
begin

text \<open>
  SHA-256 as FIPS 180-4 defines it, independently of the firmware: the constants as the leading
  fractional bits of roots of primes, the functions of section 4.1.2, the padding and the parsing
  of section 5, the computation of section 6.2.  Messages are whole bytes.  Nothing here models a
  source file; \<^verbatim>\<open>Sound_Crypto\<close> proves that the firmware's object computes this function.
\<close>

section \<open>Constants\<close>

text \<open>
  The first 32 bits of the fractional part of the \<open>k\<close>-th root of \<open>p\<close>: the largest \<open>n\<close> that is at
  most the root times \<open>2 ^ 32\<close>, less its multiples of \<open>2 ^ 32\<close>.
\<close>

definition root_bits :: "nat \<Rightarrow> nat \<Rightarrow> u32" where
  "root_bits k p = of_nat (GREATEST n. n ^ k \<le> p * 2 ^ (32 * k))"

definition is_prime :: "nat \<Rightarrow> bool" where
  "is_prime p \<longleftrightarrow> 2 \<le> p \<and> list_all (\<lambda>d. \<not> d dvd p) [2..<p]"

text \<open>The first 64 primes; the last one is 311.\<close>

definition first_primes :: "nat list" where
  "first_primes = filter is_prime [0..<312]"

definition standard_initial :: "u32 list" where
  "standard_initial = map (root_bits 2) (take 8 first_primes)"

definition standard_constants :: "u32 list" where
  "standard_constants = map (root_bits 3) first_primes"

section \<open>Functions\<close>

definition shift_right :: "nat \<Rightarrow> u32 \<Rightarrow> u32" where
  "shift_right n x = of_nat (unat x div 2 ^ n)"

definition choice_of :: "u32 \<Rightarrow> u32 \<Rightarrow> u32 \<Rightarrow> u32" where
  "choice_of x y z = (x AND y) XOR (NOT x AND z)"

definition majority_of :: "u32 \<Rightarrow> u32 \<Rightarrow> u32 \<Rightarrow> u32" where
  "majority_of x y z = (x AND y) XOR (x AND z) XOR (y AND z)"

definition big_sigma0 :: "u32 \<Rightarrow> u32" where
  "big_sigma0 x = word_rotr 2 x XOR word_rotr 13 x XOR word_rotr 22 x"

definition big_sigma1 :: "u32 \<Rightarrow> u32" where
  "big_sigma1 x = word_rotr 6 x XOR word_rotr 11 x XOR word_rotr 25 x"

definition small_sigma0 :: "u32 \<Rightarrow> u32" where
  "small_sigma0 x = word_rotr 7 x XOR word_rotr 18 x XOR shift_right 3 x"

definition small_sigma1 :: "u32 \<Rightarrow> u32" where
  "small_sigma1 x = word_rotr 17 x XOR word_rotr 19 x XOR shift_right 10 x"

section \<open>Numbers as bytes, most significant first\<close>

definition number_bytes :: "nat \<Rightarrow> nat \<Rightarrow> bytes" where
  "number_bytes count n = map (\<lambda>i. of_nat (n div 256 ^ (count - 1 - i))) [0..<count]"

definition bytes_number :: "bytes \<Rightarrow> nat" where
  "bytes_number bs = foldl (\<lambda>n b. 256 * n + unat b) 0 bs"

section \<open>Padding, schedule, computation\<close>

text \<open>
  The message, a one bit, as few zeros as make the length congruent to 448 modulo 512, and the
  length of the message as 64 bits; lengths are in bits, all of them whole bytes.
\<close>

definition standard_padded :: "bytes \<Rightarrow> bytes" where
  "standard_padded message =
     message @ 0x80 # replicate (LEAST zeros. 8 * (length message + 1 + zeros) mod 512 = 448) 0 @ number_bytes 8 (8 * length message)"

fun standard_schedule :: "bytes \<Rightarrow> nat \<Rightarrow> u32" where
  "standard_schedule block t =
     (if t < 16 then of_nat (bytes_number (take 4 (drop (4 * t) block)))
      else small_sigma1 (standard_schedule block (t - 2)) + standard_schedule block (t - 7) +
           small_sigma0 (standard_schedule block (t - 15)) + standard_schedule block (t - 16))"

declare standard_schedule.simps [simp del]

record working_variables =
  wv_a :: u32
  wv_b :: u32
  wv_c :: u32
  wv_d :: u32
  wv_e :: u32
  wv_f :: u32
  wv_g :: u32
  wv_h :: u32

definition standard_round :: "bytes \<Rightarrow> working_variables \<Rightarrow> nat \<Rightarrow> working_variables" where
  "standard_round block v t =
     (let t1 = wv_h v + big_sigma1 (wv_e v) + choice_of (wv_e v) (wv_f v) (wv_g v) + standard_constants ! t + standard_schedule block t;
          t2 = big_sigma0 (wv_a v) + majority_of (wv_a v) (wv_b v) (wv_c v)
      in \<lparr>wv_a = t1 + t2, wv_b = wv_a v, wv_c = wv_b v, wv_d = wv_c v,
          wv_e = wv_d v + t1, wv_f = wv_e v, wv_g = wv_f v, wv_h = wv_g v\<rparr>)"

definition standard_compress :: "u32 list \<Rightarrow> bytes \<Rightarrow> u32 list" where
  "standard_compress hash block =
     (let v = foldl (standard_round block)
            \<lparr>wv_a = hash ! 0, wv_b = hash ! 1, wv_c = hash ! 2, wv_d = hash ! 3,
             wv_e = hash ! 4, wv_f = hash ! 5, wv_g = hash ! 6, wv_h = hash ! 7\<rparr> [0..<64]
      in map2 (+) [wv_a v, wv_b v, wv_c v, wv_d v, wv_e v, wv_f v, wv_g v, wv_h v] hash)"

definition standard_blocks :: "bytes \<Rightarrow> bytes list" where
  "standard_blocks padded = map (\<lambda>i. take 64 (drop (64 * i) padded)) [0..<length padded div 64]"

definition sha256 :: "bytes \<Rightarrow> bytes" where
  "sha256 message =
     concat (map (\<lambda>w. number_bytes 4 (unat w))
       (foldl standard_compress standard_initial (standard_blocks (standard_padded message))))"

section \<open>The constants as numbers\<close>

lemma root_bits_eq:
  assumes "0 < k" "n ^ k \<le> p * 2 ^ (32 * k)" "p * 2 ^ (32 * k) < (n + 1) ^ k"
  shows "root_bits k p = of_nat n"
proof -
  have "(GREATEST n. n ^ k \<le> p * 2 ^ (32 * k)) = n"
  proof (rule Greatest_equality)
    show "m \<le> n" if "m ^ k \<le> p * 2 ^ (32 * k)" for m
    proof (rule ccontr)
      assume "\<not> m \<le> n"
      then have "(n + 1) ^ k \<le> m ^ k" by (intro power_mono) simp_all
      then show False using that assms(3) by linarith
    qed
  qed (rule assms(2))
  then show ?thesis by (simp add: root_bits_def)
qed

definition root_of :: "nat \<Rightarrow> nat \<Rightarrow> nat \<Rightarrow> bool" where
  "root_of k p n \<longleftrightarrow> n ^ k \<le> p * 2 ^ (32 * k) \<and> p * 2 ^ (32 * k) < (n + 1) ^ k"

lemma map_root_bits: "0 < k \<Longrightarrow> list_all2 (root_of k) ps ns \<Longrightarrow> map (root_bits k) ps = map of_nat ns"
proof (induction ps arbitrary: ns)
  case (Cons p ps)
  then obtain n ns' where "ns = n # ns'" "root_of k p n" "list_all2 (root_of k) ps ns'" by (auto simp: list_all2_Cons1)
  then show ?case using Cons root_bits_eq [of k n p] by (simp add: root_of_def)
qed simp

text \<open>Below 18 squared it is enough to try the primes below 18.\<close>

lemma small_divisor:
  assumes "2 \<le> k" "k < 18"
  shows "\<exists>d \<in> {2, 3, 5, 7, 11, 13, 17}. d dvd (k :: nat)"
proof -
  have "k = 2 \<or> k = 3 \<or> k = 4 \<or> k = 5 \<or> k = 6 \<or> k = 7 \<or> k = 8 \<or> k = 9 \<or> k = 10 \<or> k = 11 \<or> k = 12 \<or> k = 13 \<or> k = 14 \<or> k = 15 \<or> k = 16 \<or> k = 17"
    using assms by presburger
  then show ?thesis by (elim disjE) simp_all
qed

lemma is_prime_small:
  assumes "p < 324"
  shows "is_prime p \<longleftrightarrow> 2 \<le> p \<and> list_all (\<lambda>d. d dvd p \<longrightarrow> p = d) [2, 3, 5, 7, 11, 13, 17]"
proof -
  have small: "\<exists>d \<in> {2, 3, 5, 7, 11, 13, 17}. d dvd p \<and> p \<noteq> d" if d: "d dvd p" "2 \<le> d" "d < p" for d
  proof -
    obtain e where e: "p = d * e" using d(1) by (auto elim: dvdE)
    have "1 < e" using e d(3) by (cases "e = 0"; cases "e = 1") auto
    have "d < 18 \<or> e < 18"
    proof (rule ccontr)
      assume "\<not> (d < 18 \<or> e < 18)"
      then have "18 * 18 \<le> d * e" by (intro mult_le_mono) auto
      then show False using e assms by simp
    qed
    moreover have "e dvd p" "e < p" "2 \<le> e" using e d \<open>1 < e\<close> by simp_all
    ultimately have "\<exists>k. k dvd p \<and> 2 \<le> k \<and> k < 18 \<and> k < p" using d by blast
    then obtain k where k: "k dvd p" "2 \<le> k" "k < 18" "k < p" by blast
    then obtain f where "f \<in> {2, 3, 5, 7, 11, 13, 17}" "f dvd k" using small_divisor [of k] by blast
    moreover have "f \<le> k" using \<open>f dvd k\<close> k(2) by (intro dvd_imp_le) linarith+
    moreover have "f dvd p" using \<open>f dvd k\<close> k(1) by (rule dvd_trans)
    ultimately show ?thesis using k(4) by (intro bexI [of _ f]) linarith+
  qed
  have list: "list_all (\<lambda>d. d dvd p \<longrightarrow> p = d) [2, 3, 5, 7, 11, 13, 17] \<longleftrightarrow> (\<forall>d \<in> {2, 3, 5, 7, 11, 13, 17}. d dvd p \<longrightarrow> p = d)"
    by simp
  have range: "2 \<le> d" if "d \<in> {2, 3, 5, 7, 11, 13, 17}" for d :: nat using that by auto
  have "is_prime p \<longleftrightarrow> 2 \<le> p \<and> (\<forall>d. 2 \<le> d \<longrightarrow> d < p \<longrightarrow> \<not> d dvd p)"
    by (auto simp: is_prime_def list_all_iff)
  also have "\<dots> \<longleftrightarrow> 2 \<le> p \<and> (\<forall>d \<in> {2, 3, 5, 7, 11, 13, 17}. d dvd p \<longrightarrow> p = d)"
  proof (intro conj_cong refl iffI ballI allI impI)
    fix d assume "2 \<le> p" "\<forall>d. 2 \<le> d \<longrightarrow> d < p \<longrightarrow> \<not> d dvd p" "d \<in> {2, 3, 5, 7, 11, 13, 17}" "d dvd p"
    then show "p = d" using range [of d] dvd_imp_le [of d p] by (metis le_neq_implies_less less_le_trans zero_less_numeral)
  next
    fix d assume "\<forall>d \<in> {2, 3, 5, 7, 11, 13, 17}. d dvd p \<longrightarrow> p = d" "2 \<le> d" "d < p"
    then show "\<not> d dvd p" using small by blast
  qed
  finally show ?thesis unfolding list .
qed

lemma first_primes_eq: "first_primes =
  [2, 3, 5, 7, 11, 13, 17, 19, 23, 29, 31, 37, 41, 43, 47, 53, 59, 61, 67, 71, 73, 79,
   83, 89, 97, 101, 103, 107, 109, 113, 127, 131, 137, 139, 149, 151, 157, 163, 167, 173, 179, 181, 191, 193,
   197, 199, 211, 223, 227, 229, 233, 239, 241, 251, 257, 263, 269, 271, 277, 281, 283, 293, 307, 311]"
proof -
  have "list_all (\<lambda>p. p < 324) [0..<312]" by (simp add: list_all_iff)
  then have "first_primes = filter (\<lambda>p. 2 \<le> p \<and> list_all (\<lambda>d. d dvd p \<longrightarrow> p = d) [2, 3, 5, 7, 11, 13, 17]) [0..<312]"
    unfolding first_primes_def by (intro filter_cong) (auto simp: list_all_iff is_prime_small)
  moreover have "[0..<312] = 0 # 1 # [2..<312]" by (simp add: upt_conv_Cons flip: numeral_2_eq_2)
  ultimately show ?thesis by (simp add: upt_rec_numeral)
qed

text \<open>The roots times \<open>2 ^ 32\<close>, whole parts included.\<close>

definition initial_numbers :: "nat list" where
  "initial_numbers =
   [6074000999, 7439101573, 9603838834, 11363415354, 14244795007, 15485724812, 17708603819, 18721328409]"

lemma standard_initial_eq: "standard_initial = map of_nat initial_numbers"
proof -
  have "list_all2 (root_of 2) (take 8 first_primes) initial_numbers"
    unfolding first_primes_eq initial_numbers_def by (simp add: root_of_def)
  from map_root_bits [OF _ this] show ?thesis by (simp add: standard_initial_def)
qed

definition constants_numbers :: "nat list" where
  "constants_numbers =
   [5411319704, 6194414737, 7344290767, 8215976869, 9551921755, 10098905585, 11043570340, 11460697813,
    12214315672, 13195500289, 13492127166, 14311783875, 14809980276, 15046980094, 15499789991, 16133124468,
    16720292289, 16907126662, 17444216262, 17784676812, 17950125167, 18429019306, 18734950876, 19175934170,
    19734090066, 20001703533, 20132865992, 20390182855, 20516441075, 20764397895, 21588763473, 21813078375,
    22141143685, 22248366392, 22769593852, 22871018771, 23170020180, 23461497531, 23651862830, 23931792517,
    24205322401, 24295138891, 24734567280, 24820601251, 24990902297, 25075189284, 25569408389, 26045227120,
    26200031510, 26276752392, 26428864332, 26653801653, 26727943347, 27092625994, 27306805839, 27517677555,
    27725365998, 27793908591, 27997534228, 28131656200, 28198240250, 28526537963, 28973835255, 29099129074]"

lemma standard_constants_eq: "standard_constants = map of_nat constants_numbers"
proof -
  have "list_all2 (root_of 3) first_primes constants_numbers"
    unfolding first_primes_eq constants_numbers_def by (simp add: root_of_def)
  from map_root_bits [OF _ this] show ?thesis by (simp add: standard_constants_def)
qed

section \<open>Padding\<close>

lemma padding_zeros: "(LEAST zeros. 8 * (n + 1 + zeros) mod 512 = (448 :: nat)) = (119 - n mod 64) mod 64"
proof -
  have scale: "8 * (n + 1 + zeros) mod 512 = 448 \<longleftrightarrow> (n + 1 + zeros) mod 64 = 56" for zeros
    using mod_mult_mult1 [of 8 "n + 1 + zeros" 64] by simp
  have "(n + 1 + zeros) mod 64 = (n mod 64 + 1 + zeros) mod 64" for zeros
    by (metis add.assoc mod_add_left_eq)
  then have eq: "(n + 1 + zeros) mod 64 = 56 \<longleftrightarrow> (n mod 64 + 1 + zeros) mod 64 = 56" for zeros by simp
  have r: "(LEAST zeros. (r + 1 + zeros) mod 64 = 56) = (119 - r) mod 64" if "r < 64" for r :: nat
  proof (cases "r \<le> 55")
    case True
    then have "(119 - r) mod 64 = 55 - r" using le_mod_geq [of 64 "119 - r"] by simp
    moreover have "(LEAST zeros. (r + 1 + zeros) mod 64 = 56) = 55 - r"
    proof (rule Least_equality)
      show "(r + 1 + (55 - r)) mod 64 = 56" using True by simp
      show "55 - r \<le> zeros" if "(r + 1 + zeros) mod 64 = 56" for zeros
        using that True by (cases "r + 1 + zeros < 64") simp_all
    qed
    ultimately show ?thesis by simp
  next
    case False
    then have "(119 - r) mod 64 = 119 - r" using \<open>r < 64\<close> by simp
    moreover have "(LEAST zeros. (r + 1 + zeros) mod 64 = 56) = 119 - r"
    proof (rule Least_equality)
      show "(r + 1 + (119 - r)) mod 64 = 56" using False \<open>r < 64\<close> by simp
      show "119 - r \<le> zeros" if z: "(r + 1 + zeros) mod 64 = 56" for zeros
      proof (rule ccontr)
        assume less: "\<not> 119 - r \<le> zeros"
        show False
        proof (cases "r + 1 + zeros < 64")
          case True
          then show False using z False by simp
        next
          case False
          then have "(r + 1 + zeros) mod 64 = r + 1 + zeros - 64"
            using less \<open>r < 64\<close> le_mod_geq [of 64 "r + 1 + zeros"] by (subst le_mod_geq) simp_all
          then show False using z less False by linarith
        qed
      qed
    qed
    ultimately show ?thesis by simp
  qed
  show ?thesis unfolding scale eq by (rule r) simp
qed

end
