(* ===== verification/Sound_Crypto.thy ===== *)
theory Sound_Crypto
  imports Sha256_Standard
begin

text \<open>
  \<^verbatim>\<open>features/speaker_assets/include/speaker_assets/sound_asset_crypto.h\<close> and
  \<^verbatim>\<open>sound_asset_crypto.cpp\<close>: the incremental SHA-256 object, CRC-32 and the digest
  comparison.  The incremental hash of any pieces is proved to be the hash of their concatenation
  as \<^verbatim>\<open>Sha256_Standard\<close> defines it.
\<close>

unbundle bit_operations_syntax

definition kSha256InitialState :: "u32 list" where
  "kSha256InitialState = [0x6A09E667, 0xBB67AE85, 0x3C6EF372, 0xA54FF53A, 0x510E527F, 0x9B05688C, 0x1F83D9AB, 0x5BE0CD19]"

definition kSha256RoundConstants :: "u32 list" where
  "kSha256RoundConstants =
     [0x428A2F98, 0x71374491, 0xB5C0FBCF, 0xE9B5DBA5, 0x3956C25B, 0x59F111F1, 0x923F82A4, 0xAB1C5ED5,
      0xD807AA98, 0x12835B01, 0x243185BE, 0x550C7DC3, 0x72BE5D74, 0x80DEB1FE, 0x9BDC06A7, 0xC19BF174,
      0xE49B69C1, 0xEFBE4786, 0x0FC19DC6, 0x240CA1CC, 0x2DE92C6F, 0x4A7484AA, 0x5CB0A9DC, 0x76F988DA,
      0x983E5152, 0xA831C66D, 0xB00327C8, 0xBF597FC7, 0xC6E00BF3, 0xD5A79147, 0x06CA6351, 0x14292967,
      0x27B70A85, 0x2E1B2138, 0x4D2C6DFC, 0x53380D13, 0x650A7354, 0x766A0ABB, 0x81C2C92E, 0x92722C85,
      0xA2BFE8A1, 0xA81A664B, 0xC24B8B70, 0xC76C51A3, 0xD192E819, 0xD6990624, 0xF40E3585, 0x106AA070,
      0x19A4C116, 0x1E376C08, 0x2748774C, 0x34B0BCB5, 0x391C0CB3, 0x4ED8AA4A, 0x5B9CCA4F, 0x682E6FF3,
      0x748F82EE, 0x78A5636F, 0x84C87814, 0x8CC70208, 0x90BEFFFA, 0xA4506CEB, 0xBEF9A3F7, 0xC67178F2]"

definition rotate_right :: "u32 \<Rightarrow> nat \<Rightarrow> u32" where
  "rotate_right v bits = drop_bit bits v OR push_bit (32 - bits) v"

definition load_be32 :: "bytes \<Rightarrow> u32" where
  "load_be32 bs = push_bit 24 (ucast (bs ! 0)) OR push_bit 16 (ucast (bs ! 1)) OR push_bit 8 (ucast (bs ! 2)) OR ucast (bs ! 3)"

definition store_be32 :: "u32 \<Rightarrow> bytes" where
  "store_be32 v = [ucast (drop_bit 24 v), ucast (drop_bit 16 v), ucast (drop_bit 8 v), ucast v]"

section \<open>The compression function\<close>

definition schedule_word :: "u32 list \<Rightarrow> nat \<Rightarrow> u32" where
  "schedule_word w index =
     (let sigma0 = rotate_right (w ! (index - 15)) 7 XOR rotate_right (w ! (index - 15)) 18 XOR drop_bit 3 (w ! (index - 15));
          sigma1 = rotate_right (w ! (index - 2)) 17 XOR rotate_right (w ! (index - 2)) 19 XOR drop_bit 10 (w ! (index - 2))
      in w ! (index - 16) + sigma0 + w ! (index - 7) + sigma1)"

definition message_schedule :: "bytes \<Rightarrow> u32 list" where
  "message_schedule block =
     foldl (\<lambda>w index. w @ [schedule_word w index]) (map (\<lambda>index. load_be32 (drop (index * 4) block)) [0..<16]) [16..<64]"

fun sha_round :: "u32 \<times> u32 \<times> u32 \<times> u32 \<times> u32 \<times> u32 \<times> u32 \<times> u32 \<Rightarrow> u32 \<times> u32 \<Rightarrow>
    u32 \<times> u32 \<times> u32 \<times> u32 \<times> u32 \<times> u32 \<times> u32 \<times> u32" where
  "sha_round (a, b, c, d, e, f, g, h) (k, w) =
     (let sum1 = rotate_right e 6 XOR rotate_right e 11 XOR rotate_right e 25;
          choice = (e AND f) XOR ((NOT e) AND g);
          temporary1 = h + sum1 + choice + k + w;
          sum0 = rotate_right a 2 XOR rotate_right a 13 XOR rotate_right a 22;
          majority = (a AND b) XOR (a AND c) XOR (b AND c);
          temporary2 = sum0 + majority
      in (temporary1 + temporary2, a, b, c, d + temporary1, e, f, g))"

definition sha_transform :: "u32 list \<Rightarrow> bytes \<Rightarrow> u32 list" where
  "sha_transform st block =
     (case foldl sha_round (st ! 0, st ! 1, st ! 2, st ! 3, st ! 4, st ! 5, st ! 6, st ! 7)
             (zip kSha256RoundConstants (message_schedule block)) of
        (a, b, c, d, e, f, g, h) \<Rightarrow>
          [st ! 0 + a, st ! 1 + b, st ! 2 + c, st ! 3 + d, st ! 4 + e, st ! 5 + f, st ! 6 + g, st ! 7 + h])"

section \<open>The incremental object\<close>

record SoundSha256 =
  sha_state :: "u32 list"
  sha_buffer :: bytes
  sha_digest :: bytes
  sha_total_bytes :: u64
  sha_buffered_bytes :: nat
  sha_finished :: bool

definition sha_reset :: SoundSha256 where
  "sha_reset = \<lparr>sha_state = kSha256InitialState, sha_buffer = replicate 64 0, sha_digest = replicate 32 0,
     sha_total_bytes = 0, sha_buffered_bytes = 0, sha_finished = False\<rparr>"

definition kMaxMessageBytes :: u64 where "kMaxMessageBytes = (- 1) div 8"

text \<open>Copying bytes over the front of a buffer part.\<close>

definition buffer_put :: "bytes \<Rightarrow> nat \<Rightarrow> bytes \<Rightarrow> bytes" where
  "buffer_put buffer at bs = take at buffer @ bs @ drop (at + length bs) buffer"

text \<open>The loop over whole blocks and the rest that is left.\<close>

function absorb :: "u32 list \<Rightarrow> bytes \<Rightarrow> u32 list \<times> bytes" where
  "absorb st data = (if length data < 64 then (st, data) else absorb (sha_transform st (take 64 data)) (drop 64 data))"
  by pat_completeness auto
termination by (relation "measure (\<lambda>(st, data). length data)") auto

declare absorb.simps [simp del]

text \<open>Filling a started block first: the object and the bytes that are left.\<close>

definition sha_fill :: "SoundSha256 \<Rightarrow> bytes \<Rightarrow> SoundSha256 \<times> bytes" where
  "sha_fill s data =
     (if sha_buffered_bytes s = 0 then (s, data)
      else
        let copy_length = min (length data) (64 - sha_buffered_bytes s);
            filled = buffer_put (sha_buffer s) (sha_buffered_bytes s) (take copy_length data)
        in if sha_buffered_bytes s + copy_length = 64
           then (s\<lparr>sha_buffer := filled, sha_state := sha_transform (sha_state s) filled, sha_buffered_bytes := 0\<rparr>,
                 drop copy_length data)
           else (s\<lparr>sha_buffer := filled, sha_buffered_bytes := sha_buffered_bytes s + copy_length\<rparr>, drop copy_length data))"

definition sha_update :: "SoundSha256 \<Rightarrow> bytes \<Rightarrow> bool \<times> SoundSha256" where
  "sha_update s data =
     (if sha_finished s then (False, s)
      else if data = [] then (True, s)
      else if unat (kMaxMessageBytes - sha_total_bytes s) < length data then (False, s)
      else
        let (s1, data1) = sha_fill (s\<lparr>sha_total_bytes := sha_total_bytes s + of_nat (length data)\<rparr>) data;
            (st, rest) = absorb (sha_state s1) data1;
            s2 = s1\<lparr>sha_state := st\<rparr>
        in (True, if rest \<noteq> [] then s2\<lparr>sha_buffer := buffer_put (sha_buffer s2) 0 rest, sha_buffered_bytes := length rest\<rparr>
                  else s2))"

definition be64 :: "u64 \<Rightarrow> bytes" where
  "be64 v = map (\<lambda>index. ucast (drop_bit (56 - index * 8) v)) [0..<8]"

definition sha_finish :: "SoundSha256 \<Rightarrow> bytes \<times> SoundSha256" where
  "sha_finish s =
     (if sha_finished s then (sha_digest s, s)
      else
        let message_bits = sha_total_bytes s * 8;
            buffer1 = (sha_buffer s)[sha_buffered_bytes s := 0x80];
            buffered1 = sha_buffered_bytes s + 1;
            (st2, buffer2, buffered2) =
              (if 56 < buffered1
               then (let full = take buffered1 buffer1 @ replicate (64 - buffered1) 0 in (sha_transform (sha_state s) full, full, 0))
               else (sha_state s, buffer1, buffered1));
            buffer3 = take buffered2 buffer2 @ replicate (56 - buffered2) 0 @ be64 message_bits;
            st3 = sha_transform st2 buffer3;
            digest = concat (map store_be32 st3)
        in (digest, s\<lparr>sha_state := st3, sha_buffer := buffer3, sha_digest := digest, sha_buffered_bytes := 0, sha_finished := True\<rparr>))"

definition crc_bit_step :: "u32 \<Rightarrow> u32" where
  "crc_bit_step crc = drop_bit 1 crc XOR (if crc AND 1 \<noteq> 0 then 0xEDB88320 else 0)"

definition crc_byte_step :: "u32 \<Rightarrow> u8 \<Rightarrow> u32" where
  "crc_byte_step crc byte = (crc_bit_step ^^ 8) (crc XOR ucast byte)"

definition sound_crc32_iso_hdlc :: "bytes \<Rightarrow> u32" where
  "sound_crc32_iso_hdlc data = foldl crc_byte_step 0xFFFFFFFF data XOR 0xFFFFFFFF"

definition sound_digest_equal :: "bytes \<Rightarrow> bytes \<Rightarrow> bool" where
  "sound_digest_equal first second \<longleftrightarrow>
     foldl (\<lambda>difference index. difference OR (ucast (first ! index XOR second ! index) :: u32)) 0 [0..<32] = 0"

section \<open>The hash of a whole message\<close>

text \<open>The same computation on a whole message: the compression function folded over the padded message.\<close>

definition sha_padding :: "nat \<Rightarrow> bytes" where
  "sha_padding n = 0x80 # replicate ((119 - n mod 64) mod 64) 0 @ be64 (of_nat (8 * n))"

definition sha256_blocks :: "bytes \<Rightarrow> bytes" where
  "sha256_blocks message = concat (map store_be32 (fst (absorb kSha256InitialState (message @ sha_padding (length message)))))"

fun hash_in_pieces :: "SoundSha256 \<Rightarrow> bytes list \<Rightarrow> bytes option" where
  "hash_in_pieces s [] = Some (fst (sha_finish s))"
| "hash_in_pieces s (piece # pieces) = (case sha_update s piece of (ok, s') \<Rightarrow> if ok then hash_in_pieces s' pieces else None)"

lemma absorb_short: "length data < 64 \<Longrightarrow> absorb st data = (st, data)"
  by (simp add: absorb.simps)

lemma absorb_block: "length block = 64 \<Longrightarrow> absorb st (block @ data) = absorb (sha_transform st block) data"
  by (subst absorb.simps) simp

lemma absorb_append: "absorb st (xs @ ys) = (case absorb st xs of (st', rest) \<Rightarrow> absorb st' (rest @ ys))"
proof (induction st xs rule: absorb.induct)
  case (1 st data)
  show ?case
  proof (cases "length data < 64")
    case True
    then show ?thesis by (simp add: absorb_short)
  next
    case False
    then have "absorb st (data @ ys) = absorb (sha_transform st (take 64 data)) (drop 64 data @ ys)"
      using absorb_block [of "take 64 data" st "drop 64 data @ ys"] by (simp flip: append_assoc)
    moreover have "absorb st data = absorb (sha_transform st (take 64 data)) (drop 64 data)"
      using False by (subst absorb.simps) simp
    ultimately show ?thesis using 1 [OF False] by simp
  qed
qed

lemma absorb_rest: "length (snd (absorb st data)) = length data mod 64"
proof (induction st data rule: absorb.induct)
  case (1 st data)
  then show ?case by (subst absorb.simps) (simp add: le_mod_geq not_less)
qed

definition sha_holds :: "SoundSha256 \<Rightarrow> bytes \<Rightarrow> bool" where
  "sha_holds s message \<longleftrightarrow> \<not> sha_finished s \<and> length (sha_buffer s) = 64 \<and> length message \<le> unat kMaxMessageBytes \<and>
     sha_total_bytes s = of_nat (length message) \<and> sha_buffered_bytes s < 64 \<and>
     absorb kSha256InitialState message = (sha_state s, take (sha_buffered_bytes s) (sha_buffer s))"

lemma sha_holds_reset: "sha_holds sha_reset []"
  by (simp add: sha_holds_def sha_reset_def absorb_short)

lemma max_message: "unat kMaxMessageBytes = 2305843009213693951"
  by (simp add: kMaxMessageBytes_def unat_div unat_word_ariths(4) unsigned_minus_1_eq_mask mask_eq_exp_minus_1)

lemma length_buffer_put: "at + length bs \<le> length buffer \<Longrightarrow> length (buffer_put buffer at bs) = length buffer"
  by (simp add: buffer_put_def)

lemma take_buffer_put: "at + length bs \<le> length buffer \<Longrightarrow> take (at + length bs) (buffer_put buffer at bs) = take at buffer @ bs"
  by (simp add: buffer_put_def)

lemma sha_room:
  assumes "sha_holds s message"
  shows "unat (kMaxMessageBytes - sha_total_bytes s) = unat kMaxMessageBytes - length message"
proof -
  have len: "length message \<le> unat kMaxMessageBytes" "sha_total_bytes s = of_nat (length message)"
    using assms by (simp_all add: sha_holds_def)
  then have n: "unat (sha_total_bytes s) = length message" by (simp add: max_message unat_of_nat)
  then have "sha_total_bytes s \<le> kMaxMessageBytes" using len by (simp add: word_le_nat_alt)
  then show ?thesis using n by (simp add: unat_sub)
qed

text \<open>Where the object stands before the loop over whole blocks, and after it.\<close>

lemma sha_fill_spec:
  assumes "sha_fill s data = (s1, data1)" "sha_buffered_bytes s < 64" "length (sha_buffer s) = 64" "\<not> sha_finished s"
  shows "\<not> sha_finished s1 \<and> length (sha_buffer s1) = 64 \<and> sha_total_bytes s1 = sha_total_bytes s \<and> sha_buffered_bytes s1 < 64 \<and>
    (sha_buffered_bytes s1 \<noteq> 0 \<longrightarrow> data1 = []) \<and>
    absorb (sha_state s) (take (sha_buffered_bytes s) (sha_buffer s) @ data) =
      absorb (sha_state s1) (take (sha_buffered_bytes s1) (sha_buffer s1) @ data1)"
proof -
  let ?b = "sha_buffered_bytes s" and ?buf = "sha_buffer s"
  consider "?b = 0" | "?b \<noteq> 0" "?b + length data < 64" | "?b \<noteq> 0" "64 \<le> ?b + length data" by linarith
  then show ?thesis
  proof cases
    case 1
    then show ?thesis using assms by (auto simp: sha_fill_def)
  next
    case 2
    have min: "min (length data) (64 - ?b) = length data" and ne: "?b + length data \<noteq> 64" using 2 by linarith+
    have "s1 = s\<lparr>sha_buffer := buffer_put ?buf ?b data, sha_buffered_bytes := ?b + length data\<rparr> \<and> data1 = []"
      using assms(1) 2 ne unfolding sha_fill_def Let_def min by simp
    moreover have "take (?b + length data) (buffer_put ?buf ?b data) = take ?b ?buf @ data"
      using 2 assms(3) by (intro take_buffer_put) simp
    ultimately show ?thesis using 2 assms by (simp add: length_buffer_put)
  next
    case 3
    let ?c = "64 - ?b"
    let ?block = "take ?b ?buf @ take ?c data"
    have min: "min (length data) ?c = ?c" using 3 by linarith
    have block: "buffer_put ?buf ?b (take ?c data) = ?block" using 3 assms by (simp add: buffer_put_def)
    have "s1 = s\<lparr>sha_buffer := ?block, sha_state := sha_transform (sha_state s) ?block, sha_buffered_bytes := 0\<rparr> \<and> data1 = drop ?c data"
      using assms(1,2) 3 unfolding sha_fill_def Let_def min block by simp
    moreover have len: "length ?block = 64" using 3 assms by simp
    ultimately show ?thesis using assms(4) absorb_block [OF len, of "sha_state s" "drop ?c data"] by simp
  qed
qed

lemma sha_update_holds:
  assumes holds: "sha_holds s message" and code: "sha_update s data = (ok, s')"
  shows "ok = (length message + length data \<le> unat kMaxMessageBytes) \<and> sha_holds s' (if ok then message @ data else message)"
proof -
  let ?b = "sha_buffered_bytes s" and ?buf = "sha_buffer s" and ?st = "sha_state s"
  have s: "\<not> sha_finished s" "length ?buf = 64" "length message \<le> unat kMaxMessageBytes"
    "sha_total_bytes s = of_nat (length message)" "?b < 64" "absorb kSha256InitialState message = (?st, take ?b ?buf)"
    using holds by (simp_all add: sha_holds_def)
  consider "data = []" | "data \<noteq> []" "unat kMaxMessageBytes - length message < length data"
    | "data \<noteq> []" "length data \<le> unat kMaxMessageBytes - length message" by linarith
  then show ?thesis
  proof cases
    case 1
    then have "ok \<and> s' = s" using code s(1) by (simp add: sha_update_def)
    then show ?thesis using 1 holds s(3) by simp
  next
    case 2
    then have "\<not> ok \<and> s' = s" using code s(1) sha_room [OF holds] by (simp add: sha_update_def)
    then show ?thesis using 2 holds s(3) by simp
  next
    case 3
    let ?s = "s\<lparr>sha_total_bytes := sha_total_bytes s + of_nat (length data)\<rparr>"
    have fits: "length message + length data \<le> unat kMaxMessageBytes" using 3 s(3) by linarith
    obtain s1 data1 where fill: "sha_fill ?s data = (s1, data1)" by fastforce
    obtain st rest where ab: "absorb (sha_state s1) data1 = (st, rest)" by fastforce
    have f: "\<not> sha_finished s1" "length (sha_buffer s1) = 64" "sha_total_bytes s1 = of_nat (length message) + of_nat (length data)"
      "sha_buffered_bytes s1 < 64" "sha_buffered_bytes s1 \<noteq> 0 \<longrightarrow> data1 = []"
      "absorb ?st (take ?b ?buf @ data) = absorb (sha_state s1) (take (sha_buffered_bytes s1) (sha_buffer s1) @ data1)"
      using sha_fill_spec [OF fill] s by simp_all
    have all: "absorb kSha256InitialState (message @ data) = absorb (sha_state s1) (take (sha_buffered_bytes s1) (sha_buffer s1) @ data1)"
      unfolding absorb_append [of _ message] s(6) prod.case by (rule f(6))
    have rest: "length rest < 64" using absorb_rest [of "sha_state s1" data1] ab by simp
    have room: "\<not> unat (kMaxMessageBytes - sha_total_bytes s) < length data" unfolding sha_room [OF holds] using 3 by linarith
    have run: "(ok, s') = (True, if rest \<noteq> []
        then s1\<lparr>sha_state := st, sha_buffer := buffer_put (sha_buffer s1) 0 rest, sha_buffered_bytes := length rest\<rparr>
        else s1\<lparr>sha_state := st\<rparr>)"
      unfolding code [symmetric] sha_update_def Let_def
      by (simp only: s(1) 3(1) room if_False fill ab prod.case) simp
    have s': "ok" "s' = (if rest \<noteq> [] then s1\<lparr>sha_state := st, sha_buffer := buffer_put (sha_buffer s1) 0 rest, sha_buffered_bytes := length rest\<rparr>
        else s1\<lparr>sha_state := st\<rparr>)"
      using run by simp_all
    have "absorb kSha256InitialState (message @ data) = (sha_state s', take (sha_buffered_bytes s') (sha_buffer s'))"
    proof (cases "sha_buffered_bytes s1 = 0")
      case True
      then show ?thesis using all ab s'(2) rest f(2) by (simp add: take_buffer_put [of 0, simplified])
    next
      case False
      then have "rest = []" "st = sha_state s1" using f(5) ab by (simp_all add: absorb_short)
      then show ?thesis using all s'(2) f(4,5) False by (simp add: absorb_short)
    qed
    moreover have "\<not> sha_finished s'" "length (sha_buffer s') = 64" "sha_buffered_bytes s' < 64"
      "sha_total_bytes s' = of_nat (length (message @ data))"
      using s'(2) f rest by (simp_all add: length_buffer_put)
    ultimately show ?thesis using s'(1) fits by (simp add: sha_holds_def)
  qed
qed

lemma sha_finish_late:
  assumes "\<not> sha_finished s" "56 < sha_buffered_bytes s + 1"
  shows "fst (sha_finish s) = concat (map store_be32 (sha_transform (sha_transform (sha_state s)
      (take (Suc (sha_buffered_bytes s)) ((sha_buffer s)[sha_buffered_bytes s := 0x80]) @ replicate (63 - sha_buffered_bytes s) 0))
    (replicate 56 0 @ be64 (sha_total_bytes s * 8))))"
proof -
  have "64 - (sha_buffered_bytes s + 1) = 63 - sha_buffered_bytes s" by simp
  then show ?thesis using assms unfolding sha_finish_def Let_def by simp
qed

lemma sha_finish_early:
  assumes "\<not> sha_finished s" "\<not> 56 < sha_buffered_bytes s + 1"
  shows "fst (sha_finish s) = concat (map store_be32 (sha_transform (sha_state s)
      (take (Suc (sha_buffered_bytes s)) ((sha_buffer s)[sha_buffered_bytes s := 0x80]) @ replicate (55 - sha_buffered_bytes s) 0 @
        be64 (sha_total_bytes s * 8))))"
proof -
  have "56 - (sha_buffered_bytes s + 1) = 55 - sha_buffered_bytes s" by simp
  then show ?thesis using assms unfolding sha_finish_def Let_def by simp
qed

lemma sha_finish_blocks:
  assumes "sha_holds s message"
  shows "fst (sha_finish s) = sha256_blocks message"
proof -
  let ?b = "sha_buffered_bytes s" and ?buf = "sha_buffer s" and ?st = "sha_state s"
  let ?bits = "be64 (of_nat (8 * length message))" and ?r = "take ?b ?buf"
  have s: "\<not> sha_finished s" "length ?buf = 64" "sha_total_bytes s = of_nat (length message)" "?b < 64"
    "absorb kSha256InitialState message = (?st, ?r)"
    using assms by (simp_all add: sha_holds_def)
  have b: "length message mod 64 = ?b" using absorb_rest [of kSha256InitialState message] s by simp
  have bits: "sha_total_bytes s * 8 = of_nat (8 * length message)" "length ?bits = 8" using s(3) by (simp_all add: be64_def)
  have put: "take (Suc ?b) (?buf[?b := 0x80]) = ?r @ [0x80]" using s by (simp add: take_Suc_conv_app_nth)
  have total: "sha256_blocks message = concat (map store_be32 (fst (absorb ?st (?r @ sha_padding (length message)))))"
    unfolding sha256_blocks_def absorb_append [of kSha256InitialState message] s(5) prod.case ..
  show ?thesis
  proof (cases "56 < ?b + 1")
    case True
    let ?full = "?r @ 0x80 # replicate (63 - ?b) 0"
    let ?last = "replicate 56 0 @ ?bits"
    have "(119 - ?b) mod 64 = (63 - ?b) + 56"
    proof -
      have "119 - ?b = 63 - ?b + 56" "63 - ?b + 56 < 64" using True s(4) by linarith+
      then show ?thesis by (simp only: mod_less)
    qed
    then have zeros: "replicate ((119 - ?b) mod 64) 0 = replicate (63 - ?b) (0 :: u8) @ replicate 56 0" by (simp only: replicate_add)
    have pad: "?r @ sha_padding (length message) = ?full @ ?last @ []"
      unfolding sha_padding_def b zeros by simp
    have "length ?full = 64" "length ?last = 64" using s bits by auto
    then have "fst (absorb ?st (?r @ sha_padding (length message))) = sha_transform (sha_transform ?st ?full) ?last"
      unfolding pad by (simp only: absorb_block) (simp add: absorb_short)
    then show ?thesis unfolding total sha_finish_late [OF s(1) True] put bits(1) by simp
  next
    case False
    let ?last = "?r @ 0x80 # replicate (55 - ?b) 0 @ ?bits"
    have "(119 - ?b) mod 64 = 55 - ?b"
    proof -
      have "119 - ?b = 55 - ?b + 64" "55 - ?b < 64" using False by linarith+
      then show ?thesis by (simp only: mod_add_self2 mod_less)
    qed
    then have pad: "?r @ sha_padding (length message) = ?last @ []" by (simp add: sha_padding_def b)
    have "length ?last = 64" using False s bits by auto
    then have "fst (absorb ?st (?r @ sha_padding (length message))) = sha_transform ?st ?last"
      unfolding pad by (simp only: absorb_block) (simp add: absorb_short)
    then show ?thesis unfolding total sha_finish_early [OF s(1) False] put bits(1) by simp
  qed
qed

lemma hash_in_pieces_holds:
  "sha_holds s message \<Longrightarrow>
   hash_in_pieces s pieces = (if length message + length (concat pieces) \<le> unat kMaxMessageBytes
     then Some (sha256_blocks (message @ concat pieces)) else None)"
proof (induction pieces arbitrary: s message)
  case Nil
  then show ?case using sha_finish_blocks by (simp add: sha_holds_def)
next
  case (Cons piece pieces)
  obtain ok s' where u: "sha_update s piece = (ok, s')" by fastforce
  note h = sha_update_holds [OF Cons.prems u]
  show ?case
  proof (cases ok)
    case True
    have "sha_holds s' (message @ piece)" using h True by simp
    then show ?thesis using h u True Cons.IH [of s' "message @ piece"] by (simp add: add.assoc)
  next
    case False
    then show ?thesis using h u by auto
  qed
qed

section \<open>The whole-message computation is the standard's\<close>

lemma rotate_right_eq: "0 < n \<Longrightarrow> n < 32 \<Longrightarrow> rotate_right v n = word_rotr n v"
proof (rule bit_word_eqI)
  fix m assume n: "0 < n" "n < 32" and "m < LENGTH(32)"
  then have m: "m < 32" by simp
  show "bit (rotate_right v n) m = bit (word_rotr n v) m"
  proof (cases "m + n < 32")
    case True
    then have "\<not> 32 - n \<le> m" by linarith
    then show ?thesis using True n m by (simp add: rotate_right_def bit_simps bit_word_rotr_iff add.commute)
  next
    case False
    then have "(m + n) mod 32 = m - (32 - n)" using m n by (subst le_mod_geq) simp_all
    moreover have "\<not> bit v (n + m)" using False by (auto dest: bit_imp_le_length)
    moreover have "32 - n \<le> m" using False by linarith
    ultimately show ?thesis using False n m by (simp add: rotate_right_def bit_simps bit_word_rotr_iff add.commute)
  qed
qed

lemma drop_bit_eq: "drop_bit n (v :: u32) = shift_right n v"
proof -
  have "unat v div 2 ^ n = unat (drop_bit n v)" by (simp only: unat_drop_bit_eq) (rule drop_bit_eq_div [symmetric])
  then show ?thesis by (simp add: shift_right_def)
qed

lemma load_be32_eq:
  assumes "length bs = 4"
  shows "load_be32 bs = of_nat (bytes_number bs)"
proof -
  obtain a b c d where bs: "bs = [a, b, c, d]" using assms by (auto simp: numeral_eq_Suc length_Suc_conv)
  let ?a = "push_bit 24 (ucast a) :: u32" and ?b = "push_bit 16 (ucast b) :: u32" and ?c = "push_bit 8 (ucast c) :: u32"
  have "?c OR ucast d = ?c + ucast d" by (rule disjunctive_add [symmetric]) (auto simp: bit_simps dest!: bit_imp_le_length)
  moreover have "?b OR ?c OR ucast d = ?b + (?c OR ucast d)" by (rule disjunctive_add [symmetric]) (auto simp: bit_simps dest!: bit_imp_le_length)
  moreover have "?a OR ?b OR ?c OR ucast d = ?a + (?b OR ?c OR ucast d)" by (rule disjunctive_add [symmetric]) (auto simp: bit_simps dest!: bit_imp_le_length)
  ultimately have "load_be32 bs = ?a + (?b + (?c + ucast d))" by (simp add: load_be32_def bs)
  also have "\<dots> = of_nat (bytes_number bs)"
    by (simp add: bs bytes_number_def push_bit_eq_mult algebra_simps)
  finally show ?thesis .
qed

lemma store_be32_eq: "store_be32 v = number_bytes 4 (unat v)"
proof -
  have byte: "(ucast (drop_bit n v) :: u8) = of_nat (unat v div 2 ^ n)" for n
    by (metis of_nat_unat unat_drop_bit_eq drop_bit_eq_div)
  show ?thesis
    using byte [of 24] byte [of 16] byte [of 8]
    by (simp add: store_be32_def number_bytes_def upt_rec_numeral upt_rec)
qed

lemma be64_eq: "be64 (of_nat n) = number_bytes 8 n"
proof -
  have byte: "(ucast (drop_bit k (of_nat n :: u64)) :: u8) = of_nat (n div 2 ^ k)" if "k \<le> 56" for k
    using that by (intro bit_eqI) (auto simp: bit_simps simp flip: drop_bit_eq_div)
  have power: "(256 :: nat) ^ (7 - i) = 2 ^ (56 - i * 8)" if "i < 8" for i
  proof -
    have "56 - i * 8 = 8 * (7 - i)" using that by simp
    then show ?thesis by (simp add: power_mult)
  qed
  show ?thesis unfolding be64_def number_bytes_def by (rule map_cong) (simp_all add: byte power)
qed

lemma padded_eq: "message @ sha_padding (length message) = standard_padded message"
  by (simp only: standard_padded_def sha_padding_def padding_zeros be64_eq)

lemma length_padded: "64 dvd length (standard_padded message)"
proof -
  let ?z = "LEAST zeros. 8 * (length message + 1 + zeros) mod 512 = 448"
  have "8 * (length message + 1 + (63 * (length message + 1) + 56)) mod 512 = (512 * (length message + 1) + 448) mod 512" by (simp add: algebra_simps)
  then have "8 * (length message + 1 + (63 * (length message + 1) + 56)) mod 512 = 448" by simp
  then have "8 * (length message + 1 + ?z) mod 512 = 448" by (rule LeastI)
  then have "(length message + 1 + ?z) mod 64 = 56" using mod_mult_mult1 [of 8 "length message + 1 + ?z" 64] by simp
  then have "(length message + 1 + ?z + 8) mod 64 = 0" using mod_add_left_eq [of "length message + 1 + ?z" 64 8] by simp
  then have "64 dvd length message + 1 + ?z + 8" by (simp only: dvd_eq_mod_eq_0)
  moreover have "length (standard_padded message) = length message + 1 + ?z + 8"
    unfolding standard_padded_def length_append length_Cons length_replicate number_bytes_def length_map length_upt by linarith
  ultimately show ?thesis by metis
qed

text \<open>The schedule.\<close>

lemma schedule_eq:
  assumes "length block = 64" "n \<le> 48"
  shows "foldl (\<lambda>w index. w @ [schedule_word w index]) (map (\<lambda>index. load_be32 (drop (index * 4) block)) [0..<16]) [16..<16 + n] =
    map (standard_schedule block) [0..<16 + n]"
  using assms(2)
proof (induction n)
  case 0
  have "load_be32 (drop (t * 4) block) = standard_schedule block t" if "t < 16" for t
  proof -
    let ?bs = "take 4 (drop (4 * t) block)"
    have len: "length ?bs = 4" using assms(1) that by simp
    have "load_be32 (drop (t * 4) block) = load_be32 ?bs" by (simp add: load_be32_def mult.commute)
    also have "\<dots> = standard_schedule block t" using load_be32_eq [OF len] that by (simp add: standard_schedule.simps [of block t])
    finally show ?thesis .
  qed
  then show ?case by simp
next
  case (Suc n)
  let ?w = "map (standard_schedule block) [0..<16 + n]"
  have "schedule_word ?w (16 + n) = standard_schedule block (16 + n)"
    by (simp add: schedule_word_def standard_schedule.simps [of block "n + 16"] small_sigma0_def small_sigma1_def rotate_right_eq drop_bit_eq
        nth_append algebra_simps del: upt_Suc)
  moreover have "[0..<16 + Suc n] = [0..<16 + n] @ [16 + n]" "[16..<16 + Suc n] = [16..<16 + n] @ [16 + n]"
    by (simp_all only: add_Suc_right upt_Suc le_add1 if_True zero_le)
  ultimately show ?case using Suc by simp
qed

lemma message_schedule_eq: "length block = 64 \<Longrightarrow> message_schedule block = map (standard_schedule block) [0..<64]"
proof -
  assume "length block = 64"
  have eq: "16 + 48 = (64 :: nat)" by simp
  show ?thesis unfolding message_schedule_def by (rule schedule_eq [of block 48, unfolded eq]) (simp_all add: \<open>length block = 64\<close>)
qed

text \<open>The rounds.\<close>

definition tuple_of :: "working_variables \<Rightarrow> u32 \<times> u32 \<times> u32 \<times> u32 \<times> u32 \<times> u32 \<times> u32 \<times> u32" where
  "tuple_of v = (wv_a v, wv_b v, wv_c v, wv_d v, wv_e v, wv_f v, wv_g v, wv_h v)"

lemma round_eq: "sha_round (tuple_of v) (standard_constants ! t, standard_schedule block t) = tuple_of (standard_round block v t)"
  by (simp add: tuple_of_def standard_round_def Let_def big_sigma0_def big_sigma1_def choice_of_def majority_of_def rotate_right_eq add.assoc)

lemma rounds_eq: "foldl sha_round (tuple_of v) (map (\<lambda>t. (standard_constants ! t, standard_schedule block t)) ts) =
    tuple_of (foldl (standard_round block) v ts)"
  by (induction ts arbitrary: v) (simp_all add: round_eq)

lemma constants_eq: "kSha256RoundConstants = standard_constants" "kSha256InitialState = standard_initial"
  by (simp_all add: kSha256RoundConstants_def kSha256InitialState_def standard_constants_eq standard_initial_eq
      constants_numbers_def initial_numbers_def)

lemma transform_eq:
  assumes "length st = 8" "length block = 64"
  shows "sha_transform st block = standard_compress st block"
proof -
  have "length kSha256RoundConstants = 64" by (simp add: kSha256RoundConstants_def)
  then have "zip kSha256RoundConstants (message_schedule block) =
      zip (map (nth kSha256RoundConstants) [0..<64]) (map (standard_schedule block) [0..<64])"
    using map_nth [of kSha256RoundConstants] message_schedule_eq [OF assms(2)] by simp
  also have "\<dots> = map (\<lambda>t. (standard_constants ! t, standard_schedule block t)) [0..<64]"
    by (simp add: zip_map_map zip_same_conv_map constants_eq)
  finally have z: "zip kSha256RoundConstants (message_schedule block) = map (\<lambda>t. (standard_constants ! t, standard_schedule block t)) [0..<64]" .
  obtain a b c d e f g h where st: "st = [a, b, c, d, e, f, g, h]"
    using assms(1) by (auto simp: numeral_eq_Suc length_Suc_conv)
  let ?v = "\<lparr>wv_a = a, wv_b = b, wv_c = c, wv_d = d, wv_e = e, wv_f = f, wv_g = g, wv_h = h\<rparr>"
  have "foldl sha_round (a, b, c, d, e, f, g, h) (zip kSha256RoundConstants (message_schedule block)) =
      tuple_of (foldl (standard_round block) ?v [0..<64])"
    using rounds_eq [of ?v block "[0..<64]"] by (simp add: z tuple_of_def)
  then show ?thesis
    by (simp add: sha_transform_def standard_compress_def st tuple_of_def Let_def add.commute)
qed

lemma length_compress [simp]: "length (standard_compress st block) = min 8 (length st)"
  by (simp add: standard_compress_def Let_def)

lemma absorb_eq:
  assumes "length st = 8" "64 dvd length data"
  shows "fst (absorb st data) = foldl standard_compress st (standard_blocks data)"
  using assms
proof (induction st data rule: absorb.induct)
  case (1 st data)
  show ?case
  proof (cases "length data < 64")
    case True
    then have "data = []" using 1(3) by (auto elim: dvdE)
    then show ?thesis by (simp add: absorb_short standard_blocks_def)
  next
    case False
    have "length data div 64 = Suc (length (drop 64 data) div 64)" using False by (simp add: le_div_geq)
    then have blocks: "standard_blocks data = take 64 data # standard_blocks (drop 64 data)"
      by (simp add: standard_blocks_def upt_conv_Cons map_Suc_upt [symmetric] comp_def add.commute del: upt_Suc)
    have "absorb st data = absorb (standard_compress st (take 64 data)) (drop 64 data)"
      using False 1(2) by (subst absorb.simps) (simp add: transform_eq)
    moreover have "64 dvd length (drop 64 data)" using 1(3) False by (simp add: dvd_diff_nat)
    ultimately show ?thesis using 1(1) [OF False] 1(2) False by (simp add: blocks transform_eq)
  qed
qed

lemma sha256_code [code]: "sha256 message = sha256_blocks message"
  by (simp add: sha256_def sha256_blocks_def padded_eq constants_eq absorb_eq length_padded store_be32_eq [abs_def] standard_initial_eq initial_numbers_def)

lemma sha_finish_holds: "sha_holds s message \<Longrightarrow> fst (sha_finish s) = sha256 message"
  by (simp add: sha256_code sha_finish_blocks)

text \<open>
  C34: hashing a message in pieces of any sizes gives the SHA-256 of the whole message as FIPS 180-4 defines
  it, and fails exactly when the message is too long for its length to be counted in 64 bits.
\<close>
theorem incremental_hash_is_sha256:
  "hash_in_pieces sha_reset pieces =
     (if length (concat pieces) \<le> 2305843009213693951 then Some (sha256 (concat pieces)) else None)"
  using hash_in_pieces_holds [OF sha_holds_reset, of pieces] by (simp add: max_message sha256_code)

text \<open>The published check value of this CRC, the code of the digits 1 to 9.\<close>

lemma crc_byte_step_unrolled: "crc_byte_step crc byte =
    crc_bit_step (crc_bit_step (crc_bit_step (crc_bit_step (crc_bit_step (crc_bit_step (crc_bit_step (crc_bit_step (crc XOR ucast byte))))))))"
  by (simp add: crc_byte_step_def eval_nat_numeral)

lemma crc_check_value: "sound_crc32_iso_hdlc [0x31, 0x32, 0x33, 0x34, 0x35, 0x36, 0x37, 0x38, 0x39] = 0xCBF43926"
proof -
  have "foldl crc_byte_step 0xFFFFFFFF [0x31, 0x32, 0x33, 0x34, 0x35, 0x36, 0x37, 0x38, 0x39] = 0x340BC6D9"
    by (simp add: crc_byte_step_unrolled crc_bit_step_def)
  then show ?thesis by (simp add: sound_crc32_iso_hdlc_def)
qed


text \<open>The comparison without early exit is equality.\<close>

lemma foldl_or_eq_0: "foldl (\<lambda>d i. d OR (f i :: u32)) d xs = 0 \<longleftrightarrow> d = 0 \<and> (\<forall>i \<in> set xs. f i = 0)"
  by (induction xs arbitrary: d) (auto simp: or_eq_0_iff)

lemma sound_digest_equal_iff:
  assumes "length first = 32" "length second = 32"
  shows "sound_digest_equal first second \<longleftrightarrow> first = second"
proof -
  have xor: "(ucast (x XOR y) :: u32) = 0 \<longleftrightarrow> x = y" for x y :: u8
  proof -
    have "(ucast (ucast (x XOR y) :: u32) :: u8) = x XOR y" by (auto simp: bit_eq_iff bit_simps)
    then have "(ucast (x XOR y) :: u32) = 0 \<longleftrightarrow> x XOR y = 0" by (metis ucast_0)
    also have "\<dots> \<longleftrightarrow> x = y" by (auto simp: bit_eq_iff bit_simps)
    finally show ?thesis .
  qed
  show ?thesis
    unfolding sound_digest_equal_def foldl_or_eq_0 xor by (auto simp: list_eq_iff_nth_eq assms)
qed

end
