(* ===== verification/Sound_Flash.thy ===== *)
theory Sound_Flash
  imports Sound_Crypto Playback_Wire_Facts "HOL-Library.State_Monad"
begin

text \<open>
  \<^verbatim>\<open>features/speaker_assets/include/speaker_assets/sound_asset_store.h\<close> (the storage
  interface) and \<^verbatim>\<open>esp_sound_bank_storage.cpp\<close>: the two flash banks that hold user sounds.
  An operation is a state transformer whose result is a sum, \<open>Inl\<close> an error and \<open>Inr\<close> the
  result of \<^verbatim>\<open>Ok\<close>; the error enums therefore have no constructor for \<^verbatim>\<open>Ok\<close>.

  The flash partitions behind \<^verbatim>\<open>esp_partition_read\<close>, \<^verbatim>\<open>_write\<close> and \<^verbatim>\<open>_erase_range\<close> behave as
  the bank storage of the host tests (\<^verbatim>\<open>host_test/sound_asset_store_tests.cpp\<close>): a write clears bits,
  an erase sets them.  Every access and every processor checkpoint may fail: the list of
  faults in the state says what happens to the accesses to come.  A write or erase that
  fails may have changed any bit of its range that it would have changed, and no other.
\<close>

section \<open>Results and early returns\<close>

definition give :: "'a \<Rightarrow> ('s, 'e + 'a) state" where "give a = State_Monad.return (Inr a)"
definition refuse :: "'e \<Rightarrow> ('s, 'e + 'a) state" where "refuse e = State_Monad.return (Inl e)"

definition require :: "bool \<Rightarrow> 'e \<Rightarrow> ('s, 'e + unit) state" where
  "require b e = (if b then give () else refuse e)"

definition require_some :: "'a option \<Rightarrow> 'e \<Rightarrow> ('s, 'e + 'a) state" where
  "require_some x e = (case x of None \<Rightarrow> refuse e | Some a \<Rightarrow> give a)"

text \<open>The rest of a function after a call whose failure it returns.\<close>

definition proceed :: "('s, 'e + 'a) state \<Rightarrow> ('a \<Rightarrow> ('s, 'e + 'b) state) \<Rightarrow> ('s, 'e + 'b) state" where
  "proceed m f = do { r \<leftarrow> m; case r of Inl e \<Rightarrow> State_Monad.return (Inl e) | Inr a \<Rightarrow> f a }"

definition map_error :: "('e \<Rightarrow> 'f) \<Rightarrow> ('s, 'e + 'a) state \<Rightarrow> ('s, 'f + 'a) state" where
  "map_error g m = do { r \<leftarrow> m; State_Monad.return (case r of Inl e \<Rightarrow> Inl (g e) | Inr a \<Rightarrow> Inr a) }"

text \<open>A loop over indices whose body may return early from the function.\<close>

fun for_each :: "('i \<Rightarrow> 'a \<Rightarrow> ('s, 'e + 'a) state) \<Rightarrow> 'i list \<Rightarrow> 'a \<Rightarrow> ('s, 'e + 'a) state" where
  "for_each body [] acc = give acc"
| "for_each body (i # rest) acc = proceed (body i acc) (for_each body rest)"

lemmas checked_defs = give_def refuse_def require_def require_some_def proceed_def map_error_def

lemma run_state_give [simp]: "run_state (give a) s = (Inr a, s)"
  by (simp add: give_def)

lemma run_state_refuse [simp]: "run_state (refuse e) s = (Inl e, s)"
  by (simp add: refuse_def)

lemma run_state_proceed:
  "run_state (proceed m f) s = (case run_state m s of (Inl e, s') \<Rightarrow> (Inl e, s') | (Inr a, s') \<Rightarrow> run_state (f a) s')"
  by (auto simp: proceed_def split: prod.splits sum.splits)

text \<open>What a successful run did: the equations decompose it into the runs of its parts.\<close>

named_theorems ok_runs \<open>successful runs of the combinators\<close>

lemma proceed_Inr [ok_runs]:
  "run_state (proceed m f) s = (Inr b, s') \<longleftrightarrow>
     (\<exists>a t. run_state m s = (Inr a, t) \<and> run_state (f a) t = (Inr b, s'))"
  by (auto simp: run_state_proceed split: prod.splits sum.splits)

lemma give_Inr [ok_runs]: "run_state (give a) s = (Inr b, s') \<longleftrightarrow> b = a \<and> s' = s"
  by auto

lemma refuse_Inr [ok_runs]: "run_state (refuse e) s = (Inr b, s') \<longleftrightarrow> False"
  by simp

lemma require_Inr [ok_runs]: "run_state (require b e) s = (Inr u, s') \<longleftrightarrow> b \<and> s' = s"
  by (auto simp: require_def)

lemma require_some_Inr [ok_runs]: "run_state (require_some x e) s = (Inr a, s') \<longleftrightarrow> x = Some a \<and> s' = s"
  by (auto simp: require_some_def split: option.splits)

lemma map_error_Inr [ok_runs]: "run_state (map_error g m) s = (Inr a, s') \<longleftrightarrow> run_state m s = (Inr a, s')"
  by (auto simp: map_error_def split: prod.splits sum.splits)

lemma if_Inr [ok_runs]:
  "run_state (if c then m else n) s = (r, s') \<longleftrightarrow> (if c then run_state m s = (r, s') else run_state n s = (r, s'))"
  by simp

text \<open>An invariant of the turns taken so far holds after a loop that ran to its end.\<close>

lemma for_each_from:
  assumes "run_state (for_each body [k..<n] acc) s = (Inr acc', s')" "P k acc s" "k \<le> n"
    "\<And>i acc s acc' s'. i < n \<Longrightarrow> P i acc s \<Longrightarrow> run_state (body i acc) s = (Inr acc', s') \<Longrightarrow> P (Suc i) acc' s'"
  shows "P n acc' s'"
  using assms(1-3)
proof (induction "n - k" arbitrary: k acc s)
  case 0
  then show ?case by (simp add: ok_runs)
next
  case (Suc d)
  then have "[k..<n] = k # [Suc k..<n]" by (simp add: upt_rec)
  then obtain a t where "run_state (body k acc) s = (Inr a, t)" "run_state (for_each body [Suc k..<n] a) t = (Inr acc', s')"
    using Suc.prems(1) by (auto simp: ok_runs)
  then show ?case using Suc.hyps(1) [of "Suc k" a t] assms(4) [of k acc s a t] Suc.hyps(2) Suc.prems by simp
qed

lemma for_each_Inr:
  assumes "run_state (for_each body [0..<n] acc) s = (Inr acc', s')" "P 0 acc s"
    "\<And>i acc s acc' s'. i < n \<Longrightarrow> P i acc s \<Longrightarrow> run_state (body i acc) s = (Inr acc', s') \<Longrightarrow> P (Suc i) acc' s'"
  shows "P n acc' s'"
  using for_each_from [where P = P, OF assms(1,2) le0 assms(3)] .

section \<open>Effects\<close>

text \<open>
  A relation between the states before and after that every state has to itself and that
  composes: the rules show it of a transformer along its structure.
\<close>

locale io_effect =
  fixes R :: "'s \<Rightarrow> 's \<Rightarrow> bool"
  assumes refl: "R s s"
    and trans: "R s t \<Longrightarrow> R t u \<Longrightarrow> R s u"
begin

lemma return: "state_io_rel R (State_Monad.return a)"
  by (simp add: state_io_rel_def refl)

lemma get: "state_io_rel R State_Monad.get"
  by (simp add: state_io_rel_def refl)

lemma bind: "state_io_rel R m \<Longrightarrow> (\<And>a. state_io_rel R (f a)) \<Longrightarrow> state_io_rel R (State_Monad.bind m f)"
  by (simp add: state_io_rel_def split: prod.splits) (metis snd_conv trans)

lemma give: "state_io_rel R (give a)"
  by (simp add: state_io_rel_def refl)

lemma refuse: "state_io_rel R (refuse e)"
  by (simp add: state_io_rel_def refl)

lemma require: "state_io_rel R (require b e)"
  by (simp add: require_def give refuse)

lemma require_some: "state_io_rel R (require_some x e)"
  by (simp add: require_some_def give refuse split: option.splits)

lemma in_sum: "(\<And>a. state_io_rel R (f a)) \<Longrightarrow> (\<And>b. state_io_rel R (g b)) \<Longrightarrow> state_io_rel R (case_sum f g x)"
  by (cases x) simp_all

lemma in_option: "state_io_rel R m \<Longrightarrow> (\<And>b. state_io_rel R (g b)) \<Longrightarrow> state_io_rel R (case_option m g x)"
  by (cases x) simp_all

lemma in_prod: "(\<And>a b. state_io_rel R (f a b)) \<Longrightarrow> state_io_rel R (case_prod f x)"
  by (cases x) simp

lemma in_if: "(b \<Longrightarrow> state_io_rel R m) \<Longrightarrow> (\<not> b \<Longrightarrow> state_io_rel R n) \<Longrightarrow> state_io_rel R (if b then m else n)"
  by simp

lemma in_let: "state_io_rel R (f x) \<Longrightarrow> state_io_rel R (Let x f)"
  by simp

lemma proceed: "state_io_rel R m \<Longrightarrow> (\<And>a. state_io_rel R (f a)) \<Longrightarrow> state_io_rel R (proceed m f)"
  unfolding proceed_def by (intro bind in_sum return)

lemma map_error: "state_io_rel R m \<Longrightarrow> state_io_rel R (map_error g m)"
  unfolding map_error_def by (intro bind return)

lemma for_each: "(\<And>i acc. state_io_rel R (body i acc)) \<Longrightarrow> state_io_rel R (for_each body xs acc)"
proof (induction xs arbitrary: acc)
  case Nil
  then show ?case by (simp add: give)
next
  case (Cons x xs)
  then show ?case by (simp add: proceed)
qed

lemmas rules = for_each return get bind give refuse require require_some in_sum in_option in_prod in_if in_let proceed map_error

end

section \<open>The storage interface\<close>

datatype SoundBankId = BankA | BankB

datatype SoundStorageIoResult = IoInvalidArgument | IoOutOfBounds | IoNotAligned | IoUnavailable | IoIoError

datatype SoundStorageWorkKind = WorkRead | WorkWrite | WorkErase | WorkCrc32 | WorkSha256

definition kSoundBankSize :: nat where "kSoundBankSize = 0x90000"
definition kSoundSectorSize :: nat where "kSoundSectorSize = 0x1000"
definition kSoundStagingHeaderOffset :: nat where "kSoundStagingHeaderOffset = 0"
definition kSoundManifestOffset :: nat where "kSoundManifestOffset = 0x1000"
definition kSoundJournalOffset :: nat where "kSoundJournalOffset = 0x2000"
definition kSoundPayloadOffset :: nat where "kSoundPayloadOffset = 0x3000"
definition kSoundPayloadMaxSize :: nat where "kSoundPayloadMaxSize = 0x80000"
definition kSoundReservedOffset :: nat where "kSoundReservedOffset = 0x83000"
definition kSoundReservedEndOffset :: nat where "kSoundReservedEndOffset = 0x8F000"
definition kSoundCommitOffset :: nat where "kSoundCommitOffset = 0x8F000"
definition kSoundPayloadBlockSize :: nat where "kSoundPayloadBlockSize = kSoundSectorSize"
definition kSoundPayloadBlockCount :: nat where "kSoundPayloadBlockCount = kSoundPayloadMaxSize div kSoundPayloadBlockSize"
definition kSoundTransactionIdBytes :: nat where "kSoundTransactionIdBytes = 16"
definition kSoundMaximumReadLeases :: nat where "kSoundMaximumReadLeases = 8"

lemmas bank_layout = kSoundBankSize_def kSoundSectorSize_def kSoundStagingHeaderOffset_def kSoundManifestOffset_def
  kSoundJournalOffset_def kSoundPayloadOffset_def kSoundPayloadMaxSize_def kSoundReservedOffset_def
  kSoundReservedEndOffset_def kSoundCommitOffset_def kSoundPayloadBlockSize_def kSoundPayloadBlockCount_def

text \<open>
  What an access of the partition driver does next: it works, or it fails with an error after
  it has taken effect on some bits; a set bit of the mask was not reached by a write, and was
  reached by an erase.  An access that works does what is documented of NOR flash: a write leaves
  a cleared bit cleared.  A driver that checks this and refuses such a write, changing nothing, is
  the fault with all bits of the mask set, so that statements over every list of faults cover it.
\<close>

datatype EspError = ESP_ERR_INVALID_ARG | ESP_ERR_INVALID_SIZE | ESP_ERR_NOT_ALLOWED | ESP_FAIL
datatype StorageFault = Works | Fails EspError "nat \<Rightarrow> u8"

record sound_flash =
  sf_open :: bool
  sf_bank :: "SoundBankId \<Rightarrow> bytes"
  sf_faults :: "StorageFault list"

definition region :: "bytes \<Rightarrow> nat \<Rightarrow> nat \<Rightarrow> bytes" where
  "region content offset len = take len (drop offset content)"

definition map_esp_result :: "EspError \<Rightarrow> SoundStorageIoResult" where
  "map_esp_result result =
     (case result of
        ESP_ERR_INVALID_ARG \<Rightarrow> IoInvalidArgument
      | ESP_ERR_INVALID_SIZE \<Rightarrow> IoOutOfBounds
      | ESP_ERR_NOT_ALLOWED \<Rightarrow> IoUnavailable
      | ESP_FAIL \<Rightarrow> IoIoError)"

definition next_fault :: "('z sound_flash_scheme, StorageFault) state" where
  "next_fault = State (\<lambda>s. case sf_faults s of [] \<Rightarrow> (Works, s) | f # fs \<Rightarrow> (f, s\<lparr>sf_faults := fs\<rparr>))"

definition change_bytes :: "bytes \<Rightarrow> nat \<Rightarrow> (nat \<Rightarrow> u8 \<Rightarrow> u8) \<Rightarrow> nat \<Rightarrow> bytes" where
  "change_bytes content offset change len =
     buffer_put content offset (map (\<lambda>i. change i (content ! (offset + i))) [0..<min len (length content - offset)])"

definition change_bank :: "SoundBankId \<Rightarrow> nat \<Rightarrow> (nat \<Rightarrow> u8 \<Rightarrow> u8) \<Rightarrow> nat \<Rightarrow> ('z sound_flash_scheme, unit) state" where
  "change_bank bank offset change len =
     State_Monad.update (\<lambda>s. s\<lparr>sf_bank := (sf_bank s)(bank := change_bytes (sf_bank s bank) offset change len)\<rparr>)"

definition partition_read :: "SoundBankId \<Rightarrow> nat \<Rightarrow> nat \<Rightarrow> ('z sound_flash_scheme, EspError + bytes) state" where
  "partition_read bank offset len = do {
     f \<leftarrow> next_fault;
     case f of
       Works \<Rightarrow> do { s \<leftarrow> State_Monad.get; give (region (sf_bank s bank) offset len) }
     | Fails e m \<Rightarrow> refuse e }"

definition partition_write :: "SoundBankId \<Rightarrow> nat \<Rightarrow> bytes \<Rightarrow> ('z sound_flash_scheme, EspError + unit) state" where
  "partition_write bank offset data = do {
     f \<leftarrow> next_fault;
     case f of
       Works \<Rightarrow> do { change_bank bank offset (\<lambda>i old. old AND data ! i) (length data); give () }
     | Fails e m \<Rightarrow> do { change_bank bank offset (\<lambda>i old. old AND (data ! i OR m i)) (length data); refuse e } }"

definition partition_erase_range :: "SoundBankId \<Rightarrow> nat \<Rightarrow> nat \<Rightarrow> ('z sound_flash_scheme, EspError + unit) state" where
  "partition_erase_range bank offset len = do {
     f \<leftarrow> next_fault;
     case f of
       Works \<Rightarrow> do { change_bank bank offset (\<lambda>i old. 0xFF) len; give () }
     | Fails e m \<Rightarrow> do { change_bank bank offset (\<lambda>i old. old OR m i) len; refuse e } }"

section \<open>The storage on the partitions\<close>

definition range_is_valid :: "nat \<Rightarrow> nat \<Rightarrow> bool" where
  "range_is_valid offset len \<longleftrightarrow> offset \<le> kSoundBankSize \<and> len \<le> kSoundBankSize - offset"

definition partition_for :: "SoundBankId \<Rightarrow> ('z sound_flash_scheme, SoundStorageIoResult + unit) state" where
  "partition_for bank = do { s \<leftarrow> State_Monad.get; require (sf_open s) IoUnavailable }"

definition bank_read :: "SoundBankId \<Rightarrow> nat \<Rightarrow> nat \<Rightarrow> ('z sound_flash_scheme, SoundStorageIoResult + bytes) state" where
  "bank_read bank offset len =
     proceed (partition_for bank) (\<lambda>_.
     proceed (require (range_is_valid offset len) IoOutOfBounds) (\<lambda>_.
     if len = 0 then give [] else map_error map_esp_result (partition_read bank offset len)))"

definition bank_write :: "SoundBankId \<Rightarrow> nat \<Rightarrow> bytes \<Rightarrow> ('z sound_flash_scheme, SoundStorageIoResult + unit) state" where
  "bank_write bank offset data =
     proceed (partition_for bank) (\<lambda>_.
     proceed (require (range_is_valid offset (length data)) IoOutOfBounds) (\<lambda>_.
     if data = [] then give () else map_error map_esp_result (partition_write bank offset data)))"

definition bank_erase :: "SoundBankId \<Rightarrow> nat \<Rightarrow> nat \<Rightarrow> ('z sound_flash_scheme, SoundStorageIoResult + unit) state" where
  "bank_erase bank offset len =
     proceed (partition_for bank) (\<lambda>_.
     proceed (require (range_is_valid offset len) IoOutOfBounds) (\<lambda>_.
     proceed (require (offset mod kSoundSectorSize = 0 \<and> len mod kSoundSectorSize = 0) IoNotAligned) (\<lambda>_.
     if len = 0 then give () else map_error map_esp_result (partition_erase_range bank offset len))))"

text \<open>
  The checkpoint before a piece of hashing: the base class accepts, the cooperative storage of
  the firmware may refuse.  Completing a checkpoint has no effect on this state.
\<close>

definition checkpoint :: "SoundStorageWorkKind \<Rightarrow> SoundBankId \<Rightarrow> nat \<Rightarrow> nat \<Rightarrow> ('z sound_flash_scheme, SoundStorageIoResult + unit) state" where
  "checkpoint kind bank offset len = do {
     f \<leftarrow> next_fault;
     case f of Works \<Rightarrow> give () | Fails e m \<Rightarrow> refuse (map_esp_result e) }"

section \<open>Opening the partitions\<close>

record EspPartition =
  ep_type :: nat
  ep_subtype :: nat
  ep_address :: u32
  ep_size :: nat
  ep_erase_size :: nat
  ep_encrypted :: bool
  ep_readonly :: bool
  ep_label :: string

definition descriptor_matches :: "EspPartition option \<Rightarrow> string \<Rightarrow> nat \<Rightarrow> u32 \<Rightarrow> bool" where
  "descriptor_matches descriptor expected_label expected_subtype expected_address \<longleftrightarrow>
     (case descriptor of
        None \<Rightarrow> False
      | Some p \<Rightarrow> ep_type p = 0x40 \<and> ep_subtype p = expected_subtype \<and> ep_address p = expected_address \<and>
          ep_size p = kSoundBankSize \<and> ep_erase_size p = kSoundSectorSize \<and>
          \<not> ep_encrypted p \<and> \<not> ep_readonly p \<and> ep_label p = expected_label)"

text \<open>The lookup of a partition by type, subtype and label is the platform's.\<close>

definition esp_open ::
  "(nat \<Rightarrow> nat \<Rightarrow> string \<Rightarrow> EspPartition option) \<Rightarrow> SoundStorageIoResult + EspPartition \<times> EspPartition" where
  "esp_open find_first =
     (let bank_a = find_first 0x40 0 ''sound_a''; bank_b = find_first 0x40 1 ''sound_b''
      in if \<not> descriptor_matches bank_a ''sound_a'' 0 0x310000 \<or> \<not> descriptor_matches bank_b ''sound_b'' 1 0x3A0000
         then Inl IoUnavailable else Inr (the bank_a, the bank_b))"


section \<open>What the storage does\<close>

text \<open>Reading and checkpoints only use up faults.\<close>

definition same_flash :: "'z sound_flash_scheme \<Rightarrow> 'z sound_flash_scheme \<Rightarrow> bool" where
  "same_flash s s' \<longleftrightarrow> s' = s\<lparr>sf_faults := sf_faults s'\<rparr>"

text \<open>Nothing outside one bank changes, other than the faults.\<close>

definition only_bank :: "SoundBankId \<Rightarrow> 'z sound_flash_scheme \<Rightarrow> 'z sound_flash_scheme \<Rightarrow> bool" where
  "only_bank bank s s' \<longleftrightarrow>
     s' = s\<lparr>sf_bank := (sf_bank s)(bank := sf_bank s' bank), sf_faults := sf_faults s'\<rparr> \<and>
     length (sf_bank s' bank) = length (sf_bank s bank)"

lemma same_flash_refl [simp]: "same_flash s s"
  by (simp add: same_flash_def)

interpretation reading: io_effect same_flash
proof
  show "same_flash s s" for s :: "'z sound_flash_scheme" by simp
  show "same_flash s u" if "same_flash s t" "same_flash t u" for s t u :: "'z sound_flash_scheme"
    using that by (cases s; cases t; cases u) (simp add: same_flash_def)
qed

interpretation writing: io_effect "only_bank bank" for bank
proof
  show "only_bank bank s s" for s :: "'z sound_flash_scheme" by (simp add: only_bank_def)
  show "only_bank bank s u" if "only_bank bank s t" "only_bank bank t u" for s t u :: "'z sound_flash_scheme"
    using that by (cases s; cases t; cases u) (simp add: only_bank_def, metis fun_upd_upd)
qed

lemma same_flash_only_bank: "same_flash s s' \<Longrightarrow> only_bank bank s s'"
  by (cases s; cases s') (simp add: same_flash_def only_bank_def)

lemma reading_writing: "state_io_rel same_flash m \<Longrightarrow> state_io_rel (only_bank bank) m"
  by (auto simp: state_io_rel_def intro: same_flash_only_bank)

lemma next_fault_reading: "state_io_rel same_flash next_fault"
  by (simp add: state_io_rel_def next_fault_def same_flash_def split: list.splits)

lemma bank_read_reading: "state_io_rel same_flash (bank_read bank offset len)"
  unfolding bank_read_def partition_for_def partition_read_def
  by (intro reading.rules next_fault_reading; simp split: StorageFault.splits add: reading.rules)

lemma checkpoint_reading: "state_io_rel same_flash (checkpoint kind bank offset len)"
  unfolding checkpoint_def
  by (intro reading.rules next_fault_reading; simp split: StorageFault.splits add: reading.rules)

lemma length_change_bytes [simp]: "length (change_bytes content offset change len) = length content"
proof -
  have "min (length content) offset + (min len (length content - offset) +
      (length content - (offset + min len (length content - offset)))) = length content" by arith
  then show ?thesis by (simp add: change_bytes_def buffer_put_def)
qed

lemma change_bank_writing: "state_io_rel (only_bank bank) (change_bank bank offset change len)"
  by (simp add: state_io_rel_def change_bank_def only_bank_def State_Monad.update_def)

lemma bank_write_writing: "state_io_rel (only_bank bank) (bank_write bank offset data)"
  unfolding bank_write_def partition_for_def partition_write_def
  by (intro writing.rules reading_writing [OF next_fault_reading];
      simp split: StorageFault.splits add: writing.rules change_bank_writing)

lemma bank_erase_writing: "state_io_rel (only_bank bank) (bank_erase bank offset len)"
  unfolding bank_erase_def partition_for_def partition_erase_range_def
  by (intro writing.rules reading_writing [OF next_fault_reading];
      simp split: StorageFault.splits add: writing.rules change_bank_writing)

lemma length_region: "offset + len \<le> length content \<Longrightarrow> length (region content offset len) = len"
  by (simp add: region_def)

lemma bank_read_Inr:
  assumes "run_state (bank_read bank offset len) s = (Inr bs, s')"
  shows "same_flash s s' \<and> bs = region (sf_bank s bank) offset len \<and> offset + len \<le> kSoundBankSize"
proof -
  have "same_flash s s'" using bank_read_reading assms by (metis state_io_relD)
  moreover have "bs = region (sf_bank s bank) offset len \<and> range_is_valid offset len"
    using assms
    by (auto simp: bank_read_def partition_for_def partition_read_def next_fault_def ok_runs region_def
        split: if_splits StorageFault.splits list.splits)
  ultimately show ?thesis by (auto simp: range_is_valid_def)
qed

lemma checkpoint_Inr: "run_state (checkpoint kind bank offset len) s = (Inr u, s') \<Longrightarrow> same_flash s s'"
  using checkpoint_reading by (metis state_io_relD)

lemma same_flash_bank: "same_flash s s' \<Longrightarrow> sf_bank s' = sf_bank s"
  by (cases s; cases s') (simp add: same_flash_def)

end
