(* ===== verification/Sound_Format.thy ===== *)
theory Sound_Format
  imports Sound_Flash
begin

text \<open>
  \<^verbatim>\<open>features/speaker_assets/sound_asset_format.cpp\<close>: the check of a sound bundle in a flash
  bank (its manifest, the IMA ADPCM resources and the mapping of triggers to resources) and
  the two digests of a bank.  32-bit and 16-bit numbers read from flash are naturals; the
  checked additions and multiplications of the code, and its one unchecked subtraction, carry
  their width.  What an out-parameter holds after a failure is not modelled.
\<close>

datatype SoundFormatResult =
  FmtInvalidArgument | FmtIoError | FmtInvalidManifest | FmtInvalidResource | FmtInvalidMapping | FmtHashMismatch

record SoundManifestSummary =
  ms_manifest_bytes :: nat
  ms_payload_bytes :: nat
  ms_resource_count :: nat
  ms_mapping_count :: nat

definition kManifestHeaderBytes :: nat where "kManifestHeaderBytes = 32"
definition kResourceRecordBytes :: nat where "kResourceRecordBytes = 48"
definition kMappingRecordBytes :: nat where "kMappingRecordBytes = 4"
definition kManifestVersion :: u16 where "kManifestVersion = 1"
definition kMaximumResourceCount :: nat where "kMaximumResourceCount = 64"
definition kMaximumMappingCount :: nat where "kMaximumMappingCount = 64"
definition kMaximumBootSamples :: nat where "kMaximumBootSamples = 384000"
definition kMaximumActionSamples :: nat where "kMaximumActionSamples = 96000"
definition kImaAdpcmCodec :: u8 where "kImaAdpcmCodec = 1"
definition kMonoChannels :: u8 where "kMonoChannels = 1"
definition kImaAdpcmVersion :: u8 where "kImaAdpcmVersion = 1"
definition kImaAdpcmSampleRate :: nat where "kImaAdpcmSampleRate = 48000"
definition kImaAdpcmFrameSamples :: nat where "kImaAdpcmFrameSamples = 480"
definition kImaAdpcmHeaderBytes :: nat where "kImaAdpcmHeaderBytes = 20"
definition kImaAdpcmFrameHeaderBytes :: nat where "kImaAdpcmFrameHeaderBytes = 6"
definition kImaAdpcmStepCount :: u8 where "kImaAdpcmStepCount = 89"
definition kBootTrigger :: u8 where "kBootTrigger = 1"
definition kKeyTrigger :: u8 where "kKeyTrigger = 2"
definition kEncoderLeftTrigger :: u8 where "kEncoderLeftTrigger = 3"
definition kEncoderRightTrigger :: u8 where "kEncoderRightTrigger = 4"
definition kEncoderPressTrigger :: u8 where "kEncoderPressTrigger = 5"
definition kSha256FinishBudgetBytes :: nat where "kSha256FinishBudgetBytes = 128"
definition kManifestMagic :: bytes where "kManifestMagic = [0x45, 0x49, 0x53, 0x4D]"
definition kImaAdpcmMagic :: bytes where "kImaAdpcmMagic = [0x45, 0x49, 0x41, 0x44]"
definition kBundleDomain :: bytes where
  "kBundleDomain = [0x45, 0x41, 0x53, 0x59, 0x49, 0x4E, 0x50, 0x55, 0x54, 0x2D, 0x53, 0x4E, 0x44, 0x2D, 0x56, 0x31]"

lemmas format_sizes = kManifestHeaderBytes_def kResourceRecordBytes_def kMappingRecordBytes_def kMaximumResourceCount_def
  kMaximumMappingCount_def kMaximumBootSamples_def kMaximumActionSamples_def kImaAdpcmFrameSamples_def
  kImaAdpcmHeaderBytes_def kImaAdpcmFrameHeaderBytes_def

record ResourceRecord =
  rr_sha256 :: bytes
  rr_payload_offset :: nat
  rr_encoded_bytes :: nat
  rr_decoded_samples :: nat
  rr_frame_count :: nat
  rr_codec :: u8
  rr_channels :: u8

record MappingRecord =
  mr_trigger :: u8
  mr_index :: u8
  mr_resource_index :: nat

section \<open>Bytes and numbers\<close>

definition read_le16 :: "bytes \<Rightarrow> nat \<Rightarrow> u16" where
  "read_le16 bs i = ucast (bs ! i) OR push_bit 8 (ucast (bs ! (i + 1)))"

definition read_le32 :: "bytes \<Rightarrow> nat \<Rightarrow> u32" where
  "read_le32 bs i = ucast (bs ! i) OR push_bit 8 (ucast (bs ! (i + 1))) OR push_bit 16 (ucast (bs ! (i + 2))) OR
     push_bit 24 (ucast (bs ! (i + 3)))"

definition write_le32 :: "u32 \<Rightarrow> bytes" where
  "write_le32 v = [ucast v, ucast (drop_bit 8 v), ucast (drop_bit 16 v), ucast (drop_bit 24 v)]"

definition checked_add :: "nat \<Rightarrow> nat \<Rightarrow> nat option" where
  "checked_add first second = (if 2 ^ 32 - 1 - first < second then None else Some (first + second))"

definition checked_multiply :: "nat \<Rightarrow> nat \<Rightarrow> nat option" where
  "checked_multiply first second =
     (if first \<noteq> 0 \<and> (2 ^ 32 - 1) div first < second then None else Some (first * second))"

definition subtract_u32 :: "nat \<Rightarrow> nat \<Rightarrow> nat" where
  "subtract_u32 first second = (first + 2 ^ 32 - second) mod 2 ^ 32"

definition bytes_equal :: "bytes \<Rightarrow> bytes \<Rightarrow> bool" where
  "bytes_equal bs expected \<longleftrightarrow> list_all (\<lambda>index. bs ! index = expected ! index) [0..<length expected]"

definition bytes_are_zero :: "bytes \<Rightarrow> bool" where
  "bytes_are_zero bs \<longleftrightarrow> foldl (OR) 0 bs = (0 :: u8)"

definition manifest_shape_is_valid :: "nat \<Rightarrow> nat \<Rightarrow> nat \<Rightarrow> bool" where
  "manifest_shape_is_valid resource_count mapping_count manifest_bytes \<longleftrightarrow>
     \<not> (resource_count > kMaximumResourceCount \<or> mapping_count > kMaximumMappingCount) \<and>
     do { resource_bytes \<leftarrow> checked_multiply resource_count kResourceRecordBytes;
          mapping_bytes \<leftarrow> checked_multiply mapping_count kMappingRecordBytes;
          exact_bytes \<leftarrow> checked_add kManifestHeaderBytes resource_bytes;
          checked_add exact_bytes mapping_bytes } = Some manifest_bytes"

section \<open>Reading records\<close>

definition fmt_read :: "SoundBankId \<Rightarrow> nat \<Rightarrow> nat \<Rightarrow> ('z sound_flash_scheme, SoundFormatResult + bytes) state" where
  "fmt_read bank offset len = map_error (\<lambda>_. FmtIoError) (bank_read bank offset len)"

definition decode_resource_record :: "bytes \<Rightarrow> ResourceRecord" where
  "decode_resource_record encoded =
     \<lparr>rr_sha256 = take 32 encoded, rr_payload_offset = unat (read_le32 encoded 32), rr_encoded_bytes = unat (read_le32 encoded 36),
      rr_decoded_samples = unat (read_le32 encoded 40), rr_frame_count = unat (read_le16 encoded 44),
      rr_codec = encoded ! 46, rr_channels = encoded ! 47\<rparr>"

definition read_resource_record :: "SoundBankId \<Rightarrow> nat \<Rightarrow> ('z sound_flash_scheme, SoundFormatResult + ResourceRecord) state" where
  "read_resource_record bank resource_index =
     proceed (require_some
       (do { record_delta \<leftarrow> checked_multiply resource_index kResourceRecordBytes;
             manifest_offset \<leftarrow> checked_add kManifestHeaderBytes record_delta;
             checked_add kSoundManifestOffset manifest_offset }) FmtInvalidManifest) (\<lambda>bank_offset.
     proceed (fmt_read bank bank_offset kResourceRecordBytes) (\<lambda>encoded.
     give (decode_resource_record encoded)))"

definition decode_mapping_record :: "bytes \<Rightarrow> MappingRecord" where
  "decode_mapping_record encoded =
     \<lparr>mr_trigger = encoded ! 0, mr_index = encoded ! 1, mr_resource_index = unat (read_le16 encoded 2)\<rparr>"

definition read_mapping_record ::
  "SoundBankId \<Rightarrow> nat \<Rightarrow> nat \<Rightarrow> ('z sound_flash_scheme, SoundFormatResult + MappingRecord) state" where
  "read_mapping_record bank resource_count mapping_index =
     proceed (require_some
       (do { resource_bytes \<leftarrow> checked_multiply resource_count kResourceRecordBytes;
             mapping_delta \<leftarrow> checked_multiply mapping_index kMappingRecordBytes;
             manifest_offset \<leftarrow> checked_add kManifestHeaderBytes resource_bytes;
             manifest_offset \<leftarrow> checked_add manifest_offset mapping_delta;
             checked_add kSoundManifestOffset manifest_offset }) FmtInvalidManifest) (\<lambda>bank_offset.
     proceed (fmt_read bank bank_offset kMappingRecordBytes) (\<lambda>encoded.
     give (decode_mapping_record encoded)))"

section \<open>Digests\<close>

definition hash_bytes ::
  "SoundBankId \<Rightarrow> nat \<Rightarrow> SoundSha256 \<Rightarrow> bytes \<Rightarrow> ('z sound_flash_scheme, SoundFormatResult + SoundSha256) state" where
  "hash_bytes bank offset hash data =
     proceed (map_error (\<lambda>_. FmtIoError) (checkpoint WorkSha256 bank offset (length data))) (\<lambda>_.
     case sha_update hash data of (updated, hash') \<Rightarrow> if updated then give hash' else refuse FmtInvalidArgument)"

text \<open>The loop over pieces of at most 256 bytes, from the bytes consumed so far.\<close>

function hash_bank_range ::
  "SoundBankId \<Rightarrow> nat \<Rightarrow> nat \<Rightarrow> nat \<Rightarrow> SoundSha256 \<Rightarrow> SoundSha256 option \<Rightarrow>
   ('z sound_flash_scheme, SoundFormatResult + SoundSha256 \<times> SoundSha256 option) state" where
  "hash_bank_range bank offset len consumed primary secondary =
     (if consumed < len then
        let chunk = min (len - consumed) 256 in
        proceed (require_some (checked_add offset consumed) FmtInvalidArgument) (\<lambda>read_offset.
        proceed (fmt_read bank read_offset chunk) (\<lambda>buffer.
        proceed (hash_bytes bank read_offset primary buffer) (\<lambda>primary'.
        proceed (case secondary of
                   None \<Rightarrow> give None
                 | Some hash \<Rightarrow> proceed (hash_bytes bank read_offset hash buffer) (\<lambda>hash'. give (Some hash'))) (\<lambda>secondary'.
        hash_bank_range bank offset len (consumed + chunk) primary' secondary'))))
      else give (primary, secondary))"
  by pat_completeness auto
termination by (relation "measure (\<lambda>(bank, offset, len, consumed, primary, secondary). len - consumed)") auto

declare hash_bank_range.simps [simp del]

definition finish_hash :: "SoundBankId \<Rightarrow> nat \<Rightarrow> SoundSha256 \<Rightarrow> ('z sound_flash_scheme, SoundFormatResult + bytes) state" where
  "finish_hash bank offset hash =
     proceed (map_error (\<lambda>_. FmtIoError) (checkpoint WorkSha256 bank offset kSha256FinishBudgetBytes)) (\<lambda>_.
     give (fst (sha_finish hash)))"

definition calculate_resource_digest ::
  "SoundBankId \<Rightarrow> ResourceRecord \<Rightarrow> ('z sound_flash_scheme, SoundFormatResult + bytes) state" where
  "calculate_resource_digest bank r =
     proceed (require_some (checked_add kSoundPayloadOffset (rr_payload_offset r)) FmtInvalidResource) (\<lambda>resource_offset.
     proceed (hash_bank_range bank resource_offset (rr_encoded_bytes r) 0 sha_reset None) (\<lambda>(hash, _).
     finish_hash bank resource_offset hash))"

section \<open>Resources\<close>

text \<open>One turn of the loop over the frames: the cursor and the samples seen so far.\<close>

definition eiad_frame ::
  "SoundBankId \<Rightarrow> ResourceRecord \<Rightarrow> nat \<Rightarrow> nat \<Rightarrow> nat \<times> nat \<Rightarrow> ('z sound_flash_scheme, SoundFormatResult + nat \<times> nat) state" where
  "eiad_frame bank r resource_offset frame_index = (\<lambda>(cursor, observed_samples).
     proceed (require (\<not> (cursor > rr_encoded_bytes r \<or> kImaAdpcmFrameHeaderBytes > rr_encoded_bytes r - cursor)) FmtInvalidResource) (\<lambda>_.
     proceed (require_some (checked_add resource_offset cursor) FmtInvalidResource) (\<lambda>frame_offset.
     proceed (fmt_read bank frame_offset kImaAdpcmFrameHeaderBytes) (\<lambda>frame_header.
     let sample_count = unat (read_le16 frame_header 0);
         final_frame = (frame_index + 1 = rr_frame_count r);
         expected_samples = (if final_frame then subtract_u32 (rr_decoded_samples r) observed_samples else kImaAdpcmFrameSamples)
     in
     proceed (require (\<not> (sample_count = 0 \<or> sample_count > kImaAdpcmFrameSamples \<or> sample_count \<noteq> expected_samples \<or>
         frame_header ! 4 \<ge> kImaAdpcmStepCount \<or> frame_header ! 5 \<noteq> 0)) FmtInvalidResource) (\<lambda>_.
     proceed (require_some (checked_add cursor kImaAdpcmFrameHeaderBytes) FmtInvalidResource) (\<lambda>cursor.
     let encoded_sample_bytes = sample_count div 2 in
     proceed (require (\<not> (cursor > rr_encoded_bytes r \<or> encoded_sample_bytes > rr_encoded_bytes r - cursor)) FmtInvalidResource) (\<lambda>_.
     proceed
       (if sample_count mod 2 = 0 \<and> encoded_sample_bytes \<noteq> 0 then
          proceed (require_some
            (do { final_payload_byte \<leftarrow> checked_add cursor (encoded_sample_bytes - 1);
                  checked_add resource_offset final_payload_byte }) FmtInvalidResource) (\<lambda>padding_offset.
          proceed (fmt_read bank padding_offset 1) (\<lambda>padding.
          require ((padding ! 0) AND 0xF0 = 0) FmtInvalidResource))
        else give ()) (\<lambda>_.
     require_some
       (do { cursor \<leftarrow> checked_add cursor encoded_sample_bytes;
             observed_samples \<leftarrow> checked_add observed_samples sample_count;
             Some (cursor, observed_samples) }) FmtInvalidResource))))))))"

definition validate_eiad_resource :: "SoundBankId \<Rightarrow> ResourceRecord \<Rightarrow> ('z sound_flash_scheme, SoundFormatResult + unit) state" where
  "validate_eiad_resource bank r =
     proceed (require (\<not> (rr_encoded_bytes r < kImaAdpcmHeaderBytes \<or> rr_decoded_samples r = 0 \<or>
         rr_decoded_samples r > kMaximumBootSamples \<or> rr_frame_count r = 0 \<or>
         rr_frame_count r \<noteq> 1 + (rr_decoded_samples r - 1) div kImaAdpcmFrameSamples \<or>
         rr_codec r \<noteq> kImaAdpcmCodec \<or> rr_channels r \<noteq> kMonoChannels)) FmtInvalidResource) (\<lambda>_.
     proceed (require_some (checked_add kSoundPayloadOffset (rr_payload_offset r)) FmtInvalidResource) (\<lambda>resource_offset.
     proceed (fmt_read bank resource_offset kImaAdpcmHeaderBytes) (\<lambda>header.
     proceed (require (\<not> (\<not> bytes_equal header kImaAdpcmMagic \<or> header ! 4 \<noteq> kImaAdpcmVersion \<or> header ! 5 \<noteq> kMonoChannels \<or>
         unat (read_le32 header 6) \<noteq> kImaAdpcmSampleRate \<or> unat (read_le16 header 10) \<noteq> kImaAdpcmFrameSamples \<or>
         unat (read_le16 header 12) \<noteq> rr_frame_count r \<or> unat (read_le32 header 14) \<noteq> rr_decoded_samples r \<or>
         unat (read_le16 header 18) \<noteq> kImaAdpcmHeaderBytes)) FmtInvalidResource) (\<lambda>_.
     proceed (for_each (eiad_frame bank r resource_offset) [0..<rr_frame_count r] (kImaAdpcmHeaderBytes, 0)) (\<lambda>(cursor, observed_samples).
     require (cursor = rr_encoded_bytes r \<and> observed_samples = rr_decoded_samples r) FmtInvalidResource)))))"

definition validate_unique_resource_sha ::
  "SoundBankId \<Rightarrow> nat \<Rightarrow> bytes \<Rightarrow> ('z sound_flash_scheme, SoundFormatResult + unit) state" where
  "validate_unique_resource_sha bank resource_index digest =
     for_each (\<lambda>previous_index _.
       proceed (read_resource_record bank previous_index) (\<lambda>previous.
       require (\<not> sound_digest_equal (rr_sha256 previous) digest) FmtInvalidResource)) [0..<resource_index] ()"

text \<open>One turn of the loop over the resources: the payload offset expected next.\<close>

definition validate_resource ::
  "SoundBankId \<Rightarrow> nat \<Rightarrow> nat \<Rightarrow> nat \<Rightarrow> ('z sound_flash_scheme, SoundFormatResult + nat) state" where
  "validate_resource bank payload_bytes resource_index expected_payload_offset =
     proceed (read_resource_record bank resource_index) (\<lambda>r.
     proceed (require (\<not> (rr_payload_offset r \<noteq> expected_payload_offset \<or> rr_encoded_bytes r = 0 \<or>
         rr_payload_offset r > payload_bytes \<or> rr_encoded_bytes r > payload_bytes - rr_payload_offset r)) FmtInvalidResource) (\<lambda>_.
     proceed (require_some (checked_add (rr_payload_offset r) (rr_encoded_bytes r)) FmtInvalidResource) (\<lambda>expected.
     proceed (validate_unique_resource_sha bank resource_index (rr_sha256 r)) (\<lambda>_.
     proceed (validate_eiad_resource bank r) (\<lambda>_.
     proceed (calculate_resource_digest bank r) (\<lambda>observed_digest.
     proceed (require (sound_digest_equal (rr_sha256 r) observed_digest) FmtHashMismatch) (\<lambda>_.
     give expected)))))))"

section \<open>Mappings\<close>

definition mapping_target_bit :: "MappingRecord \<Rightarrow> u16 option" where
  "mapping_target_bit mapping =
     (let bit_index =
        (if mr_trigger mapping = kBootTrigger then (if mr_index mapping \<noteq> 0 then None else Some 0)
         else if mr_trigger mapping = kKeyTrigger
           then (if mr_index mapping < 1 \<or> mr_index mapping > 8 then None else Some (unat (mr_index mapping)))
         else if mr_trigger mapping \<in> set [kEncoderLeftTrigger, kEncoderRightTrigger, kEncoderPressTrigger]
           then (if mr_index mapping \<noteq> 0 then None else Some (9 + unat (mr_trigger mapping) - unat kEncoderLeftTrigger))
         else None)
      in map_option (\<lambda>bit. push_bit bit 1) bit_index)"

definition complete_resource_mask :: "nat \<Rightarrow> u64" where
  "complete_resource_mask resource_count =
     (if resource_count = 0 then 0 else if resource_count = 64 then - 1 else push_bit resource_count 1 - 1)"

text \<open>One turn of the loop over the mappings: the targets seen and the resources referenced.\<close>

definition validate_mapping ::
  "SoundBankId \<Rightarrow> nat \<Rightarrow> nat \<Rightarrow> u16 \<times> u64 \<Rightarrow> ('z sound_flash_scheme, SoundFormatResult + u16 \<times> u64) state" where
  "validate_mapping bank resource_count mapping_index = (\<lambda>(seen_targets, referenced_resources).
     proceed (read_mapping_record bank resource_count mapping_index) (\<lambda>mapping.
     proceed (require_some (mapping_target_bit mapping) FmtInvalidMapping) (\<lambda>target_bit.
     proceed (require (\<not> (seen_targets AND target_bit \<noteq> 0 \<or> mr_resource_index mapping \<ge> resource_count)) FmtInvalidMapping) (\<lambda>_.
     proceed (read_resource_record bank (mr_resource_index mapping)) (\<lambda>referenced.
     let sample_limit = (if mr_trigger mapping = kBootTrigger then kMaximumBootSamples else kMaximumActionSamples) in
     proceed (require (\<not> (rr_decoded_samples referenced > sample_limit)) FmtInvalidMapping) (\<lambda>_.
     give (seen_targets OR target_bit, referenced_resources OR push_bit (mr_resource_index mapping) 1)))))))"

section \<open>The bundle\<close>

definition validate_sound_manifest ::
  "SoundBankId \<Rightarrow> nat \<Rightarrow> nat \<Rightarrow> ('z sound_flash_scheme, SoundFormatResult + SoundManifestSummary) state" where
  "validate_sound_manifest bank manifest_bytes payload_bytes =
     proceed (require (\<not> (manifest_bytes < kManifestHeaderBytes \<or> manifest_bytes > kSoundSectorSize \<or>
         payload_bytes > kSoundPayloadMaxSize)) FmtInvalidArgument) (\<lambda>_.
     proceed (fmt_read bank kSoundManifestOffset kManifestHeaderBytes) (\<lambda>header.
     let resource_count = unat (read_le16 header 16); mapping_count = unat (read_le16 header 18) in
     proceed (require (\<not> (\<not> bytes_equal header kManifestMagic \<or> read_le16 header 4 \<noteq> kManifestVersion \<or>
         unat (read_le16 header 6) \<noteq> kManifestHeaderBytes \<or> unat (read_le32 header 8) \<noteq> manifest_bytes \<or>
         unat (read_le32 header 12) \<noteq> payload_bytes \<or> \<not> bytes_are_zero (region header 20 12) \<or>
         \<not> manifest_shape_is_valid resource_count mapping_count manifest_bytes)) FmtInvalidManifest) (\<lambda>_.
     proceed (for_each (validate_resource bank payload_bytes) [0..<resource_count] 0) (\<lambda>expected_payload_offset.
     proceed (require (\<not> (expected_payload_offset \<noteq> payload_bytes)) FmtInvalidResource) (\<lambda>_.
     proceed (for_each (validate_mapping bank resource_count) [0..<mapping_count] (0, 0)) (\<lambda>(seen_targets, referenced_resources).
     proceed (require (\<not> (referenced_resources \<noteq> complete_resource_mask resource_count)) FmtInvalidMapping) (\<lambda>_.
     give \<lparr>ms_manifest_bytes = manifest_bytes, ms_payload_bytes = payload_bytes,
           ms_resource_count = resource_count, ms_mapping_count = mapping_count\<rparr>)))))))"

definition calculate_sound_bank_digests ::
  "SoundBankId \<Rightarrow> nat \<Rightarrow> nat \<Rightarrow> ('z sound_flash_scheme, SoundFormatResult + bytes \<times> bytes) state" where
  "calculate_sound_bank_digests bank manifest_bytes payload_bytes =
     proceed (require (\<not> (manifest_bytes < kManifestHeaderBytes \<or> manifest_bytes > kSoundSectorSize \<or>
         payload_bytes > kSoundPayloadMaxSize)) FmtInvalidArgument) (\<lambda>_.
     let manifest_length = write_le32 (of_nat manifest_bytes);
         payload_length = write_le32 (of_nat payload_bytes);
         bundle_prefix = kBundleDomain @ manifest_length
     in
     proceed (hash_bytes bank kSoundManifestOffset sha_reset bundle_prefix) (\<lambda>bundle_hash.
     proceed (hash_bank_range bank kSoundManifestOffset manifest_bytes 0 sha_reset (Some bundle_hash)) (\<lambda>(manifest_hash, bundle_hash).
     proceed (finish_hash bank kSoundManifestOffset manifest_hash) (\<lambda>manifest_digest.
     proceed (hash_bytes bank kSoundPayloadOffset (the bundle_hash) payload_length) (\<lambda>bundle_hash.
     proceed (hash_bank_range bank kSoundPayloadOffset payload_bytes 0 bundle_hash None) (\<lambda>(bundle_hash, _).
     proceed (finish_hash bank kSoundPayloadOffset bundle_hash) (\<lambda>bundle_digest.
     give (manifest_digest, bundle_digest))))))))"

end
