(* ===== verification/Sound_Store.thy ===== *)
theory Sound_Store
  imports Sound_Format
begin

text \<open>
  \<^verbatim>\<open>features/speaker_assets/include/speaker_assets/sound_asset_store.h\<close> and
  \<^verbatim>\<open>sound_asset_store.cpp\<close>: the transactional store of user sounds in two flash banks.  A
  committed bank carries a commit record with a marker that is written last; an update goes to
  the bank that is not active, block by block, and is published by its commit record.  This
  theory holds the records on flash, their validation and the selection between the banks;
  \<open>Sound_Update\<close> holds the operations of the store.

  Sizes read from flash are naturals, generations 64-bit words.  \<open>Inl\<close> is a result other than
  \<^verbatim>\<open>Ok\<close>; null pointers and invalid bank numbers are not modelled.
\<close>

datatype SoundStoreResult =
  StInvalidArgument | StUnavailable | StIoError | StInvalidBank | StInvalidStaging | StInvalidManifest | StCrcMismatch |
  StHashMismatch | StIncomplete | StBusy | StBankPinned | StStaleBase | StGenerationExhausted | StTransactionMismatch |
  StSplitBrain | StFactoryBlank

record SoundBankSnapshot =
  sb_valid :: bool
  sb_bank :: SoundBankId
  sb_generation :: u64
  sb_base_generation :: u64
  sb_transaction_id :: bytes
  sb_manifest_bytes :: nat
  sb_payload_bytes :: nat
  sb_manifest_sha256 :: bytes
  sb_bundle_sha256 :: bytes

record SoundStoreSelection =
  sl_bank_a :: SoundBankSnapshot
  sl_bank_b :: SoundBankSnapshot
  sl_active_valid :: bool
  sl_split_brain :: bool
  sl_active :: SoundBankSnapshot

record SoundBundlePlan =
  bp_base_generation :: u64
  bp_base_bundle_sha256 :: bytes
  bp_manifest_bytes :: nat
  bp_payload_bytes :: nat
  bp_manifest_crc32 :: u32
  bp_manifest_sha256 :: bytes
  bp_bundle_sha256 :: bytes
  bp_payload_block_crc32 :: "u32 list"

definition kStagingMagic :: bytes where "kStagingMagic = [0x45, 0x49, 0x53, 0x48]"
definition kCommitMagic :: bytes where "kCommitMagic = [0x45, 0x49, 0x53, 0x43]"
definition kTransactionDomain :: bytes where
  "kTransactionDomain = [0x45, 0x41, 0x53, 0x59, 0x49, 0x4E, 0x50, 0x55, 0x54, 0x2D, 0x54, 0x58, 0x4E, 0x2D, 0x56, 0x31]"
definition kStorageVersion :: u16 where "kStorageVersion = 1"
definition kStagingHeaderBytes :: nat where "kStagingHeaderBytes = 704"
definition kStagingHeaderCrcOffset :: nat where "kStagingHeaderCrcOffset = 700"
definition kCommitBodyBytes :: nat where "kCommitBodyBytes = 128"
definition kCommitBodyCrcOffset :: nat where "kCommitBodyCrcOffset = 112"
definition kCommitMarkerOffset :: nat where "kCommitMarkerOffset = 128"
definition kCommitMarkerBytes :: nat where "kCommitMarkerBytes = 16"
definition kJournalManifestByte :: nat where "kJournalManifestByte = 0"
definition kJournalPayloadBitmap :: nat where "kJournalPayloadBitmap = 1"
definition kIoBufferBytes :: nat where "kIoBufferBytes = 256"

lemmas store_sizes = kStagingHeaderBytes_def kStagingHeaderCrcOffset_def kCommitBodyBytes_def kCommitBodyCrcOffset_def
  kCommitMarkerOffset_def kCommitMarkerBytes_def kJournalManifestByte_def kJournalPayloadBitmap_def kIoBufferBytes_def

definition empty_snapshot :: "SoundBankId \<Rightarrow> SoundBankSnapshot" where
  "empty_snapshot bank =
     \<lparr>sb_valid = False, sb_bank = bank, sb_generation = 0, sb_base_generation = 0, sb_transaction_id = replicate 16 0,
      sb_manifest_bytes = 0, sb_payload_bytes = 0, sb_manifest_sha256 = replicate 32 0, sb_bundle_sha256 = replicate 32 0\<rparr>"

definition empty_selection :: SoundStoreSelection where
  "empty_selection = \<lparr>sl_bank_a = empty_snapshot BankA, sl_bank_b = empty_snapshot BankA, sl_active_valid = False,
     sl_split_brain = False, sl_active = empty_snapshot BankA\<rparr>"

definition empty_plan :: SoundBundlePlan where
  "empty_plan = \<lparr>bp_base_generation = 0, bp_base_bundle_sha256 = replicate 32 0, bp_manifest_bytes = 0, bp_payload_bytes = 0,
     bp_manifest_crc32 = 0, bp_manifest_sha256 = replicate 32 0, bp_bundle_sha256 = replicate 32 0,
     bp_payload_block_crc32 = replicate 128 0\<rparr>"

section \<open>Bytes and numbers\<close>

definition read_le64 :: "bytes \<Rightarrow> nat \<Rightarrow> u64" where
  "read_le64 bs i = foldl (\<lambda>v index. v OR push_bit (index * 8) (ucast (bs ! (i + index)))) 0 [0..<8]"

definition write_le16 :: "u16 \<Rightarrow> bytes" where
  "write_le16 v = [ucast v, ucast (drop_bit 8 v)]"

definition write_le64 :: "u64 \<Rightarrow> bytes" where
  "write_le64 v = map (\<lambda>index. ucast (drop_bit (index * 8) v)) [0..<8]"

definition bank_byte :: "SoundBankId \<Rightarrow> u8" where
  "bank_byte bank = (case bank of BankA \<Rightarrow> 0 | BankB \<Rightarrow> 1)"

definition all_zero :: "bytes \<Rightarrow> bool" where
  "all_zero bs \<longleftrightarrow> foldl (OR) 0 bs = (0 :: u8)"

definition all_erased :: "bytes \<Rightarrow> bool" where
  "all_erased bs \<longleftrightarrow> list_all (\<lambda>b. b = 0xFF) bs"

definition transaction_id_valid :: "bytes \<Rightarrow> bool" where
  "transaction_id_valid tid \<longleftrightarrow> \<not> all_zero tid"

definition map_io :: "SoundStorageIoResult \<Rightarrow> SoundStoreResult" where
  "map_io result =
     (case result of
        IoUnavailable \<Rightarrow> StUnavailable
      | IoInvalidArgument \<Rightarrow> StInvalidArgument | IoOutOfBounds \<Rightarrow> StInvalidArgument | IoNotAligned \<Rightarrow> StInvalidArgument
      | IoIoError \<Rightarrow> StIoError)"

definition map_format :: "SoundFormatResult \<Rightarrow> SoundStoreResult" where
  "map_format result =
     (case result of
        FmtInvalidArgument \<Rightarrow> StInvalidArgument | FmtIoError \<Rightarrow> StIoError | FmtHashMismatch \<Rightarrow> StHashMismatch
      | FmtInvalidManifest \<Rightarrow> StInvalidManifest | FmtInvalidResource \<Rightarrow> StInvalidManifest | FmtInvalidMapping \<Rightarrow> StInvalidManifest)"

section \<open>Work in pieces\<close>

text \<open>The loops over a range in pieces of at most one buffer, and a piece's checked offset.\<close>

function over_chunks :: "nat \<Rightarrow> (nat \<Rightarrow> nat \<Rightarrow> 'a \<Rightarrow> ('s, 'e + 'a) state) \<Rightarrow> nat \<Rightarrow> 'a \<Rightarrow> ('s, 'e + 'a) state" where
  "over_chunks len body consumed acc =
     (if consumed < len then
        let amount = min kIoBufferBytes (len - consumed) in
        proceed (body consumed amount acc) (over_chunks len body (consumed + amount))
      else give acc)"
  by pat_completeness auto
termination by (relation "measure (\<lambda>(len, body, consumed, acc). len - consumed)") (auto simp: kIoBufferBytes_def)

declare over_chunks.simps [simp del]

definition current_offset :: "nat \<Rightarrow> nat \<Rightarrow> nat option" where
  "current_offset offset consumed = (if offset + consumed > 2 ^ 32 - 1 then None else Some (offset + consumed))"

definition verify_region_erased ::
  "SoundBankId \<Rightarrow> nat \<Rightarrow> nat \<Rightarrow> ('z sound_flash_scheme, SoundStoreResult + unit) state" where
  "verify_region_erased bank offset len =
     over_chunks len (\<lambda>consumed amount _.
       proceed (require_some (current_offset offset consumed) StInvalidArgument) (\<lambda>current.
       proceed (map_error map_io (bank_read bank current amount)) (\<lambda>buffer.
       require (all_erased buffer) StInvalidBank))) 0 ()"

definition checkpointed_sha256_finish ::
  "SoundBankId \<Rightarrow> nat \<Rightarrow> SoundSha256 \<Rightarrow> ('z sound_flash_scheme, SoundStorageIoResult + bytes) state" where
  "checkpointed_sha256_finish bank offset hash =
     proceed (checkpoint WorkSha256 bank offset kSha256FinishBudgetBytes) (\<lambda>_. give (fst (sha_finish hash)))"

text \<open>The two digests of a region of flash; failure has no reason.\<close>

definition sha_piece :: "SoundSha256 \<Rightarrow> bytes \<Rightarrow> 'e \<Rightarrow> ('s, 'e + SoundSha256) state" where
  "sha_piece hash data e = (case sha_update hash data of (updated, hash') \<Rightarrow> if updated then give hash' else refuse e)"

definition region_sha256 :: "SoundBankId \<Rightarrow> nat \<Rightarrow> nat \<Rightarrow> ('z sound_flash_scheme, unit + bytes) state" where
  "region_sha256 bank offset len =
     proceed (over_chunks len (\<lambda>consumed amount hash.
       proceed (require_some (current_offset offset consumed) ()) (\<lambda>current.
       proceed (map_error (\<lambda>_. ()) (bank_read bank current amount)) (\<lambda>buffer.
       proceed (map_error (\<lambda>_. ()) (checkpoint WorkSha256 bank current amount)) (\<lambda>_.
       sha_piece hash buffer ())))) 0 sha_reset) (\<lambda>hash.
     map_error (\<lambda>_. ()) (checkpointed_sha256_finish bank offset hash))"

definition crc32_update :: "u32 \<Rightarrow> bytes \<Rightarrow> u32" where
  "crc32_update st data = foldl crc_byte_step st data"

definition region_crc32 :: "SoundBankId \<Rightarrow> nat \<Rightarrow> nat \<Rightarrow> ('z sound_flash_scheme, unit + u32) state" where
  "region_crc32 bank offset len =
     proceed (over_chunks len (\<lambda>consumed amount st.
       proceed (require_some (current_offset offset consumed) ()) (\<lambda>current.
       proceed (map_error (\<lambda>_. ()) (bank_read bank current amount)) (\<lambda>buffer.
       proceed (map_error (\<lambda>_. ()) (checkpoint WorkCrc32 bank current amount)) (\<lambda>_.
       give (crc32_update st buffer))))) 0 0xFFFFFFFF) (\<lambda>st.
     give (st XOR 0xFFFFFFFF))"

definition checkpointed_memory_crc32 ::
  "SoundBankId \<Rightarrow> nat \<Rightarrow> bytes \<Rightarrow> ('z sound_flash_scheme, SoundStoreResult + u32) state" where
  "checkpointed_memory_crc32 bank offset data =
     proceed (over_chunks (length data) (\<lambda>consumed amount st.
       proceed (require_some (current_offset offset consumed) StInvalidArgument) (\<lambda>current.
       proceed (map_error map_io (checkpoint WorkCrc32 bank current amount)) (\<lambda>_.
       give (crc32_update st (region data consumed amount))))) 0 0xFFFFFFFF) (\<lambda>st.
     give (st XOR 0xFFFFFFFF))"

definition checkpointed_memory_sha256 ::
  "SoundBankId \<Rightarrow> nat \<Rightarrow> bytes \<Rightarrow> ('z sound_flash_scheme, SoundStoreResult + bytes) state" where
  "checkpointed_memory_sha256 bank offset data =
     proceed (over_chunks (length data) (\<lambda>consumed amount hash.
       proceed (require_some (current_offset offset consumed) StInvalidArgument) (\<lambda>current.
       proceed (map_error map_io (checkpoint WorkSha256 bank current amount)) (\<lambda>_.
       sha_piece hash (region data consumed amount) StInvalidArgument))) 0 sha_reset) (\<lambda>hash.
     map_error map_io (checkpointed_sha256_finish bank offset hash))"

section \<open>Plans and transactions\<close>

definition payload_block_count :: "nat \<Rightarrow> nat" where
  "payload_block_count payload_bytes =
     (if payload_bytes = 0 then 0 else (payload_bytes + kSoundPayloadBlockSize - 1) div kSoundPayloadBlockSize)"

definition payload_block_length :: "nat \<Rightarrow> nat \<Rightarrow> nat" where
  "payload_block_length payload_bytes block_index =
     (let offset = block_index * kSoundPayloadBlockSize
      in if offset \<ge> payload_bytes then 0 else min kSoundPayloadBlockSize (payload_bytes - offset))"

definition plan_is_valid :: "SoundBundlePlan \<Rightarrow> bool" where
  "plan_is_valid plan \<longleftrightarrow>
     (if bp_manifest_bytes plan < 32 \<or> bp_manifest_bytes plan > kSoundSectorSize \<or> bp_payload_bytes plan > kSoundPayloadMaxSize \<or>
         all_zero (bp_manifest_sha256 plan) \<or> all_zero (bp_bundle_sha256 plan) then False
      else
        let count = payload_block_count (bp_payload_bytes plan)
        in if count > kSoundPayloadBlockCount then False
           else if \<not> list_all (\<lambda>crc. crc = 0) (drop count (bp_payload_block_crc32 plan)) then False
           else if bp_base_generation plan = 0 then all_zero (bp_base_bundle_sha256 plan)
           else \<not> all_zero (bp_base_bundle_sha256 plan))"

text \<open>The array types of the plan, which the C++ declaration fixes.\<close>

definition plan_shape :: "SoundBundlePlan \<Rightarrow> bool" where
  "plan_shape plan \<longleftrightarrow> length (bp_base_bundle_sha256 plan) = 32 \<and> length (bp_manifest_sha256 plan) = 32 \<and>
     length (bp_bundle_sha256 plan) = 32 \<and> length (bp_payload_block_crc32 plan) = kSoundPayloadBlockCount"

definition transaction_input :: "SoundBundlePlan \<Rightarrow> SoundBankId \<Rightarrow> u64 \<Rightarrow> bytes" where
  "transaction_input plan target_bank generation =
     kTransactionDomain @ [bank_byte target_bank] @ write_le64 generation @ write_le64 (bp_base_generation plan) @
     bp_base_bundle_sha256 plan @ write_le32 (of_nat (bp_manifest_bytes plan)) @ write_le32 (of_nat (bp_payload_bytes plan)) @
     bp_manifest_sha256 plan @ bp_bundle_sha256 plan"

definition transaction_of_digest :: "bytes \<Rightarrow> bytes" where
  "transaction_of_digest digest =
     (let first = take kSoundTransactionIdBytes digest;
          second = (if \<not> transaction_id_valid first then drop kSoundTransactionIdBytes digest else first)
      in if \<not> transaction_id_valid second then second[kSoundTransactionIdBytes - 1 := 1] else second)"

definition derive_transaction_id ::
  "SoundBundlePlan \<Rightarrow> SoundBankId \<Rightarrow> u64 \<Rightarrow> ('z sound_flash_scheme, SoundStoreResult + bytes) state" where
  "derive_transaction_id plan target_bank generation =
     (let input = transaction_input plan target_bank generation in
      proceed (map_error map_io (checkpoint WorkSha256 target_bank kSoundStagingHeaderOffset (length input))) (\<lambda>_.
      case sha_update sha_reset input of (accepted, hash) \<Rightarrow>
      proceed (map_error map_io (checkpointed_sha256_finish target_bank kSoundStagingHeaderOffset hash)) (\<lambda>digest.
      if accepted then give (transaction_of_digest digest) else refuse StInvalidArgument)))"

section \<open>The staging header\<close>

definition put_all :: "bytes \<Rightarrow> (nat \<times> bytes) list \<Rightarrow> bytes" where
  "put_all = foldl (\<lambda>out (offset, data). buffer_put out offset data)"

definition staging_fields :: "SoundBankId \<Rightarrow> u64 \<Rightarrow> bytes \<Rightarrow> SoundBundlePlan \<Rightarrow> (nat \<times> bytes) list" where
  "staging_fields bank generation transaction_id plan =
     [(0, kStagingMagic), (4, write_le16 kStorageVersion), (6, write_le16 (of_nat kStagingHeaderBytes)), (8, [bank_byte bank]),
      (16, write_le64 generation), (24, write_le64 (bp_base_generation plan)), (32, transaction_id),
      (48, write_le32 (of_nat (bp_manifest_bytes plan))), (52, write_le32 (of_nat (bp_payload_bytes plan))),
      (56, write_le32 (of_nat kSoundPayloadBlockSize)), (60, write_le16 (of_nat (payload_block_count (bp_payload_bytes plan)))),
      (64, write_le32 (bp_manifest_crc32 plan)), (72, bp_base_bundle_sha256 plan), (104, bp_manifest_sha256 plan),
      (136, bp_bundle_sha256 plan), (168, concat (map write_le32 (bp_payload_block_crc32 plan)))]"

definition encode_staging_header ::
  "SoundBankId \<Rightarrow> u64 \<Rightarrow> bytes \<Rightarrow> SoundBundlePlan \<Rightarrow> ('z sound_flash_scheme, SoundStoreResult + bytes) state" where
  "encode_staging_header bank generation transaction_id plan =
     (let encoded = put_all (replicate kStagingHeaderBytes 0) (staging_fields bank generation transaction_id plan) in
      proceed (checkpointed_memory_crc32 bank kSoundStagingHeaderOffset (take kStagingHeaderCrcOffset encoded)) (\<lambda>crc.
      give (buffer_put encoded kStagingHeaderCrcOffset (write_le32 crc))))"

definition staging_plan :: "bytes \<Rightarrow> SoundBundlePlan" where
  "staging_plan encoded =
     \<lparr>bp_base_generation = read_le64 encoded 24, bp_base_bundle_sha256 = region encoded 72 32,
      bp_manifest_bytes = unat (read_le32 encoded 48), bp_payload_bytes = unat (read_le32 encoded 52),
      bp_manifest_crc32 = read_le32 encoded 64, bp_manifest_sha256 = region encoded 104 32, bp_bundle_sha256 = region encoded 136 32,
      bp_payload_block_crc32 = map (\<lambda>index. read_le32 encoded (168 + index * 4)) [0..<kSoundPayloadBlockCount]\<rparr>"

definition decode_staging_header ::
  "bytes \<Rightarrow> SoundBankId \<Rightarrow> ('z sound_flash_scheme, SoundStoreResult + u64 \<times> bytes \<times> SoundBundlePlan) state" where
  "decode_staging_header encoded expected_bank =
     proceed (require (\<not> (take 4 encoded \<noteq> kStagingMagic \<or> read_le16 encoded 4 \<noteq> kStorageVersion \<or>
         read_le16 encoded 6 \<noteq> of_nat kStagingHeaderBytes \<or> encoded ! 8 \<noteq> bank_byte expected_bank \<or>
         \<not> all_zero (region encoded 9 7) \<or> read_le32 encoded 56 \<noteq> of_nat kSoundPayloadBlockSize \<or>
         read_le16 encoded 62 \<noteq> 0 \<or> read_le32 encoded 68 \<noteq> 0 \<or> \<not> all_zero (region encoded 680 20))) StInvalidStaging) (\<lambda>_.
     proceed (checkpointed_memory_crc32 expected_bank kSoundStagingHeaderOffset (take kStagingHeaderCrcOffset encoded)) (\<lambda>observed_crc.
     proceed (require (\<not> (read_le32 encoded kStagingHeaderCrcOffset \<noteq> observed_crc)) StInvalidStaging) (\<lambda>_.
     let generation = read_le64 encoded 16; transaction_id = region encoded 32 16; decoded = staging_plan encoded in
     proceed (require (\<not> (generation = 0 \<or> \<not> transaction_id_valid transaction_id \<or> \<not> plan_is_valid decoded \<or>
         unat (read_le16 encoded 60) \<noteq> payload_block_count (bp_payload_bytes decoded))) StInvalidStaging) (\<lambda>_.
     give (generation, transaction_id, decoded)))))"

section \<open>The commit record\<close>

definition commit_fields :: "SoundBankId \<Rightarrow> u64 \<Rightarrow> bytes \<Rightarrow> SoundBundlePlan \<Rightarrow> (nat \<times> bytes) list" where
  "commit_fields bank generation transaction_id plan =
     [(0, write_le16 kStorageVersion), (2, write_le16 (of_nat kCommitBodyBytes)), (4, [bank_byte bank]), (8, write_le64 generation),
      (16, write_le64 (bp_base_generation plan)), (24, transaction_id), (40, write_le32 (of_nat (bp_manifest_bytes plan))),
      (44, write_le32 (of_nat (bp_payload_bytes plan))), (48, bp_manifest_sha256 plan), (80, bp_bundle_sha256 plan)]"

definition encode_commit_body ::
  "SoundBankId \<Rightarrow> u64 \<Rightarrow> bytes \<Rightarrow> SoundBundlePlan \<Rightarrow> ('z sound_flash_scheme, SoundStoreResult + bytes) state" where
  "encode_commit_body bank generation transaction_id plan =
     (let body = put_all (replicate kCommitBodyBytes 0) (commit_fields bank generation transaction_id plan) in
      proceed (checkpointed_memory_crc32 bank kSoundCommitOffset (take kCommitBodyCrcOffset body)) (\<lambda>crc.
      give (buffer_put body kCommitBodyCrcOffset (write_le32 crc))))"

definition encode_commit_marker :: "u32 \<Rightarrow> bytes" where
  "encode_commit_marker body_crc = kCommitMagic @ map NOT kCommitMagic @ write_le32 body_crc @ write_le32 (NOT body_crc)"

definition decoded_commit :: "SoundBankId \<Rightarrow> bytes \<Rightarrow> SoundBankSnapshot" where
  "decoded_commit bank body =
     \<lparr>sb_valid = True, sb_bank = bank, sb_generation = read_le64 body 8, sb_base_generation = read_le64 body 16,
      sb_transaction_id = region body 24 16, sb_manifest_bytes = unat (read_le32 body 40), sb_payload_bytes = unat (read_le32 body 44),
      sb_manifest_sha256 = region body 48 32, sb_bundle_sha256 = region body 80 32\<rparr>"

definition decode_commit :: "SoundBankId \<Rightarrow> ('z sound_flash_scheme, SoundStoreResult + SoundBankSnapshot) state" where
  "decode_commit bank =
     proceed (map_error map_io (bank_read bank kSoundCommitOffset kCommitBodyBytes)) (\<lambda>body.
     proceed (map_error map_io (bank_read bank (kSoundCommitOffset + kCommitMarkerOffset) kCommitMarkerBytes)) (\<lambda>marker.
     proceed (require (\<not> (all_erased body \<and> all_erased marker)) StFactoryBlank) (\<lambda>_.
     proceed (require (\<not> (read_le16 body 0 \<noteq> kStorageVersion \<or> read_le16 body 2 \<noteq> of_nat kCommitBodyBytes \<or>
         body ! 4 \<noteq> bank_byte bank \<or> \<not> all_zero (region body 5 3) \<or> \<not> all_zero (region body 116 12))) StInvalidBank) (\<lambda>_.
     proceed (checkpointed_memory_crc32 bank kSoundCommitOffset (take kCommitBodyCrcOffset body)) (\<lambda>observed_crc.
     proceed (require (\<not> (read_le32 body kCommitBodyCrcOffset \<noteq> observed_crc)) StInvalidBank) (\<lambda>_.
     proceed (require (list_all (\<lambda>index. marker ! index = kCommitMagic ! index \<and> marker ! (4 + index) = NOT (kCommitMagic ! index)) [0..<4])
         StInvalidBank) (\<lambda>_.
     let body_crc = read_le32 body kCommitBodyCrcOffset in
     proceed (require (\<not> (read_le32 marker 8 \<noteq> body_crc \<or> read_le32 marker 12 \<noteq> NOT body_crc)) StInvalidBank) (\<lambda>_.
     let decoded = decoded_commit bank body in
     proceed (require (\<not> (sb_generation decoded = 0 \<or> sb_base_generation decoded \<noteq> sb_generation decoded - 1 \<or>
         \<not> transaction_id_valid (sb_transaction_id decoded) \<or> sb_manifest_bytes decoded < 32 \<or>
         sb_manifest_bytes decoded > kSoundSectorSize \<or> sb_payload_bytes decoded > kSoundPayloadMaxSize \<or>
         all_zero (sb_manifest_sha256 decoded) \<or> all_zero (sb_bundle_sha256 decoded))) StInvalidBank) (\<lambda>_.
     give decoded)))))))))"


section \<open>Validation of a bank\<close>

definition snapshot_for_bank :: "SoundStoreSelection \<Rightarrow> SoundBankId \<Rightarrow> SoundBankSnapshot" where
  "snapshot_for_bank selection bank = (case bank of BankA \<Rightarrow> sl_bank_a selection | BankB \<Rightarrow> sl_bank_b selection)"

definition validate_sound_bank_committed_content ::
  "SoundBankId \<Rightarrow> ('z sound_flash_scheme, SoundStoreResult + SoundBankSnapshot) state" where
  "validate_sound_bank_committed_content bank =
     proceed (decode_commit bank) (\<lambda>decoded.
     proceed (map_error map_format (validate_sound_manifest bank (sb_manifest_bytes decoded) (sb_payload_bytes decoded))) (\<lambda>summary.
     proceed (map_error map_format (calculate_sound_bank_digests bank (sb_manifest_bytes decoded) (sb_payload_bytes decoded)))
       (\<lambda>(manifest_digest, bundle_digest).
     proceed (require (\<not> (\<not> sound_digest_equal manifest_digest (sb_manifest_sha256 decoded) \<or>
         \<not> sound_digest_equal bundle_digest (sb_bundle_sha256 decoded))) StHashMismatch) (\<lambda>_.
     give decoded))))"

definition validate_sound_bank_read_candidate ::
  "SoundBankSnapshot \<Rightarrow> ('z sound_flash_scheme, SoundStoreResult + unit) state" where
  "validate_sound_bank_read_candidate committed =
     proceed (require (\<not> (\<not> sb_valid committed \<or> sb_manifest_bytes committed < 32 \<or> sb_manifest_bytes committed > kSoundSectorSize))
       StInvalidBank) (\<lambda>_.
     proceed (over_chunks (sb_manifest_bytes committed) (\<lambda>consumed amount hash.
       let offset = kSoundManifestOffset + consumed in
       proceed (map_error map_io (bank_read (sb_bank committed) offset amount)) (\<lambda>buffer.
       proceed (map_error map_io (checkpoint WorkSha256 (sb_bank committed) offset amount)) (\<lambda>_.
       sha_piece hash buffer StInvalidArgument))) 0 sha_reset) (\<lambda>manifest_hash.
     proceed (map_error map_io (checkpointed_sha256_finish (sb_bank committed) kSoundManifestOffset manifest_hash)) (\<lambda>observed.
     require (sound_digest_equal observed (sb_manifest_sha256 committed)) StHashMismatch)))"

definition bank_validation_failure_is_nonfatal :: "SoundStoreResult \<Rightarrow> bool" where
  "bank_validation_failure_is_nonfatal result \<longleftrightarrow> result \<in> set [StFactoryBlank, StInvalidBank, StInvalidManifest, StHashMismatch]"

text \<open>The first fatal one of the results of the four erased regions, else the first failure.\<close>

definition erased_failure :: "(SoundStoreResult + unit) list \<Rightarrow> SoundStoreResult option" where
  "erased_failure results =
     (let failures = List.map_filter (\<lambda>r. case r of Inl e \<Rightarrow> Some e | Inr _ \<Rightarrow> None) results
      in case find (\<lambda>e. e \<in> set [StUnavailable, StIoError, StInvalidArgument]) failures of
           Some e \<Rightarrow> Some e
         | None \<Rightarrow> (case failures of [] \<Rightarrow> None | e # _ \<Rightarrow> Some e))"

text \<open>
  The strict validation.  A failure comes with what the out-parameter then holds: an empty
  snapshot, or the decoded one when only the erased regions fail.
\<close>

definition validate_sound_bank ::
  "SoundBankId \<Rightarrow> ('z sound_flash_scheme, (SoundStoreResult \<times> SoundBankSnapshot) + SoundBankSnapshot) state" where
  "validate_sound_bank bank =
     proceed (map_error (\<lambda>e. (e, empty_snapshot bank)) (validate_sound_bank_committed_content bank)) (\<lambda>decoded.
     do { manifest_tail \<leftarrow> verify_region_erased bank (kSoundManifestOffset + sb_manifest_bytes decoded)
            (kSoundSectorSize - sb_manifest_bytes decoded);
          payload_tail \<leftarrow> verify_region_erased bank (kSoundPayloadOffset + sb_payload_bytes decoded)
            (kSoundPayloadMaxSize - sb_payload_bytes decoded);
          reserved \<leftarrow> verify_region_erased bank kSoundReservedOffset (kSoundReservedEndOffset - kSoundReservedOffset);
          commit_tail \<leftarrow> verify_region_erased bank (kSoundCommitOffset + kCommitMarkerOffset + kCommitMarkerBytes)
            (kSoundSectorSize - kCommitMarkerOffset - kCommitMarkerBytes);
          case erased_failure [manifest_tail, payload_tail, reserved, commit_tail] of
            Some e \<Rightarrow> refuse (e, decoded)
          | None \<Rightarrow> give decoded })"

section \<open>Selection\<close>

definition select_sound_banks :: "SoundBankSnapshot \<Rightarrow> SoundBankSnapshot \<Rightarrow> SoundStoreSelection" where
  "select_sound_banks bank_a bank_b =
     (let selection = empty_selection\<lparr>sl_bank_a := bank_a, sl_bank_b := bank_b\<rparr>;
          choose_a = selection\<lparr>sl_active_valid := True, sl_active := bank_a\<rparr>;
          choose_b = selection\<lparr>sl_active_valid := True, sl_active := bank_b\<rparr>;
          split = selection\<lparr>sl_split_brain := True\<rparr>
      in if \<not> sb_valid bank_a \<and> \<not> sb_valid bank_b then selection
         else if sb_valid bank_a \<and> \<not> sb_valid bank_b then choose_a
         else if \<not> sb_valid bank_a \<and> sb_valid bank_b then choose_b
         else if sb_generation bank_a > sb_generation bank_b
           then (if sb_generation bank_a - sb_generation bank_b \<noteq> 1 then split else choose_a)
         else if sb_generation bank_b > sb_generation bank_a
           then (if sb_generation bank_b - sb_generation bank_a \<noteq> 1 then split else choose_b)
         else if sound_digest_equal (sb_bundle_sha256 bank_a) (sb_bundle_sha256 bank_b) then choose_a
         else split)"

type_synonym StoreStatus = "SoundStoreResult + unit"

definition read_selection_disposition :: "SoundStoreSelection \<Rightarrow> StoreStatus \<Rightarrow> StoreStatus \<Rightarrow> StoreStatus" where
  "read_selection_disposition selection bank_a_result bank_b_result =
     (if sl_split_brain selection then Inl StSplitBrain
      else if sl_active_valid selection then Inr ()
      else if bank_a_result = Inl StFactoryBlank \<and> bank_b_result = Inl StFactoryBlank then Inl StFactoryBlank
      else Inl StUnavailable)"

text \<open>
  The inspection of one bank in a strict scan: its snapshot, marked invalid after a failure
  that is not fatal, and the result of the validation.
\<close>

definition inspect_bank ::
  "SoundBankId \<Rightarrow> ('z sound_flash_scheme, SoundStoreResult + SoundBankSnapshot \<times> StoreStatus) state" where
  "inspect_bank bank = do {
     r \<leftarrow> validate_sound_bank bank;
     case r of
       Inr snapshot \<Rightarrow> give (snapshot, Inr ())
     | Inl (e, snapshot) \<Rightarrow>
         if bank_validation_failure_is_nonfatal e then give (snapshot\<lparr>sb_valid := False\<rparr>, Inl e) else refuse e }"

end
