(* ===== verification/Sound_Update.thy ===== *)
theory Sound_Update
  imports Sound_Store
begin

text \<open>
  The operations of \<^verbatim>\<open>SoundAssetStore\<close> (\<^verbatim>\<open>sound_asset_store.cpp\<close>, from \<^verbatim>\<open>scan\<close> on): the strict
  scan and the fast one for reading, the update transaction with its durable staging header,
  and read leases.  The store's state extends the flash it works on.  Out-parameters are
  results; what they hold after a failure is not modelled.
\<close>

record SoundUpdateIdentity =
  ui_generation :: u64
  ui_target_bank :: SoundBankId
  ui_transaction_id :: bytes

record SoundUpdateProgress =
  up_identity :: SoundUpdateIdentity
  up_manifest_bytes :: nat
  up_payload_bytes :: nat
  up_payload_block_count :: nat
  up_manifest_complete :: bool
  up_payload_complete_bitmap :: bytes
  up_bundle_sha256 :: bytes

datatype SoundTransactionState = TxActive | TxCommitted | TxUnknown

record SoundTransactionOutcome =
  to_state :: SoundTransactionState
  to_identity :: SoundUpdateIdentity
  to_manifest_bytes :: nat
  to_payload_bytes :: nat
  to_bundle_sha256 :: bytes

record SoundReadLease =
  rl_valid :: bool
  rl_lease_id :: u64
  rl_bank :: SoundBankId
  rl_generation :: u64
  rl_bundle_sha256 :: bytes

record SoundAssetStore = sound_flash +
  st_selection :: SoundStoreSelection
  st_scanned :: bool
  st_read_selection :: SoundStoreSelection
  st_read_selection_scanned :: bool
  st_read_selection_result :: StoreStatus
  st_update_active :: bool
  st_update_bank :: SoundBankId
  st_update_generation :: u64
  st_update_plan :: SoundBundlePlan
  st_update_transaction_id :: bytes
  st_payload_complete :: "bool list"
  st_manifest_complete :: bool
  st_read_leases :: "SoundReadLease list"
  st_next_read_lease_id :: u64

type_synonym 'a store_op = "(SoundAssetStore, SoundStoreResult + 'a) state"

definition empty_lease :: SoundReadLease where
  "empty_lease = \<lparr>rl_valid = False, rl_lease_id = 0, rl_bank = BankA, rl_generation = 0, rl_bundle_sha256 = replicate 32 0\<rparr>"

text \<open>The store of a fresh object over given flash.\<close>

definition init_store :: "sound_flash \<Rightarrow> SoundAssetStore" where
  "init_store flash = sound_flash.extend flash
     \<lparr>st_selection = empty_selection, st_scanned = False, st_read_selection = empty_selection, st_read_selection_scanned = False,
      st_read_selection_result = Inl StUnavailable, st_update_active = False, st_update_bank = BankA, st_update_generation = 0,
      st_update_plan = empty_plan, st_update_transaction_id = replicate 16 0,
      st_payload_complete = replicate kSoundPayloadBlockCount False, st_manifest_complete = False,
      st_read_leases = replicate kSoundMaximumReadLeases empty_lease, st_next_read_lease_id = 1\<rparr>"

definition modify :: "(SoundAssetStore \<Rightarrow> SoundAssetStore) \<Rightarrow> unit store_op" where
  "modify f = do { State_Monad.update f; give () }"

definition with_store :: "(SoundAssetStore \<Rightarrow> 'a store_op) \<Rightarrow> 'a store_op" where
  "with_store f = do { s \<leftarrow> State_Monad.get; f s }"

text \<open>A call whose failure leads to some clean-up before it is returned.\<close>

definition on_failure :: "'a store_op \<Rightarrow> unit store_op \<Rightarrow> 'a store_op" where
  "on_failure m cleanup = do { r \<leftarrow> m; case r of Inl e \<Rightarrow> proceed cleanup (\<lambda>_. refuse e) | Inr a \<Rightarrow> give a }"

section \<open>Selections\<close>

definition forget_selections :: "SoundAssetStore \<Rightarrow> SoundAssetStore" where
  "forget_selections s = s\<lparr>st_scanned := False, st_read_selection_scanned := False, st_read_selection_result := Inl StUnavailable,
     st_selection := empty_selection, st_read_selection := empty_selection\<rparr>"

definition publish_selection :: "SoundStoreSelection \<Rightarrow> StoreStatus \<Rightarrow> SoundAssetStore \<Rightarrow> SoundAssetStore" where
  "publish_selection selection result s = s\<lparr>st_selection := selection, st_scanned := True, st_read_selection := selection,
     st_read_selection_scanned := True, st_read_selection_result := result\<rparr>"

definition clear_update_state :: "unit store_op" where
  "clear_update_state = modify (\<lambda>s. s\<lparr>st_update_active := False, st_update_bank := BankA, st_update_generation := 0,
     st_update_plan := empty_plan, st_update_transaction_id := replicate 16 0,
     st_payload_complete := replicate kSoundPayloadBlockCount False, st_manifest_complete := False\<rparr>)"

definition scan :: "unit store_op" where
  "scan = with_store (\<lambda>s.
     proceed (require (\<not> st_update_active s) StBusy) (\<lambda>_.
     proceed (modify forget_selections) (\<lambda>_.
     proceed (inspect_bank BankA) (\<lambda>(bank_a, bank_a_result).
     proceed (inspect_bank BankB) (\<lambda>(bank_b, bank_b_result).
     let selection = select_sound_banks bank_a bank_b in
     proceed (modify (publish_selection selection (read_selection_disposition selection bank_a_result bank_b_result))) (\<lambda>_.
     require (\<not> sl_split_brain selection) StSplitBrain))))))"

definition scan_unless_scanned :: "unit store_op" where
  "scan_unless_scanned = with_store (\<lambda>s. if \<not> st_scanned s then scan else give ())"

definition query_current_active :: "SoundBankSnapshot store_op" where
  "query_current_active =
     proceed (on_failure (inspect_bank BankA) (modify forget_selections)) (\<lambda>(bank_a, bank_a_result).
     proceed (on_failure (inspect_bank BankB) (modify forget_selections)) (\<lambda>(bank_b, bank_b_result).
     let refreshed = select_sound_banks bank_a bank_b in
     if sl_split_brain refreshed then proceed (modify forget_selections) (\<lambda>_. refuse StSplitBrain)
     else
       proceed (modify (publish_selection refreshed (read_selection_disposition refreshed bank_a_result bank_b_result))) (\<lambda>_.
       with_store (\<lambda>s.
       proceed
         (if st_update_active s \<and> sl_active_valid refreshed \<and> sb_bank (sl_active refreshed) = st_update_bank s \<and>
             sb_generation (sl_active refreshed) = st_update_generation s
          then if sb_transaction_id (sl_active refreshed) \<noteq> st_update_transaction_id s \<or>
                  \<not> sound_digest_equal (sb_bundle_sha256 (sl_active refreshed)) (bp_bundle_sha256 (st_update_plan s))
               then refuse StTransactionMismatch
               else clear_update_state
          else give ()) (\<lambda>_.
       give (if sl_active_valid refreshed then sl_active refreshed else empty_snapshot BankA))))))"

definition refresh_selection_after_commit :: "unit store_op" where
  "refresh_selection_after_commit =
     proceed (inspect_bank BankA) (\<lambda>(bank_a, _).
     proceed (inspect_bank BankB) (\<lambda>(bank_b, _).
     let refreshed = select_sound_banks bank_a bank_b in
     with_store (\<lambda>s.
     if \<not> sl_active_valid refreshed \<or> sl_split_brain refreshed \<or> sb_bank (sl_active refreshed) \<noteq> st_update_bank s \<or>
        sb_generation (sl_active refreshed) \<noteq> st_update_generation s
     then refuse (if sl_split_brain refreshed then StSplitBrain else StInvalidBank)
     else modify (publish_selection refreshed (Inr ())))))"

section \<open>Progress of an update\<close>

definition verify_manifest :: "unit store_op" where
  "verify_manifest = with_store (\<lambda>s.
     let plan = st_update_plan s in
     proceed (map_error (\<lambda>_. StIoError) (region_crc32 (st_update_bank s) kSoundManifestOffset (bp_manifest_bytes plan))) (\<lambda>crc.
     proceed (map_error (\<lambda>_. StIoError) (region_sha256 (st_update_bank s) kSoundManifestOffset (bp_manifest_bytes plan))) (\<lambda>digest.
     proceed (require (\<not> (crc \<noteq> bp_manifest_crc32 plan)) StCrcMismatch) (\<lambda>_.
     require (sound_digest_equal digest (bp_manifest_sha256 plan)) StHashMismatch))))"

definition verify_payload_block :: "nat \<Rightarrow> bool store_op" where
  "verify_payload_block block_index = with_store (\<lambda>s.
     let plan = st_update_plan s; len = payload_block_length (bp_payload_bytes plan) block_index in
     proceed (require (len \<noteq> 0) StInvalidArgument) (\<lambda>_.
     proceed (map_error (\<lambda>_. StIoError)
         (region_crc32 (st_update_bank s) (kSoundPayloadOffset + block_index * kSoundPayloadBlockSize) len)) (\<lambda>crc.
     give (crc = bp_payload_block_crc32 plan ! block_index))))"

definition set_payload_complete :: "nat \<Rightarrow> bool \<Rightarrow> unit store_op" where
  "set_payload_complete block_index complete =
     modify (\<lambda>s. s\<lparr>st_payload_complete := (st_payload_complete s)[block_index := complete]\<rparr>)"

definition set_manifest_complete :: "bool \<Rightarrow> unit store_op" where
  "set_manifest_complete complete = modify (\<lambda>s. s\<lparr>st_manifest_complete := complete\<rparr>)"

definition verify_all_payload_blocks :: "unit store_op" where
  "verify_all_payload_blocks = with_store (\<lambda>s.
     for_each (\<lambda>index _.
       proceed (verify_payload_block index) (\<lambda>complete.
       proceed (set_payload_complete index complete) (\<lambda>_.
       require complete StIncomplete))) [0..<payload_block_count (bp_payload_bytes (st_update_plan s))] ())"

definition mark_manifest_complete :: "unit store_op" where
  "mark_manifest_complete = with_store (\<lambda>s.
     map_error map_io (bank_write (st_update_bank s) (kSoundJournalOffset + kJournalManifestByte) [0]))"

definition mark_payload_complete :: "nat \<Rightarrow> unit store_op" where
  "mark_payload_complete block_index = with_store (\<lambda>s.
     proceed (require (\<not> block_index \<ge> kSoundPayloadBlockCount) StInvalidArgument) (\<lambda>_.
     let journal_offset = kSoundJournalOffset + kJournalPayloadBitmap + block_index div 8 in
     proceed (map_error map_io (bank_read (st_update_bank s) journal_offset 1)) (\<lambda>current.
     map_error map_io (bank_write (st_update_bank s) journal_offset [(current ! 0) AND NOT (push_bit (block_index mod 8) 1)]))))"

text \<open>
  Resuming from a staging header on flash.  The progress is verified again from the contents;
  only a failing read ends the resumption.
\<close>

definition load_staging_header :: "SoundBankId \<Rightarrow> bytes \<Rightarrow> unit store_op" where
  "load_staging_header bank transaction_id =
     proceed (map_error (\<lambda>_. StIoError) (bank_read bank kSoundStagingHeaderOffset kStagingHeaderBytes)) (\<lambda>encoded.
     proceed (map_error (\<lambda>e. if e \<noteq> StInvalidStaging then e else StTransactionMismatch) (decode_staging_header encoded bank))
       (\<lambda>(generation, decoded_transaction_id, plan).
     proceed (derive_transaction_id plan bank generation) (\<lambda>expected_transaction_id.
     proceed (require (\<not> (decoded_transaction_id \<noteq> transaction_id \<or> expected_transaction_id \<noteq> decoded_transaction_id))
       StTransactionMismatch) (\<lambda>_.
     with_store (\<lambda>s.
     proceed (require
       (if sl_active_valid (st_selection s)
        then \<not> (bp_base_generation plan \<noteq> sb_generation (sl_active (st_selection s)) \<or>
               \<not> sound_digest_equal (bp_base_bundle_sha256 plan) (sb_bundle_sha256 (sl_active (st_selection s))) \<or>
               generation \<noteq> sb_generation (sl_active (st_selection s)) + 1)
        else \<not> (bp_base_generation plan \<noteq> 0 \<or> \<not> all_zero (bp_base_bundle_sha256 plan) \<or> generation \<noteq> 1)) StStaleBase) (\<lambda>_.
     proceed (modify (\<lambda>s. s\<lparr>st_update_active := True, st_update_bank := bank, st_update_generation := generation,
         st_update_plan := plan, st_update_transaction_id := decoded_transaction_id,
         st_payload_complete := replicate kSoundPayloadBlockCount False, st_manifest_complete := False\<rparr>)) (\<lambda>_.
     do { manifest_result \<leftarrow> verify_manifest;
          proceed
            (case manifest_result of
               Inr _ \<Rightarrow> set_manifest_complete True
             | Inl e \<Rightarrow>
                 if e = StIoError \<or> e = StUnavailable \<or> e = StInvalidArgument
                 then proceed clear_update_state (\<lambda>_. refuse e) else give ()) (\<lambda>_.
          for_each (\<lambda>index _. do {
            verify \<leftarrow> verify_payload_block index;
            case verify of
              Inr complete \<Rightarrow> set_payload_complete index complete
            | Inl e \<Rightarrow>
                if e = StIoError then proceed clear_update_state (\<lambda>_. refuse e) else set_payload_complete index False })
            [0..<payload_block_count (bp_payload_bytes plan)] ()) })))))))"


section \<open>Beginning an update\<close>

definition plans_equal :: "SoundBundlePlan \<Rightarrow> SoundBundlePlan \<Rightarrow> bool" where
  "plans_equal left right \<longleftrightarrow>
     bp_base_generation left = bp_base_generation right \<and> bp_base_bundle_sha256 left = bp_base_bundle_sha256 right \<and>
     bp_manifest_bytes left = bp_manifest_bytes right \<and> bp_payload_bytes left = bp_payload_bytes right \<and>
     bp_manifest_crc32 left = bp_manifest_crc32 right \<and> bp_manifest_sha256 left = bp_manifest_sha256 right \<and>
     bp_bundle_sha256 left = bp_bundle_sha256 right \<and> bp_payload_block_crc32 left = bp_payload_block_crc32 right"

definition target_is_pinned :: "SoundAssetStore \<Rightarrow> SoundBankId \<Rightarrow> bool" where
  "target_is_pinned s bank \<longleftrightarrow> list_ex (\<lambda>lease. rl_valid lease \<and> rl_bank lease = bank) (st_read_leases s)"

definition other_bank :: "SoundBankId \<Rightarrow> SoundBankId" where
  "other_bank bank = (if bank = BankA then BankB else BankA)"

text \<open>The generation and the bank a plan asks for, checked against the active bank.\<close>

definition plan_target :: "SoundStoreSelection \<Rightarrow> SoundBundlePlan \<Rightarrow> SoundStoreResult + u64 \<times> SoundBankId" where
  "plan_target selection plan =
     (if sl_active_valid selection
      then if bp_base_generation plan \<noteq> sb_generation (sl_active selection) \<or>
              \<not> sound_digest_equal (bp_base_bundle_sha256 plan) (sb_bundle_sha256 (sl_active selection))
           then Inl StStaleBase
           else if sb_generation (sl_active selection) = - 1 then Inl StGenerationExhausted
           else Inr (sb_generation (sl_active selection) + 1, other_bank (sb_bank (sl_active selection)))
      else if bp_base_generation plan \<noteq> 0 \<or> \<not> all_zero (bp_base_bundle_sha256 plan) then Inl StStaleBase
      else Inr (1, BankA))"

definition reset_generation :: "unit store_op" where
  "reset_generation = modify (\<lambda>s. s\<lparr>st_update_generation := 0\<rparr>)"

definition empty_bank_snapshot :: "SoundBankId \<Rightarrow> SoundStoreSelection \<Rightarrow> SoundStoreSelection" where
  "empty_bank_snapshot bank selection =
     (case bank of BankA \<Rightarrow> selection\<lparr>sl_bank_a := empty_snapshot bank\<rparr> | BankB \<Rightarrow> selection\<lparr>sl_bank_b := empty_snapshot bank\<rparr>)"

definition identity_of :: "SoundAssetStore \<Rightarrow> SoundUpdateIdentity" where
  "identity_of s = \<lparr>ui_generation = st_update_generation s, ui_target_bank = st_update_bank s,
     ui_transaction_id = st_update_transaction_id s\<rparr>"

text \<open>The header is written and read back before its magic.\<close>

definition write_staging_header :: "SoundBankId \<Rightarrow> bytes \<Rightarrow> unit store_op" where
  "write_staging_header bank header =
     proceed (map_error (\<lambda>_. StIoError) (bank_write bank 4 (drop 4 header))) (\<lambda>_.
     proceed (map_error (\<lambda>_. StIoError) (bank_read bank 4 (kStagingHeaderBytes - 4))) (\<lambda>readback.
     proceed (require (drop 4 header = readback) StIoError) (\<lambda>_.
     proceed (map_error (\<lambda>_. StIoError) (bank_write bank 0 (take 4 header))) (\<lambda>_.
     proceed (map_error (\<lambda>_. StIoError) (bank_read bank 0 4)) (\<lambda>readback.
     require (take 4 header = readback) StIoError)))))"

text \<open>Everything after the target is known.\<close>

definition begin_on_bank :: "SoundBundlePlan \<Rightarrow> u64 \<Rightarrow> SoundBankId \<Rightarrow> SoundUpdateIdentity store_op" where
  "begin_on_bank plan generation bank =
     proceed (on_failure (map_error map_io (bank_erase bank kSoundCommitOffset kSoundSectorSize))
       (modify (\<lambda>s. (forget_selections s)\<lparr>st_update_generation := 0\<rparr>))) (\<lambda>_.
     proceed (modify (\<lambda>s. s\<lparr>st_selection := empty_bank_snapshot bank (st_selection s)\<rparr>)) (\<lambda>_.
     proceed (on_failure (map_error map_io (bank_erase bank 0 kSoundCommitOffset)) reset_generation) (\<lambda>_.
     proceed (on_failure (verify_region_erased bank 0 kSoundBankSize) reset_generation) (\<lambda>_.
     proceed (modify (\<lambda>s. s\<lparr>st_update_plan := plan\<rparr>)) (\<lambda>_.
     proceed (on_failure (derive_transaction_id plan bank generation) reset_generation) (\<lambda>transaction_id.
     proceed (modify (\<lambda>s. s\<lparr>st_update_transaction_id := transaction_id,
         st_payload_complete := replicate kSoundPayloadBlockCount False, st_manifest_complete := False, st_update_active := True\<rparr>)) (\<lambda>_.
     proceed (on_failure (encode_staging_header bank generation transaction_id plan) clear_update_state) (\<lambda>header.
     proceed (on_failure (write_staging_header bank header) clear_update_state) (\<lambda>_.
     with_store (\<lambda>s. give (identity_of s)))))))))))"

definition begin_new_update :: "SoundBundlePlan \<Rightarrow> SoundUpdateIdentity store_op" where
  "begin_new_update plan =
     proceed (require (plan_is_valid plan) StInvalidArgument) (\<lambda>_.
     with_store (\<lambda>s.
     proceed (require (\<not> st_update_active s) StBusy) (\<lambda>_.
     proceed scan_unless_scanned (\<lambda>_.
     with_store (\<lambda>s.
     proceed (require (\<not> sl_split_brain (st_selection s)) StSplitBrain) (\<lambda>_.
     proceed (State_Monad.return (plan_target (st_selection s) plan)) (\<lambda>(generation, bank).
     proceed (modify (\<lambda>s. s\<lparr>st_update_generation := generation, st_update_bank := bank\<rparr>)) (\<lambda>_.
     proceed (on_failure (require (\<not> target_is_pinned s bank) StBankPinned) reset_generation) (\<lambda>_.
     begin_on_bank plan generation bank)))))))))"

text \<open>The target is free: an identical staging transaction is resumed, any other is left alone.\<close>

definition begin_or_resume_on :: "SoundBundlePlan \<Rightarrow> SoundStoreSelection \<Rightarrow> u64 \<Rightarrow> SoundBankId \<Rightarrow> SoundUpdateIdentity store_op" where
  "begin_or_resume_on plan selection generation target_bank =
     proceed (derive_transaction_id plan target_bank generation) (\<lambda>expected_transaction_id.
     if sb_valid (snapshot_for_bank selection target_bank) then begin_new_update plan
     else
     proceed (map_error map_io (bank_read target_bank kSoundStagingHeaderOffset kStagingHeaderBytes)) (\<lambda>encoded.
     if all_erased encoded then begin_new_update plan
     else
     proceed (decode_staging_header encoded target_bank) (\<lambda>(staged_generation, staged_transaction_id, staged_plan).
     proceed (derive_transaction_id staged_plan target_bank staged_generation) (\<lambda>observed_transaction_id.
     proceed (require (\<not> (observed_transaction_id \<noteq> staged_transaction_id)) StInvalidStaging) (\<lambda>_.
     if sl_active_valid selection \<and> staged_generation \<le> sb_generation (sl_active selection)
     then begin_new_update plan
     else
     proceed (require (\<not> (staged_generation \<noteq> generation \<or> staged_transaction_id \<noteq> expected_transaction_id \<or> \<not> plans_equal staged_plan plan)) StBusy) (\<lambda>_.
     proceed (load_staging_header target_bank expected_transaction_id) (\<lambda>_.
     with_store (\<lambda>s. give (identity_of s)))))))))"

definition begin_or_resume_update :: "SoundBundlePlan \<Rightarrow> SoundUpdateIdentity store_op" where
  "begin_or_resume_update plan =
     proceed (require (plan_is_valid plan) StInvalidArgument) (\<lambda>_.
     with_store (\<lambda>s.
     if st_update_active s then (if \<not> plans_equal plan (st_update_plan s) then refuse StBusy else give (identity_of s))
     else
     proceed scan_unless_scanned (\<lambda>_.
     with_store (\<lambda>s.
     proceed (require (\<not> sl_split_brain (st_selection s)) StSplitBrain) (\<lambda>_.
     proceed (State_Monad.return (plan_target (st_selection s) plan)) (\<lambda>(generation, target_bank).
     proceed (require (\<not> target_is_pinned s target_bank) StBankPinned) (\<lambda>_.
     begin_or_resume_on plan (st_selection s) generation target_bank)))))))"

fun resume_candidates :: "bytes \<Rightarrow> SoundBankId list \<Rightarrow> SoundUpdateIdentity store_op" where
  "resume_candidates transaction_id [] = refuse StTransactionMismatch"
| "resume_candidates transaction_id (candidate # rest) = with_store (\<lambda>s.
     if sb_valid (snapshot_for_bank (st_selection s) candidate) \<or> target_is_pinned s candidate
     then resume_candidates transaction_id rest
     else do {
       r \<leftarrow> load_staging_header candidate transaction_id;
       case r of
         Inl e \<Rightarrow> if e = StTransactionMismatch \<or> e = StInvalidBank then resume_candidates transaction_id rest else refuse e
       | Inr _ \<Rightarrow> with_store (\<lambda>s. give (identity_of s)) })"

definition resume_update :: "bytes \<Rightarrow> SoundUpdateIdentity store_op" where
  "resume_update transaction_id =
     proceed (require (transaction_id_valid transaction_id) StInvalidArgument) (\<lambda>_.
     with_store (\<lambda>s.
     proceed (require (\<not> st_update_active s) StBusy) (\<lambda>_.
     proceed scan_unless_scanned (\<lambda>_.
     with_store (\<lambda>s.
     proceed (require (\<not> sl_split_brain (st_selection s)) StSplitBrain) (\<lambda>_.
     resume_candidates transaction_id [BankA, BankB]))))))"

definition outcome_of :: "SoundTransactionState \<Rightarrow> bytes \<Rightarrow> SoundBankSnapshot \<Rightarrow> SoundTransactionOutcome" where
  "outcome_of state transaction_id snapshot = \<lparr>to_state = state,
     to_identity = \<lparr>ui_generation = sb_generation snapshot, ui_target_bank = sb_bank snapshot, ui_transaction_id = transaction_id\<rparr>,
     to_manifest_bytes = sb_manifest_bytes snapshot, to_payload_bytes = sb_payload_bytes snapshot,
     to_bundle_sha256 = sb_bundle_sha256 snapshot\<rparr>"

definition committed_outcome :: "SoundStoreSelection \<Rightarrow> bytes \<Rightarrow> SoundTransactionOutcome" where
  "committed_outcome selection transaction_id =
     (case find (\<lambda>snapshot. sb_valid snapshot \<and> sb_transaction_id snapshot = transaction_id) [sl_bank_a selection, sl_bank_b selection] of
        Some snapshot \<Rightarrow> outcome_of TxCommitted transaction_id snapshot
      | None \<Rightarrow> outcome_of TxUnknown transaction_id (empty_snapshot BankA))"

definition query_transaction_outcome :: "bytes \<Rightarrow> SoundTransactionOutcome store_op" where
  "query_transaction_outcome transaction_id =
     proceed (require (transaction_id_valid transaction_id) StInvalidArgument) (\<lambda>_.
     with_store (\<lambda>s.
     if st_update_active s \<and> st_update_transaction_id s = transaction_id
     then give \<lparr>to_state = TxActive, to_identity = identity_of s, to_manifest_bytes = bp_manifest_bytes (st_update_plan s),
            to_payload_bytes = bp_payload_bytes (st_update_plan s), to_bundle_sha256 = bp_bundle_sha256 (st_update_plan s)\<rparr>
     else do {
       scan_result \<leftarrow> scan_unless_scanned;
       case scan_result of
         Inl e \<Rightarrow> if e \<noteq> StSplitBrain then refuse e
                  else with_store (\<lambda>s. give (committed_outcome (st_selection s) transaction_id))
       | Inr _ \<Rightarrow> with_store (\<lambda>s. give (committed_outcome (st_selection s) transaction_id)) }))"

section \<open>Repair\<close>

text \<open>What follows the destruction of an invalid staging header.\<close>

definition after_discard :: "SoundBankId \<Rightarrow> unit store_op" where
  "after_discard bank = with_store (\<lambda>s.
     let emptied = empty_bank_snapshot bank (st_selection s);
         selection = select_sound_banks (sl_bank_a emptied) (sl_bank_b emptied)
     in
     proceed (modify (\<lambda>s. s\<lparr>st_selection := selection, st_scanned := True, st_read_selection := empty_selection,
         st_read_selection_scanned := False, st_read_selection_result := Inl StUnavailable\<rparr>)) (\<lambda>_.
     require (\<not> sl_split_brain selection) StSplitBrain))"

definition discard_on_bank :: "SoundBankId \<Rightarrow> unit store_op" where
  "discard_on_bank target_bank =
     proceed (map_error map_io (bank_read target_bank kSoundStagingHeaderOffset kStagingHeaderBytes)) (\<lambda>encoded.
     if all_erased encoded then give ()
     else do {
       decode_result \<leftarrow> decode_staging_header encoded target_bank;
       case decode_result of
         Inr (staged_generation, staged_transaction_id, staged_plan) \<Rightarrow>
           proceed (derive_transaction_id staged_plan target_bank staged_generation) (\<lambda>observed_transaction_id.
           require (observed_transaction_id \<noteq> staged_transaction_id) StBusy)
       | Inl e \<Rightarrow>
           if e \<noteq> StInvalidStaging then refuse e
           else
           proceed (on_failure (map_error map_io (bank_erase target_bank 0 kSoundBankSize)) (modify forget_selections)) (\<lambda>_.
           proceed (on_failure (verify_region_erased target_bank 0 kSoundBankSize) (modify forget_selections)) (\<lambda>_.
           after_discard target_bank)) })"

definition discard_invalid_staging :: "SoundBundlePlan \<Rightarrow> unit store_op" where
  "discard_invalid_staging plan =
     proceed (require (plan_is_valid plan) StInvalidArgument) (\<lambda>_.
     with_store (\<lambda>s.
     proceed (require (\<not> st_update_active s) StBusy) (\<lambda>_.
     proceed scan_unless_scanned (\<lambda>_.
     with_store (\<lambda>s.
     proceed (require (\<not> sl_split_brain (st_selection s)) StSplitBrain) (\<lambda>_.
     proceed (State_Monad.return (plan_target (st_selection s) plan)) (\<lambda>(generation, target_bank).
     proceed (require (\<not> (sl_active_valid (st_selection s) \<and> target_bank = sb_bank (sl_active (st_selection s)))) StInvalidBank) (\<lambda>_.
     proceed (require (\<not> target_is_pinned s target_bank) StBankPinned) (\<lambda>_.
     proceed (require (\<not> sb_valid (snapshot_for_bank (st_selection s) target_bank)) StBusy) (\<lambda>_.
     discard_on_bank target_bank))))))))))"

section \<open>Writing\<close>

definition write_manifest :: "bytes \<Rightarrow> unit store_op" where
  "write_manifest manifest = with_store (\<lambda>s.
     let bank = st_update_bank s; plan = st_update_plan s in
     proceed (require (st_update_active s) StTransactionMismatch) (\<lambda>_.
     proceed (require (length manifest = bp_manifest_bytes plan) StInvalidArgument) (\<lambda>_.
     proceed (checkpointed_memory_crc32 bank kSoundManifestOffset manifest) (\<lambda>input_crc.
     proceed (checkpointed_memory_sha256 bank kSoundManifestOffset manifest) (\<lambda>input_digest.
     proceed (require (\<not> (input_crc \<noteq> bp_manifest_crc32 plan \<or> \<not> sound_digest_equal input_digest (bp_manifest_sha256 plan))) StCrcMismatch) (\<lambda>_.
     do {
       verify \<leftarrow> (if st_manifest_complete s then verify_manifest else refuse StIncomplete);
       case verify of
         Inr _ \<Rightarrow> give ()
       | Inl e \<Rightarrow>
           if st_manifest_complete s \<and> e \<noteq> StCrcMismatch \<and> e \<noteq> StHashMismatch then refuse e
           else
           proceed (set_manifest_complete False) (\<lambda>_.
           proceed (map_error map_io (bank_erase bank kSoundManifestOffset kSoundSectorSize)) (\<lambda>_.
           proceed (map_error map_io (bank_write bank kSoundManifestOffset manifest)) (\<lambda>_.
           proceed verify_manifest (\<lambda>_.
           proceed (set_manifest_complete True) (\<lambda>_.
           mark_manifest_complete))))) }))))))"

definition write_payload_block :: "nat \<Rightarrow> bytes \<Rightarrow> unit store_op" where
  "write_payload_block block_index data = with_store (\<lambda>s.
     let bank = st_update_bank s; plan = st_update_plan s;
         physical_offset = kSoundPayloadOffset + block_index * kSoundPayloadBlockSize
     in
     proceed (require (st_update_active s) StTransactionMismatch) (\<lambda>_.
     proceed (require (\<not> (block_index \<ge> payload_block_count (bp_payload_bytes plan) \<or>
         length data \<noteq> payload_block_length (bp_payload_bytes plan) block_index)) StInvalidArgument) (\<lambda>_.
     proceed (checkpointed_memory_crc32 bank physical_offset data) (\<lambda>input_crc.
     proceed (require (\<not> (input_crc \<noteq> bp_payload_block_crc32 plan ! block_index)) StCrcMismatch) (\<lambda>_.
     if st_payload_complete s ! block_index
     then
       proceed (verify_payload_block block_index) (\<lambda>complete.
       if \<not> complete then proceed (set_payload_complete block_index False) (\<lambda>_. refuse StCrcMismatch) else give ())
     else
       proceed (map_error map_io (bank_erase bank physical_offset kSoundPayloadBlockSize)) (\<lambda>_.
       proceed (map_error map_io (bank_write bank physical_offset data)) (\<lambda>_.
       proceed (verify_payload_block block_index) (\<lambda>complete.
       proceed (require complete StCrcMismatch) (\<lambda>_.
       proceed (set_payload_complete block_index True) (\<lambda>_.
       mark_payload_complete block_index))))))))))"

section \<open>Ending an update\<close>

text \<open>A write whose own result only counts when the data cannot be read back.\<close>

definition program_and_check :: "SoundBankId \<Rightarrow> nat \<Rightarrow> bytes \<Rightarrow> unit store_op" where
  "program_and_check bank offset data = do {
     io_result \<leftarrow> bank_write bank offset data;
     readback \<leftarrow> bank_read bank offset (length data);
     if readback \<noteq> Inr data then refuse (case io_result of Inr _ \<Rightarrow> StIoError | Inl e \<Rightarrow> map_io e) else give () }"

definition commit_update :: "unit store_op" where
  "commit_update = with_store (\<lambda>s.
     let bank = st_update_bank s; plan = st_update_plan s in
     proceed (require (st_update_active s) StTransactionMismatch) (\<lambda>_.
     proceed verify_manifest (\<lambda>_.
     proceed verify_all_payload_blocks (\<lambda>_.
     proceed (map_error map_format (validate_sound_manifest bank (bp_manifest_bytes plan) (bp_payload_bytes plan))) (\<lambda>summary.
     proceed (map_error map_format (calculate_sound_bank_digests bank (bp_manifest_bytes plan) (bp_payload_bytes plan)))
       (\<lambda>(manifest_digest, bundle_digest).
     proceed (require (\<not> (\<not> sound_digest_equal manifest_digest (bp_manifest_sha256 plan) \<or>
         \<not> sound_digest_equal bundle_digest (bp_bundle_sha256 plan))) StHashMismatch) (\<lambda>_.
     proceed (encode_commit_body bank (st_update_generation s) (st_update_transaction_id s) plan) (\<lambda>body.
     proceed (program_and_check bank kSoundCommitOffset body) (\<lambda>_.
     proceed (program_and_check bank (kSoundCommitOffset + kCommitMarkerOffset)
         (encode_commit_marker (read_le32 body kCommitBodyCrcOffset))) (\<lambda>_.
     proceed (map_error fst (validate_sound_bank bank)) (\<lambda>committed.
     proceed (require (\<not> (sb_generation committed \<noteq> st_update_generation s \<or>
         sb_transaction_id committed \<noteq> st_update_transaction_id s \<or>
         \<not> sound_digest_equal (sb_bundle_sha256 committed) (bp_bundle_sha256 plan))) StHashMismatch) (\<lambda>_.
     proceed refresh_selection_after_commit (\<lambda>_.
     clear_update_state)))))))))))))"

definition abort_update :: "unit store_op" where
  "abort_update = with_store (\<lambda>s.
     let bank = st_update_bank s; plan = st_update_plan s in
     if \<not> st_update_active s then give ()
     else do {
       committed_result \<leftarrow> validate_sound_bank bank;
       case committed_result of
         Inr committed \<Rightarrow>
           proceed (require (\<not> (sb_generation committed \<noteq> st_update_generation s \<or>
               sb_transaction_id committed \<noteq> st_update_transaction_id s \<or>
               \<not> sound_digest_equal (sb_bundle_sha256 committed) (bp_bundle_sha256 plan))) StTransactionMismatch) (\<lambda>_.
           proceed refresh_selection_after_commit (\<lambda>_.
           clear_update_state))
       | Inl (e, _) \<Rightarrow>
           proceed (require (\<not> (e = StUnavailable \<or> e = StIoError)) e) (\<lambda>_.
           proceed (map_error map_io (bank_erase bank kSoundStagingHeaderOffset kSoundSectorSize)) (\<lambda>_.
           clear_update_state)) })"

definition update_progress :: "SoundUpdateProgress store_op" where
  "update_progress = with_store (\<lambda>s.
     let plan = st_update_plan s; count = payload_block_count (bp_payload_bytes plan) in
     proceed (require (st_update_active s) StTransactionMismatch) (\<lambda>_.
     give \<lparr>up_identity = identity_of s, up_manifest_bytes = bp_manifest_bytes plan, up_payload_bytes = bp_payload_bytes plan,
           up_payload_block_count = count, up_manifest_complete = st_manifest_complete s,
           up_payload_complete_bitmap = foldl (\<lambda>bitmap index.
             if st_payload_complete s ! index
             then bitmap[index div 8 := bitmap ! (index div 8) OR push_bit (index mod 8) 1] else bitmap)
             (replicate (kSoundPayloadBlockCount div 8) 0) [0..<count],
           up_bundle_sha256 = bp_bundle_sha256 plan\<rparr>))"

section \<open>Reading\<close>

definition validate_candidate ::
  "SoundBankSnapshot \<Rightarrow> (SoundAssetStore, SoundStoreResult + SoundBankSnapshot) state" where
  "validate_candidate candidate =
     (if \<not> sb_valid candidate then give candidate
      else do {
        r \<leftarrow> validate_sound_bank_read_candidate candidate;
        case r of
          Inr _ \<Rightarrow> give candidate
        | Inl e \<Rightarrow> if bank_validation_failure_is_nonfatal e then give (candidate\<lparr>sb_valid := False\<rparr>) else refuse e })"

text \<open>The commit record of one bank in a fast scan; a failure leaves an empty snapshot.\<close>

definition inspect_commit :: "SoundBankId \<Rightarrow> (SoundBankSnapshot \<times> StoreStatus) store_op" where
  "inspect_commit bank = do {
     r \<leftarrow> decode_commit bank;
     case r of
       Inr snapshot \<Rightarrow> give (snapshot, Inr ())
     | Inl e \<Rightarrow> if bank_validation_failure_is_nonfatal e then give (empty_snapshot bank, Inl e) else refuse e }"

definition publish_read_selection :: "SoundStoreSelection \<Rightarrow> StoreStatus \<Rightarrow> unit store_op" where
  "publish_read_selection selection result =
     proceed (modify (\<lambda>s. s\<lparr>st_read_selection := selection, st_read_selection_scanned := True, st_read_selection_result := result\<rparr>)) (\<lambda>_.
     State_Monad.return result)"

definition scan_committed_content :: "unit store_op" where
  "scan_committed_content = with_store (\<lambda>s.
     proceed (require (\<not> st_update_active s) StBusy) (\<lambda>_.
     proceed (modify (\<lambda>s. s\<lparr>st_read_selection_scanned := False, st_read_selection_result := Inl StUnavailable,
         st_read_selection := empty_selection\<rparr>)) (\<lambda>_.
     proceed (inspect_commit BankA) (\<lambda>(bank_a, bank_a_result).
     proceed (inspect_commit BankB) (\<lambda>(bank_b, bank_b_result).
     if bank_a_result = Inl StFactoryBlank \<and> bank_b_result = Inl StFactoryBlank
     then publish_read_selection empty_selection (Inl StFactoryBlank)
     else
     let candidates = select_sound_banks bank_a bank_b in
     proceed
       (if sl_split_brain candidates then
          proceed (validate_candidate bank_a) (\<lambda>bank_a.
          proceed (validate_candidate bank_b) (\<lambda>bank_b.
          give (select_sound_banks bank_a bank_b)))
        else if sl_active_valid candidates then
          (if sb_bank (sl_active candidates) = BankA
           then
             proceed (validate_candidate bank_a) (\<lambda>bank_a.
             if \<not> sb_valid bank_a
             then proceed (validate_candidate bank_b) (\<lambda>bank_b. give (select_sound_banks bank_a bank_b))
             else give (select_sound_banks bank_a (bank_b\<lparr>sb_valid := False\<rparr>)))
           else
             proceed (validate_candidate bank_b) (\<lambda>bank_b.
             if \<not> sb_valid bank_b
             then proceed (validate_candidate bank_a) (\<lambda>bank_a. give (select_sound_banks bank_a bank_b))
             else give (select_sound_banks (bank_a\<lparr>sb_valid := False\<rparr>) bank_b)))
        else give candidates) (\<lambda>candidates.
     publish_read_selection candidates
       (if sl_split_brain candidates then Inl StSplitBrain
        else if sl_active_valid candidates then Inr () else Inl StUnavailable)))))))"

fun lease_candidate :: "nat \<Rightarrow> SoundReadLease list \<Rightarrow> u64 \<Rightarrow> u64" where
  "lease_candidate 0 leases candidate = candidate"
| "lease_candidate (Suc attempts) leases candidate =
     (let candidate = (if candidate = 0 then 1 else candidate) in
      if list_ex (\<lambda>existing. rl_valid existing \<and> rl_lease_id existing = candidate) leases
      then lease_candidate attempts leases (candidate + 1) else candidate)"

definition free_slot :: "SoundReadLease list \<Rightarrow> nat option" where
  "free_slot leases = find (\<lambda>i. \<not> rl_valid (leases ! i)) [0..<length leases]"

definition acquire_active_read :: "SoundReadLease store_op" where
  "acquire_active_read = with_store (\<lambda>s.
     proceed (if \<not> st_read_selection_scanned s then scan_committed_content else give ()) (\<lambda>_.
     with_store (\<lambda>s.
     proceed (State_Monad.return (st_read_selection_result s)) (\<lambda>_.
     proceed (require (sl_active_valid (st_read_selection s))
       (if sl_split_brain (st_read_selection s) then StSplitBrain else StUnavailable)) (\<lambda>_.
     proceed (require_some (free_slot (st_read_leases s)) StBusy) (\<lambda>slot.
     let candidate = lease_candidate (kSoundMaximumReadLeases + 1) (st_read_leases s) (st_next_read_lease_id s) in
     proceed (require (candidate \<noteq> 0) StBusy) (\<lambda>_.
     let acquired = \<lparr>rl_valid = True, rl_lease_id = candidate, rl_bank = sb_bank (sl_active (st_read_selection s)),
           rl_generation = sb_generation (sl_active (st_read_selection s)),
           rl_bundle_sha256 = sb_bundle_sha256 (sl_active (st_read_selection s))\<rparr>
     in
     proceed (modify (\<lambda>s. s\<lparr>st_read_leases := (st_read_leases s)[slot := acquired],
         st_next_read_lease_id := (if candidate = - 1 then 1 else candidate + 1)\<rparr>)) (\<lambda>_.
     give acquired))))))))"

definition release_read :: "SoundReadLease \<Rightarrow> unit store_op" where
  "release_read lease =
     proceed (require (rl_valid lease) StInvalidArgument) (\<lambda>_.
     with_store (\<lambda>s.
     proceed (require_some (find (\<lambda>i. let existing = st_read_leases s ! i in
         rl_valid existing \<and> rl_lease_id existing = rl_lease_id lease \<and> rl_bank existing = rl_bank lease \<and>
         rl_generation existing = rl_generation lease \<and> sound_digest_equal (rl_bundle_sha256 existing) (rl_bundle_sha256 lease))
       [0..<length (st_read_leases s)]) StTransactionMismatch) (\<lambda>i.
     modify (\<lambda>s. s\<lparr>st_read_leases := (st_read_leases s)[i := empty_lease]\<rparr>))))"

end
