(* ===== verification/Sound_Format_Facts.thy ===== *)
theory Sound_Format_Facts
  imports Sound_Format
begin

text \<open>
  What the checks of \<open>Sound_Format\<close> establish about the bytes of a bank: a manifest that is
  accepted describes resources that tile the payload, each an exact stream of frames with the
  recorded digest, reached by mappings with distinct triggers; and the digests of a bank are
  the standard hashes of its regions.
\<close>

section \<open>A well-formed bundle\<close>

definition resource_at :: "bytes \<Rightarrow> nat \<Rightarrow> ResourceRecord" where
  "resource_at content i =
     decode_resource_record (region content (kSoundManifestOffset + (kManifestHeaderBytes + i * kResourceRecordBytes)) kResourceRecordBytes)"

definition mapping_at :: "bytes \<Rightarrow> nat \<Rightarrow> nat \<Rightarrow> MappingRecord" where
  "mapping_at content resource_count i =
     decode_mapping_record (region content
       (kSoundManifestOffset + (kManifestHeaderBytes + resource_count * kResourceRecordBytes + i * kMappingRecordBytes)) kMappingRecordBytes)"

definition resource_bytes :: "bytes \<Rightarrow> ResourceRecord \<Rightarrow> bytes" where
  "resource_bytes content r = region content (kSoundPayloadOffset + rr_payload_offset r) (rr_encoded_bytes r)"

text \<open>A frame of \<open>n\<close> samples: its header, half a byte per sample after the first, no loose nibble.\<close>

definition sound_frame :: "nat \<Rightarrow> bytes \<Rightarrow> bool" where
  "sound_frame n f \<longleftrightarrow> 0 < n \<and> n \<le> kImaAdpcmFrameSamples \<and> length f = kImaAdpcmFrameHeaderBytes + n div 2 \<and>
     unat (read_le16 f 0) = n \<and> f ! 4 < kImaAdpcmStepCount \<and> f ! 5 = 0 \<and> (even n \<longrightarrow> (last f) AND 0xF0 = 0)"

text \<open>Full frames and a last one that makes up the number of samples.\<close>

definition frame_sizes :: "nat \<Rightarrow> nat list" where
  "frame_sizes samples =
     replicate ((samples - 1) div kImaAdpcmFrameSamples) kImaAdpcmFrameSamples @
     [samples - (samples - 1) div kImaAdpcmFrameSamples * kImaAdpcmFrameSamples]"

definition eiad_header :: "ResourceRecord \<Rightarrow> bytes \<Rightarrow> bool" where
  "eiad_header r h \<longleftrightarrow> length h = kImaAdpcmHeaderBytes \<and> take 4 h = kImaAdpcmMagic \<and> h ! 4 = kImaAdpcmVersion \<and>
     h ! 5 = kMonoChannels \<and> unat (read_le32 h 6) = kImaAdpcmSampleRate \<and> unat (read_le16 h 10) = kImaAdpcmFrameSamples \<and>
     unat (read_le16 h 12) = rr_frame_count r \<and> unat (read_le32 h 14) = rr_decoded_samples r \<and>
     unat (read_le16 h 18) = kImaAdpcmHeaderBytes"

definition eiad_stream :: "ResourceRecord \<Rightarrow> bytes \<Rightarrow> bool" where
  "eiad_stream r bs \<longleftrightarrow> 0 < rr_decoded_samples r \<and> rr_decoded_samples r \<le> kMaximumBootSamples \<and>
     rr_codec r = kImaAdpcmCodec \<and> rr_channels r = kMonoChannels \<and>
     (\<exists>header frames. bs = header @ concat frames \<and> eiad_header r header \<and>
        rr_frame_count r = length frames \<and> list_all2 sound_frame (frame_sizes (rr_decoded_samples r)) frames)"

definition valid_trigger :: "MappingRecord \<Rightarrow> bool" where
  "valid_trigger m \<longleftrightarrow> mr_trigger m \<in> {kBootTrigger, kEncoderLeftTrigger, kEncoderRightTrigger, kEncoderPressTrigger} \<and> mr_index m = 0 \<or>
     mr_trigger m = kKeyTrigger \<and> mr_index m \<in> {1..8}"

definition manifest_header :: "bytes \<Rightarrow> SoundManifestSummary \<Rightarrow> bool" where
  "manifest_header h sm \<longleftrightarrow> take 4 h = kManifestMagic \<and> read_le16 h 4 = kManifestVersion \<and>
     unat (read_le16 h 6) = kManifestHeaderBytes \<and> unat (read_le32 h 8) = ms_manifest_bytes sm \<and>
     unat (read_le32 h 12) = ms_payload_bytes sm \<and> unat (read_le16 h 16) = ms_resource_count sm \<and>
     unat (read_le16 h 18) = ms_mapping_count sm \<and> region h 20 12 = replicate 12 0"

definition resources_ok :: "bytes \<Rightarrow> ResourceRecord list \<Rightarrow> bool" where
  "resources_ok content rs \<longleftrightarrow> distinct (map rr_sha256 rs) \<and>
     (\<forall>i < length rs. rr_payload_offset (rs ! i) = sum_list (map rr_encoded_bytes (take i rs)) \<and>
        eiad_stream (rs ! i) (resource_bytes content (rs ! i)) \<and> rr_sha256 (rs ! i) = sha256 (resource_bytes content (rs ! i)))"

definition mappings_ok :: "ResourceRecord list \<Rightarrow> MappingRecord list \<Rightarrow> bool" where
  "mappings_ok rs ms \<longleftrightarrow> distinct (map (\<lambda>m. (mr_trigger m, mr_index m)) ms) \<and>
     (\<forall>m \<in> set ms. valid_trigger m \<and> mr_resource_index m < length rs \<and>
        rr_decoded_samples (rs ! mr_resource_index m) \<le>
          (if mr_trigger m = kBootTrigger then kMaximumBootSamples else kMaximumActionSamples))"

definition bundle_ok :: "bytes \<Rightarrow> SoundManifestSummary \<Rightarrow> bool" where
  "bundle_ok content sm \<longleftrightarrow>
     (let rs = map (resource_at content) [0..<ms_resource_count sm];
          ms = map (mapping_at content (ms_resource_count sm)) [0..<ms_mapping_count sm]
      in manifest_header (region content kSoundManifestOffset kManifestHeaderBytes) sm \<and>
         ms_manifest_bytes sm = kManifestHeaderBytes + length rs * kResourceRecordBytes + length ms * kMappingRecordBytes \<and>
         ms_manifest_bytes sm \<le> kSoundSectorSize \<and> ms_payload_bytes sm \<le> kSoundPayloadMaxSize \<and>
         length rs \<le> kMaximumResourceCount \<and> length ms \<le> kMaximumMappingCount \<and>
         resources_ok content rs \<and> sum_list (map rr_encoded_bytes rs) = ms_payload_bytes sm \<and>
         mappings_ok rs ms \<and> mr_resource_index ` set ms = {..<length rs})"

section \<open>Regions and numbers\<close>

lemma region_append: "region content a n @ region content (a + n) k = region content a (n + k)"
  by (simp add: region_def take_add) (simp add: add.commute)

lemma region_0 [simp]: "region content a 0 = []"
  by (simp add: region_def)

lemma take_region: "n \<le> len \<Longrightarrow> take n (region content a len) = region content a n"
  by (simp add: region_def)

lemma nth_region: "i < len \<Longrightarrow> a + i < length content \<Longrightarrow> region content a len ! i = content ! (a + i)"
  by (simp add: region_def)

lemma checked_add_Some: "checked_add a b = Some c \<Longrightarrow> c = a + b"
  by (auto simp: checked_add_def split: if_splits)

lemma checked_multiply_Some: "checked_multiply a b = Some c \<Longrightarrow> c = a * b"
  by (auto simp: checked_multiply_def split: if_splits)

lemma bytes_equal_iff:
  assumes "length expected \<le> length bs"
  shows "bytes_equal bs expected \<longleftrightarrow> take (length expected) bs = expected"
  unfolding bytes_equal_def list_all_iff list_eq_iff_nth_eq using assms by auto

lemma foldl_or_u8_eq_0: "foldl (OR) d bs = (0 :: u8) \<longleftrightarrow> d = 0 \<and> (\<forall>b \<in> set bs. b = 0)"
  by (induction bs arbitrary: d) (auto simp: or_eq_0_iff)

lemma bytes_are_zero_iff: "bytes_are_zero bs \<longleftrightarrow> bs = replicate (length bs) 0"
  unfolding bytes_are_zero_def foldl_or_u8_eq_0 by (metis in_set_replicate replicate_eqI)

lemma fmt_read_Inr:
  "run_state (fmt_read bank offset len) s = (Inr bs, s') \<Longrightarrow>
     same_flash s s' \<and> bs = region (sf_bank s bank) offset len \<and> offset + len \<le> kSoundBankSize"
  using bank_read_Inr by (simp add: fmt_read_def ok_runs)

lemma fmt_read_reading: "state_io_rel same_flash (fmt_read bank offset len)"
  unfolding fmt_read_def by (intro reading.rules bank_read_reading)

lemma read_resource_Inr:
  assumes "run_state (read_resource_record bank i) s = (Inr r, s')"
  shows "same_flash s s' \<and> r = resource_at (sf_bank s bank) i"
  using assms
  by (auto simp: read_resource_record_def ok_runs resource_at_def bind_eq_Some_conv
      dest!: fmt_read_Inr checked_add_Some checked_multiply_Some)

lemma read_mapping_Inr:
  assumes "run_state (read_mapping_record bank rc i) s = (Inr m, s')"
  shows "same_flash s s' \<and> m = mapping_at (sf_bank s bank) rc i"
  using assms
  by (auto simp: read_mapping_record_def ok_runs mapping_at_def bind_eq_Some_conv
      dest!: fmt_read_Inr checked_add_Some checked_multiply_Some)


section \<open>Digests\<close>

lemma hash_bytes_Inr:
  assumes "run_state (hash_bytes bank offset hash data) s = (Inr hash', s')" "sha_holds hash message"
  shows "same_flash s s' \<and> sha_holds hash' (message @ data)"
proof -
  obtain ok h' where u: "sha_update hash data = (ok, h')" by fastforce
  from assms(1) have "ok" "h' = hash'" "same_flash s s'"
    by (auto simp: hash_bytes_def ok_runs u split: if_splits dest: checkpoint_Inr)
  then show ?thesis using sha_update_holds [OF assms(2) u] by metis
qed

lemma finish_hash_Inr:
  assumes "run_state (finish_hash bank offset hash) s = (Inr digest, s')" "sha_holds hash message"
  shows "same_flash s s' \<and> digest = sha256 message"
  using assms(1) sha_finish_holds [OF assms(2)]
  by (auto simp: finish_hash_def ok_runs dest: checkpoint_Inr)

definition optional_holds :: "SoundSha256 option \<Rightarrow> bytes \<Rightarrow> bool" where
  "optional_holds hash message \<longleftrightarrow> (case hash of None \<Rightarrow> True | Some h \<Rightarrow> sha_holds h message)"

lemma secondary_Inr:
  assumes "run_state (case secondary of None \<Rightarrow> give None
      | Some hash \<Rightarrow> proceed (hash_bytes bank offset hash data) (\<lambda>hash'. give (Some hash'))) s = (Inr secondary', s')"
    "optional_holds secondary message"
  shows "same_flash s s' \<and> optional_holds secondary' (message @ data) \<and> (secondary' = None \<longleftrightarrow> secondary = None)"
  using assms
  by (auto simp: optional_holds_def ok_runs split: option.splits dest: hash_bytes_Inr)

lemma hash_range_Inr:
  assumes "run_state (hash_bank_range bank offset len consumed primary secondary) s = (Inr (primary', secondary'), s')"
    "sha_holds primary m1" "optional_holds secondary m2" "consumed \<le> len"
  shows "same_flash s s' \<and> sha_holds primary' (m1 @ region (sf_bank s bank) (offset + consumed) (len - consumed)) \<and>
    optional_holds secondary' (m2 @ region (sf_bank s bank) (offset + consumed) (len - consumed)) \<and>
    (secondary' = None \<longleftrightarrow> secondary = None)"
  using assms
proof (induction bank offset len consumed primary secondary arbitrary: s m1 m2 rule: hash_bank_range.induct)
  case (1 bank offset len consumed primary secondary)
  show ?case
  proof (cases "consumed < len")
    case False
    then show ?thesis using "1.prems" by (subst (asm) hash_bank_range.simps) (auto simp: ok_runs)
  next
    case True
    let ?chunk = "min (len - consumed) 256" and ?c = "sf_bank s bank"
    obtain at buffer s1 p1 s2 q1 s3 where
      at: "checked_add offset consumed = Some at"
      and rd: "run_state (fmt_read bank at ?chunk) s = (Inr buffer, s1)"
      and pr: "run_state (hash_bytes bank at primary buffer) s1 = (Inr p1, s2)"
      and se: "run_state (case secondary of None \<Rightarrow> give None
          | Some hash \<Rightarrow> proceed (hash_bytes bank at hash buffer) (\<lambda>hash'. give (Some hash'))) s2 = (Inr q1, s3)"
      and go: "run_state (hash_bank_range bank offset len (consumed + ?chunk) p1 q1) s3 = (Inr (primary', secondary'), s')"
      using "1.prems"(1) True by (subst (asm) hash_bank_range.simps) (auto simp: ok_runs Let_def)
    have buf: "same_flash s s1" "buffer = region ?c (offset + consumed) ?chunk"
      using fmt_read_Inr [OF rd] checked_add_Some [OF at] by simp_all
    note p = hash_bytes_Inr [OF pr "1.prems"(2)]
    note q = secondary_Inr [OF se "1.prems"(3)]
    have same: "same_flash s s3" using buf p q reading.trans by blast
    have "?chunk \<le> len - consumed" by simp
    then have le: "consumed + ?chunk \<le> len" using True by linarith
    have IH: "same_flash s3 s' \<and>
        sha_holds primary' ((m1 @ buffer) @ region (sf_bank s3 bank) (offset + (consumed + ?chunk)) (len - (consumed + ?chunk))) \<and>
        optional_holds secondary' ((m2 @ buffer) @ region (sf_bank s3 bank) (offset + (consumed + ?chunk)) (len - (consumed + ?chunk))) \<and>
        (secondary' = None \<longleftrightarrow> q1 = None)"
      using "1.IH" [OF True refl go] p q le by blast
    have "buffer @ region ?c (offset + (consumed + ?chunk)) (len - (consumed + ?chunk)) = region ?c (offset + consumed) (len - consumed)"
      using region_append [of ?c "offset + consumed" ?chunk "len - (consumed + ?chunk)"] le by (simp add: buf(2) add.assoc)
    then show ?thesis using IH same q same_flash_bank [OF same] reading.trans [OF same] by simp
  qed
qed

lemma resource_digest_Inr:
  assumes "run_state (calculate_resource_digest bank r) s = (Inr digest, s')"
  shows "same_flash s s' \<and> digest = sha256 (resource_bytes (sf_bank s bank) r)"
proof -
  obtain at p q s1 where at: "checked_add kSoundPayloadOffset (rr_payload_offset r) = Some at"
    and ha: "run_state (hash_bank_range bank at (rr_encoded_bytes r) 0 sha_reset None) s = (Inr (p, q), s1)"
    and fi: "run_state (finish_hash bank at p) s1 = (Inr digest, s')"
    using assms by (auto simp: calculate_resource_digest_def ok_runs)
  have "same_flash s s1 \<and> sha_holds p (resource_bytes (sf_bank s bank) r)"
    using hash_range_Inr [OF ha sha_holds_reset, of "[]"] checked_add_Some [OF at] by (simp add: optional_holds_def resource_bytes_def)
  then show ?thesis using finish_hash_Inr [OF fi] reading.trans by blast
qed

text \<open>The digests of a bank: of the manifest, and of both regions with their lengths under a domain.\<close>

definition bundle_message :: "bytes \<Rightarrow> nat \<Rightarrow> nat \<Rightarrow> bytes" where
  "bundle_message content manifest_bytes payload_bytes =
     kBundleDomain @ write_le32 (of_nat manifest_bytes) @ region content kSoundManifestOffset manifest_bytes @
     write_le32 (of_nat payload_bytes) @ region content kSoundPayloadOffset payload_bytes"

lemma bank_digests_Inr:
  assumes "run_state (calculate_sound_bank_digests bank mb pb) s = (Inr (md, bd), s')"
  shows "same_flash s s' \<and> md = sha256 (region (sf_bank s bank) kSoundManifestOffset mb) \<and>
    bd = sha256 (bundle_message (sf_bank s bank) mb pb)"
proof -
  let ?c = "sf_bank s bank"
  obtain h1 s1 p q s2 d1 s3 h3 s4 h4 q4 s5 where
    h1: "run_state (hash_bytes bank kSoundManifestOffset sha_reset (kBundleDomain @ write_le32 (of_nat mb))) s = (Inr h1, s1)"
    and h2: "run_state (hash_bank_range bank kSoundManifestOffset mb 0 sha_reset (Some h1)) s1 = (Inr (p, q), s2)"
    and f1: "run_state (finish_hash bank kSoundManifestOffset p) s2 = (Inr md, s3)"
    and h3: "run_state (hash_bytes bank kSoundPayloadOffset (the q) (write_le32 (of_nat pb))) s3 = (Inr h3, s4)"
    and h4: "run_state (hash_bank_range bank kSoundPayloadOffset pb 0 h3 None) s4 = (Inr (h4, q4), s5)"
    and f2: "run_state (finish_hash bank kSoundPayloadOffset h4) s5 = (Inr bd, s')"
    using assms by (auto simp: calculate_sound_bank_digests_def ok_runs Let_def)
  note a = hash_bytes_Inr [OF h1 sha_holds_reset, simplified]
  have b: "same_flash s1 s2" "sha_holds p (region ?c kSoundManifestOffset mb)"
    "sha_holds (the q) (kBundleDomain @ write_le32 (of_nat mb) @ region ?c kSoundManifestOffset mb)"
    using hash_range_Inr [OF h2 sha_holds_reset, of "kBundleDomain @ write_le32 (of_nat mb)"] a same_flash_bank [of s s1]
    by (auto simp: optional_holds_def split: option.splits)
  note c = finish_hash_Inr [OF f1 b(2)]
  note d = hash_bytes_Inr [OF h3 b(3)]
  have s14: "same_flash s s4" using a b(1) c d reading.trans by blast
  have e: "same_flash s4 s5" "sha_holds h4 (bundle_message ?c mb pb)"
    using hash_range_Inr [OF h4 conjunct2 [OF d], of "[]"] same_flash_bank [OF s14] by (auto simp: optional_holds_def bundle_message_def)
  note f = finish_hash_Inr [OF f2 e(2)]
  show ?thesis using s14 c e(1) f reading.trans by blast
qed


section \<open>Resources\<close>

lemma eiad_frame_Inr:
  assumes run: "run_state (eiad_frame bank r ro k (cursor, observed)) s = (Inr (cursor', observed'), s')"
    and len: "length (sf_bank s bank) = kSoundBankSize" and fits: "ro + rr_encoded_bytes r \<le> kSoundBankSize"
  shows "\<exists>n f. same_flash s s' \<and> sound_frame n f \<and> observed' = observed + n \<and> cursor' = cursor + length f \<and>
    cursor' \<le> rr_encoded_bytes r \<and> f = region (sf_bank s bank) (ro + cursor) (length f) \<and>
    n = (if k + 1 = rr_frame_count r then subtract_u32 (rr_decoded_samples r) observed else kImaAdpcmFrameSamples)"
proof -
  let ?c = "sf_bank s bank"
  obtain at h s1 c1 s2 where at: "checked_add ro cursor = Some at" and rd: "run_state (fmt_read bank at kImaAdpcmFrameHeaderBytes) s = (Inr h, s1)"
    and c1: "checked_add cursor kImaAdpcmFrameHeaderBytes = Some c1"
    and n: "0 < unat (read_le16 h 0)" "unat (read_le16 h 0) \<le> kImaAdpcmFrameSamples"
      "unat (read_le16 h 0) = (if k + 1 = rr_frame_count r then subtract_u32 (rr_decoded_samples r) observed else kImaAdpcmFrameSamples)"
      "h ! 4 < kImaAdpcmStepCount" "h ! 5 = 0"
    and room: "c1 \<le> rr_encoded_bytes r" "unat (read_le16 h 0) div 2 \<le> rr_encoded_bytes r - c1"
    and pad: "run_state (if unat (read_le16 h 0) mod 2 = 0 \<and> unat (read_le16 h 0) div 2 \<noteq> 0 then
          proceed (require_some
            (do { final_payload_byte \<leftarrow> checked_add c1 (unat (read_le16 h 0) div 2 - 1);
                  checked_add ro final_payload_byte }) FmtInvalidResource) (\<lambda>padding_offset.
          proceed (fmt_read bank padding_offset 1) (\<lambda>padding.
          require ((padding ! 0) AND 0xF0 = 0) FmtInvalidResource))
        else give ()) s1 = (Inr (), s2)"
    and fin: "checked_add c1 (unat (read_le16 h 0) div 2) = Some cursor'" "checked_add observed (unat (read_le16 h 0)) = Some observed'" "s' = s2"
    using run unfolding eiad_frame_def prod.case
    by (auto simp: ok_runs Let_def bind_eq_Some_conv not_le not_less simp del: if_Inr)
  define samples where samples: "samples = unat (read_le16 h 0)"
  note facts = n room pad fin(1,2)
  note n = facts(1-5) [folded samples] and room = facts(6,7) [folded samples] and pad = facts(8) [folded samples]
    and fin = facts(9,10) [folded samples] fin(3)
  let ?f = "region ?c (ro + cursor) (6 + samples div 2)"
  have h: "same_flash s s1" "h = region ?c (ro + cursor) 6" using fmt_read_Inr [OF rd] checked_add_Some [OF at] by (simp_all add: format_sizes)
  have c: "c1 = cursor + 6" "cursor' = cursor + (6 + samples div 2)" "observed' = observed + samples"
    using checked_add_Some [OF c1] checked_add_Some [OF fin(1)] checked_add_Some [OF fin(2)] by (simp_all add: format_sizes)
  have end_le: "cursor' \<le> rr_encoded_bytes r" using room c by linarith
  have lf: "length ?f = 6 + samples div 2" using end_le fits len c by (intro length_region) linarith
  have fh: "?f ! j = h ! j" if "j < 6" for j
  proof -
    have "ro + cursor + j < length ?c" using that end_le fits len c by linarith
    then show ?thesis using that by (simp add: h(2) nth_region)
  qed
  have last: "last ?f AND 0xF0 = 0 \<and> same_flash s1 s2" if ev: "even samples"
  proof -
    have "samples div 2 \<noteq> 0" using n(1) ev by auto
    then obtain x y p where x: "checked_add c1 (samples div 2 - 1) = Some x" "checked_add ro x = Some y"
      and p: "run_state (fmt_read bank y 1) s1 = (Inr p, s2)" "(p ! 0) AND 0xF0 = 0"
      using pad ev by (auto simp: ok_runs bind_eq_Some_conv even_iff_mod_2_eq_zero)
    have y: "y = ro + cursor + (5 + samples div 2)" using checked_add_Some [OF x(1)] checked_add_Some [OF x(2)] c \<open>samples div 2 \<noteq> 0\<close> by simp
    have "p ! 0 = ?c ! y" using fmt_read_Inr [OF p(1)] same_flash_bank [OF h(1)] y end_le fits len c by (simp add: nth_region)
    also have "\<dots> = last ?f"
    proof -
      have "last ?f = ?f ! (5 + samples div 2)" using lf by (subst last_conv_nth) auto
      also have "\<dots> = ?c ! y" using y end_le fits len c by (simp add: nth_region add.assoc)
      finally show ?thesis ..
    qed
    finally show ?thesis using p fmt_read_Inr [OF p(1)] by simp
  qed
  have same: "same_flash s s'"
    using last h(1) fin(3) pad reading.trans by (auto simp: ok_runs even_iff_mod_2_eq_zero split: if_splits)
  have "read_le16 ?f 0 = read_le16 h 0" by (simp add: read_le16_def fh)
  then have "sound_frame samples ?f" using n lf fh last by (simp add: sound_frame_def format_sizes samples)
  then show ?thesis using same c end_le n(3) lf samples by (intro exI [of _ samples] exI [of _ ?f]) simp
qed


lemma frame_sizes_facts:
  assumes "0 < d" "d \<le> kMaximumBootSamples"
  shows "length (frame_sizes d) = 1 + (d - 1) div kImaAdpcmFrameSamples" (is ?L)
    and "k < length (frame_sizes d) \<Longrightarrow>
      (if k + 1 = length (frame_sizes d) then subtract_u32 d (sum_list (take k (frame_sizes d))) else kImaAdpcmFrameSamples) =
        frame_sizes d ! k" (is "_ \<Longrightarrow> ?N")
    and "sum_list (frame_sizes d) = d" (is ?S)
proof -
  define q where "q = (d - 1) div kImaAdpcmFrameSamples"
  have q: "q * kImaAdpcmFrameSamples \<le> d - 1" by (simp add: q_def)
  have fs: "frame_sizes d = replicate q kImaAdpcmFrameSamples @ [d - q * kImaAdpcmFrameSamples]"
    by (simp add: frame_sizes_def q_def)
  show ?L unfolding fs q_def [symmetric] by simp
  show ?S using q assms(1) by (simp add: fs sum_list_replicate)
  show ?N if "k < length (frame_sizes d)"
  proof (cases "k = q")
    case True
    have "d + 2 ^ 32 - q * kImaAdpcmFrameSamples = (d - q * kImaAdpcmFrameSamples) + 2 ^ 32" using q by simp
    moreover have "d - q * kImaAdpcmFrameSamples < 2 ^ 32" using assms(2) by (simp add: format_sizes)
    ultimately have "subtract_u32 d (q * kImaAdpcmFrameSamples) = d - q * kImaAdpcmFrameSamples"
      unfolding subtract_u32_def by (simp only: mod_add_self2 mod_less)
    then show ?thesis using True by (simp add: fs sum_list_replicate nth_append)
  next
    case False
    then show ?thesis using that by (simp add: fs nth_append)
  qed
qed

lemma eiad_resource_Inr:
  assumes run: "run_state (validate_eiad_resource bank r) s = (Inr u, s')"
    and len: "length (sf_bank s bank) = kSoundBankSize"
    and fits: "kSoundPayloadOffset + (rr_payload_offset r + rr_encoded_bytes r) \<le> kSoundBankSize"
  shows "same_flash s s' \<and> eiad_stream r (resource_bytes (sf_bank s bank) r)"
proof -
  let ?c = "sf_bank s bank" and ?d = "rr_decoded_samples r" and ?ro = "kSoundPayloadOffset + rr_payload_offset r"
  let ?S = "frame_sizes ?d"
  obtain ro h s1 cursor observed where ok: "kImaAdpcmHeaderBytes \<le> rr_encoded_bytes r" "0 < ?d" "?d \<le> kMaximumBootSamples"
      "rr_frame_count r = 1 + (?d - 1) div kImaAdpcmFrameSamples" "rr_codec r = kImaAdpcmCodec" "rr_channels r = kMonoChannels"
    and ro: "checked_add kSoundPayloadOffset (rr_payload_offset r) = Some ro"
    and rd: "run_state (fmt_read bank ro kImaAdpcmHeaderBytes) s = (Inr h, s1)"
    and hd: "bytes_equal h kImaAdpcmMagic" "h ! 4 = kImaAdpcmVersion" "h ! 5 = kMonoChannels"
      "unat (read_le32 h 6) = kImaAdpcmSampleRate" "unat (read_le16 h 10) = kImaAdpcmFrameSamples"
      "unat (read_le16 h 12) = rr_frame_count r" "unat (read_le32 h 14) = ?d" "unat (read_le16 h 18) = kImaAdpcmHeaderBytes"
    and fr: "run_state (for_each (eiad_frame bank r ro) [0..<rr_frame_count r] (kImaAdpcmHeaderBytes, 0)) s1 = (Inr (cursor, observed), s')"
    and fin: "cursor = rr_encoded_bytes r" "observed = ?d"
    using run unfolding validate_eiad_resource_def by (auto simp: ok_runs not_less)
  note S = frame_sizes_facts [OF ok(2,3)]
  have ro': "ro = ?ro" using checked_add_Some [OF ro] by simp
  have h: "same_flash s s1" "h = region ?c ?ro kImaAdpcmHeaderBytes" using fmt_read_Inr [OF rd] ro' by simp_all
  have lh: "length h = kImaAdpcmHeaderBytes" unfolding h(2) using ok(1) fits len by (intro length_region) linarith
  define P where "P = (\<lambda>k (cur, obs) t. same_flash s t \<and> cur \<le> rr_encoded_bytes r \<and> obs = sum_list (take k ?S) \<and>
      (\<exists>frames. region ?c ?ro cur = h @ concat frames \<and> cur = length h + length (concat frames) \<and> length frames = k \<and>
        list_all2 sound_frame (take k ?S) frames))"
  have "P (rr_frame_count r) (cursor, observed) s'"
  proof (rule for_each_Inr [OF fr])
    show "P 0 (kImaAdpcmHeaderBytes, 0) s1"
      using h lh ok(1) by (simp add: P_def)
    fix k acc t acc' t'
    assume k: "k < rr_frame_count r" and P: "P k acc t" and body: "run_state (eiad_frame bank r ro k acc) t = (Inr acc', t')"
    obtain cur obs cur' obs' where acc: "acc = (cur, obs)" "acc' = (cur', obs')" by fastforce
    from P acc obtain frames where st: "same_flash s t" and obs: "obs = sum_list (take k ?S)"
      and frames: "region ?c ?ro cur = h @ concat frames" "cur = length h + length (concat frames)" "length frames = k"
        "list_all2 sound_frame (take k ?S) frames"
      by (auto simp: P_def)
    have lt: "length (sf_bank t bank) = kSoundBankSize" using same_flash_bank [OF st] len by simp
    obtain n f where f: "same_flash t t'" "sound_frame n f" "obs' = obs + n" "cur' = cur + length f" "cur' \<le> rr_encoded_bytes r"
        "f = region ?c (?ro + cur) (length f)" "n = (if k + 1 = rr_frame_count r then subtract_u32 ?d obs else kImaAdpcmFrameSamples)"
      using eiad_frame_Inr [OF body [unfolded acc] lt] fits same_flash_bank [OF st] ro' by (auto simp: add.assoc)
    have kS: "k < length ?S" using k ok(4) S(1) by simp
    have "length ?S = rr_frame_count r" using S(1) ok(4) by simp
    then have n: "n = ?S ! k" using f(7) S(2) [OF kS] obs by metis
    have "region ?c ?ro cur' = h @ concat (frames @ [f])"
      using region_append [of ?c ?ro cur "length f"] f(4,6) frames(1) by simp
    moreover have "list_all2 sound_frame (take (Suc k) ?S) (frames @ [f])"
      using frames(4) f(2) n by (simp add: take_Suc_conv_app_nth [OF kS] list_all2_appendI)
    moreover have "obs' = sum_list (take (Suc k) ?S)" using f(3) obs n by (simp add: take_Suc_conv_app_nth [OF kS])
    moreover have "same_flash s t'" using st f(1) reading.trans by blast
    moreover have "cur' = length h + length (concat (frames @ [f]))" using f(4) frames(2) by simp
    moreover have "length (frames @ [f]) = Suc k" using frames(3) by simp
    ultimately show "P (Suc k) acc' t'" using f(5) unfolding P_def acc prod.case by blast
  qed
  then obtain frames where fr: "same_flash s s'" "resource_bytes ?c r = h @ concat frames" "length frames = rr_frame_count r"
      "list_all2 sound_frame ?S frames"
    using ok(4) S(1) fin by (auto simp: P_def resource_bytes_def)
  have "length kImaAdpcmMagic = 4" by (simp add: kImaAdpcmMagic_def)
  then have "take 4 h = kImaAdpcmMagic" using hd(1) bytes_equal_iff [of kImaAdpcmMagic h] lh by (simp add: format_sizes)
  then have "eiad_header r h" using hd lh by (simp add: eiad_header_def)
  then have "eiad_stream r (resource_bytes ?c r)" unfolding eiad_stream_def using ok(2,3,5,6) fr(2,4) fr(3) [symmetric] by blast
  then show ?thesis using fr(1) by simp
qed


lemma length_absorb_state: "length st = 8 \<Longrightarrow> length (fst (absorb st data)) = 8"
proof (induction st data rule: absorb.induct)
  case (1 st data)
  then show ?case by (subst absorb.simps) (auto simp: sha_transform_def split: prod.splits)
qed

lemma length_sha256 [simp]: "length (sha256 message) = 32"
proof -
  have "length (concat (map store_be32 ws)) = 4 * length ws" for ws by (induction ws) (simp_all add: store_be32_def)
  moreover have "length kSha256InitialState = 8" by (simp add: kSha256InitialState_def)
  ultimately show ?thesis by (simp add: sha256_code sha256_blocks_def length_absorb_state)
qed

lemma read_resource_sha:
  assumes "run_state (read_resource_record bank i) s = (Inr r, s')" "length (sf_bank s bank) = kSoundBankSize"
  shows "length (rr_sha256 r) = 32"
proof -
  obtain at encoded t where "run_state (fmt_read bank at 48) s = (Inr encoded, t)" "r = decode_resource_record encoded"
    using assms(1) by (auto simp: read_resource_record_def ok_runs kResourceRecordBytes_def)
  then show ?thesis using fmt_read_Inr length_region assms(2) by (fastforce simp: decode_resource_record_def)
qed

lemma unique_sha_Inr:
  assumes run: "run_state (validate_unique_resource_sha bank n digest) s = (Inr u, s')"
    and len: "length (sf_bank s bank) = kSoundBankSize" "length digest = 32"
  shows "same_flash s s' \<and> (\<forall>j < n. rr_sha256 (resource_at (sf_bank s bank) j) \<noteq> digest)"
proof -
  define P where "P = (\<lambda>k (u :: unit) t. same_flash s t \<and> (\<forall>j < k. rr_sha256 (resource_at (sf_bank s bank) j) \<noteq> digest))"
  have "P n u s'"
  proof (rule for_each_Inr [OF run [unfolded validate_unique_resource_sha_def]])
    show "P 0 () s" by (simp add: P_def)
    fix i acc t acc' t'
    assume P: "P i acc t" and body: "run_state (proceed (read_resource_record bank i) (\<lambda>previous.
      require (\<not> sound_digest_equal (rr_sha256 previous) digest) FmtInvalidResource)) t = (Inr acc', t')"
    then obtain r where rd: "run_state (read_resource_record bank i) t = (Inr r, t')" and ne: "\<not> sound_digest_equal (rr_sha256 r) digest"
      by (auto simp: ok_runs)
    have st: "same_flash s t" using P by (simp add: P_def)
    have "length (rr_sha256 r) = 32" using read_resource_sha [OF rd] same_flash_bank [OF st] len by simp
    then have "rr_sha256 r \<noteq> digest" using ne sound_digest_equal_iff len(2) by blast
    then show "P (Suc i) acc' t'"
      using P read_resource_Inr [OF rd] same_flash_bank [OF st] reading.trans [OF st] by (auto simp: P_def less_Suc_eq)
  qed
  then show ?thesis by (simp add: P_def)
qed

lemma validate_resource_Inr:
  assumes run: "run_state (validate_resource bank pb i expected) s = (Inr expected', s')"
    and len: "length (sf_bank s bank) = kSoundBankSize" and pb: "pb \<le> kSoundPayloadMaxSize"
  defines "r \<equiv> resource_at (sf_bank s bank) i"
  shows "same_flash s s' \<and> rr_payload_offset r = expected \<and> expected' = expected + rr_encoded_bytes r \<and> expected' \<le> pb \<and>
    eiad_stream r (resource_bytes (sf_bank s bank) r) \<and> rr_sha256 r = sha256 (resource_bytes (sf_bank s bank) r) \<and>
    (\<forall>j < i. rr_sha256 (resource_at (sf_bank s bank) j) \<noteq> rr_sha256 r)"
proof -
  let ?c = "sf_bank s bank"
  obtain r' s1 s2 s3 d where rd: "run_state (read_resource_record bank i) s = (Inr r', s1)"
    and ok: "rr_payload_offset r' = expected" "rr_payload_offset r' \<le> pb" "rr_encoded_bytes r' \<le> pb - rr_payload_offset r'"
      "checked_add (rr_payload_offset r') (rr_encoded_bytes r') = Some expected'"
    and un: "run_state (validate_unique_resource_sha bank i (rr_sha256 r')) s1 = (Inr (), s2)"
    and ei: "run_state (validate_eiad_resource bank r') s2 = (Inr (), s3)"
    and di: "run_state (calculate_resource_digest bank r') s3 = (Inr d, s')"
    and eq: "sound_digest_equal (rr_sha256 r') d"
    using run by (auto simp: validate_resource_def ok_runs not_less)
  have r: "r' = r" "same_flash s s1" "length (rr_sha256 r) = 32"
    using read_resource_Inr [OF rd] read_resource_sha [OF rd len] by (simp_all add: r_def)
  have u: "same_flash s s2" "\<forall>j < i. rr_sha256 (resource_at ?c j) \<noteq> rr_sha256 r"
    using unique_sha_Inr [OF un] r len same_flash_bank [OF r(2)] reading.trans [OF r(2)] by auto
  have sum: "expected' = expected + rr_encoded_bytes r" "expected' \<le> pb" using checked_add_Some [OF ok(4)] ok r(1) by auto
  have fits: "kSoundPayloadOffset + (rr_payload_offset r' + rr_encoded_bytes r') \<le> kSoundBankSize"
    using sum ok(1) r(1) pb by (simp add: bank_layout)
  have e: "same_flash s s3" "eiad_stream r (resource_bytes ?c r)"
    using eiad_resource_Inr [OF ei _ fits] r(1) len same_flash_bank [OF u(1)] reading.trans [OF u(1)] by auto
  have "same_flash s s' \<and> d = sha256 (resource_bytes ?c r)"
    using resource_digest_Inr [OF di] r(1) same_flash_bank [OF e(1)] reading.trans [OF e(1)] by auto
  then show ?thesis using u e sum ok(1) eq r sound_digest_equal_iff [of "rr_sha256 r" d] by auto
qed

lemma resources_Inr:
  assumes run: "run_state (for_each (validate_resource bank pb) [0..<n] 0) s = (Inr expected, s')"
    and len: "length (sf_bank s bank) = kSoundBankSize" and pb: "pb \<le> kSoundPayloadMaxSize"
  defines "rs \<equiv> map (resource_at (sf_bank s bank)) [0..<n]"
  shows "same_flash s s' \<and> resources_ok (sf_bank s bank) rs \<and> sum_list (map rr_encoded_bytes rs) = expected"
proof -
  let ?c = "sf_bank s bank"
  define R where "R = (\<lambda>k. map (resource_at ?c) [0..<k])"
  define P where "P = (\<lambda>k expected t. same_flash s t \<and> resources_ok ?c (R k) \<and> sum_list (map rr_encoded_bytes (R k)) = expected)"
  have "P n expected s'"
  proof (rule for_each_Inr [OF run])
    show "P 0 0 s" by (simp add: P_def R_def resources_ok_def)
    fix i acc t acc' t'
    assume P: "P i acc t" and body: "run_state (validate_resource bank pb i acc) t = (Inr acc', t')"
    have st: "same_flash s t" using P by (simp add: P_def)
    have lt: "length (sf_bank t bank) = kSoundBankSize" using same_flash_bank [OF st] len by simp
    have R: "R (Suc i) = R i @ [resource_at ?c i]" "length (R i) = i" by (simp_all add: R_def)
    have v: "same_flash t t'" "rr_payload_offset (resource_at ?c i) = acc" "acc' = acc + rr_encoded_bytes (resource_at ?c i)"
      "eiad_stream (resource_at ?c i) (resource_bytes ?c (resource_at ?c i))"
      "rr_sha256 (resource_at ?c i) = sha256 (resource_bytes ?c (resource_at ?c i))"
      "\<forall>j < i. rr_sha256 (resource_at ?c j) \<noteq> rr_sha256 (resource_at ?c i)"
      using validate_resource_Inr [OF body lt pb] unfolding same_flash_bank [OF st] by blast+
    have "rr_sha256 (resource_at ?c i) \<notin> set (map rr_sha256 (R i))" using v(6) by (force simp: R_def)
    then have "resources_ok ?c (R (Suc i))"
      using P v(2,4,5) R unfolding P_def resources_ok_def by (auto simp: nth_append less_Suc_eq)
    then show "P (Suc i) acc' t'" using P v(1,3) R reading.trans [OF st] by (simp add: P_def)
  qed
  then show ?thesis by (simp add: P_def R_def rs_def)
qed


section \<open>Mappings\<close>

text \<open>The bit of a trigger, as a number.\<close>

definition target_index :: "u8 \<times> u8 \<Rightarrow> nat" where
  "target_index = (\<lambda>(trigger, index). if trigger = kBootTrigger then 0 else if trigger = kKeyTrigger then unat index
     else 6 + unat trigger)"

lemma mapping_target_bit_Some:
  assumes "mapping_target_bit m = Some b"
  shows "valid_trigger m \<and> target_index (mr_trigger m, mr_index m) < 16 \<and> b = push_bit (target_index (mr_trigger m, mr_index m)) 1"
proof -
  have small: "unat i < 16" "i \<in> {1..8}" if "\<not> i < 1" "\<not> 8 < i" for i :: u8
    using that by (auto simp: word_le_nat_alt word_less_nat_alt not_less)
  consider "mr_trigger m = kBootTrigger" | "mr_trigger m = kKeyTrigger"
    | "mr_trigger m \<in> {kEncoderLeftTrigger, kEncoderRightTrigger, kEncoderPressTrigger}"
    using assms by (auto simp: mapping_target_bit_def Let_def split: if_splits)
  then show ?thesis
  proof cases
    case 2
    then have "\<not> mr_index m < 1" "\<not> 8 < mr_index m" "b = push_bit (unat (mr_index m)) 1"
      using assms by (auto simp: mapping_target_bit_def Let_def kBootTrigger_def kKeyTrigger_def split: if_splits)
    then show ?thesis using small 2 by (simp add: valid_trigger_def target_index_def kBootTrigger_def kKeyTrigger_def)
  qed (use assms in \<open>auto simp: mapping_target_bit_def Let_def valid_trigger_def target_index_def kBootTrigger_def kKeyTrigger_def
        kEncoderLeftTrigger_def kEncoderRightTrigger_def kEncoderPressTrigger_def split: if_splits\<close>)
qed

lemma bit_or_push_1: "n < LENGTH('a) \<Longrightarrow> bit ((w :: 'a::len word) OR 2 ^ n) j \<longleftrightarrow> bit w j \<or> j = n"
  by (auto simp: bit_or_iff bit_exp_iff possible_bit_def)

lemma bit_complete_mask: "n \<le> 64 \<Longrightarrow> j < 64 \<Longrightarrow> bit (complete_resource_mask n) j \<longleftrightarrow> j < n"
proof -
  assume "n \<le> 64" "j < 64"
  have "complete_resource_mask n = mask n"
    using \<open>n \<le> 64\<close> by (simp add: complete_resource_mask_def mask_eq_exp_minus_1 push_bit_eq_mult)
  then show ?thesis using \<open>j < 64\<close> by (simp add: bit_mask_iff)
qed

lemma validate_mapping_Inr:
  assumes run: "run_state (validate_mapping bank rc i (seen, referenced)) s = (Inr (seen', referenced'), s')"
  defines "m \<equiv> mapping_at (sf_bank s bank) rc i"
  shows "same_flash s s' \<and> valid_trigger m \<and> mr_resource_index m < rc \<and>
    rr_decoded_samples (resource_at (sf_bank s bank) (mr_resource_index m)) \<le>
      (if mr_trigger m = kBootTrigger then kMaximumBootSamples else kMaximumActionSamples) \<and>
    \<not> bit seen (target_index (mr_trigger m, mr_index m)) \<and> target_index (mr_trigger m, mr_index m) < 16 \<and>
    seen' = seen OR push_bit (target_index (mr_trigger m, mr_index m)) 1 \<and> referenced' = referenced OR push_bit (mr_resource_index m) 1"
proof -
  obtain m' b r s1 where rd: "run_state (read_mapping_record bank rc i) s = (Inr m', s1)" and b: "mapping_target_bit m' = Some b"
    and ok: "seen AND b = 0" "mr_resource_index m' < rc"
    and rr: "run_state (read_resource_record bank (mr_resource_index m')) s1 = (Inr r, s')"
    and lim: "rr_decoded_samples r \<le> (if mr_trigger m' = kBootTrigger then kMaximumBootSamples else kMaximumActionSamples)"
    and out: "seen' = seen OR b" "referenced' = referenced OR push_bit (mr_resource_index m') 1"
    using run by (auto simp: validate_mapping_def ok_runs Let_def not_less not_le)
  have m: "m' = m" "same_flash s s1" using read_mapping_Inr [OF rd] by (simp_all add: m_def)
  note t = mapping_target_bit_Some [OF b]
  have "same_flash s s' \<and> r = resource_at (sf_bank s bank) (mr_resource_index m)"
    using read_resource_Inr [OF rr] same_flash_bank [OF m(2)] reading.trans [OF m(2)] m(1) by simp
  moreover have "\<not> bit seen (target_index (mr_trigger m, mr_index m))"
    using ok(1) t m(1) bit_iff_and_push_bit_not_eq_0 by blast
  ultimately show ?thesis using ok(2) lim out t m(1) by simp
qed

lemma mappings_Inr:
  assumes run: "run_state (for_each (validate_mapping bank rc) [0..<n] (0, 0)) s = (Inr (seen, referenced), s')" and rc: "rc \<le> 64"
  defines "rs \<equiv> map (resource_at (sf_bank s bank)) [0..<rc]" and "ms \<equiv> map (mapping_at (sf_bank s bank) rc) [0..<n]"
  shows "same_flash s s' \<and> mappings_ok rs ms \<and> (\<forall>j. bit referenced j \<longleftrightarrow> j \<in> mr_resource_index ` set ms)"
proof -
  define M where "M = (\<lambda>k. map (mapping_at (sf_bank s bank) rc) [0..<k])"
  define key :: "MappingRecord \<Rightarrow> u8 \<times> u8" where "key = (\<lambda>m. (mr_trigger m, mr_index m))"
  define P where "P = (\<lambda>k (seen :: u16, referenced :: u64) t. same_flash s t \<and> mappings_ok rs (M k) \<and>
    (\<forall>j. bit seen j \<longleftrightarrow> j \<in> target_index ` key ` set (M k)) \<and> (\<forall>j. bit referenced j \<longleftrightarrow> j \<in> mr_resource_index ` set (M k)))"
  have "P n (seen, referenced) s'"
  proof (rule for_each_Inr [OF run])
    show "P 0 (0, 0) s" by (simp add: P_def M_def mappings_ok_def)
    fix i acc t acc' t'
    assume P: "P i acc t" and body: "run_state (validate_mapping bank rc i acc) t = (Inr acc', t')"
    obtain a b a' b' where acc: "acc = (a, b)" "acc' = (a', b')" by fastforce
    let ?m = "mapping_at (sf_bank s bank) rc i"
    have st: "same_flash s t" using P by (simp add: P_def acc)
    note v = validate_mapping_Inr [OF body [unfolded acc], unfolded same_flash_bank [OF st]]
    have M: "M (Suc i) = M i @ [?m]" by (simp add: M_def)
    have fresh: "key ?m \<notin> key ` set (M i)" using P v unfolding P_def acc prod.case key_def by blast
    have "mr_resource_index ?m < length rs \<and> rs ! mr_resource_index ?m = resource_at (sf_bank s bank) (mr_resource_index ?m)"
      using v by (simp add: rs_def)
    then have "mappings_ok rs (M (Suc i))"
      using P v fresh unfolding P_def acc prod.case mappings_ok_def M key_def by auto
    moreover have "bit a' j \<longleftrightarrow> j \<in> target_index ` key ` set (M (Suc i))" for j
      using P v unfolding P_def acc prod.case M key_def by (auto simp: bit_or_push_1)
    moreover have "bit b' j \<longleftrightarrow> j \<in> mr_resource_index ` set (M (Suc i))" for j
      using P v rc unfolding P_def acc prod.case M by (auto simp: bit_or_push_1)
    ultimately show "P (Suc i) acc' t'" using v reading.trans [OF st] by (simp add: P_def acc)
  qed
  then show ?thesis by (simp add: P_def M_def ms_def)
qed


section \<open>The bundle\<close>

lemma manifest_shape_iff:
  assumes "manifest_shape_is_valid rc mc mb"
  shows "rc \<le> kMaximumResourceCount \<and> mc \<le> kMaximumMappingCount \<and>
    mb = kManifestHeaderBytes + rc * kResourceRecordBytes + mc * kMappingRecordBytes"
  using assms by (auto simp: manifest_shape_is_valid_def bind_eq_Some_conv dest!: checked_add_Some checked_multiply_Some)

lemma accepted_manifest_facts:
  assumes "run_state (validate_sound_manifest bank manifest_bytes payload_bytes) s = (Inr sm, s')"
    and "length (sf_bank s bank) = kSoundBankSize"
  shows "same_flash s s' \<and> ms_manifest_bytes sm = manifest_bytes \<and> ms_payload_bytes sm = payload_bytes \<and>
    bundle_ok (sf_bank s bank) sm"
proof -
  let ?c = "sf_bank s bank"
  obtain h s1 expected s2 seen referenced where
    size: "manifest_bytes \<le> kSoundSectorSize" "payload_bytes \<le> kSoundPayloadMaxSize"
    and rd: "run_state (fmt_read bank kSoundManifestOffset kManifestHeaderBytes) s = (Inr h, s1)"
    and hd: "bytes_equal h kManifestMagic" "read_le16 h 4 = kManifestVersion" "unat (read_le16 h 6) = kManifestHeaderBytes"
      "unat (read_le32 h 8) = manifest_bytes" "unat (read_le32 h 12) = payload_bytes" "bytes_are_zero (region h 20 12)"
      "manifest_shape_is_valid (unat (read_le16 h 16)) (unat (read_le16 h 18)) manifest_bytes"
    and rs: "run_state (for_each (validate_resource bank payload_bytes) [0..<unat (read_le16 h 16)] 0) s1 = (Inr expected, s2)"
      "expected = payload_bytes"
    and ms: "run_state (for_each (validate_mapping bank (unat (read_le16 h 16))) [0..<unat (read_le16 h 18)] (0, 0)) s2 =
        (Inr (seen, referenced), s')"
      "referenced = complete_resource_mask (unat (read_le16 h 16))"
    and sm: "sm = \<lparr>ms_manifest_bytes = manifest_bytes, ms_payload_bytes = payload_bytes,
        ms_resource_count = unat (read_le16 h 16), ms_mapping_count = unat (read_le16 h 18)\<rparr>"
    using assms(1) by (auto simp: validate_sound_manifest_def ok_runs Let_def not_less)
  let ?rc = "unat (read_le16 h 16)" and ?mc = "unat (read_le16 h 18)"
  let ?rs = "map (resource_at ?c) [0..<?rc]" and ?ms = "map (mapping_at ?c ?rc) [0..<?mc]"
  have h: "same_flash s s1" "h = region ?c kSoundManifestOffset kManifestHeaderBytes" using fmt_read_Inr [OF rd] by simp_all
  have lh: "length h = 32" unfolding h(2) using assms(2) by (subst length_region) (simp_all add: bank_layout format_sizes)
  note shape = manifest_shape_iff [OF hd(7)]
  have r: "same_flash s s2" "resources_ok ?c ?rs" "sum_list (map rr_encoded_bytes ?rs) = payload_bytes"
    using resources_Inr [OF rs(1) _ size(2)] same_flash_bank [OF h(1)] assms(2) rs(2) reading.trans [OF h(1)] by simp_all
  have rc: "?rc \<le> 64" using shape by (simp add: format_sizes)
  have m: "same_flash s s'" "mappings_ok ?rs ?ms" "bit referenced j \<longleftrightarrow> j \<in> mr_resource_index ` set ?ms" for j
    using mappings_Inr [OF ms(1) rc] same_flash_bank [OF r(1)] reading.trans [OF r(1)] by simp_all
  have "mr_resource_index ` set ?ms = {..<?rc}"
  proof (intro equalityI subsetI)
    show "j \<in> {..<?rc}" if "j \<in> mr_resource_index ` set ?ms" for j
      using that m(2) unfolding mappings_ok_def by auto
    show "j \<in> mr_resource_index ` set ?ms" if "j \<in> {..<?rc}" for j
      using that m(3) [of j] bit_complete_mask [OF rc, of j] rc ms(2) by simp
  qed
  moreover have "manifest_header h sm"
  proof -
    have "length kManifestMagic = 4" by (simp add: kManifestMagic_def)
    then have "take 4 h = kManifestMagic" using hd(1) bytes_equal_iff [of kManifestMagic h] lh by simp
    moreover have "region h 20 12 = replicate 12 0"
      using hd(6) length_region [of 20 12 h] lh by (simp add: bytes_are_zero_iff)
    ultimately show ?thesis using hd by (simp add: manifest_header_def sm)
  qed
  ultimately have "bundle_ok ?c sm"
    unfolding bundle_ok_def Let_def using shape size r(2,3) m(2) h(2) by (simp add: sm)
  then show ?thesis using m(1) by (simp add: sm)
qed


text \<open>
  A manifest that the check accepts describes a well-formed bundle.  The resources tile the
  payload in order without a gap and fill it exactly; no two have the same digest, and each is the
  SHA-256 of its bytes, which are a header and exactly the frames of its samples.  No two mappings
  have the same trigger, every trigger exists, every resource is reached, and sounds are within
  the limit of their trigger.  The check changes nothing in flash.
\<close>
lemma accepted_manifest_well_formed:
  assumes "run_state (validate_sound_manifest bank manifest_bytes payload_bytes) s = (Inr sm, s')"
    and "length (sf_bank s bank) = kSoundBankSize"
  shows "same_flash s s' \<and> ms_manifest_bytes sm = manifest_bytes \<and> ms_payload_bytes sm = payload_bytes \<and>
    bundle_ok (sf_bank s bank) sm"
  using assms by (rule accepted_manifest_facts)

text \<open>A flash whose banks hold the bundle without sounds.\<close>

definition silent_manifest :: bytes where
  "silent_manifest = kManifestMagic @ [1, 0, 32, 0, 32] @ replicate 23 0"

definition silent_flash :: sound_flash where
  "silent_flash = \<lparr>sf_open = True,
     sf_bank = (\<lambda>_. replicate kSoundManifestOffset 0xFF @ silent_manifest @ replicate (kSoundBankSize - kSoundManifestOffset - 32) 0xFF),
     sf_faults = []\<rparr>"

lemma length_silent: "length (sf_bank silent_flash bank) = kSoundBankSize"
  by (simp add: silent_flash_def silent_manifest_def kManifestMagic_def bank_layout)

lemma silent_header: "region (sf_bank silent_flash bank) kSoundManifestOffset kManifestHeaderBytes = silent_manifest"
  by (simp add: region_def silent_flash_def silent_manifest_def kManifestMagic_def bank_layout format_sizes)

lemma read_silent: "run_state (fmt_read bank kSoundManifestOffset kManifestHeaderBytes) silent_flash = (Inr silent_manifest, silent_flash)"
proof -
  have "run_state next_fault silent_flash = (Works, silent_flash)" "sf_open silent_flash" by (simp_all add: next_fault_def silent_flash_def)
  moreover have "range_is_valid kSoundManifestOffset kManifestHeaderBytes" by (simp add: range_is_valid_def bank_layout format_sizes)
  ultimately show ?thesis
    by (simp add: fmt_read_def bank_read_def partition_for_def partition_read_def run_state_proceed map_error_def
        silent_header require_def format_sizes(1) silent_header [unfolded format_sizes(1)])
qed

lemma silent_accepted:
  "run_state (validate_sound_manifest bank 32 0) silent_flash =
     (Inr \<lparr>ms_manifest_bytes = 32, ms_payload_bytes = 0, ms_resource_count = 0, ms_mapping_count = 0\<rparr>, silent_flash)"
proof -
  have z: "read_le16 silent_manifest 16 = 0" "read_le16 silent_manifest 18 = 0"
    by (simp_all add: read_le16_def silent_manifest_def kManifestMagic_def nth_append)
  have n: "read_le16 silent_manifest 4 = 1" "read_le16 silent_manifest 6 = 32" "read_le32 silent_manifest 8 = 32" "read_le32 silent_manifest 12 = 0"
    by (simp_all add: read_le16_def read_le32_def silent_manifest_def kManifestMagic_def nth_append)
  have e: "bytes_equal silent_manifest kManifestMagic" "bytes_are_zero (region silent_manifest 20 12)"
    by (simp_all add: bytes_equal_iff bytes_are_zero_iff silent_manifest_def kManifestMagic_def region_def)
  show ?thesis
    unfolding validate_sound_manifest_def
    by (simp add: require_def run_state_proceed read_silent [unfolded bank_layout format_sizes] Let_def z n e kManifestVersion_def manifest_shape_is_valid_def
        checked_multiply_def checked_add_def complete_resource_mask_def bank_layout format_sizes)
qed

lemma accepted_manifest_well_formed_witness:
  "same_flash silent_flash silent_flash \<and>
   bundle_ok (sf_bank silent_flash BankA) \<lparr>ms_manifest_bytes = 32, ms_payload_bytes = 0, ms_resource_count = 0, ms_mapping_count = 0\<rparr>"
  using accepted_manifest_well_formed [OF silent_accepted length_silent] by blast

end
