(* ===== verification/Sound_Store_Facts.thy ===== *)
theory Sound_Store_Facts
  imports Sound_Store Sound_Format_Facts
begin

text \<open>
  What the records of the store and their validation establish: the loops in pieces compute the
  digest of the whole region, a staging header decodes to the plan it was encoded from, and a
  bank that the strict validation accepts is genuine, byte for byte, so that its snapshot is a
  function of its contents.
\<close>

section \<open>Work in pieces\<close>

context io_effect
begin

lemma over_chunks:
  assumes "\<And>consumed amount acc. state_io_rel R (body consumed amount acc)"
  shows "state_io_rel R (over_chunks len body consumed acc)"
  using assms
proof (induction len body consumed acc rule: over_chunks.induct)
  case (1 len body consumed acc)
  then show ?case by (subst over_chunks.simps) (simp add: Let_def proceed give)
qed

end

lemma over_chunks_from:
  assumes "run_state (over_chunks len body consumed acc) s = (Inr acc', s')" "P consumed acc s" "consumed \<le> len"
    "\<And>consumed amount acc s acc' s'. P consumed acc s \<Longrightarrow> consumed + amount \<le> len \<Longrightarrow>
      run_state (body consumed amount acc) s = (Inr acc', s') \<Longrightarrow> P (consumed + amount) acc' s'"
  shows "P len acc' s'"
  using assms
proof (induction len body consumed acc arbitrary: s rule: over_chunks.induct)
  case (1 len body consumed acc)
  show ?case
  proof (cases "consumed < len")
    case False
    then have "over_chunks len body consumed acc = give acc" by (simp add: over_chunks.simps)
    then show ?thesis using "1.prems"(1,2,3) False by (simp add: ok_runs)
  next
    case True
    let ?amount = "min kIoBufferBytes (len - consumed)"
    have "over_chunks len body consumed acc = proceed (body consumed ?amount acc) (over_chunks len body (consumed + ?amount))"
      using True by (subst over_chunks.simps) (simp add: Let_def)
    then obtain a t where a: "run_state (body consumed ?amount acc) s = (Inr a, t)"
        "run_state (over_chunks len body (consumed + ?amount) a) t = (Inr acc', s')"
      using "1.prems"(1) by (auto simp: ok_runs)
    have "?amount \<le> len - consumed" by simp
    then have le: "consumed + ?amount \<le> len" using True by linarith
    have "P (consumed + ?amount) a t" using "1.prems"(4) [OF "1.prems"(2) le a(1)] .
    show ?thesis by (rule "1.IH" [OF True refl a(2) \<open>P _ a t\<close> le]) (fact "1.prems"(4))
  qed
qed

lemma over_chunks_Inr:
  assumes "run_state (over_chunks len body 0 acc) s = (Inr acc', s')" "P 0 acc s"
    "\<And>consumed amount acc s acc' s'. P consumed acc s \<Longrightarrow> consumed + amount \<le> len \<Longrightarrow>
      run_state (body consumed amount acc) s = (Inr acc', s') \<Longrightarrow> P (consumed + amount) acc' s'"
  shows "P len acc' s'"
  using over_chunks_from [where P = P, OF assms(1,2) le0 assms(3)] .

lemma current_offset_Some: "current_offset offset consumed = Some c \<Longrightarrow> c = offset + consumed"
  by (auto simp: current_offset_def split: if_splits)

lemma region_extend: "consumed + amount = n \<Longrightarrow> region content a consumed @ region content (a + consumed) amount = region content a n"
  using region_append by blast

lemma sha_piece_Inr:
  assumes "run_state (sha_piece hash data e) s = (Inr hash', s')" "sha_holds hash message"
  shows "s' = s \<and> sha_holds hash' (message @ data)"
proof -
  obtain ok h' where u: "sha_update hash data = (ok, h')" by fastforce
  from assms(1) have "ok \<and> h' = hash' \<and> s' = s" by (auto simp: sha_piece_def ok_runs u split: if_splits)
  then show ?thesis using sha_update_holds [OF assms(2) u] by metis
qed

lemma sha_finish_Inr:
  assumes "run_state (checkpointed_sha256_finish bank offset hash) s = (Inr digest, s')" "sha_holds hash message"
  shows "same_flash s s' \<and> digest = sha256 message"
  using assms(1) sha_finish_holds [OF assms(2)]
  by (auto simp: checkpointed_sha256_finish_def ok_runs dest: checkpoint_Inr)

text \<open>A region found erased holds only ones.\<close>

lemma verify_erased_Inr:
  assumes "run_state (verify_region_erased bank offset len) s = (Inr u, s')"
  shows "same_flash s s' \<and> all_erased (region (sf_bank s bank) offset len)"
proof -
  define P where "P = (\<lambda>n (u :: unit) t. same_flash s t \<and> all_erased (region (sf_bank s bank) offset n))"
  have "P len u s'"
  proof (rule over_chunks_Inr [OF assms [unfolded verify_region_erased_def]])
    show "P 0 () s" by (simp add: P_def all_erased_def)
    fix n k acc t acc' t'
    assume P: "P n acc t" and body: "run_state (proceed (require_some (current_offset offset n) StInvalidArgument) (\<lambda>current.
       proceed (map_error map_io (bank_read bank current k)) (\<lambda>buffer. require (all_erased buffer) StInvalidBank))) t = (Inr acc', t')"
    then obtain c b where "current_offset offset n = Some c" "run_state (bank_read bank c k) t = (Inr b, t')" "all_erased b"
      by (auto simp: ok_runs)
    then have "same_flash t t' \<and> all_erased (region (sf_bank t bank) (offset + n) k)"
      using bank_read_Inr current_offset_Some by blast
    then show "P (n + k) acc' t'"
      using P reading.trans [of s t t'] same_flash_bank [of s t]
      by (simp add: P_def all_erased_def flip: region_append)
  qed
  then show ?thesis by (simp add: P_def)
qed

lemma region_sha256_Inr:
  assumes "run_state (region_sha256 bank offset len) s = (Inr digest, s')"
  shows "same_flash s s' \<and> digest = sha256 (region (sf_bank s bank) offset len)"
proof -
  define P where "P = (\<lambda>n hash t. same_flash s t \<and> sha_holds hash (region (sf_bank s bank) offset n))"
  obtain hash t where loop: "run_state (over_chunks len (\<lambda>consumed amount hash.
       proceed (require_some (current_offset offset consumed) ()) (\<lambda>current.
       proceed (map_error (\<lambda>_. ()) (bank_read bank current amount)) (\<lambda>buffer.
       proceed (map_error (\<lambda>_. ()) (checkpoint WorkSha256 bank current amount)) (\<lambda>_.
       sha_piece hash buffer ())))) 0 sha_reset) s = (Inr hash, t)"
    and fin: "run_state (checkpointed_sha256_finish bank offset hash) t = (Inr digest, s')"
    using assms by (auto simp: region_sha256_def ok_runs)
  have "P len hash t"
  proof (rule over_chunks_Inr [OF loop])
    show "P 0 sha_reset s" by (simp add: P_def sha_holds_reset)
    fix n k acc t acc' t'
    assume P: "P n acc t" and body: "run_state (proceed (require_some (current_offset offset n) ()) (\<lambda>current.
       proceed (map_error (\<lambda>_. ()) (bank_read bank current k)) (\<lambda>buffer.
       proceed (map_error (\<lambda>_. ()) (checkpoint WorkSha256 bank current k)) (\<lambda>_.
       sha_piece acc buffer ())))) t = (Inr acc', t')"
    then obtain c b t1 t2 where c: "current_offset offset n = Some c" "run_state (bank_read bank c k) t = (Inr b, t1)"
      and ch: "run_state (checkpoint WorkSha256 bank c k) t1 = (Inr (), t2)" and pi: "run_state (sha_piece acc b ()) t2 = (Inr acc', t')"
      by (auto simp: ok_runs)
    have st: "same_flash s t" "sha_holds acc (region (sf_bank s bank) offset n)" using P by (simp_all add: P_def)
    have b: "same_flash t t1" "b = region (sf_bank s bank) (offset + n) k"
      using bank_read_Inr [OF c(2)] current_offset_Some [OF c(1)] same_flash_bank [OF st(1)] by simp_all
    show "P (n + k) acc' t'"
      using sha_piece_Inr [OF pi st(2)] b checkpoint_Inr [OF ch] st(1) reading.trans region_append unfolding P_def by metis
  qed
  then show ?thesis using sha_finish_Inr [OF fin] reading.trans unfolding P_def by blast
qed

lemma crc32_update_append: "crc32_update st (xs @ ys) = crc32_update (crc32_update st xs) ys"
  by (simp add: crc32_update_def)

lemma crc32_whole: "crc32_update 0xFFFFFFFF data XOR 0xFFFFFFFF = sound_crc32_iso_hdlc data"
  by (simp add: crc32_update_def sound_crc32_iso_hdlc_def)

lemma region_crc32_Inr:
  assumes "run_state (region_crc32 bank offset len) s = (Inr crc, s')"
  shows "same_flash s s' \<and> crc = sound_crc32_iso_hdlc (region (sf_bank s bank) offset len)"
proof -
  define P where "P = (\<lambda>n st t. same_flash s t \<and> st = crc32_update 0xFFFFFFFF (region (sf_bank s bank) offset n))"
  obtain st where loop: "run_state (over_chunks len (\<lambda>consumed amount st.
       proceed (require_some (current_offset offset consumed) ()) (\<lambda>current.
       proceed (map_error (\<lambda>_. ()) (bank_read bank current amount)) (\<lambda>buffer.
       proceed (map_error (\<lambda>_. ()) (checkpoint WorkCrc32 bank current amount)) (\<lambda>_.
       give (crc32_update st buffer))))) 0 0xFFFFFFFF) s = (Inr st, s')" and crc: "crc = st XOR 0xFFFFFFFF"
    using assms by (auto simp: region_crc32_def ok_runs)
  have "P len st s'"
  proof (rule over_chunks_Inr [OF loop])
    show "P 0 0xFFFFFFFF s" by (simp add: P_def crc32_update_def)
    fix n k acc t acc' t'
    assume P: "P n acc t" and body: "run_state (proceed (require_some (current_offset offset n) ()) (\<lambda>current.
       proceed (map_error (\<lambda>_. ()) (bank_read bank current k)) (\<lambda>buffer.
       proceed (map_error (\<lambda>_. ()) (checkpoint WorkCrc32 bank current k)) (\<lambda>_.
       give (crc32_update acc buffer))))) t = (Inr acc', t')"
    then obtain c b t1 where c: "current_offset offset n = Some c" "run_state (bank_read bank c k) t = (Inr b, t1)"
      and ch: "run_state (checkpoint WorkCrc32 bank c k) t1 = (Inr (), t')" and acc': "acc' = crc32_update acc b"
      by (auto simp: ok_runs)
    have st: "same_flash s t" "acc = crc32_update 0xFFFFFFFF (region (sf_bank s bank) offset n)" using P by (simp_all add: P_def)
    have b: "same_flash t t1" "b = region (sf_bank s bank) (offset + n) k"
      using bank_read_Inr [OF c(2)] current_offset_Some [OF c(1)] same_flash_bank [OF st(1)] by simp_all
    show "P (n + k) acc' t'"
      using acc' b checkpoint_Inr [OF ch] st reading.trans region_append crc32_update_append unfolding P_def by metis
  qed
  then show ?thesis by (simp add: P_def crc crc32_whole)
qed

lemma memory_crc32_Inr:
  assumes "run_state (checkpointed_memory_crc32 bank offset data) s = (Inr crc, s')"
  shows "same_flash s s' \<and> crc = sound_crc32_iso_hdlc data"
proof -
  define P where "P = (\<lambda>n st t. same_flash s t \<and> st = crc32_update 0xFFFFFFFF (region data 0 n))"
  obtain st where loop: "run_state (over_chunks (length data) (\<lambda>consumed amount st.
       proceed (require_some (current_offset offset consumed) StInvalidArgument) (\<lambda>current.
       proceed (map_error map_io (checkpoint WorkCrc32 bank current amount)) (\<lambda>_.
       give (crc32_update st (region data consumed amount))))) 0 0xFFFFFFFF) s = (Inr st, s')" and crc: "crc = st XOR 0xFFFFFFFF"
    using assms by (auto simp: checkpointed_memory_crc32_def ok_runs)
  have "P (length data) st s'"
  proof (rule over_chunks_Inr [OF loop])
    show "P 0 0xFFFFFFFF s" by (simp add: P_def crc32_update_def)
    fix n k acc t acc' t'
    assume P: "P n acc t" and body: "run_state (proceed (require_some (current_offset offset n) StInvalidArgument) (\<lambda>current.
       proceed (map_error map_io (checkpoint WorkCrc32 bank current k)) (\<lambda>_.
       give (crc32_update acc (region data n k))))) t = (Inr acc', t')"
    then obtain c where ch: "run_state (checkpoint WorkCrc32 bank c k) t = (Inr (), t')"
      and acc': "acc' = crc32_update acc (region data n k)"
      by (auto simp: ok_runs)
    have "region data 0 (n + k) = region data 0 n @ region data n k" using region_append [of data 0 n k] by simp
    then show "P (n + k) acc' t'"
      using P acc' checkpoint_Inr [OF ch] reading.trans crc32_update_append unfolding P_def by metis
  qed
  then have "same_flash s s' \<and> st = crc32_update 0xFFFFFFFF data" by (simp add: P_def region_def)
  then show ?thesis by (simp add: crc crc32_whole)
qed


section \<open>Numbers in byte strings\<close>

definition le_bytes :: "nat \<Rightarrow> 'a::len word \<Rightarrow> bytes" where
  "le_bytes n v = map (\<lambda>i. ucast (drop_bit (i * 8) v)) [0..<n]"

lemma length_le_bytes [simp]: "length (le_bytes n v) = n"
  by (simp add: le_bytes_def)

lemma le_readers: "read_le16 bs i = get_le 2 bs i" "read_le32 bs i = get_le 4 bs i" "read_le64 bs i = get_le 8 bs i"
  by (simp_all add: read_le16_def read_le32_def read_le64_def get_le_def numeral_2_eq_2 numeral_3_eq_3 upt_rec or.assoc)

lemma le_writers: "write_le16 v16 = le_bytes 2 v16" "write_le32 v32 = le_bytes 4 v32" "write_le64 v64 = le_bytes 8 v64"
  by (simp_all add: write_le16_def write_le32_def write_le64_def le_bytes_def upt_rec)

lemma get_le_bytes:
  assumes "LENGTH('a::len) = n * 8" "region bs i n = le_bytes n (v :: 'a word)" "i + n \<le> length bs"
  shows "get_le n bs i = v"
proof (rule bit_word_eqI)
  fix m assume m: "m < LENGTH('a)"
  then have d: "m div 8 < n" using assms(1) by (simp add: less_mult_imp_div_less)
  then have "bs ! (i + m div 8) = region bs i n ! (m div 8)" using assms(3) by (simp add: nth_region)
  also have "\<dots> = ucast (drop_bit (m div 8 * 8) v)" using d by (simp add: assms(2) le_bytes_def)
  finally show "bit (get_le n bs i :: 'a word) m = bit v m"
    using m assms(1) by (simp add: bit_get_le bit_ucast_iff bit_drop_bit_eq)
qed

lemma le_bytes_get:
  assumes "LENGTH('a::len) = n * 8" "i + n \<le> length bs"
  shows "le_bytes n (get_le n bs i :: 'a word) = region bs i n"
proof (rule nth_equalityI)
  show "length (le_bytes n (get_le n bs i :: 'a word)) = length (region bs i n)" using assms(2) by (simp add: length_region)
  show "le_bytes n (get_le n bs i :: 'a word) ! k = region bs i n ! k" if "k < length (le_bytes n (get_le n bs i :: 'a word))" for k
    using that byte_get_le [of n k bs i] assms by (simp add: le_bytes_def nth_region)
qed


lemma bank_byte_inj [simp]: "bank_byte b = bank_byte b' \<longleftrightarrow> b = b'"
  by (cases b; cases b') (simp_all add: bank_byte_def)

section \<open>Genuine banks\<close>

text \<open>The commit record: the body with its checksum, and the marker derived from it.\<close>

definition commit_body_ok :: "SoundBankId \<Rightarrow> bytes \<Rightarrow> bool" where
  "commit_body_ok bank body \<longleftrightarrow> read_le16 body 0 = kStorageVersion \<and> read_le16 body 2 = of_nat kCommitBodyBytes \<and>
     body ! 4 = bank_byte bank \<and> all_zero (region body 5 3) \<and> all_zero (region body 116 12) \<and>
     read_le32 body kCommitBodyCrcOffset = sound_crc32_iso_hdlc (take kCommitBodyCrcOffset body)"

definition snapshot_ok :: "SoundBankSnapshot \<Rightarrow> bool" where
  "snapshot_ok sn \<longleftrightarrow> sb_valid sn \<and> sb_generation sn \<noteq> 0 \<and> sb_base_generation sn = sb_generation sn - 1 \<and>
     transaction_id_valid (sb_transaction_id sn) \<and> 32 \<le> sb_manifest_bytes sn \<and> sb_manifest_bytes sn \<le> kSoundSectorSize \<and>
     sb_payload_bytes sn \<le> kSoundPayloadMaxSize \<and> \<not> all_zero (sb_manifest_sha256 sn) \<and> \<not> all_zero (sb_bundle_sha256 sn)"

definition committed_as :: "bytes \<Rightarrow> SoundBankId \<Rightarrow> SoundBankSnapshot \<Rightarrow> bool" where
  "committed_as content bank sn \<longleftrightarrow>
     (let body = region content kSoundCommitOffset kCommitBodyBytes;
          marker = region content (kSoundCommitOffset + kCommitMarkerOffset) kCommitMarkerBytes
      in commit_body_ok bank body \<and> marker = encode_commit_marker (read_le32 body kCommitBodyCrcOffset) \<and>
         sn = decoded_commit bank body \<and> snapshot_ok sn)"

lemma marker_eq:
  assumes "length marker = 16"
    "list_all (\<lambda>index. marker ! index = kCommitMagic ! index \<and> marker ! (4 + index) = NOT (kCommitMagic ! index)) [0..<4]"
    "read_le32 marker 8 = crc" "read_le32 marker 12 = NOT crc"
  shows "marker = encode_commit_marker crc"
proof -
  have "region marker 8 4 = write_le32 crc" "region marker 12 4 = write_le32 (NOT crc)"
    using le_bytes_get [where 'a = 32 and n = 4 and bs = marker and i = 8]
      le_bytes_get [where 'a = 32 and n = 4 and bs = marker and i = 12] assms(1,3,4) by (simp_all add: le_readers le_writers)
  moreover have "length kCommitMagic = 4" by (simp add: kCommitMagic_def)
  then have "region marker 0 4 = kCommitMagic" "region marker 4 4 = map NOT kCommitMagic"
    using assms(1,2) by (auto simp: list_eq_iff_nth_eq length_region nth_region list_all_iff)
  moreover have "marker = region marker 0 4 @ region marker 4 4 @ region marker 8 4 @ region marker 12 4"
    using region_append [of marker 8 4 4] region_append [of marker 4 4 8] region_append [of marker 0 4 12] assms(1) by (simp add: region_def)
  ultimately show ?thesis by (simp add: encode_commit_marker_def)
qed

lemma decode_commit_Inr:
  assumes run: "run_state (decode_commit bank) s = (Inr sn, s')" and len: "length (sf_bank s bank) = kSoundBankSize"
  shows "same_flash s s' \<and> committed_as (sf_bank s bank) bank sn"
proof -
  let ?c = "sf_bank s bank"
  obtain body marker s1 s2 crc where
    b: "run_state (bank_read bank kSoundCommitOffset kCommitBodyBytes) s = (Inr body, s1)"
    and m: "run_state (bank_read bank (kSoundCommitOffset + kCommitMarkerOffset) kCommitMarkerBytes) s1 = (Inr marker, s2)"
    and hd: "read_le16 body 0 = kStorageVersion" "read_le16 body 2 = of_nat kCommitBodyBytes" "body ! 4 = bank_byte bank"
      "all_zero (region body 5 3)" "all_zero (region body 116 12)"
    and crc: "run_state (checkpointed_memory_crc32 bank kSoundCommitOffset (take kCommitBodyCrcOffset body)) s2 = (Inr crc, s')"
      "read_le32 body kCommitBodyCrcOffset = crc"
    and mk: "list_all (\<lambda>index. marker ! index = kCommitMagic ! index \<and> marker ! (4 + index) = NOT (kCommitMagic ! index)) [0..<4]"
      "read_le32 marker 8 = read_le32 body kCommitBodyCrcOffset" "read_le32 marker 12 = NOT (read_le32 body kCommitBodyCrcOffset)"
    and sn: "sn = decoded_commit bank body" "sb_generation sn \<noteq> 0" "sb_base_generation sn = sb_generation sn - 1"
      "transaction_id_valid (sb_transaction_id sn)" "32 \<le> sb_manifest_bytes sn"
      "sb_manifest_bytes sn \<le> kSoundSectorSize" "sb_payload_bytes sn \<le> kSoundPayloadMaxSize"
      "\<not> all_zero (sb_manifest_sha256 sn)" "\<not> all_zero (sb_bundle_sha256 sn)"
    using run by (auto simp: decode_commit_def ok_runs Let_def not_less)
  note b' = bank_read_Inr [OF b]
  have m': "same_flash s s2" "marker = region ?c (kSoundCommitOffset + kCommitMarkerOffset) kCommitMarkerBytes"
    using bank_read_Inr [OF m] b' same_flash_bank [of s s1] reading.trans by auto
  have c': "same_flash s s'" "commit_body_ok bank body"
    using memory_crc32_Inr [OF crc(1)] crc(2) hd reading.trans [OF m'(1)] by (simp_all add: commit_body_ok_def)
  have "length marker = 16" unfolding m'(2) using len by (subst length_region) (simp_all add: bank_layout store_sizes)
  then have "marker = encode_commit_marker (read_le32 body kCommitBodyCrcOffset)" by (rule marker_eq [OF _ mk])
  moreover have "sb_valid sn" by (simp add: sn(1) decoded_commit_def)
  then have "snapshot_ok sn" using sn by (simp add: snapshot_ok_def)
  ultimately show ?thesis using b' m' c' sn(1) by (simp add: committed_as_def Let_def)
qed

definition genuine_bank :: "bytes \<Rightarrow> SoundBankId \<Rightarrow> SoundBankSnapshot \<Rightarrow> bool" where
  "genuine_bank content bank sn \<longleftrightarrow> committed_as content bank sn \<and>
     (\<exists>sm. ms_manifest_bytes sm = sb_manifest_bytes sn \<and> ms_payload_bytes sm = sb_payload_bytes sn \<and> bundle_ok content sm) \<and>
     sb_manifest_sha256 sn = sha256 (region content kSoundManifestOffset (sb_manifest_bytes sn)) \<and>
     sb_bundle_sha256 sn = sha256 (bundle_message content (sb_manifest_bytes sn) (sb_payload_bytes sn)) \<and>
     all_erased (region content (kSoundManifestOffset + sb_manifest_bytes sn) (kSoundSectorSize - sb_manifest_bytes sn)) \<and>
     all_erased (region content (kSoundPayloadOffset + sb_payload_bytes sn) (kSoundPayloadMaxSize - sb_payload_bytes sn)) \<and>
     all_erased (region content kSoundReservedOffset (kSoundReservedEndOffset - kSoundReservedOffset)) \<and>
     all_erased (region content (kSoundCommitOffset + kCommitMarkerOffset + kCommitMarkerBytes)
       (kSoundSectorSize - kCommitMarkerOffset - kCommitMarkerBytes))"

lemma committed_as_unique: "committed_as content bank sn \<Longrightarrow> committed_as content bank sn' \<Longrightarrow> sn = sn'"
  by (simp add: committed_as_def Let_def)

lemma genuine_unique: "genuine_bank content bank sn \<Longrightarrow> genuine_bank content bank sn' \<Longrightarrow> sn = sn'"
  unfolding genuine_bank_def using committed_as_unique by blast

lemma committed_content_Inr:
  assumes run: "run_state (validate_sound_bank_committed_content bank) s = (Inr sn, s')" and len: "length (sf_bank s bank) = kSoundBankSize"
  shows "same_flash s s' \<and> committed_as (sf_bank s bank) bank sn \<and>
    (\<exists>sm. ms_manifest_bytes sm = sb_manifest_bytes sn \<and> ms_payload_bytes sm = sb_payload_bytes sn \<and> bundle_ok (sf_bank s bank) sm) \<and>
    sb_manifest_sha256 sn = sha256 (region (sf_bank s bank) kSoundManifestOffset (sb_manifest_bytes sn)) \<and>
    sb_bundle_sha256 sn = sha256 (bundle_message (sf_bank s bank) (sb_manifest_bytes sn) (sb_payload_bytes sn))"
proof -
  obtain s1 sm s2 md bd where dc: "run_state (decode_commit bank) s = (Inr sn, s1)"
    and vm: "run_state (validate_sound_manifest bank (sb_manifest_bytes sn) (sb_payload_bytes sn)) s1 = (Inr sm, s2)"
    and cd: "run_state (calculate_sound_bank_digests bank (sb_manifest_bytes sn) (sb_payload_bytes sn)) s2 = (Inr (md, bd), s')"
    and eq: "sound_digest_equal md (sb_manifest_sha256 sn)" "sound_digest_equal bd (sb_bundle_sha256 sn)"
    using run by (auto simp: validate_sound_bank_committed_content_def ok_runs)
  note d = decode_commit_Inr [OF dc len]
  have b1: "sf_bank s1 = sf_bank s" using d same_flash_bank by blast
  have v: "same_flash s1 s2" "ms_manifest_bytes sm = sb_manifest_bytes sn" "ms_payload_bytes sm = sb_payload_bytes sn"
    "bundle_ok (sf_bank s bank) sm"
    using accepted_manifest_facts [OF vm] b1 len by simp_all
  have b2: "sf_bank s2 = sf_bank s" using v(1) b1 same_flash_bank by force
  have g: "same_flash s2 s'" "md = sha256 (region (sf_bank s bank) kSoundManifestOffset (sb_manifest_bytes sn))"
    "bd = sha256 (bundle_message (sf_bank s bank) (sb_manifest_bytes sn) (sb_payload_bytes sn))"
    using bank_digests_Inr [OF cd] b2 by simp_all
  have "length (sb_manifest_sha256 sn) = 32 \<and> length (sb_bundle_sha256 sn) = 32"
    using d len by (auto simp: committed_as_def Let_def decoded_commit_def length_region bank_layout store_sizes)
  then show ?thesis using d v g eq sound_digest_equal_iff reading.trans by (metis length_sha256)
qed

lemma erased_failure_None: "erased_failure rs = None \<Longrightarrow> r \<in> set rs \<Longrightarrow> r = Inr ()"
  by (cases r) (auto simp: erased_failure_def Let_def List.map_filter_def filter_empty_conv split: option.splits list.splits sum.splits)

lemma validate_bank_parts:
  assumes run: "run_state (validate_sound_bank bank) s = (Inr sn, s')"
  obtains s1 s2 s3 s4 where "run_state (validate_sound_bank_committed_content bank) s = (Inr sn, s1)"
    "run_state (verify_region_erased bank (kSoundManifestOffset + sb_manifest_bytes sn) (kSoundSectorSize - sb_manifest_bytes sn)) s1 = (Inr (), s2)"
    "run_state (verify_region_erased bank (kSoundPayloadOffset + sb_payload_bytes sn) (kSoundPayloadMaxSize - sb_payload_bytes sn)) s2 = (Inr (), s3)"
    "run_state (verify_region_erased bank kSoundReservedOffset (kSoundReservedEndOffset - kSoundReservedOffset)) s3 = (Inr (), s4)"
    "run_state (verify_region_erased bank (kSoundCommitOffset + kCommitMarkerOffset + kCommitMarkerBytes)
       (kSoundSectorSize - kCommitMarkerOffset - kCommitMarkerBytes)) s4 = (Inr (), s')"
proof -
  obtain sn0 s1 where cc: "run_state (validate_sound_bank_committed_content bank) s = (Inr sn0, s1)"
    using run unfolding validate_sound_bank_def by (auto simp: proceed_Inr map_error_Inr)
  obtain r1 s2 r2 s3 r3 s4 r4 s5 where
    r: "run_state (verify_region_erased bank (kSoundManifestOffset + sb_manifest_bytes sn0) (kSoundSectorSize - sb_manifest_bytes sn0)) s1 = (r1, s2)"
      "run_state (verify_region_erased bank (kSoundPayloadOffset + sb_payload_bytes sn0) (kSoundPayloadMaxSize - sb_payload_bytes sn0)) s2 = (r2, s3)"
      "run_state (verify_region_erased bank kSoundReservedOffset (kSoundReservedEndOffset - kSoundReservedOffset)) s3 = (r3, s4)"
      "run_state (verify_region_erased bank (kSoundCommitOffset + kCommitMarkerOffset + kCommitMarkerBytes)
         (kSoundSectorSize - kCommitMarkerOffset - kCommitMarkerBytes)) s4 = (r4, s5)"
    by (meson surj_pair)
  have "run_state (case erased_failure [r1, r2, r3, r4] of Some e \<Rightarrow> refuse (e, sn0) | None \<Rightarrow> give sn0) s5 = (Inr sn, s')"
    using run unfolding validate_sound_bank_def run_state_proceed
    by (simp add: map_error_def cc r del: diff_diff_left)
  then have ok: "erased_failure [r1, r2, r3, r4] = None" "sn0 = sn" "s5 = s'" by (auto split: option.splits)
  have "r1 = Inr ()" "r2 = Inr ()" "r3 = Inr ()" "r4 = Inr ()" using erased_failure_None [OF ok(1)] by simp_all
  then show thesis using that [of s1 s2 s3 s4] cc r unfolding ok(2,3) by blast
qed

lemma validate_bank_Inr:
  assumes run: "run_state (validate_sound_bank bank) s = (Inr sn, s')" and len: "length (sf_bank s bank) = kSoundBankSize"
  shows "same_flash s s' \<and> genuine_bank (sf_bank s bank) bank sn"
proof -
  obtain s1 s2 s3 s4 where cc: "run_state (validate_sound_bank_committed_content bank) s = (Inr sn, s1)"
    and r: "run_state (verify_region_erased bank (kSoundManifestOffset + sb_manifest_bytes sn) (kSoundSectorSize - sb_manifest_bytes sn)) s1 = (Inr (), s2)"
      "run_state (verify_region_erased bank (kSoundPayloadOffset + sb_payload_bytes sn) (kSoundPayloadMaxSize - sb_payload_bytes sn)) s2 = (Inr (), s3)"
      "run_state (verify_region_erased bank kSoundReservedOffset (kSoundReservedEndOffset - kSoundReservedOffset)) s3 = (Inr (), s4)"
      "run_state (verify_region_erased bank (kSoundCommitOffset + kCommitMarkerOffset + kCommitMarkerBytes)
         (kSoundSectorSize - kCommitMarkerOffset - kCommitMarkerBytes)) s4 = (Inr (), s')"
    using validate_bank_parts [OF run] .
  note e = r [THEN verify_erased_Inr]
  note c = committed_content_Inr [OF cc len]
  have banks: "sf_bank s1 = sf_bank s" "sf_bank s2 = sf_bank s" "sf_bank s3 = sf_bank s" "sf_bank s4 = sf_bank s"
    using c e same_flash_bank by metis+
  have "same_flash s s'" using c e reading.trans by blast
  then show ?thesis using c e unfolding genuine_bank_def banks by blast
qed


section \<open>Effects of the validation\<close>

context io_effect
begin

lemmas more_rules = rules over_chunks

end

lemma sha_piece_reading: "state_io_rel same_flash (sha_piece hash data e)"
  unfolding sha_piece_def by (intro reading.rules)

lemma verify_erased_reading: "state_io_rel same_flash (verify_region_erased bank offset len)"
  unfolding verify_region_erased_def by (intro reading.more_rules bank_read_reading)

lemma sha_finish_reading: "state_io_rel same_flash (checkpointed_sha256_finish bank offset hash)"
  unfolding checkpointed_sha256_finish_def by (intro reading.more_rules checkpoint_reading)

lemma region_sha256_reading: "state_io_rel same_flash (region_sha256 bank offset len)"
  unfolding region_sha256_def
  by (intro reading.more_rules bank_read_reading checkpoint_reading sha_piece_reading sha_finish_reading)

lemma region_crc32_reading: "state_io_rel same_flash (region_crc32 bank offset len)"
  unfolding region_crc32_def by (intro reading.more_rules bank_read_reading checkpoint_reading)

lemma memory_crc32_reading: "state_io_rel same_flash (checkpointed_memory_crc32 bank offset data)"
  unfolding checkpointed_memory_crc32_def by (intro reading.more_rules checkpoint_reading)

lemma memory_sha256_reading: "state_io_rel same_flash (checkpointed_memory_sha256 bank offset data)"
  unfolding checkpointed_memory_sha256_def by (intro reading.more_rules checkpoint_reading sha_piece_reading sha_finish_reading)

lemma derive_reading: "state_io_rel same_flash (derive_transaction_id plan bank generation)"
  unfolding derive_transaction_id_def by (intro reading.more_rules checkpoint_reading sha_finish_reading)

lemma encode_staging_reading: "state_io_rel same_flash (encode_staging_header bank generation tid plan)"
  unfolding encode_staging_header_def by (intro reading.more_rules memory_crc32_reading)

lemma decode_staging_reading: "state_io_rel same_flash (decode_staging_header encoded bank)"
  unfolding decode_staging_header_def by (intro reading.more_rules memory_crc32_reading)

lemma encode_commit_reading: "state_io_rel same_flash (encode_commit_body bank generation tid plan)"
  unfolding encode_commit_body_def by (intro reading.more_rules memory_crc32_reading)

lemma decode_commit_reading: "state_io_rel same_flash (decode_commit bank)"
  unfolding decode_commit_def by (intro reading.more_rules bank_read_reading memory_crc32_reading)

lemma hash_bytes_reading: "state_io_rel same_flash (hash_bytes bank offset hash data)"
  unfolding hash_bytes_def by (intro reading.more_rules checkpoint_reading)

lemma hash_range_reading: "state_io_rel same_flash (hash_bank_range bank offset len consumed primary secondary)"
proof (induction bank offset len consumed primary secondary rule: hash_bank_range.induct)
  case (1 bank offset len consumed primary secondary)
  show ?case
    by (subst hash_bank_range.simps) (intro reading.more_rules fmt_read_reading hash_bytes_reading "1.IH"; simp)
qed

lemma finish_hash_reading: "state_io_rel same_flash (finish_hash bank offset hash)"
  unfolding finish_hash_def by (intro reading.more_rules checkpoint_reading)

lemma read_resource_reading: "state_io_rel same_flash (read_resource_record bank i)"
  unfolding read_resource_record_def by (intro reading.more_rules fmt_read_reading)

lemma read_mapping_reading: "state_io_rel same_flash (read_mapping_record bank rc i)"
  unfolding read_mapping_record_def by (intro reading.more_rules fmt_read_reading)

lemma resource_digest_reading: "state_io_rel same_flash (calculate_resource_digest bank r)"
  unfolding calculate_resource_digest_def by (intro reading.more_rules hash_range_reading finish_hash_reading)

lemma eiad_reading: "state_io_rel same_flash (validate_eiad_resource bank r)"
  unfolding validate_eiad_resource_def eiad_frame_def by (intro reading.more_rules fmt_read_reading)

lemma unique_sha_reading: "state_io_rel same_flash (validate_unique_resource_sha bank i digest)"
  unfolding validate_unique_resource_sha_def by (intro reading.more_rules read_resource_reading)

lemma manifest_reading: "state_io_rel same_flash (validate_sound_manifest bank mb pb)"
  unfolding validate_sound_manifest_def validate_resource_def validate_mapping_def
  by (intro reading.more_rules fmt_read_reading read_resource_reading read_mapping_reading unique_sha_reading eiad_reading
      resource_digest_reading)

lemma bank_digests_reading: "state_io_rel same_flash (calculate_sound_bank_digests bank mb pb)"
  unfolding calculate_sound_bank_digests_def by (intro reading.more_rules hash_bytes_reading hash_range_reading finish_hash_reading)

lemma committed_content_reading: "state_io_rel same_flash (validate_sound_bank_committed_content bank)"
  unfolding validate_sound_bank_committed_content_def
  by (intro reading.more_rules decode_commit_reading manifest_reading bank_digests_reading)

lemma validate_bank_reading: "state_io_rel same_flash (validate_sound_bank bank)"
  unfolding validate_sound_bank_def by (intro reading.more_rules committed_content_reading verify_erased_reading)

lemma read_candidate_reading: "state_io_rel same_flash (validate_sound_bank_read_candidate sn)"
  unfolding validate_sound_bank_read_candidate_def
  by (intro reading.more_rules bank_read_reading checkpoint_reading sha_piece_reading sha_finish_reading)

lemma inspect_bank_reading: "state_io_rel same_flash (inspect_bank bank)"
  unfolding inspect_bank_def by (intro reading.more_rules validate_bank_reading)

lemmas flash_readings = bank_read_reading checkpoint_reading verify_erased_reading region_sha256_reading region_crc32_reading
  memory_crc32_reading memory_sha256_reading derive_reading encode_staging_reading decode_staging_reading encode_commit_reading
  decode_commit_reading manifest_reading bank_digests_reading validate_bank_reading read_candidate_reading inspect_bank_reading

text \<open>
  C3: when the strict validation accepts a bank, the bank is genuine: a complete commit record with
  its checksum and marker, a well-formed bundle of exactly the recorded sizes, the recorded SHA-256
  of the manifest and of the bundle, and every byte outside these erased.  Validation changes
  nothing in flash, whatever it answers.
\<close>
theorem validated_bank_is_genuine:
  assumes "length (sf_bank s bank) = kSoundBankSize"
  shows "case run_state (validate_sound_bank bank) s of
      (Inr snapshot, s') \<Rightarrow> same_flash s s' \<and> genuine_bank (sf_bank s bank) bank snapshot
    | (Inl failure, s') \<Rightarrow> same_flash s s'"
proof (cases "run_state (validate_sound_bank bank) s")
  case (Pair r s')
  then have "same_flash s s'" using validate_bank_reading by (metis state_io_relD)
  then show ?thesis using Pair validate_bank_Inr [OF _ assms] by (cases r) auto
qed

theorem validated_bank_is_genuine_witness:
  "case run_state (validate_sound_bank BankB) silent_flash of
      (Inr snapshot, s') \<Rightarrow> same_flash silent_flash s' \<and> genuine_bank (sf_bank silent_flash BankB) BankB snapshot
    | (Inl failure, s') \<Rightarrow> same_flash silent_flash s'"
  using validated_bank_is_genuine [OF length_silent] .

end
