(* ===== verification/Sound_Update_Facts.thy ===== *)
theory Sound_Update_Facts
  imports Sound_Update Sound_Store_Facts
begin

text \<open>
  What the operations of the store promise under any faults of the flash: they never touch the
  bank that is active, nor, as long as no staging is repaired, a bank that is leased for
  reading.  The bank of an update that a query left open on a foreign commit is the exception;
  \<open>idle_inv\<close> is what the store still keeps then.
\<close>

section \<open>Before and after\<close>

text \<open>
  From a state with \<open>P\<close>, a successful run ends with \<open>Q\<close> of its result and a failing one with \<open>E\<close>.
\<close>

definition after :: "('s \<Rightarrow> bool) \<Rightarrow> ('s, 'e + 'a) state \<Rightarrow> ('a \<Rightarrow> 's \<Rightarrow> bool) \<Rightarrow> ('s \<Rightarrow> bool) \<Rightarrow> bool" where
  "after P m Q E \<longleftrightarrow> (\<forall>s. P s \<longrightarrow> (case run_state m s of (Inl e, s') \<Rightarrow> E s' | (Inr a, s') \<Rightarrow> Q a s'))"

lemma afterD:
  assumes "after P m Q E" "P s" "run_state m s = (r, s')"
  shows "case r of Inl e \<Rightarrow> E s' | Inr a \<Rightarrow> Q a s'"
  using assms unfolding after_def by (cases r) force+

lemma afterI: "(\<And>s s' r. P s \<Longrightarrow> run_state m s = (r, s') \<Longrightarrow> case r of Inl e \<Rightarrow> E s' | Inr a \<Rightarrow> Q a s') \<Longrightarrow> after P m Q E"
  unfolding after_def by (auto split: prod.splits sum.splits)

lemma after_weaken:
  assumes "after P m Q E" "\<And>s. P' s \<Longrightarrow> P s" "\<And>a s. Q a s \<Longrightarrow> Q' a s" "\<And>s. E s \<Longrightarrow> E' s"
  shows "after P' m Q' E'"
proof (rule afterI)
  fix s s' r assume "P' s" "run_state m s = (r, s')"
  then show "case r of Inl e \<Rightarrow> E' s' | Inr a \<Rightarrow> Q' a s'"
    using afterD [OF assms(1) assms(2)] assms(3,4) by (fastforce split: sum.splits)
qed

lemma after_proceed:
  assumes "after P m R E" "\<And>a. after (R a) (f a) Q E"
  shows "after P (proceed m f) Q E"
proof (rule afterI)
  fix s s' r assume P: "P s" and run: "run_state (proceed m f) s = (r, s')"
  obtain r1 t where m: "run_state m s = (r1, t)" by fastforce
  show "case r of Inl e \<Rightarrow> E s' | Inr a \<Rightarrow> Q a s'"
  proof (cases r1)
    case (Inl e)
    then show ?thesis using afterD [OF assms(1) P m] run m by (auto simp: run_state_proceed)
  next
    case (Inr a)
    then have "R a t" "run_state (f a) t = (r, s')" using afterD [OF assms(1) P m] run m by (simp_all add: run_state_proceed)
    then show ?thesis using afterD [OF assms(2)] by blast
  qed
qed

lemma after_bind:
  assumes "after P m R F" "\<And>a. after (R a) (f (Inr a)) Q E" "\<And>e. after F (f (Inl e)) Q E"
  shows "after P (State_Monad.bind m f) Q E"
proof (rule afterI)
  fix s s' r assume P: "P s" and run: "run_state (State_Monad.bind m f) s = (r, s')"
  obtain r1 t where m: "run_state m s = (r1, t)" by fastforce
  then have f: "run_state (f r1) t = (r, s')" using run by simp
  show "case r of Inl e \<Rightarrow> E s' | Inr a \<Rightarrow> Q a s'"
  proof (cases r1)
    case (Inl e)
    then show ?thesis using afterD [OF assms(1) P m] afterD [OF assms(3)] f by fastforce
  next
    case (Inr a)
    then show ?thesis using afterD [OF assms(1) P m] afterD [OF assms(2)] f by fastforce
  qed
qed

lemma after_give: "(\<And>s. P s \<Longrightarrow> Q a s) \<Longrightarrow> after P (give a) Q E"
  by (simp add: after_def)

lemma after_refuse: "(\<And>s. P s \<Longrightarrow> E s) \<Longrightarrow> after P (refuse e) Q E"
  by (simp add: after_def)

lemma after_return: "(\<And>s. P s \<Longrightarrow> case r of Inl e \<Rightarrow> E s | Inr a \<Rightarrow> Q a s) \<Longrightarrow> after P (State_Monad.return r) Q E"
  by (cases r) (simp_all add: after_def)

lemma after_require: "(\<And>s. P s \<Longrightarrow> b \<Longrightarrow> Q () s) \<Longrightarrow> (\<And>s. P s \<Longrightarrow> \<not> b \<Longrightarrow> E s) \<Longrightarrow> after P (require b e) Q E"
  by (simp add: require_def after_def)

lemma after_require_some:
  "(\<And>s a. P s \<Longrightarrow> x = Some a \<Longrightarrow> Q a s) \<Longrightarrow> (\<And>s. P s \<Longrightarrow> E s) \<Longrightarrow> after P (require_some x e) Q E"
  by (cases x) (simp_all add: require_some_def after_def)

lemma after_with_store: "(\<And>s. P s \<Longrightarrow> after (\<lambda>t. t = s) (f s) Q E) \<Longrightarrow> after P (with_store f) Q E"
  by (simp add: after_def with_store_def)

lemma after_modify: "(\<And>s. P s \<Longrightarrow> Q () (f s)) \<Longrightarrow> after P (modify f) Q E"
  by (simp add: after_def modify_def State_Monad.update_def)

lemma after_map_error: "after P m Q E \<Longrightarrow> after P (map_error g m) Q E"
  unfolding after_def map_error_def by (fastforce split: prod.splits sum.splits)

lemma after_on_failure:
  assumes "after P m Q F" "after F cleanup (\<lambda>_. E) E"
  shows "after P (on_failure m cleanup) Q E"
  unfolding on_failure_def
proof (rule after_bind [OF assms(1)])
  show "after (Q a) (case Inr a of Inl e \<Rightarrow> proceed cleanup (\<lambda>_. refuse e) | Inr a \<Rightarrow> give a) Q E" for a
    by (simp add: after_give)
  show "after F (case Inl e of Inl e \<Rightarrow> proceed cleanup (\<lambda>_. refuse e) | Inr a \<Rightarrow> give a) Q E" for e
    by (simp add: after_proceed [OF assms(2)] after_refuse)
qed

lemma after_if: "(b \<Longrightarrow> after P m Q E) \<Longrightarrow> (\<not> b \<Longrightarrow> after P n Q E) \<Longrightarrow> after P (if b then m else n) Q E"
  by simp

text \<open>A predicate that a transformer keeps, whatever it answers.\<close>

abbreviation keeps :: "('s \<Rightarrow> bool) \<Rightarrow> ('s, 'e + 'a) state \<Rightarrow> bool" where
  "keeps P m \<equiv> after P m (\<lambda>_. P) P"

lemma keeps_effect: "state_io_rel R m \<Longrightarrow> (\<And>s t. R s t \<Longrightarrow> P s \<Longrightarrow> P t) \<Longrightarrow> keeps P m"
  unfolding after_def by (fastforce split: prod.splits sum.splits dest: state_io_relD)

lemma after_for_each: "(\<And>i acc. after P (body i acc) (\<lambda>_. P) E) \<Longrightarrow> after P (for_each body xs acc) (\<lambda>_. P) E"
proof (induction xs arbitrary: acc)
  case Nil
  then show ?case by (simp add: after_give)
next
  case (Cons x xs)
  then show ?case by (simp add: after_proceed [where R = "\<lambda>_. P"])
qed

lemmas keeps_for_each = after_for_each [where E = P and P = P for P]

lemma keeps_with_store: "(\<And>s. P s \<Longrightarrow> keeps P (f s)) \<Longrightarrow> keeps P (with_store f)"
  by (rule after_with_store) (rule after_weaken [where P = P and Q = "\<lambda>_. P" and E = P]; blast)

lemma keeps_proceed: "keeps P m \<Longrightarrow> (\<And>a. keeps P (f a)) \<Longrightarrow> keeps P (proceed m f)"
  by (rule after_proceed)

lemma keeps_bind: "keeps P m \<Longrightarrow> (\<And>r. keeps P (f r)) \<Longrightarrow> keeps P (State_Monad.bind m f)"
  by (rule after_bind)

lemma keeps_simple: "keeps P (give a)" "keeps P (refuse e)" "keeps P (require b e)" "keeps P (require_some x e)" "keeps P (State_Monad.return r)"
  by (auto intro: after_give after_refuse after_require after_require_some after_return split: sum.splits)

lemma keeps_sum: "(\<And>a. keeps P (f a)) \<Longrightarrow> (\<And>b. keeps P (g b)) \<Longrightarrow> keeps P (case_sum f g x)"
  by (cases x) simp_all

lemma keeps_prod: "(\<And>a b. keeps P (f a b)) \<Longrightarrow> keeps P (case_prod f x)"
  by (cases x) simp

lemma keeps_let: "keeps P (f x) \<Longrightarrow> keeps P (Let x f)"
  by simp

lemmas keeps_rules = keeps_for_each keeps_with_store keeps_proceed keeps_bind keeps_simple keeps_sum keeps_prod keeps_let
  after_map_error after_on_failure after_if


lemma after_fail:
  "keeps P m \<Longrightarrow> after P cleanup (\<lambda>_. E) E \<Longrightarrow> (\<And>a. after P (f a) Q E) \<Longrightarrow> after P (proceed (on_failure m cleanup) f) Q E"
  by (rule after_proceed [OF after_on_failure])

lemma after_step: "after P m (\<lambda>_. R) E \<Longrightarrow> (\<And>a. after R (f a) Q E) \<Longrightarrow> after P (proceed m f) Q E"
  by (rule after_proceed)

lemma after_prod: "(\<And>a b. after P (f a b) Q E) \<Longrightarrow> after P (case_prod f x) Q E"
  by (cases x) simp

lemma after_with_any: "(\<And>s. after P (f s) Q E) \<Longrightarrow> after P (with_store f) Q E"
  unfolding after_def with_store_def by simp

lemma keeps_guarded: "(b \<Longrightarrow> keeps P (f ())) \<Longrightarrow> keeps P (proceed (require b e) f)"
  by (cases b) (simp_all add: require_def after_def run_state_proceed)

section \<open>The control state\<close>

text \<open>The part of the store that decides where it writes.\<close>

record StoreControl =
  ct_selection :: SoundStoreSelection
  ct_scanned :: bool
  ct_read_selection :: SoundStoreSelection
  ct_read_scanned :: bool
  ct_active :: bool
  ct_bank :: SoundBankId
  ct_leases :: "SoundReadLease list"

definition control :: "SoundAssetStore \<Rightarrow> StoreControl" where
  "control s = \<lparr>ct_selection = st_selection s, ct_scanned = st_scanned s, ct_read_selection = st_read_selection s,
     ct_read_scanned = st_read_selection_scanned s, ct_active = st_update_active s, ct_bank = st_update_bank s,
     ct_leases = st_read_leases s\<rparr>"

definition active_banks :: "SoundStoreSelection \<Rightarrow> SoundBankId set" where
  "active_banks selection = (if sl_active_valid selection then {sb_bank (sl_active selection)} else {})"

definition leased_banks :: "SoundReadLease list \<Rightarrow> SoundBankId set" where
  "leased_banks leases = rl_bank ` {lease \<in> set leases. rl_valid lease}"

definition selection_ok :: "SoundStoreSelection \<Rightarrow> bool" where
  "selection_ok sl \<longleftrightarrow> (sb_valid (sl_bank_a sl) \<longrightarrow> sb_bank (sl_bank_a sl) = BankA) \<and>
     (sb_valid (sl_bank_b sl) \<longrightarrow> sb_bank (sl_bank_b sl) = BankB) \<and>
     (sl_active_valid sl \<longrightarrow> sb_valid (sl_active sl) \<and> sl_active sl = snapshot_for_bank sl (sb_bank (sl_active sl)))"

text \<open>
  The invariant.  With \<open>repair\<close> set, invalid staging may be discarded during the run, and
  nothing is claimed about leases.
\<close>

definition base_inv :: "bool \<Rightarrow> StoreControl \<Rightarrow> bool" where
  "base_inv repair c \<longleftrightarrow> selection_ok (ct_selection c) \<and> (\<not> ct_scanned c \<longrightarrow> \<not> sl_active_valid (ct_selection c)) \<and>
     (\<not> repair \<longrightarrow> (ct_active c \<longrightarrow> ct_bank c \<notin> leased_banks (ct_leases c)) \<and>
       (ct_scanned c \<longrightarrow> ct_read_scanned c \<and> active_banks (ct_read_selection c) = active_banks (ct_selection c)))"

definition store_inv :: "bool \<Rightarrow> StoreControl \<Rightarrow> bool" where
  "store_inv repair c \<longleftrightarrow> base_inv repair c \<and>
     (ct_active c \<longrightarrow> ct_bank c \<notin> active_banks (ct_selection c) \<and>
       (\<not> repair \<and> ct_read_scanned c \<longrightarrow> ct_bank c \<notin> active_banks (ct_read_selection c)))"

definition protected_banks :: "bool \<Rightarrow> StoreControl \<Rightarrow> SoundBankId set" where
  "protected_banks repair c = active_banks (ct_selection c) \<union> (if repair then {} else leased_banks (ct_leases c))"

text \<open>A claim about the control state, and given contents of the banks of a set.\<close>

definition holding :: "SoundBankId set \<Rightarrow> (SoundBankId \<Rightarrow> bytes) \<Rightarrow> (StoreControl \<Rightarrow> bool) \<Rightarrow> SoundAssetStore \<Rightarrow> bool" where
  "holding K C X s \<longleftrightarrow> X (control s) \<and> (\<forall>b \<in> K. sf_bank s b = C b)"

lemma same_flash_control: "same_flash s t \<Longrightarrow> control t = control s"
  by (cases s; cases t) (simp add: same_flash_def control_def)

lemma only_bank_control: "only_bank bank s t \<Longrightarrow> control t = control s \<and> (\<forall>b. b \<noteq> bank \<longrightarrow> sf_bank t b = sf_bank s b)"
  by (cases s; cases t) (auto simp: only_bank_def control_def fun_eq_iff)

lemma keeps_reading: "state_io_rel same_flash m \<Longrightarrow> keeps (holding K C X) m"
  by (erule keeps_effect) (auto simp: holding_def same_flash_control same_flash_bank)

lemma keeps_writing: "state_io_rel (only_bank bank) m \<Longrightarrow> bank \<notin> K \<Longrightarrow> keeps (holding K C X) m"
  by (erule keeps_effect) (auto simp: holding_def dest!: only_bank_control)

lemma keeps_modify: "(\<And>s. control (f s) = control s) \<Longrightarrow> (\<And>s. sf_bank (f s) = sf_bank s) \<Longrightarrow> keeps (holding K C X) (modify f)"
  by (rule after_modify) (simp add: holding_def)

lemma after_modify_holding:
  "(\<And>s. sf_bank (f s) = sf_bank s) \<Longrightarrow> (\<And>s. X (control s) \<Longrightarrow> Y (control (f s))) \<Longrightarrow>
     after (holding K C X) (modify f) (\<lambda>_. holding K C Y) E"
  by (rule after_modify) (simp add: holding_def)

lemma holding_mono: "holding K C X s \<Longrightarrow> (\<And>c. X c \<Longrightarrow> Y c) \<Longrightarrow> holding K C Y s"
  by (simp add: holding_def)

lemma after_pre: "after (holding K C X) m Q E \<Longrightarrow> (\<And>c. Y c \<Longrightarrow> X c) \<Longrightarrow> after (holding K C Y) m Q E"
  by (erule after_weaken) (auto simp: holding_def)

lemma target_is_pinned_iff: "target_is_pinned s bank \<longleftrightarrow> bank \<in> leased_banks (ct_leases (control s))"
  by (auto simp: target_is_pinned_def leased_banks_def control_def list_ex_iff)

section \<open>Small steps\<close>

lemma keeps_set_payload: "keeps (holding K C X) (set_payload_complete i b)"
  unfolding set_payload_complete_def by (rule keeps_modify) (simp_all add: control_def)

lemma keeps_set_manifest: "keeps (holding K C X) (set_manifest_complete b)"
  unfolding set_manifest_complete_def by (rule keeps_modify) (simp_all add: control_def)

lemma keeps_reset_generation: "keeps (holding K C X) reset_generation"
  unfolding reset_generation_def by (rule keeps_modify) (simp_all add: control_def)

lemma keeps_verify_manifest: "keeps (holding K C X) verify_manifest"
  unfolding verify_manifest_def by (intro keeps_rules keeps_reading flash_readings)

lemma keeps_verify_block: "keeps (holding K C X) (verify_payload_block i)"
  unfolding verify_payload_block_def by (intro keeps_rules keeps_reading flash_readings)

lemma keeps_verify_all: "keeps (holding K C X) verify_all_payload_blocks"
  unfolding verify_all_payload_blocks_def by (intro keeps_rules keeps_verify_block keeps_set_payload)

text \<open>Within \<open>with_store\<close> the control state is that of the state found.\<close>

lemma after_with_control:
  "(\<And>s. X (control s) \<Longrightarrow> after (holding K C (\<lambda>c. c = control s)) (f s) Q E) \<Longrightarrow> after (holding K C X) (with_store f) Q E"
  by (rule after_with_store, rule after_weaken [where P = "holding K C (\<lambda>c. c = control s)" and Q = Q and E = E for s])
    (auto simp: holding_def)

lemma keeps_with_control:
  assumes "\<And>s. X (control s) \<Longrightarrow> keeps (holding K C (\<lambda>c. c = control s)) (f s)"
  shows "keeps (holding K C X) (with_store f)"
proof (rule after_with_control)
  fix s assume "X (control s)"
  then show "after (holding K C (\<lambda>c. c = control s)) (f s) (\<lambda>_. holding K C X) (holding K C X)"
    by (intro after_weaken [OF assms [of s]]) (auto simp: holding_def)
qed

lemma after_guarded: "(\<And>s. P s \<Longrightarrow> E s) \<Longrightarrow> (b \<Longrightarrow> after P (f ()) Q E) \<Longrightarrow> after P (proceed (require b e) f) Q E"
  by (cases b) (auto simp: require_def after_def run_state_proceed)

lemma after_chosen:
  "(\<And>s. P s \<Longrightarrow> E s) \<Longrightarrow> (\<And>a. r = Inr a \<Longrightarrow> after P (f a) Q E) \<Longrightarrow> after P (proceed (State_Monad.return r) f) Q E"
  by (cases r) (auto simp: after_def run_state_proceed)

lemma keeps_mark_manifest:
  "(\<And>c. X c \<Longrightarrow> ct_bank c \<notin> K) \<Longrightarrow> keeps (holding K C X) mark_manifest_complete"
  unfolding mark_manifest_complete_def
  by (rule keeps_with_control, intro keeps_rules keeps_writing [OF bank_write_writing]) (force simp: control_def)

lemma keeps_mark_payload:
  "(\<And>c. X c \<Longrightarrow> ct_bank c \<notin> K) \<Longrightarrow> keeps (holding K C X) (mark_payload_complete i)"
  unfolding mark_payload_complete_def
  by (rule keeps_with_control, intro keeps_rules keeps_reading flash_readings keeps_writing [OF bank_write_writing])
    (force simp: control_def)

lemma keeps_program_and_check: "bank \<notin> K \<Longrightarrow> keeps (holding K C X) (program_and_check bank offset data)"
  unfolding program_and_check_def
  by (intro keeps_rules keeps_reading flash_readings keeps_writing [OF bank_write_writing])

lemma keeps_write_header: "bank \<notin> K \<Longrightarrow> keeps (holding K C X) (write_staging_header bank header)"
  unfolding write_staging_header_def
  by (intro keeps_rules keeps_reading flash_readings keeps_writing [OF bank_write_writing])

lemmas keeps_steps = flash_readings [THEN keeps_reading] keeps_set_payload keeps_set_manifest keeps_reset_generation
  keeps_verify_manifest keeps_verify_block keeps_verify_all keeps_mark_manifest keeps_mark_payload
  keeps_program_and_check keeps_write_header keeps_writing [OF bank_write_writing] keeps_writing [OF bank_erase_writing]

section \<open>Writing and committing\<close>

text \<open>An open update does not aim at a bank of \<open>K\<close>.\<close>

lemma bank_of_control: "ct_bank (control s) = st_update_bank s" "ct_active (control s) = st_update_active s"
    "ct_scanned (control s) = st_scanned s" "ct_selection (control s) = st_selection s" "ct_leases (control s) = st_read_leases s"
    "ct_read_selection (control s) = st_read_selection s" "ct_read_scanned (control s) = st_read_selection_scanned s"
  by (simp_all add: control_def)

lemma keeps_write_manifest:
  assumes "\<And>c. X c \<Longrightarrow> ct_active c \<Longrightarrow> ct_bank c \<notin> K"
  shows "keeps (holding K C X) (write_manifest manifest)"
  unfolding write_manifest_def Let_def
  by (intro keeps_with_control keeps_guarded, intro keeps_rules keeps_steps) (use assms bank_of_control in \<open>metis\<close>)+

lemma keeps_write_payload:
  assumes "\<And>c. X c \<Longrightarrow> ct_active c \<Longrightarrow> ct_bank c \<notin> K"
  shows "keeps (holding K C X) (write_payload_block i data)"
  unfolding write_payload_block_def Let_def
  by (intro keeps_with_control keeps_guarded, intro keeps_rules keeps_steps) (use assms bank_of_control in \<open>metis\<close>)+

lemma keeps_update_progress: "keeps (holding K C X) update_progress"
  unfolding update_progress_def Let_def by (intro keeps_rules)

text \<open>Clearing the update.\<close>

lemma after_clear:
  "(\<And>c. X c \<Longrightarrow> Y (c\<lparr>ct_active := False, ct_bank := BankA\<rparr>)) \<Longrightarrow> after (holding K C X) clear_update_state (\<lambda>_. holding K C Y) E"
  unfolding clear_update_state_def
proof (rule after_modify_holding, simp)
  fix s assume "\<And>c. X c \<Longrightarrow> Y (c\<lparr>ct_active := False, ct_bank := BankA\<rparr>)" "X (control s)"
  from this(1) [OF this(2)] show "Y (control (s\<lparr>st_update_active := False, st_update_bank := BankA, st_update_generation := 0,
     st_update_plan := empty_plan, st_update_transaction_id := replicate 16 0,
     st_payload_complete := replicate kSoundPayloadBlockCount False, st_manifest_complete := False\<rparr>))"
    by (simp add: control_def)
qed

text \<open>The inspection of a bank answers for that bank.\<close>

lemma decoded_bank: "run_state (decode_commit bank) s = (Inr sn, s') \<Longrightarrow> sb_bank sn = bank"
  by (auto simp: decode_commit_def ok_runs Let_def decoded_commit_def)

lemma validated_bank: "run_state (validate_sound_bank bank) s = (Inr sn, s') \<Longrightarrow> sb_bank sn = bank"
  by (erule validate_bank_parts) (auto simp: validate_sound_bank_committed_content_def ok_runs dest: decoded_bank)

lemma after_inspect:
  "after (holding K C X) (inspect_bank bank) (\<lambda>a s. holding K C X s \<and> (sb_valid (fst a) \<longrightarrow> sb_bank (fst a) = bank)) (holding K C X)"
proof (rule afterI)
  fix s s' r assume s: "holding K C X s" and run: "run_state (inspect_bank bank) s = (r, s')"
  have "holding K C X s'" using afterD [OF keeps_reading [OF inspect_bank_reading] s run] by (cases r) auto
  moreover have "sb_bank sn = bank" if "r = Inr (sn, d)" "sb_valid sn" for sn d
    using run that
    by (auto simp: inspect_bank_def ok_runs split: prod.splits sum.splits if_splits dest: validated_bank)
  ultimately show "case r of Inl e \<Rightarrow> holding K C X s' | Inr a \<Rightarrow> holding K C X s' \<and> (sb_valid (fst a) \<longrightarrow> sb_bank (fst a) = bank)"
    by (auto split: sum.splits)
qed

lemma selection_ok_empty [simp]: "selection_ok empty_selection"
  by (simp add: selection_ok_def empty_selection_def empty_snapshot_def)

lemma select_ok:
  "(sb_valid a \<longrightarrow> sb_bank a = BankA) \<Longrightarrow> (sb_valid b \<longrightarrow> sb_bank b = BankB) \<Longrightarrow> selection_ok (select_sound_banks a b)"
  by (auto simp: select_sound_banks_def selection_ok_def empty_selection_def snapshot_for_bank_def Let_def)


lemma after_both:
  assumes "after (holding K C X) m (\<lambda>a s. holding K C X s \<and> (sb_valid (fst a) \<longrightarrow> sb_bank (fst a) = BankA)) E"
    "after (holding K C X) n (\<lambda>b s. holding K C X s \<and> (sb_valid (fst b) \<longrightarrow> sb_bank (fst b) = BankB)) E"
    "\<And>a ra b rb. (sb_valid a \<Longrightarrow> sb_bank a = BankA) \<Longrightarrow> (sb_valid b \<Longrightarrow> sb_bank b = BankB) \<Longrightarrow>
      after (holding K C X) (f a ra b rb) Q E"
  shows "after (holding K C X) (proceed m (\<lambda>(a, ra). proceed n (\<lambda>(b, rb). f a ra b rb))) Q E"
proof (rule after_proceed [OF assms(1)])
  fix a
  show "after (\<lambda>s. holding K C X s \<and> (sb_valid (fst a) \<longrightarrow> sb_bank (fst a) = BankA))
    (case a of (a, ra) \<Rightarrow> proceed n (\<lambda>(b, rb). f a ra b rb)) Q E"
  proof (cases "sb_valid (fst a) \<longrightarrow> sb_bank (fst a) = BankA")
    case True
    have "after (holding K C X) (proceed n (\<lambda>(b, rb). f (fst a) (snd a) b rb)) Q E"
    proof (rule after_proceed [OF assms(2)])
      fix b
      show "after (\<lambda>s. holding K C X s \<and> (sb_valid (fst b) \<longrightarrow> sb_bank (fst b) = BankB))
        (case b of (b, rb) \<Rightarrow> f (fst a) (snd a) b rb) Q E"
        using True assms(3) [of "fst a" "fst b" "snd a" "snd b"]
        by (cases b; cases "sb_valid (fst b) \<longrightarrow> sb_bank (fst b) = BankB") (auto simp: after_def)
    qed
    then show ?thesis using True by (cases a) simp
  next
    case False
    then show ?thesis by (auto simp: after_def)
  qed
qed

lemma after_inspect_both:
  assumes "\<And>a ra b rb. (sb_valid a \<Longrightarrow> sb_bank a = BankA) \<Longrightarrow> (sb_valid b \<Longrightarrow> sb_bank b = BankB) \<Longrightarrow>
      after (holding K C X) (f a ra b rb) Q E" "\<And>s. holding K C X s \<Longrightarrow> E s"
  shows "after (holding K C X) (proceed (inspect_bank BankA) (\<lambda>(a, ra). proceed (inspect_bank BankB) (\<lambda>(b, rb). f a ra b rb))) Q E"
  by (rule after_both [OF _ _ assms(1)]) (rule after_weaken [OF after_inspect _ _ assms(2)]; simp)+

section \<open>Scanning\<close>

text \<open>The invariant, and the banks of \<open>K\<close> under its protection.\<close>

definition safe :: "bool \<Rightarrow> SoundBankId set \<Rightarrow> StoreControl \<Rightarrow> bool" where
  "safe repair K c \<longleftrightarrow> store_inv repair c \<and> K \<subseteq> protected_banks repair c"

lemma control_forget: "control (forget_selections s) = (control s)\<lparr>ct_scanned := False, ct_read_scanned := False,
    ct_selection := empty_selection, ct_read_selection := empty_selection\<rparr>"
  by (simp add: control_def forget_selections_def)

lemma control_publish: "control (publish_selection selection result s) = (control s)\<lparr>ct_selection := selection, ct_scanned := True,
    ct_read_selection := selection, ct_read_scanned := True\<rparr>"
  by (simp add: control_def publish_selection_def)

lemma bank_selections [simp]: "sf_bank (forget_selections s) = sf_bank s" "sf_bank (publish_selection selection result s) = sf_bank s"
  by (simp_all add: forget_selections_def publish_selection_def)

lemma active_empty [simp]: "active_banks empty_selection = {}" "\<not> sl_active_valid empty_selection"
  by (simp_all add: active_banks_def empty_selection_def)

lemma after_scan:
  "after (holding K C (\<lambda>c. store_inv repair c \<and> ct_leases c = L)) scan
     (\<lambda>_. holding K C (\<lambda>c. store_inv repair c \<and> ct_scanned c \<and> \<not> ct_active c \<and> ct_leases c = L))
     (holding K C (\<lambda>c. store_inv repair c \<and> ct_leases c = L))"
  unfolding scan_def Let_def
proof (intro after_with_control after_guarded)
  fix s assume s: "store_inv repair (control s) \<and> ct_leases (control s) = L" and idle: "\<not> st_update_active s"
  let ?idle = "holding K C (\<lambda>c. store_inv repair c \<and> \<not> ct_active c \<and> ct_leases c = L)"
  let ?E = "holding K C (\<lambda>c. store_inv repair c \<and> ct_leases c = L)"
  let ?Q = "\<lambda>_. holding K C (\<lambda>c. store_inv repair c \<and> ct_scanned c \<and> \<not> ct_active c \<and> ct_leases c = L)"
  have forget: "after (holding K C (\<lambda>c. c = control s)) (modify forget_selections) (\<lambda>_. ?idle) ?E"
    using s idle by (intro after_modify_holding) (auto simp: control_forget store_inv_def base_inv_def bank_of_control)
  have publish: "after ?idle (proceed (modify (publish_selection (select_sound_banks a b) r)) (\<lambda>_. require t e)) ?Q ?E"
    if "sb_valid a \<Longrightarrow> sb_bank a = BankA" "sb_valid b \<Longrightarrow> sb_bank b = BankB" for a b r t e
  proof (rule after_proceed)
    show "after ?idle (modify (publish_selection (select_sound_banks a b) r)) ?Q ?E"
      using select_ok [of a b] that by (intro after_modify_holding) (auto simp: control_publish store_inv_def base_inv_def)
    show "after (?Q u) (require t e) ?Q ?E" for u :: unit
      by (rule after_require) (auto simp: holding_def)
  qed
  show "after (holding K C (\<lambda>c. c = control s))
    (proceed (modify forget_selections) (\<lambda>_.
     proceed (inspect_bank BankA) (\<lambda>(bank_a, bank_a_result).
     proceed (inspect_bank BankB) (\<lambda>(bank_b, bank_b_result).
     proceed (modify (publish_selection (select_sound_banks bank_a bank_b)
        (read_selection_disposition (select_sound_banks bank_a bank_b) bank_a_result bank_b_result))) (\<lambda>_.
     require (\<not> sl_split_brain (select_sound_banks bank_a bank_b)) StSplitBrain))))) ?Q ?E"
    by (rule after_proceed [OF forget]) (rule after_inspect_both, rule publish, auto simp: holding_def)
qed (auto simp: holding_def)

text \<open>A scan, if needed, before a target is chosen.\<close>

definition ready :: "bool \<Rightarrow> SoundBankId set \<Rightarrow> StoreControl \<Rightarrow> bool" where
  "ready repair K c \<longleftrightarrow> safe repair K c \<and> ct_scanned c \<and> \<not> ct_active c"

lemma after_scan_unless_scanned:
  "after (holding K C (\<lambda>c. safe repair K c \<and> \<not> ct_active c)) scan_unless_scanned (\<lambda>_. holding K C (ready repair K))
     (holding K C (store_inv repair))"
  unfolding scan_unless_scanned_def
proof (rule after_with_control)
  fix s assume s: "safe repair K (control s) \<and> \<not> ct_active (control s)"
  show "after (holding K C (\<lambda>c. c = control s)) (if \<not> st_scanned s then scan else give ()) (\<lambda>_. holding K C (ready repair K))
     (holding K C (store_inv repair))"
  proof (rule after_if)
    assume "\<not> st_scanned s"
    then have "K \<subseteq> protected_banks repair c" if "ct_leases c = ct_leases (control s)" for c
      using s that by (auto simp: safe_def store_inv_def base_inv_def protected_banks_def active_banks_def control_def)
    then show "after (holding K C (\<lambda>c. c = control s)) scan (\<lambda>_. holding K C (ready repair K)) (holding K C (store_inv repair))"
      using s by (intro after_weaken [OF after_scan [of K C repair "ct_leases (control s)"]])
        (auto simp: holding_def ready_def safe_def)
  next
    assume "\<not> \<not> st_scanned s"
    then have "ready repair K (control s)" using s by (simp add: ready_def bank_of_control)
    then show "after (holding K C (\<lambda>c. c = control s)) (give ()) (\<lambda>_. holding K C (ready repair K)) (holding K C (store_inv repair))"
      by (intro after_give) (simp add: holding_def)
  qed
qed


section \<open>Beginning on a bank\<close>

text \<open>The bank has been chosen: it is neither active nor leased.\<close>

definition free_bank :: "StoreControl \<Rightarrow> SoundBankId \<Rightarrow> bool" where
  "free_bank c bank \<longleftrightarrow> bank \<notin> active_banks (ct_selection c) \<and> bank \<notin> leased_banks (ct_leases c)"

lemma not_protected: "free_bank c bank \<Longrightarrow> safe repair K c \<Longrightarrow> bank \<notin> K"
  by (auto simp: free_bank_def safe_def protected_banks_def split: if_splits)

definition aimed :: "bool \<Rightarrow> SoundBankId set \<Rightarrow> SoundBankId \<Rightarrow> StoreControl \<Rightarrow> bool" where
  "aimed repair K bank c \<longleftrightarrow> ready repair K c \<and> free_bank c bank \<and> ct_bank c = bank"

lemma aimed_inv: "aimed repair K bank c \<Longrightarrow> store_inv repair c"
  by (simp add: aimed_def ready_def safe_def)

lemma aim: "ready repair K c \<Longrightarrow> free_bank c bank \<Longrightarrow> aimed repair K bank (c\<lparr>ct_bank := bank\<rparr>)"
  by (cases repair) (simp_all add: aimed_def ready_def free_bank_def safe_def store_inv_def base_inv_def protected_banks_def)

text \<open>The open update on the chosen bank, and the state when it is given up.\<close>

lemma aimed_open: "aimed repair K bank c \<Longrightarrow> store_inv repair (c\<lparr>ct_active := True\<rparr>)"
  by (auto simp: aimed_def ready_def free_bank_def safe_def store_inv_def base_inv_def)

lemma store_inv_closed: "store_inv repair c \<Longrightarrow> store_inv repair (c\<lparr>ct_active := False, ct_bank := BankA\<rparr>)"
  by (auto simp: store_inv_def base_inv_def)

lemma after_clear_inv: "after (holding K C (store_inv repair)) clear_update_state (\<lambda>_. holding K C (store_inv repair)) E"
  by (rule after_clear) (rule store_inv_closed)

lemma active_emptied [simp]: "active_banks (empty_bank_snapshot bank sl) = active_banks sl"
  by (cases bank) (simp_all add: active_banks_def empty_bank_snapshot_def)

lemma selection_emptied: "selection_ok sl \<Longrightarrow> bank \<notin> active_banks sl \<Longrightarrow> selection_ok (empty_bank_snapshot bank sl)"
  by (cases bank; cases "sb_bank (sl_active sl)")
    (auto simp: selection_ok_def active_banks_def empty_bank_snapshot_def snapshot_for_bank_def empty_snapshot_def)

lemma aimed_emptied:
  "aimed repair K bank c \<Longrightarrow> aimed repair K bank (c\<lparr>ct_selection := empty_bank_snapshot bank (ct_selection c)\<rparr>)"
  by (cases repair)
    (simp_all add: aimed_def ready_def free_bank_def safe_def store_inv_def base_inv_def protected_banks_def selection_emptied)

lemma store_inv_forgotten:
  "aimed repair K bank c \<Longrightarrow> store_inv repair (c\<lparr>ct_scanned := False, ct_read_scanned := False,
    ct_selection := empty_selection, ct_read_selection := empty_selection\<rparr>)"
  by (simp add: aimed_def ready_def store_inv_def base_inv_def)

lemma after_begin_on_bank:
  assumes "bank \<notin> K"
  shows "after (holding K C (aimed repair K bank)) (begin_on_bank plan generation bank)
     (\<lambda>_. holding K C (store_inv repair)) (holding K C (store_inv repair))"
proof -
  let ?I = "holding K C (store_inv repair)" and ?A = "holding K C (aimed repair K bank)"
  have AI: "?A s \<Longrightarrow> ?I s" for s by (auto simp: holding_def aimed_inv)
  have forget: "after ?A (modify (\<lambda>s. (forget_selections s)\<lparr>st_update_generation := 0\<rparr>)) (\<lambda>_. ?I) ?I"
  proof (rule after_modify_holding)
    show "store_inv repair (control ((forget_selections s)\<lparr>st_update_generation := 0\<rparr>))" if "aimed repair K bank (control s)" for s
      using store_inv_forgotten [OF that] by (simp add: control_def forget_selections_def)
  qed simp
  have reset: "after ?A reset_generation (\<lambda>_. ?I) ?I"
    by (rule after_weaken [OF keeps_reset_generation [of K C "aimed repair K bank"]]) (auto simp: AI)
  have empty: "after ?A (modify (\<lambda>s. s\<lparr>st_selection := empty_bank_snapshot bank (st_selection s)\<rparr>)) (\<lambda>_. ?A) ?I"
  proof (rule after_modify_holding)
    show "aimed repair K bank (control (s\<lparr>st_selection := empty_bank_snapshot bank (st_selection s)\<rparr>))"
      if "aimed repair K bank (control s)" for s
      using aimed_emptied [OF that] by (simp add: control_def)
  qed simp
  have plan: "after ?A (modify (\<lambda>s. s\<lparr>st_update_plan := plan\<rparr>)) (\<lambda>_. ?A) ?I"
    by (rule after_modify_holding) (simp_all add: control_def)
  have opened: "after ?A (modify (\<lambda>s. s\<lparr>st_update_transaction_id := tid,
         st_payload_complete := replicate kSoundPayloadBlockCount False, st_manifest_complete := False, st_update_active := True\<rparr>)) (\<lambda>_. ?I) ?I"
    for tid
  proof (rule after_modify_holding)
    show "store_inv repair (control (s\<lparr>st_update_transaction_id := tid,
         st_payload_complete := replicate kSoundPayloadBlockCount False, st_manifest_complete := False, st_update_active := True\<rparr>))"
      if "aimed repair K bank (control s)" for s
      using aimed_open [OF that] by (simp add: control_def)
  qed simp
  note clear = after_clear_inv [of K C repair ?I]
  show ?thesis
    unfolding begin_on_bank_def
    by (rule after_fail [OF _ forget], intro keeps_rules keeps_steps assms,
        rule after_step [OF empty], rule after_fail [OF _ reset], intro keeps_rules keeps_steps assms,
        rule after_fail [OF _ reset], intro keeps_rules keeps_steps assms,
        rule after_step [OF plan], rule after_fail [OF _ reset], intro keeps_rules keeps_steps assms,
        rule after_step [OF opened], rule after_fail [OF _ clear], intro keeps_rules keeps_steps assms,
        rule after_fail [OF _ clear], intro keeps_rules keeps_steps assms,
        intro keeps_rules)
qed


section \<open>Choosing the bank\<close>

text \<open>An open update that leaves the store ready when it is closed.\<close>

definition resumed :: "bool \<Rightarrow> SoundBankId set \<Rightarrow> StoreControl \<Rightarrow> bool" where
  "resumed repair K c \<longleftrightarrow> store_inv repair c \<and> ready repair K (c\<lparr>ct_active := False, ct_bank := BankA\<rparr>)"

lemma resumed_open: "ready repair K c \<Longrightarrow> free_bank c bank \<Longrightarrow> resumed repair K (c\<lparr>ct_active := True, ct_bank := bank\<rparr>)"
  by (cases repair) (simp_all add: resumed_def ready_def free_bank_def safe_def store_inv_def base_inv_def protected_banks_def)

lemma ready_inv: "ready repair K c \<Longrightarrow> store_inv repair c"
  by (simp add: ready_def safe_def)

lemma resumed_inv: "resumed repair K c \<Longrightarrow> store_inv repair c"
  by (simp add: resumed_def)

lemma after_clear_resumed: "after (holding K C (resumed repair K)) clear_update_state (\<lambda>_. holding K C (ready repair K)) E"
  by (rule after_clear) (simp add: resumed_def)

lemma after_load_header:
  "after (holding K C (\<lambda>c. ready repair K c \<and> free_bank c bank)) (load_staging_header bank tid)
     (\<lambda>_. holding K C (store_inv repair)) (holding K C (ready repair K))"
proof -
  let ?P = "holding K C (\<lambda>c. ready repair K c \<and> free_bank c bank)"
  let ?R = "holding K C (resumed repair K)" and ?E = "holding K C (ready repair K)" and ?I = "holding K C (store_inv repair)"
  have PE: "?P s \<Longrightarrow> ?E s" and RI: "?R s \<Longrightarrow> ?I s" for s by (auto simp: holding_def resumed_inv)
  have step: "after ?P (proceed m f) Q ?E" if "keeps ?P m" "\<And>a. after ?P (f a) Q ?E" for m :: "'a store_op" and f :: "'a \<Rightarrow> 'b store_op" and Q
    by (rule after_step [OF after_weaken [OF that(1)] that(2)]) (auto simp: PE)
  have opened: "after ?P (modify (\<lambda>s. s\<lparr>st_update_active := True, st_update_bank := bank, st_update_generation := generation,
         st_update_plan := plan, st_update_transaction_id := tid',
         st_payload_complete := replicate kSoundPayloadBlockCount False, st_manifest_complete := False\<rparr>)) (\<lambda>_. ?R) ?E"
    for generation plan tid'
  proof (rule after_modify_holding)
    show "resumed repair K (control (s\<lparr>st_update_active := True, st_update_bank := bank, st_update_generation := generation,
         st_update_plan := plan, st_update_transaction_id := tid',
         st_payload_complete := replicate kSoundPayloadBlockCount False, st_manifest_complete := False\<rparr>))"
      if "ready repair K (control s) \<and> free_bank (control s) bank" for s
      using resumed_open [of repair K "control s" bank] that by (simp add: control_def)
  qed simp
  have give_up: "after ?R (proceed clear_update_state (\<lambda>_. refuse e)) Q ?E" for e Q
    by (rule after_step [OF after_clear_resumed]) (simp add: after_refuse)
  have mark: "after ?R (set_payload_complete i b) (\<lambda>_. ?R) ?E" "after ?R (set_manifest_complete b) (\<lambda>_. ?R) ?E" for i b
    unfolding set_payload_complete_def set_manifest_complete_def by (intro after_modify_holding; simp add: control_def)+
  have block: "after ?R (do { verify \<leftarrow> verify_payload_block index; case verify of
              Inr complete \<Rightarrow> set_payload_complete index complete
            | Inl e \<Rightarrow> if e = StIoError then proceed clear_update_state (\<lambda>_. refuse e) else set_payload_complete index False })
      (\<lambda>_. ?R) ?E" for index
    by (rule after_bind [where R = "\<lambda>_. ?R" and F = ?R], intro keeps_steps) (simp_all add: mark give_up)
  have blocks: "after ?R (for_each (\<lambda>index _. do { verify \<leftarrow> verify_payload_block index; case verify of
              Inr complete \<Rightarrow> set_payload_complete index complete
            | Inl e \<Rightarrow> if e = StIoError then proceed clear_update_state (\<lambda>_. refuse e) else set_payload_complete index False }) xs ())
      (\<lambda>_. ?I) ?E" for xs
    by (rule after_weaken [OF after_for_each [OF block]]) (auto simp: RI)
  show ?thesis
    unfolding load_staging_header_def
    by (rule step, intro keeps_rules keeps_steps, rule step, intro keeps_rules keeps_steps, intro after_prod,
        rule step, intro keeps_rules keeps_steps, rule after_guarded, simp add: PE, intro after_with_any after_guarded, simp add: PE,
        rule after_step [OF opened],
        rule after_bind [where R = "\<lambda>_. ?R" and F = ?R], intro keeps_steps)
      (rule after_step [where R = ?R], simp add: mark give_up after_give, rule blocks)+
qed


lemma after_guarded_fail:
  assumes "after P cleanup (\<lambda>_. E) E" "b \<Longrightarrow> after P (f ()) Q E"
  shows "after P (proceed (on_failure (require b e) cleanup) f) Q E"
proof (cases b)
  case True
  then show ?thesis using assms(2) by (simp add: after_def run_state_proceed on_failure_def require_def)
next
  case False
  then have "run_state (proceed (on_failure (require b e) cleanup) f) s =
      (case run_state cleanup s of (Inl e', t) \<Rightarrow> (Inl e', t) | (Inr a, t) \<Rightarrow> (Inl e, t))" for s
    by (simp add: run_state_proceed on_failure_def require_def split: prod.splits sum.splits)
  then show ?thesis using assms(1) by (auto simp: after_def split: prod.splits sum.splits)
qed

lemma plan_target_free: "plan_target sl plan = Inr (generation, bank) \<Longrightarrow> bank \<notin> active_banks sl"
  by (auto simp: plan_target_def active_banks_def other_bank_def split: if_splits)

lemma target_free:
  "plan_target (st_selection s) plan = Inr (generation, bank) \<Longrightarrow> \<not> target_is_pinned s bank \<Longrightarrow> free_bank (control s) bank"
  by (simp add: free_bank_def target_is_pinned_iff plan_target_free bank_of_control)

lemma ready_ready: "ready repair K c \<Longrightarrow> safe repair K c \<and> \<not> ct_active c"
  by (simp add: ready_def)

text \<open>The steps that lead to a scanned store without an open update.\<close>

lemma after_scanning:
  assumes "\<And>u. after (holding K C (ready repair K)) (f u) Q (holding K C (store_inv repair))"
    "\<And>c. X c \<Longrightarrow> safe repair K c \<and> \<not> ct_active c"
  shows "after (holding K C X) (proceed scan_unless_scanned f) Q (holding K C (store_inv repair))"
  by (rule after_pre [OF after_step [OF after_scan_unless_scanned assms(1)] assms(2)])

lemma safe_inv: "holding K C (\<lambda>c. c = control s) t \<Longrightarrow> safe repair K (control s) \<Longrightarrow> holding K C (store_inv repair) t"
  by (auto simp: holding_def safe_def)

lemma ready_here: "holding K C (\<lambda>c. c = control s) t \<Longrightarrow> ready repair K (control s) \<Longrightarrow> holding K C (store_inv repair) t"
  by (auto simp: holding_def ready_inv)

lemma after_chosen_pair:
  "(\<And>s. P s \<Longrightarrow> E s) \<Longrightarrow> (\<And>a b. r = Inr (a, b) \<Longrightarrow> after P (f a b) Q E) \<Longrightarrow>
     after P (proceed (State_Monad.return r) (\<lambda>(a, b). f a b)) Q E"
  by (rule after_chosen) auto

text \<open>Aiming at a target, unless it is leased.\<close>

lemma after_aiming:
  assumes s: "ready repair K (control s)" and target: "plan_target (st_selection s) plan = Inr (generation, bank)"
    and f: "\<And>u. bank \<notin> K \<Longrightarrow> after (holding K C (aimed repair K bank)) (f u) Q (holding K C (store_inv repair))"
  shows "after (holding K C (\<lambda>c. c = control s))
     (proceed (modify (\<lambda>s. s\<lparr>st_update_generation := generation, st_update_bank := bank\<rparr>)) (\<lambda>_.
      proceed (on_failure (require (\<not> target_is_pinned s bank) StBankPinned) reset_generation) f)) Q (holding K C (store_inv repair))"
proof (rule after_step)
  let ?c = "(control s)\<lparr>ct_bank := bank\<rparr>"
  show "after (holding K C (\<lambda>c. c = control s)) (modify (\<lambda>s. s\<lparr>st_update_generation := generation, st_update_bank := bank\<rparr>))
      (\<lambda>_. holding K C (\<lambda>c. c = ?c)) (holding K C (store_inv repair))"
  proof (rule after_modify_holding)
    show "control (t\<lparr>st_update_generation := generation, st_update_bank := bank\<rparr>) = ?c" if "control t = control s" for t
      using that by (simp add: control_def)
  qed simp
  have inv: "store_inv repair ?c"
    using s by (cases repair) (simp_all add: ready_def safe_def store_inv_def base_inv_def)
  show "after (holding K C (\<lambda>c. c = ?c)) (proceed (on_failure (require (\<not> target_is_pinned s bank) StBankPinned) reset_generation) f)
      Q (holding K C (store_inv repair))" for u :: unit
  proof (rule after_guarded_fail)
    show "after (holding K C (\<lambda>c. c = ?c)) reset_generation (\<lambda>_. holding K C (store_inv repair)) (holding K C (store_inv repair))"
      by (rule after_weaken [OF keeps_reset_generation [of K C "\<lambda>c. c = ?c"]]) (use inv in \<open>auto simp: holding_def\<close>)
    assume "\<not> target_is_pinned s bank"
    then have free: "free_bank (control s) bank" using target target_free by blast
    moreover have "bank \<notin> K" using not_protected [OF free] s by (auto simp: ready_def)
    ultimately show "after (holding K C (\<lambda>c. c = ?c)) (f ()) Q (holding K C (store_inv repair))"
      using aim [OF s free] by (intro after_pre [OF f]) simp_all
  qed
qed

lemma after_begin_new:
  "after (holding K C (safe repair K)) (begin_new_update plan) (\<lambda>_. holding K C (store_inv repair)) (holding K C (store_inv repair))"
  unfolding begin_new_update_def
  by (intro after_guarded after_with_control after_scanning after_chosen_pair after_aiming [where plan = plan] after_begin_on_bank)
    (auto simp: holding_def safe_def ready_inv bank_of_control)

lemma after_read_here:
  assumes "ready repair K (control s)" "keeps (holding K C (\<lambda>c. c = control s)) m"
    "\<And>a. after (holding K C (\<lambda>c. c = control s)) (f a) Q (holding K C (store_inv repair))"
  shows "after (holding K C (\<lambda>c. c = control s)) (proceed m f) Q (holding K C (store_inv repair))"
  by (rule after_step [OF after_weaken [OF assms(2)] assms(3)]) (use assms(1) in \<open>auto simp: ready_here\<close>)

lemma after_begin_or_resume_on:
  assumes ready: "ready repair K (control s)" and free: "free_bank (control s) bank"
  shows "after (holding K C (\<lambda>c. c = control s)) (begin_or_resume_on plan selection generation bank)
    (\<lambda>_. holding K C (store_inv repair)) (holding K C (store_inv repair))"
proof -
  let ?I = "holding K C (store_inv repair)" and ?P = "holding K C (\<lambda>c. c = control s)"
  note step = after_read_here [OF ready]
  have new: "after ?P (begin_new_update plan) (\<lambda>_. ?I) ?I"
    using ready by (intro after_pre [OF after_begin_new [of K C repair plan]]) (simp add: ready_def)
  have load: "after ?P (load_staging_header bank tid) (\<lambda>_. ?I) ?I" for tid
    by (rule after_weaken [OF after_load_header [of K C repair bank tid]]) (use ready free in \<open>auto simp: holding_def ready_inv\<close>)
  show ?thesis
    unfolding begin_or_resume_on_def
    by (rule step, intro keeps_steps, rule after_if, rule new, rule step, intro keeps_rules keeps_steps, rule after_if, rule new,
        rule step, intro keeps_steps, intro after_prod, rule step, intro keeps_steps, rule after_guarded, rule ready_here [OF _ ready], assumption,
        rule after_if, rule new, rule after_guarded, rule ready_here [OF _ ready], assumption,
        rule after_step [OF load], intro keeps_rules)
qed

lemma after_begin_or_resume:
  "after (holding K C (safe repair K)) (begin_or_resume_update plan) (\<lambda>_. holding K C (store_inv repair)) (holding K C (store_inv repair))"
  unfolding begin_or_resume_update_def
  by (intro after_guarded after_with_control after_if after_scanning after_chosen_pair after_begin_or_resume_on target_free)
    (auto intro: after_give after_refuse simp: holding_def safe_def ready_inv bank_of_control)


section \<open>Resuming, repair and queries\<close>

lemma invalid_free:
  assumes "ready repair K (control s)" "\<not> sb_valid (snapshot_for_bank (st_selection s) bank)" "\<not> target_is_pinned s bank"
  shows "free_bank (control s) bank"
proof -
  have "selection_ok (st_selection s)" using assms(1) by (simp add: ready_def safe_def store_inv_def base_inv_def bank_of_control)
  then show ?thesis
    using assms(2,3) by (auto simp: free_bank_def target_is_pinned_iff bank_of_control selection_ok_def active_banks_def split: if_splits)
qed

lemma after_resume_candidates:
  "after (holding K C (ready repair K)) (resume_candidates tid candidates) (\<lambda>_. holding K C (store_inv repair)) (holding K C (store_inv repair))"
proof (induction candidates)
  case Nil
  then show ?case by (auto intro: after_refuse simp: holding_def ready_inv)
next
  case (Cons bank rest)
  let ?I = "holding K C (store_inv repair)" and ?R = "holding K C (ready repair K)"
  show ?case
    unfolding resume_candidates.simps
  proof (rule after_with_control, rule after_if)
    fix s assume ready: "ready repair K (control s)"
    show "after (holding K C (\<lambda>c. c = control s)) (resume_candidates tid rest) (\<lambda>_. ?I) ?I"
      using ready by (intro after_pre [OF Cons.IH]) simp
    assume "\<not> (sb_valid (snapshot_for_bank (st_selection s) bank) \<or> target_is_pinned s bank)"
    then have free: "free_bank (control s) bank" using invalid_free [OF ready] by simp
    have load: "after (holding K C (\<lambda>c. c = control s)) (load_staging_header bank tid) (\<lambda>_. ?I) ?R"
      by (rule after_pre [OF after_load_header]) (use ready free in simp)
    have "after ?R (if e = StTransactionMismatch \<or> e = StInvalidBank then resume_candidates tid rest else refuse e) (\<lambda>_. ?I) ?I" for e
      by (rule after_if, rule Cons.IH, rule after_refuse) (auto simp: holding_def dest: ready_inv)
    then show "after (holding K C (\<lambda>c. c = control s)) (do {
       r \<leftarrow> load_staging_header bank tid;
       case r of
         Inl e \<Rightarrow> if e = StTransactionMismatch \<or> e = StInvalidBank then resume_candidates tid rest else refuse e
       | Inr _ \<Rightarrow> with_store (\<lambda>s. give (identity_of s)) }) (\<lambda>_. ?I) ?I"
      by (intro after_bind [OF load]) (simp_all, intro keeps_rules)
  qed
qed

lemma after_resume:
  "after (holding K C (safe repair K)) (resume_update tid) (\<lambda>_. holding K C (store_inv repair)) (holding K C (store_inv repair))"
  unfolding resume_update_def
  by (intro after_guarded after_with_control after_scanning after_pre [OF after_resume_candidates])
    (auto simp: holding_def safe_def ready_inv bank_of_control)

lemma selection_emptied_ok:
  "selection_ok sl \<Longrightarrow> selection_ok (select_sound_banks (sl_bank_a (empty_bank_snapshot bank sl)) (sl_bank_b (empty_bank_snapshot bank sl)))"
  by (rule select_ok; cases bank) (simp_all add: selection_ok_def empty_bank_snapshot_def empty_snapshot_def)

lemma after_after_discard:
  "after (holding K C (ready True K)) (after_discard bank) (\<lambda>_. holding K C (store_inv True)) (holding K C (store_inv True))"
  unfolding after_discard_def Let_def
proof (intro after_with_control after_step [where R = "holding K C (store_inv True)"] keeps_simple)
  fix s assume "ready True K (control s)"
  then have s: "selection_ok (st_selection s)" "\<not> st_update_active s"
    by (simp_all add: ready_def safe_def store_inv_def base_inv_def bank_of_control)
  let ?sl = "select_sound_banks (sl_bank_a (empty_bank_snapshot bank (st_selection s))) (sl_bank_b (empty_bank_snapshot bank (st_selection s)))"
  show "after (holding K C (\<lambda>c. c = control s)) (modify (\<lambda>s. s\<lparr>st_selection := ?sl, st_scanned := True, st_read_selection := empty_selection,
         st_read_selection_scanned := False, st_read_selection_result := Inl StUnavailable\<rparr>))
     (\<lambda>_. holding K C (store_inv True)) (holding K C (store_inv True))"
  proof (rule after_modify_holding)
    fix t assume "control t = control s"
    then show "store_inv True (control (t\<lparr>st_selection := ?sl, st_scanned := True, st_read_selection := empty_selection,
         st_read_selection_scanned := False, st_read_selection_result := Inl StUnavailable\<rparr>))"
      using s selection_emptied_ok [OF s(1)] by (simp add: control_def store_inv_def base_inv_def)
  qed simp
qed

lemma after_forget:
  "(\<And>c. X c \<Longrightarrow> store_inv repair c) \<Longrightarrow>
     after (holding K C X) (modify forget_selections) (\<lambda>_. holding K C (store_inv repair)) E"
  by (rule after_modify_holding) (auto simp: control_forget store_inv_def base_inv_def)

lemma after_discard_on_bank:
  assumes ready: "ready True K (control s)" and free: "free_bank (control s) bank"
  shows "after (holding K C (\<lambda>c. c = control s)) (discard_on_bank bank)
    (\<lambda>_. holding K C (store_inv True)) (holding K C (store_inv True))"
proof -
  let ?I = "holding K C (store_inv True)" and ?P = "holding K C (\<lambda>c. c = control s)"
  have bank: "bank \<notin> K" using not_protected [OF free] ready by (auto simp: ready_def)
  have PI: "?P t \<Longrightarrow> ?I t" for t using ready_here [OF _ ready] .
  have forget: "after ?P (modify forget_selections) (\<lambda>_. ?I) ?I"
    using ready by (intro after_forget) (simp add: ready_inv)
  have discard: "after ?P (after_discard bank) (\<lambda>_. ?I) ?I"
    using ready by (intro after_pre [OF after_after_discard]) simp
  have erase: "after ?P (proceed (on_failure (map_error map_io (bank_erase bank 0 kSoundBankSize)) (modify forget_selections)) (\<lambda>_.
           proceed (on_failure (verify_region_erased bank 0 kSoundBankSize) (modify forget_selections)) (\<lambda>_.
           after_discard bank))) (\<lambda>_. ?I) ?I"
    by (rule after_fail [OF _ forget], intro keeps_rules keeps_steps bank, rule after_fail [OF _ forget], intro keeps_steps, rule discard)
  have keep: "after ?P (proceed (derive_transaction_id p bank g) (\<lambda>t. require (t \<noteq> t') StBusy)) (\<lambda>_. ?I) ?I" for p g t'
    by (rule after_weaken [of ?P _ "\<lambda>_. ?P" ?P], intro keeps_rules keeps_steps) (simp_all add: PI)
  show ?thesis
    unfolding discard_on_bank_def
    by (rule after_read_here [OF ready], intro keeps_rules keeps_steps, rule after_if, rule after_give, rule PI, assumption,
        rule after_bind [where R = "\<lambda>_. ?P" and F = ?P], intro keeps_steps)
      (auto simp: PI intro!: after_refuse erase keep)
qed

lemma after_discard_invalid:
  "after (holding K C (safe True K)) (discard_invalid_staging plan) (\<lambda>_. holding K C (store_inv True)) (holding K C (store_inv True))"
  unfolding discard_invalid_staging_def
  by (intro after_guarded after_with_control after_scanning after_chosen_pair after_discard_on_bank target_free)
    (auto simp: holding_def safe_def ready_inv bank_of_control)

lemma keeps_scan: "keeps (holding K C (store_inv repair)) scan"
proof (rule afterI)
  fix s s' r assume "holding K C (store_inv repair) s" and run: "run_state scan s = (r, s')"
  then have "holding K C (\<lambda>c. store_inv repair c \<and> ct_leases c = ct_leases (control s)) s" by (simp add: holding_def)
  from afterD [OF after_scan this run] show "case r of Inl e \<Rightarrow> holding K C (store_inv repair) s' | Inr a \<Rightarrow> holding K C (store_inv repair) s'"
    by (auto simp: holding_def split: sum.splits)
qed

lemma keeps_outcome: "keeps (holding K C (store_inv repair)) (query_transaction_outcome tid)"
  unfolding query_transaction_outcome_def scan_unless_scanned_def by (intro keeps_rules keeps_scan)

section \<open>Publishing\<close>

abbreviation closed :: "StoreControl \<Rightarrow> StoreControl" where
  "closed c \<equiv> c\<lparr>ct_active := False, ct_bank := BankA\<rparr>"

text \<open>
  What holds whatever the open update aims at: the store would be sound if the update were closed.
  \<open>X\<close> stands for the invariant under which an operation is called.
\<close>

definition idle_inv :: "bool \<Rightarrow> StoreControl \<Rightarrow> bool" where
  "idle_inv repair c \<longleftrightarrow> store_inv repair (closed c)"

lemma idle_of_store: "store_inv repair c \<Longrightarrow> idle_inv repair c"
  by (simp add: idle_inv_def store_inv_closed)

lemma store_of_idle: "idle_inv repair c \<Longrightarrow> \<not> ct_active c \<Longrightarrow> store_inv repair c"
  by (simp add: idle_inv_def store_inv_def base_inv_def)

lemma after_refresh:
  assumes "\<And>c. X c \<Longrightarrow> idle_inv repair c"
  shows "after (holding K C X) refresh_selection_after_commit (\<lambda>_. holding K C (idle_inv repair)) (holding K C X)"
  unfolding refresh_selection_after_commit_def Let_def
proof (rule after_inspect_both)
  fix a b :: SoundBankSnapshot and ra rb :: StoreStatus
  assume ab: "sb_valid a \<Longrightarrow> sb_bank a = BankA" "sb_valid b \<Longrightarrow> sb_bank b = BankB"
  have "idle_inv repair (control (publish_selection (select_sound_banks a b) r t))" if "X (control t)" for r t
    using assms [OF that] select_ok [of a b] ab by (simp add: control_publish store_inv_def base_inv_def idle_inv_def)
  then have "after (holding K C X) (modify (publish_selection (select_sound_banks a b) r))
      (\<lambda>_. holding K C (idle_inv repair)) (holding K C X)" for r
    by (intro after_modify_holding) simp_all
  then show "after (holding K C X) (with_store (\<lambda>s.
     if \<not> sl_active_valid (select_sound_banks a b) \<or> sl_split_brain (select_sound_banks a b) \<or>
        sb_bank (sl_active (select_sound_banks a b)) \<noteq> st_update_bank s \<or>
        sb_generation (sl_active (select_sound_banks a b)) \<noteq> st_update_generation s
     then refuse (if sl_split_brain (select_sound_banks a b) then StSplitBrain else StInvalidBank)
     else modify (publish_selection (select_sound_banks a b) (Inr ()))))
    (\<lambda>_. holding K C (idle_inv repair)) (holding K C X)"
    by (intro after_with_any after_if) (auto intro!: after_refuse simp: holding_def)
qed simp

lemma after_clear_closed: "after (holding K C (idle_inv repair)) clear_update_state (\<lambda>_. holding K C (store_inv repair)) E"
  by (rule after_clear) (simp add: idle_inv_def)

lemma after_keeping:
  assumes "X (control s)" "keeps (holding K C (\<lambda>c. c = control s)) m"
    "\<And>a. after (holding K C (\<lambda>c. c = control s)) (f a) Q (holding K C X)"
  shows "after (holding K C (\<lambda>c. c = control s)) (proceed m f) Q (holding K C X)"
  by (rule after_step [OF after_weaken [OF assms(2)] assms(3)]) (use assms(1) in \<open>auto simp: holding_def\<close>)

lemma open_bank_free: "safe repair K c \<Longrightarrow> ct_active c \<Longrightarrow> ct_bank c \<notin> K"
  by (cases repair) (auto simp: safe_def store_inv_def base_inv_def protected_banks_def)

lemma update_bank_free: "(\<And>c. X c \<Longrightarrow> ct_active c \<Longrightarrow> ct_bank c \<notin> K) \<Longrightarrow> X (control s) \<Longrightarrow> st_update_active s \<Longrightarrow> st_update_bank s \<notin> K"
  using bank_of_control by metis

lemma still_here: "X (control s) \<Longrightarrow> holding K C (\<lambda>c. c = control s) t \<Longrightarrow> holding K C X t"
  by (simp add: holding_def)

lemma safe_store_inv: "safe repair K c \<Longrightarrow> store_inv repair c"
  by (simp add: safe_def)

lemma after_publishing:
  assumes "\<And>c. X c \<Longrightarrow> idle_inv repair c" "X (control s)"
  shows "after (holding K C (\<lambda>c. c = control s))
     (proceed refresh_selection_after_commit (\<lambda>_. clear_update_state)) (\<lambda>_. holding K C (store_inv repair)) (holding K C X)"
  by (rule after_pre [OF after_step [OF after_refresh after_clear_closed]]) (use assms in auto)

lemma after_commit:
  assumes idle: "\<And>c. X c \<Longrightarrow> idle_inv repair c" and free: "\<And>c. X c \<Longrightarrow> ct_active c \<Longrightarrow> ct_bank c \<notin> K"
  shows "after (holding K C X) commit_update (\<lambda>_. holding K C (store_inv repair)) (holding K C X)"
  unfolding commit_update_def Let_def
  by (rule after_with_control, rule after_guarded, rule still_here, assumption, assumption,
      rule after_keeping, assumption, intro keeps_steps, rule after_keeping, assumption, intro keeps_steps,
      rule after_keeping, assumption, intro keeps_rules keeps_steps, rule after_keeping, assumption, intro keeps_rules keeps_steps,
      intro after_prod after_guarded, rule still_here, assumption, assumption,
      rule after_keeping, assumption, intro keeps_steps,
      rule after_keeping, assumption, intro keeps_steps, rule update_bank_free [OF free], assumption, assumption, assumption, assumption,
      rule after_keeping, assumption, intro keeps_steps, rule update_bank_free [OF free], assumption, assumption, assumption, assumption,
      rule after_keeping, assumption, intro keeps_rules keeps_steps,
      rule after_guarded, rule still_here, assumption, assumption, rule after_publishing [OF idle])

lemma after_abort:
  assumes idle: "\<And>c. X c \<Longrightarrow> idle_inv repair c" and free: "\<And>c. X c \<Longrightarrow> ct_active c \<Longrightarrow> ct_bank c \<notin> K"
  shows "after (holding K C X) abort_update (\<lambda>_. holding K C (store_inv repair)) (holding K C X)"
  unfolding abort_update_def Let_def
proof (rule after_with_control, rule after_if, rule after_give)
  show "holding K C (store_inv repair) t"
    if "X (control s)" "\<not> st_update_active s" "holding K C (\<lambda>c. c = control s) t" for s t
    using that store_of_idle [OF idle [OF that(1)]] by (simp add: holding_def bank_of_control)
  fix s assume s: "X (control s)" and "\<not> \<not> st_update_active s"
  then have bank: "st_update_bank s \<notin> K" using update_bank_free [where X = X, OF free] by simp
  note keep = after_keeping [where X = X, OF s] and here = still_here [where X = X, OF s]
  let ?P = "holding K C (\<lambda>c. c = control s)" and ?I = "holding K C (store_inv repair)" and ?X = "holding K C X"
  have published: "after ?P (proceed (require b e) (\<lambda>_. proceed refresh_selection_after_commit (\<lambda>_. clear_update_state))) (\<lambda>_. ?I) ?X" for b e
    by (rule after_guarded, erule here, rule after_publishing [where X = X, OF idle s])
  have clear: "after ?P clear_update_state (\<lambda>_. ?I) ?X"
    by (rule after_clear) (use idle [OF s] in \<open>simp add: idle_inv_def\<close>)
  have erased: "after ?P (proceed (require b e) (\<lambda>_. proceed (map_error map_io (bank_erase (st_update_bank s) kSoundStagingHeaderOffset kSoundSectorSize))
        (\<lambda>_. clear_update_state))) (\<lambda>_. ?I) ?X" for b e
    by (rule after_guarded, erule here, rule keep, intro keeps_rules keeps_steps bank, rule clear)
  show "after ?P (do {
       committed_result \<leftarrow> validate_sound_bank (st_update_bank s);
       case committed_result of
         Inr committed \<Rightarrow>
           proceed (require (\<not> (sb_generation committed \<noteq> st_update_generation s \<or>
               sb_transaction_id committed \<noteq> st_update_transaction_id s \<or>
               \<not> sound_digest_equal (sb_bundle_sha256 committed) (bp_bundle_sha256 (st_update_plan s)))) StTransactionMismatch) (\<lambda>_.
           proceed refresh_selection_after_commit (\<lambda>_. clear_update_state))
       | Inl (e, _) \<Rightarrow>
           proceed (require (\<not> (e = StUnavailable \<or> e = StIoError)) e) (\<lambda>_.
           proceed (map_error map_io (bank_erase (st_update_bank s) kSoundStagingHeaderOffset kSoundSectorSize)) (\<lambda>_.
           clear_update_state)) }) (\<lambda>_. ?I) ?X"
    by (rule after_bind [where R = "\<lambda>_. ?P" and F = ?P], intro keeps_steps)
      (auto simp del: not_not intro!: after_prod published erased)
qed

text \<open>
  A query may find that the bank of the open update holds a commit; if it is not the update's own,
  the update stays open on what is now the active bank.
\<close>

definition on_active_bank :: "SoundAssetStore \<Rightarrow> bool" where
  "on_active_bank s \<longleftrightarrow> st_update_active s \<and> sl_active_valid (st_selection s) \<and> sb_bank (sl_active (st_selection s)) = st_update_bank s"

definition own_commit :: "SoundAssetStore \<Rightarrow> SoundBankSnapshot \<Rightarrow> bool" where
  "own_commit s snapshot \<longleftrightarrow> sb_generation snapshot = st_update_generation s \<and>
     sb_transaction_id snapshot = st_update_transaction_id s \<and>
     sound_digest_equal (sb_bundle_sha256 snapshot) (bp_bundle_sha256 (st_update_plan s))"

definition foreign_commit :: "SoundAssetStore \<Rightarrow> bool" where
  "foreign_commit s \<longleftrightarrow> on_active_bank s \<and> \<not> own_commit s (sl_active (st_selection s))"

definition settled :: "bool \<Rightarrow> SoundAssetStore \<Rightarrow> bool" where
  "settled repair s \<longleftrightarrow> idle_inv repair (control s) \<and> (\<not> foreign_commit s \<longrightarrow> store_inv repair (control s))"

lemma settled_store: "store_inv repair (control s) \<Longrightarrow> settled repair s"
  by (simp add: settled_def idle_of_store)

text \<open>A query keeps the weaker invariant; called under the stronger one, it leaves the store settled.\<close>

definition query_inv :: "bool \<Rightarrow> bool \<Rightarrow> StoreControl \<Rightarrow> bool" where
  "query_inv strict repair c \<longleftrightarrow> idle_inv repair c \<and> (strict \<longrightarrow> store_inv repair c)"

definition query_end :: "bool \<Rightarrow> bool \<Rightarrow> SoundBankId set \<Rightarrow> (SoundBankId \<Rightarrow> bytes) \<Rightarrow> SoundAssetStore \<Rightarrow> bool" where
  "query_end strict repair K C s \<longleftrightarrow> holding K C (idle_inv repair) s \<and> (strict \<longrightarrow> settled repair s)"

lemma query_end_kept: "holding K C (query_inv strict repair) s \<Longrightarrow> query_end strict repair K C s"
  by (auto simp: query_end_def query_inv_def holding_def settled_store)

lemma query_end_closed: "holding K C (store_inv repair) s \<Longrightarrow> query_end strict repair K C s"
  by (simp add: query_end_def holding_def settled_store idle_of_store)

lemma published_inv:
  assumes "selection_ok sl" "store_inv repair (control s)" "\<not> on_active_bank (publish_selection sl r s)"
  shows "store_inv repair (control (publish_selection sl r s))"
proof -
  have "ct_bank (control s) \<notin> active_banks sl" if "ct_active (control s)"
    using assms(3) that by (auto simp: on_active_bank_def publish_selection_def active_banks_def bank_of_control)
  then show ?thesis using assms(1,2) by (simp add: control_publish store_inv_def base_inv_def)
qed

lemma after_query:
  "after (holding K C (query_inv strict repair)) query_current_active
     (\<lambda>_. query_end strict repair K C) (query_end strict repair K C)"
proof -
  let ?P = "holding K C (query_inv strict repair)" and ?E = "query_end strict repair K C"
  let ?M = "\<lambda>sl s. holding K C (idle_inv repair) s \<and> st_selection s = sl \<and>
      (strict \<and> \<not> on_active_bank s \<longrightarrow> store_inv repair (control s))"
  have forget: "after ?P (modify forget_selections) (\<lambda>_. ?E) ?E"
    by (rule after_modify, rule query_end_kept)
      (auto simp: holding_def query_inv_def idle_inv_def control_forget store_inv_def base_inv_def)
  have inspect: "after ?P (on_failure (inspect_bank bank) (modify forget_selections))
      (\<lambda>a s. ?P s \<and> (sb_valid (fst a) \<longrightarrow> sb_bank (fst a) = bank)) ?E" for bank
    by (rule after_on_failure [OF after_inspect forget])
  have publish: "after ?P (modify (publish_selection (select_sound_banks a b) r)) (\<lambda>_. ?M (select_sound_banks a b)) ?E"
    if ab: "sb_valid a \<Longrightarrow> sb_bank a = BankA" "sb_valid b \<Longrightarrow> sb_bank b = BankB" for a b r
  proof (rule after_modify)
    fix s assume s: "?P s"
    have ok: "selection_ok (select_sound_banks a b)" using select_ok [of a b] ab by blast
    let ?c = "control (publish_selection (select_sound_banks a b) r s)"
    have "idle_inv repair ?c"
      using s ok by (simp add: holding_def query_inv_def control_publish idle_inv_def store_inv_def base_inv_def)
    moreover have "store_inv repair ?c" if "strict" "\<not> on_active_bank (publish_selection (select_sound_banks a b) r s)"
      using published_inv [OF ok _ that(2)] s that(1) by (simp add: holding_def query_inv_def)
    ultimately show "?M (select_sound_banks a b) (publish_selection (select_sound_banks a b) r s)"
      using s by (simp add: holding_def publish_selection_def)
  qed
  have final: "after (?M sl) (with_store (\<lambda>s. proceed
      (if st_update_active s \<and> sl_active_valid sl \<and> sb_bank (sl_active sl) = st_update_bank s \<and>
          sb_generation (sl_active sl) = st_update_generation s
       then if sb_transaction_id (sl_active sl) \<noteq> st_update_transaction_id s \<or>
               \<not> sound_digest_equal (sb_bundle_sha256 (sl_active sl)) (bp_bundle_sha256 (st_update_plan s))
            then refuse StTransactionMismatch else clear_update_state
       else give ()) (\<lambda>_. give x))) (\<lambda>_. ?E) ?E" for sl and x :: SoundBankSnapshot
  proof (rule after_with_store, rule after_step)
    fix s assume M: "?M sl s"
    then have "?E s" if "\<not> on_active_bank s \<or> \<not> own_commit s (sl_active sl)"
      using that by (auto simp: query_end_def settled_def foreign_commit_def holding_def)
    moreover have "after (\<lambda>t. t = s) clear_update_state (\<lambda>_. ?E) ?E"
      by (rule after_weaken [OF after_clear_closed [of K C repair ?E]]) (use M in \<open>auto simp: query_end_closed\<close>)
    ultimately show "after (\<lambda>t. t = s)
      (if st_update_active s \<and> sl_active_valid sl \<and> sb_bank (sl_active sl) = st_update_bank s \<and>
          sb_generation (sl_active sl) = st_update_generation s
       then if sb_transaction_id (sl_active sl) \<noteq> st_update_transaction_id s \<or>
               \<not> sound_digest_equal (sb_bundle_sha256 (sl_active sl)) (bp_bundle_sha256 (st_update_plan s))
            then refuse StTransactionMismatch else clear_update_state
       else give ()) (\<lambda>_. ?E) ?E"
      using M by (intro after_if after_refuse after_give) (auto simp: on_active_bank_def own_commit_def)
  qed (rule after_give, assumption)
  show ?thesis
    unfolding query_current_active_def Let_def
    by (rule after_both [OF inspect inspect], rule after_if, rule after_step [OF forget], rule after_refuse, assumption,
        rule after_step [OF publish], assumption, assumption, rule final)
qed

section \<open>Leases\<close>

lemma keeps_inspect_commit: "keeps (holding K C X) (inspect_commit bank)"
  unfolding inspect_commit_def by (intro keeps_rules keeps_steps)

lemma keeps_candidate: "keeps (holding K C X) (validate_candidate sn)"
  unfolding validate_candidate_def by (intro keeps_rules keeps_steps)

lemma after_publish_read:
  "after (holding K C (\<lambda>c. store_inv repair c \<and> \<not> ct_active c \<and> (\<not> repair \<longrightarrow> \<not> ct_scanned c))) (publish_read_selection selection r)
     (\<lambda>_. holding K C (\<lambda>c. store_inv repair c \<and> ct_read_scanned c)) (holding K C (store_inv repair))"
  unfolding publish_read_selection_def
proof (rule after_step)
  let ?I = "holding K C (store_inv repair)" and ?Q = "holding K C (\<lambda>c. store_inv repair c \<and> ct_read_scanned c)"
  show "after (holding K C (\<lambda>c. store_inv repair c \<and> \<not> ct_active c \<and> (\<not> repair \<longrightarrow> \<not> ct_scanned c)))
     (modify (\<lambda>s. s\<lparr>st_read_selection := selection, st_read_selection_scanned := True, st_read_selection_result := r\<rparr>)) (\<lambda>_. ?Q) ?I"
    by (rule after_modify_holding) (auto simp: control_def store_inv_def base_inv_def)
  show "after ?Q (State_Monad.return r) (\<lambda>_. ?Q) ?I" for u :: unit
    by (rule after_return) (auto simp: holding_def split: sum.splits)
qed

lemma after_fast_scan:
  "after (holding K C (\<lambda>c. store_inv repair c \<and> \<not> ct_read_scanned c)) scan_committed_content
     (\<lambda>_. holding K C (\<lambda>c. store_inv repair c \<and> ct_read_scanned c)) (holding K C (store_inv repair))"
proof -
  let ?N = "holding K C (\<lambda>c. store_inv repair c \<and> \<not> ct_active c \<and> (\<not> repair \<longrightarrow> \<not> ct_scanned c))"
  let ?I = "holding K C (store_inv repair)" and ?Q = "holding K C (\<lambda>c. store_inv repair c \<and> ct_read_scanned c)"
  have NI: "?N s \<Longrightarrow> ?I s" for s by (simp add: holding_def)
  have step: "after ?N (proceed m f) Q ?I" if "keeps ?N m" "\<And>a. after ?N (f a) Q ?I" for m :: "'a store_op" and f :: "'a \<Rightarrow> 'b store_op" and Q
    by (rule after_step [OF after_weaken [OF that(1)] that(2)]) (simp_all add: NI)
  have reset: "after (holding K C (\<lambda>c. c = control s)) (modify (\<lambda>s. s\<lparr>st_read_selection_scanned := False,
      st_read_selection_result := Inl StUnavailable, st_read_selection := empty_selection\<rparr>)) (\<lambda>_. ?N) ?I"
    if s: "store_inv repair (control s) \<and> \<not> ct_read_scanned (control s)" "\<not> st_update_active s" for s
  proof (rule after_modify_holding)
    fix t assume t: "control t = control s"
    have "control (t\<lparr>st_read_selection_scanned := False, st_read_selection_result := Inl StUnavailable, st_read_selection := empty_selection\<rparr>) =
        (control s)\<lparr>ct_read_scanned := False, ct_read_selection := empty_selection\<rparr>"
      using t by (simp add: control_def)
    then show "store_inv repair (control (t\<lparr>st_read_selection_scanned := False, st_read_selection_result := Inl StUnavailable,
        st_read_selection := empty_selection\<rparr>)) \<and> \<not> ct_active (control (t\<lparr>st_read_selection_scanned := False,
        st_read_selection_result := Inl StUnavailable, st_read_selection := empty_selection\<rparr>)) \<and>
      (\<not> repair \<longrightarrow> \<not> ct_scanned (control (t\<lparr>st_read_selection_scanned := False, st_read_selection_result := Inl StUnavailable,
        st_read_selection := empty_selection\<rparr>)))"
      using s by (auto simp: store_inv_def base_inv_def bank_of_control)
  qed simp
  show ?thesis
    unfolding scan_committed_content_def Let_def
    by (rule after_with_control, rule after_guarded, simp add: holding_def, rule after_step [OF reset], assumption, assumption,
        rule step, intro keeps_inspect_commit, intro after_prod, rule step, intro keeps_inspect_commit, intro after_prod after_if,
        rule after_publish_read, rule step, intro keeps_rules keeps_candidate, rule after_publish_read)
qed

lemma leased_update: "leased_banks (leases[i := lease]) \<subseteq> leased_banks leases \<union> (if rl_valid lease then {rl_bank lease} else {})"
proof -
  have "set (leases[i := lease]) \<subseteq> insert lease (set leases)" by (rule set_update_subset_insert)
  then show ?thesis by (auto simp: leased_banks_def)
qed

lemma after_acquire: "after (holding K C (store_inv repair)) acquire_active_read (\<lambda>_. holding K C (store_inv repair)) (holding K C (store_inv repair))"
proof -
  let ?I = "holding K C (store_inv repair)" and ?Q = "holding K C (\<lambda>c. store_inv repair c \<and> ct_read_scanned c)"
  have scan: "after (holding K C (\<lambda>c. c = control s)) (if \<not> st_read_selection_scanned s then scan_committed_content else give ()) (\<lambda>_. ?Q) ?I"
    if "store_inv repair (control s)" for s
    using that
    by (intro after_if after_pre [OF after_fast_scan] after_give) (auto simp: bank_of_control holding_def)
  have lease: "after (holding K C (\<lambda>c. c = control s)) (modify (\<lambda>t. t\<lparr>st_read_leases := (st_read_leases t)[slot := lease],
         st_next_read_lease_id := n\<rparr>)) (\<lambda>_. ?I) ?I"
    if s: "store_inv repair (control s) \<and> ct_read_scanned (control s)" "sl_active_valid (st_read_selection s)"
      and bank: "rl_bank lease = sb_bank (sl_active (st_read_selection s))" for s slot lease n
  proof (rule after_modify_holding)
    fix t assume t: "control t = control s"
    have "control (t\<lparr>st_read_leases := (st_read_leases t)[slot := lease], st_next_read_lease_id := n\<rparr>) =
        (control s)\<lparr>ct_leases := (ct_leases (control s))[slot := lease]\<rparr>"
      using t by (simp add: control_def)
    moreover have "rl_bank lease \<in> active_banks (ct_read_selection (control s))"
      using s(2) bank by (simp add: active_banks_def bank_of_control)
    ultimately show "store_inv repair (control (t\<lparr>st_read_leases := (st_read_leases t)[slot := lease], st_next_read_lease_id := n\<rparr>))"
      using s(1) leased_update [of "ct_leases (control s)" slot lease]
      by (auto simp: store_inv_def base_inv_def split: if_splits)
  qed simp
  have I: "holding K C (\<lambda>c. c = control s) t \<Longrightarrow> store_inv repair (control s) \<and> ct_read_scanned (control s) \<Longrightarrow> ?I t" for s t
    by (simp add: holding_def)
  show ?thesis
    unfolding acquire_active_read_def Let_def
    by (rule after_with_control, rule after_step [OF scan], assumption, rule after_with_control,
        rule after_chosen, erule I, assumption, rule after_guarded, erule I, assumption,
        rule after_keeping, erule conjunct1, intro keeps_rules, rule after_guarded, erule I, assumption,
        rule after_step [OF lease], assumption, assumption, simp, intro keeps_rules)
qed

lemma control_leases: "control (s\<lparr>st_read_leases := leases\<rparr>) = (control s)\<lparr>ct_leases := leases\<rparr>"
  by (simp add: control_def)

lemma after_release:
  assumes "\<And>c i. X c \<Longrightarrow> X (c\<lparr>ct_leases := (ct_leases c)[i := empty_lease]\<rparr>)"
  shows "keeps (holding K C X) (release_read lease)"
proof -
  have "keeps (holding K C X) (modify (\<lambda>s. s\<lparr>st_read_leases := (st_read_leases s)[i := empty_lease]\<rparr>))" for i
    using assms by (intro after_modify_holding) (auto simp: control_leases simp flip: bank_of_control(5))
  then show ?thesis
    unfolding release_read_def by (intro keeps_rules)
qed

lemma store_inv_released: "store_inv repair c \<Longrightarrow> store_inv repair (c\<lparr>ct_leases := (ct_leases c)[i := empty_lease]\<rparr>)"
  using leased_update [of "ct_leases c" i empty_lease]
  by (cases repair) (auto simp: store_inv_def base_inv_def empty_lease_def split: if_splits)

section \<open>An update left open on a foreign commit\<close>

definition astray :: "bool \<Rightarrow> SoundBankId set \<Rightarrow> StoreControl \<Rightarrow> bool" where
  "astray repair K c \<longleftrightarrow> idle_inv repair c \<and> ct_active c \<and> ct_bank c \<notin> K"

lemma idle_leases [simp]: "idle_inv repair (c\<lparr>ct_leases := leases\<rparr>) \<longleftrightarrow> idle_inv repair c"
  by (simp add: idle_inv_def store_inv_def base_inv_def)

lemma astray_leases [simp]: "astray repair K (c\<lparr>ct_leases := leases\<rparr>) \<longleftrightarrow> astray repair K c"
  by (simp add: astray_def)

lemma astray_acquire: "keeps (holding K C (astray repair K)) acquire_active_read"
proof -
  let ?X = "holding K C (astray repair K)"
  have scan: "keeps ?X (if \<not> st_read_selection_scanned s then scan_committed_content else give ())" for s
    unfolding scan_committed_content_def
    by (intro after_if keeps_with_control keeps_guarded keeps_simple) (auto simp: astray_def bank_of_control)
  have lease: "keeps ?X (modify (\<lambda>t. t\<lparr>st_read_leases := (st_read_leases t)[slot := lease], st_next_read_lease_id := n\<rparr>))" for slot lease n
  proof (rule after_modify_holding)
    have "control (t\<lparr>st_read_leases := ls, st_next_read_lease_id := n\<rparr>) = (control t)\<lparr>ct_leases := ls\<rparr>" for t ls
      by (simp add: control_def)
    then show "astray repair K (control (t\<lparr>st_read_leases := (st_read_leases t)[slot := lease], st_next_read_lease_id := n\<rparr>))"
      if "astray repair K (control t)" for t
      using that by simp
  qed simp
  show ?thesis
    unfolding acquire_active_read_def Let_def
    by (intro keeps_rules scan lease)
qed

text \<open>What an operation that refuses at once leaves unchanged.\<close>

lemma busy_unchanged:
  assumes "st_update_active s"
  shows "snd (run_state scan s) = s" "snd (run_state (resume_update tid) s) = s" "snd (run_state (discard_invalid_staging plan) s) = s"
    "snd (run_state (begin_or_resume_update plan) s) = s" "snd (run_state (query_transaction_outcome tid) s) = s"
proof -
  have scan: "run_state scan s = (Inl StBusy, s)"
    using assms by (simp add: scan_def with_store_def run_state_proceed require_def)
  then have unless: "run_state scan_unless_scanned s \<in> {(Inl StBusy, s), (Inr (), s)}"
    by (simp add: scan_unless_scanned_def with_store_def)
  show "snd (run_state scan s) = s" using scan by simp
  show "snd (run_state (resume_update tid) s) = s" "snd (run_state (discard_invalid_staging plan) s) = s"
    using assms by (simp_all add: resume_update_def discard_invalid_staging_def with_store_def run_state_proceed require_def)
  show "snd (run_state (begin_or_resume_update plan) s) = s"
    using assms by (simp add: begin_or_resume_update_def with_store_def run_state_proceed require_def)
  show "snd (run_state (query_transaction_outcome tid) s) = s"
    using unless by (auto simp: query_transaction_outcome_def with_store_def run_state_proceed require_def)
qed

section \<open>Runs of the store\<close>

datatype StoreOp =
    OpScan
  | OpQueryActive
  | OpBegin SoundBundlePlan
  | OpResume bytes
  | OpOutcome bytes
  | OpDiscard SoundBundlePlan
  | OpWriteManifest bytes
  | OpWriteBlock nat bytes
  | OpCommit
  | OpAbort
  | OpAcquire
  | OpRelease SoundReadLease
  | OpProgress

fun perform :: "StoreOp \<Rightarrow> SoundAssetStore \<Rightarrow> SoundAssetStore" where
  "perform OpScan s = snd (run_state scan s)"
| "perform OpQueryActive s = snd (run_state query_current_active s)"
| "perform (OpBegin plan) s = snd (run_state (begin_or_resume_update plan) s)"
| "perform (OpResume tid) s = snd (run_state (resume_update tid) s)"
| "perform (OpOutcome tid) s = snd (run_state (query_transaction_outcome tid) s)"
| "perform (OpDiscard plan) s = snd (run_state (discard_invalid_staging plan) s)"
| "perform (OpWriteManifest manifest) s = snd (run_state (write_manifest manifest) s)"
| "perform (OpWriteBlock block_index data) s = snd (run_state (write_payload_block block_index data) s)"
| "perform OpCommit s = snd (run_state commit_update s)"
| "perform OpAbort s = snd (run_state abort_update s)"
| "perform OpAcquire s = snd (run_state acquire_active_read s)"
| "perform (OpRelease lease) s = snd (run_state (release_read lease) s)"
| "perform OpProgress s = snd (run_state update_progress s)"

lemma after_performed:
  assumes "after (holding K C X) m (\<lambda>_. holding K C Y) (holding K C Z)" "holding K C X s"
    "\<And>c. Y c \<Longrightarrow> W c" "\<And>c. Z c \<Longrightarrow> W c"
  shows "holding K C W (snd (run_state m s))"
  using afterD [OF assms(1,2) surjective_pairing] assms(3,4) by (auto simp: holding_def split: sum.splits)

lemma astray_performed:
  assumes "astray repair K (control s)"
  shows "holding K (sf_bank s) (idle_inv repair) (perform op s)"
proof -
  let ?C = "sf_bank s"
  have here: "holding K ?C (astray repair K) s" using assms by (simp add: holding_def)
  have X: "astray repair K c \<Longrightarrow> idle_inv repair c" "astray repair K c \<Longrightarrow> ct_active c \<Longrightarrow> ct_bank c \<notin> K" for c
    by (simp_all add: astray_def)
  have same: "holding K ?C (idle_inv repair) s" using assms by (simp add: holding_def astray_def)
  have busy: "st_update_active s" using assms by (simp add: astray_def bank_of_control)
  have keep: "holding K ?C (idle_inv repair) (snd (run_state m s))" if "keeps (holding K ?C (astray repair K)) m" for m :: "'a store_op"
    using after_performed [OF that here X(1) X(1)] by simp
  show ?thesis
  proof (cases op)
    case OpQueryActive
    have "holding K ?C (query_inv False repair) s" using same by (simp add: holding_def query_inv_def)
    from afterD [OF after_query this surjective_pairing]
    show ?thesis by (auto simp: OpQueryActive query_end_def split: sum.splits)
  next
    case OpCommit
    show ?thesis
      using after_performed [OF after_commit [where X = "astray repair K", OF X] here idle_of_store X(1)] by (simp add: OpCommit)
  next
    case OpAbort
    show ?thesis
      using after_performed [OF after_abort [where X = "astray repair K", OF X] here idle_of_store X(1)] by (simp add: OpAbort)
  qed (simp_all add: busy_unchanged [OF busy] same keep keeps_update_progress keeps_write_manifest [OF X(2)]
      keeps_write_payload [OF X(2)] astray_acquire after_release)
qed

text \<open>With \<open>repair\<close>, invalid staging may be discarded.\<close>

fun is_discard :: "StoreOp \<Rightarrow> bool" where
  "is_discard (OpDiscard plan) \<longleftrightarrow> True"
| "is_discard _ \<longleftrightarrow> False"

lemma safe_performed:
  assumes "is_discard op \<Longrightarrow> repair" "safe repair K (control s)"
  shows "holding K (sf_bank s) (idle_inv repair) (perform op s) \<and> settled repair (perform op s)"
proof -
  let ?C = "sf_bank s" and ?S = "store_inv repair"
  have here: "holding K ?C (safe repair K) s" and inv: "holding K ?C ?S s"
    using assms(2) by (simp_all add: holding_def safe_def)
  have done_with: "holding K ?C (idle_inv repair) t \<and> settled repair t" if "holding K ?C ?S t" for t
    using that by (auto simp: holding_def settled_store idle_of_store)
  have settle: "holding K ?C (idle_inv repair) (snd (run_state m s)) \<and> settled repair (snd (run_state m s))"
    if "keeps (holding K ?C ?S) m" for m :: "'a store_op"
    using after_performed [OF that inv, of ?S] by (simp add: done_with)
  have guarded: "holding K ?C (idle_inv repair) (snd (run_state m s)) \<and> settled repair (snd (run_state m s))"
    if "after (holding K ?C (safe repair K)) m (\<lambda>_. holding K ?C ?S) (holding K ?C ?S)" for m :: "'a store_op"
    using after_performed [OF that here, of ?S] by (simp add: done_with)
  have keep: "holding K ?C (idle_inv repair) (snd (run_state m s)) \<and> settled repair (snd (run_state m s))"
    if "keeps (holding K ?C (safe repair K)) m" for m :: "'a store_op"
    using after_performed [OF that here safe_store_inv safe_store_inv] by (simp add: done_with)
  note X = idle_of_store [OF safe_store_inv] open_bank_free
  show ?thesis
  proof (cases op)
    case OpQueryActive
    have "holding K ?C (query_inv True repair) s" using inv by (simp add: holding_def query_inv_def idle_of_store)
    from afterD [OF after_query this surjective_pairing]
    show ?thesis by (auto simp: OpQueryActive query_end_def split: sum.splits)
  next
    case (OpDiscard plan)
    then have "repair = True" using assms(1) by simp
    then show ?thesis using guarded [of "discard_invalid_staging plan"] after_discard_invalid OpDiscard by simp
  next
    case OpCommit
    have "after (holding K ?C (safe repair K)) commit_update (\<lambda>_. holding K ?C ?S) (holding K ?C ?S)"
      by (rule after_weaken [OF after_commit [where X = "safe repair K", OF X]]) (auto simp: holding_def safe_def)
    from guarded [OF this] show ?thesis by (simp add: OpCommit)
  next
    case OpAbort
    have "after (holding K ?C (safe repair K)) abort_update (\<lambda>_. holding K ?C ?S) (holding K ?C ?S)"
      by (rule after_weaken [OF after_abort [where X = "safe repair K", OF X]]) (auto simp: holding_def safe_def)
    from guarded [OF this] show ?thesis by (simp add: OpAbort)
  qed (simp_all add: settle [OF keeps_scan] guarded [OF after_begin_or_resume] guarded [OF after_resume]
      settle [OF keeps_outcome] settle [OF after_acquire] settle [OF after_release] store_inv_released keep [OF keeps_update_progress]
      keep [OF keeps_write_manifest [OF open_bank_free]] keep [OF keeps_write_payload [OF open_bank_free]])
qed

text \<open>
  A run, with a mark on an open update while it aims at a bank in which a query has met a commit
  that is not its own.
\<close>

fun store_step :: "StoreOp \<Rightarrow> bool \<times> SoundAssetStore \<Rightarrow> bool \<times> SoundAssetStore" where
  "store_step op (stray, s) =
     (let s' = perform op s in (st_update_active s' \<and> (stray \<or> foreign_commit s'), s'))"

definition stray_bank :: "bool \<times> SoundAssetStore \<Rightarrow> SoundBankId set" where
  "stray_bank walk = (if fst walk then {st_update_bank (snd walk)} else {})"

definition run_inv :: "bool \<Rightarrow> bool \<times> SoundAssetStore \<Rightarrow> bool" where
  "run_inv repair walk \<longleftrightarrow> idle_inv repair (control (snd walk)) \<and> (fst walk \<longrightarrow> st_update_active (snd walk)) \<and>
     (\<not> fst walk \<longrightarrow> store_inv repair (control (snd walk)))"

lemma run_performed:
  assumes "run_inv repair walk" "is_discard op \<Longrightarrow> repair"
    "K = protected_banks repair (control (snd walk)) - stray_bank walk"
  shows "holding K (sf_bank (snd walk)) (idle_inv repair) (perform op (snd walk)) \<and> (\<not> fst walk \<longrightarrow> settled repair (perform op (snd walk)))"
proof (cases "fst walk")
  case True
  then have "astray repair K (control (snd walk))"
    using assms(1,3) by (simp add: run_inv_def astray_def stray_bank_def bank_of_control)
  then show ?thesis using True by (simp add: astray_performed)
next
  case False
  then have "safe repair K (control (snd walk))" using assms(1,3) by (simp add: run_inv_def safe_def stray_bank_def)
  then show ?thesis using False safe_performed assms(2) by blast
qed

lemma run_step:
  assumes "run_inv repair walk" "is_discard op \<Longrightarrow> repair"
  shows "run_inv repair (store_step op walk)"
proof -
  let ?t = "perform op (snd walk)"
  have "idle_inv repair (control ?t)" "\<not> fst walk \<longrightarrow> settled repair ?t"
    using run_performed [OF assms refl] by (simp_all add: holding_def)
  moreover have "store_step op walk = (st_update_active ?t \<and> (fst walk \<or> foreign_commit ?t), ?t)" by (cases walk) (simp add: Let_def)
  ultimately show ?thesis
    using store_of_idle [of repair "control ?t"] by (auto simp: run_inv_def settled_def bank_of_control)
qed

lemma run_start: "run_inv repair (False, init_store flash)"
proof -
  have "store_inv repair (control (init_store flash))"
    by (simp add: init_store_def control_def store_inv_def base_inv_def sound_flash.defs)
  then show ?thesis by (simp add: run_inv_def idle_of_store)
qed

lemma run_invariant: "(list_ex is_discard ops \<Longrightarrow> repair) \<Longrightarrow> run_inv repair walk \<Longrightarrow> run_inv repair (fold store_step ops walk)"
  by (induction ops arbitrary: walk) (simp_all add: run_step)

text \<open>
  When a query has read both banks and answers \<open>StTransactionMismatch\<close>, it leaves an update open on the
  bank it has just published as the active one: the exception in the theorem below is met.
\<close>

lemma mismatch_leaves_update_open:
  assumes "run_state (inspect_bank BankA) s = (Inr a, t)" "run_state (inspect_bank BankB) t = (Inr b, u)"
    "run_state query_current_active s = (Inl StTransactionMismatch, s')"
  shows "foreign_commit s'"
  using assms
  by (auto simp: query_current_active_def run_state_proceed on_failure_def modify_def with_store_def Let_def on_active_bank_def
    foreign_commit_def own_commit_def publish_selection_def clear_update_state_def State_Monad.update_def
    split: prod.splits sum.splits if_splits)


end
