(* ===== verification/Sound_Commit_Facts.thy ===== *)
theory Sound_Commit_Facts
  imports Sound_Update_Facts
begin

text \<open>
  A commit publishes exactly the bundle of the plan, or leaves the update open and everything
  but its bank as it was.
\<close>

section \<open>The frame of an update\<close>

text \<open>Only the contents of the update's bank, the faults and the progress flags differ.\<close>

definition with_progress :: "SoundAssetStore \<Rightarrow> bytes \<Rightarrow> StorageFault list \<Rightarrow> bool list \<Rightarrow> SoundAssetStore" where
  "with_progress s content faults flags = s\<lparr>sf_bank := (sf_bank s)(st_update_bank s := content), sf_faults := faults,
     st_payload_complete := flags\<rparr>"

definition framed :: "SoundAssetStore \<Rightarrow> SoundAssetStore \<Rightarrow> bool" where
  "framed s t \<longleftrightarrow> (\<exists>content faults flags. t = with_progress s content faults flags \<and>
     length content = length (sf_bank s (st_update_bank s)))"

lemma framedI:
  "t = s\<lparr>sf_bank := (sf_bank s)(st_update_bank s := content), sf_faults := faults, st_payload_complete := flags\<rparr> \<Longrightarrow>
     length content = length (sf_bank s (st_update_bank s)) \<Longrightarrow> framed s t"
  by (auto simp: framed_def with_progress_def)

lemma framedE:
  assumes "framed s t"
  obtains content faults flags where
    "t = s\<lparr>sf_bank := (sf_bank s)(st_update_bank s := content), sf_faults := faults, st_payload_complete := flags\<rparr>"
    "length content = length (sf_bank s (st_update_bank s))"
  using assms by (auto simp: framed_def with_progress_def)

lemma framed_refl [simp]: "framed s s"
  by (rule framedI [where content = "sf_bank s (st_update_bank s)" and faults = "sf_faults s" and flags = "st_payload_complete s"]) simp_all

lemma framed_fields:
  assumes "framed s t"
  shows "st_update_bank t = st_update_bank s" "st_update_generation t = st_update_generation s"
    "st_update_transaction_id t = st_update_transaction_id s" "st_update_plan t = st_update_plan s"
    "st_update_active t = st_update_active s" "length (sf_bank t b) = length (sf_bank s b)"
  using assms by (elim framedE; simp)+

lemma framed_reading: "framed s t \<Longrightarrow> same_flash t u \<Longrightarrow> framed s u"
proof (elim framedE)
  fix content faults flags
  assume t: "t = s\<lparr>sf_bank := (sf_bank s)(st_update_bank s := content), sf_faults := faults, st_payload_complete := flags\<rparr>"
    and len: "length content = length (sf_bank s (st_update_bank s))" and "same_flash t u"
  then have "u = t\<lparr>sf_faults := sf_faults u\<rparr>" by (simp add: same_flash_def)
  also have "t\<lparr>sf_faults := faults'\<rparr> = s\<lparr>sf_bank := (sf_bank s)(st_update_bank s := content), sf_faults := faults',
      st_payload_complete := flags\<rparr>" for faults' by (simp add: t)
  finally show "framed s u" using len by (rule framedI)
qed

lemma framed_writing: "framed s t \<Longrightarrow> only_bank (st_update_bank s) t u \<Longrightarrow> framed s u"
proof (elim framedE)
  fix content faults flags
  assume t: "t = s\<lparr>sf_bank := (sf_bank s)(st_update_bank s := content), sf_faults := faults, st_payload_complete := flags\<rparr>"
    and len: "length content = length (sf_bank s (st_update_bank s))" and "only_bank (st_update_bank s) t u"
  then have u: "u = t\<lparr>sf_bank := (sf_bank t)(st_update_bank s := sf_bank u (st_update_bank s)), sf_faults := sf_faults u\<rparr>"
    "length (sf_bank u (st_update_bank s)) = length (sf_bank t (st_update_bank s))" by (simp_all add: only_bank_def)
  note u(1)
  also have "t\<lparr>sf_bank := (sf_bank t)(st_update_bank s := c), sf_faults := faults'\<rparr> =
      s\<lparr>sf_bank := (sf_bank s)(st_update_bank s := c), sf_faults := faults', st_payload_complete := flags\<rparr>" for c faults' by (simp add: t)
  finally show "framed s u" by (rule framedI) (use u(2) len in \<open>simp add: t\<close>)
qed

lemma keeps_framed_reading: "state_io_rel same_flash m \<Longrightarrow> keeps (framed s) m"
  by (erule keeps_effect) (rule framed_reading)

lemma keeps_framed_writing: "state_io_rel (only_bank bank) m \<Longrightarrow> bank = st_update_bank s \<Longrightarrow> keeps (framed s) m"
  by (erule keeps_effect) (auto intro: framed_writing)

lemma keeps_framed_payload: "keeps (framed s) (set_payload_complete i b)"
  unfolding set_payload_complete_def 
proof (rule after_modify, elim framedE)
  fix t content faults flags
  assume "t = s\<lparr>sf_bank := (sf_bank s)(st_update_bank s := content), sf_faults := faults, st_payload_complete := flags\<rparr>"
    and len: "length content = length (sf_bank s (st_update_bank s))"
  then have "t\<lparr>st_payload_complete := (st_payload_complete t)[i := b]\<rparr> =
      s\<lparr>sf_bank := (sf_bank s)(st_update_bank s := content), sf_faults := faults, st_payload_complete := flags[i := b]\<rparr>" by simp
  then show "framed s (t\<lparr>st_payload_complete := (st_payload_complete t)[i := b]\<rparr>)" using len by (rule framedI)
qed

lemma keeps_framed_manifest: "keeps (framed s) verify_manifest"
  unfolding verify_manifest_def by (intro keeps_rules keeps_framed_reading flash_readings)

lemma keeps_framed_block: "keeps (framed s) (verify_payload_block i)"
  unfolding verify_payload_block_def by (intro keeps_rules keeps_framed_reading flash_readings)

lemma keeps_framed_all: "keeps (framed s) verify_all_payload_blocks"
  unfolding verify_all_payload_blocks_def by (intro keeps_rules keeps_framed_block keeps_framed_payload)

lemma keeps_framed_program: "bank = st_update_bank s \<Longrightarrow> keeps (framed s) (program_and_check bank offset data)"
  unfolding program_and_check_def
  by (intro keeps_rules keeps_framed_reading flash_readings keeps_framed_writing [OF bank_write_writing])

lemmas framed_steps = flash_readings [THEN keeps_framed_reading] keeps_framed_payload keeps_framed_manifest keeps_framed_block
  keeps_framed_all keeps_framed_program

section \<open>Genuine selections\<close>

lemma after_validated:
  assumes "\<And>t u. P t \<Longrightarrow> same_flash t u \<Longrightarrow> P u" "\<And>t. P t \<Longrightarrow> length (sf_bank t bank) = kSoundBankSize"
  shows "after P (validate_sound_bank bank) (\<lambda>sn t. P t \<and> genuine_bank (sf_bank t bank) bank sn) P"
proof (rule afterI)
  fix s t r assume s: "P s" and run: "run_state (validate_sound_bank bank) s = (r, t)"
  have same: "same_flash s t" using validate_bank_reading run by (metis state_io_relD)
  have P: "P t" using assms(1) [OF s same] .
  have "genuine_bank (sf_bank t bank) bank sn" if "r = Inr sn" for sn
    using validate_bank_Inr [OF run [unfolded that] assms(2) [OF s]] same_flash_bank [OF same] by simp
  then show "case r of Inl e \<Rightarrow> P t | Inr sn \<Rightarrow> P t \<and> genuine_bank (sf_bank t bank) bank sn"
    using P by (simp split: sum.splits)
qed

lemma after_inspect_genuine:
  assumes "\<And>t u. P t \<Longrightarrow> same_flash t u \<Longrightarrow> P u" "\<And>t. P t \<Longrightarrow> length (sf_bank t bank) = kSoundBankSize"
  shows "after P (inspect_bank bank) (\<lambda>a t. P t \<and> (sb_valid (fst a) \<longrightarrow> genuine_bank (sf_bank t bank) bank (fst a))) P"
  unfolding inspect_bank_def
proof (rule after_bind [OF after_validated [where P = P, OF assms]])
  fix sn show "after (\<lambda>t. P t \<and> genuine_bank (sf_bank t bank) bank sn)
      (case Inr sn of Inr snapshot \<Rightarrow> give (snapshot, Inr ())
       | Inl (e, snapshot) \<Rightarrow> if bank_validation_failure_is_nonfatal e then give (snapshot\<lparr>sb_valid := False\<rparr>, Inl e) else refuse e)
      (\<lambda>a t. P t \<and> (sb_valid (fst a) \<longrightarrow> genuine_bank (sf_bank t bank) bank (fst a))) P"
    by (simp, rule after_give, simp)
next
  fix e show "after P
      (case Inl e of Inr snapshot \<Rightarrow> give (snapshot, Inr ())
       | Inl (e, snapshot) \<Rightarrow> if bank_validation_failure_is_nonfatal e then give (snapshot\<lparr>sb_valid := False\<rparr>, Inl e) else refuse e)
      (\<lambda>a t. P t \<and> (sb_valid (fst a) \<longrightarrow> genuine_bank (sf_bank t bank) bank (fst a))) P"
    by (cases e) (simp add: after_give after_refuse)
qed

text \<open>The active bank of a selection, if there is one, is genuine.\<close>

definition genuine_selection :: "(SoundBankId \<Rightarrow> bytes) \<Rightarrow> SoundStoreSelection \<Rightarrow> bool" where
  "genuine_selection banks sl \<longleftrightarrow>
     (sl_active_valid sl \<longrightarrow> genuine_bank (banks (sb_bank (sl_active sl))) (sb_bank (sl_active sl)) (sl_active sl))"

lemma genuine_names: "genuine_bank content bank sn \<Longrightarrow> sb_bank sn = bank"
  by (auto simp: genuine_bank_def committed_as_def Let_def decoded_commit_def)

lemma select_genuine:
  assumes "sb_valid a \<longrightarrow> genuine_bank (banks BankA) BankA a" "sb_valid b \<longrightarrow> genuine_bank (banks BankB) BankB b"
  shows "genuine_selection banks (select_sound_banks a b)"
  using assms genuine_names
  by (auto simp: genuine_selection_def select_sound_banks_def empty_selection_def Let_def)

lemma after_inspect_two:
  assumes P: "\<And>t u. P t \<Longrightarrow> same_flash t u \<Longrightarrow> P u" "\<And>t bank. P t \<Longrightarrow> length (sf_bank t bank) = kSoundBankSize"
    and f: "\<And>a ra b rb. after (\<lambda>t. P t \<and> genuine_selection (sf_bank t) (select_sound_banks a b)) (f a ra b rb) Q E"
    and E: "\<And>t. P t \<Longrightarrow> E t"
  shows "after P (proceed (inspect_bank BankA) (\<lambda>(a, ra). proceed (inspect_bank BankB) (\<lambda>(b, rb). f a ra b rb))) Q E"
proof (rule after_proceed)
  let ?PA = "\<lambda>a t. P t \<and> (sb_valid (fst a) \<longrightarrow> genuine_bank (sf_bank t BankA) BankA (fst a))"
  show "after P (inspect_bank BankA) ?PA E"
    by (rule after_weaken [OF after_inspect_genuine [of P, OF P]]) (simp_all add: E)
  fix a :: "SoundBankSnapshot \<times> StoreStatus"
  have stable: "?PA a u" if "?PA a t" "same_flash t u" for t u
    using that P(1) same_flash_bank [OF that(2)] by auto
  have "after (?PA a) (proceed (inspect_bank BankB) (\<lambda>(b, rb). f (fst a) (snd a) b rb)) Q E"
  proof (rule after_proceed)
    show "after (?PA a) (inspect_bank BankB) (\<lambda>b t. ?PA a t \<and> (sb_valid (fst b) \<longrightarrow> genuine_bank (sf_bank t BankB) BankB (fst b))) E"
      by (rule after_weaken [OF after_inspect_genuine [of "?PA a", OF stable]]) (auto simp: E P(2))
    fix b :: "SoundBankSnapshot \<times> StoreStatus"
    show "after (\<lambda>t. ?PA a t \<and> (sb_valid (fst b) \<longrightarrow> genuine_bank (sf_bank t BankB) BankB (fst b)))
        (case b of (b, rb) \<Rightarrow> f (fst a) (snd a) b rb) Q E"
      by (cases b) (auto intro!: after_weaken [OF f] select_genuine)
  qed
  then show "after (?PA a) (case a of (a, ra) \<Rightarrow> proceed (inspect_bank BankB) (\<lambda>(b, rb). f a ra b rb)) Q E"
    by (cases a) simp
qed


section \<open>Publication\<close>

text \<open>The selection has the update's bank as its active one, and that bank is genuine.\<close>

definition published :: "SoundAssetStore \<Rightarrow> SoundAssetStore \<Rightarrow> bool" where
  "published s t \<longleftrightarrow>
     (let active = sl_active (st_selection t); bank = st_update_bank s
      in st_scanned t \<and> sl_active_valid (st_selection t) \<and> \<not> sl_split_brain (st_selection t) \<and> st_read_selection t = st_selection t \<and>
         sb_bank active = bank \<and> sb_generation active = st_update_generation s \<and> genuine_bank (sf_bank t bank) bank active)"

text \<open>The snapshot that the check after the write returned.\<close>

definition committed_as_planned :: "SoundAssetStore \<Rightarrow> SoundAssetStore \<Rightarrow> SoundBankSnapshot \<Rightarrow> bool" where
  "committed_as_planned s t sn \<longleftrightarrow> genuine_bank (sf_bank t (st_update_bank s)) (st_update_bank s) sn \<and>
     sb_transaction_id sn = st_update_transaction_id s \<and> sound_digest_equal (sb_bundle_sha256 sn) (bp_bundle_sha256 (st_update_plan s))"

lemma after_refresh_published:
  assumes len: "\<And>bank. length (sf_bank s bank) = kSoundBankSize"
  shows "after (\<lambda>t. framed s t \<and> committed_as_planned s t sn) refresh_selection_after_commit
    (\<lambda>_ t. published s t \<and> committed_as_planned s t sn) (framed s)"
  unfolding refresh_selection_after_commit_def Let_def
proof (rule after_inspect_two)
  fix t u :: SoundAssetStore
  show "framed s u \<and> committed_as_planned s u sn" if "framed s t \<and> committed_as_planned s t sn" "same_flash t u"
    using that framed_reading same_flash_bank [OF that(2)] by (auto simp: committed_as_planned_def)
next
  fix a b :: SoundBankSnapshot and ra rb :: StoreStatus
  let ?sl = "select_sound_banks a b"
  show "after (\<lambda>t. (framed s t \<and> committed_as_planned s t sn) \<and> genuine_selection (sf_bank t) ?sl)
    (with_store (\<lambda>s. if \<not> sl_active_valid ?sl \<or> sl_split_brain ?sl \<or> sb_bank (sl_active ?sl) \<noteq> st_update_bank s \<or>
        sb_generation (sl_active ?sl) \<noteq> st_update_generation s
     then refuse (if sl_split_brain ?sl then StSplitBrain else StInvalidBank)
     else modify (publish_selection ?sl (Inr ()))))
    (\<lambda>_ t. published s t \<and> committed_as_planned s t sn) (framed s)"
  proof (rule after_with_store, rule after_if)
    fix t assume t: "(framed s t \<and> committed_as_planned s t sn) \<and> genuine_selection (sf_bank t) ?sl"
    show "after (\<lambda>u. u = t) (refuse (if sl_split_brain ?sl then StSplitBrain else StInvalidBank))
       (\<lambda>_ t. published s t \<and> committed_as_planned s t sn) (framed s)"
      by (rule after_refuse) (simp add: t)
    assume "\<not> (\<not> sl_active_valid ?sl \<or> sl_split_brain ?sl \<or> sb_bank (sl_active ?sl) \<noteq> st_update_bank t \<or>
        sb_generation (sl_active ?sl) \<noteq> st_update_generation t)"
    then show "after (\<lambda>u. u = t) (modify (publish_selection ?sl (Inr ()))) (\<lambda>_ t. published s t \<and> committed_as_planned s t sn) (framed s)"
      using t framed_fields [of s t]
      by (intro after_modify) (auto simp: published_def committed_as_planned_def publish_selection_def genuine_selection_def Let_def)
  qed
qed (use len framed_fields(6) in auto)

lemma after_commit_published:
  assumes len: "\<And>bank. length (sf_bank s bank) = kSoundBankSize"
  shows "after (\<lambda>t. t = s) commit_update
    (\<lambda>_ t. \<not> st_update_active t \<and> published s t \<and> committed_as_planned s t (sl_active (st_selection t))) (framed s)"
proof -
  let ?Q = "\<lambda>_ t. \<not> st_update_active t \<and> published s t \<and> committed_as_planned s t (sl_active (st_selection t))"
  have kept: "after (framed s) (proceed m f) Q (framed s)" if "keeps (framed s) m" "\<And>a. after (framed s) (f a) Q (framed s)"
    for m :: "'a store_op" and f :: "'a \<Rightarrow> 'b store_op" and Q
    by (rule after_step [OF that])
  have clear: "after (\<lambda>t. published s t \<and> committed_as_planned s t sn) clear_update_state ?Q (framed s)" for sn
    unfolding clear_update_state_def
    by (rule after_modify) (auto simp: published_def committed_as_planned_def Let_def dest: genuine_unique)
  have publish: "after (\<lambda>t. framed s t \<and> genuine_bank (sf_bank t (st_update_bank s)) (st_update_bank s) sn)
    (proceed (require (\<not> (sb_generation sn \<noteq> st_update_generation s \<or>
         sb_transaction_id sn \<noteq> st_update_transaction_id s \<or>
         \<not> sound_digest_equal (sb_bundle_sha256 sn) (bp_bundle_sha256 (st_update_plan s)))) StHashMismatch) (\<lambda>_.
     proceed refresh_selection_after_commit (\<lambda>_. clear_update_state))) ?Q (framed s)" for sn
  proof (rule after_guarded, erule conjunct1)
    assume "\<not> (sb_generation sn \<noteq> st_update_generation s \<or> sb_transaction_id sn \<noteq> st_update_transaction_id s \<or>
         \<not> sound_digest_equal (sb_bundle_sha256 sn) (bp_bundle_sha256 (st_update_plan s)))"
    then show "after (\<lambda>t. framed s t \<and> genuine_bank (sf_bank t (st_update_bank s)) (st_update_bank s) sn)
        (proceed refresh_selection_after_commit (\<lambda>_. clear_update_state)) ?Q (framed s)"
      by (intro after_proceed [OF after_weaken [OF after_refresh_published [OF len, of sn]] clear])
        (auto simp: committed_as_planned_def)
  qed
  have validate: "after (framed s) (map_error fst (validate_sound_bank (st_update_bank s)))
      (\<lambda>sn t. framed s t \<and> genuine_bank (sf_bank t (st_update_bank s)) (st_update_bank s) sn) (framed s)"
    by (intro after_map_error after_validated) (auto intro: framed_reading simp: framed_fields(6) len)
  show ?thesis
    unfolding commit_update_def Let_def
    by (rule after_with_store, hypsubst, rule after_weaken [where P = "framed s" and E = "framed s"],
        rule after_guarded, assumption, rule kept, intro framed_steps, rule kept, intro framed_steps,
        rule kept, intro keeps_rules framed_steps, rule kept, intro keeps_rules framed_steps,
        intro after_prod after_guarded, assumption, rule kept, intro framed_steps,
        rule kept, intro framed_steps refl, rule kept, intro framed_steps refl,
        rule after_proceed [OF validate publish]) simp_all
qed


text \<open>
  C2: a commit that succeeds has published the open update: the store selects the update's bank with
  the update's generation, transaction and bundle digest, that bank is genuine byte for byte, readers
  get the same selection and the update is closed.  A commit that fails, for whatever reason, changes
  nothing but the contents of the update's bank and the progress flags: the update stays open and
  the selection as it was.
\<close>
theorem commit_publishes:
  assumes "\<And>bank. length (sf_bank s bank) = kSoundBankSize"
  shows "case run_state commit_update s of
      (Inr u, s') \<Rightarrow> \<not> st_update_active s' \<and> published s s' \<and> committed_as_planned s s' (sl_active (st_selection s'))
    | (Inl e, s') \<Rightarrow> framed s s'"
proof (cases "run_state commit_update s")
  case (Pair r s')
  then show ?thesis using afterD [OF after_commit_published [OF assms] refl Pair] by (cases r) simp_all
qed

theorem commit_publishes_witness:
  "case run_state commit_update (init_store silent_flash) of
      (Inr u, s') \<Rightarrow> \<not> st_update_active s' \<and> published (init_store silent_flash) s' \<and>
        committed_as_planned (init_store silent_flash) s' (sl_active (st_selection s'))
    | (Inl e, s') \<Rightarrow> framed (init_store silent_flash) s'"
  by (rule commit_publishes) (simp add: init_store_def sound_flash.defs length_silent)

end
