(* ===== verification/Audio_Session.thy ===== *)
theory Audio_Session
  imports Prelude
begin

text \<open>
  \<^verbatim>\<open>components/keyboard/src/debounce.cpp\<close>, \<^verbatim>\<open>audio_session.cpp\<close>,
  \<^verbatim>\<open>speaker_playback.cpp\<close> and \<^verbatim>\<open>speaker_service_startup.cpp\<close>: the debounced
  state of a contact, the lifecycles of a microphone session and of a playback, and when the
  sound services start.
\<close>

section \<open>Debounced contacts\<close>

record DebounceResult =
  db_changed :: bool
  db_state :: bool
  db_filtered_transition :: bool

record DebouncedInput =
  di_press_interval_ms :: u32
  di_release_interval_ms :: u32
  di_initialized :: bool
  di_stable_state :: bool
  di_candidate_state :: bool
  di_candidate_since_ms :: u32

definition init_debounced :: "u32 \<Rightarrow> u32 \<Rightarrow> DebouncedInput" where
  "init_debounced press_interval_ms release_interval_ms = \<lparr>di_press_interval_ms = press_interval_ms,
     di_release_interval_ms = release_interval_ms, di_initialized = False, di_stable_state = False,
     di_candidate_state = False, di_candidate_since_ms = 0\<rparr>"

definition interval_for :: "DebouncedInput \<Rightarrow> bool \<Rightarrow> u32" where
  "interval_for s state = (if state then di_press_interval_ms s else di_release_interval_ms s)"

definition debounce_reset :: "DebouncedInput \<Rightarrow> bool \<Rightarrow> u32 \<Rightarrow> DebouncedInput" where
  "debounce_reset s raw_state now_ms = s\<lparr>di_initialized := True, di_stable_state := raw_state,
     di_candidate_state := raw_state, di_candidate_since_ms := now_ms\<rparr>"

definition debounce_result :: "bool \<Rightarrow> bool \<Rightarrow> bool \<Rightarrow> DebounceResult" where
  "debounce_result changed state filtered = \<lparr>db_changed = changed, db_state = state, db_filtered_transition = filtered\<rparr>"

definition debounce_update :: "DebouncedInput \<Rightarrow> bool \<Rightarrow> u32 \<Rightarrow> DebounceResult \<times> DebouncedInput" where
  "debounce_update s raw_state now_ms =
     (if \<not> di_initialized s then (debounce_result False raw_state False, debounce_reset s raw_state now_ms)
      else
        let elapsed = now_ms - di_candidate_since_ms s; held = elapsed \<ge> interval_for s (di_candidate_state s)
        in if raw_state \<noteq> di_candidate_state s
           then
             let next = s\<lparr>di_candidate_state := raw_state, di_candidate_since_ms := now_ms\<rparr>
             in if di_candidate_state s \<noteq> di_stable_state s
                then if held
                     then (debounce_result True (di_candidate_state s) False, next\<lparr>di_stable_state := di_candidate_state s\<rparr>)
                     else (debounce_result False (di_stable_state s) True, next)
                else (debounce_result False (di_stable_state s) False, next)
           else if di_candidate_state s = di_stable_state s then (debounce_result False (di_stable_state s) False, s)
           else if \<not> held then (debounce_result False (di_stable_state s) False, s)
           else (debounce_result True (di_candidate_state s) False, s\<lparr>di_stable_state := di_candidate_state s\<rparr>))"

definition latch_wake_state :: "DebouncedInput \<Rightarrow> bool \<Rightarrow> u32 \<Rightarrow> DebounceResult \<times> DebouncedInput" where
  "latch_wake_state s raw_state now_ms =
     (if \<not> di_initialized s then (debounce_result False raw_state False, debounce_reset s raw_state now_ms)
      else (debounce_result (di_stable_state s \<noteq> raw_state) raw_state False, debounce_reset s raw_state now_ms))"

section \<open>Microphone sessions\<close>

datatype AudioSessionPhase = SessionIdle | SessionStarting | SessionStreaming | SessionRecovering | SessionStopping
datatype AudioSessionStartResult = Started | AlreadyActive | NeedsStop | StartRejected

record AudioSessionLifecycle =
  as_phase :: AudioSessionPhase
  as_session_id :: u64
  as_generation :: u32
  as_stop_reason :: string

definition init_audio_session :: AudioSessionLifecycle where
  "init_audio_session = \<lparr>as_phase = SessionIdle, as_session_id = 0, as_generation = 0, as_stop_reason = ''''\<rparr>"

definition session_owns :: "AudioSessionLifecycle \<Rightarrow> u32 \<Rightarrow> bool" where
  "session_owns s generation \<longleftrightarrow> generation \<noteq> 0 \<and> as_generation s = generation \<and> as_phase s \<noteq> SessionIdle"

definition session_should_run :: "AudioSessionLifecycle \<Rightarrow> u32 \<Rightarrow> bool" where
  "session_should_run s generation \<longleftrightarrow> session_owns s generation \<and> as_phase s \<noteq> SessionStopping"

definition session_active :: "AudioSessionLifecycle \<Rightarrow> bool" where
  "session_active s \<longleftrightarrow> as_phase s \<noteq> SessionIdle"

definition next_session_generation :: "u32 \<Rightarrow> u32" where
  "next_session_generation generation = (if generation + 1 = 0 then 1 else generation + 1)"

definition session_request_start :: "AudioSessionLifecycle \<Rightarrow> u64 \<Rightarrow> AudioSessionStartResult \<times> AudioSessionLifecycle" where
  "session_request_start s session_id =
     (if session_id = 0 then (StartRejected, s)
      else if as_phase s \<noteq> SessionIdle
      then (if as_session_id s = session_id \<and> as_phase s \<noteq> SessionStopping then (AlreadyActive, s) else (NeedsStop, s))
      else (Started, s\<lparr>as_generation := next_session_generation (as_generation s),
              as_session_id := session_id, as_phase := SessionStarting, as_stop_reason := ''''\<rparr>))"

definition session_request_stop :: "AudioSessionLifecycle \<Rightarrow> u64 \<Rightarrow> string option \<Rightarrow> bool \<times> AudioSessionLifecycle" where
  "session_request_stop s session_id reason =
     (if as_phase s = SessionIdle then (False, s)
      else if session_id \<noteq> 0 \<and> as_session_id s \<noteq> session_id then (False, s)
      else (True, s\<lparr>as_phase := SessionStopping,
              as_stop_reason := (case reason of None \<Rightarrow> ''stop_requested'' | Some r \<Rightarrow> r)\<rparr>))"

definition session_mark_streaming :: "AudioSessionLifecycle \<Rightarrow> u32 \<Rightarrow> bool \<times> AudioSessionLifecycle" where
  "session_mark_streaming s generation =
     (if \<not> session_owns s generation \<or> as_phase s = SessionStopping then (False, s) else (True, s\<lparr>as_phase := SessionStreaming\<rparr>))"

definition session_mark_recovering :: "AudioSessionLifecycle \<Rightarrow> u32 \<Rightarrow> bool \<times> AudioSessionLifecycle" where
  "session_mark_recovering s generation =
     (if \<not> session_owns s generation \<or> as_phase s = SessionStopping then (False, s) else (True, s\<lparr>as_phase := SessionRecovering\<rparr>))"

definition session_finish :: "AudioSessionLifecycle \<Rightarrow> u32 \<Rightarrow> string option \<Rightarrow> bool \<times> AudioSessionLifecycle" where
  "session_finish s generation reason =
     (if \<not> session_owns s generation then (False, s)
      else
        let s = (if as_phase s \<noteq> SessionStopping \<or> as_stop_reason s = ''''
                 then s\<lparr>as_stop_reason := (case reason of None \<Rightarrow> ''stream_finished'' | Some r \<Rightarrow> r)\<rparr> else s)
        in (True, s\<lparr>as_phase := SessionIdle, as_session_id := 0\<rparr>))"

fun audio_session_phase_name :: "AudioSessionPhase \<Rightarrow> string" where
  "audio_session_phase_name SessionIdle = ''idle''"
| "audio_session_phase_name SessionStarting = ''starting''"
| "audio_session_phase_name SessionStreaming = ''streaming''"
| "audio_session_phase_name SessionRecovering = ''recovering''"
| "audio_session_phase_name SessionStopping = ''stopping''"

section \<open>Playback\<close>

datatype SpeakerPlaybackPhase = PlaybackIdle | PlaybackStarting | PlaybackPlaying | PlaybackDraining
datatype SpeakerPlaybackResult = ResultNone | ResultSucceeded | ResultCancelled | ResultFailed

record SpeakerPlaybackTicket =
  tk_accepted :: bool
  tk_generation :: u32

record SpeakerPlayback =
  sp_phase :: SpeakerPlaybackPhase
  sp_pending_result :: SpeakerPlaybackResult
  sp_last_result :: SpeakerPlaybackResult
  sp_generation_counter :: u32
  sp_active_generation :: u32
  sp_last_completed_generation :: u32

definition init_speaker_playback :: SpeakerPlayback where
  "init_speaker_playback = \<lparr>sp_phase = PlaybackIdle, sp_pending_result = ResultNone, sp_last_result = ResultNone,
     sp_generation_counter = 0, sp_active_generation = 0, sp_last_completed_generation = 0\<rparr>"

definition next_playback_generation :: "u32 \<Rightarrow> u32" where
  "next_playback_generation counter = (if counter = - 1 then 1 else counter + 1)"

definition playback_request :: "SpeakerPlayback \<Rightarrow> SpeakerPlaybackTicket \<times> SpeakerPlayback" where
  "playback_request s =
     (if sp_phase s \<noteq> PlaybackIdle then (\<lparr>tk_accepted = False, tk_generation = 0\<rparr>, s)
      else
        let generation = next_playback_generation (sp_generation_counter s)
        in (\<lparr>tk_accepted = True, tk_generation = generation\<rparr>,
            s\<lparr>sp_generation_counter := generation, sp_active_generation := generation, sp_pending_result := ResultNone,
              sp_phase := PlaybackStarting\<rparr>))"

definition speaker_playback_matches :: "SpeakerPlayback \<Rightarrow> u32 \<Rightarrow> bool" where
  "speaker_playback_matches s generation \<longleftrightarrow> generation \<noteq> 0 \<and> sp_phase s \<noteq> PlaybackIdle \<and> generation = sp_active_generation s"

definition playback_mark_started :: "SpeakerPlayback \<Rightarrow> u32 \<Rightarrow> bool \<times> SpeakerPlayback" where
  "playback_mark_started s generation =
     (if \<not> speaker_playback_matches s generation \<or> sp_phase s \<noteq> PlaybackStarting then (False, s)
      else (True, s\<lparr>sp_phase := PlaybackPlaying\<rparr>))"

definition begin_drain :: "SpeakerPlayback \<Rightarrow> u32 \<Rightarrow> SpeakerPlaybackResult \<Rightarrow> bool \<times> SpeakerPlayback" where
  "begin_drain s generation result =
     (if \<not> speaker_playback_matches s generation then (False, s)
      else if sp_phase s = PlaybackDraining
      then (True, if result = ResultFailed then s\<lparr>sp_pending_result := ResultFailed\<rparr> else s)
      else if sp_phase s \<noteq> PlaybackStarting \<and> sp_phase s \<noteq> PlaybackPlaying then (False, s)
      else (True, s\<lparr>sp_pending_result := result, sp_phase := PlaybackDraining\<rparr>))"

definition playback_finish :: "SpeakerPlayback \<Rightarrow> u32 \<Rightarrow> bool \<times> SpeakerPlayback" where
  "playback_finish s generation = begin_drain s generation ResultSucceeded"

definition playback_cancel :: "SpeakerPlayback \<Rightarrow> u32 \<Rightarrow> bool \<times> SpeakerPlayback" where
  "playback_cancel s generation = begin_drain s generation ResultCancelled"

definition playback_fail :: "SpeakerPlayback \<Rightarrow> u32 \<Rightarrow> bool \<times> SpeakerPlayback" where
  "playback_fail s generation = begin_drain s generation ResultFailed"

definition playback_mark_drained :: "SpeakerPlayback \<Rightarrow> u32 \<Rightarrow> bool \<times> SpeakerPlayback" where
  "playback_mark_drained s generation =
     (if \<not> speaker_playback_matches s generation \<or> sp_phase s \<noteq> PlaybackDraining then (False, s)
      else (True, s\<lparr>sp_last_result := sp_pending_result s, sp_last_completed_generation := sp_active_generation s,
              sp_active_generation := 0, sp_pending_result := ResultNone, sp_phase := PlaybackIdle\<rparr>))"

definition playback_active :: "SpeakerPlayback \<Rightarrow> bool" where
  "playback_active s \<longleftrightarrow> sp_phase s \<noteq> PlaybackIdle"

section \<open>Start of the services\<close>

datatype SpeakerServiceStartupAction = WaitForLocal | StartWifi | WifiUnavailable | StartupReady

record SpeakerServiceStartupInputs =
  ss_local_ready :: bool
  ss_audio_ready :: bool
  ss_wifi_ready :: bool

definition evaluate_speaker_service_startup :: "SpeakerServiceStartupInputs \<Rightarrow> SpeakerServiceStartupAction" where
  "evaluate_speaker_service_startup i =
     (if \<not> ss_local_ready i then WaitForLocal
      else if \<not> ss_audio_ready i then WifiUnavailable
      else if \<not> ss_wifi_ready i then StartWifi
      else StartupReady)"

definition speaker_boot_pipeline_allowed :: "SpeakerServiceStartupInputs \<Rightarrow> bool" where
  "speaker_boot_pipeline_allowed i \<longleftrightarrow>
     (let action = evaluate_speaker_service_startup i in action = StartupReady \<or> action = WifiUnavailable)"


section \<open>A change was held\<close>

text \<open>The readings of the contact so far end in readings \<open>b\<close> from time \<open>t\<close> on.\<close>

definition held_from :: "(bool \<times> u32) list \<Rightarrow> bool \<Rightarrow> u32 \<Rightarrow> bool" where
  "held_from readings b t \<longleftrightarrow> (\<exists>before since. readings = before @ since \<and> since \<noteq> [] \<and> (\<forall>reading \<in> set since. fst reading = b) \<and> snd (hd since) = t)"

lemma held_from_single: "held_from (readings @ [(b, t)]) b t"
  unfolding held_from_def by (rule exI [of _ readings], rule exI [of _ "[(b, t)]"]) simp

lemma held_from_more: "held_from readings b t \<Longrightarrow> held_from (readings @ [(b, now)]) b t"
  unfolding held_from_def by (elim exE conjE, rule_tac x = before in exI, rule_tac x = "since @ [(b, now)]" in exI) auto

definition debounce_tracks :: "(bool \<times> u32) list \<Rightarrow> DebouncedInput \<Rightarrow> bool" where
  "debounce_tracks readings s \<longleftrightarrow> (di_initialized s \<longleftrightarrow> readings \<noteq> []) \<and>
     (readings \<noteq> [] \<longrightarrow> held_from readings (di_candidate_state s) (di_candidate_since_ms s))"

lemma debounce_step:
  assumes "debounce_tracks readings s" "debounce_update s raw now = (r, s')"
  shows "debounce_tracks (readings @ [(raw, now)]) s' \<and> interval_for s' = interval_for s \<and>
    (di_initialized s \<longrightarrow> (db_changed r \<longleftrightarrow> di_stable_state s' \<noteq> di_stable_state s)) \<and> db_state r = di_stable_state s' \<and>
    (db_changed r \<longrightarrow> (\<exists>t. held_from readings (db_state r) t \<and> now - t \<ge> interval_for s (db_state r)))"
proof (cases "di_initialized s")
  case False
  then show ?thesis
    using assms held_from_single [of readings raw now]
    by (auto simp: debounce_update_def debounce_reset_def debounce_result_def debounce_tracks_def interval_for_def fun_eq_iff)
next
  case True
  then have "held_from readings (di_candidate_state s) (di_candidate_since_ms s)" using assms(1) by (simp add: debounce_tracks_def)
  then show ?thesis
    using assms True held_from_single [of readings raw now] held_from_more [of readings "di_candidate_state s" "di_candidate_since_ms s" now]
    by (auto simp: debounce_update_def Let_def debounce_result_def debounce_tracks_def interval_for_def fun_eq_iff split: if_splits)
qed

definition debounce_event :: "DebouncedInput \<Rightarrow> bool \<times> u32 \<Rightarrow> DebouncedInput \<times> DebounceResult" where
  "debounce_event s reading = (let (r, s') = debounce_update s (fst reading) (snd reading) in (s', r))"

text \<open>After each entry of the log, the change it reports was held over the readings before it.\<close>

definition changes_held :: "(bool \<Rightarrow> u32) \<Rightarrow> (bool \<times> u32) list \<Rightarrow> ((bool \<times> u32) \<times> DebounceResult) list \<Rightarrow> bool" where
  "changes_held interval before entries \<longleftrightarrow>
     (\<forall>i < length entries. db_changed (snd (entries ! i)) \<longrightarrow>
        (\<exists>t. held_from (before @ map fst (take i entries)) (db_state (snd (entries ! i))) t \<and>
             snd (fst (entries ! i)) - t \<ge> interval (db_state (snd (entries ! i)))))"

fun alternating :: "bool \<Rightarrow> bool list \<Rightarrow> bool" where
  "alternating b [] \<longleftrightarrow> True"
| "alternating b (c # rest) \<longleftrightarrow> c \<noteq> b \<and> alternating c rest"

lemma changes_held_Cons:
  "changes_held interval before ((reading, r) # entries) \<longleftrightarrow>
     (db_changed r \<longrightarrow> (\<exists>t. held_from before (db_state r) t \<and> snd reading - t \<ge> interval (db_state r))) \<and>
     changes_held interval (before @ [reading]) entries"
  unfolding changes_held_def by (simp add: All_less_Suc2)

lemma debounce_run:
  assumes "debounce_tracks readings s"
  shows "changes_held (interval_for s) readings (run_log debounce_event s es) \<and>
    (di_initialized s \<longrightarrow> alternating (di_stable_state s) [db_state r. r \<leftarrow> map snd (run_log debounce_event s es), db_changed r])"
  using assms
proof (induction es arbitrary: readings s)
  case Nil
  then show ?case by (simp add: changes_held_def)
next
  case (Cons reading es)
  obtain raw now where e: "reading = (raw, now)" by fastforce
  obtain r s' where up: "debounce_update s raw now = (r, s')" by fastforce
  note st = debounce_step [OF Cons.prems up]
  have "di_initialized s'" using st by (auto simp: debounce_tracks_def)
  then show ?case
    using st Cons.IH [of "readings @ [(raw, now)]" s']
    by (auto simp: e up debounce_event_def changes_held_Cons)
qed

text \<open>
  C37: over any readings of a contact, the debounced state changes only to a state that every reading
  since some earlier one showed, for at least the interval of that state (on the wrapping clock);
  the reported changes alternate.  A shorter bounce never passes.
\<close>
theorem debounced_changes_are_held:
  "changes_held (interval_for (init_debounced press release)) [] (run_log debounce_event (init_debounced press release) es) \<and>
   (\<exists>first. alternating first [db_state r. r \<leftarrow> map snd (run_log debounce_event (init_debounced press release) es), db_changed r])"
proof -
  let ?s = "init_debounced press release"
  have t: "debounce_tracks [] ?s" by (simp add: debounce_tracks_def init_debounced_def)
  show ?thesis
  proof (cases es)
    case Nil
    then show ?thesis by (simp add: changes_held_def)
  next
    case (Cons reading rest)
    obtain raw now where e: "reading = (raw, now)" by fastforce
    obtain r s' where up: "debounce_update ?s raw now = (r, s')" by fastforce
    have "\<not> db_changed r" using up by (auto simp: debounce_update_def init_debounced_def debounce_result_def)
    then show ?thesis
      using debounce_run [OF t, of es] debounce_run [of "[(raw, now)]" s' rest] debounce_step [OF t up] up
      by (auto simp: Cons e debounce_event_def debounce_tracks_def)
  qed
qed

section \<open>Lifecycles\<close>

interpretation session_counter: nonzero_counter next_session_generation
  by unfold_locales (simp_all add: next_session_generation_def add_eq_0_iff2)

interpretation playback_counter: nonzero_counter next_playback_generation
  by unfold_locales (simp_all add: next_playback_generation_def)

text \<open>A playback has a generation while it is not idle, and a result while it drains.\<close>

definition playback_inv :: "SpeakerPlayback \<Rightarrow> bool" where
  "playback_inv s \<longleftrightarrow> (sp_phase s = PlaybackIdle \<longleftrightarrow> sp_active_generation s = 0) \<and>
     (sp_phase s \<noteq> PlaybackIdle \<longrightarrow> sp_active_generation s = sp_generation_counter s) \<and>
     (sp_phase s = PlaybackDraining \<longleftrightarrow> sp_pending_result s \<noteq> ResultNone)"

datatype PlaybackCall = PlRequest | PlStarted u32 | PlFinish u32 | PlCancel u32 | PlFail u32 | PlDrained u32

fun playback_step :: "SpeakerPlayback \<Rightarrow> PlaybackCall \<Rightarrow> SpeakerPlayback" where
  "playback_step s PlRequest = snd (playback_request s)"
| "playback_step s (PlStarted g) = snd (playback_mark_started s g)"
| "playback_step s (PlFinish g) = snd (playback_finish s g)"
| "playback_step s (PlCancel g) = snd (playback_cancel s g)"
| "playback_step s (PlFail g) = snd (playback_fail s g)"
| "playback_step s (PlDrained g) = snd (playback_mark_drained s g)"

lemma next_playback_nonzero: "next_playback_generation c \<noteq> 0"
  using playback_counter.next_nonzero .

lemmas playback_defs = playback_request_def playback_mark_started_def playback_finish_def playback_cancel_def playback_fail_def
  begin_drain_def playback_mark_drained_def speaker_playback_matches_def

interpretation playback: event_machine playback_step init_speaker_playback playback_inv
proof
  show "playback_inv init_speaker_playback" by (simp add: playback_inv_def init_speaker_playback_def)
  show "playback_inv (playback_step s e)" if "playback_inv s" for s e
    using that next_playback_nonzero [of "sp_generation_counter s"]
    by (cases e) (auto simp: playback_inv_def playback_defs Let_def)
qed

text \<open>Once a failure of a draining playback is accepted, the playback ends as failed.\<close>

lemma failure_sticks:
  assumes "sp_phase s = PlaybackDraining" "sp_pending_result s = ResultFailed"
  shows "sp_pending_result (playback_step s e) = ResultFailed \<and> sp_phase (playback_step s e) = PlaybackDraining \<or>
    sp_last_result (playback_step s e) = ResultFailed \<and> sp_last_completed_generation (playback_step s e) = sp_active_generation s"
  using assms by (cases e) (auto simp: playback_defs)

end
