(* ===== verification/Battery.thy ===== *)
theory Battery
  imports Prelude
begin

text \<open>
  \<^verbatim>\<open>components/keyboard/src/battery_estimator.cpp\<close>: the battery percentage from the
  supply voltage, and the learning of the voltage of a full battery.  Millivolts are integers,
  without the overflow of \<^verbatim>\<open>int\<close> that a reading of more than half a billion would cause;
  the division of C++ truncates, and its operands are positive here.
\<close>

definition kBatteryEmptyMv :: int where "kBatteryEmptyMv = 3300"
definition kBatteryNominalFullMv :: int where "kBatteryNominalFullMv = 4200"
definition kMinimumPlausibleFullMv :: int where "kMinimumPlausibleFullMv = 4000"
definition kMaximumPlausibleFullMv :: int where "kMaximumPlausibleFullMv = 4400"
definition kFullLearningMaxSpanMv :: int where "kFullLearningMaxSpanMv = 40"
definition kFullLearningDurationMs :: u32 where "kFullLearningDurationMs = 2 * 60 * 1000"
definition kFullLearningMinimumSamples :: u32 where "kFullLearningMinimumSamples = 3"

definition kBatteryCurve :: "(int \<times> int) list" where
  "kBatteryCurve = [(kBatteryEmptyMv, 0), (3500, 5), (3600, 10), (3650, 20), (3700, 30), (3740, 40), (3790, 50), (3850, 60),
     (3920, 70), (4000, 80), (4100, 90), (kBatteryNominalFullMv, 100)]"

definition plausible_full_anchor :: "int \<Rightarrow> bool" where
  "plausible_full_anchor measured_mv \<longleftrightarrow> measured_mv \<ge> kMinimumPlausibleFullMv \<and> measured_mv \<le> kMaximumPlausibleFullMv"

datatype BatteryPowerState = OnBattery | UsbUnknown | Charging | Full

fun battery_power_state_name :: "BatteryPowerState \<Rightarrow> string" where
  "battery_power_state_name OnBattery = ''battery''"
| "battery_power_state_name UsbUnknown = ''usb_unknown''"
| "battery_power_state_name Charging = ''charging''"
| "battery_power_state_name Full = ''full''"

definition battery_power_state_from_signals :: "bool \<Rightarrow> int \<Rightarrow> int \<Rightarrow> BatteryPowerState" where
  "battery_power_state_from_signals external_power_active charge_status_level charging_level =
     (if \<not> external_power_active then OnBattery
      else if charge_status_level < 0 then UsbUnknown
      else if charge_status_level = charging_level then Charging else Full)"

text \<open>The loop over the points of the curve: the first segment that the voltage does not exceed.\<close>

fun curve_percent :: "(int \<times> int) list \<Rightarrow> int \<Rightarrow> int" where
  "curve_percent ((low_mv, low_percent) # (high_mv, high_percent) # rest) rail_mv =
     (if rail_mv > high_mv then curve_percent ((high_mv, high_percent) # rest) rail_mv
      else
        let mv_span = high_mv - low_mv; percent_span = high_percent - low_percent;
            percent = low_percent + ((rail_mv - low_mv) * percent_span + mv_span div 2) div mv_span
        in clamp_int percent 0 100)"
| "curve_percent [(mv, percent)] rail_mv = percent"
| "curve_percent [] rail_mv = 0"

definition battery_percent_from_mv :: "int \<Rightarrow> int" where
  "battery_percent_from_mv rail_mv =
     (if rail_mv \<le> 0 \<or> rail_mv \<le> fst (hd kBatteryCurve) then snd (hd kBatteryCurve)
      else if rail_mv \<ge> fst (List.last kBatteryCurve) then snd (List.last kBatteryCurve)
      else curve_percent kBatteryCurve rail_mv)"

record BatteryEstimate =
  be_valid :: bool
  be_measured_mv :: int
  be_corrected_mv :: int
  be_percent :: int
  be_full_anchor_ready :: bool
  be_full_anchor_updated :: bool
  be_full_anchor_mv :: int

record BatteryEstimator =
  bt_full_anchor_mv :: int
  bt_filtered_mv :: int
  bt_percent :: int
  bt_estimate_ready :: bool
  bt_full_learning_started_ms :: u32
  bt_full_sample_count :: u32
  bt_full_sample_total_mv :: int
  bt_full_sample_min_mv :: int
  bt_full_sample_max_mv :: int

definition init_battery :: BatteryEstimator where
  "init_battery = \<lparr>bt_full_anchor_mv = 0, bt_filtered_mv = 0, bt_percent = 0, bt_estimate_ready = False,
     bt_full_learning_started_ms = 0, bt_full_sample_count = 0, bt_full_sample_total_mv = 0, bt_full_sample_min_mv = 0,
     bt_full_sample_max_mv = 0\<rparr>"

definition reset_full_learning :: "BatteryEstimator \<Rightarrow> BatteryEstimator" where
  "reset_full_learning s = s\<lparr>bt_full_learning_started_ms := 0, bt_full_sample_count := 0, bt_full_sample_total_mv := 0,
     bt_full_sample_min_mv := 0, bt_full_sample_max_mv := 0\<rparr>"

definition set_full_anchor_mv :: "BatteryEstimator \<Rightarrow> int \<Rightarrow> bool \<times> BatteryEstimator" where
  "set_full_anchor_mv s measured_full_mv =
     (if \<not> plausible_full_anchor measured_full_mv then (False, s)
      else (True, reset_full_learning (s\<lparr>bt_full_anchor_mv := measured_full_mv\<rparr>)))"

definition first_full_sample :: "BatteryEstimator \<Rightarrow> int \<Rightarrow> u32 \<Rightarrow> BatteryEstimator" where
  "first_full_sample s measured_mv now_ms = s\<lparr>bt_full_learning_started_ms := now_ms, bt_full_sample_count := 1,
     bt_full_sample_total_mv := measured_mv, bt_full_sample_min_mv := measured_mv, bt_full_sample_max_mv := measured_mv\<rparr>"

definition learn_full_anchor :: "BatteryEstimator \<Rightarrow> int \<Rightarrow> u32 \<Rightarrow> bool \<times> BatteryEstimator" where
  "learn_full_anchor s measured_mv now_ms =
     (if \<not> plausible_full_anchor measured_mv then (False, reset_full_learning s)
      else if bt_full_sample_count s = 0 then (False, first_full_sample s measured_mv now_ms)
      else
        let next_min = min (bt_full_sample_min_mv s) measured_mv; next_max = max (bt_full_sample_max_mv s) measured_mv
        in if next_max - next_min > kFullLearningMaxSpanMv
           then (False, first_full_sample (reset_full_learning s) measured_mv now_ms)
           else
             let s = s\<lparr>bt_full_sample_count := bt_full_sample_count s + 1,
                   bt_full_sample_total_mv := bt_full_sample_total_mv s + measured_mv,
                   bt_full_sample_min_mv := next_min, bt_full_sample_max_mv := next_max\<rparr>;
                 learning_ms = now_ms - bt_full_learning_started_ms s
             in if bt_full_sample_count s < kFullLearningMinimumSamples \<or> learning_ms < kFullLearningDurationMs then (False, s)
                else
                  let learned_mv = bt_full_sample_total_mv s div int (unat (bt_full_sample_count s));
                      (accepted, s') = set_full_anchor_mv s learned_mv
                  in if \<not> accepted then (False, reset_full_learning s') else (True, s'))"

definition corrected_mv :: "BatteryEstimator \<Rightarrow> int \<Rightarrow> int" where
  "corrected_mv s measured_mv =
     (if bt_full_anchor_mv s = 0 then measured_mv
      else clamp_int ((measured_mv * kBatteryNominalFullMv + bt_full_anchor_mv s div 2) div bt_full_anchor_mv s) 2500 4500)"

fun moved_percent :: "BatteryPowerState \<Rightarrow> int \<Rightarrow> int \<Rightarrow> int" where
  "moved_percent Full percent candidate = 100"
| "moved_percent Charging percent candidate = max percent (min candidate 99)"
| "moved_percent UsbUnknown percent candidate = max percent (min candidate 99)"
| "moved_percent OnBattery percent candidate = min percent candidate"

definition battery_update ::
  "BatteryEstimator \<Rightarrow> int \<Rightarrow> BatteryPowerState \<Rightarrow> u32 \<Rightarrow> BatteryEstimate \<times> BatteryEstimator" where
  "battery_update s measured_mv power_state now_ms =
     (let estimate = \<lparr>be_valid = False, be_measured_mv = measured_mv, be_corrected_mv = 0, be_percent = 0,
            be_full_anchor_ready = False, be_full_anchor_updated = False, be_full_anchor_mv = 0\<rparr>
      in if measured_mv \<le> 0 then (estimate, s)
      else
        let (anchor_updated, s) =
              (if power_state = Full \<and> bt_full_anchor_mv s = 0 then learn_full_anchor s measured_mv now_ms
               else if power_state \<noteq> Full then (False, reset_full_learning s) else (False, s));
            adjusted_mv = corrected_mv s measured_mv;
            s = s\<lparr>bt_filtered_mv := (if \<not> bt_estimate_ready s \<or> anchor_updated then adjusted_mv
                    else (bt_filtered_mv s * 3 + adjusted_mv + 2) div 4)\<rparr>;
            candidate_percent = battery_percent_from_mv (bt_filtered_mv s);
            s = (if \<not> bt_estimate_ready s then s\<lparr>bt_percent := candidate_percent, bt_estimate_ready := True\<rparr> else s);
            s = s\<lparr>bt_percent := moved_percent power_state (bt_percent s) candidate_percent\<rparr>
        in (estimate\<lparr>be_valid := True, be_corrected_mv := bt_filtered_mv s, be_percent := bt_percent s,
              be_full_anchor_ready := (bt_full_anchor_mv s \<noteq> 0), be_full_anchor_updated := anchor_updated,
              be_full_anchor_mv := bt_full_anchor_mv s\<rparr>, s))"

section \<open>The curve\<close>

fun curve_ok :: "(int \<times> int) list \<Rightarrow> bool" where
  "curve_ok ((l, lp) # (h, hp) # rest) \<longleftrightarrow> l < h \<and> 0 \<le> lp \<and> lp \<le> hp \<and> hp \<le> 100 \<and> curve_ok ((h, hp) # rest)"
| "curve_ok [(l, lp)] \<longleftrightarrow> 0 \<le> lp \<and> lp \<le> 100"
| "curve_ok [] \<longleftrightarrow> False"

definition segment :: "int \<Rightarrow> int \<Rightarrow> int \<Rightarrow> int \<Rightarrow> int \<Rightarrow> int" where
  "segment l lp h hp x = lp + ((x - l) * (hp - lp) + (h - l) div 2) div (h - l)"

lemma segment_mono: "l < h \<Longrightarrow> lp \<le> hp \<Longrightarrow> x \<le> y \<Longrightarrow> segment l lp h hp x \<le> segment l lp h hp y"
  unfolding segment_def by (intro add_left_mono zdiv_mono1 add_right_mono mult_right_mono) simp_all

lemma segment_ends: "l < h \<Longrightarrow> segment l lp h hp l = lp" "l < h \<Longrightarrow> segment l lp h hp h = hp"
  by (simp_all add: segment_def div_pos_pos_trivial add.commute)

lemma segment_range: "l < h \<Longrightarrow> lp \<le> hp \<Longrightarrow> l \<le> x \<Longrightarrow> x \<le> h \<Longrightarrow> lp \<le> segment l lp h hp x \<and> segment l lp h hp x \<le> hp"
  using segment_mono [of l h lp hp l x] segment_mono [of l h lp hp x h] segment_ends by metis

lemma curve_percent_segment:
  "curve_ok ((l, lp) # (h, hp) # rest) \<Longrightarrow> l \<le> x \<Longrightarrow> x \<le> h \<Longrightarrow> curve_percent ((l, lp) # (h, hp) # rest) x = segment l lp h hp x"
  using segment_range [of l h lp hp x] by (simp add: Let_def clamp_int_def segment_def)

lemma curve_percent_range:
  "curve_ok ((l, lp) # rest) \<Longrightarrow> l \<le> x \<Longrightarrow> lp \<le> curve_percent ((l, lp) # rest) x \<and> curve_percent ((l, lp) # rest) x \<le> 100"
proof (induction rest arbitrary: l lp)
  case Nil
  then show ?case by simp
next
  case (Cons p rest)
  obtain h hp where p: "p = (h, hp)" by fastforce
  show ?case
  proof (cases "x \<le> h")
    case True
    then show ?thesis
      using Cons.prems p curve_percent_segment [of l lp h hp rest x] segment_range [of l h lp hp x] by auto
  next
    case False
    then show ?thesis using Cons.prems Cons.IH [of h hp] p by auto
  qed
qed

lemma curve_percent_mono:
  "curve_ok ((l, lp) # rest) \<Longrightarrow> l \<le> x \<Longrightarrow> x \<le> y \<Longrightarrow> curve_percent ((l, lp) # rest) x \<le> curve_percent ((l, lp) # rest) y"
proof (induction rest arbitrary: l lp)
  case Nil
  then show ?case by simp
next
  case (Cons p rest)
  obtain h hp where p: "p = (h, hp)" by fastforce
  consider "y \<le> h" | "x \<le> h" "h < y" | "h < x" using Cons.prems by linarith
  then show ?case
  proof cases
    case 1
    then show ?thesis using Cons.prems p curve_percent_segment [of l lp h hp rest] segment_mono [of l h lp hp x y] by auto
  next
    case 2
    then have "curve_percent ((l, lp) # p # rest) x \<le> hp"
      using Cons.prems p curve_percent_segment [of l lp h hp rest x] segment_range [of l h lp hp x] by auto
    moreover have "hp \<le> curve_percent ((h, hp) # rest) y" using Cons.prems p 2 curve_percent_range [of h hp rest y] by auto
    ultimately show ?thesis using 2 p by simp
  next
    case 3
    then show ?thesis using Cons.prems Cons.IH [of h hp] p by auto
  qed
qed

lemma battery_curve_ok: "curve_ok kBatteryCurve"
  by (simp add: kBatteryCurve_def kBatteryEmptyMv_def kBatteryNominalFullMv_def)

lemma battery_percent_cases:
  "mv \<le> kBatteryEmptyMv \<Longrightarrow> battery_percent_from_mv mv = 0"
  "kBatteryNominalFullMv \<le> mv \<Longrightarrow> battery_percent_from_mv mv = 100"
  "kBatteryEmptyMv < mv \<Longrightarrow> mv < kBatteryNominalFullMv \<Longrightarrow> battery_percent_from_mv mv = curve_percent kBatteryCurve mv"
  by (simp_all add: battery_percent_from_mv_def kBatteryCurve_def kBatteryEmptyMv_def kBatteryNominalFullMv_def del: curve_percent.simps)

lemma battery_curve_cons: "kBatteryCurve = (kBatteryEmptyMv, 0) # tl kBatteryCurve"
  by (simp add: kBatteryCurve_def)

lemma battery_percent_range: "0 \<le> battery_percent_from_mv mv \<and> battery_percent_from_mv mv \<le> 100"
proof -
  consider "mv \<le> kBatteryEmptyMv" | "kBatteryNominalFullMv \<le> mv" | "kBatteryEmptyMv < mv" "mv < kBatteryNominalFullMv" by linarith
  then show ?thesis
    using curve_percent_range [of kBatteryEmptyMv 0 "tl kBatteryCurve" mv] battery_curve_ok battery_curve_cons battery_percent_cases
    by cases auto
qed

lemma battery_percent_mono:
  assumes "x \<le> y" shows "battery_percent_from_mv x \<le> battery_percent_from_mv y"
proof -
  consider "x \<le> kBatteryEmptyMv" | "kBatteryNominalFullMv \<le> y" | "kBatteryEmptyMv < x" "y < kBatteryNominalFullMv" by linarith
  then show ?thesis
  proof cases
    case 3
    then show ?thesis
      using curve_percent_mono [of kBatteryEmptyMv 0 "tl kBatteryCurve" x y] battery_curve_ok battery_curve_cons
        battery_percent_cases(3) [of x] battery_percent_cases(3) [of y] assms by auto
  qed (use battery_percent_range battery_percent_cases in auto)
qed

section \<open>Runs\<close>

datatype BatteryCall = BatterySample int BatteryPowerState u32 | BatteryAnchor int

fun battery_step :: "BatteryEstimator \<Rightarrow> BatteryCall \<Rightarrow> BatteryEstimator \<times> BatteryEstimate option" where
  "battery_step s (BatterySample mv power_state now_ms) = (let (estimate, s') = battery_update s mv power_state now_ms in (s', Some estimate))"
| "battery_step s (BatteryAnchor mv) = (snd (set_full_anchor_mv s mv), None)"

text \<open>
  The anchor is plausible, the percentage in range, and the samples of a learning phase lie within
  a narrow band of plausible voltages that their total agrees with.  The counter of samples may
  wrap; then nothing is claimed until learning starts again.
\<close>

definition battery_inv :: "BatteryEstimator \<Rightarrow> bool" where
  "battery_inv s \<longleftrightarrow> (bt_full_anchor_mv s = 0 \<or> plausible_full_anchor (bt_full_anchor_mv s)) \<and>
     0 \<le> bt_percent s \<and> bt_percent s \<le> 100 \<and>
     (bt_full_sample_count s \<noteq> 0 \<longrightarrow>
        kMinimumPlausibleFullMv \<le> bt_full_sample_min_mv s \<and> bt_full_sample_max_mv s \<le> kMaximumPlausibleFullMv \<and>
        bt_full_sample_max_mv s - bt_full_sample_min_mv s \<le> kFullLearningMaxSpanMv \<and>
        int (unat (bt_full_sample_count s)) * bt_full_sample_min_mv s \<le> bt_full_sample_total_mv s \<and>
        bt_full_sample_total_mv s \<le> int (unat (bt_full_sample_count s)) * bt_full_sample_max_mv s)"

lemma battery_inv_init: "battery_inv init_battery"
  by (simp add: battery_inv_def init_battery_def)

lemma battery_inv_reset: "battery_inv s \<Longrightarrow> battery_inv (reset_full_learning s)"
  by (simp add: battery_inv_def reset_full_learning_def)

lemma battery_inv_anchor: "battery_inv s \<Longrightarrow> battery_inv (snd (set_full_anchor_mv s mv))"
  by (simp add: battery_inv_def set_full_anchor_mv_def reset_full_learning_def)

lemma battery_inv_first: "battery_inv s \<Longrightarrow> plausible_full_anchor mv \<Longrightarrow> battery_inv (first_full_sample s mv now)"
  by (simp add: battery_inv_def first_full_sample_def plausible_full_anchor_def kFullLearningMaxSpanMv_def)

text \<open>One more sample in the band, unless the counter wraps.\<close>

lemma battery_inv_next:
  assumes "battery_inv s" "bt_full_sample_count s \<noteq> 0" "plausible_full_anchor mv"
    "max (bt_full_sample_max_mv s) mv - min (bt_full_sample_min_mv s) mv \<le> kFullLearningMaxSpanMv"
  shows "battery_inv (s\<lparr>bt_full_sample_count := bt_full_sample_count s + 1, bt_full_sample_total_mv := bt_full_sample_total_mv s + mv,
     bt_full_sample_min_mv := min (bt_full_sample_min_mv s) mv, bt_full_sample_max_mv := max (bt_full_sample_max_mv s) mv\<rparr>)"
proof -
  let ?n = "int (unat (bt_full_sample_count s))" and ?lo = "bt_full_sample_min_mv s" and ?hi = "bt_full_sample_max_mv s"
  have s: "?n * ?lo \<le> bt_full_sample_total_mv s" "bt_full_sample_total_mv s \<le> ?n * ?hi"
    using assms(1,2) by (simp_all add: battery_inv_def)
  have n: "int (unat (bt_full_sample_count s + 1)) = ?n + 1" if "bt_full_sample_count s + 1 \<noteq> 0"
    using unatSuc [of "bt_full_sample_count s"] that by (simp add: add.commute)
  have "?n * min ?lo mv \<le> ?n * ?lo" "?n * ?hi \<le> ?n * max ?hi mv" by (intro mult_left_mono; simp)+
  then have "(?n + 1) * min ?lo mv \<le> bt_full_sample_total_mv s + mv" "bt_full_sample_total_mv s + mv \<le> (?n + 1) * max ?hi mv"
    using s by (simp_all add: distrib_right)
  moreover have "kMinimumPlausibleFullMv \<le> min ?lo mv" "max ?hi mv \<le> kMaximumPlausibleFullMv"
    using assms(1-3) by (simp_all add: battery_inv_def plausible_full_anchor_def)
  ultimately show ?thesis using assms(1,4) n by (simp add: battery_inv_def)
qed

text \<open>What is learned is a plausible mean of the samples, so the learning never fails at its end.\<close>

lemma learned_mean:
  assumes "battery_inv s" "bt_full_sample_count s \<noteq> 0"
  shows "plausible_full_anchor (bt_full_sample_total_mv s div int (unat (bt_full_sample_count s)))"
proof -
  let ?n = "int (unat (bt_full_sample_count s))"
  have n: "0 < ?n" using assms(2) by (metis of_nat_0_less_iff unat_gt_0)
  have "?n * kMinimumPlausibleFullMv \<le> ?n * bt_full_sample_min_mv s" "?n * bt_full_sample_max_mv s \<le> ?n * kMaximumPlausibleFullMv"
    using assms by (intro mult_left_mono; simp add: battery_inv_def)+
  then have "?n * kMinimumPlausibleFullMv \<le> bt_full_sample_total_mv s" "bt_full_sample_total_mv s \<le> ?n * kMaximumPlausibleFullMv"
    using assms by (auto simp: battery_inv_def)
  then have "?n * kMinimumPlausibleFullMv div ?n \<le> bt_full_sample_total_mv s div ?n"
      "bt_full_sample_total_mv s div ?n \<le> ?n * kMaximumPlausibleFullMv div ?n"
    using n by (intro zdiv_mono1; simp)+
  then show ?thesis using n by (simp add: plausible_full_anchor_def)
qed

lemma battery_inv_learn:
  assumes inv: "battery_inv s" and learn: "learn_full_anchor s mv now = (updated, s')"
  shows "battery_inv s' \<and> bt_percent s' = bt_percent s \<and> bt_estimate_ready s' = bt_estimate_ready s"
proof -
  let ?next = "s\<lparr>bt_full_sample_count := bt_full_sample_count s + 1, bt_full_sample_total_mv := bt_full_sample_total_mv s + mv,
     bt_full_sample_min_mv := min (bt_full_sample_min_mv s) mv, bt_full_sample_max_mv := max (bt_full_sample_max_mv s) mv\<rparr>"
  consider "s' = reset_full_learning s" | "plausible_full_anchor mv" "s' = first_full_sample s mv now"
    | "plausible_full_anchor mv" "s' = first_full_sample (reset_full_learning s) mv now"
    | "s' = ?next" "battery_inv ?next"
    | accepted where "s' = snd (set_full_anchor_mv ?next accepted)" "battery_inv ?next"
    | accepted where "s' = reset_full_learning (snd (set_full_anchor_mv ?next accepted))" "battery_inv ?next"
    using learn battery_inv_next [OF inv, of mv]
    by (auto simp: learn_full_anchor_def Let_def split: if_splits prod.splits) (metis snd_conv)+
  then show ?thesis
  proof cases
    case 1
    then show ?thesis using battery_inv_reset [OF inv] by (simp add: reset_full_learning_def)
  next
    case 2
    then show ?thesis using battery_inv_first [OF inv] by (simp add: first_full_sample_def)
  next
    case 3
    then show ?thesis using battery_inv_first [OF battery_inv_reset [OF inv]] by (simp add: first_full_sample_def reset_full_learning_def)
  next
    case 4
    then show ?thesis by simp
  next
    case 5
    then show ?thesis using battery_inv_anchor [of ?next accepted] by (simp add: set_full_anchor_mv_def reset_full_learning_def)
  next
    case 6
    then show ?thesis
      using battery_inv_reset [OF battery_inv_anchor [of ?next accepted]] by (simp add: set_full_anchor_mv_def reset_full_learning_def)
  qed
qed

text \<open>The source of power decides which way the percentage may move.\<close>

definition follows :: "BatteryPowerState \<Rightarrow> int \<Rightarrow> int \<Rightarrow> bool" where
  "follows power_state before after \<longleftrightarrow>
     (case power_state of OnBattery \<Rightarrow> after \<le> before | Full \<Rightarrow> after = 100 | _ \<Rightarrow> before \<le> after)"

lemma battery_update_follows:
  assumes inv: "battery_inv s" and up: "battery_update s mv power_state now = (estimate, s')"
  shows "battery_inv s' \<and> (be_valid estimate \<longrightarrow> bt_estimate_ready s' \<and> be_percent estimate = bt_percent s' \<and>
      (bt_estimate_ready s \<longrightarrow> follows power_state (bt_percent s) (bt_percent s')) \<and>
      (power_state = Full \<longrightarrow> bt_percent s' = 100)) \<and> (\<not> be_valid estimate \<longrightarrow> s' = s)"
proof (cases "mv \<le> 0")
  case True
  then show ?thesis using up inv by (auto simp: battery_update_def)
next
  case False
  obtain updated s1 where s1: "(if power_state = Full \<and> bt_full_anchor_mv s = 0 then learn_full_anchor s mv now
      else if power_state \<noteq> Full then (False, reset_full_learning s) else (False, s)) = (updated, s1)" by fastforce
  then have i1: "battery_inv s1" "bt_percent s1 = bt_percent s" "bt_estimate_ready s1 = bt_estimate_ready s"
    using battery_inv_learn [OF inv] battery_inv_reset [OF inv] inv by (auto simp: reset_full_learning_def split: if_splits)
  define filtered where "filtered = (if \<not> bt_estimate_ready s1 \<or> updated then corrected_mv s1 mv
      else (bt_filtered_mv s1 * 3 + corrected_mv s1 mv + 2) div 4)"
  let ?candidate = "battery_percent_from_mv filtered"
  let ?percent = "moved_percent power_state (if bt_estimate_ready s1 then bt_percent s1 else ?candidate) ?candidate"
  have s': "s' = s1\<lparr>bt_filtered_mv := filtered, bt_percent := ?percent, bt_estimate_ready := True\<rparr>"
    and e: "be_valid estimate" "be_percent estimate = ?percent"
    using up False unfolding battery_update_def Let_def s1 by (auto simp: filtered_def)
  have c: "0 \<le> ?candidate" "?candidate \<le> 100" using battery_percent_range by simp_all
  then have "0 \<le> ?percent \<and> ?percent \<le> 100" using i1(1) by (cases power_state) (auto simp: battery_inv_def)
  then have "battery_inv s'" using i1(1) by (simp add: s' battery_inv_def)
  then show ?thesis using s' e i1 by (cases power_state) (auto simp: follows_def)
qed

lemma battery_inv_step: "battery_inv s \<Longrightarrow> battery_inv (fst (battery_step s call))"
  by (cases call) (auto simp: battery_inv_anchor split: prod.splits dest: battery_update_follows)

interpretation battery: event_machine "\<lambda>s call. fst (battery_step s call)" init_battery battery_inv
  by unfold_locales (rule battery_inv_init, rule battery_inv_step)

text \<open>The percentages reported while the source of power stays the same.\<close>

definition reported :: "('e \<times> BatteryEstimate option) list \<Rightarrow> int list" where
  "reported entries = [be_percent e. Some e \<leftarrow> map snd entries, be_valid e]"

definition steady :: "BatteryPowerState \<Rightarrow> int list \<Rightarrow> bool" where
  "steady power_state ps \<longleftrightarrow> sorted_wrt (follows power_state) ps \<and> (\<forall>p \<in> set ps. 0 \<le> p \<and> p \<le> 100) \<and>
     (power_state = Full \<longrightarrow> (\<forall>p \<in> set ps. p = 100))"

lemma follows_trans: "follows power_state a b \<Longrightarrow> follows power_state b c \<Longrightarrow> follows power_state a c"
  by (cases power_state) (auto simp: follows_def)

lemma steady_run:
  "battery_inv s \<Longrightarrow> steady power_state (reported (run_log battery_step s (map (\<lambda>(mv, now). BatterySample mv power_state now) readings))) \<and>
     (bt_estimate_ready s \<longrightarrow> (\<forall>p \<in> set (reported (run_log battery_step s (map (\<lambda>(mv, now). BatterySample mv power_state now) readings))).
        follows power_state (bt_percent s) p))"
proof (induction readings arbitrary: s)
  case Nil
  then show ?case by (simp add: reported_def steady_def)
next
  case (Cons reading readings)
  obtain mv now where r: "reading = (mv, now)" by fastforce
  obtain e s' where up: "battery_update s mv power_state now = (e, s')" by fastforce
  note f = battery_update_follows [OF Cons.prems up]
  let ?rest = "reported (run_log battery_step s' (map (\<lambda>(mv, now). BatterySample mv power_state now) readings))"
  have reported: "reported (run_log battery_step s (map (\<lambda>(mv, now). BatterySample mv power_state now) (reading # readings))) =
      (if be_valid e then be_percent e # ?rest else ?rest)"
    by (simp add: r up reported_def)
  have inv: "battery_inv s'" using f by simp
  note IH = Cons.IH [OF inv]
  show ?case
  proof (cases "be_valid e")
    case True
    then have s': "bt_estimate_ready s'" "be_percent e = bt_percent s'" "bt_estimate_ready s \<Longrightarrow> follows power_state (bt_percent s) (bt_percent s')"
        "power_state = Full \<Longrightarrow> bt_percent s' = 100"
      using f by simp_all
    have "0 \<le> bt_percent s'" "bt_percent s' \<le> 100" using inv by (simp_all add: battery_inv_def)
    then show ?thesis
      unfolding reported using True s' IH by (auto simp: steady_def intro: follows_trans)
  next
    case False
    then show ?thesis unfolding reported using IH f by simp
  qed
qed

text \<open>
  C35: from any state that calls reach, while the keyboard runs on battery the reported percentages only
  fall, while it charges or its charger is unknown they only rise, and while the charger says full
  they are 100; they are always between 0 and 100, whatever the readings.
\<close>
theorem battery_percentage_is_steady:
  "steady power_state (reported (run_log battery_step (run (\<lambda>s call. fst (battery_step s call)) init_battery calls)
     (map (\<lambda>(mv, now). BatterySample mv power_state now) readings)))"
  using steady_run [OF battery.inv_reachable] by simp

end
