(* ===== verification/Link_State.thy ===== *)
theory Link_State
  imports Hid_Queue
begin

text \<open>
  \<^verbatim>\<open>components/keyboard/src/ble_owner_recovery.cpp\<close>,
  \<^verbatim>\<open>ble_advertising_state.cpp\<close> and
  \<^verbatim>\<open>include/keyboard/ble_connection_profile.h\<close>: how a BLE connection that no longer
  delivers reports is torn down, which advertising profile runs, and when connection
  parameters are asked for again.  Times are 64-bit microseconds.
\<close>

unbundle bit_operations_syntax

section \<open>Recovery of a failed owner\<close>

definition kRetryDelayUs :: u64 where "kRetryDelayUs = 250000"
definition kTerminateRetryBudgetUs :: u64 where "kTerminateRetryBudgetUs = 1000000"
definition kOwnerLossTimeoutUs :: u64 where "kOwnerLossTimeoutUs = 1000000"
definition kHostResetRetryUs :: u64 where "kHostResetRetryUs = 1000000"

lemmas recovery_times = kRetryDelayUs_def kTerminateRetryBudgetUs_def kOwnerLossTimeoutUs_def kHostResetRetryUs_def

datatype RecoveryPhase = RecoveryIdle | Terminating | AwaitingOwnerLoss | AwaitingHostReset
datatype RecoveryAction = RecoveryNone | RequestTerminate | RequestHostReset | RecoveryCompleted
datatype TerminateResult = TermAccepted | TermRetryable | TermNotConnected | TermFailed

record BleOwnerRecoveryState =
  rc_phase :: RecoveryPhase
  rc_target :: BleOwnerToken
  rc_action_after_us :: u64
  rc_terminate_deadline_us :: u64

definition init_recovery :: BleOwnerRecoveryState where
  "init_recovery = \<lparr>rc_phase = RecoveryIdle, rc_target = no_owner, rc_action_after_us = 0, rc_terminate_deadline_us = 0\<rparr>"

definition recovery_reset :: "BleOwnerRecoveryState \<Rightarrow> BleOwnerRecoveryState" where
  "recovery_reset s = s\<lparr>rc_phase := RecoveryIdle, rc_target := no_owner, rc_action_after_us := 0, rc_terminate_deadline_us := 0\<rparr>"

definition recovery_pending :: "BleOwnerRecoveryState \<Rightarrow> bool" where
  "recovery_pending s \<longleftrightarrow> rc_phase s \<noteq> RecoveryIdle"

definition recovery_begin :: "BleOwnerRecoveryState \<Rightarrow> BleOwnerToken \<Rightarrow> u64 \<Rightarrow> bool \<times> BleOwnerRecoveryState" where
  "recovery_begin s target now_us =
     (if \<not> owner_valid target then (False, recovery_reset s)
      else (True, s\<lparr>rc_phase := Terminating, rc_target := target, rc_action_after_us := now_us,
              rc_terminate_deadline_us := now_us + kTerminateRetryBudgetUs\<rparr>))"

definition recovery_observe ::
  "BleOwnerRecoveryState \<Rightarrow> bool \<Rightarrow> bool \<Rightarrow> BleOwnerToken \<Rightarrow> u64 \<Rightarrow> RecoveryAction \<times> BleOwnerRecoveryState" where
  "recovery_observe s snapshot_valid adapter_connected adapter_owner now_us =
     (if \<not> recovery_pending s then (RecoveryNone, s)
      else if snapshot_valid \<and> (\<not> adapter_connected \<or> \<not> owner_valid adapter_owner \<or> adapter_owner \<noteq> rc_target s)
      then (RecoveryCompleted, recovery_reset s)
      else if rc_phase s = Terminating
      then if now_us \<ge> rc_terminate_deadline_us s then (RequestHostReset, s\<lparr>rc_phase := AwaitingHostReset\<rparr>)
           else if now_us < rc_action_after_us s then (RecoveryNone, s)
           else (RequestTerminate, s)
      else if now_us < rc_action_after_us s then (RecoveryNone, s)
      else if rc_phase s = AwaitingOwnerLoss then (RequestHostReset, s\<lparr>rc_phase := AwaitingHostReset\<rparr>)
      else if rc_phase s = AwaitingHostReset then (RequestHostReset, s)
      else (RecoveryNone, s))"

definition note_term_failure :: "BleOwnerRecoveryState \<Rightarrow> u16 \<Rightarrow> u64 \<Rightarrow> bool \<times> BleOwnerRecoveryState" where
  "note_term_failure s conn_handle now_us =
     (if \<not> recovery_pending s \<or> bo_conn_handle (rc_target s) \<noteq> conn_handle then (False, s)
      else (True, s\<lparr>rc_phase := AwaitingHostReset, rc_action_after_us := now_us\<rparr>))"

definition note_terminate_result :: "BleOwnerRecoveryState \<Rightarrow> TerminateResult \<Rightarrow> u64 \<Rightarrow> BleOwnerRecoveryState" where
  "note_terminate_result s result now_us =
     (if \<not> recovery_pending s then s
      else case result of
        TermAccepted \<Rightarrow> s\<lparr>rc_phase := AwaitingOwnerLoss, rc_action_after_us := now_us + kOwnerLossTimeoutUs\<rparr>
      | TermRetryable \<Rightarrow> s\<lparr>rc_phase := Terminating, rc_action_after_us := now_us + kRetryDelayUs\<rparr>
      | TermNotConnected \<Rightarrow> s\<lparr>rc_phase := AwaitingHostReset, rc_action_after_us := now_us\<rparr>
      | TermFailed \<Rightarrow> s\<lparr>rc_phase := AwaitingHostReset, rc_action_after_us := now_us\<rparr>)"

definition note_host_reset_scheduled :: "BleOwnerRecoveryState \<Rightarrow> u64 \<Rightarrow> BleOwnerRecoveryState" where
  "note_host_reset_scheduled s now_us =
     (if rc_phase s \<noteq> AwaitingHostReset then s else s\<lparr>rc_action_after_us := now_us + kHostResetRetryUs\<rparr>)"

section \<open>Advertising\<close>

datatype BleAdvertisingMode = AdvStopped | AdvDirected | AdvHidFast | AdvHidSlow | AdvHidConfig | AdvControlSlow | AdvControlConfig
datatype AdvertisingAction = AdvNone | AdvStop | AdvStart

record HostObservation =
  ho_generation_initialized :: bool
  ho_generation_changed :: bool
  ho_sync_changed :: bool

record BleAdvertisingState =
  ba_host_generation :: u32
  ba_started_host_generation :: u32
  ba_host_generation_observed :: bool
  ba_host_synced :: bool
  ba_current_mode :: BleAdvertisingMode

definition init_advertising :: BleAdvertisingState where
  "init_advertising = \<lparr>ba_host_generation = 0, ba_started_host_generation = 0, ba_host_generation_observed = False,
     ba_host_synced = False, ba_current_mode = AdvStopped\<rparr>"

definition note_stopped :: "BleAdvertisingState \<Rightarrow> BleAdvertisingState" where
  "note_stopped s = s\<lparr>ba_current_mode := AdvStopped, ba_started_host_generation := 0\<rparr>"

definition note_started :: "BleAdvertisingState \<Rightarrow> BleAdvertisingMode \<Rightarrow> BleAdvertisingState" where
  "note_started s mode = s\<lparr>ba_current_mode := mode, ba_started_host_generation := ba_host_generation s\<rparr>"

definition observe_host :: "BleAdvertisingState \<Rightarrow> u32 \<Rightarrow> bool \<Rightarrow> HostObservation \<times> BleAdvertisingState" where
  "observe_host s generation synced =
     (let observation = \<lparr>ho_generation_initialized = (generation \<noteq> 0 \<and> \<not> ba_host_generation_observed s),
            ho_generation_changed = (generation \<noteq> 0 \<and> ba_host_generation_observed s \<and> generation \<noteq> ba_host_generation s),
            ho_sync_changed = (synced \<noteq> ba_host_synced s)\<rparr>;
          s1 = (if ho_generation_changed observation \<or> \<not> synced
                then s\<lparr>ba_current_mode := AdvStopped, ba_started_host_generation := 0\<rparr> else s);
          s2 = (if generation \<noteq> 0 then s1\<lparr>ba_host_generation_observed := True\<rparr> else s1)
      in (observation, s2\<lparr>ba_host_generation := generation, ba_host_synced := synced\<rparr>))"

definition next_action :: "BleAdvertisingState \<Rightarrow> bool \<Rightarrow> BleAdvertisingMode \<Rightarrow> bool \<Rightarrow> AdvertisingAction \<times> BleAdvertisingState" where
  "next_action s advertising_active desired force_restart =
     (if \<not> ba_host_synced s \<or> ba_host_generation s = 0 then (AdvNone, s)
      else if \<not> advertising_active then (if desired = AdvStopped then AdvNone else AdvStart, note_stopped s)
      else if force_restart \<or> ba_current_mode s \<noteq> desired \<or> ba_started_host_generation s \<noteq> ba_host_generation s
      then (AdvStop, s)
      else (AdvNone, s))"

section \<open>Connection parameters\<close>

record BleConnectionParameters =
  cn_interval :: u16
  cn_latency :: u16
  cn_supervision_timeout :: u16

record BleConnectionProfileBounds =
  cb_minimum_interval :: u16
  cb_maximum_interval :: u16
  cb_maximum_latency :: u16
  cb_minimum_supervision_timeout :: u16

datatype BleConnectionUpdateDisposition = UpdateSettled | RetryImmediately | RetryWithBackoff

definition ble_connection_parameters_match :: "BleConnectionParameters \<Rightarrow> BleConnectionProfileBounds \<Rightarrow> bool" where
  "ble_connection_parameters_match actual expected \<longleftrightarrow>
     cn_interval actual \<ge> cb_minimum_interval expected \<and> cn_interval actual \<le> cb_maximum_interval expected \<and>
     cn_latency actual \<le> cb_maximum_latency expected \<and>
     cn_supervision_timeout actual \<ge> cb_minimum_supervision_timeout expected"

definition classify_ble_connection_update :: "bool \<Rightarrow> bool \<Rightarrow> bool \<Rightarrow> BleConnectionUpdateDisposition" where
  "classify_ble_connection_update update_succeeded desired_profile_changed_while_in_flight actual_parameters_match =
     (if desired_profile_changed_while_in_flight then RetryImmediately
      else if update_succeeded \<and> actual_parameters_match then UpdateSettled
      else RetryWithBackoff)"

definition ble_connection_update_retry_delay_us :: "u8 \<Rightarrow> int" where
  "ble_connection_update_retry_delay_us retry_attempt =
     (let shift = (if retry_attempt < 4 then unat retry_attempt else 4) in push_bit shift (500 * 1000))"

definition ble_input_delivery_requires_active_profile :: "bool \<Rightarrow> bool \<Rightarrow> bool" where
  "ble_input_delivery_requires_active_profile connected delivery_pending \<longleftrightarrow> connected \<and> delivery_pending"

text \<open>The delay between retries grows to eight seconds.\<close>

lemma retry_delay_bounds: "500000 \<le> ble_connection_update_retry_delay_us n \<and> ble_connection_update_retry_delay_us n \<le> 8000000"
proof -
  define k where "k = (if n < 4 then unat n else 4)"
  have "k \<le> 4" by (simp add: k_def word_less_nat_alt)
  then have "(2::int) ^ k \<le> 2 ^ 4" "(1::int) \<le> 2 ^ k" by (intro power_increasing) auto
  then show ?thesis unfolding ble_connection_update_retry_delay_us_def Let_def k_def [symmetric] push_bit_eq_mult by simp
qed

section \<open>Advertising converges\<close>

text \<open>The platform carries an answer out: a stop and a start succeed.\<close>

definition carry_out :: "BleAdvertisingMode \<Rightarrow> BleAdvertisingState \<times> bool \<Rightarrow> BleAdvertisingState \<times> bool" where
  "carry_out desired = (\<lambda>(s, active).
     let (action, s') = next_action s active desired False
     in case action of
          AdvNone \<Rightarrow> (s', active)
        | AdvStop \<Rightarrow> (note_stopped s', False)
        | AdvStart \<Rightarrow> (note_started s' desired, True))"

lemma advertising_converges:
  assumes "ba_host_synced s" "ba_host_generation s \<noteq> 0" "ba_current_mode s = AdvStopped \<longrightarrow> ba_started_host_generation s = 0"
    "(s', active') = carry_out desired (carry_out desired (s, active))"
  shows "fst (next_action s' active' desired False) = AdvNone \<and> (active' \<longleftrightarrow> desired \<noteq> AdvStopped) \<and>
    (active' \<longrightarrow> ba_current_mode s' = desired \<and> ba_started_host_generation s' = ba_host_generation s)"
  using assms
  by (cases active; cases "desired = AdvStopped")
    (auto simp: carry_out_def next_action_def note_stopped_def note_started_def Let_def split: if_splits)

section \<open>Recovery does not stall\<close>

datatype RecoveryCall =
    RcBegin BleOwnerToken u64
  | RcObserve bool bool BleOwnerToken u64
  | RcTermFailure u16 u64
  | RcTerminateResult TerminateResult u64
  | RcHostReset u64
  | RcReset

fun recovery_step :: "BleOwnerRecoveryState \<Rightarrow> RecoveryCall \<Rightarrow> BleOwnerRecoveryState" where
  "recovery_step s (RcBegin target now) = snd (recovery_begin s target now)"
| "recovery_step s (RcObserve valid connected owner now) = snd (recovery_observe s valid connected owner now)"
| "recovery_step s (RcTermFailure conn_handle now) = snd (note_term_failure s conn_handle now)"
| "recovery_step s (RcTerminateResult result now) = note_terminate_result s result now"
| "recovery_step s (RcHostReset now) = note_host_reset_scheduled s now"
| "recovery_step s RcReset = recovery_reset s"

fun call_time :: "RecoveryCall \<Rightarrow> u64" where
  "call_time (RcBegin target now) = now"
| "call_time (RcObserve valid connected owner now) = now"
| "call_time (RcTermFailure conn_handle now) = now"
| "call_time (RcTerminateResult result now) = now"
| "call_time (RcHostReset now) = now"
| "call_time RcReset = 0"

text \<open>The next action is due at most a second after the last call, and the target is a connection.\<close>

definition due_by :: "u64 \<Rightarrow> BleOwnerRecoveryState \<Rightarrow> bool" where
  "due_by latest s \<longleftrightarrow> recovery_pending s \<longrightarrow>
     owner_valid (rc_target s) \<and> unat (rc_action_after_us s) \<le> unat latest + 1000000 \<and>
     unat (rc_terminate_deadline_us s) \<le> unat latest + 1000000"

lemma unat_later: "unat now \<le> unat latest \<Longrightarrow> unat (d :: u64) \<le> 1000000 \<Longrightarrow> unat (now + d) \<le> unat latest + 1000000"
proof -
  assume le: "unat now \<le> unat latest" "unat d \<le> 1000000"
  have "unat (now + d) \<le> unat now + unat d" by (simp add: unat_word_ariths(1))
  then show ?thesis using le by linarith
qed

lemma due_by_step:
  assumes "due_by latest s" "call_time e \<le> latest"
  shows "due_by latest (recovery_step s e)"
proof -
  have t: "unat (call_time e) \<le> unat latest" using assms(2) by (simp add: word_le_nat_alt)
  have l: "unat (call_time e + kTerminateRetryBudgetUs) \<le> unat latest + 1000000"
    "unat (call_time e + kOwnerLossTimeoutUs) \<le> unat latest + 1000000"
    "unat (call_time e + kRetryDelayUs) \<le> unat latest + 1000000"
    "unat (call_time e + kHostResetRetryUs) \<le> unat latest + 1000000"
    by (rule unat_later [OF t], simp add: recovery_times)+
  show ?thesis
    using assms(1) t l
    by (cases e) (auto simp: due_by_def recovery_begin_def recovery_observe_def note_term_failure_def note_terminate_result_def
        note_host_reset_scheduled_def recovery_reset_def recovery_pending_def split: TerminateResult.splits)
qed

lemma due_by_run: "\<forall>e \<in> set es. call_time e \<le> latest \<Longrightarrow> due_by latest s \<Longrightarrow> due_by latest (run recovery_step s es)"
  by (induction es arbitrary: s) (simp_all add: due_by_step)

text \<open>
  After any calls, a recovery that is pending a second after the last of them (on the 64-bit
  clock, before it wraps) asks for something at the next observation: a termination, a host reset,
  or it completes; and it completes exactly when a valid snapshot shows that the failed owner is
  gone, never on the word of a terminate request.
\<close>
lemma recovery_never_stalls:
  assumes "\<forall>e \<in> set es. call_time e \<le> latest" "unat latest + 1000000 \<le> unat now"
    "recovery_pending (run recovery_step init_recovery es)"
  shows "fst (recovery_observe (run recovery_step init_recovery es) snapshot_valid connected owner now) \<noteq> RecoveryNone \<and>
    (fst (recovery_observe (run recovery_step init_recovery es) snapshot_valid connected owner now) = RecoveryCompleted \<longleftrightarrow>
       snapshot_valid \<and> \<not> (connected \<and> owner = rc_target (run recovery_step init_recovery es)))"
proof -
  let ?s = "run recovery_step init_recovery es"
  have "due_by latest ?s" by (rule due_by_run [OF assms(1)]) (simp add: due_by_def recovery_pending_def init_recovery_def)
  then have due: "owner_valid (rc_target ?s)" "rc_action_after_us ?s \<le> now" "rc_terminate_deadline_us ?s \<le> now"
    using assms(2,3) by (auto simp: due_by_def word_le_nat_alt)
  then show ?thesis
    using assms(3) by (cases "rc_phase ?s") (auto simp: recovery_observe_def recovery_pending_def not_less)
qed

lemma recovery_never_stalls_witness:
  "fst (recovery_observe (run recovery_step init_recovery [RcBegin \<lparr>bo_conn_handle = 1, bo_generation = 1\<rparr> 5, RcTerminateResult TermNotConnected 7])
      True True \<lparr>bo_conn_handle = 1, bo_generation = 1\<rparr> 2000000) \<noteq> RecoveryNone"
proof -
  let ?es = "[RcBegin \<lparr>bo_conn_handle = 1, bo_generation = 1\<rparr> 5, RcTerminateResult TermNotConnected 7]"
  have "recovery_pending (run recovery_step init_recovery ?es)"
    by (simp add: recovery_pending_def recovery_begin_def owner_valid_def kNoConnection_def note_terminate_result_def)
  moreover have "\<forall>e \<in> set ?es. call_time e \<le> 7" by simp
  ultimately show ?thesis by (intro recovery_never_stalls [of ?es 7 2000000, THEN conjunct1]) simp_all
qed

end
