(* ===== verification/Platform_Selection.thy ===== *)
theory Platform_Selection
  imports Keymap
begin

text \<open>
  \<^verbatim>\<open>components/keyboard/src/platform_selection.cpp\<close>: after power-on KEY1 or KEY2 chooses the
  host platform.  Key edges that belong to the choice do not reach the keymap.
\<close>

unbundle bit_operations_syntax

definition kPlatformSelectionChordGuardMs :: u32 where "kPlatformSelectionChordGuardMs = 100"

datatype PlatformSelectionOutcome = OutcomeNone | ChoseMacOS | ChoseWindows | Conflict | TimedOut | Cancelled

record PlatformSelectionResult =
  ps_consumed :: bool
  ps_outcome :: PlatformSelectionOutcome

record PlatformSelectionController =
  pz_active :: bool
  pz_timeout_deadline_ms :: u32
  pz_decision_deadline_ms :: u32
  pz_seen_mask :: u8
  pz_down_mask :: u8
  pz_drain_mask :: u8

definition init_platform_selection :: PlatformSelectionController where
  "init_platform_selection = \<lparr>pz_active = False, pz_timeout_deadline_ms = 0, pz_decision_deadline_ms = 0, pz_seen_mask = 0,
     pz_down_mask = 0, pz_drain_mask = 0\<rparr>"

definition kKey1Mask :: u8 where "kKey1Mask = push_bit 0 1"
definition kKey2Mask :: u8 where "kKey2Mask = push_bit 1 1"
definition kConflictMask :: u8 where "kConflictMask = kKey1Mask OR kKey2Mask"

definition platform_key_mask :: "InputId \<Rightarrow> u8" where
  "platform_key_mask key = (if key = Key1 then kKey1Mask else if key = Key2 then kKey2Mask else 0)"

definition deadline_reached :: "u32 \<Rightarrow> u32 \<Rightarrow> bool" where
  "deadline_reached now_ms deadline_ms \<longleftrightarrow> sint (now_ms - deadline_ms) \<ge> 0"

definition platform_arm :: "u32 \<Rightarrow> u32 \<Rightarrow> PlatformSelectionController" where
  "platform_arm now_ms timeout_ms = \<lparr>pz_active = True, pz_timeout_deadline_ms = now_ms + timeout_ms, pz_decision_deadline_ms = 0,
     pz_seen_mask = 0, pz_down_mask = 0, pz_drain_mask = 0\<rparr>"

definition selection_result :: "bool \<Rightarrow> PlatformSelectionOutcome \<Rightarrow> PlatformSelectionResult" where
  "selection_result consumed outcome = \<lparr>ps_consumed = consumed, ps_outcome = outcome\<rparr>"

definition platform_finish ::
  "PlatformSelectionController \<Rightarrow> PlatformSelectionOutcome \<Rightarrow> bool \<Rightarrow> PlatformSelectionResult \<times> PlatformSelectionController" where
  "platform_finish s outcome consumed = (selection_result consumed outcome,
     s\<lparr>pz_drain_mask := pz_drain_mask s OR pz_down_mask s, pz_active := False, pz_timeout_deadline_ms := 0,
       pz_decision_deadline_ms := 0, pz_seen_mask := 0, pz_down_mask := 0\<rparr>)"

definition platform_update :: "PlatformSelectionController \<Rightarrow> u32 \<Rightarrow> PlatformSelectionResult \<times> PlatformSelectionController" where
  "platform_update s now_ms =
     (if \<not> pz_active s then (selection_result False OutcomeNone, s)
      else if deadline_reached now_ms (pz_timeout_deadline_ms s) then platform_finish s TimedOut False
      else if pz_decision_deadline_ms s \<noteq> 0 \<and> deadline_reached now_ms (pz_decision_deadline_ms s)
      then platform_finish s (if pz_seen_mask s = kKey2Mask then ChoseWindows else ChoseMacOS) False
      else (selection_result False OutcomeNone, s))"

text \<open>An edge of a key that is being drained, after the choice has ended.\<close>

definition drain_edge :: "PlatformSelectionController \<Rightarrow> u8 \<Rightarrow> InputPhase \<Rightarrow> bool \<times> PlatformSelectionController" where
  "drain_edge s key_mask phase =
     (if key_mask \<noteq> 0 \<and> (pz_drain_mask s AND key_mask) \<noteq> 0
      then (True, if phase = Released then s\<lparr>pz_drain_mask := pz_drain_mask s AND NOT key_mask\<rparr> else s)
      else (False, s))"

definition handle_platform_event ::
  "PlatformSelectionController \<Rightarrow> InputId \<Rightarrow> InputPhase \<Rightarrow> u32 \<Rightarrow> PlatformSelectionResult \<times> PlatformSelectionController" where
  "handle_platform_event s key phase now_ms =
     (let key_mask = platform_key_mask key
      in if \<not> pz_active s
         then let (consumed, s') = drain_edge s key_mask phase in (selection_result consumed OutcomeNone, s')
         else
           let (elapsed_result, s1) = platform_update s now_ms
           in if ps_outcome elapsed_result \<noteq> OutcomeNone
              then let (consumed, s2) = drain_edge s1 key_mask phase
                   in (elapsed_result\<lparr>ps_consumed := ps_consumed elapsed_result \<or> consumed\<rparr>, s2)
              else if key_mask = 0
              then if phase = Pressed then platform_finish s Cancelled False else (selection_result False OutcomeNone, s)
              else if phase = Pressed
              then
                let s3 = s\<lparr>pz_seen_mask := pz_seen_mask s OR key_mask, pz_down_mask := pz_down_mask s OR key_mask,
                      pz_decision_deadline_ms := 0\<rparr>
                in if pz_seen_mask s3 = kConflictMask then platform_finish s3 Conflict True
                   else (selection_result True OutcomeNone, s3)
              else
                let s4 = s\<lparr>pz_down_mask := pz_down_mask s AND NOT key_mask\<rparr>
                in (selection_result True OutcomeNone,
                    if pz_seen_mask s4 \<noteq> 0 \<and> pz_down_mask s4 = 0
                    then s4\<lparr>pz_decision_deadline_ms := now_ms + kPlatformSelectionChordGuardMs\<rparr> else s4))"

section \<open>The masks as sets\<close>

datatype PlatformCall = PlatformEdge InputId InputPhase u32 | PlatformPoll u32

fun platform_step :: "PlatformSelectionController \<Rightarrow> PlatformCall \<Rightarrow> PlatformSelectionController \<times> PlatformSelectionResult" where
  "platform_step s (PlatformEdge key phase now) = (let (r, s') = handle_platform_event s key phase now in (s', r))"
| "platform_step s (PlatformPoll now) = (let (r, s') = platform_update s now in (s', r))"

definition choice_keys :: "InputId set" where "choice_keys = {Key1, Key2}"

definition mask_of :: "InputId set \<Rightarrow> u8" where
  "mask_of K = (if Key1 \<in> K then kKey1Mask else 0) OR (if Key2 \<in> K then kKey2Mask else 0)"

lemma mask_values: "mask_of K = (if Key1 \<in> K then (if Key2 \<in> K then 3 else 1) else (if Key2 \<in> K then 2 else 0))"
  by (simp add: mask_of_def kKey1Mask_def kKey2Mask_def)

lemma key_mask_values: "platform_key_mask key = (if key = Key1 then 1 else if key = Key2 then 2 else 0)"
  by (simp add: platform_key_mask_def kKey1Mask_def kKey2Mask_def)

lemma mask_insert: "mask_of K OR platform_key_mask key = mask_of (insert key K)"
  by (auto simp: mask_values key_mask_values)

lemma mask_remove: "mask_of K AND NOT (platform_key_mask key) = mask_of (K - {key})"
  by (auto simp: mask_values key_mask_values)

lemma mask_member: "platform_key_mask key \<noteq> 0 \<and> mask_of K AND platform_key_mask key \<noteq> 0 \<longleftrightarrow> key \<in> K \<inter> choice_keys"
  by (auto simp: mask_values key_mask_values choice_keys_def)

lemma mask_zero: "platform_key_mask key = 0 \<longleftrightarrow> key \<notin> choice_keys"
  by (auto simp: key_mask_values choice_keys_def)


section \<open>Genuine choices\<close>

text \<open>Edges come in pairs: a key that is down is released, one that is up is pressed.\<close>

fun paired :: "InputId set \<Rightarrow> PlatformCall list \<Rightarrow> bool" where
  "paired down [] \<longleftrightarrow> True"
| "paired down (PlatformEdge key Pressed now # calls) \<longleftrightarrow> key \<notin> down \<and> paired (insert key down) calls"
| "paired down (PlatformEdge key Released now # calls) \<longleftrightarrow> key \<in> down \<and> paired (down - {key}) calls"
| "paired down (PlatformPoll now # calls) \<longleftrightarrow> paired down calls"

text \<open>
  Two sets read off the log: the keys that are down and whose press was consumed, and the keys
  pressed since the controller was armed.  A release is consumed exactly after a consumed press,
  and the outcome is what the keys pressed so far say.
\<close>

fun swallowed :: "InputId set \<Rightarrow> PlatformCall \<Rightarrow> PlatformSelectionResult \<Rightarrow> InputId set" where
  "swallowed K (PlatformEdge key Pressed now) r = (if ps_consumed r then insert key K else K)"
| "swallowed K (PlatformEdge key Released now) r = K - {key}"
| "swallowed K (PlatformPoll now) r = K"

fun pressed_keys :: "InputId set \<Rightarrow> PlatformCall \<Rightarrow> InputId set" where
  "pressed_keys S (PlatformEdge key Pressed now) = insert key S"
| "pressed_keys S call = S"

definition entry_genuine :: "InputId set \<Rightarrow> InputId set \<Rightarrow> PlatformCall \<Rightarrow> PlatformSelectionResult \<Rightarrow> bool" where
  "entry_genuine K S call r \<longleftrightarrow>
     (\<forall>key now. call = PlatformEdge key Released now \<longrightarrow> (ps_consumed r \<longleftrightarrow> key \<in> K)) \<and>
     (ps_outcome r = ChoseMacOS \<longrightarrow> S = {Key1}) \<and> (ps_outcome r = ChoseWindows \<longrightarrow> S = {Key2}) \<and>
     (ps_outcome r = Conflict \<longrightarrow> pressed_keys S call = choice_keys)"

fun log_genuine :: "InputId set \<Rightarrow> InputId set \<Rightarrow> (PlatformCall \<times> PlatformSelectionResult) list \<Rightarrow> bool" where
  "log_genuine K S [] \<longleftrightarrow> True"
| "log_genuine K S ((call, r) # entries) \<longleftrightarrow> entry_genuine K S call r \<and> log_genuine (swallowed K call r) (pressed_keys S call) entries"

text \<open>The masks are these sets; \<open>D\<close> are the keys that are down.\<close>

definition selection_rel :: "PlatformSelectionController \<Rightarrow> InputId set \<Rightarrow> InputId set \<Rightarrow> InputId set \<Rightarrow> bool" where
  "selection_rel s D K S \<longleftrightarrow> K \<subseteq> D \<inter> choice_keys \<and>
     (if pz_active s
      then K = D \<inter> choice_keys \<and> pz_down_mask s = mask_of K \<and> pz_drain_mask s = 0 \<and>
           S \<subset> choice_keys \<and> pz_seen_mask s = mask_of S \<and> (pz_decision_deadline_ms s \<noteq> 0 \<longrightarrow> S \<noteq> {})
      else pz_drain_mask s = mask_of K \<and> pz_down_mask s = 0)"

lemma mask_empty [simp]: "mask_of {} = 0"
  by (simp add: mask_of_def)

lemma mask_inj: "K \<subseteq> choice_keys \<Longrightarrow> L \<subseteq> choice_keys \<Longrightarrow> mask_of K = mask_of L \<longleftrightarrow> K = L"
  by (auto simp: mask_values choice_keys_def split: if_splits)

lemma update_rel:
  assumes "selection_rel s D K S" "platform_update s now = (r, s')"
  shows "selection_rel s' D K S \<and> \<not> ps_consumed r \<and> (ps_outcome r = ChoseMacOS \<longrightarrow> S = {Key1}) \<and>
    (ps_outcome r = ChoseWindows \<longrightarrow> S = {Key2}) \<and> ps_outcome r \<noteq> Conflict \<and>
    (ps_outcome r = OutcomeNone \<longrightarrow> s' = s) \<and> (ps_outcome r \<noteq> OutcomeNone \<longrightarrow> \<not> pz_active s')"
proof -
  have "pz_seen_mask s = kKey2Mask \<longleftrightarrow> S = {Key2}" if "pz_active s"
    using that assms(1) mask_inj [of S "{Key2}"] by (auto simp: selection_rel_def kKey2Mask_def choice_keys_def mask_values split: if_splits)
  moreover have "S = {Key1}" if "pz_active s" "pz_decision_deadline_ms s \<noteq> 0" "S \<noteq> {Key2}"
    using that assms(1) by (auto simp: selection_rel_def choice_keys_def)
  ultimately show ?thesis
    using assms by (auto simp: platform_update_def platform_finish_def selection_result_def selection_rel_def split: if_splits)
qed

lemma drain_rel:
  assumes "selection_rel s D K S" "\<not> pz_active s" "drain_edge s (platform_key_mask key) phase = (consumed, s')"
  shows "(consumed \<longleftrightarrow> key \<in> K) \<and> \<not> pz_active s' \<and> pz_down_mask s' = 0 \<and>
    pz_drain_mask s' = mask_of (if phase = Released then K - {key} else K)"
proof -
  have "key \<noteq> Key1 \<Longrightarrow> key \<noteq> Key2 \<Longrightarrow> K - {key} = K" "key \<notin> K \<Longrightarrow> K - {key} = K"
    using assms(1) by (auto simp: selection_rel_def choice_keys_def)
  then show ?thesis
    using assms mask_member [of key K] mask_remove [of K key]
    by (auto simp: drain_edge_def selection_rel_def choice_keys_def split: if_splits)
qed


lemma polled_rel:
  assumes "selection_rel s D K S" "platform_step s (PlatformPoll now) = (s', r)"
  shows "entry_genuine K S (PlatformPoll now) r \<and> selection_rel s' D K S"
  using assms update_rel [OF assms(1)] by (auto simp: entry_genuine_def split: prod.splits)

lemma inactive_rel:
  assumes rel: "selection_rel s D K S" and idle: "\<not> pz_active s" and drain: "drain_edge s (platform_key_mask key) phase = (consumed, s')"
    and pair: "(phase = Pressed) = (key \<notin> D)"
  shows "(consumed \<longleftrightarrow> key \<in> K) \<and>
    (phase = Pressed \<longrightarrow> \<not> consumed \<and> selection_rel s' (insert key D) K S') \<and>
    (phase = Released \<longrightarrow> selection_rel s' (D - {key}) (K - {key}) S')"
proof -
  note d = drain_rel [OF rel idle drain]
  have "K \<subseteq> D \<inter> choice_keys" using rel by (simp add: selection_rel_def)
  then show ?thesis using d pair by (cases phase) (auto simp: selection_rel_def)
qed

text \<open>An edge while the choice is open and no deadline has passed.\<close>

lemma open_edge_rel:
  assumes rel: "selection_rel s D K S" and active: "pz_active s" and pair: "(phase = Pressed) = (key \<notin> D)"
    and h: "handle_platform_event s key phase now = (r, s')" and quiet: "ps_outcome (fst (platform_update s now)) = OutcomeNone"
  shows "entry_genuine K S (PlatformEdge key phase now) r \<and>
    selection_rel s' (if phase = Pressed then insert key D else D - {key}) (swallowed K (PlatformEdge key phase now) r)
      (pressed_keys S (PlatformEdge key phase now))"
proof -
  have K: "K = D \<inter> choice_keys" "pz_down_mask s = mask_of K" "pz_drain_mask s = 0" "S \<subset> choice_keys" "pz_seen_mask s = mask_of S"
    "pz_decision_deadline_ms s \<noteq> 0 \<longrightarrow> S \<noteq> {}"
    using rel active by (simp_all add: selection_rel_def)
  show ?thesis
  proof (cases "key \<in> choice_keys")
    case False
    then have "platform_key_mask key = 0" by (simp add: mask_zero)
    then show ?thesis
      using h quiet active pair K False
      by (cases phase) (auto simp: handle_platform_event_def Let_def platform_finish_def selection_result_def entry_genuine_def
          selection_rel_def split: prod.splits)
  next
    case True
    then have nz: "platform_key_mask key \<noteq> 0" by (simp add: mask_zero)
    show ?thesis
    proof (cases phase)
      case Pressed
      have "mask_of (insert key S) = kConflictMask \<longleftrightarrow> insert key S = choice_keys"
        using mask_inj [of "insert key S" choice_keys] True K(4) by (auto simp: kConflictMask_def mask_of_def choice_keys_def)
      moreover have "insert key S \<subseteq> choice_keys" "insert key K = insert key D \<inter> choice_keys" using True K(1,4) by auto
      ultimately show ?thesis
        using h quiet active pair K nz Pressed
        by (auto simp: handle_platform_event_def Let_def platform_finish_def selection_result_def entry_genuine_def
          selection_rel_def mask_insert split: prod.splits if_splits)
    next
      case Released
      have "mask_of S \<noteq> 0 \<longleftrightarrow> S \<noteq> {}" using mask_inj [of S "{}"] K(4) by auto
      then show ?thesis
        using h quiet active pair K nz Released True
        by (auto simp: handle_platform_event_def Let_def selection_result_def entry_genuine_def
          selection_rel_def mask_remove split: prod.splits if_splits)
    qed
  qed
qed


fun call_down :: "InputId set \<Rightarrow> PlatformCall \<Rightarrow> InputId set" where
  "call_down D (PlatformEdge key Pressed now) = insert key D"
| "call_down D (PlatformEdge key Released now) = D - {key}"
| "call_down D (PlatformPoll now) = D"

lemma selection_step:
  assumes rel: "selection_rel s D K S" and pair: "paired D (call # calls)" and step: "platform_step s call = (s', r)"
  shows "entry_genuine K S call r \<and> selection_rel s' (call_down D call) (swallowed K call r) (pressed_keys S call) \<and>
    paired (call_down D call) calls"
proof (cases call)
  case (PlatformPoll now)
  then show ?thesis using polled_rel [OF rel] step pair by simp
next
  case (PlatformEdge key phase now)
  have p: "(phase = Pressed) = (key \<notin> D)" and rest: "paired (call_down D call) calls"
    using pair by (cases phase; simp add: PlatformEdge)+
  have h: "handle_platform_event s key phase now = (r, s')" using step by (auto simp: PlatformEdge split: prod.splits)
  consider "\<not> pz_active s" | "pz_active s" "ps_outcome (fst (platform_update s now)) = OutcomeNone"
    | "pz_active s" "ps_outcome (fst (platform_update s now)) \<noteq> OutcomeNone" by blast
  then show ?thesis
  proof cases
    case 1
    obtain consumed t where d: "drain_edge s (platform_key_mask key) phase = (consumed, t)" by fastforce
    then have "r = selection_result consumed OutcomeNone" "s' = t" using h 1 by (simp_all add: handle_platform_event_def Let_def)
    then show ?thesis
      using inactive_rel [OF rel 1 d p] rest by (cases phase) (auto simp: PlatformEdge entry_genuine_def selection_result_def)
  next
    case 2
    then show ?thesis
      using open_edge_rel [OF rel 2(1) p h 2(2)] rest by (cases phase) (auto simp: PlatformEdge)
  next
    case 3
    obtain r1 s1 where u: "platform_update s now = (r1, s1)" by fastforce
    obtain consumed t where d: "drain_edge s1 (platform_key_mask key) phase = (consumed, t)" by fastforce
    note up = update_rel [OF rel u]
    then have "\<not> pz_active s1" using 3(2) u by simp
    moreover have "r = r1\<lparr>ps_consumed := ps_consumed r1 \<or> consumed\<rparr>" "s' = t"
      using h 3 u d by (simp_all add: handle_platform_event_def Let_def)
    ultimately show ?thesis
      using inactive_rel [of s1 D K S key phase consumed t] up d p rest
      by (cases phase) (auto simp: PlatformEdge entry_genuine_def)
  qed
qed

lemma selection_run:
  "selection_rel s D K S \<Longrightarrow> paired D calls \<Longrightarrow> log_genuine K S (run_log platform_step s calls)"
proof (induction calls arbitrary: s D K S)
  case Nil
  then show ?case by simp
next
  case (Cons call calls)
  obtain s' r where "platform_step s call = (s', r)" by fastforce
  then show ?case using selection_step [OF Cons.prems] Cons.IH by auto
qed

text \<open>
  C36: once armed with both keys up, and with edges that come in pairs, the controller answers only
  what was pressed: macOS if KEY1 was the only key pressed so far, Windows if KEY2 was, a conflict
  if both were; and it swallows the release of a key exactly when it swallowed the press, so that
  the keymap never sees half of a key stroke.
\<close>
theorem platform_choice_is_genuine:
  assumes "paired {} calls"
  shows "log_genuine {} {} (run_log platform_step (platform_arm now timeout) calls)"
  by (rule selection_run [of _ "{}", OF _ assms]) (auto simp: selection_rel_def platform_arm_def choice_keys_def)

theorem platform_choice_is_genuine_witness:
  "log_genuine {} {} (run_log platform_step (platform_arm 0 5000)
     [PlatformEdge Key2 Pressed 10, PlatformEdge Key2 Released 50, PlatformPoll 160, PlatformEdge Key1 Pressed 200])"
  by (rule platform_choice_is_genuine) simp

end
