(* ===== verification/Power_Policy.thy ===== *)
theory Power_Policy
  imports Prelude
begin

text \<open>
  \<^verbatim>\<open>components/keyboard/src/power_policy.cpp\<close>, \<^verbatim>\<open>power_cycle.cpp\<close> and
  \<^verbatim>\<open>peripheral_power_lease.cpp\<close>: when the keyboard may sleep and poll slowly, the record of
  a completed sleep cycle, and the leases that keep the peripheral supply on.  Times are
  32-bit milliseconds that wrap; a \<^verbatim>\<open>const char*\<close> that is never null is a string.
\<close>

unbundle bit_operations_syntax

section \<open>The policy\<close>

datatype PowerPolicyMode = ModeActive | ModeIdle | ModeDeepIdle
datatype WifiPowerStage = WifiActive | WifiThrottled | WifiReleased

record PowerPolicyConfig =
  pp_active_poll_ms :: u32
  pp_idle_connected_poll_ms :: u32
  pp_deep_idle_connected_poll_ms :: u32
  pp_deep_idle_unverified_poll_ms :: u32
  pp_idle_usb_poll_ms :: u32
  pp_idle_battery_poll_ms :: u32
  pp_idle_after_ms :: u32
  pp_deep_idle_after_ms :: u32
  pp_deep_sleep_after_ms :: u32
  pp_wifi_throttle_after_ms :: u32
  pp_wifi_release_quiesce_ms :: u32

definition kDefaultPowerPolicy :: PowerPolicyConfig where
  "kDefaultPowerPolicy = \<lparr>pp_active_poll_ms = 5, pp_idle_connected_poll_ms = 80, pp_deep_idle_connected_poll_ms = 750,
     pp_deep_idle_unverified_poll_ms = 250, pp_idle_usb_poll_ms = 50, pp_idle_battery_poll_ms = 80,
     pp_idle_after_ms = 30 * 1000, pp_deep_idle_after_ms = 3 * 60 * 1000, pp_deep_sleep_after_ms = 30 * 60 * 1000,
     pp_wifi_throttle_after_ms = 2 * 60 * 1000, pp_wifi_release_quiesce_ms = 5 * 1000\<rparr>"

record PowerPolicyInputs =
  pi_now_ms :: u32
  pi_last_activity_ms :: u32
  pi_external_power :: bool
  pi_input_active :: bool
  pi_ble_connected :: bool
  pi_usb_mounted :: bool
  pi_config_window_active :: bool
  pi_encoder_press_pending :: bool
  pi_wheel_report_pending :: bool
  pi_audio_streaming :: bool
  pi_speaker_playback_active :: bool
  pi_wifi_active :: bool
  pi_wake_source_configured :: bool
  pi_key_wake_verified :: bool
  pi_key_wake_asserted :: bool
  pi_light_sleep_backoff :: bool

record PowerPolicyDecision =
  pd_mode :: PowerPolicyMode
  pd_poll_ms :: u32
  pd_light_sleep_allowed :: bool
  pd_light_sleep_block :: string
  pd_deep_sleep_allowed :: bool
  pd_wifi_release_required :: bool
  pd_deep_sleep_block :: string

definition select_mode :: "PowerPolicyInputs \<Rightarrow> PowerPolicyConfig \<Rightarrow> u32 \<Rightarrow> PowerPolicyMode" where
  "select_mode i config idle_ms =
     (if pi_external_power i \<or> pi_input_active i \<or> idle_ms < pp_idle_after_ms config then ModeActive
      else if idle_ms \<ge> pp_deep_idle_after_ms config then ModeDeepIdle
      else ModeIdle)"

definition select_poll_ms :: "PowerPolicyInputs \<Rightarrow> PowerPolicyConfig \<Rightarrow> PowerPolicyMode \<Rightarrow> u32" where
  "select_poll_ms i config mode =
     (if mode = ModeActive \<or> pi_input_active i \<or> pi_external_power i \<or> pi_audio_streaming i \<or> pi_speaker_playback_active i
      then pp_active_poll_ms config
      else if mode = ModeDeepIdle \<and> pi_ble_connected i
      then (if pi_key_wake_verified i then pp_deep_idle_connected_poll_ms config else pp_deep_idle_unverified_poll_ms config)
      else if pi_ble_connected i then pp_idle_connected_poll_ms config
      else if pi_usb_mounted i then pp_idle_usb_poll_ms config
      else pp_idle_battery_poll_ms config)"

definition light_sleep_block_reason :: "PowerPolicyInputs \<Rightarrow> PowerPolicyMode \<Rightarrow> u32 \<Rightarrow> PowerPolicyConfig \<Rightarrow> string" where
  "light_sleep_block_reason i mode idle_ms config =
     (if \<not> pi_wake_source_configured i then ''not_configured''
      else if mode \<noteq> ModeDeepIdle then ''mode''
      else if idle_ms < pp_deep_idle_after_ms config then ''idle''
      else if pi_external_power i then ''external_power''
      else if pi_usb_mounted i then ''usb_hid''
      else if pi_config_window_active i then ''config_window''
      else if pi_input_active i then ''input''
      else if pi_encoder_press_pending i then ''encoder_press''
      else if pi_wheel_report_pending i then ''wheel_queue''
      else if pi_audio_streaming i then ''keyboard_mic''
      else if pi_speaker_playback_active i then ''speaker_playback''
      else if \<not> pi_key_wake_verified i then ''key_wake_unverified''
      else if pi_key_wake_asserted i then ''key_wake_low''
      else if pi_light_sleep_backoff i then ''backoff''
      else ''ok'')"

definition deep_sleep_block_reason :: "PowerPolicyInputs \<Rightarrow> u32 \<Rightarrow> PowerPolicyConfig \<Rightarrow> string" where
  "deep_sleep_block_reason i idle_ms config =
     (if \<not> pi_wake_source_configured i then ''not_configured''
      else if \<not> pi_key_wake_verified i then ''key_wake_unverified''
      else if idle_ms < pp_deep_sleep_after_ms config then ''idle''
      else if pi_external_power i then ''external_power''
      else if pi_usb_mounted i then ''usb_hid''
      else if pi_config_window_active i then ''config_window''
      else if pi_input_active i then ''input''
      else if pi_encoder_press_pending i then ''encoder_press''
      else if pi_wheel_report_pending i then ''wheel_queue''
      else if pi_audio_streaming i then ''keyboard_mic''
      else if pi_speaker_playback_active i then ''speaker_playback''
      else if pi_key_wake_asserted i then ''key_wake_low''
      else if pi_wifi_active i then ''wifi_control''
      else ''ok'')"

definition evaluate_power_policy :: "PowerPolicyInputs \<Rightarrow> PowerPolicyConfig \<Rightarrow> PowerPolicyDecision" where
  "evaluate_power_policy i config =
     (let idle_ms = pi_now_ms i - pi_last_activity_ms i; mode = select_mode i config idle_ms;
          light = light_sleep_block_reason i mode idle_ms config; deep = deep_sleep_block_reason i idle_ms config
      in \<lparr>pd_mode = mode, pd_poll_ms = select_poll_ms i config mode,
          pd_light_sleep_allowed = (light = ''ok''), pd_light_sleep_block = light,
          pd_deep_sleep_allowed = (deep = ''ok''), pd_wifi_release_required = (deep = ''wifi_control''),
          pd_deep_sleep_block = deep\<rparr>)"

fun power_policy_mode_name :: "PowerPolicyMode \<Rightarrow> string" where
  "power_policy_mode_name ModeActive = ''active''"
| "power_policy_mode_name ModeIdle = ''idle''"
| "power_policy_mode_name ModeDeepIdle = ''deep_idle''"

definition evaluate_wifi_power_stage :: "u32 \<Rightarrow> bool \<Rightarrow> bool \<Rightarrow> PowerPolicyConfig \<Rightarrow> WifiPowerStage" where
  "evaluate_wifi_power_stage idle_ms session_active release_requested config =
     (if session_active \<or> idle_ms < pp_wifi_throttle_after_ms config then WifiActive
      else if release_requested then WifiReleased else WifiThrottled)"

definition wifi_release_ready_for_deep_sleep :: "u32 \<Rightarrow> bool \<Rightarrow> bool \<Rightarrow> PowerPolicyConfig \<Rightarrow> bool" where
  "wifi_release_ready_for_deep_sleep request_elapsed_ms session_active release_requested config \<longleftrightarrow>
     release_requested \<and> \<not> session_active \<and> request_elapsed_ms \<ge> pp_wifi_release_quiesce_ms config"

fun wifi_power_stage_name :: "WifiPowerStage \<Rightarrow> string" where
  "wifi_power_stage_name WifiActive = ''active''"
| "wifi_power_stage_name WifiThrottled = ''throttled''"
| "wifi_power_stage_name WifiReleased = ''released''"

text \<open>
  Whatever the configuration: a sleep of either depth is allowed only after the idle time, on
  battery, with the wake key verified, and with no input, transport window, audio direction or
  queued report in the way; and Wi-Fi is released exactly when it is the only obstacle left.
\<close>

definition quiet :: "PowerPolicyInputs \<Rightarrow> bool" where
  "quiet i \<longleftrightarrow> \<not> pi_external_power i \<and> \<not> pi_usb_mounted i \<and> \<not> pi_config_window_active i \<and> \<not> pi_input_active i \<and>
     \<not> pi_encoder_press_pending i \<and> \<not> pi_wheel_report_pending i \<and> \<not> pi_audio_streaming i \<and> \<not> pi_speaker_playback_active i \<and>
     \<not> pi_key_wake_asserted i \<and> pi_wake_source_configured i \<and> pi_key_wake_verified i"

lemma deep_sleep_allowed_iff:
  "pd_deep_sleep_allowed (evaluate_power_policy i config) \<longleftrightarrow>
     quiet i \<and> \<not> pi_wifi_active i \<and> pi_now_ms i - pi_last_activity_ms i \<ge> pp_deep_sleep_after_ms config"
  by (auto simp: evaluate_power_policy_def Let_def deep_sleep_block_reason_def quiet_def not_less)

lemma wifi_release_iff:
  "pd_wifi_release_required (evaluate_power_policy i config) \<longleftrightarrow>
     pi_wifi_active i \<and> pd_deep_sleep_allowed (evaluate_power_policy (i\<lparr>pi_wifi_active := False\<rparr>) config)"
  by (auto simp: evaluate_power_policy_def Let_def deep_sleep_block_reason_def)

lemma light_sleep_allowed_iff:
  "pd_light_sleep_allowed (evaluate_power_policy i config) \<longleftrightarrow>
     quiet i \<and> \<not> pi_light_sleep_backoff i \<and> pd_mode (evaluate_power_policy i config) = ModeDeepIdle"
  by (auto simp: evaluate_power_policy_def Let_def light_sleep_block_reason_def quiet_def select_mode_def)

section \<open>The record of a sleep cycle\<close>

datatype PowerCycleWakeReason = WakeUnknown | WakeInput | WakeKey | WakeLightSleepKey | WakeDeepSleepKey | WakeStatusRead
  | WakeConfig | WakeWifiAudio | WakeTimer | WakeExternalPower | WakeOther

definition kPowerCycleStageIdle :: u8 where "kPowerCycleStageIdle = push_bit 0 1"
definition kPowerCycleStageDeepIdle :: u8 where "kPowerCycleStageDeepIdle = push_bit 1 1"
definition kPowerCycleStageDeepSleep :: u8 where "kPowerCycleStageDeepSleep = push_bit 2 1"

record PowerCycleSnapshot =
  pc_sequence :: u32
  pc_idle_ms :: u32
  pc_deep_idle_ms :: u32
  pc_stage_flags :: u8
  pc_wake_reason :: PowerCycleWakeReason

definition power_cycle_valid :: "PowerCycleSnapshot \<Rightarrow> bool" where
  "power_cycle_valid snapshot \<longleftrightarrow> pc_sequence snapshot \<noteq> 0"

definition empty_power_cycle :: PowerCycleSnapshot where
  "empty_power_cycle = \<lparr>pc_sequence = 0, pc_idle_ms = 0, pc_deep_idle_ms = 0, pc_stage_flags = 0, pc_wake_reason = WakeUnknown\<rparr>"

definition build_power_cycle_snapshot ::
  "u32 \<Rightarrow> u32 \<Rightarrow> PowerCycleWakeReason \<Rightarrow> bool \<Rightarrow> PowerPolicyConfig \<Rightarrow> PowerCycleSnapshot" where
  "build_power_cycle_snapshot sequence elapsed_idle_ms wake_reason reached_deep_sleep config =
     (if elapsed_idle_ms < pp_idle_after_ms config then empty_power_cycle
      else
        let deep = elapsed_idle_ms \<ge> pp_deep_idle_after_ms config;
            idle_stage_end = min elapsed_idle_ms (pp_deep_idle_after_ms config)
        in \<lparr>pc_sequence = (if sequence = 0 then 1 else sequence),
            pc_idle_ms = idle_stage_end - pp_idle_after_ms config,
            pc_deep_idle_ms = (if deep then elapsed_idle_ms - pp_deep_idle_after_ms config else 0),
            pc_stage_flags = kPowerCycleStageIdle OR (if deep then kPowerCycleStageDeepIdle else 0) OR
              (if reached_deep_sleep then kPowerCycleStageDeepSleep else 0),
            pc_wake_reason = wake_reason\<rparr>)"

text \<open>A null pointer is \<open>None\<close>.\<close>

definition power_cycle_wake_reason :: "string option \<Rightarrow> PowerCycleWakeReason" where
  "power_cycle_wake_reason reason =
     (case reason of
        None \<Rightarrow> WakeUnknown
      | Some r \<Rightarrow>
          if r = '''' \<or> r = ''unknown'' then WakeUnknown
          else if r = ''input'' \<or> r = ''input_edge'' then WakeInput
          else if r = ''key_wake'' then WakeKey
          else if r = ''light_sleep_key_wake'' then WakeLightSleepKey
          else if r = ''deep_sleep_key_wake'' then WakeDeepSleepKey
          else if r = ''status_read'' then WakeStatusRead
          else if r = ''config'' then WakeConfig
          else if r = ''wifi_audio_control'' then WakeWifiAudio
          else if r = ''timer'' then WakeTimer
          else if r = ''external_power'' then WakeExternalPower
          else WakeOther)"

fun power_cycle_wake_reason_name :: "PowerCycleWakeReason \<Rightarrow> string" where
  "power_cycle_wake_reason_name WakeInput = ''input''"
| "power_cycle_wake_reason_name WakeKey = ''key''"
| "power_cycle_wake_reason_name WakeLightSleepKey = ''light_key''"
| "power_cycle_wake_reason_name WakeDeepSleepKey = ''deep_key''"
| "power_cycle_wake_reason_name WakeStatusRead = ''status''"
| "power_cycle_wake_reason_name WakeConfig = ''config''"
| "power_cycle_wake_reason_name WakeWifiAudio = ''wifi_audio''"
| "power_cycle_wake_reason_name WakeTimer = ''timer''"
| "power_cycle_wake_reason_name WakeExternalPower = ''power''"
| "power_cycle_wake_reason_name WakeOther = ''other''"
| "power_cycle_wake_reason_name WakeUnknown = ''unknown''"

text \<open>The two stages of a recorded cycle add up to the time since the idle stage began.\<close>

lemma cycle_stages_add_up:
  assumes "pp_idle_after_ms config \<le> pp_deep_idle_after_ms config" "pp_idle_after_ms config \<le> elapsed"
  shows "unat (pc_idle_ms (build_power_cycle_snapshot n elapsed reason deep config)) +
      unat (pc_deep_idle_ms (build_power_cycle_snapshot n elapsed reason deep config)) = unat elapsed - unat (pp_idle_after_ms config)"
proof -
  have "\<not> elapsed < pp_idle_after_ms config" using assms(2) by simp
  then show ?thesis
    using assms by (auto simp: build_power_cycle_snapshot_def Let_def min_def unat_sub word_le_nat_alt not_le)
qed

section \<open>Leases on the peripheral supply\<close>

datatype PeripheralPowerOwner = OwnerLed | OwnerKeyboardMic | OwnerSpeaker | OwnerDeviceAwake

fun owner_bit :: "PeripheralPowerOwner \<Rightarrow> u8" where
  "owner_bit OwnerLed = push_bit 0 1"
| "owner_bit OwnerKeyboardMic = push_bit 1 1"
| "owner_bit OwnerSpeaker = push_bit 2 1"
| "owner_bit OwnerDeviceAwake = push_bit 3 1"

record PeripheralPowerLeaseSet =
  pl_held_mask :: u8

definition init_power_leases :: PeripheralPowerLeaseSet where
  "init_power_leases = \<lparr>pl_held_mask = 0\<rparr>"

definition lease_acquire :: "PeripheralPowerLeaseSet \<Rightarrow> PeripheralPowerOwner \<Rightarrow> bool \<times> PeripheralPowerLeaseSet" where
  "lease_acquire s owner =
     (let bit = owner_bit owner
      in if bit = 0 \<or> (pl_held_mask s AND bit) \<noteq> 0 then (False, s) else (True, s\<lparr>pl_held_mask := pl_held_mask s OR bit\<rparr>))"

definition lease_release :: "PeripheralPowerLeaseSet \<Rightarrow> PeripheralPowerOwner \<Rightarrow> bool \<times> PeripheralPowerLeaseSet" where
  "lease_release s owner =
     (let bit = owner_bit owner
      in if bit = 0 \<or> (pl_held_mask s AND bit) = 0 then (False, s) else (True, s\<lparr>pl_held_mask := pl_held_mask s AND NOT bit\<rparr>))"

definition lease_clear :: "PeripheralPowerLeaseSet \<Rightarrow> PeripheralPowerLeaseSet" where
  "lease_clear s = s\<lparr>pl_held_mask := 0\<rparr>"

definition lease_held :: "PeripheralPowerLeaseSet \<Rightarrow> PeripheralPowerOwner \<Rightarrow> bool" where
  "lease_held s owner \<longleftrightarrow> (let bit = owner_bit owner in bit \<noteq> 0 \<and> (pl_held_mask s AND bit) \<noteq> 0)"

definition lease_power_required :: "PeripheralPowerLeaseSet \<Rightarrow> bool" where
  "lease_power_required s \<longleftrightarrow> pl_held_mask s \<noteq> 0"

text \<open>The mask is a set of owners.\<close>

definition lease_owners :: "PeripheralPowerLeaseSet \<Rightarrow> PeripheralPowerOwner set" where
  "lease_owners s = {owner. lease_held s owner}"

fun owner_index :: "PeripheralPowerOwner \<Rightarrow> nat" where
  "owner_index OwnerLed = 0"
| "owner_index OwnerKeyboardMic = 1"
| "owner_index OwnerSpeaker = 2"
| "owner_index OwnerDeviceAwake = 3"

lemma owner_bit_index: "owner_bit owner = push_bit (owner_index owner) 1"
  by (cases owner) simp_all

lemma owner_index_inj: "owner_index a = owner_index b \<longleftrightarrow> a = b"
  by (cases a; cases b) simp_all

lemma owner_index_less: "owner_index owner < 4"
  by (cases owner) simp_all

lemma owner_index_byte [simp]: "owner_index owner < 8"
  by (cases owner) simp_all

lemma bit_owner: "bit (owner_bit owner) n \<longleftrightarrow> n = owner_index owner"
  using owner_index_less [of owner] by (auto simp: owner_bit_index bit_simps bit_1_iff)

lemma and_owner_bit: "(m AND owner_bit owner) \<noteq> 0 \<longleftrightarrow> bit m (owner_index owner)"
proof -
  have "(m AND owner_bit owner) \<noteq> 0 \<longleftrightarrow> (\<exists>n. bit (m AND owner_bit owner) n)" using bit_eq_iff bit_0_eq by (metis bot_apply bot_bool_def)
  then show ?thesis by (simp add: bit_and_iff bit_owner)
qed

lemma lease_held_bit: "lease_held s owner \<longleftrightarrow> bit (pl_held_mask s) (owner_index owner)"
  using and_owner_bit [of "pl_held_mask s" owner] by (auto simp: lease_held_def Let_def)

lemma owner_bit_nonzero [simp]: "owner_bit owner \<noteq> 0"
  by (cases owner) simp_all

lemma lease_acquire_set:
  "lease_acquire s owner = (r, s') \<Longrightarrow> (r \<longleftrightarrow> owner \<notin> lease_owners s) \<and> lease_owners s' = insert owner (lease_owners s)"
  using and_owner_bit [of "pl_held_mask s" owner]
  by (auto simp: lease_acquire_def Let_def lease_owners_def lease_held_bit bit_owner bit_or_iff owner_index_inj split: if_splits)

lemma lease_release_set:
  "lease_release s owner = (r, s') \<Longrightarrow> (r \<longleftrightarrow> owner \<in> lease_owners s) \<and> lease_owners s' = lease_owners s - {owner}"
  using and_owner_bit [of "pl_held_mask s" owner]
  by (auto simp: lease_release_def Let_def lease_owners_def lease_held_bit bit_owner bit_and_iff bit_not_iff owner_index_inj
      split: if_splits)

text \<open>In every state that calls reach, power is required exactly while some owner holds a lease.\<close>

inductive lease_reached :: "PeripheralPowerLeaseSet \<Rightarrow> bool" where
  "lease_reached init_power_leases"
| "lease_reached s \<Longrightarrow> lease_reached (snd (lease_acquire s owner))"
| "lease_reached s \<Longrightarrow> lease_reached (snd (lease_release s owner))"
| "lease_reached s \<Longrightarrow> lease_reached (lease_clear s)"

lemma lease_mask_small: "lease_reached s \<Longrightarrow> bit (pl_held_mask s) n \<Longrightarrow> n < 4"
proof (induction rule: lease_reached.induct)
  case (2 s owner)
  then show ?case
    using owner_index_less [of owner] by (auto simp: lease_acquire_def Let_def bit_owner bit_or_iff split: if_splits)
next
  case (3 s owner)
  then show ?case by (auto simp: lease_release_def Let_def bit_and_iff split: if_splits)
qed (simp_all add: init_power_leases_def lease_clear_def)

lemma small_index: "n < 4 \<Longrightarrow> \<exists>owner. owner_index owner = n"
proof -
  assume "n < 4"
  then have "n = 0 \<or> n = 1 \<or> n = 2 \<or> n = 3" by arith
  then show ?thesis using owner_index.simps by metis
qed

lemma lease_power_iff:
  assumes "lease_reached s"
  shows "lease_power_required s \<longleftrightarrow> lease_owners s \<noteq> {}"
proof -
  have "lease_power_required s \<longleftrightarrow> (\<exists>n. bit (pl_held_mask s) n)" using bit_eq_iff bit_0_eq
    by (metis bot_apply bot_bool_def lease_power_required_def)
  also have "\<dots> \<longleftrightarrow> (\<exists>owner. lease_held s owner)" using lease_mask_small [OF assms] small_index lease_held_bit by metis
  finally show ?thesis by (auto simp: lease_owners_def)
qed

end
