(* ===== verification/Sound_Protocol.thy ===== *)
theory Sound_Protocol
  imports Sound_Store
begin

text \<open>
  \<^verbatim>\<open>features/speaker_assets/include/speaker_assets/speaker_assets_protocol.h\<close> and
  \<^verbatim>\<open>speaker_assets_protocol.cpp\<close>: the frames in which the App sends a bundle of user sounds
  over USB (63 bytes, padded with zeros) or Wi-Fi (exact length), the wire form of the bundle's
  plan, and the two assemblers that put a plan and a payload block together from fragments.

  An array is a list of its declared length; the frame's body array keeps all its 101 bytes.
  The result \<^verbatim>\<open>Ok\<close> is \<open>Inr\<close>, with the value that the code stores through its
  pointer; every other result is \<open>Inl\<close> and leaves the pointer's target unchanged.  Null
  pointers are not modelled, but for the data of a fragment, whose check is the one of an empty
  fragment.  The local byte helpers of the file are those of \<open>Sound_Format\<close> and
  \<open>Sound_Store\<close>.
\<close>

unbundle bit_operations_syntax

section \<open>Constants and types\<close>

definition kFrameMagic :: bytes where "kFrameMagic = [0x45, 0x49, 0x41]"
definition kPlanMagic :: bytes where "kPlanMagic = [0x45, 0x49, 0x42, 0x50]"
definition kFrameCrcOffset :: nat where "kFrameCrcOffset = 20"
definition kPlanCrcOffset :: nat where "kPlanCrcOffset = 636"
definition kSpeakerAssetsProtocolVersion :: u8 where "kSpeakerAssetsProtocolVersion = 1"
definition kSpeakerAssetsFrameHeaderBytes :: nat where "kSpeakerAssetsFrameHeaderBytes = 24"
definition kSpeakerAssetsUsbFrameBytes :: nat where "kSpeakerAssetsUsbFrameBytes = 63"
definition kSpeakerAssetsUsbFrameBodyBytes :: nat where
  "kSpeakerAssetsUsbFrameBodyBytes = kSpeakerAssetsUsbFrameBytes - kSpeakerAssetsFrameHeaderBytes"
definition kSpeakerAssetsWifiFrameMaxBytes :: nat where "kSpeakerAssetsWifiFrameMaxBytes = 125"
definition kSpeakerAssetsWifiFrameBodyBytes :: nat where
  "kSpeakerAssetsWifiFrameBodyBytes = kSpeakerAssetsWifiFrameMaxBytes - kSpeakerAssetsFrameHeaderBytes"
definition kSpeakerAssetsPlanWireBytes :: nat where "kSpeakerAssetsPlanWireBytes = 640"
definition kSpeakerAssetsPlanVersion :: u16 where "kSpeakerAssetsPlanVersion = 1"

lemmas frame_sizes = kFrameCrcOffset_def kPlanCrcOffset_def kSpeakerAssetsFrameHeaderBytes_def
  kSpeakerAssetsUsbFrameBytes_def kSpeakerAssetsUsbFrameBodyBytes_def kSpeakerAssetsWifiFrameMaxBytes_def
  kSpeakerAssetsWifiFrameBodyBytes_def kSpeakerAssetsPlanWireBytes_def

definition kSpeakerAssetsFlagResponse :: u8 where "kSpeakerAssetsFlagResponse = 0x01"
definition kSpeakerAssetsFlagError :: u8 where "kSpeakerAssetsFlagError = 0x02"
definition kSpeakerAssetsFlagAckRequested :: u8 where "kSpeakerAssetsFlagAckRequested = 0x04"
definition kSpeakerAssetsFlagFirstFragment :: u8 where "kSpeakerAssetsFlagFirstFragment = 0x08"
definition kSpeakerAssetsFlagLastFragment :: u8 where "kSpeakerAssetsFlagLastFragment = 0x10"
definition kSpeakerAssetsFlagPayloadRegion :: u8 where "kSpeakerAssetsFlagPayloadRegion = 0x20"
definition kSpeakerAssetsKnownFlags :: u8 where
  "kSpeakerAssetsKnownFlags = kSpeakerAssetsFlagResponse OR kSpeakerAssetsFlagError OR kSpeakerAssetsFlagAckRequested OR
     kSpeakerAssetsFlagFirstFragment OR kSpeakerAssetsFlagLastFragment OR kSpeakerAssetsFlagPayloadRegion"

datatype SpeakerAssetsRegion = ManifestRegion | PayloadRegion
datatype SpeakerAssetsProtocolResult =
  PrInvalidArgument | PrInvalidLength | PrInvalidMagic | PrUnsupportedVersion | PrInvalidFlags | PrInvalidRequestId |
  PrInvalidBodyLength | PrNonZeroPadding | PrCrcMismatch | PrInvalidPlan | PrIncomplete | PrConflict | PrOutOfBounds |
  PrWrongUnit | PrWrongOwner
datatype SpeakerAssetsTransport = UsbTransport | ReservedLegacy | WifiTransport

record SpeakerAssetsFrame =
  fr_opcode :: u8
  fr_flags :: u8
  fr_request_id :: u32
  fr_session_cookie :: u32
  fr_object_offset :: u32
  fr_body_length :: u16
  fr_body :: bytes

record SpeakerAssetsRouteToken =
  rt_transport :: SpeakerAssetsTransport
  rt_route_id :: u32
  rt_generation :: u32

definition speaker_assets_route_equal :: "SpeakerAssetsRouteToken \<Rightarrow> SpeakerAssetsRouteToken \<Rightarrow> bool" where
  "speaker_assets_route_equal first second \<longleftrightarrow>
     rt_transport first = rt_transport second \<and> rt_route_id first = rt_route_id second \<and>
     rt_generation first = rt_generation second"

definition route_is_valid :: "SpeakerAssetsRouteToken \<Rightarrow> bool" where
  "route_is_valid route \<longleftrightarrow>
     (rt_transport route = UsbTransport \<or> rt_transport route = WifiTransport) \<and> rt_generation route \<noteq> 0 \<and>
     (rt_transport route \<noteq> UsbTransport \<or> rt_route_id route = 0)"

section \<open>Frames\<close>

definition flags_invalid :: "u8 \<Rightarrow> bool" where
  "flags_invalid flags \<longleftrightarrow>
     (flags AND NOT kSpeakerAssetsKnownFlags) \<noteq> 0 \<or>
     (flags AND kSpeakerAssetsFlagError) \<noteq> 0 \<and> (flags AND kSpeakerAssetsFlagResponse) = 0 \<or>
     (flags AND kSpeakerAssetsFlagResponse) \<noteq> 0 \<and> (flags AND kSpeakerAssetsFlagAckRequested) \<noteq> 0"

definition validate_frame_for_encoding :: "SpeakerAssetsFrame \<Rightarrow> nat \<Rightarrow> SpeakerAssetsProtocolResult + unit" where
  "validate_frame_for_encoding frame maximum_body_bytes =
     (if fr_request_id frame = 0 then Inl PrInvalidRequestId
      else if unat (fr_body_length frame) > maximum_body_bytes then Inl PrInvalidBodyLength
      else if flags_invalid (fr_flags frame) then Inl PrInvalidFlags
      else Inr ())"

definition encode_frame_prefix :: "SpeakerAssetsFrame \<Rightarrow> nat \<Rightarrow> bytes" where
  "encode_frame_prefix frame encoded_bytes = put_all (replicate encoded_bytes 0)
     [(0, kFrameMagic), (3, [kSpeakerAssetsProtocolVersion]), (4, [fr_opcode frame]), (5, [fr_flags frame]),
      (6, write_le16 (fr_body_length frame)), (8, write_le32 (fr_request_id frame)),
      (12, write_le32 (fr_session_cookie frame)), (16, write_le32 (fr_object_offset frame)),
      (kSpeakerAssetsFrameHeaderBytes, take (unat (fr_body_length frame)) (fr_body frame))]"

definition decode_frame_prefix :: "bytes \<Rightarrow> nat \<Rightarrow> bool \<Rightarrow> SpeakerAssetsProtocolResult + SpeakerAssetsFrame" where
  "decode_frame_prefix encoded maximum_body_bytes fixed_size_with_padding =
     (if length encoded < kSpeakerAssetsFrameHeaderBytes then Inl PrInvalidLength
      else if \<not> bytes_equal encoded kFrameMagic then Inl PrInvalidMagic
      else if encoded ! 3 \<noteq> kSpeakerAssetsProtocolVersion then Inl PrUnsupportedVersion
      else
        let flags = encoded ! 5
        in if flags_invalid flags then Inl PrInvalidFlags
        else
          let body_length = read_le16 encoded 6
          in if unat body_length > maximum_body_bytes then Inl PrInvalidBodyLength
          else
            let exact_length = kSpeakerAssetsFrameHeaderBytes + unat body_length
            in if \<not> fixed_size_with_padding \<and> length encoded \<noteq> exact_length \<or>
                  fixed_size_with_padding \<and> length encoded < exact_length then Inl PrInvalidLength
            else if fixed_size_with_padding \<and> \<not> bytes_are_zero (drop exact_length encoded) then Inl PrNonZeroPadding
            else
              let request_id = read_le32 encoded 8
              in if request_id = 0 then Inl PrInvalidRequestId
              else
                let crc_input = buffer_put (take exact_length encoded) kFrameCrcOffset (replicate 4 0);
                    expected_crc = read_le32 encoded kFrameCrcOffset
                in if sound_crc32_iso_hdlc crc_input \<noteq> expected_crc then Inl PrCrcMismatch
                else Inr \<lparr>fr_opcode = encoded ! 4, fr_flags = flags, fr_request_id = request_id,
                       fr_session_cookie = read_le32 encoded 12, fr_object_offset = read_le32 encoded 16,
                       fr_body_length = body_length,
                       fr_body = buffer_put (replicate kSpeakerAssetsWifiFrameBodyBytes 0) 0
                         (region encoded kSpeakerAssetsFrameHeaderBytes (unat body_length))\<rparr>)"

definition encode_speaker_assets_usb_frame :: "SpeakerAssetsFrame \<Rightarrow> SpeakerAssetsProtocolResult + bytes" where
  "encode_speaker_assets_usb_frame frame =
     (case validate_frame_for_encoding frame kSpeakerAssetsUsbFrameBodyBytes of
        Inl e \<Rightarrow> Inl e
      | Inr _ \<Rightarrow>
          let encoded = encode_frame_prefix frame kSpeakerAssetsUsbFrameBytes;
              crc = sound_crc32_iso_hdlc (take (kSpeakerAssetsFrameHeaderBytes + unat (fr_body_length frame)) encoded)
          in Inr (buffer_put encoded kFrameCrcOffset (write_le32 crc)))"

definition decode_speaker_assets_usb_frame :: "bytes \<Rightarrow> SpeakerAssetsProtocolResult + SpeakerAssetsFrame" where
  "decode_speaker_assets_usb_frame encoded =
     (if length encoded \<noteq> kSpeakerAssetsUsbFrameBytes then Inl PrInvalidLength
      else decode_frame_prefix encoded kSpeakerAssetsUsbFrameBodyBytes True)"

text \<open>The array and the encoded length that the Wi-Fi encoder stores.\<close>

definition encode_speaker_assets_wifi_frame :: "SpeakerAssetsFrame \<Rightarrow> SpeakerAssetsProtocolResult + bytes \<times> nat" where
  "encode_speaker_assets_wifi_frame frame =
     (case validate_frame_for_encoding frame kSpeakerAssetsWifiFrameBodyBytes of
        Inl e \<Rightarrow> Inl e
      | Inr _ \<Rightarrow>
          let encoded = encode_frame_prefix frame kSpeakerAssetsWifiFrameMaxBytes;
              encoded_length = kSpeakerAssetsFrameHeaderBytes + unat (fr_body_length frame);
              crc = sound_crc32_iso_hdlc (take encoded_length encoded)
          in Inr (buffer_put encoded kFrameCrcOffset (write_le32 crc), encoded_length))"

definition decode_speaker_assets_wifi_frame :: "bytes \<Rightarrow> SpeakerAssetsProtocolResult + SpeakerAssetsFrame" where
  "decode_speaker_assets_wifi_frame encoded =
     (if length encoded > kSpeakerAssetsWifiFrameMaxBytes then Inl PrInvalidLength
      else decode_frame_prefix encoded kSpeakerAssetsWifiFrameBodyBytes False)"

section \<open>Plans on the wire\<close>

definition sound_bundle_plan_shape_is_valid :: "SoundBundlePlan \<Rightarrow> bool" where
  "sound_bundle_plan_shape_is_valid plan \<longleftrightarrow>
     (if bp_manifest_bytes plan < 32 \<or> bp_manifest_bytes plan > kSoundSectorSize \<or> bp_payload_bytes plan > kSoundPayloadMaxSize \<or>
         bytes_are_zero (bp_manifest_sha256 plan) \<or> bytes_are_zero (bp_bundle_sha256 plan) then False
      else if (bp_base_generation plan = 0) \<noteq> bytes_are_zero (bp_base_bundle_sha256 plan) then False
      else
        let block_count = payload_block_count (bp_payload_bytes plan)
        in if block_count > length (bp_payload_block_crc32 plan) then False
           else list_all (\<lambda>crc. crc = 0) (drop block_count (bp_payload_block_crc32 plan)))"

definition encode_sound_bundle_plan_wire :: "SoundBundlePlan \<Rightarrow> SpeakerAssetsProtocolResult + bytes" where
  "encode_sound_bundle_plan_wire plan =
     (if \<not> sound_bundle_plan_shape_is_valid plan then Inl PrInvalidPlan
      else
        let encoded = put_all (replicate kSpeakerAssetsPlanWireBytes 0)
              [(0, kPlanMagic), (4, write_le16 kSpeakerAssetsPlanVersion), (6, write_le16 (of_nat kSpeakerAssetsPlanWireBytes)),
               (8, write_le64 (bp_base_generation plan)), (16, bp_base_bundle_sha256 plan),
               (48, write_le32 (of_nat (bp_manifest_bytes plan))), (52, write_le32 (of_nat (bp_payload_bytes plan))),
               (56, write_le32 (bp_manifest_crc32 plan)), (60, bp_manifest_sha256 plan), (92, bp_bundle_sha256 plan),
               (124, concat (map write_le32 (bp_payload_block_crc32 plan)))];
            crc = sound_crc32_iso_hdlc (take kPlanCrcOffset encoded)
        in Inr (buffer_put encoded kPlanCrcOffset (write_le32 crc)))"

definition decode_sound_bundle_plan_wire :: "bytes \<Rightarrow> SpeakerAssetsProtocolResult + SoundBundlePlan" where
  "decode_sound_bundle_plan_wire encoded =
     (if length encoded \<noteq> kSpeakerAssetsPlanWireBytes then Inl PrInvalidLength
      else if \<not> bytes_equal encoded kPlanMagic then Inl PrInvalidMagic
      else if read_le16 encoded 4 \<noteq> kSpeakerAssetsPlanVersion then Inl PrUnsupportedVersion
      else if read_le16 encoded 6 \<noteq> of_nat kSpeakerAssetsPlanWireBytes then Inl PrInvalidLength
      else if sound_crc32_iso_hdlc (take kPlanCrcOffset encoded) \<noteq> read_le32 encoded kPlanCrcOffset then Inl PrCrcMismatch
      else
        let decoded = \<lparr>bp_base_generation = read_le64 encoded 8, bp_base_bundle_sha256 = region encoded 16 32,
              bp_manifest_bytes = unat (read_le32 encoded 48), bp_payload_bytes = unat (read_le32 encoded 52),
              bp_manifest_crc32 = read_le32 encoded 56, bp_manifest_sha256 = region encoded 60 32,
              bp_bundle_sha256 = region encoded 92 32,
              bp_payload_block_crc32 = map (\<lambda>index. read_le32 encoded (124 + index * 4)) [0..<kSoundPayloadBlockCount]\<rparr>
        in if \<not> sound_bundle_plan_shape_is_valid decoded then Inl PrInvalidPlan else Inr decoded)"

section \<open>The fragments of a unit\<close>

text \<open>The bytes, the bitmap of the received ones and their number: the fields and private
  operations that the two assemblers have in common.\<close>

record FragmentBuffer =
  fb_bytes :: bytes
  fb_received :: bytes
  fb_received_bytes :: nat

definition empty_fragments :: "nat \<Rightarrow> FragmentBuffer" where
  "empty_fragments width = \<lparr>fb_bytes = replicate width 0, fb_received = replicate (width div 8) 0, fb_received_bytes = 0\<rparr>"

definition byte_received :: "'z FragmentBuffer_scheme \<Rightarrow> nat \<Rightarrow> bool" where
  "byte_received s index \<longleftrightarrow> (fb_received s ! (index div 8) AND push_bit (index mod 8) 1) \<noteq> 0"

definition mark_byte_received :: "'z FragmentBuffer_scheme \<Rightarrow> nat \<Rightarrow> 'z FragmentBuffer_scheme" where
  "mark_byte_received s index = s\<lparr>fb_received :=
     (fb_received s)[index div 8 := fb_received s ! (index div 8) OR push_bit (index mod 8) 1]\<rparr>"

definition store_byte :: "'z FragmentBuffer_scheme \<Rightarrow> nat \<Rightarrow> u8 \<Rightarrow> 'z FragmentBuffer_scheme" where
  "store_byte s destination b =
     (if \<not> byte_received s destination
      then let s1 = mark_byte_received (s\<lparr>fb_bytes := (fb_bytes s)[destination := b]\<rparr>) destination
           in s1\<lparr>fb_received_bytes := fb_received_bytes s1 + 1\<rparr>
      else s)"

definition accept_bytes :: "'z FragmentBuffer_scheme \<Rightarrow> nat \<Rightarrow> bytes \<Rightarrow> SpeakerAssetsProtocolResult + 'z FragmentBuffer_scheme" where
  "accept_bytes s offset data =
     (if list_ex (\<lambda>index. byte_received s (offset + index) \<and> fb_bytes s ! (offset + index) \<noteq> data ! index) [0..<length data]
      then Inl PrConflict
      else Inr (fold (\<lambda>index s. store_byte s (offset + index) (data ! index)) [0..<length data] s))"

definition first_missing :: "'z FragmentBuffer_scheme \<Rightarrow> nat \<Rightarrow> nat" where
  "first_missing s width = (case find (\<lambda>index. \<not> byte_received s index) [0..<width] of Some index \<Rightarrow> index | None \<Rightarrow> width)"

section \<open>The plan assembler\<close>

record SpeakerAssetsPlanAssembler = FragmentBuffer +
  pa_owner :: SpeakerAssetsRouteToken
  pa_begin_id :: u32
  pa_bound :: bool

definition default_route :: SpeakerAssetsRouteToken where
  "default_route = \<lparr>rt_transport = UsbTransport, rt_route_id = 0, rt_generation = 0\<rparr>"

definition init_plan_assembler :: SpeakerAssetsPlanAssembler where
  "init_plan_assembler = FragmentBuffer.extend (empty_fragments kSpeakerAssetsPlanWireBytes)
     (SpeakerAssetsPlanAssembler.fields default_route 0 False)"

definition plan_reset :: "SpeakerAssetsPlanAssembler \<Rightarrow> SpeakerAssetsPlanAssembler" where
  "plan_reset s = s\<lparr>fb_bytes := replicate kSpeakerAssetsPlanWireBytes 0,
     fb_received := replicate (kSpeakerAssetsPlanWireBytes div 8) 0, fb_received_bytes := 0,
     pa_owner := default_route, pa_begin_id := 0, pa_bound := False\<rparr>"

definition plan_begin ::
  "SpeakerAssetsPlanAssembler \<Rightarrow> SpeakerAssetsRouteToken \<Rightarrow> u32 \<Rightarrow> SpeakerAssetsProtocolResult + SpeakerAssetsPlanAssembler" where
  "plan_begin s owner begin_id =
     (if \<not> route_is_valid owner \<or> begin_id = 0 then Inl PrInvalidArgument
      else if pa_bound s
      then if speaker_assets_route_equal (pa_owner s) owner \<and> pa_begin_id s = begin_id then Inr s else Inl PrWrongOwner
      else Inr (s\<lparr>pa_owner := owner, pa_begin_id := begin_id, pa_bound := True\<rparr>))"

definition plan_accept_fragment ::
  "SpeakerAssetsPlanAssembler \<Rightarrow> SpeakerAssetsRouteToken \<Rightarrow> u32 \<Rightarrow> u16 \<Rightarrow> bytes \<Rightarrow>
   SpeakerAssetsProtocolResult + SpeakerAssetsPlanAssembler" where
  "plan_accept_fragment s owner begin_id offset data =
     (if \<not> pa_bound s \<or> \<not> speaker_assets_route_equal (pa_owner s) owner \<or> pa_begin_id s \<noteq> begin_id then Inl PrWrongOwner
      else if data = [] then Inl PrInvalidArgument
      else if length data > kSpeakerAssetsWifiFrameBodyBytes \<or> unat offset > kSpeakerAssetsPlanWireBytes \<or>
              length data > kSpeakerAssetsPlanWireBytes - unat offset then Inl PrOutOfBounds
      else accept_bytes s (unat offset) data)"

definition plan_complete :: "SpeakerAssetsPlanAssembler \<Rightarrow> bool" where
  "plan_complete s \<longleftrightarrow> pa_bound s \<and> fb_received_bytes s = kSpeakerAssetsPlanWireBytes"

definition plan_decode :: "SpeakerAssetsPlanAssembler \<Rightarrow> SpeakerAssetsProtocolResult + SoundBundlePlan" where
  "plan_decode s = (if \<not> plan_complete s then Inl PrIncomplete else decode_sound_bundle_plan_wire (fb_bytes s))"

definition plan_first_missing_offset :: "SpeakerAssetsPlanAssembler \<Rightarrow> nat" where
  "plan_first_missing_offset s = first_missing s kSpeakerAssetsPlanWireBytes"

definition plan_copy_received_bitmap :: "SpeakerAssetsPlanAssembler \<Rightarrow> nat \<Rightarrow> nat \<Rightarrow> SpeakerAssetsProtocolResult + bytes" where
  "plan_copy_received_bitmap s bitmap_offset len =
     (if bitmap_offset > length (fb_received s) \<or> len > length (fb_received s) - bitmap_offset then Inl PrOutOfBounds
      else Inr (region (fb_received s) bitmap_offset len))"

section \<open>The block assembler\<close>

record SpeakerAssetsBlockAssembler = FragmentBuffer +
  ba_region :: SpeakerAssetsRegion
  ba_unit_index :: u16
  ba_expected_bytes :: u16
  ba_active :: bool

definition init_block_assembler :: SpeakerAssetsBlockAssembler where
  "init_block_assembler = FragmentBuffer.extend (empty_fragments kSoundPayloadBlockSize)
     (SpeakerAssetsBlockAssembler.fields ManifestRegion 0 0 False)"

definition block_reset :: "SpeakerAssetsBlockAssembler \<Rightarrow> SpeakerAssetsBlockAssembler" where
  "block_reset s = s\<lparr>fb_bytes := replicate kSoundPayloadBlockSize 0, fb_received := replicate (kSoundPayloadBlockSize div 8) 0,
     fb_received_bytes := 0, ba_region := ManifestRegion, ba_unit_index := 0, ba_expected_bytes := 0, ba_active := False\<rparr>"

definition block_begin ::
  "SpeakerAssetsBlockAssembler \<Rightarrow> SpeakerAssetsRegion \<Rightarrow> u16 \<Rightarrow> u16 \<Rightarrow> SpeakerAssetsProtocolResult + SpeakerAssetsBlockAssembler" where
  "block_begin s unit_region unit_index expected_bytes =
     (if expected_bytes = 0 \<or> unat expected_bytes > kSoundPayloadBlockSize \<or>
         unit_region = ManifestRegion \<and> unit_index \<noteq> 0 \<or>
         unit_region = PayloadRegion \<and> unat unit_index \<ge> kSoundPayloadBlockCount then Inl PrInvalidArgument
      else Inr ((block_reset s)\<lparr>ba_region := unit_region, ba_unit_index := unit_index, ba_expected_bytes := expected_bytes,
             ba_active := True\<rparr>))"

definition block_accept_fragment ::
  "SpeakerAssetsBlockAssembler \<Rightarrow> SpeakerAssetsRegion \<Rightarrow> u16 \<Rightarrow> u16 \<Rightarrow> bytes \<Rightarrow>
   SpeakerAssetsProtocolResult + SpeakerAssetsBlockAssembler" where
  "block_accept_fragment s unit_region unit_index offset data =
     (if \<not> ba_active s then Inl PrIncomplete
      else if unit_region \<noteq> ba_region s \<or> unit_index \<noteq> ba_unit_index s then Inl PrWrongUnit
      else if data = [] then Inl PrInvalidArgument
      else if length data > kSpeakerAssetsWifiFrameBodyBytes \<or> offset > ba_expected_bytes s \<or>
              length data > unat (ba_expected_bytes s) - unat offset then Inl PrOutOfBounds
      else accept_bytes s (unat offset) data)"

definition block_complete :: "SpeakerAssetsBlockAssembler \<Rightarrow> bool" where
  "block_complete s \<longleftrightarrow> ba_active s \<and> fb_received_bytes s = unat (ba_expected_bytes s)"

definition block_first_missing_offset :: "SpeakerAssetsBlockAssembler \<Rightarrow> nat" where
  "block_first_missing_offset s = (if \<not> ba_active s then 0 else first_missing s (unat (ba_expected_bytes s)))"

definition block_copy_received_bitmap :: "SpeakerAssetsBlockAssembler \<Rightarrow> nat \<Rightarrow> nat \<Rightarrow> SpeakerAssetsProtocolResult + bytes" where
  "block_copy_received_bitmap s bitmap_offset len =
     (let bitmap_bytes = (unat (ba_expected_bytes s) + 7) div 8
      in if \<not> ba_active s \<or> bitmap_offset > bitmap_bytes \<or> len > bitmap_bytes - bitmap_offset then Inl PrOutOfBounds
         else Inr (region (fb_received s) bitmap_offset len))"

definition block_data :: "SpeakerAssetsBlockAssembler \<Rightarrow> bytes option" where
  "block_data s = (if ba_active s then Some (fb_bytes s) else None)"

end
