(* ===== verification/Sound_Protocol_Facts.thy ===== *)
theory Sound_Protocol_Facts
  imports Sound_Protocol Sound_Store_Facts
begin

text \<open>
  What the sound protocol guarantees: a packet is accepted exactly when it is the packet that the
  encoder makes of the accepted frame or plan, and the assemblers put together exactly the bytes
  that were sent, whatever the order and repetition of the fragments.

  The encoders fill an array with zeros and write their fields into it; \<open>laid_out\<close> is
  the array as a concatenation and \<open>matches\<close> the field-by-field reading of it.
\<close>

unbundle bit_operations_syntax

section \<open>Arrays of fields\<close>

fun fits :: "nat \<Rightarrow> (nat \<times> bytes) list \<Rightarrow> nat \<Rightarrow> bool" where
  "fits p [] n \<longleftrightarrow> p \<le> n"
| "fits p ((at, d) # fs) n \<longleftrightarrow> p \<le> at \<and> fits (at + length d) fs n"

fun laid_out :: "nat \<Rightarrow> (nat \<times> bytes) list \<Rightarrow> nat \<Rightarrow> bytes" where
  "laid_out p [] n = replicate (n - p) 0"
| "laid_out p ((at, d) # fs) n = replicate (at - p) 0 @ d @ laid_out (at + length d) fs n"

fun matches :: "bytes \<Rightarrow> nat \<Rightarrow> (nat \<times> bytes) list \<Rightarrow> nat \<Rightarrow> bool" where
  "matches bs p [] n \<longleftrightarrow> drop p bs = replicate (n - p) 0"
| "matches bs p ((at, d) # fs) n \<longleftrightarrow>
     region bs p (at - p) = replicate (at - p) 0 \<and> region bs at (length d) = d \<and> matches bs (at + length d) fs n"

lemma fits_le: "fits p fs n \<Longrightarrow> p \<le> n"
  by (induction p fs n rule: fits.induct) auto

lemma length_laid_out: "fits p fs n \<Longrightarrow> length (laid_out p fs n) = n - p"
  by (induction p fs n rule: fits.induct) (use fits_le in fastforce)+

lemma put_all_laid_out:
  "fits (length pre) fs n \<Longrightarrow> put_all (pre @ replicate (n - length pre) 0) fs = pre @ laid_out (length pre) fs n"
proof (induction fs arbitrary: pre)
  case Nil
  then show ?case by (simp add: put_all_def)
next
  case (Cons f fs)
  obtain at d where f: "f = (at, d)" by force
  let ?pre = "pre @ replicate (at - length pre) 0 @ d"
  have le: "length pre \<le> at" "at + length d \<le> n" using Cons.prems fits_le by (auto simp: f)
  have len: "length ?pre = at + length d" using le by simp
  have "buffer_put (pre @ replicate (n - length pre) 0) at d = ?pre @ replicate (n - length ?pre) 0"
    using le unfolding len by (simp add: buffer_put_def)
  then show ?case using Cons.IH [of ?pre] Cons.prems unfolding len by (simp add: f put_all_def)
qed

lemma matches_iff:
  "fits p fs n \<Longrightarrow> length bs = n \<Longrightarrow> drop p bs = laid_out p fs n \<longleftrightarrow> matches bs p fs n"
proof (induction p fs n rule: fits.induct)
  case (2 p at d fs n)
  then have le: "p \<le> at" "at + length d \<le> n" using fits_le by auto
  have "drop p bs = region bs p (at - p) @ region bs at (length d) @ drop (at + length d) bs"
    using le append_take_drop_id [of "at - p" "drop p bs"] append_take_drop_id [of "length d" "drop at bs"]
    by (simp add: region_def add.commute)
  moreover have "length (region bs p (at - p)) = at - p" "length (region bs at (length d)) = length d"
    using le 2(3) by (simp_all add: length_region)
  ultimately show ?case using 2 by simp
qed simp

lemma laid_out_longer: "fits p fs m \<Longrightarrow> m \<le> n \<Longrightarrow> laid_out p fs n = laid_out p fs m @ replicate (n - m) 0"
proof (induction p fs m rule: fits.induct)
  case (1 p m)
  then show ?case by (simp flip: replicate_add)
qed auto

lemma put_all_iff: "fits 0 fs n \<Longrightarrow> length bs = n \<Longrightarrow> bs = put_all (replicate n 0) fs \<longleftrightarrow> matches bs 0 fs n"
  using put_all_laid_out [of "[]" fs n] matches_iff [of 0 fs n bs] by simp

lemma fits_gap: "fits p (A @ (at, d) # B) n \<Longrightarrow> fits p (A @ B) n"
  by (induction A arbitrary: p) (use fits_le in \<open>cases B; force\<close>, auto)

lemma laid_out_gap:
  "fits p (A @ (at, replicate k 0) # B) n \<Longrightarrow> laid_out p (A @ (at, replicate k 0) # B) n = laid_out p (A @ B) n"
proof (induction A arbitrary: p)
  case Nil
  then show ?case
    by (cases B) (auto simp: replicate_add [symmetric] simp flip: append_assoc)
qed auto

lemma laid_out_put:
  "fits p (A @ (at, d) # B) n \<Longrightarrow> length d' = length d \<Longrightarrow> length pre = p \<Longrightarrow>
   buffer_put (pre @ laid_out p (A @ (at, d) # B) n) at d' = pre @ laid_out p (A @ (at, d') # B) n"
proof (induction A arbitrary: p pre)
  case Nil
  then show ?case by (simp add: buffer_put_def)
next
  case (Cons f A)
  obtain at' e where f: "f = (at', e)" by force
  then show ?case using Cons.IH [of "at' + length e" "pre @ replicate (at' - p) 0 @ e"] Cons.prems by simp
qed

text \<open>A field of zeros may be left out, and writing a field later is writing it at its place.\<close>

lemma put_all_later:
  assumes "fits 0 (A @ (at, d) # B) n"
  shows "buffer_put (put_all (replicate n 0) (A @ B)) at d = put_all (replicate n 0) (A @ (at, d) # B)"
    and "put_all (replicate n 0) (A @ (at, replicate (length d) 0) # B) = put_all (replicate n 0) (A @ B)"
proof -
  have same: "fits p (A @ (at, replicate (length d) 0) # B) n \<longleftrightarrow> fits p (A @ (at, d) # B) n" for p
    by (induction A arbitrary: p) auto
  have p: "put_all (replicate n 0) fs = laid_out 0 fs n" if "fits 0 fs n" for fs
    using put_all_laid_out [of "[]" fs n] that by simp
  show "put_all (replicate n 0) (A @ (at, replicate (length d) 0) # B) = put_all (replicate n 0) (A @ B)"
    using assms same [of 0] fits_gap [of 0 A at d B n] by (simp add: p laid_out_gap)
  then show "buffer_put (put_all (replicate n 0) (A @ B)) at d = put_all (replicate n 0) (A @ (at, d) # B)"
    using laid_out_put [of 0 A at "replicate (length d) 0" B n d "[]"] assms same [of 0] by (simp add: p)
qed

lemma bytes_equal_region: "length expected \<le> length bs \<Longrightarrow> bytes_equal bs expected \<longleftrightarrow> region bs 0 (length expected) = expected"
  unfolding bytes_equal_def list_all_iff list_eq_iff_nth_eq [of "region bs 0 (length expected)"]
  by (simp add: length_region nth_region Ball_def)

lemma region_le_iff:
  "i + 2 \<le> length bs \<Longrightarrow> region bs i 2 = write_le16 v16 \<longleftrightarrow> read_le16 bs i = v16"
  "i + 4 \<le> length bs \<Longrightarrow> region bs i 4 = write_le32 v32 \<longleftrightarrow> read_le32 bs i = v32"
  "i + 8 \<le> length bs \<Longrightarrow> region bs i 8 = write_le64 v64 \<longleftrightarrow> read_le64 bs i = v64"
  unfolding le_readers le_writers
  using get_le_bytes [where 'a = 16 and n = 2] le_bytes_get [where 'a = 16 and n = 2]
    get_le_bytes [where 'a = 32 and n = 4] le_bytes_get [where 'a = 32 and n = 4]
    get_le_bytes [where 'a = 64 and n = 8] le_bytes_get [where 'a = 64 and n = 8] by fastforce+

lemma region_1_iff: "i < length bs \<Longrightarrow> region bs i 1 = [b] \<longleftrightarrow> bs ! i = b"
  by (auto simp: list_eq_iff_nth_eq length_region nth_region)

lemma length_write_le [simp]:
  "length (write_le16 v16) = 2" "length (write_le32 v32) = 4" "length (write_le64 v64) = 8"
  by (simp_all add: le_writers)

section \<open>Frames\<close>

definition frame_fields :: "SpeakerAssetsFrame \<Rightarrow> bytes \<Rightarrow> (nat \<times> bytes) list" where
  "frame_fields frame crc =
     [(0, kFrameMagic), (3, [kSpeakerAssetsProtocolVersion]), (4, [fr_opcode frame]), (5, [fr_flags frame]),
      (6, write_le16 (fr_body_length frame)), (8, write_le32 (fr_request_id frame)),
      (12, write_le32 (fr_session_cookie frame)), (16, write_le32 (fr_object_offset frame)), (20, crc),
      (24, take (unat (fr_body_length frame)) (fr_body frame))]"

definition frame_array :: "SpeakerAssetsFrame \<Rightarrow> nat \<Rightarrow> bytes \<Rightarrow> bytes" where
  "frame_array frame width crc = put_all (replicate width 0) (frame_fields frame crc)"

definition frame_wire :: "SpeakerAssetsFrame \<Rightarrow> nat \<Rightarrow> bytes" where
  "frame_wire frame width = frame_array frame width
     (write_le32 (sound_crc32_iso_hdlc (take (24 + unat (fr_body_length frame)) (frame_array frame width (replicate 4 0)))))"

lemma length_kFrameMagic [simp]: "length kFrameMagic = 3" by (simp add: kFrameMagic_def)

lemma frame_fits:
  "24 + unat (fr_body_length f) \<le> width \<Longrightarrow> length (fr_body f) = 101 \<Longrightarrow> length crc = 4 \<Longrightarrow> unat (fr_body_length f) \<le> 101 \<Longrightarrow>
   fits 0 (frame_fields f crc) width"
  by (simp add: frame_fields_def)

lemma encode_prefix_eq:
  assumes "24 + unat (fr_body_length f) \<le> width" "length (fr_body f) = 101" "unat (fr_body_length f) \<le> 101"
  shows "encode_frame_prefix f width = frame_array f width (replicate 4 0)"
    and "length crc = 4 \<Longrightarrow> buffer_put (encode_frame_prefix f width) kFrameCrcOffset crc = frame_array f width crc"
    and "length crc = 4 \<Longrightarrow> buffer_put (frame_array f width crc) kFrameCrcOffset (replicate 4 0) = frame_array f width (replicate 4 0)"
proof -
  let ?A = "[(0, kFrameMagic), (3, [kSpeakerAssetsProtocolVersion]), (4, [fr_opcode f]), (5, [fr_flags f]),
      (6, write_le16 (fr_body_length f)), (8, write_le32 (fr_request_id f)),
      (12, write_le32 (fr_session_cookie f)), (16, write_le32 (fr_object_offset f))]"
  let ?B = "[(24, take (unat (fr_body_length f)) (fr_body f))]"
  have fits: "fits 0 (?A @ (20, d) # ?B) width" if "length d = 4" for d
    using frame_fits [OF assms(1,2) that assms(3)] by (simp add: frame_fields_def)
  have prefix: "encode_frame_prefix f width = put_all (replicate width 0) (?A @ ?B)"
    by (simp add: encode_frame_prefix_def frame_sizes)
  have arr: "frame_array f width d = put_all (replicate width 0) (?A @ (20, d) # ?B)" for d
    by (simp add: frame_array_def frame_fields_def)
  show z: "encode_frame_prefix f width = frame_array f width (replicate 4 0)"
    using put_all_later(2) [OF fits [of "replicate 4 0"]] by (simp add: prefix arr)
  show c: "buffer_put (encode_frame_prefix f width) kFrameCrcOffset crc = frame_array f width crc" if "length crc = 4" for crc
    using put_all_later(1) [OF fits [OF that]] by (simp add: prefix arr kFrameCrcOffset_def)
  have twice: "buffer_put (buffer_put bs a d) a d' = buffer_put bs a d'" if "length d' = length d" "a + length d \<le> length bs"
    for bs d d' and a :: nat
    using that by (simp add: buffer_put_def)
  have len: "length (frame_array f width d) = width" if "length d = 4" for d
  proof -
    have "frame_array f width d = laid_out 0 (?A @ (20, d) # ?B) width"
      using put_all_laid_out [of "[]", simplified, OF fits [OF that]] by (simp only: arr)
    then show ?thesis using length_laid_out [OF fits [OF that]] by (simp only: diff_zero)
  qed
  show "buffer_put (frame_array f width crc) kFrameCrcOffset (replicate 4 0) = frame_array f width (replicate 4 0)" if "length crc = 4"
    using c [OF that] c [of "replicate 4 0"] twice [of "replicate 4 0" crc kFrameCrcOffset "encode_frame_prefix f width"] that
      len [of "replicate 4 0"] assms(1) by (simp add: z kFrameCrcOffset_def)
qed

text \<open>What the decoder reads is the array of the frame it returns.\<close>

definition frame_well_formed :: "SpeakerAssetsFrame \<Rightarrow> bool" where
  "frame_well_formed f \<longleftrightarrow> length (fr_body f) = kSpeakerAssetsWifiFrameBodyBytes \<and>
     list_all (\<lambda>b. b = 0) (drop (unat (fr_body_length f)) (fr_body f))"

definition frame_read :: "bytes \<Rightarrow> SpeakerAssetsFrame" where
  "frame_read p =
     \<lparr>fr_opcode = p ! 4, fr_flags = p ! 5, fr_request_id = read_le32 p 8, fr_session_cookie = read_le32 p 12,
      fr_object_offset = read_le32 p 16, fr_body_length = read_le16 p 6,
      fr_body = region p 24 (unat (read_le16 p 6)) @ replicate (101 - unat (read_le16 p 6)) 0\<rparr>"

lemma frame_array_iff:
  assumes "24 + unat (fr_body_length f) \<le> length p" "unat (fr_body_length f) \<le> 101" "frame_well_formed f"
  shows "p = frame_array f (length p) (region p 20 4) \<longleftrightarrow>
    bytes_equal p kFrameMagic \<and> p ! 3 = kSpeakerAssetsProtocolVersion \<and>
    bytes_are_zero (drop (24 + unat (fr_body_length f)) p) \<and> f = frame_read p"
proof -
  let ?n = "unat (fr_body_length f)"
  have body: "length (fr_body f) = 101" and tail: "drop ?n (fr_body f) = replicate (101 - ?n) 0"
    using assms(2,3) by (auto simp: frame_well_formed_def frame_sizes list_all_length list_eq_iff_nth_eq)
  have "p = frame_array f (length p) (region p 20 4) \<longleftrightarrow> matches p 0 (frame_fields f (region p 20 4)) (length p)"
    unfolding frame_array_def using frame_fits [OF assms(1) body _ assms(2), of "region p 20 4"] assms(1)
    by (intro put_all_iff) (simp_all add: length_region)
  also have "\<dots> \<longleftrightarrow> bytes_equal p kFrameMagic \<and> p ! 3 = kSpeakerAssetsProtocolVersion \<and> p ! 4 = fr_opcode f \<and> p ! 5 = fr_flags f \<and>
      read_le16 p 6 = fr_body_length f \<and> read_le32 p 8 = fr_request_id f \<and> read_le32 p 12 = fr_session_cookie f \<and>
      read_le32 p 16 = fr_object_offset f \<and> region p 24 ?n = take ?n (fr_body f) \<and> bytes_are_zero (drop (24 + ?n) p)"
    using assms(1,2) body
    by (simp add: frame_fields_def region_le_iff region_1_iff [simplified] bytes_equal_region bytes_are_zero_iff length_region)
  also have "\<dots> \<longleftrightarrow> bytes_equal p kFrameMagic \<and> p ! 3 = kSpeakerAssetsProtocolVersion \<and>
      bytes_are_zero (drop (24 + ?n) p) \<and> f = frame_read p"
  proof -
    have "region p 24 ?n = take ?n (fr_body f) \<longleftrightarrow> fr_body f = region p 24 ?n @ replicate (101 - ?n) 0"
      using append_take_drop_id [of ?n "fr_body f"] tail assms(1) by (metis append_eq_append_conv length_region length_take body
        min.absorb2 assms(2))
    moreover have "f = frame_read p \<longleftrightarrow> p ! 4 = fr_opcode f \<and> p ! 5 = fr_flags f \<and> read_le16 p 6 = fr_body_length f \<and>
        read_le32 p 8 = fr_request_id f \<and> read_le32 p 12 = fr_session_cookie f \<and> read_le32 p 16 = fr_object_offset f \<and>
        fr_body f = region p 24 (unat (read_le16 p 6)) @ replicate (101 - unat (read_le16 p 6)) 0"
      unfolding frame_read_def by (cases f) auto
    ultimately show ?thesis
      by (cases "read_le16 p 6 = fr_body_length f") (simp_all only: conj_ac simp_thms refl)
  qed
  finally show ?thesis .
qed

lemma length_frame_array:
  assumes "24 + unat (fr_body_length f) \<le> width" "length (fr_body f) = 101" "length crc = 4" "unat (fr_body_length f) \<le> 101"
  shows "length (frame_array f width crc) = width"
  using put_all_laid_out [of "[]", simplified, OF frame_fits [OF assms]] length_laid_out [OF frame_fits [OF assms]]
  by (simp only: frame_array_def diff_zero)

lemma take_frame_array:
  assumes "24 + unat (fr_body_length f) \<le> width" "length (fr_body f) = 101" "length crc = 4" "unat (fr_body_length f) \<le> 101"
  shows "take (24 + unat (fr_body_length f)) (frame_array f width crc) = frame_array f (24 + unat (fr_body_length f)) crc"
proof -
  let ?n = "24 + unat (fr_body_length f)"
  have "frame_array f m crc = laid_out 0 (frame_fields f crc) m" if "?n \<le> m" for m
    using put_all_laid_out [of "[]", simplified, OF frame_fits [OF that assms(2,3,4)]] by (simp only: frame_array_def)
  then show ?thesis
    using laid_out_longer [OF frame_fits [OF order_refl assms(2,3,4)] assms(1)] length_laid_out [OF frame_fits [OF order_refl assms(2,3,4)]]
      assms(1) by simp
qed

lemma region_frame_crc:
  assumes "24 + unat (fr_body_length f) \<le> width" "length (fr_body f) = 101" "length crc = 4" "unat (fr_body_length f) \<le> 101"
  shows "region (frame_array f width crc) 20 4 = crc"
proof -
  have "matches (frame_array f width crc) 0 (frame_fields f crc) width"
    using put_all_iff [OF frame_fits [OF assms] length_frame_array [OF assms]] by (simp add: frame_array_def)
  then show ?thesis using assms(3) by (simp add: frame_fields_def)
qed

lemma frame_wire_iff:
  assumes n: "24 + unat (fr_body_length f) \<le> length p" "unat (fr_body_length f) \<le> 101" and wf: "frame_well_formed f"
  shows "p = frame_wire f (length p) \<longleftrightarrow>
    p = frame_array f (length p) (region p 20 4) \<and>
    read_le32 p 20 = sound_crc32_iso_hdlc (buffer_put (take (24 + unat (fr_body_length f)) p) kFrameCrcOffset (replicate 4 0))"
proof -
  let ?n = "24 + unat (fr_body_length f)"
  have body: "length (fr_body f) = 101" using wf by (simp add: frame_well_formed_def frame_sizes)
  have cut: "buffer_put (take ?n bs) kFrameCrcOffset (replicate 4 0) = take ?n (buffer_put bs kFrameCrcOffset (replicate 4 0))"
    if "?n \<le> length bs" for bs :: bytes
    using that by (simp add: buffer_put_def kFrameCrcOffset_def drop_take)
  have zero: "take ?n (buffer_put p kFrameCrcOffset (replicate 4 0)) = take ?n (frame_array f (length p) (replicate 4 0))"
    if "p = frame_array f (length p) c" "length c = 4" for c
    using encode_prefix_eq(3) [OF n(1) body n(2) that(2)] that(1) by simp
  let ?crc = "\<lambda>bs. write_le32 (sound_crc32_iso_hdlc (take ?n bs))"
  show ?thesis
  proof
    assume p: "p = frame_wire f (length p)"
    let ?c = "?crc (frame_array f (length p) (replicate 4 0))"
    have arr: "p = frame_array f (length p) ?c" using p by (simp add: frame_wire_def)
    have r: "region p 20 4 = ?c" using region_frame_crc [OF n(1) body _ n(2), of ?c] arr by simp
    then have "read_le32 p 20 = sound_crc32_iso_hdlc (take ?n (frame_array f (length p) (replicate 4 0)))"
      using region_le_iff(2) [of 20 p] n(1) by simp
    then show "p = frame_array f (length p) (region p 20 4) \<and>
        read_le32 p 20 = sound_crc32_iso_hdlc (buffer_put (take ?n p) kFrameCrcOffset (replicate 4 0))"
      using arr r zero [OF arr] cut [OF n(1)] by simp
  next
    assume a: "p = frame_array f (length p) (region p 20 4) \<and>
        read_le32 p 20 = sound_crc32_iso_hdlc (buffer_put (take ?n p) kFrameCrcOffset (replicate 4 0))"
    then have "region p 20 4 = ?crc (frame_array f (length p) (replicate 4 0))"
      using region_le_iff(2) [of 20 p] n(1) zero [of "region p 20 4"] cut [OF n(1)] by (simp add: length_region)
    then show "p = frame_wire f (length p)" using a by (simp add: frame_wire_def)
  qed
qed

lemma decode_prefix_iff:
  assumes max: "max_body \<le> 101" and exact: "\<not> padded \<Longrightarrow> length p \<le> 24 + max_body"
  shows "decode_frame_prefix p max_body padded = Inr f \<longleftrightarrow>
    frame_well_formed f \<and> validate_frame_for_encoding f max_body = Inr () \<and>
    (if padded then 24 + unat (fr_body_length f) \<le> length p else length p = 24 + unat (fr_body_length f)) \<and>
    p = frame_wire f (length p)"
    (is "?decoded \<longleftrightarrow> ?wf \<and> ?valid \<and> ?len \<and> ?wire")
proof -
  let ?g = "frame_read p"
  let ?n = "unat (read_le16 p 6)"
  have body: "fr_body ?g = buffer_put (replicate kSpeakerAssetsWifiFrameBodyBytes 0) 0 (region p kSpeakerAssetsFrameHeaderBytes ?n)"
    if "24 + ?n \<le> length p" using that by (simp add: frame_read_def buffer_put_def frame_sizes length_region)
  have g: "fr_body_length ?g = read_le16 p 6" "fr_flags ?g = p ! 5" "fr_request_id ?g = read_le32 p 8"
    by (simp_all add: frame_read_def)
  have wf: "frame_well_formed ?g" if "24 + ?n \<le> length p" "?n \<le> 101"
    using that by (simp add: frame_well_formed_def frame_read_def frame_sizes length_region list_all_length)
  let ?header = "24 + ?n \<le> length p \<and> ?n \<le> max_body \<and> bytes_equal p kFrameMagic \<and> p ! 3 = kSpeakerAssetsProtocolVersion \<and>
    \<not> flags_invalid (p ! 5) \<and> (padded \<or> length p = 24 + ?n) \<and> bytes_are_zero (drop (24 + ?n) p) \<and> read_le32 p 8 \<noteq> 0 \<and>
    read_le32 p 20 = sound_crc32_iso_hdlc (buffer_put (take (24 + ?n) p) kFrameCrcOffset (replicate 4 0))"
  have "bytes_are_zero []" by (simp add: bytes_are_zero_def)
  then have "?decoded \<longleftrightarrow> ?header \<and> f = ?g"
    using body by (cases padded) (auto simp: decode_frame_prefix_def Let_def frame_sizes frame_read_def)
  also have "\<dots> \<longleftrightarrow> ?wf \<and> ?valid \<and> ?len \<and> ?wire"
  proof (cases "f = ?g \<and> 24 + ?n \<le> length p \<and> ?n \<le> 101")
    case True
    then have f: "24 + unat (fr_body_length f) \<le> length p" "unat (fr_body_length f) \<le> 101" "frame_well_formed f"
      using wf g by auto
    show ?thesis
      using frame_wire_iff [OF f] frame_array_iff [OF f] f True max
      by (auto simp: validate_frame_for_encoding_def g split: if_splits)
  next
    case False
    have "f = ?g" "24 + ?n \<le> length p" "?n \<le> 101" if "?wf" "?valid" "?len" "?wire"
    proof -
      have f: "24 + unat (fr_body_length f) \<le> length p" "unat (fr_body_length f) \<le> 101"
        using that max by (auto simp: validate_frame_for_encoding_def split: if_splits)
      show "f = ?g" using frame_wire_iff [OF f that(1)] frame_array_iff [OF f that(1)] that(4) by simp
      then show "24 + ?n \<le> length p" "?n \<le> 101" using f g by auto
    qed
    then show ?thesis using False max by auto
  qed
  finally show ?thesis .
qed

text \<open>
  C38: A USB packet or a Wi-Fi packet of the sound protocol is accepted exactly when it is the
  packet that the encoder produces for the accepted frame: every accepted packet is the unique
  encoding of its frame, down to its padding and its checksum, and every frame that the encoder
  accepts is read back as it was.
\<close>

theorem sound_frame_canonical:
  "(decode_speaker_assets_usb_frame packet = Inr frame \<longleftrightarrow>
      frame_well_formed frame \<and> encode_speaker_assets_usb_frame frame = Inr packet) \<and>
   (decode_speaker_assets_wifi_frame packet = Inr frame \<longleftrightarrow>
      frame_well_formed frame \<and>
      (\<exists>encoded encoded_length. encode_speaker_assets_wifi_frame frame = Inr (encoded, encoded_length) \<and>
         packet = take encoded_length encoded))"
proof (rule conjI)
  have valid: "unat (fr_body_length frame) \<le> max_body" if "validate_frame_for_encoding frame max_body = Inr ()" for max_body
    using that by (simp add: validate_frame_for_encoding_def split: if_splits)
  show "decode_speaker_assets_usb_frame packet = Inr frame \<longleftrightarrow>
     frame_well_formed frame \<and> encode_speaker_assets_usb_frame frame = Inr packet"
  proof (cases "frame_well_formed frame \<and> validate_frame_for_encoding frame 39 = Inr ()")
    case True
    then have n: "unat (fr_body_length frame) \<le> 39" "length (fr_body frame) = 101"
      using valid by (auto simp: frame_well_formed_def frame_sizes)
    then show ?thesis
      using True decode_prefix_iff [of 39 True packet frame] encode_prefix_eq [of frame 63] length_frame_array [of frame 63]
      by (auto simp: decode_speaker_assets_usb_frame_def encode_speaker_assets_usb_frame_def frame_sizes frame_wire_def Let_def)
  next
    case False
    then show ?thesis
      using decode_prefix_iff [of 39 True packet frame]
      by (auto simp: decode_speaker_assets_usb_frame_def encode_speaker_assets_usb_frame_def frame_sizes split: sum.splits)
  qed
  show "decode_speaker_assets_wifi_frame packet = Inr frame \<longleftrightarrow> frame_well_formed frame \<and>
     (\<exists>encoded encoded_length. encode_speaker_assets_wifi_frame frame = Inr (encoded, encoded_length) \<and>
        packet = take encoded_length encoded)"
  proof (cases "frame_well_formed frame \<and> validate_frame_for_encoding frame 101 = Inr ()")
    case True
    then have n: "24 + unat (fr_body_length frame) \<le> 125" "length (fr_body frame) = 101" "unat (fr_body_length frame) \<le> 101"
      using valid by (auto simp: frame_well_formed_def frame_sizes)
    have "encode_speaker_assets_wifi_frame frame = Inr (frame_wire frame 125, 24 + unat (fr_body_length frame))"
      using True encode_prefix_eq [OF n]
      by (simp add: encode_speaker_assets_wifi_frame_def frame_sizes frame_wire_def Let_def)
    moreover have "take (24 + unat (fr_body_length frame)) (frame_wire frame 125) = frame_wire frame (24 + unat (fr_body_length frame))"
      using take_frame_array [OF n(1,2) _ n(3)] take_frame_array [OF order_refl n(2) _ n(3)] by (simp add: frame_wire_def)
    moreover have "length (frame_wire frame (24 + unat (fr_body_length frame))) = 24 + unat (fr_body_length frame)"
      using length_frame_array [OF order_refl n(2) _ n(3)] by (simp add: frame_wire_def)
    ultimately show ?thesis
      using True n decode_prefix_iff [of 101 False packet frame]
      by (auto simp: decode_speaker_assets_wifi_frame_def frame_sizes)
  next
    case False
    then show ?thesis
      using decode_prefix_iff [of 101 False packet frame]
      by (auto simp: decode_speaker_assets_wifi_frame_def encode_speaker_assets_wifi_frame_def frame_sizes split: sum.splits)
  qed
qed

section \<open>Plans on the wire\<close>

definition plan_fields :: "SoundBundlePlan \<Rightarrow> bytes \<Rightarrow> (nat \<times> bytes) list" where
  "plan_fields plan crc =
     [(0, kPlanMagic), (4, write_le16 kSpeakerAssetsPlanVersion), (6, write_le16 (of_nat kSpeakerAssetsPlanWireBytes)),
      (8, write_le64 (bp_base_generation plan)), (16, bp_base_bundle_sha256 plan),
      (48, write_le32 (of_nat (bp_manifest_bytes plan))), (52, write_le32 (of_nat (bp_payload_bytes plan))),
      (56, write_le32 (bp_manifest_crc32 plan)), (60, bp_manifest_sha256 plan), (92, bp_bundle_sha256 plan),
      (124, concat (map write_le32 (bp_payload_block_crc32 plan))), (636, crc)]"

lemma length_concat_le32: "length (concat (map write_le32 ws)) = 4 * length ws"
  by (induction ws) simp_all

text \<open>An array of words, read word by word.\<close>

lemma region_words_iff:
  "at + 4 * length ws \<le> length bs \<Longrightarrow>
   region bs at (4 * length ws) = concat (map write_le32 ws) \<longleftrightarrow> map (\<lambda>i. read_le32 bs (at + i * 4)) [0..<length ws] = ws"
proof (induction ws arbitrary: at)
  case (Cons w ws)
  have "region bs at (4 * length (w # ws)) = region bs at 4 @ region bs (at + 4) (4 * length ws)"
    using region_append [of bs at 4 "4 * length ws"] by simp
  moreover have "map (\<lambda>i. read_le32 bs (at + i * 4)) [0..<length (w # ws)] =
      read_le32 bs at # map (\<lambda>i. read_le32 bs (at + 4 + i * 4)) [0..<length ws]"
    by (simp add: upt_rec [of 0] map_Suc_upt [symmetric] del: upt_Suc) (simp add: add.assoc add.commute)
  ultimately show ?case using Cons.IH [of "at + 4"] Cons.prems by (simp add: region_le_iff length_region)
qed simp

lemma plan_fits: "plan_shape plan \<Longrightarrow> length crc = 4 \<Longrightarrow> fits 0 (plan_fields plan crc) 640"
  by (simp add: plan_fields_def plan_shape_def length_concat_le32 bank_layout kPlanMagic_def)

definition plan_array :: "SoundBundlePlan \<Rightarrow> bytes \<Rightarrow> bytes" where
  "plan_array plan crc = put_all (replicate 640 0) (plan_fields plan crc)"

definition plan_read :: "bytes \<Rightarrow> SoundBundlePlan" where
  "plan_read p =
     \<lparr>bp_base_generation = read_le64 p 8, bp_base_bundle_sha256 = region p 16 32,
      bp_manifest_bytes = unat (read_le32 p 48), bp_payload_bytes = unat (read_le32 p 52),
      bp_manifest_crc32 = read_le32 p 56, bp_manifest_sha256 = region p 60 32, bp_bundle_sha256 = region p 92 32,
      bp_payload_block_crc32 = map (\<lambda>index. read_le32 p (124 + index * 4)) [0..<128]\<rparr>"

lemma plan_array_iff:
  assumes shape: "plan_shape plan" and len: "length p = 640"
    and small: "bp_manifest_bytes plan < 2 ^ 32" "bp_payload_bytes plan < 2 ^ 32"
  shows "p = plan_array plan (region p 636 4) \<longleftrightarrow>
    bytes_equal p kPlanMagic \<and> read_le16 p 4 = kSpeakerAssetsPlanVersion \<and> read_le16 p 6 = of_nat kSpeakerAssetsPlanWireBytes \<and>
    plan = plan_read p"
proof -
  have word: "read_le32 p k = of_nat n \<longleftrightarrow> n = unat (read_le32 p k)" if "n < 2 ^ 32" for k n
    using that by (auto simp: unat_of_nat take_bit_nat_eq_self)
  have crcs: "region p 124 (length (concat (map write_le32 (bp_payload_block_crc32 plan)))) =
      concat (map write_le32 (bp_payload_block_crc32 plan)) \<longleftrightarrow>
      map (\<lambda>index. read_le32 p (124 + index * 4)) [0..<128] = bp_payload_block_crc32 plan"
    using region_words_iff [of 124 "bp_payload_block_crc32 plan" p] shape len
    by (simp add: length_concat_le32 plan_shape_def bank_layout)
  have n: "length (concat (map write_le32 (bp_payload_block_crc32 plan))) = 512"
    using shape by (simp add: length_concat_le32 plan_shape_def bank_layout)
  have magic: "length kPlanMagic = 4" by (simp add: kPlanMagic_def)
  have "p = plan_array plan (region p 636 4) \<longleftrightarrow> matches p 0 (plan_fields plan (region p 636 4)) 640"
    unfolding plan_array_def using plan_fits [OF shape, of "region p 636 4"] len
    by (intro put_all_iff) (simp_all add: length_region)
  also have "\<dots> \<longleftrightarrow> bytes_equal p kPlanMagic \<and> read_le16 p 4 = kSpeakerAssetsPlanVersion \<and>
      read_le16 p 6 = of_nat kSpeakerAssetsPlanWireBytes \<and> read_le64 p 8 = bp_base_generation plan \<and>
      region p 16 32 = bp_base_bundle_sha256 plan \<and> bp_manifest_bytes plan = unat (read_le32 p 48) \<and>
      bp_payload_bytes plan = unat (read_le32 p 52) \<and> read_le32 p 56 = bp_manifest_crc32 plan \<and>
      region p 60 32 = bp_manifest_sha256 plan \<and> region p 92 32 = bp_bundle_sha256 plan \<and>
      map (\<lambda>index. read_le32 p (124 + index * 4)) [0..<128] = bp_payload_block_crc32 plan"
    using shape len crcs unfolding n
    by (simp add: plan_fields_def plan_shape_def region_le_iff bytes_equal_region length_region magic n word [OF small(1)] word [OF small(2)])
  also have "\<dots> \<longleftrightarrow> bytes_equal p kPlanMagic \<and> read_le16 p 4 = kSpeakerAssetsPlanVersion \<and>
      read_le16 p 6 = of_nat kSpeakerAssetsPlanWireBytes \<and> plan = plan_read p"
    unfolding plan_read_def by (cases plan) auto
  finally show ?thesis .
qed

lemma plan_array_later:
  assumes "plan_shape plan" "length crc = 4"
  shows "buffer_put (plan_array plan (replicate 4 0)) 636 crc = plan_array plan crc"
    and "length (plan_array plan crc) = 640" and "region (plan_array plan crc) 636 4 = crc"
    and "take 636 (plan_array plan crc) = take 636 (plan_array plan (replicate 4 0))"
proof -
  obtain A where A: "plan_fields plan c = A @ (636, c) # []" for c
    by (simp add: plan_fields_def)
  have fits: "fits 0 (A @ (636, c) # []) 640" if "length c = 4" for c
    using plan_fits [OF assms(1) that] by (simp add: A)
  have arr: "plan_array plan c = put_all (replicate 640 0) (A @ (636, c) # [])" for c by (simp add: plan_array_def A)
  have z: "plan_array plan (replicate 4 0) = put_all (replicate 640 0) (A @ [])"
    unfolding arr using put_all_later(2) [OF fits [OF assms(2)]] assms(2) by simp
  show put: "buffer_put (plan_array plan (replicate 4 0)) 636 crc = plan_array plan crc"
    unfolding z using put_all_later(1) [OF fits [OF assms(2)]] by (simp add: arr)
  have len: "length (plan_array plan c) = 640" if "length c = 4" for c
    using put_all_laid_out [of "[]", simplified, OF fits [OF that]] length_laid_out [OF fits [OF that]] by (simp only: arr diff_zero)
  show "length (plan_array plan crc) = 640" by (rule len [OF assms(2)])
  show "region (plan_array plan crc) 636 4 = crc" "take 636 (plan_array plan crc) = take 636 (plan_array plan (replicate 4 0))"
    using len [of "replicate 4 0"] assms(2) by (simp_all add: put [symmetric] buffer_put_def region_def)
qed

lemma plan_small: "sound_bundle_plan_shape_is_valid plan \<Longrightarrow> bp_manifest_bytes plan < 2 ^ 32 \<and> bp_payload_bytes plan < 2 ^ 32"
  by (simp add: sound_bundle_plan_shape_is_valid_def bank_layout split: if_splits)

lemma encode_plan_iff:
  assumes shape: "plan_shape plan"
  shows "encode_sound_bundle_plan_wire plan = Inr p \<longleftrightarrow>
    sound_bundle_plan_shape_is_valid plan \<and> length p = 640 \<and> p = plan_array plan (region p 636 4) \<and>
    read_le32 p 636 = sound_crc32_iso_hdlc (take 636 p)"
proof (cases "sound_bundle_plan_shape_is_valid plan")
  case True
  let ?z = "plan_array plan (replicate 4 0)"
  let ?c = "write_le32 (sound_crc32_iso_hdlc (take 636 ?z))"
  have fits: "fits 0 (butlast (plan_fields plan c) @ (636, c) # []) 640" if "length c = 4" for c
    using plan_fits [OF shape that] by (simp add: plan_fields_def)
  have z: "?z = put_all (replicate 640 0) (butlast (plan_fields plan (replicate 4 0)))"
    unfolding plan_array_def using put_all_later(2) [OF fits [of "replicate 4 0"]] by (simp add: plan_fields_def)
  have "encode_sound_bundle_plan_wire plan = Inr (plan_array plan ?c)"
    unfolding plan_array_later(1) [OF shape, of ?c, simplified, symmetric]
    using True by (simp add: encode_sound_bundle_plan_wire_def z Let_def frame_sizes plan_fields_def)
  moreover have "p = plan_array plan ?c \<longleftrightarrow> length p = 640 \<and> p = plan_array plan (region p 636 4) \<and>
      read_le32 p 636 = sound_crc32_iso_hdlc (take 636 p)"
  proof (rule iffI, goal_cases)
    case 1
    then show ?case
      using plan_array_later(2-4) [OF shape, of ?c] region_le_iff(2) [of 636 p "sound_crc32_iso_hdlc (take 636 ?z)"] by simp
  next
    case 2
    then have "take 636 p = take 636 ?z"
      using plan_array_later(4) [OF shape, of "region p 636 4"] by (simp add: length_region)
    then have "region p 636 4 = ?c" using 2 region_le_iff(2) [of 636 p "sound_crc32_iso_hdlc (take 636 ?z)"] by simp
    then show ?case using 2 by simp
  qed
  ultimately show ?thesis using True by auto
qed (simp add: encode_sound_bundle_plan_wire_def)

lemma plan_valid_of_shape: "sound_bundle_plan_shape_is_valid plan \<Longrightarrow> plan_shape plan \<Longrightarrow> plan_is_valid plan"
proof -
  have zero: "all_zero bs = bytes_are_zero bs" for bs by (simp add: all_zero_def bytes_are_zero_def)
  show "sound_bundle_plan_shape_is_valid plan \<Longrightarrow> plan_shape plan \<Longrightarrow> plan_is_valid plan"
    by (auto simp: plan_is_valid_def sound_bundle_plan_shape_is_valid_def plan_shape_def zero Let_def split: if_splits)
qed

text \<open>Bytes are accepted as a plan exactly when they are the wire form of that plan, which the store accepts.\<close>

lemma plan_wire_iff:
  "decode_sound_bundle_plan_wire packet = Inr plan \<longleftrightarrow>
     plan_shape plan \<and> plan_is_valid plan \<and> encode_sound_bundle_plan_wire plan = Inr packet"
proof -
  have read: "decode_sound_bundle_plan_wire packet = Inr plan \<longleftrightarrow> length packet = 640 \<and> bytes_equal packet kPlanMagic \<and>
      read_le16 packet 4 = kSpeakerAssetsPlanVersion \<and> read_le16 packet 6 = of_nat kSpeakerAssetsPlanWireBytes \<and>
      sound_crc32_iso_hdlc (take 636 packet) = read_le32 packet 636 \<and> sound_bundle_plan_shape_is_valid plan \<and> plan = plan_read packet"
    by (auto simp: decode_sound_bundle_plan_wire_def plan_read_def Let_def frame_sizes bank_layout)
  have shape: "plan_shape (plan_read packet)" if "length packet = 640"
    using that by (simp add: plan_shape_def plan_read_def length_region bank_layout)
  show ?thesis
  proof (cases "plan_shape plan \<and> sound_bundle_plan_shape_is_valid plan \<and> length packet = 640")
    case True
    then show ?thesis
      using read encode_plan_iff [of plan packet] plan_array_iff [of plan packet] plan_small plan_valid_of_shape by metis
  next
    case False
    then show ?thesis using read shape encode_plan_iff [of plan packet] by blast
  qed
qed

end
