(* ===== verification/Sound_Assembly.thy ===== *)
theory Sound_Assembly
  imports Sound_Protocol_Facts
begin

text \<open>
  The assemblers of plans and blocks.  \<open>held\<close> is what an assembler holds, as a partial map
  from offsets to bytes; accepting a fragment adds the fragment to it, unless the two disagree
  somewhere.  Over any calls an assembler holds exactly the fragments accepted since it was reset,
  all of one owner and one begin; and the fragments of a plan, sent in any order and any number of
  times, put the plan together.
\<close>

unbundle bit_operations_syntax

section \<open>The fragment buffer as a partial map\<close>

definition held :: "'z FragmentBuffer_scheme \<Rightarrow> nat \<Rightarrow> u8 option" where
  "held s i = (if i < length (fb_bytes s) \<and> byte_received s i then Some (fb_bytes s ! i) else None)"

definition piece :: "nat \<Rightarrow> bytes \<Rightarrow> nat \<Rightarrow> u8 option" where
  "piece offset data i = (if offset \<le> i \<and> i < offset + length data then Some (data ! (i - offset)) else None)"

definition agree :: "(nat \<Rightarrow> u8 option) \<Rightarrow> (nat \<Rightarrow> u8 option) \<Rightarrow> bool" where
  "agree m m' \<longleftrightarrow> (\<forall>i a b. m i = Some a \<longrightarrow> m' i = Some b \<longrightarrow> a = b)"

definition frag_inv :: "nat \<Rightarrow> 'z FragmentBuffer_scheme \<Rightarrow> bool" where
  "frag_inv width s \<longleftrightarrow> 8 dvd width \<and> length (fb_bytes s) = width \<and> length (fb_received s) = width div 8 \<and>
     fb_received_bytes s = card (dom (held s))"

lemma byte_received_bit: "byte_received s i \<longleftrightarrow> bit (fb_received s ! (i div 8)) (i mod 8)"
  by (simp add: byte_received_def bit_iff_and_push_bit_not_eq_0)

lemma byte_received_mark:
  assumes "8 dvd width" "length (fb_received s) = width div 8" "i < width"
  shows "byte_received (mark_byte_received s i) j \<longleftrightarrow> j = i \<or> byte_received s j"
proof -
  have "i div 8 < length (fb_received s)" using assms by (simp add: dvd_def less_mult_imp_div_less ac_simps)
  moreover have "j div 8 = i div 8 \<and> j mod 8 = i mod 8 \<longleftrightarrow> j = i" by (metis div_mult_mod_eq)
  ultimately show ?thesis
    by (auto simp: byte_received_bit mark_byte_received_def nth_list_update bit_or_iff bit_exp_iff)
qed

lemma finite_held: "finite (dom (held s))"
  by (rule finite_subset [of _ "{..<length (fb_bytes s)}"]) (auto simp: held_def split: if_splits)

lemma store_byte_step:
  assumes inv: "frag_inv width s" and i: "i < width"
  shows "frag_inv width (store_byte s i b)" "held (store_byte s i b) = [i \<mapsto> b] ++ held s"
    "FragmentBuffer.more (store_byte s i b) = FragmentBuffer.more s"
proof -
  note i' = inv [unfolded frag_inv_def]
  have new: "held (store_byte s i b) = [i \<mapsto> b] ++ held s \<and> frag_inv width (store_byte s i b)"
  proof (cases "byte_received s i")
    case True
    then have "held s i = Some (fb_bytes s ! i)" using i i' by (simp add: held_def)
    then show ?thesis using True inv by (auto simp: store_byte_def map_add_def fun_eq_iff split: option.splits)
  next
    case False
    let ?s = "s\<lparr>fb_bytes := (fb_bytes s)[i := b]\<rparr>"
    have mark: "byte_received (mark_byte_received ?s i) j \<longleftrightarrow> j = i \<or> byte_received s j" for j
      using byte_received_mark [of width ?s i j] i i' by (simp add: byte_received_def)
    have fields: "fb_bytes (mark_byte_received ?s i) = (fb_bytes s)[i := b]"
      "fb_received_bytes (mark_byte_received ?s i) = fb_received_bytes s"
      "length (fb_received (mark_byte_received ?s i)) = length (fb_received s)"
      by (simp_all add: mark_byte_received_def)
    have upd: "held (t\<lparr>fb_received_bytes := n\<rparr>) = held t" for t :: "'a FragmentBuffer_scheme" and n
      by (simp add: held_def byte_received_def fun_eq_iff)
    have held: "held (mark_byte_received ?s i) = (held s)(i \<mapsto> b)"
      using i i' by (auto simp: held_def fun_eq_iff mark fields nth_list_update)
    have none: "held s i = None" using False by (simp add: held_def)
    then have "card (dom ((held s)(i \<mapsto> b))) = Suc (card (dom (held s)))"
      using finite_held [of s] by (simp add: domIff)
    moreover have "(held s)(i \<mapsto> b) = [i \<mapsto> b] ++ held s"
      using none by (auto simp: map_add_def fun_eq_iff split: option.splits)
    ultimately show ?thesis
      using False i' by (simp add: store_byte_def Let_def upd held frag_inv_def fields)
  qed
  then show "frag_inv width (store_byte s i b)" "held (store_byte s i b) = [i \<mapsto> b] ++ held s" by simp_all
  show "FragmentBuffer.more (store_byte s i b) = FragmentBuffer.more s"
    by (simp add: store_byte_def mark_byte_received_def Let_def)
qed

lemma store_bytes_run:
  assumes "frag_inv width s" "offset + n \<le> width" "n \<le> length data"
  defines "t \<equiv> fold (\<lambda>index s. store_byte s (offset + index) (data ! index)) [0..<n] s"
  shows "frag_inv width t \<and> held t = piece offset (take n data) ++ held s \<and> FragmentBuffer.more t = FragmentBuffer.more s"
  unfolding t_def using assms(2,3)
proof (induction n)
  case 0
  then show ?case using assms(1) by (simp add: piece_def map_add_def fun_eq_iff split: option.splits)
next
  case (Suc n)
  let ?t = "fold (\<lambda>index s. store_byte s (offset + index) (data ! index)) [0..<n] s"
  have "piece offset (take (Suc n) data) ++ held s = [offset + n \<mapsto> data ! n] ++ (piece offset (take n data) ++ held s)"
    using Suc.prems(2)
    by (auto simp: piece_def map_add_def fun_eq_iff less_Suc_eq take_Suc_conv_app_nth nth_append less_diff_conv2 add.commute
      split: option.splits)
  then show ?case
    using Suc store_byte_step [of width ?t "offset + n" "data ! n"] by simp
qed

lemma accept_bytes_cases:
  assumes inv: "frag_inv width s" and fits: "offset + length data \<le> width"
  shows "\<not> agree (held s) (piece offset data) \<Longrightarrow> accept_bytes s offset data = Inl PrConflict"
    and "agree (held s) (piece offset data) \<Longrightarrow> \<exists>t. accept_bytes s offset data = Inr t \<and> frag_inv width t \<and>
      held t = piece offset data ++ held s \<and> FragmentBuffer.more t = FragmentBuffer.more s"
proof -
  have len: "length (fb_bytes s) = width" using inv by (simp add: frag_inv_def)
  have "list_ex (\<lambda>index. byte_received s (offset + index) \<and> fb_bytes s ! (offset + index) \<noteq> data ! index) [0..<length data] \<longleftrightarrow>
      \<not> agree (held s) (piece offset data)" (is "?conflict \<longleftrightarrow> _")
  proof -
    have "(\<exists>k < length data. byte_received s (offset + k) \<and> fb_bytes s ! (offset + k) \<noteq> data ! k) \<longleftrightarrow>
        (\<exists>i. offset \<le> i \<and> i < offset + length data \<and> byte_received s i \<and> fb_bytes s ! i \<noteq> data ! (i - offset))"
      by (metis add_diff_cancel_left' le_add1 le_add_diff_inverse nat_add_left_cancel_less)
    then show ?thesis
      using fits len by (fastforce simp: agree_def held_def piece_def list_ex_iff split: if_splits)
  qed
  then show "\<not> agree (held s) (piece offset data) \<Longrightarrow> accept_bytes s offset data = Inl PrConflict"
    and "agree (held s) (piece offset data) \<Longrightarrow> \<exists>t. accept_bytes s offset data = Inr t \<and> frag_inv width t \<and>
      held t = piece offset data ++ held s \<and> FragmentBuffer.more t = FragmentBuffer.more s"
    using store_bytes_run [OF inv fits order_refl] by (simp_all add: accept_bytes_def)
qed

text \<open>A list of fragments is held when each agrees with the map and together they cover it.\<close>

definition holds :: "(nat \<Rightarrow> u8 option) \<Rightarrow> (nat \<times> bytes) list \<Rightarrow> bool" where
  "holds m frags \<longleftrightarrow> (\<forall>i b. m i = Some b \<longleftrightarrow> (\<exists>(offset, data) \<in> set frags. piece offset data i = Some b))"

lemma holds_Nil [simp]: "holds m [] \<longleftrightarrow> m = Map.empty"
  by (auto simp: holds_def fun_eq_iff)

lemma holds_snoc:
  assumes "holds m frags" "agree m (piece offset data)"
  shows "holds (piece offset data ++ m) (frags @ [(offset, data)])"
  using assms unfolding holds_def agree_def
  by (auto simp: map_add_Some_iff split: prod.splits) (metis not_None_eq)+

lemma full_iff: "frag_inv width s \<Longrightarrow> fb_received_bytes s = width \<longleftrightarrow> (\<forall>i < width. held s i \<noteq> None)"
proof -
  assume inv: "frag_inv width s"
  have sub: "dom (held s) \<subseteq> {..<width}" using inv by (auto simp: held_def frag_inv_def split: if_splits)
  then have "card (dom (held s)) = width \<longleftrightarrow> dom (held s) = {..<width}"
    using card_subset_eq [OF _ sub] by fastforce
  then show ?thesis using inv sub by (auto simp: frag_inv_def)
qed

section \<open>Runs of the plan assembler\<close>

datatype PlanCall = PlanReset | PlanBegin SpeakerAssetsRouteToken u32 | PlanFragment SpeakerAssetsRouteToken u32 u16 bytes

fun plan_call :: "SpeakerAssetsPlanAssembler \<Rightarrow> PlanCall \<Rightarrow> SpeakerAssetsProtocolResult + SpeakerAssetsPlanAssembler" where
  "plan_call s PlanReset = Inr (plan_reset s)"
| "plan_call s (PlanBegin owner begin_id) = plan_begin s owner begin_id"
| "plan_call s (PlanFragment owner begin_id offset data) = plan_accept_fragment s owner begin_id offset data"

text \<open>A refused call changes nothing; the output tells whether the call was accepted.\<close>

definition plan_step :: "SpeakerAssetsPlanAssembler \<Rightarrow> PlanCall \<Rightarrow> SpeakerAssetsPlanAssembler \<times> bool" where
  "plan_step s c = (case plan_call s c of Inl e \<Rightarrow> (s, False) | Inr t \<Rightarrow> (t, True))"

abbreviation plan_after :: "PlanCall list \<Rightarrow> SpeakerAssetsPlanAssembler" where
  "plan_after \<equiv> run (\<lambda>s c. fst (plan_step s c)) init_plan_assembler"

text \<open>The fragments accepted since the last reset, with the owner and begin they came with.\<close>

type_synonym sent_fragment = "SpeakerAssetsRouteToken \<times> u32 \<times> nat \<times> bytes"

fun collect_fragments :: "sent_fragment list \<Rightarrow> PlanCall \<times> bool \<Rightarrow> sent_fragment list" where
  "collect_fragments g (PlanReset, accepted) = []"
| "collect_fragments g (PlanFragment owner begin_id offset data, True) = g @ [(owner, begin_id, unat offset, data)]"
| "collect_fragments g (c, accepted) = g"

definition accepted_fragments :: "PlanCall list \<Rightarrow> sent_fragment list" where
  "accepted_fragments calls = foldl collect_fragments [] (run_log plan_step init_plan_assembler calls)"

definition plan_rel :: "SpeakerAssetsPlanAssembler \<Rightarrow> sent_fragment list \<Rightarrow> bool" where
  "plan_rel s g \<longleftrightarrow> holds (held s) (map (\<lambda>(_, _, fragment). fragment) g) \<and> (pa_bound s \<or> g = []) \<and>
     list_all (\<lambda>(owner, begin_id, offset, data). owner = pa_owner s \<and> begin_id = pa_begin_id s \<and>
       offset + length data \<le> kSpeakerAssetsPlanWireBytes) g"

lemma route_equal_iff [simp]: "speaker_assets_route_equal r r' \<longleftrightarrow> r = r'"
  by (cases r; cases r') (auto simp: speaker_assets_route_equal_def)

lemma held_more:
  "held (s\<lparr>pa_owner := o', pa_begin_id := b, pa_bound := f\<rparr>) = held s"
  by (simp add: held_def byte_received_def fun_eq_iff)

lemma reset_is_init: "plan_reset s = init_plan_assembler"
  by (simp add: plan_reset_def init_plan_assembler_def empty_fragments_def FragmentBuffer.defs SpeakerAssetsPlanAssembler.defs)

lemma frag_inv_init: "frag_inv kSpeakerAssetsPlanWireBytes init_plan_assembler" "held init_plan_assembler = Map.empty"
proof -
  show h: "held init_plan_assembler = Map.empty"
    by (auto simp: held_def byte_received_def init_plan_assembler_def empty_fragments_def FragmentBuffer.defs
        SpeakerAssetsPlanAssembler.defs frame_sizes fun_eq_iff less_mult_imp_div_less)
  show "frag_inv kSpeakerAssetsPlanWireBytes init_plan_assembler"
    unfolding frag_inv_def h
    by (simp add: init_plan_assembler_def empty_fragments_def FragmentBuffer.defs SpeakerAssetsPlanAssembler.defs frame_sizes)
qed

lemma frag_inv_more:
  "frag_inv w (s\<lparr>pa_owner := o', pa_begin_id := b, pa_bound := f\<rparr>) = frag_inv w s"
  by (simp add: frag_inv_def held_more)

lemma plan_fields_of_more:
  "FragmentBuffer.more t = FragmentBuffer.more s \<Longrightarrow>
     pa_owner t = pa_owner s \<and> pa_begin_id t = pa_begin_id s \<and> pa_bound t = pa_bound (s :: SpeakerAssetsPlanAssembler)"
  by (cases s; cases t) simp

lemma fragment_cases:
  assumes inv: "frag_inv kSpeakerAssetsPlanWireBytes s" and ok: "plan_accept_fragment s owner begin_id offset data = Inr t"
  shows "owner = pa_owner s \<and> begin_id = pa_begin_id s \<and> pa_bound s \<and> unat offset + length data \<le> kSpeakerAssetsPlanWireBytes \<and>
    agree (held s) (piece (unat offset) data) \<and> frag_inv kSpeakerAssetsPlanWireBytes t \<and>
    held t = piece (unat offset) data ++ held s \<and> FragmentBuffer.more t = FragmentBuffer.more s"
proof -
  have g: "owner = pa_owner s" "begin_id = pa_begin_id s" "pa_bound s" "unat offset + length data \<le> kSpeakerAssetsPlanWireBytes"
      "accept_bytes s (unat offset) data = Inr t"
    using ok by (auto simp: plan_accept_fragment_def split: if_splits)
  then show ?thesis using accept_bytes_cases [OF inv g(4)] by (cases "agree (held s) (piece (unat offset) data)") auto
qed

lemma plan_step_rel:
  assumes "frag_inv kSpeakerAssetsPlanWireBytes s" "plan_step s c = (s', accepted)"
  shows "frag_inv kSpeakerAssetsPlanWireBytes s'" and "plan_rel s g \<Longrightarrow> plan_rel s' (collect_fragments g (c, accepted))"
proof -
  have "frag_inv kSpeakerAssetsPlanWireBytes s' \<and> (plan_rel s g \<longrightarrow> plan_rel s' (collect_fragments g (c, accepted)))"
  proof (cases c)
    case PlanReset
    then show ?thesis
      using assms(2) frag_inv_init by (auto simp: plan_step_def reset_is_init plan_rel_def)
  next
    case (PlanBegin owner begin_id)
    then show ?thesis
      using assms by (auto simp: plan_step_def plan_begin_def plan_rel_def frag_inv_more held_more list_all_iff split: if_splits)
  next
    case (PlanFragment owner begin_id offset data)
    show ?thesis
    proof (cases "plan_accept_fragment s owner begin_id offset data")
      case (Inl e)
      then show ?thesis using assms PlanFragment by (auto simp: plan_step_def)
    next
      case (Inr t)
      note f = fragment_cases [OF assms(1) Inr]
      have "s' = t" "accepted" using assms(2) PlanFragment Inr by (auto simp: plan_step_def)
      then show ?thesis
        using f plan_fields_of_more [of t s] holds_snoc [of "held s" _ "unat offset" data] PlanFragment
        by (auto simp: plan_rel_def list_all_iff)
    qed
  qed
  then show "frag_inv kSpeakerAssetsPlanWireBytes s'" and "plan_rel s g \<Longrightarrow> plan_rel s' (collect_fragments g (c, accepted))" by auto
qed

interpretation plan_run: ghost_machine plan_step init_plan_assembler "frag_inv kSpeakerAssetsPlanWireBytes" collect_fragments "[]" plan_rel
proof unfold_locales
  show "frag_inv kSpeakerAssetsPlanWireBytes (fst (plan_step s c))" if "frag_inv kSpeakerAssetsPlanWireBytes s" for s c
    using plan_step_rel(1) [OF that] by (metis prod.collapse)
  show "plan_rel init_plan_assembler []" by (simp add: frag_inv_init plan_rel_def)
qed (rule frag_inv_init(1), rule plan_step_rel(2))

text \<open>What a full assembler holds, fragment by fragment.\<close>

lemma full_holds:
  assumes inv: "frag_inv width s" and full: "fb_received_bytes s = width" and frags: "holds (held s) frags"
    and fits: "\<And>offset data. (offset, data) \<in> set frags \<Longrightarrow> offset + length data \<le> width"
  shows "(offset, data) \<in> set frags \<Longrightarrow> region (fb_bytes s) offset (length data) = data"
    and "i < width \<Longrightarrow> \<exists>(offset, data) \<in> set frags. offset \<le> i \<and> i < offset + length data"
proof -
  have all: "held s i = Some (fb_bytes s ! i)" if "i < width" for i
    using full_iff [OF inv] full that by (auto simp: held_def split: if_splits)
  have len: "length (fb_bytes s) = width" using inv by (simp add: frag_inv_def)
  show "\<exists>(offset, data) \<in> set frags. offset \<le> i \<and> i < offset + length data" if i: "i < width"
  proof -
    obtain offset data where "(offset, data) \<in> set frags" "piece offset data i = Some (fb_bytes s ! i)"
      using frags all [OF i] unfolding holds_def by blast
    then show ?thesis by (auto simp: piece_def split: if_splits)
  qed
  assume mem: "(offset, data) \<in> set frags"
  show "region (fb_bytes s) offset (length data) = data"
  proof (rule nth_equalityI)
    show l: "length (region (fb_bytes s) offset (length data)) = length data"
      using fits [OF mem] by (simp add: length_region len)
    fix k assume "k < length (region (fb_bytes s) offset (length data))"
    then have k: "k < length data" using l by simp
    then have "piece offset data (offset + k) = Some (data ! k)" by (simp add: piece_def)
    then have "held s (offset + k) = Some (data ! k)" using frags mem unfolding holds_def by blast
    then show "region (fb_bytes s) offset (length data) ! k = data ! k"
      using all [of "offset + k"] k fits [OF mem] by (simp add: nth_region len)
  qed
qed

text \<open>
  C12: After any sequence of resets, begins and fragments, of any routes, a plan that the assembler
  decodes is the plan whose wire form consists of the fragments accepted since the last reset:
  all of them came from one route under one begin, each is the piece of the wire form at its
  offset, and together they cover all of it.
\<close>

theorem assembled_plan_is_genuine:
  "case plan_decode (plan_after calls) of
     Inl e \<Rightarrow> True
   | Inr plan \<Rightarrow> (\<exists>packet owner begin_id.
       encode_sound_bundle_plan_wire plan = Inr packet \<and>
       list_all (\<lambda>(o', b, offset, data). o' = owner \<and> b = begin_id \<and> region packet offset (length data) = data)
         (accepted_fragments calls) \<and>
       list_all (\<lambda>i. list_ex (\<lambda>(_, _, offset, data). offset \<le> i \<and> i < offset + length data) (accepted_fragments calls))
         [0..<kSpeakerAssetsPlanWireBytes])"
proof (cases "plan_decode (plan_after calls)")
  case (Inr plan)
  let ?s = "plan_after calls" and ?g = "accepted_fragments calls"
  have inv: "frag_inv kSpeakerAssetsPlanWireBytes ?s" by (rule plan_run.inv_reachable)
  have rel: "plan_rel ?s ?g" unfolding accepted_fragments_def by (rule plan_run.rel_reachable)
  have dec: "fb_received_bytes ?s = kSpeakerAssetsPlanWireBytes" "decode_sound_bundle_plan_wire (fb_bytes ?s) = Inr plan"
    using Inr by (auto simp: plan_decode_def plan_complete_def split: if_splits)
  have frags: "holds (held ?s) (map (\<lambda>(_, _, fragment). fragment) ?g)" using rel by (simp add: plan_rel_def)
  have fits: "offset + length data \<le> kSpeakerAssetsPlanWireBytes"
    if "(offset, data) \<in> set (map (\<lambda>(_, _, fragment). fragment) ?g)" for offset data
    using rel that by (force simp: plan_rel_def list_all_iff)
  note whole = full_holds [OF inv dec(1) frags fits]
  have "list_all (\<lambda>i. list_ex (\<lambda>(_, _, offset, data). offset \<le> i \<and> i < offset + length data) ?g) [0..<kSpeakerAssetsPlanWireBytes]"
    using whole(2) by (fastforce simp: list_all_iff list_ex_iff)
  moreover have "list_all (\<lambda>(o', b, offset, data). o' = pa_owner ?s \<and> b = pa_begin_id ?s \<and>
      region (fb_bytes ?s) offset (length data) = data) ?g"
    using rel whole(1) by (force simp: plan_rel_def list_all_iff)
  moreover have "encode_sound_bundle_plan_wire plan = Inr (fb_bytes ?s)" using plan_wire_iff [of "fb_bytes ?s" plan] dec(2) by simp
  ultimately show ?thesis using Inr by auto
qed simp

section \<open>Sending a plan\<close>

definition plan_transfer :: "SpeakerAssetsRouteToken \<Rightarrow> u32 \<Rightarrow> bytes \<Rightarrow> (nat \<times> nat) list \<Rightarrow> PlanCall list" where
  "plan_transfer owner begin_id packet cuts = PlanBegin owner begin_id #
     map (\<lambda>(offset, n). PlanFragment owner begin_id (of_nat offset) (region packet offset n)) cuts"

definition cut_ok :: "nat \<times> nat \<Rightarrow> bool" where
  "cut_ok = (\<lambda>(offset, n). 0 < n \<and> n \<le> kSpeakerAssetsWifiFrameBodyBytes \<and> offset + n \<le> kSpeakerAssetsPlanWireBytes)"

definition covered :: "(nat \<times> nat) list \<Rightarrow> nat \<Rightarrow> bool" where
  "covered cuts i \<longleftrightarrow> list_ex (\<lambda>(offset, n). offset \<le> i \<and> i < offset + n) cuts"

definition sent_so_far :: "SpeakerAssetsRouteToken \<Rightarrow> u32 \<Rightarrow> bytes \<Rightarrow> (nat \<times> nat) list \<Rightarrow> SpeakerAssetsPlanAssembler \<Rightarrow> bool" where
  "sent_so_far owner begin_id packet cuts s \<longleftrightarrow> frag_inv kSpeakerAssetsPlanWireBytes s \<and> pa_bound s \<and> pa_owner s = owner \<and>
     pa_begin_id s = begin_id \<and> held s = (\<lambda>i. if covered cuts i then Some (packet ! i) else None)"

lemma piece_of_packet:
  "offset + n \<le> length packet \<Longrightarrow>
   piece offset (region packet offset n) = (\<lambda>i. if offset \<le> i \<and> i < offset + n then Some (packet ! i) else None)"
  by (auto simp: piece_def fun_eq_iff length_region nth_region)

lemma send_cut:
  assumes "sent_so_far owner begin_id packet cuts s" "cut_ok (offset, n)" "length packet = kSpeakerAssetsPlanWireBytes"
  shows "\<exists>t. plan_accept_fragment s owner begin_id (of_nat offset) (region packet offset n) = Inr t \<and>
    sent_so_far owner begin_id packet (cuts @ [(offset, n)]) t"
proof -
  note s = assms(1) [unfolded sent_so_far_def]
  have b: "0 < n" "n \<le> kSpeakerAssetsWifiFrameBodyBytes" "offset + n \<le> kSpeakerAssetsPlanWireBytes"
    using assms(2) by (simp_all add: cut_ok_def)
  then have off: "unat (of_nat offset :: u16) = offset" by (simp add: unat_of_nat take_bit_nat_eq_self frame_sizes)
  let ?d = "region packet offset n"
  have d: "length ?d = n" "?d \<noteq> []" using b assms(3) by (auto simp: length_region simp flip: length_greater_0_conv)
  have p: "piece offset ?d = (\<lambda>i. if offset \<le> i \<and> i < offset + n then Some (packet ! i) else None)"
    using b assms(3) by (simp add: piece_of_packet)
  have "agree (held s) (piece offset ?d)" using s by (auto simp: agree_def p split: if_splits)
  then obtain t where t: "accept_bytes s offset ?d = Inr t" "frag_inv kSpeakerAssetsPlanWireBytes t"
      "held t = piece offset ?d ++ held s" "FragmentBuffer.more t = FragmentBuffer.more s"
    using accept_bytes_cases(2) [of kSpeakerAssetsPlanWireBytes s offset ?d] s b d by auto
  have "plan_accept_fragment s owner begin_id (of_nat offset) ?d = Inr t"
    using s b d t(1) by (simp add: plan_accept_fragment_def off)
  moreover have "held t = (\<lambda>i. if covered (cuts @ [(offset, n)]) i then Some (packet ! i) else None)"
    using s by (auto simp: t(3) p covered_def map_add_def fun_eq_iff)
  ultimately show ?thesis using s t plan_fields_of_more [OF t(4)] by (auto simp: sent_so_far_def)
qed

lemma send_cuts:
  assumes "length packet = kSpeakerAssetsPlanWireBytes"
  shows "sent_so_far owner begin_id packet before s \<Longrightarrow> list_all cut_ok cuts \<Longrightarrow>
    (let calls = map (\<lambda>(offset, n). PlanFragment owner begin_id (of_nat offset) (region packet offset n)) cuts
     in list_all snd (run_log plan_step s calls) \<and>
        sent_so_far owner begin_id packet (before @ cuts) (run (\<lambda>s c. fst (plan_step s c)) s calls))"
proof (induction cuts arbitrary: before s)
  case (Cons cut cuts)
  obtain offset n where cut: "cut = (offset, n)" by force
  obtain t where t: "plan_accept_fragment s owner begin_id (of_nat offset) (region packet offset n) = Inr t"
      "sent_so_far owner begin_id packet (before @ [(offset, n)]) t"
    using send_cut [OF Cons.prems(1) _ assms] Cons.prems(2) cut by auto
  then show ?case using Cons.IH [OF t(2)] Cons.prems(2) by (simp add: cut plan_step_def Let_def)
qed simp

text \<open>
  C39: a plan whose wire form is cut into fragments of at most one frame body arrives: whatever the
  order, overlaps and repetitions of the fragments, every one is accepted, and the assembler
  decodes the plan that was sent once the fragments cover the wire form, and answers Incomplete
  until then.
\<close>
theorem plan_arrives_whole:
  assumes "encode_sound_bundle_plan_wire plan = Inr packet" "plan_shape plan"
    and "route_is_valid owner" "begin_id \<noteq> 0" and "list_all cut_ok cuts"
  shows "list_all snd (run_log plan_step init_plan_assembler (plan_transfer owner begin_id packet cuts)) \<and>
    plan_decode (plan_after (plan_transfer owner begin_id packet cuts)) =
      (if list_all (covered cuts) [0..<kSpeakerAssetsPlanWireBytes] then Inr plan else Inl PrIncomplete)"
proof -
  have len: "length packet = kSpeakerAssetsPlanWireBytes" using encode_plan_iff [OF assms(2), of packet] assms(1) by (simp add: frame_sizes)
  have dec: "decode_sound_bundle_plan_wire packet = Inr plan"
    using plan_wire_iff assms(1,2) encode_plan_iff [OF assms(2)] plan_valid_of_shape by blast
  let ?s = "init_plan_assembler\<lparr>pa_owner := owner, pa_begin_id := begin_id, pa_bound := True\<rparr>"
  have start: "plan_step init_plan_assembler (PlanBegin owner begin_id) = (?s, True)"
    using assms(3,4) by (simp add: plan_step_def plan_begin_def init_plan_assembler_def FragmentBuffer.defs SpeakerAssetsPlanAssembler.defs)
  have "sent_so_far owner begin_id packet [] ?s"
    by (simp add: sent_so_far_def frag_inv_more frag_inv_init held_more covered_def)
  note sent = send_cuts [OF len this assms(5), unfolded Let_def]
  let ?t = "plan_after (plan_transfer owner begin_id packet cuts)"
  have t: "sent_so_far owner begin_id packet cuts ?t" using sent start by (simp add: plan_transfer_def)
  note t' = t [unfolded sent_so_far_def]
  have bytes: "fb_bytes ?t = packet" if "\<forall>i < kSpeakerAssetsPlanWireBytes. covered cuts i"
  proof (rule nth_equalityI)
    show l: "length (fb_bytes ?t) = length packet" using t' len by (simp add: frag_inv_def)
    show "fb_bytes ?t ! i = packet ! i" if "i < length (fb_bytes ?t)" for i
    proof -
      have "held ?t i = Some (packet ! i)" using t' that \<open>\<forall>i < kSpeakerAssetsPlanWireBytes. covered cuts i\<close> l len by simp
      then show ?thesis by (simp add: held_def split: if_splits)
    qed
  qed
  have "plan_complete ?t \<longleftrightarrow> (\<forall>i < kSpeakerAssetsPlanWireBytes. covered cuts i)"
    using full_iff [of kSpeakerAssetsPlanWireBytes ?t] t' by (auto simp: plan_complete_def)
  then have "plan_decode ?t = (if list_all (covered cuts) [0..<kSpeakerAssetsPlanWireBytes] then Inr plan else Inl PrIncomplete)"
    using bytes dec by (auto simp: plan_decode_def list_all_iff)
  moreover have "list_all snd (run_log plan_step init_plan_assembler (plan_transfer owner begin_id packet cuts))"
    using sent start by (simp add: plan_transfer_def)
  ultimately show ?thesis by blast
qed

definition sample_plan :: SoundBundlePlan where
  "sample_plan = \<lparr>bp_base_generation = 0, bp_base_bundle_sha256 = replicate 32 0, bp_manifest_bytes = 32, bp_payload_bytes = 0,
     bp_manifest_crc32 = 7, bp_manifest_sha256 = replicate 32 1, bp_bundle_sha256 = replicate 32 2,
     bp_payload_block_crc32 = replicate 128 0\<rparr>"

lemma sample_plan_ok: "plan_shape sample_plan" "sound_bundle_plan_shape_is_valid sample_plan"
  by (simp_all add: sample_plan_def plan_shape_def sound_bundle_plan_shape_is_valid_def bytes_are_zero_iff bank_layout
      payload_block_count_def list_all_iff)

theorem plan_arrives_whole_witness:
  "\<exists>packet. encode_sound_bundle_plan_wire sample_plan = Inr packet \<and>
     plan_decode (plan_after (plan_transfer \<lparr>rt_transport = WifiTransport, rt_route_id = 3, rt_generation = 9\<rparr> 5 packet
       [(600, 40), (0, 100), (100, 100), (200, 100), (50, 80), (300, 100), (400, 100), (500, 100), (0, 1)])) = Inr sample_plan"
proof -
  let ?r = "\<lparr>rt_transport = WifiTransport, rt_route_id = 3, rt_generation = 9\<rparr>"
  let ?cuts = "[(600, 40), (0, 100), (100, 100), (200, 100), (50, 80), (300, 100), (400, 100), (500, 100), (0, 1)] :: (nat \<times> nat) list"
  obtain packet where p: "encode_sound_bundle_plan_wire sample_plan = Inr packet"
    using sample_plan_ok(2) by (simp add: encode_sound_bundle_plan_wire_def Let_def)
  have "list_all (covered ?cuts) [0..<kSpeakerAssetsPlanWireBytes]"
    by (auto simp: list_all_iff covered_def frame_sizes)
  moreover have "list_all cut_ok ?cuts" by (simp add: cut_ok_def frame_sizes)
  ultimately show ?thesis
    using plan_arrives_whole [OF p sample_plan_ok(1), of ?r 5 ?cuts] p by (simp add: route_is_valid_def)
qed

end
