(* ===== verification/Sound_Reader.thy ===== *)
theory Sound_Reader
  imports Sound_Update
begin

text \<open>
  \<^verbatim>\<open>features/speaker_assets/include/speaker_assets/sound_asset_reader.h\<close> and
  \<^verbatim>\<open>sound_asset_reader.cpp\<close>: finding the sound of a key in a committed bank, and
  decoding it frame by frame for the speaker, from the bank, from memory or from a stream whose
  bytes still arrive.

  The file's copies of the format constants and byte helpers are those of \<open>Sound_Format\<close>.
  \<open>Inl\<close> is a result other than \<^verbatim>\<open>Ok\<close>, and leaves decoder and output unchanged.
  The source pointer, the callback and the flag \<^verbatim>\<open>embedded_source_\<close> are one datatype; the
  scratch array \<^verbatim>\<open>encoded_frame_\<close>, which every call fills before it reads it, is the
  local \<open>frame\<close>.  Samples and the decoder's predictor are integers, within 16 bits by the
  clamp.  Null pointers are not modelled.
\<close>

unbundle bit_operations_syntax

section \<open>Constants and types\<close>

definition kImaStepCount :: nat where "kImaStepCount = 89"
definition kSoundAssetSampleRate :: nat where "kSoundAssetSampleRate = 48000"
definition kSoundAssetFrameSamples :: nat where "kSoundAssetFrameSamples = 480"
definition kEmbeddedSoundAssetMaximumBytes :: nat where "kEmbeddedSoundAssetMaximumBytes = 4 * 1024 * 1024"
definition kEmbeddedSoundAssetMaximumSamples :: nat where "kEmbeddedSoundAssetMaximumSamples = kSoundAssetSampleRate * 150"
definition kSoundAssetFrameHeaderBytes :: nat where "kSoundAssetFrameHeaderBytes = 6"
definition kSoundAssetMaximumFramePayloadBytes :: nat where "kSoundAssetMaximumFramePayloadBytes = 240"
definition kSoundAssetMaximumEncodedFrameBytes :: nat where
  "kSoundAssetMaximumEncodedFrameBytes = kSoundAssetFrameHeaderBytes + kSoundAssetMaximumFramePayloadBytes"

lemmas reader_sizes = kImaStepCount_def kSoundAssetSampleRate_def kSoundAssetFrameSamples_def
  kEmbeddedSoundAssetMaximumBytes_def kEmbeddedSoundAssetMaximumSamples_def kSoundAssetFrameHeaderBytes_def
  kSoundAssetMaximumFramePayloadBytes_def kSoundAssetMaximumEncodedFrameBytes_def

definition kStepTable :: "int list" where
  "kStepTable = [7, 8, 9, 10, 11, 12, 13, 14, 16, 17, 19, 21, 23, 25, 28, 31, 34, 37, 41, 45, 50, 55, 60, 66, 73, 80, 88,
     97, 107, 118, 130, 143, 157, 173, 190, 209, 230, 253, 279, 307, 337, 371, 408, 449, 494, 544, 598, 658, 724, 796, 876,
     963, 1060, 1166, 1282, 1411, 1552, 1707, 1878, 2066, 2272, 2499, 2749, 3024, 3327, 3660, 4026, 4428, 4871, 5358, 5894,
     6484, 7132, 7845, 8630, 9493, 10442, 11487, 12635, 13899, 15289, 16818, 18500, 20350, 22385, 24623, 27086, 29794, 32767]"

definition kIndexDelta :: "int list" where
  "kIndexDelta = [-1, -1, -1, -1, 2, 4, 6, 8, -1, -1, -1, -1, 2, 4, 6, 8]"

datatype SoundAssetTrigger = TriggerBoot | TriggerKey | TriggerEncoderLeft | TriggerEncoderRight | TriggerEncoderPress

datatype SoundAssetReadResult =
  RdEnd | RdInvalidArgument | RdInvalidLease | RdNotMapped | RdIoError | RdInvalidManifest | RdInvalidResource |
  RdOutputTooSmall | RdNotReady

fun trigger_byte :: "SoundAssetTrigger \<Rightarrow> u8" where
  "trigger_byte TriggerBoot = 1"
| "trigger_byte TriggerKey = 2"
| "trigger_byte TriggerEncoderLeft = 3"
| "trigger_byte TriggerEncoderRight = 4"
| "trigger_byte TriggerEncoderPress = 5"

record SoundResolvedAsset =
  ra_valid :: bool
  ra_lease_id :: u64
  ra_bank :: SoundBankId
  ra_generation :: u64
  ra_bundle_sha256 :: bytes
  ra_resource_sha256 :: bytes
  ra_resource_index :: nat
  ra_payload_offset :: nat
  ra_encoded_bank_offset :: nat
  ra_encoded_bytes :: nat
  ra_decoded_samples :: nat
  ra_frame_count :: nat

definition empty_asset :: SoundResolvedAsset where
  "empty_asset = \<lparr>ra_valid = False, ra_lease_id = 0, ra_bank = BankA, ra_generation = 0, ra_bundle_sha256 = replicate 32 0,
     ra_resource_sha256 = replicate 32 0, ra_resource_index = 0, ra_payload_offset = 0, ra_encoded_bank_offset = 0,
     ra_encoded_bytes = 0, ra_decoded_samples = 0, ra_frame_count = 0\<rparr>"

section \<open>Finding a sound\<close>

definition lease_is_valid :: "SoundReadLease \<Rightarrow> bool" where
  "lease_is_valid lease \<longleftrightarrow> rl_valid lease \<and> rl_lease_id lease \<noteq> 0 \<and> rl_generation lease \<noteq> 0 \<and>
     \<not> bytes_are_zero (rl_bundle_sha256 lease)"

definition read_exact :: "SoundBankId \<Rightarrow> nat \<Rightarrow> nat \<Rightarrow> ('z sound_flash_scheme, SoundAssetReadResult + bytes) state" where
  "read_exact bank offset len = map_error (\<lambda>_. RdIoError) (bank_read bank offset len)"

definition mapping_target :: "u8 \<Rightarrow> u8 \<Rightarrow> u16 option" where
  "mapping_target trigger index =
     (let bit_index =
        (if trigger = trigger_byte TriggerBoot then (if index \<noteq> 0 then None else Some 0)
         else if trigger = trigger_byte TriggerKey then (if index < 1 \<or> index > 8 then None else Some (unat index))
         else if trigger = trigger_byte TriggerEncoderLeft \<or> trigger = trigger_byte TriggerEncoderRight \<or>
                 trigger = trigger_byte TriggerEncoderPress
           then (if index \<noteq> 0 then None else Some (9 + unat trigger - unat (trigger_byte TriggerEncoderLeft)))
         else None)
      in map_option (\<lambda>bit_index. push_bit bit_index 1) bit_index)"

definition sample_limit_for :: "SoundAssetTrigger \<Rightarrow> u8 \<Rightarrow> nat" where
  "sample_limit_for trigger trigger_index =
     (if mapping_target (trigger_byte trigger) trigger_index = None then 0
      else if trigger = TriggerBoot then kMaximumBootSamples else kMaximumActionSamples)"

text \<open>One turn of the loop over the mappings: the resource found and the targets seen.\<close>

definition resolve_mapping ::
  "SoundBankId \<Rightarrow> nat \<Rightarrow> nat \<Rightarrow> u8 \<Rightarrow> u8 \<Rightarrow> nat \<Rightarrow> nat option \<times> u16 \<Rightarrow>
   ('z sound_flash_scheme, SoundAssetReadResult + nat option \<times> u16) state" where
  "resolve_mapping bank mapping_table_offset resource_count trigger trigger_index mapping_index = (\<lambda>(found, seen_targets).
     proceed (require_some
       (do { mapping_delta \<leftarrow> checked_multiply mapping_index kMappingRecordBytes;
             manifest_offset \<leftarrow> checked_add mapping_table_offset mapping_delta;
             checked_add kSoundManifestOffset manifest_offset }) RdInvalidManifest) (\<lambda>bank_offset.
     proceed (read_exact bank bank_offset kMappingRecordBytes) (\<lambda>mapping.
     let mapped_resource = unat (read_le16 mapping 2) in
     proceed (require_some (mapping_target (mapping ! 0) (mapping ! 1)) RdInvalidManifest) (\<lambda>target_bit.
     proceed (require (\<not> (seen_targets AND target_bit \<noteq> 0 \<or> mapped_resource \<ge> resource_count)) RdInvalidManifest) (\<lambda>_.
     let seen_targets = seen_targets OR target_bit in
     if mapping ! 0 = trigger \<and> mapping ! 1 = trigger_index
     then proceed (require (found = None) RdInvalidManifest) (\<lambda>_. give (Some mapped_resource, seen_targets))
     else give (found, seen_targets))))))"

definition resolve_resource ::
  "SoundReadLease \<Rightarrow> nat \<Rightarrow> nat \<Rightarrow> nat \<Rightarrow> ('z sound_flash_scheme, SoundAssetReadResult + SoundResolvedAsset) state" where
  "resolve_resource lease sample_limit payload_total resource_index =
     proceed (require_some
       (do { resource_delta \<leftarrow> checked_multiply resource_index kResourceRecordBytes;
             resource_manifest_offset \<leftarrow> checked_add kManifestHeaderBytes resource_delta;
             checked_add kSoundManifestOffset resource_manifest_offset }) RdInvalidManifest) (\<lambda>resource_bank_offset.
     proceed (read_exact (rl_bank lease) resource_bank_offset kResourceRecordBytes) (\<lambda>resource.
     let payload_offset = unat (read_le32 resource 32); encoded_bytes = unat (read_le32 resource 36);
         decoded_samples = unat (read_le32 resource 40); frame_count = unat (read_le16 resource 44) in
     proceed (require (\<not> (encoded_bytes < kImaAdpcmHeaderBytes \<or> decoded_samples = 0 \<or> decoded_samples > sample_limit \<or>
         frame_count = 0 \<or> frame_count \<noteq> 1 + (decoded_samples - 1) div kSoundAssetFrameSamples \<or>
         resource ! 46 \<noteq> kImaAdpcmCodec \<or> resource ! 47 \<noteq> kMonoChannels \<or> payload_offset > payload_total \<or>
         encoded_bytes > payload_total - payload_offset)) RdInvalidResource) (\<lambda>_.
     proceed (require_some (checked_add kSoundPayloadOffset payload_offset) RdInvalidResource) (\<lambda>encoded_bank_offset.
     proceed (require_some (checked_add encoded_bank_offset encoded_bytes) RdInvalidResource) (\<lambda>encoded_bank_end.
     proceed (require (\<not> (encoded_bank_end > kSoundPayloadOffset + kSoundPayloadMaxSize)) RdInvalidResource) (\<lambda>_.
     give \<lparr>ra_valid = True, ra_lease_id = rl_lease_id lease, ra_bank = rl_bank lease, ra_generation = rl_generation lease,
           ra_bundle_sha256 = rl_bundle_sha256 lease, ra_resource_sha256 = take 32 resource, ra_resource_index = resource_index,
           ra_payload_offset = payload_offset, ra_encoded_bank_offset = encoded_bank_offset, ra_encoded_bytes = encoded_bytes,
           ra_decoded_samples = decoded_samples, ra_frame_count = frame_count\<rparr>))))))"

definition resolve_sound_asset ::
  "SoundReadLease \<Rightarrow> SoundAssetTrigger \<Rightarrow> u8 \<Rightarrow> ('z sound_flash_scheme, SoundAssetReadResult + SoundResolvedAsset) state" where
  "resolve_sound_asset lease trigger trigger_index =
     proceed (require (lease_is_valid lease) RdInvalidLease) (\<lambda>_.
     let sample_limit = sample_limit_for trigger trigger_index in
     proceed (require (sample_limit \<noteq> 0) RdInvalidArgument) (\<lambda>_.
     proceed (read_exact (rl_bank lease) kSoundManifestOffset kManifestHeaderBytes) (\<lambda>header.
     let manifest_bytes = unat (read_le32 header 8); payload_total = unat (read_le32 header 12);
         resource_count = unat (read_le16 header 16); mapping_count = unat (read_le16 header 18) in
     proceed (require (\<not> (\<not> bytes_equal header kManifestMagic \<or> read_le16 header 4 \<noteq> kManifestVersion \<or>
         unat (read_le16 header 6) \<noteq> kManifestHeaderBytes \<or> manifest_bytes < kManifestHeaderBytes \<or>
         manifest_bytes > kSoundSectorSize \<or> payload_total > kSoundPayloadMaxSize \<or> \<not> bytes_are_zero (region header 20 12) \<or>
         \<not> manifest_shape_is_valid resource_count mapping_count manifest_bytes)) RdInvalidManifest) (\<lambda>_.
     proceed (require_some
       (do { resource_table_bytes \<leftarrow> checked_multiply resource_count kResourceRecordBytes;
             checked_add kManifestHeaderBytes resource_table_bytes }) RdInvalidManifest) (\<lambda>mapping_table_offset.
     proceed (for_each (resolve_mapping (rl_bank lease) mapping_table_offset resource_count (trigger_byte trigger) trigger_index)
         [0..<mapping_count] (None, 0)) (\<lambda>(found, _).
     proceed (require_some found RdNotMapped) (\<lambda>resource_index.
     resolve_resource lease sample_limit payload_total resource_index)))))))"

section \<open>The stream decoder\<close>

datatype 's SoundSource =
  NoSource | BankSource | EmbeddedSource bytes | StreamingSource "nat \<Rightarrow> nat \<Rightarrow> ('s, SoundAssetReadResult + bytes) state"

record 's SoundAssetStreamDecoder =
  sd_source :: "'s SoundSource"
  sd_asset :: SoundResolvedAsset
  sd_next_encoded_offset :: nat
  sd_decoded_samples :: nat
  sd_next_frame_index :: nat
  sd_ready :: bool

definition closed_decoder :: "'s SoundAssetStreamDecoder" where
  "closed_decoder = \<lparr>sd_source = NoSource, sd_asset = empty_asset, sd_next_encoded_offset = 0, sd_decoded_samples = 0,
     sd_next_frame_index = 0, sd_ready = False\<rparr>"

definition decoder_close :: "'s SoundAssetStreamDecoder \<Rightarrow> 's SoundAssetStreamDecoder" where
  "decoder_close d = closed_decoder"

definition decoder_rewind :: "'s SoundAssetStreamDecoder \<Rightarrow> SoundAssetReadResult + 's SoundAssetStreamDecoder" where
  "decoder_rewind d =
     (if \<not> sd_ready d then Inl RdNotReady
      else Inr (d\<lparr>sd_next_encoded_offset := kImaAdpcmHeaderBytes, sd_decoded_samples := 0, sd_next_frame_index := 0\<rparr>))"

text \<open>A decoder opened from a bank; when it is refused the decoder is left closed.\<close>

definition decoder_open ::
  "SoundReadLease \<Rightarrow> SoundResolvedAsset \<Rightarrow>
   ('z sound_flash_scheme, SoundAssetReadResult + ('z sound_flash_scheme) SoundAssetStreamDecoder) state" where
  "decoder_open lease asset =
     proceed (require (lease_is_valid lease) RdInvalidLease) (\<lambda>_.
     proceed (require (\<not> (\<not> ra_valid asset \<or> ra_lease_id asset \<noteq> rl_lease_id lease \<or> ra_bank asset \<noteq> rl_bank lease \<or>
         ra_generation asset \<noteq> rl_generation lease \<or>
         \<not> sound_digest_equal (ra_bundle_sha256 asset) (rl_bundle_sha256 lease))) RdInvalidLease) (\<lambda>_.
     proceed (require (\<not> (ra_encoded_bytes asset < kImaAdpcmHeaderBytes \<or> ra_decoded_samples asset = 0 \<or>
         ra_decoded_samples asset > kMaximumBootSamples \<or> ra_frame_count asset = 0 \<or>
         ra_frame_count asset \<noteq> 1 + (ra_decoded_samples asset - 1) div kSoundAssetFrameSamples)) RdInvalidResource) (\<lambda>_.
     proceed (require_some (checked_add kSoundPayloadOffset (ra_payload_offset asset)) RdInvalidResource) (\<lambda>expected_bank_offset.
     proceed (require (expected_bank_offset = ra_encoded_bank_offset asset) RdInvalidResource) (\<lambda>_.
     proceed (require_some (checked_add (ra_encoded_bank_offset asset) (ra_encoded_bytes asset)) RdInvalidResource) (\<lambda>encoded_end.
     proceed (require (\<not> (encoded_end > kSoundPayloadOffset + kSoundPayloadMaxSize)) RdInvalidResource) (\<lambda>_.
     proceed (read_exact (rl_bank lease) (ra_encoded_bank_offset asset) kImaAdpcmHeaderBytes) (\<lambda>header.
     proceed (require (\<not> (\<not> bytes_equal header kImaAdpcmMagic \<or> header ! 4 \<noteq> kImaAdpcmVersion \<or> header ! 5 \<noteq> kMonoChannels \<or>
         unat (read_le32 header 6) \<noteq> kSoundAssetSampleRate \<or> unat (read_le16 header 10) \<noteq> kSoundAssetFrameSamples \<or>
         unat (read_le16 header 12) \<noteq> ra_frame_count asset \<or> unat (read_le32 header 14) \<noteq> ra_decoded_samples asset \<or>
         unat (read_le16 header 18) \<noteq> kImaAdpcmHeaderBytes)) RdInvalidResource) (\<lambda>_.
     State_Monad.return (decoder_rewind (closed_decoder\<lparr>sd_source := BankSource, sd_asset := asset, sd_ready := True\<rparr>)))))))))))"

definition decoder_open_embedded :: "bytes \<Rightarrow> SoundAssetReadResult + 's SoundAssetStreamDecoder" where
  "decoder_open_embedded encoded =
     (if length encoded < kImaAdpcmHeaderBytes \<or> length encoded > kEmbeddedSoundAssetMaximumBytes \<or> length encoded > 2 ^ 32 - 1
      then Inl RdInvalidResource
      else
        let frame_count = unat (read_le16 encoded 12); decoded_samples = unat (read_le32 encoded 14)
        in if \<not> bytes_equal encoded kImaAdpcmMagic \<or> encoded ! 4 \<noteq> kImaAdpcmVersion \<or> encoded ! 5 \<noteq> kMonoChannels \<or>
              unat (read_le32 encoded 6) \<noteq> kSoundAssetSampleRate \<or> unat (read_le16 encoded 10) \<noteq> kSoundAssetFrameSamples \<or>
              frame_count = 0 \<or> decoded_samples = 0 \<or> decoded_samples > kEmbeddedSoundAssetMaximumSamples \<or>
              frame_count \<noteq> 1 + (decoded_samples - 1) div kSoundAssetFrameSamples \<or>
              unat (read_le16 encoded 18) \<noteq> kImaAdpcmHeaderBytes
           then Inl RdInvalidResource
           else decoder_rewind (closed_decoder\<lparr>sd_source := EmbeddedSource encoded,
             sd_asset := empty_asset\<lparr>ra_encoded_bytes := length encoded, ra_decoded_samples := decoded_samples,
               ra_frame_count := frame_count\<rparr>, sd_ready := True\<rparr>))"

text \<open>The header is present when a stream is opened; the later bytes come from the callback.  The
  code hands the header's address to \<^verbatim>\<open>open_embedded\<close> with the announced size of the whole
  resource, of which it reads the header only.\<close>

definition decoder_open_streaming ::
  "bytes \<Rightarrow> nat \<Rightarrow> (nat \<Rightarrow> nat \<Rightarrow> ('s, SoundAssetReadResult + bytes) state) \<Rightarrow> SoundAssetReadResult + 's SoundAssetStreamDecoder" where
  "decoder_open_streaming encoded_header encoded_bytes read =
     (case decoder_open_embedded (take encoded_bytes encoded_header @ replicate (encoded_bytes - length encoded_header) 0) of
        Inl e \<Rightarrow> Inl e
      | Inr d \<Rightarrow> Inr (d\<lparr>sd_source := StreamingSource read\<rparr>))"

definition read_encoded ::
  "('z sound_flash_scheme) SoundAssetStreamDecoder \<Rightarrow> nat \<Rightarrow> nat \<Rightarrow> ('z sound_flash_scheme, SoundAssetReadResult + bytes) state" where
  "read_encoded d offset len =
     proceed (require (\<not> (\<not> sd_ready d \<or> offset > ra_encoded_bytes (sd_asset d) \<or>
         len > ra_encoded_bytes (sd_asset d) - offset)) RdInvalidResource) (\<lambda>_.
     case sd_source d of
       StreamingSource read \<Rightarrow> read offset len
     | NoSource \<Rightarrow> refuse RdNotReady
     | BankSource \<Rightarrow>
         proceed (require_some (checked_add (ra_encoded_bank_offset (sd_asset d)) offset) RdInvalidResource) (\<lambda>bank_offset.
         read_exact (ra_bank (sd_asset d)) bank_offset len)
     | EmbeddedSource encoded \<Rightarrow> give (region encoded offset len))"

section \<open>Decoding a frame\<close>

definition read_signed_le16 :: "bytes \<Rightarrow> nat \<Rightarrow> int" where
  "read_signed_le16 bs i =
     (let raw = read_le16 bs i in if raw AND 0x8000 = 0 then int (unat raw) else int (unat raw) - 65536)"

definition decode_nibble :: "u8 \<Rightarrow> int \<times> int \<Rightarrow> int \<times> int" where
  "decode_nibble code = (\<lambda>(predictor, step_index).
     (let step = kStepTable ! nat step_index;
          difference = drop_bit 3 step;
          difference = (if code AND 0x01 \<noteq> 0 then difference + drop_bit 2 step else difference);
          difference = (if code AND 0x02 \<noteq> 0 then difference + drop_bit 1 step else difference);
          difference = (if code AND 0x04 \<noteq> 0 then difference + step else difference);
          predictor = predictor + (if code AND 0x08 \<noteq> 0 then - difference else difference)
      in (clamp_int predictor (- 32768) 32767, clamp_int (step_index + kIndexDelta ! unat code) 0 (int (length kStepTable) - 1))))"

text \<open>The code of a nibble: the low half of a byte comes first.\<close>

definition packed_code :: "bytes \<Rightarrow> nat \<Rightarrow> u8" where
  "packed_code frame nibble_index =
     (let packed = frame ! (kSoundAssetFrameHeaderBytes + nibble_index div 2)
      in if nibble_index mod 2 = 0 then packed AND 0x0F else drop_bit 4 packed)"

fun decode_codes :: "u8 list \<Rightarrow> int \<times> int \<Rightarrow> int list" where
  "decode_codes [] st = []"
| "decode_codes (code # codes) st = (let st' = decode_nibble code st in fst st' # decode_codes codes st')"

definition frame_pcm :: "bytes \<Rightarrow> nat \<Rightarrow> int list" where
  "frame_pcm frame sample_count =
     (let predictor = read_signed_le16 frame 2
      in predictor # decode_codes (map (packed_code frame) [0..<sample_count - 1]) (predictor, int (unat (frame ! 4))))"

definition decode_next ::
  "('z sound_flash_scheme) SoundAssetStreamDecoder \<Rightarrow> nat \<Rightarrow>
   ('z sound_flash_scheme, SoundAssetReadResult + int list \<times> ('z sound_flash_scheme) SoundAssetStreamDecoder) state" where
  "decode_next d output_capacity_samples =
     (let asset = sd_asset d; next_offset = sd_next_encoded_offset d in
     proceed (require (\<not> (\<not> sd_ready d \<or> (case sd_source d of NoSource \<Rightarrow> True | _ \<Rightarrow> False))) RdNotReady) (\<lambda>_.
     if sd_next_frame_index d \<ge> ra_frame_count asset
     then refuse (if sd_next_frame_index d = ra_frame_count asset \<and> sd_decoded_samples d = ra_decoded_samples asset \<and>
            next_offset = ra_encoded_bytes asset then RdEnd else RdInvalidResource)
     else
     proceed (require (\<not> (output_capacity_samples < kSoundAssetFrameSamples)) RdOutputTooSmall) (\<lambda>_.
     proceed (require (\<not> (sd_decoded_samples d \<ge> ra_decoded_samples asset \<or> next_offset > ra_encoded_bytes asset \<or>
         kSoundAssetFrameHeaderBytes > ra_encoded_bytes asset - next_offset)) RdInvalidResource) (\<lambda>_.
     proceed (read_encoded d next_offset kSoundAssetFrameHeaderBytes) (\<lambda>header.
     let sample_count = unat (read_le16 header 0);
         remaining_samples = ra_decoded_samples asset - sd_decoded_samples d;
         expected_samples = (if remaining_samples < kSoundAssetFrameSamples then remaining_samples else kSoundAssetFrameSamples);
         payload_bytes = sample_count div 2;
         frame_bytes = kSoundAssetFrameHeaderBytes + payload_bytes in
     proceed (require (\<not> (sample_count = 0 \<or> sample_count \<noteq> expected_samples \<or> sample_count > kSoundAssetFrameSamples \<or>
         unat (header ! 4) \<ge> kImaStepCount \<or> header ! 5 \<noteq> 0 \<or> payload_bytes > kSoundAssetMaximumFramePayloadBytes \<or>
         frame_bytes > kSoundAssetMaximumEncodedFrameBytes \<or> frame_bytes > ra_encoded_bytes asset - next_offset))
       RdInvalidResource) (\<lambda>_.
     proceed
       (if payload_bytes \<noteq> 0 then
          proceed (require_some (checked_add next_offset kSoundAssetFrameHeaderBytes) RdInvalidResource) (\<lambda>payload_offset.
          read_encoded d payload_offset payload_bytes)
        else give []) (\<lambda>payload.
     let frame = header @ payload in
     proceed (require (\<not> (sample_count mod 2 = 0 \<and> payload_bytes \<noteq> 0 \<and> frame ! (frame_bytes - 1) AND 0xF0 \<noteq> 0))
       RdInvalidResource) (\<lambda>_.
     let next_encoded_offset = next_offset + frame_bytes; next_decoded_samples = sd_decoded_samples d + sample_count;
         next_frame_index = sd_next_frame_index d + 1; final_frame = (next_frame_index = ra_frame_count asset) in
     proceed (require (\<not> (final_frame \<and> (next_encoded_offset \<noteq> ra_encoded_bytes asset \<or> next_decoded_samples \<noteq> ra_decoded_samples asset) \<or>
         \<not> final_frame \<and> (next_encoded_offset \<ge> ra_encoded_bytes asset \<or> next_decoded_samples \<ge> ra_decoded_samples asset)))
       RdInvalidResource) (\<lambda>_.
     give (frame_pcm frame sample_count,
       d\<lparr>sd_next_encoded_offset := next_encoded_offset, sd_decoded_samples := next_decoded_samples,
         sd_next_frame_index := next_frame_index\<rparr>))))))))))"

end
