(* ===== verification/Sound_Reader_Facts.thy ===== *)
theory Sound_Reader_Facts
  imports Sound_Reader Sound_Store_Facts
begin

text \<open>
  On a bank with a well-formed bundle, which is what the store validates before it publishes a
  bank, every sound that a trigger is mapped to is found and decodes to exactly its recorded
  samples; only a fault of the flash can stop it.

  \<open>reads\<close> is a logic for programs that only read one bank: if the bank holds
  \<open>content\<close>, a run ends with \<open>Q\<close> on its value or \<open>E\<close> on its error, or, unless
  the flash is quiet, with an I/O error.
\<close>

unbundle bit_operations_syntax

section \<open>Programs that read a bank\<close>

definition quiet_flash :: "'z sound_flash_scheme \<Rightarrow> bool" where
  "quiet_flash s \<longleftrightarrow> sf_open s \<and> sf_faults s = []"

definition reads ::
  "bytes \<Rightarrow> SoundBankId \<Rightarrow> bool \<Rightarrow> ('z sound_flash_scheme, SoundAssetReadResult + 'a) state \<Rightarrow> ('a \<Rightarrow> bool) \<Rightarrow>
   (SoundAssetReadResult \<Rightarrow> bool) \<Rightarrow> bool" where
  "reads content bank quiet m Q E \<longleftrightarrow>
     (\<forall>s. sf_bank s bank = content \<longrightarrow> (quiet \<longrightarrow> quiet_flash s) \<longrightarrow>
        (case run_state m s of
           (r, s') \<Rightarrow> same_flash s s' \<and> (quiet \<longrightarrow> quiet_flash s') \<and>
             (case r of Inl e \<Rightarrow> E e \<or> e = RdIoError \<and> \<not> quiet | Inr a \<Rightarrow> Q a)))"

named_theorems read_rules

lemma reads_give [read_rules]: "Q a \<Longrightarrow> reads content bank quiet (give a) Q E"
  by (simp add: reads_def)

lemma reads_refuse [read_rules]: "E e \<Longrightarrow> reads content bank quiet (refuse e) Q E"
  by (simp add: reads_def)

lemma reads_require [read_rules]:
  "(b \<Longrightarrow> Q ()) \<Longrightarrow> (\<not> b \<Longrightarrow> E e) \<Longrightarrow> reads content bank quiet (require b e) Q E"
  by (simp add: require_def reads_give reads_refuse)

lemma reads_require_some [read_rules]:
  "(\<And>a. x = Some a \<Longrightarrow> Q a) \<Longrightarrow> (x = None \<Longrightarrow> E e) \<Longrightarrow> reads content bank quiet (require_some x e) Q E"
  by (cases x) (simp_all add: require_some_def reads_give reads_refuse)

lemma reads_proceed:
  fixes m :: "('z sound_flash_scheme, SoundAssetReadResult + 'a) state"
  assumes "reads content bank quiet m R E" and "\<And>a. R a \<Longrightarrow> reads content bank quiet (f a) Q E"
  shows "reads content bank quiet (proceed m f) Q E"
  unfolding reads_def
proof (intro allI impI)
  fix s :: "'z sound_flash_scheme" assume s: "sf_bank s bank = content" "quiet \<longrightarrow> quiet_flash s"
  obtain r s1 where m: "run_state m s = (r, s1)" by force
  then have 1: "same_flash s s1" "quiet \<longrightarrow> quiet_flash s1" "case r of Inl e \<Rightarrow> E e \<or> e = RdIoError \<and> \<not> quiet | Inr a \<Rightarrow> R a"
    using assms(1) s by (auto simp: reads_def)
  show "case run_state (proceed m f) s of (r, s') \<Rightarrow> same_flash s s' \<and> (quiet \<longrightarrow> quiet_flash s') \<and>
      (case r of Inl e \<Rightarrow> E e \<or> e = RdIoError \<and> \<not> quiet | Inr a \<Rightarrow> Q a)"
  proof (cases r)
    case (Inl e)
    then show ?thesis using 1 m by (simp add: run_state_proceed)
  next
    case (Inr a)
    obtain r' s2 where f: "run_state (f a) s1 = (r', s2)" by force
    have "sf_bank s1 bank = content" using same_flash_bank [OF 1(1)] s(1) by simp
    then have "same_flash s1 s2 \<and> (quiet \<longrightarrow> quiet_flash s2) \<and>
        (case r' of Inl e \<Rightarrow> E e \<or> e = RdIoError \<and> \<not> quiet | Inr b \<Rightarrow> Q b)"
      using assms(2) [of a] 1 Inr f by (auto simp: reads_def)
    then show ?thesis using 1 m f Inr reading.trans [of s s1 s2] by (simp add: run_state_proceed)
  qed
qed

lemma reads_require_then:
  "b \<Longrightarrow> reads content bank quiet (f ()) Q E \<Longrightarrow> reads content bank quiet (proceed (require b e) f) Q E"
  by (simp add: proceed_def require_def give_def)

lemma reads_some_then:
  "x = Some a \<Longrightarrow> reads content bank quiet (f a) Q E \<Longrightarrow> reads content bank quiet (proceed (require_some x e) f) Q E"
  by (simp add: proceed_def require_some_def give_def)

lemma reads_weaken:
  "reads content bank quiet m R D \<Longrightarrow> (\<And>a. R a \<Longrightarrow> Q a) \<Longrightarrow> (\<And>e. D e \<Longrightarrow> E e) \<Longrightarrow> reads content bank quiet m Q E"
  unfolding reads_def by (fastforce split: sum.splits)

lemma reads_then:
  "reads content bank quiet m R D \<Longrightarrow> (\<And>a. R a \<Longrightarrow> reads content bank quiet (f a) Q E) \<Longrightarrow> (\<And>e. D e \<Longrightarrow> E e) \<Longrightarrow>
   reads content bank quiet (proceed m f) Q E"
  by (rule reads_proceed [OF reads_weaken])

lemma reads_bind:
  fixes m :: "('z sound_flash_scheme, SoundAssetReadResult + 'a) state"
  assumes m: "reads content bank quiet m R (\<lambda>_. False)" and g: "\<And>a. R a \<Longrightarrow> reads content bank quiet (g (Inr a)) Q E"
    and err: "g (Inl RdIoError) = refuse RdIoError"
  shows "reads content bank quiet (State_Monad.bind m g) Q E"
proof -
  have "reads content bank quiet (proceed m (\<lambda>a. g (Inr a))) Q E"
    by (rule reads_proceed [OF reads_weaken [OF m] g]) simp_all
  moreover have "run_state (State_Monad.bind m g) s = run_state (proceed m (\<lambda>a. g (Inr a))) s"
    if "sf_bank s bank = content" "quiet \<longrightarrow> quiet_flash s" for s
  proof (cases "run_state m s")
    case (Pair r s1)
    then show ?thesis using m that err by (cases r) (auto simp: reads_def State_Monad.bind_def run_state_proceed)
  qed
  ultimately show ?thesis by (simp add: reads_def)
qed

lemma reads_exact:
  assumes "offset + len \<le> kSoundBankSize"
  shows "reads content bank quiet (read_exact bank offset len) (\<lambda>bs. bs = region content offset len) E"
proof -
  have quiet: "run_state (bank_read bank offset len) s = (Inr (region (sf_bank s bank) offset len), s)" if "quiet_flash s"
    for s :: "'z sound_flash_scheme"
    using that assms
    by (simp add: bank_read_def partition_for_def partition_read_def next_fault_def run_state_proceed quiet_flash_def
        require_def range_is_valid_def region_def map_error_def) arith
  show ?thesis
    unfolding reads_def
  proof (intro allI impI)
    fix s :: "'z sound_flash_scheme" assume s: "sf_bank s bank = content" "quiet \<longrightarrow> quiet_flash s"
    obtain r s' where r: "run_state (bank_read bank offset len) s = (r, s')" by force
    have "same_flash s s'" using bank_read_reading r by (metis state_io_relD)
    then show "case run_state (read_exact bank offset len) s of (r, s') \<Rightarrow> same_flash s s' \<and> (quiet \<longrightarrow> quiet_flash s') \<and>
        (case r of Inl e \<Rightarrow> E e \<or> e = RdIoError \<and> \<not> quiet | Inr bs \<Rightarrow> bs = region content offset len)"
      using r s quiet [of s] bank_read_Inr [of bank offset len s _ s']
      by (cases r) (auto simp: read_exact_def map_error_def)
  qed
qed

lemma reads_for_each:
  assumes "P 0 acc" and "\<And>i acc. i < n \<Longrightarrow> P i acc \<Longrightarrow> reads content bank quiet (body i acc) (P (Suc i)) E"
  shows "reads content bank quiet (for_each body [0..<n] acc) (P n) E"
proof -
  have "reads content bank quiet (for_each body [k..<n] acc) (P n) E" if "k \<le> n" "P k acc" for k acc
    using that
  proof (induction "n - k" arbitrary: k acc)
    case 0
    then show ?case by (simp add: reads_give)
  next
    case (Suc m)
    then have k: "k < n" by simp
    have "reads content bank quiet (for_each body [Suc k..<n] a) (P n) E" if "P (Suc k) a" for a
      using Suc that k by simp
    then show ?case
      unfolding upt_conv_Cons [OF k] for_each.simps by (intro reads_proceed [OF assms(2) [OF k Suc.prems(2)]])
  qed
  then show ?thesis using assms(1) by blast
qed

section \<open>Frames\<close>

text \<open>A source that holds the bytes \<open>bs\<close>.\<close>

definition source_holds :: "bytes \<Rightarrow> SoundBankId \<Rightarrow> bool \<Rightarrow> bytes \<Rightarrow> ('z sound_flash_scheme) SoundAssetStreamDecoder \<Rightarrow> bool" where
  "source_holds content bank quiet bs d \<longleftrightarrow> sd_ready d \<and> sd_source d \<noteq> NoSource \<and> ra_encoded_bytes (sd_asset d) = length bs \<and>
     (\<forall>offset len. offset + len \<le> length bs \<longrightarrow>
        reads content bank quiet (read_encoded d offset len) (\<lambda>b. b = region bs offset len) (\<lambda>_. False))"

text \<open>The decoder after \<open>k\<close> frames of a stream.\<close>

definition at_frame :: "nat \<Rightarrow> bytes list \<Rightarrow> nat \<Rightarrow> 's SoundAssetStreamDecoder \<Rightarrow> bool" where
  "at_frame samples frames k d \<longleftrightarrow> k \<le> length frames \<and> ra_frame_count (sd_asset d) = length frames \<and>
     ra_decoded_samples (sd_asset d) = samples \<and> sd_next_frame_index d = k \<and>
     sd_next_encoded_offset d = kImaAdpcmHeaderBytes + length (concat (take k frames)) \<and>
     sd_decoded_samples d = sum_list (take k (frame_sizes samples))"

definition frames_pcm :: "nat \<Rightarrow> bytes list \<Rightarrow> int list list" where
  "frames_pcm samples frames = map (\<lambda>(f, n). frame_pcm f n) (zip frames (frame_sizes samples))"

lemma frame_sizes_nth:
  assumes "0 < samples" "k < length (frame_sizes samples)"
  shows "frame_sizes samples ! k = (if samples - sum_list (take k (frame_sizes samples)) < 480
           then samples - sum_list (take k (frame_sizes samples)) else 480)"
    and "0 < frame_sizes samples ! k" and "sum_list (take (Suc k) (frame_sizes samples)) \<le> samples"
    and "sum_list (take (Suc k) (frame_sizes samples)) = samples \<longleftrightarrow> Suc k = length (frame_sizes samples)"
    and "length (frame_sizes samples) = 1 + (samples - 1) div 480"
proof -
  define q where "q = (samples - 1) div 480"
  have fs: "frame_sizes samples = replicate q 480 @ [samples - q * 480]"
    by (simp add: frame_sizes_def q_def kImaAdpcmFrameSamples_def)
  have q: "q * 480 < samples" "samples \<le> q * 480 + 480" using assms(1) by (auto simp: q_def)
  have k: "k \<le> q" using assms(2) by (simp add: fs)
  have sum: "sum_list (take k (frame_sizes samples)) = k * 480" using k by (simp add: fs sum_list_replicate min_def)
  have suc: "sum_list (take (Suc k) (frame_sizes samples)) = k * 480 + frame_sizes samples ! k"
    using assms(2) sum by (simp add: take_Suc_conv_app_nth)
  have nth: "frame_sizes samples ! k = (if k = q then samples - q * 480 else 480)"
    using k by (auto simp: fs nth_append)
  have lt: "k * 480 + 480 \<le> q * 480" if "k \<noteq> q" using k that by (metis Suc_leI le_neq_implies_less mult_Suc add.commute mult_le_mono1)
  show "frame_sizes samples ! k = (if samples - sum_list (take k (frame_sizes samples)) < 480
           then samples - sum_list (take k (frame_sizes samples)) else 480)"
    unfolding nth sum using q lt by (cases "k = q") auto
  show "0 < frame_sizes samples ! k" unfolding nth using q by auto
  show "sum_list (take (Suc k) (frame_sizes samples)) \<le> samples" unfolding nth suc using q lt by (cases "k = q") auto
  show "sum_list (take (Suc k) (frame_sizes samples)) = samples \<longleftrightarrow> Suc k = length (frame_sizes samples)"
    unfolding suc nth using q lt k by (cases "k = q") (auto simp: fs)
  show "length (frame_sizes samples) = 1 + (samples - 1) div 480" by (simp add: fs q_def)
qed

text \<open>A frame of a stream, where it lies in the stream's bytes.\<close>

lemma stream_frame:
  assumes bs: "bs = header @ concat frames" "length header = kImaAdpcmHeaderBytes"
    and k: "k < length frames" and fr: "list_all2 sound_frame (frame_sizes samples) frames"
  defines "at \<equiv> kImaAdpcmHeaderBytes + length (concat (take k frames))" and "f \<equiv> frames ! k"
  shows "region bs at 6 = take 6 f" "region bs (at + 6) (frame_sizes samples ! k div 2) = drop 6 f"
    "at + length f \<le> length bs" "sound_frame (frame_sizes samples ! k) f"
    "kImaAdpcmHeaderBytes + length (concat (take (Suc k) frames)) = at + length f"
    "at + length f = length bs \<longleftrightarrow> Suc k = length frames"
proof -
  have sf: "sound_frame (frame_sizes samples ! k) f" using fr k by (auto simp: list_all2_conv_all_nth f_def)
  have len: "length f = 6 + frame_sizes samples ! k div 2" using sf by (simp add: sound_frame_def format_sizes)
  have split: "bs = header @ concat (take k frames) @ f @ concat (drop (Suc k) frames)"
    using bs(1) k id_take_nth_drop [OF k] by (metis concat.simps(2) concat_append f_def)
  have pre: "length (header @ concat (take k frames)) = at" using bs(2) by (simp add: at_def)
  have drop: "drop at bs = f @ concat (drop (Suc k) frames)" unfolding split using pre by simp
  show "region bs at 6 = take 6 f" using len by (simp add: region_def drop)
  have "drop (at + 6) bs = drop 6 f @ concat (drop (Suc k) frames)" using len by (simp add: drop_drop [symmetric] add.commute [of at] drop)
  then show "region bs (at + 6) (frame_sizes samples ! k div 2) = drop 6 f" using len by (simp add: region_def)
  show "at + length f \<le> length bs" unfolding split using pre by simp
  show "sound_frame (frame_sizes samples ! k) f" by (rule sf)
  show "kImaAdpcmHeaderBytes + length (concat (take (Suc k) frames)) = at + length f"
    using k by (simp add: at_def f_def take_Suc_conv_app_nth)
  have "concat (drop (Suc k) frames) = [] \<longleftrightarrow> Suc k = length frames"
  proof (cases "Suc k = length frames")
    case False
    then have k': "Suc k < length frames" using k by simp
    then have "sound_frame (frame_sizes samples ! Suc k) (frames ! Suc k)" using fr by (auto simp: list_all2_conv_all_nth)
    then have "frames ! Suc k \<noteq> []" by (auto simp: sound_frame_def format_sizes)
    then show ?thesis using False k' by (simp add: Cons_nth_drop_Suc [symmetric])
  qed simp
  moreover have "length bs = at + length f + length (concat (drop (Suc k) frames))"
    using arg_cong [OF split, of length] pre by simp
  ultimately show "at + length f = length bs \<longleftrightarrow> Suc k = length frames" by auto
qed

lemma decode_next_frame:
  assumes src: "source_holds content bank quiet bs d" and at: "at_frame samples frames k d"
    and bs: "bs = header @ concat frames" "length header = kImaAdpcmHeaderBytes" "length bs < 2 ^ 32"
    and fr: "list_all2 sound_frame (frame_sizes samples) frames" and pos: "0 < samples"
    and k: "k < length frames" and cap: "480 \<le> capacity"
  shows "reads content bank quiet (decode_next d capacity)
    (\<lambda>(pcm, d'). pcm = frame_pcm (frames ! k) (frame_sizes samples ! k) \<and> at_frame samples frames (Suc k) d' \<and>
       sd_source d' = sd_source d \<and> sd_asset d' = sd_asset d \<and> sd_ready d') (\<lambda>_. False)"
proof -
  define f where "f = frames ! k"
  define n where "n = frame_sizes samples ! k"
  define off where "off = kImaAdpcmHeaderBytes + length (concat (take k frames))"
  note sf = stream_frame [OF bs(1,2) k fr, folded f_def n_def off_def]
  have lf: "length (frame_sizes samples) = length frames" using fr by (rule list_all2_lengthD)
  have k': "k < length (frame_sizes samples)" using k lf by simp
  note fs = frame_sizes_nth [OF pos k', folded n_def]
  have f: "0 < n" "n \<le> 480" "length f = 6 + n div 2" "unat (read_le16 f 0) = n" "f ! 4 < 89" "f ! 5 = 0"
    "even n \<Longrightarrow> (last f) AND 0xF0 = 0"
    using sf(4) by (simp_all add: sound_frame_def format_sizes kImaAdpcmStepCount_def)
  have suc: "sum_list (take (Suc k) (frame_sizes samples)) = sum_list (take k (frame_sizes samples)) + n"
    using k' by (simp add: take_Suc_conv_app_nth n_def)
  note d = src [unfolded source_holds_def] at [unfolded at_frame_def, folded off_def]
  have hdr: "read_le16 (take 6 f) 0 = read_le16 f 0" "take 6 f ! 4 = f ! 4" "take 6 f ! 5 = f ! 5"
    by (simp_all add: read_le16_def)
  have last: "f ! (6 + n div 2 - 1) = last f" using f(3) by (subst last_conv_nth) auto
  have src': "reads content bank quiet (read_encoded d offset len) (\<lambda>b. b = region bs offset len) (\<lambda>_. False)"
    if "offset + len \<le> length bs" for offset len using d(1) that by blast
  have rd: "reads content bank quiet (read_encoded d off 6) (\<lambda>b. b = take 6 f) (\<lambda>_. False)"
      "reads content bank quiet (read_encoded d (off + 6) (n div 2)) (\<lambda>b. b = drop 6 f) (\<lambda>_. False)"
    using src' [of off 6] src' [of "off + 6" "n div 2"] sf(1,2,3) f(3) by simp_all
  have step: "unat (f ! 4) < 89" using f(5) by (simp add: word_less_nat_alt)
  have pay: "reads content bank quiet
      (if n div 2 \<noteq> 0 then proceed (require_some (checked_add off kSoundAssetFrameHeaderBytes) RdInvalidResource)
         (\<lambda>payload_offset. read_encoded d payload_offset (n div 2)) else give []) (\<lambda>b. b = drop 6 f) (\<lambda>_. False)"
  proof (cases "n div 2 = 0")
    case True
    then show ?thesis using f(3) by (simp add: reads_give)
  next
    case False
    have "checked_add off 6 = Some (off + 6)" using bs(3) sf(3) f(3) by (simp add: checked_add_def)
    then show ?thesis
      unfolding if_P [OF False] kSoundAssetFrameHeaderBytes_def
      by (rule reads_some_then [where f = "\<lambda>payload_offset. read_encoded d payload_offset (n div 2)", OF _ rd(2)])
  qed
  have final: "off + (6 + n div 2) = length bs \<longleftrightarrow> Suc k = length frames" "off + (6 + n div 2) \<le> length bs"
      "sum_list (take k (frame_sizes samples)) + n = samples \<longleftrightarrow> Suc k = length frames"
      "sum_list (take k (frame_sizes samples)) + n \<le> samples"
    using sf(3,6) f(3) fs(3,4) suc lf by simp_all
  have small: "n div 2 \<le> 240" "\<not> length bs - off < 6 + n div 2" using f(2) final(2) by simp_all
  have index: "\<not> ra_frame_count (sd_asset d) \<le> sd_next_frame_index d" using d k by simp
  have fields: "sd_next_encoded_offset d = off" "sd_decoded_samples d = sum_list (take k (frame_sizes samples))"
      "sd_next_frame_index d = k" "ra_frame_count (sd_asset d) = length frames" "ra_decoded_samples (sd_asset d) = samples"
      "ra_encoded_bytes (sd_asset d) = length bs" "sd_ready d" "sd_source d \<noteq> NoSource"
    using d by simp_all
  show ?thesis
    unfolding decode_next_def Let_def if_not_P [OF index] fields(1) kSoundAssetFrameHeaderBytes_def
    apply (rule reads_require_then)
    subgoal using fields(7,8) by (cases "sd_source d") simp_all
    apply (rule reads_require_then)
    subgoal using cap by (simp add: reader_sizes)
    apply (rule reads_require_then)
    subgoal using final f(1) by (simp add: fields)
    apply (rule reads_proceed [OF rd(1)])
    apply (hypsubst, unfold hdr f(4))
    apply (rule reads_require_then)
    subgoal using f step small unfolding fields reader_sizes by (simp flip: fs(1))
    apply (rule reads_proceed [OF pay [unfolded kSoundAssetFrameHeaderBytes_def]])
    apply (hypsubst, unfold append_take_drop_id last)
    apply (rule reads_require_then)
    subgoal using f(7) by auto
    apply (rule reads_require_then)
    subgoal using final by (auto simp: fields)
    apply (rule reads_give)
    using k sf(5) f(3) suc fields by (simp add: at_frame_def f_def n_def)
qed

lemma decode_next_end:
  assumes "source_holds content bank quiet bs d" "at_frame samples frames (length frames) d"
    "bs = header @ concat frames" "length header = kImaAdpcmHeaderBytes"
    "list_all2 sound_frame (frame_sizes samples) frames" "0 < samples"
  shows "run_state (decode_next d capacity) s = (Inl RdEnd, s)"
proof -
  have lf: "length (frame_sizes samples) = length frames" using assms(5) by (rule list_all2_lengthD)
  have "sum_list (take (length frames) (frame_sizes samples)) = samples"
    using frame_sizes_nth(4) [OF assms(6), of "length frames - 1"] lf by (simp add: frame_sizes_def)
  moreover have "(case sd_source d of NoSource \<Rightarrow> True | _ \<Rightarrow> False) = False"
    using assms(1) by (cases "sd_source d") (simp_all add: source_holds_def)
  ultimately show ?thesis
    using assms(1-4) by (simp add: decode_next_def Let_def source_holds_def at_frame_def run_state_proceed require_def)
qed

section \<open>Playing a stream to its end\<close>

text \<open>The loop of a player, which asks for frames into a full-size buffer until the end.\<close>

fun play_frames ::
  "nat \<Rightarrow> ('z sound_flash_scheme) SoundAssetStreamDecoder \<Rightarrow> ('z sound_flash_scheme, SoundAssetReadResult + int list list) state" where
  "play_frames 0 d = refuse RdOutputTooSmall"
| "play_frames (Suc n) d = do {
     r \<leftarrow> decode_next d kSoundAssetFrameSamples;
     case r of
       Inl e \<Rightarrow> if e = RdEnd then give [] else refuse e
     | Inr (pcm, d') \<Rightarrow> proceed (play_frames n d') (\<lambda>rest. give (pcm # rest)) }"

lemma source_holds_cong:
  "sd_source d' = sd_source d \<Longrightarrow> sd_asset d' = sd_asset d \<Longrightarrow> sd_ready d' \<Longrightarrow>
   source_holds content bank quiet bs d \<Longrightarrow> source_holds content bank quiet bs d'"
proof -
  assume a: "sd_source d' = sd_source d" "sd_asset d' = sd_asset d" "sd_ready d'" "source_holds content bank quiet bs d"
  then have "sd_ready d" by (simp add: source_holds_def)
  then have "read_encoded d' = read_encoded d" using a(3) unfolding read_encoded_def fun_eq_iff a(1,2) by simp
  then show ?thesis using a by (simp add: source_holds_def)
qed

lemma play_frames_reads:
  fixes d :: "('z sound_flash_scheme) SoundAssetStreamDecoder"
  assumes bs: "bs = header @ concat frames" "length header = kImaAdpcmHeaderBytes" "length bs < 2 ^ 32"
    and fr: "list_all2 sound_frame (frame_sizes samples) frames" and pos: "0 < samples"
  shows "source_holds content bank quiet bs d \<Longrightarrow> at_frame samples frames k d \<Longrightarrow> length frames < k + fuel \<Longrightarrow>
    reads content bank quiet (play_frames fuel d) (\<lambda>pcm. pcm = drop k (frames_pcm samples frames)) (\<lambda>_. False)"
proof (induction fuel arbitrary: k d)
  case 0
  then show ?case by (simp add: at_frame_def)
next
  case (Suc fuel)
  have lf: "length (frame_sizes samples) = length frames" using fr by (rule list_all2_lengthD)
  show ?case
  proof (cases "k < length frames")
    case False
    then have k: "k = length frames" using Suc.prems(2) by (simp add: at_frame_def)
    have "run_state (play_frames (Suc fuel) d) s = (Inr [], s)" for s
      using decode_next_end [OF Suc.prems(1) Suc.prems(2) [unfolded k] bs(1,2) fr pos] by (simp add: State_Monad.bind_def)
    moreover have "drop k (frames_pcm samples frames) = []" using k lf by (simp add: frames_pcm_def)
    ultimately show ?thesis unfolding reads_def by simp
  next
    case True
    define pcm where "pcm = frame_pcm (frames ! k) (frame_sizes samples ! k)"
    note frame = decode_next_frame [OF Suc.prems(1,2) bs fr pos True order_refl [of 480], folded pcm_def]
    have tail: "drop k (frames_pcm samples frames) = pcm # drop (Suc k) (frames_pcm samples frames)"
      using True lf by (simp add: frames_pcm_def pcm_def Cons_nth_drop_Suc [symmetric])
    show ?thesis
      unfolding play_frames.simps kSoundAssetFrameSamples_def
    proof (rule reads_bind [OF frame], clarsimp)
      fix d' :: "'z sound_flash_scheme SoundAssetStreamDecoder"
      assume d': "at_frame samples frames (Suc k) d'" "sd_source d' = sd_source d" "sd_asset d' = sd_asset d" "sd_ready d'"
      have "reads content bank quiet (play_frames fuel d') (\<lambda>rest. rest = drop (Suc k) (frames_pcm samples frames)) (\<lambda>_. False)"
        using Suc.IH [OF source_holds_cong [OF d'(2-4) Suc.prems(1)] d'(1)] Suc.prems(3) by simp
      then show "reads content bank quiet (proceed (play_frames fuel d') (\<lambda>rest. give (pcm # rest)))
          (\<lambda>pcm. pcm = drop k (frames_pcm samples frames)) (\<lambda>_. False)"
        by (rule reads_proceed) (simp add: reads_give tail)
    qed simp
  qed
qed

section \<open>The sound of a trigger\<close>

definition trigger_key :: "SoundAssetTrigger \<Rightarrow> u8 \<Rightarrow> MappingRecord" where
  "trigger_key trigger index = \<lparr>mr_trigger = trigger_byte trigger, mr_index = index, mr_resource_index = 0\<rparr>"

text \<open>The manifest's tables, and the resource that a trigger is mapped to.\<close>

definition bundle_resources :: "bytes \<Rightarrow> ResourceRecord list" where
  "bundle_resources content = map (resource_at content) [0..<unat (read_le16 (region content kSoundManifestOffset kManifestHeaderBytes) 16)]"

definition bundle_mappings :: "bytes \<Rightarrow> MappingRecord list" where
  "bundle_mappings content = (let header = region content kSoundManifestOffset kManifestHeaderBytes in
     map (mapping_at content (unat (read_le16 header 16))) [0..<unat (read_le16 header 18)])"

definition mapped_resource :: "bytes \<Rightarrow> SoundAssetTrigger \<Rightarrow> u8 \<Rightarrow> nat option" where
  "mapped_resource content trigger index = map_option mr_resource_index
     (find (\<lambda>m. mr_trigger m = trigger_byte trigger \<and> mr_index m = index) (bundle_mappings content))"

lemma target_bit_of_valid:
  assumes "valid_trigger m"
  shows "mapping_target_bit m = Some (push_bit (target_index (mr_trigger m, mr_index m)) 1)"
    and "target_index (mr_trigger m, mr_index m) < 16"
proof -
  have "mapping_target_bit m \<noteq> None"
    using assms by (auto simp: mapping_target_bit_def valid_trigger_def Let_def kBootTrigger_def kKeyTrigger_def
        kEncoderLeftTrigger_def kEncoderRightTrigger_def kEncoderPressTrigger_def)
  then obtain b where b: "mapping_target_bit m = Some b" by blast
  show "mapping_target_bit m = Some (push_bit (target_index (mr_trigger m, mr_index m)) 1)"
    and "target_index (mr_trigger m, mr_index m) < 16" using mapping_target_bit_Some [OF b] b by simp_all
qed

lemma target_index_inj:
  assumes "valid_trigger m" "valid_trigger m'" "target_index (mr_trigger m, mr_index m) = target_index (mr_trigger m', mr_index m')"
  shows "mr_trigger m = mr_trigger m' \<and> mr_index m = mr_index m'"
proof -
  have key: "1 \<le> unat i \<and> unat i \<le> 8" if "i \<in> {1..8}" for i :: u8
    using that by (auto simp: word_le_nat_alt)
  have "unat i = unat j \<Longrightarrow> i = j" for i j :: u8 by (simp add: word_unat_eq_iff)
  then show ?thesis
    using assms key [of "mr_index m"] key [of "mr_index m'"]
    by (auto simp: valid_trigger_def target_index_def kBootTrigger_def kKeyTrigger_def
        kEncoderLeftTrigger_def kEncoderRightTrigger_def kEncoderPressTrigger_def)
qed

lemma mapping_target_eq: "mapping_target (mr_trigger m) (mr_index m) = mapping_target_bit m"
  by (auto simp: mapping_target_def mapping_target_bit_def Let_def kBootTrigger_def kKeyTrigger_def
      kEncoderLeftTrigger_def kEncoderRightTrigger_def kEncoderPressTrigger_def)

lemma sample_limit_eq:
  "sample_limit_for trigger index =
     (if valid_trigger (trigger_key trigger index)
      then (if trigger_byte trigger = kBootTrigger then kMaximumBootSamples else kMaximumActionSamples) else 0)"
proof -
  have "mapping_target (trigger_byte trigger) index = None \<longleftrightarrow> \<not> valid_trigger (trigger_key trigger index)"
    using mapping_target_eq [of "trigger_key trigger index"] target_bit_of_valid(1) [of "trigger_key trigger index"]
      mapping_target_bit_Some [of "trigger_key trigger index"]
    by (cases "mapping_target_bit (trigger_key trigger index)") (auto simp: trigger_key_def)
  then show ?thesis by (cases trigger) (auto simp: sample_limit_for_def kBootTrigger_def)
qed

lemma checked_multiply_small: "first \<le> 64 \<Longrightarrow> second \<le> 48 \<Longrightarrow> checked_multiply first second = Some (first * second)"
  using div_le_mono2 [of first 64 "2 ^ 32 - 1"] by (auto simp: checked_multiply_def)

lemma manifest_shape_ok:
  "rc \<le> kMaximumResourceCount \<Longrightarrow> mc \<le> kMaximumMappingCount \<Longrightarrow>
   manifest_shape_is_valid rc mc (kManifestHeaderBytes + rc * kResourceRecordBytes + mc * kMappingRecordBytes)"
  by (simp add: manifest_shape_is_valid_def checked_add_def checked_multiply_small format_sizes)

text \<open>What a bundle that the format check accepts gives the reader.\<close>

lemma bundle_facts:
  assumes "bundle_ok content sm"
  defines "rs \<equiv> bundle_resources content" and "ms \<equiv> bundle_mappings content"
  shows "manifest_header (region content kSoundManifestOffset kManifestHeaderBytes) sm"
    "ms_manifest_bytes sm = kManifestHeaderBytes + length rs * kResourceRecordBytes + length ms * kMappingRecordBytes"
    "ms_manifest_bytes sm \<le> kSoundSectorSize" "ms_payload_bytes sm \<le> kSoundPayloadMaxSize"
    "length rs \<le> kMaximumResourceCount" "length ms \<le> kMaximumMappingCount"
    "resources_ok content rs" "mappings_ok rs ms" "sum_list (map rr_encoded_bytes rs) = ms_payload_bytes sm"
    "length rs = ms_resource_count sm" "length ms = ms_mapping_count sm"
  using assms(1) unfolding bundle_ok_def rs_def ms_def bundle_resources_def bundle_mappings_def Let_def manifest_header_def
  by simp_all

lemma region_region: "offset + len \<le> n \<Longrightarrow> region (region content a n) offset len = region content (a + offset) len"
  by (simp add: region_def drop_take min_def add.commute)

lemma find_append_case: "find P (xs @ ys) = (case find P xs of None \<Rightarrow> find P ys | Some x \<Rightarrow> Some x)"
  by (induction xs) simp_all

text \<open>The loop over the mappings finds the trigger's resource.\<close>

lemma resolve_mappings_reads:
  assumes len: "length content = kSoundBankSize" and ok: "bundle_ok content sm"
  shows "reads content bank quiet
    (for_each (resolve_mapping bank (kManifestHeaderBytes + length (bundle_resources content) * kResourceRecordBytes)
       (length (bundle_resources content)) (trigger_byte trigger) index) [0..<length (bundle_mappings content)] (None, 0))
    (\<lambda>(found, seen). found = mapped_resource content trigger index) (\<lambda>_. False)"
proof -
  let ?rs = "bundle_resources content" and ?ms = "bundle_mappings content"
  let ?is = "\<lambda>m. mr_trigger m = trigger_byte trigger \<and> mr_index m = index"
  define key :: "MappingRecord \<Rightarrow> nat" where "key = (\<lambda>m. target_index (mr_trigger m, mr_index m))"
  note b = bundle_facts [OF ok]
  define P where "P = (\<lambda>i (found, seen :: u16). found = map_option mr_resource_index (find ?is (take i ?ms)) \<and>
    (\<forall>j. bit seen j \<longleftrightarrow> j \<in> key ` set (take i ?ms)))"
  have "reads content bank quiet
    (for_each (resolve_mapping bank (kManifestHeaderBytes + length ?rs * kResourceRecordBytes) (length ?rs) (trigger_byte trigger) index)
       [0..<length ?ms] (None, 0)) (P (length ?ms)) (\<lambda>_. False)"
  proof (rule reads_for_each)
    show "P 0 (None, 0)" by (simp add: P_def)
    fix i acc assume i: "i < length ?ms" and P: "P i acc"
    obtain found seen where acc: "acc = (found, seen)" by force
    define m where "m = ?ms ! i"
    define at where "at = kSoundManifestOffset + (kManifestHeaderBytes + length ?rs * kResourceRecordBytes + i * kMappingRecordBytes)"
    let ?b = "region content at kMappingRecordBytes"
    have m: "m = decode_mapping_record ?b"
      using i b(10) by (simp add: m_def bundle_mappings_def Let_def mapping_at_def at_def bundle_resources_def)
    then have bytes: "?b ! 0 = mr_trigger m" "?b ! 1 = mr_index m" "unat (read_le16 ?b 2) = mr_resource_index m"
      by (simp_all add: decode_mapping_record_def)
    have small: "length ?rs \<le> 64" "i < 64" using b(5,6) i by (simp_all add: format_sizes)
    have fits: "at + kMappingRecordBytes \<le> kSoundBankSize" using small by (simp add: at_def bank_layout format_sizes)
    have offset: "do { mapping_delta \<leftarrow> checked_multiply i kMappingRecordBytes;
        manifest_offset \<leftarrow> checked_add (kManifestHeaderBytes + length ?rs * kResourceRecordBytes) mapping_delta;
        checked_add kSoundManifestOffset manifest_offset } = Some at"
      using small by (simp add: checked_multiply_small checked_add_def format_sizes bank_layout at_def)
    have v: "valid_trigger m" "mr_resource_index m < length ?rs" using b(8) i by (simp_all add: mappings_ok_def m_def)
    have t: "mapping_target_bit m = Some (push_bit (key m) 1)" "key m < LENGTH(16)"
      using target_bit_of_valid [OF v(1)] by (simp_all add: key_def)
    have take: "take (Suc i) ?ms = take i ?ms @ [m]" using i by (simp add: m_def take_Suc_conv_app_nth)
    have fresh: "\<forall>m' \<in> set (take i ?ms). mr_trigger m' \<noteq> mr_trigger m \<or> mr_index m' \<noteq> mr_index m"
    proof -
      have "distinct (map (\<lambda>m. (mr_trigger m, mr_index m)) (take (Suc i) ?ms))"
        using b(8) by (simp add: mappings_ok_def flip: take_map)
      then show ?thesis unfolding take by (auto simp: image_iff)
    qed
    have "key m \<notin> key ` set (take i ?ms)"
    proof
      assume "key m \<in> key ` set (take i ?ms)"
      then obtain m' where m': "m' \<in> set (take i ?ms)" "key m' = key m" by auto
      have "valid_trigger m'" using m'(1) b(8) by (auto simp: mappings_ok_def dest: in_set_takeD)
      then show False using target_index_inj [OF _ v(1)] m' fresh by (auto simp: key_def)
    qed
    then have unseen: "seen AND push_bit (key m) 1 = 0"
      using P acc bit_iff_and_push_bit_not_eq_0 [of seen "key m"] by (auto simp: P_def)
    have none: "found = None" if "?is m" using P acc fresh that by (auto simp: P_def find_None_iff)
    have find: "map_option mr_resource_index (find ?is (take (Suc i) ?ms)) = (if ?is m then Some (mr_resource_index m) else found)"
      using P acc none unfolding take by (auto simp: P_def find_append_case split: option.splits)
    have bits: "bit (seen OR push_bit (key m) 1) j \<longleftrightarrow> j \<in> key ` set (take (Suc i) ?ms)" for j
      using P acc bit_or_push_1 [OF t(2), of seen j] unfolding take by (auto simp: P_def)
    show "reads content bank quiet (resolve_mapping bank (kManifestHeaderBytes + length ?rs * kResourceRecordBytes) (length ?rs)
        (trigger_byte trigger) index i acc) (P (Suc i)) (\<lambda>_. False)"
      unfolding acc resolve_mapping_def prod.case Let_def
      apply (rule reads_some_then [OF offset])
      apply (rule reads_proceed [OF reads_exact [OF fits]])
      apply (hypsubst, unfold bytes mapping_target_eq)
      apply (rule reads_some_then [OF t(1)])
      apply (rule reads_require_then)
      subgoal using unseen v(2) by simp
      subgoal using none find bits by (auto simp: P_def intro!: reads_require_then reads_give)
      done
  qed
  then show ?thesis by (rule reads_weaken) (auto simp: P_def mapped_resource_def)
qed

section \<open>Resolving and opening\<close>

definition asset_of :: "SoundReadLease \<Rightarrow> nat \<Rightarrow> ResourceRecord \<Rightarrow> SoundResolvedAsset" where
  "asset_of lease resource_index r =
     \<lparr>ra_valid = True, ra_lease_id = rl_lease_id lease, ra_bank = rl_bank lease, ra_generation = rl_generation lease,
      ra_bundle_sha256 = rl_bundle_sha256 lease, ra_resource_sha256 = rr_sha256 r, ra_resource_index = resource_index,
      ra_payload_offset = rr_payload_offset r, ra_encoded_bank_offset = kSoundPayloadOffset + rr_payload_offset r,
      ra_encoded_bytes = rr_encoded_bytes r, ra_decoded_samples = rr_decoded_samples r, ra_frame_count = rr_frame_count r\<rparr>"

text \<open>A mapped resource: where it lies, and that it is an exact stream.\<close>

lemma mapped_facts:
  assumes len: "length content = kSoundBankSize" and ok: "bundle_ok content sm"
    and mapped: "mapped_resource content trigger index = Some k"
  defines "r \<equiv> bundle_resources content ! k"
  shows "k < length (bundle_resources content)" "k < 64" "r = resource_at content k"
    "valid_trigger (trigger_key trigger index)" "rr_decoded_samples r \<le> sample_limit_for trigger index"
    "eiad_stream r (resource_bytes content r)" "rr_payload_offset r + rr_encoded_bytes r \<le> ms_payload_bytes sm"
    "length (resource_bytes content r) = rr_encoded_bytes r"
    "kSoundPayloadOffset + rr_payload_offset r + rr_encoded_bytes r \<le> kSoundPayloadOffset + kSoundPayloadMaxSize"
proof -
  note b = bundle_facts [OF ok]
  obtain m where m: "m \<in> set (bundle_mappings content)" "mr_trigger m = trigger_byte trigger" "mr_index m = index" "mr_resource_index m = k"
    using mapped by (auto simp: mapped_resource_def find_Some_iff in_set_conv_nth)
  have v: "valid_trigger m" "k < length (bundle_resources content)"
      "rr_decoded_samples r \<le> (if mr_trigger m = kBootTrigger then kMaximumBootSamples else kMaximumActionSamples)"
    using b(8) m unfolding mappings_ok_def r_def by blast+
  show k: "k < length (bundle_resources content)" "k < 64" using v(2) b(5) by (simp_all add: format_sizes)
  show "r = resource_at content k" using k b(10) by (simp add: r_def bundle_resources_def)
  show t: "valid_trigger (trigger_key trigger index)" using v(1) m by (simp add: trigger_key_def valid_trigger_def)
  show "rr_decoded_samples r \<le> sample_limit_for trigger index" using v(3) t m by (simp add: sample_limit_eq)
  have rs: "rr_payload_offset r = sum_list (map rr_encoded_bytes (take k (bundle_resources content)))"
      "eiad_stream r (resource_bytes content r)"
    using b(7) k by (simp_all add: resources_ok_def r_def)
  show "eiad_stream r (resource_bytes content r)" by (rule rs(2))
  have "map rr_encoded_bytes (bundle_resources content) =
      map rr_encoded_bytes (take k (bundle_resources content)) @ rr_encoded_bytes r # map rr_encoded_bytes (drop (Suc k) (bundle_resources content))"
    using id_take_nth_drop [OF k(1)] unfolding r_def by (metis list.simps(9) map_append)
  then show sum: "rr_payload_offset r + rr_encoded_bytes r \<le> ms_payload_bytes sm" using rs(1) b(9) by simp
  then show fits: "kSoundPayloadOffset + rr_payload_offset r + rr_encoded_bytes r \<le> kSoundPayloadOffset + kSoundPayloadMaxSize"
    using b(4) by simp
  then show "length (resource_bytes content r) = rr_encoded_bytes r"
    using len by (simp add: resource_bytes_def length_region bank_layout)
qed

text \<open>The fields of an exact stream that resolving and opening compare.\<close>

lemma stream_fields:
  assumes "eiad_stream r (resource_bytes content r)" "length (resource_bytes content r) = rr_encoded_bytes r"
  shows "20 \<le> rr_encoded_bytes r" "0 < rr_decoded_samples r" "rr_decoded_samples r \<le> kMaximumBootSamples"
    "rr_frame_count r = 1 + (rr_decoded_samples r - 1) div 480" "rr_codec r = kImaAdpcmCodec" "rr_channels r = kMonoChannels"
    "eiad_header r (region content (kSoundPayloadOffset + rr_payload_offset r) 20)"
proof -
  obtain header frames where s: "0 < rr_decoded_samples r" "rr_decoded_samples r \<le> kMaximumBootSamples" "rr_codec r = kImaAdpcmCodec"
      "rr_channels r = kMonoChannels" "resource_bytes content r = header @ concat frames" "eiad_header r header"
      "rr_frame_count r = length frames" "list_all2 sound_frame (frame_sizes (rr_decoded_samples r)) frames"
    using assms(1) by (auto simp: eiad_stream_def)
  have lh: "length header = 20" using s(6) by (simp add: eiad_header_def format_sizes)
  show "20 \<le> rr_encoded_bytes r" using assms(2) s(5) lh by simp
  show "0 < rr_decoded_samples r" "rr_decoded_samples r \<le> kMaximumBootSamples" "rr_codec r = kImaAdpcmCodec"
    "rr_channels r = kMonoChannels" by (fact s)+
  show "rr_frame_count r = 1 + (rr_decoded_samples r - 1) div 480"
    using frame_sizes_nth(5) [OF s(1), of 0] list_all2_lengthD [OF s(8)] s(7) by (simp add: frame_sizes_def)
  have "header = take 20 (resource_bytes content r)" using s(5) lh by simp
  also have "\<dots> = region content (kSoundPayloadOffset + rr_payload_offset r) 20"
    unfolding resource_bytes_def using \<open>20 \<le> rr_encoded_bytes r\<close> by (rule take_region)
  finally show "eiad_header r (region content (kSoundPayloadOffset + rr_payload_offset r) 20)" using s(6) by simp
qed

lemma magic_length: "length kManifestMagic = 4" "length kImaAdpcmMagic = 4"
  by (simp_all add: kManifestMagic_def kImaAdpcmMagic_def)

lemma foldl_constant: "foldl (\<lambda>a _. a) a xs = a"
  by (induction xs) simp_all

lemma resolve_resource_reads:
  assumes len: "length content = kSoundBankSize" and ok: "bundle_ok content sm" and bank: "rl_bank lease = bank"
    and mapped: "mapped_resource content trigger index = Some k"
  shows "reads content bank quiet (resolve_resource lease (sample_limit_for trigger index) (ms_payload_bytes sm) k)
    (\<lambda>asset. asset = asset_of lease k (bundle_resources content ! k)) (\<lambda>_. False)"
proof -
  define r where "r = bundle_resources content ! k"
  note m = mapped_facts [OF len ok mapped, folded r_def]
  note f = stream_fields [OF m(6,8)]
  define at where "at = kSoundManifestOffset + (kManifestHeaderBytes + k * kResourceRecordBytes)"
  let ?b = "region content at kResourceRecordBytes"
  have r: "r = decode_resource_record ?b" using m(3) by (simp add: resource_at_def at_def)
  have bytes: "unat (read_le32 ?b 32) = rr_payload_offset r" "unat (read_le32 ?b 36) = rr_encoded_bytes r"
      "unat (read_le32 ?b 40) = rr_decoded_samples r" "unat (read_le16 ?b 44) = rr_frame_count r" "?b ! 46 = rr_codec r"
      "?b ! 47 = rr_channels r" "take 32 ?b = rr_sha256 r"
    by (simp_all add: r decode_resource_record_def)
  have fits: "at + kResourceRecordBytes \<le> kSoundBankSize" using m(2) by (simp add: at_def bank_layout format_sizes)
  have offset: "do { resource_delta \<leftarrow> checked_multiply k kResourceRecordBytes;
      resource_manifest_offset \<leftarrow> checked_add kManifestHeaderBytes resource_delta;
      checked_add kSoundManifestOffset resource_manifest_offset } = Some at"
    using m(2) by (simp add: checked_multiply_small checked_add_def format_sizes bank_layout at_def)
  have add: "checked_add kSoundPayloadOffset (rr_payload_offset r) = Some (kSoundPayloadOffset + rr_payload_offset r)"
      "checked_add (kSoundPayloadOffset + rr_payload_offset r) (rr_encoded_bytes r) =
        Some (kSoundPayloadOffset + rr_payload_offset r + rr_encoded_bytes r)"
    using m(9) by (simp_all add: checked_add_def bank_layout)
  show ?thesis
    unfolding resolve_resource_def bank Let_def
    apply (rule reads_some_then [OF offset])
    apply (rule reads_proceed [OF reads_exact [OF fits]])
    apply (hypsubst, unfold bytes)
    apply (rule reads_require_then)
    subgoal using f m(5,7) by (simp add: format_sizes reader_sizes)
    apply (rule reads_some_then [OF add(1)])
    apply (rule reads_some_then [OF add(2)])
    apply (rule reads_require_then)
    subgoal using m(9) by simp
    apply (rule reads_give)
    by (simp add: asset_of_def r_def [symmetric] bank)
qed

lemma resolve_reads:
  assumes len: "length content = kSoundBankSize" and ok: "bundle_ok content sm"
    and lease: "lease_is_valid lease" "rl_bank lease = bank"
  shows "reads content bank quiet (resolve_sound_asset lease trigger index)
    (\<lambda>asset. \<exists>k. mapped_resource content trigger index = Some k \<and> asset = asset_of lease k (bundle_resources content ! k))
    (\<lambda>e. e = RdNotMapped \<and> valid_trigger (trigger_key trigger index) \<and> mapped_resource content trigger index = None \<or>
         e = RdInvalidArgument \<and> \<not> valid_trigger (trigger_key trigger index))"
proof (cases "valid_trigger (trigger_key trigger index)")
  case False
  then have "sample_limit_for trigger index = 0" by (simp add: sample_limit_eq)
  then show ?thesis
    using False lease(1) unfolding resolve_sound_asset_def
    by (intro reads_require_then) (simp_all add: Let_def reads_proceed [OF reads_require [where Q = "\<lambda>_. False"]])
next
  case True
  note b = bundle_facts [OF ok]
  let ?h = "region content kSoundManifestOffset kManifestHeaderBytes"
  note h = b(1) [unfolded manifest_header_def]
  have fits: "kSoundManifestOffset + kManifestHeaderBytes \<le> kSoundBankSize" by (simp add: bank_layout format_sizes)
  have magic: "bytes_equal ?h kManifestMagic" "bytes_are_zero (region ?h 20 12)"
    using h len bytes_equal_iff [of kManifestMagic ?h]
    by (simp_all add: magic_length bytes_are_zero_iff length_region bank_layout format_sizes)
  have counts: "unat (read_le16 ?h 16) = length (bundle_resources content)" "unat (read_le16 ?h 18) = length (bundle_mappings content)"
    using h b(10,11) by simp_all
  have shape: "manifest_shape_is_valid (length (bundle_resources content)) (length (bundle_mappings content)) (ms_manifest_bytes sm)"
    unfolding b(2) by (rule manifest_shape_ok [OF b(5,6)])
  have table: "do { resource_table_bytes \<leftarrow> checked_multiply (length (bundle_resources content)) kResourceRecordBytes;
      checked_add kManifestHeaderBytes resource_table_bytes } =
      Some (kManifestHeaderBytes + length (bundle_resources content) * kResourceRecordBytes)"
    using b(5) by (simp add: checked_multiply_small checked_add_def format_sizes)
  have fields: "unat (read_le32 ?h 8) = ms_manifest_bytes sm" "unat (read_le32 ?h 12) = ms_payload_bytes sm" using h by simp_all
  show ?thesis
    unfolding resolve_sound_asset_def Let_def lease(2)
    apply (rule reads_require_then [OF lease(1)])
    apply (rule reads_require_then)
    subgoal using True by (simp add: sample_limit_eq format_sizes)
    apply (rule reads_proceed [OF reads_exact [OF fits]])
    apply (hypsubst, unfold counts fields)
    apply (rule reads_require_then)
    subgoal using magic shape h b(2,3,4) by simp
    apply (rule reads_some_then [OF table])
    apply (rule reads_proceed [OF reads_weaken [OF resolve_mappings_reads [OF len ok]]])
      apply assumption
     apply simp
    apply (clarsimp split: prod.splits)
    subgoal
    proof (cases "mapped_resource content trigger index")
      case None
      then show ?thesis using True by (simp add: require_some_def proceed_def refuse_def reads_def)
    next
      case (Some k)
      show ?thesis
        by (rule reads_some_then [OF Some], rule reads_weaken [OF resolve_resource_reads [OF len ok lease(2) Some]])
          (use Some in simp_all)
    qed
    done
qed

lemma open_reads:
  assumes len: "length content = kSoundBankSize" and ok: "bundle_ok content sm"
    and lease: "lease_is_valid lease" "rl_bank lease = bank" and mapped: "mapped_resource content trigger index = Some k"
  defines "r \<equiv> bundle_resources content ! k"
  shows "reads content bank quiet (decoder_open lease (asset_of lease k r))
    (\<lambda>d. d = closed_decoder\<lparr>sd_source := BankSource, sd_asset := asset_of lease k r, sd_ready := True,
       sd_next_encoded_offset := kImaAdpcmHeaderBytes\<rparr>) (\<lambda>_. False)"
proof -
  note m = mapped_facts [OF len ok mapped, folded r_def]
  note f = stream_fields [OF m(6,8)]
  have add: "checked_add kSoundPayloadOffset (rr_payload_offset r) = Some (kSoundPayloadOffset + rr_payload_offset r)"
      "checked_add (kSoundPayloadOffset + rr_payload_offset r) (rr_encoded_bytes r) =
        Some (kSoundPayloadOffset + rr_payload_offset r + rr_encoded_bytes r)"
    using m(9) by (simp_all add: checked_add_def bank_layout)
  have fits: "kSoundPayloadOffset + rr_payload_offset r + kImaAdpcmHeaderBytes \<le> kSoundBankSize"
    using m(9) f(1) by (simp add: bank_layout format_sizes)
  have same: "sound_digest_equal d d" for d by (simp add: sound_digest_equal_def foldl_constant)
  have fields: "ra_payload_offset (asset_of lease k r) = rr_payload_offset r"
      "ra_encoded_bank_offset (asset_of lease k r) = kSoundPayloadOffset + rr_payload_offset r"
      "ra_encoded_bytes (asset_of lease k r) = rr_encoded_bytes r" "ra_decoded_samples (asset_of lease k r) = rr_decoded_samples r"
      "ra_frame_count (asset_of lease k r) = rr_frame_count r"
    by (simp_all add: asset_of_def)
  show ?thesis
    unfolding decoder_open_def fields lease(2)
    apply (rule reads_require_then [OF lease(1)])
    apply (rule reads_require_then)
    subgoal by (simp add: asset_of_def same lease(2))
    apply (rule reads_require_then)
    subgoal using f by (simp add: format_sizes reader_sizes)
    apply (rule reads_some_then [OF add(1)])
    apply (rule reads_require_then [OF refl])
    apply (rule reads_some_then [OF add(2)])
    apply (rule reads_require_then)
    subgoal using m(9) by simp
    apply (rule reads_proceed [OF reads_exact [OF fits]])
    apply hypsubst
    apply (rule reads_require_then)
    subgoal using f(7) bytes_equal_iff [of kImaAdpcmMagic] by (simp add: eiad_header_def magic_length kImaAdpcmSampleRate_def format_sizes reader_sizes)
    apply (simp add: decoder_rewind_def closed_decoder_def reads_def)
    done
qed

end
