(* ===== verification/Sound_Playing.thy ===== *)
theory Sound_Playing
  imports Sound_Reader_Facts
begin

text \<open>
  Playing the sound of a key as the boot sound and the effects do: resolve the trigger under a
  lease, open a decoder, and take frames until the end.  On a bank with a well-formed bundle
  the result is a function of the bank's bytes, \<open>stored_sound\<close>.
\<close>

unbundle bit_operations_syntax

section \<open>The sound that is stored\<close>

definition play_sound ::
  "SoundReadLease \<Rightarrow> SoundAssetTrigger \<Rightarrow> u8 \<Rightarrow> ('z sound_flash_scheme, SoundAssetReadResult + int list list) state" where
  "play_sound lease trigger index =
     proceed (resolve_sound_asset lease trigger index) (\<lambda>asset.
     proceed (decoder_open lease asset) (\<lambda>d.
     play_frames (ra_frame_count asset + 1) d))"

text \<open>The frames of a stream, cut by the numbers of samples that the frames have.\<close>

fun split_frames :: "nat list \<Rightarrow> bytes \<Rightarrow> bytes list" where
  "split_frames [] bs = []"
| "split_frames (n # ns) bs =
     (let len = kImaAdpcmFrameHeaderBytes + n div 2 in take len bs # split_frames ns (drop len bs))"

definition resource_sound :: "bytes \<Rightarrow> ResourceRecord \<Rightarrow> int list list" where
  "resource_sound content r =
     (let samples = rr_decoded_samples r
      in frames_pcm samples (split_frames (frame_sizes samples) (drop kImaAdpcmHeaderBytes (resource_bytes content r))))"

definition stored_sound :: "bytes \<Rightarrow> SoundAssetTrigger \<Rightarrow> u8 \<Rightarrow> SoundAssetReadResult + int list list" where
  "stored_sound content trigger index =
     (if \<not> valid_trigger (trigger_key trigger index) then Inl RdInvalidArgument
      else case mapped_resource content trigger index of
        None \<Rightarrow> Inl RdNotMapped
      | Some k \<Rightarrow> Inr (resource_sound content (bundle_resources content ! k)))"

lemma split_frames_concat: "list_all2 sound_frame ns frames \<Longrightarrow> split_frames ns (concat frames) = frames"
  by (induction ns frames rule: list_all2_induct) (simp_all add: sound_frame_def Let_def)

lemma decoded_in_range: "x \<in> set (decode_codes codes st) \<Longrightarrow> - 32768 \<le> x \<and> x \<le> 32767"
  by (induction codes arbitrary: st) (auto simp: Let_def decode_nibble_def clamp_int_def split: prod.splits if_splits)

lemma signed_in_range: "- 32768 \<le> read_signed_le16 bs i" "read_signed_le16 bs i \<le> 32767"
proof -
  define raw where "raw = read_le16 bs i"
  have lt: "unat raw < 65536" using unsigned_less [of raw, where 'a = nat] by simp
  have "raw AND 0x8000 = 0 \<longleftrightarrow> \<not> bit raw 15" using bit_iff_and_push_bit_not_eq_0 [of raw 15] by simp
  also have "\<dots> \<longleftrightarrow> even (unat raw div 32768)" using bit_unsigned_iff [of raw 15, where 'a = nat] by (simp add: bit_iff_odd)
  also have "\<dots> \<longleftrightarrow> unat raw < 32768"
  proof -
    have "unat raw div 32768 < 2" using lt by (simp add: less_mult_imp_div_less)
    then have "unat raw div 32768 = 0 \<or> unat raw div 32768 = 1" by arith
    then show ?thesis by (auto simp: div_eq_0_iff)
  qed
  finally have "read_signed_le16 bs i = (if unat raw < 32768 then int (unat raw) else int (unat raw) - 65536)"
    by (simp add: read_signed_le16_def Let_def raw_def)
  then show "- 32768 \<le> read_signed_le16 bs i" "read_signed_le16 bs i \<le> 32767" using lt
    by (simp_all only: split: if_split) linarith+
qed

lemma frame_pcm_in_range: "x \<in> set (frame_pcm frame n) \<Longrightarrow> - 32768 \<le> x \<and> x \<le> 32767"
  using signed_in_range [of frame 2] decoded_in_range [of x] by (auto simp: frame_pcm_def Let_def)

lemma length_frame_pcm: "0 < n \<Longrightarrow> length (frame_pcm frame n) = n"
proof -
  have "length (decode_codes codes st) = length codes" for codes st by (induction codes arbitrary: st) (simp_all add: Let_def)
  then show "0 < n \<Longrightarrow> length (frame_pcm frame n) = n" by (simp add: frame_pcm_def Let_def)
qed

text \<open>A decoder on a bank holds the bytes of its resource.\<close>

lemma bank_source:
  assumes "sd_ready d" "sd_source d = BankSource" "sd_asset d = asset_of lease k r" "rl_bank lease = bank"
    and "length (resource_bytes content r) = rr_encoded_bytes r"
    and "kSoundPayloadOffset + rr_payload_offset r + rr_encoded_bytes r \<le> kSoundPayloadOffset + kSoundPayloadMaxSize"
  shows "source_holds content bank quiet (resource_bytes content r) d"
proof -
  have "reads content bank quiet (read_encoded d offset len) (\<lambda>b. b = region (resource_bytes content r) offset len) (\<lambda>_. False)"
    if fits: "offset + len \<le> rr_encoded_bytes r" for offset len
  proof -
    have add: "checked_add (kSoundPayloadOffset + rr_payload_offset r) offset = Some (kSoundPayloadOffset + rr_payload_offset r + offset)"
      using assms(6) fits by (simp add: checked_add_def bank_layout)
    have "kSoundPayloadOffset + rr_payload_offset r + offset + len \<le> kSoundBankSize" using assms(6) fits by (simp add: bank_layout)
    note rd = reads_exact [OF this, of content bank quiet "\<lambda>_. False"]
    have "region (resource_bytes content r) offset len = region content (kSoundPayloadOffset + rr_payload_offset r + offset) len"
      unfolding resource_bytes_def by (rule region_region [OF fits])
    then show ?thesis
      using rd assms(1-4) fits unfolding read_encoded_def
      by (intro reads_require_then) (auto simp: asset_of_def intro!: reads_some_then [OF add])
  qed
  then show ?thesis using assms by (simp add: source_holds_def asset_of_def)
qed

lemma play_sound_reads:
  fixes lease :: SoundReadLease
  assumes len: "length content = kSoundBankSize" and ok: "bundle_ok content sm"
    and lease: "lease_is_valid lease" "rl_bank lease = bank"
  shows "reads content bank quiet (play_sound lease trigger index :: ('z sound_flash_scheme, _) state)
    (\<lambda>pcm. stored_sound content trigger index = Inr pcm) (\<lambda>e. stored_sound content trigger index = Inl e)"
  unfolding play_sound_def
proof (rule reads_then [OF resolve_reads [OF len ok lease]])
  fix asset
  assume "\<exists>k. mapped_resource content trigger index = Some k \<and> asset = asset_of lease k (bundle_resources content ! k)"
  then obtain k where k: "mapped_resource content trigger index = Some k" "asset = asset_of lease k (bundle_resources content ! k)" by blast
  define r where "r = bundle_resources content ! k"
  note m = mapped_facts [OF len ok k(1), folded r_def]
  obtain header frames where s: "resource_bytes content r = header @ concat frames" "eiad_header r header"
      "rr_frame_count r = length frames" "list_all2 sound_frame (frame_sizes (rr_decoded_samples r)) frames" "0 < rr_decoded_samples r"
    using m(6) by (auto simp: eiad_stream_def)
  have lh: "length header = kImaAdpcmHeaderBytes" using s(2) by (simp add: eiad_header_def)
  have sound: "stored_sound content trigger index = Inr (frames_pcm (rr_decoded_samples r) frames)"
    using k(1) m(4) s(1) lh by (simp add: stored_sound_def resource_sound_def Let_def r_def [symmetric] split_frames_concat [OF s(4)])
  have short: "length (resource_bytes content r) < 2 ^ 32" using m(8,9) by (simp add: bank_layout)
  show "reads content bank quiet (proceed (decoder_open lease asset) (play_frames (ra_frame_count asset + 1)) :: ('z sound_flash_scheme, _) state)
      (\<lambda>pcm. stored_sound content trigger index = Inr pcm) (\<lambda>e. stored_sound content trigger index = Inl e)"
    unfolding k(2) r_def [symmetric]
  proof (rule reads_then [OF open_reads [OF len ok lease k(1), folded r_def]])
    fix d :: "'z sound_flash_scheme SoundAssetStreamDecoder" assume d: "d = closed_decoder\<lparr>sd_source := BankSource, sd_asset := asset_of lease k r, sd_ready := True,
       sd_next_encoded_offset := kImaAdpcmHeaderBytes\<rparr>"
    have src: "source_holds content bank quiet (resource_bytes content r) d"
      by (rule bank_source [OF _ _ _ lease(2) m(8,9)]) (simp_all add: d)
    have at: "at_frame (rr_decoded_samples r) frames 0 d"
      using s(3) by (simp add: d at_frame_def asset_of_def closed_decoder_def)
    show "reads content bank quiet (play_frames (ra_frame_count (asset_of lease k r) + 1) d)
        (\<lambda>pcm. stored_sound content trigger index = Inr pcm) (\<lambda>e. stored_sound content trigger index = Inl e)"
      by (rule reads_weaken [OF play_frames_reads [OF s(1) lh short s(4,5) src at]]) (simp_all add: sound s(3) asset_of_def)
  qed simp_all
qed (auto simp: stored_sound_def)

text \<open>C4: On a bank whose bundle passed the store's check, the player hears exactly what is stored: a key
  that is mapped plays the samples of every frame of its resource, in order and to the last, and
  stops there; an unmapped key and an unknown trigger are told apart; and the only other outcome
  is an I/O error, which needs a fault of the flash.  No run writes to the flash, and every
  sample is a 16-bit value.\<close>

theorem stored_sound_plays:
  assumes "length (sf_bank s (rl_bank lease)) = kSoundBankSize" and "bundle_ok (sf_bank s (rl_bank lease)) sm"
    and "lease_is_valid lease" and "run_state (play_sound lease trigger index) s = (r, s')"
  shows "same_flash s s' \<and>
    (r = stored_sound (sf_bank s (rl_bank lease)) trigger index \<or> r = Inl RdIoError \<and> \<not> quiet_flash s) \<and>
    list_all (\<lambda>x. - 32768 \<le> x \<and> x \<le> 32767) (case r of Inl e \<Rightarrow> [] | Inr pcm \<Rightarrow> concat pcm)"
proof -
  note rd = play_sound_reads [OF assms(1-3) refl, where quiet = "quiet_flash s" and trigger = trigger and index = index, unfolded reads_def, rule_format, OF refl]
  have r: "same_flash s s'" "r = stored_sound (sf_bank s (rl_bank lease)) trigger index \<or> r = Inl RdIoError \<and> \<not> quiet_flash s"
    using rd assms(4) by (auto split: sum.splits)
  have "list_all (\<lambda>x. - 32768 \<le> x \<and> x \<le> 32767) (case r of Inl e \<Rightarrow> [] | Inr pcm \<Rightarrow> concat pcm)"
    using r(2) by (auto simp: stored_sound_def resource_sound_def frames_pcm_def Let_def list_all_iff dest!: frame_pcm_in_range
        split: if_splits option.splits)
  then show ?thesis using r by simp
qed

text \<open>A bank that holds one sound of one sample, mapped to the start of the device.\<close>

definition click_stream :: bytes where
  "click_stream = [0x45, 0x49, 0x41, 0x44, 1, 1, 0x80, 0xBB, 0, 0, 0xE0, 1, 1, 0, 1, 0, 0, 0, 20, 0] @ [1, 0, 5, 0, 0, 0]"

definition click_header :: bytes where
  "click_header = [0x45, 0x49, 0x53, 0x4D, 1, 0, 32, 0, 84, 0, 0, 0, 26, 0, 0, 0, 1, 0, 1, 0] @ replicate 12 0"

definition click_resource :: bytes where
  "click_resource = sha256 click_stream @ [0, 0, 0, 0, 26, 0, 0, 0, 1, 0, 0, 0, 1, 0, 1, 1]"

definition click_bank :: bytes where
  "click_bank = replicate kSoundManifestOffset 0xFF @ click_header @ click_resource @ [1, 0, 0, 0] @
     replicate (kSoundPayloadOffset - kSoundManifestOffset - 84) 0xFF @ click_stream @
     replicate (kSoundBankSize - kSoundPayloadOffset - 26) 0xFF"

definition click_flash :: sound_flash where
  "click_flash = \<lparr>sf_open = True, sf_bank = (\<lambda>_. click_bank), sf_faults = []\<rparr>"

definition click_lease :: SoundReadLease where
  "click_lease = \<lparr>rl_valid = True, rl_lease_id = 1, rl_bank = BankA, rl_generation = 1, rl_bundle_sha256 = replicate 32 1\<rparr>"

definition click_record :: ResourceRecord where
  "click_record = \<lparr>rr_sha256 = sha256 click_stream, rr_payload_offset = 0, rr_encoded_bytes = 26, rr_decoded_samples = 1,
     rr_frame_count = 1, rr_codec = 1, rr_channels = 1\<rparr>"

lemma click_length: "length click_bank = kSoundBankSize"
  by (simp add: click_bank_def click_header_def click_resource_def click_stream_def bank_layout)

lemma click_regions:
  "region click_bank kSoundManifestOffset kManifestHeaderBytes = click_header"
  "region click_bank (kSoundManifestOffset + (kManifestHeaderBytes + 0 * kResourceRecordBytes)) kResourceRecordBytes = click_resource"
  "region click_bank (kSoundManifestOffset + (kManifestHeaderBytes + 1 * kResourceRecordBytes + 0 * kMappingRecordBytes)) kMappingRecordBytes = [1, 0, 0, 0]"
  "region click_bank (kSoundPayloadOffset + 0) 26 = click_stream"
  by (simp_all add: region_def click_bank_def click_header_def click_resource_def click_stream_def bank_layout format_sizes)

lemma click_decoded: "resource_at click_bank 0 = click_record" "mapping_at click_bank 1 0 = \<lparr>mr_trigger = 1, mr_index = 0, mr_resource_index = 0\<rparr>"
  unfolding resource_at_def mapping_at_def click_regions
  by (simp_all add: decode_resource_record_def decode_mapping_record_def click_resource_def click_record_def read_le32_def read_le16_def nth_append)

lemma click_tables:
  "map (resource_at click_bank) [0..<1] = [click_record]"
  "map (mapping_at click_bank 1) [0..<1] = [\<lparr>mr_trigger = 1, mr_index = 0, mr_resource_index = 0\<rparr>]"
  using click_decoded by simp_all

lemma click_fields: "read_le16 click_header 4 = 1" "read_le16 click_header 6 = 32" "read_le32 click_header 8 = 84"
    "read_le32 click_header 12 = 26" "read_le16 click_header 16 = 1" "read_le16 click_header 18 = 1"
    "region click_header 20 12 = replicate 12 0" "take 4 click_header = kManifestMagic"
  by (simp_all add: click_header_def read_le16_def read_le32_def nth_append region_def kManifestMagic_def)

lemma click_stream_ok: "eiad_stream click_record (resource_bytes click_bank click_record)"
proof -
  have "resource_bytes click_bank click_record = click_stream" using click_regions(4) by (simp add: resource_bytes_def click_record_def)
  moreover have "click_stream = take 20 click_stream @ concat [drop 20 click_stream]" by simp
  moreover have "eiad_header click_record (take 20 click_stream)"
    by (simp add: eiad_header_def click_stream_def click_record_def format_sizes kImaAdpcmMagic_def kImaAdpcmVersion_def kMonoChannels_def
        kImaAdpcmSampleRate_def read_le16_def read_le32_def)
  moreover have "list_all2 sound_frame (frame_sizes 1) [drop 20 click_stream]"
    by (simp add: frame_sizes_def sound_frame_def click_stream_def format_sizes read_le16_def kImaAdpcmStepCount_def)
  moreover have "rr_frame_count click_record = length [drop 20 click_stream]" "rr_decoded_samples click_record = 1"
      "rr_codec click_record = kImaAdpcmCodec" "rr_channels click_record = kMonoChannels"
    by (simp_all add: click_record_def kImaAdpcmCodec_def kMonoChannels_def)
  ultimately have "\<exists>header frames. resource_bytes click_bank click_record = header @ concat frames \<and> eiad_header click_record header \<and>
      rr_frame_count click_record = length frames \<and> list_all2 sound_frame (frame_sizes (rr_decoded_samples click_record)) frames"
    by metis
  then show ?thesis by (simp add: eiad_stream_def) (simp add: click_record_def format_sizes kImaAdpcmCodec_def kMonoChannels_def)
qed

lemma click_ok: "bundle_ok click_bank \<lparr>ms_manifest_bytes = 84, ms_payload_bytes = 26, ms_resource_count = 1, ms_mapping_count = 1\<rparr>"
proof -
  have "resources_ok click_bank [click_record]"
    using click_stream_ok click_regions(4) by (simp add: resources_ok_def click_record_def resource_bytes_def)
  moreover have "mappings_ok [click_record] [\<lparr>mr_trigger = 1, mr_index = 0, mr_resource_index = 0\<rparr>]"
    by (simp add: mappings_ok_def valid_trigger_def kBootTrigger_def click_record_def format_sizes)
  ultimately show ?thesis
    unfolding bundle_ok_def Let_def manifest_header_def click_regions SoundManifestSummary.simps click_tables
    by (simp add: click_fields kManifestVersion_def del: One_nat_def) (simp add: format_sizes bank_layout click_record_def lessThan_Suc)
qed

theorem stored_sound_plays_witness: "fst (run_state (play_sound click_lease TriggerBoot 0) click_flash) = Inr [[5]]"
proof -
  obtain r s' where r: "run_state (play_sound click_lease TriggerBoot 0) click_flash = (r, s')" by force
  have bank: "sf_bank click_flash (rl_bank click_lease) = click_bank" by (simp add: click_flash_def)
  have lease: "lease_is_valid click_lease" by (simp add: lease_is_valid_def click_lease_def bytes_are_zero_iff)
  have tables: "bundle_resources click_bank = [click_record]" "bundle_mappings click_bank = [\<lparr>mr_trigger = 1, mr_index = 0, mr_resource_index = 0\<rparr>]"
    using click_tables by (simp_all add: bundle_resources_def bundle_mappings_def Let_def click_regions click_fields)
  have "valid_trigger (trigger_key TriggerBoot 0)" by (simp add: valid_trigger_def trigger_key_def kBootTrigger_def)
  then have "stored_sound click_bank TriggerBoot 0 = Inr (resource_sound click_bank click_record)"
    by (simp add: stored_sound_def mapped_resource_def tables)
  moreover have "resource_bytes click_bank click_record = click_stream" using click_regions(4) by (simp add: resource_bytes_def click_record_def)
  then have "resource_sound click_bank click_record = [[5]]"
    by (simp add: resource_sound_def click_record_def Let_def frame_sizes_def frames_pcm_def frame_pcm_def read_signed_le16_def read_le16_def
        click_stream_def format_sizes)
  moreover have "quiet_flash click_flash" by (simp add: quiet_flash_def click_flash_def)
  ultimately show ?thesis
    using stored_sound_plays [OF _ _ lease r, unfolded bank, OF click_length click_ok] r by simp
qed

end
