(* ===== verification/Sound_Session.thy ===== *)
theory Sound_Session
  imports Sound_Protocol Sound_Update
begin

text \<open>
  \<^verbatim>\<open>features/speaker_assets/include/speaker_assets/speaker_assets_session.h\<close> and
  \<^verbatim>\<open>speaker_assets_session.cpp\<close>: the session in which the App sends a bundle.  It takes
  decoded frames, answers them, and hands at most one action at a time to whoever owns the store;
  the result comes back through \<^verbatim>\<open>complete\<close>.

  The action's borrowed pointers (the plan, the bytes of a unit) are the values they point to at
  the time of the action.  A frame's data are the first \<^verbatim>\<open>body_length\<close> bytes of its body.  The
  checks that a bank is one of the two are those of the datatype.  An emission is what the call
  stores through its output pointer, which is never null here.
\<close>

unbundle bit_operations_syntax

section \<open>Constants and types\<close>

definition kSpeakerAssetsReplayEntries :: nat where "kSpeakerAssetsReplayEntries = 8"
definition kSpeakerAssetsProgressBitmapBytes :: nat where "kSpeakerAssetsProgressBitmapBytes = kSoundPayloadBlockCount div 8"
definition kSingleFrameRequestFlags :: u8 where
  "kSingleFrameRequestFlags = kSpeakerAssetsFlagAckRequested OR kSpeakerAssetsFlagFirstFragment OR kSpeakerAssetsFlagLastFragment"
definition kProgressManifestComplete :: u8 where "kProgressManifestComplete = 0x01"
definition kFragmentAckBitmapMaxBytes :: nat where "kFragmentAckBitmapMaxBytes = kSpeakerAssetsUsbFrameBodyBytes - 4"
definition kSpeakerAssetsCapabilityUsb :: u8 where "kSpeakerAssetsCapabilityUsb = 0x01"
definition kSpeakerAssetsCapabilityResume :: u8 where "kSpeakerAssetsCapabilityResume = 0x04"
definition kSpeakerAssetsCapabilityProgress :: u8 where "kSpeakerAssetsCapabilityProgress = 0x08"
definition kSpeakerAssetsCapabilityRecovery :: u8 where "kSpeakerAssetsCapabilityRecovery = 0x10"
definition kSpeakerAssetsCapabilityCurrentActive :: u8 where "kSpeakerAssetsCapabilityCurrentActive = 0x20"
definition kSpeakerAssetsCapabilityWifi :: u8 where "kSpeakerAssetsCapabilityWifi = 0x40"
definition kSpeakerAssetsCapabilities :: u8 where
  "kSpeakerAssetsCapabilities = kSpeakerAssetsCapabilityUsb OR kSpeakerAssetsCapabilityResume OR
     kSpeakerAssetsCapabilityProgress OR kSpeakerAssetsCapabilityRecovery OR kSpeakerAssetsCapabilityCurrentActive OR
     kSpeakerAssetsCapabilityWifi"

datatype SpeakerAssetsOpcode =
  OpCapabilities | OpBegin | OpResume | OpData | OpQuery | OpCommit | OpAbort | OpRecoverInvalidStaging | OpCurrentActive

definition opcode_of :: "u8 \<Rightarrow> SpeakerAssetsOpcode option" where
  "opcode_of b =
     (if b = 0x01 then Some OpCapabilities else if b = 0x02 then Some OpBegin else if b = 0x03 then Some OpResume
      else if b = 0x04 then Some OpData else if b = 0x05 then Some OpQuery else if b = 0x06 then Some OpCommit
      else if b = 0x07 then Some OpAbort else if b = 0x08 then Some OpRecoverInvalidStaging
      else if b = 0x09 then Some OpCurrentActive else None)"

datatype SpeakerAssetsStatus =
  WsOk | WsBadRequest | WsUnsupportedVersion | WsIntegrityError | WsBusy | WsNotReady | WsStaleBase | WsTransactionMismatch |
  WsIncomplete | WsStorageUnavailable | WsBankPinned | WsGenerationExhausted | WsSplitBrain | WsPausedForInput |
  WsInternalError | WsRecoveryRequired

fun status_byte :: "SpeakerAssetsStatus \<Rightarrow> u8" where
  "status_byte WsOk = 0"
| "status_byte WsBadRequest = 1"
| "status_byte WsUnsupportedVersion = 2"
| "status_byte WsIntegrityError = 3"
| "status_byte WsBusy = 4"
| "status_byte WsNotReady = 5"
| "status_byte WsStaleBase = 6"
| "status_byte WsTransactionMismatch = 7"
| "status_byte WsIncomplete = 8"
| "status_byte WsStorageUnavailable = 9"
| "status_byte WsBankPinned = 10"
| "status_byte WsGenerationExhausted = 11"
| "status_byte WsSplitBrain = 12"
| "status_byte WsPausedForInput = 13"
| "status_byte WsInternalError = 14"
| "status_byte WsRecoveryRequired = 15"

datatype SpeakerAssetsActionKind =
  ActBegin | ActDiscardInvalidStaging | ActQueryCurrentActive | ActResumeQuery | ActWriteManifest | ActWritePayloadBlock |
  ActCommit | ActAbort
datatype SpeakerAssetsResumeQueryMode = ResumeOrRebind | CurrentProgress
datatype SpeakerAssetsSessionPhase = PhIdle | PhBeginAssembly | PhReady | PhUnitAssembly | PhActionPending
datatype SpeakerAssetsSessionResult = SsOk | SsInvalidArgument | SsNoPendingAction | SsStaleCompletion
datatype SpeakerAssetsTransactionOutcome = ToActive | ToCommitted | ToUnknown

fun outcome_byte :: "SpeakerAssetsTransactionOutcome \<Rightarrow> u8" where
  "outcome_byte ToActive = 1"
| "outcome_byte ToCommitted = 2"
| "outcome_byte ToUnknown = 3"

record SpeakerAssetsActionView =
  av_token :: u32
  av_kind :: SpeakerAssetsActionKind
  av_route :: SpeakerAssetsRouteToken
  av_request_id :: u32
  av_session_cookie :: u32
  av_plan :: "SoundBundlePlan option"
  av_expected_identity :: SoundUpdateIdentity
  av_query_mode :: SpeakerAssetsResumeQueryMode
  av_bytes :: "bytes option"
  av_length :: u16
  av_block_index :: u16

record SpeakerAssetsActionCompletion =
  ac_token :: u32
  ac_kind :: SpeakerAssetsActionKind
  ac_result :: StoreStatus
  ac_identity_valid :: bool
  ac_identity :: SoundUpdateIdentity
  ac_progress_valid :: bool
  ac_progress :: SoundUpdateProgress
  ac_outcome_valid :: bool
  ac_outcome :: SpeakerAssetsTransactionOutcome
  ac_outcome_manifest_bytes :: nat
  ac_outcome_payload_bytes :: nat
  ac_current_active_valid :: bool
  ac_current_active :: SoundBankSnapshot

datatype SpeakerAssetsEmission = EmitNone | EmitReply SpeakerAssetsFrame | EmitAction SpeakerAssetsActionView

record PendingAction =
  pn_active :: bool
  pn_orphaned :: bool
  pn_kind :: SpeakerAssetsActionKind
  pn_route :: SpeakerAssetsRouteToken
  pn_token :: u32
  pn_request_id :: u32
  pn_request_cookie :: u32
  pn_request_offset :: u32
  pn_opcode :: u8
  pn_region :: SpeakerAssetsRegion
  pn_unit_index :: u16
  pn_fingerprint :: bytes
  pn_expected_identity :: SoundUpdateIdentity

record ReplayEntry =
  re_valid :: bool
  re_route :: SpeakerAssetsRouteToken
  re_request_cookie :: u32
  re_request_id :: u32
  re_opcode :: u8
  re_region :: SpeakerAssetsRegion
  re_unit_index :: u16
  re_fingerprint :: bytes
  re_reply :: SpeakerAssetsFrame

datatype ReplayLookup = ReplayMiss | ReplayExact SpeakerAssetsFrame | ReplayConflict

record SpeakerAssetsSession =
  ss_phase :: SpeakerAssetsSessionPhase
  ss_route :: SpeakerAssetsRouteToken
  ss_route_bound :: bool
  ss_session_cookie :: u32
  ss_next_cookie :: u32
  ss_next_action_token :: u32
  ss_progress :: SoundUpdateProgress
  ss_progress_valid :: bool
  ss_partial_activity_counter :: u32
  ss_decoded_plan :: SoundBundlePlan
  ss_plan_assembler :: SpeakerAssetsPlanAssembler
  ss_block_assembler :: SpeakerAssetsBlockAssembler
  ss_begin_saw_first :: bool
  ss_begin_saw_last :: bool
  ss_begin_replay_from_ready :: bool
  ss_plan_action_kind :: SpeakerAssetsActionKind
  ss_unit_request_id :: u32
  ss_unit_base_offset :: u32
  ss_unit_saw_first :: bool
  ss_unit_saw_last :: bool
  ss_pending :: PendingAction
  ss_replay :: "ReplayEntry list"
  ss_next_replay_slot :: nat

definition empty_identity :: SoundUpdateIdentity where
  "empty_identity = \<lparr>ui_generation = 0, ui_target_bank = BankA, ui_transaction_id = replicate 16 0\<rparr>"

definition empty_progress :: SoundUpdateProgress where
  "empty_progress = \<lparr>up_identity = empty_identity, up_manifest_bytes = 0, up_payload_bytes = 0, up_payload_block_count = 0,
     up_manifest_complete = False, up_payload_complete_bitmap = replicate (kSoundPayloadBlockCount div 8) 0,
     up_bundle_sha256 = replicate 32 0\<rparr>"

definition empty_frame :: SpeakerAssetsFrame where
  "empty_frame = \<lparr>fr_opcode = 0, fr_flags = 0, fr_request_id = 0, fr_session_cookie = 0, fr_object_offset = 0,
     fr_body_length = 0, fr_body = replicate kSpeakerAssetsWifiFrameBodyBytes 0\<rparr>"

definition no_pending :: PendingAction where
  "no_pending = \<lparr>pn_active = False, pn_orphaned = False, pn_kind = ActBegin, pn_route = default_route, pn_token = 0,
     pn_request_id = 0, pn_request_cookie = 0, pn_request_offset = 0, pn_opcode = 0, pn_region = ManifestRegion,
     pn_unit_index = 0, pn_fingerprint = replicate 32 0, pn_expected_identity = empty_identity\<rparr>"

definition empty_replay :: ReplayEntry where
  "empty_replay = \<lparr>re_valid = False, re_route = default_route, re_request_cookie = 0, re_request_id = 0, re_opcode = 0,
     re_region = ManifestRegion, re_unit_index = 0, re_fingerprint = replicate 32 0, re_reply = empty_frame\<rparr>"

definition init_session :: "u32 \<Rightarrow> u32 \<Rightarrow> SpeakerAssetsSession" where
  "init_session cookie_seed action_token_seed =
     \<lparr>ss_phase = PhIdle, ss_route = default_route, ss_route_bound = False, ss_session_cookie = 0,
      ss_next_cookie = (if cookie_seed = 0 then 1 else cookie_seed),
      ss_next_action_token = (if action_token_seed = 0 then 1 else action_token_seed),
      ss_progress = empty_progress, ss_progress_valid = False, ss_partial_activity_counter = 0, ss_decoded_plan = empty_plan,
      ss_plan_assembler = init_plan_assembler, ss_block_assembler = init_block_assembler, ss_begin_saw_first = False,
      ss_begin_saw_last = False, ss_begin_replay_from_ready = False, ss_plan_action_kind = ActBegin, ss_unit_request_id = 0,
      ss_unit_base_offset = 0, ss_unit_saw_first = False, ss_unit_saw_last = False, ss_pending = no_pending,
      ss_replay = replicate kSpeakerAssetsReplayEntries empty_replay, ss_next_replay_slot = 0\<rparr>"

section \<open>Checks of what the store reports\<close>

definition digest_is_valid :: "bytes \<Rightarrow> bool" where
  "digest_is_valid digest \<longleftrightarrow> list_ex (\<lambda>value. value \<noteq> 0) digest"

definition bitmap_bit :: "bytes \<Rightarrow> nat \<Rightarrow> bool" where
  "bitmap_bit bitmap i \<longleftrightarrow> bitmap ! (i div 8) AND push_bit (i mod 8) 1 \<noteq> 0"

definition bitmap_tail_is_zero :: "SoundUpdateProgress \<Rightarrow> bool" where
  "bitmap_tail_is_zero progress \<longleftrightarrow>
     list_all (\<lambda>i. \<not> bitmap_bit (up_payload_complete_bitmap progress) i) [up_payload_block_count progress..<kSoundPayloadBlockCount]"

definition progress_is_well_formed :: "SoundUpdateProgress \<Rightarrow> bool" where
  "progress_is_well_formed progress \<longleftrightarrow>
     ui_generation (up_identity progress) \<noteq> 0 \<and> digest_is_valid (ui_transaction_id (up_identity progress)) \<and>
     up_manifest_bytes progress \<ge> 32 \<and> up_manifest_bytes progress \<le> kSoundSectorSize \<and>
     up_payload_bytes progress \<le> kSoundPayloadMaxSize \<and>
     up_payload_block_count progress = payload_block_count (up_payload_bytes progress) \<and>
     digest_is_valid (up_bundle_sha256 progress) \<and> bitmap_tail_is_zero progress"

definition active_snapshot_completion_is_well_formed :: "SoundBankSnapshot \<Rightarrow> bool" where
  "active_snapshot_completion_is_well_formed snapshot \<longleftrightarrow>
     (if \<not> sb_valid snapshot
      then sb_generation snapshot = 0 \<and> sb_base_generation snapshot = 0 \<and> \<not> digest_is_valid (sb_transaction_id snapshot) \<and>
           sb_manifest_bytes snapshot = 0 \<and> sb_payload_bytes snapshot = 0 \<and> \<not> digest_is_valid (sb_manifest_sha256 snapshot) \<and>
           \<not> digest_is_valid (sb_bundle_sha256 snapshot)
      else sb_generation snapshot \<noteq> 0 \<and> sb_base_generation snapshot = sb_generation snapshot - 1 \<and>
           digest_is_valid (sb_transaction_id snapshot) \<and> sb_manifest_bytes snapshot \<ge> 32 \<and>
           sb_manifest_bytes snapshot \<le> kSoundSectorSize \<and> sb_payload_bytes snapshot \<le> kSoundPayloadMaxSize \<and>
           digest_is_valid (sb_manifest_sha256 snapshot) \<and> digest_is_valid (sb_bundle_sha256 snapshot))"

definition identity_equal :: "SoundUpdateIdentity \<Rightarrow> SoundUpdateIdentity \<Rightarrow> bool" where
  "identity_equal first second \<longleftrightarrow> ui_generation first = ui_generation second \<and>
     ui_target_bank first = ui_target_bank second \<and> ui_transaction_id first = ui_transaction_id second"

definition progress_matches_plan :: "SoundUpdateProgress \<Rightarrow> SoundBundlePlan \<Rightarrow> bool" where
  "progress_matches_plan progress plan \<longleftrightarrow> progress_is_well_formed progress \<and>
     up_manifest_bytes progress = bp_manifest_bytes plan \<and> up_payload_bytes progress = bp_payload_bytes plan \<and>
     up_bundle_sha256 progress = bp_bundle_sha256 plan"

definition progress_matches_session :: "SoundUpdateProgress \<Rightarrow> SoundUpdateProgress \<Rightarrow> bool" where
  "progress_matches_session candidate current \<longleftrightarrow> progress_is_well_formed candidate \<and>
     identity_equal (up_identity candidate) (up_identity current) \<and>
     up_manifest_bytes candidate = up_manifest_bytes current \<and> up_payload_bytes candidate = up_payload_bytes current \<and>
     up_payload_block_count candidate = up_payload_block_count current \<and>
     up_bundle_sha256 candidate = up_bundle_sha256 current"

definition progress_does_not_regress :: "SoundUpdateProgress \<Rightarrow> SoundUpdateProgress \<Rightarrow> bool" where
  "progress_does_not_regress candidate current \<longleftrightarrow>
     \<not> (up_manifest_complete current \<and> \<not> up_manifest_complete candidate) \<and>
     list_all (\<lambda>index. up_payload_complete_bitmap candidate ! index AND up_payload_complete_bitmap current ! index =
         up_payload_complete_bitmap current ! index) [0..<length (up_payload_complete_bitmap current)]"

definition payload_block_is_complete :: "SoundUpdateProgress \<Rightarrow> nat \<Rightarrow> bool" where
  "payload_block_is_complete progress block_index \<longleftrightarrow>
     \<not> block_index \<ge> up_payload_block_count progress \<and> bitmap_bit (up_payload_complete_bitmap progress) block_index"

section \<open>Fingerprints\<close>

text \<open>The hash of some pieces; all zeros when a piece is refused.\<close>

fun hash_pieces :: "SoundSha256 \<Rightarrow> bytes list \<Rightarrow> bytes" where
  "hash_pieces hash [] = fst (sha_finish hash)"
| "hash_pieces hash (piece # pieces) =
     (case sha_update hash piece of (ok, hash') \<Rightarrow> if \<not> ok then replicate 32 0 else hash_pieces hash' pieces)"

definition frame_fingerprint :: "SpeakerAssetsFrame \<Rightarrow> bytes" where
  "frame_fingerprint frame =
     (case encode_speaker_assets_wifi_frame frame of
        Inl _ \<Rightarrow> replicate 32 0
      | Inr (encoded, encoded_length) \<Rightarrow> hash_pieces sha_reset [take encoded_length encoded])"

definition plan_fingerprint :: "SoundBundlePlan \<Rightarrow> bytes" where
  "plan_fingerprint plan =
     (case encode_sound_bundle_plan_wire plan of Inl _ \<Rightarrow> replicate 32 0 | Inr encoded \<Rightarrow> hash_pieces sha_reset [encoded])"

fun region_byte :: "SpeakerAssetsRegion \<Rightarrow> u8" where
  "region_byte ManifestRegion = 0"
| "region_byte PayloadRegion = 1"

definition unit_fingerprint :: "SpeakerAssetsRegion \<Rightarrow> u16 \<Rightarrow> bytes \<Rightarrow> bytes" where
  "unit_fingerprint unit_region unit_index bs =
     (if bs = [] then replicate 32 0
      else hash_pieces sha_reset [[0x45, 0x49, 0x41, 0x2D, 0x55, 0x4E, 0x49, 0x54],
        put_all (replicate 9 0) [(0, [region_byte unit_region]), (1, write_le16 unit_index), (3, write_le32 (of_nat (length bs)))],
        bs])"

section \<open>Replies\<close>

definition status_reply :: "SpeakerAssetsFrame \<Rightarrow> SpeakerAssetsStatus \<Rightarrow> u32 \<Rightarrow> SpeakerAssetsFrame" where
  "status_reply request status response_cookie =
     empty_frame\<lparr>fr_opcode := fr_opcode request,
       fr_flags := (if status \<noteq> WsOk then kSpeakerAssetsFlagResponse OR kSpeakerAssetsFlagError else kSpeakerAssetsFlagResponse),
       fr_request_id := fr_request_id request, fr_session_cookie := response_cookie,
       fr_object_offset := fr_object_offset request, fr_body_length := 1,
       fr_body := put_all (fr_body empty_frame) [(0, [status_byte status])]\<rparr>"

text \<open>A reply of status \<open>Ok\<close> whose body and object offset say more.\<close>

definition body_reply :: "SpeakerAssetsFrame \<Rightarrow> u32 \<Rightarrow> u32 \<Rightarrow> (nat \<times> bytes) list \<Rightarrow> u16 \<Rightarrow> SpeakerAssetsFrame" where
  "body_reply request response_cookie object_offset parts body_length =
     (let reply = status_reply request WsOk response_cookie
      in reply\<lparr>fr_object_offset := object_offset, fr_body := put_all (fr_body reply) parts, fr_body_length := body_length\<rparr>)"

definition fragment_reply :: "SpeakerAssetsFrame \<Rightarrow> u32 \<Rightarrow> u32 \<Rightarrow> u16 \<Rightarrow> bytes \<Rightarrow> SpeakerAssetsFrame" where
  "fragment_reply request response_cookie missing bitmap_byte_offset bitmap =
     body_reply request response_cookie missing
       [(1, write_le16 bitmap_byte_offset), (3, [of_nat (length bitmap)]), (4, bitmap)] (of_nat (4 + length bitmap))"

definition capabilities_reply :: "SpeakerAssetsFrame \<Rightarrow> SpeakerAssetsFrame" where
  "capabilities_reply request =
     body_reply request 0 (fr_object_offset request)
       [(1, [kSpeakerAssetsProtocolVersion, kSpeakerAssetsCapabilities, of_nat kSpeakerAssetsUsbFrameBodyBytes,
             of_nat kSpeakerAssetsWifiFrameBodyBytes]),
        (5, write_le16 (of_nat kSpeakerAssetsPlanWireBytes)), (7, write_le16 (of_nat kSoundPayloadBlockSize)),
        (9, [of_nat kSpeakerAssetsProgressBitmapBytes, of_nat kSpeakerAssetsReplayEntries])] 11"

definition current_active_reply :: "SpeakerAssetsFrame \<Rightarrow> SoundBankSnapshot \<Rightarrow> SpeakerAssetsFrame" where
  "current_active_reply request active =
     (let generation = (if sb_valid active then sb_generation active else 0)
      in body_reply request 0 (ucast generation)
        [(1, [if sb_valid active then bank_byte (sb_bank active) else 0xFF]), (2, write_le32 (ucast (drop_bit 32 generation))),
         (6, if sb_valid active then sb_bundle_sha256 active else replicate 32 0)] 38)"

definition identity_reply :: "SpeakerAssetsFrame \<Rightarrow> SoundUpdateProgress \<Rightarrow> u32 \<Rightarrow> SpeakerAssetsFrame" where
  "identity_reply request progress response_cookie =
     body_reply request response_cookie 0
       [(1, [bank_byte (ui_target_bank (up_identity progress))]), (2, write_le16 (of_nat (up_payload_block_count progress))),
        (4, write_le64 (ui_generation (up_identity progress))), (12, write_le32 (of_nat (up_manifest_bytes progress))),
        (16, write_le32 (of_nat (up_payload_bytes progress))), (20, ui_transaction_id (up_identity progress))] 36"

definition progress_reply :: "SpeakerAssetsFrame \<Rightarrow> SoundUpdateProgress \<Rightarrow> u32 \<Rightarrow> SpeakerAssetsFrame" where
  "progress_reply request progress response_cookie =
     body_reply request response_cookie 0
       [(1, [if up_manifest_complete progress then kProgressManifestComplete else 0,
             bank_byte (ui_target_bank (up_identity progress)), of_nat kSpeakerAssetsProgressBitmapBytes]),
        (4, write_le64 (ui_generation (up_identity progress))), (12, write_le32 (of_nat (up_manifest_bytes progress))),
        (16, write_le32 (of_nat (up_payload_bytes progress))), (20, write_le16 (of_nat (up_payload_block_count progress))),
        (22, up_payload_complete_bitmap progress)] 38"

definition outcome_reply ::
  "SpeakerAssetsFrame \<Rightarrow> SpeakerAssetsTransactionOutcome \<Rightarrow> SoundUpdateIdentity \<Rightarrow> nat \<Rightarrow> nat \<Rightarrow> SpeakerAssetsFrame" where
  "outcome_reply request transaction_outcome identity manifest_bytes payload_bytes =
     body_reply request 0 0
       [(1, [outcome_byte transaction_outcome,
             if transaction_outcome = ToUnknown then 0xFF else bank_byte (ui_target_bank identity), 0]),
        (4, write_le64 (ui_generation identity)), (12, ui_transaction_id identity),
        (28, write_le32 (of_nat manifest_bytes)), (32, write_le32 (of_nat payload_bytes))] 36"

section \<open>Bookkeeping\<close>

definition emit_status :: "SpeakerAssetsFrame \<Rightarrow> SpeakerAssetsStatus \<Rightarrow> u32 \<Rightarrow> SpeakerAssetsEmission" where
  "emit_status request status response_cookie = EmitReply (status_reply request status response_cookie)"

definition number_after :: "u32 \<Rightarrow> u32" where
  "number_after n = (if n + 1 = 0 then 1 else n + 1)"

text \<open>A number that is not zero, and the counter after it was taken.\<close>

definition take_number :: "u32 \<Rightarrow> u32 \<times> u32" where
  "take_number n = (if n = 0 then (number_after n, number_after (number_after n)) else (n, number_after n))"

definition next_cookie :: "SpeakerAssetsSession \<Rightarrow> u32 \<times> SpeakerAssetsSession" where
  "next_cookie s = (let (cookie, after) = take_number (ss_next_cookie s) in (cookie, s\<lparr>ss_next_cookie := after\<rparr>))"

definition next_action_token :: "SpeakerAssetsSession \<Rightarrow> u32 \<times> SpeakerAssetsSession" where
  "next_action_token s =
     (let (token, after) = take_number (ss_next_action_token s) in (token, s\<lparr>ss_next_action_token := after\<rparr>))"

definition begin_pending_action ::
  "SpeakerAssetsSession \<Rightarrow> SpeakerAssetsActionKind \<Rightarrow> SpeakerAssetsRouteToken \<Rightarrow> SpeakerAssetsFrame \<Rightarrow> SpeakerAssetsRegion \<Rightarrow> u16 \<Rightarrow>
   bytes \<Rightarrow> SpeakerAssetsActionView \<times> SpeakerAssetsSession" where
  "begin_pending_action s kind route request unit_region unit_index fingerprint =
     (let (token, s) = next_action_token s in
      (\<lparr>av_token = token, av_kind = kind, av_route = route, av_request_id = fr_request_id request,
        av_session_cookie = fr_session_cookie request, av_plan = None, av_expected_identity = empty_identity,
        av_query_mode = CurrentProgress, av_bytes = None, av_length = 0, av_block_index = 0\<rparr>,
       s\<lparr>ss_pending := \<lparr>pn_active = True, pn_orphaned = False, pn_kind = kind, pn_route = route, pn_token = token,
           pn_request_id = fr_request_id request, pn_request_cookie = fr_session_cookie request,
           pn_request_offset = fr_object_offset request, pn_opcode = fr_opcode request, pn_region = unit_region,
           pn_unit_index = unit_index, pn_fingerprint = fingerprint, pn_expected_identity = empty_identity\<rparr>,
         ss_phase := PhActionPending\<rparr>))"

definition expect_identity ::
  "SoundUpdateIdentity \<Rightarrow> SpeakerAssetsActionView \<times> SpeakerAssetsSession \<Rightarrow> SpeakerAssetsActionView \<times> SpeakerAssetsSession" where
  "expect_identity identity = (\<lambda>(action, s).
     (action\<lparr>av_expected_identity := identity\<rparr>, s\<lparr>ss_pending := (ss_pending s)\<lparr>pn_expected_identity := identity\<rparr>\<rparr>))"

definition emit_action :: "SpeakerAssetsActionView \<times> SpeakerAssetsSession \<Rightarrow> SpeakerAssetsEmission \<times> SpeakerAssetsSession" where
  "emit_action = (\<lambda>(action, s). (EmitAction action, s))"

definition clear_pending_action :: "SpeakerAssetsSession \<Rightarrow> SpeakerAssetsSession" where
  "clear_pending_action s = s\<lparr>ss_pending := no_pending\<rparr>"

definition note_partial_activity :: "SpeakerAssetsSession \<Rightarrow> SpeakerAssetsSession" where
  "note_partial_activity s = s\<lparr>ss_partial_activity_counter := number_after (ss_partial_activity_counter s)\<rparr>"

definition clear_partial_assembly :: "SpeakerAssetsSession \<Rightarrow> SpeakerAssetsSession" where
  "clear_partial_assembly s = s\<lparr>ss_plan_assembler := plan_reset (ss_plan_assembler s),
     ss_block_assembler := block_reset (ss_block_assembler s), ss_begin_saw_first := False, ss_begin_saw_last := False,
     ss_begin_replay_from_ready := False, ss_plan_action_kind := ActBegin, ss_unit_request_id := 0, ss_unit_base_offset := 0,
     ss_unit_saw_first := False, ss_unit_saw_last := False\<rparr>"

definition clear_binding :: "SpeakerAssetsSession \<Rightarrow> SpeakerAssetsSession" where
  "clear_binding s = s\<lparr>ss_route := default_route, ss_route_bound := False, ss_session_cookie := 0, ss_progress := empty_progress,
     ss_progress_valid := False\<rparr>"

definition restore_after_begin_assembly :: "SpeakerAssetsSession \<Rightarrow> SpeakerAssetsSession" where
  "restore_after_begin_assembly s = s\<lparr>ss_plan_assembler := plan_reset (ss_plan_assembler s), ss_begin_saw_first := False,
     ss_begin_saw_last := False, ss_begin_replay_from_ready := False, ss_plan_action_kind := ActBegin,
     ss_phase := (if ss_begin_replay_from_ready s \<and> ss_route_bound s then PhReady else PhIdle)\<rparr>"

text \<open>Ending an action leaves the session idle, without binding.\<close>

definition end_session :: "SpeakerAssetsSession \<Rightarrow> SpeakerAssetsSession" where
  "end_session s = (clear_binding (clear_partial_assembly s))\<lparr>ss_phase := PhIdle\<rparr>"

definition entry_matches :: "ReplayEntry \<Rightarrow> SpeakerAssetsRouteToken \<Rightarrow> u32 \<Rightarrow> u32 \<Rightarrow> bool" where
  "entry_matches entry route request_cookie request_id \<longleftrightarrow>
     \<not> (\<not> re_valid entry \<or> \<not> speaker_assets_route_equal (re_route entry) route \<or> re_request_cookie entry \<noteq> request_cookie \<or>
        re_request_id entry \<noteq> request_id)"

definition lookup_replay ::
  "SpeakerAssetsSession \<Rightarrow> SpeakerAssetsRouteToken \<Rightarrow> u32 \<Rightarrow> u32 \<Rightarrow> u8 \<Rightarrow> SpeakerAssetsRegion \<Rightarrow> u16 \<Rightarrow> bytes \<Rightarrow> ReplayLookup" where
  "lookup_replay s route request_cookie request_id opcode unit_region unit_index fingerprint =
     (let same = filter (\<lambda>entry. entry_matches entry route request_cookie request_id) (ss_replay s)
      in case find (\<lambda>entry. re_opcode entry = opcode \<and> re_region entry = unit_region \<and> re_unit_index entry = unit_index \<and>
             re_fingerprint entry = fingerprint) same of
           Some entry \<Rightarrow> ReplayExact (re_reply entry)
         | None \<Rightarrow> if same \<noteq> [] then ReplayConflict else ReplayMiss)"

definition clear_replay_for_route :: "SpeakerAssetsRouteToken \<Rightarrow> SpeakerAssetsSession \<Rightarrow> SpeakerAssetsSession" where
  "clear_replay_for_route exact_route s = s\<lparr>ss_replay :=
     map (\<lambda>entry. if re_valid entry \<and> speaker_assets_route_equal (re_route entry) exact_route then empty_replay else entry) (ss_replay s)\<rparr>"

definition remember_replay :: "PendingAction \<Rightarrow> SpeakerAssetsFrame \<Rightarrow> SpeakerAssetsSession \<Rightarrow> SpeakerAssetsSession" where
  "remember_replay pending reply s = s\<lparr>ss_replay := (ss_replay s)[ss_next_replay_slot s :=
       \<lparr>re_valid = True, re_route = pn_route pending, re_request_cookie = pn_request_cookie pending,
        re_request_id = pn_request_id pending, re_opcode = pn_opcode pending, re_region = pn_region pending,
        re_unit_index = pn_unit_index pending, re_fingerprint = pn_fingerprint pending, re_reply = reply\<rparr>],
     ss_next_replay_slot := (ss_next_replay_slot s + 1) mod length (ss_replay s)\<rparr>"

section \<open>Requests of one frame\<close>

definition single_frame_request :: "SpeakerAssetsFrame \<Rightarrow> nat \<Rightarrow> bool" where
  "single_frame_request frame body_length \<longleftrightarrow>
     \<not> (fr_flags frame \<noteq> kSingleFrameRequestFlags \<or> fr_object_offset frame \<noteq> 0 \<or> unat (fr_body_length frame) \<noteq> body_length)"

definition frame_data :: "SpeakerAssetsFrame \<Rightarrow> bytes" where
  "frame_data frame = take (unat (fr_body_length frame)) (fr_body frame)"

text \<open>What the requests of one frame have in common: a request seen before is answered as before.\<close>

definition unless_replayed ::
  "SpeakerAssetsSession \<Rightarrow> SpeakerAssetsRouteToken \<Rightarrow> SpeakerAssetsFrame \<Rightarrow> u32 \<Rightarrow>
   (bytes \<Rightarrow> SpeakerAssetsEmission \<times> SpeakerAssetsSession) \<Rightarrow> SpeakerAssetsEmission \<times> SpeakerAssetsSession" where
  "unless_replayed s route frame request_cookie continue =
     (let fingerprint = frame_fingerprint frame
      in case lookup_replay s route request_cookie (fr_request_id frame) (fr_opcode frame) ManifestRegion 0 fingerprint of
           ReplayExact reply \<Rightarrow> (EmitReply reply, s)
         | ReplayConflict \<Rightarrow> (emit_status frame WsIntegrityError request_cookie, s)
         | ReplayMiss \<Rightarrow> continue fingerprint)"

definition consume_capabilities :: "SpeakerAssetsSession \<Rightarrow> SpeakerAssetsFrame \<Rightarrow> SpeakerAssetsEmission \<times> SpeakerAssetsSession" where
  "consume_capabilities s frame =
     (if \<not> single_frame_request frame 0 \<or> fr_session_cookie frame \<noteq> 0 then (emit_status frame WsBadRequest 0, s)
      else (EmitReply (capabilities_reply frame), s))"

definition consume_current_active ::
  "SpeakerAssetsSession \<Rightarrow> SpeakerAssetsRouteToken \<Rightarrow> SpeakerAssetsFrame \<Rightarrow> SpeakerAssetsEmission \<times> SpeakerAssetsSession" where
  "consume_current_active s route frame =
     (if \<not> single_frame_request frame 0 \<or> fr_session_cookie frame \<noteq> 0 then (emit_status frame WsBadRequest 0, s)
      else unless_replayed s route frame 0 (\<lambda>fingerprint.
        if ss_phase s \<noteq> PhIdle \<or> ss_route_bound s \<or> pa_bound (ss_plan_assembler s) then (emit_status frame WsBusy 0, s)
        else emit_action (begin_pending_action s ActQueryCurrentActive route frame ManifestRegion 0 fingerprint)))"

definition consume_resume ::
  "SpeakerAssetsSession \<Rightarrow> SpeakerAssetsRouteToken \<Rightarrow> SpeakerAssetsFrame \<Rightarrow> SpeakerAssetsEmission \<times> SpeakerAssetsSession" where
  "consume_resume s route frame =
     (if \<not> single_frame_request frame kSoundTransactionIdBytes \<or> fr_session_cookie frame \<noteq> 0
      then (emit_status frame WsBadRequest 0, s)
      else
        let expected = empty_identity\<lparr>ui_transaction_id := take kSoundTransactionIdBytes (fr_body frame)\<rparr>
        in if \<not> digest_is_valid (ui_transaction_id expected) then (emit_status frame WsBadRequest 0, s)
        else unless_replayed s route frame 0 (\<lambda>fingerprint.
          if ss_phase s \<noteq> PhIdle then (emit_status frame WsBusy 0, s)
          else
            let (action, s1) = expect_identity expected
                  (begin_pending_action s ActResumeQuery route frame ManifestRegion 0 fingerprint)
            in emit_action (action\<lparr>av_query_mode := ResumeOrRebind\<rparr>, s1)))"

text \<open>Of the route and with the cookie that the session is bound to.\<close>

definition from_owner :: "SpeakerAssetsSession \<Rightarrow> SpeakerAssetsRouteToken \<Rightarrow> SpeakerAssetsFrame \<Rightarrow> bool" where
  "from_owner s route frame \<longleftrightarrow> ss_route_bound s \<and> speaker_assets_route_equal (ss_route s) route \<and>
     fr_session_cookie frame = ss_session_cookie s"

text \<open>The requests about the whole update: its progress, its commit, its end.\<close>

definition consume_owner_request ::
  "SpeakerAssetsSession \<Rightarrow> SpeakerAssetsRouteToken \<Rightarrow> SpeakerAssetsFrame \<Rightarrow> SpeakerAssetsActionKind \<Rightarrow>
   SpeakerAssetsEmission \<times> SpeakerAssetsSession" where
  "consume_owner_request s route frame kind =
     (if \<not> single_frame_request frame 0 then (emit_status frame WsBadRequest (fr_session_cookie frame), s)
      else unless_replayed s route frame (fr_session_cookie frame) (\<lambda>fingerprint.
        if ss_phase s \<noteq> PhReady \<or> \<not> from_owner s route frame
        then (emit_status frame WsTransactionMismatch (fr_session_cookie frame), s)
        else emit_action (expect_identity (up_identity (ss_progress s))
               (begin_pending_action s kind route frame ManifestRegion 0 fingerprint))))"

definition consume_query ::
  "SpeakerAssetsSession \<Rightarrow> SpeakerAssetsRouteToken \<Rightarrow> SpeakerAssetsFrame \<Rightarrow> SpeakerAssetsEmission \<times> SpeakerAssetsSession" where
  "consume_query s route frame = consume_owner_request s route frame ActResumeQuery"

definition consume_terminal_action ::
  "SpeakerAssetsSession \<Rightarrow> SpeakerAssetsRouteToken \<Rightarrow> SpeakerAssetsFrame \<Rightarrow> SpeakerAssetsActionKind \<Rightarrow>
   SpeakerAssetsEmission \<times> SpeakerAssetsSession" where
  "consume_terminal_action s route frame kind = consume_owner_request s route frame kind"

section \<open>The fragments of a plan\<close>

definition has_flag :: "SpeakerAssetsFrame \<Rightarrow> u8 \<Rightarrow> bool" where
  "has_flag frame flag \<longleftrightarrow> fr_flags frame AND flag \<noteq> 0"

definition fragment_end :: "SpeakerAssetsFrame \<Rightarrow> nat" where
  "fragment_end frame = unat (fr_object_offset frame) + unat (fr_body_length frame)"

definition plan_frame_invalid :: "SpeakerAssetsFrame \<Rightarrow> bool" where
  "plan_frame_invalid frame \<longleftrightarrow>
     fr_flags frame AND NOT kSingleFrameRequestFlags \<noteq> 0 \<or> \<not> has_flag frame kSpeakerAssetsFlagAckRequested \<or>
     fr_session_cookie frame \<noteq> 0 \<or> fr_body_length frame = 0 \<or> unat (fr_object_offset frame) \<ge> kSpeakerAssetsPlanWireBytes \<or>
     fragment_end frame > kSpeakerAssetsPlanWireBytes \<or>
     \<not> (has_flag frame kSpeakerAssetsFlagFirstFragment = (fr_object_offset frame = 0) \<and>
        has_flag frame kSpeakerAssetsFlagLastFragment = (fragment_end frame = kSpeakerAssetsPlanWireBytes))"

text \<open>The phases in which the first fragment of a plan opens its assembly, and the later ones continue it.\<close>

definition open_plan_assembly ::
  "SpeakerAssetsSession \<Rightarrow> SpeakerAssetsRouteToken \<Rightarrow> SpeakerAssetsFrame \<Rightarrow> SpeakerAssetsActionKind \<Rightarrow>
   SpeakerAssetsStatus \<times> SpeakerAssetsSession + SpeakerAssetsSession" where
  "open_plan_assembly s route frame action_kind =
     (if ss_phase s = PhIdle then
        if \<not> has_flag frame kSpeakerAssetsFlagFirstFragment then Inl (WsBadRequest, s)
        else case plan_begin (ss_plan_assembler s) route (fr_request_id frame) of
          Inl _ \<Rightarrow> Inl (WsBusy, s)
        | Inr a \<Rightarrow> Inr (s\<lparr>ss_plan_assembler := a, ss_phase := PhBeginAssembly, ss_begin_replay_from_ready := False,
                      ss_plan_action_kind := action_kind\<rparr>)
      else if ss_phase s = PhReady then
        if action_kind \<noteq> ActBegin then Inl (WsBusy, s)
        else if \<not> ss_route_bound s \<or> \<not> speaker_assets_route_equal (ss_route s) route \<or>
                \<not> has_flag frame kSpeakerAssetsFlagFirstFragment then Inl (WsBusy, s)
        else
          let reset = s\<lparr>ss_plan_assembler := plan_reset (ss_plan_assembler s)\<rparr>
          in case plan_begin (ss_plan_assembler reset) route (fr_request_id frame) of
               Inl _ \<Rightarrow> Inl (WsBusy, reset)
             | Inr a \<Rightarrow> Inr (reset\<lparr>ss_plan_assembler := a, ss_phase := PhBeginAssembly, ss_begin_replay_from_ready := True,
                           ss_plan_action_kind := action_kind\<rparr>)
      else if ss_phase s \<noteq> PhBeginAssembly then Inl (WsBusy, s)
      else if ss_plan_action_kind s \<noteq> action_kind then Inl (WsBusy, s)
      else Inr s)"

definition fragment_status :: "SpeakerAssetsProtocolResult \<Rightarrow> SpeakerAssetsStatus" where
  "fragment_status accept = (if accept = PrConflict then WsIntegrityError else WsBadRequest)"

definition note_plan_progress ::
  "SpeakerAssetsSession \<Rightarrow> SpeakerAssetsPlanAssembler \<Rightarrow> SpeakerAssetsFrame \<Rightarrow> SpeakerAssetsSession" where
  "note_plan_progress s accepted frame =
     (let has_first = has_flag frame kSpeakerAssetsFlagFirstFragment; has_last = has_flag frame kSpeakerAssetsFlagLastFragment;
          made_progress = (fb_received_bytes accepted > fb_received_bytes (ss_plan_assembler s) \<or>
            has_first \<and> \<not> ss_begin_saw_first s \<or> has_last \<and> \<not> ss_begin_saw_last s);
          s1 = s\<lparr>ss_plan_assembler := accepted\<rparr>;
          s2 = (if made_progress then note_partial_activity s1 else s1)
      in s2\<lparr>ss_begin_saw_first := ss_begin_saw_first s \<or> has_first, ss_begin_saw_last := ss_begin_saw_last s \<or> has_last\<rparr>)"

text \<open>The bytes of the bitmap that a reply to a fragment carries.\<close>

definition ack_bitmap_bytes :: "nat \<Rightarrow> nat \<Rightarrow> nat" where
  "ack_bitmap_bytes bitmap_offset total_bitmap_bytes =
     min kFragmentAckBitmapMaxBytes (if bitmap_offset < total_bitmap_bytes then total_bitmap_bytes - bitmap_offset else 0)"

definition plan_fragment_reply :: "SpeakerAssetsSession \<Rightarrow> SpeakerAssetsFrame \<Rightarrow> SpeakerAssetsEmission" where
  "plan_fragment_reply s frame =
     (let missing = plan_first_missing_offset (ss_plan_assembler s); bitmap_offset = missing div 8;
          bitmap_bytes = ack_bitmap_bytes bitmap_offset (kSpeakerAssetsPlanWireBytes div 8)
      in case plan_copy_received_bitmap (ss_plan_assembler s) bitmap_offset bitmap_bytes of
           Inl _ \<Rightarrow> emit_status frame WsInternalError 0
         | Inr bitmap \<Rightarrow> EmitReply (fragment_reply frame 0 (of_nat missing) (of_nat bitmap_offset) bitmap))"

definition finish_plan_assembly ::
  "SpeakerAssetsSession \<Rightarrow> SpeakerAssetsRouteToken \<Rightarrow> SpeakerAssetsFrame \<Rightarrow> SpeakerAssetsActionKind \<Rightarrow>
   SpeakerAssetsEmission \<times> SpeakerAssetsSession" where
  "finish_plan_assembly s route frame action_kind =
     (case plan_decode (ss_plan_assembler s) of
        Inl _ \<Rightarrow> (emit_status frame WsIntegrityError 0, restore_after_begin_assembly s)
      | Inr plan \<Rightarrow>
          let s1 = s\<lparr>ss_decoded_plan := plan\<rparr>; fingerprint = plan_fingerprint plan
          in case lookup_replay s1 route 0 (fr_request_id frame) (fr_opcode frame) ManifestRegion 0 fingerprint of
               ReplayExact reply \<Rightarrow> (EmitReply reply, restore_after_begin_assembly s1)
             | ReplayConflict \<Rightarrow> (emit_status frame WsIntegrityError 0, restore_after_begin_assembly s1)
             | ReplayMiss \<Rightarrow>
                 if ss_begin_replay_from_ready s1
                 then (emit_status frame WsIntegrityError 0, restore_after_begin_assembly s1)
                 else
                   let (action, s2) = begin_pending_action s1 action_kind route frame ManifestRegion 0 fingerprint
                   in emit_action (action\<lparr>av_plan := Some plan\<rparr>,
                        s2\<lparr>ss_plan_assembler := plan_reset (ss_plan_assembler s2), ss_begin_saw_first := False,
                           ss_begin_saw_last := False, ss_plan_action_kind := ActBegin\<rparr>))"

definition consume_plan_action ::
  "SpeakerAssetsSession \<Rightarrow> SpeakerAssetsRouteToken \<Rightarrow> SpeakerAssetsFrame \<Rightarrow> SpeakerAssetsActionKind \<Rightarrow>
   SpeakerAssetsEmission \<times> SpeakerAssetsSession" where
  "consume_plan_action s route frame action_kind =
     (if action_kind \<noteq> ActBegin \<and> action_kind \<noteq> ActDiscardInvalidStaging then (emit_status frame WsBadRequest 0, s)
      else if plan_frame_invalid frame then (emit_status frame WsBadRequest 0, s)
      else case open_plan_assembly s route frame action_kind of
        Inl (status, s1) \<Rightarrow> (emit_status frame status 0, s1)
      | Inr s1 \<Rightarrow>
          (case plan_accept_fragment (ss_plan_assembler s1) route (fr_request_id frame) (ucast (fr_object_offset frame)) (frame_data frame) of
             Inl accept \<Rightarrow> (emit_status frame (fragment_status accept) 0, s1)
           | Inr accepted \<Rightarrow>
               let s2 = note_plan_progress s1 accepted frame
               in if \<not> plan_complete (ss_plan_assembler s2) \<or> \<not> ss_begin_saw_first s2 \<or> \<not> ss_begin_saw_last s2
                  then (plan_fragment_reply s2 frame, s2)
                  else finish_plan_assembly s2 route frame action_kind))"

section \<open>The fragments of a unit of data\<close>

definition kDataFlags :: u8 where "kDataFlags = kSingleFrameRequestFlags OR kSpeakerAssetsFlagPayloadRegion"

definition data_frame_refused :: "SpeakerAssetsSession \<Rightarrow> SpeakerAssetsRouteToken \<Rightarrow> SpeakerAssetsFrame \<Rightarrow> bool" where
  "data_frame_refused s route frame \<longleftrightarrow>
     fr_flags frame AND NOT kDataFlags \<noteq> 0 \<or> \<not> has_flag frame kSpeakerAssetsFlagAckRequested \<or> fr_body_length frame = 0 \<or>
     \<not> from_owner s route frame \<or> \<not> ss_progress_valid s \<or> ss_phase s \<noteq> PhReady \<and> ss_phase s \<noteq> PhUnitAssembly"

record DataUnit =
  du_region :: SpeakerAssetsRegion
  du_index :: u16
  du_base :: u32
  du_expected_bytes :: u16
  du_offset :: u16

text \<open>The unit that a fragment belongs to, or nothing beyond the end of the region.\<close>

definition data_unit :: "SoundUpdateProgress \<Rightarrow> SpeakerAssetsFrame \<Rightarrow> DataUnit option" where
  "data_unit progress frame =
     (let offset = unat (fr_object_offset frame) in
      if \<not> has_flag frame kSpeakerAssetsFlagPayloadRegion then
        if offset \<ge> up_manifest_bytes progress then None
        else Some \<lparr>du_region = ManifestRegion, du_index = 0, du_base = 0, du_expected_bytes = of_nat (up_manifest_bytes progress),
               du_offset = ucast (fr_object_offset frame)\<rparr>
      else if offset \<ge> up_payload_bytes progress then None
      else
        let index = offset div kSoundPayloadBlockSize; base = index * kSoundPayloadBlockSize
        in Some \<lparr>du_region = PayloadRegion, du_index = of_nat index, du_base = of_nat base,
              du_expected_bytes = of_nat (payload_block_length (up_payload_bytes progress) index), du_offset = of_nat (offset - base)\<rparr>)"

definition unit_bounds_invalid :: "DataUnit \<Rightarrow> SpeakerAssetsFrame \<Rightarrow> bool" where
  "unit_bounds_invalid u frame \<longleftrightarrow>
     (let unit_end = unat (du_offset u) + unat (fr_body_length frame) in
      du_expected_bytes u = 0 \<or> unit_end > unat (du_expected_bytes u) \<or>
      has_flag frame kSpeakerAssetsFlagFirstFragment \<noteq> (du_offset u = 0) \<or>
      has_flag frame kSpeakerAssetsFlagLastFragment \<noteq> (unit_end = unat (du_expected_bytes u)))"

definition open_unit_assembly ::
  "SpeakerAssetsSession \<Rightarrow> SpeakerAssetsFrame \<Rightarrow> DataUnit \<Rightarrow> SpeakerAssetsStatus + SpeakerAssetsSession" where
  "open_unit_assembly s frame u =
     (if ss_phase s = PhReady then
        if \<not> has_flag frame kSpeakerAssetsFlagFirstFragment then Inl WsBadRequest
        else case block_begin (ss_block_assembler s) (du_region u) (du_index u) (du_expected_bytes u) of
          Inl _ \<Rightarrow> Inl WsBadRequest
        | Inr b \<Rightarrow> Inr (s\<lparr>ss_block_assembler := b, ss_phase := PhUnitAssembly, ss_unit_request_id := fr_request_id frame,
                      ss_unit_base_offset := du_base u, ss_unit_saw_first := False, ss_unit_saw_last := False\<rparr>)
      else if ss_unit_request_id s \<noteq> fr_request_id frame \<or> ba_region (ss_block_assembler s) \<noteq> du_region u \<or>
              ba_unit_index (ss_block_assembler s) \<noteq> du_index u then Inl WsBusy
      else Inr s)"

definition note_unit_progress ::
  "SpeakerAssetsSession \<Rightarrow> SpeakerAssetsBlockAssembler \<Rightarrow> SpeakerAssetsFrame \<Rightarrow> SpeakerAssetsSession" where
  "note_unit_progress s accepted frame =
     (let has_first = has_flag frame kSpeakerAssetsFlagFirstFragment; has_last = has_flag frame kSpeakerAssetsFlagLastFragment;
          made_progress = (fb_received_bytes accepted > fb_received_bytes (ss_block_assembler s) \<or>
            has_first \<and> \<not> ss_unit_saw_first s \<or> has_last \<and> \<not> ss_unit_saw_last s);
          s1 = s\<lparr>ss_block_assembler := accepted\<rparr>;
          s2 = (if made_progress then note_partial_activity s1 else s1)
      in s2\<lparr>ss_unit_saw_first := ss_unit_saw_first s \<or> has_first, ss_unit_saw_last := ss_unit_saw_last s \<or> has_last\<rparr>)"

definition unit_fragment_reply :: "SpeakerAssetsSession \<Rightarrow> SpeakerAssetsFrame \<Rightarrow> SpeakerAssetsEmission" where
  "unit_fragment_reply s frame =
     (let b = ss_block_assembler s; missing = block_first_missing_offset b; bitmap_offset = missing div 8;
          bitmap_bytes = ack_bitmap_bytes bitmap_offset ((unat (ba_expected_bytes b) + 7) div 8)
      in case block_copy_received_bitmap b bitmap_offset bitmap_bytes of
           Inl _ \<Rightarrow> emit_status frame WsInternalError (ss_session_cookie s)
         | Inr bitmap \<Rightarrow> EmitReply (fragment_reply frame (ss_session_cookie s) (ss_unit_base_offset s + of_nat missing)
             (of_nat bitmap_offset) bitmap))"

text \<open>The bytes of the assembled unit.\<close>

definition unit_bytes :: "SpeakerAssetsSession \<Rightarrow> bytes" where
  "unit_bytes s = take (unat (ba_expected_bytes (ss_block_assembler s))) (fb_bytes (ss_block_assembler s))"

definition close_unit :: "SpeakerAssetsSession \<Rightarrow> SpeakerAssetsSession" where
  "close_unit s = s\<lparr>ss_block_assembler := block_reset (ss_block_assembler s), ss_phase := PhReady\<rparr>"

definition finish_unit_assembly ::
  "SpeakerAssetsSession \<Rightarrow> SpeakerAssetsRouteToken \<Rightarrow> SpeakerAssetsFrame \<Rightarrow> DataUnit \<Rightarrow> SpeakerAssetsEmission \<times> SpeakerAssetsSession" where
  "finish_unit_assembly s route frame u =
     (let fingerprint = unit_fingerprint (du_region u) (du_index u) (unit_bytes s)
      in case lookup_replay s route (ss_session_cookie s) (fr_request_id frame) (fr_opcode frame) (du_region u) (du_index u) fingerprint of
           ReplayExact reply \<Rightarrow> (EmitReply reply, close_unit s)
         | ReplayConflict \<Rightarrow> (emit_status frame WsIntegrityError (ss_session_cookie s), close_unit s)
         | ReplayMiss \<Rightarrow>
             let kind = (case du_region u of ManifestRegion \<Rightarrow> ActWriteManifest | PayloadRegion \<Rightarrow> ActWritePayloadBlock);
                 (action, s1) = expect_identity (up_identity (ss_progress s))
                   (begin_pending_action s kind route frame (du_region u) (du_index u) fingerprint)
             in emit_action (action\<lparr>av_bytes := Some (unit_bytes s1), av_length := ba_expected_bytes (ss_block_assembler s1),
                  av_block_index := du_index u\<rparr>, s1))"

definition consume_data ::
  "SpeakerAssetsSession \<Rightarrow> SpeakerAssetsRouteToken \<Rightarrow> SpeakerAssetsFrame \<Rightarrow> SpeakerAssetsEmission \<times> SpeakerAssetsSession" where
  "consume_data s route frame =
     (if data_frame_refused s route frame
      then (emit_status frame (if from_owner s route frame then WsBadRequest else WsTransactionMismatch) (fr_session_cookie frame), s)
      else case data_unit (ss_progress s) frame of
        None \<Rightarrow> (emit_status frame WsBadRequest (ss_session_cookie s), s)
      | Some u \<Rightarrow>
          if unit_bounds_invalid u frame then (emit_status frame WsBadRequest (ss_session_cookie s), s)
          else case open_unit_assembly s frame u of
            Inl status \<Rightarrow> (emit_status frame status (ss_session_cookie s), s)
          | Inr s1 \<Rightarrow>
              (case block_accept_fragment (ss_block_assembler s1) (du_region u) (du_index u) (du_offset u) (frame_data frame) of
                 Inl accept \<Rightarrow> (emit_status frame (fragment_status accept) (ss_session_cookie s), s1)
               | Inr accepted \<Rightarrow>
                   let s2 = note_unit_progress s1 accepted frame
                   in if \<not> block_complete (ss_block_assembler s2) \<or> \<not> ss_unit_saw_first s2 \<or> \<not> ss_unit_saw_last s2
                      then (unit_fragment_reply s2 frame, s2)
                      else finish_unit_assembly s2 route frame u))"

section \<open>Taking a frame\<close>

definition consume_opcode ::
  "SpeakerAssetsSession \<Rightarrow> SpeakerAssetsRouteToken \<Rightarrow> SpeakerAssetsFrame \<Rightarrow> SpeakerAssetsEmission \<times> SpeakerAssetsSession" where
  "consume_opcode s route frame =
     (case opcode_of (fr_opcode frame) of
        Some OpBegin \<Rightarrow> consume_plan_action s route frame ActBegin
      | Some OpResume \<Rightarrow> consume_resume s route frame
      | Some OpData \<Rightarrow> consume_data s route frame
      | Some OpQuery \<Rightarrow> consume_query s route frame
      | Some OpCommit \<Rightarrow> consume_terminal_action s route frame ActCommit
      | Some OpAbort \<Rightarrow> consume_terminal_action s route frame ActAbort
      | Some OpRecoverInvalidStaging \<Rightarrow> consume_plan_action s route frame ActDiscardInvalidStaging
      | Some OpCurrentActive \<Rightarrow> consume_current_active s route frame
      | _ \<Rightarrow> (emit_status frame WsBadRequest (fr_session_cookie frame), s))"

definition session_consume ::
  "SpeakerAssetsSession \<Rightarrow> SpeakerAssetsRouteToken \<Rightarrow> SpeakerAssetsFrame \<Rightarrow>
   (SpeakerAssetsSessionResult \<times> SpeakerAssetsEmission) \<times> SpeakerAssetsSession" where
  "session_consume s exact_route frame =
     (if \<not> route_is_valid exact_route \<or> fr_request_id frame = 0 \<or> unat (fr_body_length frame) > kSpeakerAssetsWifiFrameBodyBytes
      then ((SsInvalidArgument, EmitNone), s)
      else
        let (emission, s') =
          (if fr_flags frame AND NOT kSpeakerAssetsKnownFlags \<noteq> 0 \<or>
              fr_flags frame AND (kSpeakerAssetsFlagResponse OR kSpeakerAssetsFlagError) \<noteq> 0
           then (emit_status frame WsBadRequest (fr_session_cookie frame), s)
           else if opcode_of (fr_opcode frame) = Some OpCapabilities then consume_capabilities s frame
           else if ss_phase s = PhActionPending then (emit_status frame WsBusy (fr_session_cookie frame), s)
           else consume_opcode s exact_route frame)
        in ((SsOk, emission), s'))"

section \<open>Completing an action\<close>

definition status_from_store_result :: "SoundStoreResult \<Rightarrow> SpeakerAssetsStatus" where
  "status_from_store_result result =
     (case result of
        StInvalidArgument \<Rightarrow> WsBadRequest
      | StUnavailable \<Rightarrow> WsStorageUnavailable | StIoError \<Rightarrow> WsStorageUnavailable
      | StInvalidBank \<Rightarrow> WsIntegrityError
      | StInvalidStaging \<Rightarrow> WsRecoveryRequired
      | StInvalidManifest \<Rightarrow> WsIntegrityError | StCrcMismatch \<Rightarrow> WsIntegrityError | StHashMismatch \<Rightarrow> WsIntegrityError
      | StIncomplete \<Rightarrow> WsIncomplete
      | StBusy \<Rightarrow> WsBusy
      | StBankPinned \<Rightarrow> WsBankPinned
      | StStaleBase \<Rightarrow> WsStaleBase
      | StGenerationExhausted \<Rightarrow> WsGenerationExhausted
      | StTransactionMismatch \<Rightarrow> WsTransactionMismatch
      | StSplitBrain \<Rightarrow> WsSplitBrain
      | StFactoryBlank \<Rightarrow> WsStorageUnavailable)"

definition pending_request :: "PendingAction \<Rightarrow> SpeakerAssetsFrame" where
  "pending_request finished = empty_frame\<lparr>fr_opcode := pn_opcode finished, fr_request_id := pn_request_id finished,
     fr_session_cookie := pn_request_cookie finished, fr_object_offset := pn_request_offset finished\<rparr>"

definition is_write :: "SpeakerAssetsActionKind \<Rightarrow> bool" where
  "is_write kind \<longleftrightarrow> kind = ActWriteManifest \<or> kind = ActWritePayloadBlock"

text \<open>The state after the store refused an action.\<close>

definition after_failed_action :: "SpeakerAssetsSession \<Rightarrow> PendingAction \<Rightarrow> SpeakerAssetsSession" where
  "after_failed_action s finished =
     (let kind = pn_kind finished;
          s1 = (if kind \<in> set [ActBegin, ActDiscardInvalidStaging, ActQueryCurrentActive] \<or>
                  kind = ActResumeQuery \<and> pn_request_cookie finished = 0
                then (clear_binding s)\<lparr>ss_phase := PhIdle\<rparr> else s\<lparr>ss_phase := PhReady\<rparr>);
          s2 = (if is_write kind then s1\<lparr>ss_block_assembler := block_reset (ss_block_assembler s1)\<rparr> else s1)
      in clear_pending_action s2)"

definition resume_completion_valid :: "SpeakerAssetsSession \<Rightarrow> PendingAction \<Rightarrow> SpeakerAssetsActionCompletion \<Rightarrow> bool" where
  "resume_completion_valid s finished c \<longleftrightarrow>
     ac_outcome_valid c \<and> ac_identity_valid c \<and>
     ui_transaction_id (ac_identity c) = ui_transaction_id (pn_expected_identity finished) \<and>
     (if ac_outcome c = ToActive
      then ac_progress_valid c \<and> identity_equal (ac_identity c) (up_identity (ac_progress c)) \<and>
           (if pn_request_cookie finished = 0 then progress_is_well_formed (ac_progress c)
            else ss_progress_valid s \<and> progress_matches_session (ac_progress c) (ss_progress s) \<and>
                 progress_does_not_regress (ac_progress c) (ss_progress s))
      else pn_request_cookie finished = 0 \<and> \<not> ac_progress_valid c \<and>
           (if ac_outcome c = ToCommitted
            then ui_generation (ac_identity c) \<noteq> 0 \<and> ac_outcome_manifest_bytes c \<ge> 32 \<and>
                 ac_outcome_manifest_bytes c \<le> kSoundSectorSize \<and> ac_outcome_payload_bytes c \<le> kSoundPayloadMaxSize
            else ui_generation (ac_identity c) = 0 \<and> ac_outcome_manifest_bytes c = 0 \<and> ac_outcome_payload_bytes c = 0))"

definition write_completion_valid :: "SpeakerAssetsSession \<Rightarrow> PendingAction \<Rightarrow> SpeakerAssetsActionCompletion \<Rightarrow> bool" where
  "write_completion_valid s finished c \<longleftrightarrow>
     ac_progress_valid c \<and> ss_progress_valid s \<and> progress_matches_session (ac_progress c) (ss_progress s) \<and>
     progress_does_not_regress (ac_progress c) (ss_progress s) \<and>
     (pn_kind finished = ActWriteManifest \<longrightarrow> up_manifest_complete (ac_progress c)) \<and>
     (pn_kind finished = ActWritePayloadBlock \<longrightarrow> payload_block_is_complete (ac_progress c) (unat (pn_unit_index finished)))"

definition completion_contract_valid :: "SpeakerAssetsSession \<Rightarrow> PendingAction \<Rightarrow> SpeakerAssetsActionCompletion \<Rightarrow> bool" where
  "completion_contract_valid s finished c =
     (case pn_kind finished of
        ActBegin \<Rightarrow> ac_identity_valid c \<and> ac_progress_valid c \<and> identity_equal (ac_identity c) (up_identity (ac_progress c)) \<and>
          progress_matches_plan (ac_progress c) (ss_decoded_plan s)
      | ActQueryCurrentActive \<Rightarrow> ac_current_active_valid c \<and> active_snapshot_completion_is_well_formed (ac_current_active c) \<and>
          \<not> ac_identity_valid c \<and> \<not> ac_progress_valid c \<and> \<not> ac_outcome_valid c
      | ActResumeQuery \<Rightarrow> resume_completion_valid s finished c
      | ActWriteManifest \<Rightarrow> write_completion_valid s finished c
      | ActWritePayloadBlock \<Rightarrow> write_completion_valid s finished c
      | _ \<Rightarrow> True)"

definition bind_route :: "SpeakerAssetsSession \<Rightarrow> PendingAction \<Rightarrow> SpeakerAssetsSession" where
  "bind_route s finished =
     (let (cookie, s1) = next_cookie (s\<lparr>ss_route := pn_route finished, ss_route_bound := True\<rparr>)
      in s1\<lparr>ss_session_cookie := cookie, ss_phase := PhReady\<rparr>)"

definition take_progress :: "SoundUpdateProgress \<Rightarrow> SpeakerAssetsSession \<Rightarrow> SpeakerAssetsSession" where
  "take_progress progress s = s\<lparr>ss_progress := progress, ss_progress_valid := True\<rparr>"

text \<open>The reply to a completed action and the state before the action is forgotten.\<close>

definition finish_action ::
  "SpeakerAssetsSession \<Rightarrow> PendingAction \<Rightarrow> SpeakerAssetsActionCompletion \<Rightarrow> SpeakerAssetsFrame \<times> SpeakerAssetsSession" where
  "finish_action s finished c =
     (let request = pending_request finished;
          remembered = (\<lambda>reply s. (reply, remember_replay finished reply s));
          ended = (\<lambda>reply s. (reply, end_session (remember_replay finished reply s)))
      in case pn_kind finished of
           ActBegin \<Rightarrow>
             let s1 = bind_route (take_progress (ac_progress c) s) finished
             in remembered (identity_reply request (ac_progress c) (ss_session_cookie s1)) s1
         | ActDiscardInvalidStaging \<Rightarrow> ended (status_reply request WsOk 0) s
         | ActQueryCurrentActive \<Rightarrow> ended (current_active_reply request (ac_current_active c)) s
         | ActResumeQuery \<Rightarrow>
             if ac_outcome c \<noteq> ToActive
             then ended (outcome_reply request (ac_outcome c) (ac_identity c) (ac_outcome_manifest_bytes c) (ac_outcome_payload_bytes c)) s
             else if pn_request_cookie finished = 0
             then
               let s1 = bind_route (take_progress (ac_progress c) s) finished
               in remembered (identity_reply request (ac_progress c) (ss_session_cookie s1)) s1
             else remembered (progress_reply request (ac_progress c) (ss_session_cookie s))
                    ((take_progress (ac_progress c) s)\<lparr>ss_phase := PhReady\<rparr>)
         | ActCommit \<Rightarrow> ended (status_reply request WsOk (ss_session_cookie s)) s
         | ActAbort \<Rightarrow> ended (status_reply request WsOk (ss_session_cookie s)) s
         | _ \<Rightarrow>
             let (reply, s1) = remembered (progress_reply request (ac_progress c) (ss_session_cookie s))
                   ((take_progress (ac_progress c) s)\<lparr>ss_phase := PhReady\<rparr>)
             in (reply, s1\<lparr>ss_block_assembler := block_reset (ss_block_assembler s1)\<rparr>))"

definition session_complete ::
  "SpeakerAssetsSession \<Rightarrow> SpeakerAssetsActionCompletion \<Rightarrow> (SpeakerAssetsSessionResult \<times> SpeakerAssetsEmission) \<times> SpeakerAssetsSession" where
  "session_complete s c =
     (let finished = ss_pending s; request = pending_request finished in
      if \<not> pn_active finished then ((SsNoPendingAction, EmitNone), s)
      else if ac_token c \<noteq> pn_token finished \<or> ac_kind c \<noteq> pn_kind finished then ((SsStaleCompletion, EmitNone), s)
      else if pn_orphaned finished then ((SsOk, EmitNone), end_session (clear_pending_action s))
      else case ac_result c of
        Inl e \<Rightarrow> ((SsOk, emit_status request (status_from_store_result e) (pn_request_cookie finished)), after_failed_action s finished)
      | Inr _ \<Rightarrow>
          if \<not> completion_contract_valid s finished c
          then ((SsOk, emit_status request WsInternalError (pn_request_cookie finished)), end_session (clear_pending_action s))
          else
            let (reply, s') = finish_action s finished c
            in ((SsOk, EmitReply reply), clear_pending_action s'))"

section \<open>Routes that close and assemblies that expire\<close>

definition route_closed :: "SpeakerAssetsRouteToken \<Rightarrow> SpeakerAssetsSession \<Rightarrow> SpeakerAssetsSession" where
  "route_closed exact_route s0 =
     (let s = clear_replay_for_route exact_route s0;
          owns_binding = ss_route_bound s \<and> speaker_assets_route_equal (ss_route s) exact_route;
          owns_begin = pa_bound (ss_plan_assembler s) \<and> speaker_assets_route_equal (pa_owner (ss_plan_assembler s)) exact_route;
          owns_pending = pn_active (ss_pending s) \<and> speaker_assets_route_equal (pn_route (ss_pending s)) exact_route
      in if \<not> owns_binding \<and> \<not> owns_begin \<and> \<not> owns_pending then s
         else if owns_pending then
           let s1 = s\<lparr>ss_pending := (ss_pending s)\<lparr>pn_orphaned := True\<rparr>\<rparr>;
               s2 = (if \<not> is_write (pn_kind (ss_pending s1))
                     then s1\<lparr>ss_plan_assembler := plan_reset (ss_plan_assembler s1), ss_begin_saw_first := False,
                       ss_begin_saw_last := False\<rparr> else s1)
           in clear_binding s2
         else end_session s)"

definition all_routes_closed :: "SpeakerAssetsSession \<Rightarrow> SpeakerAssetsSession" where
  "all_routes_closed s0 =
     (let s = s0\<lparr>ss_replay := replicate kSpeakerAssetsReplayEntries empty_replay, ss_next_replay_slot := 0\<rparr>
      in if pn_active (ss_pending s) then
           let s1 = s\<lparr>ss_pending := (ss_pending s)\<lparr>pn_orphaned := True\<rparr>\<rparr>;
               s2 = (if \<not> is_write (pn_kind (ss_pending s1)) then clear_partial_assembly s1 else s1)
           in clear_binding s2
         else end_session s)"

definition expire_partial :: "SpeakerAssetsRouteToken \<Rightarrow> SpeakerAssetsSession \<Rightarrow> bool \<times> SpeakerAssetsSession" where
  "expire_partial exact_route s =
     (if ss_phase s = PhBeginAssembly \<and> pa_bound (ss_plan_assembler s) \<and>
         speaker_assets_route_equal (pa_owner (ss_plan_assembler s)) exact_route
      then (True, restore_after_begin_assembly s)
      else if ss_phase s = PhUnitAssembly \<and> ss_route_bound s \<and> speaker_assets_route_equal (ss_route s) exact_route
      then (True, s\<lparr>ss_block_assembler := block_reset (ss_block_assembler s), ss_unit_request_id := 0, ss_unit_base_offset := 0,
              ss_unit_saw_first := False, ss_unit_saw_last := False, ss_phase := PhReady\<rparr>)
      else (False, s))"

definition pending_action_token :: "SpeakerAssetsSession \<Rightarrow> u32" where
  "pending_action_token s = (if pn_active (ss_pending s) then pn_token (ss_pending s) else 0)"

definition session_progress :: "SpeakerAssetsSession \<Rightarrow> SoundUpdateProgress option" where
  "session_progress s = (if ss_progress_valid s then Some (ss_progress s) else None)"

definition replay_entry_count :: "SpeakerAssetsSession \<Rightarrow> nat" where
  "replay_entry_count s = length (filter re_valid (ss_replay s))"

section \<open>Runs\<close>

datatype SessionCall =
  SessionConsume SpeakerAssetsRouteToken SpeakerAssetsFrame | SessionComplete SpeakerAssetsActionCompletion |
  SessionRouteClosed SpeakerAssetsRouteToken | SessionAllRoutesClosed | SessionExpire SpeakerAssetsRouteToken

fun session_step :: "SpeakerAssetsSession \<Rightarrow> SessionCall \<Rightarrow> SpeakerAssetsSession \<times> SpeakerAssetsSessionResult \<times> SpeakerAssetsEmission" where
  "session_step s (SessionConsume route frame) = (let (out, s') = session_consume s route frame in (s', out))"
| "session_step s (SessionComplete c) = (let (out, s') = session_complete s c in (s', out))"
| "session_step s (SessionRouteClosed route) = (route_closed route s, SsOk, EmitNone)"
| "session_step s SessionAllRoutesClosed = (all_routes_closed s, SsOk, EmitNone)"
| "session_step s (SessionExpire route) = (snd (expire_partial route s), SsOk, EmitNone)"

end
