(* ===== verification/Sound_Session_Facts.thy ===== *)
theory Sound_Session_Facts
  imports Sound_Session Sound_Assembly
begin

text \<open>
  What the session hands to the store.  A ghost, computed from the calls and their outputs alone,
  keeps the action that is out, the grant that a completed begin or resume gave, and the frames
  that came in.  Over any calls at most one action is out; the actions that touch an open update
  come only from the holder of the grant, with its cookie and for its update; a plan and the bytes
  of a unit are made of bytes that the sender of the action sent for that very request; and they
  stay as they were handed out until the action is completed.
\<close>

unbundle bit_operations_syntax

section \<open>Machines whose log is checked\<close>

locale checked_machine =
  ghost_machine step init inv ghost start rel
  for step :: "'s \<Rightarrow> 'e \<Rightarrow> 's \<times> 'o" and init inv
    and ghost :: "'g \<Rightarrow> 'e \<times> 'o \<Rightarrow> 'g" and start rel +
  fixes check :: "'g \<Rightarrow> 'e \<times> 'o \<Rightarrow> bool"
  assumes check_step: "inv s \<Longrightarrow> rel s g \<Longrightarrow> step s e = (s', out) \<Longrightarrow> check g (e, out)"

fun checked_log :: "('g \<Rightarrow> 'a \<Rightarrow> bool) \<Rightarrow> ('g \<Rightarrow> 'a \<Rightarrow> 'g) \<Rightarrow> 'g \<Rightarrow> 'a list \<Rightarrow> bool" where
  "checked_log check ghost g [] \<longleftrightarrow> True"
| "checked_log check ghost g (entry # entries) \<longleftrightarrow> check g entry \<and> checked_log check ghost (ghost g entry) entries"

lemma checked_log_mono:
  "checked_log check ghost g entries \<Longrightarrow> (\<And>g entry. check g entry \<Longrightarrow> check' g entry) \<Longrightarrow> checked_log check' ghost g entries"
  by (induction entries arbitrary: g) auto

context checked_machine
begin

lemma checked_run: "inv s \<Longrightarrow> rel s g \<Longrightarrow> checked_log check ghost g (run_log step s es)"
proof (induction es arbitrary: s g)
  case Nil
  then show ?case by simp
next
  case (Cons e es)
  obtain s' out where st: "step s e = (s', out)" by (cases "step s e") auto
  from Cons.prems(1) st have "inv s'" using inv_step [of s e] by simp
  then show ?case using Cons.IH st rel_step [OF Cons.prems st] check_step [OF Cons.prems st] by simp
qed

lemma checked_reachable: "checked_log check ghost start (run_log step init es)"
  by (rule checked_run [OF inv_init rel_init])

end

section \<open>Bytes that were sent\<close>

type_synonym seen_frames = "(SpeakerAssetsRouteToken \<times> SpeakerAssetsFrame) list"

definition byte_sent :: "seen_frames \<Rightarrow> SpeakerAssetsRouteToken \<Rightarrow> (SpeakerAssetsFrame \<Rightarrow> bool) \<Rightarrow> nat \<Rightarrow> u8 \<Rightarrow> bool" where
  "byte_sent seen route request i b \<longleftrightarrow>
     list_ex (\<lambda>(r, f). r = route \<and> request f \<and> piece (unat (fr_object_offset f)) (frame_data f) i = Some b) seen"

fun kind_opcode :: "SpeakerAssetsActionKind \<Rightarrow> SpeakerAssetsOpcode" where
  "kind_opcode ActDiscardInvalidStaging = OpRecoverInvalidStaging"
| "kind_opcode kind = OpBegin"

text \<open>A frame of the request that sends a plan, and of the request that sends a unit.\<close>

definition plan_request :: "SpeakerAssetsOpcode \<Rightarrow> u32 \<Rightarrow> SpeakerAssetsFrame \<Rightarrow> bool" where
  "plan_request opcode request_id f \<longleftrightarrow>
     opcode_of (fr_opcode f) = Some opcode \<and> fr_session_cookie f = 0 \<and> fr_request_id f = request_id"

definition data_request :: "u32 \<Rightarrow> u32 \<Rightarrow> bool \<Rightarrow> SpeakerAssetsFrame \<Rightarrow> bool" where
  "data_request cookie request_id payload f \<longleftrightarrow> opcode_of (fr_opcode f) = Some OpData \<and> fr_session_cookie f = cookie \<and>
     fr_request_id f = request_id \<and> has_flag f kSpeakerAssetsFlagPayloadRegion = payload"

definition plan_was_sent :: "seen_frames \<Rightarrow> SpeakerAssetsRouteToken \<Rightarrow> SpeakerAssetsOpcode \<Rightarrow> u32 \<Rightarrow> SoundBundlePlan \<Rightarrow> bool" where
  "plan_was_sent seen route opcode request_id plan \<longleftrightarrow>
     (\<exists>wire. decode_sound_bundle_plan_wire wire = Inr plan \<and> length wire = kSpeakerAssetsPlanWireBytes \<and>
        (\<forall>i < length wire. byte_sent seen route (plan_request opcode request_id) i (wire ! i)))"

definition unit_was_sent :: "seen_frames \<Rightarrow> SpeakerAssetsRouteToken \<Rightarrow> u32 \<Rightarrow> u32 \<Rightarrow> bool \<Rightarrow> nat \<Rightarrow> bytes \<Rightarrow> bool" where
  "unit_was_sent seen route cookie request_id payload block_index bs \<longleftrightarrow> bs \<noteq> [] \<and>
     (\<forall>i < length bs. byte_sent seen route (data_request cookie request_id payload) (block_index * kSoundPayloadBlockSize + i) (bs ! i))"

lemma byte_sent_mono: "byte_sent seen route request i b \<Longrightarrow> set seen \<subseteq> set seen' \<Longrightarrow> byte_sent seen' route request i b"
  by (auto simp: byte_sent_def list_ex_iff)

lemma byte_sent_now:
  "(route, frame) \<in> set seen \<Longrightarrow> request frame \<Longrightarrow> piece (unat (fr_object_offset frame)) (frame_data frame) i = Some b \<Longrightarrow>
   byte_sent seen route request i b"
  by (auto simp: byte_sent_def list_ex_iff)

section \<open>The invariant\<close>

definition pending_ok :: "SpeakerAssetsSession \<Rightarrow> bool" where
  "pending_ok s \<longleftrightarrow> (let p = ss_pending s in
     (ss_route_bound s \<longleftrightarrow> \<not> pn_orphaned p \<and> pn_request_cookie p \<noteq> 0) \<and>
     (ss_route_bound s \<longrightarrow> pn_route p = ss_route s \<and> pn_request_cookie p = ss_session_cookie s) \<and>
     (pn_kind p \<in> {ActBegin, ActDiscardInvalidStaging, ActQueryCurrentActive} \<longrightarrow> pn_request_cookie p = 0) \<and>
     (pn_kind p \<in> {ActWriteManifest, ActWritePayloadBlock, ActCommit, ActAbort} \<longrightarrow> pn_request_cookie p \<noteq> 0))"

definition phase_ok :: "SpeakerAssetsSession \<Rightarrow> bool" where
  "phase_ok s \<longleftrightarrow>
     (case ss_phase s of
        PhIdle \<Rightarrow> \<not> ss_route_bound s
      | PhBeginAssembly \<Rightarrow> ss_route_bound s = ss_begin_replay_from_ready s \<and>
          (ss_route_bound s \<longrightarrow> pa_owner (ss_plan_assembler s) = ss_route s)
      | PhReady \<Rightarrow> ss_route_bound s
      | PhUnitAssembly \<Rightarrow> ss_route_bound s
      | PhActionPending \<Rightarrow> pending_ok s)"

definition plan_ok :: "seen_frames \<Rightarrow> SpeakerAssetsSession \<Rightarrow> bool" where
  "plan_ok seen s \<longleftrightarrow> (let p = ss_plan_assembler s in
     frag_inv kSpeakerAssetsPlanWireBytes p \<and> (pa_bound p \<longleftrightarrow> ss_phase s = PhBeginAssembly) \<and>
     (\<forall>i b. held p i = Some b \<longrightarrow> pa_bound p \<and>
        byte_sent seen (pa_owner p) (plan_request (kind_opcode (ss_plan_action_kind s)) (pa_begin_id p)) i b))"

definition unit_ok :: "seen_frames \<Rightarrow> SpeakerAssetsSession \<Rightarrow> bool" where
  "unit_ok seen s \<longleftrightarrow> (let b = ss_block_assembler s in
     frag_inv kSoundPayloadBlockSize b \<and> unat (ba_expected_bytes b) \<le> kSoundPayloadBlockSize \<and>
     (held b \<noteq> Map.empty \<longrightarrow> ss_phase s = PhUnitAssembly \<or> ss_phase s = PhActionPending \<and> is_write (pn_kind (ss_pending s))) \<and>
     (\<forall>i x. held b i = Some x \<longrightarrow> i < unat (ba_expected_bytes b) \<and> (ss_route_bound s \<longrightarrow>
        byte_sent seen (ss_route s) (data_request (ss_session_cookie s) (ss_unit_request_id s) (ba_region b = PayloadRegion))
          (unat (ba_unit_index b) * kSoundPayloadBlockSize + i) x)))"

definition session_inv :: "seen_frames \<Rightarrow> SpeakerAssetsSession \<Rightarrow> bool" where
  "session_inv seen s \<longleftrightarrow> (pn_active (ss_pending s) \<longleftrightarrow> ss_phase s = PhActionPending) \<and>
     length (ss_replay s) = kSpeakerAssetsReplayEntries \<and> ss_next_replay_slot s < kSpeakerAssetsReplayEntries \<and>
     (ss_route_bound s \<longrightarrow> ss_session_cookie s \<noteq> 0 \<and> ss_progress_valid s \<and> progress_is_well_formed (ss_progress s)) \<and>
     phase_ok s \<and> plan_ok seen s \<and> unit_ok seen s"

lemma session_inv_mono: "session_inv seen s \<Longrightarrow> set seen \<subseteq> set seen' \<Longrightarrow> session_inv seen' s"
  using byte_sent_mono unfolding session_inv_def plan_ok_def unit_ok_def Let_def by meson

interpretation session_numbers: nonzero_counter number_after
  by unfold_locales (auto simp: number_after_def eq_neg_iff_add_eq_0)

lemma fst_take_number: "fst (take_number n) \<noteq> 0"
  using session_numbers.next_nonzero by (simp add: take_number_def)

lemma block_reset_is_init: "block_reset b = init_block_assembler"
  by (simp add: block_reset_def init_block_assembler_def empty_fragments_def FragmentBuffer.defs SpeakerAssetsBlockAssembler.defs)

lemma block_init: "frag_inv kSoundPayloadBlockSize init_block_assembler" "held init_block_assembler = Map.empty"
    "ba_expected_bytes init_block_assembler = 0"
proof -
  show h: "held init_block_assembler = Map.empty"
    by (auto simp: held_def byte_received_def init_block_assembler_def empty_fragments_def FragmentBuffer.defs
        SpeakerAssetsBlockAssembler.defs bank_layout kSoundPayloadBlockSize_def fun_eq_iff less_mult_imp_div_less)
  show "frag_inv kSoundPayloadBlockSize init_block_assembler"
    unfolding frag_inv_def h
    by (simp add: init_block_assembler_def empty_fragments_def FragmentBuffer.defs SpeakerAssetsBlockAssembler.defs
        kSoundPayloadBlockSize_def bank_layout)
  show "ba_expected_bytes init_block_assembler = 0"
    by (simp add: init_block_assembler_def SpeakerAssetsBlockAssembler.defs empty_fragments_def FragmentBuffer.defs)
qed

lemma plan_init: "pa_bound init_plan_assembler = False"
  by (simp add: init_plan_assembler_def SpeakerAssetsPlanAssembler.defs empty_fragments_def FragmentBuffer.defs)

lemmas cleared = reset_is_init block_reset_is_init block_init plan_init frag_inv_init

lemma session_inv_init: "session_inv [] (init_session cookie_seed token_seed)"
  by (simp add: session_inv_def init_session_def no_pending_def phase_ok_def plan_ok_def unit_ok_def Let_def cleared
      kSpeakerAssetsReplayEntries_def)

section \<open>What a frame may lead to\<close>

definition unit_payload :: "SpeakerAssetsActionKind \<Rightarrow> bool" where
  "unit_payload kind \<longleftrightarrow> kind = ActWritePayloadBlock"

text \<open>An action that opens a session, and one that uses an open one.\<close>

definition opening_action :: "seen_frames \<Rightarrow> SpeakerAssetsActionView \<Rightarrow> bool" where
  "opening_action seen a \<longleftrightarrow> av_session_cookie a = 0 \<and> av_bytes a = None \<and>
     (av_kind a \<in> {ActBegin, ActDiscardInvalidStaging} \<and>
        (\<exists>plan. av_plan a = Some plan \<and> plan_was_sent seen (av_route a) (kind_opcode (av_kind a)) (av_request_id a) plan) \<or>
      av_plan a = None \<and> (av_kind a = ActQueryCurrentActive \<or> av_kind a = ActResumeQuery \<and> av_query_mode a = ResumeOrRebind))"

definition owner_action :: "seen_frames \<Rightarrow> SpeakerAssetsRouteToken \<Rightarrow> u32 \<Rightarrow> SoundUpdateIdentity \<Rightarrow> SpeakerAssetsActionView \<Rightarrow> bool" where
  "owner_action seen route cookie identity a \<longleftrightarrow> av_session_cookie a \<noteq> 0 \<and> av_plan a = None \<and>
     av_route a = route \<and> av_session_cookie a = cookie \<and> av_expected_identity a = identity \<and>
     (av_bytes a = None \<and> (av_kind a \<in> {ActCommit, ActAbort} \<or> av_kind a = ActResumeQuery \<and> av_query_mode a = CurrentProgress) \<or>
      is_write (av_kind a) \<and> (\<exists>bs. av_bytes a = Some bs \<and> length bs = unat (av_length a) \<and>
        unit_was_sent seen route cookie (av_request_id a) (unit_payload (av_kind a)) (unat (av_block_index a)) bs))"

text \<open>The session has handed out an action, whose data are still there.\<close>

definition borrowed :: "SpeakerAssetsSession \<Rightarrow> SpeakerAssetsActionView \<Rightarrow> bool" where
  "borrowed s a \<longleftrightarrow> (case av_plan a of None \<Rightarrow> True | Some plan \<Rightarrow> ss_decoded_plan s = plan) \<and>
     (case av_bytes a of None \<Rightarrow> True | Some bs \<Rightarrow> unit_bytes s = bs)"

definition handed_out :: "SpeakerAssetsSession \<Rightarrow> SpeakerAssetsActionView \<Rightarrow> bool" where
  "handed_out s a \<longleftrightarrow> pn_active (ss_pending s) \<and> pn_token (ss_pending s) = av_token a \<and> pn_kind (ss_pending s) = av_kind a \<and>
     pn_route (ss_pending s) = av_route a \<and> pn_request_cookie (ss_pending s) = av_session_cookie a \<and>
     pn_request_id (ss_pending s) = av_request_id a \<and>
     is_write (av_kind a) = (av_bytes a \<noteq> None) \<and> borrowed s a"

definition binding :: "SpeakerAssetsSession \<Rightarrow> (SpeakerAssetsRouteToken \<times> u32 \<times> SoundUpdateIdentity) option" where
  "binding s = (if ss_route_bound s then Some (ss_route s, ss_session_cookie s, up_identity (ss_progress s)) else None)"

text \<open>No request with the key of this one is remembered.\<close>

definition unanswered :: "SpeakerAssetsSession \<Rightarrow> SpeakerAssetsRouteToken \<Rightarrow> SpeakerAssetsFrame \<Rightarrow> bool" where
  "unanswered s route frame \<longleftrightarrow>
     \<not> list_ex (\<lambda>entry. entry_matches entry route (fr_session_cookie frame) (fr_request_id frame)) (ss_replay s)"

lemma lookup_miss: "lookup_replay s route cookie request_id opcode unit_region unit_index fp = ReplayMiss \<longleftrightarrow>
   \<not> list_ex (\<lambda>entry. entry_matches entry route cookie request_id) (ss_replay s)"
proof -
  let ?same = "filter (\<lambda>entry. entry_matches entry route cookie request_id) (ss_replay s)"
  have "lookup_replay s route cookie request_id opcode unit_region unit_index fp = ReplayMiss \<longleftrightarrow> ?same = []"
    by (cases ?same) (auto simp: lookup_replay_def Let_def split: option.split)
  then show ?thesis by (simp add: filter_empty_conv list_ex_iff)
qed

definition consumed ::
  "seen_frames \<Rightarrow> SpeakerAssetsSession \<Rightarrow> SpeakerAssetsRouteToken \<Rightarrow> SpeakerAssetsFrame \<Rightarrow>
   SpeakerAssetsEmission \<times> SpeakerAssetsSession \<Rightarrow> bool" where
  "consumed seen s route frame = (\<lambda>(emission, s'). session_inv seen s' \<and> binding s' = binding s \<and> ss_replay s' = ss_replay s \<and>
     ss_next_replay_slot s' = ss_next_replay_slot s \<and>
     (case emission of
        EmitAction a \<Rightarrow> handed_out s' a \<and> \<not> pn_orphaned (ss_pending s') \<and> av_route a = route \<and> av_request_id a = fr_request_id frame \<and>
          av_session_cookie a = fr_session_cookie frame \<and> unanswered s route frame \<and>
          (case binding s of None \<Rightarrow> opening_action seen a | Some (r, cookie, identity) \<Rightarrow> owner_action seen r cookie identity a)
      | _ \<Rightarrow> \<not> pn_active (ss_pending s')))"

text \<open>Binding and data are all that the invariant reads of a session without action.\<close>

lemma consumed_unchanged:
  "session_inv seen s \<Longrightarrow> ss_phase s \<noteq> PhActionPending \<Longrightarrow> consumed seen s route frame (emit_status request status cookie, s)"
  "session_inv seen s \<Longrightarrow> ss_phase s \<noteq> PhActionPending \<Longrightarrow> consumed seen s route frame (EmitReply reply, s)"
  by (simp_all add: consumed_def emit_status_def session_inv_def)

text \<open>Handing out an action.\<close>

lemma begin_pending_form:
  assumes "begin_pending_action s kind route frame unit_region unit_index fingerprint = (a, s1)"
  obtains token after where
    "a = \<lparr>av_token = token, av_kind = kind, av_route = route, av_request_id = fr_request_id frame,
       av_session_cookie = fr_session_cookie frame, av_plan = None, av_expected_identity = empty_identity,
       av_query_mode = CurrentProgress, av_bytes = None, av_length = 0, av_block_index = 0\<rparr>"
    "s1 = s\<lparr>ss_next_action_token := after, ss_pending := \<lparr>pn_active = True, pn_orphaned = False, pn_kind = kind, pn_route = route,
       pn_token = token, pn_request_id = fr_request_id frame, pn_request_cookie = fr_session_cookie frame,
       pn_request_offset = fr_object_offset frame, pn_opcode = fr_opcode frame, pn_region = unit_region,
       pn_unit_index = unit_index, pn_fingerprint = fingerprint, pn_expected_identity = empty_identity\<rparr>, ss_phase := PhActionPending\<rparr>"
  using assms by (cases "take_number (ss_next_action_token s)") (auto simp: begin_pending_action_def next_action_token_def)

lemma consumed_action:
  assumes inv: "session_inv seen s"
    and cookie: "if ss_route_bound s then from_owner s route frame \<and> kind \<notin> {ActBegin, ActDiscardInvalidStaging, ActQueryCurrentActive}
      else fr_session_cookie frame = 0 \<and> kind \<notin> {ActWriteManifest, ActWritePayloadBlock, ActCommit, ActAbort}"
    and act: "av_kind a = kind" "av_route a = route" "av_request_id a = fr_request_id frame"
      "av_session_cookie a = fr_session_cookie frame" "is_write kind = (av_bytes a \<noteq> None)"
    and pend: "pn_active (ss_pending s')" "pn_orphaned (ss_pending s') = False" "pn_kind (ss_pending s') = kind"
      "pn_route (ss_pending s') = route" "pn_token (ss_pending s') = av_token a"
      "pn_request_cookie (ss_pending s') = fr_session_cookie frame" "pn_request_id (ss_pending s') = fr_request_id frame"
    and same: "ss_phase s' = PhActionPending" "ss_route_bound s' = ss_route_bound s" "ss_route s' = ss_route s"
      "ss_session_cookie s' = ss_session_cookie s" "ss_progress s' = ss_progress s" "ss_progress_valid s' = ss_progress_valid s"
      "ss_replay s' = ss_replay s" "ss_next_replay_slot s' = ss_next_replay_slot s"
    and data: "plan_ok seen s'" "unit_ok seen s'" "borrowed s' a"
    and fresh: "unanswered s route frame"
    and ok: "case binding s of None \<Rightarrow> opening_action seen a | Some (r, cookie, identity) \<Rightarrow> owner_action seen r cookie identity a"
  shows "consumed seen s route frame (EmitAction a, s')"
proof -
  have "pending_ok s'"
    unfolding pending_ok_def Let_def pend same using cookie inv
    by (cases "ss_route_bound s") (auto simp: from_owner_def session_inv_def)
  moreover have "binding s' = binding s" by (simp add: binding_def same)
  moreover have "handed_out s' a" using act data by (simp add: handed_out_def pend)
  ultimately show ?thesis
    using inv act ok data fresh by (simp add: consumed_def session_inv_def phase_ok_def same pend)
qed

text \<open>The data of a session in which nothing is under way.\<close>

lemma resting_data:
  assumes "session_inv seen s" "ss_phase s \<noteq> PhBeginAssembly" "ss_phase s \<noteq> PhUnitAssembly" "ss_phase s \<noteq> PhActionPending"
    and "ss_plan_assembler s' = ss_plan_assembler s" "ss_block_assembler s' = ss_block_assembler s" "ss_phase s' \<noteq> PhBeginAssembly"
  shows "plan_ok seen s'" "unit_ok seen s'"
  using assms by (auto simp: session_inv_def plan_ok_def unit_ok_def Let_def)

section \<open>Requests of one frame\<close>

lemma consumed_unless_replayed:
  assumes "session_inv seen s" "ss_phase s \<noteq> PhActionPending" "fr_session_cookie frame = cookie"
    "\<And>fingerprint. unanswered s route frame \<Longrightarrow> consumed seen s route frame (continue fingerprint)"
  shows "consumed seen s route frame (unless_replayed s route frame cookie continue)"
  using assms by (auto simp: unless_replayed_def Let_def consumed_unchanged lookup_miss unanswered_def split: ReplayLookup.split)

lemma no_binding: "\<not> ss_route_bound s \<Longrightarrow> binding s = None"
  by (simp add: binding_def)

lemma consumed_single:
  assumes inv: "session_inv seen s" and phase: "ss_phase s \<noteq> PhActionPending"
  shows "consumed seen s route frame (consume_capabilities s frame)"
    and "consumed seen s route frame (consume_current_active s route frame)"
    and "consumed seen s route frame (consume_resume s route frame)"
    and "kind \<in> {ActResumeQuery, ActCommit, ActAbort} \<Longrightarrow> consumed seen s route frame (consume_owner_request s route frame kind)"
proof -
  note un = consumed_unchanged [OF inv phase]
  show "consumed seen s route frame (consume_capabilities s frame)" by (simp add: consume_capabilities_def un)
  show "consumed seen s route frame (consume_current_active s route frame)"
  proof -
    have "consumed seen s route frame (emit_action (begin_pending_action s ActQueryCurrentActive route frame ManifestRegion 0 fp))"
      if "ss_phase s = PhIdle" "\<not> ss_route_bound s" "fr_session_cookie frame = 0" "unanswered s route frame" for fp
    proof -
      obtain a s1 where b: "begin_pending_action s ActQueryCurrentActive route frame ManifestRegion 0 fp = (a, s1)" by force
      show ?thesis
        unfolding b emit_action_def prod.case
        by (rule begin_pending_form [OF b], intro consumed_action [OF inv, where kind = ActQueryCurrentActive] resting_data [OF inv])
          (use that in \<open>auto simp: is_write_def borrowed_def no_binding opening_action_def\<close>)
    qed
    then show ?thesis by (auto simp: consume_current_active_def intro!: un consumed_unless_replayed [OF inv phase])
  qed
  show "consumed seen s route frame (consume_resume s route frame)"
  proof -
    have "consumed seen s route frame (let (action, s1) = expect_identity identity
           (begin_pending_action s ActResumeQuery route frame ManifestRegion 0 fp) in emit_action (action\<lparr>av_query_mode := ResumeOrRebind\<rparr>, s1))"
      if "ss_phase s = PhIdle" "fr_session_cookie frame = 0" "unanswered s route frame" for fp identity
    proof -
      have nb: "\<not> ss_route_bound s" using inv that by (simp add: session_inv_def phase_ok_def)
      obtain a s1 where b: "begin_pending_action s ActResumeQuery route frame ManifestRegion 0 fp = (a, s1)" by force
      show ?thesis
        unfolding b emit_action_def expect_identity_def prod.case Let_def
        by (rule begin_pending_form [OF b], intro consumed_action [OF inv, where kind = ActResumeQuery] resting_data [OF inv])
          (use that nb in \<open>auto simp: is_write_def borrowed_def no_binding opening_action_def\<close>)
    qed
    then show ?thesis by (auto simp: consume_resume_def Let_def intro!: un consumed_unless_replayed [OF inv phase])
  qed
  show "consumed seen s route frame (consume_owner_request s route frame kind)" if k: "kind \<in> {ActResumeQuery, ActCommit, ActAbort}"
  proof -
    have "consumed seen s route frame (emit_action (expect_identity (up_identity (ss_progress s))
            (begin_pending_action s kind route frame ManifestRegion 0 fp)))"
      if "ss_phase s = PhReady" "from_owner s route frame" "unanswered s route frame" for fp
    proof -
      obtain a s1 where b: "begin_pending_action s kind route frame ManifestRegion 0 fp = (a, s1)" by force
      have o: "ss_route_bound s" "route = ss_route s" "fr_session_cookie frame = ss_session_cookie s" "ss_session_cookie s \<noteq> 0"
        using that inv by (auto simp: from_owner_def session_inv_def)
      show ?thesis
        unfolding b emit_action_def expect_identity_def prod.case
        by (rule begin_pending_form [OF b], intro consumed_action [OF inv, where kind = kind] resting_data [OF inv])
          (use that o k in \<open>auto simp: is_write_def borrowed_def binding_def owner_action_def\<close>)
    qed
    then show ?thesis by (auto simp: consume_owner_request_def intro!: un consumed_unless_replayed [OF inv phase])
  qed
qed

section \<open>The fragments of a plan\<close>

lemma note_plan_form:
  obtains n x y where "note_plan_progress s accepted frame =
    s\<lparr>ss_plan_assembler := accepted, ss_partial_activity_counter := n, ss_begin_saw_first := x, ss_begin_saw_last := y\<rparr>"
proof
  show "note_plan_progress s accepted frame = s\<lparr>ss_plan_assembler := accepted,
      ss_partial_activity_counter := ss_partial_activity_counter (note_plan_progress s accepted frame),
      ss_begin_saw_first := ss_begin_saw_first (note_plan_progress s accepted frame),
      ss_begin_saw_last := ss_begin_saw_last (note_plan_progress s accepted frame)\<rparr>"
    by (simp add: note_plan_progress_def note_partial_activity_def Let_def)
qed

definition kept :: "SpeakerAssetsSession \<Rightarrow> SpeakerAssetsSession \<Rightarrow> bool" where
  "kept s s' \<longleftrightarrow> binding s' = binding s \<and> ss_replay s' = ss_replay s \<and> ss_next_replay_slot s' = ss_next_replay_slot s \<and>
     ss_route_bound s' = ss_route_bound s \<and> ss_progress s' = ss_progress s \<and> \<not> pn_active (ss_pending s')"

lemma answered:
  "session_inv seen s' \<Longrightarrow> kept s s' \<Longrightarrow> consumed seen s route frame (emit_status request status cookie, s')"
  "session_inv seen s' \<Longrightarrow> kept s s' \<Longrightarrow> consumed seen s route frame (EmitReply reply, s')"
  by (simp_all add: consumed_def emit_status_def kept_def)

lemma consumed_kept: "kept s s' \<Longrightarrow> consumed seen s' route frame out \<Longrightarrow> consumed seen s route frame out"
proof -
  assume k: "kept s s'" and c: "consumed seen s' route frame out"
  have e: "binding s' = binding s" "ss_replay s' = ss_replay s" "ss_next_replay_slot s' = ss_next_replay_slot s"
    using k by (simp_all add: kept_def)
  show ?thesis using c unfolding consumed_def e unanswered_def .
qed

lemma plan_begin_fresh:
  assumes "plan_begin p route request_id = Inr q" "frag_inv kSpeakerAssetsPlanWireBytes p" "\<not> pa_bound p" "held p = Map.empty"
  shows "frag_inv kSpeakerAssetsPlanWireBytes q \<and> pa_bound q \<and> pa_owner q = route \<and> held q = Map.empty"
  using assms by (auto simp: plan_begin_def frag_inv_more held_more split: if_splits)

lemma open_plan_assembly_inv:
  assumes inv: "session_inv seen s" and phase: "ss_phase s \<noteq> PhActionPending"
    and opn: "open_plan_assembly s route frame kind = r"
  shows "case r of Inl (status, s1) \<Rightarrow> session_inv seen s1 \<and> kept s s1
    | Inr s1 \<Rightarrow> session_inv seen s1 \<and> kept s s1 \<and> ss_phase s1 = PhBeginAssembly \<and> ss_plan_action_kind s1 = kind"
proof -
  note i = inv [unfolded session_inv_def plan_ok_def Let_def]
  have idle: "\<not> pn_active (ss_pending s)" using i phase by simp
  have empty: "\<not> pa_bound (ss_plan_assembler s)" "held (ss_plan_assembler s) = Map.empty" if "ss_phase s \<noteq> PhBeginAssembly"
    using i that by (auto simp: fun_eq_iff)
  have free: "held (ss_block_assembler s) = Map.empty" if "ss_phase s \<noteq> PhUnitAssembly"
    using i phase that by (auto simp: unit_ok_def Let_def)
  consider "ss_phase s = PhIdle" | "ss_phase s = PhReady" | "ss_phase s = PhBeginAssembly" | "ss_phase s = PhUnitAssembly"
    using phase by (cases "ss_phase s") auto
  then show ?thesis
  proof cases
    case 1
    then show ?thesis
      using inv idle opn empty free plan_begin_fresh [of "ss_plan_assembler s" route "fr_request_id frame"]
      by (auto simp: open_plan_assembly_def kept_def binding_def session_inv_def phase_ok_def plan_ok_def unit_ok_def Let_def
          split: sum.splits if_splits)
  next
    case 2
    then show ?thesis
      using inv idle opn free plan_begin_fresh [of init_plan_assembler route "fr_request_id frame"] frag_inv_init
      by (auto simp: open_plan_assembly_def kept_def binding_def session_inv_def phase_ok_def plan_ok_def unit_ok_def Let_def
          reset_is_init plan_init split: sum.splits if_splits)
  next
    case 3
    then show ?thesis using inv idle opn by (auto simp: open_plan_assembly_def kept_def split: if_splits)
  next
    case 4
    then show ?thesis using inv idle opn by (auto simp: open_plan_assembly_def kept_def)
  qed
qed

lemma restore_inv:
  assumes "session_inv seen s" "ss_phase s = PhBeginAssembly"
  shows "session_inv seen (restore_after_begin_assembly s)" "kept s (restore_after_begin_assembly s)"
    "session_inv seen (restore_after_begin_assembly (s\<lparr>ss_decoded_plan := plan\<rparr>))"
    "kept s (restore_after_begin_assembly (s\<lparr>ss_decoded_plan := plan\<rparr>))"
  using assms
  by (auto simp: restore_after_begin_assembly_def session_inv_def phase_ok_def plan_ok_def unit_ok_def Let_def cleared kept_def binding_def)

lemma plan_flags: "fr_flags frame AND NOT kSingleFrameRequestFlags = 0 \<Longrightarrow> \<not> has_flag frame kSpeakerAssetsFlagPayloadRegion"
proof -
  assume "fr_flags frame AND NOT kSingleFrameRequestFlags = 0"
  then have "bit (fr_flags frame AND NOT kSingleFrameRequestFlags) 5 = False" by simp
  then have "\<not> bit (fr_flags frame) 5"
    by (simp add: bit_simps kSingleFrameRequestFlags_def kSpeakerAssetsFlagAckRequested_def kSpeakerAssetsFlagFirstFragment_def
        kSpeakerAssetsFlagLastFragment_def)
  then show ?thesis
    using bit_iff_and_push_bit_not_eq_0 [of "fr_flags frame" 5] by (simp add: has_flag_def kSpeakerAssetsFlagPayloadRegion_def)
qed

lemma plan_complete_sent:
  assumes "plan_ok seen s" "plan_decode (ss_plan_assembler s) = Inr plan"
  shows "plan_was_sent seen (pa_owner (ss_plan_assembler s)) (kind_opcode (ss_plan_action_kind s)) (pa_begin_id (ss_plan_assembler s)) plan"
proof -
  let ?p = "ss_plan_assembler s"
  have d: "fb_received_bytes ?p = kSpeakerAssetsPlanWireBytes" "decode_sound_bundle_plan_wire (fb_bytes ?p) = Inr plan"
    using assms(2) by (auto simp: plan_decode_def plan_complete_def split: if_splits)
  have p: "frag_inv kSpeakerAssetsPlanWireBytes ?p" using assms(1) by (simp add: plan_ok_def Let_def)
  then have "length (fb_bytes ?p) = kSpeakerAssetsPlanWireBytes" by (simp add: frag_inv_def)
  moreover have "held ?p i = Some (fb_bytes ?p ! i)" if "i < kSpeakerAssetsPlanWireBytes" for i
    using full_iff [OF p] d(1) that by (auto simp: held_def split: if_splits)
  then have "byte_sent seen (pa_owner ?p) (plan_request (kind_opcode (ss_plan_action_kind s)) (pa_begin_id ?p)) i (fb_bytes ?p ! i)"
    if "i < kSpeakerAssetsPlanWireBytes" for i
    using assms(1) that unfolding plan_ok_def Let_def by blast
  ultimately show ?thesis using d(2) unfolding plan_was_sent_def by (intro exI [of _ "fb_bytes ?p"]) simp
qed

lemma consumed_finish_plan:
  assumes inv: "session_inv seen s" and phase: "ss_phase s = PhBeginAssembly"
    and own: "pa_owner (ss_plan_assembler s) = route" "pa_begin_id (ss_plan_assembler s) = fr_request_id frame"
    and kind: "ss_plan_action_kind s = kind" "kind \<in> {ActBegin, ActDiscardInvalidStaging}" and cookie: "fr_session_cookie frame = 0"
  shows "consumed seen s route frame (finish_plan_assembly s route frame kind)"
proof (cases "plan_decode (ss_plan_assembler s)")
  case (Inl e)
  then show ?thesis using restore_inv [OF inv phase] by (simp add: finish_plan_assembly_def answered)
next
  case (Inr plan)
  let ?s = "s\<lparr>ss_decoded_plan := plan\<rparr>"
  note i = inv [unfolded session_inv_def]
  note restored = answered [OF restore_inv(3,4) [OF inv phase]]
  have action: "consumed seen s route frame (let (action, s2) = begin_pending_action ?s kind route frame ManifestRegion 0 fp
       in emit_action (action\<lparr>av_plan := Some plan\<rparr>, s2\<lparr>ss_plan_assembler := plan_reset (ss_plan_assembler s2),
            ss_begin_saw_first := False, ss_begin_saw_last := False, ss_plan_action_kind := ActBegin\<rparr>))"
    if "\<not> ss_begin_replay_from_ready s" "unanswered s route frame" for fp
  proof -
    have nb: "\<not> ss_route_bound s" using i phase that by (simp add: phase_ok_def)
    have unit: "held (ss_block_assembler s) = Map.empty" using i phase by (auto simp: unit_ok_def Let_def)
    have sent: "plan_was_sent seen route (kind_opcode kind) (fr_request_id frame) plan"
      using plan_complete_sent [OF _ Inr, of seen] i own kind(1) by simp
    obtain a s1 where b: "begin_pending_action ?s kind route frame ManifestRegion 0 fp = (a, s1)" by force
    show ?thesis
      unfolding b emit_action_def prod.case Let_def
      by (rule begin_pending_form [OF b], intro consumed_action [OF inv, where kind = kind])
        (use nb unit sent kind cookie i that(2) in \<open>auto simp: is_write_def borrowed_def no_binding opening_action_def plan_ok_def unit_ok_def Let_def cleared\<close>)
  qed
  show ?thesis
    using restored action cookie
    by (auto simp: finish_plan_assembly_def Inr Let_def lookup_miss unanswered_def split: ReplayLookup.split)
qed

lemma consumed_plan:
  assumes inv: "session_inv seen s" and phase: "ss_phase s \<noteq> PhActionPending" and new: "(route, frame) \<in> set seen"
    and op: "opcode_of (fr_opcode frame) = Some (kind_opcode kind)" "kind \<in> {ActBegin, ActDiscardInvalidStaging}"
  shows "consumed seen s route frame (consume_plan_action s route frame kind)"
proof (cases "plan_frame_invalid frame")
  case True
  then show ?thesis using op(2) by (auto simp: consume_plan_action_def consumed_unchanged [OF inv phase])
next
  case ok: False
  note opened = open_plan_assembly_inv [OF inv phase refl, where route = route and frame = frame and kind = kind]
  show ?thesis
  proof (cases "open_plan_assembly s route frame kind")
    case (Inl r)
    then show ?thesis
      using ok opened op(2) by (cases r) (auto simp: consume_plan_action_def intro!: answered)
  next
    case s1: (Inr s1)
    then have o: "session_inv seen s1" "kept s s1" "ss_phase s1 = PhBeginAssembly" "ss_plan_action_kind s1 = kind" using opened by simp_all
    note i1 = o(1) [unfolded session_inv_def plan_ok_def Let_def]
    show ?thesis
    proof (cases "plan_accept_fragment (ss_plan_assembler s1) route (fr_request_id frame) (ucast (fr_object_offset frame)) (frame_data frame)")
      case (Inl e)
      then show ?thesis using ok s1 op(2) answered [OF o(1,2)] by (auto simp: consume_plan_action_def)
    next
      case accepted: (Inr p)
      have "frag_inv kSpeakerAssetsPlanWireBytes (ss_plan_assembler s1)" using i1 by blast
      note f = fragment_cases [OF this accepted]
      have q: "pa_owner p = route" "pa_begin_id p = fr_request_id frame" "pa_bound p"
        using f plan_fields_of_more [of p "ss_plan_assembler s1"] by auto
      have off: "unat (ucast (fr_object_offset frame) :: u16) = unat (fr_object_offset frame)"
        using ok by (simp add: plan_frame_invalid_def unsigned_ucast_eq unsigned_take_bit_eq take_bit_nat_eq_self frame_sizes)
      have req: "plan_request (kind_opcode kind) (fr_request_id frame) frame" using ok op by (simp add: plan_request_def plan_frame_invalid_def)
      have held: "byte_sent seen route (plan_request (kind_opcode kind) (fr_request_id frame)) i b" if "held p i = Some b" for i b
        using that f i1 o(4) off byte_sent_now [where request = "plan_request (kind_opcode kind) (fr_request_id frame)", OF new req]
        by (auto simp: map_add_Some_iff)
      obtain n x y where noted: "note_plan_progress s1 p frame = s1\<lparr>ss_plan_assembler := p, ss_partial_activity_counter := n,
          ss_begin_saw_first := x, ss_begin_saw_last := y\<rparr>" by (rule note_plan_form)
      define s2 where "s2 = note_plan_progress s1 p frame"
      have inv2: "session_inv seen s2"
        using i1 f o(3,4) q held unfolding s2_def noted
        by (auto simp: session_inv_def plan_ok_def unit_ok_def phase_ok_def Let_def)
      have k2: "kept s s2" "ss_phase s2 = PhBeginAssembly" "ss_plan_assembler s2 = p" "ss_plan_action_kind s2 = kind"
        using o unfolding s2_def noted by (auto simp: kept_def binding_def split: if_splits)
      have "consumed seen s route frame (finish_plan_assembly s2 route frame kind)"
        by (rule consumed_kept [OF k2(1)], rule consumed_finish_plan [OF inv2 k2(2)])
          (use ok k2 q op(2) in \<open>simp_all add: plan_frame_invalid_def\<close>)
      then show ?thesis
        using ok s1 accepted op(2) answered [OF inv2 k2(1)]
        by (auto simp: consume_plan_action_def Let_def s2_def [symmetric] plan_fragment_reply_def split: sum.split)
    qed
  qed
qed

section \<open>The fragments of a unit\<close>

lemma note_unit_form:
  obtains n x y where "note_unit_progress s accepted frame =
    s\<lparr>ss_block_assembler := accepted, ss_partial_activity_counter := n, ss_unit_saw_first := x, ss_unit_saw_last := y\<rparr>"
proof
  show "note_unit_progress s accepted frame = s\<lparr>ss_block_assembler := accepted,
      ss_partial_activity_counter := ss_partial_activity_counter (note_unit_progress s accepted frame),
      ss_unit_saw_first := ss_unit_saw_first (note_unit_progress s accepted frame),
      ss_unit_saw_last := ss_unit_saw_last (note_unit_progress s accepted frame)\<rparr>"
    by (simp add: note_unit_progress_def note_partial_activity_def Let_def)
qed

lemma block_fields_of_more:
  "FragmentBuffer.more t = FragmentBuffer.more s \<Longrightarrow> ba_region t = ba_region s \<and> ba_unit_index t = ba_unit_index s \<and>
     ba_expected_bytes t = ba_expected_bytes s \<and> ba_active t = ba_active (s :: SpeakerAssetsBlockAssembler)"
  by (cases s; cases t) simp

lemma block_held_more:
  "held (s\<lparr>ba_region := r, ba_unit_index := u, ba_expected_bytes := e, ba_active := a\<rparr>) = held s"
  by (simp add: held_def byte_received_def fun_eq_iff)

lemma block_frag_inv_more:
  "frag_inv w (s\<lparr>ba_region := r, ba_unit_index := u, ba_expected_bytes := e, ba_active := a\<rparr>) = frag_inv w s"
  by (simp add: frag_inv_def block_held_more)

lemma block_fragment_cases:
  assumes inv: "frag_inv kSoundPayloadBlockSize s" "unat (ba_expected_bytes s) \<le> kSoundPayloadBlockSize"
    and ok: "block_accept_fragment s unit_region unit_index offset data = Inr t"
  shows "unit_region = ba_region s \<and> unit_index = ba_unit_index s \<and> data \<noteq> [] \<and>
    unat offset + length data \<le> unat (ba_expected_bytes s) \<and> frag_inv kSoundPayloadBlockSize t \<and>
    held t = piece (unat offset) data ++ held s \<and> FragmentBuffer.more t = FragmentBuffer.more s"
proof -
  have g: "unit_region = ba_region s" "unit_index = ba_unit_index s" "data \<noteq> []" "unat offset + length data \<le> unat (ba_expected_bytes s)"
      "accept_bytes s (unat offset) data = Inr t"
    using ok by (auto simp: block_accept_fragment_def word_le_nat_alt not_less split: if_splits)
  have "unat offset + length data \<le> kSoundPayloadBlockSize" using g(4) inv(2) by simp
  note acc = accept_bytes_cases [OF inv(1) this]
  show ?thesis using acc g by (cases "agree (held s) (piece (unat offset) data)") auto
qed

lemma data_unit_place:
  assumes "data_unit progress frame = Some u" "progress_is_well_formed progress"
  shows "unat (fr_object_offset frame) = unat (du_index u) * kSoundPayloadBlockSize + unat (du_offset u)"
    "du_region u = PayloadRegion \<longleftrightarrow> has_flag frame kSpeakerAssetsFlagPayloadRegion"
proof -
  have wf: "up_manifest_bytes progress \<le> 4096" "up_payload_bytes progress \<le> 524288"
    using assms(2) by (simp_all add: progress_is_well_formed_def bank_layout)
  show "du_region u = PayloadRegion \<longleftrightarrow> has_flag frame kSpeakerAssetsFlagPayloadRegion"
    using assms(1) by (auto simp: data_unit_def Let_def split: if_splits)
  have small: "unat (of_nat n :: u16) = n" if "n < 65536" for n using that by (simp add: unat_of_nat take_bit_nat_eq_self)
  show "unat (fr_object_offset frame) = unat (du_index u) * kSoundPayloadBlockSize + unat (du_offset u)"
  proof (cases "has_flag frame kSpeakerAssetsFlagPayloadRegion")
    case False
    then have "du_index u = 0" "du_offset u = ucast (fr_object_offset frame)" "unat (fr_object_offset frame) < 4096"
      using assms(1) wf by (auto simp: data_unit_def Let_def split: if_splits)
    then show ?thesis by (simp add: unsigned_ucast_eq unsigned_take_bit_eq take_bit_nat_eq_self)
  next
    case True
    define n where "n = unat (fr_object_offset frame)"
    have u: "du_index u = of_nat (n div 4096)" "du_offset u = of_nat (n - n div 4096 * 4096)" "n < 524288"
      using assms(1) wf True by (auto simp: data_unit_def Let_def n_def kSoundPayloadBlockSize_def bank_layout split: if_splits)
    have "n div 4096 < 65536" "n - n div 4096 * 4096 < 65536" "n div 4096 * 4096 \<le> n" using u(3) by auto
    moreover from this have "unat (du_index u) = n div 4096" unfolding u by (intro small)
    moreover have "unat (du_offset u) = n - n div 4096 * 4096" unfolding u by (intro small) (use u(3) in auto)
    ultimately show ?thesis unfolding n_def [symmetric] kSoundPayloadBlockSize_def kSoundSectorSize_def by simp
  qed
qed

lemma piece_shift: "piece offset data i = Some x \<Longrightarrow> piece (base + offset) data (base + i) = Some x"
  by (auto simp: piece_def split: if_splits)

lemma open_unit_assembly_inv:
  assumes inv: "session_inv seen s" and phase: "ss_phase s = PhReady \<or> ss_phase s = PhUnitAssembly"
    and opn: "open_unit_assembly s frame u = Inr s1"
  shows "session_inv seen s1 \<and> kept s s1 \<and> ss_phase s1 = PhUnitAssembly \<and> ss_unit_request_id s1 = fr_request_id frame \<and>
    ss_route s1 = ss_route s \<and> ss_session_cookie s1 = ss_session_cookie s"
proof -
  note i = inv [unfolded session_inv_def]
  have idle: "\<not> pn_active (ss_pending s)" using i phase by auto
  show ?thesis
  proof (cases "ss_phase s = PhReady")
    case False
    then show ?thesis
      using inv idle opn phase by (auto simp: open_unit_assembly_def kept_def split: if_splits)
  next
    case True
    then obtain b where b: "block_begin (ss_block_assembler s) (du_region u) (du_index u) (du_expected_bytes u) = Inr b"
        "s1 = s\<lparr>ss_block_assembler := b, ss_phase := PhUnitAssembly, ss_unit_request_id := fr_request_id frame,
           ss_unit_base_offset := du_base u, ss_unit_saw_first := False, ss_unit_saw_last := False\<rparr>"
      using opn by (auto simp: open_unit_assembly_def split: if_splits sum.splits)
    have nb: "held b = Map.empty" "frag_inv kSoundPayloadBlockSize b" "unat (ba_expected_bytes b) \<le> kSoundPayloadBlockSize"
      using b(1) by (auto simp: block_begin_def block_reset_is_init block_held_more block_frag_inv_more block_init split: if_splits)
    then show ?thesis
      using i idle True unfolding b(2) by (auto simp: session_inv_def phase_ok_def plan_ok_def unit_ok_def Let_def kept_def binding_def)
  qed
qed

lemma close_unit_inv:
  assumes "session_inv seen s" "ss_phase s = PhUnitAssembly"
  shows "session_inv seen (close_unit s)" "kept s (close_unit s)"
  using assms by (auto simp: close_unit_def session_inv_def phase_ok_def plan_ok_def unit_ok_def Let_def cleared kept_def binding_def)

lemma unit_complete_sent:
  assumes "unit_ok seen s" "block_complete (ss_block_assembler s)" "ss_route_bound s" "ba_expected_bytes (ss_block_assembler s) \<noteq> 0"
  shows "length (unit_bytes s) = unat (ba_expected_bytes (ss_block_assembler s))"
    "unit_was_sent seen (ss_route s) (ss_session_cookie s) (ss_unit_request_id s) (ba_region (ss_block_assembler s) = PayloadRegion)
       (unat (ba_unit_index (ss_block_assembler s))) (unit_bytes s)"
proof -
  let ?b = "ss_block_assembler s" and ?n = "unat (ba_expected_bytes (ss_block_assembler s))"
  note u = assms(1) [unfolded unit_ok_def Let_def]
  have len: "length (fb_bytes ?b) = kSoundPayloadBlockSize" "fb_received_bytes ?b = card (dom (held ?b))"
    using u by (simp_all add: frag_inv_def)
  show l: "length (unit_bytes s) = ?n" using len(1) u by (simp add: unit_bytes_def)
  have "dom (held ?b) \<subseteq> {..<?n}" using u by auto
  moreover have "card (dom (held ?b)) = ?n" using assms(2) len(2) by (simp add: block_complete_def)
  ultimately have "dom (held ?b) = {..<?n}" by (simp add: card_subset_eq)
  then have "held ?b i = Some (unit_bytes s ! i)" if "i < ?n" for i
    using that by (auto simp: held_def unit_bytes_def dom_def split: if_splits)
  then have sent: "byte_sent seen (ss_route s) (data_request (ss_session_cookie s) (ss_unit_request_id s) (ba_region ?b = PayloadRegion))
      (unat (ba_unit_index ?b) * kSoundPayloadBlockSize + i) (unit_bytes s ! i)" if "i < ?n" for i
    using u assms(3) that by blast
  have "?n \<noteq> 0" using assms(4) by (simp add: unat_eq_0)
  then show "unit_was_sent seen (ss_route s) (ss_session_cookie s) (ss_unit_request_id s) (ba_region ?b = PayloadRegion)
       (unat (ba_unit_index ?b)) (unit_bytes s)"
    unfolding unit_was_sent_def l using sent l by auto
qed

lemma consumed_finish_unit:
  assumes inv: "session_inv seen s" and phase: "ss_phase s = PhUnitAssembly" and own: "from_owner s route frame"
    and u: "du_region u = ba_region (ss_block_assembler s)" "du_index u = ba_unit_index (ss_block_assembler s)"
    and full: "block_complete (ss_block_assembler s)" "ba_expected_bytes (ss_block_assembler s) \<noteq> 0"
    and req: "ss_unit_request_id s = fr_request_id frame"
  shows "consumed seen s route frame (finish_unit_assembly s route frame u)"
proof -
  note i = inv [unfolded session_inv_def]
  have o: "ss_route_bound s" "route = ss_route s" "fr_session_cookie frame = ss_session_cookie s" "ss_session_cookie s \<noteq> 0"
    using own i by (auto simp: from_owner_def)
  have "unit_ok seen s" using i by blast
  note sent = unit_complete_sent [OF this full(1) o(1) full(2)]
  define kind where "kind = (case du_region u of ManifestRegion \<Rightarrow> ActWriteManifest | PayloadRegion \<Rightarrow> ActWritePayloadBlock)"
  have k: "is_write kind" "unit_payload kind = (ba_region (ss_block_assembler s) = PayloadRegion)"
      "kind \<notin> {ActBegin, ActDiscardInvalidStaging, ActQueryCurrentActive}"
    by (auto simp: kind_def u(1) is_write_def unit_payload_def split: SpeakerAssetsRegion.split)
  have action: "consumed seen s route frame (let (action, s1) = expect_identity (up_identity (ss_progress s))
        (begin_pending_action s kind route frame (du_region u) (du_index u) fp)
      in emit_action (action\<lparr>av_bytes := Some (unit_bytes s1), av_length := ba_expected_bytes (ss_block_assembler s1),
           av_block_index := du_index u\<rparr>, s1))" if new: "unanswered s route frame" for fp
  proof -
    obtain a s1 where b: "begin_pending_action s kind route frame (du_region u) (du_index u) fp = (a, s1)" by force
    have data: "plan_ok seen s'" "unit_ok seen s'"
      if "ss_plan_assembler s' = ss_plan_assembler s" "ss_block_assembler s' = ss_block_assembler s" "ss_phase s' = PhActionPending"
        "pn_kind (ss_pending s') = kind" "ss_unit_request_id s' = ss_unit_request_id s" "ss_route s' = ss_route s"
        "ss_session_cookie s' = ss_session_cookie s" for s'
      using i phase k(1) that o(1) by (auto simp: plan_ok_def unit_ok_def Let_def)
    show ?thesis
      unfolding b emit_action_def expect_identity_def prod.case Let_def
      by (rule begin_pending_form [OF b], intro consumed_action [OF inv, where kind = kind] data)
        (use own o k sent req u new in \<open>auto simp: borrowed_def unit_bytes_def binding_def owner_action_def from_owner_def\<close>)
  qed
  show ?thesis
    using answered [OF close_unit_inv [OF inv phase]] action o(3)
    by (auto simp: finish_unit_assembly_def kind_def [symmetric] Let_def lookup_miss unanswered_def split: ReplayLookup.split)
qed

lemma consumed_data:
  assumes inv: "session_inv seen s" and phase: "ss_phase s \<noteq> PhActionPending" and new: "(route, frame) \<in> set seen"
    and op: "opcode_of (fr_opcode frame) = Some OpData"
  shows "consumed seen s route frame (consume_data s route frame)"
proof (cases "\<exists>u s1 b. \<not> data_frame_refused s route frame \<and> data_unit (ss_progress s) frame = Some u \<and> \<not> unit_bounds_invalid u frame \<and>
    open_unit_assembly s frame u = Inr s1 \<and>
    block_accept_fragment (ss_block_assembler s1) (du_region u) (du_index u) (du_offset u) (frame_data frame) = Inr b")
  case False
  note un = consumed_unchanged [OF inv phase]
  have "consumed seen s route frame (emit_status frame status cookie, s1)"
    if "\<not> data_frame_refused s route frame" "open_unit_assembly s frame u = Inr s1" for status cookie u s1
  proof -
    have "ss_phase s = PhReady \<or> ss_phase s = PhUnitAssembly" using that by (auto simp: data_frame_refused_def)
    then show ?thesis using open_unit_assembly_inv [OF inv _ that(2)] by (auto intro: answered)
  qed
  then show ?thesis using False by (auto simp: consume_data_def un split: option.split sum.split)
next
  case True
  then obtain u s1 b where t: "\<not> data_frame_refused s route frame" "data_unit (ss_progress s) frame = Some u"
      "\<not> unit_bounds_invalid u frame" "open_unit_assembly s frame u = Inr s1"
      "block_accept_fragment (ss_block_assembler s1) (du_region u) (du_index u) (du_offset u) (frame_data frame) = Inr b" by blast
  have own: "from_owner s route frame" "ss_phase s = PhReady \<or> ss_phase s = PhUnitAssembly"
    using t(1) by (auto simp: data_frame_refused_def)
  note o = open_unit_assembly_inv [OF inv own(2) t(4)]
  note i1 = o [THEN conjunct1, unfolded session_inv_def]
  have bound: "ss_route_bound s1" "ss_route s1 = route" "ss_session_cookie s1 = fr_session_cookie frame"
    using o own(1) by (auto simp: from_owner_def kept_def)
  have "unit_ok seen s1" using i1 by blast
  note u1 = this [unfolded unit_ok_def Let_def]
  have wf: "progress_is_well_formed (ss_progress s)" using inv own(1) by (simp add: session_inv_def from_owner_def)
  note place = data_unit_place [OF t(2) wf]
  have f: "du_region u = ba_region (ss_block_assembler s1)" "du_index u = ba_unit_index (ss_block_assembler s1)" "frame_data frame \<noteq> []"
      "unat (du_offset u) + length (frame_data frame) \<le> unat (ba_expected_bytes (ss_block_assembler s1))"
      "frag_inv kSoundPayloadBlockSize b" "held b = piece (unat (du_offset u)) (frame_data frame) ++ held (ss_block_assembler s1)"
      "FragmentBuffer.more b = FragmentBuffer.more (ss_block_assembler s1)"
    using block_fragment_cases [OF _ _ t(5)] u1 by blast+
  have b: "ba_region b = ba_region (ss_block_assembler s1)" "ba_unit_index b = ba_unit_index (ss_block_assembler s1)"
      "ba_expected_bytes b = ba_expected_bytes (ss_block_assembler s1)"
    using block_fields_of_more [OF f(7)] by simp_all
  let ?req = "data_request (ss_session_cookie s1) (ss_unit_request_id s1) (ba_region b = PayloadRegion)"
  have req: "?req frame" using op bound o place(2) f(1) b(1) by (simp add: data_request_def)
  have held: "i < unat (ba_expected_bytes b) \<and> byte_sent seen route ?req (unat (ba_unit_index b) * kSoundPayloadBlockSize + i) x"
    if "held b i = Some x" for i x
  proof (cases "held (ss_block_assembler s1) i")
    case (Some y)
    show ?thesis
    proof (cases "piece (unat (du_offset u)) (frame_data frame) i")
      case None
      then show ?thesis using that Some f(6) u1 bound b by (auto simp: map_add_def)
    next
      case piece: (Some z)
      then have "byte_sent seen route ?req (unat (du_index u) * kSoundPayloadBlockSize + i) z"
        using byte_sent_now [where request = ?req, OF new req] piece_shift place(1) by simp
      moreover have "x = y" using that Some f(6) by (auto simp: map_add_def)
      ultimately show ?thesis using u1 Some bound b f(2) by auto
    qed
  next
    case None
    then have "piece (unat (du_offset u)) (frame_data frame) i = Some x" using that f(6) by (simp add: map_add_def)
    moreover from this have "i < unat (ba_expected_bytes b)" using f(4) b(3) by (auto simp: piece_def split: if_splits)
    ultimately show ?thesis
      using byte_sent_now [where request = ?req, OF new req] piece_shift place(1) f(2) b(2) by simp
  qed
  obtain n x y where noted: "note_unit_progress s1 b frame = s1\<lparr>ss_block_assembler := b, ss_partial_activity_counter := n,
      ss_unit_saw_first := x, ss_unit_saw_last := y\<rparr>" by (rule note_unit_form)
  define s2 where "s2 = note_unit_progress s1 b frame"
  have inv2: "session_inv seen s2"
    using i1 u1 o bound f(5) b held unfolding s2_def noted
    by (auto simp: session_inv_def plan_ok_def unit_ok_def phase_ok_def Let_def)
  have k2: "kept s s2" "ss_phase s2 = PhUnitAssembly" "ss_block_assembler s2 = b" "from_owner s2 route frame"
      "ss_unit_request_id s2 = fr_request_id frame"
    using o bound unfolding s2_def noted by (auto simp: kept_def binding_def from_owner_def split: if_splits)
  have "ba_expected_bytes b \<noteq> 0" using f(3,4) b(3) by (cases "frame_data frame") auto
  then have "consumed seen s route frame (finish_unit_assembly s2 route frame u)" if "block_complete b"
    using consumed_finish_unit [OF inv2 k2(2,4), of u] f b k2 that consumed_kept [OF k2(1)] by simp
  then show ?thesis
    using t answered [OF inv2 k2(1)] k2(3)
    by (auto simp: consume_data_def Let_def s2_def [symmetric] unit_fragment_reply_def split: sum.split)
qed

section \<open>Completing an action\<close>

lemma end_session_inv:
  assumes "\<not> pn_active (ss_pending s)" "length (ss_replay s) = kSpeakerAssetsReplayEntries"
    "ss_next_replay_slot s < kSpeakerAssetsReplayEntries"
  shows "session_inv seen (end_session s)" "binding (end_session s) = None" "\<not> pn_active (ss_pending (end_session s))"
    "ss_replay (end_session s) = ss_replay s" "ss_next_replay_slot (end_session s) = ss_next_replay_slot s"
  using assms
  by (simp_all add: end_session_def clear_binding_def clear_partial_assembly_def session_inv_def phase_ok_def plan_ok_def unit_ok_def
      Let_def cleared binding_def)

lemma remember_sizes:
  assumes "length (ss_replay s) = kSpeakerAssetsReplayEntries"
  shows "length (ss_replay (remember_replay p reply s)) = kSpeakerAssetsReplayEntries"
    "ss_next_replay_slot (remember_replay p reply s) < kSpeakerAssetsReplayEntries"
  using assms by (simp_all add: remember_replay_def kSpeakerAssetsReplayEntries_def)

lemma pending_data:
  assumes "session_inv seen s" "ss_phase s = PhActionPending"
  shows "plan_ok seen s" "unit_ok seen s" "pending_ok s" "\<not> pa_bound (ss_plan_assembler s)" "held (ss_plan_assembler s) = Map.empty"
    "\<not> is_write (pn_kind (ss_pending s)) \<Longrightarrow> held (ss_block_assembler s) = Map.empty"
  using assms by (auto simp: session_inv_def phase_ok_def plan_ok_def unit_ok_def Let_def fun_eq_iff)

text \<open>A session that is ready again: its block is free, its binding in force.\<close>

lemma ready_session_inv:
  assumes inv: "session_inv seen s" "ss_phase s = PhActionPending"
    and s': "ss_plan_assembler s' = ss_plan_assembler s" "length (ss_replay s') = kSpeakerAssetsReplayEntries"
      "ss_next_replay_slot s' < kSpeakerAssetsReplayEntries" "\<not> pn_active (ss_pending s')" "ss_phase s' = PhReady"
    and block: "if is_write (pn_kind (ss_pending s)) then ss_block_assembler s' = init_block_assembler
      else ss_block_assembler s' = ss_block_assembler s"
    and bound: "ss_route_bound s'" "ss_session_cookie s' \<noteq> 0" "ss_progress_valid s'" "progress_is_well_formed (ss_progress s')"
  shows "session_inv seen s'"
proof -
  have "plan_ok seen s'" using pending_data [OF inv] s' by (auto simp: plan_ok_def Let_def)
  moreover have "unit_ok seen s'"
    using pending_data [OF inv] s' block by (cases "is_write (pn_kind (ss_pending s))") (auto simp: unit_ok_def Let_def block_init)
  ultimately show ?thesis using s' bound by (simp add: session_inv_def phase_ok_def)
qed

lemma identity_equal_iff [simp]: "identity_equal a b \<longleftrightarrow> a = b"
  by (cases a; cases b) (auto simp: identity_equal_def)

lemma error_flags: "\<not> has_flag (status_reply request WsOk cookie) kSpeakerAssetsFlagError"
    "status \<noteq> WsOk \<Longrightarrow> has_flag (status_reply request status cookie) kSpeakerAssetsFlagError"
    "\<not> has_flag (body_reply request cookie offset parts len) kSpeakerAssetsFlagError"
  by (simp_all add: has_flag_def status_reply_def body_reply_def Let_def kSpeakerAssetsFlagError_def kSpeakerAssetsFlagResponse_def)

lemmas reply_forms = identity_reply_def progress_reply_def outcome_reply_def current_active_reply_def

lemma bind_route_form:
  obtains cookie after where "bind_route s p = s\<lparr>ss_route := pn_route p, ss_route_bound := True, ss_next_cookie := after,
    ss_session_cookie := cookie, ss_phase := PhReady\<rparr>" "cookie \<noteq> 0"
  using fst_take_number [of "ss_next_cookie s"]
  by (cases "take_number (ss_next_cookie s)") (auto simp: bind_route_def next_cookie_def)

text \<open>The grant after an action, computed from the action, its completion and the reply.\<close>

type_synonym session_grant = "(SpeakerAssetsRouteToken \<times> u32 \<times> SoundUpdateIdentity) option"

definition grant_after ::
  "SpeakerAssetsActionView \<Rightarrow> SpeakerAssetsActionCompletion \<Rightarrow> SpeakerAssetsFrame \<Rightarrow> session_grant \<Rightarrow> session_grant" where
  "grant_after a c reply g =
     (case ac_result c of
        Inl _ \<Rightarrow> if av_session_cookie a = 0 then None else g
      | Inr _ \<Rightarrow>
          if has_flag reply kSpeakerAssetsFlagError then None
          else if av_kind a = ActBegin \<or> av_kind a = ActResumeQuery \<and> av_session_cookie a = 0 \<and> ac_outcome c = ToActive
          then Some (av_route a, fr_session_cookie reply, up_identity (ac_progress c))
          else if is_write (av_kind a) \<or> av_kind a = ActResumeQuery \<and> av_session_cookie a \<noteq> 0 then g
          else None)"

text \<open>The state and the grant after a completion that the session takes.\<close>

definition completed :: "seen_frames \<Rightarrow> session_grant \<Rightarrow> SpeakerAssetsSession \<Rightarrow> bool" where
  "completed seen grant s' \<longleftrightarrow> session_inv seen s' \<and> binding s' = grant \<and> \<not> pn_active (ss_pending s')"

lemma failed_completed:
  assumes inv: "session_inv seen s" and pend: "ss_phase s = PhActionPending" "\<not> pn_orphaned (ss_pending s)"
    and a: "handed_out s a" and res: "ac_result c = Inl e"
  shows "completed seen (grant_after a c reply (binding s)) (after_failed_action s (ss_pending s))"
proof -
  note i = inv [unfolded session_inv_def] and d = pending_data [OF inv pend(1)]
  have k: "pn_kind (ss_pending s) = av_kind a" "pn_request_cookie (ss_pending s) = av_session_cookie a" using a by (simp_all add: handed_out_def)
  show ?thesis
  proof (cases "av_session_cookie a = 0")
    case True
    then have w: "\<not> is_write (av_kind a)" "\<not> ss_route_bound s" "av_kind a \<notin> {ActCommit, ActAbort}"
      using d(3) k pend(2) by (auto simp: pending_ok_def Let_def is_write_def)
    then have "after_failed_action s (ss_pending s) = clear_pending_action ((clear_binding s)\<lparr>ss_phase := PhIdle\<rparr>)"
      using True k by (cases "av_kind a") (auto simp: after_failed_action_def is_write_def)
    then show ?thesis
      using i d w k True res
      by (auto simp: completed_def grant_after_def clear_pending_action_def clear_binding_def no_pending_def session_inv_def phase_ok_def
          plan_ok_def unit_ok_def Let_def binding_def)
  next
    case False
    then have b: "ss_route_bound s" "ss_session_cookie s \<noteq> 0" "ss_progress_valid s" "progress_is_well_formed (ss_progress s)"
        "av_kind a \<notin> {ActBegin, ActDiscardInvalidStaging, ActQueryCurrentActive}"
      using d(3) k pend(2) i by (auto simp: pending_ok_def Let_def)
    let ?s = "after_failed_action s (ss_pending s)"
    have f: "ss_plan_assembler ?s = ss_plan_assembler s" "ss_replay ?s = ss_replay s" "ss_next_replay_slot ?s = ss_next_replay_slot s"
        "\<not> pn_active (ss_pending ?s)" "ss_phase ?s = PhReady" "ss_route_bound ?s = ss_route_bound s"
        "ss_session_cookie ?s = ss_session_cookie s" "ss_progress_valid ?s = ss_progress_valid s" "ss_progress ?s = ss_progress s"
        "ss_route ?s = ss_route s"
        "ss_block_assembler ?s = (if is_write (av_kind a) then init_block_assembler else ss_block_assembler s)"
      using b(5) False k by (auto simp: after_failed_action_def clear_pending_action_def no_pending_def Let_def block_reset_is_init)
    have "session_inv seen ?s" by (rule ready_session_inv [OF inv pend(1)]) (use i b k f in auto)
    then show ?thesis using f False res by (simp add: completed_def grant_after_def binding_def)
  qed
qed

lemma ended_completed:
  assumes "session_inv seen s" "ss_phase s = PhActionPending" "grant = None"
  shows "completed seen grant (clear_pending_action (end_session (remember_replay p reply s)))"
    and "completed seen grant (end_session (clear_pending_action s))"
proof -
  have swap: "clear_pending_action (end_session t) = end_session (clear_pending_action t)" for t
    by (simp add: clear_pending_action_def end_session_def clear_binding_def clear_partial_assembly_def)
  have i: "length (ss_replay s) = kSpeakerAssetsReplayEntries" "ss_next_replay_slot s < kSpeakerAssetsReplayEntries"
    using assms(1) by (simp_all add: session_inv_def)
  have c: "\<not> pn_active (ss_pending (clear_pending_action t))" "ss_replay (clear_pending_action t) = ss_replay t"
      "ss_next_replay_slot (clear_pending_action t) = ss_next_replay_slot t" for t
    by (simp_all add: clear_pending_action_def no_pending_def)
  show "completed seen grant (clear_pending_action (end_session (remember_replay p reply s)))"
    unfolding swap completed_def using end_session_inv [OF c(1)] remember_sizes [OF i(1)] assms(3) by (simp add: c)
  show "completed seen grant (end_session (clear_pending_action s))"
    unfolding completed_def using end_session_inv [OF c(1)] i assms(3) by (simp add: c)
qed

lemma opened_completed:
  assumes inv: "session_inv seen s" and pend: "ss_phase s = PhActionPending" and kind: "\<not> is_write (pn_kind (ss_pending s))"
    and wf: "progress_is_well_formed progress"
    and opn: "bind_route (take_progress progress s) (ss_pending s) = s1" "reply = identity_reply request progress (ss_session_cookie s1)"
  shows "completed seen (Some (pn_route (ss_pending s), fr_session_cookie reply, up_identity progress))
    (clear_pending_action (remember_replay (ss_pending s) reply s1))"
proof -
  obtain cookie after where b: "s1 = (take_progress progress s)\<lparr>ss_route := pn_route (ss_pending s), ss_route_bound := True,
      ss_next_cookie := after, ss_session_cookie := cookie, ss_phase := PhReady\<rparr>" "cookie \<noteq> 0"
    using bind_route_form [of "take_progress progress s" "ss_pending s"] opn(1) by metis
  let ?t = "clear_pending_action (remember_replay (ss_pending s) reply s1)"
  have i: "length (ss_replay s) = kSpeakerAssetsReplayEntries" using inv by (simp add: session_inv_def)
  have f: "ss_plan_assembler ?t = ss_plan_assembler s" "length (ss_replay ?t) = kSpeakerAssetsReplayEntries"
      "ss_next_replay_slot ?t < kSpeakerAssetsReplayEntries" "\<not> pn_active (ss_pending ?t)" "ss_phase ?t = PhReady"
      "ss_block_assembler ?t = ss_block_assembler s" "ss_route_bound ?t" "ss_session_cookie ?t \<noteq> 0" "ss_progress_valid ?t"
      "ss_progress ?t = progress" "ss_route ?t = pn_route (ss_pending s)" "ss_session_cookie ?t = cookie"
    using b i remember_sizes [of s1 "ss_pending s" reply]
    by (simp_all add: b clear_pending_action_def no_pending_def remember_replay_def take_progress_def kSpeakerAssetsReplayEntries_def)
  have "session_inv seen ?t" by (rule ready_session_inv [OF inv pend]) (use f kind wf in simp_all)
  moreover have "fr_session_cookie reply = cookie"
    by (simp add: opn(2) b reply_forms body_reply_def Let_def status_reply_def)
  ultimately show ?thesis using f by (simp add: completed_def binding_def)
qed

text \<open>Progress of the open update, reported by a write or a query.\<close>

lemma progressed_completed:
  assumes inv: "session_inv seen s" and pend: "ss_phase s = PhActionPending" and bound: "ss_route_bound s"
    and progress: "progress_matches_session progress (ss_progress s)"
    and s1: "s1 = remember_replay (ss_pending s) reply ((take_progress progress s)\<lparr>ss_phase := PhReady\<rparr>)"
    and s2: "s2 = (if is_write (pn_kind (ss_pending s)) then s1\<lparr>ss_block_assembler := block_reset (ss_block_assembler s1)\<rparr> else s1)"
  shows "completed seen (binding s) (clear_pending_action s2)"
proof -
  have i: "length (ss_replay s) = kSpeakerAssetsReplayEntries" "ss_session_cookie s \<noteq> 0" using inv bound by (simp_all add: session_inv_def)
  have p: "progress_is_well_formed progress" "up_identity progress = up_identity (ss_progress s)"
    using progress by (simp_all add: progress_matches_session_def)
  let ?t = "clear_pending_action s2"
  have f: "ss_plan_assembler ?t = ss_plan_assembler s" "length (ss_replay ?t) = kSpeakerAssetsReplayEntries"
      "ss_next_replay_slot ?t < kSpeakerAssetsReplayEntries" "\<not> pn_active (ss_pending ?t)" "ss_phase ?t = PhReady"
      "ss_block_assembler ?t = (if is_write (pn_kind (ss_pending s)) then init_block_assembler else ss_block_assembler s)"
      "ss_route_bound ?t" "ss_session_cookie ?t = ss_session_cookie s" "ss_progress_valid ?t" "ss_progress ?t = progress"
      "ss_route ?t = ss_route s"
    using bound i by (auto simp: s2 s1 clear_pending_action_def no_pending_def remember_replay_def take_progress_def block_reset_is_init
        kSpeakerAssetsReplayEntries_def)
  have "session_inv seen ?t" by (rule ready_session_inv [OF inv pend]) (use f i p in simp_all)
  then show ?thesis using f p bound by (simp add: completed_def binding_def)
qed

lemma finished_completed:
  assumes inv: "session_inv seen s" and pend: "ss_phase s = PhActionPending" "\<not> pn_orphaned (ss_pending s)"
    and a: "handed_out s a" and res: "ac_result c = Inr ()" and valid: "completion_contract_valid s (ss_pending s) c"
    and fin: "finish_action s (ss_pending s) c = (reply, s')"
  shows "completed seen (grant_after a c reply (binding s)) (clear_pending_action s') \<and> \<not> has_flag reply kSpeakerAssetsFlagError"
proof -
  let ?p = "ss_pending s"
  note d = pending_data [OF inv pend(1)]
  have k: "pn_kind ?p = av_kind a" "pn_request_cookie ?p = av_session_cookie a" "pn_route ?p = av_route a" using a by (simp_all add: handed_out_def)
  have bound: "ss_route_bound s \<longleftrightarrow> av_session_cookie a \<noteq> 0" using d(3) k pend(2) by (auto simp: pending_ok_def Let_def)
  have owner: "av_session_cookie a \<noteq> 0" if "is_write (av_kind a)" using d(3) k that by (auto simp: pending_ok_def Let_def is_write_def)
  have flag: "\<not> has_flag reply kSpeakerAssetsFlagError"
    using fin by (auto simp: finish_action_def Let_def reply_forms error_flags split: SpeakerAssetsActionKind.splits if_splits prod.splits)
  have grant: "grant_after a c reply g = (if av_kind a = ActBegin \<or> av_kind a = ActResumeQuery \<and> av_session_cookie a = 0 \<and> ac_outcome c = ToActive
      then Some (av_route a, fr_session_cookie reply, up_identity (ac_progress c))
      else if is_write (av_kind a) \<or> av_kind a = ActResumeQuery \<and> av_session_cookie a \<noteq> 0 then g else None)" for g
    using res flag by (simp add: grant_after_def)
  have ended: "completed seen (grant_after a c reply (binding s)) (clear_pending_action s')"
    if "s' = end_session (remember_replay ?p reply s)" "grant_after a c reply (binding s) = None"
    unfolding that(1) using ended_completed(1) [OF inv pend(1) that(2)] .
  show ?thesis
  proof (cases "is_write (av_kind a)")
    case True
    have "progress_matches_session (ac_progress c) (ss_progress s)"
      using valid True k(1) by (auto simp: completion_contract_valid_def write_completion_valid_def is_write_def)
    moreover have "s' = (remember_replay ?p reply ((take_progress (ac_progress c) s)\<lparr>ss_phase := PhReady\<rparr>))\<lparr>ss_block_assembler :=
        block_reset (ss_block_assembler (remember_replay ?p reply ((take_progress (ac_progress c) s)\<lparr>ss_phase := PhReady\<rparr>)))\<rparr>"
      using fin True k(1) by (auto simp: finish_action_def Let_def is_write_def)
    ultimately have "completed seen (binding s) (clear_pending_action s')"
      using progressed_completed [OF inv pend(1) _ _ refl refl, of "ac_progress c" reply] True k(1) bound owner by auto
    then show ?thesis using True flag grant by (auto simp: is_write_def)
  next
    case nw: False
    show ?thesis
    proof (cases "av_kind a = ActResumeQuery")
      case True
      show ?thesis
      proof (cases "ac_outcome c = ToActive")
        case False
        have "av_session_cookie a = 0" using valid True False k by (simp add: completion_contract_valid_def resume_completion_valid_def)
        moreover have "s' = end_session (remember_replay ?p reply s)" using fin True False k by (auto simp: finish_action_def Let_def)
        ultimately show ?thesis using ended flag True False by (simp add: grant is_write_def)
      next
        case active: True
        show ?thesis
        proof (cases "av_session_cookie a = 0")
          case zero: True
          have wf: "progress_is_well_formed (ac_progress c)"
            using valid True active zero k by (simp add: completion_contract_valid_def resume_completion_valid_def)
          show ?thesis
            using opened_completed [OF inv pend(1) _ wf refl refl, of "pending_request ?p"] fin True active zero k nw flag grant
            by (auto simp: finish_action_def Let_def)
        next
          case nz: False
          have m: "progress_matches_session (ac_progress c) (ss_progress s)"
            using valid True active nz k by (simp add: completion_contract_valid_def resume_completion_valid_def)
          have "completed seen (binding s) (clear_pending_action s')"
            using progressed_completed [OF inv pend(1) _ m refl refl, of reply] fin True active nz k nw bound
            by (auto simp: finish_action_def Let_def)
          then show ?thesis using True active nz flag grant by (auto simp: is_write_def)
        qed
      qed
    next
      case nr: False
      show ?thesis
      proof (cases "av_kind a = ActBegin")
        case True
        have wf: "progress_is_well_formed (ac_progress c)"
          using valid True k by (simp add: completion_contract_valid_def progress_matches_plan_def)
        show ?thesis
          using opened_completed [OF inv pend(1) _ wf refl refl, of "pending_request ?p"] fin True k nw flag grant
          by (auto simp: finish_action_def Let_def)
      next
        case False
        have "s' = end_session (remember_replay ?p reply s)"
          using fin nw nr False k by (cases "av_kind a") (auto simp: finish_action_def Let_def is_write_def)
        then show ?thesis using ended flag nw nr False by (simp add: grant)
      qed
    qed
  qed
qed

end
