(* ===== verification/Sound_Session_Runs.thy ===== *)
theory Sound_Session_Runs
  imports Sound_Session_Facts
begin

text \<open>
  The calls of a session in any order.  A ghost, computed from the calls and what they returned,
  keeps the frames that came in, the action that is out, whether the closing of its route revoked
  it, and the grant that a completed begin or resume gave.  Every call keeps the session related to
  this ghost, and every action it hands out is one that the ghost allows.
\<close>

unbundle bit_operations_syntax

section \<open>One call\<close>

lemma consumed_session:
  assumes inv: "session_inv seen s" and new: "(route, frame) \<in> set seen" and idle: "\<not> pn_active (ss_pending s)"
    and c: "session_consume s route frame = ((res, emission), s')"
  shows "consumed seen s route frame (emission, s')"
proof -
  have phase: "ss_phase s \<noteq> PhActionPending" using inv idle by (simp add: session_inv_def)
  note un = consumed_unchanged [OF inv phase] and single = consumed_single [OF inv phase]
  have "consumed seen s route frame (EmitNone, s)" using inv idle by (simp add: consumed_def)
  moreover have "consumed seen s route frame (consume_opcode s route frame)"
    using un single consumed_plan [OF inv phase new] consumed_data [OF inv phase new]
    by (auto simp: consume_opcode_def consume_query_def consume_terminal_action_def split: option.split SpeakerAssetsOpcode.split)
  ultimately show ?thesis
    using c un single(1) [of route frame] phase by (auto simp: session_consume_def Let_def split: if_splits prod.splits)
qed

lemma busy_session:
  assumes "session_inv seen s" "pn_active (ss_pending s)" "session_consume s route frame = ((res, emission), s')"
  shows "s' = s" "emission \<noteq> EmitAction a"
proof -
  have "ss_phase s = PhActionPending" using assms(1,2) by (simp add: session_inv_def)
  then show "s' = s" "emission \<noteq> EmitAction a"
    using assms(3) by (auto simp: session_consume_def consume_capabilities_def emit_status_def Let_def split: if_splits prod.splits)
qed

lemma complete_unasked:
  "\<not> pn_active (ss_pending s) \<Longrightarrow> session_complete s c = ((SsNoPendingAction, EmitNone), s)"
  "handed_out s a \<Longrightarrow> \<not> (ac_token c = av_token a \<and> ac_kind c = av_kind a) \<Longrightarrow> session_complete s c = ((SsStaleCompletion, EmitNone), s)"
  by (auto simp: session_complete_def Let_def handed_out_def)

lemma complete_taken:
  assumes inv: "session_inv seen s" and a: "handed_out s a" and same: "ac_token c = av_token a" "ac_kind c = av_kind a"
    and c: "session_complete s c = ((res, emission), s')"
  shows "res = SsOk \<and> (if pn_orphaned (ss_pending s) then emission = EmitNone \<and> completed seen None s'
    else \<exists>reply. emission = EmitReply reply \<and> completed seen (grant_after a c reply (binding s)) s')"
proof -
  have p: "pn_active (ss_pending s)" "pn_token (ss_pending s) = av_token a" "pn_kind (ss_pending s) = av_kind a"
    using a by (simp_all add: handed_out_def)
  then have phase: "ss_phase s = PhActionPending" using inv by (simp add: session_inv_def)
  have none: "completed seen None (end_session (clear_pending_action s))" by (rule ended_completed(2) [OF inv phase refl])
  show ?thesis
  proof (cases "pn_orphaned (ss_pending s)")
    case True
    then show ?thesis using c p same none by (auto simp: session_complete_def Let_def)
  next
    case there: False
    show ?thesis
    proof (cases "ac_result c")
      case (Inl e)
      then show ?thesis
        using c p same there failed_completed [OF inv phase there a Inl] by (auto simp: session_complete_def Let_def emit_status_def)
    next
      case (Inr u)
      then have ok: "ac_result c = Inr ()" by simp
      show ?thesis
      proof (cases "completion_contract_valid s (ss_pending s) c")
        case False
        have "grant_after a c (status_reply request WsInternalError cookie) g = None" for request cookie g
          using ok error_flags(2) by (simp add: grant_after_def)
        then show ?thesis using c p same there ok False none by (auto simp: session_complete_def Let_def emit_status_def)
      next
        case True
        obtain reply t where fin: "finish_action s (ss_pending s) c = (reply, t)" by (cases "finish_action s (ss_pending s) c") auto
        then show ?thesis
          using c p same there ok True finished_completed [OF inv phase there a ok True fin] by (auto simp: session_complete_def Let_def)
      qed
    qed
  qed
qed

section \<open>Routes that close\<close>

text \<open>What the closing of some routes keeps of a session and of its action.\<close>

definition closed_over :: "seen_frames \<Rightarrow> (SpeakerAssetsRouteToken \<Rightarrow> bool) \<Rightarrow> SpeakerAssetsSession \<Rightarrow> SpeakerAssetsSession \<Rightarrow> bool" where
  "closed_over seen gone s s' \<longleftrightarrow> session_inv seen s' \<and>
     binding s' = (case binding s of None \<Rightarrow> None | Some (route, rest) \<Rightarrow> if gone route then None else Some (route, rest)) \<and>
     (if pn_active (ss_pending s)
      then ss_pending s' = (ss_pending s)\<lparr>pn_orphaned := pn_orphaned (ss_pending s) \<or> gone (pn_route (ss_pending s))\<rparr> \<and>
        ss_decoded_plan s' = ss_decoded_plan s \<and>
        (is_write (pn_kind (ss_pending s)) \<longrightarrow> ss_block_assembler s' = ss_block_assembler s)
      else \<not> pn_active (ss_pending s'))"

lemma closed_over_handed:
  assumes "closed_over seen gone s s'" "handed_out s a"
  shows "handed_out s' a" "pn_orphaned (ss_pending s') \<longleftrightarrow> pn_orphaned (ss_pending s) \<or> gone (av_route a)"
  using assms by (auto simp: closed_over_def handed_out_def borrowed_def unit_bytes_def split: option.splits)

lemma orphaned_inv:
  assumes inv: "session_inv seen s" and active: "pn_active (ss_pending s)" and sizes: "length replay = kSpeakerAssetsReplayEntries" "slot < kSpeakerAssetsReplayEntries"
    and t: "ss_pending t = (ss_pending s)\<lparr>pn_orphaned := True\<rparr>" "ss_phase t = ss_phase s" "ss_replay t = replay"
      "ss_next_replay_slot t = slot" "ss_decoded_plan t = ss_decoded_plan s"
      "ss_plan_assembler t \<in> {ss_plan_assembler s, init_plan_assembler}"
      "ss_block_assembler t = ss_block_assembler s \<or> \<not> is_write (pn_kind (ss_pending s)) \<and> ss_block_assembler t = init_block_assembler"
    and gone: "\<And>r rest. binding s = Some (r, rest) \<Longrightarrow> gone r" "gone (pn_route (ss_pending s))"
  shows "closed_over seen gone s (clear_binding t)"
proof -
  have phase: "ss_phase s = PhActionPending" using inv active by (simp add: session_inv_def)
  note d = pending_data [OF inv phase]
  have "plan_ok seen (clear_binding t)"
    using d(1,4,5) t phase by (auto simp: plan_ok_def Let_def clear_binding_def cleared)
  moreover have "unit_ok seen (clear_binding t)"
    using d(2) t phase by (auto simp: unit_ok_def Let_def clear_binding_def cleared)
  moreover have "pending_ok (clear_binding t)"
    using d(3) t by (auto simp: pending_ok_def Let_def clear_binding_def)
  ultimately have "session_inv seen (clear_binding t)"
    using t phase active sizes by (simp add: session_inv_def phase_ok_def clear_binding_def)
  moreover have "binding (clear_binding t) = None" by (simp add: binding_def clear_binding_def)
  ultimately show ?thesis
    using t active gone by (auto simp: closed_over_def clear_binding_def split: option.splits)
qed

lemma route_closed_over:
  assumes inv: "session_inv seen s"
  shows "closed_over seen (\<lambda>r. r = route) s (route_closed route s)"
proof -
  let ?s = "clear_replay_for_route route s"
  have i: "length (ss_replay ?s) = kSpeakerAssetsReplayEntries" "ss_next_replay_slot ?s < kSpeakerAssetsReplayEntries"
    using inv by (simp_all add: session_inv_def clear_replay_for_route_def)
  have f: "binding ?s = binding s" "ss_pending ?s = ss_pending s" "ss_decoded_plan ?s = ss_decoded_plan s"
      "ss_block_assembler ?s = ss_block_assembler s" "ss_route_bound ?s = ss_route_bound s" "ss_route ?s = ss_route s"
      "ss_plan_assembler ?s = ss_plan_assembler s" "ss_phase ?s = ss_phase s"
    by (simp_all add: clear_replay_for_route_def binding_def)
  have "phase_ok ?s = phase_ok s"
    by (cases "ss_phase s") (simp_all add: phase_ok_def pending_ok_def clear_replay_for_route_def)
  then have f0: "session_inv seen ?s"
    using inv i f by (simp add: session_inv_def plan_ok_def unit_ok_def clear_replay_for_route_def)
  note inv' = inv [unfolded session_inv_def]
  show ?thesis
  proof (cases "pn_active (ss_pending s) \<and> pn_route (ss_pending s) = route")
    case True
    then have phase: "ss_phase s = PhActionPending" using inv' by simp
    let ?p = "?s\<lparr>ss_pending := (ss_pending ?s)\<lparr>pn_orphaned := True\<rparr>\<rparr>"
    let ?t = "if \<not> is_write (pn_kind (ss_pending s)) then ?p\<lparr>ss_plan_assembler := plan_reset (ss_plan_assembler ?s),
        ss_begin_saw_first := False, ss_begin_saw_last := False\<rparr> else ?p"
    have "closed_over seen (\<lambda>r. r = route) s (clear_binding ?t)"
    proof (rule orphaned_inv [OF inv _ i])
      show "r = route" if "binding s = Some (r, rest)" for r rest
        using that True pending_data(3) [OF inv phase] by (auto simp: binding_def pending_ok_def Let_def split: if_splits)
    qed (use True f in \<open>auto simp: reset_is_init\<close>)
    moreover have "route_closed route s = clear_binding ?t"
      using True f by (auto simp: route_closed_def Let_def)
    ultimately show ?thesis by simp
  next
    case mine: False
    show ?thesis
    proof (cases "ss_route_bound s \<and> ss_route s = route \<or> pa_bound (ss_plan_assembler s) \<and> pa_owner (ss_plan_assembler s) = route")
      case False
      then have "route_closed route s = ?s" using mine f by (auto simp: route_closed_def Let_def)
      moreover have "pn_active (ss_pending s) \<Longrightarrow> (ss_pending s)\<lparr>pn_orphaned := pn_orphaned (ss_pending s) \<or> False\<rparr> = ss_pending s" by simp
      ultimately show ?thesis using False mine f f0 by (auto simp: closed_over_def binding_def split: option.split)
    next
      case True
      have idle: "\<not> pn_active (ss_pending s)"
        using True mine inv' pending_data(3,4) [OF inv] by (auto simp: pending_ok_def Let_def)
      then have "route_closed route s = end_session ?s" using True mine f by (auto simp: route_closed_def Let_def)
      moreover have "ss_route s = route" if "ss_route_bound s"
        using True that inv' by (auto simp: plan_ok_def phase_ok_def Let_def)
      ultimately show ?thesis
        using end_session_inv [OF _ i] idle f(2) by (auto simp: closed_over_def binding_def split: option.split)
    qed
  qed
qed

lemma all_routes_closed_over:
  assumes inv: "session_inv seen s"
  shows "closed_over seen (\<lambda>r. True) s (all_routes_closed s)"
proof -
  let ?s = "s\<lparr>ss_replay := replicate kSpeakerAssetsReplayEntries empty_replay, ss_next_replay_slot := 0\<rparr>"
  have i: "length (ss_replay ?s) = kSpeakerAssetsReplayEntries" "ss_next_replay_slot ?s < kSpeakerAssetsReplayEntries"
    by (simp_all add: kSpeakerAssetsReplayEntries_def)
  show ?thesis
  proof (cases "pn_active (ss_pending s)")
    case True
    let ?p = "?s\<lparr>ss_pending := (ss_pending ?s)\<lparr>pn_orphaned := True\<rparr>\<rparr>"
    let ?t = "if \<not> is_write (pn_kind (ss_pending s)) then clear_partial_assembly ?p else ?p"
    have "closed_over seen (\<lambda>r. True) s (clear_binding ?t)"
      by (rule orphaned_inv [OF inv True i]) (auto simp: clear_partial_assembly_def cleared)
    moreover have "all_routes_closed s = clear_binding ?t" using True by (auto simp: all_routes_closed_def Let_def)
    ultimately show ?thesis by (simp only:)
  next
    case False
    then show ?thesis
      using end_session_inv [OF _ i] by (auto simp: all_routes_closed_def Let_def closed_over_def split: option.split)
  qed
qed

lemma expired_over:
  assumes inv: "session_inv seen s"
  shows "closed_over seen (\<lambda>r. False) s (snd (expire_partial route s))"
proof -
  have "closed_over seen (\<lambda>r. False) s s" using inv by (auto simp: closed_over_def split: option.split)
  moreover have "closed_over seen (\<lambda>r. False) s (restore_after_begin_assembly s)" if "ss_phase s = PhBeginAssembly"
    using restore_inv(1,2) [OF inv that] inv that by (auto simp: closed_over_def kept_def session_inv_def split: option.split)
  moreover have "closed_over seen (\<lambda>r. False) s (s\<lparr>ss_block_assembler := block_reset (ss_block_assembler s), ss_unit_request_id := 0,
      ss_unit_base_offset := 0, ss_unit_saw_first := False, ss_unit_saw_last := False, ss_phase := PhReady\<rparr>)"
    if "ss_phase s = PhUnitAssembly"
    using inv that
    by (auto simp: closed_over_def session_inv_def phase_ok_def plan_ok_def unit_ok_def Let_def cleared binding_def split: option.split)
  ultimately show ?thesis by (auto simp: expire_partial_def)
qed

section \<open>What is remembered of an answered request\<close>

type_synonym request_key = "SpeakerAssetsRouteToken \<times> u32 \<times> u32"

text \<open>The keys of the remembered requests, the oldest first.\<close>

definition entry_key :: "ReplayEntry \<Rightarrow> request_key option" where
  "entry_key entry = (if re_valid entry then Some (re_route entry, re_request_cookie entry, re_request_id entry) else None)"

definition recent_keys :: "SpeakerAssetsSession \<Rightarrow> request_key option list" where
  "recent_keys s = map entry_key (rotate (ss_next_replay_slot s) (ss_replay s))"

lemma recent_iff: "Some (route, cookie, request_id) \<in> set (recent_keys s) \<longleftrightarrow>
    list_ex (\<lambda>entry. entry_matches entry route cookie request_id) (ss_replay s)"
  by (auto simp: recent_keys_def entry_key_def entry_matches_def list_ex_iff image_iff split: if_splits)

lemma rotate_put:
  assumes "i < length xs"
  shows "rotate ((i + 1) mod length xs) (xs[i := x]) = tl (rotate i xs) @ [x]"
proof -
  have l: "length (xs[i := x]) = length xs" by simp
  have "rotate i (xs[i := x]) = x # tl (rotate i xs)"
    using assms by (simp add: rotate_drop_take drop_update_cancel tl_append Cons_nth_drop_Suc [symmetric] take_update_cancel
        split: list.split)
  then have "rotate (Suc i) (xs[i := x]) = tl (rotate i xs) @ [x]" by (simp add: rotate_Suc)
  then show ?thesis using rotate_conv_mod [of "Suc i" "xs[i := x]"] by simp
qed

lemma recent_remembered:
  assumes "length (ss_replay s) = kSpeakerAssetsReplayEntries" "ss_next_replay_slot s < kSpeakerAssetsReplayEntries"
  shows "recent_keys (remember_replay p reply s) = tl (recent_keys s) @ [Some (pn_route p, pn_request_cookie p, pn_request_id p)]"
  using assms rotate_put [of "ss_next_replay_slot s" "ss_replay s"]
  by (simp add: recent_keys_def remember_replay_def entry_key_def map_tl)

lemma recent_same: "ss_replay s' = ss_replay s \<Longrightarrow> ss_next_replay_slot s' = ss_next_replay_slot s \<Longrightarrow> recent_keys s' = recent_keys s"
  by (simp add: recent_keys_def)

lemma remember_same:
  "ss_replay s' = ss_replay s \<Longrightarrow> ss_next_replay_slot s' = ss_next_replay_slot s \<Longrightarrow>
   ss_replay (remember_replay p reply s') = ss_replay (remember_replay p reply s) \<and>
   ss_next_replay_slot (remember_replay p reply s') = ss_next_replay_slot (remember_replay p reply s)"
  by (simp add: remember_replay_def)

lemma bind_route_replay: "ss_replay (bind_route s p) = ss_replay s" "ss_next_replay_slot (bind_route s p) = ss_next_replay_slot s"
  by (rule bind_route_form [of s p], simp)+

lemma finish_replay:
  assumes "finish_action s p c = (reply, s')"
  shows "ss_replay s' = ss_replay (remember_replay p reply s) \<and>
    ss_next_replay_slot s' = ss_next_replay_slot (remember_replay p reply s) \<and> \<not> has_flag reply kSpeakerAssetsFlagError"
  using assms
  by (cases "pn_kind p")
    (auto simp: finish_action_def Let_def remember_replay_def take_progress_def bind_route_replay end_session_def clear_binding_def
      clear_partial_assembly_def reply_forms error_flags split: if_splits)

lemma status_error: "has_flag (status_reply request (status_from_store_result e) cookie) kSpeakerAssetsFlagError"
  by (rule error_flags(2)) (cases e; simp add: status_from_store_result_def)

lemma complete_recent:
  assumes inv: "session_inv seen s" and a: "handed_out s a" and c: "session_complete s c = ((res, emission), s')"
  shows "recent_keys s' = (case emission of
      EmitReply reply \<Rightarrow> if has_flag reply kSpeakerAssetsFlagError then recent_keys s
        else tl (recent_keys s) @ [Some (av_route a, av_session_cookie a, av_request_id a)]
    | _ \<Rightarrow> recent_keys s)"
proof -
  let ?p = "ss_pending s"
  have r: "recent_keys (remember_replay ?p reply s) = tl (recent_keys s) @ [Some (av_route a, av_session_cookie a, av_request_id a)]" for reply
    using recent_remembered inv a by (simp add: session_inv_def handed_out_def)
  have same: "recent_keys (end_session (clear_pending_action s)) = recent_keys s" "recent_keys (after_failed_action s ?p) = recent_keys s"
    by (auto simp: recent_keys_def end_session_def clear_pending_action_def clear_partial_assembly_def clear_binding_def
        after_failed_action_def Let_def)
  have finished: "recent_keys (clear_pending_action t) = tl (recent_keys s) @ [Some (av_route a, av_session_cookie a, av_request_id a)] \<and>
      \<not> has_flag reply kSpeakerAssetsFlagError" if "finish_action s ?p c = (reply, t)" for reply t
    using finish_replay [OF that] r [of reply] by (simp add: recent_keys_def clear_pending_action_def)
  show ?thesis
    using c same finished status_error error_flags(2)
    by (auto simp: session_complete_def Let_def emit_status_def split: if_splits sum.splits prod.splits)
qed

definition forget :: "(SpeakerAssetsRouteToken \<Rightarrow> bool) \<Rightarrow> request_key option \<Rightarrow> request_key option" where
  "forget gone key = (case key of None \<Rightarrow> None | Some (route, rest) \<Rightarrow> if gone route then None else key)"

lemma closed_recent:
  "recent_keys (route_closed route s) = map (forget (\<lambda>r. r = route)) (recent_keys s)"
  "length (ss_replay s) = kSpeakerAssetsReplayEntries \<Longrightarrow>
     recent_keys (all_routes_closed s) = map (forget (\<lambda>r. True)) (recent_keys s)"
  "recent_keys (snd (expire_partial route s)) = map (forget (\<lambda>r. False)) (recent_keys s)"
proof -
  have k: "entry_key (if re_valid e \<and> re_route e = route then empty_replay else e) = forget (\<lambda>r. r = route) (entry_key e)" for e
    by (simp add: entry_key_def forget_def empty_replay_def)
  have f: "ss_replay (route_closed route s) = ss_replay (clear_replay_for_route route s)"
      "ss_next_replay_slot (route_closed route s) = ss_next_replay_slot s"
    by (simp_all add: route_closed_def clear_replay_for_route_def clear_binding_def end_session_def clear_partial_assembly_def Let_def)
  show "recent_keys (route_closed route s) = map (forget (\<lambda>r. r = route)) (recent_keys s)"
    by (simp add: recent_keys_def f) (simp add: clear_replay_for_route_def rotate_map [symmetric] k o_def)
  have g: "ss_replay (all_routes_closed s) = replicate kSpeakerAssetsReplayEntries empty_replay"
    by (simp add: all_routes_closed_def clear_binding_def end_session_def clear_partial_assembly_def Let_def)
  have "recent_keys (all_routes_closed s) = replicate kSpeakerAssetsReplayEntries None"
    by (rule replicate_eqI) (auto simp: recent_keys_def g entry_key_def empty_replay_def)
  moreover have "map (forget (\<lambda>r. True)) (recent_keys s) = replicate kSpeakerAssetsReplayEntries None"
    if "length (ss_replay s) = kSpeakerAssetsReplayEntries"
    by (rule replicate_eqI) (use that in \<open>auto simp: recent_keys_def forget_def split: option.split\<close>)
  ultimately show "recent_keys (all_routes_closed s) = map (forget (\<lambda>r. True)) (recent_keys s)"
    if "length (ss_replay s) = kSpeakerAssetsReplayEntries"
    using that by simp
  have "forget (\<lambda>r. False) key = key" for key by (simp add: forget_def split: option.split)
  then show "recent_keys (snd (expire_partial route s)) = map (forget (\<lambda>r. False)) (recent_keys s)"
    by (simp add: recent_keys_def expire_partial_def restore_after_begin_assembly_def)
qed

section \<open>The ghost of a run\<close>

record SessionGhost =
  sg_seen :: seen_frames
  sg_out :: "SpeakerAssetsActionView option"
  sg_revoked :: bool
  sg_grant :: session_grant
  sg_recent :: "request_key option list"

definition start_ghost :: SessionGhost where
  "start_ghost = \<lparr>sg_seen = [], sg_out = None, sg_revoked = False, sg_grant = None,
     sg_recent = replicate kSpeakerAssetsReplayEntries None\<rparr>"

definition ghost_close :: "(SpeakerAssetsRouteToken \<Rightarrow> bool) \<Rightarrow> SessionGhost \<Rightarrow> SessionGhost" where
  "ghost_close gone g = g\<lparr>
     sg_revoked := sg_revoked g \<or> (case sg_out g of None \<Rightarrow> False | Some a \<Rightarrow> gone (av_route a)),
     sg_grant := (case sg_grant g of None \<Rightarrow> None | Some (route, rest) \<Rightarrow> if gone route then None else Some (route, rest)),
     sg_recent := map (forget gone) (sg_recent g)\<rparr>"

fun session_ghost :: "SessionGhost \<Rightarrow> SessionCall \<times> SpeakerAssetsSessionResult \<times> SpeakerAssetsEmission \<Rightarrow> SessionGhost" where
  "session_ghost g (SessionConsume route frame, res, emission) =
     (let g' = g\<lparr>sg_seen := (route, frame) # sg_seen g\<rparr>
      in case emission of EmitAction a \<Rightarrow> g'\<lparr>sg_out := Some a, sg_revoked := False\<rparr> | _ \<Rightarrow> g')"
| "session_ghost g (SessionComplete c, res, emission) =
     (case sg_out g of
        None \<Rightarrow> g
      | Some a \<Rightarrow>
          if res \<noteq> SsOk then g
          else case emission of
            EmitReply reply \<Rightarrow> g\<lparr>sg_out := None, sg_grant := grant_after a c reply (sg_grant g),
              sg_recent := (if has_flag reply kSpeakerAssetsFlagError then sg_recent g
                else tl (sg_recent g) @ [Some (av_route a, av_session_cookie a, av_request_id a)])\<rparr>
          | _ \<Rightarrow> g\<lparr>sg_out := None, sg_grant := None\<rparr>)"
| "session_ghost g (SessionRouteClosed route, out) = ghost_close (\<lambda>r. r = route) g"
| "session_ghost g (SessionAllRoutesClosed, out) = ghost_close (\<lambda>r. True) g"
| "session_ghost g (SessionExpire route, out) = ghost_close (\<lambda>r. False) g"

text \<open>An action that the ghost allows, and the answer to a completion.\<close>

fun action_allowed :: "SessionGhost \<Rightarrow> SessionCall \<times> SpeakerAssetsSessionResult \<times> SpeakerAssetsEmission \<Rightarrow> bool" where
  "action_allowed g (SessionConsume route frame, res, EmitAction a) \<longleftrightarrow>
     av_route a = route \<and> av_session_cookie a = fr_session_cookie frame \<and> av_request_id a = fr_request_id frame \<and>
     (let seen = (route, frame) # sg_seen g
      in case sg_grant g of
           None \<Rightarrow> opening_action seen a
         | Some (owner, cookie, identity) \<Rightarrow> owner_action seen owner cookie identity a)"
| "action_allowed g (SessionConsume route frame, res, emission) \<longleftrightarrow> True"
| "action_allowed g (call, res, emission) \<longleftrightarrow> (case emission of EmitAction a \<Rightarrow> False | _ \<Rightarrow> True)"

fun action_fresh :: "SessionGhost \<Rightarrow> SessionCall \<times> SpeakerAssetsSessionResult \<times> SpeakerAssetsEmission \<Rightarrow> bool" where
  "action_fresh g (call, res, EmitAction a) \<longleftrightarrow>
     Some (av_route a, av_session_cookie a, av_request_id a) \<notin> set (sg_recent g)"
| "action_fresh g (call, res, emission) \<longleftrightarrow> True"

fun action_exclusive :: "SessionGhost \<Rightarrow> SessionCall \<times> SpeakerAssetsSessionResult \<times> SpeakerAssetsEmission \<Rightarrow> bool" where
  "action_exclusive g (SessionConsume route frame, res, emission) \<longleftrightarrow>
     (case emission of EmitAction a \<Rightarrow> sg_out g = None | _ \<Rightarrow> True)"
| "action_exclusive g (SessionComplete c, res, emission) \<longleftrightarrow>
     (case sg_out g of
        None \<Rightarrow> res = SsNoPendingAction \<and> emission = EmitNone
      | Some a \<Rightarrow>
          if ac_token c = av_token a \<and> ac_kind c = av_kind a
          then res = SsOk \<and> (if sg_revoked g then emission = EmitNone else \<exists>reply. emission = EmitReply reply)
          else res = SsStaleCompletion \<and> emission = EmitNone)"
| "action_exclusive g (call, res, emission) \<longleftrightarrow> emission = EmitNone"

definition session_check :: "SessionGhost \<Rightarrow> SessionCall \<times> SpeakerAssetsSessionResult \<times> SpeakerAssetsEmission \<Rightarrow> bool" where
  "session_check g entry \<longleftrightarrow> action_allowed g entry \<and> action_fresh g entry \<and> action_exclusive g entry"

definition session_rel :: "SpeakerAssetsSession \<Rightarrow> SessionGhost \<Rightarrow> bool" where
  "session_rel s g \<longleftrightarrow> session_inv (sg_seen g) s \<and> sg_grant g = binding s \<and> sg_recent g = recent_keys s \<and>
     (case sg_out g of
        None \<Rightarrow> \<not> pn_active (ss_pending s)
      | Some a \<Rightarrow> handed_out s a \<and> pn_orphaned (ss_pending s) = sg_revoked g)"

lemma session_rel_init: "session_rel (init_session cookie_seed token_seed) start_ghost"
  using session_inv_init [of cookie_seed token_seed]
  by (simp add: session_rel_def start_ghost_def init_session_def binding_def recent_keys_def entry_key_def empty_replay_def no_pending_def)

lemma session_rel_closed:
  assumes rel: "session_rel s g" and over: "closed_over (sg_seen g) gone s s'" and r: "recent_keys s' = map (forget gone) (recent_keys s)"
  shows "session_rel s' (ghost_close gone g)"
proof -
  have "session_inv (sg_seen g) s'" "sg_grant (ghost_close gone g) = binding s'"
    using over rel by (auto simp: closed_over_def ghost_close_def session_rel_def)
  moreover have "case sg_out g of None \<Rightarrow> \<not> pn_active (ss_pending s')
      | Some a \<Rightarrow> handed_out s' a \<and> pn_orphaned (ss_pending s') = sg_revoked (ghost_close gone g)"
    using rel over closed_over_handed [OF over]
    by (cases "sg_out g") (auto simp: session_rel_def ghost_close_def closed_over_def)
  moreover have "sg_seen (ghost_close gone g) = sg_seen g" "sg_out (ghost_close gone g) = sg_out g"
      "sg_recent (ghost_close gone g) = recent_keys s'"
    using r rel by (simp_all add: ghost_close_def session_rel_def)
  ultimately show ?thesis unfolding session_rel_def by simp
qed

lemma session_rel_consume:
  assumes rel: "session_rel s g" and st: "session_consume s route frame = ((res, emission), s')"
  shows "session_rel s' (session_ghost g (SessionConsume route frame, res, emission))"
    and "session_check g (SessionConsume route frame, res, emission)"
proof -
  let ?seen = "(route, frame) # sg_seen g"
  have inv: "session_inv ?seen s" using rel session_inv_mono [of "sg_seen g" s ?seen] by (auto simp: session_rel_def)
  show "session_rel s' (session_ghost g (SessionConsume route frame, res, emission))"
  proof (cases "sg_out g")
    case None
    then have idle: "\<not> pn_active (ss_pending s)" using rel by (simp add: session_rel_def)
    have "consumed ?seen s route frame (emission, s')" by (rule consumed_session [OF inv _ idle st]) simp
    moreover from this have "recent_keys s' = recent_keys s" by (intro recent_same) (simp_all add: consumed_def)
    ultimately show ?thesis
      using rel None by (cases emission) (simp_all add: consumed_def session_rel_def Let_def)
  next
    case (Some a)
    then have "pn_active (ss_pending s)" using rel by (auto simp: session_rel_def handed_out_def)
    note b = busy_session [OF inv this st]
    show ?thesis using b inv rel Some by (cases emission) (auto simp: session_rel_def Let_def)
  qed
  show "session_check g (SessionConsume route frame, res, emission)"
  proof (cases "sg_out g")
    case None
    then have idle: "\<not> pn_active (ss_pending s)" using rel by (simp add: session_rel_def)
    have c: "consumed ?seen s route frame (emission, s')" by (rule consumed_session [OF inv _ idle st]) simp
    have "Some (route, fr_session_cookie frame, fr_request_id frame) \<notin> set (recent_keys s)" if "unanswered s route frame"
      using that by (simp add: recent_iff unanswered_def)
    then show ?thesis
      using c rel None
      by (cases emission) (auto simp: consumed_def session_rel_def session_check_def Let_def split: option.splits)
  next
    case (Some a)
    then have "pn_active (ss_pending s)" using rel by (auto simp: session_rel_def handed_out_def)
    then show ?thesis using busy_session(2) [OF inv _ st] by (cases emission) (auto simp: session_check_def)
  qed
qed

lemma session_rel_complete:
  assumes rel: "session_rel s g" and st: "session_complete s c = ((res, emission), s')"
  shows "session_rel s' (session_ghost g (SessionComplete c, res, emission))"
    and "session_check g (SessionComplete c, res, emission)"
proof -
  have inv: "session_inv (sg_seen g) s" and i: "sg_grant g = binding s" "sg_recent g = recent_keys s"
    using rel by (simp_all add: session_rel_def)
  have "session_rel s' (session_ghost g (SessionComplete c, res, emission)) \<and> session_check g (SessionComplete c, res, emission)"
  proof (cases "sg_out g")
    case None
    then show ?thesis using rel st complete_unasked(1) [of s c] by (auto simp: session_rel_def session_check_def)
  next
    case (Some a)
    then have a: "handed_out s a" "pn_orphaned (ss_pending s) = sg_revoked g" using rel by (simp_all add: session_rel_def)
    show ?thesis
    proof (cases "ac_token c = av_token a \<and> ac_kind c = av_kind a")
      case False
      then show ?thesis using rel st complete_unasked(2) [OF a(1) False] Some by (auto simp: session_check_def)
    next
      case True
      then have same: "ac_token c = av_token a" "ac_kind c = av_kind a" by simp_all
      show ?thesis
        using complete_taken [OF inv a(1) same st] complete_recent [OF inv a(1) st] a(2) same Some i
        by (cases "sg_revoked g") (auto simp: session_rel_def session_check_def completed_def)
    qed
  qed
  then show "session_rel s' (session_ghost g (SessionComplete c, res, emission))"
    "session_check g (SessionComplete c, res, emission)" by simp_all
qed

lemma session_rel_step:
  assumes rel: "session_rel s g" and st: "session_step s call = (s', out)"
  shows "session_rel s' (session_ghost g (call, out)) \<and> session_check g (call, out)"
proof -
  have inv: "session_inv (sg_seen g) s" and n: "length (ss_replay s) = kSpeakerAssetsReplayEntries"
    using rel by (simp_all add: session_rel_def session_inv_def)
  note closed = session_rel_closed [OF rel]
  show ?thesis
  proof (cases call)
    case (SessionConsume route frame)
    then show ?thesis using st session_rel_consume [OF rel] by (cases out) (auto split: prod.splits)
  next
    case (SessionComplete c)
    then show ?thesis using st session_rel_complete [OF rel] by (cases out) (auto split: prod.splits)
  next
    case (SessionRouteClosed route)
    then show ?thesis using st closed [OF route_closed_over [OF inv] closed_recent(1)] by (auto simp: session_check_def)
  next
    case SessionAllRoutesClosed
    then show ?thesis using st closed [OF all_routes_closed_over [OF inv] closed_recent(2) [OF n]] by (auto simp: session_check_def)
  next
    case (SessionExpire route)
    then show ?thesis using st closed [OF expired_over [OF inv] closed_recent(3)] by (auto simp: session_check_def)
  qed
qed

interpretation session_run: checked_machine session_step "init_session cookie_seed token_seed" "\<lambda>s. True" session_ghost start_ghost
    session_rel session_check
  for cookie_seed token_seed
  using session_rel_step by unfold_locales (auto simp: session_rel_init)

section \<open>A request sent again\<close>

text \<open>The actions of requests of one frame are those without a plan and without bytes.\<close>

lemma plan_action_has_plan: "consume_plan_action s route frame kind = (EmitAction a, s') \<Longrightarrow> av_plan a \<noteq> None"
  by (auto simp: consume_plan_action_def finish_plan_assembly_def plan_fragment_reply_def emit_status_def emit_action_def Let_def
      split: if_splits sum.splits prod.splits ReplayLookup.splits)

lemma data_action_has_bytes: "consume_data s route frame = (EmitAction a, s') \<Longrightarrow> av_bytes a \<noteq> None"
  by (auto simp: consume_data_def finish_unit_assembly_def unit_fragment_reply_def emit_status_def emit_action_def Let_def
      split: if_splits sum.splits prod.splits option.splits ReplayLookup.splits)

definition pending_frame :: "PendingAction \<Rightarrow> SpeakerAssetsRouteToken \<Rightarrow> SpeakerAssetsFrame \<Rightarrow> bool" where
  "pending_frame p route frame \<longleftrightarrow> pn_route p = route \<and> pn_request_cookie p = fr_session_cookie frame \<and>
     pn_request_id p = fr_request_id frame \<and> pn_opcode p = fr_opcode frame \<and> pn_region p = ManifestRegion \<and> pn_unit_index p = 0 \<and>
     pn_fingerprint p = frame_fingerprint frame"

definition answered_again :: "SpeakerAssetsSession \<Rightarrow> SpeakerAssetsRouteToken \<Rightarrow> SpeakerAssetsFrame \<Rightarrow> SpeakerAssetsFrame \<Rightarrow> bool" where
  "answered_again s route frame reply \<longleftrightarrow>
     lookup_replay s route (fr_session_cookie frame) (fr_request_id frame) (fr_opcode frame) ManifestRegion 0 (frame_fingerprint frame)
       = ReplayExact reply"

lemma pending_frame_begun:
  "begin_pending_action s kind route frame ManifestRegion 0 (frame_fingerprint frame) = (action, s') \<Longrightarrow>
     pending_frame (ss_pending s') route frame"
  "expect_identity identity (begin_pending_action s kind route frame ManifestRegion 0 (frame_fingerprint frame)) = (action, s') \<Longrightarrow>
     pending_frame (ss_pending s') route frame"
  by (auto simp: pending_frame_def begin_pending_action_def expect_identity_def Let_def split: prod.splits)

lemma single_frame_action:
  assumes "session_consume s route frame = ((res, EmitAction a), s')" "av_plan a = None" "av_bytes a = None"
  shows "pending_frame (ss_pending s') route frame"
    and "ss_phase t \<noteq> PhActionPending \<Longrightarrow> answered_again t route frame reply \<Longrightarrow> session_consume t route frame = ((SsOk, EmitReply reply), t)"
proof -
  have c: "consume_opcode s route frame = (EmitAction a, s')" and r: "route_is_valid route" "fr_request_id frame \<noteq> 0"
      "\<not> unat (fr_body_length frame) > kSpeakerAssetsWifiFrameBodyBytes" "fr_flags frame AND NOT kSpeakerAssetsKnownFlags = 0"
      "fr_flags frame AND (kSpeakerAssetsFlagResponse OR kSpeakerAssetsFlagError) = 0" "opcode_of (fr_opcode frame) \<noteq> Some OpCapabilities"
    using assms(1)
    by (auto simp: session_consume_def consume_capabilities_def emit_status_def Let_def split: if_splits prod.splits)
  consider (active) "opcode_of (fr_opcode frame) = Some OpCurrentActive" "consume_current_active s route frame = (EmitAction a, s')"
    | (resume) "opcode_of (fr_opcode frame) = Some OpResume" "consume_resume s route frame = (EmitAction a, s')"
    | (owner) kind where "consume_opcode t route frame = consume_owner_request t route frame kind"
        "consume_owner_request s route frame kind = (EmitAction a, s')"
    using c assms(2,3)
    by (auto simp: consume_opcode_def emit_status_def consume_query_def consume_terminal_action_def
        dest!: plan_action_has_plan data_action_has_bytes split: option.splits SpeakerAssetsOpcode.splits)
  then have *: "pending_frame (ss_pending s') route frame \<and>
     (ss_phase t \<noteq> PhActionPending \<longrightarrow> answered_again t route frame reply \<longrightarrow> consume_opcode t route frame = (EmitReply reply, t))"
  proof cases
    case active
    then show ?thesis
      by (auto simp: consume_opcode_def consume_current_active_def unless_replayed_def answered_again_def emit_status_def emit_action_def
          Let_def dest: pending_frame_begun split: if_splits ReplayLookup.splits prod.splits)
  next
    case resume
    then show ?thesis
      by (auto simp: consume_opcode_def consume_resume_def unless_replayed_def answered_again_def emit_status_def emit_action_def
          Let_def dest: pending_frame_begun split: if_splits ReplayLookup.splits prod.splits)
  next
    case owner
    then show ?thesis
      by (auto simp: consume_owner_request_def unless_replayed_def answered_again_def emit_status_def emit_action_def
          Let_def dest: pending_frame_begun split: if_splits ReplayLookup.splits prod.splits)
  qed
  then show "pending_frame (ss_pending s') route frame" by blast
  show "session_consume t route frame = ((SsOk, EmitReply reply), t)" if "ss_phase t \<noteq> PhActionPending" "answered_again t route frame reply"
    using * that r by (simp add: session_consume_def)
qed

lemma filter_put:
  assumes "i < length xs" "P x" "\<not> list_ex P xs"
  shows "filter P (xs[i := x]) = [x]"
proof -
  have "filter P (take i xs) = []" "filter P (drop (Suc i) xs) = []"
    using assms(3) by (auto simp: list_ex_iff filter_empty_conv dest: in_set_takeD in_set_dropD)
  then show ?thesis using assms(1,2) by (simp add: upd_conv_take_nth_drop)
qed

lemma complete_replay:
  assumes "session_complete s c = ((res, EmitReply reply), s')" "\<not> has_flag reply kSpeakerAssetsFlagError"
  shows "ss_replay s' = ss_replay (remember_replay (ss_pending s) reply s)"
  using assms status_error error_flags(2)
  by (auto simp: session_complete_def Let_def emit_status_def clear_pending_action_def dest: finish_replay split: if_splits sum.splits prod.splits)

lemma remembered_again:
  assumes "pending_frame p route frame" "unanswered s route frame" "ss_next_replay_slot s < length (ss_replay s)"
    "ss_replay t = ss_replay (remember_replay p reply s)"
  shows "answered_again t route frame reply"
proof -
  let ?P = "\<lambda>entry. entry_matches entry route (fr_session_cookie frame) (fr_request_id frame)"
  let ?e = "\<lparr>re_valid = True, re_route = pn_route p, re_request_cookie = pn_request_cookie p, re_request_id = pn_request_id p,
      re_opcode = pn_opcode p, re_region = pn_region p, re_unit_index = pn_unit_index p, re_fingerprint = pn_fingerprint p, re_reply = reply\<rparr>"
  have "filter ?P (ss_replay t) = [?e]"
    using assms by (simp add: remember_replay_def filter_put unanswered_def entry_matches_def pending_frame_def)
  then show ?thesis using assms(1) by (simp add: answered_again_def lookup_replay_def Let_def pending_frame_def)
qed

section \<open>Properties\<close>

text \<open>
  C5: over any calls, an action that uses an open update (a write, a progress query, a commit, an abort) is handed out only for a
  frame of the route that holds the grant, with the grant's cookie and for the grant's update, where the grant is what the last
  completed begin or resume gave and what no failed completion, end of the update or closing of its route took back; without a
  grant only opening actions are handed out.  The plan of an action decodes from bytes that its sender sent in that very request,
  and every byte of a unit was sent, at its place, in the request that the action answers.
\<close>

theorem session_actions_are_authorized:
  "checked_log action_allowed session_ghost start_ghost
     (run_log session_step (init_session cookie_seed action_token_seed) calls)"
  by (rule checked_log_mono [OF session_run.checked_reachable]) (simp add: session_check_def)

text \<open>
  C13: over any calls at most one action is out; a completion is taken exactly when it names the token and the kind of the action
  that is out, and then it is answered unless the route of the action was closed since; any other completion changes nothing
  that can be observed, and only frames lead to actions.
\<close>

theorem session_actions_are_exclusive:
  "checked_log action_exclusive session_ghost start_ghost
     (run_log session_step (init_session cookie_seed action_token_seed) calls)"
  by (rule checked_log_mono [OF session_run.checked_reachable]) (simp add: session_check_def)

text \<open>
  C16: over any calls, no action is handed out for a request whose route, cookie and request id are those of one of the last
  eight requests that were carried out with success, those of closed routes aside: a request that is sent again is not carried
  out again.
\<close>

theorem session_requests_act_once:
  "checked_log action_fresh session_ghost start_ghost
     (run_log session_step (init_session cookie_seed action_token_seed) calls)"
  by (rule checked_log_mono [OF session_run.checked_reachable]) (simp add: session_check_def)

text \<open>
  C14: the plan and the bytes that an action borrows are still what the session stores as long as the action is out, whatever
  frames come, whatever stale completions and closed routes: the store reads what it was given.
\<close>

theorem borrowed_data_stay:
  "case sg_out (foldl session_ghost start_ghost (run_log session_step (init_session cookie_seed action_token_seed) calls)) of
     None \<Rightarrow> True
   | Some a \<Rightarrow> borrowed (run (\<lambda>s call. fst (session_step s call)) (init_session cookie_seed action_token_seed) calls) a"
proof -
  define g where "g = foldl session_ghost start_ghost (run_log session_step (init_session cookie_seed action_token_seed) calls)"
  have "session_rel (run (\<lambda>s call. fst (session_step s call)) (init_session cookie_seed action_token_seed) calls) g"
    unfolding g_def by (rule session_run.rel_reachable)
  then show ?thesis unfolding g_def [symmetric] by (cases "sg_out g") (auto simp: session_rel_def handed_out_def)
qed

text \<open>
  C15: a request of one frame (commit, abort, query, resume, the query for the active bank) whose action was completed with success
  is, when the same frame comes again, answered with the very same reply, and the session stays as it is: after any calls, and
  even though a commit or an abort has ended the session's binding.
\<close>

theorem repeated_request_gets_its_reply:
  assumes "session_step (run (\<lambda>s call. fst (session_step s call)) (init_session cookie_seed action_token_seed) calls)
      (SessionConsume route frame) = (s1, res, EmitAction a)"
    and "av_plan a = None" and "av_bytes a = None"
    and "session_step s1 (SessionComplete c) = (s2, res', EmitReply reply)" and "\<not> has_flag reply kSpeakerAssetsFlagError"
  shows "session_step s2 (SessionConsume route frame) = (s2, SsOk, EmitReply reply)"
proof -
  let ?s = "run (\<lambda>s call. fst (session_step s call)) (init_session cookie_seed action_token_seed) calls"
  let ?l = "run_log session_step (init_session cookie_seed action_token_seed) calls"
  have rel: "session_rel ?s (foldl session_ghost start_ghost ?l)" by (rule session_run.rel_reachable)
  have st: "session_consume ?s route frame = ((res, EmitAction a), s1)" "session_complete s1 c = ((res', EmitReply reply), s2)"
    using assms(1,4) by (auto split: prod.splits)
  note form = single_frame_action [OF st(1) assms(2,3)]
  define g where "g = (foldl session_ghost start_ghost ?l)\<lparr>sg_seen := (route, frame) # sg_seen (foldl session_ghost start_ghost ?l)\<rparr>"
  have inv: "session_inv (sg_seen g) ?s"
    using rel session_inv_mono [of "sg_seen (foldl session_ghost start_ghost ?l)" ?s "sg_seen g"] by (auto simp: session_rel_def g_def)
  have idle: "\<not> pn_active (ss_pending ?s)" using busy_session(2) [OF inv _ st(1)] by blast
  have new: "(route, frame) \<in> set (sg_seen g)" by (simp add: g_def)
  have c: "consumed (sg_seen g) ?s route frame (EmitAction a, s1)" by (rule consumed_session [OF inv new idle st(1)])
  then have one: "session_inv (sg_seen g) s1" "handed_out s1 a" "unanswered s1 route frame"
    by (simp_all add: consumed_def unanswered_def)
  have taken: "ac_token c = av_token a" "ac_kind c = av_kind a"
    using complete_unasked(2) [OF one(2), of c] st(2) by auto
  have "\<exists>grant. completed (sg_seen g) grant s2" using complete_taken [OF one(1,2) taken st(2)] by (auto split: if_splits)
  then have phase: "ss_phase s2 \<noteq> PhActionPending" by (auto simp: completed_def session_inv_def)
  have "answered_again s2 route frame reply"
    by (rule remembered_again [OF form(1) one(3) _ complete_replay [OF st(2) assms(5)]]) (use one(1) in \<open>simp add: session_inv_def\<close>)
  then show ?thesis using form(2) phase by simp
qed

definition asking_frame :: SpeakerAssetsFrame where
  "asking_frame = empty_frame\<lparr>fr_opcode := 9, fr_flags := kSingleFrameRequestFlags, fr_request_id := 7\<rparr>"

definition asking_route :: SpeakerAssetsRouteToken where
  "asking_route = \<lparr>rt_transport = UsbTransport, rt_route_id = 0, rt_generation = 3\<rparr>"

definition asking_completion :: SpeakerAssetsActionCompletion where
  "asking_completion = \<lparr>ac_token = 9, ac_kind = ActQueryCurrentActive, ac_result = Inr (), ac_identity_valid = False,
     ac_identity = empty_identity, ac_progress_valid = False, ac_progress = empty_progress, ac_outcome_valid = False,
     ac_outcome = ToActive, ac_outcome_manifest_bytes = 0, ac_outcome_payload_bytes = 0, ac_current_active_valid = True,
     ac_current_active = \<lparr>sb_valid = False, sb_bank = BankA, sb_generation = 0, sb_base_generation = 0, sb_transaction_id = [],
       sb_manifest_bytes = 0, sb_payload_bytes = 0, sb_manifest_sha256 = [], sb_bundle_sha256 = []\<rparr>\<rparr>"

theorem repeated_request_gets_its_reply_witness:
  "let (s1, out1) = session_step (init_session 5 9) (SessionConsume asking_route asking_frame);
       (s2, out2) = session_step s1 (SessionComplete asking_completion)
   in session_step s2 (SessionConsume asking_route asking_frame) = (s2, out2) \<and> out2 \<noteq> (SsOk, EmitNone)"
proof -
  note defs = session_consume_def consume_opcode_def consume_current_active_def single_frame_request_def unless_replayed_def
    lookup_replay_def emit_action_def begin_pending_action_def next_action_token_def take_number_def number_after_def
  have "fr_flags asking_frame AND NOT kSpeakerAssetsKnownFlags = 0"
      "fr_flags asking_frame AND (kSpeakerAssetsFlagResponse OR kSpeakerAssetsFlagError) = 0"
    by (simp_all add: asking_frame_def kSingleFrameRequestFlags_def kSpeakerAssetsKnownFlags_def kSpeakerAssetsFlagResponse_def
        kSpeakerAssetsFlagError_def kSpeakerAssetsFlagAckRequested_def kSpeakerAssetsFlagFirstFragment_def
        kSpeakerAssetsFlagLastFragment_def kSpeakerAssetsFlagPayloadRegion_def)
  moreover have "route_is_valid asking_route" by (simp add: route_is_valid_def asking_route_def)
  moreover have "fr_opcode asking_frame = 9" "fr_flags asking_frame = kSingleFrameRequestFlags" "fr_request_id asking_frame = 7"
      "fr_session_cookie asking_frame = 0" "fr_object_offset asking_frame = 0" "fr_body_length asking_frame = 0"
    by (simp_all add: asking_frame_def empty_frame_def)
  ultimately obtain s1 a where st1: "session_step (init_session 5 9) (SessionConsume asking_route asking_frame) = (s1, SsOk, EmitAction a)"
      and a: "av_plan a = None" "av_bytes a = None" and p: "pn_active (ss_pending s1)" "pn_token (ss_pending s1) = 9"
        "pn_kind (ss_pending s1) = ActQueryCurrentActive" "pn_orphaned (ss_pending s1) = False"
    by (simp add: defs init_session_def plan_init opcode_of_def entry_matches_def empty_replay_def Let_def)
  moreover obtain s2 reply where st2: "session_step s1 (SessionComplete asking_completion) = (s2, SsOk, EmitReply reply)"
      "\<not> has_flag reply kSpeakerAssetsFlagError"
    using p by (simp add: session_complete_def completion_contract_valid_def asking_completion_def digest_is_valid_def
        active_snapshot_completion_is_well_formed_def finish_action_def reply_forms error_flags Let_def)
  ultimately show ?thesis
    using repeated_request_gets_its_reply [where calls = "[]" and cookie_seed = 5 and action_token_seed = 9, unfolded run_Nil,
        OF st1 a st2]
    by simp
qed

end
