(* ===== verification/Spec2Isabelle.thy ===== *)
theory Spec2Isabelle
  imports Prelude Slot_Runs Wheel_Queue_Facts Snapshot_Delivery Ble_Scheduler_Facts Transport_Routing_Facts Config_Receiver_Facts Audio_Arbiter_Facts Config_Facts Eci_Protocol Playback_Wire_Facts Fixed_Text_Facts Gatt_Facts Encoder Usb_Endpoint Sound_Commit_Facts Audio_Session Battery Link_State Platform_Selection Power_Policy Sound_Assembly Sound_Playing Sound_Session_Runs Sha256_Example
begin

text \<open>
  \<^bold>\<open>A verification library for the keyboard firmware.\<close>

  The program is the firmware of a small keyboard (directory \<^verbatim>\<open>firmware/\<close>): keys and a
  rotary encoder whose reports reach a host over USB or BLE, push-to-talk slots with a
  microphone and speaker, a configuration sent by the host, playback of summaries over the
  local network, and user sounds kept in flash.  The core logic lives in
  \<^verbatim>\<open>components/keyboard\<close>, \<^verbatim>\<open>components/eci_protocol\<close> and
  \<^verbatim>\<open>features/speaker_assets\<close> as classes without tasks or drivers; \<^verbatim>\<open>main/\<close> wires them to
  ESP-IDF.  The library models these classes and proves what makes each of them correct.
  File names below are relative to \<^verbatim>\<open>firmware/\<close>; \<^verbatim>\<open>K/\<close> stands for
  \<^verbatim>\<open>components/keyboard/\<close> with its \<^verbatim>\<open>include/keyboard\<close> and \<^verbatim>\<open>src\<close> directories,
  \<^verbatim>\<open>S/\<close> for \<^verbatim>\<open>features/speaker_assets/\<close>.

  \<^bold>\<open>Conventions.\<close>  A class or struct is a record whose fields carry a short prefix, an enum a
  datatype.  A method is a function on the record that returns its C++ result paired with the
  new state; a pure accessor is the record field.  Machine integers that can wrap are words of
  their width; sizes and indices that the code bounds are naturals, and the invariants show the
  bounds.  Null pointers are \<open>None\<close> where the code tests them.  An early return is a branch.  A
  component that is driven by its callers is a step function on an event datatype with one event
  per method, and the properties speak of runs: arbitrary call sequences from the constructor.

  \<^bold>\<open>Shared part.\<close>  Theory \<open>Prelude\<close> holds the words, runs and logs, the locales of machines
  with an invariant (\<open>event_machine\<close>), with a ghost value computed from the log
  (\<open>ghost_machine\<close>) and with a checker of outputs (\<open>observed_machine\<close>), ring buffers as
  lists and wrapping counters.  The component theories interpret the locales on their own
  definitions, and the properties of runs rest on the interpretations.

  \<^bold>\<open>Input path.\<close>
    \<^item> \<open>Keymap\<close>: \<^verbatim>\<open>K/keymap\<close>, inputs, actions and the event of an action edge.
    \<^item> \<open>Encoder\<close>: \<^verbatim>\<open>K/encoder\<close>, the quadrature decoder against a physical shaft, the queue of
      steps, the local volume.
    \<^item> \<open>Hid_Keycode\<close>: \<^verbatim>\<open>K/hid_keycode\<close>, hotkey strings and characters to keyboard reports.
    \<^item> \<open>Held_Keyboard\<close>: \<^verbatim>\<open>K/held_keyboard_state\<close>, the report as the union of the held sources.
    \<^item> \<open>Snapshot_Delivery\<close>: \<^verbatim>\<open>K/keyboard_snapshot_delivery\<close>, one pending state per endpoint.
    \<^item> \<open>Hid_Queue\<close>, \<open>Hid_Queue_Facts\<close>, \<open>Wheel_Queue_Facts\<close>: \<^verbatim>\<open>K/hid_report_queue\<close>, the ring
      buffers refine lists, releases find room, movement is conserved.
    \<^item> \<open>Ble_Scheduler\<close>, \<open>Ble_Scheduler_Facts\<close>: \<^verbatim>\<open>K/ble_input_scheduler\<close>, over the two queues;
      the transmit callback is a parameter, and the observers of its facts go by its answers.
    \<^item> \<open>Transport_Routing\<close>, \<open>Transport_Routing_Facts\<close>: \<^verbatim>\<open>K/transport_routing\<close>, presence, endpoint
      epochs, the latch of a chord, bridged hotkeys.
    \<^item> \<open>Usb_Endpoint\<close>: \<^verbatim>\<open>K/usb_hid_endpoint_arbiter\<close>, the fair arbiter and synthetic taps.
    \<^item> \<open>Fixed_Text_Stream\<close>, \<open>Fixed_Text_Facts\<close>: \<^verbatim>\<open>K/ble_fixed_text_stream\<close>, over the report queue.
    \<^item> \<open>Gatt_Snapshot\<close>, \<open>Gatt_Facts\<close>: \<^verbatim>\<open>K/gatt_status_snapshot\<close>, a cache that refines a list.

  \<^bold>\<open>Slots, audio and playback.\<close>
    \<^item> \<open>Slot_State\<close>, \<open>Slot_Runs\<close>: \<^verbatim>\<open>K/codex_slot_state\<close>, captures are bracketed, a playback is
      announced finished only after its whole delivery.
    \<^item> \<open>Audio_Arbiter\<close>, \<open>Audio_Arbiter_Facts\<close>: \<^verbatim>\<open>K/audio_io_arbiter\<close>, every method as a program of
      atomic accesses and as a function; deep sleep excludes audio under every interleaving of the
      threads.  That the speaker excludes the microphone is a lemma for sequentially consistent
      accesses, which the source does not ask for.
    \<^item> \<open>Eci_Protocol\<close>: \<^verbatim>\<open>components/eci_protocol\<close>, message names, replay window, frame tracker.
    \<^item> \<open>Playback_Wire\<close>, \<open>Playback_Wire_Facts\<close>: \<^verbatim>\<open>K/codex_playback_wire\<close>, authenticated packets;
      HMAC and AES-GCM are parameters.

  \<^bold>\<open>Configuration.\<close>
    \<^item> \<open>Config_Receiver\<close>, \<open>Config_Receiver_Facts\<close>: \<^verbatim>\<open>K/config_receiver\<close>, reassembly of chunks.
    \<^item> \<open>Json_Text\<close>, \<open>Json_Facts\<close>: the JSON scanner of \<^verbatim>\<open>K/config_payload\<close> and the escaping of
      \<^verbatim>\<open>K/config_status\<close>.  The field lookup runs with a bound of the text's length plus one; that
      it never needs more is proved (\<open>field_lookup_ends\<close>).
    \<^item> \<open>Config_Payload\<close>, \<open>Config_Facts\<close>: \<^verbatim>\<open>K/config_payload\<close> and \<^verbatim>\<open>K/config_state\<close>, well-formed
      results, the order of the checks, the configuration in force.

  \<^bold>\<open>Power, link and choices of the user.\<close>
    \<^item> \<open>Power_Policy\<close>: \<^verbatim>\<open>K/power_policy\<close>, \<^verbatim>\<open>K/power_cycle\<close>, \<^verbatim>\<open>K/peripheral_power_lease\<close>.
    \<^item> \<open>Battery\<close>: \<^verbatim>\<open>K/battery_estimator\<close>, percentages that stay in range and do not bounce.
    \<^item> \<open>Audio_Session\<close>: \<^verbatim>\<open>K/debounce\<close>, \<^verbatim>\<open>K/audio_session\<close>, \<^verbatim>\<open>K/speaker_playback\<close>,
      \<^verbatim>\<open>K/speaker_service_startup\<close>: the small state machines around capture and playback.
    \<^item> \<open>Link_State\<close>: \<^verbatim>\<open>K/ble_owner_recovery\<close>, \<^verbatim>\<open>K/ble_advertising_state\<close>,
      \<^verbatim>\<open>K/ble_connection_profile\<close>; a pending recovery always comes to an action.
    \<^item> \<open>Platform_Selection\<close>: \<^verbatim>\<open>K/platform_selection\<close>, the choice of the host platform by a key.

  \<^bold>\<open>User sounds.\<close>  Sounds are bundles in two flash banks; one is active while the App writes the
  other over the wire, and a commit record makes the new one active.
    \<^item> \<open>Sha256_Standard\<close>: SHA-256 as FIPS 180-4 defines it, with the constants computed from the
      roots of the primes; no code of the repository.  \<open>Sha256_Example\<close>: the standard's first example.
    \<^item> \<open>Sound_Crypto\<close>: \<^verbatim>\<open>S/sound_asset_crypto\<close>, the incremental SHA-256 against \<open>Sha256_Standard\<close>,
      CRC-32 with its published check value.
    \<^item> \<open>Sound_Flash\<close>: \<^verbatim>\<open>S/esp_sound_bank_storage\<close> over two partitions with the semantics of NOR
      flash: a write clears bits, an erase sets them, and either may fail half-way (a torn write
      or erase changes any of the bits it would have changed); every access and checkpoint may
      fail, as the list of faults in the state says.  A driver that refuses to set a cleared bit is
      the same list with a failure there.  A store operation is a state transformer with a sum as
      its result.
    \<^item> \<open>Sound_Format\<close>, \<open>Sound_Format_Facts\<close>: \<^verbatim>\<open>S/sound_asset_format\<close>, the check of a bundle and
      what it establishes: every resource, mapping and frame of the manifest is in bounds.
    \<^item> \<open>Sound_Store\<close>, \<open>Sound_Store_Facts\<close>: the records of \<^verbatim>\<open>S/sound_asset_store\<close> (staging header,
      journal, commit record), the validation of a bank, the choice of the active one.
    \<^item> \<open>Sound_Update\<close>, \<open>Sound_Update_Facts\<close>, \<open>Sound_Commit_Facts\<close>: the operations of the store.
      \<open>after\<close> says what holds after a state transformer, for either result; \<open>keeps\<close> is its
      instance that some banks stay as they were, which composes over \<open>proceed\<close> and loops.  On it
      rest the safety of the active and the leased bank under every fault and the correctness
      of a commit.  The safety covers every sequence of calls.  It has one exception, which the code
      has: a query that finds a commit other than the update's own in the bank of an open
      update makes that bank active and leaves the update open on it.
    \<^item> \<open>Sound_Reader\<close>, \<open>Sound_Reader_Facts\<close>, \<open>Sound_Playing\<close>: \<^verbatim>\<open>S/sound_asset_reader\<close>, the stream
      decoder.  \<open>reads\<close> is the logic of programs that only read a bank; a validated sound plays
      as the function \<open>stored_sound\<close> of the bank's bytes.
    \<^item> \<open>Sound_Protocol\<close>, \<open>Sound_Protocol_Facts\<close>, \<open>Sound_Assembly\<close>: \<^verbatim>\<open>S/speaker_assets_protocol\<close>,
      frames, plans and the assemblers of fragments, seen as partial maps of received bytes.
    \<^item> \<open>Sound_Session\<close>, \<open>Sound_Session_Facts\<close>, \<open>Sound_Session_Runs\<close>: \<^verbatim>\<open>S/speaker_assets_session\<close>,
      the session with the App.  A ghost computed from calls and outputs keeps the frames seen,
      the action that is out, the grant and the last eight answered requests; the actions that
      the session hands to the store are those the ghost allows.

  \<^bold>\<open>Bounds and fuel.\<close>  Loops are structural, or recursive with a measure; the field lookup has the
  fuel named above and the reads of a flash region go in pieces of 256 bytes by a terminating
  \<open>function\<close>.  \<^verbatim>\<open>std::uint32_t\<close> sizes of the store that the code bounds before it uses them are naturals.

  \<^bold>\<open>Not modelled.\<close>
    \<^item> \<^verbatim>\<open>main/app_main.cpp\<close> and \<^verbatim>\<open>main/platform\<close>: drivers and tasks, ESP-IDF, FreeRTOS, NimBLE and
      TinyUSB calls around the modelled classes.  What they compute is in hardware registers and
      in libraries that are not part of the repository.
    \<^item> \<^verbatim>\<open>components/esp_hid\<close>: vendored from ESP-IDF.
    \<^item> \<^verbatim>\<open>S/speaker_assets_runtime\<close>, \<^verbatim>\<open>S/speaker_assets_flash_runner\<close>: queues and a worker task that
      move frames and actions between the session, the transports and the store; their state is
      shared by tasks under critical sections.  \<^verbatim>\<open>S/speaker_assets_wifi_wire\<close>, the wrapping of
      frames in authenticated packets, like the playback wire format; \<^verbatim>\<open>S/factory_boot_sound\<close>,
      \<^verbatim>\<open>S/volume_prompt\<close>, embedded data; \<^verbatim>\<open>S/diagnostic_link_anchor\<close>, references for the linker.
    \<^item> Of \<^verbatim>\<open>K/config_status\<close> only the string escaping.  Tables of names and colours and fixed packets
      (\<^verbatim>\<open>K/speaker_probe_status\<close>, \<^verbatim>\<open>K/mailbox_led\<close>, \<^verbatim>\<open>K/input_feedback\<close>, \<^verbatim>\<open>K/audio_control_wire\<close>,
      \<^verbatim>\<open>K/audio_packet_wire\<close>, \<^verbatim>\<open>K/agent_status\<close>, \<^verbatim>\<open>K/ble_status_wire\<close>, \<^verbatim>\<open>K/board_pins\<close>) and diagnostics
      over a console (\<^verbatim>\<open>K/input_test\<close>, \<^verbatim>\<open>K/diagnostic_command\<close>).
    \<^item> Host tools, tests, the simulator and the desktop application.
    \<^item> Locks and task scheduling, except in the audio arbiter: its threads interleave at every
      atomic access, under sequential consistency, while the code asks for acquire and release.
      Sums that the code keeps in an \<^verbatim>\<open>int\<close> without a check are unbounded; the manifest of this
      library lists where that hides an overflow.
\<close>

end
